(* ===== verification/Prelude.thy ===== *)
theory Prelude
  imports Main "HOL-Library.Char_ord" "HOL-Library.List_Lexorder" "HOL-Library.Product_Lexorder"
    "HOL-Library.Option_ord" "HOL-Library.Multiset"
begin

text \<open>
  Shared vocabulary of the development: instants and SQL tables as lists of rows, the sequencing
  of fallible steps, decimal and ISO-8601 printing of numbers and instants, joined key segments,
  and the generic locales for invariants of step relations and for capped exponential back-off.
  The collections \<open>table_simps\<close> and \<open>result_simps\<close> carry most component proofs.
\<close>

named_theorems table_simps \<open>rewriting of SQL-style table operations\<close>
named_theorems result_simps \<open>sequencing of fallible steps\<close>

section \<open>Instants, results and rows\<close>

text \<open>An instant is a number of milliseconds since the Unix epoch, the value of
  \<^verbatim>\<open>Date.getTime()\<close>.\<close>

type_synonym instant = int

text \<open>A fallible step returns \<open>Inl\<close> of what was thrown or \<open>Inr\<close> of its value.\<close>

definition bind_err :: "'e + 'a \<Rightarrow> ('a \<Rightarrow> 'e + 'b) \<Rightarrow> 'e + 'b" where
  "bind_err m f = (case m of Inl e \<Rightarrow> Inl e | Inr x \<Rightarrow> f x)"

lemma bind_err_simps [simp, result_simps]:
  "bind_err (Inl e) f = Inl e"
  "bind_err (Inr x) f = f x"
  by (simp_all add: bind_err_def)

lemma bind_err_Inr_iff [result_simps]:
  "bind_err m f = Inr y \<longleftrightarrow> (\<exists>x. m = Inr x \<and> f x = Inr y)"
  by (cases m) auto

lemma bind_err_InrE:
  assumes "bind_err m f = Inr y"
  obtains x where "m = Inr x" "f x = Inr y"
  using assms by (auto simp: bind_err_Inr_iff)

lemma bind_err_Inl_iff:
  "bind_err m f = Inl e \<longleftrightarrow> m = Inl e \<or> (\<exists>x. m = Inr x \<and> f x = Inl e)"
  by (cases m) auto

lemma bind_err_assoc: "bind_err (bind_err m f) g = bind_err m (\<lambda>x. bind_err (f x) g)"
  by (cases m) auto

text \<open>A loop over rows that threads the state and stops at the first error
  (\<^verbatim>\<open>for (const row of rows) await ...\<close>).\<close>

fun fold_err :: "('a \<Rightarrow> 's \<Rightarrow> 'e + 's) \<Rightarrow> 'a list \<Rightarrow> 's \<Rightarrow> 'e + 's" where
  "fold_err f [] s = Inr s"
| "fold_err f (x # xs) s = bind_err (f x s) (fold_err f xs)"

lemma fold_err_append: "fold_err f (xs @ ys) s = bind_err (fold_err f xs s) (fold_err f ys)"
  by (induction xs arbitrary: s) (auto simp: bind_err_def split: sum.splits)

lemma fold_err_invariant:
  assumes "fold_err f xs s = Inr s'" and "P s"
    and "\<And>x s s'. x \<in> set xs \<Longrightarrow> P s \<Longrightarrow> f x s = Inr s' \<Longrightarrow> P s'"
  shows "P s'"
  using assms
proof (induction xs arbitrary: s)
  case Nil
  then show ?case by simp
next
  case (Cons x xs)
  from Cons.prems(1) obtain s1 where s1: "f x s = Inr s1" "fold_err f xs s1 = Inr s'"
    by (auto simp: bind_err_Inr_iff)
  have "P s1" using Cons.prems(2,3) s1(1) by auto
  with s1(2) show ?case using Cons.IH [of s1] Cons.prems(3) by auto
qed

text \<open>The same loop when every iteration also pushes a value.\<close>

fun collect_err :: "('a \<Rightarrow> 's \<Rightarrow> 'e + ('b \<times> 's)) \<Rightarrow> 'a list \<Rightarrow> 's \<Rightarrow> 'e + ('b list \<times> 's)" where
  "collect_err f [] s = Inr ([], s)"
| "collect_err f (x # xs) s =
     bind_err (f x s) (\<lambda>(y, s). bind_err (collect_err f xs s) (\<lambda>(ys, s). Inr (y # ys, s)))"

text \<open>SQL comparisons with a nullable column: never true of \<^verbatim>\<open>NULL\<close>.\<close>

definition sql_le :: "'a::linorder option \<Rightarrow> 'a \<Rightarrow> bool" where
  "sql_le v t = (case v of None \<Rightarrow> False | Some x \<Rightarrow> x \<le> t)"

definition sql_gt :: "'a::linorder option \<Rightarrow> 'a \<Rightarrow> bool" where
  "sql_gt v t = (case v of None \<Rightarrow> False | Some x \<Rightarrow> t < x)"

definition coalesce :: "'a option \<Rightarrow> 'a option \<Rightarrow> 'a option" where
  "coalesce a b = (case a of None \<Rightarrow> b | Some x \<Rightarrow> Some x)"

section \<open>Tables\<close>

text \<open>\<^verbatim>\<open>UPDATE table SET ... WHERE P\<close>, \<^verbatim>\<open>SELECT ... WHERE P\<close> (first row),
  \<^verbatim>\<open>rowCount\<close> and \<^verbatim>\<open>ORDER BY key LIMIT n\<close>.\<close>

definition update_rows :: "('r \<Rightarrow> bool) \<Rightarrow> ('r \<Rightarrow> 'r) \<Rightarrow> 'r list \<Rightarrow> 'r list" where
  "update_rows P f tbl = map (\<lambda>r. if P r then f r else r) tbl"

definition first_row :: "('r \<Rightarrow> bool) \<Rightarrow> 'r list \<Rightarrow> 'r option" where
  "first_row P tbl = List.find P tbl"

definition row_count :: "('r \<Rightarrow> bool) \<Rightarrow> 'r list \<Rightarrow> nat" where
  "row_count P tbl = length (filter P tbl)"

definition order_limit :: "('r \<Rightarrow> 'k::linorder) \<Rightarrow> nat \<Rightarrow> 'r list \<Rightarrow> 'r list" where
  "order_limit key n rows = take n (sort_key key rows)"

text \<open>\<^verbatim>\<open>ORDER BY key DESC LIMIT 1\<close> over the rows that satisfy \<open>P\<close>.\<close>

definition latest_row :: "('r \<Rightarrow> 'k::linorder) \<Rightarrow> ('r \<Rightarrow> bool) \<Rightarrow> 'r list \<Rightarrow> 'r option" where
  "latest_row key P tbl =
     (case sort_key key (filter P tbl) of [] \<Rightarrow> None | rows \<Rightarrow> Some (last rows))"

lemma length_update_rows [simp]: "length (update_rows P f tbl) = length tbl"
  by (simp add: update_rows_def)

lemma update_rows_Nil [simp]: "update_rows P f [] = []"
  by (simp add: update_rows_def)

lemma update_rows_append [simp]:
  "update_rows P f (xs @ ys) = update_rows P f xs @ update_rows P f ys"
  by (simp add: update_rows_def)

lemma set_update_rows:
  "set (update_rows P f tbl) = {r \<in> set tbl. \<not> P r} \<union> f ` {r \<in> set tbl. P r}"
  by (auto simp: update_rows_def)

lemma in_set_update_rowsE:
  assumes "r \<in> set (update_rows P f tbl)"
  obtains "r \<in> set tbl" "\<not> P r" | r0 where "r0 \<in> set tbl" "P r0" "r = f r0"
  using assms by (auto simp: set_update_rows)

text \<open>An update that keeps a column keeps the list of its values.\<close>

lemma map_update_rows [table_simps]:
  assumes "\<And>r. P r \<Longrightarrow> g (f r) = g r"
  shows "map g (update_rows P f tbl) = map g tbl"
  using assms by (simp add: update_rows_def)

lemma filter_update_rows:
  assumes "\<And>r. P r \<Longrightarrow> Q (f r) = Q r"
  shows "filter Q (update_rows P f tbl) = update_rows P f (filter Q tbl)"
  using assms by (induction tbl) (auto simp: update_rows_def)

lemma update_rows_none: "(\<And>r. r \<in> set tbl \<Longrightarrow> \<not> P r) \<Longrightarrow> update_rows P f tbl = tbl"
  by (simp add: update_rows_def map_idI)

lemma first_row_SomeD: "first_row P tbl = Some r \<Longrightarrow> r \<in> set tbl \<and> P r"
  by (auto simp: first_row_def find_Some_iff)

lemma first_row_None_iff: "first_row P tbl = None \<longleftrightarrow> (\<forall>r \<in> set tbl. \<not> P r)"
  by (auto simp: first_row_def find_None_iff)

lemma first_row_append:
  "first_row P (xs @ ys) = (case first_row P xs of None \<Rightarrow> first_row P ys | Some r \<Rightarrow> Some r)"
  by (induction xs) (auto simp: first_row_def)

lemma first_row_update_rows:
  assumes "\<And>r. Q r \<Longrightarrow> P (f r) = P r"
  shows "first_row P (update_rows Q f tbl) =
    map_option (\<lambda>r. if Q r then f r else r) (first_row P tbl)"
  using assms by (induction tbl) (auto simp: update_rows_def first_row_def)

text \<open>With a unique key, the row found under a key is the only one.\<close>

lemma unique_key_rows:
  assumes "distinct (map key tbl)" "r \<in> set tbl" "s \<in> set tbl" "key r = key s"
  shows "r = s"
  using assms by (auto simp: distinct_map inj_on_def)

lemma first_row_unique:
  assumes "distinct (map key tbl)" "r \<in> set tbl"
  shows "first_row (\<lambda>s. key s = key r) tbl = Some r"
proof (cases "first_row (\<lambda>s. key s = key r) tbl")
  case None
  with assms(2) show ?thesis by (auto simp: first_row_None_iff)
next
  case (Some s)
  then have "s \<in> set tbl" "key s = key r" by (auto dest: first_row_SomeD)
  with assms Some show ?thesis using unique_key_rows by metis
qed

lemma row_count_pos_iff: "0 < row_count P tbl \<longleftrightarrow> (\<exists>r \<in> set tbl. P r)"
  by (induction tbl) (auto simp: row_count_def)

lemma row_count_unique:
  assumes "distinct (map key tbl)" "\<And>r. P r \<Longrightarrow> key r = k"
  shows "row_count P tbl \<le> 1"
proof -
  have "distinct (map key (filter P tbl))"
    using assms(1) by (simp add: distinct_map_filter)
  then have "length (map key (filter P tbl)) = card (set (map key (filter P tbl)))"
    by (simp only: distinct_card)
  also have "\<dots> \<le> card {k}"
    using assms(2) by (intro card_mono) auto
  finally show ?thesis by (simp add: row_count_def)
qed

lemma set_order_limit: "set (order_limit key n rows) \<subseteq> set rows"
  unfolding order_limit_def by (metis set_take_subset set_sort)

lemma distinct_order_limit:
  "distinct (map g rows) \<Longrightarrow> distinct (map g (order_limit key n rows))"
proof -
  assume d: "distinct (map g rows)"
  have "mset (map g (sort_key key rows)) = mset (map g rows)" by simp
  with d have "distinct (map g (sort_key key rows))"
    by (metis mset_eq_imp_distinct_iff)
  then show ?thesis by (simp add: order_limit_def take_map [symmetric] distinct_take)
qed

lemma latest_row_SomeD: "latest_row key P tbl = Some r \<Longrightarrow> r \<in> set tbl \<and> P r"
proof -
  assume a: "latest_row key P tbl = Some r"
  then obtain rows where rows: "sort_key key (filter P tbl) = rows" "rows \<noteq> []" "r = last rows"
    by (auto simp: latest_row_def split: list.splits)
  then have "r \<in> set (sort_key key (filter P tbl))" by auto
  then show ?thesis by simp
qed

lemma latest_row_None_iff: "latest_row key P tbl = None \<longleftrightarrow> (\<forall>r \<in> set tbl. \<not> P r)"
proof -
  have "latest_row key P tbl = None \<longleftrightarrow> sort_key key (filter P tbl) = []"
    by (auto simp: latest_row_def split: list.splits)
  also have "\<dots> \<longleftrightarrow> set (sort_key key (filter P tbl)) = {}"
    by (simp only: set_empty)
  also have "\<dots> \<longleftrightarrow> (\<forall>r \<in> set tbl. \<not> P r)" by auto
  finally show ?thesis .
qed

lemma latest_row_max:
  assumes "latest_row key P tbl = Some r" "s \<in> set tbl" "P s"
  shows "key s \<le> key r"
proof -
  let ?rows = "sort_key key (filter P tbl)"
  from assms(1) have r: "?rows \<noteq> []" "r = last ?rows"
    by (auto simp: latest_row_def split: list.splits)
  then have eq: "?rows = butlast ?rows @ [r]" by simp
  have "sorted (map key ?rows)" by simp
  then have "sorted (map key (butlast ?rows @ [r]))" using eq by simp
  then have "\<forall>x \<in> set (butlast ?rows). key x \<le> key r" by (simp add: sorted_append)
  moreover have "s \<in> set ?rows" using assms(2,3) by simp
  then have "s \<in> set (butlast ?rows @ [r])" using eq by simp
  ultimately show ?thesis by auto
qed

section \<open>Printing\<close>

text \<open>\<^verbatim>\<open>String(n)\<close> of a non-negative integer, and of any integer.\<close>

definition digit_char :: "nat \<Rightarrow> char" where
  "digit_char d = ''0123456789'' ! d"

fun show_nat :: "nat \<Rightarrow> string" where
  "show_nat n = (if n < 10 then [digit_char n] else show_nat (n div 10) @ [digit_char (n mod 10)])"

declare show_nat.simps [simp del]

definition show_int :: "int \<Rightarrow> string" where
  "show_int i = (if i < 0 then CHR ''-'' # show_nat (nat (- i)) else show_nat (nat i))"

definition is_digit :: "char \<Rightarrow> bool" where
  "is_digit c = (c \<in> set ''0123456789'')"

definition read_digit :: "char \<Rightarrow> nat" where
  "read_digit c = length (takeWhile (\<lambda>d. d \<noteq> c) ''0123456789'')"

definition read_nat :: "string \<Rightarrow> nat" where
  "read_nat ds = foldl (\<lambda>acc c. 10 * acc + read_digit c) 0 ds"

lemma less_10_cases:
  fixes d :: nat
  assumes "d < 10"
  shows "d \<in> {0, 1, 2, 3, 4, 5, 6, 7, 8, 9}"
  using assms by auto

lemma read_digit_char: "d < 10 \<Longrightarrow> read_digit (digit_char d) = d"
  by (drule less_10_cases) (auto simp: read_digit_def digit_char_def)

lemma is_digit_digit_char: "d < 10 \<Longrightarrow> is_digit (digit_char d)"
  by (drule less_10_cases) (auto simp: is_digit_def digit_char_def)

lemma read_show_nat: "read_nat (show_nat n) = n"
proof (induction n rule: show_nat.induct)
  case (1 n)
  show ?case
  proof (cases "n < 10")
    case True
    then show ?thesis by (subst show_nat.simps) (simp add: read_nat_def read_digit_char)
  next
    case False
    then have "read_nat (show_nat n) = 10 * read_nat (show_nat (n div 10)) + n mod 10"
      by (subst show_nat.simps) (simp add: read_nat_def read_digit_char)
    then show ?thesis using "1.IH" False by simp
  qed
qed

lemma show_nat_inject [simp]: "show_nat m = show_nat n \<longleftrightarrow> m = n"
  by (metis read_show_nat)

lemma show_nat_digits: "c \<in> set (show_nat n) \<Longrightarrow> is_digit c"
proof (induction n rule: show_nat.induct)
  case (1 n)
  show ?case
  proof (cases "n < 10")
    case True
    with 1 show ?thesis by (simp add: show_nat.simps [of n] is_digit_digit_char)
  next
    case False
    with 1 show ?thesis by (auto simp: show_nat.simps [of n] is_digit_digit_char)
  qed
qed

lemma show_nat_not_Nil [simp]: "show_nat n \<noteq> []"
  by (subst show_nat.simps) simp

text \<open>Key segments joined by a colon, as the template literals of event keys do; joining is
  injective on segments without a colon.\<close>

fun join_colon :: "string list \<Rightarrow> string" where
  "join_colon [] = []"
| "join_colon [s] = s"
| "join_colon (s # t # ss) = s @ CHR '':'' # join_colon (t # ss)"

definition colon_free :: "string \<Rightarrow> bool" where
  "colon_free s = (CHR '':'' \<notin> set s)"

lemma append_sep_inject:
  assumes "c \<notin> set s" "c \<notin> set t" "s @ c # xs = t @ c # ys"
  shows "s = t \<and> xs = ys"
  using assms
proof (induction s arbitrary: t)
  case Nil
  then show ?case by (cases t) auto
next
  case (Cons a s)
  then show ?case by (cases t) auto
qed

lemma join_colon_inject:
  assumes "ss \<noteq> []" "ts \<noteq> []" "list_all colon_free ss" "list_all colon_free ts"
    and "join_colon ss = join_colon ts"
  shows "ss = ts"
  using assms
proof (induction ss arbitrary: ts rule: join_colon.induct)
  case 1
  then show ?case by simp
next
  case (2 s)
  then show ?case
    by (cases ts rule: join_colon.cases) (auto simp: colon_free_def)
next
  case (3 s s' ss)
  then obtain t t' ts' where ts: "ts = t # t' # ts'"
    by (cases ts rule: join_colon.cases) (auto simp: colon_free_def)
  with 3 have "s = t \<and> join_colon (s' # ss) = join_colon (t' # ts')"
    by (intro append_sep_inject) (auto simp: colon_free_def)
  moreover from this have "s' # ss = t' # ts'"
    using 3(1) [of "t' # ts'"] 3(4,5) ts by simp
  ultimately show ?case using ts by simp
qed

lemma colon_free_show_nat [simp]: "colon_free (show_nat n)"
  using show_nat_digits [of "CHR '':''" n] by (auto simp: colon_free_def is_digit_def)

text \<open>\<^verbatim>\<open>Date.prototype.toISOString\<close>: the proleptic Gregorian date of the day number,
  then the time of day with milliseconds; years outside \<open>0 \<dots> 9999\<close> are signed with six digits.\<close>

fun pad_left :: "nat \<Rightarrow> string \<Rightarrow> string" where
  "pad_left w s = replicate (w - length s) (CHR ''0'') @ s"

definition civil_date :: "int \<Rightarrow> int \<times> int \<times> int" where
  "civil_date day =
     (let z = day + 719468;
          era = z div 146097;
          doe = z mod 146097;
          yoe = (doe - doe div 1460 + doe div 36524 - doe div 146096) div 365;
          doy = doe - (365 * yoe + yoe div 4 - yoe div 100);
          mp = (5 * doy + 2) div 153;
          d = doy - (153 * mp + 2) div 5 + 1;
          m = (if mp < 10 then mp + 3 else mp - 9);
          y = yoe + era * 400 + (if m \<le> 2 then 1 else 0)
      in (y, m, d))"

definition show_year :: "int \<Rightarrow> string" where
  "show_year y = (if 0 \<le> y \<and> y \<le> 9999 then pad_left 4 (show_nat (nat y))
     else (if y < 0 then ''-'' else ''+'') @ pad_left 6 (show_nat (nat \<bar>y\<bar>)))"

definition toISOString :: "instant \<Rightarrow> string" where
  "toISOString t =
     (let day = t div 86400000; tod = nat (t mod 86400000); (y, m, d) = civil_date day
      in show_year y @ ''-'' @ pad_left 2 (show_nat (nat m)) @ ''-'' @ pad_left 2 (show_nat (nat d))
         @ ''T'' @ pad_left 2 (show_nat (tod div 3600000))
         @ '':'' @ pad_left 2 (show_nat (tod div 60000 mod 60))
         @ '':'' @ pad_left 2 (show_nat (tod div 1000 mod 60))
         @ ''.'' @ pad_left 3 (show_nat (tod mod 1000)) @ ''Z'')"

section \<open>Invariants of step relations\<close>

text \<open>A step relation together with an invariant that holds initially and is kept by every step;
  the invariant then holds in every reachable state.\<close>

locale step_invariant =
  fixes init :: "'s \<Rightarrow> bool"
    and step :: "'s \<Rightarrow> 's \<Rightarrow> bool"
    and inv :: "'s \<Rightarrow> bool"
  assumes init_inv: "init s \<Longrightarrow> inv s"
    and step_inv: "step s s' \<Longrightarrow> inv s \<Longrightarrow> inv s'"
begin

lemma steps_inv: "step\<^sup>*\<^sup>* s s' \<Longrightarrow> inv s \<Longrightarrow> inv s'"
  by (induction rule: rtranclp_induct) (auto intro: step_inv)

lemma reachable_inv: "init s \<Longrightarrow> step\<^sup>*\<^sup>* s s' \<Longrightarrow> inv s'"
  by (blast intro: init_inv steps_inv)

end

text \<open>A system in which what is recorded under a key is never changed afterwards.\<close>

locale write_once = step_invariant init step inv
  for init :: "'s \<Rightarrow> bool" and step :: "'s \<Rightarrow> 's \<Rightarrow> bool" and inv :: "'s \<Rightarrow> bool" +
  fixes val :: "'s \<Rightarrow> 'k \<Rightarrow> 'v option"
  assumes kept: "step s s' \<Longrightarrow> inv s \<Longrightarrow> val s k = Some v \<Longrightarrow> val s' k = Some v"
begin

lemma steps_kept: "step\<^sup>*\<^sup>* s s' \<Longrightarrow> inv s \<Longrightarrow> val s k = Some v \<Longrightarrow> val s' k = Some v"
  by (induction rule: rtranclp_induct) (auto intro: kept steps_inv)

lemma reachable_kept:
  assumes "init s0" "step\<^sup>*\<^sup>* s0 s" "step\<^sup>*\<^sup>* s s'" "val s k = Some v"
  shows "val s' k = Some v"
  using assms steps_kept reachable_inv by blast

text \<open>Two observers of the same run never see different values.\<close>

lemma observers_agree:
  assumes "init s0" "step\<^sup>*\<^sup>* s0 s" "step\<^sup>*\<^sup>* s s'" "val s k = Some v" "val s' k = Some v'"
  shows "v = v'"
  using reachable_kept [OF assms(1-4)] assms(5) by simp

end

text \<open>A relation between a state and a later one that every step respects and that is reflexive
  and transitive relates every state to all its successors.\<close>

locale step_progress =
  fixes step :: "'s \<Rightarrow> 's \<Rightarrow> bool"
    and rel :: "'s \<Rightarrow> 's \<Rightarrow> bool"
  assumes rel_refl: "rel s s"
    and rel_trans: "rel s t \<Longrightarrow> rel t u \<Longrightarrow> rel s u"
    and step_rel: "step s t \<Longrightarrow> rel s t"
begin

lemma steps_rel: "step\<^sup>*\<^sup>* s t \<Longrightarrow> rel s t"
  by (induction rule: rtranclp_induct) (auto intro: rel_refl rel_trans step_rel)

end

text \<open>A fallible operation respects a relation between states when the state it returns, if it
  returns one, is related to the state it started from.  For a reflexive and transitive relation
  the property goes through sequencing, branching and loops.\<close>

definition keeps :: "('s \<Rightarrow> 's \<Rightarrow> bool) \<Rightarrow> ('y \<Rightarrow> 's) \<Rightarrow> 's \<Rightarrow> 'e + 'y \<Rightarrow> bool" where
  "keeps rel get s m = (case m of Inl _ \<Rightarrow> True | Inr y \<Rightarrow> rel s (get y))"

lemma keeps_Inl [simp]: "keeps rel get s (Inl e)"
  by (simp add: keeps_def)

lemma keeps_Inr [simp]: "keeps rel get s (Inr y) = rel s (get y)"
  by (simp add: keeps_def)

lemma keepsD: "keeps rel get s m \<Longrightarrow> m = Inr y \<Longrightarrow> rel s (get y)"
  by (simp add: keeps_def)

lemma keepsI: "(\<And>y. m = Inr y \<Longrightarrow> rel s (get y)) \<Longrightarrow> keeps rel get s m"
  by (simp add: keeps_def split: sum.splits)

locale effect =
  fixes rel :: "'s \<Rightarrow> 's \<Rightarrow> bool"
  assumes effect_refl: "rel s s"
    and effect_trans: "rel s t \<Longrightarrow> rel t u \<Longrightarrow> rel s u"
begin

lemma keeps_bind:
  assumes "keeps rel get s m" and "\<And>y. m = Inr y \<Longrightarrow> keeps rel get' (get y) (f y)"
  shows "keeps rel get' s (bind_err m f)"
  using assms by (cases m) (auto simp: keeps_def split: sum.splits intro: effect_trans)

lemma keeps_bind_value:
  assumes "\<And>y. m = Inr y \<Longrightarrow> keeps rel get' s (f y)"
  shows "keeps rel get' s (bind_err m f)"
  using assms by (cases m) auto

lemma keeps_after:
  assumes "rel s t" "keeps rel get t m"
  shows "keeps rel get s m"
  using assms by (auto simp: keeps_def split: sum.splits intro: effect_trans)

lemma keeps_fold:
  assumes "\<And>x s. x \<in> set xs \<Longrightarrow> keeps rel (\<lambda>x. x) s (f x s)"
  shows "keeps rel (\<lambda>x. x) s (fold_err f xs s)"
  using assms
proof (induction xs arbitrary: s)
  case Nil
  then show ?case by (simp add: effect_refl)
next
  case (Cons x xs)
  then show ?case by (auto intro!: keeps_bind [where get = "\<lambda>x. x"])
qed

lemma keeps_collect:
  assumes "\<And>x s. x \<in> set xs \<Longrightarrow> keeps rel snd s (f x s)"
  shows "keeps rel snd s (collect_err f xs s)"
  using assms
proof (induction xs arbitrary: s)
  case Nil
  then show ?case by (simp add: effect_refl)
next
  case (Cons x xs)
  have "keeps rel snd s' (bind_err (collect_err f xs s') (\<lambda>(ys, s). Inr (y # ys, s)))" for y s'
    by (rule keeps_bind [OF Cons.IH]) (auto simp: effect_refl intro: Cons.prems)
  then have "keeps rel snd (snd p)
      ((\<lambda>(y, s). bind_err (collect_err f xs s) (\<lambda>(ys, s). Inr (y # ys, s))) p)" for p
    by (cases p) simp
  then show ?case
    unfolding collect_err.simps by (intro keeps_bind [of snd s "f x s" snd]) (auto intro: Cons.prems)
qed

end

section \<open>Capped exponential back-off\<close>

text \<open>The delays of the retry loops: positive, growing with the attempt and never above the cap.\<close>

locale backoff =
  fixes delay :: "nat \<Rightarrow> int" and cap :: int
  assumes delay_pos: "0 < delay n"
    and delay_cap: "delay n \<le> cap"
    and delay_Suc: "delay n \<le> delay (Suc n)"
begin

lemma delay_mono: "m \<le> n \<Longrightarrow> delay m \<le> delay n"
  by (rule lift_Suc_mono_le) (auto intro: delay_Suc)

lemma retry_in_window: "now < now + delay n \<and> now + delay n \<le> now + cap"
  using delay_pos [of n] delay_cap [of n] by simp

end

lemma capped_power_Suc:
  fixes c b :: int
  assumes "0 \<le> b"
  shows "min c (b * 2 ^ min n k) \<le> min c (b * 2 ^ min (Suc n) k)"
proof -
  have "(2::int) ^ min n k \<le> 2 ^ min (Suc n) k" by (rule power_increasing) auto
  then have "b * 2 ^ min n k \<le> b * 2 ^ min (Suc n) k" using assms by (rule mult_left_mono)
  then show ?thesis by simp
qed

end
