(* ===== verification/Json.thy ===== *)
theory Json
  imports Prelude
begin

text \<open>
  JSON values as the runtime handles them, the object operations of the language
  (property lookup, assignment, spread), and the canonical text whose SHA-256 digest identifies
  invocation arguments, input answers and operation snapshots.  The main result,
  \<open>canonicalize_eq_iff\<close>, says that the canonical text determines a value up to the order of object keys,
  so equal texts mean equal values.  Numbers are integers: the runtime never computes with the
  numbers of a payload.  Strings range over code units below 256.
\<close>

section \<open>Values and objects\<close>

datatype json = JNull | JBool bool | JNum int | JStr string | JArr "json list"
  | JObj "(string \<times> json) list"

type_synonym json_object = "(string \<times> json) list"

text \<open>\<^verbatim>\<open>object[key]\<close> (\<open>None\<close> is \<^verbatim>\<open>undefined\<close>), \<^verbatim>\<open>object[key] = value\<close> and
  \<^verbatim>\<open>{ ...left, ...right }\<close>.\<close>

definition obj_get :: "json_object \<Rightarrow> string \<Rightarrow> json option" where
  "obj_get kvs k = map_of kvs k"

fun obj_set :: "string \<Rightarrow> json \<Rightarrow> json_object \<Rightarrow> json_object" where
  "obj_set k v [] = [(k, v)]"
| "obj_set k v ((k', v') # kvs) = (if k = k' then (k, v) # kvs else (k', v') # obj_set k v kvs)"

definition obj_spread :: "json_object \<Rightarrow> json_object \<Rightarrow> json_object" where
  "obj_spread left right = foldl (\<lambda>acc (k, v). obj_set k v acc) left right"

fun is_json_object :: "json \<Rightarrow> bool" where
  "is_json_object (JObj _) = True"
| "is_json_object _ = False"

lemma obj_get_set: "obj_get (obj_set k v kvs) k' = (if k = k' then Some v else obj_get kvs k')"
  by (induction kvs) (auto simp: obj_get_def)

lemma keys_obj_set: "fst ` set (obj_set k v kvs) = insert k (fst ` set kvs)"
proof (induction kvs)
  case (Cons kv kvs)
  then show ?case by (cases kv) (simp add: insert_commute)
qed simp

lemma distinct_obj_set: "distinct (map fst kvs) \<Longrightarrow> distinct (map fst (obj_set k v kvs))"
proof (induction kvs)
  case (Cons kv kvs)
  then show ?case by (cases kv) (simp add: keys_obj_set)
qed simp

lemma obj_set_fresh: "k \<notin> fst ` set kvs \<Longrightarrow> obj_set k v kvs = kvs @ [(k, v)]"
  by (induction kvs) auto

lemma obj_spread_simps [simp]:
  "obj_spread left [] = left"
  "obj_spread left ((k, v) # right) = obj_spread (obj_set k v left) right"
  by (simp_all add: obj_spread_def)

lemma obj_spread_fresh:
  assumes "distinct (map fst right)" "fst ` set left \<inter> fst ` set right = {}"
  shows "obj_spread left right = left @ right"
  using assms
proof (induction right arbitrary: left)
  case Nil
  then show ?case by simp
next
  case (Cons kv right)
  obtain k v where kv: "kv = (k, v)" by (cases kv)
  with Cons.prems have "obj_set k v left = left @ [(k, v)]" by (intro obj_set_fresh) auto
  with kv Cons show ?case by auto
qed

lemma obj_get_spread:
  "obj_get (obj_spread left right) k =
     (case map_of (rev right) k of Some v \<Rightarrow> Some v | None \<Rightarrow> obj_get left k)"
proof (induction right arbitrary: left)
  case Nil
  then show ?case by simp
next
  case (Cons kv right)
  then show ?case
    by (cases kv) (auto simp: obj_get_set map_add_def split: option.splits)
qed

section \<open>Text\<close>

text \<open>\<^verbatim>\<open>JSON.stringify\<close> of a string.\<close>

definition hex_digit :: "nat \<Rightarrow> char" where
  "hex_digit d = ''0123456789abcdef'' ! d"

definition quote_char :: "char \<Rightarrow> string" where
  "quote_char c =
     (if c = CHR 0x22 then [CHR 0x5C, CHR 0x22]
      else if c = CHR 0x5C then [CHR 0x5C, CHR 0x5C]
      else if c = CHR 0x08 then [CHR 0x5C, CHR ''b'']
      else if c = CHR 0x0C then [CHR 0x5C, CHR ''f'']
      else if c = CHR 0x0A then [CHR 0x5C, CHR ''n'']
      else if c = CHR 0x0D then [CHR 0x5C, CHR ''r'']
      else if c = CHR 0x09 then [CHR 0x5C, CHR ''t'']
      else if of_char c < (32::nat)
        then [CHR 0x5C, CHR ''u'', CHR ''0'', CHR ''0'',
              hex_digit (of_char c div 16), hex_digit (of_char c mod 16)]
      else [c])"

definition quote_chars :: "string \<Rightarrow> string" where
  "quote_chars s = concat (map quote_char s)"

definition json_quote :: "string \<Rightarrow> string" where
  "json_quote s = CHR 0x22 # quote_chars s @ [CHR 0x22]"

fun join_comma :: "string list \<Rightarrow> string" where
  "join_comma [] = []"
| "join_comma [s] = s"
| "join_comma (s # t # ss) = s @ CHR '','' # join_comma (t # ss)"

text \<open>\<^verbatim>\<open>canonicalize\<close>: \<^verbatim>\<open>JSON.stringify\<close> with the keys of every object
  in ascending order.\<close>

primrec canonicalize :: "json \<Rightarrow> string" where
  "canonicalize JNull = ''null''"
| "canonicalize (JBool b) = (if b then ''true'' else ''false'')"
| "canonicalize (JNum n) = show_int n"
| "canonicalize (JStr s) = json_quote s"
| "canonicalize (JArr xs) = ''['' @ join_comma (map canonicalize xs) @ '']''"
| "canonicalize (JObj kvs) = ''{'' @ join_comma (map (\<lambda>(k, t). json_quote k @ '':'' @ t)
     (sort_key fst (map (map_prod id canonicalize) kvs))) @ ''}''"

text \<open>The value with the keys of every object in ascending order; two values denote the same
  JSON document when their normal forms agree.\<close>

primrec json_norm :: "json \<Rightarrow> json" where
  "json_norm JNull = JNull"
| "json_norm (JBool b) = JBool b"
| "json_norm (JNum n) = JNum n"
| "json_norm (JStr s) = JStr s"
| "json_norm (JArr xs) = JArr (map json_norm xs)"
| "json_norm (JObj kvs) = JObj (sort_key fst (map (map_prod id json_norm) kvs))"

section \<open>The canonical text determines the value\<close>

definition unhex :: "char \<Rightarrow> nat" where
  "unhex c = length (takeWhile (\<lambda>d. d \<noteq> c) ''0123456789abcdef'')"

fun unquote_char :: "string \<Rightarrow> char \<times> string" where
  "unquote_char (c # cs) =
     (if c \<noteq> CHR 0x5C then (c, cs)
      else case cs of
        [] \<Rightarrow> (c, [])
      | d # ds \<Rightarrow>
          if d = CHR ''b'' then (CHR 0x08, ds) else if d = CHR ''f'' then (CHR 0x0C, ds)
          else if d = CHR ''n'' then (CHR 0x0A, ds) else if d = CHR ''r'' then (CHR 0x0D, ds)
          else if d = CHR ''t'' then (CHR 0x09, ds)
          else if d = CHR ''u'' then (char_of (unhex (ds ! 2) * 16 + unhex (ds ! 3)), drop 4 ds)
          else (d, ds))"
| "unquote_char [] = (CHR 0x00, [])"

lemma unhex_hex_digit: "d < 16 \<Longrightarrow> unhex (hex_digit d) = d"
proof -
  assume d: "d < 16"
  have "list_all (\<lambda>d. unhex (hex_digit d) = d) [0..<16]" by code_simp
  with d show ?thesis by (simp add: list_all_iff)
qed

lemma unquote_quote_char: "unquote_char (quote_char c @ X) = (c, X)"
proof -
  have "of_char c < (32::nat) \<Longrightarrow> char_of (of_char c div 16 * 16 + of_char c mod 16 :: nat) = c"
    by simp
  then show ?thesis
    by (auto simp: quote_char_def unhex_hex_digit numeral_2_eq_2 numeral_3_eq_3)
qed

lemma quote_char_not_Nil: "quote_char c \<noteq> []"
  by (simp add: quote_char_def)

lemma hd_quote_char: "hd (quote_char c @ X) \<noteq> CHR 0x22"
  by (simp add: quote_char_def)

lemma quote_chars_inject:
  assumes "quote_chars s @ CHR 0x22 # r = quote_chars t @ CHR 0x22 # r'"
  shows "s = t \<and> r = r'"
  using assms
proof (induction s arbitrary: t)
  case Nil
  show ?case
  proof (cases t)
    case Nil
    with Nil.prems show ?thesis by (simp add: quote_chars_def)
  next
    case (Cons d t')
    with Nil.prems have "CHR 0x22 # r = quote_char d @ quote_chars t' @ CHR 0x22 # r'"
      by (simp add: quote_chars_def)
    then show ?thesis using hd_quote_char [of d "quote_chars t' @ CHR 0x22 # r'"]
      by (metis list.sel(1))
  qed
next
  case (Cons c s)
  show ?case
  proof (cases t)
    case Nil
    with Cons.prems have "CHR 0x22 # r' = quote_char c @ quote_chars s @ CHR 0x22 # r"
      by (simp add: quote_chars_def)
    then show ?thesis using hd_quote_char [of c "quote_chars s @ CHR 0x22 # r"]
      by (metis list.sel(1))
  next
    case (Cons d t')
    with Cons.prems have
      "quote_char c @ quote_chars s @ CHR 0x22 # r = quote_char d @ quote_chars t' @ CHR 0x22 # r'"
      by (simp add: quote_chars_def)
    then have "c = d \<and> quote_chars s @ CHR 0x22 # r = quote_chars t' @ CHR 0x22 # r'"
      by (metis unquote_quote_char prod.inject)
    with Cons.IH Cons show ?thesis by blast
  qed
qed

lemma json_quote_inject:
  "json_quote s @ r = json_quote t @ r' \<Longrightarrow> s = t \<and> r = r'"
  using quote_chars_inject [of s r t r'] by (simp add: json_quote_def)

text \<open>What may follow a value inside a canonical text.\<close>

definition delimited :: "string \<Rightarrow> bool" where
  "delimited r = (r = [] \<or> hd r \<in> {CHR '','', CHR '']'', CHR ''}''})"

lemma delimited_not_digit: "delimited (c # r) \<Longrightarrow> \<not> is_digit c"
  by (auto simp: delimited_def is_digit_def)

lemma digits_inject:
  assumes "list_all is_digit s" "list_all is_digit t" "delimited r" "delimited r'" "s @ r = t @ r'"
  shows "s = t \<and> r = r'"
  using assms
proof (induction s arbitrary: t)
  case Nil
  then show ?case using delimited_not_digit by (cases t) auto
next
  case (Cons c s)
  then show ?case using delimited_not_digit by (cases t) auto
qed

lemma list_all_show_nat: "list_all is_digit (show_nat n)"
  using show_nat_digits by (auto simp: list_all_iff)

lemma hd_show_nat: "is_digit (hd (show_nat n @ r))"
  using show_nat_digits [of "hd (show_nat n)" n] by simp

lemma show_nat_minus: "show_nat n @ r \<noteq> CHR ''-'' # r'"
proof
  assume "show_nat n @ r = CHR ''-'' # r'"
  then have "is_digit (CHR ''-'')" using hd_show_nat [of n r] by simp
  then show False by (simp add: is_digit_def)
qed

lemma show_nat_inject_delimited:
  assumes "show_nat m @ r = show_nat n @ r'" "delimited r" "delimited r'"
  shows "m = n \<and> r = r'"
  using digits_inject [OF list_all_show_nat list_all_show_nat assms(2,3,1)] by simp

lemma show_int_inject:
  assumes "show_int m @ r = show_int n @ r'" "delimited r" "delimited r'"
  shows "m = n \<and> r = r'"
proof -
  consider "m < 0" "n < 0" | "0 \<le> m" "0 \<le> n" | "m < 0" "0 \<le> n" | "0 \<le> m" "n < 0" by linarith
  then show ?thesis
  proof cases
    case 1
    with assms(1) have "show_nat (nat (- m)) @ r = show_nat (nat (- n)) @ r'"
      by (simp add: show_int_def)
    from show_nat_inject_delimited [OF this assms(2,3)] 1 show ?thesis by auto
  next
    case 2
    with assms(1) have "show_nat (nat m) @ r = show_nat (nat n) @ r'"
      by (simp add: show_int_def)
    from show_nat_inject_delimited [OF this assms(2,3)] 2 show ?thesis by auto
  next
    case 3
    with assms(1) have "show_nat (nat n) @ r' = CHR ''-'' # show_nat (nat (- m)) @ r"
      by (simp add: show_int_def)
    then show ?thesis using show_nat_minus by blast
  next
    case 4
    with assms(1) have "show_nat (nat m) @ r = CHR ''-'' # show_nat (nat (- n)) @ r'"
      by (simp add: show_int_def)
    then show ?thesis using show_nat_minus by blast
  qed
qed

lemma sort_key_map_prod:
  "sort_key fst (map (map_prod id f) kvs) = map (map_prod id f) (sort_key fst kvs)"
proof (induction kvs)
  case Nil
  then show ?case by simp
next
  case (Cons kv kvs)
  have "insort_key fst (map_prod id f x) (map (map_prod id f) ys) =
      map (map_prod id f) (insort_key fst x ys)" for x ys
    by (induction ys) auto
  then have "insort_key fst (map_prod id f kv) (map (map_prod id f) (sort_key fst kvs)) =
      map (map_prod id f) (insort_key fst kv (sort_key fst kvs))" .
  moreover have "sort_key fst (map (map_prod id f) kvs) = map (map_prod id f) (sort_key fst kvs)"
    by (rule Cons.IH)
  ultimately show ?case by (simp only: list.map(2) sort_key_simps)
qed

lemma join_comma_Cons:
  "join_comma (s # ss) = s @ (case ss of [] \<Rightarrow> [] | _ \<Rightarrow> CHR '','' # join_comma ss)"
  by (cases ss) auto

text \<open>A list of self-delimiting codes between commas, closed by a bracket, is self-delimiting.\<close>

lemma join_comma_inject:
  assumes code: "\<And>x y r s. x \<in> set xs \<Longrightarrow> f x @ r = f y @ s \<Longrightarrow> delimited r \<Longrightarrow> delimited s \<Longrightarrow>
      g x = g y \<and> r = s"
    and start: "\<And>x. f x \<noteq> [] \<and> \<not> delimited (f x)"
    and close: "close \<in> {CHR '']'', CHR ''}''}"
    and eq: "join_comma (map f xs) @ close # r = join_comma (map f ys) @ close # s"
  shows "map g xs = map g ys \<and> r = s"
  using code eq
proof (induction xs arbitrary: ys)
  case Nil
  show ?case
  proof (cases ys)
    case Nil
    with Nil.prems show ?thesis by simp
  next
    case (Cons y ys')
    with Nil.prems(2) have "close # r = f y @ (drop (length (f y)) (close # r))"
      by (simp add: join_comma_Cons)
    then have "hd (f y) = close" using start [of y] by (metis hd_append list.sel(1))
    then have "delimited (f y)" using close by (auto simp: delimited_def)
    with start show ?thesis by blast
  qed
next
  case (Cons x xs)
  show ?case
  proof (cases ys)
    case Nil
    with Cons.prems(2) have "close # s = f x @ (drop (length (f x)) (close # s))"
      by (simp add: join_comma_Cons) (metis append.assoc append_eq_conv_conj)
    then have "hd (f x) = close" using start [of x] by (metis hd_append list.sel(1))
    then have "delimited (f x)" using close by (auto simp: delimited_def)
    with start show ?thesis by blast
  next
    case (Cons y ys')
    define tail where "tail zs q = (case zs of [] \<Rightarrow> [] | _ \<Rightarrow> CHR '','' # join_comma (map f zs))
      @ close # q" for zs and q :: string
    have tail_delim: "delimited (tail zs q)" for zs q
      using close by (auto simp: tail_def delimited_def split: list.splits)
    have unfold: "join_comma (map f (z # zs)) @ close # q = f z @ tail zs q" for z zs q
      by (cases zs) (simp_all add: tail_def)
    have "f x @ tail xs r = f y @ tail ys' s"
      using Cons.prems(2) unfolding Cons unfold .
    from Cons.prems(1) [OF _ this tail_delim tail_delim]
    have hd_eq: "g x = g y" and tail_eq: "tail xs r = tail ys' s" by simp_all
    have "map g xs = map g ys' \<and> r = s"
    proof (cases "xs = [] \<longleftrightarrow> ys' = []")
      case True
      with tail_eq have "join_comma (map f xs) @ close # r = join_comma (map f ys') @ close # s"
        by (auto simp: tail_def split: list.splits)
      from Cons.IH [OF Cons.prems(1) this] show ?thesis by simp
    next
      case False
      with tail_eq close show ?thesis by (auto simp: tail_def split: list.splits)
    qed
    with hd_eq Cons show ?thesis by simp
  qed
qed

lemma canonicalize_start: "canonicalize j \<noteq> [] \<and> \<not> delimited (canonicalize j)"
proof (cases j)
  case (JNum n)
  have "delimited (show_nat m) \<Longrightarrow> False" for m
    using hd_show_nat [of m "[]"] delimited_not_digit [of "hd (show_nat m)" "tl (show_nat m)"] by simp
  then have "\<not> delimited (show_int n)" by (auto simp: show_int_def delimited_def)
  moreover have "show_int n \<noteq> []" by (simp add: show_int_def)
  ultimately show ?thesis using JNum by simp
qed (auto simp: delimited_def json_quote_def)

lemma json_entry_inject:
  assumes "json_quote k @ '':'' @ t @ r = json_quote k' @ '':'' @ t' @ r'"
  shows "k = k' \<and> t @ r = t' @ r'"
  using json_quote_inject [OF assms] by simp

lemma canonicalize_JObj:
  "canonicalize (JObj kvs) = ''{'' @ join_comma (map (\<lambda>(k, v). json_quote k @ '':'' @ canonicalize v)
     (sort_key fst kvs)) @ ''}''"
  unfolding canonicalize.simps sort_key_map_prod map_map
  by (simp add: comp_def case_prod_unfold)

lemma json_norm_JObj:
  "json_norm (JObj kvs) = JObj (map (\<lambda>(k, v). (k, json_norm v)) (sort_key fst kvs))"
  unfolding json_norm.simps sort_key_map_prod by (simp add: map_prod_def)

text \<open>The first character tells the kind of a value.\<close>

fun json_kind :: "json \<Rightarrow> nat" where
  "json_kind JNull = 0"
| "json_kind (JBool b) = (if b then 1 else 2)"
| "json_kind (JNum _) = 3"
| "json_kind (JStr _) = 4"
| "json_kind (JArr _) = 5"
| "json_kind (JObj _) = 6"

definition kind_of_char :: "char \<Rightarrow> nat" where
  "kind_of_char c = (if c = CHR ''n'' then 0 else if c = CHR ''t'' then 1
     else if c = CHR ''f'' then 2 else if c = CHR 0x22 then 4 else if c = CHR ''['' then 5
     else if c = CHR ''{'' then 6 else 3)"

lemma kind_of_digit: "is_digit c \<Longrightarrow> kind_of_char c = 3"
  by (auto simp: is_digit_def kind_of_char_def)

lemma kind_canonicalize: "kind_of_char (hd (canonicalize j @ r)) = json_kind j"
proof (cases j)
  case (JNum n)
  have "kind_of_char (CHR ''-'') = 3" by (simp add: kind_of_char_def)
  moreover have "kind_of_char (hd (show_nat m @ r)) = 3" for m
    by (rule kind_of_digit [OF hd_show_nat])
  ultimately show ?thesis using JNum by (simp add: show_int_def del: hd_append2)
qed (auto simp: json_quote_def kind_of_char_def)

lemma canonicalize_self_delimiting:
  assumes "canonicalize a @ r = canonicalize b @ s" "delimited r" "delimited s"
  shows "json_norm a = json_norm b \<and> r = s"
  using assms
proof (induction a arbitrary: b r s)
  case JNull
  then have "json_kind b = json_kind JNull" by (metis kind_canonicalize)
  with JNull show ?case by (cases b) (auto split: if_splits)
next
  case (JBool x)
  then have "json_kind b = json_kind (JBool x)" by (metis kind_canonicalize)
  with JBool show ?case by (cases b) (auto split: if_splits)
next
  case (JNum x)
  then have "json_kind b = json_kind (JNum x)" by (metis kind_canonicalize)
  then obtain y where "b = JNum y" by (cases b) (auto split: if_splits)
  with JNum show ?case using show_int_inject [of x r y s] by simp
next
  case (JStr x)
  then have "json_kind b = json_kind (JStr x)" by (metis kind_canonicalize)
  then obtain y where "b = JStr y" by (cases b) (auto split: if_splits)
  with JStr show ?case using json_quote_inject [of x r y s] by simp
next
  case (JArr xs)
  then have "json_kind b = json_kind (JArr xs)" by (metis kind_canonicalize)
  then obtain ys where b: "b = JArr ys" by (cases b) (auto split: if_splits)
  with JArr.prems have
    "join_comma (map canonicalize xs) @ CHR '']'' # r = join_comma (map canonicalize ys) @ CHR '']'' # s"
    by simp
  from join_comma_inject [where g = json_norm, OF JArr.IH canonicalize_start _ this]
  show ?case using b by simp
next
  case (JObj kvs)
  then have "json_kind b = json_kind (JObj kvs)" by (metis kind_canonicalize)
  then obtain lws where b: "b = JObj lws" by (cases b) (auto split: if_splits)
  let ?f = "\<lambda>(k, v). json_quote k @ '':'' @ canonicalize v"
  let ?g = "\<lambda>(k, v). (k, json_norm v)"
  from JObj.prems b have eq: "join_comma (map ?f (sort_key fst kvs)) @ CHR ''}'' # r
      = join_comma (map ?f (sort_key fst lws)) @ CHR ''}'' # s"
    by (simp add: canonicalize_JObj del: canonicalize.simps)
  have code: "?g x = ?g y \<and> p = q"
    if "x \<in> set (sort_key fst kvs)" "?f x @ p = ?f y @ q" "delimited p" "delimited q" for x y p q
  proof -
    obtain k v where x: "x = (k, v)" by (cases x)
    obtain k' v' where y: "y = (k', v')" by (cases y)
    from that(2) have kv: "k = k' \<and> canonicalize v @ p = canonicalize v' @ q"
      using json_entry_inject [of k "canonicalize v" p k' "canonicalize v'" q] by (simp add: x y)
    have "(k, v) \<in> set kvs" using that(1) x by simp
    from JObj.IH [OF this _ conjunct2 [OF kv] that(3,4)] kv show ?thesis by (simp add: x y)
  qed
  have start: "?f x \<noteq> [] \<and> \<not> delimited (?f x)" for x :: "string \<times> json"
    by (cases x) (simp add: json_quote_def delimited_def)
  from join_comma_inject [where g = ?g, OF code start _ eq]
  show ?case unfolding b json_norm_JObj by simp
qed

lemma canonicalize_norm: "canonicalize (json_norm j) = canonicalize j"
proof (induction j)
  case (JArr xs)
  then have "map canonicalize (map json_norm xs) = map canonicalize xs" by simp
  then show ?case by (simp del: map_map)
next
  case (JObj kvs)
  then have "map (map_prod id canonicalize) (map (map_prod id json_norm) kvs) =
      map (map_prod id canonicalize) kvs"
    by (auto simp: map_prod_def)
  then have "map (map_prod id canonicalize) (sort_key fst (map (map_prod id json_norm) kvs)) =
      sort_key fst (map (map_prod id canonicalize) kvs)"
    by (simp only: sort_key_map_prod [symmetric])
  then show ?case
    by (simp add: sort_key_id_if_sorted del: map_map)
qed simp_all

text \<open>Equal canonical texts, equal documents.\<close>

lemma canonicalize_eq_iff: "canonicalize a = canonicalize b \<longleftrightarrow> json_norm a = json_norm b"
proof
  assume "canonicalize a = canonicalize b"
  then show "json_norm a = json_norm b"
    using canonicalize_self_delimiting [of a "[]" b "[]"] by (simp add: delimited_def)
next
  assume "json_norm a = json_norm b"
  then show "canonicalize a = canonicalize b" using canonicalize_norm by metis
qed

lemma sort_key_unique:
  fixes xs ys :: "(string \<times> 'a) list"
  assumes "mset xs = mset ys" "distinct (map fst xs)"
  shows "sort_key fst xs = sort_key fst ys"
  using assms by (intro sort_key_inj_key_eq) (auto simp: distinct_map)

text \<open>The order in which the keys of an object were written does not change its text.\<close>

lemma canonicalize_key_order:
  assumes "mset kvs = mset lws" "distinct (map fst kvs)"
  shows "canonicalize (JObj kvs) = canonicalize (JObj lws)"
  unfolding canonicalize_JObj sort_key_unique [OF assms] ..

end
