(* ===== verification/Domain.thy ===== *)
theory Domain
  imports Json
begin

text \<open>
  The domain package (\<^verbatim>\<open>packages/domain/src\<close>): task states and the mapping of adapter
  snapshots to task transitions (\<^verbatim>\<open>task.ts\<close>), execution timing (\<^verbatim>\<open>timing.ts\<close>), the error
  classes (\<^verbatim>\<open>errors.ts\<close>) and the validation of availability answers (\<^verbatim>\<open>availability.ts\<close>).
\<close>

section \<open>Errors\<close>

datatype RuntimeErrorKind = invalid_params | task_not_found | task_expired
  | capability_not_supported | adapter_contract | adapter_transient | technical_execution
  | business_tool | command_in_progress

record CommandInProgressContext =
  cip_commandSequence :: nat
  cip_requestedCommandType :: string
  cip_blockingCommandType :: string
  cip_commandState :: string
  cip_retryAfterMs :: int

text \<open>Everything the modelled code throws: plain errors by message, the runtime's own error
  classes by kind, reason and safe message, the command-in-progress error with its context, range
  errors of the language, the constraint violations of the database and the failures of a remote call by status code and message.\<close>

datatype err = Error string
  | RuntimeError RuntimeErrorKind string string
  | CommandInProgressError CommandInProgressContext
  | RangeError string
  | DbConstraint string
  | ServiceError nat string

definition InvalidParamsError :: "string \<Rightarrow> string option \<Rightarrow> err" where
  "InvalidParamsError reasonCode safeMessage = RuntimeError invalid_params reasonCode
     (case safeMessage of None \<Rightarrow> ''Invalid request parameters.'' | Some m \<Rightarrow> m)"

definition TaskNotFoundOrUnauthorizedError :: err where
  "TaskNotFoundOrUnauthorizedError = RuntimeError task_not_found ''TASK_NOT_FOUND'' ''Task not found.''"

definition TaskExpiredError :: err where
  "TaskExpiredError = RuntimeError task_expired ''TASK_EXPIRED'' ''Task handle expired.''"

definition CapabilityNotSupportedError :: "string \<Rightarrow> err" where
  "CapabilityNotSupportedError reasonCode =
     RuntimeError capability_not_supported reasonCode ''Capability not supported.''"

definition AdapterContractError :: "string \<Rightarrow> err" where
  "AdapterContractError reasonCode =
     RuntimeError adapter_contract reasonCode ''Adapter response violated its contract.''"

definition AdapterTransientError :: "string option \<Rightarrow> err" where
  "AdapterTransientError reasonCode = RuntimeError adapter_transient
     (case reasonCode of None \<Rightarrow> ''ADAPTER_TRANSIENT_UNAVAILABLE'' | Some r \<Rightarrow> r)
     ''Adapter is temporarily unavailable.''"

definition TechnicalExecutionError :: "string option \<Rightarrow> err" where
  "TechnicalExecutionError reasonCode = RuntimeError technical_execution
     (case reasonCode of None \<Rightarrow> ''TECHNICAL_EXECUTION_FAILED'' | Some r \<Rightarrow> r)
     ''Runtime technical failure.''"

definition BusinessToolError :: "string \<Rightarrow> string \<Rightarrow> err" where
  "BusinessToolError reasonCode safeMessage = RuntimeError business_tool reasonCode safeMessage"

fun isRuntimeError :: "err \<Rightarrow> bool" where
  "isRuntimeError (RuntimeError _ _ _) = True"
| "isRuntimeError (CommandInProgressError _) = True"
| "isRuntimeError _ = False"

section \<open>Task states\<close>

datatype ExecutionMode = live | simulation | historical_replay

datatype McpTaskStatus = working | input_required | completed | failed | cancelled

datatype InternalTaskState = SCHEDULED | STARTING | WAITING_START_CONFIRMATION | QUEUED | RUNNING
  | PAUSED | RESUMING | INPUT_REQUIRED | STOPPING
  | TERMINAL_COMPLETED | TERMINAL_FAILED | TERMINAL_CANCELLED

fun show_mode :: "ExecutionMode \<Rightarrow> string" where
  "show_mode live = ''live''"
| "show_mode simulation = ''simulation''"
| "show_mode historical_replay = ''historical-replay''"

fun show_status :: "McpTaskStatus \<Rightarrow> string" where
  "show_status working = ''working''"
| "show_status input_required = ''input_required''"
| "show_status completed = ''completed''"
| "show_status failed = ''failed''"
| "show_status cancelled = ''cancelled''"

fun show_state :: "InternalTaskState \<Rightarrow> string" where
  "show_state SCHEDULED = ''SCHEDULED''"
| "show_state STARTING = ''STARTING''"
| "show_state WAITING_START_CONFIRMATION = ''WAITING_START_CONFIRMATION''"
| "show_state QUEUED = ''QUEUED''"
| "show_state RUNNING = ''RUNNING''"
| "show_state PAUSED = ''PAUSED''"
| "show_state RESUMING = ''RESUMING''"
| "show_state INPUT_REQUIRED = ''INPUT_REQUIRED''"
| "show_state STOPPING = ''STOPPING''"
| "show_state TERMINAL_COMPLETED = ''TERMINAL_COMPLETED''"
| "show_state TERMINAL_FAILED = ''TERMINAL_FAILED''"
| "show_state TERMINAL_CANCELLED = ''TERMINAL_CANCELLED''"

text \<open>\<^verbatim>\<open>text.startsWith(prefix)\<close>.\<close>

definition starts_with :: "string \<Rightarrow> string \<Rightarrow> bool" where
  "starts_with prefix text = (take (length prefix) text = prefix)"

definition isTerminalState :: "InternalTaskState \<Rightarrow> bool" where
  "isTerminalState st = starts_with ''TERMINAL_'' (show_state st)"

lemma isTerminalState_iff:
  "isTerminalState st \<longleftrightarrow> st \<in> {TERMINAL_COMPLETED, TERMINAL_FAILED, TERMINAL_CANCELLED}"
  by (cases st) (simp_all add: isTerminalState_def starts_with_def)

lemma isTerminalState_simps [simp]:
  "\<not> isTerminalState SCHEDULED" "\<not> isTerminalState STARTING"
  "\<not> isTerminalState WAITING_START_CONFIRMATION" "\<not> isTerminalState QUEUED"
  "\<not> isTerminalState RUNNING" "\<not> isTerminalState PAUSED" "\<not> isTerminalState RESUMING"
  "\<not> isTerminalState INPUT_REQUIRED" "\<not> isTerminalState STOPPING"
  "isTerminalState TERMINAL_COMPLETED" "isTerminalState TERMINAL_FAILED"
  "isTerminalState TERMINAL_CANCELLED"
  by (simp_all add: isTerminalState_iff)

section \<open>Adapter snapshots\<close>

record AdapterSnapshotLike =
  sl_state :: string
  sl_reasonCode :: string
  sl_message :: string
  sl_retryable :: bool
  sl_result :: "json option"

record SnapshotTransition =
  tn_internalState :: InternalTaskState
  tn_mcpStatus :: McpTaskStatus
  tn_substate :: "string option"
  tn_statusMessage :: string
  tn_result :: "json_object option"
  tn_error :: "json_object option"
  tn_terminal :: bool
  tn_observationType :: string

text \<open>\<^verbatim>\<open>STANDARD_RESULT_FIELDS[key]\<close> is a property lookup: besides the four fields of the
  table it finds what every object inherits.\<close>

definition RESERVED_RESULT_FIELDS :: "string list" where
  "RESERVED_RESULT_FIELDS = [''outcome'', ''reasonCode'', ''retryable'', ''completedAt'']"

definition object_prototype_keys :: "string list" where
  "object_prototype_keys = [''constructor'', ''__defineGetter__'', ''__defineSetter__'',
     ''hasOwnProperty'', ''__lookupGetter__'', ''__lookupSetter__'', ''isPrototypeOf'',
     ''propertyIsEnumerable'', ''toString'', ''valueOf'', ''__proto__'', ''toLocaleString'']"

definition STANDARD_RESULT_FIELDS :: "string \<Rightarrow> bool" where
  "STANDARD_RESULT_FIELDS key = (key \<in> set (RESERVED_RESULT_FIELDS @ object_prototype_keys))"

definition sanitizeResultPayload :: "AdapterSnapshotLike \<Rightarrow> json_object" where
  "sanitizeResultPayload snapshot =
     (case sl_result snapshot of
        None \<Rightarrow> []
      | Some JNull \<Rightarrow> []
      | Some (JObj payload) \<Rightarrow> filter (\<lambda>(key, _). \<not> STANDARD_RESULT_FIELDS key) payload
      | Some source \<Rightarrow> [(''value'', source)])"

text \<open>\<^verbatim>\<open>a || b\<close> on strings: the empty string is falsy.\<close>

definition or_else :: "string \<Rightarrow> string \<Rightarrow> string" where
  "or_else a b = (if a = [] then b else a)"

text \<open>\<^verbatim>\<open>toUpperCase\<close> and \<^verbatim>\<open>toLowerCase\<close> on ASCII text.\<close>

definition upper_char :: "char \<Rightarrow> char" where
  "upper_char c = (let n = of_char c :: nat in if 97 \<le> n \<and> n \<le> 122 then char_of (n - 32) else c)"

definition lower_char :: "char \<Rightarrow> char" where
  "lower_char c = (let n = of_char c :: nat in if 65 \<le> n \<and> n \<le> 90 then char_of (n + 32) else c)"

definition toUpperCase :: "string \<Rightarrow> string" where
  "toUpperCase = map upper_char"

definition toLowerCase :: "string \<Rightarrow> string" where
  "toLowerCase = map lower_char"

definition businessResult :: "instant \<Rightarrow> AdapterSnapshotLike \<Rightarrow> string \<Rightarrow> bool \<Rightarrow> json_object" where
  "businessResult now snapshot outcome isError =
     (let filtered = sanitizeResultPayload snapshot in
      [(''content'', JArr [JObj [(''type'', JStr ''text''),
                                 (''text'', JStr (or_else (sl_message snapshot) outcome))]]),
       (''isError'', JBool isError),
       (''structuredContent'',
          if outcome = ''success'' then JObj filtered
          else JObj (obj_spread
            [(''outcome'', JStr outcome),
             (''reasonCode'', JStr (or_else (sl_reasonCode snapshot) (toUpperCase outcome))),
             (''retryable'', JBool (sl_retryable snapshot)),
             (''completedAt'', JStr (toISOString now))] filtered))])"

definition working_transition ::
  "InternalTaskState \<Rightarrow> string \<Rightarrow> AdapterSnapshotLike \<Rightarrow> string \<Rightarrow> SnapshotTransition" where
  "working_transition internalState substate snapshot observationType =
     \<lparr>tn_internalState = internalState, tn_mcpStatus = working, tn_substate = Some substate,
      tn_statusMessage = sl_message snapshot, tn_result = None, tn_error = None,
      tn_terminal = False, tn_observationType = observationType\<rparr>"

definition terminal_transition ::
  "InternalTaskState \<Rightarrow> McpTaskStatus \<Rightarrow> json_object option \<Rightarrow> json_object option
   \<Rightarrow> AdapterSnapshotLike \<Rightarrow> SnapshotTransition" where
  "terminal_transition internalState mcpStatus result error snapshot =
     \<lparr>tn_internalState = internalState, tn_mcpStatus = mcpStatus, tn_substate = None,
      tn_statusMessage = sl_message snapshot, tn_result = result, tn_error = error,
      tn_terminal = True, tn_observationType = ''task.progress''\<rparr>"

definition mapAdapterSnapshot :: "instant \<Rightarrow> AdapterSnapshotLike \<Rightarrow> err + SnapshotTransition" where
  "mapAdapterSnapshot now snapshot =
     (let st = sl_state snapshot in
      if st = ''ACCEPTED'' then Inr (working_transition QUEUED ''accepted'' snapshot ''task.accepted'')
      else if st = ''SCHEDULED'' then Inr (working_transition QUEUED ''scheduled'' snapshot ''task.accepted'')
      else if st = ''QUEUED'' then Inr (working_transition QUEUED ''queued'' snapshot ''task.accepted'')
      else if st = ''RUNNING'' then Inr (working_transition RUNNING ''running'' snapshot ''task.started'')
      else if st = ''PAUSED'' then Inr (working_transition PAUSED ''paused'' snapshot ''task.paused'')
      else if st = ''RESUMING'' then Inr (working_transition RESUMING ''resuming'' snapshot ''task.resumed'')
      else if st = ''STOPPING'' then Inr (working_transition STOPPING ''stopping'' snapshot ''task.progress'')
      else if st = ''WAITING_INPUT'' then
        Inr \<lparr>tn_internalState = INPUT_REQUIRED, tn_mcpStatus = input_required, tn_substate = None,
             tn_statusMessage = sl_message snapshot, tn_result = None, tn_error = None,
             tn_terminal = False, tn_observationType = ''task.progress''\<rparr>
      else if st = ''SUCCEEDED'' then
        Inr (terminal_transition TERMINAL_COMPLETED completed
          (Some (businessResult now snapshot ''success'' False)) None snapshot)
      else if st = ''BUSINESS_FAILED'' then
        Inr (terminal_transition TERMINAL_COMPLETED completed
          (Some (businessResult now snapshot ''business_failure'' True)) None snapshot)
      else if st = ''PARTIALLY_COMPLETED'' then
        Inr (terminal_transition TERMINAL_COMPLETED completed
          (Some (businessResult now snapshot ''partial_completion'' True)) None snapshot)
      else if st = ''CANCELLED'' then
        Inr (terminal_transition TERMINAL_CANCELLED cancelled None None snapshot)
      else if st = ''TECHNICAL_FAILED'' then
        Inr (terminal_transition TERMINAL_FAILED failed None
          (Some [(''code'', JNum (-32603)), (''message'', JStr ''Task execution failed.''),
                 (''data'', JObj [(''reasonCode'', JStr (or_else (sl_reasonCode snapshot) ''TECHNICAL_EXECUTION_FAILED'')),
                                 (''retryable'', JBool (sl_retryable snapshot))])]) snapshot)
      else Inl (Error (''UNKNOWN_ADAPTER_STATE:'' @ st)))"

text \<open>A task's status, state, result and error go together: a result exactly when completed, an
  error exactly when failed, and each terminal state has its own status.\<close>

definition state_status_ok :: "InternalTaskState \<Rightarrow> McpTaskStatus \<Rightarrow> bool" where
  "state_status_ok st ms =
     ((ms = completed) = (st = TERMINAL_COMPLETED) \<and> (ms = failed) = (st = TERMINAL_FAILED) \<and>
      (ms = cancelled) = (st = TERMINAL_CANCELLED) \<and> (ms = input_required) = (st = INPUT_REQUIRED))"

definition transition_ok :: "SnapshotTransition \<Rightarrow> bool" where
  "transition_ok t =
     (state_status_ok (tn_internalState t) (tn_mcpStatus t) \<and>
      tn_terminal t = isTerminalState (tn_internalState t) \<and>
      (tn_result t \<noteq> None) = (tn_mcpStatus t = completed) \<and>
      (tn_error t \<noteq> None) = (tn_mcpStatus t = failed))"

lemmas transition_defs = transition_ok_def state_status_ok_def working_transition_def
  terminal_transition_def

lemma mapAdapterSnapshot_ok:
  assumes "mapAdapterSnapshot now snapshot = Inr t"
  shows "transition_ok t"
  using assms unfolding mapAdapterSnapshot_def Let_def
  by (auto simp: transition_defs split: if_splits)

text \<open>The states of the adapter protocol, and the only ones the mapping accepts.\<close>

definition adapter_states :: "string list" where
  "adapter_states = [''ACCEPTED'', ''SCHEDULED'', ''QUEUED'', ''RUNNING'', ''PAUSED'', ''RESUMING'',
     ''STOPPING'', ''WAITING_INPUT'', ''SUCCEEDED'', ''BUSINESS_FAILED'', ''PARTIALLY_COMPLETED'',
     ''CANCELLED'', ''TECHNICAL_FAILED'']"

lemma mapAdapterSnapshot_total:
  "(\<exists>t. mapAdapterSnapshot now snapshot = Inr t) \<longleftrightarrow> sl_state snapshot \<in> set adapter_states"
  unfolding mapAdapterSnapshot_def Let_def adapter_states_def by auto

lemma sanitizeResultPayload_reserved:
  "key \<in> set RESERVED_RESULT_FIELDS \<Longrightarrow> key \<notin> fst ` set (sanitizeResultPayload snapshot)"
proof (cases "sl_result snapshot")
  case None
  then show ?thesis by (simp add: sanitizeResultPayload_def)
next
  case (Some j)
  assume "key \<in> set RESERVED_RESULT_FIELDS"
  with Some show ?thesis
    by (cases j) (auto simp: sanitizeResultPayload_def STANDARD_RESULT_FIELDS_def RESERVED_RESULT_FIELDS_def)
qed

section \<open>Execution timing\<close>

text \<open>\<^verbatim>\<open>Date\<close> values are finite within 8.64e15 ms of the epoch; \<^verbatim>\<open>Number.isSafeInteger\<close>.\<close>

definition valid_date :: "int \<Rightarrow> bool" where
  "valid_date t = (\<bar>t\<bar> \<le> 8640000000000000)"

definition isSafeInteger :: "int \<Rightarrow> bool" where
  "isSafeInteger n = (\<bar>n\<bar> \<le> 9007199254740991)"

text \<open>\<^verbatim>\<open>new Date(text)\<close>.  The ISO format of the language is read here, with the field ranges the
  engine accepts (days 1 to 31 roll over into the next month, 24:00:00 is the end of a day); what
  the engine makes of any other text is implementation-defined, the parameter \<open>legacy\<close>.\<close>

definition matches_template :: "string \<Rightarrow> string \<Rightarrow> bool" where
  "matches_template template text =
     list_all2 (\<lambda>p c. if p = CHR ''#'' then is_digit c else p = c) template text"

definition is_zone :: "string \<Rightarrow> bool" where
  "is_zone z = (z = ''Z'' \<or> matches_template ''+##:##'' z \<or> matches_template ''-##:##'' z)"

definition frozen_format :: "string \<Rightarrow> bool" where
  "frozen_format v =
     (let rest = drop 19 v in
      matches_template ''####-##-##T##:##:##'' (take 19 v) \<and>
      (if take 1 rest = ''.''
       then takeWhile is_digit (tl rest) \<noteq> [] \<and> is_zone (dropWhile is_digit (tl rest))
       else is_zone rest))"

definition day_number :: "int \<Rightarrow> int \<Rightarrow> int \<Rightarrow> int" where
  "day_number year month day =
     (let y = (if month \<le> 2 then year - 1 else year);
          era = y div 400; yoe = y mod 400;
          doy = (153 * ((month + 9) mod 12) + 2) div 5;
          doe = yoe * 365 + yoe div 4 - yoe div 100 + doy
      in era * 146097 + doe - 719468 + (day - 1))"

definition field :: "nat \<Rightarrow> nat \<Rightarrow> string \<Rightarrow> int" where
  "field i n v = int (read_nat (take n (drop i v)))"

definition iso_value :: "string \<Rightarrow> instant option" where
  "iso_value v =
     (let year = field 0 4 v; month = field 5 2 v; day = field 8 2 v;
          hour = field 11 2 v; minute = field 14 2 v; second = field 17 2 v;
          rest = drop 19 v;
          frac = (if take 1 rest = ''.'' then takeWhile is_digit (tl rest) else []);
          ms = int (read_nat (take 3 (frac @ ''000'')));
          zone = (if take 1 rest = ''.'' then dropWhile is_digit (tl rest) else rest);
          zh = (if zone = ''Z'' then 0 else field 1 2 zone);
          zm = (if zone = ''Z'' then 0 else field 4 2 zone);
          offset = (if take 1 zone = ''-'' then -1 else 1) * (zh * 60 + zm) * 60000
      in if frozen_format v \<and> 1 \<le> month \<and> month \<le> 12 \<and> 1 \<le> day \<and> day \<le> 31 \<and>
            (hour \<le> 23 \<and> minute \<le> 59 \<and> second \<le> 59 \<or> hour = 24 \<and> minute = 0 \<and> second = 0 \<and> ms = 0) \<and>
            zh \<le> 23 \<and> zm \<le> 59
         then Some (day_number year month day * 86400000 + hour * 3600000 + minute * 60000
                    + second * 1000 + ms - offset)
         else None)"

definition Date_parse :: "(string \<Rightarrow> instant option) \<Rightarrow> string \<Rightarrow> instant option" where
  "Date_parse legacy v = (case iso_value v of Some t \<Rightarrow> Some t | None \<Rightarrow> legacy v)"

datatype TimingStart = immediate int | scheduled string int

record TaskExecutionTiming =
  tm_start :: TimingStart
  tm_maxElapsedMs :: "int option"

record TimingAnchors =
  an_acceptedAt :: instant
  an_notBefore :: instant
  an_latestStartAt :: instant
  an_deadlineAt :: "instant option"

record TimingCapabilities =
  tc_scheduling :: bool
  tc_maxElapsed :: bool

fun startToleranceMs :: "TimingStart \<Rightarrow> int" where
  "startToleranceMs (immediate tol) = tol"
| "startToleranceMs (scheduled _ tol) = tol"

definition defaultTiming :: TaskExecutionTiming where
  "defaultTiming = \<lparr>tm_start = immediate 30000, tm_maxElapsedMs = None\<rparr>"

definition parseRfc3339 :: "(string \<Rightarrow> instant option) \<Rightarrow> string \<Rightarrow> err + instant" where
  "parseRfc3339 legacy v =
     (let z = drop (length v - 6) v; last1 = drop (length v - 1) v in
      if \<not> (last1 = ''Z'' \<or> last1 = ''z'' \<or> matches_template ''+##:##'' z \<or> matches_template ''-##:##'' z)
      then Inl (Error ''INVALID_SCHEDULED_AT'')
      else case Date_parse legacy v of
        None \<Rightarrow> Inl (Error ''INVALID_SCHEDULED_AT'')
      | Some t \<Rightarrow> Inr t)"

definition addMilliseconds :: "instant \<Rightarrow> int \<Rightarrow> err + instant" where
  "addMilliseconds t ms =
     (if valid_date (t + ms) then Inr (t + ms) else Inl (Error ''TIMING_OVERFLOW''))"

definition validateTiming ::
  "(string \<Rightarrow> instant option) \<Rightarrow> TaskExecutionTiming \<Rightarrow> TimingCapabilities \<Rightarrow> instant
   \<Rightarrow> err + TimingAnchors" where
  "validateTiming legacy timing capabilities acceptedAt =
     (let tol = startToleranceMs (tm_start timing) in
      if \<not> isSafeInteger tol \<or> tol < 0 then Inl (Error ''INVALID_START_TOLERANCE'')
      else if (case tm_maxElapsedMs timing of None \<Rightarrow> False | Some m \<Rightarrow> \<not> isSafeInteger m \<or> m \<le> 0)
        then Inl (Error ''INVALID_MAX_ELAPSED'')
      else if (case tm_start timing of scheduled _ _ \<Rightarrow> \<not> tc_scheduling capabilities | _ \<Rightarrow> False)
        then Inl (Error ''SCHEDULING_NOT_SUPPORTED'')
      else if tm_maxElapsedMs timing \<noteq> None \<and> \<not> tc_maxElapsed capabilities
        then Inl (Error ''MAX_ELAPSED_NOT_SUPPORTED'')
      else
        bind_err (case tm_start timing of
            scheduled scheduledAt _ \<Rightarrow> parseRfc3339 legacy scheduledAt
          | immediate _ \<Rightarrow> Inr acceptedAt) (\<lambda>notBefore.
        bind_err (addMilliseconds notBefore tol) (\<lambda>latestStartAt.
        bind_err (case tm_maxElapsedMs timing of
            None \<Rightarrow> Inr None
          | Some m \<Rightarrow> bind_err (addMilliseconds notBefore m) (\<lambda>d. Inr (Some d))) (\<lambda>deadlineAt.
        Inr \<lparr>an_acceptedAt = acceptedAt, an_notBefore = notBefore,
             an_latestStartAt = latestStartAt, an_deadlineAt = deadlineAt\<rparr>))))"

text \<open>The anchors are ordered, and an immediate start is not before the acceptance.\<close>

definition anchors_ok :: "TaskExecutionTiming \<Rightarrow> instant \<Rightarrow> TimingAnchors \<Rightarrow> bool" where
  "anchors_ok timing acceptedAt a =
     (an_acceptedAt a = acceptedAt \<and>
      an_latestStartAt a = an_notBefore a + startToleranceMs (tm_start timing) \<and>
      an_notBefore a \<le> an_latestStartAt a \<and>
      an_deadlineAt a = map_option (\<lambda>m. an_notBefore a + m) (tm_maxElapsedMs timing) \<and>
      (case an_deadlineAt a of None \<Rightarrow> True | Some d \<Rightarrow> an_notBefore a < d \<and> valid_date d) \<and>
      valid_date (an_latestStartAt a) \<and>
      (case tm_start timing of immediate _ \<Rightarrow> an_notBefore a = acceptedAt | scheduled _ _ \<Rightarrow> True))"

lemma validateTiming_anchors:
  assumes "validateTiming legacy timing capabilities acceptedAt = Inr a"
  shows "anchors_ok timing acceptedAt a"
  using assms
  by (auto simp: validateTiming_def anchors_ok_def addMilliseconds_def bind_err_Inr_iff Let_def
      split: if_splits option.splits TimingStart.splits)

section \<open>Availability answers\<close>

datatype AvailabilityArguments = complete_arguments json_object | partial_arguments json_object "string list"

record AvailabilityTimingStart =
  ts_mode :: string
  ts_scheduledAt :: "string option"
  ts_startToleranceMs :: "int option"

record AvailabilityTiming =
  at_start :: "AvailabilityTimingStart option"
  at_maxElapsedMs :: "int option"

record AvailabilityCheck =
  ac_requestId :: string
  ac_operationName :: string
  ac_arguments :: AvailabilityArguments
  ac_timing :: "AvailabilityTiming option"

record AvailabilityWindow =
  aw_startTime :: string
  aw_endTime :: string

record AvailabilityResultValue =
  av_requestId :: string
  av_operationName :: string
  av_availability :: string
  av_riskLevel :: "string option"
  av_reasonCode :: "string option"
  av_description :: "string option"
  av_validUntil :: "string option"
  av_earliestStartTime :: "string option"
  av_nextAvailableWindows :: "AvailabilityWindow list option"
  av_estimatedDelayMs :: "int option"
  av_reservationMode :: string
  av_reservationRef :: "string option"
  av_possibleEffects :: "string list option"

definition frozenTimestamp :: "(string \<Rightarrow> instant option) \<Rightarrow> string \<Rightarrow> string \<Rightarrow> err + instant" where
  "frozenTimestamp legacy v reasonCode =
     (if \<not> frozen_format v then Inl (Error reasonCode)
      else case Date_parse legacy v of None \<Rightarrow> Inl (Error reasonCode) | Some t \<Rightarrow> Inr t)"

text \<open>The loop over the windows; \<open>None\<close> is the initial \<^verbatim>\<open>previousEnd = -Infinity\<close>.\<close>

fun check_windows ::
  "(string \<Rightarrow> instant option) \<Rightarrow> instant option \<Rightarrow> AvailabilityWindow list \<Rightarrow> err + unit" where
  "check_windows legacy previousEnd [] = Inr ()"
| "check_windows legacy previousEnd (w # ws) =
     bind_err (frozenTimestamp legacy (aw_startTime w) ''INVALID_AVAILABILITY_WINDOW'') (\<lambda>start.
     bind_err (frozenTimestamp legacy (aw_endTime w) ''INVALID_AVAILABILITY_WINDOW'') (\<lambda>stop.
       if start \<ge> stop \<or> (case previousEnd of None \<Rightarrow> False | Some p \<Rightarrow> start < p)
       then Inl (Error ''INVALID_AVAILABILITY_WINDOW'')
       else check_windows legacy (Some stop) ws))"

definition check_reservation :: "AvailabilityResultValue \<Rightarrow> err + unit" where
  "check_reservation result =
     (if av_reservationMode result = ''guaranteed'' then
        (case av_reservationRef result of
           None \<Rightarrow> Inl (Error ''AVAILABILITY_RESERVATION_INVALID'')
         | Some ref \<Rightarrow> if length ref < 1 \<or> length ref > 256
             then Inl (Error ''AVAILABILITY_RESERVATION_INVALID'') else Inr ())
      else if av_reservationRef result \<noteq> None then Inl (Error ''AVAILABILITY_RESERVATION_INVALID'')
      else Inr ())"

text \<open>One iteration of the loop over the results: the identifiers seen so far in and out.\<close>

definition check_result ::
  "(string \<Rightarrow> instant option) \<Rightarrow> instant \<Rightarrow> (string \<rightharpoonup> AvailabilityCheck)
   \<Rightarrow> AvailabilityResultValue \<Rightarrow> string list \<Rightarrow> err + string list" where
  "check_result legacy checkedAt requestedById result seen =
     (if av_reservationMode result \<notin> {''none'', ''best_effort'', ''guaranteed''}
        then Inl (Error ''AVAILABILITY_RESERVATION_MODE_MISSING'')
      else if av_availability result \<notin> {''available'', ''restricted'', ''disabled'', ''unknown''}
        then Inl (Error ''AVAILABILITY_INVALID_STATE'')
      else if map_option ac_operationName (requestedById (av_requestId result))
             \<noteq> Some (av_operationName result) \<or> av_requestId result \<in> set seen
        then Inl (Error ''AVAILABILITY_RESULT_IDENTITY_MISMATCH'')
      else
        bind_err (case av_validUntil result of
            None \<Rightarrow> Inr ()
          | Some v \<Rightarrow> bind_err (frozenTimestamp legacy v ''AVAILABILITY_INVALID_VALID_UNTIL'')
              (\<lambda>validUntil. if validUntil < checkedAt
                 then Inl (Error ''AVAILABILITY_VALID_UNTIL_BEFORE_CHECKED_AT'') else Inr ())) (\<lambda>_.
        if av_availability result = ''restricted'' \<and>
           (av_riskLevel result = None \<or> av_validUntil result = None \<or>
            (av_earliestStartTime result = None \<and>
             (av_nextAvailableWindows result = None \<or> av_nextAvailableWindows result = Some [])))
        then Inl (Error ''RESTRICTED_AVAILABILITY_FIELDS_MISSING'')
        else
        bind_err (case av_earliestStartTime result of
            None \<Rightarrow> Inr 0
          | Some v \<Rightarrow> frozenTimestamp legacy v ''AVAILABILITY_INVALID_EARLIEST_START'') (\<lambda>_.
        let windows = (case av_nextAvailableWindows result of None \<Rightarrow> [] | Some ws \<Rightarrow> ws) in
        if length windows > 32 then Inl (Error ''AVAILABILITY_TOO_MANY_WINDOWS'')
        else
        bind_err (check_windows legacy None windows) (\<lambda>_.
        bind_err (check_reservation result) (\<lambda>_.
        Inr (av_requestId result # seen))))))"

definition validateAvailabilityResponse ::
  "(string \<Rightarrow> instant option) \<Rightarrow> instant \<Rightarrow> AvailabilityCheck list \<Rightarrow> AvailabilityResultValue list
   \<Rightarrow> err + AvailabilityResultValue list" where
  "validateAvailabilityResponse legacy checkedAt requested results =
     (if length results \<noteq> length requested then Inl (Error ''AVAILABILITY_RESULT_COUNT_MISMATCH'')
      else
        let requestedById = map_of (rev (map (\<lambda>c. (ac_requestId c, c)) requested)) in
        bind_err (fold_err (check_result legacy checkedAt requestedById) results []) (\<lambda>_.
        Inr results))"

definition unknown_result :: "AvailabilityCheck \<Rightarrow> AvailabilityResultValue" where
  "unknown_result check =
     \<lparr>av_requestId = ac_requestId check, av_operationName = ac_operationName check,
      av_availability = ''unknown'', av_riskLevel = Some ''critical'',
      av_reasonCode = Some ''ADAPTER_TRANSIENT_UNAVAILABLE'',
      av_description = Some ''Availability could not be determined; final admission still applies.'',
      av_validUntil = None, av_earliestStartTime = None, av_nextAvailableWindows = None,
      av_estimatedDelayMs = None, av_reservationMode = ''none'', av_reservationRef = None,
      av_possibleEffects = None\<rparr>"

definition unknownAvailability :: "AvailabilityCheck list \<Rightarrow> AvailabilityResultValue list" where
  "unknownAvailability requested = map unknown_result requested"

text \<open>What an accepted answer guarantees: windows in order and disjoint, per result.\<close>

fun windows_ordered :: "(string \<Rightarrow> instant option) \<Rightarrow> instant option \<Rightarrow> AvailabilityWindow list \<Rightarrow> bool" where
  "windows_ordered legacy previousEnd [] = True"
| "windows_ordered legacy previousEnd (w # ws) =
     (case (Date_parse legacy (aw_startTime w), Date_parse legacy (aw_endTime w)) of
        (Some s, Some e) \<Rightarrow>
          s < e \<and> (case previousEnd of None \<Rightarrow> True | Some p \<Rightarrow> p \<le> s) \<and> windows_ordered legacy (Some e) ws
      | _ \<Rightarrow> False)"

definition result_ok :: "(string \<Rightarrow> instant option) \<Rightarrow> instant \<Rightarrow> AvailabilityResultValue \<Rightarrow> bool" where
  "result_ok legacy checkedAt r =
     (windows_ordered legacy None (case av_nextAvailableWindows r of None \<Rightarrow> [] | Some ws \<Rightarrow> ws) \<and>
      (case av_validUntil r of None \<Rightarrow> True
       | Some v \<Rightarrow> (case Date_parse legacy v of None \<Rightarrow> False | Some t \<Rightarrow> checkedAt \<le> t)) \<and>
      (av_availability r = ''restricted'' \<longrightarrow> av_riskLevel r \<noteq> None \<and> av_validUntil r \<noteq> None) \<and>
      (av_reservationRef r \<noteq> None) = (av_reservationMode r = ''guaranteed''))"

lemma frozenTimestamp_Inr: "frozenTimestamp legacy v c = Inr t \<Longrightarrow> Date_parse legacy v = Some t"
  by (auto simp: frozenTimestamp_def split: if_splits option.splits)

lemma check_windows_ordered: "check_windows legacy p ws = Inr () \<Longrightarrow> windows_ordered legacy p ws"
  by (induction legacy p ws rule: check_windows.induct)
    (auto simp: bind_err_Inr_iff dest!: frozenTimestamp_Inr split: if_splits option.splits)

lemma check_reservation_ok:
  "check_reservation r = Inr () \<Longrightarrow> (av_reservationRef r \<noteq> None) = (av_reservationMode r = ''guaranteed'')"
  by (auto simp: check_reservation_def split: if_splits option.splits)

lemma check_result_InrD:
  assumes "check_result legacy checkedAt byId r seen = Inr seen'"
  shows "result_ok legacy checkedAt r" "seen' = av_requestId r # seen" "av_requestId r \<notin> set seen"
    "map_option ac_operationName (byId (av_requestId r)) = Some (av_operationName r)"
  using assms unfolding check_result_def result_ok_def Let_def
  by (auto simp: bind_err_Inr_iff check_windows_ordered dest!: frozenTimestamp_Inr
      dest: check_reservation_ok split: if_splits option.splits)

lemma check_results_InrD:
  assumes "fold_err (check_result legacy checkedAt byId) results seen = Inr seen'"
  shows "seen' = rev (map av_requestId results) @ seen \<and>
    (distinct seen \<longrightarrow> distinct seen') \<and>
    (\<forall>r \<in> set results. result_ok legacy checkedAt r \<and>
      map_option ac_operationName (byId (av_requestId r)) = Some (av_operationName r))"
  using assms
proof (induction results arbitrary: seen)
  case Nil
  then show ?case by simp
next
  case (Cons r rs)
  then obtain s1 where s1: "check_result legacy checkedAt byId r seen = Inr s1"
    "fold_err (check_result legacy checkedAt byId) rs s1 = Inr seen'"
    by (auto simp: bind_err_Inr_iff)
  from Cons.IH [OF s1(2)] check_result_InrD [OF s1(1)] show ?case by (auto simp: disjoint_iff)
qed

lemma map_of_rev_Some:
  "map_of (rev (map (\<lambda>c. (f c, c)) cs)) k = Some c \<Longrightarrow> c \<in> set cs \<and> f c = k"
  by (auto dest!: map_of_SomeD)

text \<open>Distinct identifiers drawn from as many requested ones are all of them.\<close>

lemma distinct_cover:
  assumes "distinct xs" "set xs \<subseteq> set ys" "length xs = length ys"
  shows "distinct ys \<and> mset xs = mset ys"
proof -
  have "card (set xs) = length ys" using assms(1,3) by (simp add: distinct_card)
  moreover have "card (set xs) \<le> card (set ys)" using assms(2) by (simp add: card_mono)
  ultimately have card: "card (set ys) = length ys" using card_length [of ys] by linarith
  then have "distinct ys" by (rule card_distinct)
  moreover have "set xs = set ys"
    using assms(2) card \<open>card (set xs) = length ys\<close> by (intro card_subset_eq) auto
  ultimately show ?thesis using assms(1) by (metis set_eq_iff_mset_eq_distinct)
qed

text \<open>An availability answer that passes validation has exactly one result per requested check,
  with the operation name of that check, and every result is well-formed: its windows are ordered
  and disjoint, its validity does not end before the check, a restricted result carries its risk
  and validity, and a reservation reference is there exactly for guaranteed reservations.\<close>

theorem validateAvailabilityResponse_complete:
  assumes "validateAvailabilityResponse legacy checkedAt requested results = Inr answer"
  shows "answer = results \<and>
    mset (map av_requestId answer) = mset (map ac_requestId requested) \<and>
    distinct (map av_requestId answer) \<and>
    (\<forall>r \<in> set answer. result_ok legacy checkedAt r \<and>
      (\<exists>c \<in> set requested. ac_requestId c = av_requestId r \<and> ac_operationName c = av_operationName r))"
proof -
  let ?byId = "map_of (rev (map (\<lambda>c. (ac_requestId c, c)) requested))"
  from assms obtain seen where len: "length results = length requested"
    and fold: "fold_err (check_result legacy checkedAt ?byId) results [] = Inr seen"
    and answer: "answer = results"
    unfolding validateAvailabilityResponse_def Let_def
    by (cases "length results = length requested") (auto simp only: if_True if_False simp_thms
      not_True_eq_False not_False_eq_True bind_err_Inr_iff sum.inject sum.distinct)
  note props = check_results_InrD [OF fold]
  then have "seen = rev (map av_requestId results)" "distinct seen" by auto
  then have dist: "distinct (map av_requestId results)" by (metis distinct_rev)
  from props have ok: "\<forall>r \<in> set results. result_ok legacy checkedAt r \<and>
      map_option ac_operationName (?byId (av_requestId r)) = Some (av_operationName r)" by blast
  have known: "\<exists>c \<in> set requested. ac_requestId c = av_requestId r \<and> ac_operationName c = av_operationName r"
    if "r \<in> set results" for r
  proof -
    from ok that obtain c where "?byId (av_requestId r) = Some c" "ac_operationName c = av_operationName r"
      by auto
    with map_of_rev_Some [of ac_requestId requested "av_requestId r" c] show ?thesis by auto
  qed
  then have "set (map av_requestId results) \<subseteq> set (map ac_requestId requested)"
    by (auto simp: image_iff) (metis)
  from distinct_cover [OF dist this] len
  have "mset (map av_requestId results) = mset (map ac_requestId requested)" by simp
  with answer dist ok known show ?thesis by blast
qed

text \<open>The answer given when the adapter cannot be reached passes the same validation, whenever the
  request identifiers are distinct.\<close>

lemma unknown_results_accepted:
  assumes "distinct (map ac_requestId cs)" "\<And>c. c \<in> set cs \<Longrightarrow> byId (ac_requestId c) = Some c"
    and "set seen \<inter> set (map ac_requestId cs) = {}"
  shows "\<exists>seen'. fold_err (check_result legacy checkedAt byId) (map unknown_result cs) seen = Inr seen'"
  using assms
proof (induction cs arbitrary: seen)
  case Nil
  then show ?case by simp
next
  case (Cons c cs)
  then have "check_result legacy checkedAt byId (unknown_result c) seen = Inr (ac_requestId c # seen)"
    by (simp add: check_result_def unknown_result_def check_reservation_def)
  with Cons.IH [of "ac_requestId c # seen"] Cons.prems show ?case by auto
qed

text \<open>The fallback answer for an unreachable adapter is itself a valid answer.\<close>

theorem unknownAvailability_valid:
  assumes "distinct (map ac_requestId requested)"
  shows "validateAvailabilityResponse legacy checkedAt requested (unknownAvailability requested)
    = Inr (unknownAvailability requested)"
proof -
  let ?byId = "map_of (rev (map (\<lambda>c. (ac_requestId c, c)) requested))"
  have "?byId (ac_requestId c) = Some c" if "c \<in> set requested" for c
    using assms that by (intro map_of_is_SomeI) (auto simp: comp_def rev_map [symmetric])
  from unknown_results_accepted [OF assms this, of "[]" legacy checkedAt]
  obtain seen' where
    "fold_err (check_result legacy checkedAt ?byId) (map unknown_result requested) [] = Inr seen'"
    by auto
  then show ?thesis
    by (simp add: validateAvailabilityResponse_def unknownAvailability_def)
qed

end
