(* ===== verification/Adapter.thy ===== *)
theory Adapter
  imports Domain
begin

text \<open>
  The adapter protocol (\<^verbatim>\<open>packages/adapter-protocol/src\<close>): the messages exchanged with a provider
  adapter (\<^verbatim>\<open>types.ts\<close>), the identity checks on its answers (\<^verbatim>\<open>identity.ts\<close>) and the conversion
  between JSON and protobuf structures (\<^verbatim>\<open>struct.ts\<close>).  The gRPC transport itself is a parameter
  of the components that call it.
\<close>

section \<open>Messages\<close>

text \<open>\<^verbatim>\<open>google.protobuf.Struct\<close> as the transport delivers it.\<close>

datatype proto_value = nullValue | numberValue int | stringValue string | boolValue bool
  | listValue "proto_value list" | structValue "(string \<times> proto_value) list"

type_synonym proto_struct = "(string \<times> proto_value) list"

record AdapterExecutionContext =
  ax_authorizationContextHash :: string
  ax_executionMode :: string
  ax_simulationId :: string
  ax_correlationId :: string

record AdapterInputRequest =
  ai_key :: string
  ai_description :: string
  ai_inputSchema :: "proto_struct option"
  ai_required :: bool

record McpTaskInputRequest =
  mi_key :: string
  mi_method :: string
  mi_params :: "proto_struct option"

record EvidencePayloadRef =
  pr_kind :: string
  pr_jsonPointer :: "string option"
  pr_uri :: "string option"
  pr_mediaType :: "string option"
  pr_sha256 :: "string option"

record AdapterEvidenceItem =
  ev_evidenceId :: string
  ev_evidenceType :: string
  ev_observedAt :: string
  ev_subjectRef :: "string option"
  ev_payloadRef :: "EvidencePayloadRef option"
  ev_producer :: "string list option"

record ExecutionSnapshot =
  es_taskId :: string
  es_externalExecutionId :: string
  es_state :: string
  es_revision :: int
  es_reasonCode :: string
  es_message :: string
  es_retryable :: bool
  es_result :: "proto_struct option"
  es_inputRequests :: "AdapterInputRequest list option"
  es_mcpInputRequests :: "McpTaskInputRequest list option"
  es_evidence :: "AdapterEvidenceItem list option"
  es_operationName :: string
  es_argumentHash :: string
  es_executionContext :: "AdapterExecutionContext option"

record CommandIdentity =
  ci_taskId :: string
  ci_externalExecutionId :: string
  ci_operationName :: string
  ci_argumentHash :: string
  ci_executionContext :: "AdapterExecutionContext option"
  ci_commandSequence :: int

record CommandAck =
  ca_accepted :: bool
  ca_reasonCode :: string
  ca_message :: string
  ca_commandSequence :: int
  ca_identity :: "CommandIdentity option"

record StartRejection =
  sj_reasonCode :: string
  sj_message :: string
  sj_retryable :: bool

text \<open>The answer to a start; \<open>so_object\<close> is the object itself, as it is stored.\<close>

record StartOperationResponse =
  so_result :: string
  so_accepted :: "(string \<times> ExecutionSnapshot) option"
  so_rejected :: "StartRejection option"
  so_object :: json

record ReconcileExecutionResponse =
  rr_status :: string
  rr_snapshot :: "ExecutionSnapshot option"
  rr_externalExecutionId :: string
  rr_reasonCode :: string
  rr_message :: string
  rr_retryable :: bool
  rr_object :: json

section \<open>Identity\<close>

record ExpectedExecutionIdentity =
  ei_taskId :: string
  ei_externalExecutionId :: "string option"
  ei_operationName :: string
  ei_argumentHash :: string
  ei_authorizationContextHash :: string
  ei_executionMode :: string
  ei_simulationId :: "string option"

definition normalizeMode :: "string \<Rightarrow> string" where
  "normalizeMode v = toUpperCase (map (\<lambda>c. if c = CHR ''-'' then CHR ''_'' else c) v)"

definition matchesContext :: "AdapterExecutionContext option \<Rightarrow> ExpectedExecutionIdentity \<Rightarrow> bool" where
  "matchesContext actual expected =
     (case actual of
        None \<Rightarrow> False
      | Some a \<Rightarrow>
          ax_authorizationContextHash a = ei_authorizationContextHash expected \<and>
          normalizeMode (ax_executionMode a) = normalizeMode (ei_executionMode expected) \<and>
          (if ax_simulationId a = [] then None else Some (ax_simulationId a)) = ei_simulationId expected)"

definition validateAdapterSnapshotIdentity ::
  "ExecutionSnapshot \<Rightarrow> ExpectedExecutionIdentity \<Rightarrow> err + unit" where
  "validateAdapterSnapshotIdentity snapshot expected =
     (if es_taskId snapshot \<noteq> ei_taskId expected \<or>
         length (es_externalExecutionId snapshot) = 0 \<or>
         (case ei_externalExecutionId expected of None \<Rightarrow> False
          | Some x \<Rightarrow> es_externalExecutionId snapshot \<noteq> x) \<or>
         es_operationName snapshot \<noteq> ei_operationName expected \<or>
         es_argumentHash snapshot \<noteq> ei_argumentHash expected \<or>
         \<not> matchesContext (es_executionContext snapshot) expected
      then Inl (Error ''ADAPTER_SNAPSHOT_IDENTITY_MISMATCH'') else Inr ())"

definition validateCommandAckIdentity ::
  "CommandAck \<Rightarrow> ExpectedExecutionIdentity \<Rightarrow> int \<Rightarrow> err + unit" where
  "validateCommandAckIdentity ack expected commandSequence =
     (if ca_commandSequence ack \<noteq> commandSequence \<or>
         (case ca_identity ack of
            None \<Rightarrow> True
          | Some identity \<Rightarrow>
              ci_taskId identity \<noteq> ei_taskId expected \<or>
              length (ci_externalExecutionId identity) = 0 \<or>
              (case ei_externalExecutionId expected of None \<Rightarrow> False
               | Some x \<Rightarrow> ci_externalExecutionId identity \<noteq> x) \<or>
              ci_operationName identity \<noteq> ei_operationName expected \<or>
              ci_argumentHash identity \<noteq> ei_argumentHash expected \<or>
              ci_commandSequence identity \<noteq> commandSequence \<or>
              \<not> matchesContext (ci_executionContext identity) expected)
      then Inl (Error ''ADAPTER_COMMAND_ACK_IDENTITY_MISMATCH'') else Inr ())"

text \<open>An accepted snapshot or acknowledgement belongs to the expected execution: task, execution,
  operation, arguments, authorization and simulation.\<close>

lemma matchesContext_modes:
  assumes "matchesContext (Some a) e"
  shows "normalizeMode (ax_executionMode a) = normalizeMode (ei_executionMode e)"
  using assms by (simp add: matchesContext_def)

lemma snapshot_identity_iff:
  "validateAdapterSnapshotIdentity s e = Inr () \<longleftrightarrow>
     es_taskId s = ei_taskId e \<and> es_externalExecutionId s \<noteq> [] \<and>
     (\<forall>x. ei_externalExecutionId e = Some x \<longrightarrow> es_externalExecutionId s = x) \<and>
     es_operationName s = ei_operationName e \<and> es_argumentHash s = ei_argumentHash e \<and>
     matchesContext (es_executionContext s) e"
  by (auto simp: validateAdapterSnapshotIdentity_def split: option.splits)

lemma ack_identity_iff:
  "validateCommandAckIdentity a e n = Inr () \<longleftrightarrow>
     ca_commandSequence a = n \<and>
     (\<exists>i. ca_identity a = Some i \<and> ci_taskId i = ei_taskId e \<and> ci_externalExecutionId i \<noteq> [] \<and>
       (\<forall>x. ei_externalExecutionId e = Some x \<longrightarrow> ci_externalExecutionId i = x) \<and>
       ci_operationName i = ei_operationName e \<and> ci_argumentHash i = ei_argumentHash e \<and>
       ci_commandSequence i = n \<and> matchesContext (ci_executionContext i) e)"
  by (auto simp: validateCommandAckIdentity_def split: option.splits)

section \<open>Structures\<close>

primrec jsonToProtoValue :: "json \<Rightarrow> proto_value" where
  "jsonToProtoValue JNull = nullValue"
| "jsonToProtoValue (JNum n) = numberValue n"
| "jsonToProtoValue (JStr s) = stringValue s"
| "jsonToProtoValue (JBool b) = boolValue b"
| "jsonToProtoValue (JArr xs) = listValue (map jsonToProtoValue xs)"
| "jsonToProtoValue (JObj kvs) = structValue (map (map_prod id jsonToProtoValue) kvs)"

primrec fromProtoValue :: "proto_value \<Rightarrow> json" where
  "fromProtoValue nullValue = JNull"
| "fromProtoValue (numberValue n) = JNum n"
| "fromProtoValue (stringValue s) = JStr s"
| "fromProtoValue (boolValue b) = JBool b"
| "fromProtoValue (listValue vs) = JArr (map fromProtoValue vs)"
| "fromProtoValue (structValue fs) = JObj (map (map_prod id fromProtoValue) fs)"

definition jsonToProtoStruct :: "json_object \<Rightarrow> proto_struct" where
  "jsonToProtoStruct kvs = map (map_prod id jsonToProtoValue) kvs"

definition protoStructToJson :: "proto_struct option \<Rightarrow> json_object" where
  "protoStructToJson v = (case v of None \<Rightarrow> [] | Some fs \<Rightarrow> map (map_prod id fromProtoValue) fs)"

lemma fromProtoValue_jsonToProtoValue: "fromProtoValue (jsonToProtoValue j) = j"
proof (induction j)
  case (JObj kvs)
  then have "map (map_prod id fromProtoValue) (map (map_prod id jsonToProtoValue) kvs) = kvs"
    unfolding map_map by (intro map_idI) auto
  then show ?case by simp
qed (auto simp: map_idI)

lemma jsonToProtoValue_fromProtoValue: "jsonToProtoValue (fromProtoValue v) = v"
proof (induction v)
  case (structValue fs)
  then have "map (map_prod id jsonToProtoValue) (map (map_prod id fromProtoValue) fs) = fs"
    unfolding map_map by (intro map_idI) auto
  then show ?case by simp
qed (auto simp: map_idI)

text \<open>C40. Arguments survive the trip through the protobuf structure of the adapter protocol in both
  directions, nested values and key order included.\<close>

theorem proto_struct_roundtrip:
  "protoStructToJson (Some (jsonToProtoStruct kvs)) = kvs \<and>
   jsonToProtoStruct (protoStructToJson (Some fs)) = fs"
  by (auto simp: protoStructToJson_def jsonToProtoStruct_def fromProtoValue_jsonToProtoValue
      jsonToProtoValue_fromProtoValue intro!: map_idI)

end
