(* ===== verification/Domain_Theorems.thy ===== *)
theory Domain_Theorems
  imports Adapter
begin

text \<open>
  What the pure parts of the domain and adapter packages guarantee: the mapping of adapter snapshots, the
  reserved fields of a business result, the anchors of a task's timing and the identity checks on adapter
  messages.
\<close>

section \<open>Snapshots\<close>

text \<open>The mapping of adapter snapshots accepts exactly the states of the adapter protocol and rejects every other
  state by name; what it produces is consistent: it is terminal exactly in a terminal state, has a result exactly
  when the status is completed and an error exactly when it is failed, and each terminal state has its own status.\<close>

theorem snapshot_mapping:
  "if sl_state snapshot \<in> set adapter_states then
     (\<exists>t. mapAdapterSnapshot now snapshot = Inr t \<and> tn_terminal t = isTerminalState (tn_internalState t) \<and>
        (tn_result t \<noteq> None) = (tn_mcpStatus t = completed) \<and> (tn_error t \<noteq> None) = (tn_mcpStatus t = failed) \<and>
        (tn_mcpStatus t = completed) = (tn_internalState t = TERMINAL_COMPLETED) \<and>
        (tn_mcpStatus t = failed) = (tn_internalState t = TERMINAL_FAILED) \<and>
        (tn_mcpStatus t = cancelled) = (tn_internalState t = TERMINAL_CANCELLED) \<and>
        (tn_mcpStatus t = input_required) = (tn_internalState t = INPUT_REQUIRED))
   else mapAdapterSnapshot now snapshot = Inl (Error (''UNKNOWN_ADAPTER_STATE:'' @ sl_state snapshot))"
proof (cases "sl_state snapshot \<in> set adapter_states")
  case True
  then obtain t where t: "mapAdapterSnapshot now snapshot = Inr t" using mapAdapterSnapshot_total by blast
  with mapAdapterSnapshot_ok [OF t] True show ?thesis by (auto simp: transition_ok_def state_status_ok_def)
next
  case False
  then show ?thesis by (auto simp: mapAdapterSnapshot_def Let_def adapter_states_def)
qed

lemma obj_get_spread_absent: "k \<notin> fst ` set b \<Longrightarrow> obj_get (obj_spread a b) k = obj_get a k"
  by (induction b arbitrary: a) (auto simp: obj_get_set)

text \<open>C38. An adapter cannot forge the runtime's verdict: in the result of a business failure or a partial completion the
  fields outcome, reasonCode, retryable and completedAt are the runtime's own, whatever fields of these names the
  adapter's result has, and in the result of a success none of the four is taken from the adapter.\<close>

theorem verdict_not_forgeable:
  "(outcome \<noteq> ''success'' \<longrightarrow> (\<exists>sc. obj_get (businessResult now snapshot outcome isError) ''structuredContent'' = Some (JObj sc) \<and>
      obj_get sc ''outcome'' = Some (JStr outcome) \<and>
      obj_get sc ''reasonCode'' = Some (JStr (if sl_reasonCode snapshot = [] then toUpperCase outcome else sl_reasonCode snapshot)) \<and>
      obj_get sc ''retryable'' = Some (JBool (sl_retryable snapshot)) \<and>
      obj_get sc ''completedAt'' = Some (JStr (toISOString now)))) \<and>
   (\<exists>sc. obj_get (businessResult now snapshot ''success'' isError) ''structuredContent'' = Some (JObj sc) \<and>
      (\<forall>f \<in> {''outcome'', ''reasonCode'', ''retryable'', ''completedAt''}. obj_get sc f = None))"
proof -
  have absent: "f \<notin> fst ` set (sanitizeResultPayload snapshot)"
    if "f \<in> {''outcome'', ''reasonCode'', ''retryable'', ''completedAt''}" for f
    using sanitizeResultPayload_reserved [of f snapshot] that by (auto simp: RESERVED_RESULT_FIELDS_def)
  have none: "obj_get (sanitizeResultPayload snapshot) f = None"
    if "f \<in> {''outcome'', ''reasonCode'', ''retryable'', ''completedAt''}" for f
    using absent [OF that] by (simp add: obj_get_def map_of_eq_None_iff)
  have spread: "obj_get (obj_spread fields (sanitizeResultPayload snapshot)) f = obj_get fields f"
    if "f \<in> {''outcome'', ''reasonCode'', ''retryable'', ''completedAt''}" for f fields
    using absent [OF that] by (rule obj_get_spread_absent)
  have body: "obj_get (businessResult now snapshot oc b) ''structuredContent'' =
      Some (JObj (if oc = ''success'' then sanitizeResultPayload snapshot else obj_spread
            [(''outcome'', JStr oc), (''reasonCode'', JStr (or_else (sl_reasonCode snapshot) (toUpperCase oc))),
             (''retryable'', JBool (sl_retryable snapshot)), (''completedAt'', JStr (toISOString now))]
            (sanitizeResultPayload snapshot)))" for oc b
    by (simp add: businessResult_def Let_def obj_get_def)
  show ?thesis unfolding body using none by (simp add: spread or_else_def) (simp add: obj_get_def)
qed

theorem verdict_witness:
  "\<exists>sc. obj_get (businessResult 0 \<lparr>sl_state = ''BUSINESS_FAILED'', sl_reasonCode = [], sl_message = [], sl_retryable = False,
      sl_result = Some (JObj [(''outcome'', JStr ''success'')])\<rparr> ''business_failure'' True) ''structuredContent'' = Some (JObj sc) \<and>
      obj_get sc ''outcome'' = Some (JStr ''business_failure'')"
  using verdict_not_forgeable [of "''business_failure''" 0 "\<lparr>sl_state = ''BUSINESS_FAILED'', sl_reasonCode = [], sl_message = [],
      sl_retryable = False, sl_result = Some (JObj [(''outcome'', JStr ''success'')])\<rparr>" True] by auto

section \<open>Timing\<close>

text \<open>Accepted timing is anchored consistently: the start window begins at the acceptance for an immediate start,
  ends exactly the tolerance later and is not empty, a deadline lies strictly after the beginning of the
  window by exactly the maximal elapsed time, and all computed instants are representable dates.\<close>

theorem timing_anchors:
  assumes "validateTiming legacy timing capabilities acceptedAt = Inr a"
  shows "an_acceptedAt a = acceptedAt \<and>
    an_latestStartAt a = an_notBefore a + startToleranceMs (tm_start timing) \<and> an_notBefore a \<le> an_latestStartAt a \<and>
    an_deadlineAt a = map_option (\<lambda>m. an_notBefore a + m) (tm_maxElapsedMs timing) \<and>
    (\<forall>d. an_deadlineAt a = Some d \<longrightarrow> an_notBefore a < d \<and> valid_date d) \<and> valid_date (an_latestStartAt a) \<and>
    (\<forall>tol. tm_start timing = immediate tol \<longrightarrow> an_notBefore a = acceptedAt)"
  using validateTiming_anchors [OF assms] by (auto simp: anchors_ok_def split: TimingStart.splits)

theorem timing_anchors_witness:
  "\<exists>a. validateTiming (\<lambda>_. None) \<lparr>tm_start = immediate 30000, tm_maxElapsedMs = Some 60000\<rparr> \<lparr>tc_scheduling = False, tc_maxElapsed = True\<rparr> 1000
      = Inr a \<and> an_latestStartAt a = 31000 \<and> an_deadlineAt a = Some 61000"
proof -
  let ?timing = "\<lparr>tm_start = immediate 30000, tm_maxElapsedMs = Some 60000\<rparr>" and ?cap = "\<lparr>tc_scheduling = False, tc_maxElapsed = True\<rparr>"
  obtain a where run: "validateTiming (\<lambda>_. None) ?timing ?cap 1000 = Inr a"
    by (simp add: validateTiming_def isSafeInteger_def addMilliseconds_def valid_date_def)
  from timing_anchors [OF run] run show ?thesis by auto
qed

section \<open>Identity of adapter messages\<close>

text \<open>A snapshot is accepted for one execution only: two executions for which the same snapshot passes the
  identity check agree on task, operation, arguments, authorization, simulation and, where both know it, the
  external execution.\<close>

theorem snapshot_identity:
  assumes "validateAdapterSnapshotIdentity s e = Inr ()" "validateAdapterSnapshotIdentity s e' = Inr ()"
  shows "ei_taskId e = ei_taskId e' \<and> ei_operationName e = ei_operationName e' \<and> ei_argumentHash e = ei_argumentHash e' \<and>
    ei_authorizationContextHash e = ei_authorizationContextHash e' \<and> ei_simulationId e = ei_simulationId e' \<and>
    normalizeMode (ei_executionMode e) = normalizeMode (ei_executionMode e') \<and>
    (\<forall>x y. ei_externalExecutionId e = Some x \<and> ei_externalExecutionId e' = Some y \<longrightarrow> x = y)"
  using assms unfolding snapshot_identity_iff by (auto simp: matchesContext_def split: option.splits)

definition ex_identity :: "string option \<Rightarrow> ExpectedExecutionIdentity" where
  "ex_identity x = \<lparr>ei_taskId = ''t1'', ei_externalExecutionId = x, ei_operationName = ''op'', ei_argumentHash = ''a'',
     ei_authorizationContextHash = ''h'', ei_executionMode = ''historical-replay'', ei_simulationId = Some ''s''\<rparr>"

definition ex_snapshot :: ExecutionSnapshot where
  "ex_snapshot = \<lparr>es_taskId = ''t1'', es_externalExecutionId = ''x1'', es_state = ''RUNNING'', es_revision = 1,
     es_reasonCode = [], es_message = [], es_retryable = False, es_result = None, es_inputRequests = None,
     es_mcpInputRequests = None, es_evidence = None, es_operationName = ''op'', es_argumentHash = ''a'',
     es_executionContext = Some \<lparr>ax_authorizationContextHash = ''h'', ax_executionMode = ''HISTORICAL_REPLAY'',
       ax_simulationId = ''s'', ax_correlationId = []\<rparr>\<rparr>"

theorem snapshot_identity_witness:
  "validateAdapterSnapshotIdentity ex_snapshot (ex_identity None) = Inr () \<and>
   validateAdapterSnapshotIdentity ex_snapshot (ex_identity (Some ''x1'')) = Inr () \<and>
   ei_argumentHash (ex_identity None) = ei_argumentHash (ex_identity (Some ''x1''))"
proof -
  have modes: "normalizeMode ''historical-replay'' = ''HISTORICAL_REPLAY''" "normalizeMode ''HISTORICAL_REPLAY'' = ''HISTORICAL_REPLAY''"
    by code_simp+
  have ok: "validateAdapterSnapshotIdentity ex_snapshot (ex_identity x) = Inr ()" if "x \<in> {None, Some ''x1''}" for x
    using that modes by (auto simp: snapshot_identity_iff ex_snapshot_def ex_identity_def matchesContext_def)
  from snapshot_identity [OF ok ok, of None "Some ''x1''"] ok show ?thesis by simp
qed

section \<open>Availability\<close>

definition ex_checks :: "AvailabilityCheck list" where
  "ex_checks = [\<lparr>ac_requestId = ''r1'', ac_operationName = ''op'', ac_arguments = complete_arguments [], ac_timing = None\<rparr>]"

theorem unknown_availability_witness:
  "validateAvailabilityResponse (\<lambda>_. None) 0 ex_checks (unknownAvailability ex_checks) = Inr (unknownAvailability ex_checks)"
  by (rule unknownAvailability_valid) (simp add: ex_checks_def)

definition ex_answer :: "AvailabilityResultValue list" where
  "ex_answer = [\<lparr>av_requestId = ''r1'', av_operationName = ''op'', av_availability = ''available'', av_riskLevel = None,
     av_reasonCode = None, av_description = None, av_validUntil = None, av_earliestStartTime = None,
     av_nextAvailableWindows = None, av_estimatedDelayMs = None, av_reservationMode = ''guaranteed'',
     av_reservationRef = Some ''x'', av_possibleEffects = None\<rparr>]"

theorem availability_witness:
  "validateAvailabilityResponse (\<lambda>_. None) 0 ex_checks ex_answer = Inr ex_answer \<and> map av_requestId ex_answer = [''r1'']"
proof -
  have run: "validateAvailabilityResponse (\<lambda>_. None) 0 ex_checks ex_answer = Inr ex_answer"
    by (simp add: validateAvailabilityResponse_def check_result_def check_reservation_def ex_checks_def ex_answer_def Let_def)
  from validateAvailabilityResponse_complete [OF run] run show ?thesis by (simp add: ex_answer_def)
qed

end
