(* ===== verification/Store.thy ===== *)
theory Store
  imports Adapter
begin

text \<open>
  The tables of the task store (\<^verbatim>\<open>migrations/*.sql\<close>, rows as
  \<^verbatim>\<open>packages/persistence-postgres/src/tasks.ts\<close> reads them) and the helpers every repository
  operation is built from: the guarded state transition \<open>transitionTask\<close>, the outbox, the
  operational deliveries and the command facts.

  An operation takes the database and returns either what it throws (its transaction is rolled
  back, so no database comes back) or its value with the new database.  Every statement that
  writes a constrained table goes through \<open>checked\<close>, which raises the violated constraint.
  \<^verbatim>\<open>clock_timestamp()\<close>, \<^verbatim>\<open>new Date()\<close>, SHA-256, the engine's reading of non-ISO dates
  and the sort key of \<^verbatim>\<open>localeCompare\<close> come from the environment record; one instant of each clock
  is used per operation.
\<close>

section \<open>Environment and input records\<close>

record runtime_env =
  clk :: instant
  now :: instant
  sha256 :: "string \<Rightarrow> string"
  legacy_date :: "string \<Rightarrow> instant option"
  collate :: "string \<Rightarrow> string"

record AuthorizationContext =
  au_hash :: string
  au_executionMode :: ExecutionMode
  au_simulationId :: "string option"
  au_correlationId :: "string option"
  au_traceId :: "string option"
  au_rootTraceparent :: "string option"
  au_rootTracestate :: "string option"

record AdmissionIntentInput =
  in_taskId :: string
  in_providerId :: string
  in_operationName :: string
  in_operationSnapshotId :: string
  in_authorization :: AuthorizationContext
  in_arguments :: json_object
  in_argumentHash :: string
  in_acceptedAt :: instant
  in_notBefore :: instant
  in_latestStartAt :: instant
  in_deadlineAt :: "instant option"
  in_ttlMs :: "int option"
  in_timing :: TaskExecutionTiming
  in_reservationRef :: "string option"

datatype stop_reason = USER_REQUESTED | DEADLINE_REACHED | START_WINDOW_MISSED

fun show_stop_reason :: "stop_reason \<Rightarrow> string" where
  "show_stop_reason USER_REQUESTED = ''USER_REQUESTED''"
| "show_stop_reason DEADLINE_REACHED = ''DEADLINE_REACHED''"
| "show_stop_reason START_WINDOW_MISSED = ''START_WINDOW_MISSED''"

section \<open>Rows\<close>

text \<open>A row of \<^verbatim>\<open>provider_task\<close>.  The columns written once at publication (identifiers,
  authorization, arguments, acceptance, deadline, time to live) are kept together in
  \<open>spec\<close>.\<close>

record task_row =
  spec :: AdmissionIntentInput
  external_execution_id :: "string option"
  internal_state :: InternalTaskState
  mcp_status :: McpTaskStatus
  substate :: "string option"
  status_message :: "string option"
  result :: "json_object option"
  error :: "json_object option"
  adapter_revision :: int
  observation_revision :: nat
  runtime_revision :: nat
  version :: nat
  handle_expires_at :: "instant option"
  terminal_at :: "instant option"
  expired_at :: "instant option"
  purge_after :: "instant option"
  last_confirmed_at :: "instant option"
  poll_interval_ms :: int
  created_at :: instant
  updated_at :: instant
  runtime_updated_at :: instant
  not_before :: "instant option"
  latest_start_at :: "instant option"
  actual_started_at :: "instant option"
  start_stop_requested_at :: "instant option"
  start_confirmation_deadline :: "instant option"
  start_confirmation_attempts :: nat
  invocation_attempt :: nat
  next_start_attempt_at :: "instant option"
  schedule_claim_owner :: "string option"
  schedule_claim_until :: "instant option"
  cancel_requested :: bool
  row_stop_reason :: "stop_reason option"
  next_command_sequence :: nat
  recovery_attempts :: nat
  next_recovery_at :: instant
  recovery_failure_count :: nat
  last_reconciled_at :: "instant option"

abbreviation task_id :: "task_row \<Rightarrow> string" where
  "task_id r \<equiv> in_taskId (spec r)"

datatype admission_state = ADM_PENDING | ADM_ACCEPTED | ADM_REJECTED | ADM_PUBLISHED | ADM_UNCERTAIN

record admission_row =
  ad_input :: AdmissionIntentInput
  ad_state :: admission_state
  ad_adapter_response :: "json option"
  ad_updated_at :: instant

datatype command_type = CANCEL | UPDATE | PAUSE | RESUME

datatype command_state = PENDING | CLAIMED | RETRY_WAIT | ACKNOWLEDGED | REJECTED | EXHAUSTED

record command_row =
  cmd_task_id :: string
  cmd_sequence :: nat
  cmd_type :: command_type
  cmd_request_hash :: string
  cmd_state :: command_state
  cmd_payload :: json_object
  cmd_adapter_ack :: "json option"
  cmd_attempt_count :: nat
  cmd_next_attempt_at :: instant
  cmd_claim_owner :: "string option"
  cmd_claim_until :: "instant option"
  cmd_last_error_code :: "string option"
  cmd_last_error_message :: "string option"
  cmd_priority :: int
  cmd_stop_reason :: "stop_reason option"
  cmd_previous_internal_state :: "InternalTaskState option"
  cmd_previous_mcp_status :: "McpTaskStatus option"
  cmd_previous_substate :: "string option"
  cmd_previous_status_message :: "string option"
  cmd_created_at :: instant
  cmd_updated_at :: instant

datatype request_status = OPEN | ANSWERED | SUPERSEDED

record input_request_row =
  ir_task_id :: string
  ir_key :: string
  ir_description :: string
  ir_schema :: json
  ir_required :: bool
  ir_status :: request_status
  ir_request_json :: json
  ir_answer_hash :: "string option"
  ir_answer :: "json option"
  ir_response_hash :: "string option"
  ir_response_json :: "json option"
  ir_answered_at :: "instant option"

datatype inbox_state = IB_PENDING | IB_ASSIGNED | IB_ACKNOWLEDGED | IB_IGNORED | IB_FAILED

record inbox_row =
  ib_task_id :: string
  ib_key :: string
  ib_response_hash :: string
  ib_response_json :: json
  ib_state :: inbox_state
  ib_command_sequence :: "nat option"
  ib_accepted_at :: instant
  ib_last_error_code :: "string option"

record observation_row =
  ob_task_id :: string
  ob_revision :: nat
  ob_type :: string
  ob_reason_code :: "string option"
  ob_occurred_at :: instant
  ob_message :: "string option"
  ob_substate :: "string option"
  ob_progress :: "json option"
  ob_from_adapter :: bool
  ob_adapter_revision :: "int option"
  ob_payload :: json_object

text \<open>Event keys are lists of segments; \<open>render_key\<close> is the text stored in the column.\<close>

type_synonym event_key = "string list"

definition render_key :: "event_key \<Rightarrow> string" where
  "render_key k = join_colon k"

record outbox_row =
  ox_event_key :: event_key
  ox_aggregate_id :: string
  ox_event_type :: string
  ox_payload :: json_object

record delivery_row =
  dl_event_key :: event_key
  dl_record_type :: string
  dl_delivery_class :: string
  dl_aggregate_type :: string
  dl_aggregate_id :: string
  dl_event_type :: string
  dl_revision :: "int option"
  dl_occurred_at :: instant
  dl_payload :: json_object

record binding_row =
  rb_provider_id :: string
  rb_task_id :: string
  rb_resource_ref :: string
  rb_bound_at :: instant
  rb_terminal_at :: "instant option"
  rb_retain_until :: instant

record lease_row =
  ls_key :: string
  ls_owner :: string
  ls_fencing_token :: nat
  ls_expires_at :: instant

record db =
  provider_task :: "task_row list"
  admission_intent :: "admission_row list"
  task_command :: "command_row list"
  task_input_request :: "input_request_row list"
  task_input_response_inbox :: "inbox_row list"
  task_observation :: "observation_row list"
  outbox_event :: "outbox_row list"
  provider_ops_delivery :: "delivery_row list"
  resource_binding :: "binding_row list"
  operation_snapshot :: "(string \<times> json_object) list"
  runtime_lease :: "lease_row list"

definition empty_db :: db where
  "empty_db = \<lparr>provider_task = [], admission_intent = [], task_command = [], task_input_request = [],
     task_input_response_inbox = [], task_observation = [], outbox_event = [],
     provider_ops_delivery = [], resource_binding = [], operation_snapshot = [],
     runtime_lease = []\<rparr>"

section \<open>Constraints\<close>

definition allowed_substates :: "string list" where
  "allowed_substates = [''scheduled'', ''queued'', ''running'', ''paused'', ''resuming'', ''stopping'']"

text \<open>\<^verbatim>\<open>provider_task_substate_check\<close>, the column checks and
  \<^verbatim>\<open>provider_task_retention_order_check\<close>.\<close>

definition retention_order :: "task_row \<Rightarrow> bool" where
  "retention_order r =
     ((terminal_at r \<noteq> None) = isTerminalState (internal_state r) \<and>
      (terminal_at r = None \<or> handle_expires_at r \<noteq> None) \<and>
      (expired_at r = None \<or> terminal_at r \<noteq> None) \<and>
      (purge_after r = None \<or> expired_at r \<noteq> None) \<and>
      (case (purge_after r, expired_at r) of (Some p, Some e) \<Rightarrow> e \<le> p | _ \<Rightarrow> True))"

definition task_row_ok :: "task_row \<Rightarrow> bool" where
  "task_row_ok r =
     ((case substate r of None \<Rightarrow> True | Some s \<Rightarrow> s \<in> set allowed_substates) \<and>
      0 \<le> adapter_revision r \<and> 0 < runtime_revision r \<and> 250 \<le> poll_interval_ms r \<and>
      (case in_ttlMs (spec r) of None \<Rightarrow> True | Some t \<Rightarrow> 0 < t) \<and>
      (au_executionMode (in_authorization (spec r)) = live) =
        (au_simulationId (in_authorization (spec r)) = None) \<and>
      retention_order r)"

text \<open>\<^verbatim>\<open>task_command_claim_lease_consistency\<close> and the sequence check.\<close>

definition command_row_ok :: "command_row \<Rightarrow> bool" where
  "command_row_ok c =
     (0 < cmd_sequence c \<and>
      (if cmd_state c = CLAIMED then cmd_claim_owner c \<noteq> None \<and> cmd_claim_until c \<noteq> None
       else cmd_claim_owner c = None \<and> cmd_claim_until c = None))"

definition active_stop :: "command_row \<Rightarrow> bool" where
  "active_stop c = (cmd_type c = CANCEL \<and> cmd_state c \<in> {PENDING, CLAIMED, RETRY_WAIT, ACKNOWLEDGED})"

definition execution_keys :: "task_row list \<Rightarrow> (string \<times> string) list" where
  "execution_keys rows =
     map (\<lambda>r. (in_providerId (spec r), the (external_execution_id r)))
       (filter (\<lambda>r. external_execution_id r \<noteq> None) rows)"

text \<open>The checks of \<^verbatim>\<open>provider_task_resource_binding\<close>.\<close>

definition binding_row_ok :: "binding_row \<Rightarrow> bool" where
  "binding_row_ok b =
     (case rb_terminal_at b of
        None \<Rightarrow> rb_bound_at b \<le> rb_retain_until b
      | Some t \<Rightarrow> rb_bound_at b \<le> t \<and> t \<le> rb_retain_until b)"

definition schema_checks :: "db \<Rightarrow> (string \<times> bool) list" where
  "schema_checks db =
    [(''provider_task_check'', list_all task_row_ok (provider_task db)),
     (''provider_task_pkey'', distinct (map task_id (provider_task db))),
     (''provider_task_provider_id_external_execution_id_key'', distinct (execution_keys (provider_task db))),
     (''task_command_check'', list_all command_row_ok (task_command db)),
     (''task_command_pkey'', distinct (map (\<lambda>c. (cmd_task_id c, cmd_sequence c)) (task_command db))),
     (''task_command_one_claimed_per_task_idx'',
        distinct (map cmd_task_id (filter (\<lambda>c. cmd_state c = CLAIMED) (task_command db)))),
     (''task_command_active_stop_idx'', distinct (map cmd_task_id (filter active_stop (task_command db)))),
     (''task_command_non_cancel_request_idx'',
        distinct (map (\<lambda>c. (cmd_task_id c, cmd_type c, cmd_request_hash c))
          (filter (\<lambda>c. cmd_type c \<noteq> CANCEL) (task_command db)))),
     (''task_observation_pkey'', distinct (map (\<lambda>o1. (ob_task_id o1, ob_revision o1)) (task_observation db))),
     (''outbox_event_event_key_key'', distinct (map ox_event_key (outbox_event db))),
     (''task_input_request_pkey'', distinct (map (\<lambda>q. (ir_task_id q, ir_key q)) (task_input_request db))),
     (''task_input_response_inbox_pkey'',
        distinct (map (\<lambda>q. (ib_task_id q, ib_key q)) (task_input_response_inbox db))),
     (''task_input_response_inbox_fkey'',
        list_all (\<lambda>q. (ib_task_id q, ib_key q) \<in> set (map (\<lambda>q. (ir_task_id q, ir_key q)) (task_input_request db)))
          (task_input_response_inbox db)),
     (''provider_task_resource_binding_check'', list_all binding_row_ok (resource_binding db)),
     (''provider_task_resource_binding_pkey'',
        distinct (map (\<lambda>b. (rb_provider_id b, rb_task_id b)) (resource_binding db)))]"

definition checked :: "db \<Rightarrow> err + db" where
  "checked db = (case first_row (\<lambda>(_, ok). \<not> ok) (schema_checks db) of
     None \<Rightarrow> Inr db | Some (name, _) \<Rightarrow> Inl (DbConstraint name))"

definition schema_ok :: "db \<Rightarrow> bool" where
  "schema_ok db = list_all snd (schema_checks db)"

lemma checked_Inr_iff: "checked db = Inr db' \<longleftrightarrow> db' = db \<and> schema_ok db"
proof (cases "first_row (\<lambda>(_, ok). \<not> ok) (schema_checks db)")
  case None
  then have "list_all snd (schema_checks db)" by (fastforce simp: first_row_None_iff list_all_iff)
  with None show ?thesis by (auto simp: checked_def schema_ok_def)
next
  case (Some x)
  then have "\<not> list_all snd (schema_checks db)"
    by (fastforce dest: first_row_SomeD simp: list_all_iff)
  with Some show ?thesis by (auto simp: checked_def schema_ok_def split: prod.splits)
qed

lemma checked_ok: "schema_ok db \<Longrightarrow> checked db = Inr db"
  by (simp add: checked_Inr_iff)

lemma schema_okD:
  assumes "schema_ok db"
  shows "distinct (map task_id (provider_task db))"
    "list_all task_row_ok (provider_task db)"
    "distinct (execution_keys (provider_task db))"
    "list_all command_row_ok (task_command db)"
    "distinct (map (\<lambda>c. (cmd_task_id c, cmd_sequence c)) (task_command db))"
    "distinct (map cmd_task_id (filter (\<lambda>c. cmd_state c = CLAIMED) (task_command db)))"
    "distinct (map cmd_task_id (filter active_stop (task_command db)))"
    "distinct (map (\<lambda>o1. (ob_task_id o1, ob_revision o1)) (task_observation db))"
    "distinct (map ox_event_key (outbox_event db))"
  using assms by (simp_all add: schema_ok_def schema_checks_def)

lemma schema_ok_empty: "schema_ok empty_db"
  by (simp add: schema_ok_def schema_checks_def empty_db_def execution_keys_def)

text \<open>\<^verbatim>\<open>UPDATE provider_task SET ... WHERE task_id=$1\<close> and the same for commands.\<close>

definition update_task :: "string \<Rightarrow> (task_row \<Rightarrow> task_row) \<Rightarrow> db \<Rightarrow> db" where
  "update_task t f db = db\<lparr>provider_task := update_rows (\<lambda>r. task_id r = t) f (provider_task db)\<rparr>"

definition update_commands :: "(command_row \<Rightarrow> bool) \<Rightarrow> (command_row \<Rightarrow> command_row) \<Rightarrow> db \<Rightarrow> db" where
  "update_commands P f db = db\<lparr>task_command := update_rows P f (task_command db)\<rparr>"

definition find_task :: "string \<Rightarrow> db \<Rightarrow> task_row option" where
  "find_task t db = first_row (\<lambda>r. task_id r = t) (provider_task db)"

section \<open>Operational deliveries and the outbox\<close>

definition json_opt :: "string option \<Rightarrow> json" where
  "json_opt v = (case v of None \<Rightarrow> JNull | Some s \<Rightarrow> JStr s)"

definition json_date_opt :: "instant option \<Rightarrow> json" where
  "json_date_opt v = (case v of None \<Rightarrow> JNull | Some t \<Rightarrow> JStr (toISOString t))"

definition taskResultClass :: "task_row \<Rightarrow> string option" where
  "taskResultClass r =
     (if internal_state r = TERMINAL_FAILED then Some ''technical_failure''
      else if internal_state r = TERMINAL_CANCELLED then Some ''cancelled''
      else if internal_state r \<noteq> TERMINAL_COMPLETED then None
      else
        let body = (case result r of None \<Rightarrow> [] | Some b \<Rightarrow> b);
            fallback = (if obj_get body ''isError'' = Some (JBool True) then ''business_failure'' else ''success'')
        in Some (case obj_get body ''structuredContent'' of
             Some (JObj structured) \<Rightarrow>
               (case obj_get structured ''outcome'' of Some (JStr s) \<Rightarrow> s | _ \<Rightarrow> fallback)
           | _ \<Rightarrow> fallback))"

definition ops_payload_keys :: "string list" where
  "ops_payload_keys = [''taskId'', ''commandSequence'', ''commandType'', ''previousState'',
     ''currentState'', ''previousSubstate'', ''currentSubstate'', ''reasonCode'', ''terminal'',
     ''resultClass'', ''status'', ''observationRevision'', ''adapterRevision'', ''attempt'',
     ''retryAfterMs'', ''adapterRpcStatus'']"

fun is_scalar :: "json \<Rightarrow> bool" where
  "is_scalar (JObj _) = False"
| "is_scalar (JArr _) = False"
| "is_scalar _ = True"

definition providerOpsPayload :: "json_object \<Rightarrow> json_object" where
  "providerOpsPayload payload =
     List.map_filter (\<lambda>key. case obj_get payload key of
         Some v \<Rightarrow> if is_scalar v then Some (key, v) else None
       | None \<Rightarrow> None) ops_payload_keys"

definition finiteNumber :: "json option \<Rightarrow> int option" where
  "finiteNumber v = (case v of Some (JNum n) \<Rightarrow> Some n | _ \<Rightarrow> None)"

definition timestampFromPayload :: "runtime_env \<Rightarrow> json_object \<Rightarrow> instant" where
  "timestampFromPayload env payload =
     (case obj_get payload ''occurredAt'' of
        Some (JStr s) \<Rightarrow> (case Date_parse (legacy_date env) s of Some t \<Rightarrow> t | None \<Rightarrow> now env)
      | _ \<Rightarrow> now env)"

text \<open>\<^verbatim>\<open>captureProviderOpsDelivery\<close>: inserted unless the event key is there already.\<close>

definition captureProviderOpsDelivery :: "delivery_row \<Rightarrow> db \<Rightarrow> db" where
  "captureProviderOpsDelivery d db =
     (if dl_event_key d \<in> set (map dl_event_key (provider_ops_delivery db)) then db
      else db\<lparr>provider_ops_delivery := provider_ops_delivery db @ [d]\<rparr>)"

definition captureTaskProviderOpsDelivery ::
  "task_row \<Rightarrow> string \<Rightarrow> json_object \<Rightarrow> event_key \<Rightarrow> instant \<Rightarrow> db \<Rightarrow> db" where
  "captureTaskProviderOpsDelivery task eventType payload eventKey occurredAt db =
     (let commandSequence = finiteNumber (obj_get payload ''commandSequence'');
          observationRevision = finiteNumber (obj_get payload ''observationRevision'');
          isCommand = starts_with ''task.command.'' eventType
      in captureProviderOpsDelivery
        \<lparr>dl_event_key = eventKey,
         dl_record_type = (if isCommand then ''provider.command.lifecycle'' else ''provider.task.lifecycle''),
         dl_delivery_class = ''audit'',
         dl_aggregate_type = (if isCommand then ''command'' else ''task''),
         dl_aggregate_id = task_id task,
         dl_event_type = eventType,
         dl_revision = (if isCommand then commandSequence else observationRevision),
         dl_occurred_at = occurredAt,
         dl_payload = providerOpsPayload payload\<rparr> db)"

definition captureTaskOperationalEvent ::
  "string \<Rightarrow> string \<Rightarrow> string \<Rightarrow> event_key \<Rightarrow> instant \<Rightarrow> json_object \<Rightarrow> db \<Rightarrow> err + db" where
  "captureTaskOperationalEvent t recordType eventType eventIdentity occurredAt payload db =
     (case find_task t db of
        None \<Rightarrow> Inl (Error ''TASK_NOT_FOUND'')
      | Some task \<Rightarrow> Inr (captureProviderOpsDelivery
          \<lparr>dl_event_key = eventIdentity @ [recordType],
           dl_record_type = recordType,
           dl_delivery_class = ''operational'',
           dl_aggregate_type =
             (if starts_with ''provider.scheduler'' recordType then ''scheduler''
              else if starts_with ''provider.recovery'' recordType then ''recovery'' else ''ttl''),
           dl_aggregate_id = t,
           dl_event_type = eventType,
           dl_revision = None,
           dl_occurred_at = occurredAt,
           dl_payload = payload\<rparr> db))"

text \<open>\<^verbatim>\<open>insertOutbox\<close>: the event is completed with the task's columns, given fields winning,
  and inserted unless its key is there; a delivery is captured with it.\<close>

definition task_event_fields :: "runtime_env \<Rightarrow> task_row \<Rightarrow> json_object" where
  "task_event_fields env task =
    [(''taskId'', JStr (task_id task)),
     (''previousState'', JNull),
     (''currentState'', JStr (show_state (internal_state task))),
     (''previousSubstate'', JNull),
     (''currentSubstate'', json_opt (substate task)),
     (''reasonCode'', JNull),
     (''terminal'', JBool (isTerminalState (internal_state task))),
     (''resultClass'', json_opt (taskResultClass task)),
     (''internalState'', JStr (show_state (internal_state task))),
     (''status'', JStr (show_status (mcp_status task))),
     (''substate'', json_opt (substate task)),
     (''statusMessage'', json_opt (status_message task)),
     (''externalExecutionId'', json_opt (external_execution_id task)),
     (''operationName'', JStr (in_operationName (spec task))),
     (''executionMode'', JStr (show_mode (au_executionMode (in_authorization (spec task))))),
     (''simulationId'', json_opt (au_simulationId (in_authorization (spec task)))),
     (''argumentHash'', JStr (in_argumentHash (spec task))),
     (''authorizationContextHash'', JStr (au_hash (in_authorization (spec task)))),
     (''observationRevision'', JNum (int (observation_revision task))),
     (''adapterRevision'', JNum (adapter_revision task)),
     (''occurredAt'', JStr (toISOString (now env)))]"

definition has_event :: "event_key \<Rightarrow> db \<Rightarrow> bool" where
  "has_event k db = (k \<in> set (map ox_event_key (outbox_event db)))"

definition insertOutbox ::
  "runtime_env \<Rightarrow> string \<Rightarrow> string \<Rightarrow> json_object \<Rightarrow> event_key \<Rightarrow> db \<Rightarrow> db" where
  "insertOutbox env t eventType payload eventKey db =
     (let task = find_task t db;
          completePayload = (case task of None \<Rightarrow> payload
            | Some r \<Rightarrow> obj_spread (task_event_fields env r) payload)
      in if has_event eventKey db then db
         else
           let db1 = db\<lparr>outbox_event := outbox_event db @
                 [\<lparr>ox_event_key = eventKey, ox_aggregate_id = t, ox_event_type = eventType,
                   ox_payload = completePayload\<rparr>]\<rparr>
           in case task of None \<Rightarrow> db1
              | Some r \<Rightarrow> captureTaskProviderOpsDelivery r eventType completePayload eventKey
                  (timestampFromPayload env completePayload) db1)"

definition insertCommittedTaskEvent ::
  "runtime_env \<Rightarrow> string \<Rightarrow> string \<Rightarrow> json_object \<Rightarrow> event_key \<Rightarrow> db \<Rightarrow> db" where
  "insertCommittedTaskEvent env t eventType payload eventKey db =
     insertOutbox env t eventType payload eventKey db"

section \<open>Command facts\<close>

fun show_command_type :: "command_type \<Rightarrow> string" where
  "show_command_type CANCEL = ''CANCEL''"
| "show_command_type UPDATE = ''UPDATE''"
| "show_command_type PAUSE = ''PAUSE''"
| "show_command_type RESUME = ''RESUME''"

fun show_command_state :: "command_state \<Rightarrow> string" where
  "show_command_state PENDING = ''PENDING''"
| "show_command_state CLAIMED = ''CLAIMED''"
| "show_command_state RETRY_WAIT = ''RETRY_WAIT''"
| "show_command_state ACKNOWLEDGED = ''ACKNOWLEDGED''"
| "show_command_state REJECTED = ''REJECTED''"
| "show_command_state EXHAUSTED = ''EXHAUSTED''"

record command_fact =
  cf_sequence :: nat
  cf_commandType :: command_type
  cf_state :: command_state
  cf_attemptCount :: "nat option"

record fact_extra =
  fx_previousState :: "command_state option"
  fx_retryAfterMs :: "int option"
  fx_reasonCode :: "string option"
  fx_adapterRpcStatus :: "string option"

definition no_extra :: fact_extra where
  "no_extra = \<lparr>fx_previousState = None, fx_retryAfterMs = None, fx_reasonCode = None,
     fx_adapterRpcStatus = None\<rparr>"

definition optional_field :: "string \<Rightarrow> json option \<Rightarrow> json_object" where
  "optional_field key v = (case v of None \<Rightarrow> [] | Some j \<Rightarrow> [(key, j)])"

definition command_fact_key :: "string \<Rightarrow> command_fact \<Rightarrow> string \<Rightarrow> event_key" where
  "command_fact_key t c eventType =
     [t, ''command'', show_nat (cf_sequence c), eventType, show_command_state (cf_state c),
      show_nat (case cf_attemptCount c of None \<Rightarrow> 0 | Some n \<Rightarrow> n)]"

definition command_fact_payload :: "runtime_env \<Rightarrow> string \<Rightarrow> command_fact \<Rightarrow> fact_extra \<Rightarrow> json_object" where
  "command_fact_payload env t c extra =
     [(''taskId'', JStr t),
      (''commandSequence'', JNum (int (cf_sequence c))),
      (''commandType'', JStr (show_command_type (cf_commandType c))),
      (''previousState'', JStr (show_command_state
         (case fx_previousState extra of None \<Rightarrow> cf_state c | Some p \<Rightarrow> p))),
      (''currentState'', JStr (show_command_state (cf_state c)))] @
     optional_field ''attempt'' (map_option (\<lambda>n. JNum (int n)) (cf_attemptCount c)) @
     optional_field ''retryAfterMs'' (map_option JNum (fx_retryAfterMs extra)) @
     optional_field ''reasonCode'' (map_option JStr (fx_reasonCode extra)) @
     optional_field ''adapterRpcStatus'' (map_option JStr (fx_adapterRpcStatus extra)) @
     [(''occurredAt'', JStr (toISOString (now env)))]"

definition insertCommandFact ::
  "runtime_env \<Rightarrow> string \<Rightarrow> command_fact \<Rightarrow> string \<Rightarrow> fact_extra \<Rightarrow> db \<Rightarrow> db" where
  "insertCommandFact env t c eventType extra db =
     insertOutbox env t eventType (command_fact_payload env t c extra) (command_fact_key t c eventType) db"

text \<open>\<^verbatim>\<open>recordCommandResolutionFact\<close>, the best-effort fact outside the command's own transaction:
  a duplicate is written as it is, without the task's columns and without a delivery.\<close>

definition recordCommandResolutionFact ::
  "runtime_env \<Rightarrow> string \<Rightarrow> command_fact \<Rightarrow> string \<Rightarrow> fact_extra \<Rightarrow> db \<Rightarrow> db" where
  "recordCommandResolutionFact env t c eventType extra db =
     (if eventType = ''task.command.duplicate'' then
        (if has_event (command_fact_key t c eventType) db then db
         else db\<lparr>outbox_event := outbox_event db @
           [\<lparr>ox_event_key = command_fact_key t c eventType, ox_aggregate_id = t,
             ox_event_type = eventType, ox_payload = command_fact_payload env t c extra\<rparr>]\<rparr>)
      else insertCommandFact env t c eventType extra db)"

section \<open>Transitions\<close>

record TransitionObservation =
  to_type :: string
  to_occurredAt :: instant
  to_reasonCode :: "string option"
  to_message :: "string option"
  to_substate :: "string option"
  to_progress :: "json option"
  to_adapter :: bool
  to_adapterRevision :: "int option"
  to_payload :: json_object

text \<open>A field of the update is \<open>None\<close> when absent; nullable columns have an inner option.\<close>

record TaskTransitionUpdate =
  up_internalState :: "InternalTaskState option"
  up_mcpStatus :: "McpTaskStatus option"
  up_substate :: "string option option"
  up_statusMessage :: "string option option"
  up_result :: "json_object option option"
  up_error :: "json_object option option"
  up_adapterRevision :: "int option"
  up_externalExecutionId :: "string option option"
  up_actualStartedAt :: "instant option option"
  up_cancelRequested :: "bool option"
  up_stopReason :: "stop_reason option option"
  up_startStopRequestedAt :: "instant option option"
  up_startConfirmationDeadline :: "instant option option"
  up_startConfirmationAttempts :: "nat option"
  up_scheduleClaimOwner :: "string option option"
  up_scheduleClaimUntil :: "instant option option"
  up_nextStartAttemptAt :: "instant option option"
  up_invocationAttempt :: "nat option"
  up_recoveryAttempts :: "nat option"
  up_nextRecoveryAt :: "instant option"
  up_recoveryFailureCount :: "nat option"
  up_lastReconciledAt :: "instant option option"

definition no_update :: TaskTransitionUpdate where
  "no_update = \<lparr>up_internalState = None, up_mcpStatus = None, up_substate = None,
     up_statusMessage = None, up_result = None, up_error = None, up_adapterRevision = None,
     up_externalExecutionId = None, up_actualStartedAt = None, up_cancelRequested = None,
     up_stopReason = None, up_startStopRequestedAt = None, up_startConfirmationDeadline = None,
     up_startConfirmationAttempts = None, up_scheduleClaimOwner = None, up_scheduleClaimUntil = None,
     up_nextStartAttemptAt = None, up_invocationAttempt = None, up_recoveryAttempts = None,
     up_nextRecoveryAt = None, up_recoveryFailureCount = None, up_lastReconciledAt = None\<rparr>"

record TaskTransitionRequest =
  tq_taskId :: string
  tq_expectedVersion :: "nat option"
  tq_update :: TaskTransitionUpdate
  tq_observation :: TransitionObservation
  tq_outboxType :: string
  tq_eventKey :: event_key
  tq_outboxPayload :: json_object

definition given :: "'a option \<Rightarrow> 'a \<Rightarrow> 'a" where
  "given v old = (case v of None \<Rightarrow> old | Some x \<Rightarrow> x)"

lemma given_simps [simp]: "given None old = old" "given (Some x) old = x"
  by (simp_all add: given_def)

text \<open>The assignments of the generated \<^verbatim>\<open>UPDATE\<close>.\<close>

definition apply_update :: "TaskTransitionUpdate \<Rightarrow> TransitionObservation \<Rightarrow> task_row \<Rightarrow> task_row" where
  "apply_update u ob r =
     (let st = given (up_internalState u) (internal_state r); at = to_occurredAt ob;
          ttl = in_ttlMs (spec r)
      in r\<lparr>observation_revision := observation_revision r + 1,
           runtime_revision := runtime_revision r + 1,
           version := version r + 1,
           updated_at := at,
           runtime_updated_at := at,
           internal_state := st,
           mcp_status := given (up_mcpStatus u) (mcp_status r),
           substate := given (up_substate u) (substate r),
           status_message := given (up_statusMessage u) (status_message r),
           result := given (up_result u) (result r),
           error := given (up_error u) (error r),
           adapter_revision := given (up_adapterRevision u) (adapter_revision r),
           external_execution_id := given (up_externalExecutionId u) (external_execution_id r),
           actual_started_at := given (up_actualStartedAt u) (actual_started_at r),
           cancel_requested := given (up_cancelRequested u) (cancel_requested r),
           row_stop_reason := given (up_stopReason u) (row_stop_reason r),
           start_stop_requested_at := given (up_startStopRequestedAt u) (start_stop_requested_at r),
           start_confirmation_deadline := given (up_startConfirmationDeadline u) (start_confirmation_deadline r),
           start_confirmation_attempts := given (up_startConfirmationAttempts u) (start_confirmation_attempts r),
           schedule_claim_owner := given (up_scheduleClaimOwner u) (schedule_claim_owner r),
           schedule_claim_until := given (up_scheduleClaimUntil u) (schedule_claim_until r),
           next_start_attempt_at := given (up_nextStartAttemptAt u) (next_start_attempt_at r),
           invocation_attempt := given (up_invocationAttempt u) (invocation_attempt r),
           recovery_attempts := given (up_recoveryAttempts u) (recovery_attempts r),
           next_recovery_at := given (up_nextRecoveryAt u) (next_recovery_at r),
           recovery_failure_count := given (up_recoveryFailureCount u) (recovery_failure_count r),
           last_reconciled_at := given (up_lastReconciledAt u) (last_reconciled_at r),
           terminal_at := (if isTerminalState st then Some at else terminal_at r),
           handle_expires_at :=
             (if isTerminalState st then Some (at + (case ttl of None \<Rightarrow> 86400000 | Some m \<Rightarrow> m))
              else case ttl of None \<Rightarrow> handle_expires_at r | Some m \<Rightarrow> Some (at + m)),
           last_confirmed_at := (if to_adapter ob then Some at else last_confirmed_at r)\<rparr>)"

definition schedulerDecisionFor :: "string \<Rightarrow> string option" where
  "schedulerDecisionFor eventType = map_of
    [(''task.start_attempt'', ''claimed''), (''task.start_retry'', ''retry''),
     (''task.start_uncertain'', ''retry''), (''task.start_window_violation'', ''start_window_missed''),
     (''task.start_window_missed'', ''start_window_missed''),
     (''task.start_window_stop_requested'', ''start_window_missed''),
     (''task.started'', ''started''), (''task.deadline_stop_requested'', ''deadline'')] eventType"

text \<open>The payload of the transition's event: what the caller gave, overridden by the columns
  before and after.  The wall-clock duration the code adds to it is left out.\<close>

definition transition_payload ::
  "TaskTransitionRequest \<Rightarrow> task_row \<Rightarrow> task_row \<Rightarrow> json_object" where
  "transition_payload q existing row =
     obj_spread (tq_outboxPayload q)
      [(''taskId'', JStr (tq_taskId q)),
       (''previousState'', JStr (show_state (internal_state existing))),
       (''currentState'', JStr (show_state (internal_state row))),
       (''previousSubstate'', json_opt (substate existing)),
       (''currentSubstate'', json_opt (substate row)),
       (''reasonCode'', json_opt (to_reasonCode (tq_observation q))),
       (''terminal'', JBool (isTerminalState (internal_state row))),
       (''resultClass'', json_opt (taskResultClass row)),
       (''internalState'', JStr (show_state (internal_state row))),
       (''status'', JStr (show_status (mcp_status row))),
       (''substate'', json_opt (substate row)),
       (''statusMessage'', json_opt (status_message row)),
       (''externalExecutionId'', json_opt (external_execution_id row)),
       (''operationName'', JStr (in_operationName (spec row))),
       (''executionMode'', JStr (show_mode (au_executionMode (in_authorization (spec row))))),
       (''simulationId'', json_opt (au_simulationId (in_authorization (spec row)))),
       (''reservationRef'', json_opt (in_reservationRef (spec row))),
       (''argumentHash'', JStr (in_argumentHash (spec row))),
       (''authorizationContextHash'', JStr (au_hash (in_authorization (spec row)))),
       (''traceId'', json_opt (au_traceId (in_authorization (spec row)))),
       (''rootTraceparent'', json_opt (au_rootTraceparent (in_authorization (spec row)))),
       (''rootTracestate'', json_opt (au_rootTracestate (in_authorization (spec row)))),
       (''correlationId'', json_opt (au_correlationId (in_authorization (spec row)))),
       (''observationRevision'', JNum (int (observation_revision row))),
       (''adapterRevision'', JNum (adapter_revision row)),
       (''occurredAt'', JStr (toISOString (to_occurredAt (tq_observation q))))]"

definition transition_observation :: "TaskTransitionRequest \<Rightarrow> task_row \<Rightarrow> observation_row" where
  "transition_observation q row =
     (let ob = tq_observation q in
      \<lparr>ob_task_id = tq_taskId q, ob_revision = observation_revision row, ob_type = to_type ob,
       ob_reason_code = to_reasonCode ob, ob_occurred_at = to_occurredAt ob,
       ob_message = to_message ob, ob_substate = to_substate ob, ob_progress = to_progress ob,
       ob_from_adapter = to_adapter ob, ob_adapter_revision = to_adapterRevision ob,
       ob_payload = to_payload ob\<rparr>)"

text \<open>\<^verbatim>\<open>UPDATE provider_task_resource_binding\<close> of a task that has become terminal.\<close>

definition release_binding :: "string \<Rightarrow> string \<Rightarrow> instant \<Rightarrow> db \<Rightarrow> db" where
  "release_binding provider t at db =
     db\<lparr>resource_binding := update_rows (\<lambda>b. rb_provider_id b = provider \<and> rb_task_id b = t)
       (\<lambda>b. b\<lparr>rb_terminal_at := Some at, rb_retain_until := max (rb_retain_until b) (at + 1209960000)\<rparr>)
       (resource_binding db)\<rparr>"

text \<open>The operational events that go with some transitions.\<close>

definition capture_decisions :: "TaskTransitionRequest \<Rightarrow> task_row \<Rightarrow> db \<Rightarrow> err + db" where
  "capture_decisions q row db =
     bind_err (case schedulerDecisionFor (tq_outboxType q) of
         None \<Rightarrow> Inr db
       | Some decision \<Rightarrow>
           captureTaskOperationalEvent (tq_taskId q) ''provider.scheduler.decision'' decision
             (tq_eventKey q) (to_occurredAt (tq_observation q))
             [(''decision'', JStr decision), (''taskId'', JStr (tq_taskId q)),
              (''operationName'', JStr (in_operationName (spec row))),
              (''invocationAttempt'', JNum (int (invocation_attempt row))),
              (''scheduledAt'', json_date_opt (not_before row)),
              (''latestStartAt'', json_date_opt (latest_start_at row)),
              (''reasonCode'', json_opt (to_reasonCode (tq_observation q)))] db) (\<lambda>db.
       if tq_outboxType q = ''task.recovery'' then
         captureTaskOperationalEvent (tq_taskId q) ''provider.recovery.lifecycle'' ''reconcile_success''
           (tq_eventKey q) (to_occurredAt (tq_observation q))
           [(''event'', JStr ''reconcile''), (''taskId'', JStr (tq_taskId q)),
            (''recoveryAttempt'', JNum (int (recovery_attempts row))),
            (''outcome'', JStr ''success''),
            (''reasonCode'', json_opt (to_reasonCode (tq_observation q))),
            (''nextRecoveryAt'', JStr (toISOString (next_recovery_at row)))] db
       else Inr db)"

text \<open>\<^verbatim>\<open>transitionTask\<close>: nothing happens when the event is already recorded, when the task is
  terminal or when the adapter revision is not newer; otherwise the row, one observation, one
  event and its deliveries are written together.\<close>

definition transitionTask :: "TaskTransitionRequest \<Rightarrow> db \<Rightarrow> err + ((task_row \<times> bool) \<times> db)" where
  "transitionTask q db =
     (case find_task (tq_taskId q) db of
        None \<Rightarrow> Inl (Error ''TASK_NOT_FOUND'')
      | Some existing \<Rightarrow>
          if has_event (tq_eventKey q) db then Inr ((existing, False), db)
          else if isTerminalState (internal_state existing) then Inr ((existing, False), db)
          else if (case tq_expectedVersion q of None \<Rightarrow> False | Some v \<Rightarrow> version existing \<noteq> v)
            then Inl (Error ''TASK_VERSION_CONFLICT'')
          else if (case up_adapterRevision (tq_update q) of None \<Rightarrow> False
                   | Some a \<Rightarrow> a \<le> adapter_revision existing)
            then Inr ((existing, False), db)
          else
            let row = apply_update (tq_update q) (tq_observation q) existing;
                at = to_occurredAt (tq_observation q)
            in bind_err (checked (update_task (tq_taskId q) (\<lambda>_. row) db)) (\<lambda>db.
               bind_err (if isTerminalState (internal_state row)
                         then checked (release_binding (in_providerId (spec row)) (tq_taskId q) at db)
                         else Inr db) (\<lambda>db.
               bind_err (checked (db\<lparr>task_observation := task_observation db @ [transition_observation q row]\<rparr>)) (\<lambda>db.
                  let payload = transition_payload q existing row
                  in bind_err (checked (db\<lparr>outbox_event := outbox_event db @
                        [\<lparr>ox_event_key = tq_eventKey q, ox_aggregate_id = tq_taskId q,
                          ox_event_type = tq_outboxType q, ox_payload = payload\<rparr>]\<rparr>)) (\<lambda>db.
                     let db = captureTaskProviderOpsDelivery row (tq_outboxType q) payload (tq_eventKey q) at db
                     in bind_err (capture_decisions q row db) (\<lambda>db. Inr ((row, True), db)))))))"

end
