(* ===== verification/Outbox.thy ===== *)
theory Outbox
  imports Store
begin

text \<open>
  The transactional outbox: \<^verbatim>\<open>packages/persistence-postgres/src/outbox.ts\<close>, its publisher and sinks
  (\<^verbatim>\<open>packages/task-engine/src/outbox-publisher.ts\<close>) and its cleaner
  (\<^verbatim>\<open>packages/task-engine/src/outbox-cleaner.ts\<close>).  A row carries the columns the store writes and those
  the publisher keeps; the sink, and what other replicas do while it is called, are arguments.
\<close>

section \<open>The repository\<close>

record outbox_entry = outbox_row +
  oe_event_id :: string
  oe_created_at :: instant
  oe_published_at :: "instant option"
  oe_delivery_attempts :: nat

type_synonym outbox_table = "outbox_entry list"

record OutboxRecord =
  or_eventId :: string
  or_eventKey :: event_key
  or_aggregateId :: string
  or_eventType :: string
  or_payload :: json_object
  or_createdAt :: instant

definition to_record :: "outbox_entry \<Rightarrow> OutboxRecord" where
  "to_record r =
     \<lparr>or_eventId = oe_event_id r, or_eventKey = ox_event_key r, or_aggregateId = ox_aggregate_id r,
      or_eventType = ox_event_type r, or_payload = ox_payload r, or_createdAt = oe_created_at r\<rparr>"

definition unpublished :: "outbox_entry \<Rightarrow> bool" where
  "unpublished r = (oe_published_at r = None)"

definition entry_order :: "outbox_entry \<Rightarrow> instant \<times> string" where
  "entry_order r = (oe_created_at r, oe_event_id r)"

definition outbox_pending :: "nat \<Rightarrow> outbox_table \<Rightarrow> OutboxRecord list" where
  "outbox_pending limit tbl = map to_record (order_limit entry_order limit (filter unpublished tbl))"

definition markPublished :: "instant \<Rightarrow> string list \<Rightarrow> outbox_table \<Rightarrow> nat \<times> outbox_table" where
  "markPublished clock eventIds tbl =
     (if eventIds = [] then (0, tbl)
      else let P = (\<lambda>r. oe_event_id r \<in> set eventIds \<and> unpublished r)
           in (row_count P tbl,
               update_rows P (\<lambda>r. r\<lparr>oe_published_at := Some clock, oe_delivery_attempts := oe_delivery_attempts r + 1\<rparr>) tbl))"

definition recordAttempt :: "string \<Rightarrow> outbox_table \<Rightarrow> outbox_table" where
  "recordAttempt eventId tbl =
     update_rows (\<lambda>r. oe_event_id r = eventId) (\<lambda>r. r\<lparr>oe_delivery_attempts := oe_delivery_attempts r + 1\<rparr>) tbl"

definition recordAttempts :: "string list \<Rightarrow> outbox_table \<Rightarrow> outbox_table" where
  "recordAttempts eventIds tbl =
     (if eventIds = [] then tbl
      else update_rows (\<lambda>r. oe_event_id r \<in> set eventIds \<and> unpublished r)
        (\<lambda>r. r\<lparr>oe_delivery_attempts := oe_delivery_attempts r + 1\<rparr>) tbl)"

text \<open>What the store's insertion adds to a row: the drawn identifier and the column defaults.\<close>

definition new_entry :: "string \<Rightarrow> instant \<Rightarrow> outbox_row \<Rightarrow> outbox_entry" where
  "new_entry eventId clock row = outbox_row.extend row
     \<lparr>oe_event_id = eventId, oe_created_at = clock, oe_published_at = None, oe_delivery_attempts = 0\<rparr>"

section \<open>Publisher, sinks and cleaner\<close>

type_synonym 'w outbox_sink = "OutboxRecord list \<Rightarrow> 'w \<Rightarrow> (err + unit) \<times> 'w"

record OutboxPublisherResult =
  op_selected :: nat
  op_published :: nat

definition newOutboxPublisher :: "int \<Rightarrow> err + nat" where
  "newOutboxPublisher batchSize =
     (if batchSize < 1 \<or> batchSize > 10000 then Inl (RangeError ''OUTBOX_BATCH_SIZE_INVALID'') else Inr (nat batchSize))"

definition publisher_tick ::
  "instant \<Rightarrow> nat \<Rightarrow> 'w outbox_sink \<Rightarrow> (outbox_table \<Rightarrow> outbox_table) \<Rightarrow> outbox_table \<times> 'w
   \<Rightarrow> (err + OutboxPublisherResult) \<times> (outbox_table \<times> 'w)" where
  "publisher_tick clock batchSize publish others s =
     (let (tbl, w) = s;
          events = outbox_pending batchSize tbl
      in if events = [] then (Inr \<lparr>op_selected = 0, op_published = 0\<rparr>, (tbl, w))
         else
           let (r, w) = publish events w;
               tbl = others tbl;
               eventIds = map or_eventId events
           in case r of
                Inr _ \<Rightarrow> let (published, tbl) = markPublished clock eventIds tbl
                  in (Inr \<lparr>op_selected = length events, op_published = published\<rparr>, (tbl, w))
              | Inl e \<Rightarrow> (Inl e, (recordAttempts eventIds tbl, w)))"

definition InternalNoopOutboxSink :: "'w outbox_sink" where
  "InternalNoopOutboxSink events w = (Inr (), w)"

text \<open>The response is the status code, or the error \<^verbatim>\<open>fetch\<close> throws.\<close>

definition WebhookOutboxSink :: "(OutboxRecord list \<Rightarrow> 'w \<Rightarrow> (err + nat) \<times> 'w) \<Rightarrow> 'w outbox_sink" where
  "WebhookOutboxSink fetch events w =
     (case fetch events w of
        (Inl e, w) \<Rightarrow> (Inl e, w)
      | (Inr status, w) \<Rightarrow>
          if 200 \<le> status \<and> status \<le> 299 then (Inr (), w)
          else (Inl (Error (''OUTBOX_WEBHOOK_REJECTED:'' @ show_nat status)), w))"

definition newOutboxCleaner :: "int \<Rightarrow> int \<Rightarrow> err + (nat \<times> int)" where
  "newOutboxCleaner batchSize publishedRetentionMs =
     (if batchSize < 1 then Inl (RangeError ''OUTBOX_CLEANER_BATCH_SIZE_INVALID'')
      else if publishedRetentionMs < 1 then Inl (RangeError ''OUTBOX_CLEANER_PUBLISHED_RETENTION_MS_INVALID'')
      else Inr (nat batchSize, publishedRetentionMs))"

text \<open>\<^verbatim>\<open>FOR UPDATE SKIP LOCKED\<close>: the rows another transaction holds are passed over.\<close>

definition cleaner_tick :: "nat \<Rightarrow> int \<Rightarrow> instant \<Rightarrow> (string \<Rightarrow> bool) \<Rightarrow> outbox_table \<Rightarrow> nat \<times> outbox_table" where
  "cleaner_tick batchSize publishedRetentionMs at locked tbl =
     (let cutoff = at - publishedRetentionMs;
          rows = order_limit (\<lambda>r. (oe_published_at r, oe_event_id r)) batchSize
            (filter (\<lambda>r. sql_le (oe_published_at r) cutoff \<and> \<not> locked (oe_event_id r)) tbl);
          eventIds = map oe_event_id rows
      in (row_count (\<lambda>r. oe_event_id r \<in> set eventIds) tbl, filter (\<lambda>r. oe_event_id r \<notin> set eventIds) tbl))"

section \<open>Replicas sharing the outbox\<close>

text \<open>The publisher of a replica is idle, waits for the sink, or has the sink's answer and has not yet marked the batch.
  The system also remembers what has been inserted and what the sink has taken.\<close>

datatype publisher_phase = Idle | Publishing "OutboxRecord list" | Accepted "OutboxRecord list"

record outbox_system =
  os_table :: outbox_table
  os_phase :: "string \<Rightarrow> publisher_phase"
  os_inserted :: "string \<Rightarrow> OutboxRecord option"
  os_accepted :: "OutboxRecord list"

definition initial_outbox :: "outbox_system \<Rightarrow> bool" where
  "initial_outbox s = (s = \<lparr>os_table = [], os_phase = (\<lambda>_. Idle), os_inserted = (\<lambda>_. None), os_accepted = []\<rparr>)"

inductive outbox_step :: "outbox_system \<Rightarrow> outbox_system \<Rightarrow> bool" where
  inserted: "os_inserted s eventId = None \<Longrightarrow> ox_event_key row \<notin> set (map ox_event_key (os_table s)) \<Longrightarrow>
    outbox_step s (s\<lparr>os_table := os_table s @ [new_entry eventId clock row],
      os_inserted := (os_inserted s)(eventId \<mapsto> to_record (new_entry eventId clock row))\<rparr>)"
| selected: "os_phase s w = Idle \<Longrightarrow>
    outbox_step s (s\<lparr>os_phase := (os_phase s)(w := Publishing (outbox_pending n (os_table s)))\<rparr>)"
| accepted: "os_phase s w = Publishing events \<Longrightarrow>
    outbox_step s (s\<lparr>os_accepted := os_accepted s @ events, os_phase := (os_phase s)(w := Accepted events)\<rparr>)"
| marked: "os_phase s w = Accepted events \<Longrightarrow>
    outbox_step s (s\<lparr>os_table := snd (markPublished clock (map or_eventId events) (os_table s)), os_phase := (os_phase s)(w := Idle)\<rparr>)"
| refused: "os_phase s w = Publishing events \<Longrightarrow>
    outbox_step s (s\<lparr>os_table := recordAttempts (map or_eventId events) (os_table s), os_phase := (os_phase s)(w := Idle)\<rparr>)"
| answer_lost: "os_phase s w = Accepted events \<Longrightarrow>
    outbox_step s (s\<lparr>os_table := recordAttempts (map or_eventId events) (os_table s), os_phase := (os_phase s)(w := Idle)\<rparr>)"
| crashed: "outbox_step s (s\<lparr>os_phase := (os_phase s)(w := Idle)\<rparr>)"
| attempted: "outbox_step s (s\<lparr>os_table := recordAttempt eventId (os_table s)\<rparr>)"
| cleaned: "outbox_step s (s\<lparr>os_table := snd (cleaner_tick n retention t locked (os_table s))\<rparr>)"

definition phase_batch :: "publisher_phase \<Rightarrow> OutboxRecord list" where
  "phase_batch p = (case p of Idle \<Rightarrow> [] | Publishing b \<Rightarrow> b | Accepted b \<Rightarrow> b)"

text \<open>The rows and everything in flight are what was inserted; a row marked published, and every batch the sink has
  answered for, has been taken by the sink; nothing inserted has left the table without having been taken.\<close>

definition known :: "outbox_system \<Rightarrow> OutboxRecord set \<Rightarrow> bool" where
  "known s E = (\<forall>e \<in> E. os_inserted s (or_eventId e) = Some e)"

definition outbox_inv :: "outbox_system \<Rightarrow> bool" where
  "outbox_inv s =
     (distinct (map oe_event_id (os_table s)) \<and>
      known s (to_record ` set (os_table s)) \<and> known s (set (os_accepted s)) \<and>
      (\<forall>w. known s (set (phase_batch (os_phase s w)))) \<and>
      (\<forall>w b. os_phase s w = Accepted b \<longrightarrow> set b \<subseteq> set (os_accepted s)) \<and>
      to_record ` {r \<in> set (os_table s). \<not> unpublished r} \<subseteq> set (os_accepted s) \<and>
      ran (os_inserted s) \<subseteq> to_record ` set (os_table s) \<union> set (os_accepted s))"

lemma outbox_invD:
  assumes "outbox_inv s"
  shows "distinct (map oe_event_id (os_table s))" "known s (to_record ` set (os_table s))" "known s (set (os_accepted s))"
    "known s (set (phase_batch (os_phase s w)))" "os_phase s w = Accepted b \<Longrightarrow> set b \<subseteq> set (os_accepted s)"
    "to_record ` {r \<in> set (os_table s). \<not> unpublished r} \<subseteq> set (os_accepted s)"
    "ran (os_inserted s) \<subseteq> to_record ` set (os_table s) \<union> set (os_accepted s)"
  using assms by (simp_all add: outbox_inv_def)

lemma knownD: "known s E \<Longrightarrow> e \<in> E \<Longrightarrow> os_inserted s (or_eventId e) = Some e"
  by (simp add: known_def)

lemma known_subset: "known s E \<Longrightarrow> F \<subseteq> E \<Longrightarrow> known s F"
  by (auto simp: known_def)

lemma known_Un [simp]: "known s (E \<union> F) \<longleftrightarrow> known s E \<and> known s F"
  by (auto simp: known_def)

lemma known_same: "os_inserted s' = os_inserted s \<Longrightarrow> known s' E = known s E"
  by (simp add: known_def)

lemma known_inject: "known s (E \<union> F) \<Longrightarrow> e \<in> E \<Longrightarrow> f \<in> F \<Longrightarrow> or_eventId e = or_eventId f \<Longrightarrow> e = f"
  by (metis knownD UnI1 UnI2 option.inject)

lemma to_record_id [simp]: "or_eventId (to_record r) = oe_event_id r"
  by (simp add: to_record_def)

lemma to_record_columns [simp]:
  "to_record (r\<lparr>oe_published_at := p\<rparr>) = to_record r" "to_record (r\<lparr>oe_delivery_attempts := n\<rparr>) = to_record r"
  by (simp_all add: to_record_def)

lemma new_entry_columns [simp]:
  "oe_event_id (new_entry i c row) = i" "unpublished (new_entry i c row)"
  by (simp_all add: new_entry_def unpublished_def outbox_row.defs)

lemma unpublished_columns [simp]:
  "unpublished (r\<lparr>oe_delivery_attempts := n\<rparr>) = unpublished r" "unpublished (r\<lparr>oe_published_at := Some c\<rparr>) = False"
  by (simp_all add: unpublished_def)

lemma set_outbox_pending: "set (outbox_pending n tbl) \<subseteq> to_record ` set tbl"
  using set_order_limit [of entry_order n "filter unpublished tbl"] by (auto simp: outbox_pending_def)

text \<open>An update that keeps the record of every row, and publishes only rows the sink has taken, keeps the invariant.\<close>

lemma outbox_inv_table:
  assumes "outbox_inv s" "map to_record tbl = map to_record (os_table s)"
    and "to_record ` {r \<in> set tbl. \<not> unpublished r} \<subseteq> set (os_accepted s)"
  shows "outbox_inv (s\<lparr>os_table := tbl\<rparr>)"
proof -
  have rows: "to_record ` set tbl = to_record ` set (os_table s)" using assms(2) by (metis set_map)
  have "map oe_event_id tbl = map or_eventId (map to_record tbl)" by (simp add: o_def)
  also have "\<dots> = map oe_event_id (os_table s)" unfolding assms(2) by (simp add: o_def)
  finally have "distinct (map oe_event_id tbl)" using outbox_invD(1) [OF assms(1)] by simp
  then show ?thesis using assms(1,3) rows by (simp add: outbox_inv_def known_def)
qed

lemma outbox_inv_phase:
  assumes "outbox_inv s" "known s (set (phase_batch p))" "\<And>b. p = Accepted b \<Longrightarrow> set b \<subseteq> set (os_accepted s)"
  shows "outbox_inv (s\<lparr>os_phase := (os_phase s)(w := p)\<rparr>)"
  using assms by (simp add: outbox_inv_def known_def)

lemma outbox_inv_idle: "outbox_inv s \<Longrightarrow> outbox_inv (s\<lparr>os_phase := (os_phase s)(w := Idle)\<rparr>)"
  by (rule outbox_inv_phase) (simp_all add: phase_batch_def known_def)

lemma recordAttempts_records:
  "map to_record (recordAttempts ids tbl) = map to_record tbl"
  "r \<in> set (recordAttempts ids tbl) \<Longrightarrow> \<exists>q \<in> set tbl. to_record r = to_record q \<and> unpublished r = unpublished q"
  by (auto simp: recordAttempts_def map_update_rows elim!: in_set_update_rowsE split: if_splits)

lemma recordAttempt_records:
  "map to_record (recordAttempt i tbl) = map to_record tbl"
  "r \<in> set (recordAttempt i tbl) \<Longrightarrow> \<exists>q \<in> set tbl. to_record r = to_record q \<and> unpublished r = unpublished q"
  by (auto simp: recordAttempt_def map_update_rows elim!: in_set_update_rowsE)

lemma markPublished_records:
  "map to_record (snd (markPublished c ids tbl)) = map to_record tbl"
  "r \<in> set (snd (markPublished c ids tbl)) \<Longrightarrow>
     \<exists>q \<in> set tbl. to_record r = to_record q \<and> (unpublished r = unpublished q \<or> oe_event_id q \<in> set ids)"
  by (auto simp: markPublished_def Let_def map_update_rows elim!: in_set_update_rowsE split: if_splits)

text \<open>The cleaner only removes rows published before the cutoff, and not more of them than its batch.\<close>

lemma cleaner_tick_keeps: "set (snd (cleaner_tick n retention at locked tbl)) \<subseteq> set tbl"
  "distinct (map f tbl) \<Longrightarrow> distinct (map f (snd (cleaner_tick n retention at locked tbl)))"
  by (auto simp: cleaner_tick_def Let_def distinct_map_filter)

lemma cleaner_tick_removes:
  assumes "r \<in> set tbl" "r \<notin> set (snd (cleaner_tick n retention at locked tbl))" "distinct (map oe_event_id tbl)"
  shows "sql_le (oe_published_at r) (at - retention)"
proof -
  let ?due = "filter (\<lambda>r. sql_le (oe_published_at r) (at - retention) \<and> \<not> locked (oe_event_id r)) tbl"
  obtain q where q: "q \<in> set (order_limit (\<lambda>r. (oe_published_at r, oe_event_id r)) n ?due)" "oe_event_id r = oe_event_id q"
    using assms(1,2) by (auto simp: cleaner_tick_def Let_def)
  have "q \<in> set ?due" using subsetD [OF set_order_limit q(1)] .
  moreover from this have "r = q" using assms(1,3) q(2) unique_key_rows [of oe_event_id tbl r q] by simp
  ultimately show ?thesis by simp
qed

lemma outbox_inv_records:
  assumes "outbox_inv s" "map to_record tbl = map to_record (os_table s)"
    and "\<And>r. r \<in> set tbl \<Longrightarrow> \<exists>q \<in> set (os_table s). to_record r = to_record q \<and> unpublished r = unpublished q"
  shows "outbox_inv (s\<lparr>os_table := tbl\<rparr>)"
proof (rule outbox_inv_table [OF assms(1,2)])
  show "to_record ` {r \<in> set tbl. \<not> unpublished r} \<subseteq> set (os_accepted s)"
    using assms(3) outbox_invD(6) [OF assms(1)] by (auto simp: image_subset_iff) metis
qed

lemma outbox_inv_attempts: "outbox_inv s \<Longrightarrow> outbox_inv (s\<lparr>os_table := recordAttempts ids (os_table s)\<rparr>)"
  by (rule outbox_inv_records [OF _ recordAttempts_records])

lemma outbox_inv_marked:
  assumes "outbox_inv s" "set events \<subseteq> set (os_accepted s)"
  shows "outbox_inv (s\<lparr>os_table := snd (markPublished clock (map or_eventId events) (os_table s))\<rparr>)"
proof (rule outbox_inv_table [OF assms(1) markPublished_records(1)], safe)
  fix r assume r: "r \<in> set (snd (markPublished clock (map or_eventId events) (os_table s)))" "\<not> unpublished r"
  then obtain q where q: "q \<in> set (os_table s)" "to_record r = to_record q"
      "\<not> unpublished q \<or> oe_event_id q \<in> set (map or_eventId events)"
    using markPublished_records(2) by metis
  show "to_record r \<in> set (os_accepted s)"
  proof (cases "unpublished q")
    case True
    then obtain e where e: "e \<in> set events" "or_eventId e = or_eventId (to_record q)" using q(3) by auto
    then have "e = to_record q"
      using known_inject [of s "set (os_accepted s)" "to_record ` set (os_table s)" e "to_record q"] outbox_invD(2,3) [OF assms(1)]
        assms(2) q(1) by auto
    then show ?thesis using e(1) q(2) assms(2) by auto
  qed (use q outbox_invD(6) [OF assms(1)] in auto)
qed

lemma outbox_inv_accepted:
  assumes "outbox_inv s" "os_phase s w = Publishing events"
  shows "outbox_inv (s\<lparr>os_accepted := os_accepted s @ events, os_phase := (os_phase s)(w := Accepted events)\<rparr>)"
proof -
  have ev: "known s (set events)" using outbox_invD(4) [OF assms(1), of w] assms(2) by (simp add: phase_batch_def)
  have "outbox_inv (s\<lparr>os_accepted := os_accepted s @ events\<rparr>)"
    using outbox_invD [OF assms(1)] ev unfolding outbox_inv_def known_same [of "s\<lparr>os_accepted := os_accepted s @ events\<rparr>" s, simplified]
    by (simp add: le_supI1 Un_assoc [symmetric])
  then show ?thesis using ev outbox_inv_phase [of "s\<lparr>os_accepted := os_accepted s @ events\<rparr>" "Accepted events" w]
    by (simp add: phase_batch_def known_def)
qed

lemma outbox_inv_inserted:
  assumes "outbox_inv s" "os_inserted s eventId = None"
  shows "outbox_inv (s\<lparr>os_table := os_table s @ [new_entry eventId clock row],
    os_inserted := (os_inserted s)(eventId \<mapsto> to_record (new_entry eventId clock row))\<rparr>)" (is "outbox_inv ?s")
proof -
  have still: "known ?s E" if "known s E" for E
    using that assms(2) unfolding known_def by auto
  let ?new = "to_record (new_entry eventId clock row)"
  have "eventId \<notin> set (map oe_event_id (os_table s))"
    using outbox_invD(2) [OF assms(1)] assms(2) by (auto simp: known_def)
  moreover have "known ?s ({?new} \<union> to_record ` set (os_table s))"
    unfolding known_Un by (rule conjI [OF _ still [OF outbox_invD(2) [OF assms(1)]]]) (simp add: known_def)
  moreover have "ran (os_inserted ?s) = insert ?new (ran (os_inserted s))"
    using assms(2) by (simp add: ran_map_upd)
  moreover have "{r \<in> set (os_table ?s). \<not> unpublished r} = {r \<in> set (os_table s). \<not> unpublished r}" by auto
  ultimately show ?thesis
    using outbox_invD [OF assms(1)] still unfolding outbox_inv_def by (simp add: subset_insertI2)
qed

lemma outbox_inv_cleaned:
  assumes "outbox_inv s"
  shows "outbox_inv (s\<lparr>os_table := snd (cleaner_tick n retention at locked (os_table s))\<rparr>)"
proof -
  let ?tbl = "snd (cleaner_tick n retention at locked (os_table s))"
  have sub: "set ?tbl \<subseteq> set (os_table s)" by (rule cleaner_tick_keeps)
  have gone: "to_record r \<in> set (os_accepted s)" if "r \<in> set (os_table s)" "r \<notin> set ?tbl" for r
    using cleaner_tick_removes [OF that outbox_invD(1) [OF assms]] outbox_invD(6) [OF assms] that(1)
    by (auto simp: unpublished_def sql_le_def split: option.splits)
  have "to_record ` set (os_table s) \<subseteq> to_record ` set ?tbl \<union> set (os_accepted s)" using gone by auto
  then have "ran (os_inserted s) \<subseteq> to_record ` set ?tbl \<union> set (os_accepted s)" using outbox_invD(7) [OF assms] by blast
  moreover have "known s (to_record ` set ?tbl)" using outbox_invD(2) [OF assms] sub by (auto intro: known_subset)
  moreover have "to_record ` {r \<in> set ?tbl. \<not> unpublished r} \<subseteq> set (os_accepted s)" using sub outbox_invD(6) [OF assms] by blast
  ultimately show ?thesis using outbox_invD [OF assms] cleaner_tick_keeps(2) [OF outbox_invD(1) [OF assms]]
    unfolding outbox_inv_def by (simp add: known_def)
qed

lemma outbox_step_inv: "outbox_step s s' \<Longrightarrow> outbox_inv s \<Longrightarrow> outbox_inv s'"
proof (induction rule: outbox_step.induct)
  case (selected s w n)
  then show ?case using known_subset [OF outbox_invD(2) set_outbox_pending]
    by (intro outbox_inv_phase) (auto simp: phase_batch_def)
next
  case (marked s w events clock)
  then show ?case using outbox_inv_idle [OF outbox_inv_marked [of s events clock], of w] outbox_invD(5) by simp
next
  case (refused s w events)
  then show ?case by (intro outbox_inv_idle [of "s\<lparr>os_table := _\<rparr>", simplified] outbox_inv_attempts)
next
  case (answer_lost s w events)
  then show ?case by (intro outbox_inv_idle [of "s\<lparr>os_table := _\<rparr>", simplified] outbox_inv_attempts)
next
  case (attempted s eventId)
  then show ?case by (rule outbox_inv_records [OF _ recordAttempt_records])
qed (simp_all add: outbox_inv_idle outbox_inv_accepted outbox_inv_inserted outbox_inv_cleaned)

interpretation outbox: step_invariant initial_outbox outbox_step outbox_inv
proof
  show "outbox_inv s" if "initial_outbox s" for s
    using that by (simp add: initial_outbox_def outbox_inv_def known_def phase_batch_def)
qed (rule outbox_step_inv)

text \<open>A tick of a replica's publisher during which no other replica writes is a run of the system.\<close>

definition system_after :: "outbox_system \<Rightarrow> outbox_table \<Rightarrow> OutboxRecord list \<Rightarrow> outbox_system" where
  "system_after s tbl taken = s\<lparr>os_accepted := os_accepted s @ taken, os_table := tbl\<rparr>"

lemma publisher_tick_steps:
  assumes "os_phase s w = Idle" "publisher_tick clock n publish (\<lambda>t. t) (os_table s, x) = (r, (tbl, x'))"
  shows "\<exists>taken. outbox_step\<^sup>*\<^sup>* s (system_after s tbl taken) \<and> (r \<in> range Inr \<longrightarrow> taken = outbox_pending n (os_table s))"
proof -
  let ?events = "outbox_pending n (os_table s)"
  have idle: "(os_phase s)(w := Idle) = os_phase s" using assms(1) by auto
  let ?p = "s\<lparr>os_phase := (os_phase s)(w := Publishing ?events)\<rparr>"
  have sel: "outbox_step s ?p" using selected [OF assms(1)] .
  let ?a = "?p\<lparr>os_accepted := os_accepted ?p @ ?events, os_phase := (os_phase ?p)(w := Accepted ?events)\<rparr>"
  have acc: "outbox_step ?p ?a" by (rule accepted) simp
  consider (none) "?events = []" "tbl = os_table s" 
    | (ok) "?events \<noteq> []" "tbl = snd (markPublished clock (map or_eventId ?events) (os_table s))"
    | (failed) "tbl = recordAttempts (map or_eventId ?events) (os_table s)" "r \<notin> range Inr"
    using assms(2) by (auto simp: publisher_tick_def Let_def split: if_splits prod.splits sum.splits)
  then show ?thesis
  proof cases
    case none
    then show ?thesis by (intro exI [of _ "[]"]) (simp add: system_after_def)
  next
    case ok
    have "outbox_step ?a (system_after s tbl ?events)"
      using marked [of ?a w ?events clock] ok(2) by (simp add: system_after_def idle)
    with sel acc have "outbox_step\<^sup>*\<^sup>* s (system_after s tbl ?events)" by (meson converse_rtranclp_into_rtranclp rtranclp.rtrancl_refl)
    then show ?thesis by (intro exI [of _ ?events]) simp
  next
    case failed
    have "outbox_step ?p (system_after s tbl [])"
      using refused [of ?p w ?events] failed(1) by (simp add: system_after_def idle)
    with sel have "outbox_step\<^sup>*\<^sup>* s (system_after s tbl [])" by (meson converse_rtranclp_into_rtranclp rtranclp.rtrancl_refl)
    then show ?thesis using failed(2) by (intro exI [of _ "[]"]) simp
  qed
qed

text \<open>C36. The outbox loses nothing: whatever the replicas' publishers and cleaners do, in whatever order, including crashes
  and lost answers of the sink, every event ever inserted is either still in the table, unpublished, exactly as it
  was inserted, or has been taken by the sink, and the sink has been given nothing else.\<close>

theorem outbox_loses_nothing:
  assumes "initial_outbox s0" "outbox_step\<^sup>*\<^sup>* s0 s"
  shows "(\<forall>e \<in> ran (os_inserted s). e \<in> set (os_accepted s) \<or> (\<exists>r \<in> set (os_table s). unpublished r \<and> to_record r = e)) \<and>
    set (os_accepted s) \<subseteq> ran (os_inserted s)"
proof -
  have inv: "outbox_inv s" using outbox.reachable_inv [OF assms] .
  have "e \<in> ran (os_inserted s)" if "e \<in> set (os_accepted s)" for e
    using knownD [OF outbox_invD(3) [OF inv] that] by (rule ranI)
  then show ?thesis using outbox_invD(6,7) [OF inv] by (auto simp: image_subset_iff subset_iff) blast
qed

section \<open>Draining\<close>

text \<open>Successive ticks of one publisher.\<close>

fun publisher_ticks :: "instant \<Rightarrow> nat \<Rightarrow> 'w outbox_sink \<Rightarrow> nat \<Rightarrow> outbox_table \<times> 'w \<Rightarrow> outbox_table \<times> 'w" where
  "publisher_ticks clock n publish 0 s = s"
| "publisher_ticks clock n publish (Suc k) s = publisher_ticks clock n publish k (snd (publisher_tick clock n publish (\<lambda>t. t) s))"

definition backlog_order :: "outbox_table \<Rightarrow> outbox_entry list" where
  "backlog_order tbl = sort_key entry_order (filter unpublished tbl)"

definition recording_sink :: "OutboxRecord list outbox_sink" where
  "recording_sink events log = (Inr (), log @ events)"

lemma filter_not_taken:
  assumes "distinct (map f xs)"
  shows "filter (\<lambda>x. f x \<notin> f ` set (take n xs)) xs = drop n xs"
proof -
  have d: "distinct (map f (take n xs) @ map f (drop n xs))" using assms by (simp flip: map_append)
  have "filter (\<lambda>x. f x \<notin> f ` set (take n xs)) (take n xs @ drop n xs) = drop n xs"
    using d by (auto simp only: filter_append) (auto simp: filter_empty_conv filter_id_conv)
  then show ?thesis by simp
qed

lemma markPublished_unpublished:
  "filter unpublished (snd (markPublished c ids tbl)) = filter (\<lambda>r. oe_event_id r \<notin> set ids) (filter unpublished tbl)"
proof (cases "ids = []")
  case False
  then show ?thesis by (induction tbl) (auto simp: markPublished_def Let_def update_rows_def)
qed (simp add: markPublished_def)

lemma distinct_backlog: "distinct (map oe_event_id tbl) \<Longrightarrow> distinct (map oe_event_id (backlog_order tbl))"
proof -
  have "mset (map oe_event_id (backlog_order tbl)) = mset (map oe_event_id (filter unpublished tbl))"
    by (simp add: backlog_order_def)
  then show "distinct (map oe_event_id tbl) \<Longrightarrow> ?thesis" by (metis distinct_map_filter mset_eq_imp_distinct_iff)
qed

lemma outbox_pending_backlog: "outbox_pending n tbl = map to_record (take n (backlog_order tbl))"
  by (simp add: outbox_pending_def order_limit_def backlog_order_def)

lemma markPublished_backlog:
  assumes "distinct (map oe_event_id tbl)"
  shows "backlog_order (snd (markPublished c (map or_eventId (outbox_pending n tbl)) tbl)) = drop n (backlog_order tbl)"
proof -
  have "set (map or_eventId (outbox_pending n tbl)) = oe_event_id ` set (take n (backlog_order tbl))"
    by (simp add: outbox_pending_backlog image_image)
  then have "backlog_order (snd (markPublished c (map or_eventId (outbox_pending n tbl)) tbl)) =
      filter (\<lambda>r. oe_event_id r \<notin> oe_event_id ` set (take n (backlog_order tbl))) (backlog_order tbl)"
    by (simp only: backlog_order_def markPublished_unpublished filter_sort)
  then show ?thesis by (simp add: filter_not_taken distinct_backlog assms)
qed

lemma recorded_tick:
  assumes "distinct (map oe_event_id tbl)"
  obtains tbl' where "snd (publisher_tick clock n recording_sink (\<lambda>t. t) (tbl, log)) = (tbl', log @ map to_record (take n (backlog_order tbl)))"
    "backlog_order tbl' = drop n (backlog_order tbl)" "distinct (map oe_event_id tbl')"
proof (cases "outbox_pending n tbl = []")
  case True
  then have "n = 0 \<or> backlog_order tbl = []" by (simp add: outbox_pending_backlog)
  then show thesis using assms True by (intro that [of tbl]) (auto simp: publisher_tick_def)
next
  case False
  let ?tbl = "snd (markPublished clock (map or_eventId (outbox_pending n tbl)) tbl)"
  have "map oe_event_id ?tbl = map or_eventId (map to_record ?tbl)" by (simp add: o_def)
  also have "\<dots> = map oe_event_id tbl" unfolding markPublished_records by (simp add: o_def)
  finally have "distinct (map oe_event_id ?tbl)" using assms by simp
  then show thesis using False markPublished_backlog [OF assms]
    by (intro that [of ?tbl]) (auto simp: publisher_tick_def recording_sink_def Let_def outbox_pending_backlog split: prod.splits)
qed

text \<open>The publisher works the backlog off: with a sink that accepts and no other writer, k ticks with batch size n hand
  the sink the first k * n unpublished events, each once and in the order of their creation, and leave exactly the
  others unpublished; so enough ticks empty the backlog.\<close>

theorem outbox_drains:
  assumes "distinct (map oe_event_id tbl)"
  shows "\<exists>tbl'. publisher_ticks clock n recording_sink k (tbl, log) = (tbl', log @ map to_record (take (k * n) (backlog_order tbl))) \<and>
    backlog_order tbl' = drop (k * n) (backlog_order tbl)"
  using assms
proof (induction k arbitrary: tbl log)
  case (Suc k)
  obtain tbl1 where t: "snd (publisher_tick clock n recording_sink (\<lambda>t. t) (tbl, log)) = (tbl1, log @ map to_record (take n (backlog_order tbl)))"
    "backlog_order tbl1 = drop n (backlog_order tbl)" "distinct (map oe_event_id tbl1)"
    using recorded_tick [OF Suc.prems] .
  show ?case
    using Suc.IH [OF t(3), of "log @ map to_record (take n (backlog_order tbl))"] t(1,2)
    by (auto simp: take_add add.commute simp flip: map_append)
qed simp

section \<open>A concrete run\<close>

definition ob_row :: "nat \<Rightarrow> outbox_row" where
  "ob_row n = \<lparr>ox_event_key = [''task'', show_nat n], ox_aggregate_id = ''t'', ox_event_type = ''task.created'', ox_payload = []\<rparr>"

definition ob_start :: outbox_system where
  "ob_start = \<lparr>os_table = [], os_phase = (\<lambda>_. Idle), os_inserted = (\<lambda>_. None), os_accepted = []\<rparr>"

definition ob_filled :: outbox_system where
  "ob_filled = ob_start\<lparr>os_table := [new_entry ''e1'' 5 (ob_row 1)],
     os_inserted := (os_inserted ob_start)(''e1'' \<mapsto> to_record (new_entry ''e1'' 5 (ob_row 1)))\<rparr>"

lemma ob_filled_step: "outbox_step ob_start ob_filled"
  using inserted [of ob_start "''e1''" "ob_row 1" 5] by (simp add: ob_filled_def ob_start_def)

theorem outbox_loses_nothing_witness:
  "to_record (new_entry ''e1'' 5 (ob_row 1)) \<in> set (os_accepted ob_filled) \<or>
   (\<exists>r \<in> set (os_table ob_filled). unpublished r \<and> to_record r = to_record (new_entry ''e1'' 5 (ob_row 1)))"
proof -
  have "to_record (new_entry ''e1'' 5 (ob_row 1)) \<in> ran (os_inserted ob_filled)"
    by (simp add: ob_filled_def ob_start_def)
  then show ?thesis using outbox_loses_nothing [of ob_start ob_filled] r_into_rtranclp [of outbox_step ob_start ob_filled] ob_filled_step
    by (simp add: initial_outbox_def ob_start_def)
qed

theorem outbox_drains_witness:
  "\<exists>tbl'. publisher_ticks 9 1 recording_sink 2 ([new_entry ''e2'' 6 (ob_row 2), new_entry ''e1'' 5 (ob_row 1)], []) =
     (tbl', map to_record (take 2 (backlog_order [new_entry ''e2'' 6 (ob_row 2), new_entry ''e1'' 5 (ob_row 1)])))"
  using outbox_drains [of "[new_entry ''e2'' 6 (ob_row 2), new_entry ''e1'' 5 (ob_row 1)]" 9 1 2 "[]"] by auto

end
