(* ===== verification/Delivery.thy ===== *)
theory Delivery
  imports Store
begin

text \<open>
  Durable delivery of operational records: the repository of \<^verbatim>\<open>packages/persistence-postgres/src/provider-ops-delivery.ts\<close>
  and the publisher of \<^verbatim>\<open>packages/task-engine/src/durable-provider-ops-publisher.ts\<close>.  PostgreSQL's \<^verbatim>\<open>hashtext\<close>, the
  exporter and the writes of other replicas are arguments.
\<close>

section \<open>The repository\<close>

datatype ProviderOpsDeliveryState = D_PENDING | D_CLAIMED | D_RETRY_WAIT | D_DELIVERED | D_EXHAUSTED

record delivery_entry = delivery_row +
  pd_record_id :: string
  pd_state :: ProviderOpsDeliveryState
  pd_attempt_count :: nat
  pd_next_attempt_at :: instant
  pd_claim_owner :: "string option"
  pd_claim_until :: "instant option"
  pd_last_error_code :: "string option"
  pd_last_error_message :: "string option"
  pd_delivered_at :: "instant option"
  pd_created_at :: instant

type_synonym delivery_table = "delivery_entry list"

text \<open>The columns an inserted record starts with.\<close>

definition new_delivery :: "string \<Rightarrow> instant \<Rightarrow> delivery_row \<Rightarrow> delivery_entry" where
  "new_delivery recordId clock row = delivery_row.extend row
     \<lparr>pd_record_id = recordId, pd_state = D_PENDING, pd_attempt_count = 0, pd_next_attempt_at = clock,
      pd_claim_owner = None, pd_claim_until = None, pd_last_error_code = None, pd_last_error_message = None,
      pd_delivered_at = None, pd_created_at = clock\<rparr>"

definition capture_delivery :: "string \<Rightarrow> instant \<Rightarrow> delivery_row \<Rightarrow> delivery_table \<Rightarrow> bool \<times> delivery_table" where
  "capture_delivery recordId clock row tbl =
     (if dl_event_key row \<in> set (map dl_event_key tbl) then (False, tbl) else (True, tbl @ [new_delivery recordId clock row]))"

definition delivery_due :: "instant \<Rightarrow> delivery_entry \<Rightarrow> bool" where
  "delivery_due at r =
     ((pd_state r \<in> {D_PENDING, D_RETRY_WAIT} \<and> pd_next_attempt_at r \<le> at) \<or>
      (pd_state r = D_CLAIMED \<and> sql_le (pd_claim_until r) at))"

definition due_order :: "delivery_entry \<Rightarrow> instant \<times> instant \<times> string" where
  "due_order r =
     (case pd_claim_until r of None \<Rightarrow> pd_next_attempt_at r | Some t \<Rightarrow> t, pd_created_at r, pd_record_id r)"

definition take_claim :: "string \<Rightarrow> instant \<Rightarrow> delivery_entry \<Rightarrow> delivery_entry" where
  "take_claim ownerId until r =
     r\<lparr>pd_state := D_CLAIMED, pd_claim_owner := Some ownerId, pd_claim_until := Some until,
       pd_attempt_count := pd_attempt_count r + 1\<rparr>"

text \<open>\<open>at\<close> is \<^verbatim>\<open>COALESCE($1, clock_timestamp())\<close>; locked rows are skipped.\<close>

definition claim_candidates :: "nat \<Rightarrow> instant \<Rightarrow> (string \<Rightarrow> bool) \<Rightarrow> delivery_table \<Rightarrow> string list" where
  "claim_candidates limit at locked tbl =
     map pd_record_id (order_limit due_order limit (filter (\<lambda>r. delivery_due at r \<and> \<not> locked (pd_record_id r)) tbl))"

definition claimDue ::
  "string \<Rightarrow> int \<Rightarrow> int \<Rightarrow> instant \<Rightarrow> (string \<Rightarrow> bool) \<Rightarrow> delivery_table \<Rightarrow> err + (delivery_entry list \<times> delivery_table)" where
  "claimDue ownerId leaseMilliseconds limit at locked tbl =
     (if leaseMilliseconds < 1 then Inl (RangeError ''PROVIDER_OPS_LEASE_INVALID'')
      else if limit < 1 \<or> limit > 10000 then Inl (RangeError ''PROVIDER_OPS_BATCH_INVALID'')
      else
        let candidates = claim_candidates (nat limit) at locked tbl;
            tbl = update_rows (\<lambda>r. pd_record_id r \<in> set candidates) (take_claim ownerId (at + leaseMilliseconds)) tbl
        in Inr (filter (\<lambda>r. pd_record_id r \<in> set candidates) tbl, tbl))"

definition delivery_held :: "string \<Rightarrow> string \<Rightarrow> delivery_entry \<Rightarrow> bool" where
  "delivery_held recordId ownerId r =
     (pd_record_id r = recordId \<and> pd_state r = D_CLAIMED \<and> pd_claim_owner r = Some ownerId)"

definition set_delivered :: "instant \<Rightarrow> delivery_entry \<Rightarrow> delivery_entry" where
  "set_delivered clock r =
     r\<lparr>pd_state := D_DELIVERED, pd_delivered_at := Some clock, pd_claim_owner := None, pd_claim_until := None\<rparr>"

definition markDelivered :: "instant \<Rightarrow> string \<Rightarrow> string \<Rightarrow> delivery_table \<Rightarrow> bool \<times> delivery_table" where
  "markDelivered clock recordId ownerId tbl =
     (row_count (delivery_held recordId ownerId) tbl = 1, update_rows (delivery_held recordId ownerId) (set_delivered clock) tbl)"

definition delivery_delay :: "nat \<Rightarrow> int" where
  "delivery_delay attempts = min 300000 (1000 * 2 ^ min (attempts - 1) 8)"

definition delivery_jitter :: "(string \<Rightarrow> int) \<Rightarrow> string \<Rightarrow> int" where
  "delivery_jitter hashtext recordId = (hashtext recordId + 2147483648) mod 251"

definition boundedError :: "string \<Rightarrow> string" where
  "boundedError message =
     take 512 (map (\<lambda>c. if c \<in> {CHR 0x0D, CHR 0x0A, CHR 0x09} then CHR '' '' else c) message)"

definition set_failed ::
  "(string \<Rightarrow> int) \<Rightarrow> string \<Rightarrow> string \<Rightarrow> instant \<Rightarrow> nat \<Rightarrow> delivery_entry \<Rightarrow> delivery_entry" where
  "set_failed hashtext errorCode errorMessage failedAt maximumAttempts r =
     r\<lparr>pd_state := (if pd_attempt_count r \<ge> maximumAttempts then D_EXHAUSTED else D_RETRY_WAIT),
       pd_next_attempt_at := failedAt + (delivery_delay (pd_attempt_count r) + delivery_jitter hashtext (pd_record_id r)),
       pd_claim_owner := None, pd_claim_until := None,
       pd_last_error_code := Some errorCode, pd_last_error_message := Some (boundedError errorMessage)\<rparr>"

definition recordFailure ::
  "(string \<Rightarrow> int) \<Rightarrow> string \<Rightarrow> string \<Rightarrow> string \<Rightarrow> string \<Rightarrow> instant \<Rightarrow> nat \<Rightarrow> delivery_table
   \<Rightarrow> ProviderOpsDeliveryState option \<times> delivery_table" where
  "recordFailure hashtext recordId ownerId errorCode errorMessage failedAt maximumAttempts tbl =
     (let f = set_failed hashtext errorCode errorMessage failedAt maximumAttempts
      in (map_option (\<lambda>r. pd_state (f r)) (first_row (delivery_held recordId ownerId) tbl),
          update_rows (delivery_held recordId ownerId) f tbl))"

text \<open>\<^verbatim>\<open>backlog\<close>, the age in milliseconds (\<^verbatim>\<open>oldestAgeSeconds\<close> divides it by 1000).\<close>

definition delivery_backlog :: "instant \<Rightarrow> delivery_table \<Rightarrow> nat \<times> int" where
  "delivery_backlog at tbl =
     (let rows = filter (\<lambda>r. pd_state r \<noteq> D_DELIVERED) tbl
      in (length rows, if rows = [] then 0 else max 0 (at - Min (set (map pd_created_at rows)))))"

section \<open>The publisher\<close>

record DurableProviderOpsPublisherResult =
  dp_claimed :: nat
  dp_delivered :: nat
  dp_retried :: nat
  dp_exhausted :: nat

datatype publisher_event = ev_delivered | ev_retry | ev_exhausted

text \<open>\<open>export\<close> answers with the name of the error it throws; \<open>onEvent\<close> is what the callback does to the rest of the world (its
  exceptions are swallowed); \<open>others\<close> is what other replicas do to the table while a record is exported, and
  \<open>clock\<close> the instant at which its outcome is written.\<close>

record 'w publisher_env =
  pe_ownerId :: string
  pe_leaseMilliseconds :: int
  pe_batchSize :: int
  pe_maximumAttempts :: nat
  pe_export :: "delivery_entry \<Rightarrow> 'w \<Rightarrow> (string + unit) \<times> 'w"
  pe_onEvent :: "publisher_event \<Rightarrow> nat \<Rightarrow> 'w \<Rightarrow> 'w"
  pe_hashtext :: "string \<Rightarrow> int"
  pe_others :: "string \<Rightarrow> delivery_table \<Rightarrow> delivery_table"
  pe_clock :: "string \<Rightarrow> instant"

type_synonym 'w publisher_state = "DurableProviderOpsPublisherResult \<times> delivery_table \<times> 'w"

definition publish_record :: "'w publisher_env \<Rightarrow> delivery_entry \<Rightarrow> 'w publisher_state \<Rightarrow> 'w publisher_state" where
  "publish_record env record s =
     (let (res, tbl, w) = s;
          (r, w) = pe_export env record w;
          recordId = pd_record_id record;
          tbl = pe_others env recordId tbl
      in case r of
           Inr _ \<Rightarrow>
             (case markDelivered (pe_clock env recordId) recordId (pe_ownerId env) tbl of
                (False, tbl) \<Rightarrow> (res, tbl, w)
              | (True, tbl) \<Rightarrow> (res\<lparr>dp_delivered := dp_delivered res + 1\<rparr>, tbl, pe_onEvent env ev_delivered 1 w))
         | Inl name \<Rightarrow>
             (case recordFailure (pe_hashtext env) recordId (pe_ownerId env) ''TELEMETRY_EXPORT_FAILED'' name
                  (pe_clock env recordId) (pe_maximumAttempts env) tbl of
                (Some D_EXHAUSTED, tbl) \<Rightarrow> (res\<lparr>dp_exhausted := dp_exhausted res + 1\<rparr>, tbl, pe_onEvent env ev_exhausted 1 w)
              | (Some D_RETRY_WAIT, tbl) \<Rightarrow> (res\<lparr>dp_retried := dp_retried res + 1\<rparr>, tbl, pe_onEvent env ev_retry 1 w)
              | (_, tbl) \<Rightarrow> (res, tbl, w)))"

definition delivery_tick ::
  "'w publisher_env \<Rightarrow> instant \<Rightarrow> (string \<Rightarrow> bool) \<Rightarrow> delivery_table \<times> 'w \<Rightarrow> err + 'w publisher_state" where
  "delivery_tick env at locked s =
     bind_err (claimDue (pe_ownerId env) (pe_leaseMilliseconds env) (pe_batchSize env) at locked (fst s)) (\<lambda>(records, tbl).
       Inr (fold (publish_record env) records
         (\<lparr>dp_claimed = length records, dp_delivered = 0, dp_retried = 0, dp_exhausted = 0\<rparr>, tbl, snd s)))"

section \<open>The table as a state machine\<close>

inductive delivery_step :: "delivery_table \<Rightarrow> delivery_table \<Rightarrow> bool" where
  captured: "recordId \<notin> set (map pd_record_id tbl) \<Longrightarrow> delivery_step tbl (snd (capture_delivery recordId clock row tbl))"
| claimed: "claimDue ownerId lease limit at locked tbl = Inr (records, tbl') \<Longrightarrow> delivery_step tbl tbl'"
| delivered: "delivery_step tbl (snd (markDelivered clock recordId ownerId tbl))"
| failed: "delivery_step tbl (snd (recordFailure hashtext recordId ownerId code message at maximum tbl))"

text \<open>The table's \<^verbatim>\<open>CHECK\<close>: exactly the claimed rows have an owner and an end of the claim.\<close>

definition delivery_row_ok :: "delivery_entry \<Rightarrow> bool" where
  "delivery_row_ok r =
     ((pd_state r = D_CLAIMED) = (pd_claim_owner r \<noteq> None) \<and> (pd_state r = D_CLAIMED) = (pd_claim_until r \<noteq> None))"

definition delivery_inv :: "delivery_table \<Rightarrow> bool" where
  "delivery_inv tbl = (distinct (map pd_record_id tbl) \<and> list_all delivery_row_ok tbl)"

definition find_delivery :: "delivery_table \<Rightarrow> string \<Rightarrow> delivery_entry option" where
  "find_delivery tbl recordId = first_row (\<lambda>r. pd_record_id r = recordId) tbl"

text \<open>The final state of a record, once it has one.\<close>

definition settled :: "delivery_table \<Rightarrow> string \<Rightarrow> ProviderOpsDeliveryState option" where
  "settled tbl recordId =
     (case find_delivery tbl recordId of
        None \<Rightarrow> None
      | Some r \<Rightarrow> if pd_state r \<in> {D_DELIVERED, D_EXHAUSTED} then Some (pd_state r) else None)"

lemma delivery_ids [simp]:
  "pd_record_id (take_claim o1 u r) = pd_record_id r" "pd_record_id (set_delivered c r) = pd_record_id r"
  "pd_record_id (set_failed h e m a n r) = pd_record_id r" "pd_record_id (new_delivery i c row) = i"
  by (simp_all add: take_claim_def set_delivered_def set_failed_def new_delivery_def delivery_row.defs)

lemma find_delivery_update:
  assumes "\<And>r. P r \<Longrightarrow> pd_record_id (f r) = pd_record_id r"
  shows "find_delivery (update_rows P f tbl) i = map_option (\<lambda>r. if P r then f r else r) (find_delivery tbl i)"
  unfolding find_delivery_def using assms by (intro first_row_update_rows) auto

lemma find_delivery_SomeD: "find_delivery tbl i = Some r \<Longrightarrow> r \<in> set tbl \<and> pd_record_id r = i"
  by (auto simp: find_delivery_def dest: first_row_SomeD)

lemma delivery_inv_update:
  assumes "delivery_inv tbl" "\<And>r. P r \<Longrightarrow> pd_record_id (f r) = pd_record_id r" "\<And>r. P r \<Longrightarrow> delivery_row_ok (f r)"
  shows "delivery_inv (update_rows P f tbl)"
  using assms map_update_rows [of P pd_record_id f tbl]
  by (auto simp: delivery_inv_def list_all_iff elim!: in_set_update_rowsE)

lemma claim_candidates_due:
  assumes "distinct (map pd_record_id tbl)" "r \<in> set tbl" "pd_record_id r \<in> set (claim_candidates n at locked tbl)"
  shows "delivery_due at r"
proof -
  let ?due = "filter (\<lambda>r. delivery_due at r \<and> \<not> locked (pd_record_id r)) tbl"
  obtain q where q: "q \<in> set (order_limit due_order n ?due)" "pd_record_id r = pd_record_id q"
    using assms(3) by (auto simp: claim_candidates_def)
  have "q \<in> set ?due" using subsetD [OF set_order_limit q(1)] .
  moreover from this have "r = q" using unique_key_rows [OF assms(1,2)] q(2) by simp
  ultimately show ?thesis by simp
qed

lemma claimDue_InrD:
  assumes "claimDue ownerId lease limit at locked tbl = Inr (records, tbl')"
  shows "tbl' = update_rows (\<lambda>r. pd_record_id r \<in> set (claim_candidates (nat limit) at locked tbl)) (take_claim ownerId (at + lease)) tbl"
    "records = filter (\<lambda>r. pd_record_id r \<in> set (claim_candidates (nat limit) at locked tbl)) tbl'" "1 \<le> lease" "1 \<le> limit"
  using assms by (auto simp: claimDue_def Let_def split: if_splits)

lemma capture_delivery_rows:
  "snd (capture_delivery i c row tbl) = tbl \<or> snd (capture_delivery i c row tbl) = tbl @ [new_delivery i c row]"
  by (simp add: capture_delivery_def)

lemma delivery_row_ok_results [simp]:
  "delivery_row_ok (take_claim o1 u r)" "delivery_row_ok (set_delivered c r)" "delivery_row_ok (set_failed h e m a n r)"
  "delivery_row_ok (new_delivery i c row)"
  by (simp_all add: delivery_row_ok_def take_claim_def set_delivered_def set_failed_def new_delivery_def delivery_row.defs)

lemma delivery_step_inv: "delivery_step tbl tbl' \<Longrightarrow> delivery_inv tbl \<Longrightarrow> delivery_inv tbl'"
proof (induction rule: delivery_step.induct)
  case (captured recordId tbl clock row)
  then show ?case using capture_delivery_rows [of recordId clock row tbl]
    by (auto simp: delivery_inv_def)
next
  case (claimed ownerId lease limit at locked tbl records tbl')
  then show ?case unfolding claimDue_InrD(1) [OF claimed(1)] by (intro delivery_inv_update) simp_all
next
  case (delivered tbl clock recordId ownerId)
  then show ?case by (simp add: markDelivered_def delivery_inv_update)
next
  case (failed tbl hashtext recordId ownerId code message at maximum)
  then show ?case by (simp add: recordFailure_def Let_def delivery_inv_update)
qed

text \<open>No operation touches a row in a final state.\<close>

lemma settled_update:
  assumes "settled tbl i = Some st" "\<And>r. P r \<Longrightarrow> pd_record_id (f r) = pd_record_id r"
    and "\<And>r. r \<in> set tbl \<Longrightarrow> P r \<Longrightarrow> pd_state r \<notin> {D_DELIVERED, D_EXHAUSTED}"
  shows "settled (update_rows P f tbl) i = Some st"
proof -
  obtain r where r: "find_delivery tbl i = Some r" "pd_state r \<in> {D_DELIVERED, D_EXHAUSTED}" "st = pd_state r"
    using assms(1) by (auto simp: settled_def split: option.splits if_splits)
  then have "\<not> P r" using assms(3) find_delivery_SomeD by blast
  then show ?thesis using r assms(2) by (simp add: settled_def find_delivery_update)
qed

lemma delivery_step_settled:
  "delivery_step tbl tbl' \<Longrightarrow> delivery_inv tbl \<Longrightarrow> settled tbl i = Some st \<Longrightarrow> settled tbl' i = Some st"
proof (induction rule: delivery_step.induct)
  case (captured recordId tbl clock row)
  then have "find_delivery tbl i \<noteq> None" by (auto simp: settled_def split: option.splits)
  then have "find_delivery (tbl @ [new_delivery recordId clock row]) i = find_delivery tbl i"
    by (auto simp: find_delivery_def first_row_append split: option.splits)
  then show ?case using captured(3) capture_delivery_rows [of recordId clock row tbl] by (auto simp: settled_def)
next
  case (claimed ownerId lease limit at locked tbl records tbl')
  then show ?case unfolding claimDue_InrD(1) [OF claimed(1)] delivery_inv_def
    by (intro settled_update) (auto simp: delivery_due_def dest: claim_candidates_due)
next
  case (delivered tbl clock recordId ownerId)
  then show ?case unfolding markDelivered_def snd_conv by (intro settled_update) (auto simp: delivery_held_def)
next
  case (failed tbl hashtext recordId ownerId code message at maximum)
  then show ?case unfolding recordFailure_def Let_def snd_conv by (intro settled_update) (auto simp: delivery_held_def)
qed

interpretation deliveries: write_once "\<lambda>tbl. tbl = []" delivery_step delivery_inv settled
proof
  show "delivery_inv tbl" if "tbl = []" for tbl using that by (simp add: delivery_inv_def)
qed (blast intro: delivery_step_inv delivery_step_settled)+

interpretation delivery_retry: backoff delivery_delay 256000
proof
  fix n
  have "(2::int) ^ min (n - 1) 8 \<le> 2 ^ 8" by (rule power_increasing) auto
  then show "delivery_delay n \<le> 256000" by (simp add: delivery_delay_def)
  show "0 < delivery_delay n" by (simp add: delivery_delay_def)
  show "delivery_delay n \<le> delivery_delay (Suc n)"
    using capped_power_Suc [of 1000 300000 "n - 1" 8] by (cases n) (auto simp: delivery_delay_def)
qed

section \<open>What the publisher achieves\<close>

text \<open>A failed export never gets stuck and never spins: while the record has attempts left it is due again between 1 and
  256.25 seconds after the failure and not before, and when they are used up it is exhausted for good, in every later
  state of the table.\<close>

theorem delivery_failure_schedule:
  assumes "delivery_step\<^sup>*\<^sup>* [] tbl" "find_delivery tbl i = Some r" "delivery_held i ownerId r"
    and "recordFailure hashtext i ownerId code message failedAt maximum tbl = (st, tbl')"
  shows "if pd_attempt_count r \<ge> maximum
    then st = Some D_EXHAUSTED \<and> (\<forall>later. delivery_step\<^sup>*\<^sup>* tbl' later \<longrightarrow> settled later i = Some D_EXHAUSTED)
    else st = Some D_RETRY_WAIT \<and> (\<exists>r' next. find_delivery tbl' i = Some r' \<and> failedAt + 1000 \<le> next \<and> next \<le> failedAt + 256250 \<and>
      (\<forall>at. delivery_due at r' \<longleftrightarrow> next \<le> at))"
proof -
  let ?r = "set_failed hashtext code message failedAt maximum r"
  have inv: "delivery_inv tbl" using deliveries.reachable_inv [OF refl assms(1)] .
  have "r \<in> set tbl" using find_delivery_SomeD [OF assms(2)] by simp
  have "first_row (delivery_held i ownerId) tbl = Some r"
  proof (cases "first_row (delivery_held i ownerId) tbl")
    case None
    then show ?thesis using assms(3) \<open>r \<in> set tbl\<close> by (auto simp: first_row_None_iff)
  next
    case (Some q)
    then have "q = r" using first_row_SomeD [OF Some] \<open>r \<in> set tbl\<close> assms(3) inv unique_key_rows [of pd_record_id tbl q r]
      by (simp add: delivery_held_def delivery_inv_def)
    with Some show ?thesis by simp
  qed
  then have st: "st = Some (pd_state ?r)" and tbl': "tbl' = update_rows (delivery_held i ownerId) (set_failed hashtext code message failedAt maximum) tbl"
    using assms(4) by (auto simp: recordFailure_def Let_def)
  have found: "find_delivery tbl' i = Some ?r" unfolding tbl' using assms(2,3) by (simp add: find_delivery_update)
  have step: "delivery_step tbl tbl'" using failed [of tbl hashtext i ownerId code message failedAt maximum] assms(4) by simp
  show ?thesis
  proof (cases "pd_attempt_count r \<ge> maximum")
    case True
    then have "settled tbl' i = Some D_EXHAUSTED" using found by (simp add: settled_def set_failed_def)
    then show ?thesis using True st deliveries.reachable_kept [OF refl, of tbl'] assms(1) step
      by (auto simp: set_failed_def intro: rtranclp.rtrancl_into_rtrancl)
  next
    case False
    have "0 \<le> delivery_jitter hashtext (pd_record_id r) \<and> delivery_jitter hashtext (pd_record_id r) \<le> 250"
      using pos_mod_bound [of 251 "hashtext (pd_record_id r) + 2147483648"] by (simp add: delivery_jitter_def)
    moreover have "1000 \<le> delivery_delay (pd_attempt_count r)" by (simp add: delivery_delay_def)
    ultimately have "failedAt + 1000 \<le> pd_next_attempt_at ?r \<and> pd_next_attempt_at ?r \<le> failedAt + 256250"
      using delivery_retry.delay_cap [of "pd_attempt_count r"] by (simp add: set_failed_def)
    moreover have "\<forall>at. delivery_due at ?r \<longleftrightarrow> pd_next_attempt_at ?r \<le> at" "pd_state ?r = D_RETRY_WAIT"
      using False by (simp_all add: set_failed_def delivery_due_def)
    ultimately show ?thesis using False st found by auto
  qed
qed

text \<open>The row a claimed record ends up with, given the exporter's answer.\<close>

definition published_row :: "'w publisher_env \<Rightarrow> (delivery_entry \<Rightarrow> string + unit) \<Rightarrow> delivery_entry \<Rightarrow> delivery_entry" where
  "published_row env answer r =
     (case answer r of
        Inr _ \<Rightarrow> set_delivered (pe_clock env (pd_record_id r)) r
      | Inl name \<Rightarrow> set_failed (pe_hashtext env) ''TELEMETRY_EXPORT_FAILED'' name (pe_clock env (pd_record_id r)) (pe_maximumAttempts env) r)"

definition settled_count :: "DurableProviderOpsPublisherResult \<Rightarrow> nat" where
  "settled_count res = dp_delivered res + dp_retried res + dp_exhausted res"

lemma published_row_id [simp]: "pd_record_id (published_row env answer r) = pd_record_id r"
  by (simp add: published_row_def split: sum.splits)

lemma held_update:
  assumes "distinct (map pd_record_id tbl)" "r \<in> set tbl" "delivery_held (pd_record_id r) ownerId r" "g r = f r"
  shows "update_rows (delivery_held (pd_record_id r) ownerId) g tbl = update_rows (\<lambda>q. pd_record_id q = pd_record_id r) f tbl"
    "row_count (delivery_held (pd_record_id r) ownerId) tbl = 1" "first_row (delivery_held (pd_record_id r) ownerId) tbl = Some r"
proof -
  have only: "q = r" if "q \<in> set tbl" "pd_record_id q = pd_record_id r" for q
    using unique_key_rows [OF assms(1) that(1) assms(2)] that(2) .
  then show "update_rows (delivery_held (pd_record_id r) ownerId) g tbl = update_rows (\<lambda>q. pd_record_id q = pd_record_id r) f tbl"
    using assms(3,4) by (auto simp: update_rows_def delivery_held_def)
  have "0 < row_count (delivery_held (pd_record_id r) ownerId) tbl" using assms(2,3) row_count_pos_iff by blast
  moreover have "row_count (delivery_held (pd_record_id r) ownerId) tbl \<le> 1"
    by (rule row_count_unique [OF assms(1), of _ "pd_record_id r"]) (simp add: delivery_held_def)
  ultimately show "row_count (delivery_held (pd_record_id r) ownerId) tbl = 1" by simp
  show "first_row (delivery_held (pd_record_id r) ownerId) tbl = Some r"
    using assms(2,3) only by (cases "first_row (delivery_held (pd_record_id r) ownerId) tbl")
      (auto simp: first_row_None_iff delivery_held_def dest: first_row_SomeD)
qed

lemma publish_record_effect:
  assumes "distinct (map pd_record_id tbl)" "r \<in> set tbl" "delivery_held (pd_record_id r) (pe_ownerId env) r"
    and "pe_others env = (\<lambda>_ t. t)" "\<And>r w. fst (pe_export env r w) = answer r"
  obtains res' w' where "publish_record env r (res, tbl, w) =
      (res', update_rows (\<lambda>q. pd_record_id q = pd_record_id r) (published_row env answer) tbl, w')"
    "dp_claimed res' = dp_claimed res" "settled_count res' = Suc (settled_count res)"
proof -
  note held = held_update [OF assms(1-3)]
  obtain w1 where ex: "pe_export env r w = (answer r, w1)" using assms(5) [of r w] by (cases "pe_export env r w") simp
  show thesis
  proof (cases "answer r")
    case (Inl name)
    then show thesis using held(1) [of _ "published_row env answer"] held(2,3)
      by (cases "pd_attempt_count r \<ge> pe_maximumAttempts env")
        (auto intro!: that simp: publish_record_def ex assms(4) recordFailure_def Let_def published_row_def set_failed_def settled_count_def)
  next
    case (Inr u)
    then show thesis using held(1) [of _ "published_row env answer"] held(2,3)
      by (auto intro!: that simp: publish_record_def ex assms(4) markDelivered_def Let_def published_row_def settled_count_def)
  qed
qed

lemma update_rows_again:
  assumes "\<And>r. key (f r) = key r" "i \<notin> I"
  shows "update_rows (\<lambda>r. key r \<in> I) f (update_rows (\<lambda>r. key r = i) f tbl) = update_rows (\<lambda>r. key r \<in> insert i I) f tbl"
  using assms by (auto simp: update_rows_def)

lemma fold_publish_record:
  assumes "distinct (map pd_record_id tbl)" "set rs \<subseteq> set tbl" "distinct (map pd_record_id rs)"
    and "\<And>r. r \<in> set rs \<Longrightarrow> delivery_held (pd_record_id r) (pe_ownerId env) r"
    and "pe_others env = (\<lambda>_ t. t)" "\<And>r w. fst (pe_export env r w) = answer r"
  shows "\<exists>res' w'. fold (publish_record env) rs (res, tbl, w) =
      (res', update_rows (\<lambda>q. pd_record_id q \<in> set (map pd_record_id rs)) (published_row env answer) tbl, w') \<and>
    dp_claimed res' = dp_claimed res \<and> settled_count res' = settled_count res + length rs"
  using assms(1-4)
proof (induction rs arbitrary: tbl res w)
  case Nil
  then show ?case by (simp add: update_rows_def)
next
  case (Cons r rs)
  let ?tbl = "update_rows (\<lambda>q. pd_record_id q = pd_record_id r) (published_row env answer) tbl"
  obtain res1 w1 where one: "publish_record env r (res, tbl, w) = (res1, ?tbl, w1)"
      "dp_claimed res1 = dp_claimed res" "settled_count res1 = Suc (settled_count res)"
    using publish_record_effect [of tbl r env answer res w] Cons.prems assms(5,6) by (metis list.set_intros(1) subsetD)
  have "r' \<in> set ?tbl" if "r' \<in> set rs" for r'
  proof -
    have "pd_record_id r' \<noteq> pd_record_id r" using that Cons.prems(3) by (metis distinct.simps(2) image_eqI list.set_map list.simps(9))
    then show ?thesis using that Cons.prems(2) by (auto simp: set_update_rows)
  qed
  moreover have "distinct (map pd_record_id ?tbl)" using Cons.prems(1) by (simp add: map_update_rows)
  ultimately obtain res' w' where "fold (publish_record env) rs (res1, ?tbl, w1) =
      (res', update_rows (\<lambda>q. pd_record_id q \<in> set (map pd_record_id rs)) (published_row env answer) ?tbl, w')"
      "dp_claimed res' = dp_claimed res1" "settled_count res' = settled_count res1 + length rs"
    using Cons.IH [of ?tbl res1 w1] Cons.prems(3,4) by auto
  then show ?case using one Cons.prems(3)
    by (auto simp: update_rows_again [of pd_record_id "published_row env answer"])
qed

text \<open>A tick of the publisher settles everything it takes: when no other replica interferes, the records that are due, the
  longest waiting first and at most a batch of them, are claimed, and each ends up delivered if the exporter took it and
  otherwise waiting for its next attempt or exhausted; all other rows are untouched, and the counters add up.\<close>

theorem delivery_tick_outcome:
  assumes "delivery_step\<^sup>*\<^sup>* [] tbl" "pe_others env = (\<lambda>_ t. t)" "\<And>r w. fst (pe_export env r w) = answer r"
    and "delivery_tick env at locked (tbl, w) = Inr (res, tbl', w')"
  shows "tbl' = update_rows (\<lambda>r. pd_record_id r \<in> set (claim_candidates (nat (pe_batchSize env)) at locked tbl))
      (\<lambda>r. published_row env answer (take_claim (pe_ownerId env) (at + pe_leaseMilliseconds env) r)) tbl \<and>
    dp_claimed res = length (claim_candidates (nat (pe_batchSize env)) at locked tbl) \<and>
    dp_delivered res + dp_retried res + dp_exhausted res = dp_claimed res"
proof -
  let ?ids = "claim_candidates (nat (pe_batchSize env)) at locked tbl"
  let ?take = "take_claim (pe_ownerId env) (at + pe_leaseMilliseconds env)"
  let ?tbl = "update_rows (\<lambda>r. pd_record_id r \<in> set ?ids) ?take tbl"
  let ?rs = "filter (\<lambda>r. pd_record_id r \<in> set ?ids) ?tbl"
  have dist: "distinct (map pd_record_id tbl)" using deliveries.reachable_inv [OF refl assms(1)] by (simp add: delivery_inv_def)
  have dist': "distinct (map pd_record_id ?tbl)" using dist by (simp add: map_update_rows)
  have run: "fold (publish_record env) ?rs (\<lparr>dp_claimed = length ?rs, dp_delivered = 0, dp_retried = 0, dp_exhausted = 0\<rparr>, ?tbl, w) = (res, tbl', w')"
    using assms(4) by (simp add: delivery_tick_def claimDue_def Let_def split: if_splits)
  have held: "delivery_held (pd_record_id r) (pe_ownerId env) r" if "r \<in> set ?rs" for r
    using that by (auto simp: set_update_rows delivery_held_def take_claim_def)
  have "tbl' = update_rows (\<lambda>q. pd_record_id q \<in> set (map pd_record_id ?rs)) (published_row env answer) ?tbl"
    "dp_claimed res = length ?rs" "settled_count res = length ?rs"
    using fold_publish_record [of ?tbl ?rs env answer "\<lparr>dp_claimed = length ?rs, dp_delivered = 0, dp_retried = 0, dp_exhausted = 0\<rparr>" w]
      dist' held assms(2,3) run by (auto simp: distinct_map_filter settled_count_def)
  moreover have ids: "set (map pd_record_id ?rs) = set ?ids" "length ?rs = length ?ids"
  proof -
    have "map pd_record_id ?rs = filter (\<lambda>i. i \<in> set ?ids) (map pd_record_id tbl)"
      by (auto simp: update_rows_def filter_map o_def)
    moreover have "set ?ids \<subseteq> set (map pd_record_id tbl)"
      unfolding claim_candidates_def using set_order_limit by fastforce
    ultimately show eq: "set (map pd_record_id ?rs) = set ?ids" by auto
    have "distinct ?ids" unfolding claim_candidates_def using dist by (intro distinct_order_limit) (simp add: distinct_map_filter)
    moreover have "distinct (map pd_record_id ?rs)" using dist' by (simp add: distinct_map_filter)
    ultimately show "length ?rs = length ?ids" using eq by (metis distinct_card length_map)
  qed
  moreover have "update_rows (\<lambda>q. pd_record_id q \<in> set ?ids) (published_row env answer) ?tbl =
      update_rows (\<lambda>r. pd_record_id r \<in> set ?ids) (\<lambda>r. published_row env answer (?take r)) tbl"
    by (simp add: update_rows_def)
  ultimately show ?thesis by (simp add: settled_count_def)
qed

section \<open>A concrete run\<close>

definition dv_row :: delivery_row where
  "dv_row = \<lparr>dl_event_key = [''k''], dl_record_type = ''r'', dl_delivery_class = ''audit'', dl_aggregate_type = ''task'',
     dl_aggregate_id = ''t'', dl_event_type = ''e'', dl_revision = None, dl_occurred_at = 0, dl_payload = []\<rparr>"

definition dv_table :: delivery_table where
  "dv_table = [new_delivery ''r1'' 10 dv_row]"

definition dv_claimed :: delivery_table where
  "dv_claimed = [take_claim ''w'' 30020 (new_delivery ''r1'' 10 dv_row)]"

lemmas dv_defs = dv_table_def dv_claimed_def dv_row_def new_delivery_def delivery_row.defs take_claim_def

lemma dv_table_reachable: "delivery_step\<^sup>*\<^sup>* [] dv_table"
  using captured [of "''r1''" "[]" 10 dv_row] by (auto simp: capture_delivery_def dv_table_def)

lemma dv_candidates: "claim_candidates 5 20 (\<lambda>_. False) dv_table = [''r1'']"
  by (simp add: claim_candidates_def order_limit_def delivery_due_def dv_defs)

lemma dv_claimed_claim:
  "claimDue ''w'' 30000 5 20 (\<lambda>_. False) dv_table = Inr (dv_claimed, dv_claimed)"
  by (simp add: claimDue_def Let_def dv_candidates) (simp add: update_rows_def dv_table_def dv_claimed_def)

lemma dv_claimed_reachable: "delivery_step\<^sup>*\<^sup>* [] dv_claimed"
  using dv_table_reachable claimed [OF dv_claimed_claim] by (rule rtranclp.rtrancl_into_rtrancl)

theorem delivery_failure_schedule_witness:
  "fst (recordFailure (\<lambda>_. 0) ''r1'' ''w'' ''c'' ''m'' 500 20 dv_claimed) = Some D_RETRY_WAIT"
proof -
  let ?r = "take_claim ''w'' 30020 (new_delivery ''r1'' 10 dv_row)"
  have "find_delivery dv_claimed ''r1'' = Some ?r" "delivery_held ''r1'' ''w'' ?r" "pd_attempt_count ?r = 1"
    by (simp_all add: find_delivery_def first_row_def delivery_held_def dv_defs)
  then show ?thesis
    using delivery_failure_schedule [OF dv_claimed_reachable, of "''r1''" ?r "''w''" "\<lambda>_. 0" "''c''" "''m''" 500 20]
    by (cases "recordFailure (\<lambda>_. 0) ''r1'' ''w'' ''c'' ''m'' 500 20 dv_claimed") auto
qed

definition dv_env :: "nat publisher_env" where
  "dv_env = \<lparr>pe_ownerId = ''w'', pe_leaseMilliseconds = 30000, pe_batchSize = 5, pe_maximumAttempts = 20,
     pe_export = (\<lambda>_ n. (Inr (), n)), pe_onEvent = (\<lambda>_ k n. n + k), pe_hashtext = (\<lambda>_. 0), pe_others = (\<lambda>_ t. t), pe_clock = (\<lambda>_. 25)\<rparr>"

theorem delivery_tick_outcome_witness:
  "\<exists>res w'. delivery_tick dv_env 20 (\<lambda>_. False) (dv_table, 0) =
       Inr (res, [set_delivered 25 (take_claim ''w'' 30020 (new_delivery ''r1'' 10 dv_row))], w') \<and> dp_delivered res = 1"
proof -
  have "delivery_tick dv_env 20 (\<lambda>_. False) (dv_table, 0) = Inr (fold (publish_record dv_env) dv_claimed
      (\<lparr>dp_claimed = length dv_claimed, dp_delivered = 0, dp_retried = 0, dp_exhausted = 0\<rparr>, dv_claimed, 0))"
    by (simp add: delivery_tick_def dv_env_def dv_claimed_claim)
  then obtain res tbl' w' where run: "delivery_tick dv_env 20 (\<lambda>_. False) (dv_table, 0) = Inr (res, tbl', w')"
    by (metis prod.exhaust)
  have "dp_delivered res = 1" using run
    by (simp add: delivery_tick_def dv_env_def dv_claimed_claim)
      (simp add: dv_claimed_def publish_record_def markDelivered_def row_count_def delivery_held_def dv_defs Let_def, auto)
  moreover have "tbl' = [set_delivered 25 (take_claim ''w'' 30020 (new_delivery ''r1'' 10 dv_row))]"
    using delivery_tick_outcome [OF dv_table_reachable _ _ run, of "\<lambda>_. Inr ()"]
    by (simp add: dv_env_def dv_candidates published_row_def) (simp add: update_rows_def dv_table_def)
  ultimately show ?thesis using run by blast
qed

end
