(* ===== verification/Store_Inv.thy ===== *)
theory Store_Inv
  imports Store
begin

text \<open>
  What every repository operation keeps: the invariant of the task store (\<open>db_inv\<close>) and the
  relation between a store and any later one (\<open>evolves\<close>).  The primitive effects the operations
  are composed of (guarded transitions, column updates, command rows, events) are shown to respect
  both; the operations then do by the composition rules of the locale \<open>effect\<close>.
\<close>

section \<open>Invariant\<close>

definition row_ok :: "task_row \<Rightarrow> bool" where
  "row_ok r =
     (state_status_ok (internal_state r) (mcp_status r) \<and>
      (result r \<noteq> None) = (mcp_status r = completed) \<and>
      (error r \<noteq> None) = (mcp_status r = failed))"

text \<open>The state a command saved can be restored.\<close>

definition saved_ok :: "command_row \<Rightarrow> bool" where
  "saved_ok c =
     (case (cmd_previous_internal_state c, cmd_previous_mcp_status c) of
        (Some st, Some ms) \<Rightarrow> state_status_ok st ms \<and> \<not> isTerminalState st
      | (None, None) \<Rightarrow> True
      | _ \<Rightarrow> False)"

definition revisions :: "string \<Rightarrow> observation_row list \<Rightarrow> nat list" where
  "revisions t obs = map ob_revision (filter (\<lambda>x. ob_task_id x = t) obs)"

definition tasks_inv :: "task_row list \<Rightarrow> bool" where
  "tasks_inv rows = (\<forall>r \<in> set rows. row_ok r)"

text \<open>Every task's observations are numbered without gap up to its revision counter, and belong
  to a task of the store.\<close>

definition observations_inv :: "task_row list \<Rightarrow> observation_row list \<Rightarrow> bool" where
  "observations_inv rows obs =
     ((\<forall>r \<in> set rows. revisions (task_id r) obs = [1..<Suc (observation_revision r)]) \<and>
      (\<forall>x \<in> set obs. \<exists>r \<in> set rows. task_id r = ob_task_id x))"

definition commands_inv :: "task_row list \<Rightarrow> command_row list \<Rightarrow> bool" where
  "commands_inv rows cmds =
     (\<forall>c \<in> set cmds. saved_ok c \<and>
        (\<exists>r \<in> set rows. task_id r = cmd_task_id c \<and> cmd_sequence c \<le> next_command_sequence r))"

definition db_inv :: "db \<Rightarrow> bool" where
  "db_inv db =
     (schema_ok db \<and> tasks_inv (provider_task db) \<and>
      observations_inv (provider_task db) (task_observation db) \<and>
      commands_inv (provider_task db) (task_command db))"

lemma db_inv_empty: "db_inv empty_db"
  by (simp add: db_inv_def schema_ok_empty)
    (simp add: empty_db_def tasks_inv_def observations_inv_def commands_inv_def)

section \<open>Progress\<close>

text \<open>What a later row of the same task keeps: the columns written at publication, growing
  counters, and once terminal, everything a client sees.\<close>

definition row_evolves :: "task_row \<Rightarrow> task_row \<Rightarrow> bool" where
  "row_evolves r r' =
     (spec r' = spec r \<and> created_at r' = created_at r \<and>
      version r \<le> version r' \<and> observation_revision r \<le> observation_revision r' \<and>
      runtime_revision r \<le> runtime_revision r' \<and> adapter_revision r \<le> adapter_revision r' \<and>
      next_command_sequence r \<le> next_command_sequence r' \<and>
      (isTerminalState (internal_state r) \<longrightarrow>
         internal_state r' = internal_state r \<and> mcp_status r' = mcp_status r \<and>
         result r' = result r \<and> error r' = error r \<and>
         observation_revision r' = observation_revision r \<and> adapter_revision r' = adapter_revision r))"

definition evolves :: "db \<Rightarrow> db \<Rightarrow> bool" where
  "evolves db db' =
     ((\<forall>r \<in> set (provider_task db). \<exists>r' \<in> set (provider_task db'). row_evolves r r') \<and>
      (\<exists>es. outbox_event db' = outbox_event db @ es) \<and>
      (\<exists>xs. task_observation db' = task_observation db @ xs) \<and>
      (\<exists>as. map ad_input (admission_intent db') = map ad_input (admission_intent db) @ as))"

lemma row_evolves_refl [simp]: "row_evolves r r"
  by (simp add: row_evolves_def)

lemma row_evolves_trans: "row_evolves r s \<Longrightarrow> row_evolves s t \<Longrightarrow> row_evolves r t"
  unfolding row_evolves_def by auto

lemma evolves_refl [simp]: "evolves db db"
  by (auto simp: evolves_def intro: row_evolves_refl)

lemma evolves_trans:
  assumes "evolves a b" "evolves b c"
  shows "evolves a c"
proof -
  have "\<exists>r'' \<in> set (provider_task c). row_evolves r r''" if "r \<in> set (provider_task a)" for r
    using assms that unfolding evolves_def by (meson row_evolves_trans)
  with assms show ?thesis unfolding evolves_def by auto
qed

definition safe_rel :: "db \<Rightarrow> db \<Rightarrow> bool" where
  "safe_rel db db' = (db_inv db \<longrightarrow> db_inv db' \<and> evolves db db')"

interpretation safe: effect safe_rel
  by unfold_locales (auto simp: safe_rel_def intro: evolves_trans)

declare safe.effect_trans [trans]

abbreviation safe_db :: "db \<Rightarrow> err + db \<Rightarrow> bool" where
  "safe_db \<equiv> keeps safe_rel (\<lambda>x. x)"

abbreviation safe_op :: "db \<Rightarrow> err + ('a \<times> db) \<Rightarrow> bool" where
  "safe_op \<equiv> keeps safe_rel snd"

text \<open>The invariant may be assumed of the state an operation starts from.\<close>

lemma safe_assume: "(db_inv db \<Longrightarrow> keeps safe_rel get db m) \<Longrightarrow> keeps safe_rel get db m"
  by (auto simp: keeps_def safe_rel_def split: sum.splits)

lemma db_inv_row_ok: "db_inv db \<Longrightarrow> r \<in> set (provider_task db) \<Longrightarrow> row_ok r"
  by (simp add: db_inv_def tasks_inv_def)

lemma safe_pair:
  assumes "\<And>x db'. y = (x, db') \<Longrightarrow> keeps safe_rel get db' (f x db')"
  shows "keeps safe_rel get (snd y) (case y of (x, db') \<Rightarrow> f x db')"
  using assms by (cases y) auto

section \<open>Primitive effects\<close>

named_theorems safe_intros \<open>primitive effects that respect invariant and progress\<close>

text \<open>Statements on the other tables.\<close>

lemma safe_frame:
  assumes "schema_ok db \<Longrightarrow> schema_ok db'" "provider_task db' = provider_task db"
    "task_command db' = task_command db" "task_observation db' = task_observation db"
    "\<exists>es. outbox_event db' = outbox_event db @ es"
    "\<exists>as. map ad_input (admission_intent db') = map ad_input (admission_intent db) @ as"
  shows "safe_rel db db'"
  using assms by (auto simp: safe_rel_def db_inv_def evolves_def intro: row_evolves_refl)

lemma safe_checked:
  assumes "schema_ok db' \<Longrightarrow> safe_rel db db'"
  shows "safe_db db (checked db')"
  using assms by (intro keepsI) (auto simp: checked_Inr_iff)

lemma safe_delivery [safe_intros]: "safe_rel db (captureProviderOpsDelivery d db)"
  by (rule safe_frame) (auto simp: captureProviderOpsDelivery_def schema_ok_def schema_checks_def)

lemma safe_task_delivery [safe_intros]:
  "safe_rel db (captureTaskProviderOpsDelivery task ty p k at db)"
  by (simp add: captureTaskProviderOpsDelivery_def Let_def safe_delivery)

lemma safe_operational [safe_intros]:
  "safe_db db (captureTaskOperationalEvent t rt et ei at p db)"
  by (auto simp: captureTaskOperationalEvent_def intro: safe_delivery split: option.splits)

lemma schema_ok_event:
  assumes "schema_ok db" "\<not> has_event (ox_event_key e) db"
  shows "schema_ok (db\<lparr>outbox_event := outbox_event db @ [e]\<rparr>)"
  using assms by (simp add: schema_ok_def schema_checks_def has_event_def)

lemma safe_event:
  "\<not> has_event (ox_event_key e) db \<Longrightarrow> safe_rel db (db\<lparr>outbox_event := outbox_event db @ [e]\<rparr>)"
  by (rule safe_frame) (auto intro: schema_ok_event)

lemma safe_insertOutbox [safe_intros]: "safe_rel db (insertOutbox env t ty p k db)"
  unfolding insertOutbox_def Let_def
  by (auto split: option.splits intro!: safe_event intro: safe.effect_refl
      safe.effect_trans [OF safe_event safe_task_delivery])

lemma safe_insertCommandFact [safe_intros]: "safe_rel db (insertCommandFact env t c ty x db)"
  by (simp add: insertCommandFact_def safe_insertOutbox)

lemma safe_recordFact [safe_intros]: "safe_rel db (recordCommandResolutionFact env t c ty x db)"
  unfolding recordCommandResolutionFact_def
  by (auto intro!: safe_event safe_insertCommandFact intro: safe.effect_refl)

text \<open>Column updates that leave what a client sees alone: claims, schedules, recovery bookkeeping,
  counters.\<close>

definition soft_update :: "task_row \<Rightarrow> task_row \<Rightarrow> bool" where
  "soft_update r r' =
     (spec r' = spec r \<and> created_at r' = created_at r \<and> internal_state r' = internal_state r \<and>
      mcp_status r' = mcp_status r \<and> result r' = result r \<and> error r' = error r \<and>
      adapter_revision r' = adapter_revision r \<and> observation_revision r' = observation_revision r \<and>
      version r \<le> version r' \<and> runtime_revision r \<le> runtime_revision r' \<and>
      next_command_sequence r \<le> next_command_sequence r')"

lemma soft_update_refl [simp]: "soft_update r r"
  by (simp add: soft_update_def)

lemma soft_update_evolves: "soft_update r r' \<Longrightarrow> row_evolves r r'"
  by (auto simp: soft_update_def row_evolves_def)

lemma soft_update_row_ok: "soft_update r r' \<Longrightarrow> row_ok r \<Longrightarrow> row_ok r'"
  by (simp add: soft_update_def row_ok_def)

lemma soft_rows:
  assumes soft: "\<And>r. r \<in> set rows \<Longrightarrow> P r \<Longrightarrow> soft_update r (f r)"
  shows "tasks_inv rows \<Longrightarrow> tasks_inv (update_rows P f rows)"
    and "observations_inv rows obs \<Longrightarrow> observations_inv (update_rows P f rows) obs"
    and "commands_inv rows cmds \<Longrightarrow> commands_inv (update_rows P f rows) cmds"
    and "\<forall>r \<in> set rows. \<exists>r' \<in> set (update_rows P f rows). row_evolves r r'"
proof -
  have each: "\<exists>r' \<in> set (update_rows P f rows). soft_update r r'" if "r \<in> set rows" for r
  proof (cases "P r")
    case True
    with that soft show ?thesis by (auto simp: set_update_rows)
  next
    case False
    with that have "r \<in> set (update_rows P f rows)" by (simp add: set_update_rows)
    then show ?thesis using soft_update_refl by blast
  qed
  have origin: "\<exists>r0 \<in> set rows. soft_update r0 r" if "r \<in> set (update_rows P f rows)" for r
    using that soft soft_update_refl [of r] by (elim in_set_update_rowsE) blast+
  show "tasks_inv rows \<Longrightarrow> tasks_inv (update_rows P f rows)"
    using origin soft_update_row_ok unfolding tasks_inv_def by blast
  show "observations_inv (update_rows P f rows) obs" if inv: "observations_inv rows obs"
  proof -
    have "revisions (task_id r) obs = [1..<Suc (observation_revision r)]"
      if "r \<in> set (update_rows P f rows)" for r
      using origin [OF that] inv by (auto simp: observations_inv_def soft_update_def)
    moreover have "\<exists>r \<in> set (update_rows P f rows). task_id r = ob_task_id x" if "x \<in> set obs" for x
    proof -
      from inv that obtain r where r: "r \<in> set rows" "task_id r = ob_task_id x"
        by (auto simp: observations_inv_def)
      from each [OF r(1)] obtain r' where "r' \<in> set (update_rows P f rows)" "soft_update r r'" by blast
      with r show ?thesis by (intro bexI [of _ r']) (auto simp: soft_update_def)
    qed
    ultimately show ?thesis by (simp add: observations_inv_def)
  qed
  show "commands_inv (update_rows P f rows) cmds" if inv: "commands_inv rows cmds"
  proof -
    have "\<exists>r \<in> set (update_rows P f rows). task_id r = cmd_task_id c \<and> cmd_sequence c \<le> next_command_sequence r"
      if c: "c \<in> set cmds" for c
    proof -
      from inv c obtain r where r: "r \<in> set rows" "task_id r = cmd_task_id c"
        "cmd_sequence c \<le> next_command_sequence r" by (auto simp: commands_inv_def)
      from each [OF r(1)] obtain r' where "r' \<in> set (update_rows P f rows)" "soft_update r r'" by blast
      with r show ?thesis by (intro bexI [of _ r']) (auto simp: soft_update_def)
    qed
    with inv show ?thesis by (simp add: commands_inv_def)
  qed
  show "\<forall>r \<in> set rows. \<exists>r' \<in> set (update_rows P f rows). row_evolves r r'"
    using each soft_update_evolves by blast
qed

lemma safe_soft_rows:
  assumes "\<And>r. r \<in> set (provider_task db) \<Longrightarrow> P r \<Longrightarrow> soft_update r (f r)"
    and "schema_ok (db\<lparr>provider_task := update_rows P f (provider_task db)\<rparr>)"
  shows "safe_rel db (db\<lparr>provider_task := update_rows P f (provider_task db)\<rparr>)"
  using assms soft_rows [of "provider_task db" P f] by (simp add: safe_rel_def db_inv_def evolves_def)

lemma safe_update_task [safe_intros]:
  assumes "\<And>r. soft_update r (f r)"
  shows "safe_db db (checked (update_task t f db))"
  unfolding update_task_def
  by (rule safe_checked, rule safe_soft_rows) (auto intro: assms)

text \<open>Statements on commands keep the key and the saved state.\<close>

definition command_kept :: "command_row \<Rightarrow> command_row \<Rightarrow> bool" where
  "command_kept c c' =
     (cmd_task_id c' = cmd_task_id c \<and> cmd_sequence c' = cmd_sequence c \<and>
      cmd_previous_internal_state c' = cmd_previous_internal_state c \<and>
      cmd_previous_mcp_status c' = cmd_previous_mcp_status c)"

lemma command_kept_saved: "command_kept c c' \<Longrightarrow> saved_ok c' = saved_ok c"
  by (simp add: command_kept_def saved_ok_def)

lemma commands_inv_update:
  assumes "\<And>c. P c \<Longrightarrow> command_kept c (f c)" "commands_inv rows cmds"
  shows "commands_inv rows (update_rows P f cmds)"
proof -
  have "\<exists>c0 \<in> set cmds. command_kept c0 c" if "c \<in> set (update_rows P f cmds)" for c
  proof (cases rule: in_set_update_rowsE [OF that])
    case 1
    then show ?thesis by (auto simp: command_kept_def)
  next
    case (2 c0)
    with assms(1) show ?thesis by blast
  qed
  then show ?thesis
    using assms(2) command_kept_saved unfolding commands_inv_def command_kept_def by metis
qed

lemma safe_update_commands [safe_intros]:
  assumes "\<And>c. P c \<Longrightarrow> command_kept c (f c)"
  shows "safe_db db (checked (update_commands P f db))"
proof (rule safe_checked)
  assume "schema_ok (update_commands P f db)"
  then show "safe_rel db (update_commands P f db)"
    using commands_inv_update [of P f, OF assms]
    by (auto simp: safe_rel_def db_inv_def evolves_def update_commands_def intro: row_evolves_refl)
qed

lemma safe_insert_command:
  assumes "saved_ok c"
    "\<exists>r \<in> set (provider_task db). task_id r = cmd_task_id c \<and> cmd_sequence c \<le> next_command_sequence r"
  shows "safe_db db (checked (db\<lparr>task_command := task_command db @ [c]\<rparr>))"
proof (rule safe_checked)
  assume "schema_ok (db\<lparr>task_command := task_command db @ [c]\<rparr>)"
  then show "safe_rel db (db\<lparr>task_command := task_command db @ [c]\<rparr>)"
    using assms by (auto simp: safe_rel_def db_inv_def evolves_def commands_inv_def intro: row_evolves_refl)
qed

section \<open>Transitions\<close>

lemma find_task_SomeD: "find_task t db = Some r \<Longrightarrow> r \<in> set (provider_task db) \<and> task_id r = t"
  unfolding find_task_def by (drule first_row_SomeD) simp

lemma capture_frame:
  "captureProviderOpsDelivery d db = db\<lparr>provider_ops_delivery := provider_ops_delivery (captureProviderOpsDelivery d db)\<rparr>"
  by (simp add: captureProviderOpsDelivery_def)

text \<open>Deliveries are the only thing capturing changes.\<close>

definition only_deliveries :: "db \<Rightarrow> db \<Rightarrow> bool" where
  "only_deliveries db db' = (\<exists>ds. db' = db\<lparr>provider_ops_delivery := ds\<rparr>)"

lemma only_deliveries_refl: "only_deliveries db db"
  unfolding only_deliveries_def by (metis db.surjective db.update_convs(8))

lemma only_deliveries_trans: "only_deliveries a b \<Longrightarrow> only_deliveries b c \<Longrightarrow> only_deliveries a c"
  by (auto simp: only_deliveries_def)

lemma only_deliveries_capture: "only_deliveries db (captureProviderOpsDelivery d db)"
  unfolding only_deliveries_def using capture_frame by blast

lemma only_deliveries_task_capture:
  "only_deliveries db (captureTaskProviderOpsDelivery task ty p k at db)"
  by (simp add: captureTaskProviderOpsDelivery_def Let_def only_deliveries_capture)

lemma only_deliveries_operational:
  "captureTaskOperationalEvent t rt et ei at p db = Inr db' \<Longrightarrow> only_deliveries db db'"
  by (auto simp: captureTaskOperationalEvent_def only_deliveries_capture split: option.splits)

lemma only_deliveries_decisions:
  "capture_decisions q row db = Inr db' \<Longrightarrow> only_deliveries db db'"
  unfolding capture_decisions_def bind_err_Inr_iff
  by (auto split: option.splits if_splits dest!: only_deliveries_operational
      intro: only_deliveries_trans only_deliveries_refl)

lemma only_deliveries_schema: "only_deliveries db db' \<Longrightarrow> schema_ok db \<Longrightarrow> schema_ok db'"
  by (auto simp: only_deliveries_def schema_ok_def schema_checks_def)

text \<open>What an applied transition does to the tables.\<close>

definition transition_applied :: "TaskTransitionRequest \<Rightarrow> task_row \<Rightarrow> db \<Rightarrow> db \<Rightarrow> bool" where
  "transition_applied q row db db' =
     (provider_task db' = update_rows (\<lambda>r. task_id r = tq_taskId q) (\<lambda>_. row) (provider_task db) \<and>
      task_observation db' = task_observation db @ [transition_observation q row] \<and>
      (\<exists>payload. outbox_event db' = outbox_event db @
         [\<lparr>ox_event_key = tq_eventKey q, ox_aggregate_id = tq_taskId q,
           ox_event_type = tq_outboxType q, ox_payload = payload\<rparr>]) \<and>
      task_command db' = task_command db \<and> admission_intent db' = admission_intent db \<and>
      task_input_request db' = task_input_request db \<and>
      task_input_response_inbox db' = task_input_response_inbox db \<and> schema_ok db')"

definition transition_guard :: "TaskTransitionRequest \<Rightarrow> task_row \<Rightarrow> db \<Rightarrow> bool" where
  "transition_guard q existing db =
     (\<not> has_event (tq_eventKey q) db \<and> \<not> isTerminalState (internal_state existing) \<and>
      (case tq_expectedVersion q of None \<Rightarrow> True | Some v \<Rightarrow> version existing = v) \<and>
      (case up_adapterRevision (tq_update q) of None \<Rightarrow> True | Some a \<Rightarrow> adapter_revision existing < a))"

lemma transitionTask_InrE:
  assumes "transitionTask q db = Inr ((row, ap), db')"
  obtains (skipped) "find_task (tq_taskId q) db = Some row" "\<not> ap" "db' = db"
      "\<not> transition_guard q row db"
  | (applied) existing where "find_task (tq_taskId q) db = Some existing" "ap"
      "transition_guard q existing db"
      "row = apply_update (tq_update q) (tq_observation q) existing"
      "transition_applied q row db db'"
proof -
  from assms obtain existing where ex: "find_task (tq_taskId q) db = Some existing"
    by (auto simp: transitionTask_def split: option.splits)
  show thesis
  proof (cases "transition_guard q existing db")
    case False
    with assms ex have "row = existing \<and> \<not> ap \<and> db' = db"
      by (auto simp: transitionTask_def transition_guard_def split: if_splits option.splits)
    with False ex skipped show thesis by blast
  next
    case True
    let ?row = "apply_update (tq_update q) (tq_observation q) existing"
    define at where "at = to_occurredAt (tq_observation q)"
    define db1 where "db1 = update_task (tq_taskId q) (\<lambda>_. ?row) db"
    define db2 where "db2 = (if isTerminalState (internal_state ?row)
      then release_binding (in_providerId (spec ?row)) (tq_taskId q) at db1 else db1)"
    define db3 where "db3 = db2\<lparr>task_observation := task_observation db2 @ [transition_observation q ?row]\<rparr>"
    define e where "e = \<lparr>ox_event_key = tq_eventKey q, ox_aggregate_id = tq_taskId q,
      ox_event_type = tq_outboxType q, ox_payload = transition_payload q existing ?row\<rparr>"
    define db4 where "db4 = db3\<lparr>outbox_event := outbox_event db3 @ [e]\<rparr>"
    from assms ex True have run: "row = ?row" "ap" "schema_ok db4"
      "capture_decisions q ?row (captureTaskProviderOpsDelivery ?row (tq_outboxType q)
         (transition_payload q existing ?row) (tq_eventKey q) at db4) = Inr db'"
      unfolding transitionTask_def transition_guard_def Let_def
      by (auto simp: bind_err_Inr_iff checked_Inr_iff db1_def db2_def db3_def db4_def e_def at_def
          split: option.splits if_splits)
    then have "only_deliveries db4 db'"
      by (blast intro: only_deliveries_trans only_deliveries_task_capture only_deliveries_decisions)
    then have "transition_applied q ?row db db'"
      using only_deliveries_schema [OF _ run(3)]
      by (auto simp: transition_applied_def only_deliveries_def db4_def db3_def db2_def db1_def e_def
          update_task_def release_binding_def)
    with ex True run(1,2) applied show thesis by blast
  qed
qed

text \<open>A transition keeps the status columns consistent.\<close>

definition update_ok :: "TaskTransitionUpdate \<Rightarrow> task_row \<Rightarrow> bool" where
  "update_ok u r =
     (let st = given (up_internalState u) (internal_state r); ms = given (up_mcpStatus u) (mcp_status r)
      in state_status_ok st ms \<and>
         (given (up_result u) (result r) \<noteq> None) = (ms = completed) \<and>
         (given (up_error u) (error r) \<noteq> None) = (ms = failed))"

lemma apply_update_simps [simp]:
  "spec (apply_update u ob r) = spec r"
  "created_at (apply_update u ob r) = created_at r"
  "observation_revision (apply_update u ob r) = Suc (observation_revision r)"
  "runtime_revision (apply_update u ob r) = Suc (runtime_revision r)"
  "version (apply_update u ob r) = Suc (version r)"
  "internal_state (apply_update u ob r) = given (up_internalState u) (internal_state r)"
  "mcp_status (apply_update u ob r) = given (up_mcpStatus u) (mcp_status r)"
  "result (apply_update u ob r) = given (up_result u) (result r)"
  "error (apply_update u ob r) = given (up_error u) (error r)"
  "adapter_revision (apply_update u ob r) = given (up_adapterRevision u) (adapter_revision r)"
  "next_command_sequence (apply_update u ob r) = next_command_sequence r"
  by (simp_all add: apply_update_def Let_def)

lemma apply_update_row_ok: "row_ok (apply_update u ob r) = update_ok u r"
  by (simp add: row_ok_def update_ok_def Let_def)

lemma apply_update_evolves:
  assumes "transition_guard q r db"
  shows "row_evolves r (apply_update (tq_update q) ob r)"
  using assms by (auto simp: row_evolves_def transition_guard_def given_def split: option.splits)

text \<open>Replacing the one row of a task.\<close>

lemma update_task_row_set:
  assumes "distinct (map task_id rows)" "existing \<in> set rows" "task_id existing = t"
  shows "set (update_rows (\<lambda>r. task_id r = t) (\<lambda>_. row) rows) = insert row (set rows - {existing})"
  using assms unique_key_rows [of task_id rows] by (auto simp: set_update_rows)

lemma revisions_append:
  "revisions t (obs @ [x]) = revisions t obs @ (if ob_task_id x = t then [ob_revision x] else [])"
  by (simp add: revisions_def)

lemma observations_inv_transition:
  assumes inv: "observations_inv rows obs" and d: "distinct (map task_id rows)"
    and ex: "existing \<in> set rows" "task_id existing = t"
    and row: "spec row = spec existing" "observation_revision row = Suc (observation_revision existing)"
    and x: "ob_task_id x = t" "ob_revision x = observation_revision row"
  shows "observations_inv (update_rows (\<lambda>r. task_id r = t) (\<lambda>_. row) rows) (obs @ [x])"
proof -
  note rows = update_task_row_set [OF d ex, of row]
  have tid: "task_id row = t" using row ex by simp
  have "revisions (task_id r) (obs @ [x]) = [1..<Suc (observation_revision r)]"
    if "r \<in> insert row (set rows - {existing})" for r
  proof (cases "r = row")
    case True
    with inv ex row x tid show ?thesis by (auto simp: observations_inv_def revisions_append)
  next
    case False
    with that have r: "r \<in> set rows" "r \<noteq> existing" by auto
    then have "task_id r \<noteq> t" using unique_key_rows [OF d] ex by blast
    with inv r x show ?thesis by (auto simp: observations_inv_def revisions_append)
  qed
  moreover have "\<exists>r \<in> insert row (set rows - {existing}). task_id r = ob_task_id y"
    if "y \<in> set (obs @ [x])" for y
    using that inv ex tid x unfolding observations_inv_def by (metis Diff_iff Un_iff empty_iff
      empty_set insert_iff list.simps(15) set_append)
  ultimately show ?thesis unfolding observations_inv_def rows by blast
qed

lemma commands_inv_row:
  assumes inv: "commands_inv rows cmds" and d: "distinct (map task_id rows)"
    and ex: "existing \<in> set rows" "task_id existing = t"
    and row: "spec row = spec existing" "next_command_sequence existing \<le> next_command_sequence row"
  shows "commands_inv (update_rows (\<lambda>r. task_id r = t) (\<lambda>_. row) rows) cmds"
  using inv row unfolding commands_inv_def update_task_row_set [OF d ex]
  by (metis Diff_iff empty_iff insert_iff order_trans)

lemma safe_transition_applied:
  assumes app: "transition_applied q row db db'" and g: "transition_guard q existing db"
    and ex: "find_task (tq_taskId q) db = Some existing"
    and row: "row = apply_update (tq_update q) (tq_observation q) existing"
    and ok: "row_ok existing \<Longrightarrow> update_ok (tq_update q) existing"
  shows "safe_rel db db'"
proof -
  from find_task_SomeD [OF ex] have mem: "existing \<in> set (provider_task db)"
    and tid: "task_id existing = tq_taskId q" by auto
  show ?thesis unfolding safe_rel_def
  proof
    assume base: "db_inv db"
    then have d: "distinct (map task_id (provider_task db))" by (simp add: db_inv_def schema_okD)
    note rows = update_task_row_set [OF d mem tid, of row]
    have "row_ok row" using base mem ok row by (simp add: apply_update_row_ok db_inv_def tasks_inv_def)
    then have "tasks_inv (provider_task db')"
      using base app rows by (auto simp: transition_applied_def db_inv_def tasks_inv_def)
    moreover have "observations_inv (provider_task db') (task_observation db')"
      using base app observations_inv_transition [OF _ d mem tid]
      by (simp add: transition_applied_def db_inv_def row transition_observation_def Let_def)
    moreover have "commands_inv (provider_task db') (task_command db')"
      using base app commands_inv_row [OF _ d mem tid]
      by (simp add: transition_applied_def db_inv_def row)
    ultimately have "db_inv db'" using app by (simp add: db_inv_def transition_applied_def)
    moreover have "\<exists>r' \<in> set (provider_task db'). row_evolves r r'" if "r \<in> set (provider_task db)" for r
    proof -
      have "set (provider_task db') = insert row (set (provider_task db) - {existing})"
        using app rows by (simp add: transition_applied_def)
      moreover have "row_evolves existing row" using apply_update_evolves [OF g] row by simp
      ultimately show ?thesis using that row_evolves_refl [of r] by (cases "r = existing") blast+
    qed
    then have "evolves db db'" using app by (auto simp: evolves_def transition_applied_def)
    ultimately show "db_inv db' \<and> evolves db db'" ..
  qed
qed

lemma safe_transitionTask [safe_intros]:
  assumes "\<And>r. find_task (tq_taskId q) db = Some r \<Longrightarrow> row_ok r \<Longrightarrow>
      \<not> isTerminalState (internal_state r) \<Longrightarrow> update_ok (tq_update q) r"
  shows "safe_op db (transitionTask q db)"
proof (rule keepsI)
  fix y assume "transitionTask q db = Inr y"
  then obtain row ap db' where y: "y = ((row, ap), db')" and run: "transitionTask q db = Inr ((row, ap), db')"
    by (metis prod.exhaust)
  from run show "safe_rel db (snd y)" unfolding y snd_conv
  proof (cases rule: transitionTask_InrE)
    case skipped
    then show "safe_rel db db'" by (simp add: safe.effect_refl)
  next
    case (applied existing)
    then show "safe_rel db db'"
      using assms safe_transition_applied by (metis transition_guard_def)
  qed
qed

text \<open>The updates the operations make.\<close>

lemma update_ok_same_status:
  "up_internalState u = None \<Longrightarrow> up_mcpStatus u = None \<Longrightarrow> up_result u = None \<Longrightarrow> up_error u = None \<Longrightarrow>
   row_ok r \<Longrightarrow> update_ok u r"
  by (simp add: update_ok_def row_ok_def Let_def)

lemma row_ok_nonterminal:
  "row_ok r \<Longrightarrow> \<not> isTerminalState (internal_state r) \<Longrightarrow> result r = None \<and> error r = None"
  by (auto simp: row_ok_def state_status_ok_def isTerminalState_iff)

lemma update_ok_transition:
  assumes "transition_ok t" "up_internalState u = Some (tn_internalState t)"
    "up_mcpStatus u = Some (tn_mcpStatus t)" "up_result u = Some (tn_result t)"
    "up_error u = Some (tn_error t)"
  shows "update_ok u r"
  using assms by (simp add: update_ok_def transition_ok_def Let_def)

lemma update_ok_working:
  assumes "row_ok r" "\<not> isTerminalState (internal_state r)"
    "up_internalState u = Some st" "up_mcpStatus u = Some ms" "state_status_ok st ms"
    "ms \<noteq> completed" "ms \<noteq> failed" "up_result u \<in> {None, Some None}" "up_error u \<in> {None, Some None}"
  shows "update_ok u r"
  using assms row_ok_nonterminal [OF assms(1,2)] by (auto simp: update_ok_def Let_def)

end
