(* ===== verification/Store_Admission.thy ===== *)
theory Store_Admission
  imports Store_Inv
begin

text \<open>
  Admission and publication of tasks (\<^verbatim>\<open>tasks.ts\<close>, the first part of
  \<^verbatim>\<open>TaskRepository\<close>): admission intents, publication of an accepted or scheduled task with its
  resource binding, first observation and event, and the authorized reads.
\<close>

section \<open>Admission intents\<close>

definition mode_check :: "AuthorizationContext \<Rightarrow> bool" where
  "mode_check a = ((au_executionMode a = live) = (au_simulationId a = None))"

definition snapshot_definition :: "string \<Rightarrow> db \<Rightarrow> json_object option" where
  "snapshot_definition i db = map_of (operation_snapshot db) i"

definition find_admission :: "string \<Rightarrow> db \<Rightarrow> admission_row option" where
  "find_admission t db = first_row (\<lambda>a. in_taskId (ad_input a) = t) (admission_intent db)"

definition createAdmissionIntent :: "runtime_env \<Rightarrow> AdmissionIntentInput \<Rightarrow> db \<Rightarrow> err + (bool \<times> db)" where
  "createAdmissionIntent env input db =
     (if \<not> mode_check (in_authorization input) then Inl (DbConstraint ''admission_intent_check'')
      else if find_admission (in_taskId input) db \<noteq> None then Inr (False, db)
      else if snapshot_definition (in_operationSnapshotId input) db = None
        then Inl (DbConstraint ''admission_intent_operation_snapshot_id_fkey'')
      else Inr (True, db\<lparr>admission_intent := admission_intent db @
        [\<lparr>ad_input = input, ad_state = ADM_PENDING, ad_adapter_response = None, ad_updated_at = clk env\<rparr>]\<rparr>))"

definition getAdmission :: "string \<Rightarrow> db \<Rightarrow> (AdmissionIntentInput \<times> admission_state) option" where
  "getAdmission t db = map_option (\<lambda>a. (ad_input a, ad_state a)) (find_admission t db)"

definition update_admission ::
  "string \<Rightarrow> (admission_row \<Rightarrow> bool) \<Rightarrow> (admission_row \<Rightarrow> admission_row) \<Rightarrow> db \<Rightarrow> db" where
  "update_admission t P f db = db\<lparr>admission_intent :=
     update_rows (\<lambda>a. in_taskId (ad_input a) = t \<and> P a) f (admission_intent db)\<rparr>"

definition markAdmissionUncertain :: "runtime_env \<Rightarrow> string \<Rightarrow> db \<Rightarrow> err + (unit \<times> db)" where
  "markAdmissionUncertain env t db =
     Inr ((), update_admission t (\<lambda>a. ad_state a = ADM_PENDING)
       (\<lambda>a. a\<lparr>ad_state := ADM_UNCERTAIN, ad_updated_at := clk env\<rparr>) db)"

definition recordRejection :: "runtime_env \<Rightarrow> string \<Rightarrow> json \<Rightarrow> db \<Rightarrow> err + (unit \<times> db)" where
  "recordRejection env t response db =
     Inr ((), update_admission t (\<lambda>_. True)
       (\<lambda>a. a\<lparr>ad_state := ADM_REJECTED, ad_adapter_response := Some response, ad_updated_at := clk env\<rparr>) db)"

definition completeAdmissionWithoutTask :: "runtime_env \<Rightarrow> string \<Rightarrow> json \<Rightarrow> db \<Rightarrow> err + (unit \<times> db)" where
  "completeAdmissionWithoutTask env t response db =
     Inr ((), update_admission t (\<lambda>_. True)
       (\<lambda>a. a\<lparr>ad_state := ADM_PUBLISHED, ad_adapter_response := Some response, ad_updated_at := clk env\<rparr>) db)"

section \<open>Resource bindings\<close>

fun split_on :: "char \<Rightarrow> string \<Rightarrow> string list" where
  "split_on c [] = [[]]"
| "split_on c (x # xs) =
     (if x = c then [] # split_on c xs
      else case split_on c xs of [] \<Rightarrow> [[x]] | s # ss \<Rightarrow> (x # s) # ss)"

fun replace_pair :: "char \<Rightarrow> char \<Rightarrow> char \<Rightarrow> string \<Rightarrow> string" where
  "replace_pair a b c (x # y # r) =
     (if x = a \<and> y = b then c # replace_pair a b c r else x # replace_pair a b c (y # r))"
| "replace_pair a b c r = r"

text \<open>An own property of a value: an object's key, an array's index or length.\<close>

fun own_property :: "json \<Rightarrow> string \<Rightarrow> json option" where
  "own_property (JObj kvs) key = obj_get kvs key"
| "own_property (JArr xs) key =
     (if key = ''length'' then Some (JNum (int (length xs)))
      else map_option (\<lambda>i. xs ! i) (List.find (\<lambda>i. show_nat i = key) [0..<length xs]))"
| "own_property _ key = None"

fun walk_pointer :: "json \<Rightarrow> string list \<Rightarrow> json option" where
  "walk_pointer current [] = Some current"
| "walk_pointer current (encoded # rest) =
     (let key = replace_pair (CHR ''~'') (CHR ''0'') (CHR ''~'')
                  (replace_pair (CHR ''~'') (CHR ''1'') (CHR ''/'') encoded)
      in case own_property current key of None \<Rightarrow> None | Some v \<Rightarrow> walk_pointer v rest)"

definition resolveJsonPointer :: "json \<Rightarrow> string \<Rightarrow> err + json option" where
  "resolveJsonPointer document pointer =
     (if pointer = [] then Inr (Some document)
      else if hd pointer \<noteq> CHR ''/'' then Inl (Error ''BUSINESS_EVENT_RESOURCE_BINDING_INVALID'')
      else Inr (walk_pointer document (split_on (CHR ''/'') (tl pointer))))"

definition valid_resource_ref :: "string \<Rightarrow> bool" where
  "valid_resource_ref s =
     (1 \<le> length s \<and> length s \<le> 512 \<and> list_all (\<lambda>c. CHR ''!'' \<le> c \<and> c \<le> CHR ''~'') s)"

definition bind_resource :: "AdmissionIntentInput \<Rightarrow> string \<Rightarrow> db \<Rightarrow> err + db" where
  "bind_resource input ref db =
     (case find_task (in_taskId input) db of
        None \<Rightarrow> Inr db
      | Some r \<Rightarrow>
          let provider = in_providerId (spec r);
              retain = (case terminal_at r of None \<Rightarrow> in_acceptedAt (spec r) | Some t \<Rightarrow> t) + 1209960000
          in if \<exists>b \<in> set (resource_binding db). rb_provider_id b = provider \<and> rb_task_id b = task_id r
             then checked (db\<lparr>resource_binding :=
               update_rows (\<lambda>b. rb_provider_id b = provider \<and> rb_task_id b = task_id r)
                 (\<lambda>b. b\<lparr>rb_retain_until := max (rb_retain_until b) retain\<rparr>) (resource_binding db)\<rparr>)
             else checked (db\<lparr>resource_binding := resource_binding db @
               [\<lparr>rb_provider_id = provider, rb_task_id = task_id r, rb_resource_ref = ref,
                 rb_bound_at = in_acceptedAt (spec r), rb_terminal_at = terminal_at r,
                 rb_retain_until = retain\<rparr>]\<rparr>))"

definition object_of_json :: "json option \<Rightarrow> json_object option" where
  "object_of_json v = (case v of Some (JObj kvs) \<Rightarrow> Some kvs | _ \<Rightarrow> None)"

definition string_of_json :: "json option \<Rightarrow> string option" where
  "string_of_json v = (case v of Some (JStr s) \<Rightarrow> Some s | _ \<Rightarrow> None)"

definition materializeTaskResourceBinding :: "AdmissionIntentInput \<Rightarrow> db \<Rightarrow> err + db" where
  "materializeTaskResourceBinding input db =
     (let definition_json = (case snapshot_definition (in_operationSnapshotId input) db of
            None \<Rightarrow> [] | Some d \<Rightarrow> d)
      in case object_of_json (obj_get definition_json ''resourceBinding'') of
           None \<Rightarrow> Inr db
         | Some binding \<Rightarrow>
             if string_of_json (obj_get binding ''mode'') \<noteq> Some ''ARGUMENT_REFERENCE'' then Inr db
             else (case string_of_json (obj_get binding ''resourceIdJsonPointer'') of
                 None \<Rightarrow> Inl (Error ''BUSINESS_EVENT_RESOURCE_BINDING_INVALID'')
               | Some pointer \<Rightarrow>
                   bind_err (resolveJsonPointer (JObj (in_arguments input)) pointer) (\<lambda>v.
                     case string_of_json v of
                       None \<Rightarrow> Inl (Error ''BUSINESS_EVENT_RESOURCE_BINDING_INVALID'')
                     | Some ref \<Rightarrow>
                         if valid_resource_ref ref then bind_resource input ref db
                         else Inl (Error ''BUSINESS_EVENT_RESOURCE_BINDING_INVALID''))))"

section \<open>Observations and input requests of a snapshot\<close>

definition stableObservationType :: "SnapshotTransition \<Rightarrow> string" where
  "stableObservationType t =
     (if tn_internalState t = TERMINAL_COMPLETED then ''task.completed''
      else if tn_internalState t = TERMINAL_FAILED then ''task.failed''
      else if tn_internalState t = TERMINAL_CANCELLED then ''task.cancelled''
      else tn_observationType t)"

definition reasonCodeFromTransition :: "SnapshotTransition \<Rightarrow> string option" where
  "reasonCodeFromTransition t =
     (case (case tn_result t of Some b \<Rightarrow> Some b | None \<Rightarrow> tn_error t) of
        None \<Rightarrow> None
      | Some body \<Rightarrow>
          let data_reason = (case object_of_json (obj_get body ''data'') of
                Some d \<Rightarrow> string_of_json (obj_get d ''reasonCode'') | None \<Rightarrow> None)
          in case object_of_json (obj_get body ''structuredContent'') of
               Some structured \<Rightarrow>
                 if obj_get structured ''reasonCode'' \<noteq> None
                 then string_of_json (obj_get structured ''reasonCode'') else data_reason
             | None \<Rightarrow> data_reason)"

text \<open>\<^verbatim>\<open>insertObservation\<close>; \<open>reason\<close> is the optional override and \<open>adapter\<close> the source.\<close>

definition insertObservation ::
  "runtime_env \<Rightarrow> string \<Rightarrow> nat \<Rightarrow> SnapshotTransition \<Rightarrow> bool \<Rightarrow> int option \<Rightarrow> string option
   \<Rightarrow> json option \<Rightarrow> json_object \<Rightarrow> db \<Rightarrow> db" where
  "insertObservation env t revision transition adapter adapterRevision reason progress payload db =
     (if \<exists>x \<in> set (task_observation db). ob_task_id x = t \<and> ob_revision x = revision then db
      else db\<lparr>task_observation := task_observation db @
        [\<lparr>ob_task_id = t, ob_revision = revision, ob_type = stableObservationType transition,
          ob_reason_code = (case reason of None \<Rightarrow> reasonCodeFromTransition transition | Some r \<Rightarrow> Some r),
          ob_occurred_at = clk env, ob_message = Some (tn_statusMessage transition),
          ob_substate = tn_substate transition, ob_progress = progress, ob_from_adapter = adapter,
          ob_adapter_revision = adapterRevision, ob_payload = payload\<rparr>]\<rparr>)"

record NewInputRequest =
  ni_key :: string
  ni_description :: string
  ni_schema :: json
  ni_required :: bool
  ni_requestJson :: "json option"

definition input_request_json :: "NewInputRequest \<Rightarrow> json" where
  "input_request_json i =
     (case ni_requestJson i of
        Some j \<Rightarrow> j
      | None \<Rightarrow> JObj [(''method'', JStr ''elicitation/create''),
          (''params'', JObj [(''mode'', JStr ''form''), (''message'', JStr (ni_description i)),
                            (''requestedSchema'', ni_schema i)])])"

text \<open>One iteration of \<^verbatim>\<open>upsertInputRequests\<close>: a known key may only change its description.\<close>

definition upsertInputRequest :: "string \<Rightarrow> NewInputRequest \<Rightarrow> db \<Rightarrow> err + db" where
  "upsertInputRequest t i db =
     (let mine = (\<lambda>q. ir_task_id q = t \<and> ir_key q = ni_key i) in
      case first_row mine (task_input_request db) of
        None \<Rightarrow> checked (db\<lparr>task_input_request := task_input_request db @
          [\<lparr>ir_task_id = t, ir_key = ni_key i, ir_description = ni_description i,
            ir_schema = ni_schema i, ir_required = ni_required i, ir_status = OPEN,
            ir_request_json = input_request_json i, ir_answer_hash = None, ir_answer = None,
            ir_response_hash = None, ir_response_json = None, ir_answered_at = None\<rparr>]\<rparr>)
      | Some q \<Rightarrow>
          if json_norm (ir_schema q) = json_norm (ni_schema i) \<and> ir_required q = ni_required i \<and>
             json_norm (ir_request_json q) = json_norm (input_request_json i)
          then Inr (db\<lparr>task_input_request := update_rows mine
            (\<lambda>q. q\<lparr>ir_description := ni_description i\<rparr>) (task_input_request db)\<rparr>)
          else Inl (Error ''STABLE_INPUT_REQUEST_CONFLICT''))"

definition upsertInputRequests :: "string \<Rightarrow> NewInputRequest list \<Rightarrow> db \<Rightarrow> err + db" where
  "upsertInputRequests t inputs db = fold_err (upsertInputRequest t) inputs db"

section \<open>Stop commands of a missed start window\<close>

definition commandHash :: "runtime_env \<Rightarrow> stop_reason \<Rightarrow> string" where
  "commandHash env reason = sha256 env (''cancel:'' @ toLowerCase (show_stop_reason reason))"

text \<open>A freshly inserted command: the given columns and the defaults of the others.\<close>

definition new_command ::
  "runtime_env \<Rightarrow> string \<Rightarrow> nat \<Rightarrow> command_type \<Rightarrow> string \<Rightarrow> json_object \<Rightarrow> command_row" where
  "new_command env t sequence ty hash payload =
     \<lparr>cmd_task_id = t, cmd_sequence = sequence, cmd_type = ty, cmd_request_hash = hash,
      cmd_state = PENDING, cmd_payload = payload, cmd_adapter_ack = None, cmd_attempt_count = 0,
      cmd_next_attempt_at = clk env, cmd_claim_owner = None, cmd_claim_until = None,
      cmd_last_error_code = None, cmd_last_error_message = None, cmd_priority = 0,
      cmd_stop_reason = None, cmd_previous_internal_state = None, cmd_previous_mcp_status = None,
      cmd_previous_substate = None, cmd_previous_status_message = None,
      cmd_created_at = clk env, cmd_updated_at = clk env\<rparr>"

text \<open>A stop command, which also saves the state to return to.\<close>

definition new_stop_command ::
  "runtime_env \<Rightarrow> task_row \<Rightarrow> nat \<Rightarrow> stop_reason \<Rightarrow> int \<Rightarrow> instant \<Rightarrow> command_row" where
  "new_stop_command env previous sequence reason priority at =
     (new_command env (task_id previous) sequence CANCEL (commandHash env reason)
       [(''reason'', JStr (show_stop_reason reason))])
     \<lparr>cmd_stop_reason := Some reason, cmd_priority := priority, cmd_next_attempt_at := at,
      cmd_previous_internal_state := Some (internal_state previous),
      cmd_previous_mcp_status := Some (mcp_status previous),
      cmd_previous_substate := substate previous,
      cmd_previous_status_message := status_message previous\<rparr>"

definition active_stop_command :: "string \<Rightarrow> db \<Rightarrow> command_row option" where
  "active_stop_command t db = latest_row cmd_sequence (\<lambda>c. cmd_task_id c = t \<and> active_stop c) (task_command db)"

definition is_command :: "string \<Rightarrow> nat \<Rightarrow> command_row \<Rightarrow> bool" where
  "is_command t n c = (cmd_task_id c = t \<and> cmd_sequence c = n)"

definition raise_stop_to_window :: "instant \<Rightarrow> command_row \<Rightarrow> command_row" where
  "raise_stop_to_window at c =
     c\<lparr>cmd_stop_reason := Some START_WINDOW_MISSED, cmd_priority := 200,
       cmd_payload := [(''reason'', JStr ''START_WINDOW_MISSED'')], cmd_updated_at := at\<rparr>"

definition start_window_stop_request ::
  "string \<Rightarrow> nat \<Rightarrow> stop_reason \<Rightarrow> nat \<Rightarrow> instant \<Rightarrow> TaskTransitionRequest" where
  "start_window_stop_request t expected effective sequence at =
     \<lparr>tq_taskId = t, tq_expectedVersion = Some expected,
      tq_update = no_update
        \<lparr>up_internalState := Some STOPPING, up_mcpStatus := Some working,
         up_substate := Some (Some ''stopping''),
         up_statusMessage := Some (Some ''Start window missed; safe stop requested.''),
         up_cancelRequested := Some True, up_stopReason := Some (Some effective),
         up_startStopRequestedAt := (if effective = START_WINDOW_MISSED then Some (Some at) else None),
         up_scheduleClaimOwner := Some None, up_scheduleClaimUntil := Some None,
         up_nextStartAttemptAt := Some None\<rparr>,
      tq_observation =
        \<lparr>to_type = ''task.start_window_violation'', to_occurredAt = at,
         to_reasonCode = Some ''START_WINDOW_MISSED'',
         to_message = Some ''Start window missed; safe stop requested.'',
         to_substate = Some ''stopping'', to_progress = None, to_adapter = False,
         to_adapterRevision = None, to_payload = [(''commandSequence'', JNum (int sequence))]\<rparr>,
      tq_outboxType = ''task.start_window_stop_requested'',
      tq_eventKey = [t, ''command'', show_nat sequence, ''start-window-stop''],
      tq_outboxPayload = [(''reasonCode'', JStr ''START_WINDOW_MISSED''),
                          (''commandSequence'', JNum (int sequence))]\<rparr>"

text \<open>\<^verbatim>\<open>UPDATE provider_task SET next_command_sequence=next_command_sequence+1 ... RETURNING\<close>.\<close>

definition take_sequence :: "string \<Rightarrow> db \<Rightarrow> err + (nat \<times> db)" where
  "take_sequence t db =
     bind_err (checked (update_task t (\<lambda>r. r\<lparr>next_command_sequence := next_command_sequence r + 1\<rparr>) db)) (\<lambda>db.
       case find_task t db of
         None \<Rightarrow> Inl (Error ''START_WINDOW_STOP_SEQUENCE_FAILED'')
       | Some r \<Rightarrow> Inr (next_command_sequence r, db))"

definition insert_command :: "command_row \<Rightarrow> db \<Rightarrow> err + db" where
  "insert_command c db = checked (db\<lparr>task_command := task_command db @ [c]\<rparr>)"

definition persistStartWindowStop :: "runtime_env \<Rightarrow> string \<Rightarrow> instant \<Rightarrow> db \<Rightarrow> err + db" where
  "persistStartWindowStop env t requestedAt db =
     (case find_task t db of
        None \<Rightarrow> Inl (Error ''TASK_NOT_FOUND'')
      | Some previous \<Rightarrow>
          if isTerminalState (internal_state previous) then Inr db
          else if external_execution_id previous = None
            then Inl (Error ''START_WINDOW_STOP_WITHOUT_EXECUTION'')
          else
            let active = active_stop_command t db;
                effective = (if (case active of None \<Rightarrow> None | Some c \<Rightarrow> cmd_stop_reason c) = Some DEADLINE_REACHED
                             then DEADLINE_REACHED else START_WINDOW_MISSED)
            in bind_err
                 (case active of
                    None \<Rightarrow>
                      bind_err (take_sequence t db) (\<lambda>(sequence, db).
                      bind_err (insert_command (new_stop_command env previous sequence START_WINDOW_MISSED 200 requestedAt) db)
                        (\<lambda>db. Inr (sequence, db)))
                  | Some c \<Rightarrow>
                      if cmd_stop_reason c = Some USER_REQUESTED then
                        bind_err (checked (update_commands (is_command t (cmd_sequence c))
                          (raise_stop_to_window requestedAt) db)) (\<lambda>db. Inr (cmd_sequence c, db))
                      else Inr (cmd_sequence c, db)) (\<lambda>(sequence, db).
               bind_err (transitionTask (start_window_stop_request t (version previous) effective sequence requestedAt) db) (\<lambda>(_, db).
               if active = None then
                 Inr (insertCommandFact env t
                   \<lparr>cf_sequence = sequence, cf_commandType = CANCEL, cf_state = PENDING, cf_attemptCount = Some 0\<rparr>
                   ''task.command.created''
                   (no_extra\<lparr>fx_reasonCode := Some ''START_WINDOW_MISSED'', fx_adapterRpcStatus := Some ''not_started''\<rparr>) db)
               else Inr db)))"

section \<open>Publication\<close>

record PublishTaskInput =
  pb_input :: AdmissionIntentInput
  pb_externalExecutionId :: string
  pb_transition :: SnapshotTransition
  pb_adapterRevision :: int
  pb_adapterResponse :: json
  pb_actualStartedAt :: "instant option"
  pb_startWindowMissedAt :: "instant option"
  pb_inputRequests :: "NewInputRequest list"

text \<open>The defaults of the columns a publication does not name.\<close>

definition default_row :: "runtime_env \<Rightarrow> AdmissionIntentInput \<Rightarrow> task_row" where
  "default_row env input =
     \<lparr>spec = input, external_execution_id = None, internal_state = SCHEDULED, mcp_status = working,
      substate = None, status_message = None, result = None, error = None, adapter_revision = 0,
      observation_revision = 1, runtime_revision = 1, version = 0, handle_expires_at = None,
      terminal_at = None, expired_at = None, purge_after = None, last_confirmed_at = None,
      poll_interval_ms = 2000, created_at = clk env, updated_at = clk env,
      runtime_updated_at = clk env, not_before = Some (in_notBefore input),
      latest_start_at = Some (in_latestStartAt input), actual_started_at = None,
      start_stop_requested_at = None, start_confirmation_deadline = None,
      start_confirmation_attempts = 0, invocation_attempt = 0, next_start_attempt_at = None,
      schedule_claim_owner = None, schedule_claim_until = None, cancel_requested = False,
      row_stop_reason = None, next_command_sequence = 0, recovery_attempts = 0,
      next_recovery_at = clk env, recovery_failure_count = 0, last_reconciled_at = None\<rparr>"

definition accepted_row :: "runtime_env \<Rightarrow> PublishTaskInput \<Rightarrow> task_row" where
  "accepted_row env p =
     (let input = pb_input p; t = pb_transition p; terminal = isTerminalState (tn_internalState t) in
      (default_row env input)
      \<lparr>external_execution_id := Some (pb_externalExecutionId p),
       internal_state := tn_internalState t, mcp_status := tn_mcpStatus t, substate := tn_substate t,
       status_message := Some (tn_statusMessage t), result := tn_result t, error := tn_error t,
       adapter_revision := pb_adapterRevision p, actual_started_at := pb_actualStartedAt p,
       invocation_attempt := 1,
       terminal_at := (if terminal then Some (clk env) else None),
       handle_expires_at :=
         (if in_ttlMs input = None \<and> \<not> terminal then None
          else Some (clk env + (case in_ttlMs input of None \<Rightarrow> 86400000 | Some m \<Rightarrow> m))),
       last_confirmed_at := Some (clk env)\<rparr>)"

definition scheduled_row :: "runtime_env \<Rightarrow> AdmissionIntentInput \<Rightarrow> task_row" where
  "scheduled_row env input =
     (default_row env input)
     \<lparr>substate := Some ''scheduled'', status_message := Some ''Waiting for scheduled start.'',
      next_start_attempt_at := Some (in_notBefore input)\<rparr>"

definition insert_task :: "task_row \<Rightarrow> db \<Rightarrow> err + db" where
  "insert_task r db =
     (if snapshot_definition (in_operationSnapshotId (spec r)) db = None
      then Inl (DbConstraint ''provider_task_operation_snapshot_id_fkey'')
      else checked (db\<lparr>provider_task := provider_task db @ [r]\<rparr>))"

definition initializeTaskRetention ::
  "string \<Rightarrow> InternalTaskState \<Rightarrow> instant \<Rightarrow> int option \<Rightarrow> db \<Rightarrow> err + db" where
  "initializeTaskRetention t st acceptedAt ttlMs db =
     (let terminal = isTerminalState st;
          ttl = (case ttlMs of Some m \<Rightarrow> Some m | None \<Rightarrow> if terminal then Some 86400000 else None)
      in checked (update_task t (\<lambda>r. r
           \<lparr>terminal_at := (if terminal then Some acceptedAt else None),
            handle_expires_at := map_option (\<lambda>m. acceptedAt + m) ttl,
            last_confirmed_at := Some acceptedAt\<rparr>) db))"

definition published :: "runtime_env \<Rightarrow> string \<Rightarrow> db \<Rightarrow> db" where
  "published env t db = update_admission t (\<lambda>_. True)
     (\<lambda>a. a\<lparr>ad_state := ADM_PUBLISHED, ad_updated_at := clk env\<rparr>) db"

text \<open>\<^verbatim>\<open>publishAccepted\<close> in two parts: up to the first observation, and what follows it.\<close>

definition finish_accepted :: "runtime_env \<Rightarrow> PublishTaskInput \<Rightarrow> db \<Rightarrow> err + (task_row \<times> db)" where
  "finish_accepted env p db =
     (let t = in_taskId (pb_input p) in
      bind_err (case pb_startWindowMissedAt p of None \<Rightarrow> Inr db
          | Some at \<Rightarrow> persistStartWindowStop env t at db) (\<lambda>db.
      bind_err (upsertInputRequests t (pb_inputRequests p)
          (insertOutbox env t ''task.created''
            [(''status'', JStr (show_status (tn_mcpStatus (pb_transition p))))] [t, ''created''] db)) (\<lambda>db.
      case find_task t (published env t db) of
        None \<Rightarrow> Inl (Error ''TASK_NOT_VISIBLE_AFTER_COMMIT'')
      | Some r \<Rightarrow> Inr (r, published env t db))))"

definition publishAccepted :: "runtime_env \<Rightarrow> PublishTaskInput \<Rightarrow> db \<Rightarrow> err + (task_row \<times> db)" where
  "publishAccepted env p db =
     (let t = in_taskId (pb_input p);
          db = update_admission t (\<lambda>_. True) (\<lambda>a. a\<lparr>ad_state := ADM_ACCEPTED,
            ad_adapter_response := Some (pb_adapterResponse p), ad_updated_at := clk env\<rparr>) db
      in bind_err (insert_task (accepted_row env p) db) (\<lambda>db.
         bind_err (materializeTaskResourceBinding (pb_input p) db) (\<lambda>db.
         finish_accepted env p
           (insertObservation env t 1 (pb_transition p) True (Some (pb_adapterRevision p)) None None [] db))))"

definition scheduled_observation :: "AdmissionIntentInput \<Rightarrow> observation_row" where
  "scheduled_observation input =
     \<lparr>ob_task_id = in_taskId input, ob_revision = 1, ob_type = ''task.scheduled'', ob_reason_code = None,
      ob_occurred_at = in_acceptedAt input, ob_message = Some ''Waiting for scheduled start.'',
      ob_substate = Some ''scheduled'', ob_progress = None, ob_from_adapter = False,
      ob_adapter_revision = None, ob_payload = []\<rparr>"

definition publishScheduled :: "runtime_env \<Rightarrow> AdmissionIntentInput \<Rightarrow> db \<Rightarrow> err + (task_row \<times> db)" where
  "publishScheduled env input db =
     (let t = in_taskId input in
      bind_err (insert_task (scheduled_row env input) db) (\<lambda>db.
      bind_err (materializeTaskResourceBinding input db) (\<lambda>db.
      bind_err (initializeTaskRetention t SCHEDULED (in_acceptedAt input) (in_ttlMs input) db) (\<lambda>db.
      bind_err (checked (db\<lparr>task_observation := task_observation db @ [scheduled_observation input]\<rparr>)) (\<lambda>db.
      let db = insertOutbox env t ''task.created''
            [(''status'', JStr ''working''), (''substate'', JStr ''scheduled'')] [t, ''created''] db;
          db = published env t db
      in case find_task t db of
           None \<Rightarrow> Inl (Error ''SCHEDULED_TASK_NOT_VISIBLE_AFTER_COMMIT'')
         | Some r \<Rightarrow> Inr (r, db))))))"

section \<open>Reads\<close>

text \<open>The authorization filter and the handle expiry of the reads.\<close>

definition authorized :: "AuthorizationContext \<Rightarrow> task_row \<Rightarrow> bool" where
  "authorized a r =
     (au_hash (in_authorization (spec r)) = au_hash a \<and>
      au_executionMode (in_authorization (spec r)) = au_executionMode a \<and>
      au_simulationId (in_authorization (spec r)) = au_simulationId a)"

definition handle_expired :: "runtime_env \<Rightarrow> task_row \<Rightarrow> bool" where
  "handle_expired env r =
     (isTerminalState (internal_state r) \<and>
      (case handle_expires_at r of None \<Rightarrow> False | Some t \<Rightarrow> t \<le> clk env))"

definition getAuthorized :: "runtime_env \<Rightarrow> string \<Rightarrow> AuthorizationContext \<Rightarrow> db \<Rightarrow> err + task_row" where
  "getAuthorized env t a db =
     (case first_row (\<lambda>r. task_id r = t \<and> authorized a r) (provider_task db) of
        None \<Rightarrow> Inl TaskNotFoundOrUnauthorizedError
      | Some r \<Rightarrow> if expired_at r \<noteq> None \<or> handle_expired env r then Inl TaskExpiredError else Inr r)"

definition is_hex :: "char \<Rightarrow> bool" where
  "is_hex c = (lower_char c \<in> set ''0123456789abcdef'')"

definition is_uuid :: "string \<Rightarrow> bool" where
  "is_uuid s =
     (length s = 36 \<and>
      (\<forall>i < 36. if i \<in> {8, 13, 18, 23} then s ! i = CHR ''-''
         else if i = 14 then s ! i \<in> set ''12345678''
         else if i = 19 then lower_char (s ! i) \<in> set ''89ab''
         else is_hex (s ! i)))"

definition assertUuidList :: "string list \<Rightarrow> err + unit" where
  "assertUuidList values =
     (if \<exists>v \<in> set values. \<not> is_uuid v then Inl (Error ''RUNTIME_CONTRACT_INVALID_TASK_UUID'') else Inr ())"

definition getAuthorizedTasksByIds ::
  "runtime_env \<Rightarrow> string list \<Rightarrow> AuthorizationContext \<Rightarrow> db \<Rightarrow> err + task_row list" where
  "getAuthorizedTasksByIds env taskIds a db =
     (if taskIds = [] then Inr []
      else bind_err (assertUuidList taskIds) (\<lambda>_.
        Inr (filter (\<lambda>r. expired_at r = None \<and> \<not> handle_expired env r)
          (sort_key task_id
            (filter (\<lambda>r. task_id r \<in> set (map toLowerCase taskIds) \<and> authorized a r) (provider_task db))))))"

definition getById :: "string \<Rightarrow> db \<Rightarrow> task_row option" where
  "getById t db = find_task t db"

definition listAdmissionsForRecovery :: "nat \<Rightarrow> db \<Rightarrow> (AdmissionIntentInput \<times> admission_state) list" where
  "listAdmissionsForRecovery limit db =
     List.map_filter (\<lambda>a. getAdmission (in_taskId (ad_input a)) db)
       (order_limit (\<lambda>a. (ad_updated_at a, in_taskId (ad_input a))) limit
         (filter (\<lambda>a. ad_state a \<in> {ADM_PENDING, ADM_UNCERTAIN}) (admission_intent db)))"

definition listTasksForRecovery :: "runtime_env \<Rightarrow> nat \<Rightarrow> db \<Rightarrow> task_row list" where
  "listTasksForRecovery env limit db =
     order_limit (\<lambda>r. (next_recovery_at r, last_reconciled_at r, task_id r)) limit
       (filter (\<lambda>r. \<not> isTerminalState (internal_state r) \<and> internal_state r \<noteq> SCHEDULED \<and>
          next_recovery_at r \<le> clk env) (provider_task db))"

section \<open>Admission operations respect the store invariant\<close>

lemma update_admission_inputs:
  "(\<And>a. ad_input (f a) = ad_input a) \<Longrightarrow> map ad_input (admission_intent (update_admission t P f db)) = map ad_input (admission_intent db)"
  by (simp add: update_admission_def map_update_rows)

lemma safe_admission [safe_intros]:
  assumes "\<And>a. ad_input (f a) = ad_input a"
  shows "safe_rel db (update_admission t P f db)"
  using update_admission_inputs [of f t P db] assms
  by (intro safe_frame) (auto simp: update_admission_def schema_ok_def schema_checks_def)

lemma safe_createAdmissionIntent: "safe_op db (createAdmissionIntent env input db)"
  by (auto simp: createAdmissionIntent_def safe.effect_refl schema_ok_def schema_checks_def intro!: safe_frame)

lemma safe_markAdmissionUncertain: "safe_op db (markAdmissionUncertain env t db)"
  by (simp add: markAdmissionUncertain_def safe_admission)

lemma safe_recordRejection: "safe_op db (recordRejection env t response db)"
  by (simp add: recordRejection_def safe_admission)

lemma safe_completeAdmissionWithoutTask: "safe_op db (completeAdmissionWithoutTask env t response db)"
  by (simp add: completeAdmissionWithoutTask_def safe_admission)

lemma safe_published [safe_intros]: "safe_rel db (published env t db)"
  by (simp add: published_def safe_admission)

lemma safe_upsertInputRequest: "safe_db db (upsertInputRequest t i db)"
proof -
  have keys: "map (\<lambda>q. (ir_task_id q, ir_key q)) (update_rows P (\<lambda>q. q\<lparr>ir_description := d\<rparr>) qs) =
      map (\<lambda>q. (ir_task_id q, ir_key q)) qs" for P d qs
    by (rule map_update_rows) simp
  have "schema_ok (db\<lparr>task_input_request :=
      update_rows P (\<lambda>q. q\<lparr>ir_description := d\<rparr>) (task_input_request db)\<rparr>)" if "schema_ok db" for P d
    using that by (simp add: schema_ok_def schema_checks_def keys del: set_map)
  then show ?thesis
    unfolding upsertInputRequest_def Let_def
    by (auto split: option.splits intro!: safe_checked safe_frame)
qed

lemma safe_upsertInputRequests [safe_intros]: "safe_db db (upsertInputRequests t inputs db)"
  unfolding upsertInputRequests_def by (rule safe.keeps_fold) (rule safe_upsertInputRequest)

text \<open>Taking a sequence number and inserting the command it names.\<close>

lemma take_sequence_InrD:
  assumes "take_sequence t db = Inr (n, db')"
  shows "\<exists>r \<in> set (provider_task db'). task_id r = t \<and> next_command_sequence r = n"
proof -
  from assms obtain r where "find_task t db' = Some r" "next_command_sequence r = n"
    by (auto simp: take_sequence_def bind_err_Inr_iff split: option.splits)
  then show ?thesis by (auto dest: find_task_SomeD)
qed

lemma safe_take_sequence [safe_intros]: "safe_op db (take_sequence t db)"
  unfolding take_sequence_def
  by (rule safe.keeps_bind [OF safe_update_task])
    (auto simp: soft_update_def safe.effect_refl split: option.splits)

lemma safe_insert_command_op:
  assumes "saved_ok c"
    "\<exists>r \<in> set (provider_task db). task_id r = cmd_task_id c \<and> next_command_sequence r = cmd_sequence c"
  shows "safe_db db (insert_command c db)"
  using assms unfolding insert_command_def by (intro safe_insert_command) auto

lemma saved_ok_stop: 
  assumes "row_ok previous" "\<not> isTerminalState (internal_state previous)"
  shows "saved_ok (new_stop_command env previous n reason prio at)"
  using assms by (simp add: saved_ok_def new_stop_command_def row_ok_def)

lemma saved_ok_new: "saved_ok (new_command env t n ty h p)"
  by (simp add: saved_ok_def new_command_def)

lemma command_kept_raise: "command_kept c (raise_stop_to_window at c)"
  by (simp add: command_kept_def raise_stop_to_window_def)

lemma update_ok_stopping:
  assumes "row_ok r" "\<not> isTerminalState (internal_state r)"
    "up_internalState u = Some STOPPING" "up_mcpStatus u = Some working" "up_result u = None" "up_error u = None"
  shows "update_ok u r"
  using assms by (intro update_ok_working [of r u STOPPING working]) (auto simp: state_status_ok_def)

text \<open>A new stop command for the task as it was read.\<close>

lemma safe_new_stop:
  assumes "row_ok previous" "\<not> isTerminalState (internal_state previous)" "task_id previous = t"
  shows "safe_op db (bind_err (take_sequence t db) (\<lambda>(n, db).
    bind_err (insert_command (new_stop_command env previous n reason prio at) db) (\<lambda>db. Inr (n, db))))"
proof (rule safe.keeps_bind [OF safe_take_sequence], rule safe_pair)
  fix y n db' assume "take_sequence t db = Inr y" "y = (n, db')"
  then have "\<exists>r \<in> set (provider_task db'). task_id r = t \<and> next_command_sequence r = n"
    using take_sequence_InrD by blast
  then have "safe_db db' (insert_command (new_stop_command env previous n reason prio at) db')"
    using assms by (intro safe_insert_command_op saved_ok_stop)
      (auto simp: new_stop_command_def new_command_def)
  then show "safe_op db' (bind_err (insert_command (new_stop_command env previous n reason prio at) db')
      (\<lambda>db. Inr (n, db)))"
    by (rule safe.keeps_bind) (simp add: safe.effect_refl)
qed

lemma safe_start_window_transition:
  "safe_op db (transitionTask (start_window_stop_request t v reason n at) db)"
  by (rule safe_transitionTask, rule update_ok_stopping)
    (auto simp: start_window_stop_request_def no_update_def)

lemma safe_persistStartWindowStop [safe_intros]: "safe_db db (persistStartWindowStop env t at db)"
proof (rule safe_assume)
  assume inv: "db_inv db"
  show "safe_db db (persistStartWindowStop env t at db)"
  proof (cases "find_task t db")
    case None
    then show ?thesis by (simp add: persistStartWindowStop_def)
  next
    case (Some previous)
    note previous = find_task_SomeD [OF Some]
    let ?active = "active_stop_command t db"
    have select: "safe_op db (case ?active of
        None \<Rightarrow> bind_err (take_sequence t db) (\<lambda>(n, db).
          bind_err (insert_command (new_stop_command env previous n START_WINDOW_MISSED 200 at) db)
            (\<lambda>db. Inr (n, db)))
      | Some c \<Rightarrow> if cmd_stop_reason c = Some USER_REQUESTED
          then bind_err (checked (update_commands (is_command t (cmd_sequence c)) (raise_stop_to_window at) db))
            (\<lambda>db. Inr (cmd_sequence c, db))
          else Inr (cmd_sequence c, db))"
      if "\<not> isTerminalState (internal_state previous)"
      using that previous db_inv_row_ok [OF inv]
      by (auto split: option.splits simp: safe.effect_refl command_kept_raise
          intro!: safe_new_stop safe.keeps_bind [OF safe_update_commands])
    show ?thesis unfolding persistStartWindowStop_def Some option.case Let_def
      by (auto simp: safe.effect_refl intro!: safe.keeps_bind [OF select] safe_pair
          safe.keeps_bind [OF safe_start_window_transition] safe_insertCommandFact)
  qed
qed

text \<open>Publication adds the task together with its first observation.\<close>

lemma safe_publish:
  assumes rows: "provider_task db' = provider_task db @ [r]" "row_ok r" "observation_revision r = 1"
    and obs: "task_observation db' = task_observation db @ [x]" "ob_task_id x = task_id r" "ob_revision x = 1"
    and rest: "task_command db' = task_command db" "outbox_event db' = outbox_event db" "schema_ok db'"
      "admission_intent db' = admission_intent db"
  shows "safe_rel db db'"
  unfolding safe_rel_def
proof
  assume inv: "db_inv db"
  have fresh: "task_id r \<notin> task_id ` set (provider_task db)"
    using schema_okD(1) [OF rest(3)] rows(1) by auto
  then have "revisions (task_id r) (task_observation db) = []"
  proof -
    have "ob_task_id y \<noteq> task_id r" if "y \<in> set (task_observation db)" for y
      using inv fresh that by (metis db_inv_def image_eqI observations_inv_def)
    then show ?thesis by (simp add: revisions_def filter_empty_conv)
  qed
  then have new: "revisions (task_id r) (task_observation db') = [1..<Suc (observation_revision r)]"
    using obs rows(3) by (simp add: revisions_append)
  have old: "revisions (task_id q) (task_observation db') = [1..<Suc (observation_revision q)]"
    if q: "q \<in> set (provider_task db)" for q
  proof -
    have "task_id q \<noteq> task_id r" using fresh q by (metis image_eqI)
    with inv q obs show ?thesis
      by (simp add: revisions_append db_inv_def observations_inv_def del: upt_Suc)
  qed
  have "observations_inv (provider_task db') (task_observation db')"
    using new old inv rows obs by (auto simp: db_inv_def observations_inv_def simp del: upt_Suc)
  moreover have "commands_inv (provider_task db') (task_command db')"
    using inv rows rest by (auto simp: db_inv_def commands_inv_def)
  ultimately show "db_inv db' \<and> evolves db db'"
    using inv rows obs rest by (auto simp: db_inv_def tasks_inv_def evolves_def intro: row_evolves_refl)
qed

text \<open>The binding changes no other table.\<close>

definition only_bindings :: "db \<Rightarrow> db \<Rightarrow> bool" where
  "only_bindings db db' = (\<exists>bs. db' = db\<lparr>resource_binding := bs\<rparr>)"

lemma only_bindings_refl: "only_bindings db db"
  unfolding only_bindings_def by (metis db.surjective db.update_convs(9))

lemma checked_bindings:
  "checked (db\<lparr>resource_binding := bs\<rparr>) = Inr db' \<Longrightarrow> only_bindings db db' \<and> schema_ok db'"
  by (auto simp: checked_Inr_iff only_bindings_def)

lemma bind_resource_frame:
  assumes "bind_resource input ref db = Inr db'" "schema_ok db"
  shows "only_bindings db db' \<and> schema_ok db'"
proof (cases "find_task (in_taskId input) db")
  case None
  with assms show ?thesis by (simp add: bind_resource_def only_bindings_refl)
next
  case (Some r)
  with assms(1) show ?thesis
    unfolding bind_resource_def Some option.case Let_def
    by (simp only: split: if_splits) (erule checked_bindings)+
qed

lemma materialize_frame:
  "materializeTaskResourceBinding input db = Inr db' \<Longrightarrow> schema_ok db \<Longrightarrow> only_bindings db db' \<and> schema_ok db'"
  unfolding materializeTaskResourceBinding_def Let_def
  by (auto simp: bind_err_Inr_iff only_bindings_refl dest: bind_resource_frame
      split: option.splits if_splits)

text \<open>The state between the insertion of the row and that of its first observation.\<close>

definition row_inserted :: "task_row \<Rightarrow> db \<Rightarrow> db \<Rightarrow> bool" where
  "row_inserted r db db' =
     (provider_task db' = provider_task db @ [r] \<and> task_observation db' = task_observation db \<and>
      task_command db' = task_command db \<and> outbox_event db' = outbox_event db \<and>
      admission_intent db' = admission_intent db \<and> schema_ok db')"

lemma insert_and_bind:
  assumes "insert_task r db = Inr db1" "materializeTaskResourceBinding input db1 = Inr db2"
  shows "row_inserted r db db2"
proof -
  from assms(1) have db1: "db1 = db\<lparr>provider_task := provider_task db @ [r]\<rparr>" "schema_ok db1"
    by (auto simp: insert_task_def checked_Inr_iff split: if_splits)
  from materialize_frame [OF assms(2) db1(2)] show ?thesis
    by (auto simp: row_inserted_def only_bindings_def db1(1))
qed

lemma row_inserted_fresh:
  assumes "row_inserted r db db'" "db_inv db"
  shows "\<And>q. q \<in> set (provider_task db) \<Longrightarrow> task_id q \<noteq> task_id r"
    and "\<And>x. x \<in> set (task_observation db') \<Longrightarrow> ob_task_id x \<noteq> task_id r"
proof -
  have "distinct (map task_id (provider_task db @ [r]))"
    using assms(1) schema_okD(1) [of db'] by (simp add: row_inserted_def)
  then have fresh: "task_id r \<notin> task_id ` set (provider_task db)" by simp
  then show "\<And>q. q \<in> set (provider_task db) \<Longrightarrow> task_id q \<noteq> task_id r" by (metis image_eqI)
  show "\<And>x. x \<in> set (task_observation db') \<Longrightarrow> ob_task_id x \<noteq> task_id r"
    using assms fresh unfolding row_inserted_def db_inv_def observations_inv_def by (metis image_eqI)
qed

lemma schema_ok_observation:
  assumes "schema_ok db" "\<And>y. y \<in> set (task_observation db) \<Longrightarrow> ob_task_id y \<noteq> ob_task_id x"
  shows "schema_ok (db\<lparr>task_observation := task_observation db @ [x]\<rparr>)"
proof -
  have "(ob_task_id x, ob_revision x) \<notin> (\<lambda>y. (ob_task_id y, ob_revision y)) ` set (task_observation db)"
    using assms(2) by fastforce
  with assms(1) show ?thesis by (simp add: schema_ok_def schema_checks_def)
qed

lemma safe_first_observation:
  assumes ins: "row_inserted r db db'" and ok: "row_ok r" "observation_revision r = 1" and t: "t = task_id r"
  shows "safe_rel db (insertObservation env t 1 transition ad revision reason progress payload db')"
proof (cases "db_inv db")
  case True
  note fresh = row_inserted_fresh [OF ins True]
  then have "\<not> (\<exists>x \<in> set (task_observation db'). ob_task_id x = t \<and> ob_revision x = 1)"
    using t by blast
  then have "\<exists>x. insertObservation env t 1 transition ad revision reason progress payload db' =
      db'\<lparr>task_observation := task_observation db' @ [x]\<rparr> \<and> ob_task_id x = t \<and> ob_revision x = 1"
    unfolding insertObservation_def by (simp only: if_False) auto
  then obtain x where x: "insertObservation env t 1 transition ad revision reason progress payload db' =
      db'\<lparr>task_observation := task_observation db' @ [x]\<rparr>" "ob_task_id x = t" "ob_revision x = 1" by blast
  have "schema_ok (db'\<lparr>task_observation := task_observation db' @ [x]\<rparr>)"
    using ins fresh(2) t x(2) by (intro schema_ok_observation) (auto simp: row_inserted_def)
  then show ?thesis
    unfolding x(1) using ins ok t x(2,3) by (intro safe_publish [of _ _ r x]) (auto simp: row_inserted_def)
next
  case False
  then show ?thesis by (simp add: safe_rel_def)
qed

lemma accepted_row_ok:
  "transition_ok (pb_transition p) \<Longrightarrow> row_ok (accepted_row env p)"
  by (simp add: accepted_row_def row_ok_def transition_ok_def Let_def)

lemma accepted_row_simps [simp]:
  "spec (accepted_row env p) = pb_input p" "observation_revision (accepted_row env p) = 1"
  by (simp_all add: accepted_row_def default_row_def Let_def)

lemma safe_found: "safe_op db (case find_task t db of None \<Rightarrow> Inl e | Some r \<Rightarrow> Inr (r, db))"
  by (auto simp: safe.effect_refl split: option.splits)

lemma safe_finish_accepted: "safe_op db (finish_accepted env p db)"
  unfolding finish_accepted_def Let_def
proof (rule safe.keeps_bind [where get = "\<lambda>x. x"], goal_cases)
  case 1
  show ?case by (auto simp: safe.effect_refl safe_persistStartWindowStop split: option.splits)
next
  case (2 db')
  show ?case
    by (rule safe.keeps_bind [OF safe.keeps_after [OF safe_insertOutbox safe_upsertInputRequests]])
      (rule safe.keeps_after [OF safe_published safe_found])
qed

lemma safe_publishAccepted:
  assumes "transition_ok (pb_transition p)"
  shows "safe_op db (publishAccepted env p db)"
proof (rule keepsI)
  fix y assume run: "publishAccepted env p db = Inr y"
  let ?t = "in_taskId (pb_input p)"
  define db0 where "db0 = update_admission ?t (\<lambda>_. True) (\<lambda>a. a\<lparr>ad_state := ADM_ACCEPTED,
    ad_adapter_response := Some (pb_adapterResponse p), ad_updated_at := clk env\<rparr>) db"
  from run obtain db1 db2 where ins: "insert_task (accepted_row env p) db0 = Inr db1"
    "materializeTaskResourceBinding (pb_input p) db1 = Inr db2"
    and rest: "finish_accepted env p (insertObservation env ?t 1 (pb_transition p) True
      (Some (pb_adapterRevision p)) None None [] db2) = Inr y"
    unfolding publishAccepted_def Let_def db0_def [symmetric] by (blast elim: bind_err_InrE)
  have "safe_rel db db0" unfolding db0_def by (rule safe_admission) simp
  also have "safe_rel db0 (insertObservation env ?t 1 (pb_transition p) True
      (Some (pb_adapterRevision p)) None None [] db2)"
    by (rule safe_first_observation [OF insert_and_bind [OF ins] accepted_row_ok [OF assms]]) simp_all
  also have "safe_rel \<dots> (snd y)" by (rule keepsD [OF safe_finish_accepted rest])
  finally show "safe_rel db (snd y)" .
qed

text \<open>The scheduled task: its retention columns are set before its first observation.\<close>

lemma update_inserted:
  assumes "row_inserted r db db'" "db_inv db" "spec (f r) = spec r"
    "checked (update_task (task_id r) f db') = Inr db2"
  shows "row_inserted (f r) db db2"
proof -
  have "update_rows (\<lambda>q. task_id q = task_id r) f (provider_task db) = provider_task db"
    using row_inserted_fresh(1) [OF assms(1,2)] by (intro update_rows_none) auto
  then have "update_rows (\<lambda>q. task_id q = task_id r) f (provider_task db @ [r]) = provider_task db @ [f r]"
    by (simp add: update_rows_def)
  with assms(1,4) show ?thesis by (auto simp: row_inserted_def checked_Inr_iff update_task_def)
qed

lemma safe_publishScheduled: "safe_op db (publishScheduled env input db)"
proof (rule keepsI)
  fix y assume run: "publishScheduled env input db = Inr y"
  let ?r = "scheduled_row env input"
  let ?f = "\<lambda>r. r\<lparr>terminal_at := None,
      handle_expires_at := map_option (\<lambda>m. in_acceptedAt input + m) (in_ttlMs input),
      last_confirmed_at := Some (in_acceptedAt input)\<rparr>"
  have tid: "task_id ?r = in_taskId input" by (simp add: scheduled_row_def default_row_def)
  from run obtain db1 db2 db3 db4 where ins: "insert_task ?r db = Inr db1"
      "materializeTaskResourceBinding input db1 = Inr db2"
    and ret: "initializeTaskRetention (in_taskId input) SCHEDULED (in_acceptedAt input) (in_ttlMs input) db2 = Inr db3"
    and obs: "checked (db3\<lparr>task_observation := task_observation db3 @ [scheduled_observation input]\<rparr>) = Inr db4"
    and rest: "(case find_task (in_taskId input) (published env (in_taskId input) (insertOutbox env (in_taskId input)
        ''task.created'' [(''status'', JStr ''working''), (''substate'', JStr ''scheduled'')]
        [in_taskId input, ''created''] db4)) of
        None \<Rightarrow> Inl (Error ''SCHEDULED_TASK_NOT_VISIBLE_AFTER_COMMIT'')
      | Some r \<Rightarrow> Inr (r, published env (in_taskId input) (insertOutbox env (in_taskId input)
        ''task.created'' [(''status'', JStr ''working''), (''substate'', JStr ''scheduled'')]
        [in_taskId input, ''created''] db4))) = Inr y"
    unfolding publishScheduled_def Let_def by (blast elim: bind_err_InrE)
  have "safe_rel db db4"
  proof (cases "db_inv db")
    case True
    have "checked (update_task (task_id ?r) ?f db2) = Inr db3"
      using ret unfolding initializeTaskRetention_def tid by (cases "in_ttlMs input") simp_all
    from update_inserted [OF insert_and_bind [OF ins] True _ this]
    have r: "row_inserted (?f ?r) db db3" by simp
    show ?thesis
      using obs r by (intro safe_publish [of _ _ "?f ?r" "scheduled_observation input"])
        (auto simp: row_inserted_def checked_Inr_iff scheduled_row_def default_row_def row_ok_def
          state_status_ok_def scheduled_observation_def)
  qed (simp add: safe_rel_def)
  also have "safe_rel db4 (snd y)"
    by (rule keepsD [OF safe.keeps_after [OF safe_insertOutbox
          safe.keeps_after [OF safe_published safe_found]] rest])
  finally show "safe_rel db (snd y)" .
qed

end
