(* ===== verification/Store_Schedule.thy ===== *)
theory Store_Schedule
  imports Store_Admission
begin

text \<open>
  Scheduled starts, start confirmation and deadlines (\<^verbatim>\<open>tasks.ts\<close>, the part of
  \<^verbatim>\<open>TaskRepository\<close> used by the scheduler and the start watchdog).  A worker claims due rows for a
  lease and acts on a claimed row only while its claim stands; \<^verbatim>\<open>FOR UPDATE SKIP LOCKED\<close> is the
  parameter \<open>avail\<close>, the tasks no other transaction holds locked.
\<close>

section \<open>Transitions\<close>

definition transition_update :: "SnapshotTransition \<Rightarrow> TaskTransitionUpdate" where
  "transition_update t = no_update
     \<lparr>up_internalState := Some (tn_internalState t), up_mcpStatus := Some (tn_mcpStatus t),
      up_substate := Some (tn_substate t), up_statusMessage := Some (Some (tn_statusMessage t)),
      up_result := Some (tn_result t), up_error := Some (tn_error t)\<rparr>"

definition runtime_observation ::
  "string \<Rightarrow> instant \<Rightarrow> string \<Rightarrow> string option \<Rightarrow> string option \<Rightarrow> json_object \<Rightarrow> TransitionObservation" where
  "runtime_observation ty at reason message sub payload =
     \<lparr>to_type = ty, to_occurredAt = at, to_reasonCode = Some reason, to_message = message,
      to_substate = sub, to_progress = None, to_adapter = False, to_adapterRevision = None,
      to_payload = payload\<rparr>"

definition adapter_observation ::
  "string \<Rightarrow> instant \<Rightarrow> string option \<Rightarrow> SnapshotTransition \<Rightarrow> int \<Rightarrow> TransitionObservation" where
  "adapter_observation ty at reason t revision =
     \<lparr>to_type = ty, to_occurredAt = at, to_reasonCode = reason, to_message = Some (tn_statusMessage t),
      to_substate = tn_substate t, to_progress = None, to_adapter = True,
      to_adapterRevision = Some revision, to_payload = []\<rparr>"

definition startWindowMissedResult :: "instant \<Rightarrow> json_object" where
  "startWindowMissedResult completedAt =
     [(''content'', JArr [JObj [(''type'', JStr ''text''),
         (''text'', JStr ''Start window was missed before execution began.'')]]),
      (''isError'', JBool True),
      (''structuredContent'', JObj [(''outcome'', JStr ''start_window_missed''),
         (''reasonCode'', JStr ''START_WINDOW_MISSED''), (''retryable'', JBool True),
         (''completedAt'', JStr (toISOString completedAt))])]"

definition startWindowMissedTransition :: "instant \<Rightarrow> SnapshotTransition" where
  "startWindowMissedTransition completedAt =
     \<lparr>tn_internalState = TERMINAL_COMPLETED, tn_mcpStatus = completed, tn_substate = None,
      tn_statusMessage = ''Start window was missed before execution began.'',
      tn_result = Some (startWindowMissedResult completedAt), tn_error = None, tn_terminal = True,
      tn_observationType = ''task.start_window_missed''\<rparr>"

definition admissionRejectedResult :: "instant \<Rightarrow> string \<Rightarrow> string \<Rightarrow> bool \<Rightarrow> json_object" where
  "admissionRejectedResult completedAt reasonCode message retryable =
     [(''content'', JArr [JObj [(''type'', JStr ''text''), (''text'', JStr message)]]),
      (''isError'', JBool True),
      (''structuredContent'', JObj [(''outcome'', JStr ''admission_rejected''),
         (''reasonCode'', JStr reasonCode), (''retryable'', JBool retryable),
         (''completedAt'', JStr (toISOString completedAt))])]"

definition transitionHasStarted :: "SnapshotTransition \<Rightarrow> bool" where
  "transitionHasStarted t =
     (tn_internalState t \<in> {RUNNING, PAUSED, RESUMING, TERMINAL_COMPLETED, TERMINAL_FAILED})"

section \<open>Scheduled starts\<close>

definition start_attempt_request :: "instant \<Rightarrow> string \<Rightarrow> int \<Rightarrow> task_row \<Rightarrow> TaskTransitionRequest" where
  "start_attempt_request at owner lease row =
     (let attempt = invocation_attempt row + 1 in
      \<lparr>tq_taskId = task_id row, tq_expectedVersion = Some (version row),
       tq_update = no_update
         \<lparr>up_internalState := Some STARTING,
          up_statusMessage := Some (Some ''Claimed for scheduled start.''),
          up_scheduleClaimOwner := Some (Some owner), up_scheduleClaimUntil := Some (Some (at + lease)),
          up_invocationAttempt := Some attempt, up_nextStartAttemptAt := Some None\<rparr>,
       tq_observation = runtime_observation ''task.start_attempt'' at ''START_ATTEMPT_CLAIMED''
         (Some ''Claimed for scheduled start.'') (substate row) [(''invocationAttempt'', JNum (int attempt))],
       tq_outboxType = ''task.start_attempt'',
       tq_eventKey = [task_id row, ''start-attempt'', show_nat attempt],
       tq_outboxPayload = [(''invocationAttempt'', JNum (int attempt))]\<rparr>)"

text \<open>The loops transition each selected row and collect the rows after it.\<close>

definition transition_each :: "(task_row \<Rightarrow> TaskTransitionRequest) \<Rightarrow> task_row list \<Rightarrow> db \<Rightarrow> err + (task_row list \<times> db)" where
  "transition_each request rows db =
     collect_err (\<lambda>row db. bind_err (transitionTask (request row) db) (\<lambda>((r, _), db). Inr (r, db))) rows db"

definition due_scheduled :: "instant \<Rightarrow> task_row \<Rightarrow> bool" where
  "due_scheduled at r =
     (external_execution_id r = None \<and> internal_state r = SCHEDULED \<and> sql_le (not_before r) at \<and>
      sql_le (coalesce (next_start_attempt_at r) (not_before r)) at \<and> sql_gt (latest_start_at r) at)"

definition claimDueScheduled ::
  "(string \<Rightarrow> bool) \<Rightarrow> instant \<Rightarrow> string \<Rightarrow> int \<Rightarrow> nat \<Rightarrow> db \<Rightarrow> err + (task_row list \<times> db)" where
  "claimDueScheduled avail at owner lease limit db =
     transition_each (start_attempt_request at owner lease)
       (order_limit (\<lambda>r. (coalesce (next_start_attempt_at r) (not_before r), task_id r)) limit
         (filter (\<lambda>r. avail (task_id r) \<and> due_scheduled at r) (provider_task db))) db"

definition start_window_missed_request :: "instant \<Rightarrow> nat option \<Rightarrow> string \<Rightarrow> TaskTransitionRequest" where
  "start_window_missed_request at expected t =
     (let transition = startWindowMissedTransition at in
      \<lparr>tq_taskId = t, tq_expectedVersion = expected,
       tq_update = (transition_update transition)
         \<lparr>up_scheduleClaimOwner := Some None, up_scheduleClaimUntil := Some None,
          up_nextStartAttemptAt := Some None\<rparr>,
       tq_observation = runtime_observation ''task.completed'' at ''START_WINDOW_MISSED''
         (Some (tn_statusMessage transition)) None [],
       tq_outboxType = ''task.completed'', tq_eventKey = [t, ''start-window-missed''],
       tq_outboxPayload = [(''reasonCode'', JStr ''START_WINDOW_MISSED''), (''safeStopRequired'', JBool False)]\<rparr>)"

definition completeDueStartWindowMisses ::
  "(string \<Rightarrow> bool) \<Rightarrow> instant \<Rightarrow> nat \<Rightarrow> db \<Rightarrow> err + (nat \<times> db)" where
  "completeDueStartWindowMisses avail at limit db =
     (let due = order_limit (\<lambda>r. (latest_start_at r, task_id r)) limit
            (filter (\<lambda>r. avail (task_id r) \<and> internal_state r = SCHEDULED \<and>
               external_execution_id r = None \<and> sql_le (latest_start_at r) at) (provider_task db))
      in bind_err (transition_each (\<lambda>r. start_window_missed_request at None (task_id r)) due db)
           (\<lambda>(_, db). Inr (length due, db)))"

definition start_reconcile_request :: "instant \<Rightarrow> string \<Rightarrow> int \<Rightarrow> task_row \<Rightarrow> TaskTransitionRequest" where
  "start_reconcile_request at owner lease row =
     \<lparr>tq_taskId = task_id row, tq_expectedVersion = Some (version row),
      tq_update = no_update
        \<lparr>up_scheduleClaimOwner := Some (Some owner), up_scheduleClaimUntil := Some (Some (at + lease)),
         up_statusMessage := Some (Some ''Reconciling an uncertain scheduled start.'')\<rparr>,
      tq_observation = runtime_observation ''task.recovery'' at ''START_RECONCILE_CLAIMED''
        (Some ''Reconciling an uncertain scheduled start.'') (substate row)
        [(''invocationAttempt'', JNum (int (invocation_attempt row)))],
      tq_outboxType = ''task.recovery'',
      tq_eventKey = [task_id row, ''start-reconcile'', show_nat (invocation_attempt row),
        (case schedule_claim_until row of None \<Rightarrow> ''none'' | Some t \<Rightarrow> toISOString t)],
      tq_outboxPayload = []\<rparr>"

definition claimExpiredScheduledStarts ::
  "(string \<Rightarrow> bool) \<Rightarrow> instant \<Rightarrow> string \<Rightarrow> int \<Rightarrow> nat \<Rightarrow> db \<Rightarrow> err + (task_row list \<times> db)" where
  "claimExpiredScheduledStarts avail at owner lease limit db =
     transition_each (start_reconcile_request at owner lease)
       (order_limit (\<lambda>r. (schedule_claim_until r, task_id r)) limit
         (filter (\<lambda>r. avail (task_id r) \<and> external_execution_id r = None \<and> internal_state r = STARTING \<and>
            sql_le (schedule_claim_until r) at) (provider_task db))) db"

text \<open>The row a worker holds the claim of.\<close>

definition claimed_by :: "string \<Rightarrow> InternalTaskState \<Rightarrow> string \<Rightarrow> task_row \<Rightarrow> bool" where
  "claimed_by t st owner r = (task_id r = t \<and> internal_state r = st \<and> schedule_claim_owner r = Some owner)"

definition find_claimed :: "string \<Rightarrow> InternalTaskState \<Rightarrow> string \<Rightarrow> db \<Rightarrow> task_row option" where
  "find_claimed t st owner db = first_row (claimed_by t st owner) (provider_task db)"

text \<open>\<^verbatim>\<open>UPDATE ... WHERE task_id, internal_state and schedule_claim_owner match\<close>, with the error when
  no row did.\<close>

definition update_claimed ::
  "string \<Rightarrow> string \<Rightarrow> InternalTaskState \<Rightarrow> string \<Rightarrow> (task_row \<Rightarrow> task_row) \<Rightarrow> db \<Rightarrow> err + (unit \<times> db)" where
  "update_claimed lost t st owner f db =
     (if row_count (claimed_by t st owner) (provider_task db) \<noteq> 1 then Inl (Error lost)
      else bind_err (checked (db\<lparr>provider_task := update_rows (claimed_by t st owner) f (provider_task db)\<rparr>))
        (\<lambda>db. Inr ((), db)))"

definition renewScheduleClaim :: "runtime_env \<Rightarrow> string \<Rightarrow> string \<Rightarrow> int \<Rightarrow> db \<Rightarrow> err + (unit \<times> db)" where
  "renewScheduleClaim env t owner lease db =
     update_claimed ''SCHEDULED_TASK_CLAIM_LOST'' t STARTING owner
       (\<lambda>r. r\<lparr>schedule_claim_until := Some (clk env + lease), updated_at := clk env\<rparr>) db"

definition accept_scheduled_request ::
  "runtime_env \<Rightarrow> task_row \<Rightarrow> string \<Rightarrow> int \<Rightarrow> SnapshotTransition \<Rightarrow> instant option \<Rightarrow> TaskTransitionRequest" where
  "accept_scheduled_request env row externalId revision transition startedAt =
     \<lparr>tq_taskId = task_id row, tq_expectedVersion = Some (version row),
      tq_update = (transition_update transition)
        \<lparr>up_externalExecutionId := Some (Some externalId), up_adapterRevision := Some revision,
         up_actualStartedAt := Some (coalesce (actual_started_at row) startedAt),
         up_scheduleClaimOwner := Some None, up_scheduleClaimUntil := Some None\<rparr>,
      tq_observation = adapter_observation (stableObservationType transition) (now env)
        (reasonCodeFromTransition transition) transition revision,
      tq_outboxType = stableObservationType transition,
      tq_eventKey = [task_id row, ''adapter'', show_int revision],
      tq_outboxPayload = [(''invocationAttempt'', JNum (int (invocation_attempt row)))]\<rparr>"

definition acceptScheduled ::
  "runtime_env \<Rightarrow> string \<Rightarrow> string \<Rightarrow> string \<Rightarrow> int \<Rightarrow> SnapshotTransition \<Rightarrow> json
   \<Rightarrow> NewInputRequest list \<Rightarrow> instant option \<Rightarrow> instant option \<Rightarrow> db \<Rightarrow> err + (task_row \<times> db)" where
  "acceptScheduled env t owner externalId revision transition response inputs windowMissedAt startedAt db =
     (case find_claimed t STARTING owner db of
        None \<Rightarrow> Inl (Error ''SCHEDULED_TASK_CLAIM_LOST'')
      | Some row \<Rightarrow>
          bind_err (transitionTask (accept_scheduled_request env row externalId revision transition startedAt) db) (\<lambda>(_, db).
          bind_err (case windowMissedAt of None \<Rightarrow> Inr db | Some at \<Rightarrow> persistStartWindowStop env t at db) (\<lambda>db.
          bind_err (upsertInputRequests t inputs db) (\<lambda>db.
          let db = update_admission t (\<lambda>_. True) (\<lambda>a. a\<lparr>ad_state := ADM_PUBLISHED,
                ad_adapter_response := Some response, ad_updated_at := clk env\<rparr>) db
          in case find_task t db of
               None \<Rightarrow> Inl (Error ''SCHEDULED_TASK_NOT_VISIBLE_AFTER_COMMIT'')
             | Some r \<Rightarrow> Inr (r, db)))))"

definition start_retry_request :: "runtime_env \<Rightarrow> task_row \<Rightarrow> instant \<Rightarrow> string \<Rightarrow> TaskTransitionRequest" where
  "start_retry_request env row nextAttemptAt message =
     \<lparr>tq_taskId = task_id row, tq_expectedVersion = Some (version row),
      tq_update = no_update
        \<lparr>up_internalState := Some SCHEDULED, up_substate := Some (Some ''scheduled''),
         up_statusMessage := Some (Some message), up_scheduleClaimOwner := Some None,
         up_scheduleClaimUntil := Some None, up_nextStartAttemptAt := Some (Some nextAttemptAt)\<rparr>,
      tq_observation = runtime_observation ''task.start_retry'' (now env) ''START_RETRY_SCHEDULED''
        (Some message) (Some ''scheduled'')
        [(''invocationAttempt'', JNum (int (invocation_attempt row))),
         (''nextStartAttemptAt'', JStr (toISOString nextAttemptAt))],
      tq_outboxType = ''task.start_retry'',
      tq_eventKey = [task_id row, ''start-retry'', show_nat (invocation_attempt row)],
      tq_outboxPayload = [(''nextStartAttemptAt'', JStr (toISOString nextAttemptAt))]\<rparr>"

definition releaseScheduleRetry ::
  "runtime_env \<Rightarrow> string \<Rightarrow> string \<Rightarrow> instant \<Rightarrow> string \<Rightarrow> db \<Rightarrow> err + (unit \<times> db)" where
  "releaseScheduleRetry env t owner nextAttemptAt message db =
     (case find_claimed t STARTING owner db of
        None \<Rightarrow> Inl (Error ''SCHEDULED_TASK_CLAIM_LOST'')
      | Some row \<Rightarrow> bind_err (transitionTask (start_retry_request env row nextAttemptAt message) db)
          (\<lambda>(_, db). Inr ((), db)))"

definition start_uncertain_request :: "runtime_env \<Rightarrow> task_row \<Rightarrow> instant \<Rightarrow> string \<Rightarrow> TaskTransitionRequest" where
  "start_uncertain_request env row reconcileAt message =
     \<lparr>tq_taskId = task_id row, tq_expectedVersion = Some (version row),
      tq_update = no_update
        \<lparr>up_statusMessage := Some (Some message), up_scheduleClaimOwner := Some None,
         up_scheduleClaimUntil := Some (Some reconcileAt)\<rparr>,
      tq_observation = runtime_observation ''task.start_uncertain'' (now env) ''START_RESPONSE_UNCERTAIN''
        (Some message) (substate row)
        [(''invocationAttempt'', JNum (int (invocation_attempt row))),
         (''reconcileAt'', JStr (toISOString reconcileAt))],
      tq_outboxType = ''task.start_uncertain'',
      tq_eventKey = [task_id row, ''start-uncertain'', show_nat (invocation_attempt row), toISOString reconcileAt],
      tq_outboxPayload = []\<rparr>"

definition markScheduleResponseUncertain ::
  "runtime_env \<Rightarrow> string \<Rightarrow> string \<Rightarrow> instant \<Rightarrow> string \<Rightarrow> db \<Rightarrow> err + (unit \<times> db)" where
  "markScheduleResponseUncertain env t owner reconcileAt message db =
     (case find_claimed t STARTING owner db of
        None \<Rightarrow> Inl (Error ''SCHEDULED_TASK_CLAIM_LOST'')
      | Some row \<Rightarrow> bind_err (transitionTask (start_uncertain_request env row reconcileAt message) db)
          (\<lambda>(_, db). Inr ((), db)))"

definition deferScheduleReconcile ::
  "runtime_env \<Rightarrow> string \<Rightarrow> string \<Rightarrow> instant \<Rightarrow> string \<Rightarrow> db \<Rightarrow> err + (unit \<times> db)" where
  "deferScheduleReconcile env t owner reconcileAt message db =
     markScheduleResponseUncertain env t owner reconcileAt message db"

definition completeStartWindowMissed :: "string \<Rightarrow> instant \<Rightarrow> string \<Rightarrow> db \<Rightarrow> err + (task_row \<times> db)" where
  "completeStartWindowMissed t completedAt owner db =
     (case first_row (\<lambda>r. claimed_by t STARTING owner r \<and> external_execution_id r = None) (provider_task db) of
        None \<Rightarrow> Inl (Error ''SCHEDULED_TASK_NOT_COMPLETED'')
      | Some row \<Rightarrow>
          bind_err (transitionTask (start_window_missed_request completedAt (Some (version row)) t) db)
            (\<lambda>((r, _), db). Inr (r, db)))"

definition admissionRejectedTransition :: "instant \<Rightarrow> string \<Rightarrow> string \<Rightarrow> bool \<Rightarrow> SnapshotTransition" where
  "admissionRejectedTransition completedAt reasonCode message retryable =
     \<lparr>tn_internalState = TERMINAL_COMPLETED, tn_mcpStatus = completed, tn_substate = None,
      tn_statusMessage = message,
      tn_result = Some (admissionRejectedResult completedAt reasonCode message retryable),
      tn_error = None, tn_terminal = True, tn_observationType = ''task.admission_rejected''\<rparr>"

definition scheduled_rejection_request ::
  "task_row \<Rightarrow> instant \<Rightarrow> string \<Rightarrow> string \<Rightarrow> bool \<Rightarrow> TaskTransitionRequest" where
  "scheduled_rejection_request row completedAt reasonCode message retryable =
     \<lparr>tq_taskId = task_id row, tq_expectedVersion = Some (version row),
      tq_update = (transition_update (admissionRejectedTransition completedAt reasonCode message retryable))
        \<lparr>up_scheduleClaimOwner := Some None, up_scheduleClaimUntil := Some None,
         up_nextStartAttemptAt := Some None\<rparr>,
      tq_observation = runtime_observation ''task.completed'' completedAt reasonCode (Some message) None [],
      tq_outboxType = ''task.completed'',
      tq_eventKey = [task_id row, ''admission-rejected'', show_nat (invocation_attempt row)],
      tq_outboxPayload = [(''reasonCode'', JStr reasonCode), (''retryable'', JBool retryable),
        (''outcome'', JStr ''admission_rejected'')]\<rparr>"

definition completeScheduledRejection ::
  "string \<Rightarrow> string \<Rightarrow> instant \<Rightarrow> string \<Rightarrow> string \<Rightarrow> bool \<Rightarrow> db \<Rightarrow> err + (task_row \<times> db)" where
  "completeScheduledRejection t owner completedAt reasonCode message retryable db =
     (case find_claimed t STARTING owner db of
        None \<Rightarrow> Inl (Error ''SCHEDULED_REJECTION_NOT_COMPLETED'')
      | Some row \<Rightarrow>
          bind_err (transitionTask (scheduled_rejection_request row completedAt reasonCode message retryable) db)
            (\<lambda>((r, _), db). Inr (r, db)))"

definition requestStartWindowStop :: "runtime_env \<Rightarrow> string \<Rightarrow> instant \<Rightarrow> db \<Rightarrow> err + (task_row \<times> db)" where
  "requestStartWindowStop env t requestedAt db =
     (case find_task t db of
        None \<Rightarrow> Inl (Error ''TASK_NOT_FOUND'')
      | Some row \<Rightarrow>
          if isTerminalState (internal_state row) then Inr (row, db)
          else if external_execution_id row = None then Inl (Error ''START_WINDOW_STOP_WITHOUT_EXECUTION'')
          else bind_err (persistStartWindowStop env t requestedAt db) (\<lambda>db.
            case find_task t db of None \<Rightarrow> Inl (Error ''TASK_NOT_FOUND'') | Some r \<Rightarrow> Inr (r, db)))"

section \<open>Start confirmation\<close>

definition due_confirmation :: "instant \<Rightarrow> task_row \<Rightarrow> bool" where
  "due_confirmation at r =
     (\<not> isTerminalState (internal_state r) \<and> actual_started_at r = None \<and>
      sql_le (coalesce (start_confirmation_deadline r) (latest_start_at r)) at \<and>
      external_execution_id r \<noteq> None \<and> row_stop_reason r = None \<and>
      (schedule_claim_owner r = None \<or> sql_le (schedule_claim_until r) at))"

definition start_confirmation_request :: "instant \<Rightarrow> string \<Rightarrow> int \<Rightarrow> task_row \<Rightarrow> TaskTransitionRequest" where
  "start_confirmation_request at owner lease row =
     (let attempt = start_confirmation_attempts row + 1 in
      \<lparr>tq_taskId = task_id row, tq_expectedVersion = Some (version row),
       tq_update = no_update
         \<lparr>up_internalState := Some WAITING_START_CONFIRMATION, up_mcpStatus := Some working,
          up_statusMessage := Some (Some ''Reconciling bound execution start confirmation.''),
          up_startConfirmationDeadline := Some (coalesce (start_confirmation_deadline row) (latest_start_at row)),
          up_startConfirmationAttempts := Some attempt,
          up_scheduleClaimOwner := Some (Some owner), up_scheduleClaimUntil := Some (Some (at + lease))\<rparr>,
       tq_observation = runtime_observation ''task.start_confirmation'' at ''START_CONFIRMATION_CLAIMED''
         (Some ''Reconciling bound execution start confirmation.'') (substate row)
         [(''attempt'', JNum (int attempt))],
       tq_outboxType = ''task.start_confirmation'',
       tq_eventKey = [task_id row, ''start-confirmation'', show_nat attempt],
       tq_outboxPayload = [(''attempt'', JNum (int attempt))]\<rparr>)"

definition claimBoundStartConfirmations ::
  "(string \<Rightarrow> bool) \<Rightarrow> instant \<Rightarrow> string \<Rightarrow> nat \<Rightarrow> int \<Rightarrow> db \<Rightarrow> err + (task_row list \<times> db)" where
  "claimBoundStartConfirmations avail at owner limit lease db =
     transition_each (start_confirmation_request at owner lease)
       (order_limit (\<lambda>r. (coalesce (start_confirmation_deadline r) (latest_start_at r), task_id r)) limit
         (filter (\<lambda>r. avail (task_id r) \<and> due_confirmation at r) (provider_task db))) db"

definition renewStartConfirmationClaim :: "runtime_env \<Rightarrow> string \<Rightarrow> string \<Rightarrow> int \<Rightarrow> db \<Rightarrow> err + (unit \<times> db)" where
  "renewStartConfirmationClaim env t owner lease db =
     update_claimed ''START_CONFIRMATION_CLAIM_LOST'' t WAITING_START_CONFIRMATION owner
       (\<lambda>r. r\<lparr>schedule_claim_until := Some (clk env + lease), updated_at := clk env\<rparr>) db"

definition deferStartConfirmation ::
  "runtime_env \<Rightarrow> string \<Rightarrow> string \<Rightarrow> instant \<Rightarrow> string \<Rightarrow> db \<Rightarrow> err + (unit \<times> db)" where
  "deferStartConfirmation env t owner retryAt message db =
     update_claimed ''START_CONFIRMATION_CLAIM_LOST'' t WAITING_START_CONFIRMATION owner
       (\<lambda>r. r\<lparr>schedule_claim_owner := None, schedule_claim_until := Some retryAt,
          status_message := Some message, updated_at := clk env, runtime_updated_at := clk env,
          runtime_revision := runtime_revision r + 1\<rparr>) db"

definition start_confirmed_request ::
  "task_row \<Rightarrow> int \<Rightarrow> SnapshotTransition \<Rightarrow> instant \<Rightarrow> TaskTransitionRequest" where
  "start_confirmed_request row revision transition confirmedAt =
     \<lparr>tq_taskId = task_id row, tq_expectedVersion = Some (version row),
      tq_update = (transition_update transition)
        \<lparr>up_adapterRevision := Some (max revision (adapter_revision row)),
         up_actualStartedAt := Some (Some confirmedAt),
         up_scheduleClaimOwner := Some None, up_scheduleClaimUntil := Some None\<rparr>,
      tq_observation = adapter_observation ''task.started'' confirmedAt (Some ''START_CONFIRMED'') transition revision,
      tq_outboxType = ''task.started'',
      tq_eventKey = [task_id row, ''start-confirmed'', show_int revision],
      tq_outboxPayload = []\<rparr>"

definition confirmBoundExecutionStarted ::
  "string \<Rightarrow> string \<Rightarrow> int \<Rightarrow> SnapshotTransition \<Rightarrow> instant \<Rightarrow> db \<Rightarrow> err + (task_row \<times> db)" where
  "confirmBoundExecutionStarted t owner revision transition confirmedAt db =
     (case find_claimed t WAITING_START_CONFIRMATION owner db of
        None \<Rightarrow> Inl (Error ''START_CONFIRMATION_CLAIM_LOST'')
      | Some row \<Rightarrow>
          bind_err (transitionTask (start_confirmed_request row revision transition confirmedAt) db)
            (\<lambda>((r, _), db). Inr (r, db)))"

definition stopUnconfirmedBoundExecution ::
  "runtime_env \<Rightarrow> string \<Rightarrow> string \<Rightarrow> instant \<Rightarrow> db \<Rightarrow> err + (task_row \<times> db)" where
  "stopUnconfirmedBoundExecution env t owner requestedAt db =
     (case find_claimed t WAITING_START_CONFIRMATION owner db of
        None \<Rightarrow> Inl (Error ''START_CONFIRMATION_CLAIM_LOST'')
      | Some _ \<Rightarrow>
          bind_err (persistStartWindowStop env t requestedAt db) (\<lambda>db.
            case find_task t db of None \<Rightarrow> Inl (Error ''TASK_NOT_FOUND'') | Some r \<Rightarrow> Inr (r, db)))"

section \<open>Deadlines\<close>

definition raise_stop_to_deadline :: "runtime_env \<Rightarrow> command_row \<Rightarrow> command_row" where
  "raise_stop_to_deadline env c =
     c\<lparr>cmd_stop_reason := Some DEADLINE_REACHED, cmd_priority := 100,
       cmd_payload := [(''reason'', JStr ''DEADLINE_REACHED'')], cmd_updated_at := clk env\<rparr>"

definition deadline_stop_request :: "task_row \<Rightarrow> nat \<Rightarrow> instant \<Rightarrow> TaskTransitionRequest" where
  "deadline_stop_request row sequence at =
     \<lparr>tq_taskId = task_id row, tq_expectedVersion = Some (version row),
      tq_update = no_update
        \<lparr>up_internalState := Some STOPPING, up_mcpStatus := Some working,
         up_substate := Some (Some ''stopping''),
         up_statusMessage := Some (Some ''Deadline reached; safe stop requested.''),
         up_cancelRequested := Some True, up_stopReason := Some (Some DEADLINE_REACHED)\<rparr>,
      tq_observation = runtime_observation ''task.deadline_stop_requested'' at ''DEADLINE_REACHED''
        (Some ''Deadline reached; safe stop requested.'') (Some ''stopping'')
        [(''commandSequence'', JNum (int sequence))],
      tq_outboxType = ''task.deadline_stop_requested'',
      tq_eventKey = [task_id row, ''command'', show_nat sequence, ''deadline-stop''],
      tq_outboxPayload = [(''reasonCode'', JStr ''DEADLINE_REACHED''), (''commandSequence'', JNum (int sequence))]\<rparr>"

text \<open>One iteration of the loop of \<^verbatim>\<open>claimExpiredDeadlines\<close>.\<close>

definition claim_deadline :: "runtime_env \<Rightarrow> instant \<Rightarrow> task_row \<Rightarrow> db \<Rightarrow> err + ((task_row \<times> nat) \<times> db)" where
  "claim_deadline env at row db =
     (let t = task_id row; active = active_stop_command t db in
      bind_err
        (case active of
           None \<Rightarrow>
             bind_err (take_sequence t db) (\<lambda>(sequence, db).
             bind_err (insert_command (new_stop_command env row sequence DEADLINE_REACHED 100 at) db)
               (\<lambda>db. Inr (sequence, db)))
         | Some c \<Rightarrow>
             bind_err (checked (update_commands (is_command t (cmd_sequence c)) (raise_stop_to_deadline env) db))
               (\<lambda>db. Inr (cmd_sequence c, db))) (\<lambda>(sequence, db).
      bind_err (transitionTask (deadline_stop_request row sequence at) db) (\<lambda>((r, _), db).
      let db = (if active = None then
            insertCommandFact env t
              \<lparr>cf_sequence = sequence, cf_commandType = CANCEL, cf_state = PENDING, cf_attemptCount = Some 0\<rparr>
              ''task.command.created''
              (no_extra\<lparr>fx_reasonCode := Some ''DEADLINE_REACHED'', fx_adapterRpcStatus := Some ''not_started''\<rparr>) db
          else db)
      in Inr ((r, sequence), db))))"

definition due_deadline :: "instant \<Rightarrow> task_row \<Rightarrow> bool" where
  "due_deadline at r =
     (sql_le (in_deadlineAt (spec r)) at \<and> row_stop_reason r \<noteq> Some DEADLINE_REACHED \<and>
      external_execution_id r \<noteq> None \<and> \<not> isTerminalState (internal_state r))"

definition claimExpiredDeadlines ::
  "runtime_env \<Rightarrow> (string \<Rightarrow> bool) \<Rightarrow> instant \<Rightarrow> nat \<Rightarrow> db \<Rightarrow> err + ((task_row \<times> nat) list \<times> db)" where
  "claimExpiredDeadlines env avail at limit db =
     collect_err (claim_deadline env at)
       (order_limit (\<lambda>r. (in_deadlineAt (spec r), task_id r)) limit
         (filter (\<lambda>r. avail (task_id r) \<and> due_deadline at r) (provider_task db))) db"

section \<open>The operations respect the store invariant\<close>

lemma find_task_mem: "db_inv db \<Longrightarrow> r \<in> set (provider_task db) \<Longrightarrow> find_task (task_id r) db = Some r"
  unfolding find_task_def db_inv_def by (intro first_row_unique schema_okD) auto

lemma find_claimed_SomeD:
  "find_claimed t st owner db = Some r \<Longrightarrow>
     r \<in> set (provider_task db) \<and> task_id r = t \<and> internal_state r = st \<and> schedule_claim_owner r = Some owner"
  unfolding find_claimed_def claimed_by_def by (drule first_row_SomeD) simp

text \<open>A transition leaves the rows of other tasks alone.\<close>

lemma transitionTask_other:
  assumes "transitionTask q db = Inr ((row, ap), db')" "t \<noteq> tq_taskId q"
  shows "find_task t db' = find_task t db"
  using assms(1)
proof (cases rule: transitionTask_InrE)
  case skipped
  then show ?thesis by simp
next
  case (applied existing)
  have "task_id row = tq_taskId q" using applied(1,4) find_task_SomeD by simp
  with assms(2) have "(\<lambda>r. task_id (if task_id r = tq_taskId q then row else r) = t) = (\<lambda>r. task_id r = t)"
    by auto
  then have "first_row (\<lambda>r. task_id r = t) (update_rows (\<lambda>r. task_id r = tq_taskId q) (\<lambda>_. row) rows) =
      map_option (\<lambda>r. if task_id r = tq_taskId q then row else r) (first_row (\<lambda>r. task_id r = t) rows)" for rows
    using assms(2) \<open>task_id row = tq_taskId q\<close> by (intro first_row_update_rows) auto
  moreover have "map_option (\<lambda>r. if task_id r = tq_taskId q then row else r) (first_row (\<lambda>r. task_id r = t) rows)
      = first_row (\<lambda>r. task_id r = t) rows" for rows
    using assms(2) by (cases "first_row (\<lambda>r. task_id r = t) rows") (auto dest: first_row_SomeD)
  ultimately show ?thesis using applied(5) by (simp add: find_task_def transition_applied_def)
qed

lemma safe_transition_row:
  assumes "find_task (tq_taskId q) db = Some row" "row_ok row \<Longrightarrow> \<not> isTerminalState (internal_state row) \<Longrightarrow> update_ok (tq_update q) row"
  shows "safe_op db (transitionTask q db)"
  using assms by (intro safe_transitionTask) auto

lemma safe_transition_each:
  assumes "distinct (map task_id rows)"
    and "\<And>row. row \<in> set rows \<Longrightarrow> find_task (task_id row) db = Some row \<and> tq_taskId (request row) = task_id row \<and>
      (row_ok row \<longrightarrow> \<not> isTerminalState (internal_state row) \<longrightarrow> update_ok (tq_update (request row)) row)"
  shows "safe_op db (transition_each request rows db)"
  using assms unfolding transition_each_def
proof (induction rows arbitrary: db)
  case Nil
  then show ?case by (simp add: safe.effect_refl)
next
  case (Cons row rows)
  let ?f = "\<lambda>row db. bind_err (transitionTask (request row) db) (\<lambda>((r, _), db). Inr (r, db))"
  have first: "safe_op db (?f row db)"
    by (rule safe.keeps_bind [OF safe_transition_row [of _ _ row]]) (use Cons.prems(2) in \<open>auto simp: safe.effect_refl\<close>)
  have rest: "safe_op db' (bind_err (collect_err ?f rows db') (\<lambda>(ys, s). Inr (y # ys, s)))"
    if run: "?f row db = Inr (y, db')" for y db'
  proof (rule safe.keeps_bind [OF Cons.IH])
    from run obtain ap where tr: "transitionTask (request row) db = Inr ((y, ap), db')"
      by (auto simp: bind_err_Inr_iff)
    show "find_task (task_id r) db' = Some r \<and> tq_taskId (request r) = task_id r \<and>
      (row_ok r \<longrightarrow> \<not> isTerminalState (internal_state r) \<longrightarrow> update_ok (tq_update (request r)) r)"
      if "r \<in> set rows" for r
    proof -
      have "task_id r \<noteq> task_id row" using Cons.prems(1) that by (metis (no_types, lifting) distinct.simps(2) image_eqI list.map(2) list.set_map)
      then have "find_task (task_id r) db' = find_task (task_id r) db"
        using transitionTask_other [OF tr] Cons.prems(2) by simp
      with Cons.prems(2) [of r] that show ?thesis by simp
    qed
  qed (use Cons.prems(1) in \<open>auto simp: safe.effect_refl\<close>)
  show ?case unfolding collect_err.simps
    by (rule safe.keeps_bind [OF first]) (auto intro: rest)
qed

text \<open>The rows a claim query selects are current.\<close>

lemma selected_rows:
  assumes "db_inv db"
  shows "distinct (map task_id (order_limit key n (filter P (provider_task db))))"
    and "r \<in> set (order_limit key n (filter P (provider_task db))) \<Longrightarrow>
      r \<in> set (provider_task db) \<and> P r \<and> find_task (task_id r) db = Some r"
proof -
  have "distinct (map task_id (provider_task db))" using assms by (simp add: db_inv_def schema_okD)
  then show "distinct (map task_id (order_limit key n (filter P (provider_task db))))"
    by (intro distinct_order_limit) (simp add: distinct_map_filter)
  show "r \<in> set (order_limit key n (filter P (provider_task db))) \<Longrightarrow>
      r \<in> set (provider_task db) \<and> P r \<and> find_task (task_id r) db = Some r"
    using set_order_limit [of key n "filter P (provider_task db)"] find_task_mem [OF assms] by auto
qed

lemma safe_claim:
  assumes "\<And>r. P r \<Longrightarrow> tq_taskId (request r) = task_id r"
    and "\<And>r. P r \<Longrightarrow> row_ok r \<Longrightarrow> \<not> isTerminalState (internal_state r) \<Longrightarrow> update_ok (tq_update (request r)) r"
  shows "safe_op db (transition_each request (order_limit key n (filter P (provider_task db))) db)"
proof (rule safe_assume)
  assume inv: "db_inv db"
  show "safe_op db (transition_each request (order_limit key n (filter P (provider_task db))) db)"
  proof (rule safe_transition_each [OF selected_rows(1) [OF inv]])
    fix row assume "row \<in> set (order_limit key n (filter P (provider_task db)))"
    note row = selected_rows(2) [OF inv this]
    with assms [of row] show "find_task (task_id row) db = Some row \<and> tq_taskId (request row) = task_id row \<and>
      (row_ok row \<longrightarrow> \<not> isTerminalState (internal_state row) \<longrightarrow> update_ok (tq_update (request row)) row)"
      by blast
  qed
qed

lemmas update_simps = no_update_def transition_update_def update_ok_def state_status_ok_def row_ok_def Let_def

lemma safe_claimDueScheduled: "safe_op db (claimDueScheduled avail at owner lease limit db)"
  unfolding claimDueScheduled_def
  by (rule safe_claim) (auto simp: start_attempt_request_def due_scheduled_def update_simps)

lemma safe_completeDueStartWindowMisses: "safe_op db (completeDueStartWindowMisses avail at limit db)"
  unfolding completeDueStartWindowMisses_def Let_def
  by (rule safe.keeps_bind [OF safe_claim])
    (auto simp: start_window_missed_request_def startWindowMissedTransition_def update_simps safe.effect_refl)

lemma safe_claimExpiredScheduledStarts: "safe_op db (claimExpiredScheduledStarts avail at owner lease limit db)"
  unfolding claimExpiredScheduledStarts_def
  by (rule safe_claim) (auto simp: start_reconcile_request_def update_simps)

lemma safe_claimBoundStartConfirmations: "safe_op db (claimBoundStartConfirmations avail at owner limit lease db)"
  unfolding claimBoundStartConfirmations_def
  by (rule safe_claim) (auto simp: start_confirmation_request_def update_simps isTerminalState_iff)

lemma soft_claim_update:
  "(\<And>r. soft_update r (f r)) \<Longrightarrow> safe_op db (update_claimed lost t st owner f db)"
  unfolding update_claimed_def
  by (auto intro!: safe.keeps_bind [OF safe_checked [OF safe_soft_rows]] simp: safe.effect_refl)

lemma safe_renewScheduleClaim: "safe_op db (renewScheduleClaim env t owner lease db)"
  unfolding renewScheduleClaim_def by (rule soft_claim_update) (simp add: soft_update_def)

lemma safe_renewStartConfirmationClaim: "safe_op db (renewStartConfirmationClaim env t owner lease db)"
  unfolding renewStartConfirmationClaim_def by (rule soft_claim_update) (simp add: soft_update_def)

lemma safe_deferStartConfirmation: "safe_op db (deferStartConfirmation env t owner at message db)"
  unfolding deferStartConfirmation_def by (rule soft_claim_update) (simp add: soft_update_def)

text \<open>A worker's action on the row it claimed.\<close>

lemma safe_on_claimed:
  assumes "\<And>row. row \<in> set (provider_task db) \<Longrightarrow> task_id row = t \<Longrightarrow> internal_state row = st \<Longrightarrow>
      find_task t db = Some row \<Longrightarrow> db_inv db \<Longrightarrow> safe_op db (act row)"
  shows "safe_op db (case find_claimed t st owner db of None \<Rightarrow> Inl e | Some row \<Rightarrow> act row)"
proof (rule safe_assume)
  assume inv: "db_inv db"
  show "safe_op db (case find_claimed t st owner db of None \<Rightarrow> Inl e | Some row \<Rightarrow> act row)"
  proof (cases "find_claimed t st owner db")
    case None
    then show ?thesis by simp
  next
    case (Some row)
    note row = find_claimed_SomeD [OF Some]
    with assms [of row] find_task_mem [OF inv, of row] inv Some show ?thesis by auto
  qed
qed

lemma safe_one_transition:
  assumes "find_task (tq_taskId q) db = Some row"
    "row_ok row \<Longrightarrow> \<not> isTerminalState (internal_state row) \<Longrightarrow> update_ok (tq_update q) row"
  shows "safe_op db (bind_err (transitionTask q db) (\<lambda>((r, b), db). Inr (g r b, db)))"
  by (rule safe.keeps_bind [OF safe_transition_row [OF assms]]) (auto simp: safe.effect_refl)

lemma safe_quiet_transition:
  assumes "find_task (tq_taskId q) db = Some row"
    "row_ok row \<Longrightarrow> \<not> isTerminalState (internal_state row) \<Longrightarrow> update_ok (tq_update q) row"
  shows "safe_op db (bind_err (transitionTask q db) (\<lambda>(_, db). Inr ((), db)))"
  by (rule safe.keeps_bind [OF safe_transition_row [OF assms]]) (auto simp: safe.effect_refl)

lemma safe_releaseScheduleRetry: "safe_op db (releaseScheduleRetry env t owner at message db)"
  unfolding releaseScheduleRetry_def
  by (rule safe_on_claimed, rule safe_quiet_transition)
    (auto simp: start_retry_request_def update_simps)

lemma safe_markScheduleResponseUncertain: "safe_op db (markScheduleResponseUncertain env t owner at message db)"
  unfolding markScheduleResponseUncertain_def
  by (rule safe_on_claimed, rule safe_quiet_transition)
    (auto simp: start_uncertain_request_def update_simps)

lemma safe_deferScheduleReconcile: "safe_op db (deferScheduleReconcile env t owner at message db)"
  unfolding deferScheduleReconcile_def by (rule safe_markScheduleResponseUncertain)

lemma safe_completeScheduledRejection:
  "safe_op db (completeScheduledRejection t owner at reason message retryable db)"
  unfolding completeScheduledRejection_def
  by (rule safe_on_claimed, rule safe_one_transition)
    (auto simp: scheduled_rejection_request_def admissionRejectedTransition_def update_simps)

lemma safe_completeStartWindowMissed: "safe_op db (completeStartWindowMissed t at owner db)"
  unfolding completeStartWindowMissed_def
  by (auto split: option.splits intro!: safe.keeps_bind [OF safe_transitionTask]
      simp: start_window_missed_request_def startWindowMissedTransition_def update_simps safe.effect_refl)

lemma safe_confirmBoundExecutionStarted:
  assumes "transition_ok transition"
  shows "safe_op db (confirmBoundExecutionStarted t owner revision transition at db)"
  unfolding confirmBoundExecutionStarted_def
  by (rule safe_on_claimed, rule safe_one_transition)
    (use assms in \<open>auto simp: start_confirmed_request_def transition_update_def intro!: update_ok_transition\<close>)

lemma safe_acceptScheduled:
  assumes "transition_ok transition"
  shows "safe_op db (acceptScheduled env t owner ext revision transition response inputs missed started db)"
  unfolding acceptScheduled_def Let_def
proof (rule safe_on_claimed)
  fix row assume "find_task t db = Some row" "task_id row = t"
  then have tr: "safe_op db (transitionTask (accept_scheduled_request env row ext revision transition started) db)"
    using assms by (intro safe_transition_row)
      (auto simp: accept_scheduled_request_def transition_update_def intro!: update_ok_transition)
  have stop: "safe_db db (case missed of None \<Rightarrow> Inr db | Some at \<Rightarrow> persistStartWindowStop env t at db)" for db
    by (auto simp: safe.effect_refl safe_persistStartWindowStop split: option.splits)
  show "safe_op db (bind_err (transitionTask (accept_scheduled_request env row ext revision transition started) db) (\<lambda>(_, db).
      bind_err (case missed of None \<Rightarrow> Inr db | Some at \<Rightarrow> persistStartWindowStop env t at db) (\<lambda>db.
      bind_err (upsertInputRequests t inputs db) (\<lambda>db.
      case find_task t (update_admission t (\<lambda>_. True) (\<lambda>a. a\<lparr>ad_state := ADM_PUBLISHED,
          ad_adapter_response := Some response, ad_updated_at := clk env\<rparr>) db) of
        None \<Rightarrow> Inl (Error ''SCHEDULED_TASK_NOT_VISIBLE_AFTER_COMMIT'')
      | Some r \<Rightarrow> Inr (r, update_admission t (\<lambda>_. True) (\<lambda>a. a\<lparr>ad_state := ADM_PUBLISHED,
          ad_adapter_response := Some response, ad_updated_at := clk env\<rparr>) db)))))"
    by (rule safe.keeps_bind [OF tr], rule safe_pair, rule safe.keeps_bind [OF stop],
        rule safe.keeps_bind [OF safe_upsertInputRequests], rule safe.keeps_after [OF safe_admission safe_found], simp)
qed

lemma safe_stop_and_read:
  "safe_op db (bind_err (persistStartWindowStop env t at db) (\<lambda>db.
     case find_task t db of None \<Rightarrow> Inl e | Some r \<Rightarrow> Inr (r, db)))"
  by (rule safe.keeps_bind [OF safe_persistStartWindowStop safe_found])

lemma safe_requestStartWindowStop: "safe_op db (requestStartWindowStop env t at db)"
  unfolding requestStartWindowStop_def
  by (auto split: option.splits simp: safe.effect_refl intro!: safe_stop_and_read)

lemma safe_stopUnconfirmedBoundExecution: "safe_op db (stopUnconfirmedBoundExecution env t owner at db)"
  unfolding stopUnconfirmedBoundExecution_def
  by (auto split: option.splits intro!: safe_stop_and_read)

lemma command_kept_deadline: "command_kept c (raise_stop_to_deadline env c)"
  by (simp add: command_kept_def raise_stop_to_deadline_def)

lemma safe_claim_deadline:
  assumes "row_ok row" "\<not> isTerminalState (internal_state row)"
  shows "safe_op db (claim_deadline env at row db)"
proof -
  let ?t = "task_id row"
  have select: "safe_op db (case active_stop_command ?t db of
      None \<Rightarrow> bind_err (take_sequence ?t db) (\<lambda>(n, db).
        bind_err (insert_command (new_stop_command env row n DEADLINE_REACHED 100 at) db) (\<lambda>db. Inr (n, db)))
    | Some c \<Rightarrow> bind_err (checked (update_commands (is_command ?t (cmd_sequence c)) (raise_stop_to_deadline env) db))
        (\<lambda>db. Inr (cmd_sequence c, db)))"
    using assms by (auto split: option.splits simp: safe.effect_refl command_kept_deadline
        intro!: safe_new_stop safe.keeps_bind [OF safe_update_commands])
  have tr: "safe_op db (transitionTask (deadline_stop_request row n at) db)" for n db
    by (rule safe_transitionTask, rule update_ok_stopping) (auto simp: deadline_stop_request_def no_update_def)
  show ?thesis unfolding claim_deadline_def Let_def
    by (rule safe.keeps_bind [OF select], rule safe_pair, rule safe.keeps_bind [OF tr])
      (auto simp: safe.effect_refl safe_insertCommandFact)
qed

lemma safe_claimExpiredDeadlines: "safe_op db (claimExpiredDeadlines env avail at limit db)"
proof (rule safe_assume)
  assume inv: "db_inv db"
  show "safe_op db (claimExpiredDeadlines env avail at limit db)"
    unfolding claimExpiredDeadlines_def
    by (rule safe.keeps_collect, rule safe_claim_deadline)
      (auto dest!: selected_rows(2) [OF inv] simp: due_deadline_def db_inv_row_ok [OF inv])
qed

end
