(* ===== verification/Store_Commands.thy ===== *)
theory Store_Commands
  imports Store_Schedule
begin

text \<open>
  Durable commands (\<^verbatim>\<open>tasks.ts\<close>, the command part of \<^verbatim>\<open>TaskRepository\<close>): creation of stop and
  normal commands, claiming with a lease, and what a dispatcher may do with a command it holds.
  A command's claim is a lease: every later statement on it names the owner and fails with
  \<^verbatim>\<open>COMMAND_CLAIM_LOST\<close> when another worker has taken the command since.
\<close>

section \<open>Statements shared by the operations\<close>

definition update_inbox :: "(inbox_row \<Rightarrow> bool) \<Rightarrow> (inbox_row \<Rightarrow> inbox_row) \<Rightarrow> db \<Rightarrow> db" where
  "update_inbox P f db = db\<lparr>task_input_response_inbox := update_rows P f (task_input_response_inbox db)\<rparr>"

definition update_requests :: "(input_request_row \<Rightarrow> bool) \<Rightarrow> (input_request_row \<Rightarrow> input_request_row) \<Rightarrow> db \<Rightarrow> db" where
  "update_requests P f db = db\<lparr>task_input_request := update_rows P f (task_input_request db)\<rparr>"

text \<open>The responses assigned to a command.\<close>

definition assigned_to :: "string \<Rightarrow> nat \<Rightarrow> inbox_row \<Rightarrow> bool" where
  "assigned_to t n i = (ib_task_id i = t \<and> ib_command_sequence i = Some n \<and> ib_state i = IB_ASSIGNED)"

definition markAssignedInputResponsesIgnored :: "string \<Rightarrow> nat \<Rightarrow> db \<Rightarrow> db" where
  "markAssignedInputResponsesIgnored t n db =
     update_inbox (assigned_to t n)
       (\<lambda>i. i\<lparr>ib_state := IB_IGNORED, ib_last_error_code := Some ''SUPERSEDED_BY_SAFE_STOP''\<rparr>) db"

definition fact_of :: "command_row \<Rightarrow> command_state \<Rightarrow> command_fact" where
  "fact_of c st = \<lparr>cf_sequence = cmd_sequence c, cf_commandType = cmd_type c, cf_state = st,
     cf_attemptCount = Some (cmd_attempt_count c)\<rparr>"

definition extra_of :: "command_state option \<Rightarrow> string option \<Rightarrow> string \<Rightarrow> fact_extra" where
  "extra_of previous reason rpc = no_extra\<lparr>fx_previousState := previous, fx_reasonCode := reason,
     fx_adapterRpcStatus := Some rpc\<rparr>"

text \<open>\<^verbatim>\<open>WHERE task_id, command_sequence, state='CLAIMED' AND claim_owner\<close> match the held command.\<close>

definition owned :: "command_row \<Rightarrow> command_row \<Rightarrow> bool" where
  "owned held c =
     (is_command (cmd_task_id held) (cmd_sequence held) c \<and> cmd_state c = CLAIMED \<and>
      cmd_claim_owner c = cmd_claim_owner held \<and> cmd_claim_owner c \<noteq> None)"

definition update_owned ::
  "command_row \<Rightarrow> (command_row \<Rightarrow> bool) \<Rightarrow> (command_row \<Rightarrow> command_row) \<Rightarrow> db \<Rightarrow> err + db" where
  "update_owned held P f db =
     (if row_count (\<lambda>c. owned held c \<and> P c) (task_command db) \<noteq> 1 then Inl (Error ''COMMAND_CLAIM_LOST'')
      else checked (update_commands (\<lambda>c. owned held c \<and> P c) f db))"

definition release_as :: "runtime_env \<Rightarrow> command_state \<Rightarrow> string option \<Rightarrow> string option \<Rightarrow> command_row \<Rightarrow> command_row" where
  "release_as env st code message c =
     c\<lparr>cmd_state := st, cmd_claim_owner := None, cmd_claim_until := None,
       cmd_last_error_code := code, cmd_last_error_message := message, cmd_updated_at := clk env\<rparr>"

definition is_normal :: "command_row \<Rightarrow> bool" where
  "is_normal c = (cmd_type c \<in> {UPDATE, PAUSE, RESUME})"

definition supersede :: "runtime_env \<Rightarrow> command_row \<Rightarrow> command_row" where
  "supersede env = release_as env EXHAUSTED (Some ''SUPERSEDED_BY_SAFE_STOP'')
     (Some ''Safe stop superseded the pending command.'')"

text \<open>The loop over superseded rows: the responses an update carried are ignored, a fact is
  recorded.\<close>

definition superseded_fact :: "runtime_env \<Rightarrow> bool \<Rightarrow> command_state option \<Rightarrow> command_row \<Rightarrow> db \<Rightarrow> db" where
  "superseded_fact env ignore previous c db =
     insertCommandFact env (cmd_task_id c) (fact_of c EXHAUSTED) ''task.command.superseded''
       (extra_of previous (Some ''SUPERSEDED_BY_SAFE_STOP'') ''not_dispatched'')
       (if ignore \<and> cmd_type c = UPDATE
        then markAssignedInputResponsesIgnored (cmd_task_id c) (cmd_sequence c) db else db)"

section \<open>Claiming\<close>

definition task_cancelling :: "string \<Rightarrow> db \<Rightarrow> bool" where
  "task_cancelling t db = (case find_task t db of None \<Rightarrow> False | Some r \<Rightarrow> cancel_requested r)"

definition supersede_expired :: "runtime_env \<Rightarrow> instant \<Rightarrow> db \<Rightarrow> err + db" where
  "supersede_expired env at db =
     (let P = (\<lambda>c. task_cancelling (cmd_task_id c) db \<and> is_normal c \<and> cmd_state c = CLAIMED \<and>
                  sql_le (cmd_claim_until c) at)
      in bind_err (checked (update_commands P (supersede env) db)) (\<lambda>db1.
           Inr (fold (superseded_fact env True (Some CLAIMED)) (filter P (task_command db)) db1)))"

definition due_command :: "instant \<Rightarrow> command_row \<Rightarrow> bool" where
  "due_command at c =
     (cmd_state c \<in> {PENDING, RETRY_WAIT} \<and> cmd_next_attempt_at c \<le> at \<or>
      cmd_state c = CLAIMED \<and> sql_le (cmd_claim_until c) at)"

definition claimable :: "instant \<Rightarrow> db \<Rightarrow> command_row \<Rightarrow> bool" where
  "claimable at db c =
     (find_task (cmd_task_id c) db \<noteq> None \<and> due_command at c \<and>
      (cmd_type c = CANCEL \<or> \<not> task_cancelling (cmd_task_id c) db) \<and>
      \<not> (\<exists>f \<in> set (task_command db). cmd_task_id f = cmd_task_id c \<and> cmd_state f = CLAIMED \<and>
           sql_gt (cmd_claim_until f) at \<and> cmd_sequence f \<noteq> cmd_sequence c))"

text \<open>\<^verbatim>\<open>ROW_NUMBER() OVER (PARTITION BY task_id ORDER BY priority DESC, ...)\<close> equal to one.\<close>

definition claim_rank :: "command_row \<Rightarrow> int \<times> instant \<times> instant \<times> nat" where
  "claim_rank c = (- cmd_priority c, cmd_next_attempt_at c, cmd_created_at c, cmd_sequence c)"

definition first_ranked :: "instant \<Rightarrow> db \<Rightarrow> command_row \<Rightarrow> bool" where
  "first_ranked at db c =
     (claimable at db c \<and>
      (\<forall>d \<in> set (task_command db). claimable at db d \<longrightarrow> cmd_task_id d = cmd_task_id c \<longrightarrow>
         claim_rank c \<le> claim_rank d))"

definition claim_command :: "runtime_env \<Rightarrow> string \<Rightarrow> instant \<Rightarrow> command_row \<Rightarrow> command_row" where
  "claim_command env owner until c =
     c\<lparr>cmd_state := CLAIMED, cmd_claim_owner := Some owner, cmd_claim_until := Some until,
       cmd_attempt_count := cmd_attempt_count c + 1, cmd_updated_at := clk env\<rparr>"

definition claimed_fact :: "runtime_env \<Rightarrow> command_row \<Rightarrow> db \<Rightarrow> db" where
  "claimed_fact env c db =
     insertCommandFact env (cmd_task_id c)
       \<lparr>cf_sequence = cmd_sequence c, cf_commandType = cmd_type c, cf_state = CLAIMED,
        cf_attemptCount = Some (cmd_attempt_count c + 1)\<rparr>
       ''task.command.claimed'' (extra_of (Some (cmd_state c)) None ''not_started'') db"

text \<open>\<^verbatim>\<open>claimDueCommands\<close>.  A violation of the one-claimed-command index rolls everything back and
  returns no command.\<close>

definition claim_due ::
  "runtime_env \<Rightarrow> (command_row \<Rightarrow> bool) \<Rightarrow> instant \<Rightarrow> string \<Rightarrow> int \<Rightarrow> nat \<Rightarrow> db \<Rightarrow> err + (command_row list \<times> db)" where
  "claim_due env avail at owner lease limit db =
     bind_err (supersede_expired env at db) (\<lambda>db.
       let candidates = order_limit cmd_task_id limit (filter (first_ranked at db) (task_command db));
           due = filter avail candidates;
           keys = map (\<lambda>c. (cmd_task_id c, cmd_sequence c)) due;
           P = (\<lambda>c. (cmd_task_id c, cmd_sequence c) \<in> set keys)
       in bind_err (checked (update_commands P (claim_command env owner (at + lease)) db)) (\<lambda>db1.
            Inr (map (claim_command env owner (at + lease)) due, fold (claimed_fact env) due db1)))"

definition claimDueCommands ::
  "runtime_env \<Rightarrow> (command_row \<Rightarrow> bool) \<Rightarrow> instant \<Rightarrow> string \<Rightarrow> int \<Rightarrow> nat \<Rightarrow> db \<Rightarrow> err + (command_row list \<times> db)" where
  "claimDueCommands env avail requested owner lease limit db =
     (case claim_due env avail (max requested (clk env)) owner lease limit db of
        Inl (DbConstraint name) \<Rightarrow>
          if name = ''task_command_one_claimed_per_task_idx'' then Inr ([], db) else Inl (DbConstraint name)
      | r \<Rightarrow> r)"

definition claimDueCancelCommands ::
  "runtime_env \<Rightarrow> (command_row \<Rightarrow> bool) \<Rightarrow> instant \<Rightarrow> string \<Rightarrow> int \<Rightarrow> nat \<Rightarrow> db \<Rightarrow> err + (command_row list \<times> db)" where
  "claimDueCancelCommands env avail requested owner lease limit db =
     bind_err (claimDueCommands env avail requested owner lease limit db)
       (\<lambda>(all, db). Inr (filter (\<lambda>c. cmd_type c = CANCEL) all, db))"

definition listPendingCommands :: "string \<Rightarrow> db \<Rightarrow> command_row list" where
  "listPendingCommands t db =
     sort_key cmd_sequence (filter (\<lambda>c. cmd_task_id c = t \<and> cmd_state c \<in> {PENDING, CLAIMED, RETRY_WAIT}) (task_command db))"

section \<open>The holder of a claim\<close>

definition retryClaimedCommand ::
  "runtime_env \<Rightarrow> command_row \<Rightarrow> instant \<Rightarrow> string \<Rightarrow> string \<Rightarrow> db \<Rightarrow> err + (unit \<times> db)" where
  "retryClaimedCommand env held nextAttemptAt code message db =
     bind_err (update_owned held (\<lambda>_. True)
       (\<lambda>c. (release_as env RETRY_WAIT (Some code) (Some message) c)\<lparr>cmd_next_attempt_at := nextAttemptAt\<rparr>) db) (\<lambda>db.
     Inr ((), insertCommandFact env (cmd_task_id held) (fact_of held RETRY_WAIT) ''task.command.retry_scheduled''
       ((extra_of (Some CLAIMED) (Some code) ''error'')\<lparr>fx_retryAfterMs := Some (max 0 (nextAttemptAt - now env))\<rparr>) db))"

definition recordCommandStarted :: "runtime_env \<Rightarrow> command_row \<Rightarrow> db \<Rightarrow> err + (unit \<times> db)" where
  "recordCommandStarted env held db =
     (if row_count (owned held) (task_command db) \<noteq> 1 then Inl (Error ''COMMAND_CLAIM_LOST'')
      else Inr ((), insertCommandFact env (cmd_task_id held) (fact_of held CLAIMED) ''task.command.started''
        (extra_of (Some CLAIMED) None ''started'') db))"

definition renewCommandClaim :: "runtime_env \<Rightarrow> command_row \<Rightarrow> int \<Rightarrow> db \<Rightarrow> err + (unit \<times> db)" where
  "renewCommandClaim env held lease db =
     bind_err (update_owned held (\<lambda>_. True)
       (\<lambda>c. c\<lparr>cmd_claim_until := Some (clk env + lease), cmd_updated_at := clk env\<rparr>) db) (\<lambda>db. Inr ((), db))"

definition rejectClaimedCommand :: "runtime_env \<Rightarrow> command_row \<Rightarrow> string \<Rightarrow> string \<Rightarrow> db \<Rightarrow> err + (unit \<times> db)" where
  "rejectClaimedCommand env held code message db =
     bind_err (update_owned held (\<lambda>_. True) (release_as env REJECTED (Some code) (Some message)) db) (\<lambda>db.
     let db = (if cmd_type held = UPDATE
           then update_inbox (assigned_to (cmd_task_id held) (cmd_sequence held))
             (\<lambda>i. i\<lparr>ib_state := IB_FAILED, ib_last_error_code := Some ''INPUT_RESPONSE_REJECTED''\<rparr>) db
           else db)
     in Inr ((), insertCommandFact env (cmd_task_id held) (fact_of held REJECTED) ''task.command.rejected''
          (extra_of (Some CLAIMED) (Some code) ''rejected'') db))"

definition acknowledge :: "runtime_env \<Rightarrow> json \<Rightarrow> command_row \<Rightarrow> command_row" where
  "acknowledge env ack c = (release_as env ACKNOWLEDGED None None c)\<lparr>cmd_adapter_ack := Some ack\<rparr>"

definition acknowledgeClaimedCommand :: "runtime_env \<Rightarrow> command_row \<Rightarrow> json \<Rightarrow> db \<Rightarrow> err + (unit \<times> db)" where
  "acknowledgeClaimedCommand env held ack db =
     bind_err (update_owned held (\<lambda>_. True) (acknowledge env ack) db) (\<lambda>db.
     Inr ((), insertCommandFact env (cmd_task_id held) (fact_of held ACKNOWLEDGED) ''task.command.acknowledged''
       (extra_of (Some CLAIMED) None ''success'') db))"

text \<open>\<^verbatim>\<open>acknowledgeCommand\<close> changes the state without giving up the claim.\<close>

definition acknowledgeCommand :: "runtime_env \<Rightarrow> string \<Rightarrow> nat \<Rightarrow> bool \<Rightarrow> json \<Rightarrow> db \<Rightarrow> err + (unit \<times> db)" where
  "acknowledgeCommand env t n accepted ack db =
     (let st = (if accepted then ACKNOWLEDGED else REJECTED) in
      bind_err (checked (update_commands (is_command t n)
        (\<lambda>c. c\<lparr>cmd_state := st, cmd_adapter_ack := Some ack, cmd_updated_at := clk env\<rparr>) db)) (\<lambda>db.
      case first_row (is_command t n) (task_command db) of
        None \<Rightarrow> Inl (Error ''COMMAND_NOT_FOUND'')
      | Some c \<Rightarrow> Inr ((), insertCommandFact env t (fact_of c st)
          (if accepted then ''task.command.acknowledged'' else ''task.command.rejected'')
          (extra_of None None (if accepted then ''success'' else ''rejected'')) db)))"

section \<open>The operations respect the store invariant\<close>

lemma safe_update_inbox:
  assumes "\<And>i. ib_task_id (f i) = ib_task_id i \<and> ib_key (f i) = ib_key i"
  shows "safe_rel db (update_inbox P f db)"
proof -
  have keys: "map (\<lambda>i. (ib_task_id i, ib_key i)) (update_rows P f xs) = map (\<lambda>i. (ib_task_id i, ib_key i)) xs" for xs
    using assms by (intro map_update_rows) simp
  have all: "list_all (\<lambda>i. Q (ib_task_id i, ib_key i)) (update_rows P f xs) = list_all (\<lambda>i. Q (ib_task_id i, ib_key i)) xs" for Q xs
    using assms by (induction xs) (auto simp: update_rows_def)
  show ?thesis
    by (rule safe_frame) (auto simp: update_inbox_def schema_ok_def schema_checks_def keys
        all [of "\<lambda>k. k \<in> set (map (\<lambda>q. (ir_task_id q, ir_key q)) (task_input_request db))", simplified])
qed

lemma safe_update_requests:
  assumes "\<And>q. ir_task_id (f q) = ir_task_id q \<and> ir_key (f q) = ir_key q"
  shows "safe_rel db (update_requests P f db)"
proof -
  have keys: "map (\<lambda>q. (ir_task_id q, ir_key q)) (update_rows P f xs) = map (\<lambda>q. (ir_task_id q, ir_key q)) xs" for xs
    using assms by (intro map_update_rows) simp
  show ?thesis
    by (rule safe_frame) (auto simp: update_requests_def schema_ok_def schema_checks_def keys simp del: set_map)
qed

lemma safe_mark_ignored [safe_intros]: "safe_rel db (markAssignedInputResponsesIgnored t n db)"
  unfolding markAssignedInputResponsesIgnored_def by (rule safe_update_inbox) simp

lemma safe_fold: "(\<And>x db. safe_rel db (f x db)) \<Longrightarrow> safe_rel db (fold f xs db)"
  by (induction xs arbitrary: db) (auto simp: safe.effect_refl intro: safe.effect_trans)

lemma safe_superseded_fact [safe_intros]: "safe_rel db (superseded_fact env ignore previous c db)"
  unfolding superseded_fact_def
  by (auto intro: safe_insertCommandFact safe.effect_trans [OF safe_mark_ignored safe_insertCommandFact])

lemma kept_release [simp]: "command_kept c (release_as env st code message c)"
  by (simp add: command_kept_def release_as_def)

lemma kept_supersede [simp]: "command_kept c (supersede env c)"
  by (simp add: supersede_def)

lemma kept_acknowledge [simp]: "command_kept c (acknowledge env ack c)"
  by (simp add: command_kept_def acknowledge_def release_as_def)

lemma kept_claim [simp]: "command_kept c (claim_command env owner until c)"
  by (simp add: command_kept_def claim_command_def)

lemma safe_update_owned [safe_intros]:
  assumes "\<And>c. command_kept c (f c)"
  shows "safe_db db (update_owned held P f db)"
  unfolding update_owned_def by (simp add: safe_update_commands assms)

text \<open>A statement followed by facts.\<close>

lemma safe_then_facts:
  assumes "safe_db db m" "\<And>db. safe_rel db (g db)"
  shows "safe_op db (bind_err m (\<lambda>db. Inr (h db, g db)))"
  using assms by (intro safe.keeps_bind [OF assms(1)]) simp

lemma safe_supersede_expired: "safe_db db (supersede_expired env at db)"
  unfolding supersede_expired_def Let_def
  by (rule safe.keeps_bind [OF safe_update_commands]) (auto intro: safe_fold safe_superseded_fact)

lemma safe_claim_due: "safe_op db (claim_due env avail at owner lease limit db)"
  unfolding claim_due_def Let_def claimed_fact_def
  by (rule safe.keeps_bind [OF safe_supersede_expired])
    (rule safe_then_facts, auto intro!: safe_update_commands safe_fold safe_insertCommandFact)

lemma safe_claimDueCommands: "safe_op db (claimDueCommands env avail at owner lease limit db)"
  using safe_claim_due [of db env avail "max at (clk env)" owner lease limit]
  by (auto simp: claimDueCommands_def safe.effect_refl split: sum.splits err.splits)

lemma safe_claimDueCancelCommands: "safe_op db (claimDueCancelCommands env avail at owner lease limit db)"
  unfolding claimDueCancelCommands_def
  by (rule safe.keeps_bind [OF safe_claimDueCommands]) (auto simp: safe.effect_refl)

lemma safe_retryClaimedCommand: "safe_op db (retryClaimedCommand env held at code message db)"
  unfolding retryClaimedCommand_def
  by (rule safe_then_facts) (auto intro!: safe_update_owned safe_insertCommandFact simp: command_kept_def release_as_def)

lemma safe_recordCommandStarted: "safe_op db (recordCommandStarted env held db)"
  by (simp add: recordCommandStarted_def safe_insertCommandFact)

lemma safe_renewCommandClaim: "safe_op db (renewCommandClaim env held lease db)"
  unfolding renewCommandClaim_def
  by (rule safe.keeps_bind [OF safe_update_owned]) (auto simp: command_kept_def safe.effect_refl)

lemma safe_rejectClaimedCommand: "safe_op db (rejectClaimedCommand env held code message db)"
  unfolding rejectClaimedCommand_def Let_def
  by (rule safe_then_facts) (auto intro!: safe_update_owned safe_insertCommandFact
      intro: safe.effect_trans [OF safe_update_inbox safe_insertCommandFact])

lemma safe_acknowledgeClaimedCommand: "safe_op db (acknowledgeClaimedCommand env held ack db)"
  unfolding acknowledgeClaimedCommand_def
  by (rule safe_then_facts) (auto intro!: safe_update_owned safe_insertCommandFact)

lemma safe_acknowledgeCommand: "safe_op db (acknowledgeCommand env t n accepted ack db)"
  unfolding acknowledgeCommand_def Let_def
  by (rule safe.keeps_bind [OF safe_update_commands])
    (auto simp: command_kept_def safe_insertCommandFact split: option.splits)

end
