(* ===== verification/Store_Control.thy ===== *)
theory Store_Control
  imports Store_Commands
begin

text \<open>
  Control of running tasks (\<^verbatim>\<open>tasks.ts\<close>): cancellation and control commands, safe stops that
  supersede other commands, delivery of input responses, and snapshots of the adapter.
\<close>

section \<open>Creating commands\<close>

record CommandResolution =
  rs_sequence :: nat
  rs_duplicate :: bool
  rs_commandType :: command_type
  rs_state :: command_state
  rs_adapterAck :: "json option"
  rs_lastErrorCode :: "string option"
  rs_lastErrorMessage :: "string option"
  rs_nextAttemptAt :: "instant option"
  rs_claimUntil :: "instant option"
  rs_claimOwner :: "string option"

definition mapCommandResolution :: "command_row \<Rightarrow> CommandResolution" where
  "mapCommandResolution c =
     \<lparr>rs_sequence = cmd_sequence c, rs_duplicate = True, rs_commandType = cmd_type c,
      rs_state = cmd_state c, rs_adapterAck = cmd_adapter_ack c,
      rs_lastErrorCode = cmd_last_error_code c, rs_lastErrorMessage = cmd_last_error_message c,
      rs_nextAttemptAt = Some (cmd_next_attempt_at c), rs_claimUntil = cmd_claim_until c,
      rs_claimOwner = cmd_claim_owner c\<rparr>"

definition created_resolution :: "nat \<Rightarrow> command_type \<Rightarrow> CommandResolution" where
  "created_resolution n ty =
     \<lparr>rs_sequence = n, rs_duplicate = False, rs_commandType = ty, rs_state = PENDING,
      rs_adapterAck = None, rs_lastErrorCode = None, rs_lastErrorMessage = None,
      rs_nextAttemptAt = None, rs_claimUntil = None, rs_claimOwner = None\<rparr>"

definition duplicate_fact :: "runtime_env \<Rightarrow> command_row \<Rightarrow> db \<Rightarrow> db" where
  "duplicate_fact env c db =
     recordCommandResolutionFact env (cmd_task_id c)
       \<lparr>cf_sequence = cmd_sequence c, cf_commandType = cmd_type c, cf_state = cmd_state c, cf_attemptCount = None\<rparr>
       ''task.command.duplicate'' no_extra db"

definition created_fact :: "runtime_env \<Rightarrow> string \<Rightarrow> nat \<Rightarrow> command_type \<Rightarrow> string option \<Rightarrow> db \<Rightarrow> db" where
  "created_fact env t n ty reason db =
     insertCommandFact env t
       \<lparr>cf_sequence = n, cf_commandType = ty, cf_state = PENDING, cf_attemptCount = Some 0\<rparr>
       ''task.command.created'' (extra_of None reason ''not_started'') db"

definition cancel_request :: "runtime_env \<Rightarrow> task_row \<Rightarrow> nat \<Rightarrow> TaskTransitionRequest" where
  "cancel_request env previous n =
     \<lparr>tq_taskId = task_id previous, tq_expectedVersion = Some (version previous),
      tq_update = no_update
        \<lparr>up_cancelRequested := Some True, up_stopReason := Some (Some USER_REQUESTED),
         up_internalState := Some STOPPING, up_mcpStatus := Some working,
         up_substate := Some (Some ''stopping''),
         up_statusMessage := Some (Some ''Cancellation requested.'')\<rparr>,
      tq_observation = runtime_observation ''task.cancel_requested'' (now env) ''USER_REQUESTED''
        (Some ''Cancellation requested.'') (Some ''stopping'') [],
      tq_outboxType = ''task.cancel_requested'',
      tq_eventKey = [task_id previous, ''command'', show_nat n, ''requested''],
      tq_outboxPayload = [(''commandType'', JStr ''CANCEL''), (''commandSequence'', JNum (int n)),
        (''commandPreviousState'', JNull), (''commandCurrentState'', JStr ''PENDING''),
        (''commandAttempt'', JNum 0), (''commandReasonCode'', JStr ''USER_REQUESTED''),
        (''commandAdapterRpcStatus'', JStr ''not_started'')]\<rparr>"

definition waiting_normal :: "string \<Rightarrow> command_row \<Rightarrow> bool" where
  "waiting_normal t c = (cmd_task_id c = t \<and> is_normal c \<and> cmd_state c \<in> {PENDING, RETRY_WAIT})"

definition beginCancel :: "runtime_env \<Rightarrow> string \<Rightarrow> string \<Rightarrow> db \<Rightarrow> err + (CommandResolution \<times> db)" where
  "beginCancel env t requestHash db =
     (case find_task t db of
        None \<Rightarrow> Inl (Error ''TASK_NOT_FOUND'')
      | Some previous \<Rightarrow>
          (case active_stop_command t db of
             Some c \<Rightarrow> Inr (mapCommandResolution c, duplicate_fact env c db)
           | None \<Rightarrow>
               if isTerminalState (internal_state previous) then Inl (Error ''TASK_ALREADY_TERMINAL'')
               else
                 bind_err (checked (update_commands (waiting_normal t) (supersede env) db)) (\<lambda>db1.
                 bind_err (take_sequence t
                   (fold (superseded_fact env False None) (filter (waiting_normal t) (task_command db)) db1)) (\<lambda>(n, db).
                 bind_err (insert_command ((new_stop_command env previous n USER_REQUESTED 100 (clk env))
                   \<lparr>cmd_request_hash := requestHash\<rparr>) db) (\<lambda>db.
                 bind_err (transitionTask (cancel_request env previous n) db) (\<lambda>(_, db).
                 Inr (created_resolution n CANCEL, created_fact env t n CANCEL (Some ''USER_REQUESTED'') db)))))))"

definition recordCooperativeCancellationIntent :: "runtime_env \<Rightarrow> string \<Rightarrow> db \<Rightarrow> err + (task_row \<times> db)" where
  "recordCooperativeCancellationIntent env t db =
     bind_err (transitionTask
       \<lparr>tq_taskId = t, tq_expectedVersion = None,
        tq_update = no_update\<lparr>up_cancelRequested := Some True, up_stopReason := Some (Some USER_REQUESTED)\<rparr>,
        tq_observation = runtime_observation ''task.cancel_requested'' (now env) ''ADAPTER_CANCEL_UNSUPPORTED''
          (Some ''Cancellation intent recorded; Adapter does not support immediate stop.'') None [],
        tq_outboxType = ''task.cancel_intent_recorded'',
        tq_eventKey = [t, ''cancel-intent'', ''user-requested''],
        tq_outboxPayload = [(''adapterDispatch'', JBool False)]\<rparr> db) (\<lambda>((r, _), db). Inr (r, db))"

definition command_requested :: "runtime_env \<Rightarrow> task_row \<Rightarrow> nat \<Rightarrow> command_type \<Rightarrow> TaskTransitionRequest" where
  "command_requested env task n ty =
     \<lparr>tq_taskId = task_id task, tq_expectedVersion = Some (version task), tq_update = no_update,
      tq_observation = runtime_observation ''task.command_requested'' (now env) (show_command_type ty)
        (Some (toLowerCase (show_command_type ty) @ '' command requested.'')) (substate task)
        [(''commandType'', JStr (show_command_type ty)), (''commandSequence'', JNum (int n))],
      tq_outboxType = ''task.command_requested'',
      tq_eventKey = [task_id task, ''command'', show_nat n, ''requested''],
      tq_outboxPayload = [(''commandType'', JStr (show_command_type ty)), (''commandSequence'', JNum (int n)),
        (''previousState'', JNull), (''currentState'', JStr ''PENDING''), (''attempt'', JNum 0),
        (''adapterRpcStatus'', JStr ''not_started'')]\<rparr>"

definition same_request :: "string \<Rightarrow> command_type \<Rightarrow> string \<Rightarrow> command_row \<Rightarrow> bool" where
  "same_request t ty hash c = (cmd_task_id c = t \<and> cmd_type c = ty \<and> cmd_request_hash c = hash)"

definition stop_in_progress :: "task_row \<Rightarrow> bool" where
  "stop_in_progress r = (cancel_requested r \<or> row_stop_reason r \<noteq> None \<or> internal_state r = STOPPING)"

text \<open>The oldest command still to be delivered.\<close>

definition oldest_active :: "string \<Rightarrow> db \<Rightarrow> command_row option" where
  "oldest_active t db = (case listPendingCommands t db of [] \<Rightarrow> None | c # _ \<Rightarrow> Some c)"

definition beginCommand ::
  "runtime_env \<Rightarrow> string \<Rightarrow> command_type \<Rightarrow> string \<Rightarrow> json_object \<Rightarrow> db \<Rightarrow> err + (CommandResolution \<times> db)" where
  "beginCommand env t ty requestHash payload db =
     (case find_task t db of
        None \<Rightarrow> Inl (Error ''TASK_NOT_FOUND'')
      | Some task \<Rightarrow>
          (case latest_row cmd_sequence (same_request t ty requestHash) (task_command db) of
             Some c \<Rightarrow> Inr (mapCommandResolution c, duplicate_fact env c db)
           | None \<Rightarrow>
               if isTerminalState (internal_state task) then Inl (Error ''TASK_ALREADY_TERMINAL'')
               else if stop_in_progress task then
                 (case active_stop_command t db of
                    Some c \<Rightarrow> Inr (mapCommandResolution c, db)
                  | None \<Rightarrow> Inl (Error ''STOP_IN_PROGRESS_WITHOUT_COMMAND''))
               else (case oldest_active t db of
                   Some c \<Rightarrow> Inr (mapCommandResolution c, db)
                 | None \<Rightarrow>
                     bind_err (take_sequence t db) (\<lambda>(n, db).
                     bind_err (insert_command (new_command env t n ty requestHash payload) db) (\<lambda>db.
                     bind_err (transitionTask (command_requested env task n ty) db) (\<lambda>(_, db).
                     Inr (created_resolution n ty, created_fact env t n ty None db)))))))"

definition findCommandByRequestHash :: "string \<Rightarrow> command_type \<Rightarrow> string \<Rightarrow> db \<Rightarrow> CommandResolution option" where
  "findCommandByRequestHash t ty hash db =
     map_option mapCommandResolution (latest_row cmd_sequence (same_request t ty hash) (task_command db))"

section \<open>Safe stops\<close>

definition supersede_where ::
  "runtime_env \<Rightarrow> (command_row \<Rightarrow> bool) \<Rightarrow> command_state option \<Rightarrow> db \<Rightarrow> err + (nat \<times> db)" where
  "supersede_where env P previous db =
     bind_err (checked (update_commands P (supersede env) db)) (\<lambda>db1.
       Inr (row_count P (task_command db),
            fold (superseded_fact env True previous) (filter P (task_command db)) db1))"

definition supersedeNormalCommandsForSafeStop :: "runtime_env \<Rightarrow> string \<Rightarrow> bool \<Rightarrow> db \<Rightarrow> err + (nat \<times> db)" where
  "supersedeNormalCommandsForSafeStop env t includeClaimed db =
     supersede_where env (\<lambda>c. cmd_task_id c = t \<and> is_normal c \<and>
       (cmd_state c \<in> {PENDING, RETRY_WAIT} \<or> includeClaimed \<and> cmd_state c = CLAIMED)) None db"

definition supersedeClaimedCommandForSafeStop :: "runtime_env \<Rightarrow> command_row \<Rightarrow> db \<Rightarrow> err + (unit \<times> db)" where
  "supersedeClaimedCommandForSafeStop env held db =
     bind_err (update_owned held is_normal
       (\<lambda>c. (release_as env EXHAUSTED (Some ''SUPERSEDED_BY_SAFE_STOP'')
          (Some ''Safe stop superseded the claimed command.'') c)\<lparr>cmd_next_attempt_at := clk env\<rparr>) db) (\<lambda>db.
     Inr ((), superseded_fact env True (Some CLAIMED) held db))"

definition supersedeExpiredClaimedNormalCommandsForSafeStop :: "runtime_env \<Rightarrow> string \<Rightarrow> db \<Rightarrow> err + (nat \<times> db)" where
  "supersedeExpiredClaimedNormalCommandsForSafeStop env t db =
     supersede_where env (\<lambda>c. cmd_task_id c = t \<and> is_normal c \<and> cmd_state c = CLAIMED \<and>
       sql_le (cmd_claim_until c) (clk env)) (Some CLAIMED) db"

section \<open>Delivery of input responses\<close>

datatype delivery_outcome = acknowledged | task_terminal | superseded_by_safe_stop | delivery_failed

definition response_keys :: "command_row \<Rightarrow> string list" where
  "response_keys c = (case object_of_json (obj_get (cmd_payload c) ''inputResponses'') of
     None \<Rightarrow> [] | Some kvs \<Rightarrow> map fst kvs)"

definition supersede_requests :: "string \<Rightarrow> string list \<Rightarrow> db \<Rightarrow> db" where
  "supersede_requests t keys db =
     update_requests (\<lambda>q. ir_task_id q = t \<and> ir_key q \<in> set keys \<and> ir_status q = OPEN)
       (\<lambda>q. q\<lparr>ir_status := SUPERSEDED\<rparr>) db"

definition settle_inbox :: "command_row \<Rightarrow> inbox_state \<Rightarrow> string option \<Rightarrow> db \<Rightarrow> db" where
  "settle_inbox held st code db =
     update_inbox (assigned_to (cmd_task_id held) (cmd_sequence held))
       (\<lambda>i. i\<lparr>ib_state := st, ib_last_error_code := code\<rparr>) db"

definition failed_error :: "string \<Rightarrow> string \<Rightarrow> json_object" where
  "failed_error message reason =
     [(''code'', JNum (-32603)), (''message'', JStr message), (''data'', JObj [(''reasonCode'', JStr reason)])]"

text \<open>The transition of a task that fails because of a command.\<close>

definition command_failure ::
  "runtime_env \<Rightarrow> command_row \<Rightarrow> nat \<Rightarrow> string \<Rightarrow> string \<Rightarrow> string \<Rightarrow> json_object \<Rightarrow> json_object \<Rightarrow> TaskTransitionRequest" where
  "command_failure env held expected message reason suffix obs_payload payload =
     \<lparr>tq_taskId = cmd_task_id held, tq_expectedVersion = Some expected,
      tq_update = no_update
        \<lparr>up_internalState := Some TERMINAL_FAILED, up_mcpStatus := Some failed, up_substate := Some None,
         up_statusMessage := Some (Some message), up_result := Some None,
         up_error := Some (Some (failed_error message reason))\<rparr>,
      tq_observation = runtime_observation ''task.failed'' (now env) reason (Some message) None obs_payload,
      tq_outboxType = ''task.failed'',
      tq_eventKey = [cmd_task_id held, ''command'', show_nat (cmd_sequence held), suffix],
      tq_outboxPayload = payload\<rparr>"

definition rejectInputResponseAndFailTask ::
  "runtime_env \<Rightarrow> command_row \<Rightarrow> string \<Rightarrow> string \<Rightarrow> db \<Rightarrow> err + (delivery_outcome \<times> db)" where
  "rejectInputResponseAndFailTask env held reasonCode message db =
     (case find_task (cmd_task_id held) db of
        None \<Rightarrow> Inl (Error ''TASK_NOT_FOUND'')
      | Some task \<Rightarrow>
          if row_count (\<lambda>c. owned held c \<and> cmd_type c = UPDATE) (task_command db) \<noteq> 1
          then Inl (Error ''COMMAND_CLAIM_LOST'')
          else
            let terminal = isTerminalState (internal_state task); safeStop = stop_in_progress task;
                outcome = (if terminal then task_terminal
                           else if safeStop then superseded_by_safe_stop else delivery_failed);
                code = (if terminal then ''TASK_TERMINAL''
                        else if safeStop then ''SUPERSEDED_BY_SAFE_STOP'' else reasonCode);
                isFailed = (outcome = delivery_failed);
                st = (if isFailed then REJECTED else EXHAUSTED);
                n = cmd_sequence held
            in bind_err (checked (update_commands (owned held) (release_as env st (Some code)
                 (Some (if isFailed then message else ''Input response was superseded by task state.''))) db)) (\<lambda>db.
               let db = (if response_keys held \<noteq> [] \<and> \<not> terminal
                         then supersede_requests (cmd_task_id held) (response_keys held) db else db);
                   db = settle_inbox held (if isFailed then IB_FAILED else IB_IGNORED)
                     (Some (if isFailed then ''INPUT_RESPONSE_REJECTED'' else code)) db
               in bind_err (if \<not> terminal \<and> \<not> safeStop
                   then bind_err (transitionTask (command_failure env held (version task)
                       ''Input response was rejected.'' ''INPUT_RESPONSE_REJECTED'' ''input-rejected''
                       [(''commandSequence'', JNum (int n))]
                       [(''commandSequence'', JNum (int n)), (''reasonCode'', JStr ''INPUT_RESPONSE_REJECTED'')]) db)
                     (\<lambda>(_, db). Inr db)
                   else Inr db) (\<lambda>db.
                  Inr (outcome, insertCommandFact env (cmd_task_id held) (fact_of held st)
                    (if isFailed then ''task.command.rejected'' else ''task.command.superseded'')
                    (extra_of (Some CLAIMED) (Some code) (if isFailed then ''rejected'' else ''not_dispatched'')) db))))"

definition failInputResponseDelivery :: "runtime_env \<Rightarrow> command_row \<Rightarrow> string \<Rightarrow> db \<Rightarrow> err + (unit \<times> db)" where
  "failInputResponseDelivery env held message db =
     (case find_task (cmd_task_id held) db of
        None \<Rightarrow> Inl (Error ''TASK_NOT_FOUND'')
      | Some task \<Rightarrow>
          let terminal = isTerminalState (internal_state task); safeStop = stop_in_progress task;
              code = (if terminal then ''TASK_TERMINAL''
                      else if safeStop then ''SUPERSEDED_BY_SAFE_STOP'' else ''INPUT_RESPONSE_DELIVERY_EXHAUSTED'');
              n = cmd_sequence held
          in bind_err (update_owned held (\<lambda>_. True) (release_as env EXHAUSTED (Some code) (Some message)) db) (\<lambda>db.
             let db = (if response_keys held \<noteq> [] \<and> \<not> terminal
                       then supersede_requests (cmd_task_id held) (response_keys held) db else db);
                 db = settle_inbox held (if terminal \<or> safeStop then IB_IGNORED else IB_FAILED) (Some code) db
             in bind_err (if \<not> terminal \<and> \<not> safeStop
                 then bind_err (transitionTask (command_failure env held (version task)
                     ''Input response delivery exhausted.'' ''INPUT_RESPONSE_DELIVERY_EXHAUSTED''
                     ''input-delivery-exhausted'' [(''commandSequence'', JNum (int n))]
                     [(''commandSequence'', JNum (int n)),
                      (''reasonCode'', JStr ''INPUT_RESPONSE_DELIVERY_EXHAUSTED'')]) db) (\<lambda>(_, db). Inr db)
                 else Inr db) (\<lambda>db.
                Inr ((), insertCommandFact env (cmd_task_id held) (fact_of held EXHAUSTED) ''task.command.exhausted''
                  (extra_of (Some CLAIMED) (Some code) ''error'') db))))"

record input_answer =
  ans_key :: string
  ans_answerHash :: string
  ans_value :: json
  ans_response :: json

text \<open>One iteration of the loop over the answers: the request must still be open.\<close>

definition answer_request :: "runtime_env \<Rightarrow> string \<Rightarrow> input_answer \<Rightarrow> db \<Rightarrow> err + db" where
  "answer_request env t a db =
     (let P = (\<lambda>q. ir_task_id q = t \<and> ir_key q = ans_key a \<and> ir_status q = OPEN) in
      if row_count P (task_input_request db) \<noteq> 1 then Inl (Error ''INPUT_REQUEST_NOT_OPEN'')
      else Inr (update_requests P (\<lambda>q. q\<lparr>ir_status := ANSWERED, ir_answer_hash := Some (ans_answerHash a),
        ir_answer := Some (ans_value a), ir_response_hash := Some (ans_answerHash a),
        ir_response_json := Some (ans_response a), ir_answered_at := Some (clk env)\<rparr>) db))"

definition input_answered_request :: "runtime_env \<Rightarrow> command_row \<Rightarrow> task_row \<Rightarrow> input_answer list \<Rightarrow> TaskTransitionRequest" where
  "input_answered_request env held task answers =
     (let keys = JArr (map JStr (sort (map ans_key answers))) in
      \<lparr>tq_taskId = cmd_task_id held, tq_expectedVersion = Some (version task), tq_update = no_update,
       tq_observation = runtime_observation ''task.input_answered'' (now env) ''INPUT_ANSWERED''
         (Some ''Task input was answered.'') (substate task) [(''keys'', keys)],
       tq_outboxType = ''task.input_answered'',
       tq_eventKey = [cmd_task_id held, ''command'', show_nat (cmd_sequence held), ''input-answered''],
       tq_outboxPayload = [(''keys'', keys)]\<rparr>)"

text \<open>The two ways an update is found to be too late.\<close>

definition exhaust_update ::
  "runtime_env \<Rightarrow> command_row \<Rightarrow> string \<Rightarrow> string \<Rightarrow> string \<Rightarrow> delivery_outcome \<Rightarrow> db \<Rightarrow> err + (delivery_outcome \<times> db)" where
  "exhaust_update env held code message eventType outcome db =
     bind_err (update_owned held (\<lambda>_. True)
       (\<lambda>c. (release_as env EXHAUSTED (Some code) (Some message) c)\<lparr>cmd_next_attempt_at := clk env\<rparr>) db) (\<lambda>db.
     let db = (if response_keys held \<noteq> [] then supersede_requests (cmd_task_id held) (response_keys held) db else db);
         db = settle_inbox held IB_IGNORED (Some code) db
     in Inr (outcome, insertCommandFact env (cmd_task_id held) (fact_of held EXHAUSTED) eventType
          (extra_of (Some CLAIMED) (Some code) ''not_dispatched'') db))"

definition acknowledgeUpdateAndCompleteInputAnswers ::
  "runtime_env \<Rightarrow> command_row \<Rightarrow> json \<Rightarrow> input_answer list \<Rightarrow> db \<Rightarrow> err + (delivery_outcome \<times> db)" where
  "acknowledgeUpdateAndCompleteInputAnswers env held ack answers db =
     (case find_task (cmd_task_id held) db of
        None \<Rightarrow> Inl (Error ''TASK_NOT_FOUND'')
      | Some task \<Rightarrow>
          if first_row (\<lambda>c. owned held c \<and> cmd_type c = UPDATE) (task_command db) = None
            then Inl (Error ''COMMAND_CLAIM_LOST'')
          else if isTerminalState (internal_state task) then
            exhaust_update env held ''TASK_TERMINAL''
              ''Task transitioned to terminal while command was in progress.'' ''task.command.exhausted'' task_terminal db
          else if stop_in_progress task then
            exhaust_update env held ''SUPERSEDED_BY_SAFE_STOP''
              ''Safe stop superseded the claimed command.'' ''task.command.superseded'' superseded_by_safe_stop db
          else
            bind_err (fold_err (answer_request env (cmd_task_id held)) answers db) (\<lambda>db.
            bind_err (transitionTask (input_answered_request env held task answers)
              (settle_inbox held IB_ACKNOWLEDGED None db)) (\<lambda>(_, db).
            bind_err (update_owned held (\<lambda>_. True) (acknowledge env ack) db) (\<lambda>db.
            Inr (acknowledged, insertCommandFact env (cmd_task_id held) (fact_of held ACKNOWLEDGED)
              ''task.command.acknowledged'' (extra_of (Some CLAIMED) None ''success'') db)))))"

section \<open>Outcome of stop commands\<close>

definition terminal_exhausted :: "runtime_env \<Rightarrow> command_row \<Rightarrow> command_state \<Rightarrow> db \<Rightarrow> db" where
  "terminal_exhausted env held previous db =
     insertCommandFact env (cmd_task_id held) (fact_of held EXHAUSTED) ''task.command.exhausted''
       (extra_of (Some previous) (Some ''TASK_TERMINAL'') ''not_dispatched'') db"

definition ack_text :: "json_object \<Rightarrow> string \<Rightarrow> string \<Rightarrow> string" where
  "ack_text ack key fallback = (case string_of_json (obj_get ack key) of None \<Rightarrow> fallback | Some s \<Rightarrow> s)"

definition cancel_rejected_request ::
  "runtime_env \<Rightarrow> command_row \<Rightarrow> task_row \<Rightarrow> int \<Rightarrow> SnapshotTransition \<Rightarrow> json_object \<Rightarrow> TaskTransitionRequest" where
  "cancel_rejected_request env held row revision transition ack =
     \<lparr>tq_taskId = cmd_task_id held, tq_expectedVersion = Some (version row),
      tq_update = (transition_update transition)
        \<lparr>up_adapterRevision := (if adapter_revision row < revision then Some revision else None),
         up_cancelRequested := Some False, up_stopReason := Some None\<rparr>,
      tq_observation =
        (runtime_observation ''task.cancel_rejected'' (now env) (ack_text ack ''reasonCode'' ''CANCEL_REJECTED'')
          (Some (tn_statusMessage transition)) (tn_substate transition)
          [(''commandSequence'', JNum (int (cmd_sequence held)))])\<lparr>to_adapterRevision := Some revision\<rparr>,
      tq_outboxType = ''task.cancel_rejected'',
      tq_eventKey = [cmd_task_id held, ''command'', show_nat (cmd_sequence held), ''rejected''],
      tq_outboxPayload = [(''commandSequence'', JNum (int (cmd_sequence held)))]\<rparr>"

definition rejectUserCancel ::
  "runtime_env \<Rightarrow> command_row \<Rightarrow> int \<Rightarrow> SnapshotTransition \<Rightarrow> json_object \<Rightarrow> db \<Rightarrow> err + (task_row \<times> db)" where
  "rejectUserCancel env held revision transition ack db =
     (case find_task (cmd_task_id held) db of
        None \<Rightarrow> Inl (Error ''TASK_NOT_FOUND'')
      | Some row \<Rightarrow>
          if isTerminalState (internal_state row) then
            bind_err (checked (update_commands (is_command (cmd_task_id held) (cmd_sequence held))
              (\<lambda>c. release_as env EXHAUSTED (Some ''TASK_TERMINAL'') (cmd_last_error_message c) c) db)) (\<lambda>db.
            Inr (row, terminal_exhausted env held (cmd_state held) db))
          else
            bind_err (transitionTask (cancel_rejected_request env held row revision transition ack) db) (\<lambda>((r, _), db).
            bind_err (update_owned held (\<lambda>_. True)
              (\<lambda>c. (release_as env REJECTED (Some (ack_text ack ''reasonCode'' ''CANCEL_REJECTED''))
                (Some (ack_text ack ''message'' ''Adapter rejected cancellation.'')) c)\<lparr>cmd_adapter_ack := Some (JObj ack)\<rparr>) db) (\<lambda>db.
            Inr (r, insertCommandFact env (cmd_task_id held) (fact_of held REJECTED) ''task.command.rejected''
              (extra_of (Some CLAIMED) (Some (ack_text ack ''reasonCode'' ''CANCEL_REJECTED'')) ''rejected'') db))))"

text \<open>\<^verbatim>\<open>WHERE task_id, command_sequence and claim_owner\<close> match, whatever the state.\<close>

definition held_by :: "command_row \<Rightarrow> command_row \<Rightarrow> bool" where
  "held_by held c =
     (is_command (cmd_task_id held) (cmd_sequence held) c \<and>
      cmd_claim_owner c = cmd_claim_owner held \<and> cmd_claim_owner c \<noteq> None)"

definition json_stop_reason :: "stop_reason option \<Rightarrow> json" where
  "json_stop_reason r = json_opt (map_option show_stop_reason r)"

definition failSafeStopUnconfirmed :: "runtime_env \<Rightarrow> command_row \<Rightarrow> string \<Rightarrow> db \<Rightarrow> err + (task_row \<times> db)" where
  "failSafeStopUnconfirmed env held message db =
     (case find_task (cmd_task_id held) db of
        None \<Rightarrow> Inl (Error ''TASK_NOT_FOUND'')
      | Some row \<Rightarrow>
          if isTerminalState (internal_state row) then
            bind_err (checked (update_commands (held_by held)
              (release_as env EXHAUSTED (Some ''TASK_TERMINAL'') (Some message)) db)) (\<lambda>db.
            Inr (row, terminal_exhausted env held CLAIMED db))
          else
            bind_err (transitionTask (command_failure env held (version row) message ''SAFE_STOP_UNCONFIRMED''
              ''safe-stop-failed''
              [(''stopReason'', json_stop_reason (cmd_stop_reason held)), (''severity'', JStr ''critical'')]
              [(''reasonCode'', JStr ''SAFE_STOP_UNCONFIRMED''),
               (''stopReason'', json_stop_reason (cmd_stop_reason held)), (''severity'', JStr ''critical'')]) db) (\<lambda>((r, _), db).
            if row_count (held_by held) (task_command db) \<noteq> 1 then Inl (Error ''COMMAND_CLAIM_LOST'')
            else bind_err (checked (update_commands (held_by held)
              (release_as env EXHAUSTED (Some ''SAFE_STOP_UNCONFIRMED'') (Some message)) db)) (\<lambda>db.
            Inr (r, insertCommandFact env (cmd_task_id held) (fact_of held EXHAUSTED) ''task.command.exhausted''
              (extra_of (Some CLAIMED) (Some ''SAFE_STOP_UNCONFIRMED'') ''rejected'') db))))"

section \<open>Snapshots\<close>

text \<open>While a stop is in progress a snapshot that is not final does not change what clients see.\<close>

definition mergeStopState :: "task_row \<Rightarrow> SnapshotTransition \<Rightarrow> SnapshotTransition" where
  "mergeStopState existing t =
     (if (\<not> cancel_requested existing \<and> row_stop_reason existing = None) \<or> tn_terminal t then t
      else t\<lparr>tn_internalState := internal_state existing, tn_mcpStatus := mcp_status existing,
             tn_substate := substate existing,
             tn_statusMessage := (case status_message existing of None \<Rightarrow> tn_statusMessage t | Some m \<Rightarrow> m),
             tn_result := result existing, tn_error := error existing\<rparr>)"

definition snapshot_request :: "runtime_env \<Rightarrow> task_row \<Rightarrow> int \<Rightarrow> SnapshotTransition \<Rightarrow> TaskTransitionRequest" where
  "snapshot_request env existing revision transition =
     \<lparr>tq_taskId = task_id existing, tq_expectedVersion = Some (version existing),
      tq_update = (transition_update (mergeStopState existing transition))
        \<lparr>up_adapterRevision := Some revision,
         up_actualStartedAt := (if transitionHasStarted transition \<and> actual_started_at existing = None
                                then Some (Some (now env)) else None)\<rparr>,
      tq_observation = adapter_observation (stableObservationType transition) (now env)
        (reasonCodeFromTransition transition) transition revision,
      tq_outboxType = stableObservationType transition,
      tq_eventKey = [task_id existing, ''adapter'', show_int revision],
      tq_outboxPayload = []\<rparr>"

definition deliverable :: "string \<Rightarrow> command_row \<Rightarrow> bool" where
  "deliverable t c = (cmd_task_id c = t \<and> cmd_state c \<in> {PENDING, CLAIMED, RETRY_WAIT})"

definition exhausted_fact :: "runtime_env \<Rightarrow> command_row \<Rightarrow> db \<Rightarrow> db" where
  "exhausted_fact env c db =
     insertCommandFact env (cmd_task_id c) (fact_of c EXHAUSTED) ''task.command.exhausted''
       (extra_of None (Some ''TASK_TERMINAL'') ''not_dispatched'') db"

definition exhaust_all :: "runtime_env \<Rightarrow> string \<Rightarrow> db \<Rightarrow> err + db" where
  "exhaust_all env t db =
     bind_err (checked (update_commands (deliverable t)
       (\<lambda>c. release_as env EXHAUSTED (Some ''TASK_TERMINAL'') (cmd_last_error_message c) c) db)) (\<lambda>db1.
     Inr (fold (exhausted_fact env) (filter (deliverable t) (task_command db)) db1))"

definition applySnapshot ::
  "runtime_env \<Rightarrow> string \<Rightarrow> int \<Rightarrow> SnapshotTransition \<Rightarrow> NewInputRequest list \<Rightarrow> db \<Rightarrow> err + (task_row \<times> db)" where
  "applySnapshot env t revision transition inputs db =
     (case find_task t db of
        None \<Rightarrow> Inl (Error ''TASK_NOT_FOUND'')
      | Some existing \<Rightarrow>
          if isTerminalState (internal_state existing) \<or> revision < adapter_revision existing then Inr (existing, db)
          else if revision = adapter_revision existing then
            bind_err (checked (update_task t (\<lambda>r. r\<lparr>last_confirmed_at := Some (now env)\<rparr>) db)) (\<lambda>db.
            case find_task t db of
              None \<Rightarrow> Inl (Error ''TASK_CONFIRMATION_NOT_RETURNED'')
            | Some r \<Rightarrow> Inr (r, db))
          else
            bind_err (transitionTask (snapshot_request env existing revision transition) db) (\<lambda>((r, _), db).
            bind_err (upsertInputRequests t inputs db) (\<lambda>db.
            bind_err (if tn_terminal transition then exhaust_all env t db else Inr db) (\<lambda>db.
            Inr (r, db)))))"

section \<open>The operations respect the store invariant\<close>

lemma safe_duplicate_fact [safe_intros]: "safe_rel db (duplicate_fact env c db)"
  by (simp add: duplicate_fact_def safe_recordFact)

lemma safe_created_fact [safe_intros]: "safe_rel db (created_fact env t n ty reason db)"
  by (simp add: created_fact_def safe_insertCommandFact)

lemma safe_supersede_requests: "safe_rel db (supersede_requests t keys db)"
  unfolding supersede_requests_def by (rule safe_update_requests) simp

lemma safe_settle_inbox: "safe_rel db (settle_inbox held st code db)"
  unfolding settle_inbox_def by (rule safe_update_inbox) simp

lemma safe_settle:
  "safe_rel db (settle_inbox held st code (if b then supersede_requests t keys db else db))"
  by (auto intro: safe_settle_inbox safe.effect_trans [OF safe_supersede_requests safe_settle_inbox])

lemma saved_ok_hash: "saved_ok (c\<lparr>cmd_request_hash := h\<rparr>) = saved_ok c"
  by (simp add: saved_ok_def)

text \<open>A fresh command under a fresh sequence number.\<close>

lemma safe_sequenced:
  assumes "\<And>n. saved_ok (c n) \<and> cmd_task_id (c n) = t \<and> cmd_sequence (c n) = n"
    and "\<And>n db. safe_op db (g n db)"
  shows "safe_op db (bind_err (take_sequence t db) (\<lambda>(n, db). bind_err (insert_command (c n) db) (\<lambda>db. g n db)))"
proof (rule safe.keeps_bind [OF safe_take_sequence], rule safe_pair)
  fix y n db' assume "take_sequence t db = Inr y" "y = (n, db')"
  then have "\<exists>r \<in> set (provider_task db'). task_id r = t \<and> next_command_sequence r = n"
    using take_sequence_InrD by blast
  then have "safe_db db' (insert_command (c n) db')"
    using assms(1) [of n] by (intro safe_insert_command_op) auto
  then show "safe_op db' (bind_err (insert_command (c n) db') (g n))"
    by (rule safe.keeps_bind) (rule assms(2))
qed

lemma safe_cancel_transition: "safe_op db (transitionTask (cancel_request env previous n) db)"
  by (rule safe_transitionTask, rule update_ok_stopping) (auto simp: cancel_request_def no_update_def)

lemma safe_same_status:
  assumes "up_internalState (tq_update q) = None" "up_mcpStatus (tq_update q) = None"
    "up_result (tq_update q) = None" "up_error (tq_update q) = None"
  shows "safe_op db (transitionTask q db)"
  using assms by (intro safe_transitionTask update_ok_same_status) auto

lemma safe_beginCancel: "safe_op db (beginCancel env t hash db)"
proof (rule safe_assume)
  assume inv: "db_inv db"
  show "safe_op db (beginCancel env t hash db)"
  proof (cases "find_task t db")
    case None
    then show ?thesis by (simp add: beginCancel_def)
  next
    case (Some previous)
    note previous = find_task_SomeD [OF Some]
    have create: "safe_op db' (bind_err (take_sequence t db') (\<lambda>(n, db).
        bind_err (insert_command ((new_stop_command env previous n USER_REQUESTED 100 (clk env))\<lparr>cmd_request_hash := hash\<rparr>) db) (\<lambda>db.
        bind_err (transitionTask (cancel_request env previous n) db) (\<lambda>(_, db).
        Inr (created_resolution n CANCEL, created_fact env t n CANCEL (Some ''USER_REQUESTED'') db)))))"
      if "\<not> isTerminalState (internal_state previous)" for db'
    proof (rule safe_sequenced)
      show "saved_ok ((new_stop_command env previous n USER_REQUESTED 100 (clk env))\<lparr>cmd_request_hash := hash\<rparr>) \<and>
          cmd_task_id ((new_stop_command env previous n USER_REQUESTED 100 (clk env))\<lparr>cmd_request_hash := hash\<rparr>) = t \<and>
          cmd_sequence ((new_stop_command env previous n USER_REQUESTED 100 (clk env))\<lparr>cmd_request_hash := hash\<rparr>) = n" for n
        using that previous db_inv_row_ok [OF inv, of previous]
        by (simp add: saved_ok_hash saved_ok_stop) (simp add: new_stop_command_def new_command_def)
      show "safe_op db (bind_err (transitionTask (cancel_request env previous n) db) (\<lambda>(_, db).
          Inr (created_resolution n CANCEL, created_fact env t n CANCEL (Some ''USER_REQUESTED'') db)))" for n db
        by (rule safe.keeps_bind [OF safe_cancel_transition]) (auto intro: safe_created_fact)
    qed
    show ?thesis unfolding beginCancel_def Some option.case
      by (auto split: option.splits intro!: safe_duplicate_fact safe.keeps_bind [OF safe_update_commands]
          safe.keeps_after [OF safe_fold [OF safe_superseded_fact] create])
  qed
qed

lemma safe_recordCooperativeCancellationIntent: "safe_op db (recordCooperativeCancellationIntent env t db)"
  unfolding recordCooperativeCancellationIntent_def
  by (rule safe.keeps_bind [OF safe_same_status]) (auto simp: no_update_def safe.effect_refl)

lemma safe_beginCommand: "safe_op db (beginCommand env t ty hash payload db)"
proof -
  have create: "safe_op db (bind_err (take_sequence t db) (\<lambda>(n, db).
      bind_err (insert_command (new_command env t n ty hash payload) db) (\<lambda>db.
      bind_err (transitionTask (command_requested env task n ty) db) (\<lambda>(_, db).
      Inr (created_resolution n ty, created_fact env t n ty None db)))))" for task
  proof (rule safe_sequenced)
    show "saved_ok (new_command env t n ty hash payload) \<and> cmd_task_id (new_command env t n ty hash payload) = t \<and>
        cmd_sequence (new_command env t n ty hash payload) = n" for n
      by (simp add: saved_ok_new) (simp add: new_command_def)
    show "safe_op db (bind_err (transitionTask (command_requested env task n ty) db) (\<lambda>(_, db).
        Inr (created_resolution n ty, created_fact env t n ty None db)))" for n db
      by (rule safe.keeps_bind [OF safe_same_status])
        (auto simp: command_requested_def no_update_def intro: safe_created_fact)
  qed
  show ?thesis unfolding beginCommand_def
    by (auto split: option.splits intro!: create safe_duplicate_fact simp: safe.effect_refl)
qed

lemma safe_supersede_where: "safe_op db (supersede_where env P previous db)"
  unfolding supersede_where_def
  by (rule safe_then_facts) (auto intro!: safe_update_commands safe_fold safe_superseded_fact)

lemma safe_supersedeNormalCommandsForSafeStop:
  "safe_op db (supersedeNormalCommandsForSafeStop env t includeClaimed db)"
  unfolding supersedeNormalCommandsForSafeStop_def by (rule safe_supersede_where)

lemma safe_supersedeExpiredClaimedNormalCommandsForSafeStop:
  "safe_op db (supersedeExpiredClaimedNormalCommandsForSafeStop env t db)"
  unfolding supersedeExpiredClaimedNormalCommandsForSafeStop_def by (rule safe_supersede_where)

lemma safe_supersedeClaimedCommandForSafeStop: "safe_op db (supersedeClaimedCommandForSafeStop env held db)"
  unfolding supersedeClaimedCommandForSafeStop_def
  by (rule safe_then_facts) (auto intro!: safe_update_owned safe_superseded_fact simp: command_kept_def release_as_def)

lemma safe_command_failure:
  "safe_op db (transitionTask (command_failure env held v message reason suffix p1 p2) db)"
  by (rule safe_transitionTask) (auto simp: command_failure_def update_simps)

lemma safe_fail_if:
  "safe_db db (if b then bind_err (transitionTask (command_failure env held v message reason suffix p1 p2) db)
     (\<lambda>(_, db). Inr db) else Inr db)"
  by (auto simp: safe.effect_refl intro!: safe.keeps_bind [OF safe_command_failure])

lemma safe_rejectInputResponseAndFailTask:
  "safe_op db (rejectInputResponseAndFailTask env held reason message db)"
proof (cases "find_task (cmd_task_id held) db")
  case None
  then show ?thesis by (simp add: rejectInputResponseAndFailTask_def)
next
  case (Some task)
  show ?thesis unfolding rejectInputResponseAndFailTask_def Some option.case Let_def
    by (rule if_split [THEN iffD2], intro conjI impI, simp)
      (rule safe.keeps_bind [OF safe_update_commands [OF kept_release]],
       rule safe.keeps_after [OF safe_settle], rule safe_then_facts [OF safe_fail_if], rule safe_insertCommandFact)
qed

lemma safe_failInputResponseDelivery: "safe_op db (failInputResponseDelivery env held message db)"
proof (cases "find_task (cmd_task_id held) db")
  case None
  then show ?thesis by (simp add: failInputResponseDelivery_def)
next
  case (Some task)
  show ?thesis unfolding failInputResponseDelivery_def Some option.case Let_def
    by (rule safe.keeps_bind [OF safe_update_owned [OF kept_release]],
        rule safe.keeps_after [OF safe_settle], rule safe_then_facts [OF safe_fail_if], rule safe_insertCommandFact)
qed

lemma safe_answer_request: "safe_db db (answer_request env t a db)"
  unfolding answer_request_def Let_def by (auto intro!: safe_update_requests)

lemma safe_exhaust_update: "safe_op db (exhaust_update env held code message ty outcome db)"
  unfolding exhaust_update_def Let_def
  by (rule safe_then_facts [OF safe_update_owned safe.effect_trans [OF safe_settle safe_insertCommandFact]])
    (simp add: command_kept_def release_as_def)

lemma safe_acknowledgeUpdateAndCompleteInputAnswers:
  "safe_op db (acknowledgeUpdateAndCompleteInputAnswers env held ack answers db)"
proof (cases "find_task (cmd_task_id held) db")
  case None
  then show ?thesis by (simp add: acknowledgeUpdateAndCompleteInputAnswers_def)
next
  case (Some task)
  have answered: "safe_op db (transitionTask (input_answered_request env held task answers) db)" for db
    by (rule safe_same_status) (simp_all add: input_answered_request_def no_update_def Let_def)
  have tail: "safe_op db (bind_err (update_owned held (\<lambda>_. True) (acknowledge env ack) db) (\<lambda>db.
      Inr (acknowledged, insertCommandFact env (cmd_task_id held) (fact_of held ACKNOWLEDGED)
        ''task.command.acknowledged'' (extra_of (Some CLAIMED) None ''success'') db)))" for db
    by (rule safe_then_facts) (auto intro!: safe_update_owned safe_insertCommandFact)
  have deliver: "safe_op db (bind_err (fold_err (answer_request env (cmd_task_id held)) answers db) (\<lambda>db.
      bind_err (transitionTask (input_answered_request env held task answers)
        (settle_inbox held IB_ACKNOWLEDGED None db)) (\<lambda>(_, db).
      bind_err (update_owned held (\<lambda>_. True) (acknowledge env ack) db) (\<lambda>db.
      Inr (acknowledged, insertCommandFact env (cmd_task_id held) (fact_of held ACKNOWLEDGED)
        ''task.command.acknowledged'' (extra_of (Some CLAIMED) None ''success'') db)))))"
    by (rule safe.keeps_bind [OF safe.keeps_fold [OF safe_answer_request]],
        rule safe.keeps_after [OF safe_settle_inbox], rule safe.keeps_bind [OF answered], rule safe_pair, rule tail)
  show ?thesis unfolding acknowledgeUpdateAndCompleteInputAnswers_def Some option.case
    by (simp add: safe_exhaust_update deliver)
qed

lemma safe_terminal_exhausted: "safe_rel db (terminal_exhausted env held previous db)"
  by (simp add: terminal_exhausted_def safe_insertCommandFact)

lemma safe_rejectUserCancel:
  assumes "transition_ok transition"
  shows "safe_op db (rejectUserCancel env held revision transition ack db)"
proof (cases "find_task (cmd_task_id held) db")
  case None
  then show ?thesis by (simp add: rejectUserCancel_def)
next
  case (Some row)
  have tr: "safe_op db (transitionTask (cancel_rejected_request env held row revision transition ack) db)"
    by (rule safe_transitionTask, rule update_ok_transition [OF assms])
      (simp_all add: cancel_rejected_request_def transition_update_def)
  have tail: "safe_op db (bind_err (update_owned held (\<lambda>_. True)
      (\<lambda>c. (release_as env REJECTED code message c)\<lparr>cmd_adapter_ack := a\<rparr>) db) (\<lambda>db.
      Inr (r, insertCommandFact env t f ty x db)))" for r code message a t f ty x db
    by (rule safe_then_facts) (auto intro!: safe_update_owned safe_insertCommandFact simp: command_kept_def release_as_def)
  have late: "safe_op db (bind_err (checked (update_commands (is_command (cmd_task_id held) (cmd_sequence held))
      (\<lambda>c. release_as env EXHAUSTED (Some ''TASK_TERMINAL'') (cmd_last_error_message c) c) db)) (\<lambda>db.
      Inr (row, terminal_exhausted env held (cmd_state held) db)))"
    by (rule safe_then_facts) (auto intro!: safe_update_commands safe_terminal_exhausted)
  show ?thesis unfolding rejectUserCancel_def Some option.case
    by (auto simp: late intro!: safe.keeps_bind [OF tr] tail)
qed

lemma safe_failSafeStopUnconfirmed: "safe_op db (failSafeStopUnconfirmed env held message db)"
proof (cases "find_task (cmd_task_id held) db")
  case None
  then show ?thesis by (simp add: failSafeStopUnconfirmed_def)
next
  case (Some row)
  have late: "safe_op db (bind_err (checked (update_commands (held_by held)
      (release_as env EXHAUSTED code msg) db)) (\<lambda>db. Inr (r, g db)))"
    if "\<And>db. safe_rel db (g db)" for code msg r g db
    by (rule safe_then_facts) (auto intro!: safe_update_commands that)
  show ?thesis unfolding failSafeStopUnconfirmed_def Some option.case
    by (auto intro!: late safe_terminal_exhausted safe_insertCommandFact safe.keeps_bind [OF safe_command_failure])
qed

text \<open>Merging keeps the transition well-formed and, during a stop, the visible state.\<close>

lemma mergeStopState_ok:
  assumes "row_ok existing" "\<not> isTerminalState (internal_state existing)" "transition_ok t"
  shows "transition_ok (mergeStopState existing t)"
  using assms by (auto simp: mergeStopState_def transition_ok_def row_ok_def)

lemma safe_exhaust_all: "safe_db db (exhaust_all env t db)"
  unfolding exhaust_all_def exhausted_fact_def
  by (rule safe.keeps_bind [OF safe_update_commands])
    (auto intro!: safe_fold safe_insertCommandFact)

lemma safe_applySnapshot:
  assumes "transition_ok transition"
  shows "safe_op db (applySnapshot env t revision transition inputs db)"
proof (cases "find_task t db")
  case None
  then show ?thesis by (simp add: applySnapshot_def)
next
  case (Some existing)
  have tr: "safe_op db (transitionTask (snapshot_request env existing revision transition) db)"
    using Some find_task_SomeD [OF Some] assms
    by (intro safe_transition_row [of _ _ existing])
      (auto simp: snapshot_request_def transition_update_def intro!: update_ok_transition [OF mergeStopState_ok])
  have confirm: "safe_op db (bind_err (checked (update_task t (\<lambda>r. r\<lparr>last_confirmed_at := Some (now env)\<rparr>) db)) (\<lambda>db.
      case find_task t db of None \<Rightarrow> Inl e | Some r \<Rightarrow> Inr (r, db)))" for e
    by (rule safe.keeps_bind [OF safe_update_task safe_found]) (simp add: soft_update_def)
  have tail: "safe_op db (bind_err (upsertInputRequests t inputs db) (\<lambda>db.
      bind_err (if b then exhaust_all env t db else Inr db) (\<lambda>db. Inr (r, db))))" for b r db
    by (rule safe.keeps_bind [OF safe_upsertInputRequests], rule safe.keeps_bind [where get = "\<lambda>x. x"])
      (auto simp: safe_exhaust_all safe.effect_refl)
  show ?thesis unfolding applySnapshot_def Some option.case
    by (auto simp: safe.effect_refl intro!: confirm safe.keeps_bind [OF tr] tail)
qed

end
