(* ===== verification/Store_Input.thy ===== *)
theory Store_Input
  imports Store_Control
begin

text \<open>
  Input requests, the inbox of input responses and the observation log (\<^verbatim>\<open>tasks.ts\<close>).  A response
  is first accepted into the inbox under its request key and later promoted, with the task's other
  pending responses, to one update command.
\<close>

section \<open>Reads\<close>

text \<open>Requests are appended as they are created, so the rows of the table are already in the order of
  \<^verbatim>\<open>created_at\<close>.\<close>

definition listInputRequests :: "string \<Rightarrow> db \<Rightarrow> input_request_row list" where
  "listInputRequests t db = filter (\<lambda>q. ir_task_id q = t) (task_input_request db)"

text \<open>The \<^verbatim>\<open>Map\<close> has an entry for every given identifier, then one for every identifier found only
  after PostgreSQL has read the given text as a lower-case \<^verbatim>\<open>uuid\<close>.\<close>

definition listInputRequestsByTaskIds :: "string list \<Rightarrow> db \<Rightarrow> err + (string \<times> input_request_row list) list" where
  "listInputRequestsByTaskIds taskIds db =
     (if taskIds = [] then Inr []
      else bind_err (assertUuidList taskIds) (\<lambda>_.
        let found = filter (\<lambda>q. ir_task_id q \<in> set (map toLowerCase taskIds)) (task_input_request db);
            given_ids = rev (remdups (rev taskIds));
            other_ids = sort (remdups (filter (\<lambda>t. t \<notin> set taskIds) (map ir_task_id found)))
        in Inr (map (\<lambda>t. (t, filter (\<lambda>q. ir_task_id q = t) found)) (given_ids @ other_ids))))"

record ObservationPage =
  pg_observations :: "observation_row list"
  pg_nextCursor :: "nat option"
  pg_hasMore :: bool

definition listObservationPage :: "string \<Rightarrow> int option \<Rightarrow> int \<Rightarrow> db \<Rightarrow> err + ObservationPage" where
  "listObservationPage t beforeRevision limit db =
     (if limit < 1 \<or> limit > 100 then Inl (RangeError ''OBSERVATION_PAGE_SIZE_INVALID'')
      else if (case beforeRevision of None \<Rightarrow> False | Some b \<Rightarrow> \<not> isSafeInteger b \<or> b < 1)
        then Inl (RangeError ''OBSERVATION_CURSOR_INVALID'')
      else
        let found = order_limit (\<lambda>x. - int (ob_revision x)) (nat limit + 1)
              (filter (\<lambda>x. ob_task_id x = t \<and>
                 (case beforeRevision of None \<Rightarrow> True | Some b \<Rightarrow> int (ob_revision x) < b)) (task_observation db));
            hasMore = (length found > nat limit);
            rows = take (nat limit) found
        in Inr \<lparr>pg_observations = rows,
                pg_nextCursor = (if hasMore then (if rows = [] then None else Some (ob_revision (last rows))) else None),
                pg_hasMore = hasMore\<rparr>)"

definition listObservations :: "string \<Rightarrow> int option \<Rightarrow> int \<Rightarrow> db \<Rightarrow> err + observation_row list" where
  "listObservations t beforeRevision limit db =
     bind_err (listObservationPage t beforeRevision limit db) (\<lambda>p. Inr (rev (pg_observations p)))"

section \<open>Accepting responses\<close>

record InputResponseAcceptance =
  acceptedKeys :: "string list"
  ignoredUnknownKeys :: "string list"
  ignoredAnsweredKeys :: "string list"
  ignoredSupersededKeys :: "string list"
  duplicatePendingKeys :: "string list"

definition no_acceptance :: InputResponseAcceptance where
  "no_acceptance = \<lparr>acceptedKeys = [], ignoredUnknownKeys = [], ignoredAnsweredKeys = [],
     ignoredSupersededKeys = [], duplicatePendingKeys = []\<rparr>"

fun join_lines :: "string list \<Rightarrow> string" where
  "join_lines [] = []"
| "join_lines [s] = s"
| "join_lines (s # t # ss) = s @ CHR 0x0A # join_lines (t # ss)"

definition new_inbox :: "runtime_env \<Rightarrow> string \<Rightarrow> string \<Rightarrow> json \<Rightarrow> inbox_row" where
  "new_inbox env t key response =
     \<lparr>ib_task_id = t, ib_key = key, ib_response_hash = sha256 env (canonicalize response),
      ib_response_json = response, ib_state = IB_PENDING, ib_command_sequence = None,
      ib_accepted_at = clk env, ib_last_error_code = None\<rparr>"

text \<open>One iteration of the loop over the given responses; \<open>hashes\<close> collects the accepted ones.\<close>

definition accept_response ::
  "runtime_env \<Rightarrow> (input_request_row \<Rightarrow> json \<Rightarrow> err + unit) \<Rightarrow> string \<Rightarrow> string \<times> json
   \<Rightarrow> (InputResponseAcceptance \<times> string list) \<times> db \<Rightarrow> err + ((InputResponseAcceptance \<times> string list) \<times> db)" where
  "accept_response env validate t entry st =
     (case (entry, st) of ((key, response), ((r, hashes), db)) \<Rightarrow>
      (case first_row (\<lambda>q. ir_task_id q = t \<and> ir_key q = key) (task_input_request db) of
         None \<Rightarrow> Inr ((r\<lparr>ignoredUnknownKeys := ignoredUnknownKeys r @ [key]\<rparr>, hashes), db)
       | Some q \<Rightarrow>
           (case ir_status q of
              ANSWERED \<Rightarrow> Inr ((r\<lparr>ignoredAnsweredKeys := ignoredAnsweredKeys r @ [key]\<rparr>, hashes), db)
            | SUPERSEDED \<Rightarrow> Inr ((r\<lparr>ignoredSupersededKeys := ignoredSupersededKeys r @ [key]\<rparr>, hashes), db)
            | OPEN \<Rightarrow>
                bind_err (validate q response) (\<lambda>_.
                if \<exists>i \<in> set (task_input_response_inbox db). ib_task_id i = t \<and> ib_key i = key
                then Inr ((r\<lparr>duplicatePendingKeys := duplicatePendingKeys r @ [key]\<rparr>, hashes), db)
                else
                  let i = new_inbox env t key response in
                  bind_err (checked (db\<lparr>task_input_response_inbox := task_input_response_inbox db @ [i]\<rparr>)) (\<lambda>db.
                  Inr ((r\<lparr>acceptedKeys := acceptedKeys r @ [key]\<rparr>,
                        hashes @ [key @ '':'' @ ib_response_hash i]), db))))))"

definition acceptance_request :: "runtime_env \<Rightarrow> task_row \<Rightarrow> string list \<Rightarrow> string list \<Rightarrow> TaskTransitionRequest" where
  "acceptance_request env task keys hashes =
     \<lparr>tq_taskId = task_id task, tq_expectedVersion = Some (version task), tq_update = no_update,
      tq_observation = runtime_observation ''task.input_response_accepted'' (now env) ''INPUT_RESPONSE_ACCEPTED''
        (Some ''Task input response accepted for durable delivery.'') (substate task)
        [(''keys'', JArr (map JStr keys))],
      tq_outboxType = ''task.input_response_accepted'',
      tq_eventKey = [task_id task, ''input-response'', sha256 env (join_lines hashes)],
      tq_outboxPayload = [(''keys'', JArr (map JStr keys))]\<rparr>"

definition acceptMcpInputResponses ::
  "runtime_env \<Rightarrow> (input_request_row \<Rightarrow> json \<Rightarrow> err + unit) \<Rightarrow> string \<Rightarrow> AuthorizationContext
   \<Rightarrow> (string \<times> json) list \<Rightarrow> db \<Rightarrow> err + (InputResponseAcceptance \<times> db)" where
  "acceptMcpInputResponses env validate t a responses db =
     bind_err (getAuthorized env t a db) (\<lambda>task.
     bind_err (fold_err (accept_response env validate t) (sort_key (\<lambda>(k, _). collate env k) responses)
       ((no_acceptance, []), db)) (\<lambda>((r, hashes), db).
     if acceptedKeys r = [] then Inr (r, db)
     else bind_err (transitionTask (acceptance_request env task (acceptedKeys r) hashes) db) (\<lambda>(_, db).
       Inr (r, db))))"

section \<open>Promotion to update commands\<close>

definition pending_inbox :: "string \<Rightarrow> inbox_row \<Rightarrow> bool" where
  "pending_inbox t i = (ib_task_id i = t \<and> ib_state i = IB_PENDING)"

text \<open>The transaction of one task in \<^verbatim>\<open>promotePendingInputResponses\<close>; the value tells whether a command was
  created.\<close>

definition promoteTask :: "runtime_env \<Rightarrow> (inbox_row \<Rightarrow> bool) \<Rightarrow> string \<Rightarrow> db \<Rightarrow> err + (bool \<times> db)" where
  "promoteTask env avail t db =
     (case find_task t db of
        None \<Rightarrow> Inl (Error ''TASK_NOT_FOUND'')
      | Some task \<Rightarrow>
          let responses = sort_key (\<lambda>i. (ib_accepted_at i, ib_key i))
                (filter (\<lambda>i. avail i \<and> pending_inbox t i) (task_input_response_inbox db));
              keys = map ib_key responses;
              P = (\<lambda>i. pending_inbox t i \<and> ib_key i \<in> set keys)
          in if responses = [] then Inr (False, db)
             else if stop_in_progress task \<or> isTerminalState (internal_state task) then
               Inr (False, update_inbox P (\<lambda>i. i\<lparr>ib_state := IB_IGNORED,
                 ib_last_error_code := Some ''TASK_NOT_ACCEPTING_INPUT''\<rparr>) db)
             else
               bind_err (take_sequence t db) (\<lambda>(n, db).
               bind_err (insert_command (new_command env t n UPDATE
                   (sha256 env (join_lines (map (\<lambda>i. ib_key i @ '':'' @ ib_response_hash i) responses)))
                   [(''inputResponses'', JObj (map (\<lambda>i. (ib_key i, ib_response_json i)) responses))]) db) (\<lambda>db.
               if row_count P (task_input_response_inbox db) \<noteq> length responses
               then Inl (Error ''INPUT_RESPONSE_ASSIGNMENT_LOST'')
               else Inr (True, created_fact env t n UPDATE (Some ''INPUT_RESPONSE_ACCEPTED'')
                 (update_inbox P (\<lambda>i. i\<lparr>ib_state := IB_ASSIGNED, ib_command_sequence := Some n\<rparr>) db)))))"

definition promotion_candidates :: "nat \<Rightarrow> db \<Rightarrow> string list" where
  "promotion_candidates limit db =
     (let pending = filter (\<lambda>i. ib_state i = IB_PENDING) (task_input_response_inbox db);
          first = (\<lambda>t. Min (set (map ib_accepted_at (filter (\<lambda>i. ib_task_id i = t) pending))))
      in sort (order_limit (\<lambda>t. (first t, t)) limit (remdups (map ib_task_id pending))))"

text \<open>The loop: each task in its own transaction, the first error ends it.\<close>

fun promote_loop ::
  "runtime_env \<Rightarrow> (inbox_row \<Rightarrow> bool) \<Rightarrow> string list \<Rightarrow> nat \<Rightarrow> db \<Rightarrow> (err + nat) \<times> db" where
  "promote_loop env avail [] promoted db = (Inr promoted, db)"
| "promote_loop env avail (t # ts) promoted db =
     (case promoteTask env avail t db of
        Inl e \<Rightarrow> (Inl e, db)
      | Inr (created, db) \<Rightarrow> promote_loop env avail ts (if created then promoted + 1 else promoted) db)"

definition promotePendingInputResponses ::
  "runtime_env \<Rightarrow> (inbox_row \<Rightarrow> bool) \<Rightarrow> int \<Rightarrow> db \<Rightarrow> (err + nat) \<times> db" where
  "promotePendingInputResponses env avail limit db =
     (if limit < 1 \<or> limit > 1024 then (Inl (RangeError ''INPUT_RESPONSE_PROMOTION_LIMIT_INVALID''), db)
      else promote_loop env avail (promotion_candidates (nat limit) db) 0 db)"

section \<open>The operations respect the store invariant\<close>

lemma safe_accept_response:
  "keeps safe_rel snd (snd st) (accept_response env validate t entry st)"
proof -
  obtain key response r hashes db where e: "entry = (key, response)" "st = ((r, hashes), db)"
    by (metis prod.exhaust)
  have insert: "safe_op db (bind_err (checked (db\<lparr>task_input_response_inbox := is\<rparr>)) (\<lambda>db. Inr (x, db)))" for "is" and x :: "InputResponseAcceptance \<times> string list"
    by (rule safe.keeps_bind [OF safe_checked [OF safe_frame]]) (auto simp: safe.effect_refl)
  show ?thesis unfolding accept_response_def e
    by (auto split: option.splits request_status.splits simp: safe.effect_refl Let_def
        intro!: safe.keeps_bind_value insert)
qed

lemma safe_accept_all:
  "keeps safe_rel snd db (fold_err (accept_response env validate t) es (x, db))"
proof (induction es arbitrary: x db)
  case Nil
  then show ?case by (simp add: safe.effect_refl)
next
  case (Cons e es)
  have "keeps safe_rel snd (snd y) (fold_err (accept_response env validate t) es y)" for y
    using Cons.IH [of "snd y" "fst y"] by simp
  then show ?case
    using safe_accept_response [of "(x, db)"] by (simp, intro safe.keeps_bind [where get = snd]) auto
qed

lemma safe_acceptMcpInputResponses: "safe_op db (acceptMcpInputResponses env validate t a responses db)"
proof -
  have tr: "safe_op db (bind_err (transitionTask (acceptance_request env task ks hs) db) (\<lambda>(_, db). Inr (r, db)))"
    for task ks hs db and r :: InputResponseAcceptance
    by (rule safe.keeps_bind [OF safe_same_status])
      (auto simp: acceptance_request_def no_update_def safe.effect_refl)
  show ?thesis unfolding acceptMcpInputResponses_def
    by (rule safe.keeps_bind_value, rule safe.keeps_bind [OF safe_accept_all])
      (auto simp: safe.effect_refl intro!: tr)
qed

lemma safe_promoteTask: "safe_op db (promoteTask env avail t db)"
proof (cases "find_task t db")
  case None
  then show ?thesis by (simp add: promoteTask_def)
next
  case (Some task)
  have assign: "safe_op db (if b then Inl e else Inr (True, created_fact env t n UPDATE reason
      (update_inbox P (\<lambda>i. i\<lparr>ib_state := st, ib_command_sequence := Some n\<rparr>) db)))" for b e n reason P st db
    by (auto intro!: safe.effect_trans [OF safe_update_inbox safe_created_fact])
  have seq: "safe_op db (bind_err (take_sequence t db) (\<lambda>(n, db).
      bind_err (insert_command (new_command env t n UPDATE h p) db) (\<lambda>db. g n db)))"
    if "\<And>n db. safe_op db (g n db)" for h p g
    using that by (intro safe_sequenced) (auto simp: saved_ok_new, auto simp: new_command_def)
  show ?thesis unfolding promoteTask_def Some option.case Let_def
    by (auto simp: safe.effect_refl intro!: seq assign safe_update_inbox)
qed

lemma safe_promote_loop: "safe_rel db (snd (promote_loop env avail ts n db))"
proof (induction env avail ts n db rule: promote_loop.induct)
  case (1 env avail promoted db)
  then show ?case by (simp add: safe.effect_refl)
next
  case (2 env avail t ts promoted db)
  show ?case using safe_promoteTask [of db env avail t] 2
    by (auto split: sum.splits simp: safe.effect_refl intro: safe.effect_trans)
qed

lemma safe_promotePendingInputResponses:
  "safe_rel db (snd (promotePendingInputResponses env avail limit db))"
  unfolding promotePendingInputResponses_def by (simp add: safe.effect_refl safe_promote_loop)

end
