(* ===== verification/Store_Recovery.thy ===== *)
theory Store_Recovery
  imports Store_Schedule
begin

text \<open>
  The recovery bookkeeping of \<^verbatim>\<open>packages/persistence-postgres/src/tasks.ts\<close>: the lease that keeps two
  replicas from reconciling one task, the notes on successful and failed reconciliation with the
  back-off of the next one, the audit event of an identity conflict and the failure of a task the
  adapter no longer knows.  PostgreSQL's \<^verbatim>\<open>hashtext\<close>, from which the jitter is taken, is the
  argument \<open>hashtext\<close>.
\<close>

section \<open>The recovery lease\<close>

definition recovery_lease_key :: "string \<Rightarrow> string" where
  "recovery_lease_key t = ''sdar-recovery:'' @ t"

definition find_lease :: "string \<Rightarrow> db \<Rightarrow> lease_row option" where
  "find_lease k db = first_row (\<lambda>l. ls_key l = k) (runtime_lease db)"

text \<open>\<^verbatim>\<open>INSERT ... ON CONFLICT (lease_key) DO UPDATE ... WHERE expires_at <= clock_timestamp()\<close>: a free or
  expired lease is taken with the next fencing token, a live one is left alone.\<close>

definition claim_lease :: "runtime_env \<Rightarrow> string \<Rightarrow> string \<Rightarrow> int \<Rightarrow> db \<Rightarrow> bool \<times> db" where
  "claim_lease env k owner leaseMilliseconds db =
     (case find_lease k db of
        None \<Rightarrow> (True, db\<lparr>runtime_lease := runtime_lease db @
          [\<lparr>ls_key = k, ls_owner = owner, ls_fencing_token = 1, ls_expires_at = clk env + leaseMilliseconds\<rparr>]\<rparr>)
      | Some l \<Rightarrow>
          if ls_expires_at l \<le> clk env then
            (True, db\<lparr>runtime_lease := update_rows (\<lambda>l. ls_key l = k)
               (\<lambda>l. l\<lparr>ls_owner := owner, ls_fencing_token := ls_fencing_token l + 1,
                       ls_expires_at := clk env + leaseMilliseconds\<rparr>) (runtime_lease db)\<rparr>)
          else (False, db))"

definition release_lease :: "string \<Rightarrow> string \<Rightarrow> db \<Rightarrow> db" where
  "release_lease k owner db =
     db\<lparr>runtime_lease := filter (\<lambda>l. \<not> (ls_key l = k \<and> ls_owner l = owner)) (runtime_lease db)\<rparr>"

text \<open>\<^verbatim>\<open>withRecoveryLock\<close>: \<open>recover\<close> is the callback, which commits work of its own whether it
  returns or throws; the lease is given back in both cases.\<close>

definition withRecoveryLock ::
  "runtime_env \<Rightarrow> string \<Rightarrow> string \<Rightarrow> (db \<Rightarrow> (err + 'a) \<times> db) \<Rightarrow> int \<Rightarrow> db \<Rightarrow> (err + 'a option) \<times> db" where
  "withRecoveryLock env ownerId t recover leaseMilliseconds db =
     (let k = recovery_lease_key t
      in case claim_lease env k ownerId leaseMilliseconds db of
           (False, db) \<Rightarrow> (Inr None, db)
         | (True, db) \<Rightarrow>
             let (r, db) = recover db; db = release_lease k ownerId db
             in (case r of Inl e \<Rightarrow> Inl e | Inr v \<Rightarrow> Inr (Some v), db))"

section \<open>Reconciliation notes\<close>

definition recovery_request :: "runtime_env \<Rightarrow> task_row \<Rightarrow> TaskTransitionRequest" where
  "recovery_request env row =
     (let attempt = recovery_attempts row + 1 in
      \<lparr>tq_taskId = task_id row, tq_expectedVersion = Some (version row),
       tq_update = no_update\<lparr>up_recoveryAttempts := Some attempt, up_lastReconciledAt := Some (Some (now env)),
         up_nextRecoveryAt := Some (now env), up_recoveryFailureCount := Some 0\<rparr>,
       tq_observation = runtime_observation ''task.recovery'' (now env) ''RECONCILED''
         (Some ''Task reconciled with the Adapter.'') (substate row)
         [(''recoveryAttempt'', JNum (int attempt))],
       tq_outboxType = ''task.recovery'',
       tq_eventKey = [task_id row, ''recovery'', show_nat attempt],
       tq_outboxPayload = []\<rparr>)"

definition noteRecovery :: "runtime_env \<Rightarrow> string \<Rightarrow> db \<Rightarrow> err + (unit \<times> db)" where
  "noteRecovery env t db =
     (case find_task t db of
        None \<Rightarrow> Inl (Error ''TASK_NOT_FOUND'')
      | Some row \<Rightarrow> bind_err (transitionTask (recovery_request env row) db) (\<lambda>(_, db). Inr ((), db)))"

text \<open>\<^verbatim>\<open>LEAST(300000, 1000 * power(2, LEAST(recovery_failure_count, 8)))\<close> and the jitter from the
  identifier's hash.\<close>

definition recovery_delay :: "nat \<Rightarrow> int" where
  "recovery_delay failures = min 300000 (1000 * 2 ^ min failures 8)"

definition recovery_jitter :: "(string \<Rightarrow> int) \<Rightarrow> string \<Rightarrow> int" where
  "recovery_jitter hashtext t = (hashtext t + 2147483648) mod 251"

definition noteRecoveryFailure ::
  "runtime_env \<Rightarrow> (string \<Rightarrow> int) \<Rightarrow> string \<Rightarrow> instant \<Rightarrow> db \<Rightarrow> err + (unit \<times> db)" where
  "noteRecoveryFailure env hashtext t failedAt db =
     (case find_task t db of
        None \<Rightarrow> Inr ((), db)
      | Some row \<Rightarrow>
          if isTerminalState (internal_state row) then Inr ((), db)
          else
            let count = recovery_failure_count row + 1;
                next = failedAt + (recovery_delay (recovery_failure_count row) + recovery_jitter hashtext t)
            in bind_err (checked (update_task t (\<lambda>r. r\<lparr>recovery_failure_count := count,
                 next_recovery_at := next, updated_at := clk env\<rparr>) db)) (\<lambda>db.
               bind_err (captureTaskOperationalEvent t ''provider.recovery.lifecycle'' ''reconcile_failed''
                 [t, ''recovery-failed'', show_nat count] failedAt
                 [(''event'', JStr ''reconcile''), (''taskId'', JStr t),
                  (''recoveryAttempt'', JNum (int (recovery_attempts row))),
                  (''outcome'', JStr ''deferred''), (''reasonCode'', JStr ''RECOVERY_DEFERRED''),
                  (''nextRecoveryAt'', JStr (toISOString next))] db) (\<lambda>db.
               Inr ((), db))))"

definition identity_conflict_payload :: "task_row \<Rightarrow> string \<Rightarrow> json_object" where
  "identity_conflict_payload row detail =
    [(''taskId'', JStr (task_id row)), (''audit'', JBool True),
     (''reasonCode'', JStr ''ADAPTER_IDENTITY_MISMATCH''), (''detail'', JStr detail),
     (''internalState'', JStr (show_state (internal_state row))),
     (''status'', JStr (show_status (mcp_status row))),
     (''substate'', json_opt (substate row)),
     (''statusMessage'', json_opt (status_message row)),
     (''observationRevision'', JNum (int (observation_revision row))),
     (''adapterRevision'', JNum (adapter_revision row))]"

definition recordIdentityConflict :: "runtime_env \<Rightarrow> string \<Rightarrow> string \<Rightarrow> db \<Rightarrow> err + (unit \<times> db)" where
  "recordIdentityConflict env t detail db =
     (case find_task t db of
        None \<Rightarrow> Inl (Error ''TASK_NOT_FOUND'')
      | Some row \<Rightarrow> Inr ((), insertOutbox env t ''task.identity_conflict''
          (identity_conflict_payload row detail) [t, ''identity-conflict'', sha256 env detail] db))"

definition not_found_error :: "string \<Rightarrow> json_object" where
  "not_found_error message =
    [(''code'', JNum (-32603)), (''message'', JStr message),
     (''data'', JObj [(''reasonCode'', JStr ''EXECUTION_NOT_FOUND'')])]"

definition recovery_not_found_request :: "runtime_env \<Rightarrow> task_row \<Rightarrow> string \<Rightarrow> TaskTransitionRequest" where
  "recovery_not_found_request env row message =
     (let attempt = recovery_attempts row + 1 in
      \<lparr>tq_taskId = task_id row, tq_expectedVersion = Some (version row),
       tq_update = no_update\<lparr>up_internalState := Some TERMINAL_FAILED, up_mcpStatus := Some failed,
         up_substate := Some None, up_statusMessage := Some (Some message), up_result := Some None,
         up_error := Some (Some (not_found_error message)), up_recoveryAttempts := Some attempt,
         up_lastReconciledAt := Some (Some (now env))\<rparr>,
       tq_observation = runtime_observation ''task.failed'' (now env) ''EXECUTION_NOT_FOUND''
         (Some message) None [(''recoveryAttempt'', JNum (int attempt))],
       tq_outboxType = ''task.failed'',
       tq_eventKey = [task_id row, ''recovery-failed'', show_nat attempt],
       tq_outboxPayload = [(''reasonCode'', JStr ''EXECUTION_NOT_FOUND'')]\<rparr>)"

definition failRecoveryNotFound :: "runtime_env \<Rightarrow> string \<Rightarrow> string \<Rightarrow> db \<Rightarrow> err + (task_row \<times> db)" where
  "failRecoveryNotFound env t message db =
     (case find_task t db of
        None \<Rightarrow> Inl (Error ''TASK_NOT_FOUND'')
      | Some row \<Rightarrow>
          if isTerminalState (internal_state row) then Inr (row, db)
          else bind_err (transitionTask (recovery_not_found_request env row message) db)
            (\<lambda>((row, _), db). Inr (row, db)))"

section \<open>The operations respect the store invariant\<close>

lemma safe_claim_lease: "safe_rel db (snd (claim_lease env k owner lease db))"
  by (auto simp: claim_lease_def safe.effect_refl schema_ok_def schema_checks_def
      intro!: safe_frame split: option.splits)

lemma safe_release_lease: "safe_rel db (release_lease k owner db)"
  by (rule safe_frame) (auto simp: release_lease_def schema_ok_def schema_checks_def)

lemma safe_withRecoveryLock:
  assumes "\<And>db. safe_rel db (snd (recover db))"
  shows "safe_rel db (snd (withRecoveryLock env owner t recover lease db))"
proof -
  obtain b db1 where c: "claim_lease env (recovery_lease_key t) owner lease db = (b, db1)"
    by (metis prod.exhaust)
  have "safe_rel db db1" using safe_claim_lease [of db env "recovery_lease_key t" owner lease] c by simp
  moreover have "safe_rel db1 (release_lease (recovery_lease_key t) owner (snd (recover db1)))"
    using safe.effect_trans [OF assms safe_release_lease] .
  ultimately show ?thesis using c
    by (auto simp: withRecoveryLock_def split: bool.splits prod.splits intro: safe.effect_trans)
qed

lemma safe_noteRecovery: "safe_op db (noteRecovery env t db)"
proof -
  have "safe_op db (bind_err (transitionTask (recovery_request env row) db) (\<lambda>(_, db). Inr ((), db)))" for row
    by (rule safe.keeps_bind [OF safe_transitionTask])
      (auto simp: recovery_request_def Let_def no_update_def safe.effect_refl intro: update_ok_same_status)
  then show ?thesis by (auto simp: noteRecovery_def split: option.splits)
qed

lemma safe_noteRecoveryFailure: "safe_op db (noteRecoveryFailure env hashtext t at db)"
proof -
  have soft: "safe_db db (checked (update_task t (\<lambda>r. r\<lparr>recovery_failure_count := c,
      next_recovery_at := n, updated_at := u\<rparr>) db))" for c n u
    by (rule safe_update_task) (simp add: soft_update_def)
  have op: "safe_op db (bind_err (captureTaskOperationalEvent t rt et k a p db) (\<lambda>db. Inr ((), db)))"
    for rt et k a p db
    by (rule safe.keeps_bind [OF safe_operational]) (simp add: safe.effect_refl)
  show ?thesis unfolding noteRecoveryFailure_def Let_def
    by (auto split: option.splits simp: safe.effect_refl intro!: safe.keeps_bind [OF soft] op)
qed

lemma safe_recordIdentityConflict: "safe_op db (recordIdentityConflict env t detail db)"
  by (auto simp: recordIdentityConflict_def safe_insertOutbox split: option.splits)

lemma safe_failRecoveryNotFound: "safe_op db (failRecoveryNotFound env t message db)"
proof -
  have "safe_op db (bind_err (transitionTask (recovery_not_found_request env row message) db)
      (\<lambda>((row, _), db). Inr (row, db)))" for row
    by (rule safe.keeps_bind [OF safe_transitionTask])
      (auto simp: recovery_not_found_request_def update_simps safe.effect_refl isTerminalState_iff split: prod.splits)
  then show ?thesis by (auto simp: failRecoveryNotFound_def safe.effect_refl split: option.splits)
qed

section \<open>Back-off\<close>

interpretation recovery: backoff recovery_delay 300000
proof
  show "0 < recovery_delay n" for n by (simp add: recovery_delay_def)
  show "recovery_delay n \<le> 300000" for n by (simp add: recovery_delay_def)
  show "recovery_delay n \<le> recovery_delay (Suc n)" for n
    unfolding recovery_delay_def by (rule capped_power_Suc) simp
qed

end
