(* ===== verification/Store_Steps.thy ===== *)
theory Store_Steps
  imports Store_Input Store_Recovery
begin

text \<open>
  The task store as a state machine: one step is one committed repository operation, with any
  arguments and any clock.  Reachable stores satisfy the invariant, and every later store is an
  evolution of an earlier one.  An operation that throws is rolled back and is no step.  The retention cleaner, which is no
  operation of the repository and deletes rows, is added to these steps in the theory \<open>Service\<close>.
\<close>

inductive repo_step :: "db \<Rightarrow> db \<Rightarrow> bool" where
  create_admission: "createAdmissionIntent env input db = Inr (v, db') \<Longrightarrow> repo_step db db'"
| admission_uncertain: "markAdmissionUncertain env t db = Inr (v, db') \<Longrightarrow> repo_step db db'"
| record_rejection: "recordRejection env t response db = Inr (v, db') \<Longrightarrow> repo_step db db'"
| complete_without_task: "completeAdmissionWithoutTask env t response db = Inr (v, db') \<Longrightarrow> repo_step db db'"
| publish_accepted: "transition_ok (pb_transition p) \<Longrightarrow> publishAccepted env p db = Inr (v, db') \<Longrightarrow> repo_step db db'"
| publish_scheduled: "publishScheduled env input db = Inr (v, db') \<Longrightarrow> repo_step db db'"
| claim_scheduled: "claimDueScheduled avail at owner lease limit db = Inr (v, db') \<Longrightarrow> repo_step db db'"
| window_misses: "completeDueStartWindowMisses avail at limit db = Inr (v, db') \<Longrightarrow> repo_step db db'"
| claim_reconcile: "claimExpiredScheduledStarts avail at owner lease limit db = Inr (v, db') \<Longrightarrow> repo_step db db'"
| renew_schedule: "renewScheduleClaim env t owner lease db = Inr (v, db') \<Longrightarrow> repo_step db db'"
| accept_scheduled: "transition_ok transition \<Longrightarrow> acceptScheduled env t owner ext revision transition response inputs missed started db = Inr (v, db') \<Longrightarrow> repo_step db db'"
| schedule_retry: "releaseScheduleRetry env t owner at message db = Inr (v, db') \<Longrightarrow> repo_step db db'"
| schedule_uncertain: "markScheduleResponseUncertain env t owner at message db = Inr (v, db') \<Longrightarrow> repo_step db db'"
| defer_reconcile: "deferScheduleReconcile env t owner at message db = Inr (v, db') \<Longrightarrow> repo_step db db'"
| window_missed: "completeStartWindowMissed t at owner db = Inr (v, db') \<Longrightarrow> repo_step db db'"
| scheduled_rejection: "completeScheduledRejection t owner at reason message retryable db = Inr (v, db') \<Longrightarrow> repo_step db db'"
| window_stop: "requestStartWindowStop env t at db = Inr (v, db') \<Longrightarrow> repo_step db db'"
| claim_confirmations: "claimBoundStartConfirmations avail at owner limit lease db = Inr (v, db') \<Longrightarrow> repo_step db db'"
| renew_confirmation: "renewStartConfirmationClaim env t owner lease db = Inr (v, db') \<Longrightarrow> repo_step db db'"
| defer_confirmation: "deferStartConfirmation env t owner at message db = Inr (v, db') \<Longrightarrow> repo_step db db'"
| confirm_started: "transition_ok transition \<Longrightarrow> confirmBoundExecutionStarted t owner revision transition at db = Inr (v, db') \<Longrightarrow> repo_step db db'"
| stop_unconfirmed: "stopUnconfirmedBoundExecution env t owner at db = Inr (v, db') \<Longrightarrow> repo_step db db'"
| claim_deadlines: "claimExpiredDeadlines env avail at limit db = Inr (v, db') \<Longrightarrow> repo_step db db'"
| claim_commands: "claimDueCommands env cavail at owner lease limit db = Inr (v, db') \<Longrightarrow> repo_step db db'"
| claim_cancels: "claimDueCancelCommands env cavail at owner lease limit db = Inr (v, db') \<Longrightarrow> repo_step db db'"
| retry_command: "retryClaimedCommand env held at code message db = Inr (v, db') \<Longrightarrow> repo_step db db'"
| command_started: "recordCommandStarted env held db = Inr (v, db') \<Longrightarrow> repo_step db db'"
| renew_command: "renewCommandClaim env held lease db = Inr (v, db') \<Longrightarrow> repo_step db db'"
| reject_command: "rejectClaimedCommand env held code message db = Inr (v, db') \<Longrightarrow> repo_step db db'"
| acknowledge_claimed: "acknowledgeClaimedCommand env held ack db = Inr (v, db') \<Longrightarrow> repo_step db db'"
| acknowledge_command: "acknowledgeCommand env t n accepted ack db = Inr (v, db') \<Longrightarrow> repo_step db db'"
| begin_cancel: "beginCancel env t hash db = Inr (v, db') \<Longrightarrow> repo_step db db'"
| cancel_intent: "recordCooperativeCancellationIntent env t db = Inr (v, db') \<Longrightarrow> repo_step db db'"
| begin_command: "beginCommand env t ty hash payload db = Inr (v, db') \<Longrightarrow> repo_step db db'"
| supersede_normal: "supersedeNormalCommandsForSafeStop env t include_claimed db = Inr (v, db') \<Longrightarrow> repo_step db db'"
| supersede_claimed: "supersedeClaimedCommandForSafeStop env held db = Inr (v, db') \<Longrightarrow> repo_step db db'"
| supersede_expired_claims: "supersedeExpiredClaimedNormalCommandsForSafeStop env t db = Inr (v, db') \<Longrightarrow> repo_step db db'"
| reject_response: "rejectInputResponseAndFailTask env held code message db = Inr (v, db') \<Longrightarrow> repo_step db db'"
| fail_delivery: "failInputResponseDelivery env held message db = Inr (v, db') \<Longrightarrow> repo_step db db'"
| acknowledge_update: "acknowledgeUpdateAndCompleteInputAnswers env held ack answers db = Inr (v, db') \<Longrightarrow> repo_step db db'"
| reject_cancel: "transition_ok transition \<Longrightarrow> rejectUserCancel env held revision transition ackobj db = Inr (v, db') \<Longrightarrow> repo_step db db'"
| fail_stop: "failSafeStopUnconfirmed env held message db = Inr (v, db') \<Longrightarrow> repo_step db db'"
| apply_snapshot: "transition_ok transition \<Longrightarrow> applySnapshot env t revision transition inputs db = Inr (v, db') \<Longrightarrow> repo_step db db'"
| accept_responses: "acceptMcpInputResponses env validate t a responses db = Inr (v, db') \<Longrightarrow> repo_step db db'"
| note_recovery: "noteRecovery env t db = Inr (v, db') \<Longrightarrow> repo_step db db'"
| note_failure: "noteRecoveryFailure env hashtext t at db = Inr (v, db') \<Longrightarrow> repo_step db db'"
| identity_conflict: "recordIdentityConflict env t detail db = Inr (v, db') \<Longrightarrow> repo_step db db'"
| not_found: "failRecoveryNotFound env t message db = Inr (v, db') \<Longrightarrow> repo_step db db'"
| promote_responses: "promotePendingInputResponses env iavail batch db = (v, db') \<Longrightarrow> repo_step db db'"
| take_lease: "claim_lease env k owner lease db = (v, db') \<Longrightarrow> repo_step db db'"
| give_lease: "release_lease k owner db = db' \<Longrightarrow> repo_step db db'"

inductive_cases repo_stepE: "repo_step db db'"

text \<open>The lemmas on the single operations.\<close>

lemmas safe_operations =
  safe_createAdmissionIntent
  safe_markAdmissionUncertain
  safe_recordRejection
  safe_completeAdmissionWithoutTask
  safe_publishAccepted
  safe_publishScheduled
  safe_claimDueScheduled
  safe_completeDueStartWindowMisses
  safe_claimExpiredScheduledStarts
  safe_renewScheduleClaim
  safe_acceptScheduled
  safe_releaseScheduleRetry
  safe_markScheduleResponseUncertain
  safe_deferScheduleReconcile
  safe_completeStartWindowMissed
  safe_completeScheduledRejection
  safe_requestStartWindowStop
  safe_claimBoundStartConfirmations
  safe_renewStartConfirmationClaim
  safe_deferStartConfirmation
  safe_confirmBoundExecutionStarted
  safe_stopUnconfirmedBoundExecution
  safe_claimExpiredDeadlines
  safe_claimDueCommands
  safe_claimDueCancelCommands
  safe_retryClaimedCommand
  safe_recordCommandStarted
  safe_renewCommandClaim
  safe_rejectClaimedCommand
  safe_acknowledgeClaimedCommand
  safe_acknowledgeCommand
  safe_beginCancel
  safe_recordCooperativeCancellationIntent
  safe_beginCommand
  safe_supersedeNormalCommandsForSafeStop
  safe_supersedeClaimedCommandForSafeStop
  safe_supersedeExpiredClaimedNormalCommandsForSafeStop
  safe_rejectInputResponseAndFailTask
  safe_failInputResponseDelivery
  safe_acknowledgeUpdateAndCompleteInputAnswers
  safe_rejectUserCancel
  safe_failSafeStopUnconfirmed
  safe_applySnapshot
  safe_acceptMcpInputResponses
  safe_noteRecovery
  safe_noteRecoveryFailure
  safe_recordIdentityConflict
  safe_failRecoveryNotFound

text \<open>The store before the first request: no tasks, any operation snapshots.\<close>

definition initial_store :: "db \<Rightarrow> bool" where
  "initial_store db = (\<exists>snapshots. db = empty_db\<lparr>operation_snapshot := snapshots\<rparr>)"

lemma safe_outcome: "m = Inr (v, db') \<Longrightarrow> safe_op db m \<Longrightarrow> safe_rel db db'"
  by (simp add: keeps_def)

lemma repo_step_safe: "repo_step db db' \<Longrightarrow> safe_rel db db'"
proof (induction rule: repo_step.induct)
  case (promote_responses env iavail batch db v db')
  then show ?case using safe_promotePendingInputResponses [of db env iavail batch] by simp
next
  case (take_lease env k owner lease db v db')
  then show ?case using safe_claim_lease [of db env k owner lease] by simp
next
  case (give_lease k owner db db')
  then show ?case using safe_release_lease by blast
qed (erule safe_outcome, rule safe_operations; assumption)+

lemma initial_store_inv: "initial_store db \<Longrightarrow> db_inv db"
  by (auto simp: initial_store_def db_inv_def schema_ok_def schema_checks_def empty_db_def
      execution_keys_def tasks_inv_def observations_inv_def commands_inv_def)

interpretation store: step_invariant initial_store repo_step db_inv
  by unfold_locales (auto simp: initial_store_inv dest: repo_step_safe simp: safe_rel_def)

interpretation progress: step_progress repo_step safe_rel
  by unfold_locales (auto intro: safe.effect_refl safe.effect_trans repo_step_safe)

definition reachable_store :: "db \<Rightarrow> bool" where
  "reachable_store db = (\<exists>s. initial_store s \<and> repo_step\<^sup>*\<^sup>* s db)"

lemma reachable_store_inv: "reachable_store db \<Longrightarrow> db_inv db"
  by (auto simp: reachable_store_def intro: store.reachable_inv)

lemma later_store:
  assumes "reachable_store db" "repo_step\<^sup>*\<^sup>* db db'"
  shows "db_inv db' \<and> evolves db db'"
  using progress.steps_rel [OF assms(2)] reachable_store_inv [OF assms(1)] by (simp add: safe_rel_def)

end
