(* ===== verification/Adapter_Events.thy ===== *)
theory Adapter_Events
  imports Adapter
begin

text \<open>
  Identity and order of business events (\<^verbatim>\<open>packages/adapter-protocol/src/business-events.ts\<close>): the parsing of source
  sequence numbers, event identifiers, the canonical text that is hashed, the normal form of timestamps and the check
  of a source's declared capability.  SHA-256 and Unicode NFC normalization are arguments.
\<close>

section \<open>Reading integers\<close>

text \<open>\<^verbatim>\<open>BigInt(text)\<close>: surrounding white space is ignored, the empty text is zero, a decimal literal may be signed, and
  hexadecimal, octal and binary literals may not; anything else is a syntax error.\<close>

definition js_space :: "char \<Rightarrow> bool" where
  "js_space c = (of_char c \<in> {9, 10, 11, 12, 13, 32, 160 :: nat})"

definition js_trim :: "string \<Rightarrow> string" where
  "js_trim s = rev (dropWhile js_space (rev (dropWhile js_space s)))"

definition digit_value :: "char \<Rightarrow> nat" where
  "digit_value c = length (takeWhile (\<lambda>d. d \<noteq> lower_char c) ''0123456789abcdef'')"

definition read_radix :: "nat \<Rightarrow> string \<Rightarrow> nat option" where
  "read_radix b ds =
     (if ds \<noteq> [] \<and> list_all (\<lambda>c. digit_value c < b) ds then Some (foldl (\<lambda>acc c. b * acc + digit_value c) 0 ds) else None)"

definition BigInt_value :: "string \<Rightarrow> int option" where
  "BigInt_value text =
     (let t = js_trim text; p = map lower_char (take 2 t) in
      if t = [] then Some 0
      else if p = ''0x'' then map_option int (read_radix 16 (drop 2 t))
      else if p = ''0o'' then map_option int (read_radix 8 (drop 2 t))
      else if p = ''0b'' then map_option int (read_radix 2 (drop 2 t))
      else if hd t = CHR ''-'' then map_option (\<lambda>n. - int n) (read_radix 10 (tl t))
      else if hd t = CHR ''+'' then map_option int (read_radix 10 (tl t))
      else map_option int (read_radix 10 t))"

definition js_BigInt :: "string \<Rightarrow> err + int" where
  "js_BigInt text =
     (case BigInt_value text of
        None \<Rightarrow> Inl (Error (''Cannot convert '' @ text @ '' to a BigInt''))
      | Some n \<Rightarrow> Inr n)"

section \<open>Sequence numbers\<close>

definition MAX_SIGNED_BIGINT_SEQUENCE :: int where
  "MAX_SIGNED_BIGINT_SEQUENCE = 9223372036854775807"

text \<open>\<^verbatim>\<open>/^[1-9][0-9]{0,18}$/\<close>.\<close>

definition sequence_format :: "string \<Rightarrow> bool" where
  "sequence_format v =
     (v \<noteq> [] \<and> list_all is_digit v \<and> hd v \<noteq> CHR ''0'' \<and> length v \<le> 19)"

text \<open>The guard reads \<^verbatim>\<open>!(allowZero ? /.../ : /.../.test(value))\<close>: with \<open>allowZero\<close> the regular expression itself is negated, and an object is
  true, so nothing is tested.\<close>

definition parseBusinessEventSequence :: "string \<Rightarrow> bool \<Rightarrow> err + int" where
  "parseBusinessEventSequence v allowZero =
     (if \<not> (if allowZero then True else sequence_format v) then Inl (Error ''BUSINESS_EVENT_SEQUENCE_INVALID'')
      else bind_err (js_BigInt v) (\<lambda>parsed.
        if parsed > MAX_SIGNED_BIGINT_SEQUENCE then Inl (Error ''BUSINESS_EVENT_SEQUENCE_INVALID'') else Inr parsed))"

section \<open>Identifiers and canonical text\<close>

fun join_nul :: "string list \<Rightarrow> string" where
  "join_nul [] = []"
| "join_nul [s] = s"
| "join_nul (s # t # ss) = s @ CHR 0x00 # join_nul (t # ss)"

definition businessEventId :: "(string \<Rightarrow> string) \<Rightarrow> string \<Rightarrow> string \<Rightarrow> string \<Rightarrow> string \<Rightarrow> string" where
  "businessEventId sha256_base64url providerId sourceId sourceStreamId sourceEventId =
     sha256_base64url (join_nul [providerId, sourceId, sourceStreamId, sourceEventId])"

text \<open>The values these functions take are unknown: beside what a JSON text can say there are the numbers that are not finite (\<open>VNum None\<close>) and the
  values that have no JSON text at all (\<open>VOther\<close>: \<^verbatim>\<open>undefined\<close>, functions, symbols and big integers).\<close>

datatype js_value = VNull | VBool bool | VNum "int option" | VStr string | VArr "js_value list" | VObj "(string \<times> js_value) list" | VOther

primrec of_json :: "json \<Rightarrow> js_value" where
  "of_json JNull = VNull"
| "of_json (JBool b) = VBool b"
| "of_json (JNum n) = VNum (Some n)"
| "of_json (JStr s) = VStr s"
| "of_json (JArr xs) = VArr (map of_json xs)"
| "of_json (JObj kvs) = VObj (map (map_prod id of_json) kvs)"

text \<open>\<^verbatim>\<open>normalizeUnicode\<close>.  Assigning the key \<^verbatim>\<open>__proto__\<close> sets the prototype of the result and adds no property.\<close>

fun normalizeUnicode :: "(string \<Rightarrow> string) \<Rightarrow> js_value \<Rightarrow> err + js_value"
  and normalize_items :: "(string \<Rightarrow> string) \<Rightarrow> js_value list \<Rightarrow> err + js_value list"
  and normalize_fields :: "(string \<Rightarrow> string) \<Rightarrow> (string \<times> js_value) list \<Rightarrow> (string \<times> js_value) list \<Rightarrow> err + (string \<times> js_value) list" where
  "normalizeUnicode nfc (VStr s) = Inr (VStr (nfc s))"
| "normalizeUnicode nfc (VArr xs) = bind_err (normalize_items nfc xs) (\<lambda>ys. Inr (VArr ys))"
| "normalizeUnicode nfc (VObj kvs) = bind_err (normalize_fields nfc kvs []) (\<lambda>r. Inr (VObj r))"
| "normalizeUnicode nfc VNull = Inr VNull"
| "normalizeUnicode nfc (VBool b) = Inr (VBool b)"
| "normalizeUnicode nfc (VNum n) = Inr (VNum n)"
| "normalizeUnicode nfc VOther = Inr VOther"
| "normalize_items nfc [] = Inr []"
| "normalize_items nfc (x # xs) =
     bind_err (normalizeUnicode nfc x) (\<lambda>y. bind_err (normalize_items nfc xs) (\<lambda>ys. Inr (y # ys)))"
| "normalize_fields nfc [] r = Inr r"
| "normalize_fields nfc ((key, child) # kvs) r =
     (if nfc key \<in> fst ` set r then Inl (Error ''BUSINESS_EVENT_UNICODE_KEY_COLLISION'')
      else bind_err (normalizeUnicode nfc child) (\<lambda>v.
        normalize_fields nfc kvs (if nfc key = ''__proto__'' then r else r @ [(nfc key, v)])))"

text \<open>\<^verbatim>\<open>serialize\<close>: scalars as \<^verbatim>\<open>JSON.stringify\<close> prints them, objects with their keys in ascending order; the first value in this order
  that has no text is an error.\<close>

primrec all_texts :: "(err + string) list \<Rightarrow> err + string list" where
  "all_texts [] = Inr []"
| "all_texts (r # rs) = bind_err r (\<lambda>t. bind_err (all_texts rs) (\<lambda>ts. Inr (t # ts)))"

primrec serialize :: "js_value \<Rightarrow> err + string" where
  "serialize VNull = Inr ''null''"
| "serialize (VBool b) = Inr (if b then ''true'' else ''false'')"
| "serialize (VStr s) = Inr (json_quote s)"
| "serialize (VNum n) = (case n of None \<Rightarrow> Inl (Error ''BUSINESS_EVENT_CANONICAL_NUMBER_INVALID'') | Some i \<Rightarrow> Inr (show_int i))"
| "serialize (VArr xs) = bind_err (all_texts (map serialize xs)) (\<lambda>ts. Inr (''['' @ join_comma ts @ '']''))"
| "serialize (VObj kvs) =
     bind_err (all_texts (map (\<lambda>(key, child). bind_err child (\<lambda>t. Inr (json_quote key @ '':'' @ t)))
       (sort_key fst (map (map_prod id serialize) kvs)))) (\<lambda>ts. Inr (''{'' @ join_comma ts @ ''}''))"
| "serialize VOther = Inl (Error ''BUSINESS_EVENT_CANONICAL_VALUE_INVALID'')"

definition canonicalJson :: "(string \<Rightarrow> string) \<Rightarrow> js_value \<Rightarrow> err + string" where
  "canonicalJson nfc v = bind_err (normalizeUnicode nfc v) serialize"

definition canonicalSha256 :: "(string \<Rightarrow> string) \<Rightarrow> (string \<Rightarrow> string) \<Rightarrow> js_value \<Rightarrow> err + string" where
  "canonicalSha256 sha256_hex nfc v = bind_err (canonicalJson nfc v) (\<lambda>t. Inr (''sha256:'' @ sha256_hex t))"

section \<open>Timestamps\<close>

text \<open>\<^verbatim>\<open>Date.UTC\<close> with a month from 0 that may run over; years below 100 are in the twentieth century.\<close>

definition Date_UTC :: "int \<Rightarrow> int \<Rightarrow> int \<Rightarrow> int \<Rightarrow> int \<Rightarrow> int \<Rightarrow> instant" where
  "Date_UTC year month day hour minute second =
     (let y = (if 0 \<le> year \<and> year \<le> 99 then 1900 + year else year)
      in (day_number (y + month div 12) (month mod 12 + 1) 1 + (day - 1)) * 86400000
         + hour * 3600000 + minute * 60000 + second * 1000)"

definition nano_format :: "string \<Rightarrow> bool" where
  "nano_format v =
     (let rest = drop 19 v in
      matches_template ''####-##-##T##:##:##'' (take 19 v) \<and>
      (if take 1 rest = ''.''
       then takeWhile is_digit (tl rest) \<noteq> [] \<and> length (takeWhile is_digit (tl rest)) \<le> 9 \<and> is_zone (dropWhile is_digit (tl rest))
       else is_zone rest))"

definition strip_zeros :: "string \<Rightarrow> string" where
  "strip_zeros s = rev (dropWhile (\<lambda>c. c = CHR ''0'') (rev s))"

definition normalizeRfc3339Nano :: "string \<Rightarrow> err + string" where
  "normalizeRfc3339Nano v =
     (if \<not> nano_format v then Inl (Error ''BUSINESS_EVENT_TIMESTAMP_INVALID'')
      else
        let rest = drop 19 v;
            fraction = (if take 1 rest = ''.'' then takeWhile is_digit (tl rest) else []);
            zone = (if take 1 rest = ''.'' then dropWhile is_digit (tl rest) else rest);
            offsetMinutes = (if zone = ''Z'' then 0
              else (if take 1 zone = ''-'' then -1 else 1) * (field 1 2 zone * 60 + field 4 2 zone));
            utc = Date_UTC (field 0 4 v) (field 5 2 v - 1) (field 8 2 v) (field 11 2 v) (field 14 2 v - offsetMinutes) (field 17 2 v);
            base = take 19 (toISOString utc);
            normalizedFraction = strip_zeros fraction
        in if \<not> valid_date utc then Inl (Error ''BUSINESS_EVENT_TIMESTAMP_INVALID'')
           else Inr (base @ (if normalizedFraction = [] then [] else CHR ''.'' # normalizedFraction) @ ''Z''))"

section \<open>Source capabilities\<close>

datatype BusinessEventDeliverySemantics = durable_at_least_once | best_effort_live

record BusinessEventSourceCapability =
  bc_sourceId :: string
  bc_sourceStreamId :: string
  bc_deliverySemantics :: BusinessEventDeliverySemantics
  bc_replaySupported :: bool
  bc_sourceRetentionMs :: string
  bc_maxEventBytes :: string
  bc_maxPayloadDepth :: int
  bc_maxPayloadNodes :: int
  bc_maxPayloadStringBytes :: string

definition is_letter :: "char \<Rightarrow> bool" where
  "is_letter c = (let n = of_char c :: nat in 65 \<le> n \<and> n \<le> 90 \<or> 97 \<le> n \<and> n \<le> 122)"

text \<open>\<^verbatim>\<open>/^[A-Za-z0-9][A-Za-z0-9 extra]{0,n}$/\<close>.\<close>

definition name_format :: "string \<Rightarrow> nat \<Rightarrow> string \<Rightarrow> bool" where
  "name_format extra n v =
     (v \<noteq> [] \<and> (is_letter (hd v) \<or> is_digit (hd v)) \<and> length v \<le> n + 1 \<and>
      list_all (\<lambda>c. is_letter c \<or> is_digit c \<or> c \<in> set extra) (tl v))"

definition is_hex :: "char \<Rightarrow> bool" where
  "is_hex c = (c \<in> set ''0123456789abcdef'')"

definition uuid_format :: "string \<Rightarrow> bool" where
  "uuid_format v =
     list_all2 (\<lambda>p c. if p = CHR ''#'' then is_hex c else p = c) ''########-####-####-####-############'' v"

definition validateSemantics :: "BusinessEventDeliverySemantics \<Rightarrow> bool \<Rightarrow> string \<Rightarrow> err + unit" where
  "validateSemantics semantics replaySupported retentionMs =
     (case semantics of
        durable_at_least_once \<Rightarrow>
          if \<not> replaySupported then Inl (Error ''BUSINESS_EVENT_SOURCE_SEMANTICS_INVALID'')
          else bind_err (js_BigInt retentionMs) (\<lambda>r.
            if r \<le> 0 then Inl (Error ''BUSINESS_EVENT_SOURCE_SEMANTICS_INVALID'') else Inr ())
      | best_effort_live \<Rightarrow>
          if replaySupported then Inl (Error ''BUSINESS_EVENT_SOURCE_SEMANTICS_INVALID'') else Inr ())"

definition validateBusinessEventSourceCapability :: "BusinessEventSourceCapability \<Rightarrow> err + unit" where
  "validateBusinessEventSourceCapability c =
     (if \<not> name_format ''._:-'' 127 (bc_sourceId c) then Inl (Error ''BUSINESS_EVENT_SOURCE_ID_INVALID'')
      else if \<not> uuid_format (bc_sourceStreamId c) then Inl (Error ''BUSINESS_EVENT_SOURCE_STREAM_ID_INVALID'')
      else
        bind_err (validateSemantics (bc_deliverySemantics c) (bc_replaySupported c) (bc_sourceRetentionMs c)) (\<lambda>_.
        bind_err (js_BigInt (bc_maxEventBytes c)) (\<lambda>eventBytes.
        bind_err (js_BigInt (bc_maxPayloadStringBytes c)) (\<lambda>stringBytes.
        if list_ex (\<lambda>(v, minimum, maximum). v < minimum \<or> v > maximum)
             [(eventBytes, 1024, 1048576), (stringBytes, 64, 1048576),
              (bc_maxPayloadDepth c, 1, 64), (bc_maxPayloadNodes c, 16, 100000)]
        then Inl (Error ''BUSINESS_EVENT_SOURCE_LIMIT_INVALID'') else Inr ()))))"

section \<open>What a sequence number is\<close>

lemma read_nat_snoc: "read_nat (ds @ [c]) = 10 * read_nat ds + read_digit c"
  by (simp add: read_nat_def)

lemma digit_char_read_digit: "is_digit c \<Longrightarrow> digit_char (read_digit c) = c \<and> read_digit c < 10"
  by (auto simp: is_digit_def digit_char_def read_digit_def)

lemma read_nat_zero: "list_all is_digit ds \<Longrightarrow> ds \<noteq> [] \<Longrightarrow> hd ds \<noteq> CHR ''0'' \<Longrightarrow> 0 < read_nat ds"
proof (induction ds rule: rev_induct)
  case (snoc c ds)
  show ?case
  proof (cases "ds = []")
    case True
    then show ?thesis using snoc.prems by (auto simp: read_nat_def read_digit_def is_digit_def)
  qed (use snoc in \<open>simp add: read_nat_snoc\<close>)
qed simp

lemma show_read_nat: "list_all is_digit ds \<Longrightarrow> ds \<noteq> [] \<Longrightarrow> hd ds \<noteq> CHR ''0'' \<Longrightarrow> show_nat (read_nat ds) = ds"
proof (induction ds rule: rev_induct)
  case (snoc c ds)
  have c: "digit_char (read_digit c) = c" "read_digit c < 10" using snoc.prems by (auto dest: digit_char_read_digit)
  show ?case
  proof (cases "ds = []")
    case True
    then show ?thesis using c by (subst show_nat.simps) (simp add: read_nat_def)
  next
    case False
    then have "show_nat (read_nat ds) = ds" "0 < read_nat ds" using snoc read_nat_zero [of ds] by auto
    then show ?thesis using c by (subst show_nat.simps) (simp add: read_nat_snoc)
  qed
qed simp

lemma length_show_nat: "n < 10 ^ k \<Longrightarrow> 0 < k \<Longrightarrow> length (show_nat n) \<le> k"
proof (induction n arbitrary: k rule: show_nat.induct)
  case (1 n)
  show ?case
  proof (cases "n < 10")
    case True
    then show ?thesis using 1(3) by (subst show_nat.simps) simp
  next
    case False
    obtain j where k: "k = Suc j" using "1.prems"(2) by (cases k) auto
    have "j \<noteq> 0" using "1.prems"(1) False k by (intro notI) simp
    have "n div 10 < 10 ^ j" using "1.prems"(1) k by (simp add: less_mult_imp_div_less mult.commute)
    then show ?thesis using "1.IH" [of j] False k \<open>j \<noteq> 0\<close> by (subst show_nat.simps) simp
  qed
qed

lemma hd_show_nat_pos: "0 < n \<Longrightarrow> hd (show_nat n) \<noteq> CHR ''0''"
proof (induction n rule: show_nat.induct)
  case (1 n)
  show ?case
  proof (cases "n < 10")
    case True
    then show ?thesis using 1(2) by (subst show_nat.simps) (auto dest!: less_10_cases simp: digit_char_def)
  next
    case False
    then show ?thesis using "1.IH" by (subst show_nat.simps) (simp add: hd_append)
  qed
qed

lemma digit_facts:
  assumes "is_digit c"
  shows "\<not> js_space c" "digit_value c = read_digit c" "digit_value c < 10" "c \<noteq> CHR ''-''" "c \<noteq> CHR ''+''" "lower_char c = c"
    "c \<notin> set ''xob''"
proof -
  obtain d where d: "c = digit_char d" "d < 10" using assms digit_char_read_digit by metis
  show "\<not> js_space c" using d by (auto dest!: less_10_cases simp: digit_char_def js_space_def)
  show lower: "lower_char c = c" using d by (auto dest!: less_10_cases simp: digit_char_def lower_char_def)
  show "c \<noteq> CHR ''-''" "c \<noteq> CHR ''+''" "c \<notin> set ''xob''" using d by (auto dest!: less_10_cases simp: digit_char_def)
  have "digit_value c = d" using d unfolding digit_value_def lower by (auto dest!: less_10_cases simp: digit_char_def)
  then show "digit_value c = read_digit c" "digit_value c < 10" using d by (simp_all add: read_digit_char)
qed

lemma BigInt_value_digits:
  assumes "sequence_format v"
  shows "BigInt_value v = Some (int (read_nat v))"
proof -
  have digits: "list_all is_digit v" "v \<noteq> []" using assms by (auto simp: sequence_format_def)
  have trim: "dropWhile js_space w = w" if "list_all is_digit w" for w
    using that digit_facts(1) by (cases w) auto
  have "js_trim v = v" using trim [of v] trim [of "rev v"] digits by (simp add: js_trim_def list_all_iff)
  moreover have "map lower_char (take 2 v) \<noteq> ''0'' @ [x]" if "x \<in> set ''xob''" for x
    using digits that digit_facts(6,7) by (cases v; cases "tl v") auto
  moreover have "hd v \<noteq> CHR ''-''" "hd v \<noteq> CHR ''+''" using digits digit_facts(4,5) by (cases v; auto)+
  moreover have "read_radix 10 v = Some (read_nat v)"
  proof -
    have "foldl (\<lambda>acc c. 10 * acc + digit_value c) a v = foldl (\<lambda>acc c. 10 * acc + read_digit c) a v" for a
      using digits(1) digit_facts(2) by (intro foldl_cong) (auto simp: list_all_iff)
    then show ?thesis using digits digit_facts(3) by (simp add: read_radix_def read_nat_def list_all_iff)
  qed
  ultimately show ?thesis using digits(2) by (simp add: BigInt_value_def Let_def)
qed

lemma sequence_format_show:
  assumes "0 < m" "int m \<le> MAX_SIGNED_BIGINT_SEQUENCE"
  shows "sequence_format (show_nat m)"
proof -
  have "m < 10 ^ 19" using assms(2) by (simp add: MAX_SIGNED_BIGINT_SEQUENCE_def)
  then show ?thesis using length_show_nat [of m 19] hd_show_nat_pos [OF assms(1)] show_nat_digits
    by (auto simp: sequence_format_def list_all_iff)
qed

text \<open>A source sequence number is read back exactly as it prints: without the zero option the texts accepted are the
  decimal numerals, without leading zeros, of the positive 64-bit numbers, and the value is that number.  With the zero
  option the format is not checked at all: every text that denotes an integer at most the bound is accepted, a negative one
  included.\<close>

theorem sequence_parsing:
  "(parseBusinessEventSequence v False = Inr n \<longleftrightarrow>
      (\<exists>m. v = show_nat m \<and> n = int m \<and> 1 \<le> n \<and> n \<le> MAX_SIGNED_BIGINT_SEQUENCE)) \<and>
   (parseBusinessEventSequence v True = Inr n \<longleftrightarrow> BigInt_value v = Some n \<and> n \<le> MAX_SIGNED_BIGINT_SEQUENCE) \<and>
   parseBusinessEventSequence ''-5'' True = Inr (-5)"
proof (intro conjI)
  show "parseBusinessEventSequence v True = Inr n \<longleftrightarrow> BigInt_value v = Some n \<and> n \<le> MAX_SIGNED_BIGINT_SEQUENCE"
    by (auto simp: parseBusinessEventSequence_def js_BigInt_def split: option.splits)
  show "parseBusinessEventSequence ''-5'' True = Inr (-5)"
    by (simp add: parseBusinessEventSequence_def js_BigInt_def BigInt_value_def Let_def js_trim_def js_space_def
        read_radix_def digit_value_def lower_char_def MAX_SIGNED_BIGINT_SEQUENCE_def)
  show "parseBusinessEventSequence v False = Inr n \<longleftrightarrow>
      (\<exists>m. v = show_nat m \<and> n = int m \<and> 1 \<le> n \<and> n \<le> MAX_SIGNED_BIGINT_SEQUENCE)" (is "?L = ?R")
  proof
    assume ?L
    then have f: "sequence_format v" "n = int (read_nat v)" "n \<le> MAX_SIGNED_BIGINT_SEQUENCE"
      by (auto simp: parseBusinessEventSequence_def js_BigInt_def BigInt_value_digits split: if_splits)
    then have "show_nat (read_nat v) = v" "0 < read_nat v"
      using show_read_nat [of v] read_nat_zero [of v] by (auto simp: sequence_format_def)
    with f show ?R by (intro exI [of _ "read_nat v"]) simp
  next
    assume ?R
    then obtain m where m: "v = show_nat m" "n = int m" "0 < m" "int m \<le> MAX_SIGNED_BIGINT_SEQUENCE" by auto
    show ?L using sequence_format_show [OF m(3,4)] m
      by (simp add: parseBusinessEventSequence_def js_BigInt_def BigInt_value_digits read_show_nat)
  qed
qed

section \<open>Canonical texts\<close>

text \<open>The values that have a text: those without a number that is not finite and without a value that is none of JSON.\<close>

primrec printable :: "js_value \<Rightarrow> bool" where
  "printable VNull = True"
| "printable (VBool b) = True"
| "printable (VNum n) = (n \<noteq> None)"
| "printable (VStr s) = True"
| "printable (VArr xs) = list_all id (map printable xs)"
| "printable (VObj kvs) = list_all snd (map (map_prod id printable) kvs)"
| "printable VOther = False"

text \<open>A value with the keys of its objects in ascending order.\<close>

primrec in_key_order :: "js_value \<Rightarrow> js_value" where
  "in_key_order VNull = VNull"
| "in_key_order (VBool b) = VBool b"
| "in_key_order (VNum n) = VNum n"
| "in_key_order (VStr s) = VStr s"
| "in_key_order (VArr xs) = VArr (map in_key_order xs)"
| "in_key_order (VObj kvs) = VObj (sort_key fst (map (map_prod id in_key_order) kvs))"
| "in_key_order VOther = VOther"

lemma all_texts_Inr: "all_texts (map (\<lambda>x. Inr (f x)) xs) = Inr (map f xs)"
  by (induction xs) simp_all

lemma all_texts_Inl: "r \<in> set rs \<Longrightarrow> r = Inl e \<Longrightarrow> \<exists>e'. all_texts rs = Inl e'"
  by (induction rs) (auto simp: bind_err_def split: sum.splits)

lemma serialize_of_json: "serialize (of_json j) = Inr (canonicalize j)"
proof (induction j)
  case (JArr xs)
  then have "map serialize (map of_json xs) = map (\<lambda>x. Inr (canonicalize x)) xs" by simp
  then show ?case by (simp add: all_texts_Inr del: map_map)
next
  case (JObj kvs)
  then have "map (map_prod id serialize) (map (map_prod id of_json) kvs) = map (map_prod id (\<lambda>x. Inr (canonicalize x))) kvs" by (auto simp: snds.simps)
  then have entries: "sort_key fst (map (map_prod id serialize) (map (map_prod id of_json) kvs)) =
      map (map_prod id (\<lambda>x. Inr (canonicalize x))) (sort_key fst kvs)" by (simp only: sort_key_map_prod)
  show ?case unfolding of_json.simps serialize.simps entries canonicalize_JObj
    by (simp add: comp_def case_prod_unfold all_texts_Inr)
qed simp_all

lemma of_json_printable: "printable v \<Longrightarrow> \<exists>j. v = of_json j"
proof (induction v)
  case (VNum n)
  then show ?case by (auto intro: exI [of _ "JNum (the n)"])
next
  case (VArr xs)
  then have "\<forall>x \<in> set xs. \<exists>j. x = of_json j" by (auto simp: list_all_iff)
  then obtain js where "xs = map of_json js" using ex_map_conv [of xs of_json] by blast
  then show ?case by (intro exI [of _ "JArr js"]) simp
next
  case (VObj kvs)
  then have "\<forall>kv \<in> set kvs. \<exists>kj. kv = map_prod id of_json kj" by (force simp: list_all_iff snds.simps)
  then obtain kjs where "kvs = map (map_prod id of_json) kjs" using ex_map_conv [of kvs "map_prod id of_json"] by blast
  then show ?case by (intro exI [of _ "JObj kjs"]) simp
qed (auto intro: exI [of _ JNull] exI [of _ "JBool _"] exI [of _ "JStr _"])

lemma unprintable: "\<not> printable v \<Longrightarrow> \<exists>e. serialize v = Inl e"
proof (induction v)
  case (VArr xs)
  then obtain x e where "x \<in> set xs" "serialize x = Inl e" by (fastforce simp: list_all_iff)
  then have "\<exists>e'. all_texts (map serialize xs) = Inl e'" by (intro all_texts_Inl [of "Inl e"]) force+
  then show ?case by auto
next
  case (VObj kvs)
  let ?entry = "\<lambda>(key, child). bind_err child (\<lambda>t. Inr (json_quote key @ '':'' @ t))"
  obtain k x e where "(k, x) \<in> set kvs" "serialize x = Inl e" using VObj by (fastforce simp: list_all_iff snds.simps)
  then have "Inl e \<in> set (map ?entry (sort_key fst (map (map_prod id serialize) kvs)))" by force
  from all_texts_Inl [OF this refl] show ?case by auto
qed auto

lemma serialize_Inr_iff: "serialize v = Inr s \<longleftrightarrow> (\<exists>j. v = of_json j \<and> s = canonicalize j)"
  using serialize_of_json of_json_printable [of v] unprintable [of v] by (metis Inl_Inr_False sum.inject(2))

lemma in_key_order_of_json: "in_key_order (of_json j) = of_json (json_norm j)"
proof (induction j)
  case (JObj kvs)
  then have "map (map_prod id in_key_order) (map (map_prod id of_json) kvs) = map (map_prod id of_json) (map (map_prod id json_norm) kvs)"
    by (auto simp: snds.simps)
  then show ?case by (simp only: of_json.simps in_key_order.simps json_norm.simps sort_key_map_prod [of of_json])
qed simp_all

lemma map_injective_on: "map f xs = map f ys \<Longrightarrow> (\<And>x y. x \<in> set xs \<Longrightarrow> f x = f y \<Longrightarrow> x = y) \<Longrightarrow> xs = ys"
  by (induction xs arbitrary: ys) (auto simp: map_eq_Cons_conv Cons_eq_map_conv)

lemma of_json_inject: "of_json a = of_json b \<longleftrightarrow> a = b"
proof -
  have "a = b" if "of_json a = of_json b" using that
  proof (induction a arbitrary: b)
    case (JArr xs)
    then obtain ys where ys: "b = JArr ys" "map of_json xs = map of_json ys" by (cases b) auto
    have "xs = ys" by (rule map_injective_on [OF ys(2)]) (use JArr.IH in blast)
    then show ?case using ys(1) by simp
  next
    case (JObj kvs)
    then obtain ys where ys: "b = JObj ys" "map (map_prod id of_json) kvs = map (map_prod id of_json) ys" by (cases b) auto
    have "kvs = ys" by (rule map_injective_on [OF ys(2)]) (use JObj.IH in \<open>force simp: snds.simps\<close>)
    then show ?case using ys(1) by simp
  qed (case_tac b; simp)+
  then show ?thesis by blast
qed



end
