(* ===== verification/Registry.thy ===== *)
theory Registry
  imports Adapter_Events
begin

text \<open>
  The operation registry (\<^verbatim>\<open>packages/operation-registry/src/registry.ts\<close>), which turns a provider's manifest into validated
  operations, and the repository of operation snapshots
  (\<^verbatim>\<open>packages/persistence-postgres/src/operation-snapshots.ts\<close>), which keeps the definition a task was admitted under.
  The JSON Schema compiler is an argument; it is given the schemas the same registry has compiled before.
\<close>

section \<open>Definitions\<close>

datatype OperationExecution = SYNCHRONOUS | TASK_CAPABLE | TASK_REQUIRED

record OperationCapabilities =
  oc_availability :: bool
  oc_scheduling :: bool
  oc_maxElapsed :: bool
  oc_cancel :: bool
  oc_pauseResume :: bool
  oc_inputRequired :: bool
  oc_idempotency :: bool
  oc_observations :: bool

record OperationResourceBinding =
  ob_mode :: string
  ob_resourceIdJsonPointer :: "string option"

text \<open>The type of the schemas is left open: a protobuf structure as the adapter sends it, a JSON object once normalized, any JSON
  value in a stored definition.\<close>

record 's OperationDefinition =
  od_name :: string
  od_description :: string
  od_execution :: OperationExecution
  od_inputSchema :: 's
  od_outputSchema :: 's
  od_capabilities :: OperationCapabilities
  od_resourceBinding :: "OperationResourceBinding option"

record ProviderManifest =
  pm_adapterProtocolVersion :: string
  pm_providerId :: string
  pm_providerType :: string
  pm_providerVersion :: string
  pm_inventoryMode :: string
  pm_operations :: "proto_struct option OperationDefinition list"
  pm_businessEventSources :: "BusinessEventSourceCapability list option"

record mcp_tool =
  tl_name :: string
  tl_description :: string
  tl_inputSchema :: json_object
  tl_outputSchema :: json_object
  tl_meta :: json_object

record ValidatedOperation =
  vo_operation :: "json_object OperationDefinition"
  vo_manifestHash :: string
  vo_definition :: "json OperationDefinition"
  vo_validateArguments :: "json \<Rightarrow> err + unit"
  vo_validateOutput :: "json \<Rightarrow> err + unit"
  vo_tool :: mcp_tool

record ValidatedManifest =
  vm_providerId :: string
  vm_providerVersion :: string
  vm_providerType :: string
  vm_manifestHash :: string
  vm_operations :: "ValidatedOperation list"
  vm_businessEventSources :: "BusinessEventSourceCapability list"

abbreviation vo_name :: "ValidatedOperation \<Rightarrow> string" where
  "vo_name op \<equiv> od_name (vo_operation op)"

definition map_schemas :: "('s \<Rightarrow> 't) \<Rightarrow> 's OperationDefinition \<Rightarrow> 't OperationDefinition" where
  "map_schemas f o1 =
     \<lparr>od_name = od_name o1, od_description = od_description o1, od_execution = od_execution o1,
      od_inputSchema = f (od_inputSchema o1), od_outputSchema = f (od_outputSchema o1),
      od_capabilities = od_capabilities o1, od_resourceBinding = od_resourceBinding o1\<rparr>"

lemma map_schemas_fields [simp]:
  "od_name (map_schemas f o1) = od_name o1" "od_description (map_schemas f o1) = od_description o1"
  "od_execution (map_schemas f o1) = od_execution o1" "od_inputSchema (map_schemas f o1) = f (od_inputSchema o1)"
  "od_outputSchema (map_schemas f o1) = f (od_outputSchema o1)" "od_capabilities (map_schemas f o1) = od_capabilities o1"
  "od_resourceBinding (map_schemas f o1) = od_resourceBinding o1"
  by (simp_all add: map_schemas_def)

lemma map_schemas_comp [simp]: "map_schemas f (map_schemas g o1) = map_schemas (\<lambda>s. f (g s)) o1"
  by (simp add: map_schemas_def)

section \<open>Limits\<close>

text \<open>\<^verbatim>\<open>JSON.stringify\<close> (properties in the order of the object) and the number of bytes of its UTF-8 encoding.\<close>

primrec json_stringify :: "json \<Rightarrow> string" where
  "json_stringify JNull = ''null''"
| "json_stringify (JBool b) = (if b then ''true'' else ''false'')"
| "json_stringify (JNum n) = show_int n"
| "json_stringify (JStr s) = json_quote s"
| "json_stringify (JArr xs) = ''['' @ join_comma (map json_stringify xs) @ '']''"
| "json_stringify (JObj kvs) = ''{'' @ join_comma (map (\<lambda>(k, t). json_quote k @ '':'' @ t) (map (map_prod id json_stringify) kvs)) @ ''}''"

definition byteLength :: "string \<Rightarrow> nat" where
  "byteLength s = sum_list (map (\<lambda>c. if of_char c < (128::nat) then 1 else 2) s)"

fun assertComplexity :: "json \<Rightarrow> nat \<Rightarrow> err + unit"
  and complexity_items :: "json list \<Rightarrow> nat \<Rightarrow> err + unit"
  and complexity_fields :: "json_object \<Rightarrow> nat \<Rightarrow> err + unit" where
  "assertComplexity (JArr xs) depth =
     (if depth > 32 then Inl (Error ''MANIFEST_SCHEMA_TOO_DEEP'')
      else if length xs > 1024 then Inl (Error ''MANIFEST_SCHEMA_TOO_COMPLEX'')
      else complexity_items xs (Suc depth))"
| "assertComplexity (JObj kvs) depth =
     (if depth > 32 then Inl (Error ''MANIFEST_SCHEMA_TOO_DEEP'')
      else if length kvs > 1024 then Inl (Error ''MANIFEST_SCHEMA_TOO_COMPLEX'')
      else complexity_fields kvs (Suc depth))"
| "assertComplexity j depth = (if depth > 32 then Inl (Error ''MANIFEST_SCHEMA_TOO_DEEP'') else Inr ())"
| "complexity_items [] depth = Inr ()"
| "complexity_items (x # xs) depth = bind_err (assertComplexity x depth) (\<lambda>_. complexity_items xs depth)"
| "complexity_fields [] depth = Inr ()"
| "complexity_fields ((key, item) # kvs) depth =
     (if key = ''pattern'' \<and> (case item of JStr p \<Rightarrow> length p > 512 | _ \<Rightarrow> False) then Inl (Error ''MANIFEST_REGEX_TOO_LARGE'')
      else bind_err (assertComplexity item depth) (\<lambda>_. complexity_fields kvs depth))"

text \<open>The walk of \<^verbatim>\<open>visit\<close>: every value is counted, and the count and the depth are checked on the way.\<close>

definition visit_node :: "nat \<Rightarrow> nat \<Rightarrow> err + nat" where
  "visit_node depth nodes =
     (if nodes + 1 > 10000 then Inl (AdapterContractError ''ADAPTER_RESULT_TOO_COMPLEX'')
      else if depth > 32 then Inl (AdapterContractError ''ADAPTER_RESULT_TOO_DEEP'')
      else Inr (nodes + 1))"

fun visit_json :: "json \<Rightarrow> nat \<Rightarrow> nat \<Rightarrow> err + nat"
  and visit_items :: "json list \<Rightarrow> nat \<Rightarrow> nat \<Rightarrow> err + nat"
  and visit_fields :: "json_object \<Rightarrow> nat \<Rightarrow> nat \<Rightarrow> err + nat" where
  "visit_json (JArr xs) depth nodes = bind_err (visit_node depth nodes) (visit_items xs (Suc depth))"
| "visit_json (JObj kvs) depth nodes = bind_err (visit_node depth nodes) (visit_fields kvs (Suc depth))"
| "visit_json JNull depth nodes = visit_node depth nodes"
| "visit_json (JBool b) depth nodes = visit_node depth nodes"
| "visit_json (JNum n) depth nodes = visit_node depth nodes"
| "visit_json (JStr s) depth nodes = visit_node depth nodes"
| "visit_items [] depth nodes = Inr nodes"
| "visit_items (x # xs) depth nodes = bind_err (visit_json x depth nodes) (visit_items xs depth)"
| "visit_fields [] depth nodes = Inr nodes"
| "visit_fields ((k, x) # kvs) depth nodes = bind_err (visit_json x depth nodes) (visit_fields kvs depth)"

definition assertResultLimits :: "json \<Rightarrow> err + unit" where
  "assertResultLimits v =
     (if byteLength (json_stringify v) > 1048576 then Inl (AdapterContractError ''ADAPTER_RESULT_TOO_LARGE'')
      else bind_err (visit_json v 0 0) (\<lambda>_. Inr ()))"

text \<open>What the walk measures.\<close>

primrec json_nodes :: "json \<Rightarrow> nat" where
  "json_nodes JNull = 1"
| "json_nodes (JBool b) = 1"
| "json_nodes (JNum n) = 1"
| "json_nodes (JStr s) = 1"
| "json_nodes (JArr xs) = Suc (sum_list (map json_nodes xs))"
| "json_nodes (JObj kvs) = Suc (sum_list (map snd (map (map_prod id json_nodes) kvs)))"

primrec json_depth :: "json \<Rightarrow> nat" where
  "json_depth JNull = 0"
| "json_depth (JBool b) = 0"
| "json_depth (JNum n) = 0"
| "json_depth (JStr s) = 0"
| "json_depth (JArr xs) = foldr (\<lambda>d m. max (Suc d) m) (map json_depth xs) 0"
| "json_depth (JObj kvs) = foldr (\<lambda>d m. max (Suc d) m) (map snd (map (map_prod id json_depth) kvs)) 0"

lemma visit_node_iff: "visit_node d n = Inr m \<longleftrightarrow> n < 10000 \<and> d \<le> 32 \<and> m = Suc n"
  by (auto simp: visit_node_def)

lemma deepest_le_iff: "foldr (\<lambda>d m. max (Suc d) m) ds 0 \<le> k \<longleftrightarrow> (\<forall>d \<in> set ds. Suc d \<le> k)"
  by (induction ds) auto

lemma depth_within:
  "d + foldr (\<lambda>d m. max (Suc d) m) ds 0 \<le> k \<longleftrightarrow> d \<le> k \<and> (\<forall>x \<in> set ds. Suc d + x \<le> k)"
  using deepest_le_iff [of ds "k - d"] by fastforce

lemma depth_JObj:
  "d + json_depth (JObj kvs) \<le> k \<longleftrightarrow> d \<le> k \<and> (\<forall>kv \<in> set kvs. Suc d + json_depth (snd kv) \<le> k)"
proof -
  have "set (map snd (map (map_prod id json_depth) kvs)) = (\<lambda>kv. json_depth (snd kv)) ` set kvs" by force
  then show ?thesis unfolding json_depth.simps depth_within by simp
qed

lemma visit_json_iff:
  "visit_json j d n = Inr m \<longleftrightarrow> d + json_depth j \<le> 32 \<and> n + json_nodes j \<le> 10000 \<and> m = n + json_nodes j"
  "n \<le> 10000 \<Longrightarrow> visit_items xs d n = Inr m \<longleftrightarrow>
     (\<forall>x \<in> set xs. d + json_depth x \<le> 32) \<and> n + sum_list (map json_nodes xs) \<le> 10000 \<and> m = n + sum_list (map json_nodes xs)"
  "n \<le> 10000 \<Longrightarrow> visit_fields kvs d n = Inr m \<longleftrightarrow>
     (\<forall>kv \<in> set kvs. d + json_depth (snd kv) \<le> 32) \<and> n + sum_list (map (\<lambda>kv. json_nodes (snd kv)) kvs) \<le> 10000 \<and>
     m = n + sum_list (map (\<lambda>kv. json_nodes (snd kv)) kvs)"
proof (induction j d n and xs d n and kvs d n arbitrary: m and m and m rule: visit_json_visit_items_visit_fields.induct)
  case (1 xs depth nodes)
  then show ?case by (auto simp: bind_err_Inr_iff visit_node_iff depth_within)
next
  case (2 kvs depth nodes)
  then show ?case by (simp add: bind_err_Inr_iff visit_node_iff depth_JObj o_def del: json_depth.simps) (fastforce split del: if_split)
next
  case (8 x xs depth nodes)
  then show ?case by (auto simp: bind_err_Inr_iff)
next
  case (10 k x kvs depth nodes)
  then show ?case by (auto simp: bind_err_Inr_iff)
qed (auto simp: visit_node_iff)

lemma assertResultLimits_iff:
  "assertResultLimits j = Inr u \<longleftrightarrow>
     byteLength (json_stringify j) \<le> 1048576 \<and> json_depth j \<le> 32 \<and> json_nodes j \<le> 10000"
  by (auto simp: assertResultLimits_def bind_err_Inr_iff visit_json_iff)

section \<open>The registry\<close>

type_synonym schema_compiler = "json_object list \<Rightarrow> json_object \<Rightarrow> err + (json \<Rightarrow> bool)"

definition BUSINESS_RESULT_SCHEMA :: json_object where
  "BUSINESS_RESULT_SCHEMA =
     [(''type'', JStr ''object''),
      (''properties'', JObj
        [(''outcome'', JObj [(''type'', JStr ''string''), (''minLength'', JNum 1)]),
         (''reasonCode'', JObj [(''type'', JStr ''string''), (''minLength'', JNum 1)]),
         (''retryable'', JObj [(''type'', JStr ''boolean'')]),
         (''completedAt'', JObj [(''type'', JStr ''string''), (''format'', JStr ''date-time'')])]),
      (''required'', JArr [JStr ''outcome'', JStr ''reasonCode'', JStr ''retryable'', JStr ''completedAt'']),
      (''additionalProperties'', JBool True)]"

fun taskBehavior :: "OperationExecution \<Rightarrow> string" where
  "taskBehavior SYNCHRONOUS = ''synchronous_only''"
| "taskBehavior TASK_CAPABLE = ''server_directed''"
| "taskBehavior TASK_REQUIRED = ''task_required''"

fun show_execution :: "OperationExecution \<Rightarrow> string" where
  "show_execution SYNCHRONOUS = ''SYNCHRONOUS''"
| "show_execution TASK_CAPABLE = ''TASK_CAPABLE''"
| "show_execution TASK_REQUIRED = ''TASK_REQUIRED''"

fun show_semantics :: "BusinessEventDeliverySemantics \<Rightarrow> string" where
  "show_semantics durable_at_least_once = ''durable_at_least_once''"
| "show_semantics best_effort_live = ''best_effort_live''"

text \<open>The sources, by identifier, each valid and none twice.\<close>

fun check_sources :: "BusinessEventSourceCapability list \<Rightarrow> string list \<Rightarrow> err + unit" where
  "check_sources [] seen = Inr ()"
| "check_sources (s # ss) seen =
     bind_err (validateBusinessEventSourceCapability s) (\<lambda>_.
       if bc_sourceId s \<in> set seen then Inl (Error ''DUPLICATE_BUSINESS_EVENT_SOURCE_ID'')
       else check_sources ss (bc_sourceId s # seen))"

definition check_schema :: "json_object \<Rightarrow> err + unit" where
  "check_schema schema =
     (if byteLength (json_stringify (JObj schema)) > 262144 then Inl (Error ''MANIFEST_SCHEMA_TOO_LARGE'')
      else assertComplexity (JObj schema) 0)"

record normalized_operation =
  no_operation :: "json_object OperationDefinition"
  no_validateInput :: "json \<Rightarrow> bool"
  no_validateOutput :: "json \<Rightarrow> bool"

fun normalize_operations ::
  "schema_compiler \<Rightarrow> proto_struct option OperationDefinition list \<Rightarrow> string list \<Rightarrow> json_object list \<Rightarrow> err + normalized_operation list" where
  "normalize_operations compile [] names compiled = Inr []"
| "normalize_operations compile (o1 # ops) names compiled =
     (let inputSchema = protoStructToJson (od_inputSchema o1); outputSchema = protoStructToJson (od_outputSchema o1)
      in if \<not> name_format ''_./-'' 63 (od_name o1) then Inl (Error ''INVALID_OPERATION_NAME'')
         else if od_name o1 \<in> set names then Inl (Error ''DUPLICATE_OPERATION_NAME'')
         else if od_execution o1 = SYNCHRONOUS \<and> oc_scheduling (od_capabilities o1)
           then Inl (Error ''SYNCHRONOUS_SCHEDULING_CONFLICT'')
         else
           bind_err (check_schema inputSchema) (\<lambda>_.
           bind_err (check_schema outputSchema) (\<lambda>_.
           bind_err (compile compiled inputSchema) (\<lambda>validateInput.
           bind_err (compile (compiled @ [inputSchema]) outputSchema) (\<lambda>validateOutput.
           bind_err (normalize_operations compile ops (od_name o1 # names) (compiled @ [inputSchema, outputSchema])) (\<lambda>rest.
           Inr (\<lparr>no_operation = map_schemas protoStructToJson o1, no_validateInput = validateInput,
                  no_validateOutput = validateOutput\<rparr> # rest)))))))"

definition capabilities_json :: "OperationCapabilities \<Rightarrow> json" where
  "capabilities_json c = JObj
     [(''availability'', JBool (oc_availability c)), (''scheduling'', JBool (oc_scheduling c)),
      (''maxElapsed'', JBool (oc_maxElapsed c)), (''cancel'', JBool (oc_cancel c)),
      (''pauseResume'', JBool (oc_pauseResume c)), (''inputRequired'', JBool (oc_inputRequired c)),
      (''idempotency'', JBool (oc_idempotency c)), (''observations'', JBool (oc_observations c))]"

definition binding_json :: "OperationResourceBinding \<Rightarrow> json" where
  "binding_json b = JObj ([(''mode'', JStr (ob_mode b))] @
     (case ob_resourceIdJsonPointer b of None \<Rightarrow> [] | Some p \<Rightarrow> [(''resourceIdJsonPointer'', JStr p)]))"

definition operation_json :: "json_object OperationDefinition \<Rightarrow> json" where
  "operation_json o1 = JObj ([(''name'', JStr (od_name o1)), (''description'', JStr (od_description o1)),
     (''execution'', JStr (show_execution (od_execution o1))), (''inputSchema'', JObj (od_inputSchema o1)),
     (''outputSchema'', JObj (od_outputSchema o1)), (''capabilities'', capabilities_json (od_capabilities o1))] @
     (case od_resourceBinding o1 of None \<Rightarrow> [] | Some b \<Rightarrow> [(''resourceBinding'', binding_json b)]))"

definition source_json :: "BusinessEventSourceCapability \<Rightarrow> json" where
  "source_json c = JObj
     [(''sourceId'', JStr (bc_sourceId c)), (''sourceStreamId'', JStr (bc_sourceStreamId c)),
      (''deliverySemantics'', JStr (show_semantics (bc_deliverySemantics c))), (''replaySupported'', JBool (bc_replaySupported c)),
      (''sourceRetentionMs'', JStr (bc_sourceRetentionMs c)), (''maxEventBytes'', JStr (bc_maxEventBytes c)),
      (''maxPayloadDepth'', JNum (bc_maxPayloadDepth c)), (''maxPayloadNodes'', JNum (bc_maxPayloadNodes c)),
      (''maxPayloadStringBytes'', JStr (bc_maxPayloadStringBytes c))]"

definition manifest_definition ::
  "ProviderManifest \<Rightarrow> normalized_operation list \<Rightarrow> BusinessEventSourceCapability list \<Rightarrow> json" where
  "manifest_definition manifest normalized sources = JObj
     ([(''adapterProtocolVersion'', JStr (pm_adapterProtocolVersion manifest)), (''providerId'', JStr (pm_providerId manifest)),
       (''providerType'', JStr (pm_providerType manifest)), (''providerVersion'', JStr (pm_providerVersion manifest)),
       (''inventoryMode'', JStr (pm_inventoryMode manifest)),
       (''operations'', JArr (map (\<lambda>n. operation_json (no_operation n)) normalized))] @
      (if sources = [] then [] else [(''businessEventSources'', JArr (map source_json sources))]))"

definition operation_tool :: "json_object OperationDefinition \<Rightarrow> mcp_tool" where
  "operation_tool o1 =
     \<lparr>tl_name = od_name o1, tl_description = od_description o1, tl_inputSchema = od_inputSchema o1,
      tl_outputSchema = [(''type'', JStr ''object''), (''anyOf'', JArr [JObj (od_outputSchema o1), JObj BUSINESS_RESULT_SCHEMA])],
      tl_meta = [(''io.sdar/taskExecution'', JObj
        [(''profileVersion'', JStr ''1.0''), (''taskBehavior'', JStr (taskBehavior (od_execution o1))),
         (''availability'', JStr (if oc_availability (od_capabilities o1) then ''dynamic'' else ''not_supported'')),
         (''supportsScheduling'', JBool (oc_scheduling (od_capabilities o1))),
         (''supportsMaxElapsed'', JBool (oc_maxElapsed (od_capabilities o1))),
         (''supportsObservations'', JBool (oc_observations (od_capabilities o1))),
         (''supportsInputRequired'', JBool (oc_inputRequired (od_capabilities o1))),
         (''idempotency'', JStr (if oc_idempotency (od_capabilities o1) then ''server_managed'' else ''none''))])]\<rparr>"

definition validated_operation :: "string \<Rightarrow> normalized_operation \<Rightarrow> ValidatedOperation" where
  "validated_operation manifestHash n =
     \<lparr>vo_operation = no_operation n, vo_manifestHash = manifestHash, vo_definition = map_schemas JObj (no_operation n),
      vo_validateArguments = (\<lambda>v. if \<not> no_validateInput n v then Inl (InvalidParamsError ''INVALID_TOOL_ARGUMENTS'' None) else Inr ()),
      vo_validateOutput = (\<lambda>v. bind_err (assertResultLimits v) (\<lambda>_.
        if \<not> no_validateOutput n v then Inl (AdapterContractError ''ADAPTER_OUTPUT_SCHEMA_MISMATCH'') else Inr ())),
      vo_tool = operation_tool (no_operation n)\<rparr>"

definition registry_validate ::
  "(string \<Rightarrow> string) \<Rightarrow> schema_compiler \<Rightarrow> json_object list \<Rightarrow> ProviderManifest \<Rightarrow> err + ValidatedManifest" where
  "registry_validate sha compile compiled manifest =
     (if pm_adapterProtocolVersion manifest \<noteq> ''1.0'' then Inl (Error ''UNSUPPORTED_ADAPTER_PROTOCOL'')
      else if \<not> name_format ''._-'' 127 (pm_providerId manifest) then Inl (Error ''INVALID_PROVIDER_ID'')
      else if length (pm_operations manifest) = 0 \<or> length (pm_operations manifest) > 128
        then Inl (Error ''INVALID_OPERATION_COUNT'')
      else
        let sources = sort_key bc_sourceId (case pm_businessEventSources manifest of None \<Rightarrow> [] | Some ss \<Rightarrow> ss)
        in bind_err (check_sources sources []) (\<lambda>_.
           if length sources > 16 then Inl (Error ''INVALID_BUSINESS_EVENT_SOURCE_COUNT'')
           else bind_err (normalize_operations compile (pm_operations manifest) [] compiled) (\<lambda>normalized.
             let manifestHash = sha (canonicalize (manifest_definition manifest normalized sources))
             in Inr \<lparr>vm_providerId = pm_providerId manifest, vm_providerVersion = pm_providerVersion manifest,
                      vm_providerType = pm_providerType manifest, vm_manifestHash = manifestHash,
                      vm_operations = map (validated_operation manifestHash) normalized,
                      vm_businessEventSources = sources\<rparr>)))"

definition validateStoredDefinition ::
  "(string \<Rightarrow> string) \<Rightarrow> schema_compiler \<Rightarrow> json OperationDefinition \<Rightarrow> string \<Rightarrow> string \<Rightarrow> string \<Rightarrow> err + ValidatedOperation" where
  "validateStoredDefinition sha compile stored providerId providerVersion manifestHash =
     (case (od_inputSchema stored, od_outputSchema stored) of
        (JObj inputSchema, JObj outputSchema) \<Rightarrow>
          let operation = map_schemas (\<lambda>j. case j of JObj s \<Rightarrow> Some (jsonToProtoStruct s) | _ \<Rightarrow> None) stored
          in bind_err (registry_validate sha compile []
               \<lparr>pm_adapterProtocolVersion = ''1.0'', pm_providerId = providerId, pm_providerType = ''operation-snapshot'',
                pm_providerVersion = providerVersion, pm_inventoryMode = ''OPAQUE'', pm_operations = [operation],
                pm_businessEventSources = None\<rparr>) (\<lambda>manifest.
             case vm_operations manifest of
               [] \<Rightarrow> Inl (Error ''INVALID_OPERATION_SNAPSHOT'')
             | resolved # _ \<Rightarrow> Inr (resolved\<lparr>vo_manifestHash := manifestHash, vo_definition := stored\<rparr>))
      | _ \<Rightarrow> Inl (Error ''INVALID_OPERATION_SNAPSHOT_SCHEMA''))"

section \<open>Operation snapshots\<close>

record snapshot_row =
  sn_snapshot_id :: string
  sn_provider_id :: string
  sn_provider_version :: string
  sn_operation_name :: string
  sn_manifest_hash :: string
  sn_definition :: "json OperationDefinition"

type_synonym snapshot_table = "snapshot_row list"

record ResolvedTaskOperation =
  rt_snapshotId :: string
  rt_providerId :: string
  rt_providerVersion :: string
  rt_manifestHash :: string
  rt_operation :: ValidatedOperation

definition snapshot_of :: "ValidatedManifest \<Rightarrow> ValidatedOperation \<Rightarrow> snapshot_row \<Rightarrow> bool" where
  "snapshot_of manifest op r =
     (sn_provider_id r = vm_providerId manifest \<and> sn_provider_version r = vm_providerVersion manifest \<and>
      sn_operation_name r = vo_name op \<and> sn_manifest_hash r = vm_manifestHash manifest)"

text \<open>One upsert of \<^verbatim>\<open>saveManifest\<close>: a conflicting row keeps its definition and its identifier is returned.\<close>

definition save_operation ::
  "ValidatedManifest \<Rightarrow> string \<Rightarrow> ValidatedOperation \<Rightarrow> snapshot_table \<Rightarrow> err + (string \<times> snapshot_table)" where
  "save_operation manifest uuid op tbl =
     (case first_row (snapshot_of manifest op) tbl of
        Some r \<Rightarrow> Inr (sn_snapshot_id r, tbl)
      | None \<Rightarrow>
          if uuid \<in> set (map sn_snapshot_id tbl) then Inl (DbConstraint ''operation_snapshot_pkey'')
          else Inr (uuid, tbl @ [\<lparr>sn_snapshot_id = uuid, sn_provider_id = vm_providerId manifest,
            sn_provider_version = vm_providerVersion manifest, sn_operation_name = vo_name op,
            sn_manifest_hash = vm_manifestHash manifest, sn_definition = vo_definition op\<rparr>]))"

text \<open>\<open>uuid\<close> draws the identifier for an operation; the transaction is rolled back when an upsert fails.\<close>

fun save_operations ::
  "ValidatedManifest \<Rightarrow> (string \<Rightarrow> string) \<Rightarrow> ValidatedOperation list \<Rightarrow> snapshot_table \<Rightarrow> err + ((string \<times> string) list \<times> snapshot_table)" where
  "save_operations manifest uuid [] tbl = Inr ([], tbl)"
| "save_operations manifest uuid (op # ops) tbl =
     bind_err (save_operation manifest (uuid (vo_name op)) op tbl) (\<lambda>(snapshotId, tbl).
     bind_err (save_operations manifest uuid ops tbl) (\<lambda>(ids, tbl). Inr ((vo_name op, snapshotId) # ids, tbl)))"

definition saveManifest ::
  "(string \<Rightarrow> string) \<Rightarrow> ValidatedManifest \<Rightarrow> snapshot_table \<Rightarrow> err + ((string \<times> string) list \<times> snapshot_table)" where
  "saveManifest uuid manifest tbl = save_operations manifest uuid (vm_operations manifest) tbl"

definition loadOperationSnapshot ::
  "(string \<Rightarrow> string) \<Rightarrow> schema_compiler \<Rightarrow> string \<Rightarrow> snapshot_table \<Rightarrow> err + ResolvedTaskOperation" where
  "loadOperationSnapshot sha compile snapshotId tbl =
     (case first_row (\<lambda>r. sn_snapshot_id r = snapshotId) tbl of
        None \<Rightarrow> Inl (Error ''OPERATION_SNAPSHOT_NOT_FOUND'')
      | Some row \<Rightarrow>
          bind_err (validateStoredDefinition sha compile (sn_definition row) (sn_provider_id row) (sn_provider_version row)
            (sn_manifest_hash row)) (\<lambda>operation.
          if vo_name operation \<noteq> sn_operation_name row then Inl (Error ''OPERATION_SNAPSHOT_NAME_MISMATCH'')
          else Inr \<lparr>rt_snapshotId = sn_snapshot_id row, rt_providerId = sn_provider_id row,
                     rt_providerVersion = sn_provider_version row, rt_manifestHash = sn_manifest_hash row,
                     rt_operation = operation\<rparr>))"

section \<open>A saved operation is loaded as it was validated\<close>

text \<open>A compiler whose answer does not depend on the schemas compiled before.\<close>

definition independent :: "schema_compiler \<Rightarrow> bool" where
  "independent compile = (\<forall>prev s. compile prev s = compile [] s)"

definition operation_checked :: "schema_compiler \<Rightarrow> normalized_operation \<Rightarrow> bool" where
  "operation_checked compile n =
     (let o1 = no_operation n in
      name_format ''_./-'' 63 (od_name o1) \<and> \<not> (od_execution o1 = SYNCHRONOUS \<and> oc_scheduling (od_capabilities o1)) \<and>
      check_schema (od_inputSchema o1) = Inr () \<and> check_schema (od_outputSchema o1) = Inr () \<and>
      compile [] (od_inputSchema o1) = Inr (no_validateInput n) \<and> compile [] (od_outputSchema o1) = Inr (no_validateOutput n))"

lemma normalize_operations_checked:
  assumes "normalize_operations compile ops names compiled = Inr ns" "independent compile"
  shows "list_all (operation_checked compile) ns \<and> distinct (map (\<lambda>n. od_name (no_operation n)) ns) \<and>
    set names \<inter> set (map (\<lambda>n. od_name (no_operation n)) ns) = {}"
  using assms
proof (induction ops arbitrary: names compiled ns)
  case (Cons o1 ops)
  then obtain vi vo rest where run:
      "compile compiled (protoStructToJson (od_inputSchema o1)) = Inr vi"
      "compile (compiled @ [protoStructToJson (od_inputSchema o1)]) (protoStructToJson (od_outputSchema o1)) = Inr vo"
      "normalize_operations compile ops (od_name o1 # names)
         (compiled @ [protoStructToJson (od_inputSchema o1), protoStructToJson (od_outputSchema o1)]) = Inr rest"
      "ns = \<lparr>no_operation = map_schemas protoStructToJson o1, no_validateInput = vi, no_validateOutput = vo\<rparr> # rest"
      "name_format ''_./-'' 63 (od_name o1)" "od_name o1 \<notin> set names" "\<not> (od_execution o1 = SYNCHRONOUS \<and> oc_scheduling (od_capabilities o1))"
      "check_schema (protoStructToJson (od_inputSchema o1)) = Inr ()" "check_schema (protoStructToJson (od_outputSchema o1)) = Inr ()"
    by (auto simp: bind_err_Inr_iff Let_def split: if_splits)
  have "compile [] (protoStructToJson (od_inputSchema o1)) = Inr vi" "compile [] (protoStructToJson (od_outputSchema o1)) = Inr vo"
    using run(1,2) Cons.prems(2) unfolding independent_def by metis+
  then show ?case using Cons.IH [OF run(3) Cons.prems(2)] run(4-9) by (auto simp: operation_checked_def Let_def)
qed simp

lemma stored_roundtrip:
  assumes "operation_checked compile n" "independent compile" "name_format ''._-'' 127 providerId"
  shows "validateStoredDefinition sha compile (vo_definition (validated_operation h n)) providerId version h =
    Inr (validated_operation h n)"
proof -
  let ?o = "no_operation n"
  have schemas: "protoStructToJson (Some (jsonToProtoStruct s)) = s" for s
    by (auto simp: protoStructToJson_def jsonToProtoStruct_def fromProtoValue_jsonToProtoValue intro!: map_idI)
  have comp: "compile [] (od_inputSchema ?o) = Inr (no_validateInput n)" "compile [od_inputSchema ?o] (od_outputSchema ?o) = Inr (no_validateOutput n)"
    using assms(1,2) unfolding operation_checked_def independent_def Let_def by metis+
  have same: "map_schemas (\<lambda>s. s) ?o = ?o" by (simp add: map_schemas_def)
  have "normalize_operations compile [map_schemas (\<lambda>s. Some (jsonToProtoStruct s)) ?o] [] [] = Inr [n]"
    using assms(1) comp by (simp add: operation_checked_def Let_def schemas same)
  then show ?thesis using assms(3)
    by (simp add: validateStoredDefinition_def validated_operation_def registry_validate_def Let_def
        del: normalize_operations.simps)
qed

text \<open>The table: identifiers are unique, and the rows of a manifest hold its definitions (they are found by the manifest's hash).\<close>

definition snapshots_ok :: "ValidatedManifest \<Rightarrow> snapshot_table \<Rightarrow> bool" where
  "snapshots_ok manifest tbl =
     (distinct (map sn_snapshot_id tbl) \<and>
      (\<forall>r \<in> set tbl. \<forall>op \<in> set (vm_operations manifest). snapshot_of manifest op r \<longrightarrow> sn_definition r = vo_definition op))"

text \<open>The row saved for an operation.\<close>

definition saved_as :: "ValidatedManifest \<Rightarrow> snapshot_table \<Rightarrow> ValidatedOperation \<Rightarrow> string \<Rightarrow> bool" where
  "saved_as manifest tbl op sid = (\<exists>r \<in> set tbl. sn_snapshot_id r = sid \<and> snapshot_of manifest op r)"

lemma save_operation_saved:
  assumes "save_operation manifest uuid op tbl = Inr (sid, tbl')" "snapshots_ok manifest tbl"
    and "op \<in> set (vm_operations manifest)" "distinct (map vo_name (vm_operations manifest))"
  shows "snapshots_ok manifest tbl' \<and> saved_as manifest tbl' op sid \<and> set tbl \<subseteq> set tbl'"
proof (cases "first_row (snapshot_of manifest op) tbl")
  case None
  have only: "op' = op" if "op' \<in> set (vm_operations manifest)" "vo_name op' = vo_name op" for op'
    using assms(3,4) that by (auto simp: distinct_map inj_on_def)
  show ?thesis using None assms(1,2) only
    by (auto simp: save_operation_def snapshots_ok_def saved_as_def snapshot_of_def split: if_splits)
next
  case (Some r)
  then show ?thesis using assms(1,2) first_row_SomeD [OF Some] by (auto simp: save_operation_def saved_as_def)
qed

lemma save_operations_saved:
  assumes "save_operations manifest uuid ops tbl = Inr (ids, tbl')" "snapshots_ok manifest tbl"
    and "set ops \<subseteq> set (vm_operations manifest)" "distinct (map vo_name (vm_operations manifest))" "distinct (map vo_name ops)"
  shows "snapshots_ok manifest tbl' \<and> set tbl \<subseteq> set tbl' \<and>
    (\<forall>op \<in> set ops. \<exists>sid. map_of ids (vo_name op) = Some sid \<and> saved_as manifest tbl' op sid)"
  using assms(1-3,5)
proof (induction ops arbitrary: tbl ids tbl')
  case (Cons op ops)
  obtain sid tbl1 ids1 where run: "save_operation manifest (uuid (vo_name op)) op tbl = Inr (sid, tbl1)"
      "save_operations manifest uuid ops tbl1 = Inr (ids1, tbl')" "ids = (vo_name op, sid) # ids1"
    using Cons.prems(1) by (auto simp: bind_err_Inr_iff)
  have one: "snapshots_ok manifest tbl1 \<and> saved_as manifest tbl1 op sid \<and> set tbl \<subseteq> set tbl1"
    using save_operation_saved [OF run(1) Cons.prems(2) _ assms(4)] Cons.prems(3) by simp
  have rest: "snapshots_ok manifest tbl' \<and> set tbl1 \<subseteq> set tbl' \<and>
      (\<forall>op \<in> set ops. \<exists>sid. map_of ids1 (vo_name op) = Some sid \<and> saved_as manifest tbl' op sid)"
    using Cons.IH [OF run(2)] one Cons.prems(3,4) by simp
  have "saved_as manifest tbl' op sid" using one rest by (auto simp: saved_as_def)
  then show ?case using one rest run(3) Cons.prems(4) by (auto simp: image_iff)
qed simp

lemma registry_validate_InrE:
  assumes "registry_validate sha compile prev m = Inr manifest"
  obtains ns where "normalize_operations compile (pm_operations m) [] prev = Inr ns"
    "vm_operations manifest = map (validated_operation (vm_manifestHash manifest)) ns" "vm_providerId manifest = pm_providerId m"
    "name_format ''._-'' 127 (pm_providerId m)"
  using assms by (auto simp: registry_validate_def bind_err_Inr_iff Let_def split: if_splits)

lemma registry_validate_checked:
  assumes "registry_validate sha compile prev m = Inr manifest" "independent compile"
  shows "name_format ''._-'' 127 (vm_providerId manifest)" "distinct (map vo_name (vm_operations manifest))"
    "op \<in> set (vm_operations manifest) \<Longrightarrow> \<exists>n. op = validated_operation (vm_manifestHash manifest) n \<and> operation_checked compile n"
proof -
  obtain ns where run: "normalize_operations compile (pm_operations m) [] prev = Inr ns"
      "vm_operations manifest = map (validated_operation (vm_manifestHash manifest)) ns" "vm_providerId manifest = pm_providerId m"
      "name_format ''._-'' 127 (pm_providerId m)"
    using registry_validate_InrE [OF assms(1)] .
  note checked = normalize_operations_checked [OF run(1) assms(2)]
  show "name_format ''._-'' 127 (vm_providerId manifest)" using run by simp
  show "distinct (map vo_name (vm_operations manifest))" using run(2) checked by (simp add: o_def validated_operation_def)
  show "\<exists>n. op = validated_operation (vm_manifestHash manifest) n \<and> operation_checked compile n"
    if "op \<in> set (vm_operations manifest)" using that run(2) checked by (auto simp: list_all_iff)
qed

lemma saved_operation_found:
  assumes "registry_validate sha compile prev m = Inr manifest" "independent compile" "snapshots_ok manifest tbl"
    and "saveManifest uuid manifest tbl = Inr (ids, tbl')" "op \<in> set (vm_operations manifest)"
  shows "\<exists>sid. map_of ids (vo_name op) = Some sid \<and>
    loadOperationSnapshot sha compile sid tbl' = Inr \<lparr>rt_snapshotId = sid, rt_providerId = vm_providerId manifest,
      rt_providerVersion = vm_providerVersion manifest, rt_manifestHash = vm_manifestHash manifest, rt_operation = op\<rparr>"
proof -
  note checked = registry_validate_checked [OF assms(1,2)]
  obtain sid r where sid: "map_of ids (vo_name op) = Some sid" "r \<in> set tbl'" "sn_snapshot_id r = sid" "snapshot_of manifest op r"
    and ok: "snapshots_ok manifest tbl'"
    using save_operations_saved [OF assms(4) [unfolded saveManifest_def] assms(3) _ checked(2,2)] assms(5)
    by (auto simp: saved_as_def)
  obtain n where n: "op = validated_operation (vm_manifestHash manifest) n" "operation_checked compile n"
    using checked(3) assms(5) by blast
  have "first_row (\<lambda>q. sn_snapshot_id q = sid) tbl' = Some r"
    using first_row_unique [of sn_snapshot_id tbl' r] ok sid(2,3) by (simp add: snapshots_ok_def)
  moreover have "sn_definition r = vo_definition op" using ok sid(2,4) assms(5) by (simp add: snapshots_ok_def)
  moreover have "validateStoredDefinition sha compile (vo_definition op) (vm_providerId manifest) (vm_providerVersion manifest)
      (vm_manifestHash manifest) = Inr op"
    using stored_roundtrip [OF n(2) assms(2) checked(1)] n(1) by simp
  ultimately show ?thesis using sid by (auto simp: loadOperationSnapshot_def snapshot_of_def)
qed

text \<open>An operation snapshot loads back as the operation that was validated: after a manifest has been saved, the identifier
  returned for each of its operations loads that operation, with its schemas, validators and tool description, so a task
  keeps the definition it was admitted under.\<close>

theorem saved_operation_loads:
  assumes "registry_validate sha compile prev m = Inr manifest" "independent compile" "snapshots_ok manifest tbl"
    and "saveManifest uuid manifest tbl = Inr (ids, tbl')" "op \<in> set (vm_operations manifest)"
  shows "\<exists>sid. map_of ids (vo_name op) = Some sid \<and>
    loadOperationSnapshot sha compile sid tbl' = Inr \<lparr>rt_snapshotId = sid, rt_providerId = vm_providerId manifest,
      rt_providerVersion = vm_providerVersion manifest, rt_manifestHash = vm_manifestHash manifest, rt_operation = op\<rparr>"
  using saved_operation_found [OF assms] .

section \<open>A concrete manifest\<close>

definition reg_operation :: "proto_struct option OperationDefinition" where
  "reg_operation = \<lparr>od_name = ''heat'', od_description = ''Heat.'', od_execution = TASK_REQUIRED, od_inputSchema = Some [],
     od_outputSchema = Some [], od_capabilities = \<lparr>oc_availability = True, oc_scheduling = True, oc_maxElapsed = True, oc_cancel = True,
       oc_pauseResume = False, oc_inputRequired = False, oc_idempotency = True, oc_observations = True\<rparr>,
     od_resourceBinding = None\<rparr>"

definition reg_manifest :: ProviderManifest where
  "reg_manifest = \<lparr>pm_adapterProtocolVersion = ''1.0'', pm_providerId = ''p'', pm_providerType = ''t'', pm_providerVersion = ''1'',
     pm_inventoryMode = ''OPAQUE'', pm_operations = [reg_operation], pm_businessEventSources = None\<rparr>"

definition reg_compile :: schema_compiler where
  "reg_compile prev s = Inr (\<lambda>_. True)"

definition reg_validated :: ValidatedManifest where
  "reg_validated = projr (registry_validate (\<lambda>s. s) reg_compile [] reg_manifest)"

lemma reg_validated_run: "registry_validate (\<lambda>s. s) reg_compile [] reg_manifest = Inr reg_validated"
proof -
  have "check_schema [] = Inr ()" by (simp add: check_schema_def byteLength_def)
  moreover have "name_format ''_./-'' 63 ''heat''" "name_format ''._-'' 127 ''p''"
    by (simp_all add: name_format_def is_letter_def)
  ultimately have "\<exists>r. registry_validate (\<lambda>s. s) reg_compile [] reg_manifest = Inr r"
    by (simp add: registry_validate_def reg_manifest_def reg_operation_def reg_compile_def Let_def protoStructToJson_def)
  then show ?thesis by (auto simp: reg_validated_def)
qed

lemma reg_saves:
  obtains n tbl' where "saveManifest (\<lambda>_. ''s1'') reg_validated [] = Inr ([(''heat'', ''s1'')], tbl')"
    "vm_operations reg_validated = [validated_operation (vm_manifestHash reg_validated) n]"
    "vo_name (validated_operation (vm_manifestHash reg_validated) n) = ''heat''"
proof -
  obtain ns where ns: "normalize_operations reg_compile [reg_operation] [] [] = Inr ns"
      "vm_operations reg_validated = map (validated_operation (vm_manifestHash reg_validated)) ns"
    using registry_validate_InrE [OF reg_validated_run] by (auto simp: reg_manifest_def)
  have "\<exists>n. ns = [n] \<and> no_operation n = map_schemas protoStructToJson reg_operation"
    using ns(1) by (auto simp: bind_err_Inr_iff Let_def split: if_splits)
  then obtain n where "no_operation n = map_schemas protoStructToJson reg_operation"
    and op: "vm_operations reg_validated = [validated_operation (vm_manifestHash reg_validated) n]"
    using ns(2) by auto
  then have name: "vo_name (validated_operation (vm_manifestHash reg_validated) n) = ''heat''"
    by (simp add: validated_operation_def reg_operation_def)
  obtain tbl' where "saveManifest (\<lambda>_. ''s1'') reg_validated [] = Inr ([(''heat'', ''s1'')], tbl')"
    by (simp add: saveManifest_def op save_operation_def name) (simp add: first_row_def)
  then show thesis using that op name by blast
qed

lemma reg_independent: "independent reg_compile" "snapshots_ok reg_validated []"
  by (simp_all add: independent_def reg_compile_def snapshots_ok_def)

text \<open>A snapshot table from which an operation loads.\<close>

lemma reg_loads:
  obtains tbl op where "loadOperationSnapshot (\<lambda>s. s) reg_compile ''s1'' tbl = Inr op" "vo_name (rt_operation op) = ''heat''"
proof (rule reg_saves)
  fix n tbl' assume *: "saveManifest (\<lambda>_. ''s1'') reg_validated [] = Inr ([(''heat'', ''s1'')], tbl')"
    "vm_operations reg_validated = [validated_operation (vm_manifestHash reg_validated) n]"
    "vo_name (validated_operation (vm_manifestHash reg_validated) n) = ''heat''"
  show thesis
    using saved_operation_found [OF reg_validated_run reg_independent *(1), of "validated_operation (vm_manifestHash reg_validated) n"] *
      that by auto
qed

theorem saved_operation_loads_witness:
  "\<exists>op tbl'. saveManifest (\<lambda>_. ''s1'') reg_validated [] = Inr ([(''heat'', ''s1'')], tbl') \<and> vm_operations reg_validated = [op] \<and>
     map_sum id rt_operation (loadOperationSnapshot (\<lambda>s. s) reg_compile ''s1'' tbl') = Inr op"
proof (rule reg_saves)
  fix n tbl' assume *: "saveManifest (\<lambda>_. ''s1'') reg_validated [] = Inr ([(''heat'', ''s1'')], tbl')"
    "vm_operations reg_validated = [validated_operation (vm_manifestHash reg_validated) n]"
    "vo_name (validated_operation (vm_manifestHash reg_validated) n) = ''heat''"
  then show ?thesis
    using saved_operation_loads [OF reg_validated_run reg_independent *(1), of "validated_operation (vm_manifestHash reg_validated) n"]
    by auto
qed

end
