(* ===== verification/Result_Contract.thy ===== *)
theory Result_Contract
  imports Registry
begin

text \<open>
  The contract on adapter results (\<^verbatim>\<open>packages/task-engine/src/result-contract.ts\<close>): limits on size, depth and number of
  values, removal of prototype keys, the operation's output schema, and the evidence attached to a result.  A snapshot
  that breaks the contract becomes a technical failure.  The instant is \<^verbatim>\<open>new Date()\<close>, \<open>legacy\<close> the engine's reading of
  non-ISO dates.
\<close>

section \<open>The payload\<close>

definition adapterResultPayload :: "ExecutionSnapshot \<Rightarrow> json_object" where
  "adapterResultPayload snapshot = protoStructToJson (es_result snapshot)"

definition prototype_key :: "string \<Rightarrow> bool" where
  "prototype_key key = (key = ''__proto__'' \<or> key = ''prototype'' \<or> key = ''constructor'')"

primrec sanitizeResult :: "json \<Rightarrow> json" where
  "sanitizeResult JNull = JNull"
| "sanitizeResult (JBool b) = JBool b"
| "sanitizeResult (JNum n) = JNum n"
| "sanitizeResult (JStr s) = JStr s"
| "sanitizeResult (JArr xs) = JArr (map sanitizeResult xs)"
| "sanitizeResult (JObj kvs) = JObj (filter (\<lambda>(key, _). \<not> prototype_key key) (map (map_prod id sanitizeResult) kvs))"

definition sanitize_object :: "json_object \<Rightarrow> json_object" where
  "sanitize_object kvs = filter (\<lambda>(key, _). \<not> prototype_key key) (map (map_prod id sanitizeResult) kvs)"

definition sanitizedAdapterResultPayload :: "ExecutionSnapshot \<Rightarrow> err + json_object" where
  "sanitizedAdapterResultPayload snapshot =
     (let r = adapterResultPayload snapshot
      in bind_err (assertResultLimits (JObj r)) (\<lambda>_. Inr (sanitize_object r)))"

definition result_state :: "string \<Rightarrow> bool" where
  "result_state st = (st = ''SUCCEEDED'' \<or> st = ''BUSINESS_FAILED'' \<or> st = ''PARTIALLY_COMPLETED'')"

definition check_output :: "ValidatedOperation \<Rightarrow> ExecutionSnapshot \<Rightarrow> json_object \<Rightarrow> err + unit" where
  "check_output operation snapshot payload =
     (if result_state (es_state snapshot) then vo_validateOutput operation (JObj payload) else Inr ())"

definition assertAdapterResultContract :: "ValidatedOperation \<Rightarrow> ExecutionSnapshot \<Rightarrow> err + unit" where
  "assertAdapterResultContract operation snapshot =
     bind_err (sanitizedAdapterResultPayload snapshot) (check_output operation snapshot)"

section \<open>Evidence\<close>

definition bounded_text :: "string \<Rightarrow> nat \<Rightarrow> nat \<Rightarrow> string \<Rightarrow> err + unit" where
  "bounded_text v lo hi code = (if length v < lo \<or> length v > hi then Inl (AdapterContractError code) else Inr ())"

definition isZonedRfc3339 :: "(string \<Rightarrow> instant option) \<Rightarrow> string \<Rightarrow> bool" where
  "isZonedRfc3339 legacy v = (frozen_format v \<and> Date_parse legacy v \<noteq> None)"

text \<open>\<^verbatim>\<open>/^(?:|(?:\/(?:[^~/]|~[01])*)*)$/\<close>: empty, or starting with a slash, every tilde being followed by 0 or 1.\<close>

fun tildes_ok :: "string \<Rightarrow> bool" where
  "tildes_ok [] = True"
| "tildes_ok (c # cs) =
     (if c = CHR ''~'' then (case cs of [] \<Rightarrow> False | d # ds \<Rightarrow> d \<in> {CHR ''0'', CHR ''1''} \<and> tildes_ok cs) else tildes_ok cs)"

definition isJsonPointer :: "string \<Rightarrow> bool" where
  "isJsonPointer v = (v = [] \<or> hd v = CHR ''/'' \<and> tildes_ok v)"

fun split_char :: "char \<Rightarrow> string \<Rightarrow> string list" where
  "split_char c [] = [[]]"
| "split_char c (x # xs) =
     (if x = c then [] # split_char c xs
      else case split_char c xs of [] \<Rightarrow> [[x]] | s # ss \<Rightarrow> (x # s) # ss)"

text \<open>\<^verbatim>\<open>text.replaceAll("~d", r)\<close>.\<close>

fun replace_tilde :: "char \<Rightarrow> char \<Rightarrow> string \<Rightarrow> string" where
  "replace_tilde d r [] = []"
| "replace_tilde d r [c] = [c]"
| "replace_tilde d r (c # c' # cs) =
     (if c = CHR ''~'' \<and> c' = d then r # replace_tilde d r cs else c # replace_tilde d r (c' # cs))"

text \<open>The operator \<^verbatim>\<open>in\<close> also finds inherited properties: what a pointer step reaches is a value of the payload, a prototype object,
  or a function or number in which nothing more is found.\<close>

datatype js_ref = payload_value json | object_prototype | array_prototype | leaf_value

definition array_prototype_keys :: "string list" where
  "array_prototype_keys = [''length'', ''at'', ''concat'', ''copyWithin'', ''fill'', ''find'', ''findIndex'', ''findLast'',
     ''findLastIndex'', ''lastIndexOf'', ''pop'', ''push'', ''reverse'', ''shift'', ''unshift'', ''slice'', ''sort'', ''splice'',
     ''includes'', ''indexOf'', ''join'', ''keys'', ''entries'', ''values'', ''forEach'', ''filter'', ''flat'', ''flatMap'',
     ''map'', ''every'', ''some'', ''reduce'', ''reduceRight'', ''toReversed'', ''toSorted'', ''toSpliced'', ''with'']"

definition is_array_index :: "string \<Rightarrow> nat \<Rightarrow> bool" where
  "is_array_index key n = (key \<noteq> [] \<and> list_all is_digit key \<and> show_nat (read_nat key) = key \<and> read_nat key < n)"

definition inherited_object :: "string \<Rightarrow> js_ref option" where
  "inherited_object key =
     (if key = ''__proto__'' then Some object_prototype
      else if key \<in> set object_prototype_keys then Some leaf_value else None)"

definition inherited_array :: "string \<Rightarrow> js_ref option" where
  "inherited_array key =
     (if key = ''__proto__'' then Some array_prototype
      else if key \<in> set (array_prototype_keys @ object_prototype_keys) then Some leaf_value else None)"

fun js_in :: "js_ref \<Rightarrow> string \<Rightarrow> js_ref option" where
  "js_in (payload_value (JObj kvs)) key = (case obj_get kvs key of Some v \<Rightarrow> Some (payload_value v) | None \<Rightarrow> inherited_object key)"
| "js_in (payload_value (JArr xs)) key =
     (if is_array_index key (length xs) then Some (payload_value (xs ! read_nat key)) else inherited_array key)"
| "js_in object_prototype key =
     (if key = ''__proto__'' then Some leaf_value else if key \<in> set object_prototype_keys then Some leaf_value else None)"
| "js_in array_prototype key =
     (if key = ''__proto__'' then Some object_prototype
      else if key \<in> set (array_prototype_keys @ object_prototype_keys) then Some leaf_value else None)"
| "js_in _ key = None"

fun pointer_walk :: "js_ref \<Rightarrow> string list \<Rightarrow> bool" where
  "pointer_walk current [] = True"
| "pointer_walk current (segment # segments) =
     (case js_in current (replace_tilde (CHR ''0'') (CHR ''~'') (replace_tilde (CHR ''1'') (CHR ''/'') segment)) of
        None \<Rightarrow> False
      | Some next \<Rightarrow> pointer_walk next segments)"

definition jsonPointerExists :: "json_object \<Rightarrow> string \<Rightarrow> bool" where
  "jsonPointerExists root pointer =
     (pointer = [] \<or> pointer_walk (payload_value (JObj root)) (split_char (CHR ''/'') (tl pointer)))"

definition allowedEvidenceUri :: "string \<Rightarrow> bool" where
  "allowedEvidenceUri v =
     (let scheme = takeWhile (\<lambda>c. is_letter c \<or> is_digit c \<or> c \<in> set ''+.-'') v
      in scheme \<noteq> [] \<and> is_letter (hd scheme) \<and> take 1 (drop (length scheme) v) = '':'' \<and>
         toLowerCase scheme \<in> {''https'', ''s3'', ''gs'', ''azblob'', ''urn''})"

definition evidencePayloadRef :: "EvidencePayloadRef option \<Rightarrow> json_object \<Rightarrow> err + json" where
  "evidencePayloadRef v structuredContent =
     (case v of
        None \<Rightarrow> Inl (AdapterContractError ''ADAPTER_EVIDENCE_PAYLOAD_REF_INVALID'')
      | Some r \<Rightarrow>
          if pr_kind r = ''structured_content'' then
            (case pr_jsonPointer r of
               None \<Rightarrow> Inl (AdapterContractError ''ADAPTER_EVIDENCE_POINTER_INVALID'')
             | Some pointer \<Rightarrow>
                 if length pointer > 512 \<or> \<not> isJsonPointer pointer then Inl (AdapterContractError ''ADAPTER_EVIDENCE_POINTER_INVALID'')
                 else if \<not> jsonPointerExists structuredContent pointer then Inl (AdapterContractError ''ADAPTER_EVIDENCE_POINTER_MISSING'')
                 else Inr (JObj [(''kind'', JStr ''structured_content''), (''jsonPointer'', JStr pointer)]))
          else if pr_kind r = ''uri'' then
            (case pr_uri r of
               None \<Rightarrow> Inl (AdapterContractError ''ADAPTER_EVIDENCE_URI_INVALID'')
             | Some uri \<Rightarrow>
                 if length uri > 2048 \<or> \<not> allowedEvidenceUri uri then Inl (AdapterContractError ''ADAPTER_EVIDENCE_URI_INVALID'')
                 else if (case pr_sha256 r of None \<Rightarrow> False | Some h \<Rightarrow> \<not> (length h = 64 \<and> list_all is_hex h))
                   then Inl (AdapterContractError ''ADAPTER_EVIDENCE_SHA256_INVALID'')
                 else Inr (JObj ([(''kind'', JStr ''uri''), (''uri'', JStr uri)] @
                   (case pr_mediaType r of None \<Rightarrow> [] | Some m \<Rightarrow> [(''mediaType'', JStr m)]) @
                   (case pr_sha256 r of None \<Rightarrow> [] | Some h \<Rightarrow> [(''sha256'', JStr h)]))))
          else Inl (AdapterContractError ''ADAPTER_EVIDENCE_PAYLOAD_REF_INVALID''))"

definition evidence_item ::
  "(string \<Rightarrow> instant option) \<Rightarrow> json_object \<Rightarrow> string list \<Rightarrow> AdapterEvidenceItem \<Rightarrow> err + json" where
  "evidence_item legacy structuredContent ids item =
     bind_err (bounded_text (ev_evidenceId item) 1 128 ''ADAPTER_EVIDENCE_ID_INVALID'') (\<lambda>_.
     if ev_evidenceId item \<in> set ids then Inl (AdapterContractError ''ADAPTER_EVIDENCE_ID_DUPLICATE'')
     else
     bind_err (bounded_text (ev_evidenceType item) 1 128 ''ADAPTER_EVIDENCE_TYPE_INVALID'') (\<lambda>_.
     if \<not> isZonedRfc3339 legacy (ev_observedAt item) then Inl (AdapterContractError ''ADAPTER_EVIDENCE_OBSERVED_AT_INVALID'')
     else
     bind_err (case ev_subjectRef item of None \<Rightarrow> Inr ()
               | Some s \<Rightarrow> bounded_text s 1 512 ''ADAPTER_EVIDENCE_SUBJECT_REF_INVALID'') (\<lambda>_.
     let producer = (case ev_producer item of None \<Rightarrow> [] | Some p \<Rightarrow> p) in
     if length producer > 16 then Inl (AdapterContractError ''ADAPTER_EVIDENCE_PRODUCER_INVALID'')
     else
     bind_err (evidencePayloadRef (ev_payloadRef item) structuredContent) (\<lambda>payloadRef.
     Inr (JObj ([(''evidenceId'', JStr (ev_evidenceId item)), (''evidenceType'', JStr (ev_evidenceType item)),
       (''observedAt'', JStr (ev_observedAt item))] @
       (case ev_subjectRef item of None \<Rightarrow> [] | Some s \<Rightarrow> [(''subjectRef'', JStr s)]) @
       [(''payloadRef'', payloadRef)] @
       (if producer = [] then [] else [(''producer'', JArr (map JStr producer))])))))))"

fun evidence_items ::
  "(string \<Rightarrow> instant option) \<Rightarrow> json_object \<Rightarrow> string list \<Rightarrow> AdapterEvidenceItem list \<Rightarrow> err + json list" where
  "evidence_items legacy structuredContent ids [] = Inr []"
| "evidence_items legacy structuredContent ids (item # items) =
     bind_err (evidence_item legacy structuredContent ids item) (\<lambda>j.
     bind_err (evidence_items legacy structuredContent (ev_evidenceId item # ids) items) (\<lambda>js. Inr (j # js)))"

fun assertJsonDepth :: "json \<Rightarrow> nat \<Rightarrow> string \<Rightarrow> nat \<Rightarrow> err + unit"
  and depth_items :: "json list \<Rightarrow> nat \<Rightarrow> string \<Rightarrow> nat \<Rightarrow> err + unit"
  and depth_fields :: "json_object \<Rightarrow> nat \<Rightarrow> string \<Rightarrow> nat \<Rightarrow> err + unit" where
  "assertJsonDepth (JArr xs) maximum code depth =
     (if depth > maximum then Inl (AdapterContractError code) else depth_items xs maximum code (Suc depth))"
| "assertJsonDepth (JObj kvs) maximum code depth =
     (if depth > maximum then Inl (AdapterContractError code) else depth_fields kvs maximum code (Suc depth))"
| "assertJsonDepth j maximum code depth = (if depth > maximum then Inl (AdapterContractError code) else Inr ())"
| "depth_items [] maximum code depth = Inr ()"
| "depth_items (x # xs) maximum code depth = bind_err (assertJsonDepth x maximum code depth) (\<lambda>_. depth_items xs maximum code depth)"
| "depth_fields [] maximum code depth = Inr ()"
| "depth_fields ((k, x) # kvs) maximum code depth =
     bind_err (assertJsonDepth x maximum code depth) (\<lambda>_. depth_fields kvs maximum code depth)"

definition validateEvidence ::
  "(string \<Rightarrow> instant option) \<Rightarrow> AdapterEvidenceItem list \<Rightarrow> json_object \<Rightarrow> err + json list" where
  "validateEvidence legacy evidence structuredContent =
     (if length evidence > 64 then Inl (AdapterContractError ''ADAPTER_EVIDENCE_TOO_MANY_ITEMS'')
      else bind_err (evidence_items legacy structuredContent [] evidence) (\<lambda>items.
        if byteLength (json_stringify (JObj [(''profileVersion'', JStr ''1.0''), (''items'', JArr items)])) > 262144
        then Inl (AdapterContractError ''ADAPTER_EVIDENCE_TOO_LARGE'')
        else bind_err (assertJsonDepth (JArr items) 16 ''ADAPTER_EVIDENCE_TOO_DEEP'' 0) (\<lambda>_. Inr items)))"

definition attachEvidenceToResult ::
  "(string \<Rightarrow> instant option) \<Rightarrow> json_object \<Rightarrow> ExecutionSnapshot \<Rightarrow> json_object \<Rightarrow> err + json_object" where
  "attachEvidenceToResult legacy res snapshot structuredContent =
     bind_err (validateEvidence legacy (case es_evidence snapshot of None \<Rightarrow> [] | Some e \<Rightarrow> e) structuredContent) (\<lambda>items.
     Inr (obj_spread (obj_spread [(''resultType'', JStr ''complete'')] res)
       (if items = [] then []
        else [(''_meta'', JObj [(''io.sdar/evidence'', JObj [(''profileVersion'', JStr ''1.0''), (''items'', JArr items)])])])))"

section \<open>Transitions\<close>

definition normalizeSnapshot :: "ExecutionSnapshot \<Rightarrow> json_object \<Rightarrow> AdapterSnapshotLike" where
  "normalizeSnapshot snapshot res =
     \<lparr>sl_state = es_state snapshot, sl_reasonCode = es_reasonCode snapshot, sl_message = es_message snapshot,
      sl_retryable = es_retryable snapshot, sl_result = Some (JObj res)\<rparr>"

definition attachEvidence ::
  "(string \<Rightarrow> instant option) \<Rightarrow> SnapshotTransition \<Rightarrow> ExecutionSnapshot \<Rightarrow> json_object \<Rightarrow> err + SnapshotTransition" where
  "attachEvidence legacy transition snapshot structuredContent =
     (case tn_result transition of
        None \<Rightarrow> Inr transition
      | Some r \<Rightarrow> bind_err (attachEvidenceToResult legacy r snapshot structuredContent) (\<lambda>r'.
          Inr (transition\<lparr>tn_result := Some r'\<rparr>)))"

definition technicalFailureTransition :: "instant \<Rightarrow> string \<Rightarrow> SnapshotTransition" where
  "technicalFailureTransition at reasonCode =
     projr (mapAdapterSnapshot at \<lparr>sl_state = ''TECHNICAL_FAILED'', sl_reasonCode = reasonCode,
       sl_message = ''Adapter result failed Runtime contract validation.'', sl_retryable = False, sl_result = Some (JObj [])\<rparr>)"

definition contract_reason :: "err \<Rightarrow> string" where
  "contract_reason e = (case e of RuntimeError adapter_contract reasonCode _ \<Rightarrow> reasonCode | _ \<Rightarrow> ''ADAPTER_STATE_INVALID'')"

definition contract_transition ::
  "instant \<Rightarrow> (string \<Rightarrow> instant option) \<Rightarrow> ValidatedOperation \<Rightarrow> ExecutionSnapshot \<Rightarrow> err + SnapshotTransition" where
  "contract_transition at legacy operation snapshot =
     bind_err (sanitizedAdapterResultPayload snapshot) (\<lambda>r.
     bind_err (check_output operation snapshot r) (\<lambda>_.
     bind_err (mapAdapterSnapshot at (normalizeSnapshot snapshot r)) (\<lambda>transition.
     attachEvidence legacy transition snapshot r)))"

definition validatedSnapshotTransition ::
  "instant \<Rightarrow> (string \<Rightarrow> instant option) \<Rightarrow> ValidatedOperation \<Rightarrow> ExecutionSnapshot \<Rightarrow> SnapshotTransition" where
  "validatedSnapshotTransition at legacy operation snapshot =
     (case contract_transition at legacy operation snapshot of
        Inr transition \<Rightarrow> transition
      | Inl e \<Rightarrow> technicalFailureTransition at (contract_reason e))"

definition synchronousResult ::
  "instant \<Rightarrow> (string \<Rightarrow> instant option) \<Rightarrow> ValidatedOperation \<Rightarrow> ExecutionSnapshot \<Rightarrow> err + json_object" where
  "synchronousResult at legacy operation snapshot =
     bind_err (sanitizedAdapterResultPayload snapshot) (\<lambda>payload.
     bind_err (check_output operation snapshot payload) (\<lambda>_.
     case mapAdapterSnapshot at (normalizeSnapshot snapshot payload) of
       Inl _ \<Rightarrow> Inl (AdapterContractError ''ADAPTER_STATE_INVALID'')
     | Inr transition \<Rightarrow>
         if \<not> tn_terminal transition then Inl (AdapterContractError ''SYNCHRONOUS_OPERATION_RETURNED_NONTERMINAL'')
         else if tn_mcpStatus transition = failed
           then Inl (TechnicalExecutionError (Some (or_else (es_reasonCode snapshot) ''TECHNICAL_EXECUTION_FAILED'')))
         else case tn_result transition of
           None \<Rightarrow> Inl (AdapterContractError ''SYNCHRONOUS_RESULT_MISSING'')
         | Some r \<Rightarrow> attachEvidenceToResult legacy r snapshot payload))"

section \<open>What gets through\<close>

text \<open>No key of the value, at any depth, names a prototype.\<close>

primrec clean_json :: "json \<Rightarrow> bool" where
  "clean_json JNull = True"
| "clean_json (JBool b) = True"
| "clean_json (JNum n) = True"
| "clean_json (JStr s) = True"
| "clean_json (JArr xs) = list_all (\<lambda>b. b) (map clean_json xs)"
| "clean_json (JObj kvs) = list_all (\<lambda>(key, b). \<not> prototype_key key \<and> b) (map (map_prod id clean_json) kvs)"

lemma clean_sanitizeResult: "clean_json (sanitizeResult j)"
proof (induction j)
  case (JObj kvs)
  have "clean_json (sanitizeResult x)" if "(k, x) \<in> set kvs" for k x using JObj that by force
  then show ?case by (auto simp: list_all_iff)
qed (simp_all add: list_all_iff)

lemma clean_sanitize_object: "clean_json (JObj (sanitize_object kvs))"
  using clean_sanitizeResult [of "JObj kvs"] by (simp add: sanitize_object_def)

lemma attachEvidence_ok:
  assumes "attachEvidence legacy t snapshot r = Inr t'" "transition_ok t"
  shows "transition_ok t' \<and> tn_mcpStatus t' = tn_mcpStatus t"
  using assms by (auto simp: attachEvidence_def bind_err_Inr_iff transition_ok_def split: option.splits)

lemma technicalFailureTransition_ok:
  "transition_ok (technicalFailureTransition at reason) \<and> tn_mcpStatus (technicalFailureTransition at reason) = failed"
  by (simp add: technicalFailureTransition_def mapAdapterSnapshot_def Let_def transition_defs)

lemma technicalFailure_reason:
  "tn_error (technicalFailureTransition at reason) =
     Some [(''code'', JNum (-32603)), (''message'', JStr ''Task execution failed.''),
       (''data'', JObj [(''reasonCode'', JStr (or_else reason ''TECHNICAL_EXECUTION_FAILED'')), (''retryable'', JBool False)])]"
  by (simp add: technicalFailureTransition_def mapAdapterSnapshot_def Let_def terminal_transition_def)

lemma validatedSnapshotTransition_ok: "transition_ok (validatedSnapshotTransition at legacy operation snapshot)"
  using technicalFailureTransition_ok attachEvidence_ok mapAdapterSnapshot_ok
  by (auto simp: validatedSnapshotTransition_def contract_transition_def bind_err_Inr_iff split: sum.splits)

lemma evidence_items_distinct:
  "evidence_items legacy content ids items = Inr js \<Longrightarrow>
     distinct (map ev_evidenceId items) \<and> set ids \<inter> set (map ev_evidenceId items) = {} \<and> length js = length items"
proof (induction items arbitrary: ids js)
  case (Cons item items)
  then obtain j js' where run: "evidence_item legacy content ids item = Inr j"
      "evidence_items legacy content (ev_evidenceId item # ids) items = Inr js'" "js = j # js'"
    by (auto simp: bind_err_Inr_iff)
  then have "ev_evidenceId item \<notin> set ids" by (auto simp: evidence_item_def bind_err_Inr_iff split: if_splits)
  then show ?case using Cons.IH [OF run(2)] run(3) by auto
qed simp

lemma completed_state:
  assumes "mapAdapterSnapshot at snapshot = Inr t" "tn_mcpStatus t = completed"
  shows "result_state (sl_state snapshot)"
  using assms by (auto simp: mapAdapterSnapshot_def Let_def result_state_def working_transition_def terminal_transition_def split: if_splits)

text \<open>What is stored of the payload: its sanitized form without the reserved fields, to which a verdict other than success adds its own.\<close>

definition verdict_fields :: "instant \<Rightarrow> ExecutionSnapshot \<Rightarrow> json_object" where
  "verdict_fields at snapshot =
     (if es_state snapshot = ''SUCCEEDED'' then []
      else let outcome = (if es_state snapshot = ''BUSINESS_FAILED'' then ''business_failure'' else ''partial_completion'') in
        [(''outcome'', JStr outcome), (''reasonCode'', JStr (or_else (es_reasonCode snapshot) (toUpperCase outcome))),
         (''retryable'', JBool (es_retryable snapshot)), (''completedAt'', JStr (toISOString at))])"

definition stored_content :: "instant \<Rightarrow> ExecutionSnapshot \<Rightarrow> json_object" where
  "stored_content at snapshot =
     (let body = filter (\<lambda>(key, _). \<not> STANDARD_RESULT_FIELDS key) (sanitize_object (adapterResultPayload snapshot)) in
      if es_state snapshot = ''SUCCEEDED'' then body else obj_spread (verdict_fields at snapshot) body)"

lemma clean_JObj: "clean_json (JObj kvs) \<longleftrightarrow> (\<forall>(k, v) \<in> set kvs. \<not> prototype_key k \<and> clean_json v)"
  by (auto simp: list_all_iff)

lemma set_obj_set: "set (obj_set k v kvs) \<subseteq> insert (k, v) (set kvs)"
proof (induction kvs)
  case (Cons kv kvs)
  then show ?case by (cases kv; cases "k = fst kv") auto
qed simp

lemma set_obj_spread: "set (obj_spread l r) \<subseteq> set l \<union> set r"
  unfolding obj_spread_def
proof (induction r arbitrary: l)
  case (Cons kv r)
  obtain k v where kv: "kv = (k, v)" by (cases kv)
  have "set (foldl (\<lambda>acc (k, v). obj_set k v acc) (obj_set k v l) r) \<subseteq> set (obj_set k v l) \<union> set r" by (rule Cons.IH)
  then show ?case using set_obj_set [of k v l] unfolding kv by auto
qed simp

lemma clean_stored_content: "clean_json (JObj (stored_content at snapshot))"
proof -
  let ?body = "filter (\<lambda>(key, _). \<not> STANDARD_RESULT_FIELDS key) (sanitize_object (adapterResultPayload snapshot))"
  have body: "\<forall>(k, v) \<in> set ?body. \<not> prototype_key k \<and> clean_json v"
    using clean_sanitize_object [of "adapterResultPayload snapshot"] unfolding clean_JObj by auto
  moreover have "\<forall>(k, v) \<in> set (verdict_fields at snapshot). \<not> prototype_key k \<and> clean_json v"
    by (simp add: verdict_fields_def Let_def prototype_key_def)
  ultimately have "\<forall>(k, v) \<in> set (stored_content at snapshot). \<not> prototype_key k \<and> clean_json v"
    using set_obj_spread [of "verdict_fields at snapshot" ?body] unfolding stored_content_def Let_def by (auto split: if_splits)
  then show ?thesis unfolding clean_JObj .
qed

lemma business_content:
  assumes "mapAdapterSnapshot at (normalizeSnapshot snapshot (sanitize_object (adapterResultPayload snapshot))) = Inr t" "tn_mcpStatus t = completed"
  shows "\<exists>outcome b. tn_result t = Some (businessResult at (normalizeSnapshot snapshot (sanitize_object (adapterResultPayload snapshot))) outcome b) \<and>
    obj_get (businessResult at (normalizeSnapshot snapshot (sanitize_object (adapterResultPayload snapshot))) outcome b) ''structuredContent'' =
      Some (JObj (stored_content at snapshot))"
proof -
  let ?n = "normalizeSnapshot snapshot (sanitize_object (adapterResultPayload snapshot))"
  have get: "obj_get (businessResult at ?n outcome b) ''structuredContent'' =
      Some (if outcome = ''success'' then JObj (sanitizeResultPayload ?n)
        else JObj (obj_spread [(''outcome'', JStr outcome), (''reasonCode'', JStr (or_else (es_reasonCode snapshot) (toUpperCase outcome))),
          (''retryable'', JBool (es_retryable snapshot)), (''completedAt'', JStr (toISOString at))] (sanitizeResultPayload ?n)))" for outcome b
    by (simp add: businessResult_def Let_def obj_get_def normalizeSnapshot_def)
  have body: "sanitizeResultPayload ?n = filter (\<lambda>(key, _). \<not> STANDARD_RESULT_FIELDS key) (sanitize_object (adapterResultPayload snapshot))"
    by (simp add: sanitizeResultPayload_def normalizeSnapshot_def)
  have st: "sl_state ?n = es_state snapshot" by (simp add: normalizeSnapshot_def)
  from completed_state [OF assms] have "es_state snapshot \<in> {''SUCCEEDED'', ''BUSINESS_FAILED'', ''PARTIALLY_COMPLETED''}"
    by (simp add: result_state_def st)
  then consider "es_state snapshot = ''SUCCEEDED''" | "es_state snapshot = ''BUSINESS_FAILED''" | "es_state snapshot = ''PARTIALLY_COMPLETED''" by blast
  then show ?thesis
  proof cases
    case 1
    then have "tn_result t = Some (businessResult at ?n ''success'' False)"
      using assms(1) unfolding mapAdapterSnapshot_def Let_def st by (auto simp: terminal_transition_def)
    then show ?thesis using get [of "''success''" False] 1 by (auto simp: body stored_content_def Let_def)
  next
    case 2
    then have "tn_result t = Some (businessResult at ?n ''business_failure'' True)"
      using assms(1) unfolding mapAdapterSnapshot_def Let_def st by (auto simp: terminal_transition_def)
    then show ?thesis using get [of "''business_failure''" True] 2 by (auto simp: body stored_content_def verdict_fields_def Let_def)
  next
    case 3
    then have "tn_result t = Some (businessResult at ?n ''partial_completion'' True)"
      using assms(1) unfolding mapAdapterSnapshot_def Let_def st by (auto simp: terminal_transition_def)
    then show ?thesis using get [of "''partial_completion''" True] 3 by (auto simp: body stored_content_def verdict_fields_def Let_def)
  qed
qed

lemma attached_content:
  assumes "attachEvidenceToResult legacy (businessResult at n outcome b) snapshot sc = Inr r"
  shows "obj_get r ''structuredContent'' = obj_get (businessResult at n outcome b) ''structuredContent''"
proof -
  have "obj_get (obj_spread [(''resultType'', JStr ''complete'')] (businessResult at n outcome b)) ''structuredContent'' =
      obj_get (businessResult at n outcome b) ''structuredContent''"
    by (simp add: businessResult_def Let_def obj_spread_def obj_get_def)
  moreover have "obj_get (obj_spread l [(''_meta'', x)]) ''structuredContent'' = obj_get l ''structuredContent''" "obj_spread l [] = l" for l x
    by (simp_all add: obj_spread_def obj_get_set)
  ultimately show ?thesis using assms by (auto simp: attachEvidenceToResult_def bind_err_Inr_iff split: if_splits)
qed

text \<open>C37. Only a result that keeps the contract completes a task: the transition is always well formed, and when it completes the
  task the adapter reported a final business state, the payload is within the limits on bytes, depth and number of values and in its sanitized
  form satisfies the operation's output schema, the evidence is at most 64 items with distinct identifiers, and the structured content of
  the result that the transition stores is exactly the sanitized payload without the reserved fields, with the runtime's verdict where it is
  not a success, and has no key naming a prototype at any depth.  In every other case of a result state the task fails.\<close>

theorem completed_result_contract:
  "transition_ok (validatedSnapshotTransition at legacy operation snapshot) \<and>
   (tn_mcpStatus (validatedSnapshotTransition at legacy operation snapshot) = completed \<longrightarrow>
      result_state (es_state snapshot) \<and>
      byteLength (json_stringify (JObj (adapterResultPayload snapshot))) \<le> 1048576 \<and>
      json_depth (JObj (adapterResultPayload snapshot)) \<le> 32 \<and> json_nodes (JObj (adapterResultPayload snapshot)) \<le> 10000 \<and>
      vo_validateOutput operation (JObj (sanitize_object (adapterResultPayload snapshot))) = Inr () \<and>
      (\<forall>items. es_evidence snapshot = Some items \<longrightarrow> length items \<le> 64 \<and> distinct (map ev_evidenceId items)) \<and>
      (\<exists>r content. tn_result (validatedSnapshotTransition at legacy operation snapshot) = Some r \<and>
         obj_get r ''structuredContent'' = Some (JObj content) \<and> content = stored_content at snapshot \<and> clean_json (JObj content))) \<and>
   (result_state (es_state snapshot) \<longrightarrow>
      tn_mcpStatus (validatedSnapshotTransition at legacy operation snapshot) \<in> {completed, failed})"
proof (cases "contract_transition at legacy operation snapshot")
  case (Inl e)
  then show ?thesis using technicalFailureTransition_ok by (simp add: validatedSnapshotTransition_def)
next
  case (Inr t)
  then obtain t0 where run: "assertResultLimits (JObj (adapterResultPayload snapshot)) = Inr ()"
      "check_output operation snapshot (sanitize_object (adapterResultPayload snapshot)) = Inr ()"
      "mapAdapterSnapshot at (normalizeSnapshot snapshot (sanitize_object (adapterResultPayload snapshot))) = Inr t0"
      "attachEvidence legacy t0 snapshot (sanitize_object (adapterResultPayload snapshot)) = Inr t"
    by (auto simp: contract_transition_def sanitizedAdapterResultPayload_def Let_def bind_err_Inr_iff)
  have t: "validatedSnapshotTransition at legacy operation snapshot = t" using Inr by (simp add: validatedSnapshotTransition_def)
  have status: "tn_mcpStatus t = tn_mcpStatus t0" and ok0: "transition_ok t0"
    using attachEvidence_ok [OF run(4)] mapAdapterSnapshot_ok [OF run(3)] by auto
  have final: "tn_mcpStatus t0 = completed" if "result_state (es_state snapshot)"
    using run(3) that by (auto simp: mapAdapterSnapshot_def Let_def result_state_def normalizeSnapshot_def terminal_transition_def)
  have "result_state (es_state snapshot)" if "tn_mcpStatus t = completed"
    using completed_state [OF run(3)] that status by (simp add: normalizeSnapshot_def)
  moreover have "length items \<le> 64 \<and> distinct (map ev_evidenceId items)"
    if fin: "tn_mcpStatus t = completed" and items: "es_evidence snapshot = Some items" for items
  proof -
    have "tn_result t0 \<noteq> None" using fin status ok0 by (simp add: transition_ok_def)
    then show ?thesis using run(4) items evidence_items_distinct
      by (auto simp: attachEvidence_def attachEvidenceToResult_def validateEvidence_def bind_err_Inr_iff split: if_splits)
  qed
  moreover have "\<exists>r. tn_result t = Some r \<and> obj_get r ''structuredContent'' = Some (JObj (stored_content at snapshot))"
    if fin: "tn_mcpStatus t = completed"
  proof -
    from business_content [OF run(3)] fin status obtain outcome b where
      b: "tn_result t0 = Some (businessResult at (normalizeSnapshot snapshot (sanitize_object (adapterResultPayload snapshot))) outcome b)"
        "obj_get (businessResult at (normalizeSnapshot snapshot (sanitize_object (adapterResultPayload snapshot))) outcome b) ''structuredContent'' =
          Some (JObj (stored_content at snapshot))" by auto
    then show ?thesis using run(4) attached_content by (fastforce simp: attachEvidence_def bind_err_Inr_iff)
  qed
  ultimately show ?thesis
    using validatedSnapshotTransition_ok [of at legacy operation snapshot] run(1,2) status final clean_stored_content [of at snapshot]
    unfolding t by (auto simp: assertResultLimits_iff check_output_def)
qed

definition rc_operation :: ValidatedOperation where
  "rc_operation = (hd (vm_operations reg_validated))\<lparr>vo_validateOutput := (\<lambda>_. Inr ())\<rparr>"

definition rc_snapshot :: ExecutionSnapshot where
  "rc_snapshot = \<lparr>es_taskId = ''t'', es_externalExecutionId = ''x'', es_state = ''SUCCEEDED'', es_revision = 1, es_reasonCode = [],
     es_message = ''done'', es_retryable = False, es_result = Some [(''level'', numberValue 3)], es_inputRequests = None,
     es_mcpInputRequests = None, es_evidence = None, es_operationName = ''heat'', es_argumentHash = ''a'', es_executionContext = None\<rparr>"

lemma rc_completed: "tn_mcpStatus (validatedSnapshotTransition 0 (\<lambda>_. None) rc_operation rc_snapshot) = completed"
proof -
  have payload: "adapterResultPayload rc_snapshot = [(''level'', JNum 3)]" by code_simp
  have "assertResultLimits (JObj (adapterResultPayload rc_snapshot)) = Inr ()"
  proof -
    have "byteLength (json_stringify (JObj [(''level'', JNum 3)])) = 11" "json_depth (JObj [(''level'', JNum 3)]) \<le> 32"
      "json_nodes (JObj [(''level'', JNum 3)]) = 2" by code_simp+
    then show ?thesis unfolding assertResultLimits_iff payload by simp
  qed
  moreover have "byteLength (json_stringify (JObj [(''profileVersion'', JStr ''1.0''), (''items'', JArr [])])) = 35" by code_simp
  then have "validateEvidence legacy [] sc = Inr []" for legacy sc unfolding validateEvidence_def by simp
  ultimately show ?thesis
    by (simp add: validatedSnapshotTransition_def contract_transition_def sanitizedAdapterResultPayload_def check_output_def rc_operation_def
        rc_snapshot_def normalizeSnapshot_def mapAdapterSnapshot_def attachEvidence_def attachEvidenceToResult_def
        terminal_transition_def Let_def)
qed

theorem completed_result_contract_witness:
  "tn_mcpStatus (validatedSnapshotTransition 0 (\<lambda>_. None) rc_operation rc_snapshot) = completed \<and>
   (\<exists>r. tn_result (validatedSnapshotTransition 0 (\<lambda>_. None) rc_operation rc_snapshot) = Some r \<and>
      obj_get r ''structuredContent'' = Some (JObj (stored_content 0 rc_snapshot)))"
  using completed_result_contract [of 0 "\<lambda>_. None" rc_operation rc_snapshot] rc_completed by blast

end
