(* ===== verification/Worker.thy ===== *)
theory Worker
  imports Store_Steps Result_Contract
begin

text \<open>
  Background workers and request handlers as programs over the store and the rest of the world.  A program is a function
  of the world that returns a value or the error it throws, with the world it leaves behind.  Every repository call is
  one committed transaction, made after whatever other replicas have done to the store since the last one; what they
  do, the clocks, the snapshot table, the rows locked by others and the number of heartbeats are given by the context as
  functions of the number of calls made so far.  The gRPC gateway is a record of functions on the rest of the world.

  The main result on programs is compositional: a program built from the repository's operations moves the store by a sequence of
  repository steps, so that everything proved of reachable stores holds before, while and after it runs.
\<close>

section \<open>Programs\<close>

record 'w world =
  w_db :: db
  w_turn :: nat
  w_rest :: 'w

record worker_ctx =
  wc_env :: "nat \<Rightarrow> runtime_env"
  wc_others :: "nat \<Rightarrow> db \<Rightarrow> db"
  wc_snapshots :: "nat \<Rightarrow> snapshot_table"
  wc_compile :: schema_compiler
  wc_command_free :: "nat \<Rightarrow> command_row \<Rightarrow> bool"
  wc_task_free :: "nat \<Rightarrow> string \<Rightarrow> bool"
  wc_inbox_free :: "nat \<Rightarrow> inbox_row \<Rightarrow> bool"
  wc_beats :: "nat \<Rightarrow> nat"
  wc_hashtext :: "string \<Rightarrow> int"
  wc_raw :: "proto_struct \<Rightarrow> json"
  wc_accepts_undefined :: "json_object \<Rightarrow> bool"

type_synonym ('w, 'a) program = "'w world \<Rightarrow> (err + 'a) \<times> 'w world"

definition ret :: "'a \<Rightarrow> ('w, 'a) program" where
  "ret v s = (Inr v, s)"

definition throw :: "err \<Rightarrow> ('w, 'a) program" where
  "throw e s = (Inl e, s)"

definition andThen :: "('w, 'a) program \<Rightarrow> ('a \<Rightarrow> ('w, 'b) program) \<Rightarrow> ('w, 'b) program" where
  "andThen m f s = (case m s of (Inl e, s') \<Rightarrow> (Inl e, s') | (Inr v, s') \<Rightarrow> f v s')"

text \<open>\<^verbatim>\<open>try { m } catch (error) { h(error) }\<close>.\<close>

definition catching :: "('w, 'a) program \<Rightarrow> (err \<Rightarrow> ('w, 'a) program) \<Rightarrow> ('w, 'a) program" where
  "catching m h s = (case m s of (Inl e, s') \<Rightarrow> h e s' | r \<Rightarrow> r)"

text \<open>What the others have committed, then the call; a call that throws is rolled back.\<close>

definition settle_others :: "worker_ctx \<Rightarrow> 'w world \<Rightarrow> 'w world" where
  "settle_others ctx s = s\<lparr>w_db := wc_others ctx (w_turn s) (w_db s), w_turn := Suc (w_turn s)\<rparr>"

definition call :: "worker_ctx \<Rightarrow> (nat \<Rightarrow> runtime_env \<Rightarrow> db \<Rightarrow> err + ('a \<times> db)) \<Rightarrow> ('w, 'a) program" where
  "call ctx op s =
     (let s1 = settle_others ctx s
      in case op (w_turn s) (wc_env ctx (w_turn s)) (w_db s1) of
           Inl e \<Rightarrow> (Inl e, s1)
         | Inr (v, db) \<Rightarrow> (Inr v, s1\<lparr>w_db := db\<rparr>))"

definition read_store :: "worker_ctx \<Rightarrow> (runtime_env \<Rightarrow> db \<Rightarrow> 'a) \<Rightarrow> ('w, 'a) program" where
  "read_store ctx f = call ctx (\<lambda>_ env db. Inr (f env db, db))"

definition lift_err :: "err + 'a \<Rightarrow> ('w, 'a) program" where
  "lift_err m s = (m, s)"

definition clock_now :: "worker_ctx \<Rightarrow> ('w, instant) program" where
  "clock_now ctx s = (Inr (now (wc_env ctx (w_turn s))), s)"

definition loadOperation :: "worker_ctx \<Rightarrow> string \<Rightarrow> ('w, ValidatedOperation) program" where
  "loadOperation ctx snapshotId s =
     (map_sum id rt_operation (loadOperationSnapshot (sha256 (wc_env ctx (w_turn s))) (wc_compile ctx) snapshotId
        (wc_snapshots ctx (w_turn s))), s)"

text \<open>A call of the gateway: \<open>rpc\<close> may change the rest of the world, never the store.\<close>

definition remote :: "('w \<Rightarrow> (err + 'a) \<times> 'w) \<Rightarrow> ('w, 'a) program" where
  "remote rpc s = (case rpc (w_rest s) of (r, w) \<Rightarrow> (r, s\<lparr>w_rest := w\<rparr>))"

text \<open>\<^verbatim>\<open>Promise.all(xs.map(x => act(x)))\<close> with a shared result: every action runs to its end, and the first error is the error of the whole.\<close>

fun run_all :: "('a \<Rightarrow> 'r \<Rightarrow> ('w, 'r) program) \<Rightarrow> 'a list \<Rightarrow> 'r \<Rightarrow> ('w, 'r) program" where
  "run_all act [] r s = (Inr r, s)"
| "run_all act (x # xs) r s =
     (case act x r s of
        (Inr r1, s1) \<Rightarrow> run_all act xs r1 s1
      | (Inl e, s1) \<Rightarrow> (case run_all act xs r s1 of (_, s2) \<Rightarrow> (Inl e, s2)))"

text \<open>The error's message, and \<^verbatim>\<open>text.includes(part)\<close>.\<close>

fun err_message :: "err \<Rightarrow> string" where
  "err_message (Error m) = m"
| "err_message (RuntimeError _ reasonCode _) = reasonCode"
| "err_message (CommandInProgressError _) = ''COMMAND_IN_PROGRESS''"
| "err_message (RangeError m) = m"
| "err_message (DbConstraint name) = name"
| "err_message (ServiceError _ m) = m"

fun text_includes :: "string \<Rightarrow> string \<Rightarrow> bool" where
  "text_includes part [] = (part = [])"
| "text_includes part (c # cs) = (starts_with part (c # cs) \<or> text_includes part cs)"

definition isIdentityError :: "err \<Rightarrow> bool" where
  "isIdentityError e = text_includes ''IDENTITY_MISMATCH'' (err_message e)"

text \<open>\<^verbatim>\<open>xs.map(f)\<close>, where \<open>f\<close> may throw.\<close>

fun map_err :: "('a \<Rightarrow> err + 'b) \<Rightarrow> 'a list \<Rightarrow> err + 'b list" where
  "map_err f [] = Inr []"
| "map_err f (x # xs) = bind_err (f x) (\<lambda>y. bind_err (map_err f xs) (\<lambda>ys. Inr (y # ys)))"

text \<open>The delay before the next attempt of a command or of a start confirmation.\<close>

definition attempt_delay :: "nat \<Rightarrow> int" where
  "attempt_delay attempts = min 30000 (250 * 2 ^ min (attempts - 1) 7)"

interpretation attempts: backoff attempt_delay 30000
proof
  fix n
  show "0 < attempt_delay n" "attempt_delay n \<le> 30000" by (simp_all add: attempt_delay_def)
  show "attempt_delay n \<le> attempt_delay (Suc n)"
    using capped_power_Suc [of 250 30000 "n - 1" 7] by (cases n) (auto simp: attempt_delay_def)
qed

section \<open>Leases kept alive\<close>

text \<open>\<^verbatim>\<open>lease-heartbeat.ts\<close>: the lease is renewed before and after the action and, by a timer, \<open>beats\<close> times while it runs; the last
  failure of a timed renewal replaces the value of an action that succeeds.\<close>

definition heartbeat_interval :: "int \<Rightarrow> int" where
  "heartbeat_interval leaseMilliseconds = max 25 (leaseMilliseconds div 3)"

fun run_beats :: "nat \<Rightarrow> ('w, unit) program \<Rightarrow> err option \<Rightarrow> 'w world \<Rightarrow> err option \<times> 'w world" where
  "run_beats 0 renew failure s = (failure, s)"
| "run_beats (Suc n) renew failure s =
     (case renew s of
        (Inl e, s') \<Rightarrow> run_beats n renew (Some e) s'
      | (Inr _, s') \<Rightarrow> run_beats n renew failure s')"

definition withLeaseHeartbeat ::
  "worker_ctx \<Rightarrow> ('w, unit) program \<Rightarrow> ('w, 'a) program \<Rightarrow> ('w, 'a) program" where
  "withLeaseHeartbeat ctx renew act =
     andThen renew (\<lambda>_ s.
       let (r, s1) = act s; (failure, s2) = run_beats (wc_beats ctx (w_turn s)) renew None s1
       in case r of
            Inl e \<Rightarrow> (Inl e, s2)
          | Inr v \<Rightarrow> (case failure of Some e \<Rightarrow> (Inl e, s2) | None \<Rightarrow> andThen renew (\<lambda>_. ret v) s2))"

section \<open>The gateway\<close>

record gateway_request =
  gr_taskId :: string
  gr_operationName :: string
  gr_argumentHash :: string
  gr_authorizationContextHash :: string
  gr_executionMode :: ExecutionMode
  gr_simulationId :: "string option"
  gr_correlationId :: "string option"
  gr_rootTraceparent :: "string option"
  gr_rootTracestate :: "string option"
  gr_externalExecutionId :: "string option"

definition execution_request :: "task_row \<Rightarrow> string \<Rightarrow> gateway_request" where
  "execution_request task operationName =
     (let a = in_authorization (spec task) in
      \<lparr>gr_taskId = task_id task, gr_operationName = operationName, gr_argumentHash = in_argumentHash (spec task),
       gr_authorizationContextHash = au_hash a, gr_executionMode = au_executionMode a, gr_simulationId = au_simulationId a, gr_correlationId = None,
       gr_rootTraceparent = au_rootTraceparent a, gr_rootTracestate = au_rootTracestate a,
       gr_externalExecutionId = external_execution_id task\<rparr>)"

definition expected_identity :: "task_row \<Rightarrow> string \<Rightarrow> ExpectedExecutionIdentity" where
  "expected_identity task operationName =
     \<lparr>ei_taskId = task_id task, ei_externalExecutionId = external_execution_id task, ei_operationName = operationName,
      ei_argumentHash = in_argumentHash (spec task), ei_authorizationContextHash = au_hash (in_authorization (spec task)),
      ei_executionMode = show_mode (au_executionMode (in_authorization (spec task))),
      ei_simulationId = au_simulationId (in_authorization (spec task))\<rparr>"

section \<open>Reading off what a program has done\<close>

lemma andThen_InrE:
  assumes "andThen m f s = (Inr v, s')"
  obtains x s1 where "m s = (Inr x, s1)" "f x s1 = (Inr v, s')"
  using assms by (auto simp: andThen_def split: prod.splits sum.splits)

lemma catching_InrE:
  assumes "catching m h s = (Inr v, s')"
  obtains (plain) "m s = (Inr v, s')" | (caught) e s1 where "m s = (Inl e, s1)" "h e s1 = (Inr v, s')"
  using assms by (auto simp: catching_def split: prod.splits sum.splits)

lemma ret_Inr [simp]: "ret x s = (Inr v, s') \<longleftrightarrow> v = x \<and> s' = s"
  by (auto simp: ret_def)

lemma throw_not_Inr [simp]: "throw e s \<noteq> (Inr v, s')"
  by (simp add: throw_def)

lemma lift_err_Inr [simp]: "lift_err m s = (Inr v, s') \<longleftrightarrow> m = Inr v \<and> s' = s"
  by (auto simp: lift_err_def)

lemma remote_InrE:
  assumes "remote rpc s = (Inr v, s')"
  obtains w where "rpc (w_rest s) = (Inr v, w)" "s' = s\<lparr>w_rest := w\<rparr>"
  using assms by (auto simp: remote_def split: prod.splits)

lemma heartbeat_InrE:
  assumes "withLeaseHeartbeat ctx renew act s = (Inr v, s')"
  obtains s1 s2 where "act s1 = (Inr v, s2)"
proof -
  obtain s1 where "(let (r, t1) = act s1; (failure, t2) = run_beats (wc_beats ctx (w_turn s1)) renew None t1
      in case r of Inl e \<Rightarrow> (Inl e, t2)
         | Inr v \<Rightarrow> (case failure of Some e \<Rightarrow> (Inl e, t2) | None \<Rightarrow> andThen renew (\<lambda>_. ret v) t2)) = (Inr v, s')"
    using assms unfolding withLeaseHeartbeat_def by (elim andThen_InrE) auto
  then show thesis
    by (auto split: prod.splits sum.splits option.splits elim!: andThen_InrE intro: that)
qed

section \<open>Programs and the store\<close>

text \<open>A relation on worlds that every step of a program respects.\<close>

locale world_order =
  fixes before :: "'w world \<Rightarrow> 'w world \<Rightarrow> bool"
  assumes before_refl: "before s s"
    and before_trans: "before s t \<Longrightarrow> before t u \<Longrightarrow> before s u"
begin

definition stays :: "('w, 'a) program \<Rightarrow> bool" where
  "stays m = (\<forall>s. before s (snd (m s)))"

lemma staysD: "stays m \<Longrightarrow> m s = (r, s') \<Longrightarrow> before s s'"
  by (metis stays_def snd_conv)

lemma stays_ret: "stays (ret v)" and stays_throw: "stays (throw e)" and stays_lift: "stays (lift_err r)"
  and stays_clock: "stays (clock_now ctx)" and stays_load: "stays (loadOperation ctx i)"
  by (simp_all add: stays_def ret_def throw_def lift_err_def clock_now_def loadOperation_def before_refl)

lemma stays_andThen: "stays m \<Longrightarrow> (\<And>v. stays (f v)) \<Longrightarrow> stays (andThen m f)"
  unfolding stays_def andThen_def
  by (auto split: prod.splits sum.splits) (metis before_trans snd_conv)+

lemma stays_catching: "stays m \<Longrightarrow> (\<And>e. stays (h e)) \<Longrightarrow> stays (catching m h)"
  unfolding stays_def catching_def
  by (auto split: prod.splits sum.splits) (metis before_trans snd_conv)+

lemma stays_beats: "stays renew \<Longrightarrow> before s (snd (run_beats n renew failure s))"
proof (induction n arbitrary: failure s)
  case (Suc n)
  obtain r s' where r: "renew s = (r, s')" by (cases "renew s")
  then have "before s s'" using Suc.prems by (rule staysD [rotated])
  then show ?case using Suc r before_trans by (cases r) auto
qed (simp add: before_refl)

lemma stays_heartbeat:
  fixes act :: "('w, 'a) program"
  assumes "stays renew" "stays act"
  shows "stays (withLeaseHeartbeat ctx renew act)"
  unfolding withLeaseHeartbeat_def
proof (rule stays_andThen [OF assms(1)])
  fix v
  have "before s (snd (let (r, s1) = act s; (failure, s2) = run_beats (wc_beats ctx (w_turn s)) renew None s1
      in case r of Inl e \<Rightarrow> (Inl e, s2)
         | Inr v \<Rightarrow> (case failure of Some e \<Rightarrow> (Inl e, s2) | None \<Rightarrow> andThen renew (\<lambda>_. ret v) s2)))" for s
  proof -
    obtain r s1 where a: "act s = (r, s1)" by (cases "act s")
    obtain failure s2 where b: "run_beats (wc_beats ctx (w_turn s)) renew None s1 = (failure, s2)" by fastforce
    have "before s s2" using staysD [OF assms(2) a] stays_beats [OF assms(1), of s1 "wc_beats ctx (w_turn s)" None] b before_trans by auto
    moreover have "before s2 (snd (andThen renew (\<lambda>_. ret v) s2))" for v :: 'a
      using stays_andThen [OF assms(1) stays_ret, of "\<lambda>_. v"] by (simp add: stays_def)
    ultimately show ?thesis by (auto simp: a b intro: before_trans split: sum.splits option.splits)
  qed
  then show "stays (\<lambda>s. let (r, s1) = act s; (failure, s2) = run_beats (wc_beats ctx (w_turn s)) renew None s1
      in case r of Inl e \<Rightarrow> (Inl e, s2)
         | Inr v \<Rightarrow> (case failure of Some e \<Rightarrow> (Inl e, s2) | None \<Rightarrow> andThen renew (\<lambda>_. ret v) s2))"
    by (simp add: stays_def)
qed

lemma stays_all:
  assumes "\<And>x r. stays (act x r)"
  shows "stays (run_all act xs r)"
proof -
  have "before s (snd (run_all act xs r s))" for s
  proof (induction xs arbitrary: r s)
    case (Cons x xs)
    obtain y s1 where one: "act x r s = (y, s1)" by (cases "act x r s")
    have "before s s1" using staysD [OF assms one] .
    then show ?case using Cons.IH before_trans
      by (cases y) (auto simp: one split: prod.splits, metis snd_conv)
  qed (simp add: before_refl)
  then show ?thesis by (simp add: stays_def)
qed

lemma stays_if: "stays p \<Longrightarrow> stays q \<Longrightarrow> stays (if b then p else q)"
  and stays_option: "stays p \<Longrightarrow> (\<And>y. stays (f y)) \<Longrightarrow> stays (case x of None \<Rightarrow> p | Some y \<Rightarrow> f y)"
  and stays_bool: "stays p \<Longrightarrow> stays q \<Longrightarrow> stays (case b of True \<Rightarrow> p | False \<Rightarrow> q)"
  and stays_pair: "(\<And>a b. stays (g a b)) \<Longrightarrow> stays (case z of (a, b) \<Rightarrow> g a b)"
  by (simp_all split: option.splits prod.splits bool.splits)

lemmas stays_intros = stays_if stays_option stays_bool stays_pair stays_ret stays_throw stays_lift stays_clock stays_load stays_andThen stays_catching stays_heartbeat stays_all

end

text \<open>The store moves by repository steps; the rest of the world is free.\<close>

definition store_run :: "'w world \<Rightarrow> 'w world \<Rightarrow> bool" where
  "store_run s s' = repo_step\<^sup>*\<^sup>* (w_db s) (w_db s')"

interpretation runs: world_order store_run
  by unfold_locales (auto simp: store_run_def)

definition others_step :: "worker_ctx \<Rightarrow> bool" where
  "others_step ctx = (\<forall>n db. repo_step\<^sup>*\<^sup>* db (wc_others ctx n db))"

lemma runs_remote: "runs.stays (remote rpc)"
  by (simp add: runs.stays_def remote_def store_run_def split: prod.splits)

lemma runs_call:
  assumes "others_step ctx" "\<And>n env db v db'. op n env db = Inr (v, db') \<Longrightarrow> repo_step\<^sup>*\<^sup>* db db'"
  shows "runs.stays (call ctx op :: ('w, 'a) program)"
proof -
  have "repo_step\<^sup>*\<^sup>* (w_db s) (w_db (snd (call ctx op s)))" for s :: "'w world"
  proof -
    have o: "repo_step\<^sup>*\<^sup>* (w_db s) (w_db (settle_others ctx s))" using assms(1) by (simp add: others_step_def settle_others_def)
    show ?thesis
    proof (cases "op (w_turn s) (wc_env ctx (w_turn s)) (w_db (settle_others ctx s))")
      case (Inr r)
      obtain v db' where r: "r = (v, db')" by (cases r)
      have "repo_step\<^sup>*\<^sup>* (w_db (settle_others ctx s)) db'" using assms(2) [OF Inr [unfolded r]] .
      with o show ?thesis by (simp add: call_def Let_def Inr r)
    qed (use o in \<open>simp add: call_def Let_def\<close>)
  qed
  then show ?thesis by (simp add: runs.stays_def store_run_def)
qed

lemma runs_step:
  assumes "others_step ctx" "\<And>n env db v db'. op n env db = Inr (v, db') \<Longrightarrow> repo_step db db'"
  shows "runs.stays (call ctx op)"
  using assms by (intro runs_call) auto

lemma runs_read: "others_step ctx \<Longrightarrow> runs.stays (read_store ctx f)"
  unfolding read_store_def by (rule runs_call) auto

lemma runs_reachable:
  assumes "runs.stays m" "m s = (r, s')" "reachable_store (w_db s)"
  shows "reachable_store (w_db s') \<and> repo_step\<^sup>*\<^sup>* (w_db s) (w_db s')"
proof -
  have "repo_step\<^sup>*\<^sup>* (w_db s) (w_db s')" using runs.staysD [OF assms(1,2)] by (simp add: store_run_def)
  then show ?thesis using assms(3) by (auto simp: reachable_store_def intro: rtranclp_trans)
qed

end
