(* ===== verification/Scheduler.thy ===== *)
theory Scheduler
  imports Worker
begin

text \<open>
  The durable scheduler (\<^verbatim>\<open>packages/task-engine/src/scheduler.ts\<close>) and the watchdog that confirms bound executions
  (\<^verbatim>\<open>bound-execution-watchdog.ts\<close>).  A tick confirms bound starts, completes missed windows, reconciles starts whose answer was lost,
  starts what is due and requests the stop of what is past its deadline.  The actions of one stage run concurrently; they are run
  here one after the other, and what the others do in between is part of the context.  \<^verbatim>\<open>onEvent\<close> is left out.
\<close>

section \<open>Requests\<close>

record start_request =
  sr_request :: gateway_request
  sr_arguments :: json_object
  sr_invocationAttempt :: "nat option"
  sr_timing :: json
  sr_reservationRef :: "string option"

record 'w start_gateway =
  sg_startOperation :: "start_request \<Rightarrow> 'w \<Rightarrow> (err + StartOperationResponse) \<times> 'w"
  sg_reconcileExecution :: "gateway_request \<Rightarrow> 'w \<Rightarrow> (err + ReconcileExecutionResponse) \<times> 'w"

text \<open>\<^verbatim>\<open>timestamp(new Date(text))\<close>; an unreadable date prints as \<^verbatim>\<open>NaN\<close>.\<close>

definition timestamp :: "instant option \<Rightarrow> json" where
  "timestamp v = JObj [(''seconds'', JStr (case v of None \<Rightarrow> ''NaN'' | Some t \<Rightarrow> show_int (t div 1000))), (''nanos'', JNum 0)]"

definition adapterTiming :: "(string \<Rightarrow> instant option) \<Rightarrow> TaskExecutionTiming \<Rightarrow> json" where
  "adapterTiming legacy timing =
     JObj ((''start'', JObj (case tm_start timing of
         scheduled scheduledAt tolerance \<Rightarrow>
           [(''mode'', JStr ''SCHEDULED''), (''scheduledAt'', timestamp (Date_parse legacy scheduledAt)),
            (''startToleranceMs'', JStr (show_int tolerance))]
       | immediate tolerance \<Rightarrow> [(''mode'', JStr ''IMMEDIATE''), (''startToleranceMs'', JStr (show_int tolerance))])) #
       optional_field ''maxElapsedMs'' (map_option (\<lambda>m. JStr (show_int m)) (tm_maxElapsedMs timing)))"

definition start_request_of :: "runtime_env \<Rightarrow> task_row \<Rightarrow> start_request" where
  "start_request_of env task =
     \<lparr>sr_request = (execution_request task (in_operationName (spec task)))\<lparr>gr_externalExecutionId := None\<rparr>,
      sr_arguments = in_arguments (spec task), sr_invocationAttempt = Some (invocation_attempt task),
      sr_timing = adapterTiming (legacy_date env) (in_timing (spec task)), sr_reservationRef = in_reservationRef (spec task)\<rparr>"

section \<open>Windows and delays\<close>

definition startWindowClosed :: "task_row \<Rightarrow> instant \<Rightarrow> bool" where
  "startWindowClosed task at = (case latest_start_at task of None \<Rightarrow> False | Some latest \<Rightarrow> latest \<le> at)"

definition startResponseLate :: "task_row \<Rightarrow> instant \<Rightarrow> bool" where
  "startResponseLate task at = (case latest_start_at task of None \<Rightarrow> False | Some latest \<Rightarrow> latest < at)"

definition snapshotHasStarted :: "string \<Rightarrow> bool" where
  "snapshotHasStarted st =
     (st \<in> {''RUNNING'', ''PAUSED'', ''RESUMING'', ''WAITING_INPUT'', ''SUCCEEDED'', ''BUSINESS_FAILED'', ''PARTIALLY_COMPLETED'',
        ''TECHNICAL_FAILED''})"

definition requiredClaimOwner :: "task_row \<Rightarrow> err + string" where
  "requiredClaimOwner task =
     (case schedule_claim_owner task of None \<Rightarrow> Inl (Error ''SCHEDULED_TASK_CLAIM_OWNER_MISSING'') | Some owner \<Rightarrow> Inr owner)"

text \<open>\<^verbatim>\<open>Math.min(5000, 250 * 2 ** Math.min(attempt - 1, 5))\<close>; before the first attempt it is half of the first delay.\<close>

definition start_delay :: "nat \<Rightarrow> int" where
  "start_delay attempt = (if attempt = 0 then 125 else min 5000 (250 * 2 ^ min (attempt - 1) 5))"

text \<open>\<^verbatim>\<open>Number.parseInt(taskId.slice(-2), 16) % 101\<close>: task identifiers are UUIDs, so the digits are there; without any the number
  is not one, and the date made from it is rejected by the database.\<close>

definition hex_number :: "string \<Rightarrow> int option" where
  "hex_number s =
     (let digits = takeWhile is_hex s in
      if digits = [] then None else Some (foldl (\<lambda>n c. 16 * n + int (unhex (lower_char c))) 0 digits))"

definition start_jitter :: "string \<Rightarrow> int option" where
  "start_jitter t = map_option (\<lambda>n. n mod 101) (hex_number (drop (length t - 2) t))"

definition retryAt :: "task_row \<Rightarrow> instant \<Rightarrow> err + instant" where
  "retryAt task at =
     (case start_jitter (task_id task) of
        None \<Rightarrow> Inl (DbConstraint ''invalid_datetime_format'')
      | Some jitter \<Rightarrow>
          let candidate = at + start_delay (invocation_attempt task) + jitter
          in Inr (case latest_start_at task of
               Some latest \<Rightarrow> if latest < candidate then latest else candidate
             | None \<Rightarrow> candidate))"

section \<open>The watchdog\<close>

record BoundExecutionWatchdogResult =
  wr_claimed :: nat
  wr_started :: nat
  wr_stopRequested :: nat
  wr_deferred :: nat

definition confirmedStart :: "string \<Rightarrow> bool" where
  "confirmedStart st =
     (st \<in> {''RUNNING'', ''PAUSED'', ''RESUMING'', ''SUCCEEDED'', ''BUSINESS_FAILED'', ''PARTIALLY_COMPLETED'', ''TECHNICAL_FAILED''})"

definition retryDelay :: "nat \<Rightarrow> int" where
  "retryDelay attempt = attempt_delay attempt"

definition confirm_claim_owner :: "task_row \<Rightarrow> err + string" where
  "confirm_claim_owner task =
     (case schedule_claim_owner task of None \<Rightarrow> Inl (Error ''START_CONFIRMATION_CLAIM_OWNER_MISSING'') | Some owner \<Rightarrow> Inr owner)"

definition defer_confirmation_at :: "worker_ctx \<Rightarrow> task_row \<Rightarrow> string \<Rightarrow> instant \<Rightarrow> string \<Rightarrow> ('w, unit) program" where
  "defer_confirmation_at ctx task owner at message =
     call ctx (\<lambda>_ env. deferStartConfirmation env (task_id task) owner (at + retryDelay (start_confirmation_attempts task)) message)"

text \<open>The \<^verbatim>\<open>try\<close> block of \<^verbatim>\<open>confirm\<close>.\<close>

definition confirm_bound ::
  "worker_ctx \<Rightarrow> int \<Rightarrow> 'w start_gateway \<Rightarrow> task_row \<Rightarrow> string \<Rightarrow> BoundExecutionWatchdogResult \<Rightarrow> ('w, BoundExecutionWatchdogResult) program" where
  "confirm_bound ctx leaseMilliseconds gw task owner r =
     andThen (loadOperation ctx (in_operationSnapshotId (spec task))) (\<lambda>operation.
     andThen (withLeaseHeartbeat ctx
       (call ctx (\<lambda>_ env. renewStartConfirmationClaim env (task_id task) owner leaseMilliseconds))
       (remote (sg_reconcileExecution gw (execution_request task (vo_name operation))))) (\<lambda>response.
     andThen (clock_now ctx) (\<lambda>completedAt.
     let stop = andThen (call ctx (\<lambda>_ env. stopUnconfirmedBoundExecution env (task_id task) owner completedAt)) (\<lambda>_.
           ret (r\<lparr>wr_stopRequested := wr_stopRequested r + 1\<rparr>))
     in if rr_status response = ''TRANSIENT_UNAVAILABLE'' then
          andThen (defer_confirmation_at ctx task owner completedAt
            (or_else (rr_message response) ''Start confirmation is temporarily unavailable.'')) (\<lambda>_.
          ret (r\<lparr>wr_deferred := wr_deferred r + 1\<rparr>))
        else if rr_status response \<noteq> ''FOUND'' then stop
        else case rr_snapshot response of
            None \<Rightarrow> stop
          | Some snapshot \<Rightarrow>
              andThen (lift_err (validateAdapterSnapshotIdentity snapshot (expected_identity task (vo_name operation)))) (\<lambda>_.
              if confirmedStart (es_state snapshot) then
                andThen (call ctx (\<lambda>_ env. confirmBoundExecutionStarted (task_id task) owner (es_revision snapshot)
                  (validatedSnapshotTransition (now env) (legacy_date env) operation snapshot) completedAt)) (\<lambda>_.
                ret (r\<lparr>wr_started := wr_started r + 1\<rparr>))
              else stop))))"

definition confirm ::
  "worker_ctx \<Rightarrow> int \<Rightarrow> 'w start_gateway \<Rightarrow> task_row \<Rightarrow> BoundExecutionWatchdogResult \<Rightarrow> ('w, BoundExecutionWatchdogResult) program" where
  "confirm ctx leaseMilliseconds gw task r =
     andThen (lift_err (confirm_claim_owner task)) (\<lambda>owner.
     catching (confirm_bound ctx leaseMilliseconds gw task owner r)
       (\<lambda>e. if err_message e = ''START_CONFIRMATION_CLAIM_LOST'' then ret r
            else
              andThen (clock_now ctx) (\<lambda>deferredAt.
              andThen (defer_confirmation_at ctx task owner deferredAt (err_message e)) (\<lambda>_.
              ret (r\<lparr>wr_deferred := wr_deferred r + 1\<rparr>)))))"

definition watchdog_tick ::
  "worker_ctx \<Rightarrow> string \<Rightarrow> nat \<Rightarrow> int \<Rightarrow> 'w start_gateway \<Rightarrow> ('w, BoundExecutionWatchdogResult) program" where
  "watchdog_tick ctx workerId concurrency leaseMilliseconds gw =
     andThen (clock_now ctx) (\<lambda>at.
     andThen (call ctx (\<lambda>n _. claimBoundStartConfirmations (wc_task_free ctx n) at workerId concurrency leaseMilliseconds)) (\<lambda>tasks.
     run_all (confirm ctx leaseMilliseconds gw) tasks
       \<lparr>wr_claimed = length tasks, wr_started = 0, wr_stopRequested = 0, wr_deferred = 0\<rparr>))"

section \<open>Starting and reconciling\<close>

record SchedulerTickResult =
  sk_started :: nat
  sk_missed :: nat
  sk_deferred :: nat
  sk_deadlineStops :: nat
  sk_watchdogStops :: nat
  sk_reconciled :: nat

definition input_of :: "AdapterInputRequest \<Rightarrow> NewInputRequest" where
  "input_of i = \<lparr>ni_key = ai_key i, ni_description = ai_description i, ni_schema = JObj (protoStructToJson (ai_inputSchema i)),
     ni_required = ai_required i, ni_requestJson = None\<rparr>"

definition acceptStart ::
  "worker_ctx \<Rightarrow> task_row \<Rightarrow> string \<Rightarrow> ValidatedOperation \<Rightarrow> string \<Rightarrow> ExecutionSnapshot \<Rightarrow> json \<Rightarrow> instant \<Rightarrow> ('w, task_row) program" where
  "acceptStart ctx task owner operation externalExecutionId snapshot response completedAt =
     (if es_externalExecutionId snapshot \<noteq> externalExecutionId then throw (Error ''ADAPTER_START_IDENTITY_MISMATCH'')
      else
        andThen (lift_err (validateAdapterSnapshotIdentity snapshot
          ((expected_identity task (vo_name operation))\<lparr>ei_externalExecutionId := Some externalExecutionId\<rparr>))) (\<lambda>_.
        call ctx (\<lambda>_ env. acceptScheduled env (task_id task) owner externalExecutionId (es_revision snapshot)
          (validatedSnapshotTransition (now env) (legacy_date env) operation snapshot) response
          (map input_of (case es_inputRequests snapshot of None \<Rightarrow> [] | Some is \<Rightarrow> is))
          (if startResponseLate task completedAt then Some completedAt else None)
          (if snapshotHasStarted (es_state snapshot) then Some completedAt else None))))"

definition count_start :: "task_row \<Rightarrow> instant \<Rightarrow> SchedulerTickResult \<Rightarrow> SchedulerTickResult" where
  "count_start task completedAt r =
     (if startResponseLate task completedAt then r\<lparr>sk_watchdogStops := sk_watchdogStops r + 1\<rparr> else r\<lparr>sk_started := sk_started r + 1\<rparr>)"

definition window_missed_at :: "worker_ctx \<Rightarrow> task_row \<Rightarrow> string \<Rightarrow> instant \<Rightarrow> SchedulerTickResult \<Rightarrow> ('w, SchedulerTickResult) program" where
  "window_missed_at ctx task owner at r =
     andThen (call ctx (\<lambda>_ _. completeStartWindowMissed (task_id task) at owner)) (\<lambda>_. ret (r\<lparr>sk_missed := sk_missed r + 1\<rparr>))"

text \<open>Hand the claim back until the next attempt, by one of the repository's three operations.\<close>

definition deferred_by ::
  "worker_ctx \<Rightarrow> (runtime_env \<Rightarrow> string \<Rightarrow> string \<Rightarrow> instant \<Rightarrow> string \<Rightarrow> db \<Rightarrow> err + (unit \<times> db))
   \<Rightarrow> task_row \<Rightarrow> string \<Rightarrow> instant \<Rightarrow> string \<Rightarrow> SchedulerTickResult \<Rightarrow> ('w, SchedulerTickResult) program" where
  "deferred_by ctx operation task owner at message r =
     andThen (lift_err (retryAt task at)) (\<lambda>next_at.
     andThen (call ctx (\<lambda>_ env. operation env (task_id task) owner next_at message)) (\<lambda>_. ret (r\<lparr>sk_deferred := sk_deferred r + 1\<rparr>)))"

definition rejected_start ::
  "worker_ctx \<Rightarrow> task_row \<Rightarrow> string \<Rightarrow> instant \<Rightarrow> string \<Rightarrow> string \<Rightarrow> SchedulerTickResult \<Rightarrow> ('w, SchedulerTickResult) program" where
  "rejected_start ctx task owner at reasonCode message r =
     andThen (call ctx (\<lambda>_ _. completeScheduledRejection (task_id task) owner at reasonCode message False)) (\<lambda>_.
     ret (r\<lparr>sk_missed := sk_missed r + 1\<rparr>))"

definition renew_schedule_claim :: "worker_ctx \<Rightarrow> int \<Rightarrow> task_row \<Rightarrow> string \<Rightarrow> ('w, unit) program" where
  "renew_schedule_claim ctx leaseMilliseconds task owner =
     call ctx (\<lambda>_ env. renewScheduleClaim env (task_id task) owner leaseMilliseconds)"

text \<open>The \<^verbatim>\<open>try\<close> block of \<^verbatim>\<open>reconcileUncertainStart\<close>.\<close>

definition reconcile_start ::
  "worker_ctx \<Rightarrow> int \<Rightarrow> 'w start_gateway \<Rightarrow> task_row \<Rightarrow> string \<Rightarrow> SchedulerTickResult \<Rightarrow> ('w, SchedulerTickResult) program" where
  "reconcile_start ctx leaseMilliseconds gw task owner r =
     andThen (loadOperation ctx (in_operationSnapshotId (spec task))) (\<lambda>operation.
     andThen (withLeaseHeartbeat ctx (renew_schedule_claim ctx leaseMilliseconds task owner)
       (remote (sg_reconcileExecution gw (execution_request task (vo_name operation))))) (\<lambda>response.
     andThen (clock_now ctx) (\<lambda>completedAt.
     if rr_status response = ''TRANSIENT_UNAVAILABLE'' then
       deferred_by ctx deferScheduleReconcile task owner completedAt
         (or_else (rr_message response) ''Scheduled start reconciliation is temporarily unavailable.'') r
     else if rr_status response = ''CONFLICT'' then
       rejected_start ctx task owner completedAt (or_else (rr_reasonCode response) ''ADAPTER_RECONCILE_CONFLICT'')
         (or_else (rr_message response) ''Adapter reported a conflicting scheduled start identity.'') r
     else case (rr_status response = ''NOT_FOUND'', rr_snapshot response) of
         (False, Some snapshot) \<Rightarrow>
           andThen (acceptStart ctx task owner operation (or_else (rr_externalExecutionId response) (es_externalExecutionId snapshot))
             snapshot (rr_object response) completedAt) (\<lambda>_.
           ret (count_start task completedAt (r\<lparr>sk_reconciled := sk_reconciled r + 1\<rparr>)))
       | _ \<Rightarrow>
           if startWindowClosed task completedAt then window_missed_at ctx task owner completedAt r
           else deferred_by ctx releaseScheduleRetry task owner completedAt
             ''Prior start attempt was definitively absent; retry scheduled.'' r)))"

definition reconcileUncertainStart ::
  "worker_ctx \<Rightarrow> int \<Rightarrow> 'w start_gateway \<Rightarrow> task_row \<Rightarrow> SchedulerTickResult \<Rightarrow> ('w, SchedulerTickResult) program" where
  "reconcileUncertainStart ctx leaseMilliseconds gw task r =
     andThen (lift_err (requiredClaimOwner task)) (\<lambda>owner.
     andThen (clock_now ctx) (\<lambda>at.
     andThen (renew_schedule_claim ctx leaseMilliseconds task owner) (\<lambda>_.
     catching (reconcile_start ctx leaseMilliseconds gw task owner r)
       (\<lambda>e. andThen (if isIdentityError e then call ctx (\<lambda>_ env. recordIdentityConflict env (task_id task) (err_message e)) else ret ()) (\<lambda>_.
         deferred_by ctx deferScheduleReconcile task owner at (err_message e) r)))))"

text \<open>The answer to a start: a rejection is retried while the window is open, an acceptance is recorded.\<close>

definition start_answered ::
  "worker_ctx \<Rightarrow> task_row \<Rightarrow> string \<Rightarrow> ValidatedOperation \<Rightarrow> StartOperationResponse \<Rightarrow> instant \<Rightarrow> SchedulerTickResult
   \<Rightarrow> ('w, SchedulerTickResult) program" where
  "start_answered ctx task owner operation response completedAt r =
     (if so_rejected response \<noteq> None \<or> so_result response = ''rejected'' then
        (case so_rejected response of
           Some rejected \<Rightarrow>
             if sj_retryable rejected \<and> \<not> startWindowClosed task completedAt then
               deferred_by ctx releaseScheduleRetry task owner completedAt
                 (or_else (sj_message rejected) ''Retryable scheduled start rejection.'') r
             else if sj_retryable rejected then window_missed_at ctx task owner completedAt r
             else rejected_start ctx task owner completedAt (sj_reasonCode rejected) (sj_message rejected) r
         | None \<Rightarrow> rejected_start ctx task owner completedAt ''ADMISSION_REJECTED'' ''Scheduled execution was rejected.'' r)
      else case so_accepted response of
          None \<Rightarrow> throw (Error ''ADAPTER_START_RESPONSE_MISSING_RESULT'')
        | Some (externalExecutionId, snapshot) \<Rightarrow>
            andThen (acceptStart ctx task owner operation externalExecutionId snapshot (so_object response) completedAt) (\<lambda>_.
            ret (count_start task completedAt r)))"

definition startClaimedTask ::
  "worker_ctx \<Rightarrow> int \<Rightarrow> 'w start_gateway \<Rightarrow> task_row \<Rightarrow> SchedulerTickResult \<Rightarrow> ('w, SchedulerTickResult) program" where
  "startClaimedTask ctx leaseMilliseconds gw task r =
     andThen (lift_err (requiredClaimOwner task)) (\<lambda>owner.
     andThen (clock_now ctx) (\<lambda>at.
     andThen (renew_schedule_claim ctx leaseMilliseconds task owner) (\<lambda>_.
     if startWindowClosed task at then window_missed_at ctx task owner at r
     else
       andThen (catching (andThen (loadOperation ctx (in_operationSnapshotId (spec task))) (\<lambda>operation. ret (Some operation))) (\<lambda>_. ret None)) (\<lambda>loaded.
       case loaded of
         None \<Rightarrow> deferred_by ctx releaseScheduleRetry task owner at ''Operation snapshot resolution is temporarily unavailable.'' r
       | Some operation \<Rightarrow>
           catching
             (andThen (withLeaseHeartbeat ctx (renew_schedule_claim ctx leaseMilliseconds task owner)
               (\<lambda>s. remote (sg_startOperation gw (start_request_of (wc_env ctx (w_turn s)) task)) s)) (\<lambda>response.
             andThen (clock_now ctx) (\<lambda>completedAt. start_answered ctx task owner operation response completedAt r)))
             (\<lambda>e.
               andThen (clock_now ctx) (\<lambda>failedAt.
               andThen (if isIdentityError e then call ctx (\<lambda>_ env. recordIdentityConflict env (task_id task) (err_message e)) else ret ()) (\<lambda>_.
               deferred_by ctx markScheduleResponseUncertain task owner failedAt (err_message e) r)))))))"

record scheduler =
  sc_workerId :: string
  sc_concurrency :: nat
  sc_claimLeaseMs :: int
  sc_leaseMilliseconds :: "int option"

definition claim_lease_ms :: "scheduler \<Rightarrow> int" where
  "claim_lease_ms d = (case sc_leaseMilliseconds d of None \<Rightarrow> sc_claimLeaseMs d | Some l \<Rightarrow> l)"

definition work_lease_ms :: "scheduler \<Rightarrow> int" where
  "work_lease_ms d = (case sc_leaseMilliseconds d of None \<Rightarrow> 30000 | Some l \<Rightarrow> l)"

text \<open>The batch size of \<^verbatim>\<open>completeDueStartWindowMisses\<close> and \<^verbatim>\<open>claimExpiredDeadlines\<close> is their default.\<close>

definition scheduler_tick :: "worker_ctx \<Rightarrow> scheduler \<Rightarrow> 'w start_gateway \<Rightarrow> ('w, SchedulerTickResult) program" where
  "scheduler_tick ctx d gw =
     andThen (clock_now ctx) (\<lambda>at.
     andThen (watchdog_tick ctx (sc_workerId d @ '':start-watchdog'') (sc_concurrency d) (work_lease_ms d) gw) (\<lambda>watchdog.
     andThen (call ctx (\<lambda>n _. completeDueStartWindowMisses (wc_task_free ctx n) at 32)) (\<lambda>missed.
     andThen (call ctx (\<lambda>n _. claimExpiredScheduledStarts (wc_task_free ctx n) at (sc_workerId d) (claim_lease_ms d) (sc_concurrency d))) (\<lambda>uncertain.
     andThen (run_all (reconcileUncertainStart ctx (work_lease_ms d) gw) uncertain
       \<lparr>sk_started = 0, sk_missed = missed, sk_deferred = 0, sk_deadlineStops = 0, sk_watchdogStops = wr_stopRequested watchdog,
        sk_reconciled = wr_started watchdog\<rparr>) (\<lambda>r.
     andThen (call ctx (\<lambda>n _. claimDueScheduled (wc_task_free ctx n) at (sc_workerId d) (claim_lease_ms d) (sc_concurrency d))) (\<lambda>due.
     andThen (run_all (startClaimedTask ctx (work_lease_ms d) gw) due r) (\<lambda>r.
     andThen (clock_now ctx) (\<lambda>later.
     andThen (call ctx (\<lambda>n env. claimExpiredDeadlines env (wc_task_free ctx n) later 32)) (\<lambda>expired.
     ret (r\<lparr>sk_deadlineStops := sk_deadlineStops r + length expired\<rparr>))))))))))"

end
