(* ===== verification/Task_View.thy ===== *)
theory Task_View
  imports Scheduler
begin

text \<open>
  What clients see of a task: the detailed task of the tasks extension (\<^verbatim>\<open>packages/task-engine/src/detailed-task.ts\<close>), the engine's own task
  object with its page of observations, and the results and transitions the engine makes itself (\<^verbatim>\<open>engine.ts\<close>).
\<close>

section \<open>The detailed task\<close>

datatype DetailedTaskProjection = create | get | notification

definition revision_format :: "string \<Rightarrow> bool" where
  "revision_format s = (s = ''0'' \<or> (s \<noteq> [] \<and> hd s \<noteq> CHR ''0'' \<and> list_all is_digit s \<and> length s \<le> 20))"

definition wireTtlMs :: "task_row \<Rightarrow> int option" where
  "wireTtlMs task = map_option (\<lambda>t. t - created_at task) (handle_expires_at task)"

definition execution_profile :: "task_row \<Rightarrow> json" where
  "execution_profile task =
     JObj ([(''profileVersion'', JStr ''1.0''), (''runtimeRevision'', JStr (show_nat (runtime_revision task)))] @
       (if adapter_revision task > 0 then [(''providerRevision'', JStr (show_int (adapter_revision task)))] else []) @
       optional_field ''substate'' (map_option JStr (substate task)) @
       (if cancel_requested task then [(''cancellationRequested'', JBool True)] else []))"

definition json_int_opt :: "int option \<Rightarrow> json" where
  "json_int_opt v = (case v of None \<Rightarrow> JNull | Some n \<Rightarrow> JNum n)"

definition detailed_base :: "task_row \<Rightarrow> DetailedTaskProjection \<Rightarrow> json_object" where
  "detailed_base task projection =
     (case projection of create \<Rightarrow> [(''resultType'', JStr ''task'')] | get \<Rightarrow> [(''resultType'', JStr ''complete'')] | notification \<Rightarrow> []) @
     [(''taskId'', JStr (task_id task)), (''status'', JStr (show_status (mcp_status task)))] @
     optional_field ''statusMessage'' (map_option JStr (status_message task)) @
     [(''createdAt'', JStr (toISOString (created_at task))), (''lastUpdatedAt'', JStr (toISOString (runtime_updated_at task))),
      (''ttlMs'', json_int_opt (wireTtlMs task))] @
     (if mcp_status task \<in> {completed, failed, cancelled} then [] else [(''pollIntervalMs'', JNum (poll_interval_ms task))]) @
     [(''_meta'', JObj [(''io.sdar/taskExecution'', execution_profile task)])]"

definition open_requests :: "input_request_row list \<Rightarrow> input_request_row list" where
  "open_requests requests = filter (\<lambda>q. ir_status q = OPEN) requests"

text \<open>\<^verbatim>\<open>Object.fromEntries\<close>.\<close>

definition from_entries :: "(string \<times> json) list \<Rightarrow> json_object" where
  "from_entries kvs = foldl (\<lambda>obj (k, v). obj_set k v obj) [] kvs"

definition mapTaskToDetailedTask :: "task_row \<Rightarrow> input_request_row list \<Rightarrow> DetailedTaskProjection \<Rightarrow> err + json_object" where
  "mapTaskToDetailedTask task inputRequests projection =
     (if (case wireTtlMs task of None \<Rightarrow> False | Some t \<Rightarrow> \<not> isSafeInteger t \<or> t < 0) then Inl (Error ''TASK_TTL_SEMANTICS_MISMATCH'')
      else if \<not> revision_format (show_nat (runtime_revision task)) then Inl (Error ''TASK_RUNTIME_REVISION_INVALID'')
      else
        let base = detailed_base task projection in
        if projection = create then Inr base
        else case mcp_status task of
            input_required \<Rightarrow>
              if open_requests inputRequests = [] then Inl (Error ''TASK_INPUT_REQUESTS_MISSING'')
              else Inr (base @ [(''inputRequests'', JObj (from_entries (map (\<lambda>q. (ir_key q, ir_request_json q)) (open_requests inputRequests))))])
          | completed \<Rightarrow>
              (case result task of
                 None \<Rightarrow> Inl (Error ''TASK_RESULT_MISSING'')
               | Some r \<Rightarrow> Inr (base @ [(''result'', JObj (obj_spread [(''resultType'', JStr ''complete'')] r))]))
          | failed \<Rightarrow>
              (case error task of
                 None \<Rightarrow> Inl (Error ''TASK_ERROR_MISSING'')
               | Some e \<Rightarrow> Inr (base @ [(''error'', JObj e)]))
          | _ \<Rightarrow> Inr base)"

section \<open>The engine's task object\<close>

definition wireObservation :: "observation_row \<Rightarrow> json" where
  "wireObservation o1 =
     JObj (obj_spread
       ([(''revision'', JNum (int (ob_revision o1))), (''type'', JStr (ob_type o1)), (''occurredAt'', JStr (toISOString (ob_occurred_at o1)))] @
        optional_field ''reasonCode'' (map_option JStr (ob_reason_code o1)) @
        optional_field ''message'' (map_option JStr (ob_message o1)) @
        optional_field ''substate'' (map_option JStr (ob_substate o1)) @
        optional_field ''progress'' (ob_progress o1) @
        [(''source'', JStr (if ob_from_adapter o1 then ''adapter'' else ''runtime''))] @
        optional_field ''adapterRevision'' (map_option JNum (ob_adapter_revision o1)))
       (ob_payload o1))"

definition wireObservations :: "observation_row list \<Rightarrow> json" where
  "wireObservations os = JArr (map wireObservation os)"

text \<open>An input request as the task object shows it, with its status.\<close>

type_synonym request_view = "request_status \<times> json_object"

definition row_view :: "input_request_row \<Rightarrow> request_view" where
  "row_view q = (ir_status q,
     [(''key'', JStr (ir_key q)), (''description'', JStr (ir_description q)), (''schema'', ir_schema q), (''required'', JBool (ir_required q)),
      (''answerHash'', json_opt (ir_answer_hash q)), (''requestJson'', ir_request_json q), (''responseHash'', json_opt (ir_response_hash q)),
      (''responseJson'', case ir_response_json q of None \<Rightarrow> JNull | Some j \<Rightarrow> j)])"

definition new_view :: "NewInputRequest \<Rightarrow> request_view" where
  "new_view i = (OPEN,
     [(''key'', JStr (ni_key i)), (''description'', JStr (ni_description i)), (''schema'', ni_schema i), (''required'', JBool (ni_required i))] @
     optional_field ''requestJson'' (ni_requestJson i))"

definition no_page :: ObservationPage where
  "no_page = \<lparr>pg_observations = [], pg_nextCursor = None, pg_hasMore = False\<rparr>"

definition cursor_json :: "ObservationPage \<Rightarrow> json" where
  "cursor_json page = json_opt (map_option show_nat (pg_nextCursor page))"

definition timing_view :: "task_row \<Rightarrow> json" where
  "timing_view task =
     JObj ([(''acceptedAt'', JStr (toISOString (in_acceptedAt (spec task))))] @
       optional_field ''notBefore'' (map_option (\<lambda>t. JStr (toISOString t)) (not_before task)) @
       optional_field ''latestStartAt'' (map_option (\<lambda>t. JStr (toISOString t)) (latest_start_at task)) @
       [(''actualStartedAt'', json_date_opt (actual_started_at task)),
        (''startStopRequestedAt'', json_date_opt (start_stop_requested_at task)),
        (''invocationAttempt'', JNum (int (invocation_attempt task))),
        (''nextStartAttemptAt'', json_date_opt (next_start_attempt_at task)),
        (''deadlineAt'', json_date_opt (in_deadlineAt (spec task)))])"

definition profile_view :: "task_row \<Rightarrow> ObservationPage \<Rightarrow> string \<Rightarrow> string option \<Rightarrow> json_object" where
  "profile_view task page freshness degraded =
     [(''profileVersion'', JStr ''1.0''), (''substate'', json_opt (substate task)),
      (''observationRevision'', JNum (int (observation_revision task))),
      (''executionMode'', JStr (show_mode (au_executionMode (in_authorization (spec task))))),
      (''ttlMs'', json_int_opt (in_ttlMs (spec task))), (''pollIntervalMs'', JNum (poll_interval_ms task)),
      (''snapshotFreshness'', JStr freshness), (''lastConfirmedAt'', json_date_opt (last_confirmed_at task))] @
     optional_field ''degradedReasonCode'' (map_option JStr degraded) @
     [(''timing'', timing_view task), (''observations'', wireObservations (pg_observations page)),
      (''observationCursor'', cursor_json page), (''hasMore'', JBool (pg_hasMore page))]"

definition detailedTask :: "task_row \<Rightarrow> request_view list \<Rightarrow> ObservationPage \<Rightarrow> string \<Rightarrow> string option \<Rightarrow> json_object" where
  "detailedTask task requests page freshness degraded =
     [(''taskId'', JStr (task_id task)), (''status'', JStr (show_status (mcp_status task)))] @
     optional_field ''statusMessage'' (map_option JStr (status_message task)) @
     [(''createdAt'', JStr (toISOString (created_at task))), (''lastUpdatedAt'', JStr (toISOString (updated_at task))),
      (''ttl'', json_int_opt (in_ttlMs (spec task))), (''pollInterval'', JNum (poll_interval_ms task))] @
     (let open_ones = filter (\<lambda>(st, _). st = OPEN) requests in
      if open_ones = [] then [] else [(''inputRequests'', JArr (map (\<lambda>(_, obj). JObj obj) open_ones))]) @
     optional_field ''result'' (map_option JObj (result task)) @
     optional_field ''error'' (map_option JObj (error task)) @
     [(''_meta'', JObj [(''io.sdar/taskExecution'', JObj (profile_view task page freshness degraded))])]"

definition fresh_task :: "task_row \<Rightarrow> request_view list \<Rightarrow> ObservationPage \<Rightarrow> json_object" where
  "fresh_task task requests page = detailedTask task requests page ''fresh'' None"

text \<open>The receipt of a command in the task's profile.\<close>

definition receipt :: "CommandResolution \<Rightarrow> instant \<Rightarrow> json" where
  "receipt command at =
     JObj ([(''commandType'', JStr (show_command_type (rs_commandType command))), (''commandSequence'', JNum (int (rs_sequence command))),
        (''commandState'', JStr (show_command_state (rs_state command))), (''durablyAccepted'', JBool True),
        (''duplicate'', JBool (rs_duplicate command)), (''acceptedAt'', JStr (toISOString at))] @
       optional_field ''retryAfterMs'' (map_option (\<lambda>t. JNum (max 0 (t - at))) (rs_nextAttemptAt command)) @
       optional_field ''adapterAck'' (rs_adapterAck command))"

definition with_receipt :: "task_row \<Rightarrow> request_view list \<Rightarrow> ObservationPage \<Rightarrow> CommandResolution \<Rightarrow> instant \<Rightarrow> json_object" where
  "with_receipt task requests page command at =
     obj_set ''_meta'' (JObj [(''io.sdar/taskExecution'',
       JObj (obj_set ''receipt'' (receipt command at) (profile_view task page ''fresh'' None)))]) (fresh_task task requests page)"

section \<open>Results the engine makes itself\<close>

definition text_content :: "string \<Rightarrow> json" where
  "text_content t = JArr [JObj [(''type'', JStr ''text''), (''text'', JStr t)]]"

definition rejectionResult :: "instant \<Rightarrow> StartRejection option \<Rightarrow> json_object" where
  "rejectionResult at rejected =
     [(''content'', text_content (case rejected of None \<Rightarrow> ''Operation rejected.'' | Some r \<Rightarrow> sj_message r)), (''isError'', JBool True),
      (''structuredContent'', JObj [(''outcome'', JStr ''admission_rejected''),
         (''reasonCode'', JStr (case rejected of None \<Rightarrow> ''ADMISSION_REJECTED'' | Some r \<Rightarrow> sj_reasonCode r)),
         (''retryable'', JBool (case rejected of None \<Rightarrow> False | Some r \<Rightarrow> sj_retryable r)),
         (''completedAt'', JStr (toISOString at))])]"

definition startWindowMissed :: "instant \<Rightarrow> string \<Rightarrow> json_object \<Rightarrow> json_object" where
  "startWindowMissed completedAt message extra =
     [(''content'', text_content message), (''isError'', JBool True),
      (''structuredContent'', JObj ([(''outcome'', JStr ''start_window_missed''), (''reasonCode'', JStr ''START_WINDOW_MISSED''),
         (''retryable'', JBool True), (''completedAt'', JStr (toISOString completedAt))] @ extra))]"

definition commandRejectionResult :: "CommandResolution \<Rightarrow> json_object" where
  "commandRejectionResult command =
     (let ty = show_command_type (rs_commandType command);
          message = (case rs_lastErrorMessage command of None \<Rightarrow> ty @ '' command was rejected.'' | Some m \<Rightarrow> m) in
      [(''content'', text_content message), (''isError'', JBool True),
       (''structuredContent'', JObj ([(''outcome'', JStr ''command_rejected''),
          (''reasonCode'', JStr (case rs_lastErrorCode command of None \<Rightarrow> ''COMMAND_REJECTED'' | Some c \<Rightarrow> c)),
          (''commandSequence'', JNum (int (rs_sequence command))), (''commandType'', JStr ty),
          (''commandState'', JStr (show_command_state (rs_state command))), (''message'', JStr message)] @
          optional_field ''adapterAck'' (rs_adapterAck command)))])"

definition commandFailureResult :: "CommandResolution \<Rightarrow> json_object" where
  "commandFailureResult command =
     (let ty = show_command_type (rs_commandType command);
          message = (case rs_lastErrorMessage command of None \<Rightarrow> ty @ '' command failed permanently.'' | Some m \<Rightarrow> m) in
      [(''content'', text_content message), (''isError'', JBool True),
       (''structuredContent'', JObj [(''outcome'', JStr ''command_exhausted''),
          (''reasonCode'', JStr (case rs_lastErrorCode command of None \<Rightarrow> ''COMMAND_EXHAUSTED'' | Some c \<Rightarrow> c)),
          (''commandSequence'', JNum (int (rs_sequence command))), (''commandType'', JStr ty),
          (''commandState'', JStr (show_command_state (rs_state command))), (''message'', JStr message)])])"

section \<open>Transitions of stopped tasks\<close>

definition own_completion :: "string \<Rightarrow> json_object \<Rightarrow> string \<Rightarrow> SnapshotTransition" where
  "own_completion message r observation =
     \<lparr>tn_internalState = TERMINAL_COMPLETED, tn_mcpStatus = completed, tn_substate = None, tn_statusMessage = message,
      tn_result = Some r, tn_error = None, tn_terminal = True, tn_observationType = observation\<rparr>"

definition deadlineReached :: "string \<Rightarrow> instant \<Rightarrow> SnapshotTransition" where
  "deadlineReached message completedAt =
     own_completion (or_else message ''Maximum elapsed time reached after safe stop.'')
       [(''content'', text_content (or_else message ''Maximum elapsed time reached.'')), (''isError'', JBool True),
        (''structuredContent'', JObj [(''outcome'', JStr ''deadline_reached''), (''reasonCode'', JStr ''MAX_ELAPSED_TIME_REACHED''),
           (''retryable'', JBool True), (''completedAt'', JStr (toISOString completedAt))])]
       ''task.progress''"

definition startWindowMissedStop :: "string \<Rightarrow> instant \<Rightarrow> json_object \<Rightarrow> SnapshotTransition" where
  "startWindowMissedStop message completedAt adapterResult =
     (let m = or_else message ''Start window was missed after safe stop.'' in
      own_completion m (startWindowMissed completedAt m [(''adapterResult'', JObj adapterResult)]) ''task.start_window_missed'')"

text \<open>\<open>raw\<close> is the adapter's structure as the protocol library presents it: here it is stored as it came.\<close>

definition startWindowMissedWithAdapterResultTransition ::
  "(proto_struct \<Rightarrow> json) \<Rightarrow> ExecutionSnapshot \<Rightarrow> task_row \<Rightarrow> instant \<Rightarrow> string \<Rightarrow> SnapshotTransition" where
  "startWindowMissedWithAdapterResultTransition raw snapshot task completedAt stopReason =
     (let message = (if actual_started_at task = None
            then or_else (es_message snapshot) ''Start window was missed before execution began.''
            else ''Task completed after the start window was missed.'') in
      own_completion message
        (startWindowMissed completedAt message
          ([(''stopReason'', JStr stopReason), (''adapterOutcome'', JStr (es_state snapshot))] @
           optional_field ''adapterResult'' (map_option raw (es_result snapshot))))
        ''task.start_window_missed'')"

definition isTerminalTaskState :: "string \<Rightarrow> bool" where
  "isTerminalTaskState st = (st \<in> {''SUCCEEDED'', ''BUSINESS_FAILED'', ''PARTIALLY_COMPLETED'', ''CANCELLED'', ''TECHNICAL_FAILED''})"

definition stopTransition ::
  "runtime_env \<Rightarrow> (proto_struct \<Rightarrow> json) \<Rightarrow> task_row \<Rightarrow> ValidatedOperation \<Rightarrow> ExecutionSnapshot \<Rightarrow> instant \<Rightarrow> err + SnapshotTransition" where
  "stopTransition env raw task operation snapshot completedAt =
     (if es_state snapshot = ''CANCELLED'' \<and> row_stop_reason task = Some DEADLINE_REACHED then
        Inr (deadlineReached (es_message snapshot) completedAt)
      else if es_state snapshot = ''CANCELLED'' \<and> row_stop_reason task = Some START_WINDOW_MISSED then
        bind_err (sanitizedAdapterResultPayload snapshot) (\<lambda>adapterResult.
        Inr (startWindowMissedStop (es_message snapshot) completedAt adapterResult))
      else if row_stop_reason task = Some START_WINDOW_MISSED \<and> isTerminalTaskState (es_state snapshot) then
        Inr (startWindowMissedWithAdapterResultTransition raw snapshot task completedAt ''START_WINDOW_MISSED'')
      else Inr (validatedSnapshotTransition (now env) (legacy_date env) operation snapshot))"

definition transitionReasonCode :: "SnapshotTransition \<Rightarrow> string" where
  "transitionReasonCode transition =
     (case tn_error transition of
        None \<Rightarrow> ''TECHNICAL_EXECUTION_FAILED''
      | Some e \<Rightarrow>
          (case obj_get e ''data'' of
             Some (JObj data) \<Rightarrow> (case obj_get data ''reasonCode'' of Some (JStr r) \<Rightarrow> r | _ \<Rightarrow> ''TECHNICAL_EXECUTION_FAILED'')
           | _ \<Rightarrow> ''TECHNICAL_EXECUTION_FAILED''))"

section \<open>Input requests\<close>

definition frozen_input :: "McpTaskInputRequest \<Rightarrow> err + NewInputRequest" where
  "frozen_input request =
     (if mi_method request \<noteq> ''elicitation/create'' then Inl (Error ''ADAPTER_MRTR_METHOD_UNSUPPORTED'')
      else let params = protoStructToJson (mi_params request) in
        Inr \<lparr>ni_key = mi_key request,
             ni_description = (case obj_get params ''message'' of Some (JStr m) \<Rightarrow> m | _ \<Rightarrow> ''Input required''),
             ni_schema = (case obj_get params ''requestedSchema'' of Some (JObj schema) \<Rightarrow> JObj schema | _ \<Rightarrow> JObj []),
             ni_required = True,
             ni_requestJson = Some (JObj [(''method'', JStr ''elicitation/create''), (''params'', JObj params)])\<rparr>)"

definition legacy_input :: "AdapterInputRequest \<Rightarrow> NewInputRequest" where
  "legacy_input request =
     (let schema = JObj (protoStructToJson (ai_inputSchema request)) in
      \<lparr>ni_key = ai_key request, ni_description = ai_description request, ni_schema = schema, ni_required = ai_required request,
       ni_requestJson = Some (JObj [(''method'', JStr ''elicitation/create''),
         (''params'', JObj [(''mode'', JStr ''form''), (''message'', JStr (ai_description request)), (''requestedSchema'', schema)])])\<rparr>)"

definition normalizeInputRequests :: "ExecutionSnapshot \<Rightarrow> err + NewInputRequest list" where
  "normalizeInputRequests snapshot =
     (let frozen = (case es_mcpInputRequests snapshot of None \<Rightarrow> [] | Some xs \<Rightarrow> xs);
          legacy = (case es_inputRequests snapshot of None \<Rightarrow> [] | Some xs \<Rightarrow> xs) in
      if frozen \<noteq> [] \<and> legacy \<noteq> [] then Inl (Error ''ADAPTER_MRTR_WIRE_MIXED'')
      else if frozen \<noteq> [] then map_err frozen_input frozen
      else Inr (map legacy_input legacy))"

end
