(* ===== verification/Engine.thy ===== *)
theory Engine
  imports Task_View
begin

text \<open>
  The task engine (\<^verbatim>\<open>packages/task-engine/src/engine.ts\<close>): admission and execution of operations, reads of tasks, cancellation, input and
  control commands, reconciliation and availability.  Metrics and traces are left out.  The degraded read of \<^verbatim>\<open>getTask\<close> starts a
  reconciliation in the background; it is returned as the task to reconcile.
\<close>

section \<open>The gateway and the engine\<close>

text \<open>A timestamp of the protocol, when the value has a number of seconds.\<close>

record proto_timestamp =
  pt_seconds :: int
  pt_nanos :: int

record AvailabilityResult =
  ar_requestId :: string
  ar_operationName :: string
  ar_availability :: string
  ar_riskLevel :: string
  ar_reasonCode :: string
  ar_description :: string
  ar_validUntil :: "proto_timestamp option"
  ar_earliestStartTime :: "proto_timestamp option"
  ar_nextAvailableWindows :: "(proto_timestamp option \<times> proto_timestamp option) list"
  ar_estimatedDelayMs :: int
  ar_reservationMode :: string
  ar_reservationRef :: string
  ar_possibleEffects :: "string list"

record AvailabilityCheckInput =
  ci_requestId :: string
  ci_operation :: string
  ci_arguments :: "json_object option"
  ci_unresolvedArguments :: "(json_object \<times> string list) option"
  ci_timing :: json

record 'w engine_gateway = "'w start_gateway" +
  eg_getExecution :: "string \<Rightarrow> string \<Rightarrow> AuthorizationContext \<Rightarrow> 'w \<Rightarrow> (err + ExecutionSnapshot) \<times> 'w"
  eg_checkAvailability :: "AvailabilityCheckInput list \<Rightarrow> AuthorizationContext
    \<Rightarrow> 'w \<Rightarrow> (err + (proto_timestamp option \<times> AvailabilityResult list)) \<times> 'w"

record engine =
  en_manifest :: ValidatedManifest
  en_operationSnapshotIds :: "(string \<times> string) list"

datatype ToolInvocationResult = tool_result json_object | tool_task json_object

definition read_err :: "worker_ctx \<Rightarrow> (runtime_env \<Rightarrow> db \<Rightarrow> err + 'a) \<Rightarrow> ('w, 'a) program" where
  "read_err ctx f = call ctx (\<lambda>_ env db. bind_err (f env db) (\<lambda>v. Inr (v, db)))"

definition with_env :: "worker_ctx \<Rightarrow> (runtime_env \<Rightarrow> err + 'a) \<Rightarrow> ('w, 'a) program" where
  "with_env ctx f s = (f (wc_env ctx (w_turn s)), s)"

section \<open>Requests to the adapter\<close>

definition auth_request :: "string \<Rightarrow> string \<Rightarrow> string \<Rightarrow> AuthorizationContext \<Rightarrow> gateway_request" where
  "auth_request taskId operationName argumentHash a =
     \<lparr>gr_taskId = taskId, gr_operationName = operationName, gr_argumentHash = argumentHash,
      gr_authorizationContextHash = au_hash a, gr_executionMode = au_executionMode a, gr_simulationId = au_simulationId a,
      gr_correlationId = au_correlationId a, gr_rootTraceparent = au_rootTraceparent a, gr_rootTracestate = au_rootTracestate a,
      gr_externalExecutionId = None\<rparr>"

definition dateToProtoTimestamp :: "instant option \<Rightarrow> err + json" where
  "dateToProtoTimestamp v = (case v of None \<Rightarrow> Inl (Error ''INVALID_SCHEDULED_AT'') | Some _ \<Rightarrow> Inr (timestamp v))"

definition toAdapterTiming :: "(string \<Rightarrow> instant option) \<Rightarrow> AvailabilityTiming option \<Rightarrow> err + json" where
  "toAdapterTiming legacy timing =
     (let start = (case timing of None \<Rightarrow> None | Some t \<Rightarrow> at_start t) in
      bind_err (case start of
          None \<Rightarrow> Inr []
        | Some st \<Rightarrow> (case ts_scheduledAt st of
            None \<Rightarrow> Inr []
          | Some v \<Rightarrow> bind_err (dateToProtoTimestamp (Date_parse legacy v)) (\<lambda>j. Inr [(''scheduledAt'', j)]))) (\<lambda>scheduledAt.
      Inr (JObj ((''start'', JObj ([(''mode'', JStr (toUpperCase (case start of None \<Rightarrow> ''immediate'' | Some st \<Rightarrow> ts_mode st)))] @
            scheduledAt @
            [(''startToleranceMs'', JStr (show_int (case start of None \<Rightarrow> 0 | Some st \<Rightarrow> case ts_startToleranceMs st of None \<Rightarrow> 0 | Some n \<Rightarrow> n)))])) #
         optional_field ''maxElapsedMs'' (map_option (\<lambda>m. JStr (show_int m)) (case timing of None \<Rightarrow> None | Some t \<Rightarrow> at_maxElapsedMs t))))))"

definition timing_argument :: "TaskExecutionTiming \<Rightarrow> AvailabilityTiming" where
  "timing_argument timing =
     \<lparr>at_start = Some (case tm_start timing of
        immediate tolerance \<Rightarrow> \<lparr>ts_mode = ''immediate'', ts_scheduledAt = None, ts_startToleranceMs = Some tolerance\<rparr>
      | scheduled scheduledAt tolerance \<Rightarrow> \<lparr>ts_mode = ''scheduled'', ts_scheduledAt = Some scheduledAt, ts_startToleranceMs = Some tolerance\<rparr>),
      at_maxElapsedMs = tm_maxElapsedMs timing\<rparr>"

definition start_call ::
  "worker_ctx \<Rightarrow> ('w, 'z) start_gateway_scheme \<Rightarrow> gateway_request \<Rightarrow> json_object \<Rightarrow> nat option \<Rightarrow> TaskExecutionTiming \<Rightarrow> string option
   \<Rightarrow> ('w, StartOperationResponse) program" where
  "start_call ctx gw request arguments attempt timing reservationRef =
     andThen (with_env ctx (\<lambda>env. toAdapterTiming (legacy_date env) (Some (timing_argument timing)))) (\<lambda>t.
     remote (sg_startOperation gw \<lparr>sr_request = request, sr_arguments = arguments, sr_invocationAttempt = attempt, sr_timing = t,
       sr_reservationRef = reservationRef\<rparr>))"

definition auth_identity :: "string \<Rightarrow> string option \<Rightarrow> string \<Rightarrow> string \<Rightarrow> AuthorizationContext \<Rightarrow> ExpectedExecutionIdentity" where
  "auth_identity taskId externalExecutionId operationName argumentHash a =
     \<lparr>ei_taskId = taskId, ei_externalExecutionId = externalExecutionId, ei_operationName = operationName, ei_argumentHash = argumentHash,
      ei_authorizationContextHash = au_hash a, ei_executionMode = show_mode (au_executionMode a), ei_simulationId = au_simulationId a\<rparr>"

definition validateStartResponseIdentity ::
  "StartOperationResponse \<Rightarrow> string \<Rightarrow> string \<Rightarrow> string \<Rightarrow> AuthorizationContext \<Rightarrow> err + unit" where
  "validateStartResponseIdentity response taskId operationName argumentHash a =
     (case so_accepted response of
        None \<Rightarrow> Inr ()
      | Some (externalExecutionId, snapshot) \<Rightarrow>
          if externalExecutionId = [] \<or> es_externalExecutionId snapshot \<noteq> externalExecutionId
          then Inl (Error ''ADAPTER_START_IDENTITY_MISMATCH'')
          else validateAdapterSnapshotIdentity snapshot (auth_identity taskId (Some externalExecutionId) operationName argumentHash a))"

definition resultFromStart ::
  "runtime_env \<Rightarrow> ValidatedOperation \<Rightarrow> StartOperationResponse \<Rightarrow> err + json_object" where
  "resultFromStart env operation response =
     (if so_rejected response \<noteq> None then Inr (rejectionResult (now env) (so_rejected response))
      else case so_accepted response of
          None \<Rightarrow> Inl (Error ''ADAPTER_START_RESPONSE_MISSING_RESULT'')
        | Some (_, snapshot) \<Rightarrow> synchronousResult (now env) (legacy_date env) operation snapshot)"

section \<open>Executing an operation\<close>

record invocation =
  iv_operation :: ValidatedOperation
  iv_arguments :: json_object
  iv_authorization :: AuthorizationContext
  iv_ttlMs :: "int option"
  iv_taskId :: string
  iv_recovering :: bool
  iv_argumentHash :: string
  iv_timing :: TaskExecutionTiming
  iv_anchors :: TimingAnchors
  iv_reservationRef :: "string option"
  iv_persistedSnapshotId :: "string option"

definition intent_of :: "engine \<Rightarrow> invocation \<Rightarrow> string \<Rightarrow> AdmissionIntentInput" where
  "intent_of en iv snapshotId =
     \<lparr>in_taskId = iv_taskId iv, in_providerId = vm_providerId (en_manifest en), in_operationName = vo_name (iv_operation iv),
      in_operationSnapshotId = snapshotId, in_authorization = iv_authorization iv, in_arguments = iv_arguments iv,
      in_argumentHash = iv_argumentHash iv, in_acceptedAt = an_acceptedAt (iv_anchors iv), in_notBefore = an_notBefore (iv_anchors iv),
      in_latestStartAt = an_latestStartAt (iv_anchors iv), in_deadlineAt = an_deadlineAt (iv_anchors iv),
      in_ttlMs = Some (case iv_ttlMs iv of None \<Rightarrow> 259200000 | Some t \<Rightarrow> t), in_timing = iv_timing iv,
      in_reservationRef = iv_reservationRef iv\<rparr>"

definition uncertain :: "worker_ctx \<Rightarrow> string \<Rightarrow> err \<Rightarrow> ('w, 'a) program" where
  "uncertain ctx taskId e = andThen (call ctx (\<lambda>_ env. markAdmissionUncertain env taskId)) (\<lambda>_. throw e)"

definition transition_outcome_object :: "SnapshotTransition \<Rightarrow> json_object" where
  "transition_outcome_object transition =
     (case tn_result transition of Some r \<Rightarrow> r | None \<Rightarrow> (case tn_error transition of Some e \<Rightarrow> e | None \<Rightarrow> []))"

definition publish_input ::
  "AdmissionIntentInput \<Rightarrow> TimingAnchors \<Rightarrow> string \<Rightarrow> ExecutionSnapshot \<Rightarrow> json \<Rightarrow> SnapshotTransition \<Rightarrow> NewInputRequest list \<Rightarrow> instant \<Rightarrow> PublishTaskInput" where
  "publish_input intent anchors externalExecutionId snapshot response transition inputs respondedAt =
     \<lparr>pb_input = intent, pb_externalExecutionId = externalExecutionId, pb_transition = transition, pb_adapterRevision = es_revision snapshot,
      pb_adapterResponse = response,
      pb_actualStartedAt = (if snapshotHasStarted (es_state snapshot) then Some respondedAt else None),
      pb_startWindowMissedAt = (if respondedAt > an_latestStartAt anchors then Some respondedAt else None),
      pb_inputRequests = inputs\<rparr>"

text \<open>What \<^verbatim>\<open>#executeOperation\<close> and \<^verbatim>\<open>#publishReconciled\<close> do once the execution's first snapshot is known; \<open>guarded\<close> when a failed
  publication leaves the admission uncertain.\<close>

definition settle_snapshot ::
  "worker_ctx \<Rightarrow> invocation \<Rightarrow> AdmissionIntentInput \<Rightarrow> string \<Rightarrow> ExecutionSnapshot \<Rightarrow> json \<Rightarrow> bool \<Rightarrow> ('w, ToolInvocationResult) program" where
  "settle_snapshot ctx iv intent externalExecutionId snapshot response guarded =
     andThen (with_env ctx (\<lambda>env. Inr (validatedSnapshotTransition (now env) (legacy_date env) (iv_operation iv) snapshot))) (\<lambda>transition.
     andThen (lift_err (normalizeInputRequests snapshot)) (\<lambda>inputs.
     andThen (clock_now ctx) (\<lambda>respondedAt.
     if od_execution (vo_operation (iv_operation iv)) = TASK_CAPABLE \<and> tn_terminal transition then
       (if tn_mcpStatus transition = failed then
          uncertain ctx (iv_taskId iv) (TechnicalExecutionError (Some (transitionReasonCode transition)))
        else
          andThen (call ctx (\<lambda>_ env. completeAdmissionWithoutTask env (iv_taskId iv) response)) (\<lambda>_.
          ret (tool_result (transition_outcome_object transition))))
     else
       andThen
         (let publish = call ctx (\<lambda>_ env. publishAccepted env
                (publish_input intent (iv_anchors iv) externalExecutionId snapshot response transition inputs respondedAt))
          in if guarded then catching publish (uncertain ctx (iv_taskId iv)) else publish) (\<lambda>task.
       ret (tool_task (fresh_task task (map new_view inputs) no_page))))))"

definition publishReconciled ::
  "worker_ctx \<Rightarrow> invocation \<Rightarrow> AdmissionIntentInput \<Rightarrow> string \<Rightarrow> ExecutionSnapshot \<Rightarrow> json \<Rightarrow> ('w, ToolInvocationResult) program" where
  "publishReconciled ctx iv intent externalExecutionId snapshot response =
     andThen (lift_err (validateAdapterSnapshotIdentity snapshot
       (auth_identity (iv_taskId iv) (Some externalExecutionId) (vo_name (iv_operation iv)) (iv_argumentHash iv) (iv_authorization iv)))) (\<lambda>_.
     settle_snapshot ctx iv intent externalExecutionId snapshot response False)"

text \<open>The start of an immediate operation and what becomes of the answer.\<close>

definition start_immediate ::
  "worker_ctx \<Rightarrow> ('w, 'z) start_gateway_scheme \<Rightarrow> invocation \<Rightarrow> AdmissionIntentInput \<Rightarrow> ('w, ToolInvocationResult) program" where
  "start_immediate ctx gw iv intent =
     andThen (catching
       (start_call ctx gw (auth_request (iv_taskId iv) (vo_name (iv_operation iv)) (iv_argumentHash iv) (iv_authorization iv))
         (iv_arguments iv) (Some 1) (iv_timing iv) (iv_reservationRef iv))
       (uncertain ctx (iv_taskId iv))) (\<lambda>response.
     if so_result response = ''rejected'' \<or> so_rejected response \<noteq> None then
       andThen (clock_now ctx) (\<lambda>at.
       let rejected = (if at > an_latestStartAt (iv_anchors iv)
             then startWindowMissed at ''Start response arrived after the start window.'' []
             else rejectionResult at (so_rejected response)) in
       andThen (call ctx (\<lambda>_ env. recordRejection env (iv_taskId iv) (JObj rejected))) (\<lambda>_.
       ret (tool_result rejected)))
     else case so_accepted response of
         None \<Rightarrow> uncertain ctx (iv_taskId iv) (Error ''ADAPTER_START_RESPONSE_MISSING_RESULT'')
       | Some (externalExecutionId, snapshot) \<Rightarrow>
           andThen (catching
             (lift_err (validateStartResponseIdentity response (iv_taskId iv) (vo_name (iv_operation iv)) (iv_argumentHash iv) (iv_authorization iv)))
             (uncertain ctx (iv_taskId iv))) (\<lambda>_.
           settle_snapshot ctx iv intent externalExecutionId snapshot (so_object response) True))"

text \<open>A repeated or recovered admission: the task if it was published, else what the adapter knows of it.\<close>

datatype 'a resumed = settled 'a | start_anew

definition resume_admission ::
  "worker_ctx \<Rightarrow> ('w, 'z) start_gateway_scheme \<Rightarrow> invocation \<Rightarrow> AdmissionIntentInput \<Rightarrow> ('w, ToolInvocationResult resumed) program" where
  "resume_admission ctx gw iv intent =
     andThen (read_store ctx (\<lambda>_. getById (iv_taskId iv))) (\<lambda>existing.
     case existing of
       Some task \<Rightarrow> ret (settled (tool_task (fresh_task task [] no_page)))
     | None \<Rightarrow>
         andThen (remote (sg_reconcileExecution gw
           (auth_request (iv_taskId iv) (vo_name (iv_operation iv)) (iv_argumentHash iv) (iv_authorization iv)))) (\<lambda>reconciliation.
         if rr_status reconciliation = ''CONFLICT'' then throw (Error ''ADAPTER_RECONCILE_CONFLICT'')
         else if rr_status reconciliation = ''FOUND'' \<and> rr_snapshot reconciliation \<noteq> None then
           (let snapshot = the (rr_snapshot reconciliation) in
            andThen (publishReconciled ctx iv intent (or_else (rr_externalExecutionId reconciliation) (es_externalExecutionId snapshot))
              snapshot (rr_object reconciliation)) (\<lambda>r. ret (settled r)))
         else if rr_status reconciliation \<noteq> ''NOT_FOUND'' then throw (Error ''ADAPTER_RECONCILE_UNAVAILABLE'')
         else ret start_anew))"

definition execute_task ::
  "worker_ctx \<Rightarrow> engine \<Rightarrow> ('w, 'z) start_gateway_scheme \<Rightarrow> invocation \<Rightarrow> string \<Rightarrow> ('w, ToolInvocationResult) program" where
  "execute_task ctx en gw iv snapshotId =
     (let intent = intent_of en iv snapshotId in
      andThen (call ctx (\<lambda>_ env. createAdmissionIntent env intent)) (\<lambda>inserted.
      andThen (if \<not> inserted \<or> iv_recovering iv then resume_admission ctx gw iv intent else ret start_anew) (\<lambda>resumed.
      case resumed of
        settled r \<Rightarrow> ret r
      | start_anew \<Rightarrow>
          (case tm_start (iv_timing iv) of
             scheduled _ _ \<Rightarrow>
               andThen (call ctx (\<lambda>_ env. publishScheduled env intent)) (\<lambda>task. ret (tool_task (fresh_task task [] no_page)))
           | immediate _ \<Rightarrow> start_immediate ctx gw iv intent))))"

definition executeOperation ::
  "worker_ctx \<Rightarrow> engine \<Rightarrow> ('w, 'z) start_gateway_scheme \<Rightarrow> invocation \<Rightarrow> ('w, ToolInvocationResult) program" where
  "executeOperation ctx en gw iv =
     (if od_execution (vo_operation (iv_operation iv)) = SYNCHRONOUS then
        andThen (start_call ctx gw (auth_request (iv_taskId iv) (vo_name (iv_operation iv)) (iv_argumentHash iv) (iv_authorization iv))
          (iv_arguments iv) None (iv_timing iv) (iv_reservationRef iv)) (\<lambda>response.
        andThen (lift_err (validateStartResponseIdentity response (iv_taskId iv) (vo_name (iv_operation iv)) (iv_argumentHash iv) (iv_authorization iv))) (\<lambda>_.
        andThen (with_env ctx (\<lambda>env. resultFromStart env (iv_operation iv) response)) (\<lambda>r.
        ret (tool_result r))))
      else case (case iv_persistedSnapshotId iv of Some i \<Rightarrow> Some i
                 | None \<Rightarrow> map_of (rev (en_operationSnapshotIds en)) (vo_name (iv_operation iv))) of
          None \<Rightarrow> throw (Error ''OPERATION_SNAPSHOT_NOT_FOUND'')
        | Some snapshotId \<Rightarrow> execute_task ctx en gw iv snapshotId)"

definition recoverAdmission ::
  "worker_ctx \<Rightarrow> engine \<Rightarrow> ('w, 'z) start_gateway_scheme \<Rightarrow> AdmissionIntentInput \<Rightarrow> ValidatedOperation \<Rightarrow> ('w, ToolInvocationResult) program" where
  "recoverAdmission ctx en gw admission operation =
     executeOperation ctx en gw
       \<lparr>iv_operation = operation, iv_arguments = in_arguments admission, iv_authorization = in_authorization admission,
        iv_ttlMs = in_ttlMs admission, iv_taskId = in_taskId admission, iv_recovering = True, iv_argumentHash = in_argumentHash admission,
        iv_timing = in_timing admission,
        iv_anchors = \<lparr>an_acceptedAt = in_acceptedAt admission, an_notBefore = in_notBefore admission,
          an_latestStartAt = in_latestStartAt admission, an_deadlineAt = in_deadlineAt admission\<rparr>,
        iv_reservationRef = in_reservationRef admission, iv_persistedSnapshotId = Some (in_operationSnapshotId admission)\<rparr>"

section \<open>Reconciliation and reads\<close>

datatype reconcile_outcome = found | not_found | deferred

definition validateTaskSnapshot :: "worker_ctx \<Rightarrow> task_row \<Rightarrow> string \<Rightarrow> ExecutionSnapshot \<Rightarrow> ('w, unit) program" where
  "validateTaskSnapshot ctx task operationName snapshot =
     catching (lift_err (validateAdapterSnapshotIdentity snapshot (expected_identity task operationName)))
       (\<lambda>e. andThen (call ctx (\<lambda>_ env. recordIdentityConflict env (task_id task) (err_message e))) (\<lambda>_. throw e))"

text \<open>The snapshot is applied to the task as the stop in force allows.\<close>

definition apply_task_snapshot :: "worker_ctx \<Rightarrow> task_row \<Rightarrow> ValidatedOperation \<Rightarrow> ExecutionSnapshot \<Rightarrow> ('w, task_row) program" where
  "apply_task_snapshot ctx task operation snapshot =
     andThen (validateTaskSnapshot ctx task (vo_name operation) snapshot) (\<lambda>_.
     andThen (with_env ctx (\<lambda>env. stopTransition env (wc_raw ctx) task operation snapshot (now env))) (\<lambda>transition.
     andThen (lift_err (normalizeInputRequests snapshot)) (\<lambda>inputs.
     call ctx (\<lambda>_ env. applySnapshot env (task_id task) (es_revision snapshot) transition inputs))))"

definition reconcileTask ::
  "worker_ctx \<Rightarrow> ('w, 'z) start_gateway_scheme \<Rightarrow> task_row \<Rightarrow> ValidatedOperation \<Rightarrow> ('w, reconcile_outcome) program" where
  "reconcileTask ctx gw task operation =
     (if internal_state task = STARTING \<and> external_execution_id task = None then ret deferred
      else
        andThen (remote (sg_reconcileExecution gw (execution_request task (vo_name operation)))) (\<lambda>response.
        if rr_status response = ''TRANSIENT_UNAVAILABLE'' then ret deferred
        else if rr_status response = ''CONFLICT'' then
          andThen (call ctx (\<lambda>_ env. failRecoveryNotFound env (task_id task)
            ''Adapter reported a conflicting execution identity during recovery.'')) (\<lambda>_. ret not_found)
        else if rr_status response = ''NOT_FOUND'' \<or> rr_snapshot response = None then
          andThen (call ctx (\<lambda>_ env. failRecoveryNotFound env (task_id task) ''Adapter execution was not found during recovery.'')) (\<lambda>_.
          ret not_found)
        else
          let snapshot = the (rr_snapshot response) in
          if rr_externalExecutionId response \<noteq> es_externalExecutionId snapshot then
            andThen (call ctx (\<lambda>_ env. recordIdentityConflict env (task_id task) ''ADAPTER_RECONCILE_IDENTITY_MISMATCH'')) (\<lambda>_.
            throw (Error ''ADAPTER_RECONCILE_IDENTITY_MISMATCH''))
          else
            andThen (apply_task_snapshot ctx task operation snapshot) (\<lambda>_.
            andThen (call ctx (\<lambda>_ env. noteRecovery env (task_id task))) (\<lambda>_.
            ret found))))"

definition isTransientAdapterReadError :: "err \<Rightarrow> bool" where
  "isTransientAdapterReadError e = (case e of ServiceError code _ \<Rightarrow> code \<in> {1, 4, 8, 10, 14} | _ \<Rightarrow> False)"

definition page_of_task :: "worker_ctx \<Rightarrow> string \<Rightarrow> ('w, request_view list \<times> ObservationPage) program" where
  "page_of_task ctx taskId =
     andThen (read_store ctx (\<lambda>_. listInputRequests taskId)) (\<lambda>requests.
     andThen (read_err ctx (\<lambda>_. listObservationPage taskId None 100)) (\<lambda>page.
     ret (map row_view requests, page)))"

text \<open>The second component is the task whose reconciliation is started in the background.\<close>

definition getTask ::
  "worker_ctx \<Rightarrow> 'w engine_gateway \<Rightarrow> string \<Rightarrow> AuthorizationContext \<Rightarrow> ('w, json_object \<times> (task_row \<times> ValidatedOperation) option) program" where
  "getTask ctx gw taskId a =
     andThen (read_err ctx (\<lambda>env. getAuthorized env taskId a)) (\<lambda>task.
     andThen (loadOperation ctx (in_operationSnapshotId (spec task))) (\<lambda>operation.
     let full = (\<lambda>row. andThen (page_of_task ctx (task_id row)) (\<lambda>(requests, page). ret (fresh_task row requests page, None))) in
     if isTerminalState (internal_state task) \<or> internal_state task = SCHEDULED \<or> internal_state task = STARTING then full task
     else case external_execution_id task of
         None \<Rightarrow> ret (fresh_task task [] no_page, None)
       | Some externalExecutionId \<Rightarrow>
           andThen (catching
             (andThen (remote (eg_getExecution gw (task_id task) externalExecutionId a)) (\<lambda>snapshot.
              andThen (apply_task_snapshot ctx task operation snapshot) (\<lambda>row. ret (Some row))))
             (\<lambda>e. if isTransientAdapterReadError e then ret None else throw e)) (\<lambda>applied.
           case applied of
             Some row \<Rightarrow> full row
           | None \<Rightarrow>
               andThen (page_of_task ctx (task_id task)) (\<lambda>(requests, page).
               ret (detailedTask task requests page ''stale'' (Some ''ADAPTER_TRANSIENT_UNAVAILABLE''), Some (task, operation))))))"

definition getFrozenTask ::
  "worker_ctx \<Rightarrow> string \<Rightarrow> AuthorizationContext \<Rightarrow> DetailedTaskProjection \<Rightarrow> ('w, json_object) program" where
  "getFrozenTask ctx taskId a projection =
     andThen (read_err ctx (\<lambda>env. getAuthorized env taskId a)) (\<lambda>task.
     andThen (read_store ctx (\<lambda>_. listInputRequests taskId)) (\<lambda>requests.
     lift_err (mapTaskToDetailedTask task requests projection)))"

definition getFrozenTasks ::
  "worker_ctx \<Rightarrow> string list \<Rightarrow> AuthorizationContext \<Rightarrow> ('w, (string \<times> json_object) list) program" where
  "getFrozenTasks ctx taskIds a =
     andThen (read_err ctx (\<lambda>env. getAuthorizedTasksByIds env taskIds a)) (\<lambda>tasks.
     andThen (read_err ctx (\<lambda>_. listInputRequestsByTaskIds (map (\<lambda>r. task_id r) tasks))) (\<lambda>inputRequests.
     lift_err (map_err (\<lambda>task.
       let requests = (case map_of inputRequests (task_id task) of None \<Rightarrow> [] | Some rs \<Rightarrow> rs)
       in bind_err (mapTaskToDetailedTask task requests notification) (\<lambda>v. Inr (task_id task, v))) tasks)))"

definition getTaskObservations ::
  "worker_ctx \<Rightarrow> string \<Rightarrow> AuthorizationContext \<Rightarrow> int option \<Rightarrow> int \<Rightarrow> ('w, json_object) program" where
  "getTaskObservations ctx taskId a cursor limit =
     andThen (read_err ctx (\<lambda>env. getAuthorized env taskId a)) (\<lambda>_.
     andThen (read_err ctx (\<lambda>_. listObservationPage taskId cursor limit)) (\<lambda>page.
     ret [(''taskId'', JStr taskId), (''observations'', wireObservations (pg_observations page)),
          (''_meta'', JObj [(''observationCursor'', cursor_json page), (''hasMore'', JBool (pg_hasMore page))])]))"

definition getTaskResult :: "worker_ctx \<Rightarrow> string \<Rightarrow> AuthorizationContext \<Rightarrow> ('w, json_object) program" where
  "getTaskResult ctx taskId a =
     andThen (read_err ctx (\<lambda>env. getAuthorized env taskId a)) (\<lambda>task.
     if \<not> isTerminalState (internal_state task) then throw (InvalidParamsError ''TASK_NOT_TERMINAL'' None)
     else ret (case result task of
         Some r \<Rightarrow> r
       | None \<Rightarrow> (case error task of
           Some e \<Rightarrow> e
         | None \<Rightarrow> [(''content'', JArr []), (''isError'', JBool (mcp_status task \<noteq> completed))])))"

section \<open>Commands\<close>

text \<open>\<^verbatim>\<open>Math.max(0, nextAttemptAt - now)\<close>, zero without a date.\<close>

definition commandRetryAfterMs :: "instant option \<Rightarrow> instant \<Rightarrow> int" where
  "commandRetryAfterMs nextAttemptAt at = (case nextAttemptAt of None \<Rightarrow> 0 | Some t \<Rightarrow> max 0 (t - at))"

definition in_progress :: "CommandResolution \<Rightarrow> command_type \<Rightarrow> int \<Rightarrow> err" where
  "in_progress command requested retryAfterMs =
     CommandInProgressError \<lparr>cip_commandSequence = rs_sequence command, cip_requestedCommandType = show_command_type requested,
       cip_blockingCommandType = show_command_type (rs_commandType command), cip_commandState = show_command_state (rs_state command),
       cip_retryAfterMs = retryAfterMs\<rparr>"

definition taskWithCommandReceipt :: "worker_ctx \<Rightarrow> string \<Rightarrow> AuthorizationContext \<Rightarrow> CommandResolution \<Rightarrow> ('w, json_object) program" where
  "taskWithCommandReceipt ctx taskId a command =
     andThen (read_err ctx (\<lambda>env. getAuthorized env taskId a)) (\<lambda>task.
     andThen (page_of_task ctx taskId) (\<lambda>(requests, page).
     andThen (clock_now ctx) (\<lambda>at. ret (with_receipt task requests page command at))))"

definition taskSnapshot :: "worker_ctx \<Rightarrow> string \<Rightarrow> AuthorizationContext \<Rightarrow> ('w, json_object) program" where
  "taskSnapshot ctx taskId a =
     andThen (read_err ctx (\<lambda>env. getAuthorized env taskId a)) (\<lambda>task.
     andThen (page_of_task ctx taskId) (\<lambda>(requests, page). ret (fresh_task task requests page)))"

definition resolveExistingCommand ::
  "worker_ctx \<Rightarrow> string \<Rightarrow> AuthorizationContext \<Rightarrow> command_type \<Rightarrow> CommandResolution \<Rightarrow> ('w, json_object) program" where
  "resolveExistingCommand ctx taskId a requested command =
     andThen (clock_now ctx) (\<lambda>at.
     case rs_state command of
       ACKNOWLEDGED \<Rightarrow>
         if rs_commandType command = CANCEL then throw (in_progress command requested 0)
         else taskWithCommandReceipt ctx taskId a command
     | REJECTED \<Rightarrow> ret (commandRejectionResult command)
     | EXHAUSTED \<Rightarrow> ret (commandFailureResult command)
     | _ \<Rightarrow> throw (in_progress command requested
         (commandRetryAfterMs (coalesce (rs_nextAttemptAt command) (rs_claimUntil command)) at)))"

definition cancel_hash :: "runtime_env \<Rightarrow> string" where
  "cancel_hash env = sha256 env ''cancel:user_requested''"

definition cancelTaskCooperatively :: "worker_ctx \<Rightarrow> string \<Rightarrow> AuthorizationContext \<Rightarrow> ('w, unit) program" where
  "cancelTaskCooperatively ctx taskId a =
     andThen (read_err ctx (\<lambda>env. getAuthorized env taskId a)) (\<lambda>task.
     if isTerminalState (internal_state task) then ret ()
     else
       andThen (loadOperation ctx (in_operationSnapshotId (spec task))) (\<lambda>operation.
       if oc_cancel (od_capabilities (vo_operation operation)) then
         andThen (call ctx (\<lambda>_ env. beginCancel env taskId (cancel_hash env))) (\<lambda>_. ret ())
       else andThen (call ctx (\<lambda>_ env. recordCooperativeCancellationIntent env taskId)) (\<lambda>_. ret ())))"

definition cancelTask :: "worker_ctx \<Rightarrow> string \<Rightarrow> AuthorizationContext \<Rightarrow> ('w, json_object) program" where
  "cancelTask ctx taskId a =
     andThen (read_err ctx (\<lambda>env. getAuthorized env taskId a)) (\<lambda>task.
     andThen (loadOperation ctx (in_operationSnapshotId (spec task))) (\<lambda>operation.
     if isTerminalState (internal_state task) then ret (fresh_task task [] no_page)
     else if \<not> oc_cancel (od_capabilities (vo_operation operation)) then throw (CapabilityNotSupportedError ''CANCEL_NOT_SUPPORTED'')
     else
       andThen (call ctx (\<lambda>_ env. beginCancel env taskId (cancel_hash env))) (\<lambda>command.
       if rs_commandType command \<noteq> CANCEL then throw (Error ''CANCEL_COMMAND_NOT_PERSISTED'')
       else
         andThen (read_store ctx (\<lambda>_. getById taskId)) (\<lambda>row.
         ret (fresh_task (case row of None \<Rightarrow> task | Some r \<Rightarrow> r) [] no_page)))))"

definition controlTask :: "worker_ctx \<Rightarrow> string \<Rightarrow> command_type \<Rightarrow> AuthorizationContext \<Rightarrow> ('w, json_object) program" where
  "controlTask ctx taskId commandType a =
     andThen (read_err ctx (\<lambda>env. getAuthorized env taskId a)) (\<lambda>task.
     andThen (loadOperation ctx (in_operationSnapshotId (spec task))) (\<lambda>operation.
     if \<not> oc_pauseResume (od_capabilities (vo_operation operation)) then throw (CapabilityNotSupportedError ''PAUSE_RESUME_NOT_SUPPORTED'')
     else
       andThen (call ctx (\<lambda>_ env. beginCommand env taskId commandType (sha256 env (show_command_type commandType)) [])) (\<lambda>command.
       if rs_duplicate command then resolveExistingCommand ctx taskId a commandType command
       else taskWithCommandReceipt ctx taskId a command)))"

section \<open>Input\<close>

record answer =
  an_key :: string
  an_hash :: string
  an_value :: json

definition answer_json :: "answer \<Rightarrow> json" where
  "answer_json x = JObj [(''key'', JStr (an_key x)), (''hash'', JStr (an_hash x)), (''value'', an_value x)]"

definition schema_object :: "json \<Rightarrow> json_object" where
  "schema_object j = (case j of JObj o1 \<Rightarrow> o1 | _ \<Rightarrow> [])"

text \<open>The loop over the answers: all answers and those still pending, with the schemas compiled so far.\<close>

fun check_answers ::
  "runtime_env \<Rightarrow> schema_compiler \<Rightarrow> input_request_row list \<Rightarrow> json_object list \<Rightarrow> (string \<times> json) list \<Rightarrow> err + (answer list \<times> answer list)" where
  "check_answers env compile requests compiled [] = Inr ([], [])"
| "check_answers env compile requests compiled ((k, v) # rest) =
     (case first_row (\<lambda>q. ir_key q = k) requests of
        None \<Rightarrow> Inl (InvalidParamsError ''UNKNOWN_INPUT_REQUEST_KEY'' None)
      | Some request \<Rightarrow>
          let x = \<lparr>an_key = k, an_hash = sha256 env (canonicalize v), an_value = v\<rparr> in
          if ir_status request = ANSWERED then
            if ir_answer_hash request \<noteq> Some (an_hash x) then Inl (InvalidParamsError ''INPUT_ANSWER_CONFLICT'' None)
            else bind_err (check_answers env compile requests compiled rest) (\<lambda>(allAnswers, pending). Inr (x # allAnswers, pending))
          else
            bind_err (compile compiled (schema_object (ir_schema request))) (\<lambda>valid.
            if \<not> valid v then Inl (InvalidParamsError ''INVALID_INPUT_ANSWER'' None)
            else bind_err (check_answers env compile requests (compiled @ [schema_object (ir_schema request)]) rest) (\<lambda>(allAnswers, pending).
              Inr (x # allAnswers, x # pending))))"

definition answers_hash :: "runtime_env \<Rightarrow> answer list \<Rightarrow> string" where
  "answers_hash env xs = sha256 env (canonicalize (JArr (map answer_json (sort_key (\<lambda>x. collate env (an_key x)) xs))))"

definition updateTask :: "worker_ctx \<Rightarrow> string \<Rightarrow> (string \<times> json) list \<Rightarrow> AuthorizationContext \<Rightarrow> ('w, json_object) program" where
  "updateTask ctx taskId answers a =
     andThen (read_err ctx (\<lambda>env. getAuthorized env taskId a)) (\<lambda>task.
     andThen (loadOperation ctx (in_operationSnapshotId (spec task))) (\<lambda>operation.
     if \<not> oc_inputRequired (od_capabilities (vo_operation operation)) then throw (CapabilityNotSupportedError ''INPUT_NOT_SUPPORTED'')
     else
       andThen (read_store ctx (\<lambda>_. listInputRequests taskId)) (\<lambda>requests.
       andThen (with_env ctx (\<lambda>env. check_answers env (wc_compile ctx) requests [] answers)) (\<lambda>(allAnswers, pending).
       if pending = [] then
         andThen (read_store ctx (\<lambda>env. findCommandByRequestHash taskId UPDATE (answers_hash env allAnswers))) (\<lambda>command.
         case command of
           Some c \<Rightarrow> resolveExistingCommand ctx taskId a UPDATE c
         | None \<Rightarrow> taskSnapshot ctx taskId a)
       else
         andThen (call ctx (\<lambda>_ env. beginCommand env taskId UPDATE (answers_hash env allAnswers)
           [(''answers'', JObj (from_entries (map (\<lambda>x. (an_key x, an_value x)) pending)))])) (\<lambda>command.
         if rs_duplicate command then resolveExistingCommand ctx taskId a UPDATE command
         else taskWithCommandReceipt ctx taskId a command)))))"

text \<open>The validator handed to \<^verbatim>\<open>acceptMcpInputResponses\<close>.  All responses are compiled by one Ajv instance, which is taken to be independent of
  what it compiled before; \<open>accepts_undefined\<close> is Ajv's answer for a missing value.\<close>

definition response_validator ::
  "schema_compiler \<Rightarrow> (json_object \<Rightarrow> bool) \<Rightarrow> input_request_row \<Rightarrow> json \<Rightarrow> err + unit" where
  "response_validator compile accepts_undefined request response =
     (let fields = schema_object response; schema = schema_object (ir_schema request) in
      if obj_get fields ''action'' \<noteq> Some (JStr ''accept'') then Inr ()
      else case compile [] schema of
          Inl _ \<Rightarrow> Inl (AdapterContractError ''INVALID_INPUT_SCHEMA'')
        | Inr valid \<Rightarrow>
            if (case obj_get fields ''content'' of None \<Rightarrow> accepts_undefined schema | Some c \<Rightarrow> valid c) then Inr ()
            else Inl (InvalidParamsError ''INVALID_INPUT_RESPONSE'' None))"

definition updateTaskInputResponses ::
  "worker_ctx \<Rightarrow> string \<Rightarrow> (string \<times> json) list \<Rightarrow> AuthorizationContext \<Rightarrow> ('w, unit) program" where
  "updateTaskInputResponses ctx taskId inputResponses a =
     andThen (read_err ctx (\<lambda>env. getAuthorized env taskId a)) (\<lambda>task.
     andThen (loadOperation ctx (in_operationSnapshotId (spec task))) (\<lambda>operation.
     if \<not> oc_inputRequired (od_capabilities (vo_operation operation)) then throw (CapabilityNotSupportedError ''INPUT_NOT_SUPPORTED'')
     else
       andThen (call ctx (\<lambda>_ env. acceptMcpInputResponses env (response_validator (wc_compile ctx) (wc_accepts_undefined ctx)) taskId a inputResponses)) (\<lambda>_.
       ret ())))"

section \<open>Availability\<close>

definition request_id_format :: "string \<Rightarrow> bool" where
  "request_id_format s = name_format ''._:/-'' 127 s"

definition pointer_format :: "string \<Rightarrow> bool" where
  "pointer_format s = (s = [] \<or> (hd s = CHR ''/'' \<and> tildes_ok s))"

definition assertUnresolvedPointers :: "string list \<Rightarrow> err + unit" where
  "assertUnresolvedPointers pointers =
     (if length pointers < 1 \<or> length pointers > 128 \<or> \<not> distinct pointers then Inl (InvalidParamsError ''INVALID_UNRESOLVED_PATHS'' None)
      else if list_ex (\<lambda>p. length p > 512 \<or> \<not> pointer_format p) pointers then Inl (InvalidParamsError ''INVALID_UNRESOLVED_PATH'' None)
      else Inr ())"

fun assert_checks :: "engine \<Rightarrow> string list \<Rightarrow> AvailabilityCheck list \<Rightarrow> err + unit" where
  "assert_checks en seen [] = Inr ()"
| "assert_checks en seen (c # cs) =
     (if \<not> request_id_format (ac_requestId c) \<or> ac_requestId c \<in> set seen then Inl (Error ''INVALID_AVAILABILITY_REQUEST_ID'')
      else case first_row (\<lambda>op. vo_name op = ac_operationName c) (vm_operations (en_manifest en)) of
          None \<Rightarrow> Inl (CapabilityNotSupportedError ''AVAILABILITY_NOT_SUPPORTED'')
        | Some operation \<Rightarrow>
            if \<not> oc_availability (od_capabilities (vo_operation operation)) then Inl (CapabilityNotSupportedError ''AVAILABILITY_NOT_SUPPORTED'')
            else bind_err (case ac_arguments c of
                complete_arguments v \<Rightarrow> vo_validateArguments operation (JObj v)
              | partial_arguments _ paths \<Rightarrow> assertUnresolvedPointers paths) (\<lambda>_.
              assert_checks en (ac_requestId c # seen) cs))"

definition toAdapterAvailabilityCheck :: "(string \<Rightarrow> instant option) \<Rightarrow> AvailabilityCheck \<Rightarrow> err + AvailabilityCheckInput" where
  "toAdapterAvailabilityCheck legacy check =
     bind_err (toAdapterTiming legacy (ac_timing check)) (\<lambda>timing.
     Inr \<lparr>ci_requestId = ac_requestId check, ci_operation = ac_operationName check,
       ci_arguments = (case ac_arguments check of complete_arguments v \<Rightarrow> Some v | partial_arguments _ _ \<Rightarrow> None),
       ci_unresolvedArguments = (case ac_arguments check of complete_arguments _ \<Rightarrow> None | partial_arguments v paths \<Rightarrow> Some (v, paths)),
       ci_timing = timing\<rparr>)"

definition hasTimestamp :: "proto_timestamp option \<Rightarrow> bool" where
  "hasTimestamp v = (case v of None \<Rightarrow> False | Some t \<Rightarrow> pt_seconds t \<noteq> 0)"

text \<open>\<^verbatim>\<open>new Date(seconds * 1000 + nanos / 1000000)\<close>: fractions of a millisecond are cut off towards zero; \<open>None\<close> is an invalid date.\<close>

definition timestamp_date :: "proto_timestamp \<Rightarrow> instant option" where
  "timestamp_date t =
     (let ns = pt_seconds t * 1000000000 + pt_nanos t; ms = sgn ns * (\<bar>ns\<bar> div 1000000) in if valid_date ms then Some ms else None)"

definition protoTimestampToDate :: "proto_timestamp option \<Rightarrow> err + instant option" where
  "protoTimestampToDate v =
     (if hasTimestamp v then Inr (timestamp_date (the v)) else Inl (Error ''INVALID_AVAILABILITY_TIMESTAMP''))"

definition timestamp_text :: "proto_timestamp option \<Rightarrow> err + string" where
  "timestamp_text v =
     bind_err (protoTimestampToDate v) (\<lambda>d.
     case d of None \<Rightarrow> Inl (RangeError ''Invalid time value'') | Some t \<Rightarrow> Inr (toISOString t))"

definition optional_timestamp :: "proto_timestamp option \<Rightarrow> err + string option" where
  "optional_timestamp v = (if hasTimestamp v then bind_err (timestamp_text v) (\<lambda>s. Inr (Some s)) else Inr None)"

definition non_empty :: "string \<Rightarrow> string option" where
  "non_empty s = (if s = [] then None else Some s)"

definition fromAdapterAvailability :: "AvailabilityResult \<Rightarrow> err + AvailabilityResultValue" where
  "fromAdapterAvailability r =
     (if ar_reservationMode r = ''UNSPECIFIED'' then Inl (Error ''AVAILABILITY_RESERVATION_MODE_MISSING'')
      else
        bind_err (optional_timestamp (ar_validUntil r)) (\<lambda>validUntil.
        bind_err (optional_timestamp (ar_earliestStartTime r)) (\<lambda>earliest.
        bind_err (map_err (\<lambda>(s, e). bind_err (timestamp_text s) (\<lambda>startTime. bind_err (timestamp_text e) (\<lambda>endTime.
            Inr \<lparr>aw_startTime = startTime, aw_endTime = endTime\<rparr>)))
          (filter (\<lambda>(s, e). hasTimestamp s \<and> hasTimestamp e) (ar_nextAvailableWindows r))) (\<lambda>windows.
        Inr \<lparr>av_requestId = ar_requestId r, av_operationName = ar_operationName r, av_availability = toLowerCase (ar_availability r),
             av_riskLevel = Some (if ar_riskLevel r = ''UNSPECIFIED'' then ''critical'' else toLowerCase (ar_riskLevel r)),
             av_reasonCode = non_empty (ar_reasonCode r), av_description = non_empty (ar_description r),
             av_validUntil = validUntil, av_earliestStartTime = earliest, av_nextAvailableWindows = Some windows,
             av_estimatedDelayMs = Some (ar_estimatedDelayMs r), av_reservationMode = toLowerCase (ar_reservationMode r),
             av_reservationRef = non_empty (ar_reservationRef r), av_possibleEffects = Some (ar_possibleEffects r)\<rparr>))))"

definition isAvailabilityContractError :: "err \<Rightarrow> bool" where
  "isAvailabilityContractError e =
     list_ex (\<lambda>p. starts_with p (err_message e)) [''AVAILABILITY_'', ''AVAILABLE_'', ''RESTRICTED_'', ''INVALID_'']"

text \<open>An invalid date of the answer compares as false with every bound, which the model reads as a date before all others.\<close>

definition availability_answer ::
  "runtime_env \<Rightarrow> AvailabilityCheck list \<Rightarrow> proto_timestamp option \<times> AvailabilityResult list \<Rightarrow> err + AvailabilityResultValue list" where
  "availability_answer env checks response =
     bind_err (protoTimestampToDate (fst response)) (\<lambda>checkedAt.
     bind_err (map_err fromAdapterAvailability (snd response)) (\<lambda>results.
     validateAvailabilityResponse (legacy_date env) (case checkedAt of None \<Rightarrow> -8640000000000001 | Some t \<Rightarrow> t) checks results))"

definition checkAvailability ::
  "worker_ctx \<Rightarrow> engine \<Rightarrow> 'w engine_gateway \<Rightarrow> AvailabilityCheck list \<Rightarrow> AuthorizationContext \<Rightarrow> ('w, AvailabilityResultValue list) program" where
  "checkAvailability ctx en gw checks a =
     (if length checks < 1 \<or> length checks > 64 then throw (Error ''INVALID_AVAILABILITY_BATCH'')
      else
        andThen (lift_err (assert_checks en [] checks)) (\<lambda>_.
        catching
          (andThen (with_env ctx (\<lambda>env. map_err (toAdapterAvailabilityCheck (legacy_date env)) checks)) (\<lambda>requests.
           andThen (remote (eg_checkAvailability gw requests a)) (\<lambda>response.
           with_env ctx (\<lambda>env. availability_answer env checks response))))
          (\<lambda>e. if isAvailabilityContractError e then throw e else ret (unknownAvailability checks))))"

end
