(* ===== verification/Store_Theorems.thy ===== *)
theory Store_Theorems
  imports Store_Steps "HOL-Library.Sublist"
begin

text \<open>
  What the task store guarantees: the contract of the guarded transition (when it is applied, what
  it writes, that it can be replayed), and what holds of every store the repository operations can
  reach.
\<close>

section \<open>When a transition is applied\<close>


lemma only_deliveries_find: "only_deliveries db db' \<Longrightarrow> find_task t db' = find_task t db"
  by (auto simp: only_deliveries_def find_task_def)

lemma operational_total:
  assumes "find_task t db = Some r"
  obtains db' where "captureTaskOperationalEvent t a b c d e db = Inr db'" "find_task t db' = Some r"
  using assms only_deliveries_find [OF only_deliveries_capture]
  by (auto simp: captureTaskOperationalEvent_def)

lemma capture_decisions_total:
  assumes "find_task (tq_taskId q) db = Some r"
  shows "\<exists>db'. capture_decisions q row db = Inr db'"
proof -
  let ?m = "case schedulerDecisionFor (tq_outboxType q) of None \<Rightarrow> Inr db
     | Some decision \<Rightarrow> captureTaskOperationalEvent (tq_taskId q) ''provider.scheduler.decision'' decision
             (tq_eventKey q) (to_occurredAt (tq_observation q))
             [(''decision'', JStr decision), (''taskId'', JStr (tq_taskId q)),
              (''operationName'', JStr (in_operationName (spec row))),
              (''invocationAttempt'', JNum (int (invocation_attempt row))),
              (''scheduledAt'', json_date_opt (not_before row)),
              (''latestStartAt'', json_date_opt (latest_start_at row)),
              (''reasonCode'', json_opt (to_reasonCode (tq_observation q)))] db"
  obtain db1 where m: "?m = Inr db1" and f: "find_task (tq_taskId q) db1 = Some r"
    using assms by (cases "schedulerDecisionFor (tq_outboxType q)") (auto elim: operational_total [OF assms])
  show ?thesis unfolding capture_decisions_def m
    by (simp add: captureTaskOperationalEvent_def f)
qed

lemma find_task_replaced:
  assumes "find_task t db = Some r" "task_id row = t"
  shows "find_task t (update_task t (\<lambda>_. row) db) = Some row"
  using assms by (subst find_task_def) (auto simp: find_task_def update_task_def first_row_update_rows dest: first_row_SomeD)

lemma fresh_revision:
  assumes "observations_inv rows obs" "r \<in> set rows" 
  shows "(task_id r, Suc (observation_revision r)) \<notin> (\<lambda>o1. (ob_task_id o1, ob_revision o1)) ` set obs"
proof
  assume "(task_id r, Suc (observation_revision r)) \<in> (\<lambda>o1. (ob_task_id o1, ob_revision o1)) ` set obs"
  then have "Suc (observation_revision r) \<in> set (revisions (task_id r) obs)"
    by (auto simp: revisions_def)
  with assms show False by (auto simp: observations_inv_def)
qed

lemma schema_ok_task:
  assumes "schema_ok db" "list_all task_row_ok rows" "distinct (map task_id rows)" "distinct (execution_keys rows)"
  shows "schema_ok (db\<lparr>provider_task := rows\<rparr>)"
  using assms by (simp add: schema_ok_def schema_checks_def)

lemma schema_ok_release:
  assumes "schema_ok db" "\<And>b. b \<in> set (resource_binding db) \<Longrightarrow> rb_task_id b = t \<Longrightarrow> rb_bound_at b \<le> at"
  shows "schema_ok (release_binding p t at db)"
proof -
  let ?P = "\<lambda>b. rb_provider_id b = p \<and> rb_task_id b = t"
  let ?f = "\<lambda>b. b\<lparr>rb_terminal_at := Some at, rb_retain_until := max (rb_retain_until b) (at + 1209960000)\<rparr>"
  have "list_all binding_row_ok (update_rows ?P ?f (resource_binding db))"
    using assms by (auto simp: schema_ok_def schema_checks_def list_all_iff set_update_rows binding_row_ok_def)
  moreover have "map (\<lambda>b. (rb_provider_id b, rb_task_id b)) (update_rows ?P ?f (resource_binding db)) =
      map (\<lambda>b. (rb_provider_id b, rb_task_id b)) (resource_binding db)"
    by (simp add: update_rows_def)
  ultimately show ?thesis using assms(1) by (simp add: schema_ok_def schema_checks_def release_binding_def)
qed

definition no_new_violation :: "TaskTransitionRequest \<Rightarrow> task_row \<Rightarrow> db \<Rightarrow> bool" where
  "no_new_violation q existing db =
     (let row = apply_update (tq_update q) (tq_observation q) existing in
      task_row_ok row \<and>
      distinct (execution_keys (provider_task (update_task (tq_taskId q) (\<lambda>_. row) db))) \<and>
      (isTerminalState (internal_state row) \<longrightarrow>
        (\<forall>b \<in> set (resource_binding db). rb_task_id b = tq_taskId q \<longrightarrow>
           rb_bound_at b \<le> to_occurredAt (tq_observation q))))"

lemma transitionTask_succeeds:
  assumes inv: "db_inv db" and ex: "find_task (tq_taskId q) db = Some existing"
    and g: "transition_guard q existing db" and ok: "no_new_violation q existing db"
  shows "\<exists>db'. transitionTask q db =
    Inr ((apply_update (tq_update q) (tq_observation q) existing, True), db')"
proof -
  let ?t = "tq_taskId q"
  define row where "row = apply_update (tq_update q) (tq_observation q) existing"
  define at where "at = to_occurredAt (tq_observation q)"
  define db1 where "db1 = update_task ?t (\<lambda>_. row) db"
  define db2 where "db2 = (if isTerminalState (internal_state row)
      then release_binding (in_providerId (spec row)) ?t at db1 else db1)"
  define db3 where "db3 = db2\<lparr>task_observation := task_observation db2 @ [transition_observation q row]\<rparr>"
  define e where "e = \<lparr>ox_event_key = tq_eventKey q, ox_aggregate_id = ?t,
      ox_event_type = tq_outboxType q, ox_payload = transition_payload q existing row\<rparr>"
  define db4 where "db4 = db3\<lparr>outbox_event := outbox_event db3 @ [e]\<rparr>"
  define db5 where "db5 = captureTaskProviderOpsDelivery row (tq_outboxType q)
     (transition_payload q existing row) (tq_eventKey q) at db4"
  from find_task_SomeD [OF ex] have mem: "existing \<in> set (provider_task db)" and tid: "task_id existing = ?t" by auto
  from inv have s: "schema_ok db" by (simp add: db_inv_def)
  note d = schema_okD(1) [OF s]
  have ids: "map task_id (provider_task db1) = map task_id (provider_task db)"
    using tid by (auto simp: db1_def update_task_def update_rows_def row_def)
  have "list_all task_row_ok (provider_task db1)"
    using ok schema_okD(2) [OF s]
    by (auto simp: no_new_violation_def Let_def row_def db1_def update_task_def list_all_iff set_update_rows)
  then have s1: "schema_ok db1" unfolding db1_def update_task_def
    using s d ids ok by (intro schema_ok_task)
      (auto simp: no_new_violation_def Let_def row_def db1_def update_task_def)
  then have s2: "schema_ok db2"
    using ok by (auto simp: db2_def at_def no_new_violation_def Let_def row_def db1_def update_task_def
      intro!: schema_ok_release)
  have obs2: "task_observation db2 = task_observation db" "provider_task db2 = provider_task db1"
      "outbox_event db2 = outbox_event db"
    by (auto simp: db2_def db1_def release_binding_def update_task_def)
  have "(?t, observation_revision row) \<notin> (\<lambda>o1. (ob_task_id o1, ob_revision o1)) ` set (task_observation db)"
    using fresh_revision [OF _ mem] inv tid by (simp add: db_inv_def row_def)
  then have s3: "schema_ok db3"
    using s2 obs2 by (simp add: db3_def schema_ok_def schema_checks_def transition_observation_def Let_def)
  have s4: "schema_ok db4" unfolding db4_def
    by (rule schema_ok_event [OF s3]) (use g obs2 in \<open>simp add: e_def db3_def transition_guard_def has_event_def\<close>)
  have f1: "find_task ?t db1 = Some row"
    unfolding db1_def by (rule find_task_replaced [OF ex]) (simp add: row_def tid)
  then have "find_task ?t db5 = Some row"
    using only_deliveries_find [OF only_deliveries_task_capture] obs2
    by (simp add: db5_def db4_def db3_def find_task_def)
  then obtain db' where "capture_decisions q row db5 = Inr db'"
    using capture_decisions_total by blast
  moreover have "\<not> has_event (tq_eventKey q) db" "\<not> isTerminalState (internal_state existing)"
    using g by (auto simp: transition_guard_def)
  ultimately have "transitionTask q db = Inr ((row, True), db')"
    using g s1 s2 s3 s4
    unfolding transitionTask_def ex option.case transition_guard_def Let_def row_def [symmetric] at_def [symmetric]
    by (auto simp: checked_ok db5_def db4_def e_def db3_def db2_def db1_def split: option.splits)
  then show ?thesis by (auto simp: row_def)
qed


section \<open>Properties of transitions\<close>

lemma transition_find:
  assumes "transition_applied q row db db'" "find_task (tq_taskId q) db = Some existing" "spec row = spec existing"
  shows "find_task (tq_taskId q) db' = Some row"
proof -
  have "find_task (tq_taskId q) db' = find_task (tq_taskId q) (update_task (tq_taskId q) (\<lambda>_. row) db)"
    using assms(1) by (simp add: find_task_def update_task_def transition_applied_def)
  with assms find_task_replaced [OF assms(2)] find_task_SomeD [OF assms(2)] show ?thesis by simp
qed

lemma transitionTask_find:
  assumes "transitionTask q db = Inr ((row, ap), db')"
  shows "find_task (tq_taskId q) db' = Some row"
  using assms by (cases rule: transitionTask_InrE) (auto intro: transition_find)

lemma transition_event: "transition_applied q row db db' \<Longrightarrow> has_event (tq_eventKey q) db'"
  by (auto simp: transition_applied_def has_event_def)

text \<open>C1. A guarded transition either does nothing, and then because its event is already recorded, the
  task is terminal or the adapter revision is not newer; or it replaces the task's row by the
  updated one, with the next version and observation revision, appends exactly one observation
  carrying that revision and exactly one event under a key that was not used before, and leaves the
  admissions, commands, input requests and responses alone.\<close>

theorem transition_outcome:
  assumes "transitionTask q db = Inr ((row, ap), db')"
  shows "if ap then
      (\<exists>existing payload. find_task (tq_taskId q) db = Some existing \<and> \<not> isTerminalState (internal_state existing) \<and>
         row = apply_update (tq_update q) (tq_observation q) existing \<and> version row = version existing + 1 \<and>
         find_task (tq_taskId q) db' = Some row \<and>
         (\<forall>t. t \<noteq> tq_taskId q \<longrightarrow> find_task t db' = find_task t db) \<and>
         task_observation db' = task_observation db @ [transition_observation q row] \<and>
         ob_revision (transition_observation q row) = observation_revision existing + 1 \<and>
         \<not> has_event (tq_eventKey q) db \<and>
         outbox_event db' = outbox_event db @ [\<lparr>ox_event_key = tq_eventKey q, ox_aggregate_id = tq_taskId q,
           ox_event_type = tq_outboxType q, ox_payload = payload\<rparr>] \<and>
         task_command db' = task_command db \<and> admission_intent db' = admission_intent db \<and>
         task_input_request db' = task_input_request db \<and>
         task_input_response_inbox db' = task_input_response_inbox db)
    else db' = db \<and> find_task (tq_taskId q) db = Some row \<and>
      (has_event (tq_eventKey q) db \<or> isTerminalState (internal_state row) \<or>
       (\<exists>a. up_adapterRevision (tq_update q) = Some a \<and> a \<le> adapter_revision row))"
  using assms
proof (cases rule: transitionTask_InrE)
  case skipped
  have "(case tq_expectedVersion q of None \<Rightarrow> True | Some v \<Rightarrow> version row = v)"
    if "\<not> has_event (tq_eventKey q) db" "\<not> isTerminalState (internal_state row)"
    using assms skipped(1) that by (auto simp: transitionTask_def split: option.splits if_splits)
  with skipped show ?thesis
    by (auto simp: transition_guard_def not_less split: option.splits)
next
  case (applied existing)
  have other: "find_task t db' = find_task t db" if "t \<noteq> tq_taskId q" for t
    by (rule transitionTask_other [OF _ that]) (use assms applied in auto)
  show ?thesis
    using applied transition_find [OF applied(5,1)] other
    by (auto simp: transition_applied_def transition_guard_def transition_observation_def Let_def)
qed

text \<open>A transition that was applied can be requested again without effect: the second request finds
  its event recorded and returns the row the first one wrote.\<close>

theorem transition_replay:
  assumes "transitionTask q db = Inr ((row, True), db')"
  shows "transitionTask q db' = Inr ((row, False), db')"
  using assms
proof (cases rule: transitionTask_InrE)
  case (applied existing)
  then show ?thesis
    using transition_find [OF applied(5,1)] transition_event [OF applied(5)] by (simp add: transitionTask_def)
qed simp

text \<open>A transition whose guard holds goes through: in a store that satisfies the invariant, with a row
  that satisfies the table's own constraints, no other constraint can stop it, so the task moves on.\<close>

theorem transition_goes_through:
  assumes "db_inv db" "find_task (tq_taskId q) db = Some existing"
    and "transition_guard q existing db" "no_new_violation q existing db"
  shows "\<exists>db'. transitionTask q db = Inr ((apply_update (tq_update q) (tq_observation q) existing, True), db') \<and> schema_ok db'"
proof -
  obtain db' where run: "transitionTask q db = Inr ((apply_update (tq_update q) (tq_observation q) existing, True), db')"
    using transitionTask_succeeds [OF assms] by blast
  then have "schema_ok db'" by (cases rule: transitionTask_InrE) (auto simp: transition_applied_def)
  with run show ?thesis by blast
qed

section \<open>Reachable stores\<close>

text \<open>C12. In every store the repository operations can reach, a task's columns agree: it has a result exactly
  when its status is completed and an error exactly when it is failed, each terminal state has its own
  status, only a task waiting for input has the status input_required, and the terminal time is set
  exactly in a terminal state.\<close>

theorem reachable_status_consistent:
  assumes "reachable_store db" "r \<in> set (provider_task db)"
  shows "(result r \<noteq> None) = (mcp_status r = completed) \<and> (error r \<noteq> None) = (mcp_status r = failed) \<and>
    (mcp_status r = completed) = (internal_state r = TERMINAL_COMPLETED) \<and>
    (mcp_status r = failed) = (internal_state r = TERMINAL_FAILED) \<and>
    (mcp_status r = cancelled) = (internal_state r = TERMINAL_CANCELLED) \<and>
    (mcp_status r = input_required) = (internal_state r = INPUT_REQUIRED) \<and>
    (terminal_at r \<noteq> None) = isTerminalState (internal_state r)"
proof -
  note inv = reachable_store_inv [OF assms(1)]
  from inv assms(2) have "task_row_ok r" by (auto simp: db_inv_def dest!: schema_okD(2) simp: list_all_iff)
  with db_inv_row_ok [OF inv assms(2)] show ?thesis
    by (simp add: row_ok_def state_status_ok_def task_row_ok_def retention_order_def)
qed


lemma later_row:
  assumes "reachable_store db" "repo_step\<^sup>*\<^sup>* db db'" "find_task t db = Some r"
  shows "\<exists>r'. find_task t db' = Some r' \<and> row_evolves r r'"
proof -
  note later = later_store [OF assms(1,2)]
  from find_task_SomeD [OF assms(3)] have r: "r \<in> set (provider_task db)" "task_id r = t" by auto
  with later obtain r' where r': "r' \<in> set (provider_task db')" "row_evolves r r'" by (auto simp: evolves_def)
  then have "task_id r' = t" using r by (simp add: row_evolves_def)
  moreover have "find_task (task_id r') db' = Some r'" using later r' by (intro find_task_mem) auto
  ultimately show ?thesis using r' by auto
qed

text \<open>Nothing is lost or renumbered: in every later store a task still exists with the specification
  it was admitted with, its version, its adapter revision, its observation revision and its command counter
  have not decreased, and the observation log, the event log and the admissions of the earlier store are
  prefixes of the later ones.\<close>

theorem store_progress:
  assumes "reachable_store db" "repo_step\<^sup>*\<^sup>* db db'" "find_task t db = Some r"
  shows "(\<exists>r'. find_task t db' = Some r' \<and> spec r' = spec r \<and> version r \<le> version r' \<and>
      adapter_revision r \<le> adapter_revision r' \<and> observation_revision r \<le> observation_revision r' \<and>
      next_command_sequence r \<le> next_command_sequence r') \<and>
    prefix (task_observation db) (task_observation db') \<and> prefix (outbox_event db) (outbox_event db') \<and>
    prefix (map ad_input (admission_intent db)) (map ad_input (admission_intent db'))"
  using later_row [OF assms] later_store [OF assms(1,2)]
  by (auto simp: row_evolves_def evolves_def prefix_def)

lemma distinct_filter_unique:
  assumes "distinct (map k (filter P xs))" "x \<in> set xs" "y \<in> set xs" "P x" "P y" "k x = k y"
  shows "x = y"
  using assms by (simp add: distinct_map inj_on_def)

end
