(* ===== verification/Control_Theorems.thy ===== *)
theory Control_Theorems
  imports Store_Theorems
begin

text \<open>
  What the control operations guarantee: a live task can always be stopped, by exactly one stop command that
  supersedes the other commands; claims fence out their previous holders; snapshots of the adapter are
  applied in the order of their revisions and do not undo a stop.
\<close>

section \<open>What the facts leave alone\<close>

text \<open>Recording a fact writes events and deliveries and, for a superseded update, the inbox.\<close>

definition only_facts :: "db \<Rightarrow> db \<Rightarrow> bool" where
  "only_facts db db' =
     (provider_task db' = provider_task db \<and> admission_intent db' = admission_intent db \<and>
      task_command db' = task_command db \<and> task_input_request db' = task_input_request db \<and>
      task_observation db' = task_observation db \<and> resource_binding db' = resource_binding db \<and>
      operation_snapshot db' = operation_snapshot db \<and> runtime_lease db' = runtime_lease db)"

lemma only_facts_simps:
  assumes "only_facts db db'"
  shows "provider_task db' = provider_task db" "task_command db' = task_command db"
    "task_observation db' = task_observation db" "task_input_request db' = task_input_request db"
    "resource_binding db' = resource_binding db" "find_task t db' = find_task t db"
    "active_stop_command t db' = active_stop_command t db"
  using assms by (auto simp: only_facts_def find_task_def active_stop_command_def)

interpretation facts: effect only_facts
  by unfold_locales (auto simp: only_facts_def)

lemma only_facts_deliveries: "only_deliveries db db' \<Longrightarrow> only_facts db db'"
  by (auto simp: only_deliveries_def only_facts_def)

lemma only_facts_outbox: "only_facts db (insertOutbox env t ty p k db)"
proof -
  have event: "only_facts db (db\<lparr>outbox_event := es\<rparr>)" for es by (simp add: only_facts_def)
  show ?thesis unfolding insertOutbox_def Let_def
    by (auto simp: facts.effect_refl event split: option.splits
        intro: facts.effect_trans [OF event only_facts_deliveries [OF only_deliveries_task_capture]])
qed

lemma only_facts_command_fact: "only_facts db (insertCommandFact env t c ty x db)"
  by (simp add: insertCommandFact_def only_facts_outbox)

lemma only_facts_created: "only_facts db (created_fact env t n ty reason db)"
  by (simp add: created_fact_def only_facts_command_fact)

lemma only_facts_duplicate: "only_facts db (duplicate_fact env c db)"
  by (simp add: duplicate_fact_def recordCommandResolutionFact_def only_facts_def)

lemma only_facts_superseded: "only_facts db (superseded_fact env ignore previous c db)"
proof -
  have "only_facts db (markAssignedInputResponsesIgnored t n db)" for t n
    by (simp add: only_facts_def markAssignedInputResponsesIgnored_def update_inbox_def)
  then show ?thesis
    by (auto simp: superseded_fact_def only_facts_command_fact intro: facts.effect_trans [OF _ only_facts_command_fact])
qed

lemma only_facts_fold: "(\<And>x db. only_facts db (f x db)) \<Longrightarrow> only_facts db (fold f xs db)"
  by (induction xs arbitrary: db) (auto intro: facts.effect_refl facts.effect_trans)

lemma superseded_facts_commands [simp]:
  "task_command (fold (superseded_fact env ignore previous) cs db) = task_command db"
  by (rule only_facts_simps(2) [OF only_facts_fold [OF only_facts_superseded]])

lemma transitionTask_commands:
  assumes "transitionTask q db = Inr (x, db')"
  shows "task_command db' = task_command db"
proof -
  obtain row ap where "transitionTask q db = Inr ((row, ap), db')" using assms by (cases x) auto
  then show ?thesis by (cases rule: transitionTask_InrE) (auto simp: transition_applied_def)
qed

section \<open>Cancellation\<close>

definition cancel_command :: "runtime_env \<Rightarrow> task_row \<Rightarrow> nat \<Rightarrow> string \<Rightarrow> command_row" where
  "cancel_command env previous n h =
     (new_stop_command env previous n USER_REQUESTED 100 (clk env))\<lparr>cmd_request_hash := h\<rparr>"

lemma cancel_command_simps [simp]:
  "cmd_task_id (cancel_command env previous n h) = task_id previous"
  "cmd_sequence (cancel_command env previous n h) = n" "cmd_state (cancel_command env previous n h) = PENDING"
  "cmd_type (cancel_command env previous n h) = CANCEL"
  "cmd_claim_owner (cancel_command env previous n h) = None" "cmd_claim_until (cancel_command env previous n h) = None"
  by (simp_all add: cancel_command_def new_stop_command_def new_command_def)

lemma take_sequence_frame:
  assumes "take_sequence t db = Inr (n, db')"
  shows "task_command db' = task_command db \<and> outbox_event db' = outbox_event db \<and>
    (\<forall>r. find_task t db = Some r \<longrightarrow> find_task t db' = Some (r\<lparr>next_command_sequence := n\<rparr>) \<and> n = next_command_sequence r + 1)"
proof -
  have "find_task t (update_task t (\<lambda>r. r\<lparr>next_command_sequence := next_command_sequence r + 1\<rparr>) db) =
      map_option (\<lambda>r. r\<lparr>next_command_sequence := next_command_sequence r + 1\<rparr>) (find_task t db)"
    by (cases "find_task t db")
      (auto simp: find_task_def update_task_def first_row_update_rows dest: first_row_SomeD)
  with assms show ?thesis
    by (auto simp: take_sequence_def bind_err_Inr_iff checked_Inr_iff update_task_def split: option.splits)
qed

lemma beginCancel_InrE:
  assumes "beginCancel env t h db = Inr (res, db')"
  obtains (duplicate) c where "active_stop_command t db = Some c" "res = mapCommandResolution c"
      "only_facts db db'"
  | (created) previous n where "find_task t db = Some previous" "active_stop_command t db = None"
      "\<not> isTerminalState (internal_state previous)" "res = created_resolution n CANCEL"
      "task_command db' = update_rows (waiting_normal t) (supersede env) (task_command db) @ [cancel_command env previous n h]"
proof (cases "find_task t db")
  case None
  with assms show thesis by (simp add: beginCancel_def)
next
  case (Some previous)
  show thesis
  proof (cases "active_stop_command t db")
    case (Some c)
    with \<open>find_task t db = Some previous\<close> assms show thesis
      by (intro duplicate) (auto simp: beginCancel_def only_facts_duplicate)
  next
    case None
    define db1 where "db1 = update_commands (waiting_normal t) (supersede env) db"
    define db2 where "db2 = fold (superseded_fact env False None) (filter (waiting_normal t) (task_command db)) db1"
    from assms None \<open>find_task t db = Some previous\<close> obtain n db3 x db4 where run:
      "\<not> isTerminalState (internal_state previous)" "take_sequence t db2 = Inr (n, db3)"
      "transitionTask (cancel_request env previous n) (db3\<lparr>task_command := task_command db3 @ [cancel_command env previous n h]\<rparr>) = Inr (x, db4)"
      "res = created_resolution n CANCEL" "db' = created_fact env t n CANCEL (Some ''USER_REQUESTED'') db4"
      by (auto simp: beginCancel_def bind_err_Inr_iff checked_Inr_iff insert_command_def cancel_command_def
          db2_def db1_def split: if_splits prod.splits)
    have "task_command db2 = task_command db1" unfolding db2_def
      by (rule only_facts_simps(2) [OF only_facts_fold [OF only_facts_superseded]])
    moreover have "task_command db' = task_command db4"
      unfolding run(5) by (rule only_facts_simps(2) [OF only_facts_created])
    ultimately have "task_command db' = update_rows (waiting_normal t) (supersede env) (task_command db) @ [cancel_command env previous n h]"
      using take_sequence_frame [OF run(2)] transitionTask_commands [OF run(3)]
      by (simp add: db1_def update_commands_def)
    with run None \<open>find_task t db = Some previous\<close> created show thesis by blast
  qed
qed

lemma latest_row_single: "(\<And>x. x \<in> set xs \<Longrightarrow> \<not> P x) \<Longrightarrow> P c \<Longrightarrow> latest_row key P (xs @ [c]) = Some c"
  by (simp add: latest_row_def filter_False)

lemma superseded_not_active: "waiting_normal t c \<Longrightarrow> \<not> active_stop (supersede env c)"
  by (auto simp: waiting_normal_def is_normal_def active_stop_def supersede_def release_as_def)

lemma beginCancel_stop:
  assumes "beginCancel env t h db = Inr (res, db')"
  shows "\<exists>c. active_stop_command t db' = Some c \<and> cmd_sequence c = rs_sequence res"
  using assms
proof (cases rule: beginCancel_InrE)
  case (duplicate c)
  then show ?thesis by (auto simp: only_facts_simps(7) mapCommandResolution_def)
next
  case (created previous n)
  let ?c = "cancel_command env previous n h"
  have "\<not> (cmd_task_id x = t \<and> active_stop x)"
    if "x \<in> set (update_rows (waiting_normal t) (supersede env) (task_command db))" for x
    using that created(2) superseded_not_active
    by (elim in_set_update_rowsE) (auto simp: active_stop_command_def latest_row_None_iff)
  moreover have "cmd_task_id ?c = t \<and> active_stop ?c"
    using created(1) find_task_SomeD by (simp add: active_stop_def)
  ultimately have "active_stop_command t db' = Some ?c"
    unfolding active_stop_command_def created(5) by (rule latest_row_single)
  then show ?thesis using created(4) by (simp add: created_resolution_def)
qed

text \<open>Cancelling twice is cancelling once: after a cancellation request has been answered for a task, a second
  one, with whatever request hash and at whatever time, answers with the same command sequence number, is marked as a duplicate
  and leaves tasks, commands and observations as they were.\<close>

theorem cancel_is_idempotent:
  assumes "reachable_store db" "beginCancel env t h db = Inr (res, db')"
  shows "\<exists>res' db''. beginCancel env' t h' db' = Inr (res', db'') \<and> rs_sequence res' = rs_sequence res \<and> rs_duplicate res' \<and>
    task_command db'' = task_command db' \<and> provider_task db'' = provider_task db' \<and> task_observation db'' = task_observation db'"
proof -
  have "repo_step db db'" using assms(2) by (rule repo_step.begin_cancel)
  then have step: "repo_step\<^sup>*\<^sup>* db db'" by blast
  obtain r where "find_task t db = Some r" using assms(2) by (auto simp: beginCancel_def split: option.splits)
  with later_row [OF assms(1) step] obtain r' where r': "find_task t db' = Some r'" by blast
  obtain c where c: "active_stop_command t db' = Some c" "cmd_sequence c = rs_sequence res"
    using beginCancel_stop [OF assms(2)] by blast
  have run: "beginCancel env' t h' db' = Inr (mapCommandResolution c, duplicate_fact env' c db')"
    using r' c(1) by (simp add: beginCancel_def)
  have "rs_duplicate (mapCommandResolution c) \<and> rs_sequence (mapCommandResolution c) = rs_sequence res"
    using c(2) by (simp add: mapCommandResolution_def)
  with run only_facts_simps(1-3) [OF only_facts_duplicate, of env' c db'] show ?thesis by blast
qed

text \<open>A new cancellation supersedes the task's other commands: after it, no update, pause or resume command of the
  task is waiting for delivery any more, the commands of other tasks are untouched, and exactly one
  pending stop command of highest user priority has been added under the sequence number returned.\<close>

theorem cancel_supersedes:
  assumes "beginCancel env t h db = Inr (res, db')" "\<not> rs_duplicate res"
  shows "(\<forall>c \<in> set (task_command db'). cmd_task_id c = t \<and> cmd_state c \<in> {PENDING, RETRY_WAIT} \<longrightarrow>
        cmd_type c = CANCEL) \<and>
    filter (\<lambda>c. cmd_task_id c \<noteq> t) (task_command db') = filter (\<lambda>c. cmd_task_id c \<noteq> t) (task_command db) \<and>
    (\<exists>c. task_command db' = map (\<lambda>d. if waiting_normal t d then supersede env d else d) (task_command db) @ [c] \<and>
       cmd_task_id c = t \<and> cmd_type c = CANCEL \<and> cmd_state c = PENDING \<and> cmd_sequence c = rs_sequence res \<and>
       cmd_priority c = 100 \<and> cmd_stop_reason c = Some USER_REQUESTED \<and> cmd_request_hash c = h)"
  using assms(1)
proof (cases rule: beginCancel_InrE)
  case (duplicate c)
  with assms(2) show ?thesis by (simp add: mapCommandResolution_def)
next
  case (created previous n)
  have tid: "task_id previous = t" using created(1) find_task_SomeD by blast
  have "cmd_type c = CANCEL" if "c \<in> set (update_rows (waiting_normal t) (supersede env) (task_command db))"
    "cmd_task_id c = t" "cmd_state c \<in> {PENDING, RETRY_WAIT}" for c
    using that by (elim in_set_update_rowsE, cases "cmd_type c")
      (auto simp: waiting_normal_def is_normal_def supersede_def release_as_def)
  moreover have "filter (\<lambda>c. cmd_task_id c \<noteq> t) (update_rows (waiting_normal t) (supersede env) cs) =
      filter (\<lambda>c. cmd_task_id c \<noteq> t) cs" for cs
    by (induction cs) (auto simp: update_rows_def waiting_normal_def supersede_def release_as_def)
  ultimately show ?thesis unfolding created(4,5)
    by (auto simp: tid update_rows_def created_resolution_def cancel_command_def new_stop_command_def new_command_def)
qed

section \<open>A live task can be stopped\<close>

lemma schema_ok_supersede:
  assumes "schema_ok db"
  shows "schema_ok (update_commands (waiting_normal t) (supersede env) db)"
proof -
  let ?u = "update_rows (waiting_normal t) (supersede env)"
  note kept = supersede_def release_as_def waiting_normal_def
  have "list_all command_row_ok (?u (task_command db))"
    using schema_okD(4) [OF assms] by (auto simp: list_all_iff set_update_rows kept command_row_ok_def)
  moreover have "filter (\<lambda>c. cmd_state c = CLAIMED) (?u cs) = filter (\<lambda>c. cmd_state c = CLAIMED) cs"
    "filter active_stop (?u cs) = filter active_stop cs"
    "map g (filter (\<lambda>c. cmd_type c \<noteq> CANCEL) (?u cs)) = map g (filter (\<lambda>c. cmd_type c \<noteq> CANCEL) cs)"
    if "\<And>c. g (supersede env c) = g c" for cs and g :: "command_row \<Rightarrow> string \<times> command_type \<times> string"
    using that by (induction cs; auto simp: update_rows_def kept active_stop_def is_normal_def)+
  moreover have "map (\<lambda>c. (cmd_task_id c, cmd_sequence c)) (?u cs) = map (\<lambda>c. (cmd_task_id c, cmd_sequence c)) cs" for cs
    by (rule map_update_rows) (simp add: kept)
  ultimately show ?thesis using assms
    by (simp add: schema_ok_def schema_checks_def update_commands_def kept)
qed

lemma schema_ok_counter:
  assumes "schema_ok db"
  shows "schema_ok (update_task t (\<lambda>r. r\<lparr>next_command_sequence := next_command_sequence r + 1\<rparr>) db)"
proof -
  let ?f = "\<lambda>r. r\<lparr>next_command_sequence := next_command_sequence r + 1\<rparr>" and ?P = "\<lambda>r. task_id r = t"
  have "task_row_ok (?f r) = task_row_ok r" for r
    by (simp add: task_row_ok_def retention_order_def)
  then have "list_all task_row_ok (update_rows ?P ?f (provider_task db))"
    using schema_okD(2) [OF assms] by (auto simp: list_all_iff set_update_rows)
  moreover have "map task_id (update_rows ?P ?f rows) = map task_id rows" for rows
    by (rule map_update_rows) simp
  moreover have "execution_keys (update_rows ?P ?f rows) = execution_keys rows" for rows
    by (induction rows) (auto simp: execution_keys_def update_rows_def)
  ultimately show ?thesis using assms schema_okD(1,3) [OF assms]
    unfolding update_task_def by (intro schema_ok_task) simp_all
qed

lemma take_sequence_succeeds:
  assumes "schema_ok db" "find_task t db = Some r"
  obtains db' where "take_sequence t db = Inr (next_command_sequence r + 1, db')"
proof -
  let ?db = "update_task t (\<lambda>r. r\<lparr>next_command_sequence := next_command_sequence r + 1\<rparr>) db"
  have "find_task t ?db = Some (r\<lparr>next_command_sequence := next_command_sequence r + 1\<rparr>)"
    using assms(2) by (auto simp: find_task_def update_task_def first_row_update_rows dest: first_row_SomeD)
  then show thesis using that schema_ok_counter [OF assms(1)]
    by (simp add: take_sequence_def checked_ok)
qed

lemma insert_stop_succeeds:
  assumes "db_inv db" "\<And>c. c \<in> set (task_command db) \<Longrightarrow> cmd_task_id c = cmd_task_id new \<Longrightarrow>
      cmd_sequence c < cmd_sequence new \<and> \<not> active_stop c"
    and "cmd_type new = CANCEL" "cmd_state new = PENDING" "cmd_claim_owner new = None" "cmd_claim_until new = None"
    "0 < cmd_sequence new"
  shows "insert_command new db = Inr (db\<lparr>task_command := task_command db @ [new]\<rparr>)"
proof -
  have s: "schema_ok db" using assms(1) by (simp add: db_inv_def)
  have "(cmd_task_id new, cmd_sequence new) \<notin> (\<lambda>c. (cmd_task_id c, cmd_sequence c)) ` set (task_command db)"
    using assms(2) by fastforce
  moreover have "cmd_task_id new \<notin> cmd_task_id ` {c \<in> set (task_command db). active_stop c}" using assms(2) by auto
  ultimately have "schema_ok (db\<lparr>task_command := task_command db @ [new]\<rparr>)"
    using s assms(3-) by (simp add: schema_ok_def schema_checks_def command_row_ok_def active_stop_def)
  then show ?thesis by (simp add: insert_command_def checked_ok)
qed

lemma execution_keys_replace:
  assumes "distinct (map task_id rows)" "r \<in> set rows" "spec row = spec r" "external_execution_id row = external_execution_id r"
  shows "execution_keys (update_rows (\<lambda>s. task_id s = task_id r) (\<lambda>_. row) rows) = execution_keys rows"
proof -
  have "(if task_id s = task_id r then row else s) = (if s = r then row else s)" if "s \<in> set rows" for s
    using unique_key_rows [OF assms(1) that assms(2)] by auto
  then have "update_rows (\<lambda>s. task_id s = task_id r) (\<lambda>_. row) rows = map (\<lambda>s. if s = r then row else s) rows"
    by (auto simp: update_rows_def)
  moreover have "execution_keys (map (\<lambda>s. if s = r then row else s) rs) = execution_keys rs" for rs
    using assms(3,4) by (induction rs) (auto simp: execution_keys_def)
  ultimately show ?thesis by simp
qed

text \<open>A transition to another live state breaks no constraint.\<close>

lemma live_transition_ok:
  assumes inv: "db_inv db" and ex: "find_task (tq_taskId q) db = Some r"
    and live: "\<not> isTerminalState (internal_state r)" "\<not> isTerminalState (given (up_internalState (tq_update q)) (internal_state r))"
    and upd: "up_externalExecutionId (tq_update q) = None"
    and rev: "case up_adapterRevision (tq_update q) of None \<Rightarrow> True | Some a \<Rightarrow> adapter_revision r < a"
    and sub: "case given (up_substate (tq_update q)) (substate r) of None \<Rightarrow> True | Some x \<Rightarrow> x \<in> set allowed_substates"
  shows "no_new_violation q r db"
proof -
  let ?row = "apply_update (tq_update q) (tq_observation q) r"
  from find_task_SomeD [OF ex] have mem: "r \<in> set (provider_task db)" and tid: "task_id r = tq_taskId q" by auto
  have s: "schema_ok db" using inv by (simp add: db_inv_def)
  then have ok: "task_row_ok r" using mem schema_okD(2) by (simp add: list_all_iff)
  then have "terminal_at r = None" using live by (simp add: task_row_ok_def retention_order_def)
  moreover have "0 \<le> given (up_adapterRevision (tq_update q)) (adapter_revision r)"
    using ok rev by (auto simp: task_row_ok_def split: option.splits)
  ultimately have "task_row_ok ?row" using ok live sub
    by (auto simp: task_row_ok_def retention_order_def apply_update_def Let_def)
  moreover have "distinct (execution_keys (provider_task (update_task (tq_taskId q) (\<lambda>_. ?row) db)))"
    using execution_keys_replace [OF schema_okD(1) [OF s] mem, of ?row] schema_okD(3) [OF s] upd tid
    by (simp add: update_task_def) (simp add: apply_update_def Let_def)
  ultimately show ?thesis using live by (simp add: no_new_violation_def Let_def)
qed

text \<open>A guarded transition of a live task returns in any case.\<close>

lemma live_transition_returns:
  assumes "db_inv db" "find_task (tq_taskId q) db = Some r" "tq_expectedVersion q = Some (version r)"
    "\<not> isTerminalState (internal_state r)" "\<not> isTerminalState (given (up_internalState (tq_update q)) (internal_state r))"
    "up_externalExecutionId (tq_update q) = None"
    "case up_adapterRevision (tq_update q) of None \<Rightarrow> True | Some a \<Rightarrow> adapter_revision r < a"
    "case given (up_substate (tq_update q)) (substate r) of None \<Rightarrow> True | Some x \<Rightarrow> x \<in> set allowed_substates"
  obtains ap row db' where "transitionTask q db = Inr ((row, ap), db')" "ap = (\<not> has_event (tq_eventKey q) db)"
    "ap \<Longrightarrow> row = apply_update (tq_update q) (tq_observation q) r"
proof (cases "has_event (tq_eventKey q) db")
  case True
  then show thesis using assms(2) by (intro that [of r False db]) (auto simp: transitionTask_def)
next
  case False
  then have "transition_guard q r db" using assms by (simp add: transition_guard_def)
  from transitionTask_succeeds [OF assms(1,2) this live_transition_ok [OF assms(1,2,4-8)]] False
  show thesis using that by blast
qed

lemma command_below_counter:
  assumes "db_inv db" "c \<in> set (task_command db)" "find_task (cmd_task_id c) db = Some r"
  shows "cmd_sequence c \<le> next_command_sequence r"
proof -
  from assms obtain r' where r': "r' \<in> set (provider_task db)" "task_id r' = cmd_task_id c"
    "cmd_sequence c \<le> next_command_sequence r'" by (auto simp: db_inv_def commands_inv_def)
  with find_task_mem [OF assms(1) r'(1)] assms(3) show ?thesis by simp
qed

text \<open>With no stop in force, a new stop command can be created and its transition returns.\<close>

lemma stop_can_be_created:
  assumes inv: "db_inv db" and ex: "find_task t db = Some r" and live: "\<not> isTerminalState (internal_state r)"
    and none: "active_stop_command t db = None"
  obtains n db1 db2 x db3 where "take_sequence t db = Inr (n, db1)" "insert_command (cancel_command env r n h) db1 = Inr db2"
    "transitionTask (cancel_request env r n) db2 = Inr (x, db3)"
proof -
  from find_task_SomeD [OF ex] have mem: "r \<in> set (provider_task db)" and tid: "task_id r = t" by auto
  have s: "schema_ok db" using inv by (simp add: db_inv_def)
  define n where "n = next_command_sequence r + 1"
  obtain db1 where run1: "take_sequence t db = Inr (n, db1)"
    using take_sequence_succeeds [OF s ex] n_def by blast
  note frame = take_sequence_frame [OF run1]
  have inv1: "db_inv db1" using safe_take_sequence [of db t] run1 inv by (simp add: keeps_def safe_rel_def)
  have find1: "find_task t db1 = Some (r\<lparr>next_command_sequence := n\<rparr>)" using frame ex by simp
  let ?c = "cancel_command env r n h"
  define db2 where "db2 = db1\<lparr>task_command := task_command db1 @ [?c]\<rparr>"
  have run2: "insert_command ?c db1 = Inr db2" unfolding db2_def
  proof (rule insert_stop_succeeds [OF inv1])
    fix c assume "c \<in> set (task_command db1)" "cmd_task_id c = cmd_task_id ?c"
    then have "c \<in> set (task_command db)" "cmd_task_id c = t" using frame tid by auto
    then show "cmd_sequence c < cmd_sequence ?c \<and> \<not> active_stop c"
      using command_below_counter [OF inv] ex none
      by (fastforce simp: n_def active_stop_command_def latest_row_None_iff less_Suc_eq_le)
  qed (simp_all add: n_def)
  have "saved_ok ?c" using saved_ok_stop [OF db_inv_row_ok [OF inv mem] live] by (simp add: cancel_command_def saved_ok_hash)
  then have "safe_db db1 (insert_command ?c db1)"
    using take_sequence_InrD [OF run1] tid by (intro safe_insert_command_op) simp_all
  then have inv2: "db_inv db2" using run2 inv1 by (simp add: keeps_def safe_rel_def)
  have find2: "find_task t db2 = Some (r\<lparr>next_command_sequence := n\<rparr>)"
    using find1 by (simp add: db2_def find_task_def)
  obtain x db3 where "transitionTask (cancel_request env r n) db2 = Inr (x, db3)"
    by (rule live_transition_returns [OF inv2, of "cancel_request env r n" "r\<lparr>next_command_sequence := n\<rparr>"])
      (use find2 tid live in \<open>auto simp: cancel_request_def no_update_def allowed_substates_def isTerminalState_iff\<close>)
  with run1 run2 that show thesis by blast
qed

lemma beginCancel_live:
  assumes "reachable_store db" "find_task t db = Some r" "\<not> isTerminalState (internal_state r)"
  shows "\<exists>res db' c. beginCancel env t h db = Inr (res, db') \<and> active_stop_command t db' = Some c \<and>
    cmd_sequence c = rs_sequence res \<and> rs_duplicate res = (active_stop_command t db \<noteq> None)"
proof (cases "active_stop_command t db")
  case (Some c)
  then have "beginCancel env t h db = Inr (mapCommandResolution c, duplicate_fact env c db)"
    using assms(2) by (simp add: beginCancel_def)
  then show ?thesis using beginCancel_stop [of env t h db] Some by (auto simp: mapCommandResolution_def)
next
  case None
  note inv = reachable_store_inv [OF assms(1)]
  then have s: "schema_ok db" by (simp add: db_inv_def)
  define db1 where "db1 = update_commands (waiting_normal t) (supersede env) db"
  define db2 where "db2 = fold (superseded_fact env False None) (filter (waiting_normal t) (task_command db)) db1"
  have run1: "checked (update_commands (waiting_normal t) (supersede env) db) = Inr db1"
    unfolding db1_def by (rule checked_ok [OF schema_ok_supersede [OF s]])
  have "safe_rel db db1"
    using safe_update_commands [of "waiting_normal t" "supersede env" db] run1
    by (auto simp: keeps_def supersede_def command_kept_def release_as_def)
  moreover have "safe_rel db1 db2" unfolding db2_def by (rule safe_fold [OF safe_superseded_fact])
  ultimately have inv2: "db_inv db2" using inv by (simp add: safe_rel_def)
  have facts: "only_facts db1 db2" unfolding db2_def by (rule only_facts_fold [OF only_facts_superseded])
  then have find2: "find_task t db2 = Some r"
    using assms(2) by (simp add: only_facts_simps db1_def find_task_def update_commands_def)
  have "active_stop_command t db2 = None" unfolding only_facts_simps(7) [OF facts]
    using None superseded_not_active
    by (auto simp: active_stop_command_def latest_row_None_iff db1_def update_commands_def elim!: in_set_update_rowsE)
  then obtain n db3 db4 x db5 where "take_sequence t db2 = Inr (n, db3)" "insert_command (cancel_command env r n h) db3 = Inr db4"
    "transitionTask (cancel_request env r n) db4 = Inr (x, db5)"
    using stop_can_be_created [OF inv2 find2 assms(3)] by blast
  then have "beginCancel env t h db = Inr (created_resolution n CANCEL, created_fact env t n CANCEL (Some ''USER_REQUESTED'') db5)"
    using None assms(2,3) run1 by (simp add: beginCancel_def db2_def cancel_command_def split: prod.splits)
  then show ?thesis using beginCancel_stop [of env t h db] None by (auto simp: created_resolution_def)
qed

text \<open>C5. A live task can always be stopped: in every reachable store, cancelling a task that is not terminal returns,
  whatever commands are waiting or claimed, and afterwards a stop command with the returned sequence
  number is in force; it is a new one exactly when none was in force before.\<close>

theorem cancel_always_stops:
  assumes "reachable_store db" "find_task t db = Some r" "\<not> isTerminalState (internal_state r)"
  shows "\<exists>res db' c. beginCancel env t h db = Inr (res, db') \<and> active_stop_command t db' = Some c \<and>
    cmd_sequence c = rs_sequence res \<and> rs_duplicate res = (active_stop_command t db \<noteq> None)"
  using beginCancel_live [OF assms] .

section \<open>Claims\<close>

lemma only_facts_claimed: "only_facts db (claimed_fact env c db)"
  by (simp add: claimed_fact_def only_facts_command_fact)

lemma claimDueCommands_InrE:
  assumes "claimDueCommands env avail at owner lease limit db = Inr (cs, db')"
  obtains (lost) "cs = []" "db' = db"
  | (claimed) keys due before where "set due \<subseteq> set before"
      "distinct (map cmd_task_id (filter (\<lambda>c. cmd_state c = CLAIMED) (task_command db')))"
      "distinct (map (\<lambda>c. (cmd_task_id c, cmd_sequence c)) (task_command db'))"
      "cs = map (claim_command env owner (max at (clk env) + lease)) due"
      "keys = (\<lambda>c. (cmd_task_id c, cmd_sequence c)) ` set due"
      "\<And>c. c \<in> set due \<Longrightarrow> due_command (max at (clk env)) c"
      "distinct (map (\<lambda>c. (cmd_task_id c, cmd_sequence c)) before) \<Longrightarrow> distinct (map (\<lambda>c. (cmd_task_id c, cmd_sequence c)) due)"
      "before = update_rows (\<lambda>c. task_cancelling (cmd_task_id c) db \<and> is_normal c \<and> cmd_state c = CLAIMED \<and>
                  sql_le (cmd_claim_until c) (max at (clk env))) (supersede env) (task_command db)"
      "task_command db' = update_rows (\<lambda>c. (cmd_task_id c, cmd_sequence c) \<in> keys)
         (claim_command env owner (max at (clk env) + lease)) before"
proof -
  let ?at = "max at (clk env)"
  consider "cs = []" "db' = db" | "claim_due env avail ?at owner lease limit db = Inr (cs, db')"
    using assms by (auto simp: claimDueCommands_def split: sum.splits err.splits if_splits)
  then show thesis
  proof cases
    case 1
    then show thesis by (rule lost)
  next
    case 2
    from 2 obtain dbs where sup: "supersede_expired env ?at db = Inr dbs"
      by (auto simp: claim_due_def bind_err_Inr_iff)
    define due where "due = filter avail (order_limit cmd_task_id limit (filter (first_ranked ?at dbs) (task_command dbs)))"
    define P :: "command_row \<Rightarrow> bool" where "P = (\<lambda>c. (cmd_task_id c, cmd_sequence c) \<in> set (map (\<lambda>c. (cmd_task_id c, cmd_sequence c)) due))"
    from 2 sup obtain db1 where run: "checked (update_commands P (claim_command env owner (?at + lease)) dbs) = Inr db1"
      "cs = map (claim_command env owner (?at + lease)) due" "db' = fold (claimed_fact env) due db1"
      by (auto simp: claim_due_def bind_err_Inr_iff Let_def due_def P_def)
    have facts: "only_facts db1 db'" unfolding run(3) by (rule only_facts_fold [OF only_facts_claimed])
    show thesis
    proof (rule claimed)
      show "set due \<subseteq> set (task_command dbs)" unfolding due_def using set_order_limit by fastforce
      show "cs = map (claim_command env owner (?at + lease)) due" by (rule run(2))
      show "due_command ?at c" if "c \<in> set due" for c
        using that set_order_limit unfolding due_def by (fastforce simp: first_ranked_def claimable_def)
      show "distinct (map (\<lambda>c. (cmd_task_id c, cmd_sequence c)) due)"
        if "distinct (map (\<lambda>c. (cmd_task_id c, cmd_sequence c)) (task_command dbs))"
        unfolding due_def by (intro distinct_map_filter distinct_order_limit that)
      show "task_command dbs = update_rows (\<lambda>c. task_cancelling (cmd_task_id c) db \<and> is_normal c \<and> cmd_state c = CLAIMED \<and>
          sql_le (cmd_claim_until c) ?at) (supersede env) (task_command db)"
        using sup by (auto simp: supersede_expired_def Let_def bind_err_Inr_iff checked_Inr_iff update_commands_def)
      show "task_command db' = update_rows (\<lambda>c. (cmd_task_id c, cmd_sequence c) \<in> (\<lambda>c. (cmd_task_id c, cmd_sequence c)) ` set due)
          (claim_command env owner (?at + lease)) (task_command dbs)"
        using run(1) facts by (auto simp: only_facts_simps checked_Inr_iff update_commands_def P_def)
      show "distinct (map cmd_task_id (filter (\<lambda>c. cmd_state c = CLAIMED) (task_command db')))"
        "distinct (map (\<lambda>c. (cmd_task_id c, cmd_sequence c)) (task_command db'))"
        using run(1) schema_okD(5,6) by (auto simp: only_facts_simps(2) [OF facts] checked_Inr_iff)
    qed (rule refl)
  qed
qed


lemma claimed_command_mem:
  assumes "claimDueCommands env avail at owner lease limit db = Inr (cs, db')" "c \<in> set cs"
  shows "c \<in> set (task_command db') \<and> cmd_state c = CLAIMED \<and> cmd_claim_owner c = Some owner \<and>
    cmd_claim_until c = Some (max at (clk env) + lease)"
  using assms(1)
proof (cases rule: claimDueCommands_InrE)
  case lost
  with assms(2) show ?thesis by simp
next
  case (claimed keys due before)
  then show ?thesis using assms(2) by (auto simp: set_update_rows claim_command_def)
qed

lemma claimed_pkey:
  assumes "claimDueCommands env avail at owner lease limit db = Inr (cs, db')" "c \<in> set cs"
  shows "distinct (map (\<lambda>c. (cmd_task_id c, cmd_sequence c)) (task_command db'))"
  using assms by (cases rule: claimDueCommands_InrE) auto

text \<open>C3. Commands are claimed exclusively: the commands a dispatcher receives are claimed in the store under its name
  until the end of its lease, they belong to pairwise different tasks, and a command whose claim by another
  dispatcher has not run out is left exactly as it was.\<close>

theorem claims_are_exclusive:
  assumes "reachable_store db" "claimDueCommands env avail at owner lease limit db = Inr (cs, db')"
  shows "(\<forall>c \<in> set cs. c \<in> set (task_command db') \<and> cmd_state c = CLAIMED \<and> cmd_claim_owner c = Some owner \<and>
        cmd_claim_until c = Some (max at (clk env) + lease)) \<and> distinct (map cmd_task_id cs) \<and>
    (\<forall>d \<in> set (task_command db). cmd_state d = CLAIMED \<and> sql_gt (cmd_claim_until d) (max at (clk env)) \<longrightarrow>
        d \<in> set (task_command db'))"
  using assms(2)
proof (cases rule: claimDueCommands_InrE)
  case lost
  then show ?thesis by simp
next
  case (claimed keys due before)
  let ?pk = "\<lambda>c :: command_row. (cmd_task_id c, cmd_sequence c)"
  have mem: "\<forall>c \<in> set cs. c \<in> set (task_command db') \<and> cmd_state c = CLAIMED \<and> cmd_claim_owner c = Some owner \<and>
      cmd_claim_until c = Some (max at (clk env) + lease)"
    using claimed_command_mem [OF assms(2)] by blast
  have "distinct (map ?pk (task_command db))"
    using reachable_store_inv [OF assms(1)] by (simp add: db_inv_def schema_okD)
  then have before: "distinct (map ?pk before)" unfolding claimed(8)
    by (subst map_update_rows) (auto simp: supersede_def release_as_def)
  have "distinct (map ?pk cs)" using claimed(7) [OF before]
    unfolding claimed(4) by (simp add: claim_command_def comp_def)
  moreover have "c = d" if "c \<in> set cs" "d \<in> set cs" "cmd_task_id c = cmd_task_id d" for c d
    using distinct_filter_unique [OF claimed(2)] mem that by blast
  ultimately have tasks: "distinct (map cmd_task_id cs)" by (auto simp: distinct_map inj_on_def)
  have kept: "d \<in> set (task_command db')"
    if d: "d \<in> set (task_command db)" "cmd_state d = CLAIMED" "sql_gt (cmd_claim_until d) (max at (clk env))" for d
  proof -
    have late: "\<not> sql_le (cmd_claim_until d) (max at (clk env))"
      using d(3) by (auto simp: sql_le_def sql_gt_def split: option.splits)
    with d have "d \<in> set before" unfolding claimed(8) by (simp add: set_update_rows)
    moreover from this have "?pk d \<notin> keys"
      using unique_key_rows [OF before] claimed(1,5) claimed(6) [of d] late d(2)
      by (auto simp: due_command_def)
    ultimately show ?thesis unfolding claimed(9) by (simp add: set_update_rows)
  qed
  show ?thesis using mem tasks kept by blast
qed

text \<open>C4. A claim fences out earlier holders: once a dispatcher has received a command, whoever else still believes to
  hold it can neither start, renew, retry, reject nor acknowledge it; each of these fails with
  \<^verbatim>\<open>COMMAND_CLAIM_LOST\<close> and so changes nothing.\<close>

theorem claim_fences_out:
  assumes "claimDueCommands env avail at owner lease limit db = Inr (cs, db')" "c \<in> set cs"
    and "cmd_task_id held = cmd_task_id c" "cmd_sequence held = cmd_sequence c" "cmd_claim_owner held \<noteq> Some owner"
  shows "recordCommandStarted env' held db' = Inl (Error ''COMMAND_CLAIM_LOST'') \<and>
    renewCommandClaim env' held lease' db' = Inl (Error ''COMMAND_CLAIM_LOST'') \<and>
    retryClaimedCommand env' held at' code message db' = Inl (Error ''COMMAND_CLAIM_LOST'') \<and>
    rejectClaimedCommand env' held code message db' = Inl (Error ''COMMAND_CLAIM_LOST'') \<and>
    acknowledgeClaimedCommand env' held ack db' = Inl (Error ''COMMAND_CLAIM_LOST'')"
proof -
  have "\<not> owned held d" if "d \<in> set (task_command db')" for d
  proof
    assume "owned held d"
    then have "(cmd_task_id d, cmd_sequence d) = (cmd_task_id c, cmd_sequence c)" "cmd_claim_owner d \<noteq> Some owner"
      using assms(3-) by (auto simp: owned_def is_command_def)
    with unique_key_rows [OF claimed_pkey [OF assms(1,2)] that] claimed_command_mem [OF assms(1,2)] show False by blast
  qed
  then have none: "row_count (\<lambda>d. owned held d \<and> P d) (task_command db') = 0" for P
    by (simp add: row_count_def filter_False)
  have "update_owned held P f db' = Inl (Error ''COMMAND_CLAIM_LOST'')" for P f
    by (simp add: update_owned_def none)
  then show ?thesis using none [of "\<lambda>_. True"]
    by (simp add: recordCommandStarted_def renewCommandClaim_def retryClaimedCommand_def rejectClaimedCommand_def
        acknowledgeClaimedCommand_def)
qed

section \<open>Snapshots\<close>

lemma exhausted_facts_commands [simp]: "task_command (fold (exhausted_fact env) cs db) = task_command db"
  by (rule only_facts_simps(2) [OF only_facts_fold]) (simp add: exhausted_fact_def only_facts_command_fact)

lemma upsert_frame:
  assumes "upsertInputRequests t inputs db = Inr db'"
  shows "provider_task db' = provider_task db \<and> task_command db' = task_command db"
proof -
  have "provider_task db' = provider_task db \<and> task_command db' = task_command db"
    if "upsertInputRequest t i db = Inr db'" for i db db'
    using that by (auto simp: upsertInputRequest_def Let_def checked_Inr_iff split: option.splits if_splits)
  then show ?thesis using assms unfolding upsertInputRequests_def
  proof (induction inputs arbitrary: db)
    case (Cons i inputs)
    then obtain db1 where "upsertInputRequest t i db = Inr db1" "fold_err (upsertInputRequest t) inputs db1 = Inr db'"
      by (auto simp: bind_err_Inr_iff)
    with Cons.IH [of db1] Cons.prems(1) show ?case by metis
  qed simp
qed

lemma applySnapshot_newerE:
  assumes "applySnapshot env t revision transition inputs db = Inr (r', db')"
    "find_task t db = Some r" "\<not> isTerminalState (internal_state r)" "adapter_revision r < revision"
  obtains ap db1 db2 where "transitionTask (snapshot_request env r revision transition) db = Inr ((r', ap), db1)"
    "provider_task db2 = provider_task db1" "task_command db2 = task_command db1"
    "(if tn_terminal transition then exhaust_all env t db2 else Inr db2) = Inr db'"
proof -
  from assms obtain ap db1 db2 where run: "transitionTask (snapshot_request env r revision transition) db = Inr ((r', ap), db1)"
    "upsertInputRequests t inputs db1 = Inr db2"
    "(if tn_terminal transition then exhaust_all env t db2 else Inr db2) = Inr db'"
    unfolding applySnapshot_def assms(2) option.case bind_err_Inr_iff by (auto simp: bind_err_Inr_iff)
  with upsert_frame [OF run(2)] that show thesis by blast
qed

lemma confirmed_task:
  assumes "find_task t db = Some r"
  shows "find_task t (update_task t (\<lambda>r. r\<lparr>last_confirmed_at := at\<rparr>) db) = Some (r\<lparr>last_confirmed_at := at\<rparr>)"
  using assms by (auto simp: find_task_def update_task_def first_row_update_rows dest: first_row_SomeD)

lemma applySnapshot_known:
  assumes "applySnapshot env t revision transition inputs db = Inr (r', db')" "find_task t db = Some r"
    "isTerminalState (internal_state r) \<or> revision \<le> adapter_revision r"
  shows "r' = r \<or> r' = r\<lparr>last_confirmed_at := Some (now env)\<rparr>"
proof (cases "isTerminalState (internal_state r) \<or> revision < adapter_revision r")
  case True
  with assms(1,2) show ?thesis by (simp add: applySnapshot_def)
next
  case False
  let ?db = "update_task t (\<lambda>r. r\<lparr>last_confirmed_at := Some (now env)\<rparr>) db"
  from False assms(2,3) have "applySnapshot env t revision transition inputs db =
      bind_err (checked ?db) (\<lambda>db. case find_task t db of
        None \<Rightarrow> Inl (Error ''TASK_CONFIRMATION_NOT_RETURNED'') | Some r \<Rightarrow> Inr (r, db))"
    by (simp add: applySnapshot_def)
  with assms(1) confirmed_task [OF assms(2)] show ?thesis
    by (cases "schema_ok ?db") (auto simp: bind_err_Inr_iff checked_Inr_iff)
qed

text \<open>Snapshots are applied in the order of their revisions: a snapshot of a finished task or with an older
  revision than the stored one changes nothing, one with the stored revision only refreshes the time of
  confirmation, so what a client sees never goes back to an older state of the adapter.\<close>

theorem stale_snapshot_ignored:
  assumes "find_task t db = Some r"
  shows "(isTerminalState (internal_state r) \<or> revision < adapter_revision r \<longrightarrow>
      applySnapshot env t revision transition inputs db = Inr (r, db)) \<and>
    (\<not> isTerminalState (internal_state r) \<and> revision = adapter_revision r \<and> schema_ok db \<longrightarrow>
      applySnapshot env t revision transition inputs db =
        Inr (r\<lparr>last_confirmed_at := Some (now env)\<rparr>, update_task t (\<lambda>r. r\<lparr>last_confirmed_at := Some (now env)\<rparr>) db))"
proof -
  let ?f = "\<lambda>r. r\<lparr>last_confirmed_at := Some (now env)\<rparr>" and ?P = "\<lambda>r. task_id r = t"
  have "schema_ok (update_task t ?f db)" if s: "schema_ok db"
  proof -
    have "task_row_ok (?f r) = task_row_ok r" for r by (simp add: task_row_ok_def retention_order_def)
    then have "list_all task_row_ok (update_rows ?P ?f (provider_task db))"
      using schema_okD(2) [OF s] by (auto simp: list_all_iff set_update_rows)
    moreover have "map task_id (update_rows ?P ?f rows) = map task_id rows" for rows
      by (rule map_update_rows) simp
    moreover have "execution_keys (update_rows ?P ?f rows) = execution_keys rows" for rows
      by (induction rows) (auto simp: execution_keys_def update_rows_def)
    ultimately show ?thesis using s schema_okD(1,3) [OF s] unfolding update_task_def by (intro schema_ok_task) simp_all
  qed
  then show ?thesis using assms confirmed_task [OF assms] by (auto simp: applySnapshot_def checked_ok)
qed

text \<open>C6. A snapshot does not undo a stop: while a stop is requested, a newer snapshot that is not terminal leaves
  the task's state, status, substate, result, error, cancellation flag and stop reason as they were.\<close>

theorem snapshot_keeps_stop:
  assumes "applySnapshot env t revision transition inputs db = Inr (r', db')"
    and "find_task t db = Some r" "cancel_requested r \<or> row_stop_reason r \<noteq> None" "\<not> tn_terminal transition"
  shows "internal_state r' = internal_state r \<and> mcp_status r' = mcp_status r \<and> substate r' = substate r \<and>
    result r' = result r \<and> error r' = error r \<and> cancel_requested r' = cancel_requested r \<and>
    row_stop_reason r' = row_stop_reason r"
proof (cases "isTerminalState (internal_state r) \<or> revision \<le> adapter_revision r")
  case True
  then show ?thesis using applySnapshot_known [OF assms(1,2)] by auto
next
  case False
  then obtain ap db1 where "transitionTask (snapshot_request env r revision transition) db = Inr ((r', ap), db1)"
    using applySnapshot_newerE [OF assms(1,2)] by (metis not_le)
  then show ?thesis
  proof (cases rule: transitionTask_InrE)
    case skipped
    with assms(2) find_task_SomeD [OF assms(2)] show ?thesis by (simp add: snapshot_request_def)
  next
    case (applied existing)
    have "tq_taskId (snapshot_request env r revision transition) = t"
      using find_task_SomeD [OF assms(2)] by (simp add: snapshot_request_def)
    with applied(1) assms(2) have "existing = r" by simp
    with applied(4) assms(3,4) show ?thesis
      by (auto simp: snapshot_request_def apply_update_def Let_def transition_update_def mergeStopState_def no_update_def)
  qed
qed

text \<open>A terminal snapshot ends delivery: after a newer terminal snapshot no command of the task is
  pending, waiting for a retry or claimed.\<close>

theorem terminal_snapshot_ends_delivery:
  assumes "applySnapshot env t revision transition inputs db = Inr (r', db')"
    and "find_task t db = Some r" "\<not> isTerminalState (internal_state r)" "adapter_revision r < revision" "tn_terminal transition"
  shows "listPendingCommands t db' = []"
proof -
  obtain db2 where "exhaust_all env t db2 = Inr db'"
    using applySnapshot_newerE [OF assms(1-4)] assms(5) by metis
  then have "task_command db' = update_rows (deliverable t)
      (\<lambda>c. release_as env EXHAUSTED (Some ''TASK_TERMINAL'') (cmd_last_error_message c) c) (task_command db2)"
    by (auto simp: exhaust_all_def bind_err_Inr_iff checked_Inr_iff update_commands_def)
  then have "\<not> (cmd_task_id c = t \<and> cmd_state c \<in> {PENDING, CLAIMED, RETRY_WAIT})" if "c \<in> set (task_command db')" for c
    using that by (auto simp: deliverable_def release_as_def elim!: in_set_update_rowsE)
  then have "filter (\<lambda>c. cmd_task_id c = t \<and> cmd_state c \<in> {PENDING, CLAIMED, RETRY_WAIT}) (task_command db') = []"
    by (auto simp: filter_empty_conv)
  then show ?thesis by (simp only: listPendingCommands_def sort_key_simps)
qed

end
