(* ===== verification/Worker_Lemmas.thy ===== *)
theory Worker_Lemmas
  imports Worker Control_Theorems
begin

text \<open>What is shared by the proofs about workers and handlers: reading off a call, the store a call finds, programs that leave the adapter alone, and
  what a run of the store keeps of final tasks.\<close>

section \<open>Calls\<close>

lemma call_InrE:
  assumes "call ctx op s = (Inr v, s')"
  obtains db' where "op (w_turn s) (wc_env ctx (w_turn s)) (w_db (settle_others ctx s)) = Inr (v, db')" "w_db s' = db'"
  using assms by (auto simp: call_def Let_def split: sum.splits prod.splits)

lemma read_store_InrD:
  assumes "read_store ctx f s = (Inr v, s')"
  shows "v = f (wc_env ctx (w_turn s)) (w_db s')"
  using assms by (auto simp: read_store_def call_def Let_def)

lemma settle_reachable:
  assumes "others_step ctx" "reachable_store (w_db s)"
  shows "reachable_store (w_db (settle_others ctx s))"
  using assms by (auto simp: others_step_def settle_others_def reachable_store_def intro: rtranclp_trans)

section \<open>Programs that leave the adapter alone\<close>

text \<open>Nothing outside the store changes: the program makes no call of the gateway.\<close>

definition same_rest :: "'w world \<Rightarrow> 'w world \<Rightarrow> bool" where
  "same_rest s s' = (w_rest s' = w_rest s)"

interpretation silent: world_order same_rest
  by unfold_locales (auto simp: same_rest_def)

lemma silent_call: "silent.stays (call ctx op)"
  by (simp add: silent.stays_def same_rest_def call_def settle_others_def Let_def split: sum.splits prod.splits)

lemma silent_read: "silent.stays (read_store ctx f)"
  unfolding read_store_def by (rule silent_call)

section \<open>Final tasks\<close>

text \<open>A task that was final is still there, unchanged in state, result and error.\<close>

definition finals_kept :: "db \<Rightarrow> db \<Rightarrow> bool" where
  "finals_kept db db' =
     (\<forall>row \<in> set (provider_task db). isTerminalState (internal_state row) \<longrightarrow>
        (\<exists>row'. find_task (task_id row) db' = Some row' \<and> internal_state row' = internal_state row \<and>
           result row' = result row \<and> error row' = error row))"

lemma finals_keptD:
  assumes "finals_kept db db'" "find_task t db = Some row" "isTerminalState (internal_state row)"
  obtains row' where "find_task t db' = Some row'" "internal_state row' = internal_state row" "result row' = result row" "error row' = error row"
  using assms find_task_SomeD [OF assms(2)] by (auto simp: finals_kept_def)

lemma runs_keep_finals:
  assumes "runs.stays m" "m s = (r, s')" "reachable_store (w_db s)"
  shows "reachable_store (w_db s') \<and> repo_step\<^sup>*\<^sup>* (w_db s) (w_db s') \<and> finals_kept (w_db s) (w_db s')"
proof -
  have run: "reachable_store (w_db s') \<and> repo_step\<^sup>*\<^sup>* (w_db s) (w_db s')" using runs_reachable [OF assms] .
  have "\<exists>row'. find_task (task_id row) (w_db s') = Some row' \<and> internal_state row' = internal_state row \<and> result row' = result row \<and> error row' = error row"
    if "row \<in> set (provider_task (w_db s))" "isTerminalState (internal_state row)" for row
  proof -
    have "find_task (task_id row) (w_db s) = Some row" using find_task_mem [OF reachable_store_inv [OF assms(3)] that(1)] .
    then show ?thesis using later_row [OF assms(3) conjunct2 [OF run]] that(2) by (auto simp: row_evolves_def)
  qed
  then show ?thesis using run by (simp add: finals_kept_def)
qed

section \<open>Commands\<close>

lemma transition_commands: "transitionTask q db = Inr (x, db') \<Longrightarrow> task_command db' = task_command db"
  by (cases x) (auto elim!: transitionTask_InrE simp: transition_applied_def)

end
