(* ===== verification/Engine_Theorems.thy ===== *)
theory Engine_Theorems
  imports Engine Worker_Lemmas Adapter_Events
begin

text \<open>
  The engine's handlers: each is a run of the store whatever the adapter answers, callers without access learn nothing and change nothing, the
  detailed task of a stored task can always be shown, and a task stopped for its start window or deadline is reported as such.
\<close>

section \<open>Handlers are runs of the store\<close>

lemma own_completion_ok: "transition_ok (own_completion message r observation)"
  by (simp add: own_completion_def transition_defs)

lemma stopTransition_ok: "stopTransition env raw task operation snapshot at = Inr t \<Longrightarrow> transition_ok t"
  using own_completion_ok validatedSnapshotTransition_ok
  by (fastforce simp: stopTransition_def deadlineReached_def startWindowMissedStop_def startWindowMissedWithAdapterResultTransition_def
      Let_def bind_err_Inr_iff split: if_splits)

lemma runs_with_env: "runs.stays (with_env ctx f)"
  by (simp add: runs.stays_def with_env_def store_run_def)

lemma runs_read_err: "others_step ctx \<Longrightarrow> runs.stays (read_err ctx f)"
  unfolding read_err_def by (rule runs_call) (auto simp: bind_err_Inr_iff)

lemmas runs_reads = runs_with_env runs_read_err runs_read runs_remote

lemma runs_uncertain: "others_step ctx \<Longrightarrow> runs.stays (uncertain ctx t e)"
  unfolding uncertain_def by (intro runs.stays_intros runs_step) (assumption | erule repo_step.intros)+

lemma runs_engine_start: "runs.stays (start_call ctx gw request arguments attempt timing ref)"
  unfolding start_call_def by (intro runs.stays_intros runs_with_env runs_remote)

text \<open>A transition is used only where it was computed; the program after it may rely on its being well-formed.\<close>

lemma stays_with_env:
  assumes "\<And>env v. f env = Inr v \<Longrightarrow> runs.stays (k v)"
  shows "runs.stays (andThen (with_env ctx f) k)"
  using assms by (auto simp: runs.stays_def andThen_def with_env_def store_run_def split: sum.splits)

lemma runs_publish:
  "others_step ctx \<Longrightarrow> transition_ok transition \<Longrightarrow>
     runs.stays (call ctx (\<lambda>_ env. publishAccepted env (publish_input intent anchors ext snapshot response transition inputs at)))"
  by (rule runs_step, assumption, erule publish_accepted [rotated]) (simp add: publish_input_def)

lemma runs_settle: "others_step ctx \<Longrightarrow> runs.stays (settle_snapshot ctx iv intent ext snapshot response guarded)"
  unfolding settle_snapshot_def Let_def
  by (rule stays_with_env, intro runs.stays_intros runs_uncertain runs_publish runs_step)
    (assumption | erule repo_step.intros | auto simp: validatedSnapshotTransition_ok)+

lemma runs_publishReconciled: "others_step ctx \<Longrightarrow> runs.stays (publishReconciled ctx iv intent ext snapshot response)"
  unfolding publishReconciled_def by (intro runs.stays_intros runs_settle)

lemma runs_start_immediate: "others_step ctx \<Longrightarrow> runs.stays (start_immediate ctx gw iv intent)"
  unfolding start_immediate_def Let_def
  by (intro runs.stays_intros runs_engine_start runs_uncertain runs_settle runs_step) (assumption | erule repo_step.intros)+

lemma runs_resume: "others_step ctx \<Longrightarrow> runs.stays (resume_admission ctx gw iv intent)"
  unfolding resume_admission_def Let_def by (intro runs.stays_intros runs_reads runs_publishReconciled)

lemma runs_resumed:
  assumes "others_step ctx"
  shows "runs.stays (case resumed of settled r \<Rightarrow> ret r
      | start_anew \<Rightarrow> (case tm_start (iv_timing iv) of
          scheduled _ _ \<Rightarrow> andThen (call ctx (\<lambda>_ env. publishScheduled env intent)) (\<lambda>task. ret (tool_task (fresh_task task [] no_page)))
        | immediate _ \<Rightarrow> start_immediate ctx gw iv intent))"
proof -
  have "runs.stays (andThen (call ctx (\<lambda>_ env. publishScheduled env intent)) (\<lambda>task. ret (tool_task (fresh_task task [] no_page))))"
    by (intro runs.stays_intros runs_step assms) (erule repo_step.intros)
  then show ?thesis using runs_start_immediate [OF assms]
    by (auto split: resumed.splits TimingStart.splits intro: runs.stays_ret)
qed

lemma runs_execute_task: "others_step ctx \<Longrightarrow> runs.stays (execute_task ctx en gw iv snapshotId)"
  unfolding execute_task_def Let_def
  by (intro runs.stays_andThen runs.stays_if runs.stays_ret runs_resume runs_resumed runs_step) (assumption | erule repo_step.intros)+

lemma runs_executeOperation: "others_step ctx \<Longrightarrow> runs.stays (executeOperation ctx en gw iv)"
  unfolding executeOperation_def by (intro runs.stays_intros runs_engine_start runs_reads runs_execute_task)

lemma runs_recoverAdmission: "others_step ctx \<Longrightarrow> runs.stays (recoverAdmission ctx en gw admission operation)"
  unfolding recoverAdmission_def by (rule runs_executeOperation)

lemma runs_validateTaskSnapshot: "others_step ctx \<Longrightarrow> runs.stays (validateTaskSnapshot ctx task name snapshot)"
  unfolding validateTaskSnapshot_def by (intro runs.stays_intros runs_step) (assumption | erule repo_step.intros)+

lemma runs_apply_snapshot: "others_step ctx \<Longrightarrow> runs.stays (apply_task_snapshot ctx task operation snapshot)"
  unfolding apply_task_snapshot_def
  by (rule runs.stays_andThen [OF runs_validateTaskSnapshot], assumption, rule stays_with_env,
      intro runs.stays_andThen runs.stays_lift runs_step, assumption, erule apply_snapshot [OF stopTransition_ok])

lemma runs_reconcileTask: "others_step ctx \<Longrightarrow> runs.stays (reconcileTask ctx gw task operation)"
  unfolding reconcileTask_def Let_def
  by (intro runs.stays_intros runs_remote runs_apply_snapshot runs_step) (assumption | erule repo_step.intros)+

lemma runs_page: "others_step ctx \<Longrightarrow> runs.stays (page_of_task ctx t)"
  unfolding page_of_task_def by (intro runs.stays_intros runs_reads)

lemma runs_getTask: "others_step ctx \<Longrightarrow> runs.stays (getTask ctx gw t a)"
  unfolding getTask_def Let_def by (intro runs.stays_intros runs_reads runs_page runs_apply_snapshot)

lemma runs_frozen: "others_step ctx \<Longrightarrow> runs.stays (getFrozenTask ctx t a projection)"
    "others_step ctx \<Longrightarrow> runs.stays (getFrozenTasks ctx ts a)"
    "others_step ctx \<Longrightarrow> runs.stays (getTaskObservations ctx t a cursor limit)"
    "others_step ctx \<Longrightarrow> runs.stays (getTaskResult ctx t a)"
  unfolding getFrozenTask_def getFrozenTasks_def getTaskObservations_def getTaskResult_def
  by (intro runs.stays_intros runs_reads; assumption)+

lemma runs_receipt: "others_step ctx \<Longrightarrow> runs.stays (taskWithCommandReceipt ctx t a command)"
    "others_step ctx \<Longrightarrow> runs.stays (taskSnapshot ctx t a)"
  unfolding taskWithCommandReceipt_def taskSnapshot_def by (intro runs.stays_intros runs_reads runs_page; assumption)+

lemma runs_resolve: "others_step ctx \<Longrightarrow> runs.stays (resolveExistingCommand ctx t a requested command)"
  unfolding resolveExistingCommand_def
  by (cases "rs_state command") (auto intro!: runs.stays_intros runs_receipt)

lemma runs_cancels: "others_step ctx \<Longrightarrow> runs.stays (cancelTaskCooperatively ctx t a)"
    "others_step ctx \<Longrightarrow> runs.stays (cancelTask ctx t a)"
  unfolding cancelTaskCooperatively_def cancelTask_def
  by (intro runs.stays_intros runs_reads runs_step, (assumption | erule repo_step.intros)+)+

lemma runs_controlTask: "others_step ctx \<Longrightarrow> runs.stays (controlTask ctx t ty a)"
  unfolding controlTask_def
  by (intro runs.stays_intros runs_reads runs_resolve runs_receipt runs_step) (assumption | erule repo_step.intros)+

lemma runs_updateTask: "others_step ctx \<Longrightarrow> runs.stays (updateTask ctx t answers a)"
  unfolding updateTask_def
  by (intro runs.stays_intros runs_reads runs_resolve runs_receipt runs_step) (assumption | erule repo_step.intros)+

lemma runs_responses: "others_step ctx \<Longrightarrow> runs.stays (updateTaskInputResponses ctx t responses a)"
  unfolding updateTaskInputResponses_def
  by (intro runs.stays_intros runs_reads runs_step) (assumption | erule repo_step.intros)+

lemma runs_availability: "runs.stays (checkAvailability ctx en gw checks a)"
  unfolding checkAvailability_def by (intro runs.stays_intros runs_with_env runs_remote)

text \<open>What a handler leaves behind.\<close>

definition store_kept :: "'w world \<Rightarrow> (err + 'a) \<times> 'w world \<Rightarrow> bool" where
  "store_kept s out = (reachable_store (w_db (snd out)) \<and> finals_kept (w_db s) (w_db (snd out)))"

lemma runs_store_kept: "runs.stays m \<Longrightarrow> reachable_store (w_db s) \<Longrightarrow> store_kept s (m s)"
  using runs_keep_finals [of m s "fst (m s)" "snd (m s)"] by (simp add: store_kept_def)

text \<open>Whatever the adapter answers, whatever fails and whatever operations of the repository other replicas run in between, a call of the engine that starts an operation,
  recovers an admission, reconciles or reads a task, or takes a cancellation, a control command or answers leaves a store that the repository's own
  operations can produce, in which every task that had ended still has its final state, result and error.\<close>

theorem engine_keeps_store:
  assumes "others_step ctx" "reachable_store (w_db s)"
  shows "store_kept s (executeOperation ctx en gw iv s) \<and>
    store_kept s (recoverAdmission ctx en gw admission operation s) \<and>
    store_kept s (reconcileTask ctx gw task operation s) \<and>
    store_kept s (getTask ctx egw t a s) \<and>
    store_kept s (getFrozenTask ctx t a projection s) \<and>
    store_kept s (getFrozenTasks ctx ts a s) \<and>
    store_kept s (getTaskObservations ctx t a cursor limit s) \<and>
    store_kept s (getTaskResult ctx t a s) \<and>
    store_kept s (cancelTask ctx t a s) \<and>
    store_kept s (cancelTaskCooperatively ctx t a s) \<and>
    store_kept s (controlTask ctx t ty a s) \<and>
    store_kept s (updateTask ctx t answers a s) \<and>
    store_kept s (updateTaskInputResponses ctx t responses a s) \<and>
    store_kept s (checkAvailability ctx en egw checks a s)"
  by (intro conjI runs_store_kept assms runs_executeOperation runs_recoverAdmission runs_reconcileTask runs_getTask runs_frozen runs_cancels
      runs_controlTask runs_updateTask runs_responses runs_availability)

section \<open>Callers without access\<close>

definition no_access :: "db \<Rightarrow> string \<Rightarrow> AuthorizationContext \<Rightarrow> bool" where
  "no_access db t a = list_all (\<lambda>r. task_id r = t \<longrightarrow> \<not> authorized a r) (provider_task db)"

lemma getAuthorized_denied: "no_access db t a \<Longrightarrow> getAuthorized env t a db = Inl TaskNotFoundOrUnauthorizedError"
proof -
  assume "no_access db t a"
  then have "first_row (\<lambda>r. task_id r = t \<and> authorized a r) (provider_task db) = None"
    by (auto simp: no_access_def list_all_iff first_row_def find_None_iff)
  then show ?thesis by (simp add: getAuthorized_def)
qed

lemma denied:
  "no_access (w_db (settle_others ctx s)) t a \<Longrightarrow>
     andThen (read_err ctx (\<lambda>env. getAuthorized env t a)) f s = (Inl TaskNotFoundOrUnauthorizedError, settle_others ctx s)"
  by (simp add: andThen_def read_err_def call_def Let_def getAuthorized_denied)

text \<open>A caller whose authorization context is not the task's gets the same answer as for a task that does not exist, from every
  operation on a single task: the store stays as the other replicas left it and the adapter is not called.\<close>

theorem wrong_caller_refused:
  assumes "no_access (w_db (settle_others ctx s)) t a"
  shows "getTask ctx gw t a s = (Inl TaskNotFoundOrUnauthorizedError, settle_others ctx s) \<and>
    getFrozenTask ctx t a projection s = (Inl TaskNotFoundOrUnauthorizedError, settle_others ctx s) \<and>
    getTaskObservations ctx t a cursor limit s = (Inl TaskNotFoundOrUnauthorizedError, settle_others ctx s) \<and>
    getTaskResult ctx t a s = (Inl TaskNotFoundOrUnauthorizedError, settle_others ctx s) \<and>
    cancelTask ctx t a s = (Inl TaskNotFoundOrUnauthorizedError, settle_others ctx s) \<and>
    cancelTaskCooperatively ctx t a s = (Inl TaskNotFoundOrUnauthorizedError, settle_others ctx s) \<and>
    controlTask ctx t ty a s = (Inl TaskNotFoundOrUnauthorizedError, settle_others ctx s) \<and>
    updateTask ctx t answers a s = (Inl TaskNotFoundOrUnauthorizedError, settle_others ctx s) \<and>
    updateTaskInputResponses ctx t responses a s = (Inl TaskNotFoundOrUnauthorizedError, settle_others ctx s)"
  unfolding getTask_def getFrozenTask_def getTaskObservations_def getTaskResult_def cancelTask_def cancelTaskCooperatively_def controlTask_def
    updateTask_def updateTaskInputResponses_def
  by (intro conjI denied assms)

section \<open>The detailed task\<close>

definition wire_limits :: "task_row \<Rightarrow> bool" where
  "wire_limits r =
     ((case handle_expires_at r of None \<Rightarrow> True | Some h \<Rightarrow> created_at r \<le> h \<and> h - created_at r \<le> 9007199254740991) \<and>
      runtime_revision r < 10 ^ 20)"

lemma wire_limits_pass:
  assumes "wire_limits r" "0 < runtime_revision r"
  shows "\<not> (case wireTtlMs r of None \<Rightarrow> False | Some t \<Rightarrow> \<not> isSafeInteger t \<or> t < 0)" "revision_format (show_nat (runtime_revision r))"
proof -
  show "\<not> (case wireTtlMs r of None \<Rightarrow> False | Some t \<Rightarrow> \<not> isSafeInteger t \<or> t < 0)"
    using assms(1) by (auto simp: wire_limits_def wireTtlMs_def isSafeInteger_def split: option.splits)
  show "revision_format (show_nat (runtime_revision r))"
    using assms hd_show_nat_pos [OF assms(2)] length_show_nat [of "runtime_revision r" 20] show_nat_digits
    by (auto simp: wire_limits_def revision_format_def list_all_iff)
qed

lemma detailed_base_keys:
  "obj_get (detailed_base r p) ''result'' = None" "obj_get (detailed_base r p) ''error'' = None"
  "obj_get (detailed_base r p) ''inputRequests'' = None" "obj_get (detailed_base r p) ''taskId'' = Some (JStr (task_id r))"
  "obj_get (detailed_base r p) ''status'' = Some (JStr (show_status (mcp_status r)))"
  by (cases p; simp add: detailed_base_def obj_get_def optional_field_def split: option.splits)+

lemma obj_get_append: "obj_get (xs @ ys) k = (case obj_get xs k of None \<Rightarrow> obj_get ys k | Some v \<Rightarrow> Some v)"
  by (simp add: obj_get_def map_add_def split: option.splits)

text \<open>What the client sees under a key of the detailed task.\<close>

definition shows_payload :: "task_row \<Rightarrow> json_object \<Rightarrow> bool" where
  "shows_payload r obj =
     (obj_get obj ''taskId'' = Some (JStr (task_id r)) \<and> obj_get obj ''status'' = Some (JStr (show_status (mcp_status r))) \<and>
      obj_get obj ''result'' = (if mcp_status r = completed then map_option (\<lambda>v. JObj (obj_spread [(''resultType'', JStr ''complete'')] v)) (result r) else None) \<and>
      obj_get obj ''error'' = (if mcp_status r = failed then map_option JObj (error r) else None) \<and>
      (obj_get obj ''inputRequests'' \<noteq> None) = (mcp_status r = input_required))"

lemma mapTask_payload:
  assumes "mapTaskToDetailedTask r requests p = Inr obj" "p \<noteq> create"
  shows "shows_payload r obj"
  using assms
  by (cases "mcp_status r")
    (auto simp: mapTaskToDetailedTask_def Let_def shows_payload_def obj_get_append detailed_base_keys obj_get_def [of "[_]"] split: if_splits option.splits)

lemma mapTask_total:
  assumes "wire_limits r" "row_ok r" "0 < runtime_revision r"
  shows "(\<exists>obj. mapTaskToDetailedTask r requests p = Inr obj) = (p = create \<or> mcp_status r \<noteq> input_required \<or> open_requests requests \<noteq> [])"
  using wire_limits_pass [OF assms(1,3)] assms(2)
  by (cases "mcp_status r"; cases "result r"; cases "error r") (simp_all add: mapTaskToDetailedTask_def Let_def row_ok_def)

text \<open>The detailed task of every task of a reachable store can be built, unless the task waits for input and none of the requests is
  open; and it shows the task's own status with exactly the payload of that status: the result of a completed task, the error of a failed one,
  requests while input is required.\<close>

theorem detailed_task_shown:
  assumes "reachable_store db" "r \<in> set (provider_task db)" "wire_limits r"
  shows "(\<exists>obj. mapTaskToDetailedTask r requests p = Inr obj) = (p = create \<or> mcp_status r \<noteq> input_required \<or> open_requests requests \<noteq> []) \<and>
    (\<forall>obj. mapTaskToDetailedTask r requests p = Inr obj \<longrightarrow> p \<noteq> create \<longrightarrow> shows_payload r obj)"
proof -
  note inv = reachable_store_inv [OF assms(1)]
  from inv assms(2) have "task_row_ok r" by (auto simp: db_inv_def dest!: schema_okD(2) simp: list_all_iff)
  then have "0 < runtime_revision r" by (simp add: task_row_ok_def)
  then show ?thesis using mapTask_total [OF assms(3) db_inv_row_ok [OF inv assms(2)]] mapTask_payload by blast
qed

section \<open>Stopped tasks\<close>

text \<open>A completion that the engine reports as an error with the given outcome.\<close>

definition reports :: "string \<Rightarrow> SnapshotTransition \<Rightarrow> bool" where
  "reports outcome t =
     (tn_internalState t = TERMINAL_COMPLETED \<and> tn_mcpStatus t = completed \<and> tn_terminal t \<and> tn_error t = None \<and>
      (case tn_result t of
         None \<Rightarrow> False
       | Some r \<Rightarrow> obj_get r ''isError'' = Some (JBool True) \<and>
           (case obj_get r ''structuredContent'' of
              Some (JObj content) \<Rightarrow> obj_get content ''outcome'' = Some (JStr outcome)
            | _ \<Rightarrow> False)))"

lemma reports_completions:
  "reports ''start_window_missed'' (own_completion m (startWindowMissed at m' extra) kind)"
  "reports ''deadline_reached'' (deadlineReached m at)"
  by (simp_all add: reports_def own_completion_def startWindowMissed_def deadlineReached_def obj_get_def)

text \<open>Once a task is being stopped because its start window was missed, whatever final state the adapter reports, success included, becomes
  an error result that says so; a cancellation confirmed for a deadline becomes the deadline's error result.\<close>

theorem stop_outcome_reported:
  assumes "stopTransition env raw task operation snapshot at = Inr t"
  shows "(row_stop_reason task = Some START_WINDOW_MISSED \<and> isTerminalTaskState (es_state snapshot) \<longrightarrow> reports ''start_window_missed'' t) \<and>
    (row_stop_reason task = Some DEADLINE_REACHED \<and> es_state snapshot = ''CANCELLED'' \<longrightarrow> reports ''deadline_reached'' t)"
  using assms reports_completions
  by (auto simp: stopTransition_def bind_err_Inr_iff startWindowMissedStop_def startWindowMissedWithAdapterResultTransition_def Let_def
      split: if_splits)

section \<open>Executions are remembered\<close>

definition admitted :: "string \<Rightarrow> db \<Rightarrow> bool" where
  "admitted t db = list_ex (\<lambda>a. in_taskId (ad_input a) = t) (admission_intent db)"

lemma admitted_kept:
  assumes "runs.stays m" "m s = (r, s')" "reachable_store (w_db s)" "admitted t (w_db s)"
  shows "admitted t (w_db s')"
proof -
  have "evolves (w_db s) (w_db s')" using runs_reachable [OF assms(1-3)] later_store [OF assms(3)] by blast
  then have "ad_input ` set (admission_intent (w_db s)) \<subseteq> ad_input ` set (admission_intent (w_db s'))"
    unfolding evolves_def by (metis Un_upper1 set_append set_map)
  then show ?thesis using assms(4) unfolding admitted_def list_ex_iff by (metis (no_types, lifting) image_iff subset_iff)
qed

lemma createAdmission_admits: "createAdmissionIntent env input db = Inr (v, db') \<Longrightarrow> admitted (in_taskId input) db'"
  by (auto simp: createAdmissionIntent_def admitted_def find_admission_def list_ex_iff split: if_splits dest: first_row_SomeD)

lemma andThen_cases:
  assumes "andThen m f s = (r, s')"
  obtains (stopped) e where "m s = (Inl e, s')" "r = Inl e" | (went) v s1 where "m s = (Inr v, s1)" "f v s1 = (r, s')"
  using assms by (auto simp: andThen_def split: prod.splits sum.splits)

text \<open>Every program that first commits the admission and then runs on the store either ends at once, with nothing sent to the adapter, or goes on
  from a store that holds the admission while the adapter has not been called yet.\<close>

lemma admission_first:
  assumes "others_step ctx" "reachable_store (w_db s)" "\<And>v. runs.stays (f v)"
    and "andThen (call ctx (\<lambda>_ env. createAdmissionIntent env intent)) f s = (r, s')" "w_rest s' \<noteq> w_rest s"
  shows "\<exists>inserted s1. call ctx (\<lambda>_ env. createAdmissionIntent env intent) s = (Inr inserted, s1) \<and>
    admitted (in_taskId intent) (w_db s1) \<and> w_rest s1 = w_rest s \<and> repo_step\<^sup>*\<^sup>* (w_db s1) (w_db s') \<and> admitted (in_taskId intent) (w_db s')"
  using assms(4)
proof (cases rule: andThen_cases)
  case (stopped e)
  have "same_rest s s'" using silent.staysD [OF silent_call stopped(1)] .
  with assms(5) show ?thesis by (simp add: same_rest_def)
next
  case (went v s1)
  have stays: "runs.stays (call ctx (\<lambda>_ env. createAdmissionIntent env intent))" by (intro runs_step assms(1)) (erule repo_step.intros)
  have reach: "reachable_store (w_db s1)" using runs_reachable [OF stays went(1) assms(2)] by blast
  have "admitted (in_taskId intent) (w_db s1)" using went(1) by (auto elim!: call_InrE dest: createAdmission_admits)
  moreover have "w_rest s1 = w_rest s" using silent.staysD [OF silent_call went(1)] by (simp add: same_rest_def)
  ultimately show ?thesis using went(1) admitted_kept [OF assms(3) went(2) reach] runs_reachable [OF assms(3) went(2) reach] by blast
qed

lemma runs_after_admission:
  assumes "others_step ctx"
  shows "runs.stays (andThen (if b then resume_admission ctx gw iv intent else ret start_anew) (\<lambda>resumed.
      case resumed of
        settled r \<Rightarrow> ret r
      | start_anew \<Rightarrow>
          (case tm_start (iv_timing iv) of
             scheduled _ _ \<Rightarrow> andThen (call ctx (\<lambda>_ env. publishScheduled env intent)) (\<lambda>task. ret (tool_task (fresh_task task [] no_page)))
           | immediate _ \<Rightarrow> start_immediate ctx gw iv intent)))"
  by (intro runs.stays_andThen runs.stays_if runs.stays_ret runs_resume runs_resumed assms)

text \<open>C7. An execution of an operation with tasks (one that is not synchronous: those have no task and nothing to recover) that may have been
  started is never forgotten.  In any run of the engine in which the adapter was reached, the first thing that happened was the commit of the admission: it
  succeeded, and the store it left held the admission while the adapter had not been called at all, so that a crash at any later moment finds it.  And
  however the run goes on, be the start refused, timed out, answered with nonsense or never published, the admission that recovery works from is
  still there at its end, whatever the operations of other replicas on the task store do in between; only the cleaner, which removes the admission together with
  a task that ended long ago, ever takes one away.\<close>

theorem start_is_remembered:
  assumes "others_step ctx" "reachable_store (w_db s)" "od_execution (vo_operation (iv_operation iv)) \<noteq> SYNCHRONOUS"
    and "executeOperation ctx en gw iv s = (r, s')" "w_rest s' \<noteq> w_rest s"
  shows "\<exists>snapshotId inserted s1. call ctx (\<lambda>_ env. createAdmissionIntent env (intent_of en iv snapshotId)) s = (Inr inserted, s1) \<and>
    admitted (iv_taskId iv) (w_db s1) \<and> w_rest s1 = w_rest s \<and> repo_step\<^sup>*\<^sup>* (w_db s1) (w_db s') \<and> admitted (iv_taskId iv) (w_db s')"
proof -
  obtain i where run: "execute_task ctx en gw iv i s = (r, s')"
    using assms(3-5) by (auto simp: executeOperation_def throw_def split: option.splits)
  have "in_taskId (intent_of en iv i) = iv_taskId iv" by (simp add: intent_of_def)
  with admission_first [OF assms(1,2) runs_after_admission [OF assms(1)] run [unfolded execute_task_def Let_def] assms(5)]
  show ?thesis by metis
qed

section \<open>Answers\<close>

text \<open>Only answers that may be delivered become an update command: every answer names a request of the task; it is delivered if that request
  is still unanswered and then satisfies the request's schema, and left out if the request was answered with the same value before.\<close>

theorem answers_checked:
  assumes "check_answers env compile requests compiled answers = Inr (allAnswers, pending)"
  shows "map (\<lambda>x. (an_key x, an_value x)) allAnswers = answers \<and>
    pending = filter (\<lambda>x. \<forall>q. first_row (\<lambda>q. ir_key q = an_key x) requests = Some q \<longrightarrow> ir_status q \<noteq> ANSWERED) allAnswers \<and>
    (\<forall>x \<in> set allAnswers. an_hash x = sha256 env (canonicalize (an_value x)) \<and>
      (\<exists>q. first_row (\<lambda>q. ir_key q = an_key x) requests = Some q \<and>
        (if ir_status q = ANSWERED then ir_answer_hash q = Some (an_hash x)
         else \<exists>seen valid. compile seen (schema_object (ir_schema q)) = Inr valid \<and> valid (an_value x))))"
  using assms
proof (induction answers arbitrary: compiled allAnswers pending)
  case (Cons kv rest)
  obtain k v where kv: "kv = (k, v)" by (cases kv)
  let ?x = "\<lparr>an_key = k, an_hash = sha256 env (canonicalize v), an_value = v\<rparr>"
  obtain q where q: "first_row (\<lambda>q. ir_key q = k) requests = Some q"
    using Cons.prems by (auto simp: kv split: option.splits)
  show ?case
  proof (cases "ir_status q = ANSWERED")
    case True
    then obtain xs where xs: "check_answers env compile requests compiled rest = Inr (xs, pending)" "allAnswers = ?x # xs"
        "ir_answer_hash q = Some (an_hash ?x)"
      using Cons.prems by (auto simp: kv q Let_def bind_err_Inr_iff split: if_splits)
    from Cons.IH [OF xs(1)] show ?thesis using xs(2,3) q True by (simp add: kv)
  next
    case False
    then obtain xs ps valid where xs: "check_answers env compile requests (compiled @ [schema_object (ir_schema q)]) rest = Inr (xs, ps)"
        "allAnswers = ?x # xs" "pending = ?x # ps" "compile compiled (schema_object (ir_schema q)) = Inr valid" "valid v"
      using Cons.prems by (auto simp: kv q Let_def bind_err_Inr_iff split: if_splits)
    from Cons.IH [OF xs(1)] show ?thesis using xs(2-5) q False by (auto simp: kv)
  qed
qed simp

end
