(* ===== verification/Idempotency.thy ===== *)
theory Idempotency
  imports Store
begin

text \<open>
  Idempotent invocations (\<^verbatim>\<open>packages/persistence-postgres/src/idempotency.ts\<close>): a record per key that is
  claimed under a lease, completed once with an outcome and returned to every later caller.  The callback that
  performs the invocation, and whatever other replicas do to the table meanwhile, are arguments.
\<close>

section \<open>Records\<close>

record IdempotencyInput =
  ii_authorization :: AuthorizationContext
  ii_operationName :: string
  ii_idempotencyKey :: string
  ii_argumentHash :: string

datatype StoredInvocation = task_outcome string | result_outcome json_object

type_synonym idem_key = "string \<times> string \<times> string \<times> string \<times> string"

datatype idem_state = IDEM_PENDING | IDEM_COMPLETE

record idem_row =
  ir_id :: idem_key
  ir_argument_hash :: string
  ir_stable_task_id :: string
  ir_state :: idem_state
  ir_task_id :: "string option"
  ir_result :: "json_object option"
  ir_lease_owner :: "string option"
  ir_lease_expires_at :: "instant option"
  ir_claim_attempt :: nat

type_synonym idem_table = "idem_row list"

definition keyValues :: "IdempotencyInput \<Rightarrow> idem_key" where
  "keyValues input =
     (au_hash (ii_authorization input), ii_operationName input, ii_idempotencyKey input,
      show_mode (au_executionMode (ii_authorization input)),
      (case au_simulationId (ii_authorization input) of None \<Rightarrow> [] | Some s \<Rightarrow> s))"

text \<open>\<^verbatim>\<open>idempotency_record_payload_check\<close>.\<close>

definition idem_row_ok :: "idem_row \<Rightarrow> bool" where
  "idem_row_ok r =
     (if ir_state r = IDEM_PENDING
      then ir_task_id r = None \<and> ir_result r = None \<and> ir_lease_owner r \<noteq> None \<and> ir_lease_expires_at r \<noteq> None
      else (ir_task_id r = None) \<noteq> (ir_result r = None) \<and> ir_lease_owner r = None \<and> ir_lease_expires_at r = None)"

definition completed_outcome :: "idem_row \<Rightarrow> err + StoredInvocation" where
  "completed_outcome r =
     (case ir_task_id r of
        Some t \<Rightarrow> Inr (task_outcome t)
      | None \<Rightarrow> (case ir_result r of
          Some res \<Rightarrow> Inr (result_outcome res)
        | None \<Rightarrow> Inl (Error ''INVALID_COMPLETED_IDEMPOTENCY_RECORD'')))"

definition find_record :: "IdempotencyInput \<Rightarrow> idem_table \<Rightarrow> idem_row option" where
  "find_record input tbl = first_row (\<lambda>r. ir_id r = keyValues input) tbl"

section \<open>Claiming and completing\<close>

datatype ClaimResult =
    idem_claimed string bool bool
  | idem_complete StoredInvocation
  | idem_wait

definition is_duplicate :: "ClaimResult \<Rightarrow> bool" where
  "is_duplicate c = (case c of idem_claimed _ _ d \<Rightarrow> d | _ \<Rightarrow> True)"

definition new_record :: "instant \<Rightarrow> int \<Rightarrow> string \<Rightarrow> IdempotencyInput \<Rightarrow> string \<Rightarrow> idem_row" where
  "new_record clock leaseMs stableTaskId input owner =
     \<lparr>ir_id = keyValues input, ir_argument_hash = ii_argumentHash input, ir_stable_task_id = stableTaskId,
      ir_state = IDEM_PENDING, ir_task_id = None, ir_result = None, ir_lease_owner = Some owner,
      ir_lease_expires_at = Some (clock + leaseMs), ir_claim_attempt = 1\<rparr>"

text \<open>\<^verbatim>\<open>#claim\<close>, one transaction; the instant is \<^verbatim>\<open>clock_timestamp()\<close> and \<open>stableTaskId\<close> the drawn UUID.\<close>

definition idem_claim ::
  "instant \<Rightarrow> int \<Rightarrow> string \<Rightarrow> IdempotencyInput \<Rightarrow> string \<Rightarrow> idem_table \<Rightarrow> err + (ClaimResult \<times> idem_table)" where
  "idem_claim clock leaseMs stableTaskId input owner tbl =
     (let inserted = (find_record input tbl = None);
          tbl = (if inserted then tbl @ [new_record clock leaseMs stableTaskId input owner] else tbl)
      in case find_record input tbl of
           None \<Rightarrow> Inl (Error ''IDEMPOTENCY_CLAIM_NOT_VISIBLE'')
         | Some row \<Rightarrow>
             if ir_argument_hash row \<noteq> ii_argumentHash input then Inl (Error ''IDEMPOTENCY_KEY_CONFLICT'')
             else if ir_state row = IDEM_COMPLETE then
               bind_err (completed_outcome row) (\<lambda>outcome. Inr (idem_complete outcome, tbl))
             else if inserted \<or> ir_lease_owner row = Some owner then
               Inr (idem_claimed (ir_stable_task_id row) False False, tbl)
             else if \<not> sql_le (ir_lease_expires_at row) clock then Inr (idem_wait, tbl)
             else Inr (idem_claimed (ir_stable_task_id row) True True,
               update_rows (\<lambda>r. ir_id r = keyValues input)
                 (\<lambda>r. r\<lparr>ir_lease_owner := Some owner, ir_lease_expires_at := Some (clock + leaseMs),
                         ir_claim_attempt := ir_claim_attempt r + 1\<rparr>) tbl))"

definition held_record :: "IdempotencyInput \<Rightarrow> string \<Rightarrow> idem_row \<Rightarrow> bool" where
  "held_record input owner r =
     (ir_id r = keyValues input \<and> ir_state r = IDEM_PENDING \<and> ir_lease_owner r = Some owner)"

definition store_outcome :: "StoredInvocation \<Rightarrow> idem_row \<Rightarrow> idem_row" where
  "store_outcome outcome r =
     r\<lparr>ir_state := IDEM_COMPLETE,
       ir_task_id := (case outcome of task_outcome t \<Rightarrow> Some t | result_outcome _ \<Rightarrow> None),
       ir_result := (case outcome of task_outcome _ \<Rightarrow> None | result_outcome res \<Rightarrow> Some res),
       ir_lease_owner := None, ir_lease_expires_at := None\<rparr>"

text \<open>\<^verbatim>\<open>#complete\<close>; \<open>task_exists\<close> is the foreign key on \<^verbatim>\<open>provider_task\<close>.\<close>

definition idem_finish ::
  "(string \<Rightarrow> bool) \<Rightarrow> IdempotencyInput \<Rightarrow> string \<Rightarrow> StoredInvocation \<Rightarrow> idem_table \<Rightarrow> err + (StoredInvocation \<times> idem_table)" where
  "idem_finish task_exists input owner outcome tbl =
     (if row_count (held_record input owner) tbl = 1 then
        (case outcome of
           task_outcome t \<Rightarrow> if \<not> task_exists t then Inl (DbConstraint ''idempotency_record_task_id_fkey'')
             else Inr (outcome, update_rows (held_record input owner) (store_outcome outcome) tbl)
         | result_outcome _ \<Rightarrow> Inr (outcome, update_rows (held_record input owner) (store_outcome outcome) tbl))
      else case find_record input tbl of
        Some row \<Rightarrow> if ir_state row = IDEM_COMPLETE
          then bind_err (completed_outcome row) (\<lambda>o1. Inr (o1, tbl))
          else Inl (Error ''IDEMPOTENCY_LEASE_LOST'')
      | None \<Rightarrow> Inl (Error ''IDEMPOTENCY_LEASE_LOST''))"

definition idem_abandon :: "instant \<Rightarrow> IdempotencyInput \<Rightarrow> string \<Rightarrow> idem_table \<Rightarrow> idem_table" where
  "idem_abandon clock input owner tbl =
     update_rows (held_record input owner) (\<lambda>r. r\<lparr>ir_lease_expires_at := Some clock\<rparr>) tbl"

text \<open>The retention cleaner deletes the records that name a purged task (\<^verbatim>\<open>ttl-cleaner.ts\<close>).\<close>

definition purge_records :: "string \<Rightarrow> idem_table \<Rightarrow> idem_table" where
  "purge_records t tbl = filter (\<lambda>r. ir_task_id r \<noteq> Some t) tbl"

section \<open>The execution loop\<close>

text \<open>One turn of the loop of \<^verbatim>\<open>execute\<close> reads the clocks (\<^verbatim>\<open>Date.now()\<close> and the database's), draws a UUID and finds the table as the
  other replicas have left it.\<close>

record loop_turn =
  lt_date_now :: instant
  lt_clock :: instant
  lt_uuid :: string
  lt_others :: "idem_table \<Rightarrow> idem_table"

type_synonym 'w invocation = "string \<Rightarrow> bool \<Rightarrow> idem_table \<times> 'w \<Rightarrow> (err + StoredInvocation) \<times> (idem_table \<times> 'w)"

text \<open>After a claim: the callback, then \<^verbatim>\<open>#complete\<close>; when either throws the lease is abandoned and the error
  passed on.\<close>

definition run_claimed ::
  "instant \<Rightarrow> ('w \<Rightarrow> string \<Rightarrow> bool) \<Rightarrow> IdempotencyInput \<Rightarrow> string \<Rightarrow> 'w invocation \<Rightarrow> string \<Rightarrow> bool
   \<Rightarrow> idem_table \<times> 'w \<Rightarrow> (err + StoredInvocation) \<times> (idem_table \<times> 'w)" where
  "run_claimed clock task_exists input owner invoke stableTaskId recovering s =
     (case invoke stableTaskId recovering s of
        (Inl e, (tbl, w)) \<Rightarrow> (Inl e, (idem_abandon clock input owner tbl, w))
      | (Inr outcome, (tbl, w)) \<Rightarrow>
          (case idem_finish (task_exists w) input owner outcome tbl of
             Inl e \<Rightarrow> (Inl e, (idem_abandon clock input owner tbl, w))
           | Inr (o1, tbl) \<Rightarrow> (Inr o1, (tbl, w))))"

text \<open>\<^verbatim>\<open>execute\<close>, from its loop on, with the callback \<^verbatim>\<open>onHit\<close> as a function of the rest of the world; \<open>None\<close> when the given turns do
  not suffice.\<close>

fun idem_execute ::
  "int \<Rightarrow> instant \<Rightarrow> ('w \<Rightarrow> string \<Rightarrow> bool) \<Rightarrow> ('w \<Rightarrow> 'w) \<Rightarrow> IdempotencyInput \<Rightarrow> string \<Rightarrow> 'w invocation \<Rightarrow> bool \<Rightarrow> loop_turn list
   \<Rightarrow> idem_table \<times> 'w \<Rightarrow> ((err + StoredInvocation) \<times> (idem_table \<times> 'w)) option" where
  "idem_execute leaseMs waitUntil task_exists onHit input owner invoke hitRecorded [] s = None"
| "idem_execute leaseMs waitUntil task_exists onHit input owner invoke hitRecorded (turn # turns) (tbl, w) =
     (let tbl = lt_others turn tbl in
      case idem_claim (lt_clock turn) leaseMs (lt_uuid turn) input owner tbl of
        Inl e \<Rightarrow> Some (Inl e, (tbl, w))
      | Inr (claim, tbl) \<Rightarrow>
          let hit = (is_duplicate claim \<and> \<not> hitRecorded);
              w = (if hit then onHit w else w)
          in case claim of
            idem_complete outcome \<Rightarrow> Some (Inr outcome, (tbl, w))
          | idem_wait \<Rightarrow>
              if waitUntil \<le> lt_date_now turn then Some (Inl (Error ''IDEMPOTENCY_IN_PROGRESS''), (tbl, w))
              else idem_execute leaseMs waitUntil task_exists onHit input owner invoke (hitRecorded \<or> hit) turns (tbl, w)
          | idem_claimed stableTaskId recovering _ \<Rightarrow>
              Some (run_claimed (lt_clock turn) task_exists input owner invoke stableTaskId recovering (tbl, w)))"

section \<open>The table as a state machine\<close>

text \<open>Any replica may claim, complete or abandon at any time, and the retention cleaner may purge the records of a task.  The steps
  that leave the records of the keys \<open>K\<close> unpurged are \<open>idem_step K\<close>; all steps are \<open>idem_step {}\<close>.\<close>

inductive idem_step :: "idem_key set \<Rightarrow> idem_table \<Rightarrow> idem_table \<Rightarrow> bool" for K :: "idem_key set" where
  claim_step: "idem_claim clock leaseMs uuid input owner tbl = Inr (c, tbl') \<Longrightarrow> idem_step K tbl tbl'"
| finish_step: "idem_finish task_exists input owner outcome tbl = Inr (o1, tbl') \<Longrightarrow> idem_step K tbl tbl'"
| abandon_step: "idem_step K tbl (idem_abandon clock input owner tbl)"
| purge_step: "\<forall>r \<in> set tbl. ir_task_id r = Some t \<longrightarrow> ir_id r \<notin> K \<Longrightarrow> idem_step K tbl (purge_records t tbl)"

inductive_cases idem_stepE: "idem_step K tbl tbl'"

lemma idem_step_mono: "idem_step K tbl tbl' \<Longrightarrow> L \<subseteq> K \<Longrightarrow> idem_step L tbl tbl'"
  by (induction rule: idem_step.induct) (auto intro: idem_step.intros)

lemma idem_steps_mono: "(idem_step K)\<^sup>*\<^sup>* tbl tbl' \<Longrightarrow> L \<subseteq> K \<Longrightarrow> (idem_step L)\<^sup>*\<^sup>* tbl tbl'"
  using rtranclp_mono [of "idem_step K" "idem_step L"] idem_step_mono by blast

definition idem_inv :: "idem_table \<Rightarrow> bool" where
  "idem_inv tbl = (distinct (map ir_id tbl) \<and> list_all idem_row_ok tbl)"

text \<open>What the table says about a key: the outcome, once there is one, and the identifier every claimant is given.\<close>

definition find_key :: "idem_table \<Rightarrow> idem_key \<Rightarrow> idem_row option" where
  "find_key tbl k = first_row (\<lambda>r. ir_id r = k) tbl"

definition outcome_of :: "idem_table \<Rightarrow> idem_key \<Rightarrow> StoredInvocation option" where
  "outcome_of tbl k =
     (case find_key tbl k of
        None \<Rightarrow> None
      | Some r \<Rightarrow> if ir_state r = IDEM_COMPLETE then (case completed_outcome r of Inl _ \<Rightarrow> None | Inr x \<Rightarrow> Some x) else None)"

definition identity_of :: "idem_table \<Rightarrow> idem_key \<Rightarrow> (string \<times> string) option" where
  "identity_of tbl k = map_option (\<lambda>r. (ir_argument_hash r, ir_stable_task_id r)) (find_key tbl k)"

lemma find_record_key: "find_record input tbl = find_key tbl (keyValues input)"
  by (simp add: find_record_def find_key_def)

lemma find_key_SomeD: "find_key tbl k = Some r \<Longrightarrow> r \<in> set tbl \<and> ir_id r = k"
  by (auto simp: find_key_def dest: first_row_SomeD)

lemma find_key_append: "find_key (tbl @ [r]) k = (case find_key tbl k of None \<Rightarrow> if ir_id r = k then Some r else None | Some x \<Rightarrow> Some x)"
  by (simp add: find_key_def first_row_append, simp add: first_row_def split: option.splits)

lemma find_key_update:
  assumes "\<And>r. P r \<Longrightarrow> ir_id (f r) = ir_id r"
  shows "find_key (update_rows P f tbl) k = map_option (\<lambda>r. if P r then f r else r) (find_key tbl k)"
  unfolding find_key_def using assms by (intro first_row_update_rows) auto

lemma idem_inv_update:
  assumes "idem_inv tbl" "\<And>r. P r \<Longrightarrow> ir_id (f r) = ir_id r" "\<And>r. P r \<Longrightarrow> idem_row_ok r \<Longrightarrow> idem_row_ok (f r)"
  shows "idem_inv (update_rows P f tbl)"
  using assms map_update_rows [of P ir_id f tbl]
  by (auto simp: idem_inv_def list_all_iff elim!: in_set_update_rowsE)

lemma idem_inv_append:
  assumes "idem_inv tbl" "find_key tbl (ir_id r) = None" "idem_row_ok r"
  shows "idem_inv (tbl @ [r])"
  using assms by (auto simp: idem_inv_def find_key_def first_row_None_iff)

lemma find_key_purge:
  assumes "idem_inv tbl"
  shows "find_key (purge_records t tbl) k =
    (case find_key tbl k of None \<Rightarrow> None | Some r \<Rightarrow> if ir_task_id r = Some t then None else Some r)"
proof (cases "find_key tbl k")
  case None
  then have "find_key (purge_records t tbl) k = None" by (auto simp: find_key_def purge_records_def first_row_None_iff)
  with None show ?thesis by simp
next
  case (Some r)
  have r: "r \<in> set tbl" "ir_id r = k" using find_key_SomeD [OF Some] by auto
  have keys: "distinct (map ir_id tbl)" using assms by (simp add: idem_inv_def)
  show ?thesis
  proof (cases "ir_task_id r = Some t")
    case True
    then have "s \<notin> set (purge_records t tbl)" if "ir_id s = k" for s
      using that r unique_key_rows [OF keys, of s r] by (auto simp: purge_records_def)
    then have "find_key (purge_records t tbl) k = None" by (auto simp: find_key_def first_row_None_iff)
    with True Some show ?thesis by simp
  next
    case False
    then have "r \<in> set (purge_records t tbl)" using r by (simp add: purge_records_def)
    moreover have "distinct (map ir_id (purge_records t tbl))" unfolding purge_records_def by (rule distinct_map_filter [OF keys])
    ultimately have "find_key (purge_records t tbl) k = Some r" using first_row_unique [of ir_id] r(2) by (auto simp: find_key_def)
    with False Some show ?thesis by simp
  qed
qed

lemma idem_inv_purge: "idem_inv tbl \<Longrightarrow> idem_inv (purge_records t tbl)"
  by (auto simp: idem_inv_def purge_records_def list_all_iff distinct_map_filter)

text \<open>What a claim does to the table.\<close>

lemma idem_claim_InrE:
  assumes "idem_claim clock leaseMs uuid input owner tbl = Inr (c, tbl')"
  obtains (created) "find_record input tbl = None" "c = idem_claimed uuid False False"
      "tbl' = tbl @ [new_record clock leaseMs uuid input owner]"
  | (found) row where "find_record input tbl = Some row" "ir_argument_hash row = ii_argumentHash input" "tbl' = tbl"
      "ir_state row = IDEM_COMPLETE \<Longrightarrow> \<exists>x. completed_outcome row = Inr x \<and> c = idem_complete x"
      "ir_state row = IDEM_PENDING \<Longrightarrow> c = (if ir_lease_owner row = Some owner then idem_claimed (ir_stable_task_id row) False False else idem_wait)"
  | (taken) row where "find_record input tbl = Some row" "ir_argument_hash row = ii_argumentHash input" "ir_state row = IDEM_PENDING"
      "sql_le (ir_lease_expires_at row) clock" "ir_lease_owner row \<noteq> Some owner"
      "c = idem_claimed (ir_stable_task_id row) True True"
      "tbl' = update_rows (\<lambda>r. ir_id r = keyValues input) (\<lambda>r. r\<lparr>ir_lease_owner := Some owner,
         ir_lease_expires_at := Some (clock + leaseMs), ir_claim_attempt := ir_claim_attempt r + 1\<rparr>) tbl"
proof (cases "find_record input tbl")
  case None
  with assms show thesis
    by (intro created) (auto simp: idem_claim_def Let_def find_record_key find_key_append new_record_def split: if_splits)
next
  case (Some row)
  show thesis
  proof (cases "ir_state row")
    case IDEM_COMPLETE
    with Some assms show thesis by (intro found) (auto simp: idem_claim_def Let_def bind_err_Inr_iff split: if_splits)
  next
    case IDEM_PENDING
    show thesis
    proof (cases "ir_lease_owner row = Some owner \<or> \<not> sql_le (ir_lease_expires_at row) clock")
      case True
      with Some IDEM_PENDING assms show thesis by (intro found) (auto simp: idem_claim_def Let_def split: if_splits)
    next
      case False
      with Some IDEM_PENDING assms show thesis by (intro taken) (auto simp: idem_claim_def Let_def split: if_splits)
    qed
  qed
qed

lemma idem_claim_inv:
  assumes "idem_claim clock leaseMs uuid input owner tbl = Inr (c, tbl')" "idem_inv tbl"
  shows "idem_inv tbl'"
  using assms(1)
proof (cases rule: idem_claim_InrE)
  case created
  then show ?thesis using assms(2)
    by (auto simp: find_record_key new_record_def idem_row_ok_def intro!: idem_inv_append)
next
  case (taken row)
  have "row \<in> set tbl \<and> ir_id row = keyValues input"
    using taken(1) by (intro find_key_SomeD) (simp add: find_record_key)
  then have "ir_state r = IDEM_PENDING" if "r \<in> set tbl" "ir_id r = keyValues input" for r
    using taken(3) that assms(2) unique_key_rows [of ir_id tbl r row] by (simp add: idem_inv_def)
  then have "update_rows (\<lambda>r. ir_id r = keyValues input) f tbl =
      update_rows (\<lambda>r. ir_id r = keyValues input \<and> ir_state r = IDEM_PENDING) f tbl" for f
    by (auto simp: update_rows_def)
  then show ?thesis unfolding taken(7) using assms(2)
    by (auto simp: idem_row_ok_def intro!: idem_inv_update)
qed (use assms in auto)

lemma idem_finish_inv:
  assumes "idem_finish task_exists input owner outcome tbl = Inr (o1, tbl')" "idem_inv tbl"
  shows "idem_inv tbl'"
proof -
  have "idem_inv (update_rows (held_record input owner) (store_outcome outcome) tbl)"
    using assms(2) by (rule idem_inv_update)
      (auto simp: store_outcome_def idem_row_ok_def split: StoredInvocation.splits)
  with assms show ?thesis
    by (auto simp: idem_finish_def bind_err_Inr_iff split: if_splits StoredInvocation.splits option.splits)
qed

lemma idem_step_inv: "idem_step K tbl tbl' \<Longrightarrow> idem_inv tbl \<Longrightarrow> idem_inv tbl'"
proof (induction rule: idem_step.induct)
  case (abandon_step tbl clock input owner)
  then show ?case unfolding idem_abandon_def
    by (auto simp: held_record_def idem_row_ok_def intro!: idem_inv_update)
qed (auto intro: idem_claim_inv idem_finish_inv idem_inv_purge)

text \<open>A step leaves every recorded row alone but for its lease, and completes at most pending ones.\<close>

definition row_follows :: "idem_row \<Rightarrow> idem_row \<Rightarrow> bool" where
  "row_follows r r' =
     (ir_argument_hash r' = ir_argument_hash r \<and> ir_stable_task_id r' = ir_stable_task_id r \<and>
      (ir_state r = IDEM_COMPLETE \<longrightarrow> r' = r))"

lemma update_follows:
  assumes "find_key tbl k = Some r" "\<And>r. P r \<Longrightarrow> ir_id (f r) = ir_id r" "P r \<Longrightarrow> row_follows r (f r)"
  shows "\<exists>r'. find_key (update_rows P f tbl) k = Some r' \<and> row_follows r r'"
  using assms find_key_update [of P f tbl k] by (auto simp: row_follows_def)

lemma idem_step_follows:
  assumes "idem_step K tbl tbl'" "idem_inv tbl" "k \<in> K" "find_key tbl k = Some r"
  shows "\<exists>r'. find_key tbl' k = Some r' \<and> row_follows r r'"
  using assms
proof (induction rule: idem_step.induct)
  case (claim_step clock leaseMs uuid input owner tbl c tbl')
  from claim_step(1) show ?case
  proof (cases rule: idem_claim_InrE)
    case created
    then show ?thesis using claim_step(4) by (auto simp: find_key_append row_follows_def)
  next
    case (found row)
    then show ?thesis using claim_step(4) by (auto simp: row_follows_def)
  next
    case (taken row)
    then show ?thesis using claim_step(4) find_key_SomeD [OF claim_step(4)] unfolding taken(7)
      by (intro update_follows) (auto simp: row_follows_def find_record_key)
  qed
next
  case (finish_step task_exists input owner outcome tbl o1 tbl')
  have "\<exists>r'. find_key (update_rows (held_record input owner) (store_outcome outcome) tbl) k = Some r' \<and> row_follows r r'"
    using finish_step(4) by (rule update_follows) (auto simp: store_outcome_def row_follows_def held_record_def)
  moreover have "tbl' = tbl \<or> tbl' = update_rows (held_record input owner) (store_outcome outcome) tbl"
    using finish_step(1) by (auto simp: idem_finish_def bind_err_Inr_iff split: if_splits StoredInvocation.splits option.splits)
  ultimately show ?case using finish_step(4) by (auto simp: row_follows_def)
next
  case (abandon_step tbl clock input owner)
  then show ?case unfolding idem_abandon_def
    by (intro update_follows) (auto simp: row_follows_def held_record_def)
next
  case (purge_step tbl t)
  then have "ir_task_id r \<noteq> Some t" using find_key_SomeD [OF purge_step(4)] by auto
  with purge_step show ?case by (simp add: find_key_purge row_follows_def)
qed

text \<open>The records of the keys that are not purged are written once.\<close>

definition spared :: "idem_key set \<Rightarrow> (idem_table \<Rightarrow> idem_key \<Rightarrow> 'v option) \<Rightarrow> idem_table \<Rightarrow> idem_key \<Rightarrow> 'v option" where
  "spared K val tbl k = (if k \<in> K then val tbl k else None)"

interpretation outcomes: write_once "\<lambda>tbl. tbl = []" "idem_step K" idem_inv "spared K outcome_of" for K
proof
  show "idem_inv tbl" if "tbl = []" for tbl using that by (simp add: idem_inv_def)
  show "idem_inv tbl'" if "idem_step K tbl tbl'" "idem_inv tbl" for tbl tbl' using idem_step_inv that .
  show "spared K outcome_of tbl' k = Some v" if "idem_step K tbl tbl'" "idem_inv tbl" "spared K outcome_of tbl k = Some v" for tbl tbl' k v
    using that idem_step_follows [OF that(1,2), of k]
    by (auto simp: spared_def outcome_of_def row_follows_def split: option.splits if_splits)
qed

interpretation identities: write_once "\<lambda>tbl. tbl = []" "idem_step K" idem_inv "spared K identity_of" for K
proof
  show "spared K identity_of tbl' k = Some v" if "idem_step K tbl tbl'" "idem_inv tbl" "spared K identity_of tbl k = Some v" for tbl tbl' k v
    using that idem_step_follows [OF that(1,2), of k] by (auto simp: spared_def identity_of_def row_follows_def split: if_splits)
qed

lemmas idem_reachable_inv = outcomes.reachable_inv [OF refl]

lemma records_kept:
  assumes "(idem_step {k})\<^sup>*\<^sup>* tbl tbl'" "idem_inv tbl"
  shows "outcome_of tbl k = Some x \<Longrightarrow> outcome_of tbl' k = Some x" "identity_of tbl k = Some i \<Longrightarrow> identity_of tbl' k = Some i"
  using outcomes.steps_kept [OF assms, of k x] identities.steps_kept [OF assms, of k i] by (simp_all add: spared_def)

section \<open>What callers rely on\<close>

text \<open>The abstract specification: a register per key that is written only while it is empty, and emptied only together with all
  the others that name the same task.\<close>

definition register_step ::
  "(idem_key \<Rightarrow> StoredInvocation option) \<Rightarrow> (idem_key \<Rightarrow> StoredInvocation option) \<Rightarrow> bool" where
  "register_step R R' =
     (R' = R \<or> (\<exists>k v. R k = None \<and> R' = R(k \<mapsto> v)) \<or>
      (\<exists>t. R' = (\<lambda>k. if R k = Some (task_outcome t) then None else R k)))"

lemma idem_purge_register:
  assumes "idem_inv tbl"
  shows "outcome_of (purge_records t tbl) = (\<lambda>k. if outcome_of tbl k = Some (task_outcome t) then None else outcome_of tbl k)"
proof
  fix k
  show "outcome_of (purge_records t tbl) k = (if outcome_of tbl k = Some (task_outcome t) then None else outcome_of tbl k)"
  proof (cases "find_key tbl k")
    case (Some r)
    then have "idem_row_ok r" using find_key_SomeD [OF Some] assms by (auto simp: idem_inv_def list_all_iff)
    with Some show ?thesis
      by (auto simp: outcome_of_def find_key_purge [OF assms] completed_outcome_def idem_row_ok_def split: option.splits)
  qed (simp add: outcome_of_def find_key_purge [OF assms])
qed

lemma outcome_of_update_same:
  assumes "\<And>r. P r \<Longrightarrow> ir_id (f r) = ir_id r" "\<And>r. P r \<Longrightarrow> ir_state r = IDEM_PENDING \<and> ir_state (f r) = IDEM_PENDING"
  shows "outcome_of (update_rows P f tbl) = outcome_of tbl"
proof
  fix k show "outcome_of (update_rows P f tbl) k = outcome_of tbl k"
    using find_key_update [of P f tbl k] assms by (auto simp: outcome_of_def split: option.splits)
qed

lemma completed_store_outcome: "completed_outcome (store_outcome outcome r) = Inr outcome"
  by (cases outcome) (simp_all add: completed_outcome_def store_outcome_def)

lemma row_count_held:
  assumes "idem_inv tbl" "row_count (held_record input owner) tbl = 1"
  obtains r where "find_record input tbl = Some r" "held_record input owner r"
proof -
  obtain r where r: "r \<in> set tbl" "held_record input owner r"
    using assms(2) row_count_pos_iff [of "held_record input owner" tbl] by auto
  then have "find_record input tbl = Some r"
    using first_row_unique [of ir_id tbl r] assms(1) by (simp add: find_record_def idem_inv_def held_record_def)
  with r(2) show thesis by (rule that [rotated])
qed

lemma idem_finish_register:
  assumes "idem_finish task_exists input owner outcome tbl = Inr (o1, tbl')" "idem_inv tbl"
  shows "outcome_of tbl' (keyValues input) = Some o1 \<and> register_step (outcome_of tbl) (outcome_of tbl')"
proof (cases "row_count (held_record input owner) tbl = 1")
  case True
  obtain r where r: "find_record input tbl = Some r" "held_record input owner r" using row_count_held [OF assms(2) True] .
  have run: "tbl' = update_rows (held_record input owner) (store_outcome outcome) tbl" "o1 = outcome"
    using assms(1) True by (auto simp: idem_finish_def split: StoredInvocation.splits if_splits)
  have upd: "find_key tbl' k = map_option (\<lambda>r. if held_record input owner r then store_outcome outcome r else r) (find_key tbl k)" for k
    unfolding run(1) by (rule find_key_update) (simp add: store_outcome_def)
  have "outcome_of tbl' k = (if k = keyValues input then Some outcome else outcome_of tbl k)" for k
  proof (cases "k = keyValues input")
    case True
    then show ?thesis using upd [of k] r by (simp add: outcome_of_def find_record_key completed_store_outcome)
      (simp add: store_outcome_def)
  next
    case False
    then show ?thesis using upd [of k] find_key_SomeD [of tbl k]
      by (cases "find_key tbl k") (auto simp: outcome_of_def held_record_def)
  qed
  then have "outcome_of tbl' = (outcome_of tbl)(keyValues input \<mapsto> outcome)" by auto
  moreover have "outcome_of tbl (keyValues input) = None"
    using r by (simp add: outcome_of_def find_record_key held_record_def)
  ultimately show ?thesis unfolding run(2) register_step_def
    by (intro conjI disjI2 [OF disjI1] exI [of _ "keyValues input"] exI [of _ outcome]) simp_all
next
  case False
  with assms(1) show ?thesis
    by (auto simp: idem_finish_def bind_err_Inr_iff outcome_of_def find_record_key register_step_def split: option.splits if_splits)
qed

lemma idem_abandon_register: "outcome_of (idem_abandon clock input owner tbl) = outcome_of tbl"
  unfolding idem_abandon_def by (rule outcome_of_update_same) (simp_all add: held_record_def)

lemma idem_claim_register:
  assumes "idem_claim clock leaseMs uuid input owner tbl = Inr (c, tbl')" "idem_inv tbl"
  shows "outcome_of tbl' = outcome_of tbl \<and> (\<forall>x. c = idem_complete x \<longrightarrow> outcome_of tbl' (keyValues input) = Some x)"
  using assms(1)
proof (cases rule: idem_claim_InrE)
  case created
  have "outcome_of (tbl @ [new_record clock leaseMs uuid input owner]) k = outcome_of tbl k" for k
    by (auto simp: outcome_of_def find_key_append new_record_def split: option.splits)
  then show ?thesis using created by auto
next
  case (found row)
  then show ?thesis by (cases "ir_state row") (auto simp: outcome_of_def find_record_key split: if_splits)
next
  case (taken row)
  have pending: "ir_state r = IDEM_PENDING" if "find_key tbl (keyValues input) = Some r" for r
    using that taken(1,3) by (simp add: find_record_key)
  have "outcome_of tbl' k = outcome_of tbl k" for k
    unfolding taken(7) outcome_of_def by (subst find_key_update)
      (use pending find_key_SomeD in \<open>auto split: option.splits\<close>)
  then show ?thesis using taken(6) by auto
qed

text \<open>C31. The idempotency table implements a register per key: every committed operation of any replica and every purge of the retention
  cleaner either leaves the recorded outcomes alone, or records the outcome of a key that had none, or empties exactly the keys whose
  outcome is the purged task; as long as its record is not purged, a key keeps its outcome over all of them.  A caller that completes is
  answered with the outcome that is recorded under its key, and so is a caller that finds the key completed.\<close>

theorem idempotency_refines_register:
  assumes "(idem_step {})\<^sup>*\<^sup>* [] tbl"
  shows "(\<forall>tbl'. idem_step {} tbl tbl' \<longrightarrow> register_step (outcome_of tbl) (outcome_of tbl')) \<and>
    (\<forall>k x tbl'. (idem_step {k})\<^sup>*\<^sup>* tbl tbl' \<and> outcome_of tbl k = Some x \<longrightarrow> outcome_of tbl' k = Some x) \<and>
    (\<forall>task_exists input owner outcome x tbl'. idem_finish task_exists input owner outcome tbl = Inr (x, tbl') \<longrightarrow>
       outcome_of tbl' (keyValues input) = Some x) \<and>
    (\<forall>clock leaseMs uuid input owner x tbl'. idem_claim clock leaseMs uuid input owner tbl = Inr (idem_complete x, tbl') \<longrightarrow>
       outcome_of tbl' (keyValues input) = Some x)"
proof -
  have inv: "idem_inv tbl" using idem_reachable_inv [OF assms] .
  have "register_step (outcome_of tbl) (outcome_of tbl')" if "idem_step {} tbl tbl'" for tbl'
    using that
  proof (cases rule: idem_step.cases)
    case (claim_step clock leaseMs uuid input owner c)
    then show ?thesis using idem_claim_register [OF claim_step inv] by (simp add: register_step_def)
  next
    case (finish_step task_exists input owner outcome o1)
    then show ?thesis using idem_finish_register [OF finish_step inv] by simp
  next
    case (abandon_step clock input owner)
    then show ?thesis by (simp add: idem_abandon_register register_step_def)
  next
    case (purge_step t)
    then show ?thesis unfolding purge_step(1) idem_purge_register [OF inv] register_step_def by blast
  qed
  then show ?thesis using idem_finish_register [OF _ inv] idem_claim_register [OF _ inv] records_kept(1) [OF _ inv] by blast
qed

lemma claim_completed:
  assumes "outcome_of tbl (keyValues input) = Some x" "identity_of tbl (keyValues input) = Some (h, sid)"
  shows "idem_claim clock leaseMs uuid input owner tbl =
    (if ii_argumentHash input = h then Inr (idem_complete x, tbl) else Inl (Error ''IDEMPOTENCY_KEY_CONFLICT''))"
  using assms by (auto simp: idem_claim_def find_record_key outcome_of_def identity_of_def split: option.splits sum.splits if_splits)

text \<open>A completed invocation is final: once an outcome is recorded under a key and as long as the record is not purged, in every later
  state of the table a claim of the key with the same arguments by anyone is answered with that outcome and changes nothing, and a claim
  with other arguments is refused as a conflict, so the operation is never invoked again under the key.\<close>

theorem completed_is_final:
  assumes "(idem_step {})\<^sup>*\<^sup>* [] tbl" "(idem_step {keyValues input})\<^sup>*\<^sup>* tbl tbl'" "outcome_of tbl (keyValues input) = Some x"
    and "identity_of tbl (keyValues input) = Some (h, sid)"
  shows "idem_claim clock leaseMs uuid input owner tbl' =
    (if ii_argumentHash input = h then Inr (idem_complete x, tbl') else Inl (Error ''IDEMPOTENCY_KEY_CONFLICT''))"
  using records_kept [OF assms(2) idem_reachable_inv [OF assms(1)]] assms(3,4) by (intro claim_completed)

text \<open>A lease excludes the others: after a replica has taken a key it did not hold, any other replica that asks before
  the lease has run out is told to wait and changes nothing.\<close>

theorem lease_excludes:
  assumes "(idem_step {})\<^sup>*\<^sup>* [] tbl" "idem_claim clock leaseMs uuid input owner tbl = Inr (idem_claimed sid recovering duplicate, tbl')"
    and "\<And>r. find_record input tbl = Some r \<Longrightarrow> ir_lease_owner r \<noteq> Some owner"
    and "other \<noteq> owner" "clock' < clock + leaseMs"
  shows "idem_claim clock' leaseMs' uuid' input other tbl' = Inr (idem_wait, tbl')"
proof -
  have "\<exists>r. find_record input tbl' = Some r \<and> ir_state r = IDEM_PENDING \<and> ir_lease_owner r = Some owner \<and>
      ir_lease_expires_at r = Some (clock + leaseMs) \<and> ir_argument_hash r = ii_argumentHash input"
    using assms(2)
  proof (cases rule: idem_claim_InrE)
    case created
    then show ?thesis by (simp add: find_record_key find_key_append) (simp add: new_record_def)
  next
    case (found row)
    with assms(3) show ?thesis by (cases "ir_state row") auto
  next
    case (taken row)
    then show ?thesis using find_key_SomeD [of tbl "keyValues input" row]
      by (simp add: find_record_key find_key_update)
  qed
  then show ?thesis using assms(4,5) by (auto simp: idem_claim_def sql_le_def)
qed

text \<open>C32. The waiting loop ends: an execution that is given a turn at or after its time limit returns, with an outcome or
  with an error, whatever the other replicas do in between.\<close>

theorem execute_returns:
  assumes "\<exists>turn \<in> set turns. waitUntil \<le> lt_date_now turn"
  shows "idem_execute leaseMs waitUntil task_exists onHit input owner invoke hitRecorded turns s \<noteq> None"
  using assms
proof (induction turns arbitrary: s hitRecorded)
  case (Cons turn turns)
  obtain tbl w where s: "s = (tbl, w)" by (cases s)
  show ?case
  proof (cases "idem_claim (lt_clock turn) leaseMs (lt_uuid turn) input owner (lt_others turn tbl)")
    case (Inr r)
    obtain c tbl' where r: "r = (c, tbl')" by (cases r)
    have "idem_execute leaseMs waitUntil task_exists onHit input owner invoke h turns s' \<noteq> None"
      if "\<not> waitUntil \<le> lt_date_now turn" for h s' using Cons that by (simp del: not_None_eq)
    then show ?thesis by (cases c) (simp_all add: s Inr r Let_def del: not_None_eq)
  qed (simp add: s)
qed simp

section \<open>A successful execution is recorded\<close>

lemma claim_identity:
  assumes "idem_claim clock leaseMs uuid input owner tbl = Inr (c, tbl')"
  shows "\<exists>sid. identity_of tbl' (keyValues input) = Some (ii_argumentHash input, sid)"
  using assms
proof (cases rule: idem_claim_InrE)
  case created
  then show ?thesis by (simp add: identity_of_def find_record_key find_key_append) (simp add: new_record_def)
next
  case (found row)
  then show ?thesis by (simp add: identity_of_def find_record_key)
next
  case (taken row)
  then show ?thesis using find_key_SomeD [of tbl "keyValues input" row] by (simp add: identity_of_def find_record_key find_key_update)
qed

text \<open>What the other replicas, the cleaner and the callback do to the table are steps of it that leave the keys \<open>K\<close> unpurged.\<close>

definition turns_step :: "idem_key set \<Rightarrow> loop_turn list \<Rightarrow> bool" where
  "turns_step K turns = (\<forall>turn \<in> set turns. \<forall>tbl. (idem_step K)\<^sup>*\<^sup>* tbl (lt_others turn tbl))"

definition invoke_steps :: "idem_key set \<Rightarrow> 'w invocation \<Rightarrow> bool" where
  "invoke_steps K invoke = (\<forall>sid recovering tbl w. (idem_step K)\<^sup>*\<^sup>* tbl (fst (snd (invoke sid recovering (tbl, w)))))"

definition recorded :: "IdempotencyInput \<Rightarrow> StoredInvocation \<Rightarrow> idem_table \<Rightarrow> bool" where
  "recorded input x tbl =
     (outcome_of tbl (keyValues input) = Some x \<and> (\<exists>sid. identity_of tbl (keyValues input) = Some (ii_argumentHash input, sid)))"

lemma run_claimed_records:
  assumes "run_claimed clock task_exists input owner invoke sid recovering (tbl, w) = (Inr x, (tbl', w'))"
    and "invoke_steps {keyValues input} invoke" "idem_inv tbl" "identity_of tbl (keyValues input) = Some (ii_argumentHash input, sid')"
  shows "(idem_step {keyValues input})\<^sup>*\<^sup>* tbl tbl' \<and> recorded input x tbl'"
proof -
  obtain outcome tbl1 where run: "invoke sid recovering (tbl, w) = (Inr outcome, (tbl1, w'))"
      "idem_finish (task_exists w') input owner outcome tbl1 = Inr (x, tbl')"
    using assms(1) by (auto simp: run_claimed_def split: prod.splits sum.splits)
  have steps: "(idem_step {keyValues input})\<^sup>*\<^sup>* tbl tbl1" using assms(2) run(1) by (metis invoke_steps_def fst_conv snd_conv)
  then have all: "(idem_step {keyValues input})\<^sup>*\<^sup>* tbl tbl'" using finish_step [OF run(2)] by (rule rtranclp.rtrancl_into_rtrancl)
  have "outcome_of tbl' (keyValues input) = Some x"
    using idem_finish_register [OF run(2)] outcomes.steps_inv [OF steps assms(3)] by blast
  then show ?thesis using all records_kept(2) [OF all assms(3,4)] by (auto simp: recorded_def)
qed

lemma execute_records:
  assumes "idem_execute leaseMs waitUntil task_exists onHit input owner invoke hit turns (tbl, w) = Some (Inr x, (tbl', w'))"
    and "turns_step {keyValues input} turns" "invoke_steps {keyValues input} invoke" "idem_inv tbl"
  shows "(idem_step {keyValues input})\<^sup>*\<^sup>* tbl tbl' \<and> recorded input x tbl'"
  using assms(1,2,4)
proof (induction turns arbitrary: hit tbl w)
  case (Cons turn turns)
  let ?t = "lt_others turn tbl"
  have other: "(idem_step {keyValues input})\<^sup>*\<^sup>* tbl ?t" using Cons.prems(2) by (simp add: turns_step_def)
  obtain c t1 where claim: "idem_claim (lt_clock turn) leaseMs (lt_uuid turn) input owner ?t = Inr (c, t1)"
    using Cons.prems(1) by (auto simp: Let_def split: sum.splits)
  have steps: "(idem_step {keyValues input})\<^sup>*\<^sup>* tbl t1" using other claim_step [OF claim] by (rule rtranclp.rtrancl_into_rtrancl)
  have reach: "idem_inv t1" by (rule outcomes.steps_inv [OF steps Cons.prems(3)])
  obtain sid' where ident: "identity_of t1 (keyValues input) = Some (ii_argumentHash input, sid')" using claim_identity [OF claim] by blast
  have inv: "idem_inv ?t" using outcomes.steps_inv [OF other Cons.prems(3)] .
  have rest: "turns_step {keyValues input} turns" using Cons.prems(2) by (simp add: turns_step_def)
  show ?case
  proof (cases c)
    case (idem_claimed sid recovering dup)
    let ?w = "if dup \<and> \<not> hit then onHit w else w"
    have "run_claimed (lt_clock turn) task_exists input owner invoke sid recovering (t1, ?w) = (Inr x, (tbl', w'))"
      using Cons.prems(1) claim idem_claimed by (simp add: Let_def is_duplicate_def)
    from run_claimed_records [OF this assms(3) reach ident] show ?thesis using steps by (auto intro: rtranclp_trans)
  next
    case (idem_complete y)
    then show ?thesis using Cons.prems(1) claim idem_claim_register [OF claim inv] steps ident by (auto simp: Let_def recorded_def)
  next
    case idem_wait
    then have "idem_execute leaseMs waitUntil task_exists onHit input owner invoke True turns (t1, if \<not> hit then onHit w else w) = Some (Inr x, (tbl', w'))"
      using Cons.prems(1) claim by (cases hit) (auto simp: Let_def is_duplicate_def split: if_splits)
    from Cons.IH [OF this rest reach] show ?thesis using steps by (auto intro: rtranclp_trans)
  qed
qed simp

text \<open>Later callers are answered from the record in their first turn.\<close>

lemma execute_recorded:
  assumes "recorded input x tbl" "idem_inv tbl" "(idem_step {keyValues input})\<^sup>*\<^sup>* tbl (lt_others turn tbl')"
  shows "idem_execute leaseMs waitUntil task_exists onHit input owner invoke True (turn # turns) (tbl', w) = Some (Inr x, (lt_others turn tbl', w))"
    and "idem_execute leaseMs waitUntil task_exists onHit input owner invoke False (turn # turns) (tbl', w) = Some (Inr x, (lt_others turn tbl', onHit w))"
proof -
  obtain sid where r: "outcome_of tbl (keyValues input) = Some x" "identity_of tbl (keyValues input) = Some (ii_argumentHash input, sid)"
    using assms(1) by (auto simp: recorded_def)
  have "idem_claim (lt_clock turn) leaseMs (lt_uuid turn) input owner (lt_others turn tbl') = Inr (idem_complete x, lt_others turn tbl')"
    using claim_completed [OF records_kept(1) [OF assms(3,2) r(1)] records_kept(2) [OF assms(3,2) r(2)]] by simp
  then show "idem_execute leaseMs waitUntil task_exists onHit input owner invoke True (turn # turns) (tbl', w) = Some (Inr x, (lt_others turn tbl', w))"
    "idem_execute leaseMs waitUntil task_exists onHit input owner invoke False (turn # turns) (tbl', w) = Some (Inr x, (lt_others turn tbl', onHit w))"
    by (simp_all add: Let_def is_duplicate_def)
qed

section \<open>A concrete run\<close>

definition idem_ctx :: AuthorizationContext where
  "idem_ctx = \<lparr>au_hash = ''h'', au_executionMode = live, au_simulationId = None, au_correlationId = None, au_traceId = None,
     au_rootTraceparent = None, au_rootTracestate = None\<rparr>"

definition idem_input :: IdempotencyInput where
  "idem_input = \<lparr>ii_authorization = idem_ctx, ii_operationName = ''op'', ii_idempotencyKey = ''k'', ii_argumentHash = ''a''\<rparr>"

definition idem_held :: idem_table where
  "idem_held = [new_record 100 30000 ''t1'' idem_input ''w1'']"

definition idem_done :: idem_table where
  "idem_done = [store_outcome (task_outcome ''t1'') (new_record 100 30000 ''t1'' idem_input ''w1'')]"

lemmas idem_run_defs =
  idem_claim_def idem_finish_def idem_held_def idem_done_def new_record_def store_outcome_def held_record_def find_record_def
  first_row_def update_rows_def row_count_def outcome_of_def identity_of_def find_key_def completed_outcome_def sql_le_def

lemma idem_held_claim: "idem_claim 100 30000 ''t1'' idem_input ''w1'' [] = Inr (idem_claimed ''t1'' False False, idem_held)"
  by (simp add: idem_run_defs)

lemma idem_done_finish:
  "idem_finish (\<lambda>_. True) idem_input ''w1'' (task_outcome ''t1'') idem_held = Inr (task_outcome ''t1'', idem_done)"
  by (simp add: idem_run_defs)

lemma idem_held_reachable: "(idem_step K)\<^sup>*\<^sup>* [] idem_held"
  using claim_step [OF idem_held_claim] by blast

lemma idem_done_reachable: "(idem_step K)\<^sup>*\<^sup>* [] idem_done"
  using idem_held_reachable finish_step [OF idem_done_finish] by (rule rtranclp.rtrancl_into_rtrancl)

theorem idempotency_refines_register_witness:
  "register_step (outcome_of idem_held) (outcome_of idem_done) \<and> outcome_of idem_done (keyValues idem_input) = Some (task_outcome ''t1'')"
  using idempotency_refines_register [OF idem_held_reachable] finish_step [OF idem_done_finish, of "{}"] idem_done_finish by blast

theorem completed_is_final_witness:
  "idem_claim 500 30000 ''t2'' idem_input ''w2'' idem_done = Inr (idem_complete (task_outcome ''t1''), idem_done)"
proof -
  have "outcome_of idem_done (keyValues idem_input) = Some (task_outcome ''t1'')"
    "identity_of idem_done (keyValues idem_input) = Some (''a'', ''t1'')" "ii_argumentHash idem_input = ''a''"
    by (simp_all add: idem_run_defs) (simp_all add: idem_input_def)
  then show ?thesis
    using completed_is_final [OF idem_done_reachable rtranclp.rtrancl_refl, of idem_input "task_outcome ''t1''" "''a''" "''t1''"]
    by simp
qed

theorem lease_excludes_witness:
  "idem_claim 20000 30000 ''t2'' idem_input ''w2'' idem_held = Inr (idem_wait, idem_held)"
  by (rule lease_excludes [OF rtranclp.rtrancl_refl idem_held_claim]) (simp_all add: find_record_def first_row_def)

theorem execute_returns_witness:
  "idem_execute 30000 10000 (\<lambda>_ _. True) (\<lambda>hits. hits + 1) idem_input ''w2'' (\<lambda>sid _ s. (Inr (task_outcome sid), s)) False
     [\<lparr>lt_date_now = 0, lt_clock = 0, lt_uuid = ''a'', lt_others = (\<lambda>_. idem_held)\<rparr>,
      \<lparr>lt_date_now = 10000, lt_clock = 10000, lt_uuid = ''b'', lt_others = (\<lambda>t. t)\<rparr>] ([], 0 :: nat) \<noteq> None"
  by (rule execute_returns) simp

end
