(* ===== verification/Engine_Call.thy ===== *)
theory Engine_Call
  imports Engine_Theorems Idempotency
begin

text \<open>
  Calls of operations (\<^verbatim>\<open>callOperation\<close>, \<^verbatim>\<open>callFrozenOperation\<close> and \<^verbatim>\<open>#restoreStored\<close> of \<^verbatim>\<open>packages/task-engine/src/engine.ts\<close>): the checks made before anything
  happens, the execution itself, and its composition with the idempotency records, which gives a repeated call the outcome of the first
  one.  A call works on the idempotency table and the world; \<open>None\<close> says that the turns given for waiting on another replica did not suffice.
\<close>

section \<open>The call\<close>

record call_request =
  cq_operation :: ValidatedOperation
  cq_arguments :: json_object
  cq_authorization :: AuthorizationContext
  cq_ttlMs :: "int option"
  cq_idempotencyKey :: "string option"
  cq_timing :: "TaskExecutionTiming option"
  cq_reservationRef :: "string option"

text \<open>The idempotency repository as one call sees it: its lease, the end of the waiting time, the drawn owner, the turns of the waiting loop and
  what other replicas do to the table while the operation runs.\<close>

record idem_run =
  ix_leaseMs :: int
  ix_waitUntil :: instant
  ix_owner :: string
  ix_turns :: "loop_turn list"
  ix_during :: "idem_table \<Rightarrow> idem_table"

definition call_timing :: "call_request \<Rightarrow> TaskExecutionTiming" where
  "call_timing q = (case cq_timing q of None \<Rightarrow> defaultTiming | Some t \<Rightarrow> t)"

definition timing_capabilities :: "ValidatedOperation \<Rightarrow> TimingCapabilities" where
  "timing_capabilities operation =
     (let c = od_capabilities (vo_operation operation) in \<lparr>tc_scheduling = oc_scheduling c, tc_maxElapsed = oc_maxElapsed c\<rparr>)"

definition check_call :: "runtime_env \<Rightarrow> call_request \<Rightarrow> err + TimingAnchors" where
  "check_call env q =
     (if (case cq_ttlMs q of None \<Rightarrow> False | Some t \<Rightarrow> \<not> isSafeInteger t \<or> t < 1 \<or> t > 31536000000) then Inl (InvalidParamsError ''INVALID_TASK_TTL'' None)
      else if (case cq_reservationRef q of None \<Rightarrow> False | Some r \<Rightarrow> length r < 1 \<or> length r > 256)
        then Inl (InvalidParamsError ''INVALID_RESERVATION_REF'' None)
      else
        bind_err (vo_validateArguments (cq_operation q) (JObj (cq_arguments q))) (\<lambda>_.
        case validateTiming (legacy_date env) (call_timing q) (timing_capabilities (cq_operation q)) (now env) of
          Inl e \<Rightarrow> Inl (InvalidParamsError (err_message e) (Some ''Invalid Task timing parameters.''))
        | Inr anchors \<Rightarrow> Inr anchors))"

definition hashArguments :: "runtime_env \<Rightarrow> json_object \<Rightarrow> string" where
  "hashArguments env arguments = sha256 env (canonicalize (JObj arguments))"

definition call_invocation :: "call_request \<Rightarrow> TimingAnchors \<Rightarrow> string \<Rightarrow> string \<Rightarrow> bool \<Rightarrow> Engine.invocation" where
  "call_invocation q anchors argumentHash taskId recovering =
     \<lparr>iv_operation = cq_operation q, iv_arguments = cq_arguments q, iv_authorization = cq_authorization q, iv_ttlMs = cq_ttlMs q,
      iv_taskId = taskId, iv_recovering = recovering, iv_argumentHash = argumentHash, iv_timing = call_timing q, iv_anchors = anchors,
      iv_reservationRef = cq_reservationRef q, iv_persistedSnapshotId = None\<rparr>"

text \<open>\<^verbatim>\<open>String(task.taskId)\<close>.\<close>

definition task_object_id :: "json_object \<Rightarrow> string" where
  "task_object_id task = (case obj_get task ''taskId'' of Some (JStr t) \<Rightarrow> t | _ \<Rightarrow> ''undefined'')"

definition storedInvocation :: "ToolInvocationResult \<Rightarrow> StoredInvocation" where
  "storedInvocation v = (case v of tool_result r \<Rightarrow> result_outcome r | tool_task task \<Rightarrow> task_outcome (task_object_id task))"

definition invoke_operation ::
  "worker_ctx \<Rightarrow> engine \<Rightarrow> ('w, 'z) start_gateway_scheme \<Rightarrow> idem_run \<Rightarrow> call_request \<Rightarrow> TimingAnchors \<Rightarrow> string \<Rightarrow> 'w world Idempotency.invocation" where
  "invoke_operation ctx en gw ix q anchors argumentHash stableTaskId recovering s =
     (case executeOperation ctx en gw (call_invocation q anchors argumentHash stableTaskId recovering) (snd s) of
        (r, s1) \<Rightarrow> (map_sum id storedInvocation r, (ix_during ix (fst s), s1)))"

definition restoreStored :: "worker_ctx \<Rightarrow> AuthorizationContext \<Rightarrow> StoredInvocation \<Rightarrow> ('w, ToolInvocationResult) program" where
  "restoreStored ctx a outcome =
     (case outcome of
        result_outcome r \<Rightarrow> ret (tool_result r)
      | task_outcome t \<Rightarrow>
          andThen (read_err ctx (\<lambda>env. getAuthorized env t a)) (\<lambda>task.
          andThen (page_of_task ctx (task_id task)) (\<lambda>(requests, page).
          ret (tool_task (fresh_task task requests page)))))"

definition idem_input_of :: "call_request \<Rightarrow> string \<Rightarrow> string \<Rightarrow> IdempotencyInput" where
  "idem_input_of q key argumentHash =
     \<lparr>ii_authorization = cq_authorization q, ii_operationName = vo_name (cq_operation q), ii_idempotencyKey = key, ii_argumentHash = argumentHash\<rparr>"

definition call_with_key ::
  "worker_ctx \<Rightarrow> engine \<Rightarrow> ('w, 'z) start_gateway_scheme \<Rightarrow> idem_run \<Rightarrow> call_request \<Rightarrow> TimingAnchors \<Rightarrow> string \<Rightarrow> string \<Rightarrow> idem_table \<times> 'w world
   \<Rightarrow> ((err + ToolInvocationResult) \<times> (idem_table \<times> 'w world)) option" where
  "call_with_key ctx en gw ix q anchors argumentHash key s =
     (case idem_execute (ix_leaseMs ix) (ix_waitUntil ix) (\<lambda>w t. find_task t (w_db w) \<noteq> None) id (idem_input_of q key argumentHash) (ix_owner ix)
         (invoke_operation ctx en gw ix q anchors argumentHash) False (ix_turns ix) s of
        None \<Rightarrow> None
      | Some (Inl e, s1) \<Rightarrow> Some (Inl e, s1)
      | Some (Inr outcome, (tbl, w)) \<Rightarrow>
          (case restoreStored ctx (cq_authorization q) outcome w of (r, w1) \<Rightarrow> Some (r, (tbl, w1))))"

definition callOperation ::
  "worker_ctx \<Rightarrow> engine \<Rightarrow> ('w, 'z) start_gateway_scheme \<Rightarrow> idem_run option \<Rightarrow> string \<Rightarrow> call_request \<Rightarrow> idem_table \<times> 'w world
   \<Rightarrow> ((err + ToolInvocationResult) \<times> (idem_table \<times> 'w world)) option" where
  "callOperation ctx en gw idempotency uuid q s =
     (let env = wc_env ctx (w_turn (snd s)) in
      case check_call env q of
        Inl e \<Rightarrow> Some (Inl e, s)
      | Inr anchors \<Rightarrow>
          let argumentHash = hashArguments env (cq_arguments q) in
          (case cq_idempotencyKey q of
             None \<Rightarrow>
               (case executeOperation ctx en gw (call_invocation q anchors argumentHash uuid False) (snd s) of (r, w1) \<Rightarrow> Some (r, (fst s, w1)))
           | Some key \<Rightarrow>
               (case idempotency of
                  None \<Rightarrow> Some (Inl (CapabilityNotSupportedError ''IDEMPOTENCY_NOT_SUPPORTED''), s)
                | Some ix \<Rightarrow>
                    if \<not> oc_idempotency (od_capabilities (vo_operation (cq_operation q)))
                    then Some (Inl (CapabilityNotSupportedError ''IDEMPOTENCY_NOT_SUPPORTED''), s)
                    else if length key < 1 \<or> length key > 256 then Some (Inl (InvalidParamsError ''INVALID_IDEMPOTENCY_KEY'' None), s)
                    else call_with_key ctx en gw ix q anchors argumentHash key s)))"

definition callFrozenOperation ::
  "worker_ctx \<Rightarrow> engine \<Rightarrow> ('w, 'z) start_gateway_scheme \<Rightarrow> idem_run option \<Rightarrow> string \<Rightarrow> call_request \<Rightarrow> idem_table \<times> 'w world
   \<Rightarrow> ((err + json_object) \<times> (idem_table \<times> 'w world)) option" where
  "callFrozenOperation ctx en gw idempotency uuid q s =
     (case callOperation ctx en gw idempotency uuid (q\<lparr>cq_ttlMs := None\<rparr>) s of
        None \<Rightarrow> None
      | Some (Inl e, s1) \<Rightarrow> Some (Inl e, s1)
      | Some (Inr (tool_result r), s1) \<Rightarrow> Some (Inr (obj_spread [(''resultType'', JStr ''complete'')] r), s1)
      | Some (Inr (tool_task task), (tbl, w)) \<Rightarrow>
          (case obj_get task ''taskId'' of
             Some (JStr t) \<Rightarrow>
               (case getFrozenTask ctx t (cq_authorization q) create w of (r, w1) \<Rightarrow> Some (r, (tbl, w1)))
           | _ \<Rightarrow> Some (Inl (Error ''CREATE_TASK_RESULT_TASK_ID_MISSING''), (tbl, w))))"

section \<open>Repeated calls\<close>

text \<open>What other replicas and the retention cleaner do to the records in the course of a call are steps of the table that do not purge the
  record of the key.\<close>

definition replicas_step :: "idem_key \<Rightarrow> idem_run \<Rightarrow> bool" where
  "replicas_step k ix = (turns_step {k} (ix_turns ix) \<and> (\<forall>tbl. (idem_step {k})\<^sup>*\<^sup>* tbl (ix_during ix tbl)))"

lemma invoke_operation_steps: "replicas_step k ix \<Longrightarrow> invoke_steps {k} (invoke_operation ctx en gw ix q anchors h)"
  by (simp add: replicas_step_def invoke_steps_def invoke_operation_def split: prod.splits)

lemma read_err_InrE:
  assumes "read_err ctx f s = (Inr v, s')"
  shows "f (wc_env ctx (w_turn s)) (w_db s') = Inr v"
  using assms by (auto simp: read_err_def call_def Let_def bind_err_Inr_iff split: sum.splits prod.splits)

lemma getAuthorized_row: "getAuthorized env t a db = Inr row \<Longrightarrow> task_id row = t"
  by (auto simp: getAuthorized_def split: option.splits if_splits dest: first_row_SomeD)

lemma fresh_task_id: "task_object_id (fresh_task row requests page) = task_id row"
  by (simp add: task_object_id_def fresh_task_def detailedTask_def obj_get_def)

text \<open>What a stored outcome is restored to is stored as that outcome again.\<close>

lemma restored_outcome: "restoreStored ctx a x s = (Inr v, s') \<Longrightarrow> storedInvocation v = x"
  by (auto simp: restoreStored_def storedInvocation_def fresh_task_id split: StoredInvocation.splits
      elim!: andThen_InrE dest!: read_err_InrE getAuthorized_row)

lemma silent_read_err: "silent.stays (read_err ctx f)"
  unfolding read_err_def by (rule silent_call)

lemma silent_restore: "silent.stays (restoreStored ctx a x)"
  unfolding restoreStored_def page_of_task_def
  by (cases x) (auto intro!: silent.stays_intros silent_read_err silent_read)

lemma call_with_key_records:
  assumes "call_with_key ctx en gw ix q anchors h key (tbl, s) = Some (Inr v, (tbl1, s1))" "replicas_step (keyValues (idem_input_of q key h)) ix"
      "idem_inv tbl"
  shows "idem_inv tbl1 \<and> recorded (idem_input_of q key h) (storedInvocation v) tbl1"
proof -
  obtain x w where run: "idem_execute (ix_leaseMs ix) (ix_waitUntil ix) (\<lambda>w t. find_task t (w_db w) \<noteq> None) id (idem_input_of q key h) (ix_owner ix)
         (invoke_operation ctx en gw ix q anchors h) False (ix_turns ix) (tbl, s) = Some (Inr x, (tbl1, w))"
      and restored: "restoreStored ctx (cq_authorization q) x w = (Inr v, s1)"
    using assms(1) by (auto simp: call_with_key_def split: option.splits prod.splits sum.splits)
  have "turns_step {keyValues (idem_input_of q key h)} (ix_turns ix)" using assms(2) by (simp add: replicas_step_def)
  from execute_records [OF run this invoke_operation_steps [OF assms(2)] assms(3)] show ?thesis
    using restored_outcome [OF restored] outcomes.steps_inv [OF _ assms(3)] by auto
qed

lemma call_with_key_recorded:
  assumes "recorded (idem_input_of q key h) x tbl1" "idem_inv tbl1" "(idem_step {keyValues (idem_input_of q key h)})\<^sup>*\<^sup>* tbl1 tbl2"
    "replicas_step (keyValues (idem_input_of q key h)) ix" "ix_turns ix = turn # turns"
  shows "call_with_key ctx en gw ix q anchors h key (tbl2, s) =
    (case restoreStored ctx (cq_authorization q) x s of (r, w) \<Rightarrow> Some (r, (lt_others turn tbl2, w)))"
proof -
  have "(idem_step {keyValues (idem_input_of q key h)})\<^sup>*\<^sup>* tbl2 (lt_others turn tbl2)" using assms(4,5) by (simp add: replicas_step_def turns_step_def)
  then have "(idem_step {keyValues (idem_input_of q key h)})\<^sup>*\<^sup>* tbl1 (lt_others turn tbl2)" using assms(3) by (rule rtranclp_trans [rotated])
  then show ?thesis
    by (simp add: call_with_key_def assms(5) execute_recorded(2) [OF assms(1,2)] del: idem_execute.simps not_None_eq)
qed

lemma callOperation_key:
  assumes "callOperation ctx en gw (Some ix) uuid q (tbl, s) = Some (Inr v, s1)" "cq_idempotencyKey q = Some key"
  obtains anchors where "oc_idempotency (od_capabilities (vo_operation (cq_operation q)))" "\<not> (length key < 1 \<or> length key > 256)"
    "call_with_key ctx en gw ix q anchors (hashArguments (wc_env ctx (w_turn s)) (cq_arguments q)) key (tbl, s) = Some (Inr v, s1)"
  using assms by (auto simp: callOperation_def Let_def split: sum.splits if_splits)

text \<open>The row of the idempotency table that belongs to a call.\<close>

definition call_key :: "call_request \<Rightarrow> string \<Rightarrow> idem_key" where
  "call_key q key = keyValues (idem_input_of q key [])"

lemma call_key: "keyValues (idem_input_of q key h) = call_key q key"
  by (simp add: call_key_def keyValues_def idem_input_of_def)

text \<open>C8. A call that is repeated under its idempotency key is answered with the outcome of the first one and never reaches the
  adapter again, as long as the retention cleaner has not purged the record of the key: after a call has returned, however many other
  replicas have used the table since and whatever other records have been purged, the same request gets the same result, or the
  task that was created then, as it is now.  (The cleaner purges a record only together with the expired task it names.)\<close>

theorem retry_returns_first_outcome:
  assumes first: "callOperation ctx en gw (Some ix) uuid q (tbl, s) = Some (Inr v, (tbl1, s1))" "cq_idempotencyKey q = Some key"
      "(idem_step {})\<^sup>*\<^sup>* [] tbl" "replicas_step (call_key q key) ix"
    and between: "(idem_step {call_key q key})\<^sup>*\<^sup>* tbl1 tbl2"
    and again: "check_call (wc_env ctx2 (w_turn s2)) q = Inr anchors" "replicas_step (call_key q key) ix2" "ix_turns ix2 = turn # turns"
      "hashArguments (wc_env ctx2 (w_turn s2)) (cq_arguments q) = hashArguments (wc_env ctx (w_turn s)) (cq_arguments q)"
  shows "callOperation ctx2 en2 gw2 (Some ix2) uuid2 q (tbl2, s2) =
      (case restoreStored ctx2 (cq_authorization q) (storedInvocation v) s2 of (r, w) \<Rightarrow> Some (r, (lt_others turn tbl2, w))) \<and>
    w_rest (snd (restoreStored ctx2 (cq_authorization q) (storedInvocation v) s2)) = w_rest s2 \<and>
    (\<forall>res. v = tool_result res \<longrightarrow> callOperation ctx2 en2 gw2 (Some ix2) uuid2 q (tbl2, s2) = Some (Inr v, (lt_others turn tbl2, s2)))"
proof -
  let ?h = "hashArguments (wc_env ctx (w_turn s)) (cq_arguments q)"
  obtain anchors' where key: "oc_idempotency (od_capabilities (vo_operation (cq_operation q)))" "\<not> (length key < 1 \<or> length key > 256)"
      and run: "call_with_key ctx en gw ix q anchors' ?h key (tbl, s) = Some (Inr v, (tbl1, s1))"
    using callOperation_key [OF first(1,2)] .
  note rec = call_with_key_records [OF run, unfolded call_key, OF first(4) idem_reachable_inv [OF first(3)]]
  have "callOperation ctx2 en2 gw2 (Some ix2) uuid2 q (tbl2, s2) = call_with_key ctx2 en2 gw2 ix2 q anchors ?h key (tbl2, s2)"
    using key again(1,4) first(2) by (simp add: callOperation_def Let_def)
  then have call: "callOperation ctx2 en2 gw2 (Some ix2) uuid2 q (tbl2, s2) =
      (case restoreStored ctx2 (cq_authorization q) (storedInvocation v) s2 of (r, w) \<Rightarrow> Some (r, (lt_others turn tbl2, w)))"
    using call_with_key_recorded [OF conjunct2 [OF rec] conjunct1 [OF rec], unfolded call_key, OF between again(2,3)] by simp
  moreover have "w_rest (snd (restoreStored ctx2 (cq_authorization q) (storedInvocation v) s2)) = w_rest s2"
    by (rule silent_restore [unfolded silent.stays_def same_rest_def, rule_format])
  ultimately show ?thesis by (auto simp: restoreStored_def storedInvocation_def ret_def)
qed

section \<open>Calls and the store\<close>

lemma runs_restore: "others_step ctx \<Longrightarrow> runs.stays (restoreStored ctx a x)"
  unfolding restoreStored_def by (cases x) (auto intro!: runs.stays_intros runs_reads runs_page)

lemma execute_runs:
  assumes "\<And>sid recovering t w. store_run w (snd (snd (invoke sid recovering (t, w))))"
    and "idem_execute leaseMs waitUntil exists_task id input owner invoke hit turns (tbl, w) = Some (r, (tbl', w'))"
  shows "store_run w w'"
  using assms(2)
proof (induction turns arbitrary: hit tbl w)
  case (Cons turn turns)
  show ?case
  proof (cases "idem_claim (lt_clock turn) leaseMs (lt_uuid turn) input owner (lt_others turn tbl)")
    case (Inr c)
    obtain claim t1 where c: "c = (claim, t1)" by (cases c)
    show ?thesis
    proof (cases claim)
      case (idem_claimed sid recovering dup)
      then have "run_claimed (lt_clock turn) exists_task input owner invoke sid recovering (t1, w) = (r, (tbl', w'))"
        using Cons.prems Inr c by (simp add: Let_def)
      then show ?thesis using assms(1) [of w sid recovering t1]
        by (auto simp: run_claimed_def split: prod.splits sum.splits)
    next
      case idem_wait
      then show ?thesis using Cons.prems Inr c Cons.IH by (auto simp: Let_def runs.before_refl split: if_splits)
    qed (use Cons.prems Inr c in \<open>auto simp: Let_def runs.before_refl\<close>)
  qed (use Cons.prems in \<open>auto simp: runs.before_refl\<close>)
qed simp

lemma callOperation_runs:
  fixes s :: "'w world"
  assumes "others_step ctx" "callOperation ctx en gw idem uuid q (tbl, s) = Some (r, (tbl', s'))"
  shows "store_run s s'"
proof -
  have exec: "store_run w (snd (executeOperation ctx en gw iv w))" for iv and w
    by (rule runs_executeOperation [OF assms(1), unfolded runs.stays_def, rule_format])
  have rest: "store_run w (snd (restoreStored ctx a x w))" for a x and w :: "'w world"
    by (rule runs_restore [OF assms(1), unfolded runs.stays_def, rule_format])
  have key: "store_run s s'" if call: "call_with_key ctx en gw ix q anchors h key (tbl, s) = Some (r, (tbl', s'))" for ix anchors h key
  proof -
    have inv: "store_run w (snd (snd (invoke_operation ctx en gw ix q anchors h sid recovering (t, w))))" for sid recovering t w
      using exec [of w] by (simp add: invoke_operation_def split: prod.splits) (metis snd_conv)
    obtain y t1 w1 where ex: "idem_execute (ix_leaseMs ix) (ix_waitUntil ix) (\<lambda>w t. find_task t (w_db w) \<noteq> None) id (idem_input_of q key h) (ix_owner ix)
         (invoke_operation ctx en gw ix q anchors h) False (ix_turns ix) (tbl, s) = Some (y, (t1, w1))"
      using call by (auto simp: call_with_key_def split: option.splits)
    have "store_run s w1" using execute_runs [OF inv ex] .
    moreover have "store_run w1 s'"
      using call ex rest [of w1 "cq_authorization q"] by (cases y) (auto simp: call_with_key_def runs.before_refl split: prod.splits, metis snd_conv)
    ultimately show ?thesis by (rule runs.before_trans)
  qed
  show ?thesis using assms(2) key exec [of s]
    by (auto simp: callOperation_def Let_def runs.before_refl split: sum.splits option.splits if_splits prod.splits) (metis snd_conv)
qed

end
