(* ===== verification/Recovery.thy ===== *)
theory Recovery
  imports Engine_Theorems
begin

text \<open>
  The recovery manager (\<^verbatim>\<open>packages/task-engine/src/recovery.ts\<close>): a scan takes up the admissions that were left pending or
  uncertain, then the tasks that are due for reconciliation, each under its recovery lease.  The counters of the scan are its result; telemetry is left
  out.  \<open>uuid\<close> draws the owner of a lease.
\<close>

section \<open>The lease\<close>

text \<open>\<^verbatim>\<open>withRecoveryLock\<close> as a program: the lease is taken and given back by calls of their own, the action runs in between.\<close>

definition with_recovery_lock :: "worker_ctx \<Rightarrow> (nat \<Rightarrow> string) \<Rightarrow> string \<Rightarrow> int \<Rightarrow> ('w, 'a) program \<Rightarrow> ('w, 'a option) program" where
  "with_recovery_lock ctx uuid t leaseMilliseconds act s =
     (let owner = uuid (w_turn s); key = recovery_lease_key t in
      andThen (call ctx (\<lambda>_ env db. Inr (claim_lease env key owner leaseMilliseconds db))) (\<lambda>claimed.
      if \<not> claimed then ret None
      else (\<lambda>s1. case act s1 of (r, s2) \<Rightarrow>
        andThen (call ctx (\<lambda>_ _ db. Inr ((), release_lease key owner db))) (\<lambda>_. lift_err (map_sum id Some r)) s2)) s)"

section \<open>The scan\<close>

record RecoveryScanResult =
  rv_admissionsRecovered :: nat
  rv_tasksReconciled :: nat
  rv_notFound :: nat
  rv_deferred :: nat
  rv_lockSkipped :: nat

definition count_deferred :: "RecoveryScanResult \<Rightarrow> RecoveryScanResult" where
  "count_deferred r = r\<lparr>rv_deferred := rv_deferred r + 1\<rparr>"

definition count_skipped :: "RecoveryScanResult \<Rightarrow> RecoveryScanResult" where
  "count_skipped r = r\<lparr>rv_lockSkipped := rv_lockSkipped r + 1\<rparr>"

text \<open>\<^verbatim>\<open>for (const x of xs) await act(x)\<close>.\<close>

fun for_each :: "('a \<Rightarrow> 'r \<Rightarrow> ('w, 'r) program) \<Rightarrow> 'a list \<Rightarrow> 'r \<Rightarrow> ('w, 'r) program" where
  "for_each act [] r = ret r"
| "for_each act (x # xs) r = andThen (act x r) (for_each act xs)"

text \<open>The outcome of a program as a value: what the \<^verbatim>\<open>try\<close> block gave, or the error it threw.\<close>

definition attempt :: "('w, 'a) program \<Rightarrow> ('w, err + 'a) program" where
  "attempt m = catching (andThen m (\<lambda>v. ret (Inr v))) (\<lambda>e. ret (Inl e))"

definition recover_one ::
  "worker_ctx \<Rightarrow> engine \<Rightarrow> ('w, 'z) start_gateway_scheme \<Rightarrow> (nat \<Rightarrow> string) \<Rightarrow> int \<Rightarrow> AdmissionIntentInput \<times> admission_state
   \<Rightarrow> RecoveryScanResult \<Rightarrow> ('w, RecoveryScanResult) program" where
  "recover_one ctx en gw uuid recoveryLeaseMs admission r =
     andThen (attempt (with_recovery_lock ctx uuid (in_taskId (fst admission)) recoveryLeaseMs
       (andThen (loadOperation ctx (in_operationSnapshotId (fst admission))) (\<lambda>operation.
        recoverAdmission ctx en gw (fst admission) operation)))) (\<lambda>outcome.
     ret (case outcome of
         Inl _ \<Rightarrow> count_deferred r
       | Inr None \<Rightarrow> count_skipped r
       | Inr (Some _) \<Rightarrow> r\<lparr>rv_admissionsRecovered := rv_admissionsRecovered r + 1\<rparr>))"

text \<open>The callback of a task: \<open>None\<close> for a task that has ended or is gone.\<close>

definition reconcile_locked ::
  "worker_ctx \<Rightarrow> ('w, 'z) start_gateway_scheme \<Rightarrow> string \<Rightarrow> ('w, reconcile_outcome option) program" where
  "reconcile_locked ctx gw t =
     andThen (read_store ctx (\<lambda>_. getById t)) (\<lambda>row.
     case row of
       None \<Rightarrow> ret None
     | Some task \<Rightarrow>
         if isTerminalState (internal_state task) then ret None
         else
           andThen (loadOperation ctx (in_operationSnapshotId (spec task))) (\<lambda>operation.
           andThen (reconcileTask ctx gw task operation) (\<lambda>outcome. ret (Some outcome))))"

definition note_failure_of :: "worker_ctx \<Rightarrow> string \<Rightarrow> ('w, unit) program" where
  "note_failure_of ctx t = call ctx (\<lambda>_ env. noteRecoveryFailure env (wc_hashtext ctx) t (now env))"

text \<open>The \<^verbatim>\<open>catch\<close> block: a note that fails as well is dropped.\<close>

definition reconcile_failed :: "worker_ctx \<Rightarrow> string \<Rightarrow> RecoveryScanResult \<Rightarrow> ('w, RecoveryScanResult) program" where
  "reconcile_failed ctx t r = andThen (attempt (note_failure_of ctx t)) (\<lambda>_. ret (count_deferred r))"

definition reconcile_one ::
  "worker_ctx \<Rightarrow> ('w, 'z) start_gateway_scheme \<Rightarrow> (nat \<Rightarrow> string) \<Rightarrow> int \<Rightarrow> task_row \<Rightarrow> RecoveryScanResult \<Rightarrow> ('w, RecoveryScanResult) program" where
  "reconcile_one ctx gw uuid recoveryLeaseMs candidate r =
     andThen (attempt (with_recovery_lock ctx uuid (task_id candidate) recoveryLeaseMs (reconcile_locked ctx gw (task_id candidate)))) (\<lambda>outcome.
     case outcome of
       Inl _ \<Rightarrow> reconcile_failed ctx (task_id candidate) r
     | Inr None \<Rightarrow> ret (count_skipped r)
     | Inr (Some None) \<Rightarrow> ret r
     | Inr (Some (Some found)) \<Rightarrow> ret (r\<lparr>rv_tasksReconciled := rv_tasksReconciled r + 1\<rparr>)
     | Inr (Some (Some not_found)) \<Rightarrow> ret (r\<lparr>rv_notFound := rv_notFound r + 1\<rparr>)
     | Inr (Some (Some deferred)) \<Rightarrow>
         andThen (attempt (note_failure_of ctx (task_id candidate))) (\<lambda>noted.
         case noted of
           Inr _ \<Rightarrow> ret (count_deferred r)
         | Inl _ \<Rightarrow> reconcile_failed ctx (task_id candidate) (count_deferred r)))"

definition recovery_scan ::
  "worker_ctx \<Rightarrow> engine \<Rightarrow> ('w, 'z) start_gateway_scheme \<Rightarrow> (nat \<Rightarrow> string) \<Rightarrow> int \<Rightarrow> ('w, RecoveryScanResult) program" where
  "recovery_scan ctx en gw uuid recoveryLeaseMs =
     andThen (read_store ctx (\<lambda>_. listAdmissionsForRecovery 128)) (\<lambda>admissions.
     andThen (for_each (recover_one ctx en gw uuid recoveryLeaseMs) admissions
       \<lparr>rv_admissionsRecovered = 0, rv_tasksReconciled = 0, rv_notFound = 0, rv_deferred = 0, rv_lockSkipped = 0\<rparr>) (\<lambda>r.
     andThen (read_store ctx (\<lambda>env. listTasksForRecovery env 256)) (\<lambda>tasks.
     for_each (reconcile_one ctx gw uuid recoveryLeaseMs) tasks r)))"

section \<open>A scan is a run of the store\<close>

lemma runs_lock:
  fixes act :: "('w, 'a) program"
  assumes "others_step ctx" "runs.stays act"
  shows "runs.stays (with_recovery_lock ctx uuid t lease act)"
proof -
  have claim: "runs.stays (call ctx (\<lambda>_ env db. Inr (claim_lease env k owner lease db)))" for k owner
    using assms(1) by (rule runs_step) (auto intro: take_lease)
  have give: "runs.stays (andThen (call ctx (\<lambda>_ _ db. Inr ((), release_lease k owner db))) (\<lambda>_. lift_err r) :: ('w, 'a option) program)" for k owner r
    using assms(1) by (intro runs.stays_andThen runs.stays_lift runs_step) (auto intro: give_lease)
  have act: "runs.stays (\<lambda>s1. case act s1 of (r, s2) \<Rightarrow>
      andThen (call ctx (\<lambda>_ _ db. Inr ((), release_lease k owner db))) (\<lambda>_. lift_err (map_sum id Some r)) s2)" for k owner
    unfolding runs.stays_def
  proof
    fix s
    obtain r s2 where a: "act s = (r, s2)" by (cases "act s")
    have "store_run s s2" by (rule runs.staysD [OF assms(2) a])
    moreover have "store_run s2 (snd (andThen (call ctx (\<lambda>_ _ db. Inr ((), release_lease k owner db))) (\<lambda>_. lift_err (map_sum id Some r)) s2))"
      using give [of k owner "map_sum id Some r"] unfolding runs.stays_def by (rule spec)
    ultimately show "store_run s (snd (case act s of (r, s2) \<Rightarrow>
        andThen (call ctx (\<lambda>_ _ db. Inr ((), release_lease k owner db))) (\<lambda>_. lift_err (map_sum id Some r)) s2))"
      by (simp add: a runs.before_trans)
  qed
  have "runs.stays (andThen (call ctx (\<lambda>_ env db. Inr (claim_lease env k owner lease db))) (\<lambda>claimed.
      if \<not> claimed then ret None
      else (\<lambda>s1. case act s1 of (r, s2) \<Rightarrow>
        andThen (call ctx (\<lambda>_ _ db. Inr ((), release_lease k owner db))) (\<lambda>_. lift_err (map_sum id Some r)) s2)))" for k owner
    by (intro runs.stays_andThen runs.stays_if runs.stays_ret claim act)
  then show ?thesis by (simp add: runs.stays_def with_recovery_lock_def Let_def)
qed

lemma runs_attempt: "runs.stays m \<Longrightarrow> runs.stays (attempt m)"
  unfolding attempt_def by (intro runs.stays_intros)

lemma runs_for_each: "(\<And>x r. runs.stays (act x r)) \<Longrightarrow> runs.stays (for_each act xs r)"
  by (induction xs arbitrary: r) (auto intro: runs.stays_ret runs.stays_andThen)

lemma runs_recover_one: "others_step ctx \<Longrightarrow> runs.stays (recover_one ctx en gw uuid lease admission r)"
  unfolding recover_one_def by (intro runs.stays_intros runs_attempt runs_lock runs_recoverAdmission)

lemma runs_note: "others_step ctx \<Longrightarrow> runs.stays (note_failure_of ctx t)"
  unfolding note_failure_of_def by (rule runs_step) (assumption | erule repo_step.intros)+

lemma runs_reconcile_failed: "others_step ctx \<Longrightarrow> runs.stays (reconcile_failed ctx t r)"
  unfolding reconcile_failed_def by (intro runs.stays_intros runs_attempt runs_note)

lemma runs_reconcile_locked: "others_step ctx \<Longrightarrow> runs.stays (reconcile_locked ctx gw t)"
  unfolding reconcile_locked_def by (intro runs.stays_intros runs_read runs_reconcileTask)

lemma runs_reconcile_one: "others_step ctx \<Longrightarrow> runs.stays (reconcile_one ctx gw uuid lease candidate r)"
  unfolding reconcile_one_def
  by (rule runs.stays_andThen)
    (auto split: sum.splits option.splits reconcile_outcome.splits
      intro!: runs.stays_andThen runs.stays_ret runs_attempt runs_lock runs_reconcile_locked runs_reconcile_failed runs_note)

lemma runs_scan: "others_step ctx \<Longrightarrow> runs.stays (recovery_scan ctx en gw uuid lease)"
  unfolding recovery_scan_def by (intro runs.stays_andThen runs_read runs_for_each runs_recover_one runs_reconcile_one)

section \<open>A scan completes\<close>

text \<open>Programs that always return a value.\<close>

definition returns :: "('w, 'a) program \<Rightarrow> bool" where
  "returns m = (\<forall>s. \<exists>v s'. m s = (Inr v, s'))"

lemma returns_andThen: "returns m \<Longrightarrow> (\<And>v. returns (f v)) \<Longrightarrow> returns (andThen m f)"
  unfolding returns_def andThen_def by (metis (mono_tags, lifting) old.prod.case sum.case(2))

lemma returns_basic: "returns (ret v)" "returns (read_store ctx f)" "returns (attempt m)"
  by (auto simp: returns_def ret_def read_store_def call_def Let_def attempt_def catching_def andThen_def split: sum.splits prod.splits)

lemma returns_for_each: "(\<And>x r. returns (act x r)) \<Longrightarrow> returns (for_each act xs r)"
  by (induction xs arbitrary: r) (auto intro: returns_basic returns_andThen)

lemma returns_recover_one: "returns (recover_one ctx en gw uuid lease admission r)"
  unfolding recover_one_def by (intro returns_andThen returns_basic)

lemma returns_reconcile_one: "returns (reconcile_one ctx gw uuid lease candidate r)"
  unfolding reconcile_one_def reconcile_failed_def
  by (rule returns_andThen) (auto split: sum.splits option.splits reconcile_outcome.splits intro!: returns_andThen returns_basic)

lemma returns_scan: "returns (recovery_scan ctx en gw uuid lease)"
  unfolding recovery_scan_def by (intro returns_andThen returns_basic returns_for_each returns_recover_one returns_reconcile_one)

text \<open>C33. A recovery scan always completes: whatever goes wrong with single admissions or tasks, adapter errors and lost races
  included, the scan returns its counters, and it leaves a store that the repository's own operations produce, with every ended task as it was and
  every admission still there.\<close>

theorem recovery_scan_completes:
  assumes "others_step ctx" "reachable_store (w_db s)"
  shows "\<exists>r s'. recovery_scan ctx en gw uuid lease s = (Inr r, s') \<and> reachable_store (w_db s') \<and> finals_kept (w_db s) (w_db s') \<and>
    (\<forall>t. admitted t (w_db s) \<longrightarrow> admitted t (w_db s'))"
proof -
  obtain r s' where run: "recovery_scan ctx en gw uuid lease s = (Inr r, s')" using returns_scan unfolding returns_def by blast
  show ?thesis using run runs_keep_finals [OF runs_scan [OF assms(1)] run assms(2)] admitted_kept [OF runs_scan [OF assms(1)] run assms(2)] by blast
qed

section \<open>The lease excludes\<close>

text \<open>While another replica holds the recovery lease of a task, recovery of it is skipped: the action does not run, so the adapter is not
  called and the store stays as the others left it.\<close>

theorem held_lease_skips:
  assumes "find_lease (recovery_lease_key t) (w_db (settle_others ctx s)) = Some l" "clk (wc_env ctx (w_turn s)) < ls_expires_at l"
  shows "with_recovery_lock ctx uuid t lease act s = (Inr None, settle_others ctx s)"
  using assms by (simp add: with_recovery_lock_def andThen_def call_def Let_def claim_lease_def ret_def)

end
