(* ===== verification/Scheduler_Theorems.thy ===== *)
theory Scheduler_Theorems
  imports Scheduler Worker_Lemmas
begin

text \<open>What a tick of the scheduler does to the store and to the adapter, and what becomes of a start outside its window.\<close>

section \<open>A tick is a run of the store\<close>

lemma runs_identity:
  "others_step ctx \<Longrightarrow> runs.stays (if b then call ctx (\<lambda>_ env. recordIdentityConflict env t m) else ret ())"
  by (intro runs.stays_if runs.stays_ret runs_step) (assumption | erule repo_step.intros)+

lemma runs_defer_confirmation: "others_step ctx \<Longrightarrow> runs.stays (defer_confirmation_at ctx task owner at message)"
  unfolding defer_confirmation_at_def by (rule runs_step) (assumption | erule repo_step.intros)+

lemma runs_confirmation_renewal:
  "others_step ctx \<Longrightarrow> runs.stays (call ctx (\<lambda>_ env. renewStartConfirmationClaim env t owner lease))"
  "others_step ctx \<Longrightarrow> runs.stays (call ctx (\<lambda>_ env. stopUnconfirmedBoundExecution env t owner at))"
  by (rule runs_step, assumption, erule repo_step.intros)+

lemma runs_confirm_started:
  "others_step ctx \<Longrightarrow> runs.stays (call ctx (\<lambda>_ env. confirmBoundExecutionStarted t owner revision
     (validatedSnapshotTransition (now env) (legacy_date env) operation snapshot) at))"
  by (rule runs_step) (auto intro: confirm_started validatedSnapshotTransition_ok)

lemma runs_confirm_bound: "others_step ctx \<Longrightarrow> runs.stays (confirm_bound ctx lease gw task owner r)"
  unfolding confirm_bound_def Let_def
  by (intro runs.stays_intros runs_remote runs_confirmation_renewal runs_confirm_started runs_defer_confirmation)

lemma runs_confirm: "others_step ctx \<Longrightarrow> runs.stays (confirm ctx lease gw task r)"
  unfolding confirm_def by (intro runs.stays_intros runs_confirm_bound runs_defer_confirmation)

lemma runs_watchdog: "others_step ctx \<Longrightarrow> runs.stays (watchdog_tick ctx workerId concurrency lease gw)"
  unfolding watchdog_tick_def
  by (intro runs.stays_andThen runs.stays_clock runs.stays_all runs_confirm runs_step) (assumption | erule repo_step.intros)+

lemma runs_accept_scheduled:
  "others_step ctx \<Longrightarrow> runs.stays (call ctx (\<lambda>_ env. acceptScheduled env t owner ext revision
     (validatedSnapshotTransition (now env) (legacy_date env) operation snapshot) response inputs missed started))"
  by (rule runs_step) (auto intro: accept_scheduled validatedSnapshotTransition_ok)

lemma runs_acceptStart: "others_step ctx \<Longrightarrow> runs.stays (acceptStart ctx task owner operation ext snapshot response at)"
  unfolding acceptStart_def by (intro runs.stays_intros runs_accept_scheduled)

lemma runs_window_missed: "others_step ctx \<Longrightarrow> runs.stays (window_missed_at ctx task owner at r)"
  unfolding window_missed_at_def by (intro runs.stays_intros runs_step) (assumption | erule repo_step.intros)+

lemma runs_rejected_start: "others_step ctx \<Longrightarrow> runs.stays (rejected_start ctx task owner at reason message r)"
  unfolding rejected_start_def by (intro runs.stays_intros runs_step) (assumption | erule repo_step.intros)+

lemma runs_deferred:
  assumes "others_step ctx"
  shows "runs.stays (deferred_by ctx deferScheduleReconcile task owner at message r)"
    "runs.stays (deferred_by ctx releaseScheduleRetry task owner at message r)"
    "runs.stays (deferred_by ctx markScheduleResponseUncertain task owner at message r)"
  unfolding deferred_by_def
  by (intro runs.stays_andThen runs.stays_lift runs.stays_ret runs_step assms, erule repo_step.intros)+

lemma runs_renew_schedule: "others_step ctx \<Longrightarrow> runs.stays (renew_schedule_claim ctx lease task owner)"
  unfolding renew_schedule_claim_def by (rule runs_step) (assumption | erule repo_step.intros)+

lemmas runs_start_parts = runs.stays_intros runs_remote runs_acceptStart runs_window_missed runs_rejected_start runs_deferred
  runs_renew_schedule runs_identity

lemma runs_reconcile_start: "others_step ctx \<Longrightarrow> runs.stays (reconcile_start ctx lease gw task owner r)"
  unfolding reconcile_start_def by (intro runs_start_parts)

lemma runs_reconcileUncertainStart: "others_step ctx \<Longrightarrow> runs.stays (reconcileUncertainStart ctx lease gw task r)"
  unfolding reconcileUncertainStart_def by (intro runs_start_parts runs_reconcile_start)

lemma runs_start_answered: "others_step ctx \<Longrightarrow> runs.stays (start_answered ctx task owner operation response at r)"
  unfolding start_answered_def by (intro runs_start_parts)

lemma runs_start_call: "runs.stays (\<lambda>s. remote (rpc (wc_env ctx (w_turn s))) s)"
  by (auto simp: runs.stays_def remote_def store_run_def split: prod.splits)

lemma runs_startClaimedTask: "others_step ctx \<Longrightarrow> runs.stays (startClaimedTask ctx lease gw task r)"
  unfolding startClaimedTask_def by (intro runs_start_parts runs_start_answered runs_start_call)

lemma runs_scheduler: "others_step ctx \<Longrightarrow> runs.stays (scheduler_tick ctx d gw)"
  unfolding scheduler_tick_def
  by (intro runs.stays_andThen runs.stays_clock runs.stays_ret runs_watchdog runs.stays_all runs_reconcileUncertainStart runs_startClaimedTask runs_step)
    (assumption | erule repo_step.intros)+

section \<open>The adapter is left alone\<close>

lemma silent_window_missed: "silent.stays (window_missed_at ctx task owner at r)"
  unfolding window_missed_at_def by (intro silent.stays_intros silent_call)

lemma missed_window_recorded:
  assumes "completeStartWindowMissed t at owner db = Inr (v, db')" "db_inv db"
  shows "has_event [t, ''start-window-missed''] db'"
proof -
  obtain row r ap where run: "transitionTask (start_window_missed_request at (Some (version row)) t) db = Inr ((r, ap), db')"
      "first_row (\<lambda>r. claimed_by t STARTING owner r \<and> external_execution_id r = None) (provider_task db) = Some row"
    using assms(1) by (auto simp: completeStartWindowMissed_def bind_err_Inr_iff split: option.splits)
  then have row: "row \<in> set (provider_task db)" "task_id row = t" "internal_state row = STARTING"
    by (auto dest!: first_row_SomeD simp: claimed_by_def)
  from run(1) show ?thesis
  proof (cases rule: transitionTask_InrE)
    case skipped
    then show ?thesis using find_task_mem [OF assms(2) row(1)] row
      by (auto simp: start_window_missed_request_def Let_def transition_guard_def transition_update_def no_update_def isTerminalState_iff)
  qed (auto simp: start_window_missed_request_def Let_def transition_applied_def has_event_def)
qed

text \<open>C10. A task whose start window has closed is never started: when the window is closed as a worker takes up a claimed task, the worker
  makes no call of the adapter, and if it returns, the missed window is on record.\<close>

theorem closed_window_never_starts:
  assumes "others_step ctx" "reachable_store (w_db s)"
    and "startWindowClosed task (now (wc_env ctx (w_turn s)))" "startClaimedTask ctx lease gw task r s = (x, s')"
  shows "w_rest s' = w_rest s \<and>
    (\<forall>r'. x = Inr r' \<longrightarrow> r' = r\<lparr>sk_missed := sk_missed r + 1\<rparr> \<and> has_event [task_id task, ''start-window-missed''] (w_db s'))"
proof -
  have run: "startClaimedTask ctx lease gw task r s =
      andThen (lift_err (requiredClaimOwner task)) (\<lambda>owner.
      andThen (renew_schedule_claim ctx lease task owner) (\<lambda>_.
      window_missed_at ctx task owner (now (wc_env ctx (w_turn s))) r)) s"
    using assms(3) by (cases "requiredClaimOwner task")
      (simp_all add: startClaimedTask_def andThen_def lift_err_def clock_now_def)
  have "silent.stays (andThen (lift_err (requiredClaimOwner task)) (\<lambda>owner.
      andThen (renew_schedule_claim ctx lease task owner) (\<lambda>_. window_missed_at ctx task owner (now (wc_env ctx (w_turn s))) r)))"
    unfolding renew_schedule_claim_def by (intro silent.stays_intros silent_call silent_window_missed)
  then have "w_rest s' = w_rest s" using silent.staysD assms(4) run by (fastforce simp: same_rest_def)
  moreover have "r' = r\<lparr>sk_missed := sk_missed r + 1\<rparr> \<and> has_event [task_id task, ''start-window-missed''] (w_db s')" if x: "x = Inr r'" for r'
  proof -
    obtain owner s1 where one: "renew_schedule_claim ctx lease task owner s = (Inr (), s1)"
        "window_missed_at ctx task owner (now (wc_env ctx (w_turn s))) r s1 = (Inr r', s')"
      using assms(4) [unfolded run x] by (auto elim!: andThen_InrE)
    then obtain v where missed: "call ctx (\<lambda>_ _. completeStartWindowMissed (task_id task) (now (wc_env ctx (w_turn s))) owner) s1 = (Inr v, s')"
        "r' = r\<lparr>sk_missed := sk_missed r + 1\<rparr>"
      unfolding window_missed_at_def by (auto elim!: andThen_InrE)
    have "reachable_store (w_db s1)" using runs_reachable [OF runs_renew_schedule [OF assms(1)] one(1) assms(2)] by blast
    then have "db_inv (w_db (settle_others ctx s1))" using settle_reachable [OF assms(1)] reachable_store_inv by blast
    then show ?thesis using missed missed_window_recorded by (auto elim!: call_InrE)
  qed
  ultimately show ?thesis by blast
qed

section \<open>Delays\<close>

interpretation starts: backoff "\<lambda>n. start_delay (Suc n)" 5000
proof
  fix n
  show "0 < start_delay (Suc n)" "start_delay (Suc n) \<le> 5000" by (simp_all add: start_delay_def)
  show "start_delay (Suc n) \<le> start_delay (Suc (Suc n))"
    using capped_power_Suc [of 250 5000 n 5] by (simp add: start_delay_def)
qed

lemma start_jitter_bounds: "start_jitter t = Some j \<Longrightarrow> 0 \<le> j \<and> j < 101"
  by (auto simp: start_jitter_def)

text \<open>A deferred start comes back soon and not beyond its window: at most 5.1 seconds later, never after the latest start, and strictly
  later than now while the window is open.\<close>

theorem retryAt_bounds:
  assumes "retryAt task at = Inr t"
  shows "t \<le> at + 5100 \<and> (\<forall>latest. latest_start_at task = Some latest \<longrightarrow> t \<le> latest) \<and> (\<not> startWindowClosed task at \<longrightarrow> at < t)"
proof -
  obtain j where j: "start_jitter (task_id task) = Some j" using assms by (auto simp: retryAt_def split: option.splits)
  have "0 < start_delay (invocation_attempt task) \<and> start_delay (invocation_attempt task) \<le> 5000"
    using starts.delay_pos starts.delay_cap by (cases "invocation_attempt task") (auto simp: start_delay_def)
  then show ?thesis using assms start_jitter_bounds [OF j]
    by (auto simp: retryAt_def j Let_def startWindowClosed_def split: option.splits if_splits)
qed

section \<open>Late starts\<close>

text \<open>A stop in force that is not on behalf of the user: the dispatcher carries it through or fails the task.\<close>

definition required_stop :: "string \<Rightarrow> db \<Rightarrow> bool" where
  "required_stop t db = (\<exists>c. active_stop_command t db = Some c \<and> cmd_stop_reason c \<noteq> Some USER_REQUESTED)"

lemma required_stop_commands: "task_command db' = task_command db \<Longrightarrow> required_stop t db' = required_stop t db"
  by (simp add: required_stop_def active_stop_command_def)

lemma inserted_stop_required:
  assumes "active_stop_command t db = None" "task_command db' = task_command db @ [new_stop_command env previous n START_WINDOW_MISSED prio at]"
    "task_id previous = t"
  shows "required_stop t db'"
proof -
  let ?c = "new_stop_command env previous n START_WINDOW_MISSED prio at"
  have "latest_row cmd_sequence (\<lambda>c. cmd_task_id c = t \<and> active_stop c) (task_command db @ [?c]) = Some ?c"
    using assms(1,3) by (intro latest_row_single)
      (auto simp: active_stop_command_def latest_row_None_iff active_stop_def new_stop_command_def new_command_def)
  then show ?thesis using assms(2) by (simp add: required_stop_def active_stop_command_def new_stop_command_def new_command_def)
qed

lemma raised_stop_required:
  assumes "active_stop_command t db = Some c" "task_command db' = update_rows (is_command t (cmd_sequence c)) (raise_stop_to_window at) (task_command db)"
  shows "required_stop t db'"
proof -
  let ?P = "\<lambda>c. cmd_task_id c = t \<and> active_stop c"
  have c: "c \<in> set (task_command db)" "?P c" using latest_row_SomeD [OF assms(1) [unfolded active_stop_command_def]] by auto
  have raised: "raise_stop_to_window at c \<in> set (task_command db')"
    using c assms(2) by (force simp: update_rows_def is_command_def)
  then obtain d where d: "active_stop_command t db' = Some d"
    using c latest_row_None_iff [of cmd_sequence ?P "task_command db'"]
    by (cases "active_stop_command t db'") (auto simp: active_stop_command_def raise_stop_to_window_def active_stop_def)
  then have mem: "d \<in> set (task_command db')" "?P d" using latest_row_SomeD [OF d [unfolded active_stop_command_def]] by auto
  have "cmd_sequence c \<le> cmd_sequence d"
    using latest_row_max [OF d [unfolded active_stop_command_def] raised] c by (simp add: raise_stop_to_window_def active_stop_def)
  moreover have "cmd_sequence d \<le> cmd_sequence c" if "\<not> is_command t (cmd_sequence c) d"
  proof -
    have "d \<in> set (task_command db)" using mem(1) that unfolding assms(2)
      by (elim in_set_update_rowsE) (auto simp: is_command_def raise_stop_to_window_def)
    then show ?thesis using latest_row_max [OF assms(1) [unfolded active_stop_command_def]] mem by blast
  qed
  ultimately have "is_command t (cmd_sequence c) d" using mem by (auto simp: is_command_def)
  then have "cmd_stop_reason d = Some START_WINDOW_MISSED" using mem(1) unfolding assms(2)
    by (elim in_set_update_rowsE) (simp_all add: raise_stop_to_window_def)
  then show ?thesis using d by (simp add: required_stop_def)
qed

lemma persist_stops:
  assumes "persistStartWindowStop env t at db = Inr db'"
  shows "(\<exists>r. find_task t db' = Some r \<and> isTerminalState (internal_state r)) \<or> required_stop t db'"
proof -
  obtain previous where previous: "find_task t db = Some previous"
    using assms by (auto simp: persistStartWindowStop_def split: option.splits)
  show ?thesis
  proof (cases "isTerminalState (internal_state previous)")
    case True
    then show ?thesis using assms previous by (simp add: persistStartWindowStop_def)
  next
    case live: False
    show ?thesis
    proof (cases "active_stop_command t db")
      case None
      then obtain n db1 db2 x db3 c ty e where run: "take_sequence t db = Inr (n, db1)"
          "insert_command (new_stop_command env previous n START_WINDOW_MISSED 200 at) db1 = Inr db2"
          "transitionTask (start_window_stop_request t (version previous) START_WINDOW_MISSED n at) db2 = Inr (x, db3)"
          "db' = insertCommandFact env t c ty e db3"
        using assms previous live by (auto simp: persistStartWindowStop_def bind_err_Inr_iff Let_def split: if_splits)
      have "task_command db1 = task_command db" using run(1)
        by (auto simp: take_sequence_def bind_err_Inr_iff checked_Inr_iff update_task_def split: option.splits)
      then have "task_command db2 = task_command db @ [new_stop_command env previous n START_WINDOW_MISSED 200 at]"
        using run(2) by (auto simp: insert_command_def checked_Inr_iff)
      then have "task_command db' = task_command db @ [new_stop_command env previous n START_WINDOW_MISSED 200 at]"
        using run(4) transition_commands [OF run(3)] only_facts_simps(2) [OF only_facts_command_fact] by simp
      then show ?thesis using inserted_stop_required [OF None] previous by (auto dest: find_task_SomeD)
    next
      case (Some c)
      then obtain db1 x reason where run:
          "(if cmd_stop_reason c = Some USER_REQUESTED
            then checked (update_commands (is_command t (cmd_sequence c)) (raise_stop_to_window at) db) else Inr db) = Inr db1"
          "transitionTask (start_window_stop_request t (version previous) reason (cmd_sequence c) at) db1 = Inr (x, db')"
        using assms previous live by (auto simp: persistStartWindowStop_def bind_err_Inr_iff Let_def split: if_splits)
      have "required_stop t db1"
      proof (cases "cmd_stop_reason c = Some USER_REQUESTED")
        case True
        then show ?thesis using run(1) raised_stop_required [OF Some, of db1 at] by (auto simp: checked_Inr_iff update_commands_def)
      next
        case False
        then show ?thesis using run(1) Some by (simp add: required_stop_def)
      qed
      then show ?thesis using required_stop_commands [OF transition_commands [OF run(2)]] by simp
    qed
  qed
qed

text \<open>C11. A start that comes too late is stopped: when an accepted start is recorded although the adapter's answer came after the latest start
  time, the task is final already, or a stop that no user can take back is in force for it.\<close>

theorem late_start_is_stopped:
  assumes "startResponseLate task at" "acceptStart ctx task owner operation ext snapshot response at s = (Inr row, s')"
  shows "(\<exists>r. find_task (task_id task) (w_db s') = Some r \<and> isTerminalState (internal_state r)) \<or> required_stop (task_id task) (w_db s')"
proof -
  obtain env transition inputs started db where
      "acceptScheduled env (task_id task) owner ext (es_revision snapshot) transition response inputs (Some at) started db = Inr (row, w_db s')"
    using assms by (auto simp: acceptStart_def elim!: andThen_InrE call_InrE split: if_splits)
  then obtain claimed x db1 db2 db3 where run: "find_claimed (task_id task) STARTING owner db = Some claimed"
      "transitionTask (accept_scheduled_request env claimed ext (es_revision snapshot) transition started) db = Inr (x, db1)"
      "persistStartWindowStop env (task_id task) at db1 = Inr db2" "upsertInputRequests (task_id task) inputs db2 = Inr db3"
      "w_db s' = update_admission (task_id task) (\<lambda>_. True) (\<lambda>a. a\<lparr>ad_state := ADM_PUBLISHED, ad_adapter_response := Some response,
         ad_updated_at := clk env\<rparr>) db3"
    by (cases "find_claimed (task_id task) STARTING owner db")
      (auto simp: acceptScheduled_def bind_err_Inr_iff Let_def split: option.split_asm)
  have same: "provider_task (w_db s') = provider_task db2" "task_command (w_db s') = task_command db2"
    using upsert_frame [OF run(4)] run(5) by (simp_all add: update_admission_def)
  then show ?thesis using persist_stops [OF run(3)] required_stop_commands [OF same(2)] by (simp add: find_task_def)
qed

text \<open>A tick of the scheduler, with its watchdog, is safe whatever the adapter answers and whatever other replicas do meanwhile: it
  moves the store only by committed repository operations, so from a reachable store it leads to a reachable store, in which a task
  that was final is unchanged in state, result and error.\<close>

theorem scheduler_tick_safe:
  assumes "others_step ctx" "reachable_store (w_db s)" "scheduler_tick ctx d gw s = (r, s')"
  shows "reachable_store (w_db s') \<and> repo_step\<^sup>*\<^sup>* (w_db s) (w_db s') \<and> finals_kept (w_db s) (w_db s')"
  using runs_keep_finals [OF runs_scheduler [OF assms(1)] assms(3,2)] .

end
