(* ===== verification/Dispatcher.thy ===== *)
theory Dispatcher
  imports Worker
begin

text \<open>
  The command dispatcher (\<^verbatim>\<open>packages/task-engine/src/command-dispatcher.ts\<close>): it claims due commands, delivers each to the
  adapter under a heartbeat, checks that the acknowledgement belongs to the command, and records what came of it.  The
  executions of one tick run concurrently; they are run here one after the other, and what the others do in between is part of the
  context.  \<^verbatim>\<open>onMetric\<close> is left out.
\<close>

section \<open>Messages\<close>

record 'w command_gateway =
  cg_requestCancel :: "gateway_request \<Rightarrow> stop_reason \<Rightarrow> nat \<Rightarrow> 'w \<Rightarrow> (err + CommandAck) \<times> 'w"
  cg_updateMcpTaskExecution :: "gateway_request \<Rightarrow> nat \<Rightarrow> (string \<times> json) list \<Rightarrow> 'w \<Rightarrow> (err + CommandAck) \<times> 'w"
  cg_updateExecution :: "gateway_request \<Rightarrow> nat \<Rightarrow> input_answer list \<Rightarrow> 'w \<Rightarrow> (err + CommandAck) \<times> 'w"
  cg_pauseExecution :: "gateway_request \<Rightarrow> nat \<Rightarrow> 'w \<Rightarrow> (err + CommandAck) \<times> 'w"
  cg_resumeExecution :: "gateway_request \<Rightarrow> nat \<Rightarrow> 'w \<Rightarrow> (err + CommandAck) \<times> 'w"
  cg_reconcileExecution :: "gateway_request \<Rightarrow> 'w \<Rightarrow> (err + ReconcileExecutionResponse) \<times> 'w"

definition context_json :: "AdapterExecutionContext \<Rightarrow> json" where
  "context_json c = JObj [(''authorizationContextHash'', JStr (ax_authorizationContextHash c)),
     (''executionMode'', JStr (ax_executionMode c)), (''simulationId'', JStr (ax_simulationId c)),
     (''correlationId'', JStr (ax_correlationId c))]"

definition identity_json :: "CommandIdentity \<Rightarrow> json" where
  "identity_json i = JObj ([(''taskId'', JStr (ci_taskId i)), (''externalExecutionId'', JStr (ci_externalExecutionId i)),
     (''operationName'', JStr (ci_operationName i)), (''argumentHash'', JStr (ci_argumentHash i))] @
     (case ci_executionContext i of None \<Rightarrow> [] | Some c \<Rightarrow> [(''executionContext'', context_json c)]) @
     [(''commandSequence'', JNum (ci_commandSequence i))])"

text \<open>The acknowledgement as it is stored.\<close>

definition ack_json :: "CommandAck \<Rightarrow> json_object" where
  "ack_json a = [(''accepted'', JBool (ca_accepted a)), (''reasonCode'', JStr (ca_reasonCode a)), (''message'', JStr (ca_message a)),
     (''commandSequence'', JNum (ca_commandSequence a))] @
     (case ca_identity a of None \<Rightarrow> [] | Some i \<Rightarrow> [(''identity'', identity_json i)])"

definition retryDelayMs :: "command_row \<Rightarrow> int" where
  "retryDelayMs command = attempt_delay (cmd_attempt_count command)"

definition isRetryableAck :: "string \<Rightarrow> bool" where
  "isRetryableAck reasonCode =
     list_ex (\<lambda>part. text_includes part (toUpperCase reasonCode)) [''TRANSIENT'', ''RETRY'', ''UNAVAILABLE'', ''TIMEOUT'']"

text \<open>\<^verbatim>\<open>String(value)\<close>; \<open>None\<close> is \<^verbatim>\<open>undefined\<close>.\<close>

primrec js_String :: "json \<Rightarrow> string" where
  "js_String JNull = ''null''"
| "js_String (JBool b) = (if b then ''true'' else ''false'')"
| "js_String (JNum n) = show_int n"
| "js_String (JStr s) = s"
| "js_String (JArr xs) = join_comma (map (\<lambda>(x, t). if x = JNull then [] else t) (map (\<lambda>x. (x, js_String x)) xs))"
| "js_String (JObj kvs) = ''[object Object]''"

definition commandHash :: "runtime_env \<Rightarrow> json \<Rightarrow> string" where
  "commandHash env v = sha256 env (canonicalize v)"

definition frozen_answer :: "runtime_env \<Rightarrow> string \<times> json \<Rightarrow> err + input_answer" where
  "frozen_answer env kv =
     (case snd kv of
        JObj response \<Rightarrow>
          (let action = obj_get response ''action''; content = obj_get response ''content'' in
           if (case action of None \<Rightarrow> ''undefined'' | Some a \<Rightarrow> js_String a) \<notin> {''accept'', ''decline'', ''cancel''}
           then Inl (Error ''INVALID_UPDATE_COMMAND_PAYLOAD'')
           else let normalized = JObj ((case action of None \<Rightarrow> [] | Some a \<Rightarrow> [(''action'', a)]) @
                      (case content of None \<Rightarrow> [] | Some c \<Rightarrow> [(''content'', c)]))
                in Inr \<lparr>ans_key = fst kv, ans_answerHash = commandHash env normalized,
                        ans_value = (case content of None \<Rightarrow> JNull | Some c \<Rightarrow> c), ans_response = normalized\<rparr>)
      | _ \<Rightarrow> Inl (Error ''INVALID_UPDATE_COMMAND_PAYLOAD''))"

definition legacy_answer :: "runtime_env \<Rightarrow> string \<times> json \<Rightarrow> input_answer" where
  "legacy_answer env kv =
     \<lparr>ans_key = fst kv, ans_answerHash = commandHash env (snd kv), ans_value = snd kv,
      ans_response = JObj [(''action'', JStr ''accept''), (''content'', snd kv)]\<rparr>"

datatype update_kind = legacy | frozen

definition parseUpdatePayload :: "runtime_env \<Rightarrow> json_object \<Rightarrow> err + (update_kind \<times> input_answer list)" where
  "parseUpdatePayload env payload =
     (case obj_get payload ''inputResponses'' of
        Some (JObj inputResponses) \<Rightarrow> bind_err (map_err (frozen_answer env) inputResponses) (\<lambda>answers. Inr (frozen, answers))
      | _ \<Rightarrow>
          (case obj_get payload ''answers'' of
             Some (JObj answers) \<Rightarrow> Inr (legacy, map (legacy_answer env) answers)
           | _ \<Rightarrow> Inl (Error ''INVALID_UPDATE_COMMAND_PAYLOAD'')))"

section \<open>Dispatch\<close>

record dispatcher =
  ds_workerId :: string
  ds_concurrency :: nat
  ds_leaseMilliseconds :: int
  ds_maxSafeStopAttempts :: nat
  ds_maxInputResponseAttempts :: nat

datatype dispatch_outcome = d_acknowledged | d_retriable | d_rejected | d_exhausted | d_terminal

record CommandDispatcherTickResult =
  ct_claimed :: nat
  ct_acknowledged :: nat
  ct_retried :: nat
  ct_rejected :: nat
  ct_exhausted :: nat
  ct_terminal :: nat

definition renew_claim :: "worker_ctx \<Rightarrow> dispatcher \<Rightarrow> command_row \<Rightarrow> ('w, unit) program" where
  "renew_claim ctx d command = call ctx (\<lambda>_ env. renewCommandClaim env command (ds_leaseMilliseconds d))"

definition withClaimHeartbeat :: "worker_ctx \<Rightarrow> dispatcher \<Rightarrow> command_row \<Rightarrow> ('w \<Rightarrow> (err + 'a) \<times> 'w) \<Rightarrow> ('w, 'a) program" where
  "withClaimHeartbeat ctx d command rpc = withLeaseHeartbeat ctx (renew_claim ctx d command) (remote rpc)"

definition retry :: "worker_ctx \<Rightarrow> command_row \<Rightarrow> string \<Rightarrow> string \<Rightarrow> ('w, unit) program" where
  "retry ctx command errorCode errorMessage =
     andThen (clock_now ctx) (\<lambda>at.
       call ctx (\<lambda>_ env. retryClaimedCommand env command (at + retryDelayMs command) errorCode errorMessage))"

definition trySupersedeClaimedCommandForSafeStop :: "worker_ctx \<Rightarrow> command_row \<Rightarrow> ('w, bool) program" where
  "trySupersedeClaimedCommandForSafeStop ctx command =
     andThen (read_store ctx (\<lambda>_. getById (cmd_task_id command))) (\<lambda>task.
       case task of
         None \<Rightarrow> ret False
       | Some t \<Rightarrow>
           if \<not> cancel_requested t \<and> row_stop_reason t = None \<and> internal_state t \<noteq> STOPPING then ret False
           else catching
             (andThen (call ctx (\<lambda>_ env. supersedeClaimedCommandForSafeStop env command)) (\<lambda>_. ret True))
             (\<lambda>e. if err_message e = ''COMMAND_CLAIM_LOST'' then ret True else throw e))"

definition ack_stop_reason :: "command_row \<Rightarrow> stop_reason" where
  "ack_stop_reason command =
     (if cmd_stop_reason command = Some DEADLINE_REACHED then DEADLINE_REACHED
      else if cmd_stop_reason command = Some START_WINDOW_MISSED then START_WINDOW_MISSED
      else USER_REQUESTED)"

text \<open>The last part of \<^verbatim>\<open>dispatchCancel\<close>: the adapter refuses a user's cancellation for good, so the task is brought in line with what
  the adapter reports.\<close>

definition reconcile_rejected_cancel ::
  "worker_ctx \<Rightarrow> dispatcher \<Rightarrow> 'w command_gateway \<Rightarrow> command_row \<Rightarrow> task_row \<Rightarrow> ValidatedOperation \<Rightarrow> CommandAck \<Rightarrow> ('w, dispatch_outcome) program" where
  "reconcile_rejected_cancel ctx d gw command task operation ack =
     andThen (withClaimHeartbeat ctx d command (cg_reconcileExecution gw (execution_request task (vo_name operation)))) (\<lambda>reconciled.
       case (rr_status reconciled = ''FOUND'', rr_snapshot reconciled) of
         (True, Some snapshot) \<Rightarrow>
           if rr_externalExecutionId reconciled \<noteq> es_externalExecutionId snapshot
           then throw (Error ''ADAPTER_RECONCILE_IDENTITY_MISMATCH'')
           else
             andThen (lift_err (validateAdapterSnapshotIdentity snapshot (expected_identity task (vo_name operation)))) (\<lambda>_.
             andThen (call ctx (\<lambda>_ env. rejectUserCancel env command (es_revision snapshot)
               (validatedSnapshotTransition (now env) (legacy_date env) operation snapshot) (ack_json ack))) (\<lambda>_.
             ret d_rejected))
       | _ \<Rightarrow>
           andThen (retry ctx command (or_else (rr_reasonCode reconciled) ''RECONCILE_UNAVAILABLE'')
             (or_else (rr_message reconciled) ''Unable to reconcile rejected cancellation.'')) (\<lambda>_.
           ret d_retriable))"

definition dispatchCancel ::
  "worker_ctx \<Rightarrow> dispatcher \<Rightarrow> 'w command_gateway \<Rightarrow> command_row \<Rightarrow> task_row \<Rightarrow> ValidatedOperation \<Rightarrow> ('w, dispatch_outcome) program" where
  "dispatchCancel ctx d gw command task operation =
     andThen (withClaimHeartbeat ctx d command
       (cg_requestCancel gw (execution_request task (vo_name operation)) (ack_stop_reason command) (cmd_sequence command))) (\<lambda>ack.
     andThen (lift_err (validateCommandAckIdentity ack (expected_identity task (vo_name operation)) (int (cmd_sequence command)))) (\<lambda>_.
     if ca_accepted ack then
       andThen (call ctx (\<lambda>_ env. acknowledgeClaimedCommand env command (JObj (ack_json ack)))) (\<lambda>_. ret d_acknowledged)
     else if isRetryableAck (ca_reasonCode ack) then
       andThen (retry ctx command (or_else (ca_reasonCode ack) ''ADAPTER_RETRYABLE_REJECTION'')
         (or_else (ca_message ack) ''Adapter retryable safe-stop rejection.'')) (\<lambda>_. ret d_retriable)
     else if cmd_stop_reason command \<noteq> Some USER_REQUESTED then
       andThen (call ctx (\<lambda>_ env. failSafeStopUnconfirmed env command
         (or_else (ca_message ack) ''Adapter permanently rejected the required safe stop.''))) (\<lambda>_. ret d_exhausted)
     else reconcile_rejected_cancel ctx d gw command task operation ack))"

text \<open>The part common to updates and to pausing and resuming: a retryable refusal is retried unless a stop has overtaken the command, and
  a failure is passed on unless one has.\<close>

definition deliver_normal ::
  "worker_ctx \<Rightarrow> dispatcher \<Rightarrow> command_row \<Rightarrow> task_row \<Rightarrow> string \<Rightarrow> ('w \<Rightarrow> (err + CommandAck) \<times> 'w) \<Rightarrow> string
   \<Rightarrow> (CommandAck \<Rightarrow> ('w, dispatch_outcome) program) \<Rightarrow> (CommandAck \<Rightarrow> ('w, dispatch_outcome) program) \<Rightarrow> ('w, dispatch_outcome) program" where
  "deliver_normal ctx d command task operationName rpc message refused accepted =
     catching
       (andThen (withClaimHeartbeat ctx d command rpc) (\<lambda>ack.
        andThen (lift_err (validateCommandAckIdentity ack (expected_identity task operationName) (int (cmd_sequence command)))) (\<lambda>_.
        if \<not> ca_accepted ack then
          if isRetryableAck (ca_reasonCode ack) then
            andThen (trySupersedeClaimedCommandForSafeStop ctx command) (\<lambda>superseded.
              if superseded then ret d_exhausted
              else andThen (retry ctx command (or_else (ca_reasonCode ack) ''ADAPTER_RETRYABLE_REJECTION'')
                (or_else (ca_message ack) message)) (\<lambda>_. ret d_retriable))
          else refused ack
        else accepted ack)))
       (\<lambda>e. andThen (trySupersedeClaimedCommandForSafeStop ctx command) (\<lambda>superseded.
         if superseded then ret d_exhausted else throw e))"

definition dispatchUpdate ::
  "worker_ctx \<Rightarrow> dispatcher \<Rightarrow> 'w command_gateway \<Rightarrow> command_row \<Rightarrow> task_row \<Rightarrow> string \<Rightarrow> ('w, dispatch_outcome) program" where
  "dispatchUpdate ctx d gw command task operationName =
     andThen (\<lambda>s. lift_err (parseUpdatePayload (wc_env ctx (w_turn s)) (cmd_payload command)) s) (\<lambda>(kind, answers).
       deliver_normal ctx d command task operationName
         (if kind = frozen
          then cg_updateMcpTaskExecution gw (execution_request task operationName) (cmd_sequence command)
                 (map (\<lambda>a. (ans_key a, ans_response a)) answers)
          else cg_updateExecution gw (execution_request task operationName) (cmd_sequence command) answers)
         ''Adapter rejected update command.''
         (\<lambda>ack. andThen (call ctx (\<lambda>_ env. rejectInputResponseAndFailTask env command (ca_reasonCode ack)
            (or_else (ca_message ack) ''Adapter rejected update command.''))) (\<lambda>_. ret d_rejected))
         (\<lambda>ack. andThen (call ctx (\<lambda>_ env. acknowledgeUpdateAndCompleteInputAnswers env command (JObj (ack_json ack)) answers)) (\<lambda>r.
            ret (if r = acknowledged then d_acknowledged else d_exhausted))))"

definition dispatchPauseOrResume ::
  "worker_ctx \<Rightarrow> dispatcher \<Rightarrow> 'w command_gateway \<Rightarrow> command_row \<Rightarrow> task_row \<Rightarrow> string \<Rightarrow> ('w, dispatch_outcome) program" where
  "dispatchPauseOrResume ctx d gw command task operationName =
     deliver_normal ctx d command task operationName
       (if cmd_type command = PAUSE then cg_pauseExecution gw (execution_request task operationName) (cmd_sequence command)
        else cg_resumeExecution gw (execution_request task operationName) (cmd_sequence command))
       ''Adapter rejected pause/resume command.''
       (\<lambda>ack. andThen (call ctx (\<lambda>_ env. rejectClaimedCommand env command (ca_reasonCode ack)
          (or_else (ca_message ack) ''Adapter rejected pause or resume command.''))) (\<lambda>_. ret d_rejected))
       (\<lambda>ack. andThen (call ctx (\<lambda>_ env. acknowledgeClaimedCommand env command (JObj (ack_json ack)))) (\<lambda>_. ret d_acknowledged))"

definition dispatch ::
  "worker_ctx \<Rightarrow> dispatcher \<Rightarrow> 'w command_gateway \<Rightarrow> command_row \<Rightarrow> task_row \<Rightarrow> ('w, dispatch_outcome) program" where
  "dispatch ctx d gw command task =
     andThen (loadOperation ctx (in_operationSnapshotId (spec task))) (\<lambda>operation.
     andThen (call ctx (\<lambda>_ env. recordCommandStarted env command)) (\<lambda>_.
     case cmd_type command of
       CANCEL \<Rightarrow> andThen (call ctx (\<lambda>_ env. supersedeExpiredClaimedNormalCommandsForSafeStop env (cmd_task_id command))) (\<lambda>_.
         dispatchCancel ctx d gw command task operation)
     | UPDATE \<Rightarrow> dispatchUpdate ctx d gw command task (vo_name operation)
     | _ \<Rightarrow> dispatchPauseOrResume ctx d gw command task (vo_name operation)))"

text \<open>The \<^verbatim>\<open>catch\<close> of \<^verbatim>\<open>executeClaimed\<close>.\<close>

definition dispatch_failed ::
  "worker_ctx \<Rightarrow> dispatcher \<Rightarrow> command_row \<Rightarrow> task_row \<Rightarrow> err \<Rightarrow> ('w, dispatch_outcome) program" where
  "dispatch_failed ctx d command task e =
     (let retry_later = andThen (retry ctx command ''ADAPTER_TRANSIENT_ERROR'' (err_message e)) (\<lambda>_. ret d_retriable) in
      if isIdentityError e then
        andThen (call ctx (\<lambda>_ env. recordIdentityConflict env (cmd_task_id command) (err_message e))) (\<lambda>_.
        andThen (call ctx (\<lambda>_ env. rejectClaimedCommand env command ''ADAPTER_IDENTITY_MISMATCH'' (err_message e))) (\<lambda>_. ret d_rejected))
      else if cmd_type command = CANCEL \<and> cmd_stop_reason command \<noteq> Some USER_REQUESTED \<and>
              cmd_attempt_count command \<ge> ds_maxSafeStopAttempts d then
        andThen (call ctx (\<lambda>_ env. failSafeStopUnconfirmed env command (err_message e))) (\<lambda>_. ret d_exhausted)
      else if cmd_type command = UPDATE \<and> cmd_attempt_count command \<ge> ds_maxInputResponseAttempts d then
        andThen (call ctx (\<lambda>_ env. failInputResponseDelivery env command (err_message e))) (\<lambda>_. ret d_exhausted)
      else if cmd_type command \<noteq> CANCEL \<and> (cancel_requested task \<or> row_stop_reason task \<noteq> None) then
        andThen (trySupersedeClaimedCommandForSafeStop ctx command) (\<lambda>superseded.
          if superseded then ret d_exhausted else retry_later)
      else retry_later)"

definition executeClaimed ::
  "worker_ctx \<Rightarrow> dispatcher \<Rightarrow> 'w command_gateway \<Rightarrow> command_row \<Rightarrow> ('w, dispatch_outcome) program" where
  "executeClaimed ctx d gw command =
     andThen (renew_claim ctx d command) (\<lambda>_.
     andThen (read_store ctx (\<lambda>_. getById (cmd_task_id command))) (\<lambda>task.
       case task of
         Some t \<Rightarrow>
           if isTerminalState (internal_state t) then
             andThen (call ctx (\<lambda>_ env. rejectClaimedCommand env command ''TASK_TERMINAL''
               ''Task transitioned to terminal while command was in progress.'')) (\<lambda>_. ret d_terminal)
           else catching (dispatch ctx d gw command t) (dispatch_failed ctx d command t)
       | None \<Rightarrow>
           andThen (call ctx (\<lambda>_ env. rejectClaimedCommand env command ''TASK_TERMINAL''
             ''Task transitioned to terminal while command was in progress.'')) (\<lambda>_. ret d_terminal)))"

definition tally :: "dispatch_outcome \<Rightarrow> CommandDispatcherTickResult \<Rightarrow> CommandDispatcherTickResult" where
  "tally o1 r =
     (case o1 of
        d_acknowledged \<Rightarrow> r\<lparr>ct_acknowledged := ct_acknowledged r + 1\<rparr>
      | d_retriable \<Rightarrow> r\<lparr>ct_retried := ct_retried r + 1\<rparr>
      | d_rejected \<Rightarrow> r\<lparr>ct_rejected := ct_rejected r + 1\<rparr>
      | d_exhausted \<Rightarrow> r\<lparr>ct_exhausted := ct_exhausted r + 1\<rparr>
      | d_terminal \<Rightarrow> r\<lparr>ct_terminal := ct_terminal r + 1\<rparr>)"

definition execute_all ::
  "worker_ctx \<Rightarrow> dispatcher \<Rightarrow> 'w command_gateway \<Rightarrow> command_row list \<Rightarrow> CommandDispatcherTickResult \<Rightarrow> ('w, CommandDispatcherTickResult) program" where
  "execute_all ctx d gw = run_all (\<lambda>command r. andThen (executeClaimed ctx d gw command) (\<lambda>o1. ret (tally o1 r)))"

definition promote :: "worker_ctx \<Rightarrow> nat \<Rightarrow> ('w, nat) program" where
  "promote ctx limit s =
     (let s1 = settle_others ctx s
      in case promotePendingInputResponses (wc_env ctx (w_turn s)) (wc_inbox_free ctx (w_turn s)) (int limit) (w_db s1) of
           (r, db) \<Rightarrow> (r, s1\<lparr>w_db := db\<rparr>))"

definition dispatcher_tick ::
  "worker_ctx \<Rightarrow> dispatcher \<Rightarrow> 'w command_gateway \<Rightarrow> ('w, CommandDispatcherTickResult) program" where
  "dispatcher_tick ctx d gw =
     andThen (clock_now ctx) (\<lambda>at.
     andThen (promote ctx (ds_concurrency d)) (\<lambda>_.
     andThen (call ctx (\<lambda>n env. claimDueCommands env (wc_command_free ctx n) at (ds_workerId d) (ds_leaseMilliseconds d) (ds_concurrency d))) (\<lambda>commands.
     execute_all ctx d gw commands
       \<lparr>ct_claimed = length commands, ct_acknowledged = 0, ct_retried = 0, ct_rejected = 0, ct_exhausted = 0, ct_terminal = 0\<rparr>)))"

end
