(* ===== verification/Dispatcher_Theorems.thy ===== *)
theory Dispatcher_Theorems
  imports Dispatcher Worker_Lemmas
begin

text \<open>What the dispatcher does to the store, when it acknowledges a command, and how a stop that cannot be confirmed ends.\<close>

section \<open>A tick is a run of the store\<close>

lemma runs_renew: "others_step ctx \<Longrightarrow> runs.stays (renew_claim ctx d command)"
  unfolding renew_claim_def by (rule runs_step) (assumption | erule repo_step.intros)+

lemma runs_heartbeat: "others_step ctx \<Longrightarrow> runs.stays (withClaimHeartbeat ctx d command rpc)"
  unfolding withClaimHeartbeat_def by (intro runs.stays_heartbeat runs_renew runs_remote)

lemma runs_retry: "others_step ctx \<Longrightarrow> runs.stays (retry ctx command code message)"
  unfolding retry_def by (intro runs.stays_intros runs_step) (assumption | erule repo_step.intros)+

lemma runs_supersede: "others_step ctx \<Longrightarrow> runs.stays (trySupersedeClaimedCommandForSafeStop ctx command)"
  unfolding trySupersedeClaimedCommandForSafeStop_def
  by (intro runs.stays_intros runs_read runs_step) (assumption | erule repo_step.intros)+

lemmas runs_parts = runs.stays_intros runs_read runs_step runs_renew runs_heartbeat runs_retry runs_supersede

lemma runs_reject_cancel:
  "others_step ctx \<Longrightarrow> runs.stays (call ctx (\<lambda>_ env. rejectUserCancel env command revision
     (validatedSnapshotTransition (now env) (legacy_date env) operation snapshot) ack))"
  by (rule runs_step) (auto intro: reject_cancel validatedSnapshotTransition_ok)

lemma runs_reconcile: "others_step ctx \<Longrightarrow> runs.stays (reconcile_rejected_cancel ctx d gw command task operation ack)"
  unfolding reconcile_rejected_cancel_def by (intro runs.stays_intros runs_heartbeat runs_retry runs_reject_cancel)

lemma runs_cancel: "others_step ctx \<Longrightarrow> runs.stays (dispatchCancel ctx d gw command task operation)"
  unfolding dispatchCancel_def
  by (intro runs.stays_intros runs_heartbeat runs_retry runs_reconcile runs_step) (assumption | erule repo_step.intros)+

lemma runs_deliver:
  assumes "others_step ctx" "\<And>ack. runs.stays (refused ack)" "\<And>ack. runs.stays (accepted ack)"
  shows "runs.stays (deliver_normal ctx d command task operationName rpc message refused accepted)"
  unfolding deliver_normal_def by (intro runs.stays_intros runs_heartbeat runs_supersede runs_retry assms)

lemma runs_parse: "runs.stays (\<lambda>s. lift_err (parseUpdatePayload (wc_env ctx (w_turn s)) payload) s)"
  by (simp add: runs.stays_def lift_err_def runs.before_refl)

lemma runs_update: "others_step ctx \<Longrightarrow> runs.stays (dispatchUpdate ctx d gw command task operationName)"
  unfolding dispatchUpdate_def
  by (intro runs.stays_andThen runs.stays_pair runs_deliver runs.stays_ret runs_step runs_parse)
    (assumption | erule repo_step.intros)+

lemma runs_pause: "others_step ctx \<Longrightarrow> runs.stays (dispatchPauseOrResume ctx d gw command task operationName)"
  unfolding dispatchPauseOrResume_def
  by (intro runs_deliver runs.stays_andThen runs.stays_ret runs_step) (assumption | erule repo_step.intros)+

lemma runs_dispatch: "others_step ctx \<Longrightarrow> runs.stays (dispatch ctx d gw command task)"
proof -
  assume o: "others_step ctx"
  have "runs.stays (call ctx (\<lambda>_ env. recordCommandStarted env command))"
    "runs.stays (call ctx (\<lambda>_ env. supersedeExpiredClaimedNormalCommandsForSafeStop env (cmd_task_id command)))"
    using o by (auto intro!: runs_step intro: repo_step.intros)
  then show ?thesis unfolding dispatch_def using o
    by (cases "cmd_type command") (auto intro!: runs.stays_andThen runs.stays_load runs_cancel runs_update runs_pause)
qed

lemma runs_failed: "others_step ctx \<Longrightarrow> runs.stays (dispatch_failed ctx d command task e)"
  unfolding dispatch_failed_def Let_def
  by (intro runs.stays_intros runs_supersede runs_retry runs_step) (assumption | erule repo_step.intros)+

lemma runs_execute: "others_step ctx \<Longrightarrow> runs.stays (executeClaimed ctx d gw command)"
  unfolding executeClaimed_def
  by (intro runs.stays_intros runs_renew runs_read runs_dispatch runs_failed runs_step) (assumption | erule repo_step.intros)+

lemma runs_execute_all: "others_step ctx \<Longrightarrow> runs.stays (execute_all ctx d gw cs r)"
  unfolding execute_all_def by (intro runs.stays_all runs.stays_andThen runs_execute runs.stays_ret)

lemma runs_promote: "others_step ctx \<Longrightarrow> runs.stays (promote ctx limit :: ('w, nat) program)"
proof -
  assume o: "others_step ctx"
  have "store_run s (snd (promote ctx limit s))" for s :: "'w world"
  proof -
    obtain r db where p: "promotePendingInputResponses (wc_env ctx (w_turn s)) (wc_inbox_free ctx (w_turn s)) (int limit)
        (w_db (settle_others ctx s)) = (r, db)" by fastforce
    have "repo_step\<^sup>*\<^sup>* (w_db s) (w_db (settle_others ctx s))" using o by (simp add: others_step_def settle_others_def)
    then show ?thesis using promote_responses [OF p] p by (simp add: promote_def Let_def store_run_def)
  qed
  then show ?thesis by (simp add: runs.stays_def)
qed

lemma runs_tick: "others_step ctx \<Longrightarrow> runs.stays (dispatcher_tick ctx d gw)"
  unfolding dispatcher_tick_def
  by (intro runs.stays_intros runs_promote runs_execute_all runs_step) (assumption | erule repo_step.intros)+

section \<open>Acknowledgement\<close>

text \<open>The call of the adapter that delivers a command for a task under the operation's name.\<close>

definition delivery_call ::
  "'w command_gateway \<Rightarrow> runtime_env \<Rightarrow> command_row \<Rightarrow> task_row \<Rightarrow> string \<Rightarrow> 'w \<Rightarrow> (err + CommandAck) \<times> 'w" where
  "delivery_call gw env command task operationName =
     (let request = execution_request task operationName; n = cmd_sequence command in
      case cmd_type command of
        CANCEL \<Rightarrow> cg_requestCancel gw request (ack_stop_reason command) n
      | PAUSE \<Rightarrow> cg_pauseExecution gw request n
      | RESUME \<Rightarrow> cg_resumeExecution gw request n
      | UPDATE \<Rightarrow> (case parseUpdatePayload env (cmd_payload command) of
          Inl e \<Rightarrow> Pair (Inl e)
        | Inr (kind, answers) \<Rightarrow>
            if kind = frozen then cg_updateMcpTaskExecution gw request n (map (\<lambda>a. (ans_key a, ans_response a)) answers)
            else cg_updateExecution gw request n answers))"

text \<open>The answer was accepted for the command.\<close>

definition confirmed :: "command_row \<Rightarrow> task_row \<Rightarrow> string \<Rightarrow> CommandAck \<Rightarrow> bool" where
  "confirmed command task operationName ack =
     (ca_accepted ack \<and> validateCommandAckIdentity ack (expected_identity task operationName) (int (cmd_sequence command)) = Inr ())"

text \<open>The command's row in a state.\<close>

definition command_is :: "command_row \<Rightarrow> command_state \<Rightarrow> json option \<Rightarrow> db \<Rightarrow> bool" where
  "command_is held st ack db =
     (\<exists>c \<in> set (task_command db). is_command (cmd_task_id held) (cmd_sequence held) c \<and> cmd_state c = st \<and> cmd_adapter_ack c = ack)"

lemma update_owned_row:
  assumes "update_owned held P f db = Inr db'"
  obtains c where "c \<in> set (task_command db)" "owned held c" "f c \<in> set (task_command db')"
proof -
  have "row_count (\<lambda>c. owned held c \<and> P c) (task_command db) = 1" and db': "checked (update_commands (\<lambda>c. owned held c \<and> P c) f db) = Inr db'"
    using assms by (auto simp: update_owned_def split: if_splits)
  then obtain c where "c \<in> set (task_command db)" "owned held c" "P c"
    using row_count_pos_iff [of "\<lambda>c. owned held c \<and> P c" "task_command db"] by auto
  moreover have "task_command db' = update_rows (\<lambda>c. owned held c \<and> P c) f (task_command db)"
    using db' by (auto simp: checked_def update_commands_def split: option.splits)
  ultimately show thesis using that by (auto simp: set_update_rows)
qed

lemma acknowledged_row:
  assumes "update_owned held (\<lambda>_. True) (acknowledge env ack) db = Inr db'" "only_facts db' db''"
  shows "command_is held ACKNOWLEDGED (Some ack) db''"
proof -
  obtain c where c: "owned held c" "acknowledge env ack c \<in> set (task_command db')" using update_owned_row [OF assms(1)] by blast
  have "task_command db'' = task_command db'" using assms(2) by (simp add: only_facts_def)
  with c show ?thesis unfolding command_is_def
    by (intro bexI [of _ "acknowledge env ack c"]) (auto simp: acknowledge_def release_as_def owned_def is_command_def)
qed

lemma acknowledgeClaimed_row:
  "acknowledgeClaimedCommand env held ack db = Inr (v, db') \<Longrightarrow> command_is held ACKNOWLEDGED (Some ack) db'"
  by (auto simp: acknowledgeClaimedCommand_def bind_err_Inr_iff intro: acknowledged_row only_facts_command_fact)

lemma acknowledgeUpdate_row:
  assumes "acknowledgeUpdateAndCompleteInputAnswers env held ack answers db = Inr (acknowledged, db')"
  shows "command_is held ACKNOWLEDGED (Some ack) db'"
  using assms by (auto simp: acknowledgeUpdateAndCompleteInputAnswers_def exhaust_update_def bind_err_Inr_iff
      split: option.splits if_splits intro: acknowledged_row only_facts_command_fact)

lemma claim_heartbeat_call:
  assumes "withClaimHeartbeat ctx d command rpc s = (Inr v, s')"
  shows "rpc (w_rest s) = (Inr v, w_rest s')"
proof -
  let ?renew = "renew_claim ctx d command"
  have quiet: "silent.stays ?renew" unfolding renew_claim_def by (rule silent_call)
  obtain u s1 where one: "?renew s = (Inr u, s1)" and run: "(let (r, t1) = remote rpc s1; (failure, t2) = run_beats (wc_beats ctx (w_turn s1)) ?renew None t1
      in case r of Inl e \<Rightarrow> (Inl e, t2)
         | Inr v \<Rightarrow> (case failure of Some e \<Rightarrow> (Inl e, t2) | None \<Rightarrow> andThen ?renew (\<lambda>_. ret v) t2)) = (Inr v, s')"
    using assms unfolding withClaimHeartbeat_def withLeaseHeartbeat_def by (elim andThen_InrE) blast
  obtain r t1 where r: "remote rpc s1 = (r, t1)" by (cases "remote rpc s1")
  obtain failure t2 where beats: "run_beats (wc_beats ctx (w_turn s1)) ?renew None t1 = (failure, t2)" by fastforce
  from run r beats obtain x where x: "r = Inr x" "andThen ?renew (\<lambda>_. ret x) t2 = (Inr v, s')"
    by (auto split: sum.splits option.splits)
  from x(2) obtain u' where last: "?renew t2 = (Inr u', s')" "x = v" by (elim andThen_InrE) auto
  obtain w where w: "rpc (w_rest s1) = (Inr v, w)" "t1 = s1\<lparr>w_rest := w\<rparr>" using r x(1) last(2) by (auto elim: remote_InrE)
  have "same_rest s s1" using silent.staysD [OF quiet one] .
  moreover have "same_rest t1 t2" using silent.stays_beats [OF quiet, of t1 "wc_beats ctx (w_turn s1)" None] beats by simp
  moreover have "same_rest t2 s'" using silent.staysD [OF quiet last(1)] .
  ultimately show ?thesis using w by (simp add: same_rest_def)
qed

lemma deliver_acknowledged:
  assumes "deliver_normal ctx d command task name rpc message refused accepted s = (Inr d_acknowledged, s')"
    and "\<And>ack t t'. refused ack t \<noteq> (Inr d_acknowledged, t')"
  obtains ack t where "rpc (w_rest s) = (Inr ack, w_rest t)" "confirmed command task name ack" "accepted ack t = (Inr d_acknowledged, s')"
proof -
  have "andThen (withClaimHeartbeat ctx d command rpc) (\<lambda>ack.
        andThen (lift_err (validateCommandAckIdentity ack (expected_identity task name) (int (cmd_sequence command)))) (\<lambda>_.
        if \<not> ca_accepted ack then
          if isRetryableAck (ca_reasonCode ack) then
            andThen (trySupersedeClaimedCommandForSafeStop ctx command) (\<lambda>superseded.
              if superseded then ret d_exhausted
              else andThen (retry ctx command (or_else (ca_reasonCode ack) ''ADAPTER_RETRYABLE_REJECTION'')
                (or_else (ca_message ack) message)) (\<lambda>_. ret d_retriable))
          else refused ack
        else accepted ack)) s = (Inr d_acknowledged, s')"
    using assms(1) unfolding deliver_normal_def by (auto elim!: catching_InrE andThen_InrE split: if_splits)
  then obtain ack t where call: "withClaimHeartbeat ctx d command rpc s = (Inr ack, t)" and
      rest: "andThen (lift_err (validateCommandAckIdentity ack (expected_identity task name) (int (cmd_sequence command)))) (\<lambda>_.
        if \<not> ca_accepted ack then
          if isRetryableAck (ca_reasonCode ack) then
            andThen (trySupersedeClaimedCommandForSafeStop ctx command) (\<lambda>superseded.
              if superseded then ret d_exhausted
              else andThen (retry ctx command (or_else (ca_reasonCode ack) ''ADAPTER_RETRYABLE_REJECTION'')
                (or_else (ca_message ack) message)) (\<lambda>_. ret d_retriable))
          else refused ack
        else accepted ack) t = (Inr d_acknowledged, s')"
    by (rule andThen_InrE)
  from rest have "confirmed command task name ack" "accepted ack t = (Inr d_acknowledged, s')"
    using assms(2) by (auto simp: confirmed_def lift_err_def split: if_splits elim!: andThen_InrE)
  with claim_heartbeat_call [OF call] show thesis using that by blast
qed

lemma reconcile_not_acknowledged: "reconcile_rejected_cancel ctx d gw command task operation ack s \<noteq> (Inr d_acknowledged, s')"
  unfolding reconcile_rejected_cancel_def
  by (auto split: bool.splits option.splits if_splits elim!: andThen_InrE)

text \<open>Recording the acknowledgement calls no adapter.\<close>

lemma record_acknowledged:
  assumes "andThen (call ctx (\<lambda>_ env. acknowledgeClaimedCommand env command ack)) (\<lambda>_. ret d_acknowledged) t = (Inr d_acknowledged, s')"
  shows "w_rest s' = w_rest t" "command_is command ACKNOWLEDGED (Some ack) (w_db s')"
proof -
  obtain u where c: "call ctx (\<lambda>_ env. acknowledgeClaimedCommand env command ack) t = (Inr u, s')" using assms by (elim andThen_InrE) auto
  show "w_rest s' = w_rest t" using silent.staysD [OF silent_call c] by (simp add: same_rest_def)
  show "command_is command ACKNOWLEDGED (Some ack) (w_db s')" using c by (elim call_InrE) (auto dest: acknowledgeClaimed_row)
qed

text \<open>What a run that ends in an acknowledgement has done from a state on.\<close>

definition delivered ::
  "'w command_gateway \<Rightarrow> runtime_env \<Rightarrow> command_row \<Rightarrow> task_row \<Rightarrow> string \<Rightarrow> CommandAck \<Rightarrow> 'w world \<Rightarrow> 'w world \<Rightarrow> bool" where
  "delivered gw env command task name ack s s' =
     (delivery_call gw env command task name (w_rest s) = (Inr ack, w_rest s') \<and> confirmed command task name ack \<and>
      command_is command ACKNOWLEDGED (Some (JObj (ack_json ack))) (w_db s'))"

lemma cancel_acknowledged:
  assumes "dispatchCancel ctx d gw command task operation s = (Inr d_acknowledged, s')" "cmd_type command = CANCEL"
  shows "\<exists>ack. delivered gw env command task (vo_name operation) ack s s'"
proof -
  obtain ack t where call: "withClaimHeartbeat ctx d command
       (cg_requestCancel gw (execution_request task (vo_name operation)) (ack_stop_reason command) (cmd_sequence command)) s = (Inr ack, t)"
    and ok: "confirmed command task (vo_name operation) ack"
    and rec: "andThen (call ctx (\<lambda>_ env. acknowledgeClaimedCommand env command (JObj (ack_json ack)))) (\<lambda>_. ret d_acknowledged) t = (Inr d_acknowledged, s')"
    using assms(1) unfolding dispatchCancel_def
    by (elim andThen_InrE) (auto simp: confirmed_def lift_err_def reconcile_not_acknowledged split: if_splits elim!: andThen_InrE)
  from claim_heartbeat_call [OF call] record_acknowledged [OF rec] ok assms(2) show ?thesis
    by (intro exI [of _ ack]) (simp add: delivered_def delivery_call_def Let_def)
qed

lemma failed_not_acknowledged: "dispatch_failed ctx d command task e s \<noteq> (Inr d_acknowledged, s')"
  unfolding dispatch_failed_def Let_def by (auto split: if_splits elim!: andThen_InrE)

lemma rejected_not_acknowledged: "andThen m (\<lambda>_. ret d_rejected) t \<noteq> (Inr d_acknowledged, t')"
  by (auto elim!: andThen_InrE)

lemma update_acknowledged:
  assumes "dispatchUpdate ctx d gw command task name s = (Inr d_acknowledged, s')" "cmd_type command = UPDATE"
  shows "\<exists>ack. delivered gw (wc_env ctx (w_turn s)) command task name ack s s'"
proof -
  let ?rpc = "\<lambda>kind answers. if kind = frozen
     then cg_updateMcpTaskExecution gw (execution_request task name) (cmd_sequence command) (map (\<lambda>a. (ans_key a, ans_response a)) answers)
     else cg_updateExecution gw (execution_request task name) (cmd_sequence command) answers"
  obtain kind answers where p: "parseUpdatePayload (wc_env ctx (w_turn s)) (cmd_payload command) = Inr (kind, answers)"
      "deliver_normal ctx d command task name (?rpc kind answers)
         ''Adapter rejected update command.''
         (\<lambda>ack. andThen (call ctx (\<lambda>_ env. rejectInputResponseAndFailTask env command (ca_reasonCode ack)
            (or_else (ca_message ack) ''Adapter rejected update command.''))) (\<lambda>_. ret d_rejected))
         (\<lambda>ack. andThen (call ctx (\<lambda>_ env. acknowledgeUpdateAndCompleteInputAnswers env command (JObj (ack_json ack)) answers)) (\<lambda>r.
            ret (if r = acknowledged then d_acknowledged else d_exhausted))) s = (Inr d_acknowledged, s')"
    using assms(1) unfolding dispatchUpdate_def by (elim andThen_InrE) (auto simp: lift_err_def split: prod.splits)
  obtain ack t where d: "?rpc kind answers (w_rest s) = (Inr ack, w_rest t)" "confirmed command task name ack"
      "andThen (call ctx (\<lambda>_ env. acknowledgeUpdateAndCompleteInputAnswers env command (JObj (ack_json ack)) answers)) (\<lambda>r.
         ret (if r = acknowledged then d_acknowledged else d_exhausted)) t = (Inr d_acknowledged, s')"
    by (rule deliver_acknowledged [OF p(2) rejected_not_acknowledged])
  from d(3) have c: "call ctx (\<lambda>_ env. acknowledgeUpdateAndCompleteInputAnswers env command (JObj (ack_json ack)) answers) t = (Inr acknowledged, s')"
    by (elim andThen_InrE) (auto split: if_splits)
  have "w_rest s' = w_rest t" using silent.staysD [OF silent_call c] by (simp add: same_rest_def)
  moreover have "command_is command ACKNOWLEDGED (Some (JObj (ack_json ack))) (w_db s')" using c by (elim call_InrE) (auto dest: acknowledgeUpdate_row)
  ultimately show ?thesis using d(1,2) p(1) assms(2)
    by (intro exI [of _ ack]) (simp add: delivered_def delivery_call_def Let_def split: if_splits)
qed

lemma pause_acknowledged:
  assumes "dispatchPauseOrResume ctx d gw command task name s = (Inr d_acknowledged, s')" "cmd_type command \<in> {PAUSE, RESUME}"
  shows "\<exists>ack. delivered gw env command task name ack s s'"
proof -
  obtain ack t where d: "(if cmd_type command = PAUSE then cg_pauseExecution gw (execution_request task name) (cmd_sequence command)
        else cg_resumeExecution gw (execution_request task name) (cmd_sequence command)) (w_rest s) = (Inr ack, w_rest t)" "confirmed command task name ack"
      "andThen (call ctx (\<lambda>_ env. acknowledgeClaimedCommand env command (JObj (ack_json ack)))) (\<lambda>_. ret d_acknowledged) t = (Inr d_acknowledged, s')"
    by (rule deliver_acknowledged [OF assms(1) [unfolded dispatchPauseOrResume_def] rejected_not_acknowledged])
  then show ?thesis using record_acknowledged [OF d(3)] assms(2)
    by (intro exI [of _ ack]) (auto simp: delivered_def delivery_call_def Let_def)
qed

lemma delivered_from:
  assumes "delivered gw env command task name ack t s'" "w_rest t = w_rest s"
  shows "delivered gw env command task name ack s s'"
  using assms by (simp add: delivered_def)

lemma dispatch_acknowledged:
  assumes "dispatch ctx d gw command task s = (Inr d_acknowledged, s')"
  shows "\<exists>operation n ack. loadOperation ctx (in_operationSnapshotId (spec task)) s = (Inr operation, s) \<and>
    delivered gw (wc_env ctx n) command task (vo_name operation) ack s s'"
proof -
  obtain operation u t where load: "loadOperation ctx (in_operationSnapshotId (spec task)) s = (Inr operation, s)"
    and started: "call ctx (\<lambda>_ env. recordCommandStarted env command) s = (Inr u, t)"
    and rest: "(case cmd_type command of
       CANCEL \<Rightarrow> andThen (call ctx (\<lambda>_ env. supersedeExpiredClaimedNormalCommandsForSafeStop env (cmd_task_id command))) (\<lambda>_.
         dispatchCancel ctx d gw command task operation)
     | UPDATE \<Rightarrow> dispatchUpdate ctx d gw command task (vo_name operation)
     | _ \<Rightarrow> dispatchPauseOrResume ctx d gw command task (vo_name operation)) t = (Inr d_acknowledged, s')"
    using assms unfolding dispatch_def by (elim andThen_InrE) (auto simp: loadOperation_def)
  have t: "w_rest t = w_rest s" using silent.staysD [OF silent_call started] by (simp add: same_rest_def)
  have "\<exists>n ack. delivered gw (wc_env ctx n) command task (vo_name operation) ack t s'"
  proof (cases "cmd_type command")
    case CANCEL
    with rest obtain u' t' where two: "call ctx (\<lambda>_ env. supersedeExpiredClaimedNormalCommandsForSafeStop env (cmd_task_id command)) t = (Inr u', t')"
        "dispatchCancel ctx d gw command task operation t' = (Inr d_acknowledged, s')" by (auto elim!: andThen_InrE)
    have "w_rest t' = w_rest t" using silent.staysD [OF silent_call two(1)] by (simp add: same_rest_def)
    then show ?thesis using cancel_acknowledged [OF two(2) CANCEL] delivered_from by metis
  next
    case UPDATE
    with rest have "dispatchUpdate ctx d gw command task (vo_name operation) t = (Inr d_acknowledged, s')" by simp
    from update_acknowledged [OF this UPDATE] show ?thesis by blast
  next
    case PAUSE
    with rest have "dispatchPauseOrResume ctx d gw command task (vo_name operation) t = (Inr d_acknowledged, s')" by simp
    from pause_acknowledged [OF this, of "wc_env ctx 0"] PAUSE show ?thesis by blast
  next
    case RESUME
    with rest have "dispatchPauseOrResume ctx d gw command task (vo_name operation) t = (Inr d_acknowledged, s')" by simp
    from pause_acknowledged [OF this, of "wc_env ctx 0"] RESUME show ?thesis by blast
  qed
  then show ?thesis using load delivered_from [OF _ t] by blast
qed

text \<open>C9. The dispatcher counts a command as acknowledged only on the adapter's word: the task it read from the store at the start of the run was
  the command's task and not final; the run took the adapter's side of the world through one call, which delivers this command for that task
  under the task's own operation; the adapter answered it with an acceptance whose identity (task, execution, operation, arguments, authorization and
  command sequence) is the one expected; and that answer is on record with the command.\<close>

theorem acknowledged_by_adapter:
  assumes "executeClaimed ctx d gw command s = (Inr d_acknowledged, s')"
  shows "\<exists>s1 task s2 operation n ack.
    renew_claim ctx d command s = (Inr (), s1) \<and> read_store ctx (\<lambda>_. getById (cmd_task_id command)) s1 = (Inr (Some task), s2) \<and>
    task_id task = cmd_task_id command \<and> \<not> isTerminalState (internal_state task) \<and>
    loadOperation ctx (in_operationSnapshotId (spec task)) s2 = (Inr operation, s2) \<and>
    delivery_call gw (wc_env ctx n) command task (vo_name operation) (w_rest s) = (Inr ack, w_rest s') \<and>
    ca_accepted ack \<and> validateCommandAckIdentity ack (expected_identity task (vo_name operation)) (int (cmd_sequence command)) = Inr () \<and>
    command_is command ACKNOWLEDGED (Some (JObj (ack_json ack))) (w_db s')"
proof -
  obtain u s1 task s2 where renew: "renew_claim ctx d command s = (Inr u, s1)"
    and task: "read_store ctx (\<lambda>_. getById (cmd_task_id command)) s1 = (Inr task, s2)"
      "(case task of
         Some t \<Rightarrow>
           if isTerminalState (internal_state t) then
             andThen (call ctx (\<lambda>_ env. rejectClaimedCommand env command ''TASK_TERMINAL''
               ''Task transitioned to terminal while command was in progress.'')) (\<lambda>_. ret d_terminal)
           else catching (dispatch ctx d gw command t) (dispatch_failed ctx d command t)
       | None \<Rightarrow>
           andThen (call ctx (\<lambda>_ env. rejectClaimedCommand env command ''TASK_TERMINAL''
             ''Task transitioned to terminal while command was in progress.'')) (\<lambda>_. ret d_terminal)) s2 = (Inr d_acknowledged, s')"
    using assms unfolding executeClaimed_def by (elim andThen_InrE)
  from task(2) obtain row where row: "task = Some row" "\<not> isTerminalState (internal_state row)"
      "catching (dispatch ctx d gw command row) (dispatch_failed ctx d command row) s2 = (Inr d_acknowledged, s')"
    by (auto split: option.splits if_splits elim!: andThen_InrE)
  then have "dispatch ctx d gw command row s2 = (Inr d_acknowledged, s')"
    by (auto elim!: catching_InrE simp: failed_not_acknowledged)
  from dispatch_acknowledged [OF this] obtain operation n ack where d: "loadOperation ctx (in_operationSnapshotId (spec row)) s2 = (Inr operation, s2)"
      "delivered gw (wc_env ctx n) command row (vo_name operation) ack s2 s'" by blast
  have "w_rest s1 = w_rest s" using silent.staysD [OF silent_call renew [unfolded renew_claim_def]] by (simp add: same_rest_def)
  moreover have "w_rest s2 = w_rest s1" using silent.staysD [OF silent_read task(1)] by (simp add: same_rest_def)
  moreover have "task_id row = cmd_task_id command" using read_store_InrD [OF task(1)] row(1) by (auto simp: getById_def dest: find_task_SomeD [OF sym])
  ultimately show ?thesis using renew task(1) row(1,2) d unfolding delivered_def confirmed_def
    by (intro exI [of _ s1] exI [of _ row] exI [of _ s2] exI [of _ operation] exI [of _ n] exI [of _ ack]) simp
qed

text \<open>A tick of the dispatcher is safe whatever the adapter answers and whatever other replicas do meanwhile: it moves the store
  only by committed repository operations, so from a reachable store it leads to a reachable store, in which every task has
  evolved lawfully and a task that was final is unchanged in state, result and error.\<close>

theorem dispatcher_tick_safe:
  assumes "others_step ctx" "reachable_store (w_db s)" "dispatcher_tick ctx d gw s = (r, s')"
  shows "reachable_store (w_db s') \<and> repo_step\<^sup>*\<^sup>* (w_db s) (w_db s') \<and> finals_kept (w_db s) (w_db s')"
  using runs_keep_finals [OF runs_tick [OF assms(1)] assms(3,2)] .

section \<open>Stops that cannot be confirmed\<close>

lemma checked_commands_find:
  "checked (update_commands P f db) = Inr db' \<Longrightarrow> find_task t db' = find_task t db"
  by (auto simp: checked_def update_commands_def find_task_def split: option.splits)

lemma command_failure_terminal:
  assumes "transitionTask (command_failure env held (version row) message reason sfx op payload) db = Inr ((r, ap), db')"
    and "find_task (cmd_task_id held) db = Some row" "\<not> has_event [cmd_task_id held, ''command'', show_nat (cmd_sequence held), sfx] db"
  shows "find_task (cmd_task_id held) db' = Some r \<and> isTerminalState (internal_state r)"
  using assms(1)
proof (cases rule: transitionTask_InrE)
  case skipped
  then show ?thesis using assms(2,3) by (auto simp: transition_guard_def command_failure_def no_update_def)
next
  case (applied existing)
  have "find_task (cmd_task_id held) db' = Some r" using transitionTask_find [OF assms(1)] by (simp add: command_failure_def)
  moreover have "internal_state r = TERMINAL_FAILED"
    unfolding applied(4) by (simp add: command_failure_def apply_update_def no_update_def Let_def)
  ultimately show ?thesis by simp
qed

lemma rejectClaimed_row:
  assumes "rejectClaimedCommand env held code message db = Inr (v, db')"
  shows "\<exists>c \<in> set (task_command db'). is_command (cmd_task_id held) (cmd_sequence held) c \<and> cmd_state c = REJECTED"
proof -
  obtain db1 where one: "update_owned held (\<lambda>_. True) (release_as env REJECTED (Some code) (Some message)) db = Inr db1"
    and "only_facts (if cmd_type held = UPDATE
           then update_inbox (assigned_to (cmd_task_id held) (cmd_sequence held))
             (\<lambda>i. i\<lparr>ib_state := IB_FAILED, ib_last_error_code := Some ''INPUT_RESPONSE_REJECTED''\<rparr>) db1
           else db1) db'"
    using assms only_facts_command_fact by (auto simp: rejectClaimedCommand_def bind_err_Inr_iff Let_def)
  then have same: "task_command db' = task_command db1" by (auto simp: only_facts_def update_inbox_def split: if_splits)
  obtain c where "owned held c" "release_as env REJECTED (Some code) (Some message) c \<in> set (task_command db1)"
    using update_owned_row [OF one] by blast
  then show ?thesis unfolding same
    by (intro bexI [of _ "release_as env REJECTED (Some code) (Some message) c"]) (auto simp: release_as_def owned_def is_command_def)
qed

lemma failSafeStopUnconfirmed_terminal:
  assumes "failSafeStopUnconfirmed env held message db = Inr (v, db')"
    and "\<not> has_event [cmd_task_id held, ''command'', show_nat (cmd_sequence held), ''safe-stop-failed''] db"
  shows "\<exists>row. find_task (cmd_task_id held) db' = Some row \<and> isTerminalState (internal_state row)"
proof -
  obtain row where row: "find_task (cmd_task_id held) db = Some row"
    using assms(1) by (auto simp: failSafeStopUnconfirmed_def split: option.splits)
  show ?thesis
  proof (cases "isTerminalState (internal_state row)")
    case True
    then show ?thesis using assms(1) row checked_commands_find
      by (auto simp: failSafeStopUnconfirmed_def bind_err_Inr_iff terminal_exhausted_def only_facts_simps(6) [OF only_facts_command_fact])
  next
    case False
    then obtain r ap db1 db2 where run:
        "transitionTask (command_failure env held (version row) message ''SAFE_STOP_UNCONFIRMED'' ''safe-stop-failed''
          [(''stopReason'', json_stop_reason (cmd_stop_reason held)), (''severity'', JStr ''critical'')]
          [(''reasonCode'', JStr ''SAFE_STOP_UNCONFIRMED''),
           (''stopReason'', json_stop_reason (cmd_stop_reason held)), (''severity'', JStr ''critical'')]) db = Inr ((r, ap), db1)"
        "checked (update_commands (held_by held) (release_as env EXHAUSTED (Some ''SAFE_STOP_UNCONFIRMED'') (Some message)) db1) = Inr db2"
        "find_task (cmd_task_id held) db' = find_task (cmd_task_id held) db2"
      using assms(1) row by (auto simp: failSafeStopUnconfirmed_def bind_err_Inr_iff only_facts_simps(6) [OF only_facts_command_fact] split: if_splits)
    then show ?thesis using command_failure_terminal [OF run(1) row assms(2)] checked_commands_find [OF run(2)] by simp
  qed
qed


end
