(* ===== verification/Store_Example.thy ===== *)
theory Store_Example
  imports Control_Theorems
begin

text \<open>
  A concrete run of the store, on which the hypotheses of its theorems hold: one operation snapshot, an
  admission, the publication of a scheduled task, then either its missed start window or a
  cancellation.
\<close>

section \<open>A scheduled task\<close>

definition ex_env :: runtime_env where
  "ex_env = \<lparr>clk = 1000, now = 1000, sha256 = (\<lambda>s. s), legacy_date = (\<lambda>_. None), collate = (\<lambda>s. s)\<rparr>"

definition ex_auth :: AuthorizationContext where
  "ex_auth = \<lparr>au_hash = ''h'', au_executionMode = live, au_simulationId = None, au_correlationId = None,
     au_traceId = None, au_rootTraceparent = None, au_rootTracestate = None\<rparr>"

definition ex_input :: AdmissionIntentInput where
  "ex_input = \<lparr>in_taskId = ''t1'', in_providerId = ''p'', in_operationName = ''op'', in_operationSnapshotId = ''s1'',
     in_authorization = ex_auth, in_arguments = [], in_argumentHash = ''a'', in_acceptedAt = 1000,
     in_notBefore = 2000, in_latestStartAt = 5000, in_deadlineAt = None, in_ttlMs = None,
     in_timing = \<lparr>tm_start = scheduled ''x'' 3000, tm_maxElapsedMs = None\<rparr>, in_reservationRef = None\<rparr>"

definition ex_initial :: db where
  "ex_initial = empty_db\<lparr>operation_snapshot := [(''s1'', [])]\<rparr>"

definition result_db :: "err + ('a \<times> db) \<Rightarrow> db" where
  "result_db m = (case m of Inl _ \<Rightarrow> empty_db | Inr (_, db) \<Rightarrow> db)"

definition ex_admitted :: db where
  "ex_admitted = result_db (createAdmissionIntent ex_env ex_input ex_initial)"

definition ex_scheduled :: db where
  "ex_scheduled = result_db (publishScheduled ex_env ex_input ex_admitted)"

lemmas ex_defs = ex_env_def ex_auth_def ex_input_def ex_initial_def empty_db_def result_db_def

lemma ex_admit: "createAdmissionIntent ex_env ex_input ex_initial = Inr (True, ex_admitted)"
  by (simp add: ex_admitted_def createAdmissionIntent_def ex_defs mode_check_def find_admission_def snapshot_definition_def
    first_row_def)

lemma ex_admitted: "ex_admitted = ex_initial\<lparr>admission_intent := [\<lparr>ad_input = ex_input, ad_state = ADM_PENDING, ad_adapter_response = None, ad_updated_at = 1000\<rparr>]\<rparr>"
  by (simp add: ex_admitted_def createAdmissionIntent_def ex_defs mode_check_def find_admission_def snapshot_definition_def
    first_row_def)


lemmas store_eval = checked_def schema_checks_def first_row_def find_task_def update_task_def update_rows_def
  row_count_def execution_keys_def task_row_ok_def retention_order_def command_row_ok_def active_stop_def
  allowed_substates_def isTerminalState_iff has_event_def snapshot_definition_def insert_task_def


definition ex_row :: task_row where
  "ex_row = (scheduled_row ex_env ex_input)\<lparr>last_confirmed_at := Some 1000\<rparr>"

lemmas publish_eval = publishScheduled_def scheduled_row_def default_row_def materializeTaskResourceBinding_def
  object_of_json_def obj_get_def initializeTaskRetention_def scheduled_observation_def insertOutbox_def
  captureTaskProviderOpsDelivery_def captureProviderOpsDelivery_def published_def update_admission_def

lemma ex_publish: "publishScheduled ex_env ex_input ex_admitted = Inr (ex_row, ex_scheduled)"
  by (simp add: ex_scheduled_def ex_admitted ex_row_def ex_defs Let_def store_eval publish_eval)

lemma ex_scheduled_task: "provider_task ex_scheduled = [ex_row]"
  by (simp add: ex_scheduled_def ex_admitted ex_row_def ex_defs Let_def store_eval publish_eval)
lemma ex_scheduled_cmds: "task_command ex_scheduled = []"
  by (simp add: ex_scheduled_def ex_admitted ex_row_def ex_defs Let_def store_eval publish_eval)
lemma ex_scheduled_obs: "task_observation ex_scheduled = [scheduled_observation ex_input]"
  by (simp add: ex_scheduled_def ex_admitted ex_row_def ex_defs Let_def store_eval publish_eval)

definition ex_created_event :: outbox_row where
  "ex_created_event = hd (outbox_event ex_scheduled)"

lemma ex_scheduled_events: "outbox_event ex_scheduled = [ex_created_event]"
  and ex_created_key [simp]: "ox_event_key ex_created_event = [''t1'', ''created'']"
  by (simp_all add: ex_created_event_def ex_scheduled_def ex_admitted ex_row_def ex_defs Let_def store_eval publish_eval)

lemma ex_scheduled_rest: "resource_binding ex_scheduled = []" "task_input_request ex_scheduled = []"
  "task_input_response_inbox ex_scheduled = []"
  by (simp_all add: ex_scheduled_def ex_admitted ex_row_def ex_defs Let_def store_eval publish_eval)

lemma ex_initial: "initial_store ex_initial"
  by (auto simp: initial_store_def ex_initial_def)

lemma ex_scheduled_reachable: "reachable_store ex_scheduled"
proof -
  have "repo_step ex_initial ex_admitted" using ex_admit by (rule repo_step.create_admission)
  moreover have "repo_step ex_admitted ex_scheduled" using ex_publish by (rule repo_step.publish_scheduled)
  ultimately show ?thesis using ex_initial unfolding reachable_store_def
    by (meson converse_rtranclp_into_rtranclp rtranclp.rtrancl_refl)
qed

lemma ex_find: "find_task ''t1'' ex_scheduled = Some ex_row"
  by (simp add: find_task_def ex_scheduled_task first_row_def ex_row_def scheduled_row_def default_row_def ex_input_def)

section \<open>Its start window passes\<close>

definition ex_missed_request :: TaskTransitionRequest where
  "ex_missed_request = start_window_missed_request 6000 None ''t1''"

lemmas missed_eval = ex_missed_request_def start_window_missed_request_def startWindowMissedTransition_def
  transition_update_def no_update_def runtime_observation_def

lemma ex_missed_guard: "transition_guard ex_missed_request ex_row ex_scheduled"
  by (simp add: ex_scheduled_events transition_guard_def missed_eval has_event_def ex_row_def scheduled_row_def default_row_def isTerminalState_iff)

lemma ex_missed_ok: "no_new_violation ex_missed_request ex_row ex_scheduled"
  by (simp add: no_new_violation_def ex_scheduled_task ex_scheduled_rest missed_eval apply_update_def store_eval Let_def ex_row_def scheduled_row_def
    default_row_def ex_input_def ex_auth_def)

definition ex_missed :: db where
  "ex_missed = result_db (completeDueStartWindowMisses (\<lambda>_. True) 6000 10 ex_scheduled)"

lemma ex_missed_run:
  obtains row where "transitionTask ex_missed_request ex_scheduled = Inr ((row, True), ex_missed)"
    "completeDueStartWindowMisses (\<lambda>_. True) 6000 10 ex_scheduled = Inr (1, ex_missed)"
    "internal_state row = TERMINAL_COMPLETED" "find_task ''t1'' ex_missed = Some row"
proof -
  let ?row = "apply_update (tq_update ex_missed_request) (tq_observation ex_missed_request) ex_row"
  obtain db' where run: "transitionTask ex_missed_request ex_scheduled = Inr ((?row, True), db')"
    using transitionTask_succeeds [OF reachable_store_inv [OF ex_scheduled_reachable] _ ex_missed_guard ex_missed_ok] ex_find
    by (auto simp: missed_eval Let_def)
  have "filter (\<lambda>r. internal_state r = SCHEDULED \<and> external_execution_id r = None \<and> sql_le (latest_start_at r) 6000) [ex_row] = [ex_row]"
    by (simp add: ex_row_def scheduled_row_def default_row_def ex_input_def sql_le_def)
  then have all: "completeDueStartWindowMisses (\<lambda>_. True) 6000 10 ex_scheduled = Inr (1, db')"
    using run by (simp add: completeDueStartWindowMisses_def ex_scheduled_task order_limit_def transition_each_def
      ex_missed_request_def ex_row_def scheduled_row_def default_row_def ex_input_def)
  then have "db' = ex_missed" by (simp add: ex_missed_def result_db_def)
  moreover have "internal_state ?row = TERMINAL_COMPLETED" by (simp add: missed_eval Let_def)
  moreover from run have "find_task ''t1'' db' = Some ?row"
    by (drule_tac transitionTask_find) (simp add: ex_missed_request_def start_window_missed_request_def Let_def)
  ultimately show thesis using run all that by blast
qed

lemma ex_missed_reachable: "repo_step ex_scheduled ex_missed"
  by (rule ex_missed_run) (rule repo_step.window_misses)


section \<open>Its cancellation\<close>

definition ex_cancelled :: db where
  "ex_cancelled = result_db (beginCancel ex_env ''t1'' ''h'' ex_scheduled)"

definition ex_stopping :: task_row where
  "ex_stopping = apply_update (tq_update (cancel_request ex_env ex_row 1)) (tq_observation (cancel_request ex_env ex_row 1))
     (ex_row\<lparr>next_command_sequence := 1\<rparr>)"

definition ex_stop :: command_row where
  "ex_stop = cancel_command ex_env ex_row 1 ''h''"

text \<open>The store between the insertion of the command and the transition.\<close>

definition ex_inserted :: db where
  "ex_inserted = ex_scheduled\<lparr>provider_task := [ex_row\<lparr>next_command_sequence := 1\<rparr>], task_command := [ex_stop]\<rparr>"

lemmas row_eval = ex_row_def scheduled_row_def default_row_def ex_input_def ex_auth_def ex_env_def scheduled_observation_def

lemma ex_stop_simps: "cmd_task_id ex_stop = ''t1''" "cmd_sequence ex_stop = 1" "cmd_state ex_stop = PENDING"
  "cmd_type ex_stop = CANCEL" "cmd_next_attempt_at ex_stop = 1000" "clk ex_env = 1000" "cmd_priority ex_stop = 100"
  "cmd_claim_owner ex_stop = None" "cmd_claim_until ex_stop = None"
  by (simp_all add: ex_stop_def cancel_command_def new_stop_command_def new_command_def row_eval)

lemma ex_row_simps: "task_id ex_row = ''t1''" "internal_state ex_row = SCHEDULED" "version ex_row = 0"
  "next_command_sequence ex_row = 0" "observation_revision ex_row = 1" "adapter_revision ex_row = 0" "external_execution_id ex_row = None"
  by (simp_all add: row_eval)

lemma ex_scheduled_schema: "schema_ok ex_scheduled"
  using reachable_store_inv [OF ex_scheduled_reachable] by (simp add: db_inv_def)

lemma ex_take: "take_sequence ''t1'' ex_scheduled = Inr (1, ex_scheduled\<lparr>provider_task := [ex_row\<lparr>next_command_sequence := 1\<rparr>]\<rparr>)"
  using checked_ok [OF schema_ok_counter [OF ex_scheduled_schema, of "''t1''"]]
  by (simp add: take_sequence_def update_task_def update_rows_def find_task_def first_row_def ex_scheduled_task ex_row_simps)

lemma ex_inserted_schema: "schema_ok ex_inserted"
proof -
  have "schema_ok (ex_scheduled\<lparr>provider_task := [ex_row\<lparr>next_command_sequence := 1\<rparr>]\<rparr>)"
    using ex_take by (auto simp: take_sequence_def bind_err_Inr_iff checked_Inr_iff split: option.splits)
  then show ?thesis
    by (simp add: ex_inserted_def schema_ok_def schema_checks_def command_row_ok_def active_stop_def ex_stop_simps)
qed

lemma ex_insert: "insert_command ex_stop (ex_scheduled\<lparr>provider_task := [ex_row\<lparr>next_command_sequence := 1\<rparr>]\<rparr>) = Inr ex_inserted"
  using checked_ok [OF ex_inserted_schema] by (simp add: insert_command_def ex_inserted_def ex_scheduled_cmds)

lemma ex_inserted_inv: "db_inv ex_inserted"
proof -
  have "row_ok ex_row" using db_inv_row_ok [OF reachable_store_inv [OF ex_scheduled_reachable]] by (simp add: ex_scheduled_task)
  moreover have "saved_ok ex_stop"
    using calculation by (simp add: ex_stop_def cancel_command_def saved_ok_hash saved_ok_stop ex_row_simps isTerminalState_iff)
  moreover have "row_ok (ex_row\<lparr>next_command_sequence := 1\<rparr>) = row_ok ex_row" by (simp add: row_ok_def)
  ultimately show ?thesis using ex_inserted_schema
    by (simp add: db_inv_def tasks_inv_def observations_inv_def commands_inv_def ex_inserted_def ex_scheduled_obs revisions_def
        ex_row_simps ex_stop_simps) (simp add: scheduled_observation_def ex_input_def)
qed

lemma ex_cancel_run:
  obtains db' where "transitionTask (cancel_request ex_env ex_row 1) ex_inserted = Inr ((ex_stopping, True), db')"
    "provider_task db' = [ex_stopping]"
proof -
  let ?q = "cancel_request ex_env ex_row 1" and ?r = "ex_row\<lparr>next_command_sequence := 1\<rparr>"
  have find: "find_task (tq_taskId ?q) ex_inserted = Some ?r"
    by (simp add: cancel_request_def find_task_def first_row_def ex_inserted_def)
  obtain ap row db' where run: "transitionTask ?q ex_inserted = Inr ((row, ap), db')" "ap = (\<not> has_event (tq_eventKey ?q) ex_inserted)"
    "ap \<Longrightarrow> row = apply_update (tq_update ?q) (tq_observation ?q) ?r"
    by (rule live_transition_returns [OF ex_inserted_inv find])
      (auto simp: cancel_request_def no_update_def ex_row_simps allowed_substates_def isTerminalState_iff)
  have ap using run(2) by (simp add: has_event_def ex_inserted_def ex_scheduled_events cancel_request_def)
  with run have ok: "transitionTask ?q ex_inserted = Inr ((ex_stopping, True), db')" by (simp add: ex_stopping_def)
  then have "provider_task db' = [ex_stopping]"
    by (cases rule: transitionTask_InrE) (auto simp: transition_applied_def ex_inserted_def update_rows_def cancel_request_def)
  with ok show thesis by (rule that)
qed

lemma ex_cancel: "beginCancel ex_env ''t1'' ''h'' ex_scheduled = Inr (created_resolution 1 CANCEL, ex_cancelled)"
  and ex_cancelled_tasks: "provider_task ex_cancelled = [ex_stopping]"
proof -
  have same: "ex_scheduled\<lparr>task_command := []\<rparr> = ex_scheduled" using ex_scheduled_cmds by simp
  obtain db' where t: "transitionTask (cancel_request ex_env ex_row 1) ex_inserted = Inr ((ex_stopping, True), db')"
    "provider_task db' = [ex_stopping]" by (rule ex_cancel_run)
  have run: "beginCancel ex_env ''t1'' ''h'' ex_scheduled =
      Inr (created_resolution 1 CANCEL, created_fact ex_env ''t1'' 1 CANCEL (Some ''USER_REQUESTED'') db')"
    using ex_insert t(1) by (simp add: beginCancel_def ex_find active_stop_command_def latest_row_def ex_scheduled_cmds ex_row_simps
      isTerminalState_iff update_commands_def same checked_ok [OF ex_scheduled_schema] ex_take ex_stop_def cancel_command_def)
  then show "beginCancel ex_env ''t1'' ''h'' ex_scheduled = Inr (created_resolution 1 CANCEL, ex_cancelled)"
    by (simp add: ex_cancelled_def result_db_def)
  show "provider_task ex_cancelled = [ex_stopping]"
    using run t(2) only_facts_simps(1) [OF only_facts_created] by (simp add: ex_cancelled_def result_db_def)
qed

lemma ex_cancelled_commands: "task_command ex_cancelled = [ex_stop]"
  using ex_cancel by (cases rule: beginCancel_InrE)
    (auto simp: ex_stop_def ex_find ex_scheduled_cmds created_resolution_def active_stop_command_def latest_row_def)

lemma ex_cancelled_reachable: "reachable_store ex_cancelled"
  using ex_scheduled_reachable repo_step.begin_cancel [OF ex_cancel] unfolding reachable_store_def
  by (meson rtranclp.rtrancl_into_rtrancl)

lemma ex_cancelled_find: "find_task ''t1'' ex_cancelled = Some ex_stopping"
  by (simp add: find_task_def ex_cancelled_tasks first_row_def ex_stopping_def row_eval)

lemma ex_stopping_simps: "internal_state ex_stopping = STOPPING" "cancel_requested ex_stopping" "adapter_revision ex_stopping = 0"
  "task_id ex_stopping = ''t1''" "version ex_stopping = 1" "external_execution_id ex_stopping = None"
  by (simp_all add: ex_stopping_def cancel_request_def no_update_def row_eval) (simp_all add: apply_update_def Let_def row_eval)

text \<open>A dispatcher claims the stop command.\<close>

definition ex_claimed :: db where
  "ex_claimed = result_db (claimDueCommands ex_env (\<lambda>_. True) 1000 ''w1'' 30000 10 ex_cancelled)"

definition ex_claim :: command_row where
  "ex_claim = claim_command ex_env ''w1'' 31000 ex_stop"

lemma ex_cancelled_same: "ex_cancelled\<lparr>task_command := [ex_stop]\<rparr> = ex_cancelled"
  using ex_cancelled_commands by simp

lemma ex_cancelled_schema: "schema_ok ex_cancelled"
  using reachable_store_inv [OF ex_cancelled_reachable] by (simp add: db_inv_def)

lemma ex_claim_schema: "schema_ok (ex_cancelled\<lparr>task_command := [ex_claim]\<rparr>)"
  using ex_cancelled_schema
  by (simp add: ex_claim_def schema_ok_def schema_checks_def ex_cancelled_commands claim_command_def command_row_ok_def
      active_stop_def ex_stop_simps)

lemma ex_claim_run: "claimDueCommands ex_env (\<lambda>_. True) 1000 ''w1'' 30000 10 ex_cancelled = Inr ([ex_claim], ex_claimed)"
proof -
  have first: "first_ranked 1000 ex_cancelled ex_stop"
    by (simp add: first_ranked_def claimable_def due_command_def ex_stop_simps ex_cancelled_commands ex_cancelled_find)
  have sup: "supersede_expired ex_env 1000 ex_cancelled = Inr ex_cancelled"
    by (simp add: supersede_expired_def update_commands_def ex_cancelled_commands update_rows_def is_normal_def ex_stop_simps
        Let_def ex_cancelled_same checked_ok [OF ex_cancelled_schema])
  have "claim_due ex_env (\<lambda>_. True) 1000 ''w1'' 30000 10 ex_cancelled = Inr ([ex_claim], fold (claimed_fact ex_env) [ex_stop] (ex_cancelled\<lparr>task_command := [ex_claim]\<rparr>))"
    using checked_ok [OF ex_claim_schema]
    by (simp add: claim_due_def sup ex_cancelled_commands first order_limit_def Let_def update_commands_def update_rows_def ex_claim_def)
  then show ?thesis
    by (simp add: claimDueCommands_def ex_claimed_def result_db_def ex_stop_simps)
qed

section \<open>The theorems on this run\<close>

theorem transition_outcome_witness:
  "\<exists>row. transitionTask ex_missed_request ex_scheduled = Inr ((row, True), ex_missed) \<and> version row = 1 \<and>
     length (task_observation ex_missed) = 2 \<and> \<not> has_event [''t1'', ''start-window-missed''] ex_scheduled"
proof (rule ex_missed_run)
  fix row assume run: "transitionTask ex_missed_request ex_scheduled = Inr ((row, True), ex_missed)"
  have key: "tq_eventKey ex_missed_request = [''t1'', ''start-window-missed'']" "tq_taskId ex_missed_request = ''t1''"
    by (simp_all add: ex_missed_request_def start_window_missed_request_def Let_def)
  have "version ex_row = 0" by (simp add: ex_row_def scheduled_row_def default_row_def)
  with transition_outcome [OF run] show ?thesis using run ex_find ex_scheduled_obs key by auto
qed

theorem transition_replay_witness:
  "\<exists>row. transitionTask ex_missed_request ex_scheduled = Inr ((row, True), ex_missed) \<and>
     transitionTask ex_missed_request ex_missed = Inr ((row, False), ex_missed)"
  by (rule ex_missed_run) (use transition_replay in blast)

theorem transition_goes_through_witness:
  "\<exists>row db'. transitionTask ex_missed_request ex_scheduled = Inr ((row, True), db') \<and> schema_ok db'"
proof -
  have "find_task (tq_taskId ex_missed_request) ex_scheduled = Some ex_row"
    using ex_find by (simp add: ex_missed_request_def start_window_missed_request_def Let_def)
  from transition_goes_through [OF reachable_store_inv [OF ex_scheduled_reachable] this ex_missed_guard ex_missed_ok]
  show ?thesis by blast
qed

theorem reachable_status_witness:
  "reachable_store ex_scheduled \<and> ex_row \<in> set (provider_task ex_scheduled) \<and> result ex_row = None \<and> error ex_row = None"
proof -
  have mem: "ex_row \<in> set (provider_task ex_scheduled)" by (simp add: ex_scheduled_task)
  have "mcp_status ex_row = working" by (simp add: ex_row_def scheduled_row_def default_row_def)
  with reachable_status_consistent [OF ex_scheduled_reachable mem] mem ex_scheduled_reachable show ?thesis by auto
qed


lemma ex_missed_reachable_store: "reachable_store ex_missed"
  using ex_scheduled_reachable ex_missed_reachable unfolding reachable_store_def by (meson rtranclp.rtrancl_into_rtrancl)

theorem progress_witness:
  "prefix (task_observation ex_scheduled) (task_observation ex_missed) \<and> find_task ''t1'' ex_missed \<noteq> None"
  using store_progress [OF ex_scheduled_reachable r_into_rtranclp [of repo_step, OF ex_missed_reachable] ex_find] by auto

theorem cancel_stops_witness:
  "\<exists>res db' c. beginCancel ex_env ''t1'' ''h'' ex_scheduled = Inr (res, db') \<and> active_stop_command ''t1'' db' = Some c \<and>
     cmd_sequence c = rs_sequence res \<and> \<not> rs_duplicate res"
proof -
  have "\<not> isTerminalState (internal_state ex_row)" by (simp add: row_eval isTerminalState_iff)
  moreover have "active_stop_command ''t1'' ex_scheduled = None"
    by (simp add: active_stop_command_def latest_row_def ex_scheduled_cmds)
  ultimately show ?thesis using cancel_always_stops [OF ex_scheduled_reachable ex_find, of ex_env "''h''"] by simp
qed

theorem cancel_idempotent_witness:
  "\<exists>res' db''. beginCancel ex_env ''t1'' ''other'' ex_cancelled = Inr (res', db'') \<and> rs_sequence res' = 1 \<and> rs_duplicate res' \<and>
     task_command db'' = [ex_stop]"
  using cancel_is_idempotent [OF ex_scheduled_reachable ex_cancel, of ex_env "''other''"]
  by (auto simp: created_resolution_def ex_cancelled_commands)

theorem cancel_supersedes_witness:
  "beginCancel ex_env ''t1'' ''h'' ex_scheduled = Inr (created_resolution 1 CANCEL, ex_cancelled) \<and>
   (\<exists>c. task_command ex_cancelled = [c] \<and> cmd_sequence c = 1 \<and> cmd_type c = CANCEL)"
proof -
  have "\<not> rs_duplicate (created_resolution 1 CANCEL)" by (simp add: created_resolution_def)
  from cancel_supersedes [OF ex_cancel this] show ?thesis
    using ex_cancel by (auto simp: ex_scheduled_cmds created_resolution_def)
qed

theorem claims_exclusive_witness:
  "claimDueCommands ex_env (\<lambda>_. True) 1000 ''w1'' 30000 10 ex_cancelled = Inr ([ex_claim], ex_claimed) \<and>
   ex_claim \<in> set (task_command ex_claimed) \<and> cmd_claim_owner ex_claim = Some ''w1''"
  using claims_are_exclusive [OF ex_cancelled_reachable ex_claim_run] ex_claim_run by simp

theorem claim_fences_witness:
  "acknowledgeClaimedCommand ex_env (ex_claim\<lparr>cmd_claim_owner := Some ''w2''\<rparr>) JNull ex_claimed = Inl (Error ''COMMAND_CLAIM_LOST'')"
  using claim_fences_out [OF ex_claim_run, of ex_claim "ex_claim\<lparr>cmd_claim_owner := Some ''w2''\<rparr>"] by simp

text \<open>A snapshot that reports the task as running while the stop is in force.\<close>

definition ex_running :: SnapshotTransition where
  "ex_running = \<lparr>tn_internalState = RUNNING, tn_mcpStatus = working, tn_substate = Some ''running'',
     tn_statusMessage = ''m'', tn_result = None, tn_error = None, tn_terminal = False, tn_observationType = ''task.started''\<rparr>"

theorem stale_snapshot_witness:
  "applySnapshot ex_env ''t1'' (-1) ex_running [] ex_scheduled = Inr (ex_row, ex_scheduled)"
proof -
  have "-1 < adapter_revision ex_row" by (simp add: row_eval)
  with stale_snapshot_ignored [OF ex_find] show ?thesis by blast
qed

lemma ex_running_run: "\<exists>r' db'. applySnapshot ex_env ''t1'' 1 ex_running [] ex_cancelled = Inr (r', db')"
proof -
  let ?q = "snapshot_request ex_env ex_stopping 1 ex_running"
  have sub: "substate ex_stopping = Some ''stopping''"
    by (simp add: ex_stopping_def apply_update_def Let_def cancel_request_def no_update_def)
  have find: "find_task (tq_taskId ?q) ex_cancelled = Some ex_stopping"
    by (simp add: snapshot_request_def ex_cancelled_find ex_stopping_simps)
  obtain x db' where "transitionTask ?q ex_cancelled = Inr (x, db')"
    by (rule live_transition_returns [OF reachable_store_inv [OF ex_cancelled_reachable] find])
      (simp_all add: snapshot_request_def ex_stopping_simps transition_update_def mergeStopState_def
        ex_running_def no_update_def allowed_substates_def isTerminalState_iff sub)
  then show ?thesis
    by (cases x) (simp add: applySnapshot_def ex_cancelled_find ex_stopping_simps isTerminalState_iff upsertInputRequests_def ex_running_def)
qed

theorem snapshot_keeps_stop_witness:
  "\<exists>r' db'. applySnapshot ex_env ''t1'' 1 ex_running [] ex_cancelled = Inr (r', db') \<and> internal_state r' = STOPPING \<and> cancel_requested r'"
proof -
  obtain r' db' where run: "applySnapshot ex_env ''t1'' 1 ex_running [] ex_cancelled = Inr (r', db')"
    using ex_running_run by blast
  from snapshot_keeps_stop [OF run ex_cancelled_find] run show ?thesis
    by (auto simp: ex_stopping_simps ex_running_def)
qed

text \<open>A snapshot that reports the task as cancelled while the stop command is pending.\<close>

definition ex_cancelled_snapshot :: SnapshotTransition where
  "ex_cancelled_snapshot = \<lparr>tn_internalState = TERMINAL_CANCELLED, tn_mcpStatus = cancelled, tn_substate = None,
     tn_statusMessage = ''m'', tn_result = None, tn_error = None, tn_terminal = True, tn_observationType = ''task.progress''\<rparr>"

lemma ex_terminal_run: "\<exists>r' db'. applySnapshot ex_env ''t1'' 1 ex_cancelled_snapshot [] ex_inserted = Inr (r', db')"
proof -
  let ?r = "ex_row\<lparr>next_command_sequence := 1\<rparr>"
  let ?q = "snapshot_request ex_env ?r 1 ex_cancelled_snapshot"
  have find: "find_task ''t1'' ex_inserted = Some ?r"
    by (simp add: find_task_def first_row_def ex_inserted_def ex_row_simps)
  have q: "tq_taskId ?q = ''t1''" by (simp add: snapshot_request_def ex_row_simps)
  have guard: "transition_guard ?q ?r ex_inserted"
    by (simp add: transition_guard_def snapshot_request_def has_event_def ex_inserted_def ex_scheduled_events ex_row_simps isTerminalState_iff)
  have ok: "no_new_violation ?q ?r ex_inserted"
    by (simp add: no_new_violation_def snapshot_request_def ex_inserted_def ex_scheduled_rest ex_cancelled_snapshot_def mergeStopState_def
        transition_update_def no_update_def apply_update_def store_eval Let_def row_eval)
  from transitionTask_succeeds [OF ex_inserted_inv _ guard ok] find q obtain x db' where
    run: "transitionTask ?q ex_inserted = Inr (x, db')" by auto
  have commands: "task_command db' = [ex_stop]" using transitionTask_commands [OF run] by (simp add: ex_inserted_def)
  have "schema_ok db'" using run by (cases x) (auto elim!: transitionTask_InrE simp: ex_inserted_schema transition_applied_def)
  then have "\<exists>db''. exhaust_all ex_env ''t1'' db' = Inr db''"
    by (simp add: exhaust_all_def update_commands_def commands update_rows_def deliverable_def ex_stop_simps release_as_def checked_def
      schema_ok_def schema_checks_def first_row_def command_row_ok_def active_stop_def)
  then show ?thesis using run find
    by (cases x) (auto simp: applySnapshot_def ex_row_simps isTerminalState_iff upsertInputRequests_def ex_cancelled_snapshot_def)
qed

theorem terminal_snapshot_witness:
  "\<exists>r' db'. applySnapshot ex_env ''t1'' 1 ex_cancelled_snapshot [] ex_inserted = Inr (r', db') \<and> listPendingCommands ''t1'' db' = []"
proof -
  obtain r' db' where run: "applySnapshot ex_env ''t1'' 1 ex_cancelled_snapshot [] ex_inserted = Inr (r', db')"
    using ex_terminal_run by blast
  have "find_task ''t1'' ex_inserted = Some (ex_row\<lparr>next_command_sequence := 1\<rparr>)"
    by (simp add: find_task_def first_row_def ex_inserted_def ex_row_simps)
  from terminal_snapshot_ends_delivery [OF run this] run show ?thesis
    by (auto simp: ex_row_simps isTerminalState_iff ex_cancelled_snapshot_def)
qed

end
