(* ===== verification/Dispatcher_Example.thy ===== *)
theory Dispatcher_Example
  imports Dispatcher_Theorems Store_Example
begin

text \<open>Concrete runs of the dispatcher: a pause that the adapter accepts, a required stop that it never confirms, and a tick.\<close>

section \<open>A pause that is accepted\<close>

definition dx_input :: AdmissionIntentInput where
  "dx_input = ex_input\<lparr>in_operationName := ''heat''\<rparr>"

definition dx_row :: task_row where
  "dx_row = ex_row\<lparr>spec := dx_input, internal_state := RUNNING, substate := Some ''running'', external_execution_id := Some ''x1''\<rparr>"

definition dx_command :: command_row where
  "dx_command = ex_claim\<lparr>cmd_type := PAUSE, cmd_stop_reason := None\<rparr>"

definition dx_db :: db where
  "dx_db = ex_initial\<lparr>provider_task := [dx_row], task_command := [dx_command]\<rparr>"

definition dx_world :: "nat world" where
  "dx_world = \<lparr>w_db = dx_db, w_turn = 0, w_rest = 0 :: nat\<rparr>"

definition dx_ctx :: "snapshot_table \<Rightarrow> worker_ctx" where
  "dx_ctx tbl = \<lparr>wc_env = \<lambda>_. ex_env, wc_others = \<lambda>_ db. db, wc_snapshots = \<lambda>_. tbl, wc_compile = reg_compile,
     wc_command_free = \<lambda>_ _. True, wc_task_free = \<lambda>_ _. True, wc_inbox_free = \<lambda>_ _. True, wc_beats = \<lambda>_. 0, wc_hashtext = \<lambda>_. 0, wc_raw = \<lambda>_. JNull, wc_accepts_undefined = \<lambda>_. True\<rparr>"

definition dx_dispatcher :: dispatcher where
  "dx_dispatcher = \<lparr>ds_workerId = ''w1'', ds_concurrency = 10, ds_leaseMilliseconds = 30000, ds_maxSafeStopAttempts = 1,
     ds_maxInputResponseAttempts = 5\<rparr>"

definition dx_ack :: CommandAck where
  "dx_ack = \<lparr>ca_accepted = True, ca_reasonCode = '''', ca_message = '''', ca_commandSequence = 1,
     ca_identity = Some \<lparr>ci_taskId = ''t1'', ci_externalExecutionId = ''x1'', ci_operationName = ''heat'', ci_argumentHash = ''a'',
       ci_executionContext = Some \<lparr>ax_authorizationContextHash = ''h'', ax_executionMode = ''live'', ax_simulationId = '''', ax_correlationId = ''''\<rparr>,
       ci_commandSequence = 1\<rparr>\<rparr>"

text \<open>An adapter that accepts every pause and is unavailable for everything else.\<close>

definition dx_gateway :: "nat command_gateway" where
  "dx_gateway = (let down = (Inl (Error ''UNAVAILABLE'')) in
     \<lparr>cg_requestCancel = \<lambda>_ _ _ w. (down, w), cg_updateMcpTaskExecution = \<lambda>_ _ _ w. (down, w), cg_updateExecution = \<lambda>_ _ _ w. (down, w),
      cg_pauseExecution = \<lambda>_ _ w. (Inr dx_ack, w), cg_resumeExecution = \<lambda>_ _ w. (down, w), cg_reconcileExecution = \<lambda>_ w. (Inl (Error ''UNAVAILABLE''), w)\<rparr>)"

lemma dx_identity: "validateCommandAckIdentity dx_ack (expected_identity dx_row ''heat'') 1 = Inr ()"
  by (simp add: validateCommandAckIdentity_def dx_ack_def expected_identity_def dx_row_def dx_input_def matchesContext_def
      row_eval Let_def) 

lemmas dx_eval = dx_ctx_def dx_dispatcher_def ex_env_def

lemma dx_command_simps: "cmd_type dx_command = PAUSE" "cmd_task_id dx_command = ''t1''" "cmd_sequence dx_command = 1"
  "cmd_state dx_command = CLAIMED" "cmd_claim_owner dx_command = Some ''w1''" "cmd_claim_until dx_command = Some 31000"
  by (simp_all add: dx_command_def ex_claim_def claim_command_def ex_stop_simps)

text \<open>While the command is held, renewing it, recording its start and acknowledging it succeed.\<close>

definition dx_held :: "db \<Rightarrow> bool" where
  "dx_held db = (schema_ok db \<and> provider_task db = [dx_row] \<and>
     (\<exists>c. task_command db = [c] \<and> owned dx_command c \<and> cmd_claim_until c \<noteq> None))"

lemma dx_held_commands:
  assumes "dx_held db" "\<And>c. owned dx_command c \<Longrightarrow> cmd_claim_until c \<noteq> None \<Longrightarrow> command_row_ok (f c) \<and> cmd_type (f c) = cmd_type c"
  shows "\<exists>c. update_owned dx_command (\<lambda>_. True) f db = Inr (db\<lparr>task_command := [f c]\<rparr>) \<and> owned dx_command c \<and> schema_ok (db\<lparr>task_command := [f c]\<rparr>) \<and> provider_task db = [dx_row]"
proof -
  obtain c where c: "task_command db = [c]" "owned dx_command c" "cmd_claim_until c \<noteq> None" using assms(1) by (auto simp: dx_held_def)
  have ok: "schema_ok (db\<lparr>task_command := [f c]\<rparr>)"
    using assms(1) assms(2) [OF c(2,3)] by (auto simp: dx_held_def schema_ok_def schema_checks_def)
  show ?thesis
    using checked_ok [OF ok] c ok assms(1) by (intro exI [of _ c]) (simp add: update_owned_def row_count_def update_commands_def update_rows_def dx_held_def)
qed

lemma dx_renew:
  assumes "dx_held (w_db s)"
  shows "\<exists>s'. renew_claim (dx_ctx tbl) dx_dispatcher dx_command s = (Inr (), s') \<and> dx_held (w_db s')"
proof -
  let ?f = "\<lambda>c. c\<lparr>cmd_claim_until := Some (clk ex_env + 30000), cmd_updated_at := clk ex_env\<rparr>"
  obtain c where c: "update_owned dx_command (\<lambda>_. True) ?f (w_db s) = Inr (w_db s\<lparr>task_command := [?f c]\<rparr>)" "owned dx_command c"
      "schema_ok (w_db s\<lparr>task_command := [?f c]\<rparr>)" "provider_task (w_db s) = [dx_row]"
    using dx_held_commands [OF assms, of ?f] by (auto simp: command_row_ok_def owned_def is_command_def dx_command_simps)
  then show ?thesis by (simp add: renew_claim_def call_def settle_others_def dx_ctx_def dx_dispatcher_def renewCommandClaim_def dx_held_def owned_def is_command_def dx_command_simps)
qed

lemma schema_ok_fact: "schema_ok db \<Longrightarrow> schema_ok (insertCommandFact env t c ty x db)"
  by (auto simp: insertCommandFact_def insertOutbox_def Let_def captureTaskProviderOpsDelivery_def captureProviderOpsDelivery_def
      split: option.splits dest: schema_ok_event) (auto simp: schema_ok_def schema_checks_def has_event_def)

lemma dx_started:
  assumes "dx_held (w_db s)"
  shows "\<exists>s'. call (dx_ctx tbl) (\<lambda>_ env. recordCommandStarted env dx_command) s = (Inr (), s') \<and> dx_held (w_db s')"
proof -
  let ?db = "insertCommandFact ex_env ''t1'' (fact_of dx_command CLAIMED) ''task.command.started'' (extra_of (Some CLAIMED) None ''started'') (w_db s)"
  have "schema_ok ?db" using assms schema_ok_fact by (auto simp: dx_held_def)
  then have "dx_held ?db" using assms only_facts_simps [OF only_facts_command_fact] by (auto simp: dx_held_def)
  then show ?thesis using assms
    by (auto simp: call_def settle_others_def dx_ctx_def recordCommandStarted_def dx_held_def row_count_def dx_command_simps)
qed

lemma dx_acknowledged:
  assumes "dx_held (w_db s)"
  shows "\<exists>s'. call (dx_ctx tbl) (\<lambda>_ env. acknowledgeClaimedCommand env dx_command ack) s = (Inr (), s')"
proof -
  obtain db where "update_owned dx_command (\<lambda>_. True) (acknowledge ex_env ack) (w_db s) = Inr db"
    using dx_held_commands [OF assms, of "acknowledge ex_env ack"]
    by (auto simp: acknowledge_def release_as_def command_row_ok_def owned_def is_command_def dx_command_simps)
  then show ?thesis by (simp add: call_def settle_others_def dx_ctx_def acknowledgeClaimedCommand_def)
qed

lemma andThen_eval: "m s = (Inr v, t) \<Longrightarrow> f v t = r \<Longrightarrow> andThen m f s = r"
  by (simp add: andThen_def)

lemma dx_pause:
  assumes "dx_held (w_db s)"
  shows "\<exists>s'. withClaimHeartbeat (dx_ctx tbl) dx_dispatcher dx_command (cg_pauseExecution dx_gateway request n) s = (Inr dx_ack, s') \<and>
    dx_held (w_db s')"
proof -
  obtain t where t: "renew_claim (dx_ctx tbl) dx_dispatcher dx_command s = (Inr (), t)" "dx_held (w_db t)"
    using dx_renew [OF assms] by blast
  obtain u where u: "renew_claim (dx_ctx tbl) dx_dispatcher dx_command t = (Inr (), u)" "dx_held (w_db u)"
    using dx_renew [OF t(2)] by blast
  have "cg_pauseExecution dx_gateway request n = (\<lambda>w. (Inr dx_ack, w))" by (simp add: dx_gateway_def Let_def)
  then show ?thesis using t u
    by (simp add: withClaimHeartbeat_def withLeaseHeartbeat_def andThen_def remote_def dx_ctx_def ret_def)
qed

lemma dx_run:
  assumes "loadOperationSnapshot (\<lambda>s. s) reg_compile ''s1'' tbl = Inr op" "vo_name (rt_operation op) = ''heat''"
  shows "\<exists>s'. executeClaimed (dx_ctx tbl) dx_dispatcher dx_gateway dx_command dx_world = (Inr d_acknowledged, s')"
proof -
  have row: "task_id dx_row = ''t1''" "internal_state dx_row = RUNNING" "in_operationSnapshotId (spec dx_row) = ''s1''"
    by (simp_all add: dx_row_def dx_input_def row_eval)
  have "task_row_ok dx_row"
    by (simp add: task_row_ok_def dx_row_def dx_input_def row_eval retention_order_def allowed_substates_def isTerminalState_iff)
  then have held: "dx_held (w_db dx_world)"
    by (simp add: dx_world_def dx_db_def dx_held_def dx_command_simps owned_def is_command_def schema_ok_def schema_checks_def ex_initial_def
        empty_db_def command_row_ok_def active_stop_def execution_keys_def)
  obtain s1 where s1: "renew_claim (dx_ctx tbl) dx_dispatcher dx_command dx_world = (Inr (), s1)" "dx_held (w_db s1)"
    using dx_renew [OF held] by blast
  define s2 where "s2 = s1\<lparr>w_turn := Suc (w_turn s1)\<rparr>"
  have s2: "read_store (dx_ctx tbl) (\<lambda>_. getById (cmd_task_id dx_command)) s1 = (Inr (Some dx_row), s2)" "dx_held (w_db s2)"
    using s1(2) by (auto simp: read_store_def call_def settle_others_def dx_ctx_def s2_def dx_held_def getById_def find_task_def first_row_def
      dx_command_simps row)
  have load: "loadOperation (dx_ctx tbl) ''s1'' s2 = (Inr (rt_operation op), s2)"
    using assms by (simp add: loadOperation_def dx_ctx_def ex_env_def)
  obtain s3 where s3: "call (dx_ctx tbl) (\<lambda>_ env. recordCommandStarted env dx_command) s2 = (Inr (), s3)" "dx_held (w_db s3)"
    using dx_started [OF s2(2)] by blast
  obtain s4 where s4: "withClaimHeartbeat (dx_ctx tbl) dx_dispatcher dx_command
      (cg_pauseExecution dx_gateway (execution_request dx_row ''heat'') (cmd_sequence dx_command)) s3 = (Inr dx_ack, s4)" "dx_held (w_db s4)"
    using dx_pause [OF s3(2)] by blast
  obtain s5 where s5: "call (dx_ctx tbl) (\<lambda>_ env. acknowledgeClaimedCommand env dx_command (JObj (ack_json dx_ack))) s4 = (Inr (), s5)"
    using dx_acknowledged [OF s4(2)] by blast
  have "dispatchPauseOrResume (dx_ctx tbl) dx_dispatcher dx_gateway dx_command dx_row ''heat'' s3 = (Inr d_acknowledged, s5)"
    using s4(1) s5 dx_identity
    by (simp add: dispatchPauseOrResume_def deliver_normal_def catching_def andThen_def dx_command_simps lift_err_def ret_def)
      (simp add: dx_ack_def)
  then have "dispatch (dx_ctx tbl) dx_dispatcher dx_gateway dx_command dx_row s2 = (Inr d_acknowledged, s5)"
    using load s3(1) assms(2) by (simp add: dispatch_def andThen_def row dx_command_simps)
  then show ?thesis using s1(1) s2(1) row by (simp add: executeClaimed_def andThen_def catching_def isTerminalState_iff)
qed

theorem acknowledged_by_adapter_witness:
  "\<exists>tbl s' task operation n ack. executeClaimed (dx_ctx tbl) dx_dispatcher dx_gateway dx_command dx_world = (Inr d_acknowledged, s') \<and>
     task_id task = cmd_task_id dx_command \<and> \<not> isTerminalState (internal_state task) \<and>
     delivery_call dx_gateway (wc_env (dx_ctx tbl) n) dx_command task (vo_name operation) (w_rest dx_world) = (Inr ack, w_rest s') \<and> ca_accepted ack"
proof (rule reg_loads)
  fix tbl op assume "loadOperationSnapshot (\<lambda>s. s) reg_compile ''s1'' tbl = Inr op" "vo_name (rt_operation op) = ''heat''"
  then obtain s' where "executeClaimed (dx_ctx tbl) dx_dispatcher dx_gateway dx_command dx_world = (Inr d_acknowledged, s')"
    using dx_run by blast
  with acknowledged_by_adapter [OF this] show ?thesis by blast
qed

section \<open>A tick\<close>

lemma dx_others: "others_step (dx_ctx tbl)"
  by (simp add: others_step_def dx_ctx_def)

theorem dispatcher_tick_safe_witness:
  "\<exists>row'. find_task ''t1'' (w_db (snd (dispatcher_tick (dx_ctx []) dx_dispatcher dx_gateway \<lparr>w_db = ex_missed, w_turn = 0, w_rest = 0 :: nat\<rparr>))) = Some row' \<and>
     internal_state row' = TERMINAL_COMPLETED"
proof (rule ex_missed_run)
  fix row assume row: "internal_state row = TERMINAL_COMPLETED" "find_task ''t1'' ex_missed = Some row"
  let ?s = "\<lparr>w_db = ex_missed, w_turn = 0, w_rest = 0 :: nat\<rparr>"
  obtain r s' where run: "dispatcher_tick (dx_ctx []) dx_dispatcher dx_gateway ?s = (r, s')" by fastforce
  have "reachable_store (w_db ?s)" by (simp add: ex_missed_reachable_store)
  from dispatcher_tick_safe [OF dx_others this run] have kept: "finals_kept ex_missed (w_db s')" by simp
  have "isTerminalState (internal_state row)" using row(1) by (simp add: isTerminalState_iff)
  from finals_keptD [OF kept row(2) this] obtain row' where
    "find_task ''t1'' (w_db s') = Some row'" "internal_state row' = internal_state row" .
  with row run show ?thesis by simp
qed

section \<open>A stop that is never confirmed\<close>

definition dx_stop :: command_row where
  "dx_stop = ex_claim\<lparr>cmd_stop_reason := Some DEADLINE_REACHED\<rparr>"

definition dx_unstopped :: db where
  "dx_unstopped = ex_inserted\<lparr>task_command := [dx_stop]\<rparr>"

lemma dx_stop_simps: "cmd_type dx_stop = CANCEL" "cmd_task_id dx_stop = ''t1''" "cmd_sequence dx_stop = 1" "cmd_state dx_stop = CLAIMED"
  "cmd_claim_owner dx_stop = Some ''w1''" "cmd_claim_until dx_stop = Some 31000" "cmd_stop_reason dx_stop = Some DEADLINE_REACHED"
  "cmd_attempt_count dx_stop = 1"
  by (simp_all add: dx_stop_def ex_claim_def claim_command_def ex_stop_simps)
    (simp add: ex_stop_def cancel_command_def new_stop_command_def new_command_def)

lemma dx_unstopped_inv: "db_inv dx_unstopped"
proof -
  have "saved_ok ex_stop" using ex_inserted_inv by (simp add: db_inv_def commands_inv_def ex_inserted_def)
  then have "saved_ok dx_stop" by (simp add: dx_stop_def ex_claim_def claim_command_def saved_ok_def)
  then show ?thesis using ex_inserted_inv
    by (simp add: dx_unstopped_def db_inv_def commands_inv_def schema_ok_def schema_checks_def ex_inserted_def dx_stop_simps ex_stop_simps
        command_row_ok_def active_stop_def)
qed

lemma dx_unstopped_find: "find_task ''t1'' dx_unstopped = Some (ex_row\<lparr>next_command_sequence := 1\<rparr>)"
  by (simp add: find_task_def first_row_def dx_unstopped_def ex_inserted_def ex_row_simps)

lemma dx_gives_up: "\<exists>v db'. failSafeStopUnconfirmed ex_env dx_stop message dx_unstopped = Inr (v, db')"
proof -
  define q where "q = command_failure ex_env dx_stop 0 message ''SAFE_STOP_UNCONFIRMED'' ''safe-stop-failed''
    [(''stopReason'', json_stop_reason (Some DEADLINE_REACHED)), (''severity'', JStr ''critical'')]
    [(''reasonCode'', JStr ''SAFE_STOP_UNCONFIRMED''), (''stopReason'', json_stop_reason (Some DEADLINE_REACHED)), (''severity'', JStr ''critical'')]"
  let ?r = "ex_row\<lparr>next_command_sequence := 1\<rparr>"
  have find: "find_task (tq_taskId q) dx_unstopped = Some ?r" by (simp add: q_def command_failure_def dx_stop_simps dx_unstopped_find)
  have guard: "transition_guard q ?r dx_unstopped"
    by (simp add: q_def command_failure_def transition_guard_def has_event_def dx_unstopped_def ex_inserted_def ex_scheduled_events
        dx_stop_simps ex_row_simps isTerminalState_iff no_update_def)
  have "no_new_violation q ?r dx_unstopped"
    by (simp add: no_new_violation_def q_def command_failure_def dx_unstopped_def ex_inserted_def ex_scheduled_rest no_update_def
        apply_update_def runtime_observation_def store_eval Let_def row_eval dx_stop_simps)
  then obtain r db1 where t: "transitionTask q dx_unstopped = Inr ((r, True), db1)"
    using transitionTask_succeeds [OF dx_unstopped_inv find guard] by blast
  then have db1: "task_command db1 = [dx_stop]" "schema_ok db1"
    by (cases rule: transitionTask_InrE, simp_all add: transition_applied_def dx_unstopped_def)+
  let ?c = "release_as ex_env EXHAUSTED (Some ''SAFE_STOP_UNCONFIRMED'') (Some message) dx_stop"
  have "schema_ok (db1\<lparr>task_command := [?c]\<rparr>)"
    using db1 by (simp add: schema_ok_def schema_checks_def command_row_ok_def active_stop_def release_as_def dx_stop_simps)
  from checked_ok [OF this] t show ?thesis
    using dx_unstopped_find db1 by (simp add: failSafeStopUnconfirmed_def dx_stop_simps ex_row_simps isTerminalState_iff q_def [symmetric]
      row_count_def held_by_def is_command_def update_commands_def update_rows_def)
qed


end
