(* ===== verification/Scheduler_Example.thy ===== *)
theory Scheduler_Example
  imports Scheduler_Theorems Dispatcher_Example
begin

text \<open>Concrete runs of the scheduler: a claimed task whose window has closed, an answer that comes after the window, a delay, and a tick.\<close>

definition sx_row :: task_row where
  "sx_row = ex_row\<lparr>internal_state := STARTING, schedule_claim_owner := Some ''w1''\<rparr>"

definition sx_db :: db where
  "sx_db = ex_initial\<lparr>provider_task := [sx_row], task_observation := [scheduled_observation ex_input]\<rparr>"

definition sx_ctx :: worker_ctx where
  "sx_ctx = (dx_ctx [])\<lparr>wc_env := \<lambda>_. ex_env\<lparr>now := 6000\<rparr>\<rparr>"

definition sx_gateway :: "nat start_gateway" where
  "sx_gateway = \<lparr>sg_startOperation = \<lambda>_ n. (Inl (ServiceError 14 ''UNAVAILABLE''), n + 1),
     sg_reconcileExecution = \<lambda>_ n. (Inl (ServiceError 14 ''UNAVAILABLE''), n + 1)\<rparr>"

definition sx_result :: SchedulerTickResult where
  "sx_result = \<lparr>sk_started = 0, sk_missed = 0, sk_deferred = 0, sk_deadlineStops = 0, sk_watchdogStops = 0, sk_reconciled = 0\<rparr>"

lemma sx_others: "others_step sx_ctx"
  by (simp add: others_step_def sx_ctx_def dx_ctx_def)

theorem closed_window_never_starts_witness:
  "startWindowClosed sx_row 6000 \<and>
   w_rest (snd (startClaimedTask sx_ctx 30000 sx_gateway sx_row sx_result \<lparr>w_db = ex_scheduled, w_turn = 0, w_rest = 7 :: nat\<rparr>)) = 7"
proof -
  let ?s = "\<lparr>w_db = ex_scheduled, w_turn = 0, w_rest = 7 :: nat\<rparr>"
  obtain x s' where run: "startClaimedTask sx_ctx 30000 sx_gateway sx_row sx_result ?s = (x, s')" by fastforce
  have closed: "startWindowClosed sx_row (now (wc_env sx_ctx (w_turn ?s)))"
    by (simp add: startWindowClosed_def sx_row_def row_eval sx_ctx_def)
  have "reachable_store (w_db ?s)" by (simp add: ex_scheduled_reachable)
  from closed_window_never_starts [OF sx_others this closed run] run closed show ?thesis by (simp add: sx_ctx_def)
qed

theorem scheduler_tick_safe_witness:
  "reachable_store (w_db (snd (scheduler_tick sx_ctx \<lparr>sc_workerId = ''w1'', sc_concurrency = 8, sc_claimLeaseMs = 30000, sc_leaseMilliseconds = None\<rparr>
     sx_gateway \<lparr>w_db = ex_missed, w_turn = 0, w_rest = 0\<rparr>)))"
proof -
  let ?s = "\<lparr>w_db = ex_missed, w_turn = 0, w_rest = 0\<rparr>"
  let ?d = "\<lparr>sc_workerId = ''w1'', sc_concurrency = 8, sc_claimLeaseMs = 30000, sc_leaseMilliseconds = None\<rparr>"
  obtain r s' where run: "scheduler_tick sx_ctx ?d sx_gateway ?s = (r, s')" by fastforce
  have "reachable_store (w_db ?s)" by (simp add: ex_missed_reachable_store)
  from scheduler_tick_safe [OF sx_others this run] run show ?thesis by simp
qed

theorem retryAt_bounds_witness:
  "retryAt (ex_row\<lparr>spec := ex_input\<lparr>in_taskId := ''0000000a''\<rparr>, invocation_attempt := 3\<rparr>) 2000 = Inr 3010 \<and> (3010 :: int) \<le> 2000 + 5100"
proof -
  let ?t = "ex_row\<lparr>spec := ex_input\<lparr>in_taskId := ''0000000a''\<rparr>, invocation_attempt := 3\<rparr>"
  have run: "retryAt ?t 2000 = Inr 3010"
    by (simp add: retryAt_def start_jitter_def hex_number_def is_hex_def lower_char_def unhex_def start_delay_def row_eval)
  with retryAt_bounds [OF run] show ?thesis by simp
qed

section \<open>An answer after the window\<close>

definition sx_snapshot :: ExecutionSnapshot where
  "sx_snapshot = \<lparr>es_taskId = ''t1'', es_externalExecutionId = ''x1'', es_state = ''TECHNICAL_FAILED'', es_revision = 1, es_reasonCode = [],
     es_message = ''broken'', es_retryable = False, es_result = None, es_inputRequests = None,
     es_mcpInputRequests = None, es_evidence = None, es_operationName = ''heat'', es_argumentHash = ''a'',
     es_executionContext = Some \<lparr>ax_authorizationContextHash = ''h'', ax_executionMode = ''live'', ax_simulationId = '''', ax_correlationId = ''''\<rparr>\<rparr>"

lemma sx_row_simps: "task_id sx_row = ''t1''" "internal_state sx_row = STARTING" "version sx_row = 0" "adapter_revision sx_row = 0"
  "latest_start_at sx_row = Some 5000"
  by (simp_all add: sx_row_def row_eval)

lemma sx_transition: "tn_internalState (validatedSnapshotTransition at parse operation sx_snapshot) = TERMINAL_FAILED \<and>
    tn_substate (validatedSnapshotTransition at parse operation sx_snapshot) = None"
proof (cases "contract_transition at parse operation sx_snapshot")
  case (Inl e)
  then show ?thesis by (simp add: validatedSnapshotTransition_def technicalFailureTransition_def mapAdapterSnapshot_def terminal_transition_def)
next
  case (Inr t)
  then show ?thesis
    by (auto simp: validatedSnapshotTransition_def contract_transition_def bind_err_Inr_iff mapAdapterSnapshot_def normalizeSnapshot_def
        sx_snapshot_def terminal_transition_def attachEvidence_def)
qed

lemma sx_inv: "db_inv sx_db"
proof -
  have "row_ok ex_row" using db_inv_row_ok [OF reachable_store_inv [OF ex_scheduled_reachable]] by (simp add: ex_scheduled_task)
  then have "row_ok sx_row" by (simp add: row_ok_def sx_row_def ex_row_simps isTerminalState_iff state_status_ok_def)
  moreover have "task_row_ok sx_row"
    by (simp add: task_row_ok_def sx_row_def row_eval retention_order_def allowed_substates_def isTerminalState_iff)
  ultimately show ?thesis
    by (simp add: sx_db_def db_inv_def schema_ok_def schema_checks_def ex_initial_def empty_db_def tasks_inv_def observations_inv_def
        commands_inv_def revisions_def sx_row_simps execution_keys_def)
      (simp add: sx_row_def row_eval)
qed

lemma sx_accept:
  assumes "tn_internalState transition = TERMINAL_FAILED" "tn_substate transition = None"
  shows "\<exists>row db'. acceptScheduled env ''t1'' ''w1'' ''x1'' 1 transition response [] (Some 6000) started sx_db = Inr (row, db')"
proof -
  define q where "q = accept_scheduled_request env sx_row ''x1'' 1 transition started"
  have find: "find_task (tq_taskId q) sx_db = Some sx_row"
    by (simp add: q_def accept_scheduled_request_def find_task_def first_row_def sx_db_def)
  have guard: "transition_guard q sx_row sx_db"
    by (simp add: q_def accept_scheduled_request_def transition_guard_def has_event_def sx_db_def ex_initial_def empty_db_def sx_row_simps
        isTerminalState_iff)
  have "no_new_violation q sx_row sx_db" using assms
    by (simp add: no_new_violation_def q_def accept_scheduled_request_def transition_update_def sx_db_def ex_initial_def empty_db_def no_update_def
        apply_update_def store_eval Let_def sx_row_def row_eval)
  then obtain db1 where t: "transitionTask q sx_db = Inr ((apply_update (tq_update q) (tq_observation q) sx_row, True), db1)"
    using transitionTask_succeeds [OF sx_inv find guard] by blast
  have final: "isTerminalState (internal_state (apply_update (tq_update q) (tq_observation q) sx_row))"
    using assms(1) by (simp add: q_def accept_scheduled_request_def transition_update_def apply_update_def Let_def isTerminalState_iff)
  have "find_task ''t1'' db1 = Some (apply_update (tq_update q) (tq_observation q) sx_row)"
    using transitionTask_find [OF t] by (simp add: q_def accept_scheduled_request_def sx_row_simps)
  moreover have "find_claimed ''t1'' STARTING ''w1'' sx_db = Some sx_row"
    by (simp add: find_claimed_def first_row_def sx_db_def claimed_by_def sx_row_simps) (simp add: sx_row_def)
  ultimately show ?thesis using t final
    by (simp add: acceptScheduled_def q_def [symmetric] persistStartWindowStop_def upsertInputRequests_def update_admission_def find_task_def)
qed

lemma sx_operation: "vo_name rc_operation = ''heat''"
  by (rule reg_saves) (simp add: rc_operation_def)

theorem late_start_is_stopped_witness:
  "\<exists>row s'. acceptStart sx_ctx sx_row ''w1'' rc_operation ''x1'' sx_snapshot JNull 6000 \<lparr>w_db = sx_db, w_turn = 0, w_rest = 0 :: nat\<rparr> = (Inr row, s') \<and>
     ((\<exists>r. find_task ''t1'' (w_db s') = Some r \<and> isTerminalState (internal_state r)) \<or> required_stop ''t1'' (w_db s'))"
proof -
  let ?s = "\<lparr>w_db = sx_db, w_turn = 0, w_rest = 0 :: nat\<rparr>"
  have late: "startResponseLate sx_row 6000" by (simp add: startResponseLate_def sx_row_simps)
  have identity: "validateAdapterSnapshotIdentity sx_snapshot ((expected_identity sx_row (vo_name rc_operation))\<lparr>ei_externalExecutionId := Some ''x1''\<rparr>) = Inr ()"
    by (simp add: validateAdapterSnapshotIdentity_def sx_snapshot_def expected_identity_def matchesContext_def sx_row_def row_eval sx_operation)
  have started: "snapshotHasStarted (es_state sx_snapshot)" "es_externalExecutionId sx_snapshot = ''x1''" "es_revision sx_snapshot = 1"
      "es_inputRequests sx_snapshot = None"
    by (simp_all add: snapshotHasStarted_def sx_snapshot_def)
  obtain row db' where "acceptScheduled (wc_env sx_ctx 0) ''t1'' ''w1'' ''x1'' 1 (validatedSnapshotTransition (now (wc_env sx_ctx 0))
      (legacy_date (wc_env sx_ctx 0)) rc_operation sx_snapshot) JNull [] (Some 6000) (Some 6000) sx_db = Inr (row, db')"
    using sx_accept sx_transition by blast
  then obtain s' where run: "acceptStart sx_ctx sx_row ''w1'' rc_operation ''x1'' sx_snapshot JNull 6000 ?s = (Inr row, s')"
    using late identity started by (simp add: acceptStart_def andThen_def lift_err_def call_def settle_others_def sx_row_simps)
      (simp add: sx_ctx_def dx_ctx_def)
  from late_start_is_stopped [OF late run] run show ?thesis unfolding sx_row_simps by blast
qed

end
