(* ===== verification/Engine_Example.thy ===== *)
theory Engine_Example
  imports Engine_Call Recovery Scheduler_Example
begin

text \<open>Concrete runs of the engine and of recovery on the example store: an operation whose start fails, a repeated call, a caller of another
  context, a stopped task, a set of answers and a scan.\<close>

definition nx_operation :: "OperationExecution \<Rightarrow> ValidatedOperation" where
  "nx_operation x = rc_operation\<lparr>vo_operation := \<lparr>od_name = ''heat'', od_description = [], od_execution = x, od_inputSchema = [], od_outputSchema = [],
     od_capabilities = od_capabilities reg_operation, od_resourceBinding = None\<rparr>, vo_validateArguments := \<lambda>_. Inr ()\<rparr>"

definition nx_engine :: engine where
  "nx_engine = \<lparr>en_manifest = reg_validated, en_operationSnapshotIds = [(''heat'', ''s1'')]\<rparr>"

definition nx_world :: "db \<Rightarrow> nat world" where
  "nx_world db = \<lparr>w_db = db, w_turn = 0, w_rest = 0\<rparr>"

lemma nx_world_simps [simp]: "w_db (nx_world db) = db" "w_turn (nx_world db) = 0" "w_rest (nx_world db) = 0"
  by (simp_all add: nx_world_def)

lemma nx_settle [simp]: "settle_others sx_ctx (nx_world db) = (nx_world db)\<lparr>w_turn := 1\<rparr>"
  by (simp add: settle_others_def sx_ctx_def dx_ctx_def nx_world_def)

lemma settle_rest [simp]: "w_rest (settle_others ctx s) = w_rest s"
  by (simp add: settle_others_def)

theorem engine_keeps_store_witness: "store_kept (nx_world ex_missed) (cancelTask sx_ctx ''t1'' ex_auth (nx_world ex_missed))"
proof -
  have "reachable_store (w_db (nx_world ex_missed))" by (simp add: ex_missed_reachable_store)
  note engine_keeps_store [OF sx_others this]
  then show ?thesis by blast
qed

theorem wrong_caller_refused_witness:
  "no_access ex_scheduled ''t1'' (ex_auth\<lparr>au_hash := ''other''\<rparr>) \<and>
   fst (cancelTask sx_ctx ''t1'' (ex_auth\<lparr>au_hash := ''other''\<rparr>) (nx_world ex_scheduled)) = Inl TaskNotFoundOrUnauthorizedError"
proof -
  have no: "no_access (w_db (settle_others sx_ctx (nx_world ex_scheduled))) ''t1'' (ex_auth\<lparr>au_hash := ''other''\<rparr>)"
    by (simp add: no_access_def ex_scheduled_task authorized_def row_eval)
  from wrong_caller_refused [OF no] have
    "cancelTask sx_ctx ''t1'' (ex_auth\<lparr>au_hash := ''other''\<rparr>) (nx_world ex_scheduled) =
       (Inl TaskNotFoundOrUnauthorizedError, settle_others sx_ctx (nx_world ex_scheduled))" by blast
  then show ?thesis using no by simp
qed

theorem detailed_task_shown_witness: "\<exists>obj. mapTaskToDetailedTask ex_row [] get = Inr obj \<and> shows_payload ex_row obj"
proof -
  have mem: "ex_row \<in> set (provider_task ex_scheduled)" by (simp add: ex_scheduled_task)
  have ok: "wire_limits ex_row" "mcp_status ex_row \<noteq> input_required" by (simp_all add: wire_limits_def row_eval)
  from detailed_task_shown [OF ex_scheduled_reachable mem ok(1), of "[]" get] ok(2) show ?thesis by auto
qed

theorem stop_outcome_reported_witness:
  "\<exists>t. stopTransition ex_env (\<lambda>_. JNull) (ex_row\<lparr>row_stop_reason := Some START_WINDOW_MISSED\<rparr>) rc_operation
     (sx_snapshot\<lparr>es_state := ''SUCCEEDED''\<rparr>) 6000 = Inr t \<and> reports ''start_window_missed'' t"
proof -
  let ?task = "ex_row\<lparr>row_stop_reason := Some START_WINDOW_MISSED\<rparr>" and ?snap = "sx_snapshot\<lparr>es_state := ''SUCCEEDED''\<rparr>"
  have final: "isTerminalTaskState (es_state ?snap)" by (simp add: isTerminalTaskState_def)
  then have run: "stopTransition ex_env (\<lambda>_. JNull) ?task rc_operation ?snap 6000 =
      Inr (startWindowMissedWithAdapterResultTransition (\<lambda>_. JNull) ?snap ?task 6000 ''START_WINDOW_MISSED'')"
    by (simp add: stopTransition_def)
  from stop_outcome_reported [OF run] final run show ?thesis by simp
qed

section \<open>A start that fails\<close>

definition nx_invocation :: Engine.invocation where
  "nx_invocation = \<lparr>iv_operation = nx_operation TASK_REQUIRED, iv_arguments = [], iv_authorization = ex_auth, iv_ttlMs = None, iv_taskId = ''t1'',
     iv_recovering = False, iv_argumentHash = ''a'', iv_timing = defaultTiming,
     iv_anchors = \<lparr>an_acceptedAt = 6000, an_notBefore = 6000, an_latestStartAt = 36000, an_deadlineAt = None\<rparr>, iv_reservationRef = None,
     iv_persistedSnapshotId = Some ''s1''\<rparr>"

lemma ex_initial_reachable: "reachable_store ex_initial"
  using ex_initial by (auto simp: reachable_store_def)

lemma nx_start_fails: "w_rest (snd (executeOperation sx_ctx nx_engine sx_gateway nx_invocation (nx_world ex_initial))) = 1"
  by (simp add: executeOperation_def nx_invocation_def nx_operation_def execute_task_def intent_of_def Let_def andThen_def call_def
      createAdmissionIntent_def mode_check_def find_admission_def snapshot_definition_def first_row_def ex_initial_def empty_db_def ex_auth_def
      start_immediate_def catching_def start_call_def with_env_def toAdapterTiming_def timing_argument_def defaultTiming_def remote_def sx_gateway_def
      uncertain_def markAdmissionUncertain_def throw_def ret_def)

theorem start_is_remembered_witness:
  "\<exists>s' snapshotId inserted s1. s' = snd (executeOperation sx_ctx nx_engine sx_gateway nx_invocation (nx_world ex_initial)) \<and>
    call sx_ctx (\<lambda>_ env. createAdmissionIntent env (intent_of nx_engine nx_invocation snapshotId)) (nx_world ex_initial) = (Inr inserted, s1) \<and>
    admitted ''t1'' (w_db s1) \<and> w_rest s1 = 0 \<and> w_rest s' = 1 \<and> admitted ''t1'' (w_db s')"
proof -
  obtain r s' where run: "executeOperation sx_ctx nx_engine sx_gateway nx_invocation (nx_world ex_initial) = (r, s')" by fastforce
  have at: "reachable_store (w_db (nx_world ex_initial))" "od_execution (vo_operation (iv_operation nx_invocation)) \<noteq> SYNCHRONOUS"
    "w_rest s' \<noteq> w_rest (nx_world ex_initial)" "w_rest (nx_world ex_initial) = 0" "iv_taskId nx_invocation = ''t1''"
    using nx_start_fails run by (simp_all add: ex_initial_reachable nx_invocation_def nx_operation_def)
  from start_is_remembered [OF sx_others at(1,2) run at(3)] show ?thesis
    unfolding run snd_conv at(4,5) using nx_start_fails [unfolded run snd_conv] by blast
qed

section \<open>Answers\<close>

definition nx_request :: input_request_row where
  "nx_request = \<lparr>input_request_row.ir_task_id = ''t1'', ir_key = ''k'', ir_description = [], ir_schema = JObj [], ir_required = True, ir_status = OPEN,
     ir_request_json = JNull, ir_answer_hash = None, ir_answer = None, ir_response_hash = None, ir_response_json = None, ir_answered_at = None\<rparr>"

theorem answers_checked_witness:
  "\<exists>all pending. check_answers ex_env (\<lambda>_ _. Inr (\<lambda>v. v = JStr ''yes'')) [nx_request] [] [(''k'', JStr ''yes'')] = Inr (all, pending) \<and>
     map (\<lambda>x. (an_key x, an_value x)) all = [(''k'', JStr ''yes'')]"
proof -
  let ?x = "\<lparr>an_key = ''k'', an_hash = sha256 ex_env (canonicalize (JStr ''yes'')), an_value = JStr ''yes''\<rparr>"
  have run: "check_answers ex_env (\<lambda>_ _. Inr (\<lambda>v. v = JStr ''yes'')) [nx_request] [] [(''k'', JStr ''yes'')] = Inr ([?x], [?x])"
    by (simp add: first_row_def nx_request_def Let_def)
  show ?thesis by (intro exI conjI, rule run, rule conjunct1 [OF answers_checked [OF run]])
qed

section \<open>A repeated call\<close>

text \<open>An adapter that refuses every start, and counts them.\<close>

definition nx_response :: StartOperationResponse where
  "nx_response = \<lparr>so_result = ''rejected'', so_accepted = None,
     so_rejected = Some \<lparr>sj_reasonCode = ''BUSY'', sj_message = ''busy'', sj_retryable = True\<rparr>, so_object = JNull\<rparr>"

definition nx_gateway :: "nat start_gateway" where
  "nx_gateway = \<lparr>sg_startOperation = \<lambda>_ n. (Inr nx_response, n + 1), sg_reconcileExecution = \<lambda>_ n. (Inl (ServiceError 14 ''UNAVAILABLE''), n + 1)\<rparr>"

definition nx_call :: call_request where
  "nx_call = \<lparr>cq_operation = nx_operation SYNCHRONOUS, cq_arguments = [], cq_authorization = ex_auth, cq_ttlMs = None, cq_idempotencyKey = Some ''k'',
     cq_timing = None, cq_reservationRef = None\<rparr>"

definition nx_turn :: loop_turn where
  "nx_turn = \<lparr>lt_date_now = 0, lt_clock = 100, lt_uuid = ''t1'', lt_others = \<lambda>t. t\<rparr>"

definition nx_idem :: idem_run where
  "nx_idem = \<lparr>ix_leaseMs = 30000, ix_waitUntil = 10000, ix_owner = ''w1'', ix_turns = [nx_turn], ix_during = \<lambda>t. t\<rparr>"

definition nx_anchors :: TimingAnchors where
  "nx_anchors = \<lparr>an_acceptedAt = 6000, an_notBefore = 6000, an_latestStartAt = 36000, an_deadlineAt = None\<rparr>"

lemma nx_env: "wc_env sx_ctx n = ex_env\<lparr>now := 6000\<rparr>"
  by (simp add: sx_ctx_def)

lemma nx_check: "check_call (wc_env sx_ctx n) nx_call = Inr nx_anchors"
  by (simp add: check_call_def nx_call_def nx_operation_def nx_env call_timing_def defaultTiming_def validateTiming_def timing_capabilities_def
      reg_operation_def Let_def isSafeInteger_def addMilliseconds_def valid_date_def nx_anchors_def)

definition nx_result :: json_object where
  "nx_result = rejectionResult 6000 (so_rejected nx_response)"

lemma nx_execute:
  "executeOperation sx_ctx nx_engine nx_gateway (call_invocation nx_call nx_anchors h t False) s =
     (Inr (tool_result nx_result), s\<lparr>w_rest := w_rest s + 1\<rparr>)"
  by (simp add: executeOperation_def call_invocation_def nx_call_def nx_operation_def andThen_def start_call_def with_env_def toAdapterTiming_def
      timing_argument_def call_timing_def defaultTiming_def remote_def nx_gateway_def nx_response_def validateStartResponseIdentity_def lift_err_def
      resultFromStart_def nx_result_def nx_env ret_def)

lemma nx_first:
  "\<exists>tbl. callOperation sx_ctx nx_engine nx_gateway (Some nx_idem) ''u'' nx_call ([], nx_world ex_initial) =
     Some (Inr (tool_result nx_result), (tbl, (nx_world ex_initial)\<lparr>w_rest := 1\<rparr>))"
proof -
  let ?h = "hashArguments (ex_env\<lparr>now := 6000\<rparr>) (cq_arguments nx_call)"
  let ?in = "idem_input_of nx_call ''k'' ?h"
  have one: "idem_claim 100 30000 ''t1'' ?in ''w1'' [] = Inr (idem_claimed ''t1'' False False, [new_record 100 30000 ''t1'' ?in ''w1''])"
    by (simp add: idem_run_defs)
  have two: "\<exists>tbl. idem_finish (\<lambda>t. find_task t ex_initial \<noteq> None) ?in ''w1'' (result_outcome nx_result) [new_record 100 30000 ''t1'' ?in ''w1''] =
      Inr (result_outcome nx_result, tbl)"
    by (simp add: idem_run_defs)
  have key: "cq_idempotencyKey nx_call = Some ''k''" "oc_idempotency (od_capabilities (vo_operation (cq_operation nx_call)))"
    by (simp_all add: nx_call_def nx_operation_def reg_operation_def)
  from one two show ?thesis
    by (auto simp: callOperation_def nx_check [unfolded nx_env] nx_env Let_def key call_with_key_def nx_idem_def nx_turn_def is_duplicate_def run_claimed_def
        invoke_operation_def nx_execute storedInvocation_def restoreStored_def ret_def)
qed

lemma nx_replicas: "replicas_step k nx_idem"
  by (simp add: replicas_step_def turns_step_def nx_idem_def nx_turn_def)

theorem retry_returns_first_outcome_witness:
  "\<exists>tbl s1. callOperation sx_ctx nx_engine nx_gateway (Some nx_idem) ''u'' nx_call ([], nx_world ex_initial) = Some (Inr (tool_result nx_result), (tbl, s1)) \<and>
     w_rest s1 = 1 \<and>
     callOperation sx_ctx nx_engine nx_gateway (Some nx_idem) ''v'' nx_call (tbl, s1) = Some (Inr (tool_result nx_result), (tbl, s1))"
proof -
  obtain tbl where first: "callOperation sx_ctx nx_engine nx_gateway (Some nx_idem) ''u'' nx_call ([], nx_world ex_initial) =
     Some (Inr (tool_result nx_result), (tbl, (nx_world ex_initial)\<lparr>w_rest := 1\<rparr>))" using nx_first by blast
  have key: "cq_idempotencyKey nx_call = Some ''k''" by (simp add: nx_call_def)
  have turns: "ix_turns nx_idem = nx_turn # []" "lt_others nx_turn tbl = tbl" by (simp_all add: nx_idem_def nx_turn_def)
  have same: "hashArguments (wc_env sx_ctx (w_turn ((nx_world ex_initial)\<lparr>w_rest := 1\<rparr>))) (cq_arguments nx_call) =
      hashArguments (wc_env sx_ctx (w_turn (nx_world ex_initial))) (cq_arguments nx_call)" by (simp add: nx_env)
  from retry_returns_first_outcome [OF first key rtranclp.rtrancl_refl nx_replicas rtranclp.rtrancl_refl nx_check nx_replicas turns(1) same]
  have "callOperation sx_ctx nx_engine nx_gateway (Some nx_idem) ''v'' nx_call (tbl, (nx_world ex_initial)\<lparr>w_rest := 1\<rparr>) =
      Some (Inr (tool_result nx_result), (lt_others nx_turn tbl, (nx_world ex_initial)\<lparr>w_rest := 1\<rparr>))" by blast
  then show ?thesis using first turns(2) by (intro exI [of _ tbl] exI [of _ "(nx_world ex_initial)\<lparr>w_rest := 1\<rparr>"]) simp
qed

section \<open>Recovery\<close>

theorem recovery_scan_completes_witness:
  "\<exists>r s'. recovery_scan sx_ctx nx_engine sx_gateway (\<lambda>_. ''u'') 30000 (nx_world ex_scheduled) = (Inr r, s') \<and> reachable_store (w_db s')"
proof -
  have "reachable_store (w_db (nx_world ex_scheduled))" by (simp add: ex_scheduled_reachable)
  from recovery_scan_completes [OF sx_others this, of nx_engine sx_gateway "\<lambda>_. ''u''" 30000] show ?thesis by blast
qed

theorem held_lease_skips_witness:
  "fst (with_recovery_lock sx_ctx (\<lambda>_. ''u'') ''t1'' 30000 (remote (\<lambda>n. (Inr (), n + 1)))
     (nx_world (ex_scheduled\<lparr>runtime_lease := [\<lparr>ls_key = ''sdar-recovery:t1'', ls_owner = ''o'', ls_fencing_token = 1, ls_expires_at = 9000\<rparr>]\<rparr>))) = Inr None"
proof -
  let ?l = "\<lparr>ls_key = ''sdar-recovery:t1'', ls_owner = ''o'', ls_fencing_token = 1, ls_expires_at = 9000\<rparr>"
  let ?s = "nx_world (ex_scheduled\<lparr>runtime_lease := [?l]\<rparr>)"
  have held: "find_lease (recovery_lease_key ''t1'') (w_db (settle_others sx_ctx ?s)) = Some ?l" "clk (wc_env sx_ctx (w_turn ?s)) < ls_expires_at ?l"
    by (simp_all add: find_lease_def first_row_def recovery_lease_key_def nx_env ex_env_def)
  show ?thesis by (simp only: held_lease_skips [OF held] fst_conv)
qed

end
