(* ===== verification/Event_Audit.thy ===== *)
theory Event_Audit
  imports Adapter_Events Store "HOL-Library.Word"
begin

text \<open>
  The audit records of the business event store: canonical JSON, hashes and version-5 UUIDs
  (\<^verbatim>\<open>packages/observability/src/hash.ts\<close>), the envelope of an operational record
  (\<^verbatim>\<open>event-envelope.ts\<close>), the allow-lists for what an audit may say (\<^verbatim>\<open>business-event-sanitizer.ts\<close>),
  their combination (\<^verbatim>\<open>business-event-provider-ops.ts\<close>) and the recorder that stores the record for delivery.
  SHA-256 and SHA-1 are arguments.  An envelope is the JSON object that is stored.
\<close>

unbundle bit_operations_syntax

section \<open>Hashes and UUIDs\<close>

text \<open>\<^verbatim>\<open>canonicalizeJson\<close>: the values of \<open>json\<close> have neither \<^verbatim>\<open>undefined\<close> nor infinite numbers.\<close>

definition canonicalizeJson :: "json \<Rightarrow> string" where
  "canonicalizeJson = canonicalize"

definition sha256CanonicalJson :: "(string \<Rightarrow> string) \<Rightarrow> json \<Rightarrow> string" where
  "sha256CanonicalJson sha256_hex v = sha256_hex (canonicalizeJson v)"

type_synonym byte = "8 word"

definition hex_value :: "char \<Rightarrow> nat" where
  "hex_value c = digit_value c"

definition hex_char :: "char \<Rightarrow> bool" where
  "hex_char c = (digit_value c < 16)"

fun read_bytes :: "string \<Rightarrow> byte list" where
  "read_bytes (a # b # s) = of_nat (16 * hex_value a + hex_value b) # read_bytes s"
| "read_bytes s = []"

definition parseUuid :: "string \<Rightarrow> err + byte list" where
  "parseUuid v =
     (let hex = filter (\<lambda>c. c \<noteq> CHR ''-'') v
      in if list_all hex_char hex \<and> length hex = 32 then Inr (read_bytes hex) else Inl (Error ''UUID namespace is invalid''))"

definition show_byte :: "byte \<Rightarrow> string" where
  "show_byte b = [hex_digit (unat b div 16), hex_digit (unat b mod 16)]"

definition show_bytes :: "byte list \<Rightarrow> string" where
  "show_bytes bs = concat (map show_byte bs)"

text \<open>\<^verbatim>\<open>sha1\<close> is the digest of the namespace's bytes followed by the name in UTF-8.  Writing a byte outside the
  digest would throw; a SHA-1 digest has twenty bytes.\<close>

definition uuidV5 :: "(byte list \<Rightarrow> string \<Rightarrow> byte list) \<Rightarrow> string \<Rightarrow> string \<Rightarrow> err + string" where
  "uuidV5 sha1 name namespace =
     bind_err (parseUuid namespace) (\<lambda>namespaceBytes.
       let bytes = take 16 (sha1 namespaceBytes name);
           bytes = bytes[6 := (bytes ! 6 AND 0x0f) OR 0x50];
           bytes = bytes[8 := (bytes ! 8 AND 0x3f) OR 0x80];
           hex = show_bytes bytes
       in if length bytes \<le> 8 then Inl (RangeError ''ERR_OUT_OF_RANGE'')
          else Inr (take 8 hex @ ''-'' @ take 4 (drop 8 hex) @ ''-'' @ take 4 (drop 12 hex) @ ''-''
                 @ take 4 (drop 16 hex) @ ''-'' @ drop 20 hex))"

section \<open>Envelopes\<close>

definition PROVIDER_OPS_SCHEMA_NAME :: string where
  "PROVIDER_OPS_SCHEMA_NAME = ''sdar.provider.ops.event''"

definition PROVIDER_OPS_SCHEMA_VERSION :: string where
  "PROVIDER_OPS_SCHEMA_VERSION = ''1.1.0''"

definition PROVIDER_OPS_RECORD_NAMESPACE :: string where
  "PROVIDER_OPS_RECORD_NAMESPACE = ''670c4482-8e75-58ae-a0d9-60c923de6432''"

text \<open>A timestamp given as a \<^verbatim>\<open>Date\<close> or as text.\<close>

datatype timestamp = date_value instant | date_text string

definition normalizeTimestamp :: "(string \<Rightarrow> instant option) \<Rightarrow> timestamp \<Rightarrow> err + string" where
  "normalizeTimestamp legacy v =
     (case (case v of date_value t \<Rightarrow> Some t | date_text s \<Rightarrow> Date_parse legacy s) of
        None \<Rightarrow> Inl (Error ''Telemetry timestamp is invalid'')
      | Some t \<Rightarrow> Inr (toISOString t))"

text \<open>The members of the input that name the record; \<open>ei_fields\<close> are the others, which the envelope repeats.\<close>

record CreateProviderOpsEnvelopeInput =
  ei_recordType :: string
  ei_stableAggregateIdentity :: string
  ei_eventIdentity :: string
  ei_revision :: "json option"
  ei_occurredAt :: timestamp
  ei_emittedAt :: "timestamp option"
  ei_fields :: json_object

definition delivery_metadata :: "string list" where
  "delivery_metadata = [''recordHash'', ''emittedAt'', ''instanceId'', ''exportRetryCount'', ''collectorTimestamp'', ''exporterHost'']"

definition calculateProviderOpsRecordHash :: "(string \<Rightarrow> string) \<Rightarrow> json_object \<Rightarrow> string" where
  "calculateProviderOpsRecordHash sha256_hex envelope =
     sha256CanonicalJson sha256_hex (JObj (filter (\<lambda>(key, _). key \<notin> set delivery_metadata) envelope))"

record audit_env = runtime_env +
  sha1 :: "byte list \<Rightarrow> string \<Rightarrow> byte list"

definition record_identity :: "CreateProviderOpsEnvelopeInput \<Rightarrow> json" where
  "record_identity input =
     JArr [JStr (ei_recordType input), JStr (ei_stableAggregateIdentity input), JStr (ei_eventIdentity input),
       (case ei_revision input of None \<Rightarrow> JNull | Some r \<Rightarrow> r)]"

definition createProviderOpsEnvelope :: "audit_env \<Rightarrow> CreateProviderOpsEnvelopeInput \<Rightarrow> err + json_object" where
  "createProviderOpsEnvelope env input =
     bind_err (uuidV5 (sha1 env) (canonicalizeJson (record_identity input)) PROVIDER_OPS_RECORD_NAMESPACE) (\<lambda>recordId.
     bind_err (normalizeTimestamp (legacy_date env) (ei_occurredAt input)) (\<lambda>occurredAt.
     bind_err (normalizeTimestamp (legacy_date env)
         (case ei_emittedAt input of None \<Rightarrow> date_value (now env) | Some t \<Rightarrow> t)) (\<lambda>emittedAt.
       let withoutHash = obj_spread
             (obj_spread
               [(''schemaName'', JStr PROVIDER_OPS_SCHEMA_NAME), (''schemaVersion'', JStr PROVIDER_OPS_SCHEMA_VERSION),
                (''recordId'', JStr recordId)]
               ((''recordType'', JStr (ei_recordType input)) # ei_fields input))
             [(''occurredAt'', JStr occurredAt), (''emittedAt'', JStr emittedAt)]
       in Inr (obj_set ''recordHash'' (JStr (calculateProviderOpsRecordHash (sha256 env) withoutHash)) withoutHash))))"

section \<open>What an audit may say\<close>

definition AUDIT_KEYS :: "(string \<times> string list) list" where
  "AUDIT_KEYS =
    [(''provider.business_event.source.lifecycle'',
       [''event'', ''sourceId'', ''sourceStreamId'', ''deliverySemantics'', ''previousStatus'', ''currentStatus'',
        ''fencingToken'', ''reasonCode'']),
     (''provider.business_event.ingest.lifecycle'',
       [''event'', ''sourceId'', ''sourceStreamId'', ''sourceEventId'', ''sourceSequence'', ''inboxState'', ''decodeStatus'',
        ''rawEnvelopeHash'', ''transportPayloadHash'', ''reasonCode'', ''attemptCount'']),
     (''provider.business_event.publication.lifecycle'',
       [''event'', ''streamId'', ''eventId'', ''runtimeSequence'', ''sourceId'', ''sourceSequence'', ''scope'', ''outcome'',
        ''reasonCode'']),
     (''provider.business_event.stream.lifecycle'',
       [''event'', ''previousStreamId'', ''currentStreamId'', ''generationStatus'', ''continuityClass'',
        ''lastReplayableSequence'', ''lastContinuousSequence'', ''reasonCode'', ''generationVersion'']),
     (''provider.business_event.continuity'',
       [''event'', ''previousStreamId'', ''newStreamId'', ''affectedSourceCount'', ''reasonCode'', ''lastReplayableSequence'',
        ''lastContinuousSequence'']),
     (''provider.business_event.delivery.lifecycle'', [''event'', ''scope'', ''outcome'', ''reasonCode'', ''batchSize'']),
     (''provider.business_event.relation.lifecycle'',
       [''event'', ''streamId'', ''eventId'', ''outcome'', ''relatedTaskCount'', ''relationTruncated'', ''reasonCode''])]"

definition DIAGNOSTIC_KEYS :: "string list" where
  "DIAGNOSTIC_KEYS = [''sourceId'', ''scope'', ''outcome'', ''reasonCode'', ''payloadHash'', ''payloadBytes'', ''relatedTaskCount'',
     ''relationTruncated'', ''generationStatus'', ''continuityClass'', ''batchSize'', ''type'', ''retryable'']"

definition TRACE_KEYS :: "string list" where
  "TRACE_KEYS = [''sourceId'', ''deliverySemantics'', ''scope'', ''outcome'', ''reason'', ''generationStatus'', ''continuityClass'',
     ''batchSize'', ''relationTruncated'', ''retryable'']"

definition safeScalar :: "json \<Rightarrow> json option" where
  "safeScalar v = (if is_scalar v then Some v else None)"

fun sanitizeAllowed :: "string list \<Rightarrow> json_object \<Rightarrow> json_object" where
  "sanitizeAllowed allowlist [] = []"
| "sanitizeAllowed allowlist ((key, v) # input) =
     (if key \<notin> set allowlist then sanitizeAllowed allowlist input
      else case safeScalar v of
        None \<Rightarrow> sanitizeAllowed allowlist input
      | Some safe \<Rightarrow> (key, safe) # sanitizeAllowed allowlist input)"

definition sanitizeBusinessEventAuditPayload :: "string \<Rightarrow> json_object \<Rightarrow> err + json_object" where
  "sanitizeBusinessEventAuditPayload recordType payload =
     (case map_of AUDIT_KEYS recordType of
        None \<Rightarrow> Inl (Error ''BUSINESS_EVENT_AUDIT_RECORD_TYPE_INVALID'')
      | Some allowlist \<Rightarrow> Inr (sanitizeAllowed allowlist payload))"

definition sanitizeBusinessEventDiagnosticBody :: "json_object \<Rightarrow> json_object" where
  "sanitizeBusinessEventDiagnosticBody body = sanitizeAllowed DIAGNOSTIC_KEYS body"

definition sanitizeBusinessEventTraceAttributes :: "json_object \<Rightarrow> json_object" where
  "sanitizeBusinessEventTraceAttributes attributes = sanitizeAllowed TRACE_KEYS attributes"

section \<open>The recorder\<close>

record BusinessEventProviderOpsContext =
  cx_runtimeVersion :: string
  cx_instanceId :: string

record CaptureBusinessEventAuditInput =
  ca_providerId :: string
  ca_recordType :: string
  ca_aggregateId :: string
  ca_stableAggregateIdentity :: string
  ca_eventIdentity :: string
  ca_revision :: "json option"
  ca_occurredAt :: timestamp
  ca_payload :: json_object

definition createBusinessEventProviderOpsEnvelope ::
  "audit_env \<Rightarrow> BusinessEventProviderOpsContext \<Rightarrow> CaptureBusinessEventAuditInput \<Rightarrow> err + json_object" where
  "createBusinessEventProviderOpsEnvelope env cx input =
     bind_err (sanitizeBusinessEventAuditPayload (ca_recordType input) (ca_payload input)) (\<lambda>payload.
       createProviderOpsEnvelope env
         \<lparr>ei_recordType = ca_recordType input, ei_stableAggregateIdentity = ca_stableAggregateIdentity input,
          ei_eventIdentity = ca_eventIdentity input, ei_revision = ca_revision input, ei_occurredAt = ca_occurredAt input,
          ei_emittedAt = None,
          ei_fields =
            [(''eventCategory'', JStr ''business_event.lifecycle''), (''deliveryClass'', JStr ''audit''),
             (''providerId'', JStr (ca_providerId input)), (''runtimeVersion'', JStr (cx_runtimeVersion cx)),
             (''instanceId'', JStr (cx_instanceId cx)), (''attributes'', JObj []), (''payload'', JObj payload)]\<rparr>)"

text \<open>A row of \<^verbatim>\<open>provider_ops_delivery\<close> as the recorder inserts it; the columns it repeats from the envelope are
  read from there.\<close>

record audit_row =
  al_event_key :: string
  al_aggregate_type :: string
  al_aggregate_id :: string
  al_record_body :: json_object

text \<open>\<^verbatim>\<open>jsonb\<close> and \<^verbatim>\<open>text\<close> hold no NUL.\<close>

definition pg_text :: "string \<Rightarrow> bool" where
  "pg_text s = (CHR 0x00 \<notin> set s)"

fun pg_jsonb :: "json \<Rightarrow> bool" where
  "pg_jsonb (JStr s) = pg_text s"
| "pg_jsonb (JArr xs) = (\<forall>x \<in> set xs. pg_jsonb x)"
| "pg_jsonb (JObj kvs) = (\<forall>kv \<in> set kvs. pg_text (fst kv) \<and> pg_jsonb (snd kv))"
| "pg_jsonb v = True"

definition envelope_text :: "json_object \<Rightarrow> string \<Rightarrow> string" where
  "envelope_text envelope key = (case obj_get envelope key of Some (JStr s) \<Rightarrow> s | _ \<Rightarrow> [])"

definition insert_audit :: "audit_row \<Rightarrow> audit_row list \<Rightarrow> audit_row list" where
  "insert_audit row tbl = (if al_event_key row \<in> set (map al_event_key tbl) then tbl else tbl @ [row])"

definition capture_audit ::
  "audit_env \<Rightarrow> BusinessEventProviderOpsContext \<Rightarrow> CaptureBusinessEventAuditInput \<Rightarrow> audit_row list \<Rightarrow> err + audit_row list" where
  "capture_audit env cx input tbl =
     bind_err (createBusinessEventProviderOpsEnvelope env cx input) (\<lambda>envelope.
       if \<not> pg_jsonb (JObj envelope) then Inl (DbConstraint ''jsonb'')
       else Inr (insert_audit
         \<lparr>al_event_key = ''business-event:'' @ envelope_text envelope ''recordId'', al_aggregate_type = ''provider'',
          al_aggregate_id = ca_aggregateId input, al_record_body = envelope\<rparr> tbl))"

section \<open>Errors in telemetry\<close>

record BusinessEventSafeError =
  se_type :: string
  se_reasonCode :: string
  se_retryable :: bool

text \<open>A thrown value: whether it is an \<^verbatim>\<open>Error\<close> with its name and message, and its other members.\<close>

record thrown =
  th_error :: "(string \<times> string) option"
  th_fields :: json_object

definition is_upper :: "char \<Rightarrow> bool" where
  "is_upper c = (let n = of_char c :: nat in 65 \<le> n \<and> n \<le> 90)"

definition reason_format :: "string \<Rightarrow> bool" where
  "reason_format v =
     (v \<noteq> [] \<and> is_upper (hd v) \<and> length v \<le> 64 \<and> list_all (\<lambda>c. is_upper c \<or> is_digit c \<or> c = CHR ''_'') (tl v))"

definition businessEventSafeError :: "thrown \<Rightarrow> BusinessEventSafeError" where
  "businessEventSafeError e =
     (let candidateType = (case th_error e of Some (name, _) \<Rightarrow> name | None \<Rightarrow> ''Error'');
          reason = (case obj_get (th_fields e) ''reasonCode'' of
              Some (JStr s) \<Rightarrow> s
            | _ \<Rightarrow> (case th_error e of Some (_, message) \<Rightarrow> message | None \<Rightarrow> ''UNKNOWN''))
      in \<lparr>se_type = (if candidateType \<in> set [''Error'', ''TypeError'', ''RangeError'', ''ReferenceError'', ''SyntaxError'']
            then candidateType else ''Error''),
          se_reasonCode = (if reason_format reason then reason else ''UNKNOWN''),
          se_retryable = (obj_get (th_fields e) ''retryable'' = Some (JBool True))\<rparr>)"

end
