(* ===== verification/Event_Store.thy ===== *)
theory Event_Store
  imports Event_Audit
begin

text \<open>
  The tables of the business event store (\<^verbatim>\<open>migrations/023_business_events_profile_v1.sql\<close>) with their
  constraints, the records that \<^verbatim>\<open>packages/persistence-postgres/src/business-events.ts\<close> takes and returns, and
  its helper functions.  The tables of the task store, which the repository reads and whose resource bindings it
  extends, are the component \<open>task_store\<close>.

  A method is a function of the database that returns what it throws or its value together with the database it
  leaves: a transaction that throws before its commit leaves the old one, but some transactions commit and
  throw afterwards.  Identifiers of type \<^verbatim>\<open>uuid\<close> are texts in their canonical form, whose order is that of the
  identifiers.  Unicode normalization, hashes, the clocks, PostgreSQL's reading of a timestamp (as the driver returns
  it) and its text collation come from the environment; drawn identifiers are arguments.
\<close>

section \<open>Environment\<close>

record event_env = audit_env +
  unicode_nfc :: "string \<Rightarrow> string"
  sha256_base64url :: "string \<Rightarrow> string"
  timestamptz :: "string \<Rightarrow> instant option"
  db_collate :: "string \<Rightarrow> string"
  providerOpsRecorder :: "BusinessEventProviderOpsContext option"

section \<open>Rows\<close>

datatype generation_status = G_current | G_rotating | G_replayable_closed | G_retired

fun show_generation_status :: "generation_status \<Rightarrow> string" where
  "show_generation_status G_current = ''current''"
| "show_generation_status G_rotating = ''rotating''"
| "show_generation_status G_replayable_closed = ''replayable_closed''"
| "show_generation_status G_retired = ''retired''"

datatype BusinessEventContinuityClass = all_durable | mixed_continuity | best_effort_only

fun show_continuity :: "BusinessEventContinuityClass \<Rightarrow> string" where
  "show_continuity all_durable = ''all_durable''"
| "show_continuity mixed_continuity = ''mixed''"
| "show_continuity best_effort_only = ''best_effort_only''"

record generation_row =
  gn_provider_id :: string
  gn_stream_id :: string
  gn_status :: generation_status
  gn_closed_at :: "instant option"
  gn_rotated_to :: "string option"
  gn_reset_reason :: "string option"
  gn_affected_source_ids :: "string list"
  gn_last_replayable :: int
  gn_last_continuous :: "int option"
  gn_current_sequence :: int
  gn_earliest_available :: int
  gn_last_deleted :: int
  gn_continuity_class :: BusinessEventContinuityClass
  gn_retain_until :: instant

record runtime_row =
  rt_provider_id :: string
  rt_current_stream_id :: string
  rt_generation_version :: int

record generation_source_row =
  gs_provider_id :: string
  gs_runtime_stream_id :: string
  gs_source_id :: string
  gs_source_stream_id :: string
  gs_delivery_semantics :: BusinessEventDeliverySemantics
  gs_joined_at :: int
  gs_left_at :: "int option"

record continuity_row =
  co_record_id :: string
  co_provider_id :: string
  co_previous_stream_id :: string
  co_new_stream_id :: string
  co_reason_code :: string
  co_affected_source_ids :: "string list"
  co_gap_detected_at :: instant
  co_last_replayable :: int
  co_last_continuous :: "int option"
  co_reason_identity :: string
  co_created_at :: instant
  co_retain_until :: instant

datatype source_status = S_active | S_degraded | S_unavailable | S_blocked_contract_violation
  | S_blocked_identity_conflict | S_continuity_loss_pending | S_disabled

fun show_source_status :: "source_status \<Rightarrow> string" where
  "show_source_status S_active = ''active''"
| "show_source_status S_degraded = ''degraded''"
| "show_source_status S_unavailable = ''unavailable''"
| "show_source_status S_blocked_contract_violation = ''blocked_contract_violation''"
| "show_source_status S_blocked_identity_conflict = ''blocked_identity_conflict''"
| "show_source_status S_continuity_loss_pending = ''continuity_loss_pending''"
| "show_source_status S_disabled = ''disabled''"

record source_row =
  ss_provider_id :: string
  ss_source_id :: string
  ss_source_stream_id :: string
  ss_delivery_semantics :: BusinessEventDeliverySemantics
  ss_status :: source_status
  ss_last_persisted :: int
  ss_last_finalized :: int
  ss_lease_owner :: "string option"
  ss_lease_until :: "instant option"
  ss_fencing_token :: int
  ss_last_seen_at :: "instant option"
  ss_last_error :: "string option"

datatype event_inbox_status = X_received | X_pending_mapping | X_ready | X_continuity_loss_pending
  | X_rejected | X_mapping_failed | X_published | X_terminal_skipped

datatype decode_status = decoded | partially_decoded | undecodable

datatype event_scope = scope_task | scope_resource

fun show_scope :: "event_scope \<Rightarrow> string" where
  "show_scope scope_task = ''task''"
| "show_scope scope_resource = ''resource''"

record event_inbox_row =
  bx_inbox_id :: nat
  bx_provider_id :: string
  bx_source_id :: string
  bx_source_stream_id :: string
  bx_status :: event_inbox_status
  bx_raw_envelope_json :: "json_object option"
  bx_raw_envelope_hash :: string
  bx_transport_payload_hash :: "string option"
  bx_decode_status :: decode_status
  bx_reject_reason :: "string option"
  bx_event_id :: "string option"
  bx_sequence :: "int option"
  bx_scope :: "event_scope option"
  bx_occurred_at :: "instant option"
  bx_event_type :: "string option"
  bx_canonical_hash :: "string option"
  bx_payload :: "json_object option"
  bx_mapping_deadline :: "instant option"
  bx_attempt_count :: nat
  bx_last_attempt_at :: "instant option"
  bx_last_error :: "string option"
  bx_retain_until :: instant
  bx_finalized_at :: "instant option"

record event_row =
  be_provider_id :: string
  be_stream_id :: string
  be_sequence :: int
  be_event_id :: string
  be_source_id :: string
  be_source_stream_id :: string
  be_source_event_id :: string
  be_source_sequence :: int
  be_canonical_hash :: "string option"
  be_stored_hash :: string
  be_event_type :: string
  be_occurred_at :: instant
  be_scope :: "event_scope option"
  be_description :: string
  be_task_id :: "string option"
  be_resource_ref :: "string option"
  be_candidate_count :: nat
  be_severity_hint :: "string option"
  be_reason_code :: "string option"
  be_raw_payload :: json
  be_created_at :: instant
  be_expires_at :: instant

record relation_row =
  rl_provider_id :: string
  rl_stream_id :: string
  rl_event_id :: string
  rl_task_id :: string
  rl_ordinal :: nat

record projection_row =
  pj_token_hash :: string
  pj_provider_id :: string
  pj_stream_id :: string
  pj_event_id :: string
  pj_authorization_scope_hash :: string
  pj_execution_mode :: ExecutionMode
  pj_simulation_id :: "string option"
  pj_candidate_hash :: string
  pj_projection_hash :: string
  pj_created_at :: instant
  pj_expires_at :: instant

record projection_item_row =
  pt_token_hash :: string
  pt_task_id :: string
  pt_ordinal :: nat

record tombstone_row =
  tb_provider_id :: string
  tb_task_id :: string
  tb_authorization_hash :: string
  tb_execution_mode :: ExecutionMode
  tb_simulation_id :: "string option"
  tb_resource_ref :: "string option"
  tb_terminal_at :: instant
  tb_retain_until :: instant

record event_db =
  task_store :: db
  generations :: "generation_row list"
  runtime_state :: "runtime_row list"
  generation_sources :: "generation_source_row list"
  continuity_records :: "continuity_row list"
  source_states :: "source_row list"
  event_inbox :: "event_inbox_row list"
  next_inbox_id :: nat
  business_events :: "event_row list"
  relations :: "relation_row list"
  projections :: "projection_row list"
  projection_items :: "projection_item_row list"
  tombstones :: "tombstone_row list"
  audit_deliveries :: "audit_row list"

definition empty_event_db :: event_db where
  "empty_event_db = \<lparr>task_store = empty_db, generations = [], runtime_state = [], generation_sources = [],
     continuity_records = [], source_states = [], event_inbox = [], next_inbox_id = 1, business_events = [], relations = [],
     projections = [], projection_items = [], tombstones = [], audit_deliveries = []\<rparr>"

section \<open>Constraints\<close>

abbreviation generation_key :: "generation_row \<Rightarrow> string \<times> string" where
  "generation_key g \<equiv> (gn_provider_id g, gn_stream_id g)"

abbreviation source_key :: "source_row \<Rightarrow> string \<times> string" where
  "source_key s \<equiv> (ss_provider_id s, ss_source_id s)"

abbreviation inbox_source :: "event_inbox_row \<Rightarrow> string \<times> string \<times> string" where
  "inbox_source x \<equiv> (bx_provider_id x, bx_source_id x, bx_source_stream_id x)"

abbreviation event_stream :: "event_row \<Rightarrow> string \<times> string" where
  "event_stream e \<equiv> (be_provider_id e, be_stream_id e)"

abbreviation event_source :: "event_row \<Rightarrow> string \<times> string \<times> string" where
  "event_source e \<equiv> (be_provider_id e, be_source_id e, be_source_stream_id e)"

abbreviation event_key :: "event_row \<Rightarrow> string \<times> string \<times> string" where
  "event_key e \<equiv> (be_provider_id e, be_stream_id e, be_event_id e)"

abbreviation relation_event :: "relation_row \<Rightarrow> string \<times> string \<times> string" where
  "relation_event r \<equiv> (rl_provider_id r, rl_stream_id r, rl_event_id r)"

abbreviation projection_event :: "projection_row \<Rightarrow> string \<times> string \<times> string" where
  "projection_event p \<equiv> (pj_provider_id p, pj_stream_id p, pj_event_id p)"

definition bigint_ok :: "int \<Rightarrow> bool" where
  "bigint_ok n = (- MAX_SIGNED_BIGINT_SEQUENCE - 1 \<le> n \<and> n \<le> MAX_SIGNED_BIGINT_SEQUENCE)"

definition sha256_text :: "string \<Rightarrow> bool" where
  "sha256_text v = (take 7 v = ''sha256:'' \<and> length v = 71 \<and> list_all is_hex (drop 7 v))"

definition hex64 :: "string \<Rightarrow> bool" where
  "hex64 v = (length v = 64 \<and> list_all is_hex v)"

definition base64url_char :: "char \<Rightarrow> bool" where
  "base64url_char c = (is_letter c \<or> is_digit c \<or> c = CHR ''_'' \<or> c = CHR ''-'')"

definition on_some :: "('a \<Rightarrow> bool) \<Rightarrow> 'a option \<Rightarrow> bool" where
  "on_some P v = (case v of None \<Rightarrow> True | Some x \<Rightarrow> P x)"

definition generation_row_ok :: "generation_row \<Rightarrow> bool" where
  "generation_row_ok g =
     (0 \<le> gn_last_replayable g \<and> on_some (\<lambda>n. 0 \<le> n) (gn_last_continuous g) \<and>
      0 \<le> gn_current_sequence g \<and> bigint_ok (gn_current_sequence g) \<and>
      0 < gn_earliest_available g \<and> 0 \<le> gn_last_deleted g \<and>
      (gn_status g = G_current \<longrightarrow> gn_closed_at g = None) \<and>
      gn_last_deleted g < gn_earliest_available g \<and> gn_earliest_available g \<le> gn_current_sequence g + 1 \<and>
      gn_last_replayable g \<le> gn_current_sequence g \<and>
      (gn_last_continuous g \<noteq> None \<longrightarrow> gn_continuity_class g = all_durable))"

definition generation_source_ok :: "generation_source_row \<Rightarrow> bool" where
  "generation_source_ok s =
     (name_format ''._:-'' 127 (gs_source_id s) \<and> 0 \<le> gs_joined_at s \<and> on_some (\<lambda>n. gs_joined_at s \<le> n) (gs_left_at s))"

definition continuity_row_ok :: "continuity_row \<Rightarrow> bool" where
  "continuity_row_ok c =
     (0 \<le> co_last_replayable c \<and> co_affected_source_ids c \<noteq> [] \<and>
      on_some (\<lambda>n. 0 \<le> n \<and> n \<le> co_last_replayable c) (co_last_continuous c))"

definition source_row_ok :: "source_row \<Rightarrow> bool" where
  "source_row_ok s =
     (name_format ''._:-'' 127 (ss_source_id s) \<and>
      0 \<le> ss_last_persisted s \<and> bigint_ok (ss_last_persisted s) \<and> 0 \<le> ss_last_finalized s \<and>
      0 \<le> ss_fencing_token s \<and> bigint_ok (ss_fencing_token s) \<and>
      ss_last_finalized s \<le> ss_last_persisted s \<and> (ss_lease_owner s = None) = (ss_lease_until s = None))"

definition inbox_row_ok :: "event_inbox_row \<Rightarrow> bool" where
  "inbox_row_ok x =
     (sha256_text (bx_raw_envelope_hash x) \<and> on_some sha256_text (bx_transport_payload_hash x) \<and>
      on_some sha256_text (bx_canonical_hash x) \<and>
      on_some (\<lambda>v. pg_jsonb (JObj v)) (bx_raw_envelope_json x) \<and> on_some (\<lambda>v. pg_jsonb (JObj v)) (bx_payload x) \<and>
      on_some (\<lambda>n. 0 < n \<and> bigint_ok n) (bx_sequence x) \<and>
      (bx_decode_status x \<noteq> decoded \<or> bx_status x = X_rejected \<or>
        (case bx_event_id x of None \<Rightarrow> False | Some v \<Rightarrow> name_format ''_.:/-'' 255 v) \<and>
        bx_sequence x \<noteq> None \<and> bx_scope x \<noteq> None \<and> bx_occurred_at x \<noteq> None \<and>
        (case bx_event_type x of None \<Rightarrow> False | Some v \<Rightarrow> name_format ''_.:/-'' 127 v) \<and>
        bx_canonical_hash x \<noteq> None \<and> bx_payload x \<noteq> None))"

definition event_row_ok :: "event_row \<Rightarrow> bool" where
  "event_row_ok e =
     (0 < be_sequence e \<and> bigint_ok (be_sequence e) \<and> length (be_event_id e) = 43 \<and> list_all base64url_char (be_event_id e) \<and>
      name_format ''_.:/-'' 255 (be_source_event_id e) \<and> 0 < be_source_sequence e \<and>
      (case be_canonical_hash e of None \<Rightarrow> False | Some h \<Rightarrow> sha256_text h) \<and> sha256_text (be_stored_hash e) \<and>
      name_format ''_.:/-'' 127 (be_event_type e) \<and>
      1 \<le> length (be_description e) \<and> length (be_description e) \<le> 4096 \<and>
      on_some (\<lambda>s. s \<in> set [''info'', ''warning'', ''critical'']) (be_severity_hint e) \<and>
      on_some (name_format ''_.:/-'' 127) (be_reason_code e) \<and>
      (be_scope e = Some scope_task \<and> be_task_id e \<noteq> None \<and> be_resource_ref e = None \<and> be_candidate_count e = 0 \<or>
       be_scope e = Some scope_resource \<and> be_task_id e = None \<and> be_resource_ref e \<noteq> None) \<and>
      be_created_at e < be_expires_at e)"

definition mode_ok :: "ExecutionMode \<Rightarrow> string option \<Rightarrow> bool" where
  "mode_ok m s = ((m = live) = (s = None))"

definition projection_row_ok :: "projection_row \<Rightarrow> bool" where
  "projection_row_ok p =
     (hex64 (pj_token_hash p) \<and> hex64 (pj_authorization_scope_hash p) \<and> sha256_text (pj_candidate_hash p) \<and>
      sha256_text (pj_projection_hash p) \<and> mode_ok (pj_execution_mode p) (pj_simulation_id p) \<and>
      pj_created_at p < pj_expires_at p)"

definition tombstone_row_ok :: "tombstone_row \<Rightarrow> bool" where
  "tombstone_row_ok t =
     (hex64 (tb_authorization_hash t) \<and> mode_ok (tb_execution_mode t) (tb_simulation_id t) \<and>
      tb_terminal_at t \<le> tb_retain_until t)"

definition inbox_event_keys :: "event_inbox_row list \<Rightarrow> ((string \<times> string \<times> string) \<times> string option) list" where
  "inbox_event_keys rows = map (\<lambda>x. (inbox_source x, bx_event_id x)) (filter (\<lambda>x. bx_event_id x \<noteq> None) rows)"

definition inbox_sequence_keys :: "event_inbox_row list \<Rightarrow> ((string \<times> string \<times> string) \<times> int option) list" where
  "inbox_sequence_keys rows = map (\<lambda>x. (inbox_source x, bx_sequence x)) (filter (\<lambda>x. bx_sequence x \<noteq> None) rows)"

text \<open>Primary and foreign keys, unique indexes and row checks, by name.\<close>

definition event_checks :: "event_db \<Rightarrow> (string \<times> bool) list" where
  "event_checks db =
    (let streams = set (map generation_key (generations db)) in
    [(''stream_generation_check'', list_all generation_row_ok (generations db)),
     (''stream_generation_pkey'', distinct (map generation_key (generations db))),
     (''stream_generation_rotated_fkey'',
        list_all (\<lambda>g. on_some (\<lambda>t. (gn_provider_id g, t) \<in> streams) (gn_rotated_to g)) (generations db)),
     (''one_current_idx'', distinct (map gn_provider_id (filter (\<lambda>g. gn_status g = G_current) (generations db)))),
     (''runtime_state_pkey'', distinct (map rt_provider_id (runtime_state db))),
     (''runtime_state_check'', list_all (\<lambda>r. 0 < rt_generation_version r) (runtime_state db)),
     (''runtime_state_fkey'', list_all (\<lambda>r. (rt_provider_id r, rt_current_stream_id r) \<in> streams) (runtime_state db)),
     (''generation_source_check'', list_all generation_source_ok (generation_sources db)),
     (''generation_source_pkey'',
        distinct (map (\<lambda>s. (gs_provider_id s, gs_runtime_stream_id s, gs_source_id s)) (generation_sources db))),
     (''generation_source_fkey'',
        list_all (\<lambda>s. (gs_provider_id s, gs_runtime_stream_id s) \<in> streams) (generation_sources db)),
     (''continuity_record_check'', list_all continuity_row_ok (continuity_records db)),
     (''continuity_record_pkey'', distinct (map co_record_id (continuity_records db))),
     (''continuity_record_key'',
        distinct (map (\<lambda>c. (co_provider_id c, co_previous_stream_id c, co_reason_identity c)) (continuity_records db))),
     (''continuity_record_fkey'',
        list_all (\<lambda>c. (co_provider_id c, co_previous_stream_id c) \<in> streams \<and> (co_provider_id c, co_new_stream_id c) \<in> streams)
          (continuity_records db)),
     (''source_state_check'', list_all source_row_ok (source_states db)),
     (''source_state_pkey'', distinct (map source_key (source_states db))),
     (''inbox_check'', list_all inbox_row_ok (event_inbox db)),
     (''inbox_pkey'', distinct (map bx_inbox_id (event_inbox db))),
     (''inbox_fkey'',
        list_all (\<lambda>x. (bx_provider_id x, bx_source_id x) \<in> set (map source_key (source_states db))) (event_inbox db)),
     (''inbox_event_identity_idx'', distinct (inbox_event_keys (event_inbox db))),
     (''inbox_sequence_idx'', distinct (inbox_sequence_keys (event_inbox db))),
     (''business_event_check'', list_all event_row_ok (business_events db)),
     (''business_event_pkey'', distinct (map (\<lambda>e. (event_stream e, be_sequence e)) (business_events db))),
     (''business_event_event_id_key'', distinct (map (\<lambda>e. (be_provider_id e, be_event_id e)) (business_events db))),
     (''business_event_source_event_key'', distinct (map (\<lambda>e. (event_source e, be_source_event_id e)) (business_events db))),
     (''business_event_source_sequence_key'', distinct (map (\<lambda>e. (event_source e, be_source_sequence e)) (business_events db))),
     (''business_event_fkey'', list_all (\<lambda>e. event_stream e \<in> streams) (business_events db)),
     (''relation_pkey'', distinct (map (\<lambda>r. (relation_event r, rl_task_id r)) (relations db))),
     (''relation_ordinal_key'', distinct (map (\<lambda>r. (relation_event r, rl_ordinal r)) (relations db))),
     (''relation_fkey'', list_all (\<lambda>r. relation_event r \<in> set (map event_key (business_events db))) (relations db)),
     (''projection_check'', list_all projection_row_ok (projections db)),
     (''projection_pkey'', distinct (map pj_token_hash (projections db))),
     (''projection_fkey'', list_all (\<lambda>p. projection_event p \<in> set (map event_key (business_events db))) (projections db)),
     (''projection_item_pkey'', distinct (map (\<lambda>i. (pt_token_hash i, pt_task_id i)) (projection_items db))),
     (''projection_item_ordinal_key'', distinct (map (\<lambda>i. (pt_token_hash i, pt_ordinal i)) (projection_items db))),
     (''projection_item_fkey'',
        list_all (\<lambda>i. pt_token_hash i \<in> set (map pj_token_hash (projections db))) (projection_items db)),
     (''tombstone_check'', list_all tombstone_row_ok (tombstones db)),
     (''tombstone_pkey'', distinct (map (\<lambda>t. (tb_provider_id t, tb_task_id t)) (tombstones db)))])"

definition event_checked :: "event_db \<Rightarrow> err + event_db" where
  "event_checked db = (case first_row (\<lambda>(_, ok). \<not> ok) (event_checks db) of
     None \<Rightarrow> Inr db | Some (name, _) \<Rightarrow> Inl (DbConstraint name))"

definition event_schema_ok :: "event_db \<Rightarrow> bool" where
  "event_schema_ok db = list_all snd (event_checks db)"

text \<open>\<^verbatim>\<open>BEGIN\<close> \<dots> \<^verbatim>\<open>COMMIT\<close>: \<open>Inl\<close> is an exception before the commit; otherwise the transaction commits a database and the
  method then returns or throws.\<close>

definition transaction :: "event_db \<Rightarrow> err + (err + 'a) \<times> event_db \<Rightarrow> (err + 'a) \<times> event_db" where
  "transaction db m = (case m of Inl e \<Rightarrow> (Inl e, db) | Inr (r, db') \<Rightarrow> (r, db'))"

text \<open>The optional recorder.\<close>

definition capture :: "event_env \<Rightarrow> CaptureBusinessEventAuditInput \<Rightarrow> event_db \<Rightarrow> err + event_db" where
  "capture env input db =
     (case providerOpsRecorder env of
        None \<Rightarrow> Inr db
      | Some cx \<Rightarrow>
          bind_err (capture_audit (audit_env.truncate env) cx input (audit_deliveries db)) (\<lambda>rows.
            Inr (db\<lparr>audit_deliveries := rows\<rparr>)))"

end
