(* ===== verification/Event_Sources.thy ===== *)
theory Event_Sources
  imports Event_Store
begin

text \<open>
  Generations and sources of \<^verbatim>\<open>BusinessEventRepository\<close> (\<^verbatim>\<open>packages/persistence-postgres/src/business-events.ts\<close>): a
  provider's first stream generation, the leases under which its sources are read, and the validation and hashing
  of source facts.
\<close>

section \<open>Records\<close>

record BusinessEventSourceDefinition =
  sd_sourceId :: string
  sd_sourceStreamId :: string
  sd_deliverySemantics :: BusinessEventDeliverySemantics

record BusinessEventGeneration =
  bg_providerId :: string
  bg_streamId :: string
  bg_status :: generation_status
  bg_currentSequence :: int
  bg_earliestAvailableSequence :: int
  bg_lastReplayableSequence :: int
  bg_lastContinuousSequence :: "int option"
  bg_continuityClass :: BusinessEventContinuityClass

record BusinessEventLease =
  le_providerId :: string
  le_sourceId :: string
  le_sourceStreamId :: string
  le_owner :: string
  le_fencingToken :: int
  le_leaseUntil :: instant
  le_lastPersistedSourceSequence :: int
  le_lastFinalizedSourceSequence :: int

datatype severity = info | warning | critical

fun show_severity :: "severity \<Rightarrow> string" where
  "show_severity info = ''info''"
| "show_severity warning = ''warning''"
| "show_severity critical = ''critical''"

record BusinessEventSourceFact =
  sf_sourceEventId :: string
  sf_sourceSequence :: string
  sf_sourceStreamId :: string
  sf_scope :: event_scope
  sf_occurredAt :: string
  sf_eventType :: string
  sf_description :: string
  sf_externalExecutionId :: "string option"
  sf_resourceRef :: "string option"
  sf_severityHint :: "severity option"
  sf_reasonCode :: "string option"
  sf_rawPayload :: "json option"

datatype intake_disposition = intake_received | intake_duplicate | intake_rejected

record IntakeResult =
  ik_disposition :: intake_disposition
  ik_sourceCanonicalHash :: string

datatype prepare_result = prepare_ready | prepare_pending | prepare_terminal | prepare_none

definition mapGeneration :: "generation_row \<Rightarrow> BusinessEventGeneration" where
  "mapGeneration row =
     \<lparr>bg_providerId = gn_provider_id row, bg_streamId = gn_stream_id row, bg_status = gn_status row,
      bg_currentSequence = gn_current_sequence row, bg_earliestAvailableSequence = gn_earliest_available row,
      bg_lastReplayableSequence = gn_last_replayable row, bg_lastContinuousSequence = gn_last_continuous row,
      bg_continuityClass = gn_continuity_class row\<rparr>"

text \<open>The owner and the end of the lease are there when a row is mapped: the statement has just set or compared them.\<close>

definition mapLease :: "source_row \<Rightarrow> BusinessEventLease" where
  "mapLease row =
     \<lparr>le_providerId = ss_provider_id row, le_sourceId = ss_source_id row, le_sourceStreamId = ss_source_stream_id row,
      le_owner = (case ss_lease_owner row of None \<Rightarrow> [] | Some o1 \<Rightarrow> o1), le_fencingToken = ss_fencing_token row,
      le_leaseUntil = (case ss_lease_until row of None \<Rightarrow> 0 | Some t \<Rightarrow> t),
      le_lastPersistedSourceSequence = ss_last_persisted row, le_lastFinalizedSourceSequence = ss_last_finalized row\<rparr>"

definition classifyContinuity :: "BusinessEventSourceDefinition list \<Rightarrow> BusinessEventContinuityClass" where
  "classifyContinuity sources =
     (let durable = length (filter (\<lambda>s. sd_deliverySemantics s = durable_at_least_once) sources)
      in if durable = length sources then all_durable else if durable = 0 then best_effort_only else mixed_continuity)"

section \<open>Generations\<close>

definition find_generation :: "string \<Rightarrow> string \<Rightarrow> event_db \<Rightarrow> generation_row option" where
  "find_generation providerId streamId db =
     first_row (\<lambda>g. gn_provider_id g = providerId \<and> gn_stream_id g = streamId) (generations db)"

definition find_runtime :: "string \<Rightarrow> event_db \<Rightarrow> runtime_row option" where
  "find_runtime providerId db = first_row (\<lambda>r. rt_provider_id r = providerId) (runtime_state db)"

definition current_generation_row :: "string \<Rightarrow> event_db \<Rightarrow> generation_row option" where
  "current_generation_row providerId db =
     (case find_runtime providerId db of
        None \<Rightarrow> None
      | Some r \<Rightarrow> find_generation providerId (rt_current_stream_id r) db)"

definition currentGeneration :: "string \<Rightarrow> event_db \<Rightarrow> BusinessEventGeneration option" where
  "currentGeneration providerId db = map_option mapGeneration (current_generation_row providerId db)"

definition event_generation :: "string \<Rightarrow> string \<Rightarrow> event_db \<Rightarrow> BusinessEventGeneration option" where
  "event_generation providerId streamId db = map_option mapGeneration (find_generation providerId streamId db)"

definition sourceRoster :: "event_env \<Rightarrow> string \<Rightarrow> string \<Rightarrow> event_db \<Rightarrow> BusinessEventSourceDefinition list" where
  "sourceRoster env providerId streamId db =
     map (\<lambda>s. \<lparr>sd_sourceId = gs_source_id s, sd_sourceStreamId = gs_source_stream_id s,
                sd_deliverySemantics = gs_delivery_semantics s\<rparr>)
       (sort_key (\<lambda>s. db_collate env (gs_source_id s))
         (filter (\<lambda>s. gs_provider_id s = providerId \<and> gs_runtime_stream_id s = streamId) (generation_sources db)))"

definition new_generation ::
  "event_env \<Rightarrow> string \<Rightarrow> string \<Rightarrow> generation_status \<Rightarrow> BusinessEventContinuityClass \<Rightarrow> int \<Rightarrow> generation_row" where
  "new_generation env providerId streamId status continuityClass retentionMs =
     \<lparr>gn_provider_id = providerId, gn_stream_id = streamId, gn_status = status, gn_closed_at = None, gn_rotated_to = None,
      gn_reset_reason = None, gn_affected_source_ids = [], gn_last_replayable = 0, gn_last_continuous = None,
      gn_current_sequence = 0, gn_earliest_available = 1, gn_last_deleted = 0, gn_continuity_class = continuityClass,
      gn_retain_until = clk env + retentionMs\<rparr>"

definition new_generation_source :: "string \<Rightarrow> string \<Rightarrow> BusinessEventSourceDefinition \<Rightarrow> generation_source_row" where
  "new_generation_source providerId streamId s =
     \<lparr>gs_provider_id = providerId, gs_runtime_stream_id = streamId, gs_source_id = sd_sourceId s,
      gs_source_stream_id = sd_sourceStreamId s, gs_delivery_semantics = sd_deliverySemantics s, gs_joined_at = 0, gs_left_at = None\<rparr>"

definition new_source_state :: "string \<Rightarrow> BusinessEventSourceDefinition \<Rightarrow> source_row" where
  "new_source_state providerId s =
     \<lparr>ss_provider_id = providerId, ss_source_id = sd_sourceId s, ss_source_stream_id = sd_sourceStreamId s,
      ss_delivery_semantics = sd_deliverySemantics s, ss_status = S_active, ss_last_persisted = 0, ss_last_finalized = 0,
      ss_lease_owner = None, ss_lease_until = None, ss_fencing_token = 0, ss_last_seen_at = None, ss_last_error = None\<rparr>"

definition insert_generation :: "generation_row \<Rightarrow> event_db \<Rightarrow> err + event_db" where
  "insert_generation g db = event_checked (db\<lparr>generations := generations db @ [g]\<rparr>)"

definition insert_generation_source :: "generation_source_row \<Rightarrow> event_db \<Rightarrow> err + event_db" where
  "insert_generation_source s db = event_checked (db\<lparr>generation_sources := generation_sources db @ [s]\<rparr>)"

text \<open>The body of the loop over the sources of a new provider.\<close>

definition add_source :: "string \<Rightarrow> string \<Rightarrow> BusinessEventSourceDefinition \<Rightarrow> event_db \<Rightarrow> err + event_db" where
  "add_source providerId streamId s db =
     bind_err (insert_generation_source (new_generation_source providerId streamId s) db) (\<lambda>db.
       event_checked (db\<lparr>source_states := source_states db @ [new_source_state providerId s]\<rparr>))"

definition initializeProvider ::
  "event_env \<Rightarrow> string \<Rightarrow> string \<Rightarrow> BusinessEventSourceDefinition list \<Rightarrow> int \<Rightarrow> event_db
   \<Rightarrow> (err + BusinessEventGeneration) \<times> event_db" where
  "initializeProvider env streamId providerId sources generationRetentionMs db =
     (if length sources < 1 \<or> length sources > 16 then (Inl (Error ''BUSINESS_EVENT_SOURCE_COUNT_INVALID''), db)
      else transaction db
        (case current_generation_row providerId db of
           Some g \<Rightarrow> Inr (Inr (mapGeneration g), db)
         | None \<Rightarrow>
             let continuityClass = classifyContinuity sources;
                 g = new_generation env providerId streamId G_current continuityClass generationRetentionMs
             in
             bind_err (insert_generation g db) (\<lambda>db.
             bind_err (event_checked (db\<lparr>runtime_state := runtime_state db @
                 [\<lparr>rt_provider_id = providerId, rt_current_stream_id = streamId, rt_generation_version = 1\<rparr>]\<rparr>)) (\<lambda>db.
             bind_err (fold_err (add_source providerId streamId) (sort_key sd_sourceId sources) db) (\<lambda>db.
             bind_err (capture env
                 \<lparr>ca_providerId = providerId, ca_recordType = ''provider.business_event.stream.lifecycle'', ca_aggregateId = providerId,
                  ca_stableAggregateIdentity = streamId, ca_eventIdentity = ''generation_created'', ca_revision = Some (JStr ''1''),
                  ca_occurredAt = date_value (now env),
                  ca_payload = [(''event'', JStr ''generation_created''), (''currentStreamId'', JStr streamId),
                    (''generationStatus'', JStr ''current''), (''continuityClass'', JStr (show_continuity continuityClass)),
                    (''generationVersion'', JStr ''1'')]\<rparr> db) (\<lambda>db.
               Inr (Inr (mapGeneration g), db)))))))"

section \<open>Leases\<close>

definition find_source :: "string \<Rightarrow> string \<Rightarrow> event_db \<Rightarrow> source_row option" where
  "find_source providerId sourceId db =
     first_row (\<lambda>s. ss_provider_id s = providerId \<and> ss_source_id s = sourceId) (source_states db)"

definition update_sources :: "(source_row \<Rightarrow> bool) \<Rightarrow> (source_row \<Rightarrow> source_row) \<Rightarrow> event_db \<Rightarrow> event_db" where
  "update_sources P f db = db\<lparr>source_states := update_rows P f (source_states db)\<rparr>"

definition is_source :: "string \<Rightarrow> string \<Rightarrow> string \<Rightarrow> source_row \<Rightarrow> bool" where
  "is_source providerId sourceId sourceStreamId s =
     (ss_provider_id s = providerId \<and> ss_source_id s = sourceId \<and> ss_source_stream_id s = sourceStreamId)"

definition source_blocked :: "source_row \<Rightarrow> bool" where
  "source_blocked s = (ss_status s \<in> {S_blocked_contract_violation, S_blocked_identity_conflict})"

definition lease_refused :: "event_env \<Rightarrow> string \<Rightarrow> source_row \<Rightarrow> bool" where
  "lease_refused env owner s =
     (source_blocked s \<or> ss_status s = S_continuity_loss_pending \<or>
      sql_gt (ss_lease_until s) (now env) \<and> ss_lease_owner s \<noteq> Some owner)"

definition take_lease :: "event_env \<Rightarrow> string \<Rightarrow> int \<Rightarrow> source_row \<Rightarrow> source_row" where
  "take_lease env owner leaseMs s =
     s\<lparr>ss_lease_owner := Some owner, ss_lease_until := Some (clk env + leaseMs), ss_fencing_token := ss_fencing_token s + 1\<rparr>"

definition lease_event :: "string \<Rightarrow> source_row \<Rightarrow> string" where
  "lease_event owner previous =
     (if ss_lease_owner previous = Some owner then ''lease_renewed''
      else if ss_lease_owner previous = None then ''lease_acquired'' else ''lease_takeover'')"

definition acquireSourceLease ::
  "event_env \<Rightarrow> string \<Rightarrow> string \<Rightarrow> string \<Rightarrow> string \<Rightarrow> int \<Rightarrow> event_db \<Rightarrow> (err + BusinessEventLease option) \<times> event_db" where
  "acquireSourceLease env providerId sourceId sourceStreamId owner leaseMs db =
     transaction db
       (case first_row (is_source providerId sourceId sourceStreamId) (source_states db) of
          None \<Rightarrow> Inr (Inr None, db)
        | Some previous \<Rightarrow>
            if lease_refused env owner previous then Inr (Inr None, db)
            else
              let row = take_lease env owner leaseMs previous; event = lease_event owner previous in
              bind_err (event_checked
                  (update_sources (is_source providerId sourceId sourceStreamId) (take_lease env owner leaseMs) db)) (\<lambda>db.
              bind_err (if event = ''lease_renewed'' then Inr db
                else capture env
                  \<lparr>ca_providerId = providerId, ca_recordType = ''provider.business_event.source.lifecycle'', ca_aggregateId = providerId,
                   ca_stableAggregateIdentity = sourceId @ '':'' @ sourceStreamId, ca_eventIdentity = event,
                   ca_revision = Some (JStr (show_int (ss_fencing_token row))), ca_occurredAt = date_value (now env),
                   ca_payload = [(''event'', JStr event), (''sourceId'', JStr sourceId), (''sourceStreamId'', JStr sourceStreamId),
                     (''previousStatus'', JStr (show_source_status (ss_status previous))),
                     (''currentStatus'', JStr (show_source_status (ss_status previous))),
                     (''fencingToken'', JStr (show_int (ss_fencing_token row)))]\<rparr> db) (\<lambda>db.
                Inr (Inr (Some (mapLease row)), db))))"

text \<open>The rows a statement guarded by a lease applies to.\<close>

definition held_by :: "BusinessEventLease \<Rightarrow> source_row \<Rightarrow> bool" where
  "held_by lease s =
     (is_source (le_providerId lease) (le_sourceId lease) (le_sourceStreamId lease) s \<and>
      ss_lease_owner s = Some (le_owner lease) \<and> ss_fencing_token s = le_fencingToken lease)"

definition held_now :: "event_env \<Rightarrow> BusinessEventLease \<Rightarrow> source_row \<Rightarrow> bool" where
  "held_now env lease s = (held_by lease s \<and> sql_gt (ss_lease_until s) (clk env))"

definition renewSourceLease ::
  "event_env \<Rightarrow> BusinessEventLease \<Rightarrow> int \<Rightarrow> event_db \<Rightarrow> (err + BusinessEventLease) \<times> event_db" where
  "renewSourceLease env lease leaseMs db =
     (let f = (\<lambda>s. s\<lparr>ss_lease_until := Some (clk env + leaseMs)\<rparr>) in
      case first_row (held_now env lease) (source_states db) of
        None \<Rightarrow> (Inl (Error ''BUSINESS_EVENT_STALE_FENCE''), db)
      | Some row \<Rightarrow> (Inr (mapLease (f row)), update_sources (held_now env lease) f db))"

definition lockAndValidateLease :: "event_env \<Rightarrow> BusinessEventLease \<Rightarrow> event_db \<Rightarrow> err + source_row" where
  "lockAndValidateLease env lease db =
     (case find_source (le_providerId lease) (le_sourceId lease) db of
        None \<Rightarrow> Inl (Error ''BUSINESS_EVENT_STALE_FENCE'')
      | Some row \<Rightarrow>
          if ss_source_stream_id row \<noteq> le_sourceStreamId lease \<or> ss_lease_owner row \<noteq> Some (le_owner lease) \<or>
             ss_fencing_token row \<noteq> le_fencingToken lease \<or> \<not> sql_gt (ss_lease_until row) (clk env)
          then Inl (Error ''BUSINESS_EVENT_STALE_FENCE'') else Inr row)"

definition blockSource :: "BusinessEventLease \<Rightarrow> source_status \<Rightarrow> string \<Rightarrow> event_db \<Rightarrow> err + event_db" where
  "blockSource lease status errorCode db =
     event_checked (update_sources (held_by lease) (\<lambda>s. s\<lparr>ss_status := status, ss_last_error := Some errorCode\<rparr>) db)"

definition markSourceUnavailable :: "BusinessEventLease \<Rightarrow> string \<Rightarrow> event_db \<Rightarrow> (err + unit) \<times> event_db" where
  "markSourceUnavailable lease errorCode db =
     (Inr (), update_sources (held_by lease) (\<lambda>s. s\<lparr>ss_status := S_unavailable, ss_last_error := Some errorCode\<rparr>) db)"

section \<open>Facts\<close>

definition containsDisallowedControl :: "string \<Rightarrow> bool" where
  "containsDisallowedControl v =
     list_ex (\<lambda>c. let n = of_char c :: nat in n < 32 \<and> n \<noteq> 9 \<and> n \<noteq> 10 \<and> n \<noteq> 13 \<or> n = 127) v"

definition printable :: "char \<Rightarrow> bool" where
  "printable c = (let n = of_char c :: nat in 33 \<le> n \<and> n \<le> 126)"

definition validateSourceFact :: "BusinessEventSourceFact \<Rightarrow> string option" where
  "validateSourceFact item =
     (if \<not> name_format ''_.:/-'' 255 (sf_sourceEventId item) then Some ''SOURCE_EVENT_ID_INVALID''
      else if \<not> name_format ''_.:/-'' 127 (sf_eventType item) then Some ''EVENT_TYPE_INVALID''
      else if length (sf_description item) < 1 \<or> length (sf_description item) > 4096 \<or> containsDisallowedControl (sf_description item)
        then Some ''DESCRIPTION_INVALID''
      else if sf_scope item = scope_task \<and>
          ((case sf_externalExecutionId item of None \<Rightarrow> True | Some v \<Rightarrow> \<not> name_format ''_.:/-'' 511 v) \<or> sf_resourceRef item \<noteq> None)
        then Some ''TASK_SCOPE_INVALID''
      else if sf_scope item = scope_resource \<and>
          ((case sf_resourceRef item of None \<Rightarrow> True | Some v \<Rightarrow> v = [] \<or> \<not> list_all printable v \<or> length v > 512) \<or>
           sf_externalExecutionId item \<noteq> None)
        then Some ''RESOURCE_SCOPE_INVALID''
      else if (case sf_reasonCode item of None \<Rightarrow> False | Some v \<Rightarrow> \<not> name_format ''_.:/-'' 127 v) then Some ''REASON_CODE_INVALID''
      else None)"

definition opt_field :: "string \<Rightarrow> json option \<Rightarrow> json_object" where
  "opt_field key v = (case v of None \<Rightarrow> [] | Some x \<Rightarrow> [(key, x)])"

text \<open>The fact as JSON; absent members are left out.\<close>

definition fact_json :: "BusinessEventSourceFact \<Rightarrow> json_object" where
  "fact_json item =
     [(''sourceEventId'', JStr (sf_sourceEventId item)), (''sourceSequence'', JStr (sf_sourceSequence item)),
      (''sourceStreamId'', JStr (sf_sourceStreamId item)), (''scope'', JStr (show_scope (sf_scope item))),
      (''occurredAt'', JStr (sf_occurredAt item)), (''eventType'', JStr (sf_eventType item)),
      (''description'', JStr (sf_description item))]
     @ opt_field ''externalExecutionId'' (map_option JStr (sf_externalExecutionId item))
     @ opt_field ''resourceRef'' (map_option JStr (sf_resourceRef item))
     @ opt_field ''severityHint'' (map_option (\<lambda>s. JStr (show_severity s)) (sf_severityHint item))
     @ opt_field ''reasonCode'' (map_option JStr (sf_reasonCode item))
     @ opt_field ''rawPayload'' (sf_rawPayload item)"

text \<open>The member that names the subject of the fact; it may be \<^verbatim>\<open>undefined\<close>.\<close>

definition subject_field :: "BusinessEventSourceFact \<Rightarrow> string \<times> string option" where
  "subject_field item =
     (if sf_scope item = scope_task then (''externalExecutionId'', sf_externalExecutionId item)
      else (''resourceRef'', sf_resourceRef item))"

definition raw_payload :: "json option \<Rightarrow> json" where
  "raw_payload v = (case v of None \<Rightarrow> JObj [] | Some JNull \<Rightarrow> JObj [] | Some x \<Rightarrow> x)"

text \<open>\<^verbatim>\<open>sourceCanonicalInput\<close> without an undefined subject.\<close>

definition source_canonical_input :: "BusinessEventLease \<Rightarrow> BusinessEventSourceFact \<Rightarrow> string \<Rightarrow> json_object" where
  "source_canonical_input lease item occurredAt =
     [(''providerId'', JStr (le_providerId lease)), (''sourceId'', JStr (le_sourceId lease)),
      (''sourceStreamId'', JStr (le_sourceStreamId lease)), (''sourceEventId'', JStr (sf_sourceEventId item)),
      (''sourceSequence'', JStr (sf_sourceSequence item)), (''scope'', JStr (show_scope (sf_scope item)))]
     @ opt_field (fst (subject_field item)) (map_option JStr (snd (subject_field item)))
     @ [(''eventType'', JStr (sf_eventType item)), (''occurredAt'', JStr occurredAt), (''description'', JStr (sf_description item)),
        (''severityHint'', JStr (case sf_severityHint item of None \<Rightarrow> [] | Some s \<Rightarrow> show_severity s)),
        (''reasonCode'', JStr (case sf_reasonCode item of None \<Rightarrow> [] | Some r \<Rightarrow> r)),
        (''rawPayload'', raw_payload (sf_rawPayload item))]"

definition event_hash :: "event_env \<Rightarrow> json_object \<Rightarrow> err + string" where
  "event_hash env v = canonicalSha256 (sha256 env) (unicode_nfc env) (of_json (JObj v))"

text \<open>An undefined subject passes the Unicode normalization and is refused by the serialization.\<close>

definition source_hash :: "event_env \<Rightarrow> BusinessEventLease \<Rightarrow> BusinessEventSourceFact \<Rightarrow> string \<Rightarrow> err + string" where
  "source_hash env lease item occurredAt =
     (let input = source_canonical_input lease item occurredAt in
      if snd (subject_field item) = None
      then bind_err (normalizeUnicode (unicode_nfc env) (of_json (JObj input))) (\<lambda>_. Inl (Error ''BUSINESS_EVENT_CANONICAL_VALUE_INVALID''))
      else event_hash env input)"

text \<open>What intake computes before its transaction.\<close>

record intake_values =
  iv_sequence :: int
  iv_occurredAt :: string
  iv_sourceHash :: string
  iv_rawHash :: string

definition intake_input :: "event_env \<Rightarrow> BusinessEventLease \<Rightarrow> BusinessEventSourceFact \<Rightarrow> err + intake_values" where
  "intake_input env lease item =
     bind_err (parseBusinessEventSequence (sf_sourceSequence item) False) (\<lambda>sequence.
     bind_err (normalizeRfc3339Nano (sf_occurredAt item)) (\<lambda>occurredAt.
     bind_err (source_hash env lease item occurredAt) (\<lambda>sourceHash.
     bind_err (event_hash env (fact_json item)) (\<lambda>rawHash.
       Inr \<lparr>iv_sequence = sequence, iv_occurredAt = occurredAt, iv_sourceHash = sourceHash, iv_rawHash = rawHash\<rparr>))))"

definition captureIngestAudit ::
  "event_env \<Rightarrow> BusinessEventLease \<Rightarrow> BusinessEventSourceFact \<Rightarrow> string \<Rightarrow> string \<Rightarrow> string option \<Rightarrow> event_db \<Rightarrow> err + event_db" where
  "captureIngestAudit env lease item rawEnvelopeHash event reasonCode db =
     capture env
       \<lparr>ca_providerId = le_providerId lease, ca_recordType = ''provider.business_event.ingest.lifecycle'',
        ca_aggregateId = le_providerId lease,
        ca_stableAggregateIdentity = le_sourceId lease @ '':'' @ le_sourceStreamId lease @ '':'' @ sf_sourceEventId item,
        ca_eventIdentity = event, ca_revision = Some (JStr (sf_sourceSequence item)), ca_occurredAt = date_text (sf_occurredAt item),
        ca_payload = [(''event'', JStr event), (''sourceId'', JStr (le_sourceId lease)),
          (''sourceStreamId'', JStr (le_sourceStreamId lease)), (''sourceEventId'', JStr (sf_sourceEventId item)),
          (''sourceSequence'', JStr (sf_sourceSequence item)), (''inboxState'', JStr event), (''decodeStatus'', JStr ''decoded''),
          (''rawEnvelopeHash'', JStr rawEnvelopeHash)] @ opt_field ''reasonCode'' (map_option JStr reasonCode)\<rparr> db"

end
