(* ===== verification/Event_Intake.thy ===== *)
theory Event_Intake
  imports Event_Sources
begin

text \<open>
  From a source to its events (\<^verbatim>\<open>packages/persistence-postgres/src/business-events.ts\<close>): the intake of facts into the
  inbox, the mapping of the next one to the tasks it concerns, and its publication as the next event of the
  provider's current stream.
\<close>

section \<open>Intake\<close>

definition inbox_of :: "string \<Rightarrow> string \<Rightarrow> string \<Rightarrow> event_inbox_row \<Rightarrow> bool" where
  "inbox_of providerId sourceId sourceStreamId x =
     (bx_provider_id x = providerId \<and> bx_source_id x = sourceId \<and> bx_source_stream_id x = sourceStreamId)"

definition same_identity :: "BusinessEventLease \<Rightarrow> BusinessEventSourceFact \<Rightarrow> int \<Rightarrow> event_inbox_row \<Rightarrow> bool" where
  "same_identity lease item sequence x =
     (inbox_of (le_providerId lease) (le_sourceId lease) (le_sourceStreamId lease) x \<and>
      (bx_event_id x = Some (sf_sourceEventId item) \<or> bx_sequence x = Some sequence))"

definition exact_duplicate :: "BusinessEventSourceFact \<Rightarrow> intake_values \<Rightarrow> event_inbox_row \<Rightarrow> bool" where
  "exact_duplicate item v x =
     (bx_event_id x = Some (sf_sourceEventId item) \<and> bx_sequence x = Some (iv_sequence v) \<and>
      bx_canonical_hash x = Some (iv_sourceHash v))"

text \<open>Blocking the source and auditing the refusal are committed before the exception is thrown.\<close>

definition refuse_fact ::
  "event_env \<Rightarrow> BusinessEventLease \<Rightarrow> BusinessEventSourceFact \<Rightarrow> intake_values \<Rightarrow> string \<Rightarrow> string \<Rightarrow> event_db
   \<Rightarrow> err + (err + IntakeResult) \<times> event_db" where
  "refuse_fact env lease item v reason message db =
     bind_err (blockSource lease S_blocked_identity_conflict reason db) (\<lambda>db.
     bind_err (captureIngestAudit env lease item (iv_rawHash v) ''rejected'' (Some reason) db) (\<lambda>db.
       Inr (Inl (Error message), db)))"

definition insert_inbox :: "event_inbox_row \<Rightarrow> event_db \<Rightarrow> err + event_db" where
  "insert_inbox x db =
     event_checked (db\<lparr>event_inbox := event_inbox db @ [x\<lparr>bx_inbox_id := next_inbox_id db\<rparr>], next_inbox_id := next_inbox_id db + 1\<rparr>)"

definition fact_inbox_row ::
  "event_env \<Rightarrow> BusinessEventLease \<Rightarrow> BusinessEventSourceFact \<Rightarrow> intake_values \<Rightarrow> instant \<Rightarrow> string option \<Rightarrow> int \<Rightarrow> int \<Rightarrow> event_inbox_row" where
  "fact_inbox_row env lease item v occurred validationError retainMs mappingDeadlineMs =
     \<lparr>bx_inbox_id = 0, bx_provider_id = le_providerId lease, bx_source_id = le_sourceId lease,
      bx_source_stream_id = le_sourceStreamId lease,
      bx_status = (if validationError \<noteq> None then X_rejected else X_received),
      bx_raw_envelope_json = Some (fact_json item), bx_raw_envelope_hash = iv_rawHash v, bx_transport_payload_hash = None,
      bx_decode_status = decoded, bx_reject_reason = validationError, bx_event_id = Some (sf_sourceEventId item),
      bx_sequence = Some (iv_sequence v), bx_scope = Some (sf_scope item), bx_occurred_at = Some occurred,
      bx_event_type = Some (sf_eventType item), bx_canonical_hash = Some (iv_sourceHash v),
      bx_payload = Some (obj_set ''occurredAt'' (JStr (iv_occurredAt v)) (fact_json item)),
      bx_mapping_deadline = Some (clk env + mappingDeadlineMs), bx_attempt_count = 0, bx_last_attempt_at = None,
      bx_last_error = None, bx_retain_until = clk env + retainMs, bx_finalized_at = None\<rparr>"

definition persisted_source :: "event_env \<Rightarrow> int \<Rightarrow> bool \<Rightarrow> source_row \<Rightarrow> source_row" where
  "persisted_source env sequence rejected s =
     s\<lparr>ss_last_persisted := sequence, ss_last_seen_at := Some (clk env),
       ss_status := (if rejected \<and> ss_delivery_semantics s = durable_at_least_once then S_continuity_loss_pending
         else if rejected then S_degraded else S_active)\<rparr>"

text \<open>A fact that is taken in.  \<^verbatim>\<open>clock_timestamp()\<close> is read once per transaction here: the update of the source, which is guarded by the lease, sees
  the time at which the lease was validated.\<close>

definition accept_fact ::
  "event_env \<Rightarrow> BusinessEventLease \<Rightarrow> BusinessEventSourceFact \<Rightarrow> intake_values \<Rightarrow> int \<Rightarrow> int \<Rightarrow> event_db
   \<Rightarrow> err + (err + IntakeResult) \<times> event_db" where
  "accept_fact env lease item v retainMs mappingDeadlineMs db =
     (let validationError = validateSourceFact item; rejected = (validationError \<noteq> None) in
      case timestamptz env (iv_occurredAt v) of
        None \<Rightarrow> Inl (DbConstraint ''timestamptz'')
      | Some occurred \<Rightarrow>
          bind_err (insert_inbox (fact_inbox_row env lease item v occurred validationError retainMs mappingDeadlineMs) db) (\<lambda>db.
          bind_err (event_checked (update_sources (held_now env lease) (persisted_source env (iv_sequence v) rejected) db)) (\<lambda>db.
          bind_err (captureIngestAudit env lease item (iv_rawHash v) (if rejected then ''rejected'' else ''received'') validationError db) (\<lambda>db.
            Inr (Inr \<lparr>ik_disposition = (if rejected then intake_rejected else intake_received),
                      ik_sourceCanonicalHash = iv_sourceHash v\<rparr>, db)))))"

text \<open>A text with a NUL cannot be a parameter of the query for duplicates.\<close>

definition intake_transaction ::
  "event_env \<Rightarrow> BusinessEventLease \<Rightarrow> BusinessEventSourceFact \<Rightarrow> intake_values \<Rightarrow> int \<Rightarrow> int \<Rightarrow> event_db
   \<Rightarrow> err + (err + IntakeResult) \<times> event_db" where
  "intake_transaction env lease item v retainMs mappingDeadlineMs db =
     bind_err (lockAndValidateLease env lease db) (\<lambda>state.
       if sf_sourceStreamId item \<noteq> le_sourceStreamId lease
       then refuse_fact env lease item v ''SOURCE_STREAM_RESET'' ''SOURCE_STREAM_RESET'' db
       else if \<not> pg_text (sf_sourceEventId item) then Inl (DbConstraint ''text'')
       else
         let duplicates = filter (same_identity lease item (iv_sequence v)) (event_inbox db) in
         if duplicates \<noteq> [] then
           if list_ex (exact_duplicate item v) duplicates \<and> length duplicates = 1
           then Inr (Inr \<lparr>ik_disposition = intake_duplicate, ik_sourceCanonicalHash = iv_sourceHash v\<rparr>, db)
           else refuse_fact env lease item v ''SOURCE_IDENTITY_CONFLICT'' ''BUSINESS_EVENT_IDEMPOTENCY_CONFLICT'' db
         else if iv_sequence v \<le> ss_last_persisted state
         then refuse_fact env lease item v ''SOURCE_SEQUENCE_REGRESSION'' ''BUSINESS_EVENT_SOURCE_SEQUENCE_REGRESSION'' db
         else accept_fact env lease item v retainMs mappingDeadlineMs db)"

definition intakeSourceFact ::
  "event_env \<Rightarrow> BusinessEventLease \<Rightarrow> BusinessEventSourceFact \<Rightarrow> int \<Rightarrow> int \<Rightarrow> event_db \<Rightarrow> (err + IntakeResult) \<times> event_db" where
  "intakeSourceFact env lease item retainMs mappingDeadlineMs db =
     (case intake_input env lease item of
        Inl e \<Rightarrow> (Inl e, db)
      | Inr v \<Rightarrow> transaction db (intake_transaction env lease item v retainMs mappingDeadlineMs db))"

definition poison_row :: "event_env \<Rightarrow> BusinessEventLease \<Rightarrow> string \<Rightarrow> int \<Rightarrow> event_inbox_row" where
  "poison_row env lease transportPayloadHash retainMs =
     \<lparr>bx_inbox_id = 0, bx_provider_id = le_providerId lease, bx_source_id = le_sourceId lease,
      bx_source_stream_id = le_sourceStreamId lease, bx_status = X_rejected, bx_raw_envelope_json = None,
      bx_raw_envelope_hash = transportPayloadHash, bx_transport_payload_hash = Some transportPayloadHash,
      bx_decode_status = undecodable, bx_reject_reason = Some ''BUSINESS_EVENT_PAYLOAD_INVALID'', bx_event_id = None,
      bx_sequence = None, bx_scope = None, bx_occurred_at = None, bx_event_type = None, bx_canonical_hash = None,
      bx_payload = None, bx_mapping_deadline = None, bx_attempt_count = 0, bx_last_attempt_at = None, bx_last_error = None,
      bx_retain_until = clk env + retainMs, bx_finalized_at = None\<rparr>"

definition persistUndecodablePoison ::
  "event_env \<Rightarrow> BusinessEventLease \<Rightarrow> string \<Rightarrow> int \<Rightarrow> event_db \<Rightarrow> (err + unit) \<times> event_db" where
  "persistUndecodablePoison env lease transportPayloadHash retainMs db =
     transaction db
       (bind_err (lockAndValidateLease env lease db) (\<lambda>_.
        bind_err (insert_inbox (poison_row env lease transportPayloadHash retainMs) db) (\<lambda>db.
        bind_err (blockSource lease S_blocked_contract_violation ''UNDECODABLE_SOURCE_SEQUENCE'' db) (\<lambda>db.
        bind_err (capture env
            \<lparr>ca_providerId = le_providerId lease, ca_recordType = ''provider.business_event.ingest.lifecycle'',
             ca_aggregateId = le_providerId lease,
             ca_stableAggregateIdentity = le_sourceId lease @ '':'' @ le_sourceStreamId lease @ '':'' @ transportPayloadHash,
             ca_eventIdentity = ''rejected'', ca_revision = Some (JStr transportPayloadHash), ca_occurredAt = date_value (now env),
             ca_payload = [(''event'', JStr ''rejected''), (''sourceId'', JStr (le_sourceId lease)),
               (''sourceStreamId'', JStr (le_sourceStreamId lease)), (''inboxState'', JStr ''rejected''),
               (''decodeStatus'', JStr ''undecodable''), (''transportPayloadHash'', JStr transportPayloadHash),
               (''reasonCode'', JStr ''SOURCE_PAYLOAD_UNDECODABLE'')]\<rparr> db) (\<lambda>db.
          Inr (Inr (), db))))))"

section \<open>The next fact of a source\<close>

definition outstanding :: "event_inbox_row \<Rightarrow> bool" where
  "outstanding x = (bx_status x \<in> {X_received, X_pending_mapping, X_ready, X_continuity_loss_pending, X_rejected, X_mapping_failed})"

text \<open>\<^verbatim>\<open>ORDER BY normalized_source_sequence NULLS FIRST, inbox_id LIMIT 1\<close>: an undecodable row comes before all others.\<close>

definition inbox_order :: "event_inbox_row \<Rightarrow> int option \<times> nat" where
  "inbox_order x = (bx_sequence x, bx_inbox_id x)"

definition next_inbox :: "string \<Rightarrow> string \<Rightarrow> string \<Rightarrow> event_db \<Rightarrow> event_inbox_row option" where
  "next_inbox providerId sourceId sourceStreamId db =
     (case sort_key inbox_order (filter (\<lambda>x. inbox_of providerId sourceId sourceStreamId x \<and> outstanding x) (event_inbox db)) of
        [] \<Rightarrow> None | x # _ \<Rightarrow> Some x)"

definition update_inbox :: "(event_inbox_row \<Rightarrow> bool) \<Rightarrow> (event_inbox_row \<Rightarrow> event_inbox_row) \<Rightarrow> event_db \<Rightarrow> event_db" where
  "update_inbox P f db = db\<lparr>event_inbox := update_rows P f (event_inbox db)\<rparr>"

definition mapped_task :: "string \<Rightarrow> json_object \<Rightarrow> event_db \<Rightarrow> string option" where
  "mapped_task providerId payload db =
     (case obj_get payload ''externalExecutionId'' of
        Some (JStr e) \<Rightarrow> map_option task_id
          (first_row (\<lambda>r. in_providerId (spec r) = providerId \<and> external_execution_id r = Some e) (provider_task (task_store db)))
      | _ \<Rightarrow> None)"

text \<open>The tasks bound to a resource at an instant.\<close>

definition bound_tasks :: "string \<Rightarrow> string \<Rightarrow> instant \<Rightarrow> event_db \<Rightarrow> string list" where
  "bound_tasks providerId resourceRef occurred db =
     sort (map rb_task_id (filter (\<lambda>b. rb_provider_id b = providerId \<and> rb_resource_ref b = resourceRef \<and>
       rb_bound_at b \<le> occurred \<and> (case rb_terminal_at b of None \<Rightarrow> True | Some t \<Rightarrow> occurred \<le> t))
       (resource_binding (task_store db))))"

definition mark_ready :: "event_env \<Rightarrow> json_object \<Rightarrow> event_inbox_row \<Rightarrow> event_inbox_row" where
  "mark_ready env extra x =
     x\<lparr>bx_status := X_ready, bx_payload := map_option (\<lambda>p. obj_spread p extra) (bx_payload x),
       bx_attempt_count := bx_attempt_count x + 1, bx_last_attempt_at := Some (clk env)\<rparr>"

definition mapping_failed ::
  "event_env \<Rightarrow> string \<Rightarrow> source_row \<Rightarrow> event_inbox_row \<Rightarrow> event_db \<Rightarrow> err + (err + prepare_result) \<times> event_db" where
  "mapping_failed env providerId state row db =
     (let durable = (ss_delivery_semantics state = durable_at_least_once); sourceId = ss_source_id state;
          status = (if durable then X_continuity_loss_pending else X_terminal_skipped) in
      bind_err (event_checked (update_inbox (\<lambda>x. bx_inbox_id x = bx_inbox_id row)
          (\<lambda>x. x\<lparr>bx_status := status, bx_last_error := Some ''TASK_MAPPING_FAILED'', bx_last_attempt_at := Some (clk env)\<rparr>) db)) (\<lambda>db.
      bind_err (event_checked (update_sources (\<lambda>s. source_key s = (providerId, sourceId))
          (\<lambda>s. s\<lparr>ss_status := (if durable then S_continuity_loss_pending else S_degraded),
                 ss_last_error := Some ''TASK_MAPPING_FAILED''\<rparr>) db)) (\<lambda>db.
      bind_err (capture env
          \<lparr>ca_providerId = providerId, ca_recordType = ''provider.business_event.ingest.lifecycle'', ca_aggregateId = providerId,
           ca_stableAggregateIdentity = sourceId @ '':'' @ ss_source_stream_id state @ '':'' @
             (case bx_event_id row of None \<Rightarrow> show_nat (bx_inbox_id row) | Some e \<Rightarrow> e),
           ca_eventIdentity = ''mapping_failed'', ca_revision = Some (JNum (int (bx_attempt_count row) + 1)),
           ca_occurredAt = date_value (now env),
           ca_payload = [(''event'', JStr ''mapping_failed''), (''sourceId'', JStr sourceId),
               (''sourceStreamId'', JStr (ss_source_stream_id state))]
             @ opt_field ''sourceEventId'' (map_option JStr (bx_event_id row))
             @ opt_field ''sourceSequence'' (map_option (\<lambda>n. JStr (show_int n)) (bx_sequence row))
             @ [(''inboxState'', JStr (if durable then ''continuity_loss_pending'' else ''terminal_skipped'')),
                (''reasonCode'', JStr ''SOURCE_MAPPING_FAILED''), (''attemptCount'', JNum (int (bx_attempt_count row) + 1))]\<rparr> db) (\<lambda>db.
        Inr (Inr prepare_terminal, db)))))"

definition prepareNextSourceEvent ::
  "event_env \<Rightarrow> string \<Rightarrow> string \<Rightarrow> event_db \<Rightarrow> (err + prepare_result) \<times> event_db" where
  "prepareNextSourceEvent env providerId sourceId db =
     transaction db
       (case find_source providerId sourceId db of
          None \<Rightarrow> Inl (Error ''BUSINESS_EVENT_SOURCE_NOT_FOUND'')
        | Some state \<Rightarrow>
       (case next_inbox providerId sourceId (ss_source_stream_id state) db of
          None \<Rightarrow> Inr (Inr prepare_none, db)
        | Some row \<Rightarrow>
            if bx_status row = X_ready then Inr (Inr prepare_ready, db)
            else if bx_status row \<in> {X_continuity_loss_pending, X_rejected, X_mapping_failed} then Inr (Inr prepare_terminal, db)
            else
              case bx_payload row of
                None \<Rightarrow> Inl (Error ''BUSINESS_EVENT_PAYLOAD_INVALID'')
              | Some payload \<Rightarrow>
                  let this = (\<lambda>x. bx_inbox_id x = bx_inbox_id row) in
                  if bx_scope row = Some scope_task then
                    (case mapped_task providerId payload db of
                       None \<Rightarrow>
                         if sql_gt (bx_mapping_deadline row) (now env) then
                           bind_err (event_checked (update_inbox this
                               (\<lambda>x. x\<lparr>bx_status := X_pending_mapping, bx_attempt_count := bx_attempt_count x + 1,
                                      bx_last_attempt_at := Some (clk env)\<rparr>) db)) (\<lambda>db. Inr (Inr prepare_pending, db))
                         else mapping_failed env providerId state row db
                     | Some taskId \<Rightarrow>
                         bind_err (event_checked (update_inbox this (mark_ready env [(''taskId'', JStr taskId)]) db))
                           (\<lambda>db. Inr (Inr prepare_ready, db)))
                  else
                    (case (obj_get payload ''resourceRef'', bx_occurred_at row) of
                       (Some (JStr resourceRef), Some occurred) \<Rightarrow>
                         let taskIds = bound_tasks providerId resourceRef occurred db in
                         bind_err (event_checked (update_inbox this
                             (mark_ready env [(''candidateRelatedTaskIds'', JArr (map JStr taskIds)),
                               (''candidateRelatedTaskCount'', JNum (int (length taskIds)))]) db))
                           (\<lambda>db. Inr (Inr prepare_ready, db))
                     | _ \<Rightarrow> Inl (Error ''BUSINESS_EVENT_PAYLOAD_INVALID''))))"

section \<open>Publication\<close>

record FinalizedBusinessEvent =
  fe_providerId :: string
  fe_streamId :: string
  fe_sequence :: int
  fe_eventId :: string
  fe_sourceId :: string
  fe_sourceStreamId :: string
  fe_sourceEventId :: string
  fe_sourceSequence :: int
  fe_eventType :: string
  fe_occurredAt :: instant
  fe_scope :: "event_scope option"
  fe_description :: string
  fe_taskId :: "string option"
  fe_resourceRef :: "string option"
  fe_candidateRelatedTaskCount :: nat
  fe_severityHint :: "string option"
  fe_reasonCode :: "string option"
  fe_rawPayload :: json

definition mapStoredEvent :: "event_row \<Rightarrow> FinalizedBusinessEvent" where
  "mapStoredEvent row =
     \<lparr>fe_providerId = be_provider_id row, fe_streamId = be_stream_id row, fe_sequence = be_sequence row,
      fe_eventId = be_event_id row, fe_sourceId = be_source_id row, fe_sourceStreamId = be_source_stream_id row,
      fe_sourceEventId = be_source_event_id row, fe_sourceSequence = be_source_sequence row, fe_eventType = be_event_type row,
      fe_occurredAt = be_occurred_at row, fe_scope = be_scope row, fe_description = be_description row,
      fe_taskId = be_task_id row, fe_resourceRef = be_resource_ref row, fe_candidateRelatedTaskCount = be_candidate_count row,
      fe_severityHint = be_severity_hint row, fe_reasonCode = be_reason_code row, fe_rawPayload = be_raw_payload row\<rparr>"

definition requiredString :: "json option \<Rightarrow> err + string" where
  "requiredString v =
     (case v of Some (JStr s) \<Rightarrow> if s = [] then Inl (Error ''BUSINESS_EVENT_PAYLOAD_INVALID'') else Inr s
      | _ \<Rightarrow> Inl (Error ''BUSINESS_EVENT_PAYLOAD_INVALID''))"

definition optionalString :: "json option \<Rightarrow> string option" where
  "optionalString v = (case v of Some (JStr s) \<Rightarrow> if s = [] then None else Some s | _ \<Rightarrow> None)"

definition candidate_ids :: "json_object \<Rightarrow> string list" where
  "candidate_ids payload =
     (case obj_get payload ''candidateRelatedTaskIds'' of
        Some (JArr xs) \<Rightarrow> sort (List.map_filter (\<lambda>x. case x of JStr s \<Rightarrow> Some s | _ \<Rightarrow> None) xs)
      | _ \<Rightarrow> [])"

text \<open>PostgreSQL's reading of a text as \<^verbatim>\<open>bigint\<close>; the texts that reach it are decimal numbers without sign.\<close>

definition bigint_in :: "string \<Rightarrow> err + int" where
  "bigint_in s = (case BigInt_value s of
     Some n \<Rightarrow> if bigint_ok n then Inr n else Inl (DbConstraint ''bigint'') | None \<Rightarrow> Inl (DbConstraint ''bigint''))"

definition timestamp_in :: "event_env \<Rightarrow> string \<Rightarrow> err + instant" where
  "timestamp_in env s = (case timestamptz env s of None \<Rightarrow> Inl (DbConstraint ''timestamptz'') | Some t \<Rightarrow> Inr t)"

definition stored_hash :: "event_env \<Rightarrow> event_inbox_row \<Rightarrow> json_object \<Rightarrow> string \<Rightarrow> string list \<Rightarrow> err + string" where
  "stored_hash env row payload eventId candidateIds =
     (let key = (if bx_scope row = Some scope_task then ''taskId'' else ''resourceRef'') in
      bind_err (requiredString (obj_get payload key)) (\<lambda>subject.
        event_hash env
          [(''sourceCanonicalHash'', json_opt (bx_canonical_hash row)), (''eventId'', JStr eventId), (key, JStr subject),
           (''candidateRelatedTaskIds'', JArr (map JStr candidateIds)),
           (''candidateRelatedTaskCount'', JNum (int (length candidateIds)))]))"

definition required_when :: "bool \<Rightarrow> json option \<Rightarrow> err + string option" where
  "required_when b v = (if b then bind_err (requiredString v) (\<lambda>s. Inr (Some s)) else Inr None)"

text \<open>The row to insert, from the inbox row; the casts of the statement come last.\<close>

definition stored_event ::
  "event_env \<Rightarrow> string \<Rightarrow> string \<Rightarrow> int \<Rightarrow> int \<Rightarrow> event_inbox_row \<Rightarrow> json_object \<Rightarrow> err + event_row" where
  "stored_event env providerId streamId runtimeSequence eventRetentionMs row payload =
     bind_err (requiredString (obj_get payload ''sourceEventId'')) (\<lambda>sourceEventId.
     bind_err (requiredString (obj_get payload ''sourceSequence'')) (\<lambda>sourceSequence.
       let sourceId = bx_source_id row; sourceStreamId = bx_source_stream_id row;
           eventId = businessEventId (sha256_base64url env) providerId sourceId sourceStreamId sourceEventId;
           candidateIds = candidate_ids payload in
     bind_err (stored_hash env row payload eventId candidateIds) (\<lambda>storedEventHash.
     bind_err (requiredString (obj_get payload ''eventType'')) (\<lambda>eventType.
     bind_err (requiredString (obj_get payload ''occurredAt'')) (\<lambda>occurredAt.
     bind_err (requiredString (obj_get payload ''description'')) (\<lambda>description.
     bind_err (required_when (bx_scope row = Some scope_task) (obj_get payload ''taskId'')) (\<lambda>taskId.
     bind_err (required_when (bx_scope row = Some scope_resource) (obj_get payload ''resourceRef'')) (\<lambda>resourceRef.
     bind_err (bigint_in sourceSequence) (\<lambda>sourceSequence.
     bind_err (timestamp_in env occurredAt) (\<lambda>occurred.
       Inr \<lparr>be_provider_id = providerId, be_stream_id = streamId, be_sequence = runtimeSequence, be_event_id = eventId,
            be_source_id = sourceId, be_source_stream_id = sourceStreamId, be_source_event_id = sourceEventId,
            be_source_sequence = sourceSequence, be_canonical_hash = bx_canonical_hash row, be_stored_hash = storedEventHash,
            be_event_type = eventType, be_occurred_at = occurred, be_scope = bx_scope row, be_description = description,
            be_task_id = taskId, be_resource_ref = resourceRef, be_candidate_count = length candidateIds,
            be_severity_hint = optionalString (obj_get payload ''severityHint''),
            be_reason_code = optionalString (obj_get payload ''reasonCode''),
            be_raw_payload = raw_payload (obj_get payload ''rawPayload''),
            be_created_at = clk env, be_expires_at = clk env + eventRetentionMs\<rparr>))))))))))"

definition insert_relation :: "event_row \<Rightarrow> nat \<times> string \<Rightarrow> event_db \<Rightarrow> err + event_db" where
  "insert_relation e = (\<lambda>(ordinal, taskId) db.
     event_checked (db\<lparr>relations := relations db @
       [\<lparr>rl_provider_id = be_provider_id e, rl_stream_id = be_stream_id e, rl_event_id = be_event_id e, rl_task_id = taskId,
         rl_ordinal = ordinal\<rparr>]\<rparr>))"

text \<open>A binding of a related task is kept at least as long as the event.\<close>

definition extend_bindings :: "string \<Rightarrow> string list \<Rightarrow> instant \<Rightarrow> event_db \<Rightarrow> event_db" where
  "extend_bindings providerId taskIds expires db =
     db\<lparr>task_store := (task_store db)\<lparr>resource_binding :=
       update_rows (\<lambda>b. rb_provider_id b = providerId \<and> rb_task_id b \<in> set taskIds)
         (\<lambda>b. b\<lparr>rb_retain_until := max (rb_retain_until b) expires\<rparr>) (resource_binding (task_store db))\<rparr>\<rparr>"

definition update_generation :: "string \<Rightarrow> string \<Rightarrow> (generation_row \<Rightarrow> generation_row) \<Rightarrow> event_db \<Rightarrow> err + event_db" where
  "update_generation providerId streamId f db =
     event_checked (db\<lparr>generations := update_rows (\<lambda>g. generation_key g = (providerId, streamId)) f (generations db)\<rparr>)"

definition publish_row ::
  "event_env \<Rightarrow> string \<Rightarrow> string \<Rightarrow> string \<Rightarrow> event_inbox_row \<Rightarrow> json_object \<Rightarrow> event_row \<Rightarrow> event_db
   \<Rightarrow> err + (err + FinalizedBusinessEvent option) \<times> event_db" where
  "publish_row env providerId sourceId streamId row payload e db =
     (let candidateIds = candidate_ids payload in
      bind_err (event_checked (db\<lparr>business_events := business_events db @ [e]\<rparr>)) (\<lambda>db.
      bind_err (fold_err (insert_relation e) (enumerate 0 candidateIds) db) (\<lambda>db.
      bind_err (update_generation providerId streamId (\<lambda>g. g\<lparr>gn_current_sequence := be_sequence e\<rparr>) db) (\<lambda>db.
      bind_err (event_checked (update_inbox (\<lambda>x. bx_inbox_id x = bx_inbox_id row)
          (\<lambda>x. x\<lparr>bx_status := X_published, bx_finalized_at := Some (clk env)\<rparr>) db)) (\<lambda>db.
      bind_err (event_checked (update_sources (\<lambda>s. source_key s = (providerId, sourceId))
          (\<lambda>s. s\<lparr>ss_last_finalized := be_source_sequence e\<rparr>) db)) (\<lambda>db.
      let db = (if candidateIds \<noteq> [] then extend_bindings providerId candidateIds (be_expires_at e) db else db) in
      bind_err (requiredString (obj_get payload ''occurredAt'')) (\<lambda>occurredAt.
      bind_err (requiredString (obj_get payload ''sourceSequence'')) (\<lambda>sourceSequence.
      bind_err (capture env
          \<lparr>ca_providerId = providerId, ca_recordType = ''provider.business_event.publication.lifecycle'', ca_aggregateId = providerId,
           ca_stableAggregateIdentity = be_event_id e, ca_eventIdentity = ''published'',
           ca_revision = Some (JStr (show_int (be_sequence e))), ca_occurredAt = date_text occurredAt,
           ca_payload = [(''event'', JStr ''published''), (''streamId'', JStr streamId), (''eventId'', JStr (be_event_id e)),
             (''runtimeSequence'', JStr (show_int (be_sequence e))), (''sourceId'', JStr sourceId),
             (''sourceSequence'', JStr sourceSequence),
             (''scope'', JStr (case bx_scope row of None \<Rightarrow> ''task'' | Some s \<Rightarrow> show_scope s)), (''outcome'', JStr ''published'')]\<rparr> db) (\<lambda>db.
        Inr (Inr (Some (mapStoredEvent e)), db))))))))))"

definition finalizeNextSourceEvent ::
  "event_env \<Rightarrow> string \<Rightarrow> string \<Rightarrow> int \<Rightarrow> event_db \<Rightarrow> (err + FinalizedBusinessEvent option) \<times> event_db" where
  "finalizeNextSourceEvent env providerId sourceId eventRetentionMs db =
     transaction db
       (case find_runtime providerId db of
          None \<Rightarrow> Inl (Error ''BUSINESS_EVENT_NOT_FOUND'')
        | Some runtime \<Rightarrow>
       (let streamId = rt_current_stream_id runtime in
        case find_generation providerId streamId db of
          None \<Rightarrow> Inl (Error ''BUSINESS_EVENT_STREAM_RESET'')
        | Some generation \<Rightarrow>
            if gn_status generation \<noteq> G_current then Inl (Error ''BUSINESS_EVENT_STREAM_RESET'')
            else
       (case find_source providerId sourceId db of
          None \<Rightarrow> Inl (Error ''BUSINESS_EVENT_SOURCE_NOT_FOUND'')
        | Some source \<Rightarrow>
       (case next_inbox providerId sourceId (ss_source_stream_id source) db of
          None \<Rightarrow> Inr (Inr None, db)
        | Some row \<Rightarrow>
       (case bx_payload row of
          None \<Rightarrow> Inr (Inr None, db)
        | Some payload \<Rightarrow>
            if bx_status row \<noteq> X_ready then Inr (Inr None, db)
            else bind_err (stored_event env providerId streamId (gn_current_sequence generation + 1) eventRetentionMs row payload) (\<lambda>e.
              publish_row env providerId sourceId streamId row payload e db))))))"

end
