(* ===== verification/Event_Streams.thy ===== *)
theory Event_Streams
  imports Event_Intake
begin

text \<open>
  Streams and their readers (\<^verbatim>\<open>packages/persistence-postgres/src/business-events.ts\<close>): the rotation of a provider to a new
  stream generation when continuity is lost, replay, and the projections that show a caller the tasks related to an
  event.  A reader of several queries is modelled on one state of the database.
\<close>

section \<open>Rotation\<close>

record RotationResult =
  ro_previousStreamId :: string
  ro_newStreamId :: string
  ro_reasonCode :: string
  ro_affectedSourceIds :: "string list"
  ro_lastReplayableSequence :: int
  ro_lastContinuousSequence :: "int option"
  ro_gapDetectedAt :: instant

definition mapRotation :: "continuity_row \<Rightarrow> RotationResult" where
  "mapRotation row =
     \<lparr>ro_previousStreamId = co_previous_stream_id row, ro_newStreamId = co_new_stream_id row, ro_reasonCode = co_reason_code row,
      ro_affectedSourceIds = co_affected_source_ids row, ro_lastReplayableSequence = co_last_replayable row,
      ro_lastContinuousSequence = co_last_continuous row, ro_gapDetectedAt = co_gap_detected_at row\<rparr>"

text \<open>\<^verbatim>\<open>ORDER BY created_at LIMIT 1\<close>.\<close>

definition earlier_rotation :: "string \<Rightarrow> string \<Rightarrow> event_db \<Rightarrow> continuity_row option" where
  "earlier_rotation providerId identity db =
     (case order_limit co_created_at 1
        (filter (\<lambda>c. co_provider_id c = providerId \<and> co_reason_identity c = identity) (continuity_records db)) of
        [] \<Rightarrow> None | c # _ \<Rightarrow> Some c)"

definition left_source :: "int \<Rightarrow> generation_source_row \<Rightarrow> generation_source_row" where
  "left_source lastReplayable s = s\<lparr>gs_left_at := Some lastReplayable\<rparr>"

definition close_generation ::
  "event_env \<Rightarrow> string \<Rightarrow> string \<Rightarrow> string list \<Rightarrow> int option \<Rightarrow> int \<Rightarrow> generation_row \<Rightarrow> generation_row" where
  "close_generation env newStreamId reasonCode affected lastContinuous retentionMs g =
     g\<lparr>gn_status := G_replayable_closed, gn_closed_at := Some (clk env), gn_rotated_to := Some newStreamId,
       gn_reset_reason := Some reasonCode, gn_affected_source_ids := affected, gn_last_replayable := gn_current_sequence g,
       gn_last_continuous := lastContinuous, gn_retain_until := max (gn_retain_until g) (clk env + retentionMs)\<rparr>"

definition disable_source :: "source_row \<Rightarrow> source_row" where
  "disable_source s = s\<lparr>ss_status := S_disabled, ss_lease_owner := None, ss_lease_until := None\<rparr>"

text \<open>\<^verbatim>\<open>ON CONFLICT (provider_id,source_id) DO UPDATE\<close>: the progress is kept when the source's stream is.\<close>

definition rejoin_source :: "BusinessEventSourceDefinition \<Rightarrow> source_row \<Rightarrow> source_row" where
  "rejoin_source d s =
     s\<lparr>ss_source_stream_id := sd_sourceStreamId d, ss_delivery_semantics := sd_deliverySemantics d, ss_status := S_active,
       ss_lease_owner := None, ss_lease_until := None,
       ss_last_persisted := (if ss_source_stream_id s = sd_sourceStreamId d then ss_last_persisted s else 0),
       ss_last_finalized := (if ss_source_stream_id s = sd_sourceStreamId d then ss_last_finalized s else 0)\<rparr>"

definition upsert_source :: "string \<Rightarrow> BusinessEventSourceDefinition \<Rightarrow> event_db \<Rightarrow> err + event_db" where
  "upsert_source providerId d db =
     event_checked
       (case find_source providerId (sd_sourceId d) db of
          None \<Rightarrow> db\<lparr>source_states := source_states db @ [new_source_state providerId d]\<rparr>
        | Some _ \<Rightarrow> update_sources (\<lambda>s. source_key s = (providerId, sd_sourceId d)) (rejoin_source d) db)"

definition rotate_source :: "string \<Rightarrow> string \<Rightarrow> BusinessEventSourceDefinition \<Rightarrow> event_db \<Rightarrow> err + event_db" where
  "rotate_source providerId newStreamId d db =
     bind_err (insert_generation_source (new_generation_source providerId newStreamId d) db) (upsert_source providerId d)"

definition skipped :: "event_env \<Rightarrow> event_inbox_row \<Rightarrow> event_inbox_row" where
  "skipped env x =
     (if bx_status x \<in> {X_continuity_loss_pending, X_rejected, X_mapping_failed}
      then x\<lparr>bx_status := X_terminal_skipped, bx_finalized_at := Some (clk env)\<rparr> else x)"

definition affected_sources :: "BusinessEventSourceDefinition list \<Rightarrow> string list \<Rightarrow> string list" where
  "affected_sources currentRoster affectedSourceIds =
     sort (remdups (if affectedSourceIds = [] then map sd_sourceId currentRoster else affectedSourceIds))"

record rotation_input =
  ri_newStreamId :: string
  ri_continuityId :: string
  ri_providerId :: string
  ri_reasonCode :: string
  ri_affectedSourceIds :: "string list"
  ri_reasonIdentity :: string
  ri_retentionMs :: int
  ri_replacementRoster :: "BusinessEventSourceDefinition list option"

definition rotation_record ::
  "event_env \<Rightarrow> rotation_input \<Rightarrow> generation_row \<Rightarrow> string list \<Rightarrow> int option \<Rightarrow> continuity_row" where
  "rotation_record env i previous affected lastContinuous =
     \<lparr>co_record_id = ri_continuityId i, co_provider_id = ri_providerId i, co_previous_stream_id = gn_stream_id previous,
      co_new_stream_id = ri_newStreamId i, co_reason_code = ri_reasonCode i, co_affected_source_ids = affected,
      co_gap_detected_at = clk env, co_last_replayable = gn_current_sequence previous, co_last_continuous = lastContinuous,
      co_reason_identity = ri_reasonIdentity i, co_created_at = clk env, co_retain_until = clk env + ri_retentionMs i\<rparr>"

text \<open>The statements of the rotation, in order.\<close>

definition switch_streams ::
  "event_env \<Rightarrow> rotation_input \<Rightarrow> generation_row \<Rightarrow> BusinessEventSourceDefinition list \<Rightarrow> string list \<Rightarrow> int option \<Rightarrow> event_db
   \<Rightarrow> err + event_db" where
  "switch_streams env i previous roster affected lastContinuous db =
     (let providerId = ri_providerId i; previousStreamId = gn_stream_id previous; newStreamId = ri_newStreamId i in
      bind_err (insert_generation
          (new_generation env providerId newStreamId G_rotating (classifyContinuity roster) (ri_retentionMs i)) db) (\<lambda>db.
      bind_err (event_checked (db\<lparr>generation_sources := update_rows
          (\<lambda>s. gs_provider_id s = providerId \<and> gs_runtime_stream_id s = previousStreamId \<and> gs_left_at s = None)
          (left_source (gn_current_sequence previous)) (generation_sources db)\<rparr>)) (\<lambda>db.
      bind_err (update_generation providerId previousStreamId
          (close_generation env newStreamId (ri_reasonCode i) affected lastContinuous (ri_retentionMs i)) db) (\<lambda>db.
      bind_err (update_generation providerId newStreamId (\<lambda>g. g\<lparr>gn_status := G_current\<rparr>) db) (\<lambda>db.
      bind_err (event_checked (update_sources
          (\<lambda>s. ss_provider_id s = providerId \<and> ss_source_id s \<notin> set (map sd_sourceId roster)) disable_source db)) (\<lambda>db.
      bind_err (fold_err (rotate_source providerId newStreamId) (sort_key sd_sourceId roster) db) (\<lambda>db.
      bind_err (event_checked (db\<lparr>runtime_state := update_rows (\<lambda>r. rt_provider_id r = providerId)
          (\<lambda>r. r\<lparr>rt_current_stream_id := newStreamId, rt_generation_version := rt_generation_version r + 1\<rparr>)
          (runtime_state db)\<rparr>)) (\<lambda>db.
      bind_err (event_checked (db\<lparr>continuity_records := continuity_records db @
          [rotation_record env i previous affected lastContinuous]\<rparr>)) (\<lambda>db.
        event_checked (update_inbox (\<lambda>x. bx_provider_id x = providerId \<and> bx_source_id x \<in> set affected) (skipped env) db))))))))))"

definition audit_rotation ::
  "event_env \<Rightarrow> rotation_input \<Rightarrow> runtime_row \<Rightarrow> generation_row \<Rightarrow> BusinessEventSourceDefinition list \<Rightarrow> string list \<Rightarrow> int option
   \<Rightarrow> event_db \<Rightarrow> err + event_db" where
  "audit_rotation env i current previous roster affected lastContinuous db =
     (let providerId = ri_providerId i; newStreamId = ri_newStreamId i; previousStreamId = gn_stream_id previous;
          generationVersion = show_int (rt_generation_version current + 1);
          lastReplayable = show_int (gn_current_sequence previous);
          continuous = opt_field ''lastContinuousSequence'' (map_option (\<lambda>n. JStr (show_int n)) lastContinuous) in
      bind_err (capture env
          \<lparr>ca_providerId = providerId, ca_recordType = ''provider.business_event.continuity'', ca_aggregateId = providerId,
           ca_stableAggregateIdentity = previousStreamId @ '':'' @ newStreamId, ca_eventIdentity = ''continuity_loss'',
           ca_revision = Some (JStr (ri_reasonIdentity i)), ca_occurredAt = date_value (clk env),
           ca_payload = [(''event'', JStr ''continuity_loss''), (''previousStreamId'', JStr previousStreamId),
             (''newStreamId'', JStr newStreamId), (''affectedSourceCount'', JNum (int (length affected))),
             (''reasonCode'', JStr (ri_reasonCode i)), (''lastReplayableSequence'', JStr lastReplayable)] @ continuous\<rparr> db) (\<lambda>db.
        capture env
          \<lparr>ca_providerId = providerId, ca_recordType = ''provider.business_event.stream.lifecycle'', ca_aggregateId = providerId,
           ca_stableAggregateIdentity = previousStreamId @ '':'' @ newStreamId, ca_eventIdentity = ri_reasonCode i,
           ca_revision = Some (JStr generationVersion), ca_occurredAt = date_value (clk env),
           ca_payload = [(''event'', JStr ''rotation''), (''previousStreamId'', JStr previousStreamId),
             (''currentStreamId'', JStr newStreamId), (''generationStatus'', JStr ''current''),
             (''continuityClass'', JStr (show_continuity (classifyContinuity roster))),
             (''lastReplayableSequence'', JStr lastReplayable)] @ continuous
             @ [(''reasonCode'', JStr (ri_reasonCode i)), (''generationVersion'', JStr generationVersion)]\<rparr> db))"

text \<open>The record of an earlier rotation is looked for before and after the provider's row is locked; within one state both
  queries give the same.\<close>

definition rotateStream :: "event_env \<Rightarrow> rotation_input \<Rightarrow> event_db \<Rightarrow> (err + RotationResult) \<times> event_db" where
  "rotateStream env i db =
     transaction db
       (case earlier_rotation (ri_providerId i) (ri_reasonIdentity i) db of
          Some c \<Rightarrow> Inr (Inr (mapRotation c), db)
        | None \<Rightarrow>
       (case find_runtime (ri_providerId i) db of
          None \<Rightarrow> Inl (Error ''BUSINESS_EVENT_NOT_FOUND'')
        | Some current \<Rightarrow>
       (case find_generation (ri_providerId i) (rt_current_stream_id current) db of
          None \<Rightarrow> Inl (Error ''BUSINESS_EVENT_STREAM_RESET'')
        | Some previous \<Rightarrow>
            if gn_status previous \<noteq> G_current then Inl (Error ''BUSINESS_EVENT_STREAM_RESET'')
            else
              let currentRoster = sourceRoster env (ri_providerId i) (gn_stream_id previous) db;
                  roster = (case ri_replacementRoster i of None \<Rightarrow> currentRoster | Some r \<Rightarrow> r);
                  affected = affected_sources currentRoster (ri_affectedSourceIds i);
                  lastContinuous = (if gn_continuity_class previous = all_durable then Some (gn_current_sequence previous) else None)
              in
              if length roster < 1 \<or> length roster > 16 \<or> \<not> distinct (map sd_sourceId roster)
              then Inl (Error ''BUSINESS_EVENT_SOURCE_COUNT_INVALID'')
              else if affected = [] then Inl (Error ''BUSINESS_EVENT_ROTATION_SOURCE_REQUIRED'')
              else
                bind_err (switch_streams env i previous roster affected lastContinuous db) (\<lambda>db.
                bind_err (audit_rotation env i current previous roster affected lastContinuous db) (\<lambda>db.
                  Inr (Inr (mapRotation (rotation_record env i previous affected lastContinuous)), db))))))"

section \<open>Replay\<close>

definition replay_rows :: "string \<Rightarrow> string \<Rightarrow> int \<Rightarrow> int \<Rightarrow> nat \<Rightarrow> event_db \<Rightarrow> event_row list" where
  "replay_rows providerId streamId afterSequence throughSequence limit db =
     order_limit be_sequence limit
       (filter (\<lambda>e. event_stream e = (providerId, streamId) \<and> afterSequence < be_sequence e \<and> be_sequence e \<le> throughSequence)
         (business_events db))"

definition replayEvents ::
  "string \<Rightarrow> string \<Rightarrow> int \<Rightarrow> int \<Rightarrow> int \<Rightarrow> event_db \<Rightarrow> err + FinalizedBusinessEvent list" where
  "replayEvents providerId streamId afterSequence throughSequence limit db =
     (if limit < 0 then Inl (DbConstraint ''LIMIT must not be negative'')
      else Inr (map mapStoredEvent (replay_rows providerId streamId afterSequence throughSequence (nat limit) db)))"

definition continuityForPreviousStream :: "string \<Rightarrow> string \<Rightarrow> event_db \<Rightarrow> RotationResult option" where
  "continuityForPreviousStream providerId previousStreamId db =
     map_option mapRotation (latest_row co_created_at
       (\<lambda>c. co_provider_id c = providerId \<and> co_previous_stream_id c = previousStreamId) (continuity_records db))"

section \<open>What a caller may see\<close>

record BusinessEventAuthorizationSnapshot =
  bz_authorizationScopeHash :: string
  bz_executionMode :: ExecutionMode
  bz_simulationId :: "string option"

record AuthorizedBusinessEventProjection =
  ap_event :: FinalizedBusinessEvent
  ap_relatedTaskIds :: "string list"
  ap_candidateRelationHash :: string
  ap_projectionRelationHash :: string

text \<open>The rows that say under which authorization a task runs: the task itself or the tombstone it left.\<close>

definition authorities :: "string \<Rightarrow> event_db \<Rightarrow> (string \<times> BusinessEventAuthorizationSnapshot) list" where
  "authorities providerId db =
     map (\<lambda>r. (task_id r, \<lparr>bz_authorizationScopeHash = au_hash (in_authorization (spec r)),
         bz_executionMode = au_executionMode (in_authorization (spec r)), bz_simulationId = au_simulationId (in_authorization (spec r))\<rparr>))
       (filter (\<lambda>r. in_providerId (spec r) = providerId) (provider_task (task_store db)))
     @ map (\<lambda>t. (tb_task_id t, \<lparr>bz_authorizationScopeHash = tb_authorization_hash t, bz_executionMode = tb_execution_mode t,
         bz_simulationId = tb_simulation_id t\<rparr>))
       (filter (\<lambda>t. tb_provider_id t = providerId) (tombstones db))"

definition visible_to :: "string \<Rightarrow> BusinessEventAuthorizationSnapshot \<Rightarrow> event_db \<Rightarrow> string \<Rightarrow> bool" where
  "visible_to providerId authorization db taskId = ((taskId, authorization) \<in> set (authorities providerId db))"

definition related_tasks :: "string \<Rightarrow> string \<Rightarrow> string \<Rightarrow> event_db \<Rightarrow> string list" where
  "related_tasks providerId streamId eventId db =
     sort (map rl_task_id (filter (\<lambda>r. relation_event r = (providerId, streamId, eventId)) (relations db)))"

definition find_event :: "string \<Rightarrow> string \<Rightarrow> string \<Rightarrow> event_db \<Rightarrow> event_row option" where
  "find_event providerId streamId eventId db =
     first_row (\<lambda>e. event_key e = (providerId, streamId, eventId)) (business_events db)"

definition list_hash :: "event_env \<Rightarrow> string list \<Rightarrow> err + string" where
  "list_hash env ids = canonicalSha256 (sha256 env) (unicode_nfc env) (of_json (JArr (map JStr ids)))"

definition candidate_tasks :: "event_row \<Rightarrow> event_db \<Rightarrow> string list" where
  "candidate_tasks e db =
     (if be_scope e = Some scope_task then (case be_task_id e of None \<Rightarrow> [] | Some t \<Rightarrow> [t])
      else related_tasks (be_provider_id e) (be_stream_id e) (be_event_id e) db)"

definition authorizedEventProjection ::
  "event_env \<Rightarrow> string \<Rightarrow> string \<Rightarrow> string \<Rightarrow> BusinessEventAuthorizationSnapshot \<Rightarrow> event_db
   \<Rightarrow> err + AuthorizedBusinessEventProjection option" where
  "authorizedEventProjection env providerId streamId eventId authorization db =
     (case find_event providerId streamId eventId db of
        None \<Rightarrow> Inr None
      | Some event \<Rightarrow>
          if be_expires_at event \<le> now env then Inr None
          else
            let candidateIds = candidate_tasks event db in
            if be_scope event = Some scope_resource \<and> length candidateIds \<noteq> be_candidate_count event
            then Inl (Error ''BUSINESS_EVENT_RETENTION_AUTHORITY_INVALID'')
            else
              let related = sort (filter (visible_to providerId authorization db) candidateIds);
                  authorityCount = card (set candidateIds \<inter> set (map fst (authorities providerId db)))
              in
              if authorityCount \<noteq> length candidateIds then Inl (Error ''BUSINESS_EVENT_RETENTION_AUTHORITY_INVALID'')
              else if related = [] then Inr None
              else
                bind_err (list_hash env candidateIds) (\<lambda>candidateHash.
                bind_err (list_hash env related) (\<lambda>projectionHash.
                  Inr (Some \<lparr>ap_event = mapStoredEvent event, ap_relatedTaskIds = related, ap_candidateRelationHash = candidateHash,
                    ap_projectionRelationHash = projectionHash\<rparr>))))"

section \<open>Projections\<close>

record ProjectionIdentity =
  pr_providerId :: string
  pr_streamId :: string
  pr_eventId :: string
  pr_authorization :: BusinessEventAuthorizationSnapshot
  pr_candidateRelationHash :: string
  pr_projectionRelationHash :: string

record ProjectionPage =
  pp_items :: "string list"
  pp_total :: nat
  pp_nextAfterTaskId :: "string option"

definition hashToken :: "event_env \<Rightarrow> string \<Rightarrow> err + string" where
  "hashToken env token =
     (if list_all base64url_char token \<and> 22 \<le> length token \<and> length token \<le> 256 then Inr (sha256 env token)
      else Inl (Error ''BUSINESS_EVENT_RELATION_CURSOR_INVALID''))"

definition lockRuntimeAndGeneration :: "string \<Rightarrow> string \<Rightarrow> event_db \<Rightarrow> err + unit" where
  "lockRuntimeAndGeneration providerId streamId db =
     (if find_runtime providerId db = None then Inl (Error ''BUSINESS_EVENT_NOT_FOUND'')
      else if find_generation providerId streamId db = None then Inl (Error ''BUSINESS_EVENT_STREAM_RESET'')
      else Inr ())"

definition new_projection :: "event_env \<Rightarrow> string \<Rightarrow> ProjectionIdentity \<Rightarrow> int \<Rightarrow> projection_row" where
  "new_projection env tokenHash identity ttlMs =
     \<lparr>pj_token_hash = tokenHash, pj_provider_id = pr_providerId identity, pj_stream_id = pr_streamId identity,
      pj_event_id = pr_eventId identity,
      pj_authorization_scope_hash = bz_authorizationScopeHash (pr_authorization identity),
      pj_execution_mode = bz_executionMode (pr_authorization identity), pj_simulation_id = bz_simulationId (pr_authorization identity),
      pj_candidate_hash = pr_candidateRelationHash identity, pj_projection_hash = pr_projectionRelationHash identity,
      pj_created_at = clk env, pj_expires_at = clk env + ttlMs\<rparr>"

definition insert_item :: "string \<Rightarrow> nat \<times> string \<Rightarrow> event_db \<Rightarrow> err + event_db" where
  "insert_item tokenHash = (\<lambda>(ordinal, taskId) db.
     event_checked (db\<lparr>projection_items := projection_items db @
       [\<lparr>pt_token_hash = tokenHash, pt_task_id = taskId, pt_ordinal = ordinal\<rparr>]\<rparr>))"

text \<open>\<open>token\<close> is the drawn token: 32 random bytes in base64url.\<close>

definition createRelationProjection ::
  "event_env \<Rightarrow> string \<Rightarrow> ProjectionIdentity \<Rightarrow> string list \<Rightarrow> int \<Rightarrow> event_db \<Rightarrow> (err + string) \<times> event_db" where
  "createRelationProjection env token identity taskIds ttlMs db =
     (case hashToken env token of
        Inl e \<Rightarrow> (Inl e, db)
      | Inr tokenHash \<Rightarrow> transaction db
          (bind_err (lockRuntimeAndGeneration (pr_providerId identity) (pr_streamId identity) db) (\<lambda>_.
           bind_err (event_checked (db\<lparr>projections := projections db @ [new_projection env tokenHash identity ttlMs]\<rparr>)) (\<lambda>db.
           bind_err (fold_err (insert_item tokenHash) (enumerate 0 (sort (remdups taskIds))) db) (\<lambda>db.
             Inr (Inr token, db))))))"

text \<open>Deleting a projection deletes its items; locked rows are skipped.\<close>

definition cleanupExpiredRelationProjections ::
  "event_env \<Rightarrow> int \<Rightarrow> (string \<Rightarrow> bool) \<Rightarrow> event_db \<Rightarrow> (err + nat) \<times> event_db" where
  "cleanupExpiredRelationProjections env limit locked db =
     (if limit < 1 \<or> limit > 10000 then (Inl (Error ''BUSINESS_EVENT_CLEANUP_LIMIT_INVALID''), db)
      else
        let expired = map pj_token_hash (order_limit (\<lambda>p. (pj_expires_at p, pj_token_hash p)) (nat limit)
              (filter (\<lambda>p. pj_expires_at p \<le> clk env \<and> \<not> locked (pj_token_hash p)) (projections db)))
        in (Inr (length expired),
            db\<lparr>projections := filter (\<lambda>p. pj_token_hash p \<notin> set expired) (projections db),
               projection_items := filter (\<lambda>i. pt_token_hash i \<notin> set expired) (projection_items db)\<rparr>))"

definition projected_tasks :: "string \<Rightarrow> event_db \<Rightarrow> string list" where
  "projected_tasks tokenHash db =
     sort (map pt_task_id (filter (\<lambda>i. pt_token_hash i = tokenHash) (projection_items db)))"

definition relation_page :: "string list \<Rightarrow> string option \<Rightarrow> nat \<Rightarrow> ProjectionPage" where
  "relation_page tasks afterTaskId limit =
     (let items = take limit (filter (\<lambda>t. case afterTaskId of None \<Rightarrow> True | Some a \<Rightarrow> a < t) tasks);
          lastTaskId = (if items = [] then None else Some (last items));
          hasMore = (case lastTaskId of None \<Rightarrow> False | Some l \<Rightarrow> list_ex (\<lambda>t. l < t) tasks)
      in \<lparr>pp_items = items, pp_total = length tasks, pp_nextAfterTaskId = (if hasMore then lastTaskId else None)\<rparr>)"

definition relationProjectionPage ::
  "event_env \<Rightarrow> string \<Rightarrow> string \<times> string \<times> string \<Rightarrow> BusinessEventAuthorizationSnapshot \<Rightarrow> string option \<Rightarrow> int \<Rightarrow> event_db
   \<Rightarrow> err + ProjectionPage" where
  "relationProjectionPage env token expected authorization afterTaskId limit db =
     (if limit < 1 \<or> limit > 256 then Inl (Error ''BUSINESS_EVENT_RELATION_CURSOR_INVALID'')
      else
      bind_err (hashToken env token) (\<lambda>tokenHash.
      case first_row (\<lambda>p. pj_token_hash p = tokenHash) (projections db) of
        None \<Rightarrow> Inl (Error ''BUSINESS_EVENT_RELATION_CURSOR_INVALID'')
      | Some row \<Rightarrow>
      (case first_row (\<lambda>e. event_key e = projection_event row) (business_events db) of
        None \<Rightarrow> Inl (Error ''BUSINESS_EVENT_RELATION_CURSOR_INVALID'')
      | Some event \<Rightarrow>
          if pj_expires_at row \<le> now env then Inl (Error ''BUSINESS_EVENT_RELATION_CURSOR_EXPIRED'')
          else if be_expires_at event \<le> now env then Inl (Error ''BUSINESS_EVENT_NOT_FOUND'')
          else if projection_event row \<noteq> expected then Inl (Error ''BUSINESS_EVENT_RELATION_CURSOR_INVALID'')
          else if pj_authorization_scope_hash row \<noteq> bz_authorizationScopeHash authorization \<or>
              pj_execution_mode row \<noteq> bz_executionMode authorization \<or> pj_simulation_id row \<noteq> bz_simulationId authorization
            then Inl (Error ''BUSINESS_EVENT_AUTHORIZATION_MISMATCH'')
          else
            let projected = projected_tasks tokenHash db in
            bind_err (list_hash env (case expected of (p, s, e) \<Rightarrow> related_tasks p s e db)) (\<lambda>candidateHash.
            bind_err (if candidateHash \<noteq> pj_candidate_hash row then Inr [] else list_hash env projected) (\<lambda>projectionHash.
            if candidateHash \<noteq> pj_candidate_hash row \<or> projectionHash \<noteq> pj_projection_hash row
            then Inl (Error ''BUSINESS_EVENT_RELATION_PROJECTION_STALE'')
            else if (case afterTaskId of None \<Rightarrow> False | Some a \<Rightarrow> a \<notin> set projected)
            then Inl (Error ''BUSINESS_EVENT_RELATION_CURSOR_INVALID'')
            else Inr (relation_page projected afterTaskId (nat limit)))))))"

section \<open>Retention\<close>

definition extendVisibilityRetention :: "int \<Rightarrow> event_db \<Rightarrow> (err + unit) \<times> event_db" where
  "extendVisibilityRetention historyHorizonMs db =
     (Inr (),
      db\<lparr>task_store := (task_store db)\<lparr>resource_binding := map
           (\<lambda>b. b\<lparr>rb_retain_until := max (rb_retain_until b)
              ((case rb_terminal_at b of None \<Rightarrow> rb_bound_at b | Some t \<Rightarrow> t) + historyHorizonMs)\<rparr>)
           (resource_binding (task_store db))\<rparr>,
         tombstones := map (\<lambda>t. t\<lparr>tb_retain_until := max (tb_retain_until t) (tb_terminal_at t + historyHorizonMs)\<rparr>)
           (tombstones db)\<rparr>)"

end
