(* ===== verification/Ttl_Cleaner.thy ===== *)
theory Ttl_Cleaner
  imports Event_Streams Store_Recovery Idempotency Store_Inv
begin

text \<open>
  The TTL cleaner (\<^verbatim>\<open>packages/task-engine/src/ttl-cleaner.ts\<close>).  One tick is one transaction: it renews the handles
  of running tasks, expires the handles of final ones, purges the tasks whose grace period is over, leaving a
  visibility tombstone behind, and drops resource bindings and tombstones that are not needed any more.

  Its database is the event store with its task store, and the idempotency records.  Which outbox events have been
  published, which rows other transactions hold locked at each of the three scans, and the identifiers drawn for the
  recovery leases are given by the context; \<open>now\<close> is the argument of the tick and \<open>clk\<close> the database's clock.  Metric
  and event callbacks are left out.
\<close>

section \<open>State and options\<close>

record ttl_db =
  ttl_events :: event_db
  ttl_idempotency :: idem_table

abbreviation ttl_tasks :: "ttl_db \<Rightarrow> db" where
  "ttl_tasks tdb \<equiv> task_store (ttl_events tdb)"

datatype ttl_scan = scan_renew | scan_expire | scan_purge

record ttl_context =
  tx_env :: runtime_env
  tx_locked :: "ttl_scan \<Rightarrow> string \<Rightarrow> bool"
  tx_published :: "event_key \<Rightarrow> bool"
  tx_ownerId :: "string \<Rightarrow> string"

record TtlCleanerOptions =
  to_batchSize :: int
  to_purgeGraceMs :: int
  to_recoveryLeaseMs :: int

record TtlCleanerTickResult =
  tr_renewed :: nat
  tr_expired :: nat
  tr_purged :: nat
  tr_blocked :: nat

text \<open>The constructor.\<close>

definition ttlCleaner :: "int option \<Rightarrow> int option \<Rightarrow> int option \<Rightarrow> err + TtlCleanerOptions" where
  "ttlCleaner batchSize purgeGraceMs recoveryLeaseMs =
     (let o1 = \<lparr>to_batchSize = given batchSize 128, to_purgeGraceMs = given purgeGraceMs 86400000,
                to_recoveryLeaseMs = given recoveryLeaseMs 30000\<rparr>
      in if to_batchSize o1 < 1 then Inl (RangeError ''TTL_CLEANER_BATCH_SIZE_INVALID'')
         else if to_purgeGraceMs o1 < 1 then Inl (RangeError ''TTL_PURGE_GRACE_MS_INVALID'')
         else if to_recoveryLeaseMs o1 < 1 then Inl (RangeError ''RECOVERY_LEASE_MS_INVALID'')
         else Inr o1)"

text \<open>A statement or call on the task store within the transaction.\<close>

definition on_tasks :: "(db \<Rightarrow> err + db) \<Rightarrow> ttl_db \<Rightarrow> err + ttl_db" where
  "on_tasks f tdb = bind_err (f (ttl_tasks tdb)) (\<lambda>d. Inr (tdb\<lparr>ttl_events := (ttl_events tdb)\<lparr>task_store := d\<rparr>\<rparr>))"

definition on_events :: "(event_db \<Rightarrow> err + event_db) \<Rightarrow> ttl_db \<Rightarrow> err + ttl_db" where
  "on_events f tdb = bind_err (f (ttl_events tdb)) (\<lambda>e. Inr (tdb\<lparr>ttl_events := e\<rparr>))"

section \<open>Renewal and expiry of handles\<close>

definition renew_due :: "ttl_context \<Rightarrow> nat \<Rightarrow> db \<Rightarrow> task_row list" where
  "renew_due cx n db =
     order_limit (\<lambda>r. (handle_expires_at r, task_id r)) n
       (filter (\<lambda>r. \<not> isTerminalState (internal_state r) \<and> in_ttlMs (spec r) \<noteq> None \<and>
          (handle_expires_at r = None \<or> sql_le (handle_expires_at r) (now (tx_env cx))) \<and>
          \<not> tx_locked cx scan_renew (task_id r)) (provider_task db))"

definition renew_handle :: "instant \<Rightarrow> task_row \<Rightarrow> task_row" where
  "renew_handle at r = r\<lparr>handle_expires_at := map_option (\<lambda>ttl. at + ttl) (in_ttlMs (spec r))\<rparr>"

definition update_tasks :: "string list \<Rightarrow> (task_row \<Rightarrow> task_row) \<Rightarrow> db \<Rightarrow> db" where
  "update_tasks ts f db = db\<lparr>provider_task := update_rows (\<lambda>r. task_id r \<in> set ts) f (provider_task db)\<rparr>"

definition renew_handles :: "ttl_context \<Rightarrow> nat \<Rightarrow> db \<Rightarrow> err + (nat \<times> db)" where
  "renew_handles cx n db =
     (let due = map task_id (renew_due cx n db)
      in bind_err (checked (update_tasks due (renew_handle (now (tx_env cx))) db)) (\<lambda>db. Inr (length due, db)))"

definition expire_due :: "ttl_context \<Rightarrow> nat \<Rightarrow> db \<Rightarrow> task_row list" where
  "expire_due cx n db =
     order_limit (\<lambda>r. (handle_expires_at r, task_id r)) n
       (filter (\<lambda>r. isTerminalState (internal_state r) \<and> expired_at r = None \<and> handle_expires_at r \<noteq> None \<and>
          sql_le (handle_expires_at r) (now (tx_env cx)) \<and> \<not> tx_locked cx scan_expire (task_id r)) (provider_task db))"

definition expire_handle :: "instant \<Rightarrow> int \<Rightarrow> task_row \<Rightarrow> task_row" where
  "expire_handle at grace r = r\<lparr>expired_at := Some at, purge_after := Some (at + grace)\<rparr>"

definition expired_payload :: "instant \<Rightarrow> task_row \<Rightarrow> json_object" where
  "expired_payload at row =
    [(''taskId'', JStr (task_id row)),
     (''previousState'', JStr (show_state (internal_state row))),
     (''currentState'', JStr ''EXPIRED''),
     (''previousSubstate'', json_opt (substate row)),
     (''currentSubstate'', JStr ''expired''),
     (''reasonCode'', JStr ''TTL_EXPIRED''),
     (''observationRevision'', JNum (int (observation_revision row))),
     (''adapterRevision'', JNum (adapter_revision row)),
     (''terminal'', JBool True),
     (''resultClass'', JStr ''expired''),
     (''externalExecutionId'', json_opt (external_execution_id row)),
     (''operationName'', JStr (in_operationName (spec row))),
     (''executionMode'', JStr (show_mode (au_executionMode (in_authorization (spec row))))),
     (''simulationId'', json_opt (au_simulationId (in_authorization (spec row)))),
     (''argumentHash'', JStr (in_argumentHash (spec row))),
     (''authorizationContextHash'', JStr (au_hash (in_authorization (spec row)))),
     (''expiredAt'', JStr (toISOString at))]"

definition ttl_payload :: "string \<Rightarrow> task_row \<Rightarrow> json \<Rightarrow> json_object" where
  "ttl_payload event row blockedReason =
    [(''event'', JStr event), (''taskId'', JStr (task_id row)), (''previousExpiry'', json_date_opt (handle_expires_at row)),
     (''newExpiry'', JNull), (''purgeAfter'', json_date_opt (purge_after row)), (''blockedReason'', blockedReason)]"

definition ttl_event :: "instant \<Rightarrow> string \<Rightarrow> event_key \<Rightarrow> task_row \<Rightarrow> json \<Rightarrow> db \<Rightarrow> err + db" where
  "ttl_event at event identity row blockedReason =
     captureTaskOperationalEvent (task_id row) ''provider.ttl.lifecycle'' event identity at (ttl_payload event row blockedReason)"

definition record_expiry :: "ttl_context \<Rightarrow> task_row \<Rightarrow> db \<Rightarrow> err + db" where
  "record_expiry cx row db =
     (let at = now (tx_env cx); eventKey = [task_id row, ''expired'']
      in ttl_event at ''expire'' eventKey row JNull
           (insertCommittedTaskEvent (tx_env cx) (task_id row) ''task.expired'' (expired_payload at row) eventKey db))"

definition expire_handles :: "ttl_context \<Rightarrow> nat \<Rightarrow> int \<Rightarrow> db \<Rightarrow> err + (nat \<times> db)" where
  "expire_handles cx n grace db =
     (let expire = expire_handle (now (tx_env cx)) grace; due = expire_due cx n db
      in bind_err (checked (update_tasks (map task_id due) expire db)) (\<lambda>db.
         bind_err (fold_err (record_expiry cx) (map expire due) db) (\<lambda>db.
         Inr (length due, db))))"

section \<open>Purge\<close>

definition purgeable :: "ttl_context \<Rightarrow> db \<Rightarrow> task_row \<Rightarrow> bool" where
  "purgeable cx db r =
     (isTerminalState (internal_state r) \<and> expired_at r \<noteq> None \<and> sql_le (purge_after r) (now (tx_env cx)) \<and>
      \<not> list_ex (\<lambda>o1. ox_aggregate_id o1 = task_id r \<and> \<not> tx_published cx (ox_event_key o1)) (outbox_event db) \<and>
      \<not> list_ex (\<lambda>c. cmd_task_id c = task_id r \<and> cmd_state c \<in> {PENDING, CLAIMED, RETRY_WAIT}) (task_command db) \<and>
      \<not> list_ex (\<lambda>a. in_taskId (ad_input a) = task_id r \<and> ad_state a \<in> {ADM_PENDING, ADM_ACCEPTED, ADM_UNCERTAIN}) (admission_intent db))"

definition purge_due :: "ttl_context \<Rightarrow> nat \<Rightarrow> db \<Rightarrow> task_row list" where
  "purge_due cx n db =
     order_limit (\<lambda>r. (purge_after r, task_id r)) n
       (filter (\<lambda>r. purgeable cx db r \<and> \<not> tx_locked cx scan_purge (task_id r)) (provider_task db))"

text \<open>The visibility tombstone: \<^verbatim>\<open>INSERT ... SELECT ... ON CONFLICT DO UPDATE\<close>.\<close>

definition find_binding :: "string \<Rightarrow> string \<Rightarrow> db \<Rightarrow> binding_row option" where
  "find_binding p t db = first_row (\<lambda>b. rb_provider_id b = p \<and> rb_task_id b = t) (resource_binding db)"

definition tombstone_for :: "instant \<Rightarrow> task_row \<Rightarrow> instant \<Rightarrow> binding_row option \<Rightarrow> tombstone_row" where
  "tombstone_for at task terminalAt binding =
     \<lparr>tb_provider_id = in_providerId (spec task), tb_task_id = task_id task,
      tb_authorization_hash = au_hash (in_authorization (spec task)),
      tb_execution_mode = au_executionMode (in_authorization (spec task)),
      tb_simulation_id = au_simulationId (in_authorization (spec task)),
      tb_resource_ref = map_option rb_resource_ref binding, tb_terminal_at = terminalAt,
      tb_retain_until = max (case binding of Some b \<Rightarrow> rb_retain_until b | None \<Rightarrow> terminalAt + 1209960000) at\<rparr>"

abbreviation tombstone_key :: "tombstone_row \<Rightarrow> string \<times> string" where
  "tombstone_key t \<equiv> (tb_provider_id t, tb_task_id t)"

definition upsert_tombstone :: "tombstone_row \<Rightarrow> tombstone_row list \<Rightarrow> tombstone_row list" where
  "upsert_tombstone new rows =
     (if tombstone_key new \<in> set (map tombstone_key rows)
      then update_rows (\<lambda>t. tombstone_key t = tombstone_key new)
        (\<lambda>t. t\<lparr>tb_retain_until := max (tb_retain_until t) (tb_retain_until new)\<rparr>) rows
      else rows @ [new])"

definition insert_tombstone :: "instant \<Rightarrow> string \<Rightarrow> event_db \<Rightarrow> err + event_db" where
  "insert_tombstone at t edb =
     (case find_task t (task_store edb) of
        None \<Rightarrow> Inr edb
      | Some task \<Rightarrow>
          (case terminal_at task of
             None \<Rightarrow> Inr edb
           | Some terminalAt \<Rightarrow>
               event_checked (edb\<lparr>tombstones := upsert_tombstone
                 (tombstone_for at task terminalAt (find_binding (in_providerId (spec task)) t (task_store edb)))
                 (tombstones edb)\<rparr>)))"

text \<open>The deletions.  A task's observations, requests and commands go with its row (\<^verbatim>\<open>ON DELETE CASCADE\<close>).\<close>

definition delete_requests :: "string \<Rightarrow> db \<Rightarrow> err + db" where
  "delete_requests t db =
     checked (db\<lparr>task_input_request := filter (\<lambda>q. input_request_row.ir_task_id q \<noteq> t) (task_input_request db)\<rparr>)"

definition delete_records :: "string \<Rightarrow> ttl_db \<Rightarrow> ttl_db" where
  "delete_records t tdb =
     tdb\<lparr>ttl_idempotency := purge_records t (ttl_idempotency tdb)\<rparr>"

definition delete_commands :: "string \<Rightarrow> db \<Rightarrow> err + db" where
  "delete_commands t db = checked (db\<lparr>task_command := filter (\<lambda>c. cmd_task_id c \<noteq> t) (task_command db)\<rparr>)"

definition delete_admission :: "string \<Rightarrow> db \<Rightarrow> err + db" where
  "delete_admission t db =
     checked (db\<lparr>admission_intent := filter (\<lambda>a. in_taskId (ad_input a) \<noteq> t) (admission_intent db)\<rparr>)"

definition delete_task :: "string \<Rightarrow> db \<Rightarrow> err + db" where
  "delete_task t db =
     checked (db\<lparr>provider_task := filter (\<lambda>r. task_id r \<noteq> t) (provider_task db),
       task_observation := filter (\<lambda>x. ob_task_id x \<noteq> t) (task_observation db),
       task_input_request := filter (\<lambda>q. input_request_row.ir_task_id q \<noteq> t) (task_input_request db),
       task_command := filter (\<lambda>c. cmd_task_id c \<noteq> t) (task_command db)\<rparr>)"

definition purge_identity :: "ttl_context \<Rightarrow> string \<Rightarrow> task_row \<Rightarrow> event_key" where
  "purge_identity cx label row =
     [task_id row, label, toISOString (case purge_after row of Some t \<Rightarrow> t | None \<Rightarrow> now (tx_env cx))]"

text \<open>The body of the \<^verbatim>\<open>try\<close> block.\<close>

definition purge_work :: "ttl_context \<Rightarrow> task_row \<Rightarrow> ttl_db \<Rightarrow> err + ttl_db" where
  "purge_work cx row tdb =
     (let at = now (tx_env cx); t = task_id row in
      bind_err (on_events (insert_tombstone at t) tdb) (\<lambda>tdb.
      bind_err (on_tasks (ttl_event at ''purge'' (purge_identity cx ''ttl-purge'' row) row JNull) tdb) (\<lambda>tdb.
      bind_err (on_tasks (delete_requests t) tdb) (\<lambda>tdb.
      let tdb = delete_records t tdb in
      bind_err (on_tasks (delete_commands t) tdb) (\<lambda>tdb.
      bind_err (on_tasks (delete_admission t) tdb) (\<lambda>tdb.
      on_tasks (delete_task t) tdb))))))"

text \<open>After a failed statement the transaction is aborted, so that giving back the lease in the \<^verbatim>\<open>finally\<close> block fails as
  well, and its error replaces the first one.\<close>

definition aborted :: "err \<Rightarrow> err" where
  "aborted e = (case e of
     DbConstraint _ \<Rightarrow> Error ''current transaction is aborted, commands ignored until end of transaction block''
   | _ \<Rightarrow> e)"

definition purge_one :: "ttl_context \<Rightarrow> int \<Rightarrow> task_row \<Rightarrow> (nat \<times> nat) \<times> ttl_db \<Rightarrow> err + ((nat \<times> nat) \<times> ttl_db)" where
  "purge_one cx leaseMs row = (\<lambda>((purged, blocked), tdb).
     let at = now (tx_env cx); t = task_id row; k = recovery_lease_key t; owner = tx_ownerId cx t in
     case claim_lease (tx_env cx) k owner leaseMs (ttl_tasks tdb) of
       (False, _) \<Rightarrow>
         bind_err (on_tasks (ttl_event at ''blocked'' (purge_identity cx ''ttl-blocked'' row) row (JStr ''RECOVERY_LEASE_HELD'')) tdb) (\<lambda>tdb.
         Inr ((purged, blocked + 1), tdb))
     | (True, d) \<Rightarrow>
         (case purge_work cx row (tdb\<lparr>ttl_events := (ttl_events tdb)\<lparr>task_store := d\<rparr>\<rparr>) of
            Inl e \<Rightarrow> Inl (aborted e)
          | Inr tdb \<Rightarrow>
              bind_err (on_tasks (\<lambda>d. Inr (release_lease k owner d)) tdb) (\<lambda>tdb. Inr ((purged + 1, blocked), tdb))))"

section \<open>Bindings and tombstones that are not needed any more\<close>

text \<open>A task is still referred to by the relations of an event that has not expired, or by a projection that has not.\<close>

definition still_related :: "instant \<Rightarrow> string \<Rightarrow> string \<Rightarrow> event_db \<Rightarrow> bool" where
  "still_related at p t edb =
     list_ex (\<lambda>r. rl_provider_id r = p \<and> rl_task_id r = t \<and>
       list_ex (\<lambda>e. event_key e = relation_event r \<and> at < be_expires_at e) (business_events edb)) (relations edb)"

definition still_projected :: "instant \<Rightarrow> string \<Rightarrow> event_db \<Rightarrow> bool" where
  "still_projected at t edb =
     list_ex (\<lambda>i. pt_task_id i = t \<and>
       list_ex (\<lambda>j. pj_token_hash j = pt_token_hash i \<and> at < pj_expires_at j) (projections edb)) (projection_items edb)"

definition delete_bindings :: "instant \<Rightarrow> event_db \<Rightarrow> err + event_db" where
  "delete_bindings at edb =
     bind_err (checked ((task_store edb)\<lparr>resource_binding := filter (\<lambda>b. \<not> (rb_retain_until b \<le> at \<and>
       \<not> still_related at (rb_provider_id b) (rb_task_id b) edb \<and> \<not> still_projected at (rb_task_id b) edb))
       (resource_binding (task_store edb))\<rparr>)) (\<lambda>d. Inr (edb\<lparr>task_store := d\<rparr>))"

definition delete_tombstones :: "instant \<Rightarrow> event_db \<Rightarrow> err + event_db" where
  "delete_tombstones at edb =
     event_checked (edb\<lparr>tombstones := filter (\<lambda>t. \<not> (tb_retain_until t \<le> at \<and>
       \<not> still_related at (tb_provider_id t) (tb_task_id t) edb \<and> \<not> still_projected at (tb_task_id t) edb)) (tombstones edb)\<rparr>)"

section \<open>The tick\<close>

definition ttl_transaction :: "ttl_context \<Rightarrow> TtlCleanerOptions \<Rightarrow> ttl_db \<Rightarrow> err + (TtlCleanerTickResult \<times> ttl_db)" where
  "ttl_transaction cx opts tdb =
     (let at = now (tx_env cx); n = nat (to_batchSize opts) in
      bind_err (renew_handles cx n (ttl_tasks tdb)) (\<lambda>(renewed, d).
      bind_err (expire_handles cx n (to_purgeGraceMs opts) d) (\<lambda>(expired, d).
      let tdb = tdb\<lparr>ttl_events := (ttl_events tdb)\<lparr>task_store := d\<rparr>\<rparr> in
      bind_err (fold_err (purge_one cx (to_recoveryLeaseMs opts)) (purge_due cx n d) ((0, 0), tdb)) (\<lambda>((purged, blocked), tdb).
      bind_err (on_events (delete_bindings at) tdb) (\<lambda>tdb.
      bind_err (on_events (delete_tombstones at) tdb) (\<lambda>tdb.
      Inr (\<lparr>tr_renewed = renewed, tr_expired = expired, tr_purged = purged, tr_blocked = blocked\<rparr>, tdb)))))))"

text \<open>A tick that throws rolls the transaction back.\<close>

definition ttl_tick :: "ttl_context \<Rightarrow> TtlCleanerOptions \<Rightarrow> ttl_db \<Rightarrow> (err + TtlCleanerTickResult) \<times> ttl_db" where
  "ttl_tick cx opts tdb =
     (case ttl_transaction cx opts tdb of Inl e \<Rightarrow> (Inl e, tdb) | Inr (res, tdb') \<Rightarrow> (Inr res, tdb'))"

end
