(* ===== verification/Event_Inv.thy ===== *)
theory Event_Inv
  imports Event_Streams
begin

text \<open>
  The business event store as a step relation: its methods and whatever the other components do to the tables they share.
  Every method either leaves the streams alone (\<open>same_streams\<close>) or changes them in the way stated by \<open>initialize_effect\<close>,
  \<open>finalize_effect\<close> and \<open>rotate_effect\<close>; the invariant and the progress order of the store follow.
\<close>

section \<open>Constraints and transactions\<close>

lemma event_checked_Inr_iff: "event_checked db = Inr db' \<longleftrightarrow> db' = db \<and> event_schema_ok db"
proof (cases "first_row (\<lambda>(_, ok). \<not> ok) (event_checks db)")
  case None
  then have "list_all snd (event_checks db)" by (fastforce simp: first_row_None_iff list_all_iff)
  with None show ?thesis by (auto simp: event_checked_def event_schema_ok_def)
next
  case (Some x)
  then have "\<not> list_all snd (event_checks db)"
    by (fastforce dest: first_row_SomeD simp: list_all_iff)
  with Some show ?thesis by (auto simp: event_checked_def event_schema_ok_def split: prod.splits)
qed

lemma event_checked_ok: "event_schema_ok db \<Longrightarrow> event_checked db = Inr db"
  by (simp add: event_checked_Inr_iff)

lemma schema_facts:
  assumes "event_schema_ok db"
  shows schema_generation_keys: "distinct (map generation_key (generations db))"
    and schema_generations: "g \<in> set (generations db) \<Longrightarrow> generation_row_ok g"
    and schema_one_current: "distinct (map gn_provider_id (filter (\<lambda>g. gn_status g = G_current) (generations db)))"
    and schema_runtime: "distinct (map rt_provider_id (runtime_state db))"
    and schema_runtime_fkey: "r \<in> set (runtime_state db) \<Longrightarrow> (rt_provider_id r, rt_current_stream_id r) \<in> set (map generation_key (generations db))"
    and schema_events: "e \<in> set (business_events db) \<Longrightarrow> event_row_ok e"
    and schema_event_fkey: "e \<in> set (business_events db) \<Longrightarrow> event_stream e \<in> set (map generation_key (generations db))"
    and schema_event_keys: "distinct (map (\<lambda>e. (be_provider_id e, be_event_id e)) (business_events db))"
    and schema_source_keys: "distinct (map source_key (source_states db))"
    and schema_sources: "s \<in> set (source_states db) \<Longrightarrow> source_row_ok s"
    and schema_inbox_ids: "distinct (map bx_inbox_id (event_inbox db))"
    and schema_inbox_events: "distinct (inbox_event_keys (event_inbox db))"
    and schema_inbox_sequences: "distinct (inbox_sequence_keys (event_inbox db))"
    and schema_relation_fkey: "q \<in> set (relations db) \<Longrightarrow> relation_event q \<in> set (map event_key (business_events db))"
    and schema_relation_keys: "distinct (map (\<lambda>r. (relation_event r, rl_task_id r)) (relations db))"
    and schema_continuity_fkey: "c \<in> set (continuity_records db) \<Longrightarrow>
      (co_provider_id c, co_previous_stream_id c) \<in> set (map generation_key (generations db))"
    and schema_item_keys: "distinct (map (\<lambda>i. (pt_token_hash i, pt_task_id i)) (projection_items db))"
  using assms unfolding event_schema_ok_def event_checks_def Let_def list.pred_inject snd_conv
  by (simp_all add: list_all_iff)

text \<open>Columns no constraint mentions.\<close>

lemma schema_unconstrained [simp]:
  "event_schema_ok (db\<lparr>audit_deliveries := a\<rparr>) = event_schema_ok db"
  "event_schema_ok (db\<lparr>task_store := t\<rparr>) = event_schema_ok db"
  "event_schema_ok (db\<lparr>next_inbox_id := n\<rparr>) = event_schema_ok db"
  by (simp_all add: event_schema_ok_def event_checks_def Let_def)

lemma schema_empty: "event_schema_ok empty_event_db"
  by (simp add: event_schema_ok_def event_checks_def empty_event_db_def inbox_event_keys_def inbox_sequence_keys_def)

lemma schema_update_sources:
  assumes "event_schema_ok db" "\<And>s. P s \<Longrightarrow> source_key (f s) = source_key s"
    "\<And>s. P s \<Longrightarrow> source_row_ok s \<Longrightarrow> source_row_ok (f s)"
  shows "event_schema_ok (update_sources P f db)"
proof -
  have keys: "map source_key (update_rows P f (source_states db)) = map source_key (source_states db)"
    using assms(2) by (rule map_update_rows)
  have rows: "list_all source_row_ok (update_rows P f (source_states db))"
    using assms(3) schema_sources [OF assms(1)] by (auto simp: list_all_iff elim!: in_set_update_rowsE)
  have keys2: "source_key ` set (update_rows P f (source_states db)) = source_key ` set (source_states db)"
    using keys by (metis list.set_map)
  show ?thesis
    using assms(1) rows keys keys2
    by (simp add: event_schema_ok_def event_checks_def Let_def update_sources_def)
qed

lemma transaction_cases:
  obtains "snd (transaction db m) = db" | r where "m = Inr (r, snd (transaction db m))"
  by (cases m) (auto simp: transaction_def split: prod.splits)

lemma capture_Inr: "capture env input db = Inr db' \<Longrightarrow> \<exists>a. db' = db\<lparr>audit_deliveries := a\<rparr>"
proof -
  assume c: "capture env input db = Inr db'"
  show "\<exists>a. db' = db\<lparr>audit_deliveries := a\<rparr>"
  proof (cases "providerOpsRecorder env")
    case None
    with c have "db' = db\<lparr>audit_deliveries := audit_deliveries db\<rparr>" by (simp add: capture_def)
    then show ?thesis ..
  next
    case (Some cx)
    with c show ?thesis by (auto simp: capture_def bind_err_Inr_iff)
  qed
qed

lemma capture_schema: "capture env input db = Inr db' \<Longrightarrow> event_schema_ok db' = event_schema_ok db"
  by (drule capture_Inr) auto

section \<open>Methods that leave the streams alone\<close>

text \<open>The tables that make up the streams.\<close>

definition streams_of :: "event_db \<Rightarrow>
  generation_row list \<times> runtime_row list \<times> generation_source_row list \<times> continuity_row list \<times> event_row list \<times> relation_row list" where
  "streams_of db = (generations db, runtime_state db, generation_sources db, continuity_records db, business_events db, relations db)"

definition same_streams :: "event_db \<Rightarrow> event_db \<Rightarrow> bool" where
  "same_streams db db' = (streams_of db' = streams_of db \<and> (event_schema_ok db \<longrightarrow> event_schema_ok db'))"

interpretation ss: effect same_streams
  by unfold_locales (auto simp: same_streams_def)

lemma same_streams_checked:
  "streams_of db' = streams_of db \<Longrightarrow> keeps same_streams (\<lambda>x. x) db (event_checked db')"
  by (rule keepsI) (simp add: event_checked_Inr_iff same_streams_def)

lemma same_streams_capture: "keeps same_streams (\<lambda>x. x) db (capture env input db)"
proof (rule keepsI)
  fix y
  assume c: "capture env input db = Inr y"
  then obtain a where "y = db\<lparr>audit_deliveries := a\<rparr>" using capture_Inr by blast
  then show "same_streams db y" by (simp add: same_streams_def streams_of_def)
qed

lemma same_streams_transaction:
  assumes "keeps same_streams snd db m"
  shows "same_streams db (snd (transaction db m))"
  using assms by (cases m) (auto simp: transaction_def ss.effect_refl split: prod.splits)

lemma streams_of_updates [simp]:
  "streams_of (update_sources P f db) = streams_of db"
  "streams_of (update_inbox Q g db) = streams_of db"
  "streams_of (db\<lparr>event_inbox := x, next_inbox_id := n\<rparr>) = streams_of db"
  "streams_of (db\<lparr>projections := pj\<rparr>) = streams_of db"
  "streams_of (db\<lparr>projection_items := pt\<rparr>) = streams_of db"
  by (simp_all add: streams_of_def update_sources_def update_inbox_def)

lemmas same_streams_intros =
  same_streams_checked same_streams_capture ss.keeps_bind [where get = "\<lambda>x. x"]

lemma acquire_same: "same_streams db (snd (acquireSourceLease env p s st owner ms db))"
  unfolding acquireSourceLease_def Let_def
  by (rule same_streams_transaction)
    (auto split: option.splits simp: ss.effect_refl intro!: same_streams_intros)

lemma blockSource_same: "keeps same_streams (\<lambda>x. x) db (blockSource lease status code db)"
  unfolding blockSource_def by (intro same_streams_intros) simp

lemma refuse_same: "keeps same_streams snd db (refuse_fact env lease item v reason message db)"
  unfolding refuse_fact_def captureIngestAudit_def
  by (auto simp: ss.effect_refl intro!: same_streams_intros blockSource_same)

lemma insert_inbox_same: "keeps same_streams (\<lambda>x. x) db (insert_inbox x db)"
  unfolding insert_inbox_def by (intro same_streams_intros) simp

lemma accept_same: "keeps same_streams snd db (accept_fact env lease item v retain deadline db)"
  unfolding accept_fact_def captureIngestAudit_def Let_def
  by (auto simp: ss.effect_refl split: option.splits intro!: same_streams_intros insert_inbox_same)

lemma intake_same: "same_streams db (snd (intakeSourceFact env lease item retain deadline db))"
proof (cases "intake_input env lease item")
  case (Inl e)
  then show ?thesis by (simp add: intakeSourceFact_def ss.effect_refl)
next
  case (Inr v)
  show ?thesis
    unfolding intakeSourceFact_def Inr sum.case intake_transaction_def Let_def
    by (rule same_streams_transaction)
      (auto simp: ss.effect_refl intro!: ss.keeps_bind_value refuse_same accept_same)
qed

lemma poison_same: "same_streams db (snd (persistUndecodablePoison env lease hash retain db))"
  unfolding persistUndecodablePoison_def
  by (rule same_streams_transaction)
    (rule ss.keeps_bind_value, auto simp: ss.effect_refl intro!: same_streams_intros insert_inbox_same blockSource_same)

lemma mapping_failed_same: "keeps same_streams snd db (mapping_failed env p state row db)"
  unfolding mapping_failed_def Let_def
  by (auto simp: ss.effect_refl intro!: same_streams_intros)

lemma prepare_same: "same_streams db (snd (prepareNextSourceEvent env p s db))"
  unfolding prepareNextSourceEvent_def Let_def
  by (rule same_streams_transaction)
    (auto simp: ss.effect_refl split: option.splits json.splits intro!: same_streams_intros mapping_failed_same)

lemma insert_item_same: "keeps same_streams (\<lambda>x. x) db (insert_item h x db)"
  unfolding insert_item_def by (cases x) (auto intro!: same_streams_intros)

lemma create_projection_same: "same_streams db (snd (createRelationProjection env token identity ids ttl db))"
proof (cases "hashToken env token")
  case (Inl e)
  then show ?thesis by (simp add: createRelationProjection_def ss.effect_refl)
next
  case (Inr h)
  show ?thesis
    unfolding createRelationProjection_def Inr sum.case
    by (rule same_streams_transaction)
      (rule ss.keeps_bind_value, auto simp: ss.effect_refl intro!: same_streams_intros ss.keeps_fold insert_item_same)
qed

lemma renew_same: "same_streams db (snd (renewSourceLease env lease ms db))"
proof (cases "first_row (held_now env lease) (source_states db)")
  case None
  then show ?thesis by (simp add: renewSourceLease_def ss.effect_refl)
next
  case (Some row)
  have "event_schema_ok db \<Longrightarrow>
      event_schema_ok (update_sources (held_now env lease) (\<lambda>s. s\<lparr>ss_lease_until := Some (clk env + ms)\<rparr>) db)"
    by (erule schema_update_sources) (auto simp: source_row_ok_def held_now_def held_by_def)
  with Some show ?thesis by (simp add: renewSourceLease_def same_streams_def Let_def)
qed

lemma unavailable_same: "same_streams db (snd (markSourceUnavailable lease code db))"
  by (auto simp: markSourceUnavailable_def same_streams_def source_row_ok_def intro!: schema_update_sources)

lemma cleanup_same: "same_streams db (snd (cleanupExpiredRelationProjections env limit locked db))"
proof (cases "limit < 1 \<or> limit > 10000")
  case True
  then show ?thesis by (simp add: cleanupExpiredRelationProjections_def ss.effect_refl)
next
  case False
  have "event_schema_ok db \<Longrightarrow> event_schema_ok
      (db\<lparr>projections := filter (\<lambda>p. pj_token_hash p \<notin> E) (projections db),
          projection_items := filter (\<lambda>i. pt_token_hash i \<notin> E) (projection_items db)\<rparr>)" for E
    by (auto simp: event_schema_ok_def event_checks_def Let_def list_all_iff distinct_map_filter)
  with False show ?thesis
    by (auto simp: cleanupExpiredRelationProjections_def same_streams_def streams_of_def Let_def)
qed

lemma extend_same: "same_streams db (snd (extendVisibilityRetention ms db))"
proof -
  have "event_schema_ok (db\<lparr>task_store := ts,
      tombstones := map (\<lambda>t. t\<lparr>tb_retain_until := max (tb_retain_until t) (f t)\<rparr>) (tombstones db)\<rparr>)"
    if "event_schema_ok db" for ts and f :: "tombstone_row \<Rightarrow> instant"
    using that by (auto simp: event_schema_ok_def event_checks_def Let_def list_all_iff tombstone_row_ok_def comp_def)
  then show ?thesis
    by (simp add: extendVisibilityRetention_def same_streams_def streams_of_def)
qed

section \<open>What the other methods do to the streams\<close>

lemma add_source_effect:
  assumes "add_source p st d db = Inr db'"
  shows "db' = db\<lparr>generation_sources := generation_sources db @ [new_generation_source p st d],
      source_states := source_states db @ [new_source_state p d]\<rparr>"
    and "event_schema_ok db'"
  using assms by (auto simp: add_source_def insert_generation_source_def bind_err_Inr_iff event_checked_Inr_iff)

lemma fold_add_source:
  assumes "fold_err (add_source p st) ds db = Inr db'"
  shows "db' = db\<lparr>generation_sources := generation_sources db @ map (new_generation_source p st) ds,
      source_states := source_states db @ map (new_source_state p) ds\<rparr>"
  using assms
proof (induction ds arbitrary: db)
  case Nil
  then show ?case by simp
next
  case (Cons d ds)
  then obtain db1 where "add_source p st d db = Inr db1" "fold_err (add_source p st) ds db1 = Inr db'"
    by (auto simp: bind_err_Inr_iff)
  with Cons.IH [of db1] add_source_effect(1) show ?case by fastforce
qed

lemma fold_checked_schema:
  assumes "fold_err f xs db = Inr db'" "event_schema_ok db"
    "\<And>x db db'. f x db = Inr db' \<Longrightarrow> event_schema_ok db'"
  shows "event_schema_ok db'"
  using fold_err_invariant [where P = event_schema_ok] assms by metis

lemma initialize_effect:
  assumes "snd (initializeProvider env st p sources ret db) \<noteq> db"
  obtains a where
    "current_generation_row p db = None"
    "snd (initializeProvider env st p sources ret db) =
      db\<lparr>generations := generations db @ [new_generation env p st G_current (classifyContinuity sources) ret],
         runtime_state := runtime_state db @ [\<lparr>rt_provider_id = p, rt_current_stream_id = st, rt_generation_version = 1\<rparr>],
         generation_sources := generation_sources db @ map (new_generation_source p st) (sort_key sd_sourceId sources),
         source_states := source_states db @ map (new_source_state p) (sort_key sd_sourceId sources),
         audit_deliveries := a\<rparr>"
    "event_schema_ok (snd (initializeProvider env st p sources ret db))"
proof -
  let ?g = "new_generation env p st G_current (classifyContinuity sources) ret"
  let ?r = "\<lparr>rt_provider_id = p, rt_current_stream_id = st, rt_generation_version = 1\<rparr>"
  have len: "\<not> (length sources < 1 \<or> length sources > 16)"
    using assms by (auto simp: initializeProvider_def)
  have none: "current_generation_row p db = None"
    using assms len by (cases "current_generation_row p db") (auto simp: initializeProvider_def transaction_def)
  obtain db1 db2 db3 input where
    1: "insert_generation ?g db = Inr db1"
    and 2: "event_checked (db1\<lparr>runtime_state := runtime_state db1 @ [?r]\<rparr>) = Inr db2"
    and 3: "fold_err (add_source p st) (sort_key sd_sourceId sources) db2 = Inr db3"
    and 4: "capture env input db3 = Inr (snd (initializeProvider env st p sources ret db))"
    using assms len none
    by (rule_tac transaction_cases) (auto simp: initializeProvider_def Let_def bind_err_Inr_iff transaction_def split: sum.splits)
  from capture_Inr [OF 4] obtain a where
    a: "snd (initializeProvider env st p sources ret db) = db3\<lparr>audit_deliveries := a\<rparr>" ..
  have "event_schema_ok db3"
    using 2 by (intro fold_checked_schema [OF 3 _ add_source_effect(2)]) (auto simp: event_checked_Inr_iff)
  with a 1 2 fold_add_source [OF 3] none show thesis
    by (intro that [of a]) (auto simp: insert_generation_def event_checked_Inr_iff)
qed

definition relation_of :: "event_row \<Rightarrow> nat \<times> string \<Rightarrow> relation_row" where
  "relation_of e x = \<lparr>rl_provider_id = be_provider_id e, rl_stream_id = be_stream_id e, rl_event_id = be_event_id e,
     rl_task_id = snd x, rl_ordinal = fst x\<rparr>"

lemma fold_insert_relation:
  assumes "fold_err (insert_relation e) xs db = Inr db'"
  shows "db' = db\<lparr>relations := relations db @ map (relation_of e) xs\<rparr>"
  using assms
proof (induction xs arbitrary: db)
  case Nil
  then show ?case by simp
next
  case (Cons x xs)
  then obtain db1 where "insert_relation e x db = Inr db1" "fold_err (insert_relation e) xs db1 = Inr db'"
    by (auto simp: bind_err_Inr_iff)
  with Cons.IH [of db1] show ?case
    by (cases x) (auto simp: insert_relation_def relation_of_def event_checked_Inr_iff)
qed

text \<open>The database after a publication, apart from the audit.\<close>

definition published_db :: "event_env \<Rightarrow> event_inbox_row \<Rightarrow> json_object \<Rightarrow> event_row \<Rightarrow> event_db \<Rightarrow> event_db" where
  "published_db env row payload e db =
     (let db = db\<lparr>business_events := business_events db @ [e],
         relations := relations db @ map (relation_of e) (enumerate 0 (candidate_ids payload)),
         generations := update_rows (\<lambda>g. generation_key g = event_stream e) (\<lambda>g. g\<lparr>gn_current_sequence := be_sequence e\<rparr>) (generations db),
         event_inbox := update_rows (\<lambda>x. bx_inbox_id x = bx_inbox_id row)
           (\<lambda>x. x\<lparr>bx_status := X_published, bx_finalized_at := Some (clk env)\<rparr>) (event_inbox db),
         source_states := update_rows (\<lambda>s. source_key s = (be_provider_id e, be_source_id e))
           (\<lambda>s. s\<lparr>ss_last_finalized := be_source_sequence e\<rparr>) (source_states db)\<rparr>
      in if candidate_ids payload \<noteq> [] then extend_bindings (be_provider_id e) (candidate_ids payload) (be_expires_at e) db else db)"

lemma published_db_simps [simp]:
  "business_events (published_db env row payload e db) = business_events db @ [e]"
  "relations (published_db env row payload e db) = relations db @ map (relation_of e) (enumerate 0 (candidate_ids payload))"
  "generations (published_db env row payload e db) =
     update_rows (\<lambda>g. generation_key g = event_stream e) (\<lambda>g. g\<lparr>gn_current_sequence := be_sequence e\<rparr>) (generations db)"
  "event_inbox (published_db env row payload e db) = update_rows (\<lambda>x. bx_inbox_id x = bx_inbox_id row)
     (\<lambda>x. x\<lparr>bx_status := X_published, bx_finalized_at := Some (clk env)\<rparr>) (event_inbox db)"
  "source_states (published_db env row payload e db) =
     update_rows (\<lambda>s. source_key s = (be_provider_id e, be_source_id e)) (\<lambda>s. s\<lparr>ss_last_finalized := be_source_sequence e\<rparr>) (source_states db)"
  "runtime_state (published_db env row payload e db) = runtime_state db"
  "generation_sources (published_db env row payload e db) = generation_sources db"
  "continuity_records (published_db env row payload e db) = continuity_records db"
  by (simp_all add: published_db_def Let_def extend_bindings_def)

lemma publish_row_effect:
  assumes "publish_row env (be_provider_id e) (be_source_id e) (be_stream_id e) row payload e db = Inr (r, db')"
  obtains a where "r = Inr (Some (mapStoredEvent e))" "db' = (published_db env row payload e db)\<lparr>audit_deliveries := a\<rparr>"
    "event_schema_ok db'"
proof -
  let ?ids = "candidate_ids payload"
  obtain db1 db2 db3 db4 db5 input where
    1: "event_checked (db\<lparr>business_events := business_events db @ [e]\<rparr>) = Inr db1"
    and 2: "fold_err (insert_relation e) (enumerate 0 ?ids) db1 = Inr db2"
    and 3: "update_generation (be_provider_id e) (be_stream_id e) (\<lambda>g. g\<lparr>gn_current_sequence := be_sequence e\<rparr>) db2 = Inr db3"
    and 4: "event_checked (update_inbox (\<lambda>x. bx_inbox_id x = bx_inbox_id row)
          (\<lambda>x. x\<lparr>bx_status := X_published, bx_finalized_at := Some (clk env)\<rparr>) db3) = Inr db4"
    and 5: "event_checked (update_sources (\<lambda>s. source_key s = (be_provider_id e, be_source_id e))
          (\<lambda>s. s\<lparr>ss_last_finalized := be_source_sequence e\<rparr>) db4) = Inr db5"
    and 6: "capture env input (if ?ids \<noteq> [] then extend_bindings (be_provider_id e) ?ids (be_expires_at e) db5 else db5) = Inr db'"
    and r: "r = Inr (Some (mapStoredEvent e))"
    using assms unfolding publish_row_def Let_def by (auto simp only: bind_err_Inr_iff sum.inject prod.inject)
  from capture_Inr [OF 6] obtain a where
    a: "db' = (if ?ids \<noteq> [] then extend_bindings (be_provider_id e) ?ids (be_expires_at e) db5 else db5)\<lparr>audit_deliveries := a\<rparr>" ..
  have ok: "event_schema_ok db5" using 5 by (simp add: event_checked_Inr_iff)
  have db5: "db5 = db\<lparr>business_events := business_events db @ [e],
         relations := relations db @ map (relation_of e) (enumerate 0 ?ids),
         generations := update_rows (\<lambda>g. generation_key g = event_stream e) (\<lambda>g. g\<lparr>gn_current_sequence := be_sequence e\<rparr>) (generations db),
         event_inbox := update_rows (\<lambda>x. bx_inbox_id x = bx_inbox_id row)
           (\<lambda>x. x\<lparr>bx_status := X_published, bx_finalized_at := Some (clk env)\<rparr>) (event_inbox db),
         source_states := update_rows (\<lambda>s. source_key s = (be_provider_id e, be_source_id e))
           (\<lambda>s. s\<lparr>ss_last_finalized := be_source_sequence e\<rparr>) (source_states db)\<rparr>"
    using 1 3 4 5 fold_insert_relation [OF 2]
    by (auto simp: event_checked_Inr_iff update_generation_def update_inbox_def update_sources_def)
  show thesis
  proof (rule that [of a])
    show "r = Inr (Some (mapStoredEvent e))" by (rule r)
    show "db' = (published_db env row payload e db)\<lparr>audit_deliveries := a\<rparr>"
      using a db5 by (simp add: published_db_def)
    show "event_schema_ok db'" using a ok by (simp add: extend_bindings_def)
  qed
qed

lemma stored_event_fields:
  assumes "stored_event env p st n ret row payload = Inr e"
  shows "be_provider_id e = p" "be_stream_id e = st" "be_sequence e = n" "be_source_id e = bx_source_id row"
    "be_source_stream_id e = bx_source_stream_id row" "be_candidate_count e = length (candidate_ids payload)"
    "be_scope e = bx_scope row" "be_canonical_hash e = bx_canonical_hash row"
    "be_event_id e = businessEventId (sha256_base64url env) p (bx_source_id row) (bx_source_stream_id row) (be_source_event_id e)"
    "requiredString (obj_get payload ''sourceEventId'') = Inr (be_source_event_id e)"
    "\<exists>t. requiredString (obj_get payload ''sourceSequence'') = Inr t \<and> bigint_in t = Inr (be_source_sequence e)"
    "be_expires_at e = clk env + ret"
  using assms by (auto simp: stored_event_def bind_err_Inr_iff Let_def)

lemma next_inbox_SomeD:
  assumes "next_inbox p s st db = Some row"
  shows "row \<in> set (event_inbox db)" "inbox_of p s st row" "outstanding row"
    "x \<in> set (event_inbox db) \<Longrightarrow> inbox_of p s st x \<Longrightarrow> outstanding x \<Longrightarrow> inbox_order row \<le> inbox_order x"
proof -
  let ?rows = "filter (\<lambda>x. inbox_of p s st x \<and> outstanding x) (event_inbox db)"
  from assms obtain xs where xs: "sort_key inbox_order ?rows = row # xs"
    by (auto simp: next_inbox_def split: list.splits)
  have mem: "set (row # xs) = set ?rows" by (simp only: xs [symmetric] set_sort)
  then have "row \<in> set ?rows" by auto
  then show "row \<in> set (event_inbox db)" "inbox_of p s st row" "outstanding row" by auto
  have "sorted (map inbox_order (row # xs))" by (simp only: xs [symmetric] sorted_sort_key)
  then have least: "\<forall>y \<in> set (row # xs). inbox_order row \<le> inbox_order y" by auto
  assume "x \<in> set (event_inbox db)" "inbox_of p s st x" "outstanding x"
  then have "x \<in> set ?rows" by simp
  with mem have "x \<in> set (row # xs)" by simp
  with least show "inbox_order row \<le> inbox_order x" by blast
qed

lemma find_generation_SomeD:
  "find_generation p st db = Some g \<Longrightarrow> g \<in> set (generations db) \<and> generation_key g = (p, st)"
  by (auto simp: find_generation_def dest: first_row_SomeD)

lemma find_runtime_SomeD: "find_runtime p db = Some r \<Longrightarrow> r \<in> set (runtime_state db) \<and> rt_provider_id r = p"
  by (auto simp: find_runtime_def dest: first_row_SomeD)

lemma find_source_SomeD: "find_source p s db = Some r \<Longrightarrow> r \<in> set (source_states db) \<and> source_key r = (p, s)"
  by (auto simp: find_source_def dest: first_row_SomeD)

lemma finalize_effect:
  assumes run: "finalizeNextSourceEvent env p s ret db = (r, db')" and "db' \<noteq> db \<or> r = Inr (Some ev)"
  obtains runtime g src row payload e a where
    "find_runtime p db = Some runtime" "find_generation p (rt_current_stream_id runtime) db = Some g" "gn_status g = G_current"
    "find_source p s db = Some src" "next_inbox p s (ss_source_stream_id src) db = Some row"
    "bx_payload row = Some payload" "bx_status row = X_ready"
    "stored_event env p (rt_current_stream_id runtime) (gn_current_sequence g + 1) ret row payload = Inr e"
    "r = Inr (Some (mapStoredEvent e))" "db' = (published_db env row payload e db)\<lparr>audit_deliveries := a\<rparr>" "event_schema_ok db'"
proof -
  from assms obtain runtime g src row payload e where
    1: "find_runtime p db = Some runtime" "find_generation p (rt_current_stream_id runtime) db = Some g" "gn_status g = G_current"
      "find_source p s db = Some src" "next_inbox p s (ss_source_stream_id src) db = Some row"
      "bx_payload row = Some payload" "bx_status row = X_ready"
      "stored_event env p (rt_current_stream_id runtime) (gn_current_sequence g + 1) ret row payload = Inr e"
    and 2: "publish_row env p s (rt_current_stream_id runtime) row payload e db = Inr (r, db')"
    by (auto simp: finalizeNextSourceEvent_def transaction_def bind_err_def Let_def
        split: option.splits if_splits sum.splits prod.splits)
  from next_inbox_SomeD(2) [OF 1(5)] have "bx_source_id row = s" by (simp add: inbox_of_def)
  with 2 stored_event_fields [OF 1(8)]
  have "publish_row env (be_provider_id e) (be_source_id e) (be_stream_id e) row payload e db = Inr (r, db')" by simp
  then obtain a where "r = Inr (Some (mapStoredEvent e))" "db' = (published_db env row payload e db)\<lparr>audit_deliveries := a\<rparr>"
      "event_schema_ok db'"
    by (rule publish_row_effect)
  with 1 show thesis using that by blast
qed

text \<open>A rotation: what becomes of the sources is stated by \<open>rotated_sources\<close>.\<close>

fun rotated_sources :: "string \<Rightarrow> BusinessEventSourceDefinition list \<Rightarrow> source_row list \<Rightarrow> source_row list" where
  "rotated_sources p [] rows = rows"
| "rotated_sources p (d # ds) rows = rotated_sources p ds
     (if first_row (\<lambda>s. ss_provider_id s = p \<and> ss_source_id s = sd_sourceId d) rows = None then rows @ [new_source_state p d]
      else update_rows (\<lambda>s. source_key s = (p, sd_sourceId d)) (rejoin_source d) rows)"

lemma rotate_source_effect:
  assumes "rotate_source p st d db = Inr db'"
  shows "db' = db\<lparr>generation_sources := generation_sources db @ [new_generation_source p st d],
      source_states := rotated_sources p [d] (source_states db)\<rparr>"
    and "event_schema_ok db'"
  using assms
  by (auto simp: rotate_source_def upsert_source_def insert_generation_source_def bind_err_Inr_iff event_checked_Inr_iff
      find_source_def update_sources_def split: option.splits)

lemma rotated_sources_append: "rotated_sources p (ds @ es) rows = rotated_sources p es (rotated_sources p ds rows)"
  by (induction ds arbitrary: rows) auto

lemma fold_rotate_source:
  assumes "fold_err (rotate_source p st) ds db = Inr db'"
  shows "db' = db\<lparr>generation_sources := generation_sources db @ map (new_generation_source p st) ds,
      source_states := rotated_sources p ds (source_states db)\<rparr>"
  using assms
proof (induction ds arbitrary: db)
  case Nil
  then show ?case by simp
next
  case (Cons d ds)
  then obtain db1 where 1: "rotate_source p st d db = Inr db1" and 2: "fold_err (rotate_source p st) ds db1 = Inr db'"
    by (auto simp: bind_err_Inr_iff)
  show ?case unfolding Cons.IH [OF 2] rotate_source_effect(1) [OF 1] by simp
qed

definition rotated_db ::
  "event_env \<Rightarrow> rotation_input \<Rightarrow> generation_row \<Rightarrow> BusinessEventSourceDefinition list \<Rightarrow> string list \<Rightarrow> int option \<Rightarrow> event_db \<Rightarrow> event_db" where
  "rotated_db env i previous roster affected lastContinuous db =
     (let p = ri_providerId i; st = ri_newStreamId i in
      db\<lparr>generations := update_rows (\<lambda>g. generation_key g = (p, st)) (\<lambda>g. g\<lparr>gn_status := G_current\<rparr>)
           (update_rows (\<lambda>g. generation_key g = (p, gn_stream_id previous))
             (close_generation env st (ri_reasonCode i) affected lastContinuous (ri_retentionMs i))
             (generations db @ [new_generation env p st G_rotating (classifyContinuity roster) (ri_retentionMs i)])),
         generation_sources := update_rows
           (\<lambda>s. gs_provider_id s = p \<and> gs_runtime_stream_id s = gn_stream_id previous \<and> gs_left_at s = None)
           (left_source (gn_current_sequence previous)) (generation_sources db)
           @ map (new_generation_source p st) (sort_key sd_sourceId roster),
         source_states := rotated_sources p (sort_key sd_sourceId roster)
           (update_rows (\<lambda>s. ss_provider_id s = p \<and> ss_source_id s \<notin> set (map sd_sourceId roster)) disable_source (source_states db)),
         runtime_state := update_rows (\<lambda>r. rt_provider_id r = p)
           (\<lambda>r. r\<lparr>rt_current_stream_id := st, rt_generation_version := rt_generation_version r + 1\<rparr>) (runtime_state db),
         continuity_records := continuity_records db @ [rotation_record env i previous affected lastContinuous],
         event_inbox := update_rows (\<lambda>x. bx_provider_id x = p \<and> bx_source_id x \<in> set affected) (skipped env) (event_inbox db)\<rparr>)"

lemma switch_streams_effect:
  assumes "switch_streams env i previous roster affected lastContinuous db = Inr db'"
  shows "db' = rotated_db env i previous roster affected lastContinuous db" and "event_schema_ok db'"
    and "generation_key (new_generation env (ri_providerId i) (ri_newStreamId i) G_rotating (classifyContinuity roster) (ri_retentionMs i))
      \<notin> set (map generation_key (generations db))"
proof -
  show "event_schema_ok db'"
    using assms by (auto simp: switch_streams_def Let_def bind_err_Inr_iff event_checked_Inr_iff)
  have "event_schema_ok (db\<lparr>generations := generations db @
      [new_generation env (ri_providerId i) (ri_newStreamId i) G_rotating (classifyContinuity roster) (ri_retentionMs i)]\<rparr>)"
    using assms by (auto simp: switch_streams_def Let_def bind_err_Inr_iff event_checked_Inr_iff insert_generation_def)
  from schema_generation_keys [OF this]
  show "generation_key (new_generation env (ri_providerId i) (ri_newStreamId i) G_rotating (classifyContinuity roster) (ri_retentionMs i))
      \<notin> set (map generation_key (generations db))" by simp
  show "db' = rotated_db env i previous roster affected lastContinuous db"
    using assms
    by (auto simp: switch_streams_def Let_def bind_err_Inr_iff event_checked_Inr_iff insert_generation_def update_generation_def
        update_sources_def update_inbox_def rotated_db_def dest!: fold_rotate_source)
qed

lemma rotate_effect:
  assumes "rotateStream env i db = (r, db')" "db' \<noteq> db"
  obtains current previous roster affected lastContinuous a where
    "earlier_rotation (ri_providerId i) (ri_reasonIdentity i) db = None"
    "find_runtime (ri_providerId i) db = Some current"
    "find_generation (ri_providerId i) (rt_current_stream_id current) db = Some previous" "gn_status previous = G_current"
    "lastContinuous = (if gn_continuity_class previous = all_durable then Some (gn_current_sequence previous) else None)"
    "distinct (map sd_sourceId roster)"
    "switch_streams env i previous roster affected lastContinuous db
       = Inr (rotated_db env i previous roster affected lastContinuous db)"
    "r = Inr (mapRotation (rotation_record env i previous affected lastContinuous))"
    "db' = (rotated_db env i previous roster affected lastContinuous db)\<lparr>audit_deliveries := a\<rparr>" "event_schema_ok db'"
proof -
  from assms obtain current previous roster affected lastContinuous db1 where
    1: "earlier_rotation (ri_providerId i) (ri_reasonIdentity i) db = None"
      "find_runtime (ri_providerId i) db = Some current"
      "find_generation (ri_providerId i) (rt_current_stream_id current) db = Some previous" "gn_status previous = G_current"
      "lastContinuous = (if gn_continuity_class previous = all_durable then Some (gn_current_sequence previous) else None)"
      "distinct (map sd_sourceId roster)"
    and 2: "switch_streams env i previous roster affected lastContinuous db = Inr db1"
    and 3: "audit_rotation env i current previous roster affected lastContinuous db1 = Inr db'"
    and r: "r = Inr (mapRotation (rotation_record env i previous affected lastContinuous))"
    by (auto simp: rotateStream_def transaction_def bind_err_def Let_def
        split: option.splits if_splits sum.splits prod.splits)
  from 3 obtain db2 x y where "capture env x db1 = Inr db2" "capture env y db2 = Inr db'"
    by (auto simp: audit_rotation_def Let_def bind_err_Inr_iff)
  then obtain a where "db' = db1\<lparr>audit_deliveries := a\<rparr>" by (auto dest!: capture_Inr)
  with 1 2 r switch_streams_effect(1,2) [OF 2] show thesis using that by auto
qed

end
