(* ===== verification/Event_Steps.thy ===== *)
theory Event_Steps
  imports Event_Inv
begin

text \<open>
  The business event store as a step relation, its invariant and its progress order: what every method, whatever its
  arguments, keeps of the streams, the sources and the inbox.
\<close>

section \<open>Growing tables\<close>

text \<open>A table in which rows are only added (satisfying \<open>Q\<close>) and changed (as \<open>R\<close> allows), never removed.\<close>

definition grows :: "('r \<Rightarrow> 'r \<Rightarrow> bool) \<Rightarrow> ('r \<Rightarrow> bool) \<Rightarrow> 'r list \<Rightarrow> 'r list \<Rightarrow> bool" where
  "grows R Q xs ys = (\<exists>zs ws. ys = zs @ ws \<and> list_all2 R xs zs \<and> (\<forall>w \<in> set ws. Q w))"

lemma list_all2_in1: "list_all2 R xs ys \<Longrightarrow> x \<in> set xs \<Longrightarrow> \<exists>y \<in> set ys. R x y"
  by (induction rule: list_all2_induct) auto

lemma list_all2_in2: "list_all2 R xs ys \<Longrightarrow> y \<in> set ys \<Longrightarrow> \<exists>x \<in> set xs. R x y"
  by (induction rule: list_all2_induct) auto

locale growing =
  fixes R :: "'r \<Rightarrow> 'r \<Rightarrow> bool" and Q :: "'r \<Rightarrow> bool"
  assumes row_refl: "R r r"
    and row_trans: "R r s \<Longrightarrow> R s t \<Longrightarrow> R r t"
    and row_kept: "Q r \<Longrightarrow> R r s \<Longrightarrow> Q s"
begin

lemma grows_refl: "grows R Q xs xs"
  unfolding grows_def by (intro exI [of _ xs] exI [of _ "[]"]) (simp add: list_all2_refl row_refl)

lemma grows_append: "(\<And>w. w \<in> set ws \<Longrightarrow> Q w) \<Longrightarrow> grows R Q xs (xs @ ws)"
  unfolding grows_def by (intro exI [of _ xs] exI [of _ ws]) (simp add: list_all2_refl row_refl)

lemma grows_map:
  assumes "\<And>x. x \<in> set xs \<Longrightarrow> R x (f x)"
  shows "grows R Q xs (map f xs)"
  unfolding grows_def
  by (intro exI [of _ "map f xs"] exI [of _ "[]"]) (simp add: list.rel_map list.rel_refl_strong assms)

lemma grows_update:
  assumes "\<And>x. x \<in> set xs \<Longrightarrow> P x \<Longrightarrow> R x (f x)"
  shows "grows R Q xs (update_rows P f xs)"
  unfolding update_rows_def by (rule grows_map) (simp add: assms row_refl)

lemma grows_trans:
  assumes "grows R Q xs ys" "grows R Q ys zs"
  shows "grows R Q xs zs"
proof -
  from assms obtain a b c d where
    1: "ys = a @ b" "list_all2 R xs a" "\<forall>w \<in> set b. Q w" and 2: "zs = c @ d" "list_all2 R ys c" "\<forall>w \<in> set d. Q w"
    by (auto simp: grows_def)
  from 1 2 obtain c1 c2 where c: "c = c1 @ c2" "list_all2 R a c1" "list_all2 R b c2"
    by (auto simp: list_all2_append1)
  have "list_all2 R xs c1" by (rule list_all2_trans [OF row_trans 1(2) c(2)])
  moreover have "\<forall>w \<in> set (c2 @ d). Q w"
  proof
    fix w
    assume "w \<in> set (c2 @ d)"
    then consider "w \<in> set c2" | "w \<in> set d" by auto
    then show "Q w"
    proof cases
      case 1
      with list_all2_in2 [OF c(3)] obtain x where "x \<in> set b" "R x w" by blast
      with \<open>\<forall>w \<in> set b. Q w\<close> show ?thesis using row_kept by blast
    next
      case 2
      with \<open>\<forall>w \<in> set d. Q w\<close> show ?thesis by blast
    qed
  qed
  ultimately show ?thesis unfolding grows_def
    by (intro exI [of _ c1] exI [of _ "c2 @ d"]) (simp add: 2(1) c(1))
qed

lemma grows_row: "grows R Q xs ys \<Longrightarrow> x \<in> set xs \<Longrightarrow> \<exists>y \<in> set ys. R x y"
  by (fastforce simp: grows_def dest: list_all2_in1)

lemma grows_all: "grows R Q xs ys \<Longrightarrow> (\<And>x. x \<in> set xs \<Longrightarrow> Q x) \<Longrightarrow> y \<in> set ys \<Longrightarrow> Q y"
  by (auto simp: grows_def dest!: list_all2_in2 intro: row_kept)

end

lemma grows_eq: "grows (=) (\<lambda>_. True) xs ys \<longleftrightarrow> (\<exists>ws. ys = xs @ ws)"
  by (auto simp: grows_def list.rel_eq)

section \<open>Sources and inbox\<close>

text \<open>The fencing token of a source never falls, and under one token the lease changes hands at most by being given up.\<close>

definition source_advance :: "source_row \<Rightarrow> source_row \<Rightarrow> bool" where
  "source_advance s s' =
     (source_key s' = source_key s \<and> ss_fencing_token s \<le> ss_fencing_token s' \<and>
      (ss_fencing_token s' = ss_fencing_token s \<longrightarrow> ss_lease_owner s' = ss_lease_owner s \<or> ss_lease_owner s' = None))"

text \<open>The identity of an inbox row and of its payload.\<close>

definition payload_identity :: "event_inbox_row \<Rightarrow> (json option \<times> json option) option" where
  "payload_identity x =
     map_option (\<lambda>p. (obj_get p ''sourceEventId'', obj_get p ''sourceSequence'')) (bx_payload x)"

definition inbox_identity where
  "inbox_identity x = (bx_inbox_id x, inbox_source x, bx_event_id x, bx_sequence x, bx_canonical_hash x, payload_identity x)"

definition inbox_keep :: "event_inbox_row \<Rightarrow> event_inbox_row \<Rightarrow> bool" where
  "inbox_keep x x' = (inbox_identity x' = inbox_identity x)"

definition payload_ok :: "event_inbox_row \<Rightarrow> bool" where
  "payload_ok x =
     (case payload_identity x of None \<Rightarrow> True
      | Some (i, t) \<Rightarrow> i = map_option JStr (bx_event_id x) \<and>
          (\<exists>s n. t = Some (JStr s) \<and> parseBusinessEventSequence s False = Inr n \<and> bx_sequence x = Some n))"

interpretation sources: growing source_advance "\<lambda>_. True"
  by unfold_locales (auto simp: source_advance_def)

interpretation inbox: growing inbox_keep payload_ok
  by unfold_locales (auto simp: inbox_keep_def inbox_identity_def payload_ok_def split: option.splits)

definition source_side :: "event_db \<Rightarrow> event_db \<Rightarrow> bool" where
  "source_side db db' =
     (grows source_advance (\<lambda>_. True) (source_states db) (source_states db') \<and>
      grows inbox_keep payload_ok (event_inbox db) (event_inbox db'))"

interpretation sd: effect source_side
  by unfold_locales
    (auto simp: source_side_def intro: sources.grows_refl inbox.grows_refl sources.grows_trans inbox.grows_trans)

lemma side_checked: "source_side db db' \<Longrightarrow> keeps source_side (\<lambda>x. x) db (event_checked db')"
  by (rule keepsI) (simp add: event_checked_Inr_iff)

lemma side_same: "source_states db' = source_states db \<Longrightarrow> event_inbox db' = event_inbox db \<Longrightarrow> source_side db db'"
  by (simp add: source_side_def sources.grows_refl inbox.grows_refl)

lemma side_capture: "keeps source_side (\<lambda>x. x) db (capture env input db)"
  by (rule keepsI) (auto dest!: capture_Inr intro: side_same)

lemma side_sources: "(\<And>s. P s \<Longrightarrow> source_advance s (f s)) \<Longrightarrow> source_side db (update_sources P f db)"
  by (auto simp: source_side_def update_sources_def intro: sources.grows_update inbox.grows_refl)

lemma side_inbox: "(\<And>x. P x \<Longrightarrow> inbox_keep x (f x)) \<Longrightarrow> source_side db (update_inbox P f db)"
  by (auto simp: source_side_def update_inbox_def intro: inbox.grows_update sources.grows_refl)

lemma side_insert: "(\<And>n. payload_ok (x\<lparr>bx_inbox_id := n\<rparr>)) \<Longrightarrow> keeps source_side (\<lambda>x. x) db (insert_inbox x db)"
  unfolding insert_inbox_def
  by (intro side_checked) (auto simp: source_side_def intro: inbox.grows_append sources.grows_refl)

lemma side_transaction:
  assumes "keeps source_side snd db m"
  shows "source_side db (snd (transaction db m))"
  using assms by (cases m) (auto simp: transaction_def sd.effect_refl split: prod.splits)

lemmas side_intros = side_checked side_capture side_sources side_inbox sd.keeps_bind [where get = "\<lambda>x. x"]

lemma acquire_side: "source_side db (snd (acquireSourceLease env p s st owner ms db))"
  unfolding acquireSourceLease_def Let_def
  by (rule side_transaction)
    (auto split: option.splits simp: sd.effect_refl source_advance_def take_lease_def intro!: side_intros)

lemma renew_side: "source_side db (snd (renewSourceLease env lease ms db))"
  by (auto simp: renewSourceLease_def Let_def sd.effect_refl source_advance_def split: option.splits intro!: side_sources)

lemma unavailable_side: "source_side db (snd (markSourceUnavailable lease code db))"
  by (auto simp: markSourceUnavailable_def source_advance_def intro!: side_sources)

lemma block_side: "keeps source_side (\<lambda>x. x) db (blockSource lease status code db)"
  unfolding blockSource_def by (auto simp: source_advance_def intro!: side_intros)

lemma refuse_side: "keeps source_side snd db (refuse_fact env lease item v reason message db)"
  unfolding refuse_fact_def captureIngestAudit_def by (auto simp: sd.effect_refl intro!: side_intros block_side)

lemma fact_payload_identity:
  "payload_identity (fact_inbox_row env lease item v occurred ve retain deadline) =
     Some (Some (JStr (sf_sourceEventId item)), Some (JStr (sf_sourceSequence item)))"
  by (simp add: payload_identity_def fact_inbox_row_def obj_get_set fact_json_def obj_get_def)

lemma fact_payload_ok:
  assumes "parseBusinessEventSequence (sf_sourceSequence item) False = Inr (iv_sequence v)"
  shows "payload_ok ((fact_inbox_row env lease item v occurred ve retain deadline)\<lparr>bx_inbox_id := n\<rparr>)"
proof -
  have "payload_identity ((fact_inbox_row env lease item v occurred ve retain deadline)\<lparr>bx_inbox_id := n\<rparr>) =
      payload_identity (fact_inbox_row env lease item v occurred ve retain deadline)"
    by (simp add: payload_identity_def)
  with assms show ?thesis by (simp add: payload_ok_def fact_payload_identity) (simp add: fact_inbox_row_def)
qed

lemma accept_side:
  assumes "parseBusinessEventSequence (sf_sourceSequence item) False = Inr (iv_sequence v)"
  shows "keeps source_side snd db (accept_fact env lease item v retain deadline db)"
  unfolding accept_fact_def captureIngestAudit_def Let_def
  by (auto simp: sd.effect_refl source_advance_def persisted_source_def split: option.splits
      intro!: side_intros side_insert fact_payload_ok assms)

lemma intake_input_sequence:
  "intake_input env lease item = Inr v \<Longrightarrow> parseBusinessEventSequence (sf_sourceSequence item) False = Inr (iv_sequence v)"
  by (auto simp: intake_input_def bind_err_Inr_iff)

lemma intake_side: "source_side db (snd (intakeSourceFact env lease item retain deadline db))"
proof (cases "intake_input env lease item")
  case (Inl e)
  then show ?thesis by (simp add: intakeSourceFact_def sd.effect_refl)
next
  case (Inr v)
  show ?thesis
    unfolding intakeSourceFact_def Inr sum.case intake_transaction_def Let_def
    by (rule side_transaction)
      (auto simp: sd.effect_refl intro!: sd.keeps_bind_value refuse_side accept_side intake_input_sequence [OF Inr])
qed

lemma poison_side: "source_side db (snd (persistUndecodablePoison env lease hash retain db))"
  unfolding persistUndecodablePoison_def
  by (rule side_transaction)
    (rule sd.keeps_bind_value, auto simp: sd.effect_refl payload_ok_def payload_identity_def poison_row_def
      intro!: side_intros side_insert block_side)

lemma obj_get_spread_other: "k \<notin> fst ` set kvs \<Longrightarrow> obj_get (obj_spread o1 kvs) k = obj_get o1 k"
proof (induction kvs arbitrary: o1)
  case (Cons kv kvs)
  then show ?case by (cases kv) (auto simp: obj_get_set)
qed simp

lemma mark_ready_keep:
  "''sourceEventId'' \<notin> fst ` set extra \<Longrightarrow> ''sourceSequence'' \<notin> fst ` set extra \<Longrightarrow> inbox_keep x (mark_ready env extra x)"
  by (cases "bx_payload x")
    (simp_all add: inbox_keep_def inbox_identity_def payload_identity_def mark_ready_def obj_get_spread_other)

lemma pending_keep:
  "inbox_keep x (x\<lparr>bx_status := st, bx_attempt_count := n, bx_last_attempt_at := t\<rparr>)"
  by (simp add: inbox_keep_def inbox_identity_def payload_identity_def)

lemma mapping_failed_side: "keeps source_side snd db (mapping_failed env p state row db)"
  unfolding mapping_failed_def Let_def
  by (auto simp: sd.effect_refl source_advance_def inbox_keep_def inbox_identity_def payload_identity_def intro!: side_intros)

lemma prepare_side: "source_side db (snd (prepareNextSourceEvent env p s db))"
  unfolding prepareNextSourceEvent_def Let_def
  by (rule side_transaction)
    (auto simp: sd.effect_refl split: option.splits json.splits
      intro!: side_intros mapping_failed_side mark_ready_keep pending_keep)

lemma insert_item_side: "keeps source_side (\<lambda>x. x) db (insert_item h x db)"
  unfolding insert_item_def by (cases x) (auto intro!: side_checked side_same)

lemma create_projection_side: "source_side db (snd (createRelationProjection env token identity ids ttl db))"
proof (cases "hashToken env token")
  case (Inl e)
  then show ?thesis by (simp add: createRelationProjection_def sd.effect_refl)
next
  case (Inr h)
  show ?thesis
    unfolding createRelationProjection_def Inr sum.case
    by (rule side_transaction)
      (rule sd.keeps_bind_value, auto simp: sd.effect_refl intro!: side_intros side_same sd.keeps_fold insert_item_side)
qed

lemma cleanup_side: "source_side db (snd (cleanupExpiredRelationProjections env limit locked db))"
  by (auto simp: cleanupExpiredRelationProjections_def Let_def intro!: side_same)

lemma extend_side: "source_side db (snd (extendVisibilityRetention ms db))"
  by (auto simp: extendVisibilityRetention_def intro!: side_same)

lemma initialize_side: "source_side db (snd (initializeProvider env st p sources ret db))"
proof (cases "snd (initializeProvider env st p sources ret db) = db")
  case False
  then show ?thesis
    by (rule initialize_effect) (auto simp: source_side_def intro: sources.grows_append inbox.grows_refl)
qed (simp add: sd.effect_refl)

lemma finalize_side: "source_side db (snd (finalizeNextSourceEvent env p s ret db))"
proof -
  obtain r db' where run: "finalizeNextSourceEvent env p s ret db = (r, db')" by fastforce
  show ?thesis
  proof (cases "db' = db")
    case False
    then have "db' \<noteq> db \<or> r = Inr (Some undefined)" by simp
    from finalize_effect [OF run this] show ?thesis
    proof cases
      case (1 runtime g src row payload e a)
      then show ?thesis unfolding run
        by (auto simp: source_side_def source_advance_def inbox_keep_def inbox_identity_def payload_identity_def
            intro!: sources.grows_update inbox.grows_update)
    qed
  qed (simp add: run sd.effect_refl)
qed

lemma rotated_sources_grow: "grows source_advance (\<lambda>_. True) rows (rotated_sources p ds rows)"
proof (induction ds arbitrary: rows)
  case Nil
  then show ?case by (simp add: sources.grows_refl)
next
  case (Cons d ds)
  have "grows source_advance (\<lambda>_. True) rows
      (if first_row (\<lambda>s. ss_provider_id s = p \<and> ss_source_id s = sd_sourceId d) rows = None then rows @ [new_source_state p d]
       else update_rows (\<lambda>s. source_key s = (p, sd_sourceId d)) (rejoin_source d) rows)"
    by (auto simp: source_advance_def rejoin_source_def intro: sources.grows_append intro!: sources.grows_update)
  from sources.grows_trans [OF this Cons.IH] show ?case by simp
qed

lemma rotate_side: "source_side db (snd (rotateStream env i db))"
proof -
  obtain r db' where run: "rotateStream env i db = (r, db')" by fastforce
  show ?thesis
  proof (cases "db' = db")
    case False
    from rotate_effect [OF run this] show ?thesis
    proof cases
      case (1 current previous roster affected lastContinuous a)
      have "grows source_advance (\<lambda>_. True) (source_states db)
          (update_rows (\<lambda>s. ss_provider_id s = ri_providerId i \<and> ss_source_id s \<notin> set (map sd_sourceId roster)) disable_source (source_states db))"
        by (rule sources.grows_update) (simp add: source_advance_def disable_source_def)
      from sources.grows_trans [OF this rotated_sources_grow]
      show ?thesis unfolding run 1(9)
        by (auto simp: source_side_def rotated_db_def Let_def skipped_def inbox_keep_def inbox_identity_def payload_identity_def
            intro!: inbox.grows_update)
    qed
  qed (simp add: run sd.effect_refl)
qed

section \<open>Steps\<close>

text \<open>Any method with any arguments, and what other components do to the tables of the task store and to the tombstones.\<close>

inductive event_step :: "event_db \<Rightarrow> event_db \<Rightarrow> bool" where
  step_initialize: "event_step db (snd (initializeProvider env st p sources ret db))"
| step_acquire: "event_step db (snd (acquireSourceLease env p s st owner ms db))"
| step_renew: "event_step db (snd (renewSourceLease env lease ms db))"
| step_intake: "event_step db (snd (intakeSourceFact env lease item retain deadline db))"
| step_poison: "event_step db (snd (persistUndecodablePoison env lease hash retain db))"
| step_prepare: "event_step db (snd (prepareNextSourceEvent env p s db))"
| step_finalize: "event_step db (snd (finalizeNextSourceEvent env p s ret db))"
| step_rotate: "event_step db (snd (rotateStream env i db))"
| step_unavailable: "event_step db (snd (markSourceUnavailable lease code db))"
| step_extend: "event_step db (snd (extendVisibilityRetention ms db))"
| step_project: "event_step db (snd (createRelationProjection env token identity ids ttl db))"
| step_cleanup: "event_step db (snd (cleanupExpiredRelationProjections env limit locked db))"
| step_tasks: "event_schema_ok (db\<lparr>task_store := ts, tombstones := tbs\<rparr>) \<Longrightarrow> event_step db (db\<lparr>task_store := ts, tombstones := tbs\<rparr>)"

lemma event_step_cases:
  assumes "event_step db db'"
  obtains "same_streams db db'"
  | env st p sources ret where "db' = snd (initializeProvider env st p sources ret db)"
  | env p s ret where "db' = snd (finalizeNextSourceEvent env p s ret db)"
  | env i where "db' = snd (rotateStream env i db)"
proof -
  have "same_streams db (db\<lparr>task_store := ts, tombstones := tbs\<rparr>)"
    if "event_schema_ok (db\<lparr>task_store := ts, tombstones := tbs\<rparr>)" for ts tbs
    using that by (simp add: same_streams_def streams_of_def)
  with assms show thesis
    by (cases rule: event_step.cases)
      (auto intro: that acquire_same renew_same intake_same poison_same prepare_same unavailable_same extend_same
        create_projection_same cleanup_same)
qed

lemma event_step_side:
  assumes "event_step db db'"
  shows "source_side db db'"
  using assms
  by (cases rule: event_step.cases)
    (auto intro: acquire_side renew_side intake_side poison_side prepare_side unavailable_side extend_side
      create_projection_side cleanup_side initialize_side finalize_side rotate_side side_same)

section \<open>The invariant\<close>

definition stream_events :: "event_db \<Rightarrow> string \<times> string \<Rightarrow> event_row list" where
  "stream_events db k = filter (\<lambda>e. event_stream e = k) (business_events db)"

text \<open>The events of a stream are numbered from one to its current sequence, in the order of their publication.\<close>

definition gapless :: "event_db \<Rightarrow> bool" where
  "gapless db = (\<forall>g \<in> set (generations db). map be_sequence (stream_events db (generation_key g)) = [1..gn_current_sequence g])"

text \<open>The stream a provider's row names is current, and every current stream is named.\<close>

definition current_named :: "event_db \<Rightarrow> bool" where
  "current_named db =
     ((\<forall>r \<in> set (runtime_state db). \<exists>g \<in> set (generations db).
         generation_key g = (rt_provider_id r, rt_current_stream_id r) \<and> gn_status g = G_current) \<and>
      (\<forall>g \<in> set (generations db). gn_status g = G_current \<longrightarrow>
         (\<exists>r \<in> set (runtime_state db). generation_key g = (rt_provider_id r, rt_current_stream_id r))))"

text \<open>An event has as many relations as it counts.\<close>

definition counted :: "event_db \<Rightarrow> bool" where
  "counted db = (\<forall>e \<in> set (business_events db).
     length (filter (\<lambda>r. relation_event r = event_key e) (relations db)) = be_candidate_count e)"

definition rotations_once :: "event_db \<Rightarrow> bool" where
  "rotations_once db = distinct (map (\<lambda>c. (co_provider_id c, co_reason_identity c)) (continuity_records db))"

definition event_inv :: "event_db \<Rightarrow> bool" where
  "event_inv db =
     (event_schema_ok db \<and> gapless db \<and> current_named db \<and> counted db \<and> rotations_once db \<and>
      (\<forall>x \<in> set (event_inbox db). payload_ok x))"

lemma event_invD:
  assumes "event_inv db"
  shows "event_schema_ok db" "gapless db" "current_named db" "counted db" "rotations_once db"
    "x \<in> set (event_inbox db) \<Longrightarrow> payload_ok x"
  using assms by (auto simp: event_inv_def)

lemma same_streams_inv:
  assumes "same_streams db db'" "source_side db db'" "event_inv db"
  shows "event_inv db'"
proof -
  have "payload_ok x" if "x \<in> set (event_inbox db')" for x
    using inbox.grows_all [of "event_inbox db" "event_inbox db'" x] assms(2,3) that
    by (auto simp: source_side_def event_inv_def)
  with assms(1,3) show ?thesis
    by (auto simp: event_inv_def same_streams_def streams_of_def gapless_def stream_events_def current_named_def counted_def
        rotations_once_def)
qed

text \<open>A new stream has no events.\<close>

lemma fresh_stream_empty:
  assumes "event_schema_ok db" "k \<notin> set (map generation_key (generations db))"
  shows "stream_events db k = []"
  using schema_event_fkey [OF assms(1)] assms(2) by (auto simp: stream_events_def filter_empty_conv)

lemma gapless_append:
  assumes "event_schema_ok db" "gapless db" "generation_key g \<notin> set (map generation_key (generations db))"
    "gn_current_sequence g = 0" "generations db' = generations db @ [g]" "business_events db' = business_events db"
  shows "gapless db'"
  using assms fresh_stream_empty [OF assms(1,3)] by (auto simp: gapless_def stream_events_def)

lemma initialize_inv:
  assumes "event_inv db"
  shows "event_inv (snd (initializeProvider env st p sources ret db))"
proof (cases "snd (initializeProvider env st p sources ret db) = db")
  case False
  let ?db = "snd (initializeProvider env st p sources ret db)"
  let ?g = "new_generation env p st G_current (classifyContinuity sources) ret"
  obtain a where
    none: "current_generation_row p db = None" and
    eff: "?db = db\<lparr>generations := generations db @ [?g],
         runtime_state := runtime_state db @ [\<lparr>rt_provider_id = p, rt_current_stream_id = st, rt_generation_version = 1\<rparr>],
         generation_sources := generation_sources db @ map (new_generation_source p st) (sort_key sd_sourceId sources),
         source_states := source_states db @ map (new_source_state p) (sort_key sd_sourceId sources),
         audit_deliveries := a\<rparr>"
    and ok: "event_schema_ok ?db"
    by (rule initialize_effect [OF False])
  have fresh: "generation_key ?g \<notin> set (map generation_key (generations db))"
    using schema_generation_keys [OF ok] unfolding eff by (auto simp: new_generation_def)
  have "gapless ?db"
    by (rule gapless_append [where g = ?g, OF event_invD(1,2) [OF assms] fresh]) (simp_all add: eff new_generation_def)
  moreover have "current_named ?db"
    using event_invD(3) [OF assms] unfolding current_named_def eff by (fastforce simp: new_generation_def)
  ultimately show ?thesis
    using ok assms unfolding event_inv_def by (simp add: eff counted_def rotations_once_def)
qed (use assms in simp)

lemma upto_snoc: "0 \<le> n \<Longrightarrow> [1..n] @ [n + 1] = [1..n + (1::int)]"
  by (simp add: upto_rec2)

lemma stream_generation:
  assumes "event_schema_ok db" "find_generation p st db = Some g" "h \<in> set (generations db)" "generation_key h = (p, st)"
  shows "h = g"
proof -
  from find_generation_SomeD [OF assms(2)] have "g \<in> set (generations db)" "generation_key g = (p, st)" by auto
  with assms unique_key_rows [OF schema_generation_keys [OF assms(1)]] show ?thesis by simp
qed

lemma publish_gapless:
  assumes ok: "event_schema_ok db" and "gapless db" and g: "find_generation p st db = Some g"
    and e: "event_stream e = (p, st)" "be_sequence e = gn_current_sequence g + 1" and pos: "0 \<le> gn_current_sequence g"
  shows "gapless (published_db env row payload e db)"
  unfolding gapless_def
proof
  fix h
  assume "h \<in> set (generations (published_db env row payload e db))"
  then show "map be_sequence (stream_events (published_db env row payload e db) (generation_key h)) = [1..gn_current_sequence h]"
    unfolding published_db_simps
  proof (elim in_set_update_rowsE)
    assume "h \<in> set (generations db)" "generation_key h \<noteq> event_stream e"
    with \<open>gapless db\<close> show ?thesis by (auto simp: gapless_def stream_events_def)
  next
    fix h0
    assume h0: "h0 \<in> set (generations db)" "generation_key h0 = event_stream e" "h = h0\<lparr>gn_current_sequence := be_sequence e\<rparr>"
    then have "h0 = g" using stream_generation [OF ok g] e(1) by simp
    with h0 \<open>gapless db\<close> e upto_snoc [OF pos] show ?thesis by (auto simp: gapless_def stream_events_def)
  qed
qed

lemma publish_counted:
  assumes ok: "event_schema_ok db" and ok': "event_schema_ok (published_db env row payload e db)" and "counted db"
    and e: "be_candidate_count e = length (candidate_ids payload)"
  shows "counted (published_db env row payload e db)"
proof -
  have new: "event_key e \<notin> set (map event_key (business_events db))"
    using schema_event_keys [OF ok'] by auto
  have none: "filter (\<lambda>r. relation_event r = event_key e) (relations db) = []"
    unfolding filter_empty_conv
  proof
    fix r
    assume r: "r \<in> set (relations db)"
    show "relation_event r \<noteq> event_key e"
    proof
      assume eq: "relation_event r = event_key e"
      from schema_relation_fkey [OF ok r] new show False unfolding eq by (rule notE [rotated])
    qed
  qed
  have all: "filter (\<lambda>r. relation_event r = event_key e) (map (relation_of e) xs) = map (relation_of e) xs" for xs
    by (auto simp: filter_id_conv relation_of_def)
  have other: "filter (\<lambda>r. relation_event r = event_key f) (map (relation_of e) xs) = []"
    if "event_key f \<noteq> event_key e" for f xs
    using that by (auto simp: filter_empty_conv relation_of_def)
  show ?thesis unfolding counted_def
  proof
    fix f
    assume "f \<in> set (business_events (published_db env row payload e db))"
    then consider "f = e" | "f \<in> set (business_events db)" by auto
    then show "length (filter (\<lambda>r. relation_event r = event_key f) (relations (published_db env row payload e db))) = be_candidate_count f"
    proof cases
      case 1
      with none all e show ?thesis by simp
    next
      case 2
      then have "event_key f \<in> set (map event_key (business_events db))" by simp
      with new have "event_key f \<noteq> event_key e" by metis
      with 2 \<open>counted db\<close> other show ?thesis by (simp add: counted_def)
    qed
  qed
qed

lemma step_payloads:
  assumes "source_side db db'" "event_inv db" "x \<in> set (event_inbox db')"
  shows "payload_ok x"
  using inbox.grows_all [of "event_inbox db" "event_inbox db'" x] assms by (auto simp: source_side_def event_inv_def)

lemma generation_pos: "event_inv db \<Longrightarrow> find_generation p st db = Some g \<Longrightarrow> 0 \<le> gn_current_sequence g"
  by (auto dest!: event_invD(1) find_generation_SomeD schema_generations simp: generation_row_ok_def)

text \<open>\<open>gapless\<close> and \<open>current_named\<close> depend on a few columns only.\<close>

lemma gapless_cong:
  assumes "map (\<lambda>g. (generation_key g, gn_current_sequence g)) (generations db') = map (\<lambda>g. (generation_key g, gn_current_sequence g)) (generations db)"
    "business_events db' = business_events db" "gapless db"
  shows "gapless db'"
proof -
  have eq: "gapless d \<longleftrightarrow> (\<forall>(k, n) \<in> set (map (\<lambda>g. (generation_key g, gn_current_sequence g)) (generations d)).
      map be_sequence (stream_events d k) = [1..n])" for d
    by (auto simp: gapless_def)
  show ?thesis using assms unfolding eq by (simp add: stream_events_def)
qed

lemma current_named_cong:
  assumes "map (\<lambda>g. (generation_key g, gn_status g)) (generations db') = map (\<lambda>g. (generation_key g, gn_status g)) (generations db)"
    "runtime_state db' = runtime_state db" "current_named db"
  shows "current_named db'"
proof -
  let ?S = "\<lambda>d. set (map (\<lambda>g. (generation_key g, gn_status g)) (generations d))"
  have eq: "current_named d \<longleftrightarrow>
      (\<forall>r \<in> set (runtime_state d). ((rt_provider_id r, rt_current_stream_id r), G_current) \<in> ?S d) \<and>
      (\<forall>(k, st) \<in> ?S d. st = G_current \<longrightarrow> k \<in> set (map (\<lambda>r. (rt_provider_id r, rt_current_stream_id r)) (runtime_state d)))" for d
    by (auto simp: current_named_def image_iff) (metis | fastforce)+
  show ?thesis using assms unfolding eq by simp
qed

lemma finalize_inv:
  assumes "event_inv db"
  shows "event_inv (snd (finalizeNextSourceEvent env p s ret db))"
proof -
  obtain r db' where run: "finalizeNextSourceEvent env p s ret db = (r, db')" by fastforce
  show ?thesis
  proof (cases "db' = db")
    case False
    then have "db' \<noteq> db \<or> r = Inr (Some undefined)" by simp
    from finalize_effect [OF run this] show ?thesis
    proof cases
      case (1 runtime g src row payload e a)
      let ?pub = "published_db env row payload e db"
      note e = stored_event_fields [OF 1(8)]
      have ok: "event_schema_ok ?pub" using 1(10,11) by simp
      have "gapless ?pub"
        by (rule publish_gapless [OF event_invD(1,2) [OF assms] 1(2)]) (simp_all add: e generation_pos [OF assms 1(2)])
      moreover have "counted ?pub"
        using event_invD(1) [OF assms] ok event_invD(4) [OF assms] e(6) by (rule publish_counted)
      moreover have "current_named ?pub"
        by (rule current_named_cong [OF _ _ event_invD(3) [OF assms]]) (auto simp: update_rows_def)
      ultimately have "event_inv (?pub\<lparr>audit_deliveries := a\<rparr>)"
        using event_invD(5) [OF assms] ok step_payloads [OF finalize_side assms, of _ env p s ret] 1(10)
        by (simp add: event_inv_def gapless_def stream_events_def counted_def current_named_def rotations_once_def run)
      then show ?thesis by (simp add: run 1(10))
    qed
  qed (simp add: run assms)
qed

text \<open>A rotation closes the previous generation and adds the new one.\<close>

lemma rotated_generations:
  assumes prev: "previous \<in> set (generations db)" "generation_key previous = (ri_providerId i, s)"
    and new: "(ri_providerId i, ri_newStreamId i) \<notin> set (map generation_key (generations db))"
  shows "generations (rotated_db env i previous roster affected lc db) =
    update_rows (\<lambda>h. generation_key h = (ri_providerId i, gn_stream_id previous))
      (close_generation env (ri_newStreamId i) (ri_reasonCode i) affected lc (ri_retentionMs i)) (generations db)
    @ [(new_generation env (ri_providerId i) (ri_newStreamId i) G_rotating (classifyContinuity roster) (ri_retentionMs i))
        \<lparr>gn_status := G_current\<rparr>]"
proof -
  let ?p = "ri_providerId i" and ?st = "ri_newStreamId i"
  let ?X = "update_rows (\<lambda>h. generation_key h = (?p, gn_stream_id previous))
      (close_generation env ?st (ri_reasonCode i) affected lc (ri_retentionMs i)) (generations db)"
  have keys: "map generation_key ?X = map generation_key (generations db)"
    by (rule map_update_rows) (simp add: close_generation_def)
  have old: "generation_key h \<noteq> (?p, ?st)" if "h \<in> set ?X" for h
  proof -
    from that have "generation_key h \<in> set (map generation_key ?X)" unfolding set_map by (rule imageI)
    then show ?thesis using new unfolding keys by metis
  qed
  have "(?p, gn_stream_id previous) \<noteq> (?p, ?st)" using prev new by force
  then show ?thesis
    using update_rows_none [of ?X "\<lambda>h. generation_key h = (?p, ?st)", OF old]
    by (simp add: rotated_db_def Let_def new_generation_def) (simp add: update_rows_def)
qed

lemma rotated_streams:
  assumes ok: "event_schema_ok db" and r: "find_runtime p db = Some current"
    and g: "find_generation p (rt_current_stream_id current) db = Some previous"
    and named: "current_named db" and new: "(p, st) \<notin> set (map generation_key (generations db))"
    and p: "p = ri_providerId i" and st: "st = ri_newStreamId i"
  shows "current_named (rotated_db env i previous roster affected lc db)"
proof -
  let ?db = "rotated_db env i previous roster affected lc db"
  let ?n = "(new_generation env p st G_rotating (classifyContinuity roster) (ri_retentionMs i))\<lparr>gn_status := G_current\<rparr>"
  let ?close = "close_generation env st (ri_reasonCode i) affected lc (ri_retentionMs i)"
  have prev: "previous \<in> set (generations db)" "generation_key previous = (p, rt_current_stream_id current)"
    using find_generation_SomeD [OF g] by auto
  have "generations ?db = update_rows (\<lambda>h. generation_key h = (p, gn_stream_id previous)) ?close (generations db) @ [?n]"
    using rotated_generations prev new unfolding p st by force
  then have gens: "set (generations ?db) = {h \<in> set (generations db). generation_key h \<noteq> generation_key previous}
      \<union> ?close ` {h \<in> set (generations db). generation_key h = generation_key previous} \<union> {?n}"
    using prev(2) by (simp add: set_update_rows)
  have rts: "set (runtime_state ?db) = {q \<in> set (runtime_state db). rt_provider_id q \<noteq> p}
      \<union> (\<lambda>q. q\<lparr>rt_current_stream_id := st, rt_generation_version := rt_generation_version q + 1\<rparr>) `
        {q \<in> set (runtime_state db). rt_provider_id q = p}"
    by (simp add: rotated_db_def Let_def p st set_update_rows)
  have cur: "current \<in> set (runtime_state db)" "rt_provider_id current = p" using find_runtime_SomeD [OF r] by auto
  have nkey: "generation_key ?n = (p, st)" "gn_status ?n = G_current" by (simp_all add: new_generation_def)
  show ?thesis unfolding current_named_def
  proof (intro conjI ballI impI)
    fix q
    assume "q \<in> set (runtime_state ?db)"
    then consider "q \<in> set (runtime_state db)" "rt_provider_id q \<noteq> p" | "rt_provider_id q = p" "rt_current_stream_id q = st"
      unfolding rts by auto
    then show "\<exists>h \<in> set (generations ?db). generation_key h = (rt_provider_id q, rt_current_stream_id q) \<and> gn_status h = G_current"
    proof cases
      case 1
      then obtain h where "h \<in> set (generations db)" "generation_key h = (rt_provider_id q, rt_current_stream_id q)" "gn_status h = G_current"
        using named by (auto simp: current_named_def)
      with 1 prev show ?thesis unfolding gens by (intro bexI [of _ h]) auto
    next
      case 2
      with nkey show ?thesis unfolding gens by (intro bexI [of _ ?n]) auto
    qed
  next
    fix h
    assume h: "h \<in> set (generations ?db)" and curr: "gn_status h = G_current"
    from h consider "h = ?n" | "h \<in> set (generations db)" "generation_key h \<noteq> generation_key previous"
      using curr unfolding gens by (auto simp: close_generation_def)
    then show "\<exists>q \<in> set (runtime_state ?db). generation_key h = (rt_provider_id q, rt_current_stream_id q)"
    proof cases
      case 1
      with cur show ?thesis unfolding rts
        by (intro bexI [of _ "current\<lparr>rt_current_stream_id := st, rt_generation_version := rt_generation_version current + 1\<rparr>"])
          (auto simp: new_generation_def)
    next
      case 2
      then obtain q where q: "q \<in> set (runtime_state db)" "generation_key h = (rt_provider_id q, rt_current_stream_id q)"
        using named curr by (auto simp: current_named_def)
      have "rt_provider_id q \<noteq> p"
      proof
        assume "rt_provider_id q = p"
        then have "q = current" using unique_key_rows [OF schema_runtime [OF ok] q(1) cur(1)] cur(2) by simp
        with q 2 prev cur show False by simp
      qed
      with q show ?thesis unfolding rts by auto
    qed
  qed
qed

lemma earlier_rotation_None:
  "earlier_rotation p i db = None \<longleftrightarrow> (\<forall>c \<in> set (continuity_records db). \<not> (co_provider_id c = p \<and> co_reason_identity c = i))"
proof -
  let ?rows = "filter (\<lambda>c. co_provider_id c = p \<and> co_reason_identity c = i) (continuity_records db)"
  have "earlier_rotation p i db = None \<longleftrightarrow> take 1 (sort_key co_created_at ?rows) = []"
    by (auto simp: earlier_rotation_def order_limit_def split: list.splits)
  also have "\<dots> \<longleftrightarrow> set (sort_key co_created_at ?rows) = {}" by (simp only: set_empty) simp
  also have "\<dots> \<longleftrightarrow> ?rows = []" by (simp only: set_sort set_empty)
  also have "\<dots> \<longleftrightarrow> (\<forall>c \<in> set (continuity_records db). \<not> (co_provider_id c = p \<and> co_reason_identity c = i))"
    by (simp add: filter_empty_conv)
  finally show ?thesis .
qed

lemma rotate_inv:
  assumes inv: "event_inv db"
  shows "event_inv (snd (rotateStream env i db))"
proof -
  obtain r db' where run: "rotateStream env i db = (r, db')" by fastforce
  show ?thesis
  proof (cases "db' = db")
    case False
    from rotate_effect [OF run this] show ?thesis
    proof cases
      case (1 current previous roster affected lc a)
      let ?n = "new_generation env (ri_providerId i) (ri_newStreamId i) G_rotating (classifyContinuity roster) (ri_retentionMs i)"
      let ?db = "rotated_db env i previous roster affected lc db"
      have fresh: "generation_key ?n \<notin> set (map generation_key (generations db))"
        by (rule switch_streams_effect(3) [OF 1(7)])
      have "gapless (db\<lparr>generations := generations db @ [?n]\<rparr>)"
        by (rule gapless_append [OF event_invD(1,2) [OF inv] fresh]) (simp_all add: new_generation_def)
      then have "gapless ?db"
        by (rule gapless_cong [rotated 2])
          (auto simp: rotated_db_def Let_def update_rows_def close_generation_def)
      moreover have "current_named ?db"
        using event_invD(1) [OF inv] 1(2,3) event_invD(3) [OF inv] fresh by (intro rotated_streams) (auto simp: new_generation_def)
      moreover have "counted ?db" using event_invD(4) [OF inv] by (simp add: counted_def rotated_db_def Let_def)
      moreover have "rotations_once ?db"
        using event_invD(5) [OF inv] 1(1)
        by (auto simp: rotations_once_def rotated_db_def Let_def rotation_record_def earlier_rotation_None)
      ultimately have "event_inv (?db\<lparr>audit_deliveries := a\<rparr>)"
        using 1(9,10) step_payloads [OF rotate_side inv, of _ env i]
        by (simp add: event_inv_def gapless_def stream_events_def counted_def current_named_def rotations_once_def run)
      then show ?thesis by (simp add: run 1(9))
    qed
  qed (simp add: run inv)
qed

lemma event_step_inv:
  assumes "event_step db db'" "event_inv db"
  shows "event_inv db'"
  using assms(1)
proof (cases rule: event_step_cases)
  case 1
  then show ?thesis using same_streams_inv event_step_side [OF assms(1)] assms(2) by blast
qed (use assms(2) in \<open>simp_all add: initialize_inv finalize_inv rotate_inv\<close>)

lemma event_inv_empty: "event_inv empty_event_db"
  using schema_empty
  by (simp add: event_inv_def empty_event_db_def gapless_def current_named_def counted_def rotations_once_def)

interpretation es: step_invariant "\<lambda>db. db = empty_event_db" event_step event_inv
  by unfold_locales (auto simp: event_inv_empty intro: event_step_inv)

end
