(* ===== verification/Event_Theorems.thy ===== *)
theory Event_Theorems
  imports Event_Steps
begin

text \<open>
  What holds of the business event store: streams without gaps and with one current generation per provider, leases that
  fence out their former holders, facts taken in once and published in the order of their source, rotations that happen
  once and leave closed streams replayable, and projections that show a caller only what its authorization covers.
\<close>

section \<open>Progress\<close>

definition generation_keep :: "generation_row \<Rightarrow> generation_row \<Rightarrow> bool" where
  "generation_keep g h =
     (generation_key h = generation_key g \<and> gn_current_sequence g \<le> gn_current_sequence h \<and>
      (gn_status g = G_replayable_closed \<longrightarrow> h = g))"

interpretation gens: growing generation_keep "\<lambda>_. True"
  by unfold_locales (auto simp: generation_keep_def)

interpretation log: growing "(=)" "\<lambda>_. True"
  by unfold_locales auto

definition advances :: "event_db \<Rightarrow> event_db \<Rightarrow> bool" where
  "advances db db' =
     (source_side db db' \<and> grows generation_keep (\<lambda>_. True) (generations db) (generations db') \<and>
      grows (=) (\<lambda>_. True) (business_events db) (business_events db') \<and>
      grows (=) (\<lambda>_. True) (continuity_records db) (continuity_records db'))"

lemma same_streams_advances: "same_streams db db' \<Longrightarrow> source_side db db' \<Longrightarrow> advances db db'"
  by (simp add: same_streams_def streams_of_def advances_def gens.grows_refl log.grows_refl)

lemma initialize_advances: "advances db (snd (initializeProvider env st p sources ret db))"
proof (cases "snd (initializeProvider env st p sources ret db) = db")
  case True
  then show ?thesis by (simp add: advances_def sd.effect_refl gens.grows_refl log.grows_refl)
next
  case False
  then show ?thesis
    using initialize_side [of db env st p sources ret]
    by (rule_tac initialize_effect [OF False]) (auto simp: advances_def intro: gens.grows_append log.grows_refl)
qed

lemma finalize_advances:
  assumes "event_inv db"
  shows "advances db (snd (finalizeNextSourceEvent env p s ret db))"
proof -
  obtain r db' where run: "finalizeNextSourceEvent env p s ret db = (r, db')" by fastforce
  show ?thesis
  proof (cases "db' = db")
    case False
    then have "db' \<noteq> db \<or> r = Inr (Some undefined)" by simp
    from finalize_effect [OF run this] show ?thesis
    proof cases
      case (1 runtime g src row payload e a)
      note e = stored_event_fields [OF 1(8)]
      have "generation_keep h (h\<lparr>gn_current_sequence := be_sequence e\<rparr>)"
        if "h \<in> set (generations db)" "generation_key h = event_stream e" for h
        using stream_generation [OF event_invD(1) [OF assms] 1(2) that(1)] that(2) e 1(3) by (simp add: generation_keep_def)
      then show ?thesis
        using finalize_side [of db env p s ret]
        by (auto simp: advances_def run 1(10) intro!: gens.grows_update log.grows_append log.grows_refl)
    qed
  qed (simp add: run advances_def sd.effect_refl gens.grows_refl log.grows_refl)
qed

lemma rotated_grow:
  assumes inv: "event_inv db" and g: "find_generation (ri_providerId i) s db = Some previous" "gn_status previous = G_current"
    and sw: "switch_streams env i previous roster affected lc db = Inr (rotated_db env i previous roster affected lc db)"
  shows "grows generation_keep (\<lambda>_. True) (generations db) (generations (rotated_db env i previous roster affected lc db))"
proof -
  have prev: "previous \<in> set (generations db)" "generation_key previous = (ri_providerId i, s)"
    using find_generation_SomeD [OF g(1)] by auto
  have new: "(ri_providerId i, ri_newStreamId i) \<notin> set (map generation_key (generations db))"
    using switch_streams_effect(3) [OF sw] by (simp add: new_generation_def)
  have "generation_keep h (close_generation env (ri_newStreamId i) (ri_reasonCode i) affected lc (ri_retentionMs i) h)"
    if "h \<in> set (generations db)" "generation_key h = (ri_providerId i, gn_stream_id previous)" for h
    using stream_generation [OF event_invD(1) [OF inv] g(1) that(1)] that(2) prev g(2)
    by (simp add: generation_keep_def close_generation_def)
  from gens.grows_update [of "generations db" _ _, OF this]
  show ?thesis unfolding rotated_generations [OF prev new]
    by (rule gens.grows_trans) (auto intro: gens.grows_append)
qed

lemma rotate_advances:
  assumes "event_inv db"
  shows "advances db (snd (rotateStream env i db))"
proof -
  obtain r db' where run: "rotateStream env i db = (r, db')" by fastforce
  show ?thesis
  proof (cases "db' = db")
    case False
    from rotate_effect [OF run this] show ?thesis
    proof cases
      case (1 current previous roster affected lc a)
      have "business_events (rotated_db env i previous roster affected lc db) = business_events db"
        "continuity_records (rotated_db env i previous roster affected lc db) =
          continuity_records db @ [rotation_record env i previous affected lc]"
        by (simp_all add: rotated_db_def Let_def)
      then show ?thesis
        using rotate_side [of db env i] rotated_grow [OF assms 1(3,4,7)]
        by (auto simp: advances_def run 1(9) intro: log.grows_append log.grows_refl)
    qed
  qed (simp add: run advances_def sd.effect_refl gens.grows_refl log.grows_refl)
qed

lemma event_step_advances:
  assumes "event_step db db'" "event_inv db"
  shows "advances db db'"
  using assms(1)
proof (cases rule: event_step_cases)
  case 1
  then show ?thesis using same_streams_advances event_step_side [OF assms(1)] by blast
qed (use assms(2) in \<open>simp_all add: initialize_advances finalize_advances rotate_advances\<close>)

interpretation ep: step_progress "\<lambda>db db'. event_step db db' \<and> event_inv db" advances
proof
  show "advances s s" for s by (simp add: advances_def sd.effect_refl gens.grows_refl log.grows_refl)
  show "advances s t \<Longrightarrow> advances t u \<Longrightarrow> advances s u" for s t u
    using sd.effect_trans [of s t u] gens.grows_trans [of "generations s" "generations t" "generations u"]
      log.grows_trans [of "business_events s" "business_events t" "business_events u"]
      log.grows_trans [of "continuity_records s" "continuity_records t" "continuity_records u"]
    by (simp add: advances_def)
  show "event_step s t \<and> event_inv s \<Longrightarrow> advances s t" for s t by (simp add: event_step_advances)
qed

lemma event_steps_advance:
  assumes "event_step\<^sup>*\<^sup>* db db'" "event_inv db"
  shows "advances db db'" "event_inv db'"
proof -
  show inv: "event_inv db'" by (rule es.steps_inv [OF assms])
  from assms have "(\<lambda>db db'. event_step db db' \<and> event_inv db)\<^sup>*\<^sup>* db db'"
  proof (induction rule: rtranclp_induct)
    case (step y z)
    have "event_inv y" by (rule es.steps_inv [OF step.hyps(1) assms(2)])
    with step show ?case by (auto intro: rtranclp.rtrancl_into_rtrancl)
  qed simp
  then show "advances db db'" by (rule ep.steps_rel)
qed

abbreviation event_reachable :: "event_db \<Rightarrow> bool" where
  "event_reachable db \<equiv> event_step\<^sup>*\<^sup>* empty_event_db db"

lemma reachable_event_inv: "event_reachable db \<Longrightarrow> event_inv db"
  by (rule es.reachable_inv) simp

section \<open>Streams\<close>

text \<open>C26.  In every reachable state of the event store the events of every stream, current or closed, are numbered 1, 2, ... up to the
  stream's current sequence, without a gap or a repetition and in the order of their publication.\<close>

theorem event_streams_gapless:
  assumes "event_reachable db" "find_generation p st db = Some g"
  shows "map be_sequence (stream_events db (p, st)) = [1..gn_current_sequence g]"
proof -
  from find_generation_SomeD [OF assms(2)] have "g \<in> set (generations db)" "generation_key g = (p, st)" by auto
  then show ?thesis using event_invD(2) [OF reachable_event_inv [OF assms(1)]] by (auto simp: gapless_def)
qed

lemma find_generation_member:
  "event_schema_ok db \<Longrightarrow> g \<in> set (generations db) \<Longrightarrow> find_generation (gn_provider_id g) (gn_stream_id g) db = Some g"
  using first_row_unique [OF schema_generation_keys, of db g] by (simp add: find_generation_def)

lemma single_current:
  assumes "event_inv db" "find_runtime p db = Some r"
  obtains g where "find_generation p (rt_current_stream_id r) db = Some g"
    "filter (\<lambda>g. gn_provider_id g = p \<and> gn_status g = G_current) (generations db) = [g]"
proof -
  have r: "r \<in> set (runtime_state db)" "rt_provider_id r = p" using find_runtime_SomeD [OF assms(2)] by auto
  then obtain g where g: "g \<in> set (generations db)" "gn_provider_id g = p" "gn_stream_id g = rt_current_stream_id r" "gn_status g = G_current"
    using event_invD(3) [OF assms(1)] by (auto simp: current_named_def)
  let ?rows = "filter (\<lambda>g. gn_provider_id g = p \<and> gn_status g = G_current) (generations db)"
  have "distinct (map gn_provider_id (filter (\<lambda>g. gn_status g = G_current) (generations db)))"
    by (rule schema_one_current [OF event_invD(1) [OF assms(1)]])
  then have "distinct (map gn_provider_id (filter (\<lambda>g. gn_provider_id g = p) (filter (\<lambda>g. gn_status g = G_current) (generations db))))"
    by (rule distinct_map_filter)
  then have "distinct (map gn_provider_id ?rows)"
    unfolding filter_filter by (simp only: conj_commute [of "gn_status _ = G_current"])
  moreover have "set (map gn_provider_id ?rows) \<subseteq> {p}" by auto
  ultimately have "length ?rows \<le> 1"
    using card_mono [of "{p}" "set (map gn_provider_id ?rows)"] distinct_card [of "map gn_provider_id ?rows"] by simp
  moreover have "g \<in> set ?rows" using g by simp
  ultimately have "?rows = [g]" by (cases ?rows) auto
  then show thesis
    using that find_generation_member [OF event_invD(1) [OF assms(1)] g(1)] g by auto
qed

text \<open>In every reachable state a provider that has been initialized has exactly one current stream generation; it is the one its runtime
  row names and \<open>currentGeneration\<close> returns, so that no event can be published to two streams.\<close>

theorem one_current_stream:
  assumes "event_reachable db" "find_runtime p db = Some r"
  shows "\<exists>g. filter (\<lambda>g. gn_provider_id g = p \<and> gn_status g = G_current) (generations db) = [g] \<and>
     gn_stream_id g = rt_current_stream_id r \<and> currentGeneration p db = Some (mapGeneration g)"
proof -
  obtain g where g: "find_generation p (rt_current_stream_id r) db = Some g"
    "filter (\<lambda>g. gn_provider_id g = p \<and> gn_status g = G_current) (generations db) = [g]"
    using single_current [OF reachable_event_inv [OF assms(1)] assms(2)] .
  with assms(2) find_generation_SomeD [OF g(1)] show ?thesis
    by (auto simp: currentGeneration_def current_generation_row_def)
qed

lemma filter_upto: "filter (\<lambda>n. a < n \<and> n \<le> b) [i..j] = [max i (a + 1)..min j (b::int)]"
proof (rule sorted_distinct_set_unique)
  show "set (filter (\<lambda>n. a < n \<and> n \<le> b) [i..j]) = set [max i (a + 1)..min j b]" by auto
  show "sorted (filter (\<lambda>n. a < n \<and> n \<le> b) [i..j])" by (rule sorted_wrt_filter) simp
qed simp_all

lemma gapless_replay:
  assumes "map be_sequence (stream_events db (p, st)) = [1..c]"
  shows "map be_sequence (replay_rows p st a b n db) = take n [max 1 (a + 1)..min c b]"
proof -
  let ?rows = "filter (\<lambda>e. event_stream e = (p, st) \<and> a < be_sequence e \<and> be_sequence e \<le> b) (business_events db)"
  have "?rows = filter (\<lambda>e. a < be_sequence e \<and> be_sequence e \<le> b) (stream_events db (p, st))"
    by (simp only: stream_events_def filter_filter conj_commute)
  then have seqs: "map be_sequence ?rows = [max 1 (a + 1)..min c b]"
    using filter_map [of "\<lambda>n. a < n \<and> n \<le> b" be_sequence "stream_events db (p, st)"] assms filter_upto
    by (simp add: comp_def)
  then have "sort_key be_sequence ?rows = ?rows" by (intro sort_key_id_if_sorted) simp
  with seqs show ?thesis by (simp add: replay_rows_def order_limit_def take_map [symmetric])
qed

text \<open>A replay of a stream returns its events with consecutive sequences: exactly those after the given one and up to the given last
  one or the end of the stream, cut off at the limit.  A consumer that asks again after the last event it got misses nothing.\<close>

theorem replay_is_contiguous:
  assumes "event_reachable db" "find_generation p st db = Some g" "0 \<le> limit"
  shows "\<exists>events. replayEvents p st after through limit db = Inr events \<and>
     map fe_sequence events = take (nat limit) [max 1 (after + 1)..min (gn_current_sequence g) through] \<and>
     (\<forall>e \<in> set events. fe_providerId e = p \<and> fe_streamId e = st)"
proof -
  have g: "g \<in> set (generations db)" "generation_key g = (p, st)" using find_generation_SomeD [OF assms(2)] by auto
  then have "map be_sequence (stream_events db (p, st)) = [1..gn_current_sequence g]"
    using event_invD(2) [OF reachable_event_inv [OF assms(1)]] by (auto simp: gapless_def)
  from gapless_replay [OF this]
  have "map be_sequence (replay_rows p st after through (nat limit) db) =
      take (nat limit) [max 1 (after + 1)..min (gn_current_sequence g) through]" .
  moreover have "be_provider_id e = p \<and> be_stream_id e = st" if "e \<in> set (replay_rows p st after through (nat limit) db)" for e
    using that set_order_limit by (fastforce simp: replay_rows_def)
  ultimately show ?thesis using assms(3) by (auto simp: replayEvents_def mapStoredEvent_def comp_def)
qed

section \<open>Leases\<close>

lemma find_source_member:
  "event_schema_ok db \<Longrightarrow> s \<in> set (source_states db) \<Longrightarrow> find_source (ss_provider_id s) (ss_source_id s) db = Some s"
  using first_row_unique [OF schema_source_keys, of db s] by (simp add: find_source_def)

lemma source_after:
  assumes "event_inv db" "event_step\<^sup>*\<^sup>* db db'" "find_source p s db = Some row"
  obtains row' where "find_source p s db' = Some row'" "source_advance row row'"
proof -
  have adv: "advances db db'" "event_inv db'" using event_steps_advance [OF assms(2,1)] by auto
  have row: "row \<in> set (source_states db)" "source_key row = (p, s)" using find_source_SomeD [OF assms(3)] by auto
  from adv(1) have "grows source_advance (\<lambda>_. True) (source_states db) (source_states db')"
    by (simp add: advances_def source_side_def)
  from sources.grows_row [OF this row(1)] obtain row' where r: "row' \<in> set (source_states db')" "source_advance row row'" by blast
  then have "find_source p s db' = Some row'"
    using find_source_member [OF event_invD(1) [OF adv(2)] r(1)] row(2) by (simp add: source_advance_def)
  with r show thesis using that by blast
qed

lemma lease_needs_token:
  assumes "find_source (le_providerId lease) (le_sourceId lease) db = Some row" "ss_fencing_token row \<noteq> le_fencingToken lease"
  shows "lockAndValidateLease env lease db = Inl (Error ''BUSINESS_EVENT_STALE_FENCE'')"
  using assms by (simp add: lockAndValidateLease_def)

lemma not_held:
  assumes "event_schema_ok db" "find_source (le_providerId lease) (le_sourceId lease) db = Some row"
    "ss_fencing_token row \<noteq> le_fencingToken lease" "s \<in> set (source_states db)"
  shows "\<not> held_by lease s"
proof
  assume h: "held_by lease s"
  then have "source_key s = source_key row"
    using find_source_SomeD [OF assms(2)] by (auto simp: held_by_def is_source_def)
  then have "s = row"
    using unique_key_rows [OF schema_source_keys [OF assms(1)] assms(4)] find_source_SomeD [OF assms(2)] by blast
  with h assms(3) show False by (simp add: held_by_def)
qed

lemma acquired_token:
  assumes "event_inv db" "acquireSourceLease env p s st owner ms db = (Inr (Some lease), db')"
  obtains row where "find_source p s db' = Some row" "ss_fencing_token row = le_fencingToken lease"
    "le_providerId lease = p" "le_sourceId lease = s" "ss_lease_owner row = Some owner"
proof -
  from assms(2) obtain previous input db1 where
    prev: "first_row (is_source p s st) (source_states db) = Some previous"
    and upd: "event_checked (update_sources (is_source p s st) (take_lease env owner ms) db) = Inr db1"
    and rest: "db' = db1 \<or> capture env input db1 = Inr db'"
    and lease: "lease = mapLease (take_lease env owner ms previous)"
    by (auto simp: acquireSourceLease_def transaction_def Let_def bind_err_def split: option.splits if_splits sum.splits)
  let ?row = "take_lease env owner ms previous"
  have p: "previous \<in> set (source_states db)" "is_source p s st previous" using first_row_SomeD [OF prev] by auto
  have db1: "db1 = update_sources (is_source p s st) (take_lease env owner ms) db" "event_schema_ok db1"
    using upd by (auto simp: event_checked_Inr_iff)
  then have "?row \<in> set (source_states db1)" using p by (auto simp: update_sources_def set_update_rows)
  then have "find_source p s db1 = Some ?row"
    using find_source_member [OF db1(2)] p(2) by (fastforce simp: take_lease_def is_source_def)
  moreover have "source_states db' = source_states db1" using rest by (auto dest: capture_Inr)
  ultimately have "find_source p s db' = Some ?row" by (simp add: find_source_def)
  then show thesis using that [of ?row] p(2) by (simp add: lease mapLease_def take_lease_def is_source_def)
qed

text \<open>C27.  Once a source's lease has been acquired, every lease of that source with a smaller fencing token is fenced out for good: in any
  later state of the store its holder cannot take in a fact, persist an undecodable one, renew the lease or mark the source, and its
  attempts change nothing.\<close>

theorem stale_lease_fenced:
  assumes "event_reachable db" "acquireSourceLease env p s st owner ms db = (Inr (Some lease), db1)" "event_step\<^sup>*\<^sup>* db1 db2"
    and "le_providerId stale = p" "le_sourceId stale = s" "le_fencingToken stale < le_fencingToken lease"
  shows "(\<exists>e. intakeSourceFact env' stale item retain deadline db2 = (Inl e, db2)) \<and>
    persistUndecodablePoison env' stale hash retain db2 = (Inl (Error ''BUSINESS_EVENT_STALE_FENCE''), db2) \<and>
    renewSourceLease env' stale ms' db2 = (Inl (Error ''BUSINESS_EVENT_STALE_FENCE''), db2) \<and>
    markSourceUnavailable stale code db2 = (Inr (), db2)"
proof -
  have inv: "event_inv db" by (rule reachable_event_inv [OF assms(1)])
  have step: "event_step db db1" using step_acquire [of db env p s st owner ms] assms(2) by simp
  have inv1: "event_inv db1" by (rule event_step_inv [OF step inv])
  obtain row where row: "find_source p s db1 = Some row" "ss_fencing_token row = le_fencingToken lease"
    by (rule acquired_token [OF inv assms(2)])
  obtain row2 where row2: "find_source p s db2 = Some row2" "source_advance row row2"
    by (rule source_after [OF inv1 assms(3) row(1)])
  have inv2: "event_schema_ok db2" by (rule event_invD(1) [OF event_steps_advance(2) [OF assms(3) inv1]])
  have tok: "ss_fencing_token row2 \<noteq> le_fencingToken stale" using row2(2) row(2) assms(6) by (auto simp: source_advance_def)
  have src: "find_source (le_providerId stale) (le_sourceId stale) db2 = Some row2" using row2(1) assms(4,5) by simp
  note lock = lease_needs_token [OF src tok]
  note free = not_held [OF inv2 src tok]
  have "first_row (held_now env' stale) (source_states db2) = None"
    using free by (auto simp: first_row_None_iff held_now_def)
  moreover have "update_sources (held_by stale) f db2 = db2" for f
    unfolding update_sources_def using update_rows_none [of "source_states db2" "held_by stale" f] free by simp
  moreover have "\<exists>e. intakeSourceFact env' stale item retain deadline db2 = (Inl e, db2)"
    by (cases "intake_input env' stale item") (auto simp: intakeSourceFact_def intake_transaction_def transaction_def lock)
  ultimately show ?thesis
    by (simp add: persistUndecodablePoison_def renewSourceLease_def markSourceUnavailable_def transaction_def lock Let_def)
qed

section \<open>Facts\<close>

lemma singleton_list:
  assumes "distinct xs" "x \<in> set xs" "\<And>y. y \<in> set xs \<Longrightarrow> y = x"
  shows "xs = [x]"
proof (cases xs)
  case Nil
  with assms(2) show ?thesis by simp
next
  case (Cons y ys)
  with assms(3) have "y = x" by simp
  moreover have "ys = []"
  proof (cases ys)
    case (Cons z zs)
    with \<open>xs = y # ys\<close> assms(3) [of y] assms(3) [of z] assms(1) show ?thesis by auto
  qed
  ultimately show ?thesis using Cons by simp
qed

text \<open>The hash of a fact depends on the lease only through the source it names, and not on the clocks.\<close>

lemma intake_input_source:
  assumes "sha256 env = sha256 env'" "unicode_nfc env = unicode_nfc env'" "le_providerId l = le_providerId l'" "le_sourceId l = le_sourceId l'" "le_sourceStreamId l = le_sourceStreamId l'"
  shows "intake_input env l item = intake_input env' l' item"
proof -
  have "event_hash env = event_hash env'" by (rule ext) (simp only: event_hash_def assms(1,2))
  moreover have "source_canonical_input l item = source_canonical_input l' item"
    using assms(3-5) by (simp add: fun_eq_iff source_canonical_input_def)
  ultimately show ?thesis by (simp only: intake_input_def source_hash_def assms(2))
qed

lemma inbox_unique:
  assumes "event_schema_ok db" "x \<in> set (event_inbox db)" "y \<in> set (event_inbox db)" "inbox_source x = inbox_source y"
    "bx_event_id x = Some i \<and> bx_event_id y = Some i \<or> bx_sequence x = Some n \<and> bx_sequence y = Some n"
  shows "x = y"
  using assms(5)
proof
  assume "bx_event_id x = Some i \<and> bx_event_id y = Some i"
  with assms unique_key_rows [of "\<lambda>x. (inbox_source x, bx_event_id x)" "filter (\<lambda>x. bx_event_id x \<noteq> None) (event_inbox db)" x y]
    schema_inbox_events [OF assms(1)] show ?thesis by (simp add: inbox_event_keys_def)
next
  assume "bx_sequence x = Some n \<and> bx_sequence y = Some n"
  with assms unique_key_rows [of "\<lambda>x. (inbox_source x, bx_sequence x)" "filter (\<lambda>x. bx_sequence x \<noteq> None) (event_inbox db)" x y]
    schema_inbox_sequences [OF assms(1)] show ?thesis by (simp add: inbox_sequence_keys_def)
qed

definition holds_fact :: "BusinessEventLease \<Rightarrow> BusinessEventSourceFact \<Rightarrow> intake_values \<Rightarrow> event_inbox_row \<Rightarrow> bool" where
  "holds_fact lease item v x =
     (inbox_source x = (le_providerId lease, le_sourceId lease, le_sourceStreamId lease) \<and> exact_duplicate item v x)"

lemma held_fact_is_duplicate:
  assumes ok: "event_schema_ok db" and x: "x \<in> set (event_inbox db)" "holds_fact lease item v x"
  shows "filter (same_identity lease item (iv_sequence v)) (event_inbox db) = [x]"
proof -
  let ?rows = "filter (same_identity lease item (iv_sequence v)) (event_inbox db)"
  have "y = x" if "y \<in> set ?rows" for y
  proof (rule inbox_unique [OF ok _ x(1)])
    show "y \<in> set (event_inbox db)" using that by simp
    show "inbox_source y = inbox_source x" using that x(2) by (auto simp: holds_fact_def same_identity_def inbox_of_def)
    show "bx_event_id y = Some (sf_sourceEventId item) \<and> bx_event_id x = Some (sf_sourceEventId item) \<or>
        bx_sequence y = Some (iv_sequence v) \<and> bx_sequence x = Some (iv_sequence v)"
      using that x(2) by (auto simp: holds_fact_def exact_duplicate_def same_identity_def)
  qed
  moreover have "x \<in> set ?rows" using x by (auto simp: holds_fact_def exact_duplicate_def same_identity_def inbox_of_def)
  moreover have "distinct (event_inbox db)" using schema_inbox_ids [OF ok] by (simp add: distinct_map)
  then have "distinct ?rows" by simp
  ultimately show ?thesis by (intro singleton_list)
qed

lemma received_is_held:
  assumes "intake_input env lease item = Inr v" "intakeSourceFact env lease item retain deadline db = (Inr res, db')"
    "ik_disposition res \<noteq> intake_duplicate"
  obtains x where "x \<in> set (event_inbox db')" "holds_fact lease item v x"
proof -
  from assms have "accept_fact env lease item v retain deadline db = Inr (Inr res, db')"
    by (auto simp: intakeSourceFact_def intake_transaction_def transaction_def Let_def bind_err_def refuse_fact_def split: sum.splits if_splits prod.splits)
  then obtain occurred db1 db2 where
    1: "insert_inbox (fact_inbox_row env lease item v occurred (validateSourceFact item) retain deadline) db = Inr db1"
    and 2: "event_checked (update_sources (held_now env lease) (persisted_source env (iv_sequence v) (validateSourceFact item \<noteq> None)) db1) = Inr db2"
    and 3: "event_inbox db' = event_inbox db2"
    by (auto simp: accept_fact_def Let_def bind_err_Inr_iff captureIngestAudit_def split: option.splits dest!: capture_Inr)
  let ?x = "(fact_inbox_row env lease item v occurred (validateSourceFact item) retain deadline)\<lparr>bx_inbox_id := next_inbox_id db\<rparr>"
  have "?x \<in> set (event_inbox db')"
    using 1 2 3 by (auto simp: insert_inbox_def event_checked_Inr_iff update_sources_def)
  moreover have "holds_fact lease item v ?x"
    by (simp add: holds_fact_def exact_duplicate_def fact_inbox_row_def)
  ultimately show thesis using that by blast
qed

text \<open>C28.  A fact that the store has taken in (as received or as rejected) is recognized as a duplicate whenever it is offered again for the same
  source stream, at any later time and state and under any lease that is valid then: the store does not change and the answer carries the
  hash of the first time.\<close>

theorem fact_taken_in_once:
  assumes "event_reachable db" "intakeSourceFact env lease item retain deadline db = (Inr res, db1)"
    and "ik_disposition res \<noteq> intake_duplicate" "event_step\<^sup>*\<^sup>* db1 db2"
    and "le_providerId lease' = le_providerId lease" "le_sourceId lease' = le_sourceId lease"
    and "le_sourceStreamId lease' = le_sourceStreamId lease"
    and "sha256 env' = sha256 env" "unicode_nfc env' = unicode_nfc env"
    and "lockAndValidateLease env' lease' db2 = Inr state"
  shows "intakeSourceFact env' lease' item retain' deadline' db2 =
    (Inr \<lparr>ik_disposition = intake_duplicate, ik_sourceCanonicalHash = ik_sourceCanonicalHash res\<rparr>, db2)"
proof -
  obtain v where v: "intake_input env lease item = Inr v"
    using assms(2) by (cases "intake_input env lease item") (auto simp: intakeSourceFact_def)
  obtain x where x: "x \<in> set (event_inbox db1)" "holds_fact lease item v x"
    by (rule received_is_held [OF v assms(2,3)])
  have inv1: "event_inv db1"
    using event_step_inv [OF step_intake reachable_event_inv [OF assms(1)], of env lease item retain deadline] assms(2) by simp
  have adv: "advances db1 db2" "event_inv db2" using event_steps_advance [OF assms(4) inv1] by auto
  then have "grows inbox_keep payload_ok (event_inbox db1) (event_inbox db2)" by (simp add: advances_def source_side_def)
  from inbox.grows_row [OF this x(1)] obtain y where y: "y \<in> set (event_inbox db2)" "inbox_keep x y" by blast
  have hy: "holds_fact lease' item v y"
    using x(2) y(2) assms(5-7) by (simp add: holds_fact_def exact_duplicate_def inbox_keep_def inbox_identity_def)
  have v': "intake_input env' lease' item = Inr v" using v intake_input_source [of env env' lease lease' item] assms(5-9) by simp
  have dup: "filter (same_identity lease' item (iv_sequence v)) (event_inbox db2) = [y]"
    by (rule held_fact_is_duplicate [OF event_invD(1) [OF adv(2)] y(1) hy])
  have same: "sf_sourceStreamId item = le_sourceStreamId lease'" "pg_text (sf_sourceEventId item)"
      "ik_sourceCanonicalHash res = iv_sourceHash v"
    using assms(2,3,7) v
    by (auto simp: intakeSourceFact_def intake_transaction_def transaction_def Let_def bind_err_def refuse_fact_def accept_fact_def
        split: sum.splits if_splits prod.splits option.splits)
  show ?thesis
    using hy same by (simp add: intakeSourceFact_def intake_transaction_def v' transaction_def assms(10) dup holds_fact_def)
qed

section \<open>Publication\<close>

lemma payload_sequence:
  assumes "payload_ok row" "bx_payload row = Some payload" "requiredString (obj_get payload ''sourceSequence'') = Inr t"
    "bigint_in t = Inr n"
  shows "bx_sequence row = Some n"
proof -
  from assms(1,2) obtain u m where u: "obj_get payload ''sourceSequence'' = Some (JStr u)"
      "parseBusinessEventSequence u False = Inr m" "bx_sequence row = Some m"
    by (auto simp: payload_ok_def payload_identity_def)
  with assms(3) have "t = u" by (auto simp: requiredString_def split: if_splits)
  with u(2) assms(4) have "m = n"
    by (auto simp: parseBusinessEventSequence_def js_BigInt_def bigint_in_def bind_err_Inr_iff split: if_splits option.splits)
  with u(3) show ?thesis by simp
qed

lemma later_outstanding:
  assumes "event_schema_ok db" "next_inbox p s st db = Some row" "bx_sequence row = Some n"
    and x: "x \<in> set (event_inbox db)" "inbox_of p s st x" "outstanding x" "x \<noteq> row"
  shows "\<exists>m. bx_sequence x = Some m \<and> n < m"
proof -
  note row = next_inbox_SomeD [OF assms(2)]
  from row(4) [OF x(1-3)] have ord: "(Some n, bx_inbox_id row) \<le> (bx_sequence x, bx_inbox_id x)"
    by (simp add: inbox_order_def assms(3))
  show ?thesis
  proof (cases "bx_sequence x")
    case None
    with ord show ?thesis by simp
  next
    case (Some m)
    have "m \<noteq> n"
    proof
      assume "m = n"
      with Some have "x = row"
        using inbox_unique [OF assms(1) x(1) row(1), of undefined n] x(2) row(2) assms(3) by (simp add: inbox_of_def)
      with x(4) show False by simp
    qed
    with Some ord show ?thesis by auto
  qed
qed

text \<open>When the next fact of a source is published it becomes the last event of the provider's current stream, with the next sequence and
  the fact's own source sequence.  It is the least outstanding fact of the source's stream: every other fact not yet published or
  given up has a greater source sequence, and in particular no undecodable fact is passed over.  The fact is marked published, so
  that it is published once.\<close>

theorem published_in_source_order:
  assumes "event_reachable db" "finalizeNextSourceEvent env p s ret db = (Inr (Some ev), db')"
  shows "\<exists>src row e g. find_source p s db = Some src \<and> row \<in> set (event_inbox db) \<and> inbox_of p s (ss_source_stream_id src) row \<and>
    bx_status row = X_ready \<and> bx_sequence row = Some (fe_sourceSequence ev) \<and>
    (\<forall>x \<in> set (event_inbox db). inbox_of p s (ss_source_stream_id src) x \<and> outstanding x \<and> x \<noteq> row \<longrightarrow>
       (\<exists>m. bx_sequence x = Some m \<and> fe_sourceSequence ev < m)) \<and>
    currentGeneration p db = Some g \<and> fe_streamId ev = bg_streamId g \<and> fe_sequence ev = bg_currentSequence g + 1 \<and>
    business_events db' = business_events db @ [e] \<and> ev = mapStoredEvent e \<and>
    (\<exists>x \<in> set (event_inbox db'). bx_inbox_id x = bx_inbox_id row \<and> bx_status x = X_published)"
proof -
  have inv: "event_inv db" by (rule reachable_event_inv [OF assms(1)])
  have "db' \<noteq> db \<or> Inr (Some ev) = (Inr (Some ev) :: err + FinalizedBusinessEvent option)" by simp
  from finalize_effect [OF assms(2) this] show ?thesis
  proof cases
    case (1 runtime g src row payload e a)
    note e = stored_event_fields [OF 1(8)]
    note row = next_inbox_SomeD [OF 1(5)]
    obtain t where t: "requiredString (obj_get payload ''sourceSequence'') = Inr t" "bigint_in t = Inr (be_source_sequence e)"
      using e(11) by blast
    have seq: "bx_sequence row = Some (be_source_sequence e)"
      by (rule payload_sequence [OF event_invD(6) [OF inv row(1)] 1(6) t])
    note later = later_outstanding [OF event_invD(1) [OF inv] 1(5) seq]
    have pub: "row\<lparr>bx_status := X_published, bx_finalized_at := Some (clk env)\<rparr> \<in> set (event_inbox db')"
      using row(1) by (auto simp: 1(10) set_update_rows)
    show ?thesis
    proof (intro exI conjI)
      show "find_source p s db = Some src" by (rule 1(4))
      show "row \<in> set (event_inbox db)" "inbox_of p s (ss_source_stream_id src) row" "bx_status row = X_ready"
        by (rule row 1)+
      show "currentGeneration p db = Some (mapGeneration g)"
        using 1(1,2) by (simp add: currentGeneration_def current_generation_row_def)
      show "ev = mapStoredEvent e" using 1(9) by simp
      then show "bx_sequence row = Some (fe_sourceSequence ev)" using seq by (simp add: mapStoredEvent_def)
      show "business_events db' = business_events db @ [e]" by (simp add: 1(10))
      show "fe_streamId ev = bg_streamId (mapGeneration g)"
        using \<open>ev = mapStoredEvent e\<close> e(2) find_generation_SomeD [OF 1(2)] by (simp add: mapStoredEvent_def mapGeneration_def)
      show "fe_sequence ev = bg_currentSequence (mapGeneration g) + 1"
        using \<open>ev = mapStoredEvent e\<close> e(3) by (simp add: mapStoredEvent_def mapGeneration_def)
      show "\<exists>x \<in> set (event_inbox db'). bx_inbox_id x = bx_inbox_id row \<and> bx_status x = X_published"
        by (rule bexI [OF _ pub]) simp
      show "\<forall>x \<in> set (event_inbox db). inbox_of p s (ss_source_stream_id src) x \<and> outstanding x \<and> x \<noteq> row \<longrightarrow>
          (\<exists>m. bx_sequence x = Some m \<and> fe_sourceSequence ev < m)"
        using later \<open>ev = mapStoredEvent e\<close> by (simp add: mapStoredEvent_def)
    qed
  qed
qed

section \<open>Rotation\<close>

text \<open>The stream a rotation left is closed at the sequence the rotation recorded.\<close>

definition records_closed :: "event_db \<Rightarrow> bool" where
  "records_closed db = (\<forall>c \<in> set (continuity_records db). \<exists>g \<in> set (generations db).
     generation_key g = (co_provider_id c, co_previous_stream_id c) \<and> gn_status g = G_replayable_closed \<and>
     gn_current_sequence g = co_last_replayable c)"

lemma closed_kept:
  assumes "advances db db'" "g \<in> set (generations db)" "gn_status g = G_replayable_closed"
  shows "g \<in> set (generations db')"
proof -
  have "grows generation_keep (\<lambda>_. True) (generations db) (generations db')" using assms(1) by (simp add: advances_def)
  from gens.grows_row [OF this assms(2)] assms(3) show ?thesis by (auto simp: generation_keep_def)
qed

lemma records_closed_kept:
  assumes "advances db db'" "continuity_records db' = continuity_records db" "records_closed db"
  shows "records_closed db'"
  using assms(2,3) closed_kept [OF assms(1)] unfolding records_closed_def by metis

lemma records_closed_rotate:
  assumes inv: "event_inv db" and cl: "records_closed db"
  shows "records_closed (snd (rotateStream env i db))"
proof -
  obtain r db' where run: "rotateStream env i db = (r, db')" by fastforce
  show ?thesis
  proof (cases "db' = db")
    case False
    have adv: "advances db db'" using rotate_advances [OF inv, of env i] by (simp add: run)
    from rotate_effect [OF run False] show ?thesis
    proof cases
      case (1 current previous roster affected lc a)
      let ?close = "close_generation env (ri_newStreamId i) (ri_reasonCode i) affected lc (ri_retentionMs i)"
      have prev: "previous \<in> set (generations db)" "generation_key previous = (ri_providerId i, rt_current_stream_id current)"
        using find_generation_SomeD [OF 1(3)] by auto
      have new: "(ri_providerId i, ri_newStreamId i) \<notin> set (map generation_key (generations db))"
        using switch_streams_effect(3) [OF 1(7)] by (simp add: new_generation_def)
      have recs: "continuity_records db' = continuity_records db @ [rotation_record env i previous affected lc]"
        by (simp add: 1(9) rotated_db_def Let_def)
      have "?close previous \<in> set (generations db')"
        using rotated_generations [OF prev new, of env roster affected lc] prev by (auto simp: 1(9) set_update_rows)
      moreover have "generation_key (?close previous) = (ri_providerId i, gn_stream_id previous)"
          "gn_status (?close previous) = G_replayable_closed" "gn_current_sequence (?close previous) = gn_current_sequence previous"
        using prev(2) by (simp_all add: close_generation_def)
      ultimately have "\<exists>g \<in> set (generations db'). generation_key g = (ri_providerId i, gn_stream_id previous) \<and>
          gn_status g = G_replayable_closed \<and> gn_current_sequence g = gn_current_sequence previous" by blast
      moreover have "\<exists>g \<in> set (generations db'). generation_key g = (co_provider_id c, co_previous_stream_id c) \<and>
          gn_status g = G_replayable_closed \<and> gn_current_sequence g = co_last_replayable c" if "c \<in> set (continuity_records db)" for c
        using cl that closed_kept [OF adv] unfolding records_closed_def by metis
      ultimately show ?thesis by (simp add: run records_closed_def recs rotation_record_def)
    qed
  qed (simp add: run cl)
qed

lemma initialize_records: "continuity_records (snd (initializeProvider env st p sources ret db)) = continuity_records db"
proof (cases "snd (initializeProvider env st p sources ret db) = db")
  case False
  then show ?thesis by (rule initialize_effect) simp
qed simp

lemma records_closed_step:
  assumes "event_step db db'" "event_inv db" "records_closed db"
  shows "records_closed db'"
  using assms(1)
proof (cases rule: event_step_cases)
  case 1
  then show ?thesis
    using records_closed_kept [OF event_step_advances [OF assms(1,2)] _ assms(3)] by (simp add: same_streams_def streams_of_def)
next
  case (2 env st p sources ret)
  have "continuity_records db' = continuity_records db" using 2 initialize_records by simp
  then show ?thesis using records_closed_kept [OF event_step_advances [OF assms(1,2)] _ assms(3)] by blast
next
  case (3 env p s ret)
  have "continuity_records db' = continuity_records db"
  proof (cases "db' = db")
    case False
    obtain r where run: "finalizeNextSourceEvent env p s ret db = (r, db')" using 3 by (metis prod.collapse)
    from False have "db' \<noteq> db \<or> r = Inr (Some undefined)" by simp
    from finalize_effect [OF run this] show ?thesis by cases simp
  qed simp
  then show ?thesis using records_closed_kept [OF event_step_advances [OF assms(1,2)] _ assms(3)] by blast
next
  case (4 env i)
  then show ?thesis using records_closed_rotate [OF assms(2,3)] by simp
qed

lemma records_closed_empty: "records_closed empty_event_db"
  by (simp add: records_closed_def empty_event_db_def)

interpretation rc: step_invariant "\<lambda>db. db = empty_event_db" event_step "\<lambda>db. event_inv db \<and> records_closed db"
  by unfold_locales (auto simp: event_inv_empty records_closed_empty intro: event_step_inv records_closed_step)

lemma earlier_rotation_unique:
  assumes "rotations_once db" "c \<in> set (continuity_records db)"
  shows "earlier_rotation (co_provider_id c) (co_reason_identity c) db = Some c"
proof -
  let ?rows = "filter (\<lambda>d. co_provider_id d = co_provider_id c \<and> co_reason_identity d = co_reason_identity c) (continuity_records db)"
  have "d = c" if "d \<in> set ?rows" for d
    using unique_key_rows [OF assms(1) [unfolded rotations_once_def], of d c] that assms(2) by simp
  moreover have "distinct ?rows" using assms(1) by (simp add: rotations_once_def distinct_map)
  moreover have "c \<in> set ?rows" using assms(2) by simp
  ultimately have "?rows = [c]" by (intro singleton_list)
  then show ?thesis by (simp add: earlier_rotation_def order_limit_def)
qed

lemma rotation_recorded:
  assumes "rotateStream env i db = (Inr res, db')"
  obtains c where "c \<in> set (continuity_records db')" "co_provider_id c = ri_providerId i" "co_reason_identity c = ri_reasonIdentity i"
    "mapRotation c = res"
proof (cases "earlier_rotation (ri_providerId i) (ri_reasonIdentity i) db")
  case (Some c)
  then have "c \<in> set (filter (\<lambda>c. co_provider_id c = ri_providerId i \<and> co_reason_identity c = ri_reasonIdentity i) (continuity_records db))"
    using set_order_limit [of co_created_at 1] by (fastforce simp: earlier_rotation_def split: list.splits)
  moreover have "db' = db" "mapRotation c = res" using Some assms by (auto simp: rotateStream_def transaction_def)
  ultimately show thesis using that by auto
next
  case None
  from assms None obtain current previous roster affected lc db1 where
    2: "switch_streams env i previous roster affected lc db = Inr db1"
    and 3: "audit_rotation env i current previous roster affected lc db1 = Inr db'"
    and r: "res = mapRotation (rotation_record env i previous affected lc)"
    by (auto simp: rotateStream_def transaction_def bind_err_def Let_def split: option.splits if_splits sum.splits prod.splits)
  have "continuity_records db' = continuity_records db1"
    using 3 by (auto simp: audit_rotation_def Let_def bind_err_Inr_iff dest!: capture_Inr)
  also have "\<dots> = continuity_records db @ [rotation_record env i previous affected lc]"
    unfolding switch_streams_effect(1) [OF 2] by (simp add: rotated_db_def Let_def)
  finally show thesis using that [of "rotation_record env i previous affected lc"] r by (simp add: rotation_record_def)
qed

lemma closed_stream_events:
  assumes "event_inv db" "event_inv db'" "advances db db'" "g \<in> set (generations db)" "gn_status g = G_replayable_closed"
  shows "stream_events db' (generation_key g) = stream_events db (generation_key g)"
proof -
  have g': "g \<in> set (generations db')" by (rule closed_kept [OF assms(3-5)])
  have "map be_sequence (stream_events db' (generation_key g)) = map be_sequence (stream_events db (generation_key g))"
    using event_invD(2) [OF assms(1)] event_invD(2) [OF assms(2)] assms(4) g' by (simp add: gapless_def)
  then have "length (stream_events db' (generation_key g)) = length (stream_events db (generation_key g))" by (rule map_eq_imp_length_eq)
  moreover obtain ws where "business_events db' = business_events db @ ws" using assms(3) by (auto simp: advances_def grows_eq)
  ultimately show ?thesis by (simp add: stream_events_def)
qed

text \<open>A rotation for a given reason happens once: repeated in any later state, under the same provider and reason identity, it returns the
  first result and changes nothing.  The stream it left stays closed at the sequence the result names, and its events stay as they
  were, so that a consumer can always replay it to the end.\<close>

theorem rotation_happens_once:
  assumes "event_reachable db" "rotateStream env i db = (Inr res, db1)" "event_step\<^sup>*\<^sup>* db1 db2"
    and "ri_providerId i' = ri_providerId i" "ri_reasonIdentity i' = ri_reasonIdentity i"
  shows "rotateStream env' i' db2 = (Inr res, db2) \<and>
    (\<exists>g. find_generation (ri_providerId i) (ro_previousStreamId res) db2 = Some g \<and> gn_status g = G_replayable_closed \<and>
      gn_current_sequence g = ro_lastReplayableSequence res) \<and>
    stream_events db2 (ri_providerId i, ro_previousStreamId res) = stream_events db1 (ri_providerId i, ro_previousStreamId res)"
proof -
  have step: "event_step db db1" using step_rotate [of db env i] assms(2) by simp
  have "event_reachable db1" using assms(1) step by (rule rtranclp.rtrancl_into_rtrancl)
  then have inv1: "event_inv db1" "records_closed db1" using rc.reachable_inv by auto
  have adv: "advances db1 db2" "event_inv db2" using event_steps_advance [OF assms(3) inv1(1)] by auto
  obtain c where c: "c \<in> set (continuity_records db1)" "co_provider_id c = ri_providerId i" "co_reason_identity c = ri_reasonIdentity i"
      "mapRotation c = res"
    by (rule rotation_recorded [OF assms(2)])
  have c2: "c \<in> set (continuity_records db2)" using c(1) adv(1) by (auto simp: advances_def grows_eq)
  have "earlier_rotation (ri_providerId i') (ri_reasonIdentity i') db2 = Some c"
    using earlier_rotation_unique [OF event_invD(5) [OF adv(2)] c2] c assms(4,5) by simp
  then have again: "rotateStream env' i' db2 = (Inr res, db2)" using c(4) by (simp add: rotateStream_def transaction_def)
  obtain g where g: "g \<in> set (generations db1)" "generation_key g = (co_provider_id c, co_previous_stream_id c)"
      "gn_status g = G_replayable_closed" "gn_current_sequence g = co_last_replayable c"
    using inv1(2) c(1) by (auto simp: records_closed_def)
  have key: "generation_key g = (ri_providerId i, ro_previousStreamId res)" using g(2) c by (auto simp: mapRotation_def)
  have g2: "g \<in> set (generations db2)" by (rule closed_kept [OF adv(1) g(1,3)])
  have "find_generation (ri_providerId i) (ro_previousStreamId res) db2 = Some g"
    using find_generation_member [OF event_invD(1) [OF adv(2)] g2] key by simp
  moreover have "gn_current_sequence g = ro_lastReplayableSequence res" using g(4) c(4) by (auto simp: mapRotation_def)
  moreover have "stream_events db2 (ri_providerId i, ro_previousStreamId res) = stream_events db1 (ri_providerId i, ro_previousStreamId res)"
    using closed_stream_events [OF inv1(1) adv(2,1) g(1,3)] unfolding key .
  ultimately show ?thesis using again g(3) by blast
qed

section \<open>What a caller sees\<close>

lemma related_tasks_distinct: "event_schema_ok db \<Longrightarrow> distinct (related_tasks p st e db)"
proof -
  assume ok: "event_schema_ok db"
  have "distinct (map (\<lambda>r. (relation_event r, rl_task_id r)) (filter (\<lambda>r. relation_event r = (p, st, e)) (relations db)))"
    by (rule distinct_map_filter [OF schema_relation_keys [OF ok]])
  then have "distinct (map rl_task_id (filter (\<lambda>r. relation_event r = (p, st, e)) (relations db)))"
    by (auto simp: distinct_map inj_on_def)
  then show ?thesis by (simp add: related_tasks_def)
qed

lemma candidate_tasks_distinct: "event_schema_ok db \<Longrightarrow> distinct (candidate_tasks e db)"
  by (auto simp: candidate_tasks_def related_tasks_distinct split: option.splits)

lemma find_event_SomeD: "find_event p st i db = Some e \<Longrightarrow> e \<in> set (business_events db) \<and> event_key e = (p, st, i)"
  by (auto simp: find_event_def dest: first_row_SomeD)

text \<open>In a reachable state the relations of a resource event are as many as it counts.\<close>

lemma related_count:
  assumes "event_inv db" "find_event p st i db = Some e" "be_scope e = Some scope_resource"
  shows "length (candidate_tasks e db) = be_candidate_count e"
proof -
  have "e \<in> set (business_events db)" using find_event_SomeD [OF assms(2)] by simp
  with event_invD(4) [OF assms(1)] assms(3) show ?thesis
    unfolding counted_def candidate_tasks_def related_tasks_def by simp
qed

text \<open>The projection of an event that has not expired fails for want of authority only if one of its candidate tasks has neither a row nor a
  tombstone left.\<close>

lemma projection_needs_authority:
  assumes "event_reachable db" "find_event p st i db = Some e"
    "authorizedEventProjection env p st i au db = Inl (Error ''BUSINESS_EVENT_RETENTION_AUTHORITY_INVALID'')"
    "\<And>ids. list_hash env ids \<noteq> Inl (Error ''BUSINESS_EVENT_RETENTION_AUTHORITY_INVALID'')"
  shows "\<exists>t \<in> set (candidate_tasks e db). t \<notin> set (map fst (authorities p db))"
proof (rule ccontr)
  assume "\<not> ?thesis"
  then have "set (candidate_tasks e db) \<inter> set (map fst (authorities p db)) = set (candidate_tasks e db)" by blast
  then have "card (set (candidate_tasks e db) \<inter> set (map fst (authorities p db))) = length (candidate_tasks e db)"
    using distinct_card [OF candidate_tasks_distinct [OF event_invD(1) [OF reachable_event_inv [OF assms(1)]], of e]] by simp
  with assms related_count [OF reachable_event_inv [OF assms(1)] assms(2)] show False
    by (auto simp: authorizedEventProjection_def bind_err_def Let_def split: if_splits sum.splits)
qed

text \<open>C29.  A caller gets an event's projection only while the event has not expired, and the tasks shown are exactly the event's candidate
  tasks whose row or tombstone carries the caller's own authorization, execution mode and simulation; they are listed in ascending order and
  without repetition, and there is at least one.  An event none of whose tasks is the caller's is not shown at all.\<close>

theorem projection_shows_own_tasks:
  assumes "event_reachable db" "authorizedEventProjection env p st i au db = Inr (Some view)"
  shows "\<exists>e. find_event p st i db = Some e \<and> now env < be_expires_at e \<and> ap_event view = mapStoredEvent e \<and>
    set (ap_relatedTaskIds view) = {t \<in> set (candidate_tasks e db). (t, au) \<in> set (authorities p db)} \<and>
    sorted (ap_relatedTaskIds view) \<and> distinct (ap_relatedTaskIds view) \<and> ap_relatedTaskIds view \<noteq> []"
proof -
  from assms(2) obtain e where e: "find_event p st i db = Some e" "now env < be_expires_at e" "ap_event view = mapStoredEvent e"
    and r: "ap_relatedTaskIds view = sort (filter (visible_to p au db) (candidate_tasks e db))" "ap_relatedTaskIds view \<noteq> []"
    by (auto simp: authorizedEventProjection_def bind_err_def Let_def split: option.splits if_splits sum.splits)
  have "distinct (candidate_tasks e db)"
    by (rule candidate_tasks_distinct [OF event_invD(1) [OF reachable_event_inv [OF assms(1)]]])
  with e r show ?thesis by (auto simp: visible_to_def)
qed

lemma projected_tasks_strict:
  assumes "event_schema_ok db"
  shows "sorted (projected_tasks h db)" "distinct (projected_tasks h db)"
proof -
  have "distinct (map (\<lambda>i. (pt_token_hash i, pt_task_id i)) (filter (\<lambda>i. pt_token_hash i = h) (projection_items db)))"
    by (rule distinct_map_filter [OF schema_item_keys [OF assms]])
  then have "distinct (map pt_task_id (filter (\<lambda>i. pt_token_hash i = h) (projection_items db)))"
    by (auto simp: distinct_map inj_on_def)
  then show "distinct (projected_tasks h db)" "sorted (projected_tasks h db)" by (simp_all add: projected_tasks_def)
qed

text \<open>The tasks after the last one of a page are those the page left out.\<close>

lemma greater_than_taken:
  fixes xs :: "'a::linorder list"
  assumes "sorted xs" "distinct xs" "take n xs \<noteq> []"
  shows "filter (\<lambda>t. last (take n xs) < t) xs = drop n xs"
proof -
  have strict: "sorted_wrt (<) (take n xs @ drop n xs)" using assms by (simp add: strict_sorted_iff)
  have "sorted_wrt (<) (butlast (take n xs) @ [last (take n xs)])"
    unfolding append_butlast_last_id [OF assms(3)] using strict by (simp only: sorted_wrt_append)
  then have "\<forall>t \<in> set (butlast (take n xs) @ [last (take n xs)]). \<not> last (take n xs) < t"
    by (auto simp: sorted_wrt_append)
  then have "\<forall>t \<in> set (take n xs). \<not> last (take n xs) < t" unfolding append_butlast_last_id [OF assms(3)] .
  then have 1: "filter (\<lambda>t. last (take n xs) < t) (take n xs) = []" by (simp add: filter_empty_conv)
  have "\<forall>t \<in> set (drop n xs). last (take n xs) < t"
    using strict last_in_set [OF assms(3)] unfolding sorted_wrt_append by blast
  then have 2: "filter (\<lambda>t. last (take n xs) < t) (drop n xs) = drop n xs" by (simp add: filter_id_conv)
  have "filter (\<lambda>t. last (take n xs) < t) (take n xs @ drop n xs) = drop n xs" unfolding filter_append 1 2 by simp
  then show ?thesis by (simp only: append_take_drop_id)
qed

definition after_task :: "string option \<Rightarrow> string \<Rightarrow> bool" where
  "after_task a t = (case a of None \<Rightarrow> True | Some x \<Rightarrow> x < t)"

lemma relation_page_walk:
  fixes a :: "string option" and tasks :: "string list"
  assumes "sorted tasks" "distinct tasks" "0 < n"
  defines "rest \<equiv> filter (after_task a) tasks"
  shows "pp_items (relation_page tasks a n) = take n rest"
    "pp_nextAfterTaskId (relation_page tasks a n) = None \<longrightarrow> take n rest = rest"
    "pp_nextAfterTaskId (relation_page tasks a n) = Some l \<longrightarrow> rest \<noteq> [] \<and> filter (after_task (Some l)) tasks = drop n rest"
proof -
  have eq: "filter (\<lambda>t. case a of None \<Rightarrow> True | Some x \<Rightarrow> x < t) tasks = rest"
    by (simp add: rest_def after_task_def [abs_def])
  show "pp_items (relation_page tasks a n) = take n rest" by (simp add: relation_page_def Let_def eq)
  have rest: "sorted rest" "distinct rest" using assms(1,2) sorted_filter [of "\<lambda>t. t"] by (simp_all add: rest_def)
  have more: "filter (\<lambda>t. last (take n rest) < t) tasks = drop n rest" if "rest \<noteq> []"
  proof -
    have ne: "take n rest \<noteq> []" using that assms(3) by simp
    have "last (take n rest) \<in> set rest" using last_in_set [OF ne] set_take_subset by fast
    then have "after_task a (last (take n rest))" by (simp add: rest_def)
    then have "filter (\<lambda>t. last (take n rest) < t) tasks = filter (\<lambda>t. last (take n rest) < t) rest"
      unfolding rest_def filter_filter by (intro filter_cong) (auto simp: after_task_def split: option.splits)
    then show ?thesis using greater_than_taken [OF rest ne] by simp
  qed
  show "pp_nextAfterTaskId (relation_page tasks a n) = None \<longrightarrow> take n rest = rest"
  proof
    assume none: "pp_nextAfterTaskId (relation_page tasks a n) = None"
    show "take n rest = rest"
    proof (cases "rest = []")
      case False
      with none assms(3) have "\<not> list_ex (\<lambda>t. last (take n rest) < t) tasks"
        by (auto simp: relation_page_def Let_def eq split: if_splits)
      then have "filter (\<lambda>t. last (take n rest) < t) tasks = []" by (simp add: list_ex_iff filter_empty_conv)
      with more [OF False] show ?thesis by simp
    qed simp
  qed
  show "pp_nextAfterTaskId (relation_page tasks a n) = Some l \<longrightarrow> rest \<noteq> [] \<and> filter (after_task (Some l)) tasks = drop n rest"
  proof
    assume some: "pp_nextAfterTaskId (relation_page tasks a n) = Some l"
    then have "rest \<noteq> [] \<and> l = last (take n rest)"
      by (auto simp: relation_page_def Let_def eq split: if_splits)
    moreover have "after_task (Some l) = (\<lambda>t. l < t)" by (simp add: fun_eq_iff after_task_def)
    ultimately show "rest \<noteq> [] \<and> filter (after_task (Some l)) tasks = drop n rest" using more by simp
  qed
qed

text \<open>A page of a relation projection is served only to the authorization the projection was made for, for its own event, and before the
  projection expires.  It holds the next tasks of the projection after the given one, at most as many as asked for; it names no
  continuation only when none is left, and otherwise the continuation goes on exactly where the page ends, so that following the
  continuations visits every projected task once and in order.\<close>

theorem relation_pages_are_complete:
  assumes "event_reachable db" "relationProjectionPage env token expected au after limit db = Inr page"
  defines "tasks \<equiv> projected_tasks (sha256 env token) db"
  defines "rest \<equiv> filter (after_task after) tasks"
  shows "(\<exists>row \<in> set (projections db). pj_token_hash row = sha256 env token \<and> projection_event row = expected \<and>
      now env < pj_expires_at row \<and> pj_authorization_scope_hash row = bz_authorizationScopeHash au \<and>
      pj_execution_mode row = bz_executionMode au \<and> pj_simulation_id row = bz_simulationId au) \<and>
    pp_items page = take (nat limit) rest \<and> pp_total page = length tasks \<and>
    (case pp_nextAfterTaskId page of
       None \<Rightarrow> pp_items page = rest
     | Some l \<Rightarrow> pp_items page \<noteq> [] \<and> filter (after_task (Some l)) tasks = drop (nat limit) rest)"
proof -
  from assms(2) obtain row where row: "first_row (\<lambda>p. pj_token_hash p = sha256 env token) (projections db) = Some row"
      "projection_event row = expected" "now env < pj_expires_at row" "pj_authorization_scope_hash row = bz_authorizationScopeHash au"
      "pj_execution_mode row = bz_executionMode au" "pj_simulation_id row = bz_simulationId au"
    and page: "page = relation_page tasks after (nat limit)" and lim: "0 < nat limit"
    by (auto simp: relationProjectionPage_def hashToken_def bind_err_def Let_def tasks_def
        split: option.splits if_splits sum.splits prod.splits)
  have strict: "sorted tasks" "distinct tasks"
    using projected_tasks_strict [OF event_invD(1) [OF reachable_event_inv [OF assms(1)]]] by (simp_all add: tasks_def)
  note walk = relation_page_walk [OF strict lim, of after]
  have "pp_total page = length tasks" by (simp add: page relation_page_def Let_def)
  with first_row_SomeD [OF row(1)] row(2-) walk lim show ?thesis
    by (auto simp: page rest_def split: option.splits)
qed

end
