(* ===== verification/Ttl_Theorems.thy ===== *)
theory Ttl_Theorems
  imports Ttl_Cleaner Event_Theorems
begin

text \<open>
  What a tick of the TTL cleaner does: exactly the settled tasks whose recovery lease is free are purged, the
  invariants of the task store and of the event store are kept, and a purged task leaves a tombstone that carries its
  authorization as long as an event or a projection still refers to it.
\<close>

section \<open>Scans\<close>

lemma filter_update_eq:
  assumes "\<And>r. r \<in> set tbl \<Longrightarrow> if Q r then \<not> P (f r) \<and> \<not> P' r else P r = P' r"
  shows "filter P (update_rows Q f tbl) = filter P' tbl"
  using assms
proof (induction tbl)
  case (Cons x xs)
  have "filter P (update_rows Q f xs) = filter P' xs" by (rule Cons.IH) (use Cons.prems in auto)
  moreover have "if Q x then \<not> P (f x) \<and> \<not> P' x else P x = P' x" using Cons.prems by simp
  ultimately show ?case by (simp add: update_rows_def split: if_splits)
qed simp

definition same_settlement :: "db \<Rightarrow> db \<Rightarrow> string \<Rightarrow> bool" where
  "same_settlement d d' t =
     (task_command d' = task_command d \<and> admission_intent d' = admission_intent d \<and>
      filter (\<lambda>o1. ox_aggregate_id o1 = t) (outbox_event d') = filter (\<lambda>o1. ox_aggregate_id o1 = t) (outbox_event d))"

lemma purgeable_cong:
  assumes "same_settlement d d' (task_id r)"
  shows "purgeable cx d' r = purgeable cx d r"
proof -
  have *: "list_ex (\<lambda>o1. ox_aggregate_id o1 = t \<and> Q o1) es = list_ex Q (filter (\<lambda>o1. ox_aggregate_id o1 = t) es)" for t Q es
    by (induction es) auto
  show ?thesis using assms by (simp add: purgeable_def same_settlement_def *)
qed

section \<open>Renewal and expiry\<close>

lemma schema_ok_tasks:
  assumes "schema_ok d" "list_all task_row_ok rows" "map task_id rows = map task_id (provider_task d)"
    "execution_keys rows = execution_keys (provider_task d)"
  shows "schema_ok (d\<lparr>provider_task := rows\<rparr>)"
  using assms by (simp add: schema_ok_def schema_checks_def)

lemma execution_keys_update:
  assumes "\<And>r. external_execution_id (f r) = external_execution_id r" "\<And>r. spec (f r) = spec r"
  shows "execution_keys (update_rows P f rows) = execution_keys rows"
  using assms by (induction rows) (auto simp: execution_keys_def update_rows_def)

lemma update_tasks_schema:
  assumes "schema_ok d" "\<And>r. r \<in> set (provider_task d) \<Longrightarrow> task_id r \<in> set ts \<Longrightarrow> task_row_ok r \<Longrightarrow> task_row_ok (f r)"
    "\<And>r. external_execution_id (f r) = external_execution_id r" "\<And>r. spec (f r) = spec r"
  shows "schema_ok (update_tasks ts f d)"
  unfolding update_tasks_def
proof (rule schema_ok_tasks [OF assms(1)])
  show "list_all task_row_ok (update_rows (\<lambda>r. task_id r \<in> set ts) f (provider_task d))"
    using schema_okD(2) [OF assms(1)] assms(2) by (auto simp: list_all_iff set_update_rows)
qed (use assms(3,4) in \<open>simp_all add: map_update_rows execution_keys_update\<close>)

lemma due_rows: "r \<in> set (order_limit key n (filter P rows)) \<Longrightarrow> r \<in> set rows \<and> P r"
  using set_order_limit by fastforce

lemma renew_ok:
  assumes "schema_ok d"
  shows "renew_handles cx n d =
    Inr (length (renew_due cx n d), update_tasks (map task_id (renew_due cx n d)) (renew_handle (now (tx_env cx))) d)"
    "schema_ok (update_tasks (map task_id (renew_due cx n d)) (renew_handle (now (tx_env cx))) d)"
proof -
  have "task_row_ok (renew_handle (now (tx_env cx)) r)"
    if "r \<in> set (provider_task d)" "task_id r \<in> set (map task_id (renew_due cx n d))" "task_row_ok r" for r
  proof -
    from that(2) obtain s where s: "s \<in> set (renew_due cx n d)" "task_id s = task_id r" by auto
    from due_rows [OF s(1) [unfolded renew_due_def]] have "s \<in> set (provider_task d)" "\<not> isTerminalState (internal_state s)" by auto
    with s unique_key_rows [OF schema_okD(1) [OF assms]] that(1) have "\<not> isTerminalState (internal_state r)" by metis
    with that(3) show ?thesis by (auto simp: task_row_ok_def renew_handle_def retention_order_def)
  qed
  then show "schema_ok (update_tasks (map task_id (renew_due cx n d)) (renew_handle (now (tx_env cx))) d)"
    by (intro update_tasks_schema assms) (simp_all add: renew_handle_def)
  then show "renew_handles cx n d =
      Inr (length (renew_due cx n d), update_tasks (map task_id (renew_due cx n d)) (renew_handle (now (tx_env cx))) d)"
    by (simp add: renew_handles_def Let_def checked_ok)
qed

text \<open>The rows due for expiry after the handles of running tasks have been renewed are final and were not touched.\<close>

lemma expire_update_schema:
  assumes "schema_ok d" "0 \<le> grace" "\<And>t. t \<in> set ts \<Longrightarrow> \<exists>r \<in> set (provider_task d). task_id r = t \<and> isTerminalState (internal_state r)"
  shows "schema_ok (update_tasks ts (expire_handle at grace) d)"
proof (rule update_tasks_schema [OF assms(1)])
  fix r assume r: "r \<in> set (provider_task d)" "task_id r \<in> set ts" "task_row_ok r"
  from assms(3) [OF r(2)] obtain s where "s \<in> set (provider_task d)" "task_id s = task_id r" "isTerminalState (internal_state s)" by auto
  with unique_key_rows [OF schema_okD(1) [OF assms(1)]] r(1) have "isTerminalState (internal_state r)" by metis
  with r(3) assms(2) show "task_row_ok (expire_handle at grace r)"
    by (auto simp: task_row_ok_def expire_handle_def retention_order_def split: option.splits)
qed (simp_all add: expire_handle_def)

text \<open>Deliveries touch only their own table.\<close>

lemma delivery_effect:
  obtains dl where "captureProviderOpsDelivery r d = d\<lparr>provider_ops_delivery := dl\<rparr>"
  by (cases "dl_event_key r \<in> set (map dl_event_key (provider_ops_delivery d))")
    (auto simp: captureProviderOpsDelivery_def intro: that [of "provider_ops_delivery d"])

lemma task_delivery_effect:
  obtains dl where "captureTaskProviderOpsDelivery r ty payload k at d = d\<lparr>provider_ops_delivery := dl\<rparr>"
  unfolding captureTaskProviderOpsDelivery_def Let_def by (rule delivery_effect)

lemma ttl_event_effect:
  assumes "find_task (task_id row) d \<noteq> None"
  obtains dl where "ttl_event at event k row reason d = Inr (d\<lparr>provider_ops_delivery := dl\<rparr>)"
proof -
  obtain task where task: "find_task (task_id row) d = Some task" using assms by auto
  show thesis
    using that by (simp add: ttl_event_def captureTaskOperationalEvent_def task) (metis delivery_effect)
qed

text \<open>Recording an expiry adds an event and deliveries of its task.\<close>

lemma record_expiry_effect:
  assumes "find_task (task_id row) d \<noteq> None" "schema_ok d"
  obtains es dl where "record_expiry cx row d = Inr (d\<lparr>outbox_event := outbox_event d @ es, provider_ops_delivery := dl\<rparr>)"
    "\<forall>e \<in> set es. ox_aggregate_id e = task_id row"
    "schema_ok (d\<lparr>outbox_event := outbox_event d @ es, provider_ops_delivery := dl\<rparr>)"
proof -
  obtain task where task: "find_task (task_id row) d = Some task" using assms(1) by auto
  let ?k = "[task_id row, ''expired'']"
  obtain es dl where i: "insertCommittedTaskEvent (tx_env cx) (task_id row) ''task.expired'' (expired_payload (now (tx_env cx)) row) ?k d
      = d\<lparr>outbox_event := outbox_event d @ es, provider_ops_delivery := dl\<rparr>"
    and es: "\<forall>e \<in> set es. ox_aggregate_id e = task_id row \<and> ox_event_key e = ?k" "length es \<le> 1" "es \<noteq> [] \<longrightarrow> \<not> has_event ?k d"
  proof (cases "has_event ?k d")
    case True
    then show thesis by (intro that [where es = "[]" and dl = "provider_ops_delivery d"]) (simp_all add: insertCommittedTaskEvent_def insertOutbox_def)
  next
    case False
    let ?p = "obj_spread (task_event_fields (tx_env cx) task) (expired_payload (now (tx_env cx)) row)"
    let ?e = "\<lparr>ox_event_key = ?k, ox_aggregate_id = task_id row, ox_event_type = ''task.expired'', ox_payload = ?p\<rparr>"
    obtain dl where "captureTaskProviderOpsDelivery task ''task.expired'' ?p ?k (timestampFromPayload (tx_env cx) ?p)
        (d\<lparr>outbox_event := outbox_event d @ [?e]\<rparr>) = d\<lparr>outbox_event := outbox_event d @ [?e]\<rparr>\<lparr>provider_ops_delivery := dl\<rparr>"
      by (rule task_delivery_effect)
    then show thesis
      using False by (intro that [where es = "[?e]" and dl = dl]) (simp_all add: insertCommittedTaskEvent_def insertOutbox_def task Let_def)
  qed
  have "find_task (task_id row) (d\<lparr>outbox_event := outbox_event d @ es, provider_ops_delivery := dl\<rparr>) \<noteq> None"
    using task by (simp add: find_task_def)
  then obtain dl' where r: "record_expiry cx row d = Inr (d\<lparr>outbox_event := outbox_event d @ es, provider_ops_delivery := dl'\<rparr>)"
    by (rule ttl_event_effect [where event = "''expire''" and k = ?k and reason = JNull and at = "now (tx_env cx)"])
      (simp add: record_expiry_def i Let_def)
  have "distinct (map ox_event_key (outbox_event d @ es))"
    using schema_okD(9) [OF assms(2)] es by (cases es) (auto simp: has_event_def)
  then have "schema_ok (d\<lparr>outbox_event := outbox_event d @ es, provider_ops_delivery := dl'\<rparr>)"
    using assms(2) by (simp add: schema_ok_def schema_checks_def)
  with r es(1) show thesis using that by blast
qed

lemma record_expiries_effect:
  assumes "schema_ok d" "\<forall>row \<in> set rows. find_task (task_id row) d \<noteq> None"
  shows "\<exists>es dl. fold_err (record_expiry cx) rows d = Inr (d\<lparr>outbox_event := outbox_event d @ es, provider_ops_delivery := dl\<rparr>) \<and>
    (\<forall>e \<in> set es. ox_aggregate_id e \<in> set (map task_id rows)) \<and>
    schema_ok (d\<lparr>outbox_event := outbox_event d @ es, provider_ops_delivery := dl\<rparr>)"
  using assms
proof (induction rows arbitrary: d)
  case Nil
  then show ?case by (intro exI [of _ "[]"] exI [of _ "provider_ops_delivery d"]) simp
next
  case (Cons row rows)
  obtain es dl where first: "record_expiry cx row d = Inr (d\<lparr>outbox_event := outbox_event d @ es, provider_ops_delivery := dl\<rparr>)"
    "\<forall>e \<in> set es. ox_aggregate_id e = task_id row" "schema_ok (d\<lparr>outbox_event := outbox_event d @ es, provider_ops_delivery := dl\<rparr>)"
    by (rule record_expiry_effect [of row d cx]) (use Cons.prems in simp_all)
  have "\<forall>row \<in> set rows. find_task (task_id row) (d\<lparr>outbox_event := outbox_event d @ es, provider_ops_delivery := dl\<rparr>) \<noteq> None"
    using Cons.prems by (simp add: find_task_def)
  from Cons.IH [OF first(3) this] obtain es' dl' where
    "fold_err (record_expiry cx) rows (d\<lparr>outbox_event := outbox_event d @ es, provider_ops_delivery := dl\<rparr>) =
      Inr (d\<lparr>outbox_event := outbox_event d @ es @ es', provider_ops_delivery := dl'\<rparr>)"
    "\<forall>e \<in> set es'. ox_aggregate_id e \<in> set (map task_id rows)"
    "schema_ok (d\<lparr>outbox_event := outbox_event d @ es @ es', provider_ops_delivery := dl'\<rparr>)"
    by auto
  with first show ?case by (intro exI [of _ "es @ es'"] exI [of _ dl']) auto
qed

abbreviation expired_rows :: "ttl_context \<Rightarrow> nat \<Rightarrow> int \<Rightarrow> db \<Rightarrow> db" where
  "expired_rows cx n grace d \<equiv> update_tasks (map task_id (expire_due cx n d)) (expire_handle (now (tx_env cx)) grace) d"

lemma expire_ok:
  assumes "schema_ok d" "0 \<le> grace"
  shows "\<exists>es dl. expire_handles cx n grace d = Inr (length (expire_due cx n d),
      (expired_rows cx n grace d)\<lparr>outbox_event := outbox_event d @ es, provider_ops_delivery := dl\<rparr>) \<and>
    (\<forall>e \<in> set es. ox_aggregate_id e \<in> set (map task_id (expire_due cx n d))) \<and>
    schema_ok ((expired_rows cx n grace d)\<lparr>outbox_event := outbox_event d @ es, provider_ops_delivery := dl\<rparr>)"
proof -
  let ?due = "expire_due cx n d" and ?ex = "expire_handle (now (tx_env cx)) grace"
  have due: "r \<in> set (provider_task d)" "isTerminalState (internal_state r)" if "r \<in> set ?due" for r
    using due_rows [OF that [unfolded expire_due_def]] by auto
  then have ok: "schema_ok (expired_rows cx n grace d)"
    by (intro expire_update_schema assms) fastforce
  have ids: "map task_id (map ?ex ?due) = map task_id ?due" by (simp add: expire_handle_def)
  have keys: "map task_id (provider_task (expired_rows cx n grace d)) = map task_id (provider_task d)"
    by (simp add: update_tasks_def map_update_rows expire_handle_def)
  have "find_task (task_id row) (expired_rows cx n grace d) \<noteq> None" if "row \<in> set (map ?ex ?due)" for row
  proof -
    have "task_id row \<in> set (map task_id (map ?ex ?due))" using that unfolding set_map by blast
    also have "\<dots> = set (map task_id ?due)" unfolding ids ..
    also have "\<dots> \<subseteq> set (map task_id (provider_task (expired_rows cx n grace d)))" unfolding keys using due(1) by auto
    finally show ?thesis by (auto simp: find_task_def first_row_None_iff)
  qed
  then have "\<forall>row \<in> set (map ?ex ?due). find_task (task_id row) (expired_rows cx n grace d) \<noteq> None" by blast
  from record_expiries_effect [OF ok this] obtain es dl where
    *: "fold_err (record_expiry cx) (map ?ex ?due) (expired_rows cx n grace d) =
      Inr ((expired_rows cx n grace d)\<lparr>outbox_event := outbox_event (expired_rows cx n grace d) @ es, provider_ops_delivery := dl\<rparr>)"
    "\<forall>e \<in> set es. ox_aggregate_id e \<in> set (map task_id (map ?ex ?due))"
    "schema_ok ((expired_rows cx n grace d)\<lparr>outbox_event := outbox_event (expired_rows cx n grace d) @ es, provider_ops_delivery := dl\<rparr>)"
    by blast
  have out: "outbox_event (expired_rows cx n grace d) = outbox_event d" by (simp add: update_tasks_def)
  show ?thesis
    using *(1,3) *(2) [unfolded ids] unfolding out
    by (intro exI [of _ es] exI [of _ dl]) (simp add: expire_handles_def Let_def checked_ok [OF ok])
qed

text \<open>The store after renewal and expiry, and what it keeps: the rows due for a purge are the same.\<close>

definition prepared :: "ttl_context \<Rightarrow> nat \<Rightarrow> int \<Rightarrow> db \<Rightarrow> db \<Rightarrow> bool" where
  "prepared cx n grace d d' =
     (let d1 = update_tasks (map task_id (renew_due cx n d)) (renew_handle (now (tx_env cx))) d in
      \<exists>es dl. d' = (expired_rows cx n grace d1)\<lparr>outbox_event := outbox_event d @ es, provider_ops_delivery := dl\<rparr> \<and>
        (\<forall>e \<in> set es. ox_aggregate_id e \<in> set (map task_id (expire_due cx n d1))) \<and> schema_ok d1 \<and> schema_ok d')"

lemma prepare_ok:
  assumes "schema_ok d" "0 \<le> grace"
  obtains d1 renewed expired d' where "renew_handles cx n d = Inr (renewed, d1)" "expire_handles cx n grace d1 = Inr (expired, d')"
    "prepared cx n grace d d'"
proof -
  let ?d1 = "update_tasks (map task_id (renew_due cx n d)) (renew_handle (now (tx_env cx))) d"
  note r = renew_ok [OF assms(1), of cx n]
  have "outbox_event ?d1 = outbox_event d" by (simp add: update_tasks_def)
  with expire_ok [OF r(2) assms(2), of cx n] obtain es dl where
    e: "expire_handles cx n grace ?d1 = Inr (length (expire_due cx n ?d1),
      (expired_rows cx n grace ?d1)\<lparr>outbox_event := outbox_event d @ es, provider_ops_delivery := dl\<rparr>)"
    "\<forall>e \<in> set es. ox_aggregate_id e \<in> set (map task_id (expire_due cx n ?d1))"
    "schema_ok ((expired_rows cx n grace ?d1)\<lparr>outbox_event := outbox_event d @ es, provider_ops_delivery := dl\<rparr>)"
    by auto
  show thesis by (rule that [OF r(1) e(1)]) (use e(2,3) r(2) in \<open>auto simp: prepared_def Let_def\<close>)
qed

lemma unique_due:
  assumes "distinct (map task_id rows)" "r \<in> set rows" "task_id r \<in> set (map task_id (order_limit key n (filter P rows)))"
  shows "P r"
proof -
  from assms(3) obtain s where s: "s \<in> set (order_limit key n (filter P rows))" "task_id s = task_id r" by auto
  from due_rows [OF s(1)] s(2) unique_key_rows [OF assms(1) _ assms(2)] show ?thesis by metis
qed

lemma prepared_purge_due:
  assumes "prepared cx n grace d d'" "1 \<le> grace" "schema_ok d"
  shows "purge_due cx m d' = purge_due cx m d"
proof -
  let ?R = "map task_id (renew_due cx n d)"
  let ?d1 = "update_tasks ?R (renew_handle (now (tx_env cx))) d"
  let ?E = "map task_id (expire_due cx n ?d1)"
  from assms(1) obtain es dl where d': "d' = (expired_rows cx n grace ?d1)\<lparr>outbox_event := outbox_event d @ es, provider_ops_delivery := dl\<rparr>"
    and es: "\<forall>e \<in> set es. ox_aggregate_id e \<in> set ?E" and ok1: "schema_ok ?d1"
    by (auto simp: prepared_def Let_def)
  let ?P = "\<lambda>r. purgeable cx d' r \<and> \<not> tx_locked cx scan_purge (task_id r)"
  let ?P' = "\<lambda>r. purgeable cx d r \<and> \<not> tx_locked cx scan_purge (task_id r)"
  have E: "expired_at r = None" if "r \<in> set (provider_task ?d1)" "task_id r \<in> set ?E" for r
    using unique_due [OF schema_okD(1) [OF ok1] that(1)] that(2) unfolding expire_due_def by blast
  have R: "\<not> isTerminalState (internal_state r)" if "r \<in> set (provider_task d)" "task_id r \<in> set ?R" for r
    using unique_due [OF schema_okD(1) [OF assms(3)] that(1)] that(2) unfolding renew_due_def by blast
  have rows: "provider_task d' = update_rows (\<lambda>r. task_id r \<in> set ?E) (expire_handle (now (tx_env cx)) grace) (provider_task ?d1)"
    unfolding d' by (simp add: update_tasks_def)
  have "filter ?P (provider_task d') = filter ?P (provider_task ?d1)"
    unfolding rows
  proof (rule filter_update_eq)
    fix r assume r: "r \<in> set (provider_task ?d1)"
    have "\<not> purgeable cx d' (expire_handle (now (tx_env cx)) grace r)"
      using assms(2) by (simp add: purgeable_def expire_handle_def sql_le_def)
    moreover have "\<not> purgeable cx d' r" if "task_id r \<in> set ?E" using E [OF r that] by (simp add: purgeable_def)
    ultimately show "if task_id r \<in> set ?E then \<not> ?P (expire_handle (now (tx_env cx)) grace r) \<and> \<not> ?P r else ?P r = ?P r" by simp
  qed
  also have "provider_task ?d1 = update_rows (\<lambda>r. task_id r \<in> set ?R) (renew_handle (now (tx_env cx))) (provider_task d)"
    by (simp add: update_tasks_def)
  also have "filter ?P \<dots> = filter ?P' (provider_task d)"
  proof (rule filter_update_eq)
    fix r assume r: "r \<in> set (provider_task d)"
    have a: "\<not> purgeable cx d' (renew_handle (now (tx_env cx)) r)" "\<not> purgeable cx d r" if "task_id r \<in> set ?R"
      using R [OF r that] by (simp_all add: purgeable_def renew_handle_def)
    have b: "purgeable cx d' r = purgeable cx d r" if no: "task_id r \<notin> set ?R"
    proof (cases "task_id r \<in> set ?E")
      case True
      have "r \<in> set (provider_task ?d1)" using r no by (auto simp: update_tasks_def set_update_rows)
      from E [OF this True] show ?thesis by (simp add: purgeable_def)
    next
      case False
      have "\<forall>e \<in> set es. ox_aggregate_id e \<noteq> task_id r" using es False by metis
      then have "filter (\<lambda>o1. ox_aggregate_id o1 = task_id r) es = []" by (simp add: filter_empty_conv)
      then show ?thesis by (intro purgeable_cong) (simp add: same_settlement_def d' update_tasks_def)
    qed
    show "if task_id r \<in> set ?R then \<not> ?P (renew_handle (now (tx_env cx)) r) \<and> \<not> ?P' r else ?P r = ?P' r"
      using a b by simp
  qed
  finally show ?thesis by (simp add: purge_due_def)
qed

section \<open>Purging one task\<close>

definition remove_tasks :: "string set \<Rightarrow> db \<Rightarrow> db" where
  "remove_tasks T d = d\<lparr>provider_task := filter (\<lambda>r. task_id r \<notin> T) (provider_task d),
     admission_intent := filter (\<lambda>a. in_taskId (ad_input a) \<notin> T) (admission_intent d),
     task_command := filter (\<lambda>c. cmd_task_id c \<notin> T) (task_command d),
     task_input_request := filter (\<lambda>q. input_request_row.ir_task_id q \<notin> T) (task_input_request d),
     task_observation := filter (\<lambda>x. ob_task_id x \<notin> T) (task_observation d)\<rparr>"

lemma distinct_filter_both: "distinct (map f (filter P xs)) \<Longrightarrow> distinct (map f (filter (\<lambda>x. B x \<and> P x) xs))"
  using distinct_map_filter [of f "filter P xs" B] by (simp add: conj_commute)

lemma list_all_filter: "list_all P xs \<Longrightarrow> list_all P (filter Q xs)"
  by (simp add: list_all_iff)

lemma schema_ok_filtered:
  assumes "schema_ok d" "provider_task d' = filter A (provider_task d)" "task_command d' = filter B (task_command d)"
    "task_observation d' = filter C (task_observation d)" "task_input_request d' = filter D (task_input_request d)"
    "resource_binding d' = filter F (resource_binding d)"
    "outbox_event d' = outbox_event d" "task_input_response_inbox d' = task_input_response_inbox d"
    "\<forall>q \<in> set (task_input_response_inbox d). \<forall>i \<in> set (task_input_request d).
       input_request_row.ir_task_id i = ib_task_id q \<longrightarrow> D i"
  shows "schema_ok d'"
proof -
  note sub = distinct_map_filter
  have 1: "distinct (execution_keys (filter A (provider_task d)))"
  proof -
    have "distinct (map (\<lambda>r. (in_providerId (spec r), the (external_execution_id r)))
        (filter A (filter (\<lambda>r. external_execution_id r \<noteq> None) (provider_task d))))"
      by (rule sub) (use schema_okD(3) [OF assms(1)] in \<open>simp add: execution_keys_def\<close>)
    then show ?thesis by (simp add: execution_keys_def conj_commute)
  qed
  have 3: "list_all (\<lambda>q. (ib_task_id q, ib_key q) \<in> set (map (\<lambda>q. (input_request_row.ir_task_id q, input_request_row.ir_key q))
      (filter D (task_input_request d)))) (task_input_response_inbox d)"
    using assms(1,9) by (fastforce simp: schema_ok_def schema_checks_def list_all_iff)
  show ?thesis
    using assms(1) 1 3 unfolding schema_ok_def schema_checks_def assms(2-8)
    by (simp add: distinct_filter_both list_all_filter sub)
qed

lemma stored_response_refused:
  assumes "schema_ok d" "q \<in> set (task_input_response_inbox d)" "ib_task_id q = t"
  shows "\<exists>n. delete_requests t d = Inl (DbConstraint n)"
proof -
  have "(ib_task_id q, ib_key q) \<in> set (map (\<lambda>q. (input_request_row.ir_task_id q, input_request_row.ir_key q))
      (filter (\<lambda>q. input_request_row.ir_task_id q \<noteq> t) (task_input_request d)))"
    if "schema_ok (d\<lparr>task_input_request := filter (\<lambda>q. input_request_row.ir_task_id q \<noteq> t) (task_input_request d)\<rparr>)"
    using that assms(2) by (simp add: schema_ok_def schema_checks_def list_all_iff)
  then have "\<not> schema_ok (d\<lparr>task_input_request := filter (\<lambda>q. input_request_row.ir_task_id q \<noteq> t) (task_input_request d)\<rparr>)"
    using assms(3) by auto
  then have "\<nexists>d'. delete_requests t d = Inr d'" by (simp add: delete_requests_def checked_Inr_iff)
  then show ?thesis by (auto simp: delete_requests_def checked_def split: option.splits)
qed

lemma deletions_ok:
  assumes "schema_ok d" "\<forall>q \<in> set (task_input_response_inbox d). ib_task_id q \<noteq> t"
  obtains d1 d2 d3 where "delete_requests t d = Inr d1" "delete_commands t d1 = Inr d2" "delete_admission t d2 = Inr d3"
    "delete_task t d3 = Inr (remove_tasks {t} d)" "schema_ok (remove_tasks {t} d)"
proof -
  let ?d1 = "d\<lparr>task_input_request := filter (\<lambda>q. input_request_row.ir_task_id q \<noteq> t) (task_input_request d)\<rparr>"
  let ?d2 = "?d1\<lparr>task_command := filter (\<lambda>c. cmd_task_id c \<noteq> t) (task_command d)\<rparr>"
  let ?d3 = "?d2\<lparr>admission_intent := filter (\<lambda>a. in_taskId (ad_input a) \<noteq> t) (admission_intent d)\<rparr>"
  let ?T = "\<lambda>_. True"
  have f: "\<forall>q \<in> set (task_input_response_inbox d). \<forall>i \<in> set (task_input_request d).
      input_request_row.ir_task_id i = ib_task_id q \<longrightarrow> input_request_row.ir_task_id i \<noteq> t" using assms(2) by auto
  have 1: "schema_ok ?d1" by (rule schema_ok_filtered [OF assms(1) _ _ _ _ _ _ _ f, of _ ?T ?T ?T ?T]) simp_all
  have 2: "schema_ok ?d2"
    by (rule schema_ok_filtered [OF assms(1) _ _ _ _ _ _ _ f, of _ ?T "\<lambda>c. cmd_task_id c \<noteq> t" ?T ?T]) simp_all
  have 3: "schema_ok ?d3"
    by (rule schema_ok_filtered [OF assms(1) _ _ _ _ _ _ _ f, of _ ?T "\<lambda>c. cmd_task_id c \<noteq> t" ?T ?T]) simp_all
  have 4: "schema_ok (remove_tasks {t} d)"
    by (rule schema_ok_filtered [OF assms(1) _ _ _ _ _ _ _ f,
          of _ "\<lambda>r. task_id r \<noteq> t" "\<lambda>c. cmd_task_id c \<noteq> t" "\<lambda>x. ob_task_id x \<noteq> t" ?T]) (simp_all add: remove_tasks_def)
  show thesis
  proof (rule that [of ?d1 ?d2 ?d3])
    have "remove_tasks {t} d = ?d3\<lparr>provider_task := filter (\<lambda>r. task_id r \<noteq> t) (provider_task ?d3),
       task_observation := filter (\<lambda>x. ob_task_id x \<noteq> t) (task_observation ?d3),
       task_input_request := filter (\<lambda>q. input_request_row.ir_task_id q \<noteq> t) (task_input_request ?d3),
       task_command := filter (\<lambda>c. cmd_task_id c \<noteq> t) (task_command ?d3)\<rparr>"
      by (simp add: remove_tasks_def)
    with 4 show "delete_task t ?d3 = Inr (remove_tasks {t} d)" by (simp only: delete_task_def checked_ok)
  qed (use 1 2 3 4 in \<open>simp_all add: delete_requests_def delete_commands_def delete_admission_def checked_ok\<close>)
qed

text \<open>Tombstones.\<close>

definition tombstone_of :: "instant \<Rightarrow> binding_row list \<Rightarrow> task_row \<Rightarrow> tombstone_row" where
  "tombstone_of at bs r = tombstone_for at r (the (terminal_at r))
     (first_row (\<lambda>b. rb_provider_id b = in_providerId (spec r) \<and> rb_task_id b = task_id r) bs)"

definition entomb :: "instant \<Rightarrow> binding_row list \<Rightarrow> task_row list \<Rightarrow> tombstone_row list \<Rightarrow> tombstone_row list" where
  "entomb at bs rows tb = foldl (\<lambda>tb r. upsert_tombstone (tombstone_of at bs r) tb) tb rows"

definition can_entomb :: "instant \<Rightarrow> task_row \<Rightarrow> bool" where
  "can_entomb at r = (hex64 (au_hash (in_authorization (spec r))) \<and> (case terminal_at r of None \<Rightarrow> False | Some x \<Rightarrow> x \<le> at))"

definition tombstones_ok :: "tombstone_row list \<Rightarrow> bool" where
  "tombstones_ok tb = (list_all tombstone_row_ok tb \<and> distinct (map tombstone_key tb))"

lemma event_schema_tombstones: "event_schema_ok e \<Longrightarrow> tombstones_ok (tombstones e)"
  by (simp add: event_schema_ok_def event_checks_def Let_def tombstones_ok_def)

lemma event_schema_with:
  "event_schema_ok e \<Longrightarrow> tombstones_ok tb \<Longrightarrow> event_schema_ok (e\<lparr>task_store := d, tombstones := tb\<rparr>)"
  by (simp add: event_schema_ok_def event_checks_def Let_def tombstones_ok_def)

lemma upsert_tombstone_ok:
  assumes "tombstones_ok tb" "task_row_ok r" "can_entomb at r"
  shows "tombstones_ok (upsert_tombstone (tombstone_of at bs r) tb)"
proof -
  have new: "tombstone_row_ok (tombstone_of at bs r)"
    using assms(2,3) by (auto simp: tombstone_row_ok_def tombstone_of_def tombstone_for_def can_entomb_def task_row_ok_def mode_ok_def
        split: option.splits)
  show ?thesis
  proof (cases "tombstone_key (tombstone_of at bs r) \<in> set (map tombstone_key tb)")
    case True
    moreover have "tombstone_row_ok (t\<lparr>tb_retain_until := max (tb_retain_until t) x\<rparr>)" if "tombstone_row_ok t" for t x
      using that by (auto simp: tombstone_row_ok_def max_def)
    ultimately show ?thesis
      using assms(1) by (auto simp: tombstones_ok_def upsert_tombstone_def map_update_rows list_all_iff set_update_rows)
  next
    case False
    with assms(1) new show ?thesis by (auto simp: tombstones_ok_def upsert_tombstone_def)
  qed
qed

text \<open>What a purge leaves: all rows of the task go, its tombstone is written, deliveries and leases may change.\<close>

definition purged_state :: "instant \<Rightarrow> task_row list \<Rightarrow> ttl_db \<Rightarrow> ttl_db \<Rightarrow> bool" where
  "purged_state at rows tdb tdb' =
     (let T = set (map task_id rows); d = ttl_tasks tdb in
      \<exists>dl L. tdb' = tdb\<lparr>ttl_events := (ttl_events tdb)\<lparr>task_store := (remove_tasks T d)\<lparr>provider_ops_delivery := dl, runtime_lease := L\<rparr>,
            tombstones := entomb at (resource_binding d) rows (tombstones (ttl_events tdb))\<rparr>,
          ttl_idempotency := filter (\<lambda>r. \<forall>t \<in> T. idem_row.ir_task_id r \<noteq> Some t) (ttl_idempotency tdb)\<rparr>)"

lemma purged_state_refl: "purged_state at [] tdb tdb"
  unfolding purged_state_def Let_def
  by (rule exI [of _ "provider_ops_delivery (ttl_tasks tdb)"], rule exI [of _ "runtime_lease (ttl_tasks tdb)"])
    (simp add: remove_tasks_def entomb_def)

lemma purged_state_trans:
  assumes "purged_state at rows tdb tdb1" "purged_state at rows' tdb1 tdb2"
  shows "purged_state at (rows @ rows') tdb tdb2"
proof -
  from assms(1) obtain dl L where 1: "tdb1 = tdb\<lparr>ttl_events := (ttl_events tdb)\<lparr>task_store :=
      (remove_tasks (set (map task_id rows)) (ttl_tasks tdb))\<lparr>provider_ops_delivery := dl, runtime_lease := L\<rparr>,
      tombstones := entomb at (resource_binding (ttl_tasks tdb)) rows (tombstones (ttl_events tdb))\<rparr>,
      ttl_idempotency := filter (\<lambda>r. \<forall>t \<in> set (map task_id rows). idem_row.ir_task_id r \<noteq> Some t) (ttl_idempotency tdb)\<rparr>"
    by (auto simp: purged_state_def Let_def)
  from assms(2) obtain dl' L' where 2: "tdb2 = tdb1\<lparr>ttl_events := (ttl_events tdb1)\<lparr>task_store :=
      (remove_tasks (set (map task_id rows')) (ttl_tasks tdb1))\<lparr>provider_ops_delivery := dl', runtime_lease := L'\<rparr>,
      tombstones := entomb at (resource_binding (ttl_tasks tdb1)) rows' (tombstones (ttl_events tdb1))\<rparr>,
      ttl_idempotency := filter (\<lambda>r. \<forall>t \<in> set (map task_id rows'). idem_row.ir_task_id r \<noteq> Some t) (ttl_idempotency tdb1)\<rparr>"
    by (auto simp: purged_state_def Let_def)
  show ?thesis
    unfolding purged_state_def Let_def
    by (rule exI [of _ dl'], rule exI [of _ L']) (simp add: 1 2 remove_tasks_def entomb_def ball_Un conj_commute)
qed

lemma purge_work_ok:
  assumes "schema_ok (ttl_tasks tdb)" "event_schema_ok (ttl_events tdb)" "find_task (task_id row) (ttl_tasks tdb) = Some row"
    "can_entomb (now (tx_env cx)) row" "\<forall>q \<in> set (task_input_response_inbox (ttl_tasks tdb)). ib_task_id q \<noteq> task_id row"
  obtains tdb' where "purge_work cx row tdb = Inr tdb'" "purged_state (now (tx_env cx)) [row] tdb tdb'"
    "runtime_lease (ttl_tasks tdb') = runtime_lease (ttl_tasks tdb)"
proof -
  let ?at = "now (tx_env cx)" and ?t = "task_id row" and ?d = "ttl_tasks tdb"
  let ?tb = "upsert_tombstone (tombstone_of ?at (resource_binding ?d) row) (tombstones (ttl_events tdb))"
  have mem: "row \<in> set (provider_task ?d)" using assms(3) by (auto simp: find_task_def dest: first_row_SomeD)
  then have row: "task_row_ok row" using schema_okD(2) [OF assms(1)] by (simp add: list_all_iff)
  have "tombstones_ok ?tb" by (rule upsert_tombstone_ok [OF event_schema_tombstones [OF assms(2)] row assms(4)])
  from event_schema_with [OF assms(2) this, of ?d] have ok: "event_schema_ok ((ttl_events tdb)\<lparr>tombstones := ?tb\<rparr>)" by simp
  obtain x where x: "terminal_at row = Some x" using assms(4) by (auto simp: can_entomb_def split: option.splits)
  have 1: "on_events (insert_tombstone ?at ?t) tdb = Inr (tdb\<lparr>ttl_events := (ttl_events tdb)\<lparr>tombstones := ?tb\<rparr>\<rparr>)"
    using assms(3) event_checked_ok [OF ok] x
    by (simp add: on_events_def insert_tombstone_def tombstone_of_def find_binding_def)
  obtain dl where 2: "ttl_event ?at ''purge'' (purge_identity cx ''ttl-purge'' row) row JNull ?d = Inr (?d\<lparr>provider_ops_delivery := dl\<rparr>)"
    by (rule ttl_event_effect) (use assms(3) in auto)
  let ?d1 = "?d\<lparr>provider_ops_delivery := dl\<rparr>"
  have "schema_ok ?d1" using assms(1) by (simp add: schema_ok_def schema_checks_def)
  moreover have "\<forall>q \<in> set (task_input_response_inbox ?d1). ib_task_id q \<noteq> ?t" using assms(5) by simp
  ultimately obtain d1 d2 d3 where del: "delete_requests ?t ?d1 = Inr d1" "delete_commands ?t d1 = Inr d2"
    "delete_admission ?t d2 = Inr d3" "delete_task ?t d3 = Inr (remove_tasks {?t} ?d1)"
    by (rule deletions_ok)
  let ?tdb' = "tdb\<lparr>ttl_events := (ttl_events tdb)\<lparr>tombstones := ?tb, task_store := remove_tasks {?t} ?d1\<rparr>,
      ttl_idempotency := filter (\<lambda>r. idem_row.ir_task_id r \<noteq> Some ?t) (ttl_idempotency tdb)\<rparr>"
  have "purge_work cx row tdb = Inr ?tdb'"
    unfolding purge_work_def Let_def 1 bind_err_simps on_tasks_def delete_records_def purge_records_def
    by (simp add: 2 del)
  then show thesis
  proof (rule that)
    show "purged_state ?at [row] tdb ?tdb'"
      unfolding purged_state_def Let_def
      by (rule exI [of _ dl], rule exI [of _ "runtime_lease ?d"]) (simp add: remove_tasks_def entomb_def)
    show "runtime_lease (ttl_tasks ?tdb') = runtime_lease ?d" by (simp add: remove_tasks_def)
  qed
qed

lemma purge_work_refused:
  assumes "schema_ok (ttl_tasks tdb)" "q \<in> set (task_input_response_inbox (ttl_tasks tdb))" "ib_task_id q = task_id row"
  shows "\<exists>e. purge_work cx row tdb = Inl e"
proof (rule ccontr)
  assume "\<not> ?thesis"
  then obtain tdb' where "purge_work cx row tdb = Inr tdb'" by (cases "purge_work cx row tdb") auto
  then obtain tdb1 tdb2 tdb3 where 1: "on_events (insert_tombstone (now (tx_env cx)) (task_id row)) tdb = Inr tdb1"
    and 2: "on_tasks (ttl_event (now (tx_env cx)) ''purge'' (purge_identity cx ''ttl-purge'' row) row JNull) tdb1 = Inr tdb2"
    and 3: "on_tasks (delete_requests (task_id row)) tdb2 = Inr tdb3"
    by (auto simp: purge_work_def Let_def bind_err_Inr_iff)
  have "ttl_tasks tdb1 = ttl_tasks tdb"
    using 1 by (auto simp: on_events_def insert_tombstone_def bind_err_Inr_iff event_checked_Inr_iff split: option.splits)
  then have "schema_ok (ttl_tasks tdb2)" "task_input_response_inbox (ttl_tasks tdb2) = task_input_response_inbox (ttl_tasks tdb)"
    using 2 assms(1) by (auto simp: on_tasks_def bind_err_Inr_iff ttl_event_def captureTaskOperationalEvent_def captureProviderOpsDelivery_def
        schema_ok_def schema_checks_def split: option.splits if_splits)
  with stored_response_refused [of "ttl_tasks tdb2" q "task_id row"] assms(2,3) 3 show False
    by (auto simp: on_tasks_def bind_err_Inr_iff)
qed

section \<open>The purge loop\<close>

definition lease_free :: "ttl_context \<Rightarrow> db \<Rightarrow> string \<Rightarrow> bool" where
  "lease_free cx d t = (case find_lease (recovery_lease_key t) d of None \<Rightarrow> True | Some l \<Rightarrow> ls_expires_at l \<le> clk (tx_env cx))"

lemma find_lease_frame: "runtime_lease d' = runtime_lease d \<Longrightarrow> find_lease k d' = find_lease k d"
  by (simp add: find_lease_def)

lemma first_row_single [simp]: "first_row P [x] = (if P x then Some x else None)"
  by (simp add: first_row_def)

lemma claim_effect:
  obtains L where "claim_lease (tx_env cx) (recovery_lease_key t) owner ms d =
      (lease_free cx d t, if lease_free cx d t then d\<lparr>runtime_lease := L\<rparr> else d)"
    "\<forall>k. k \<noteq> recovery_lease_key t \<longrightarrow> first_row (\<lambda>l. ls_key l = k) L = find_lease k d"
proof (cases "find_lease (recovery_lease_key t) d")
  case None
  then show thesis
    by (intro that [of "runtime_lease d @ [\<lparr>ls_key = recovery_lease_key t, ls_owner = owner, ls_fencing_token = 1,
          ls_expires_at = clk (tx_env cx) + ms\<rparr>]"])
      (auto simp: claim_lease_def lease_free_def find_lease_def first_row_append split: option.splits)
next
  case (Some l)
  then show thesis
    by (intro that [of "update_rows (\<lambda>l. ls_key l = recovery_lease_key t)
          (\<lambda>l. l\<lparr>ls_owner := owner, ls_fencing_token := ls_fencing_token l + 1, ls_expires_at := clk (tx_env cx) + ms\<rparr>) (runtime_lease d)"])
      (auto simp: claim_lease_def lease_free_def find_lease_def first_row_update_rows map_option_case dest: first_row_SomeD
        split: option.splits)
qed

lemma first_row_filter:
  "(\<And>x. P x \<Longrightarrow> Q x) \<Longrightarrow> first_row P (filter Q xs) = first_row P xs"
  by (induction xs) (auto simp: first_row_def)

lemma release_frame: "k' \<noteq> k \<Longrightarrow> find_lease k' (release_lease k owner d) = find_lease k' d"
  unfolding find_lease_def release_lease_def by (simp, subst first_row_filter) auto

lemma purged_state_nothing:
  "purged_state at [] tdb (tdb\<lparr>ttl_events := (ttl_events tdb)\<lparr>task_store := (ttl_tasks tdb)\<lparr>provider_ops_delivery := dl, runtime_lease := L\<rparr>\<rparr>\<rparr>)"
  unfolding purged_state_def Let_def by (rule exI [of _ dl], rule exI [of _ L]) (simp add: remove_tasks_def entomb_def)

lemma purged_schema:
  assumes "purged_state at rows tdb tdb'" "schema_ok (ttl_tasks tdb)" "event_schema_ok (ttl_events tdb)"
    "\<forall>r \<in> set rows. task_row_ok r \<and> can_entomb at r"
    "\<forall>q \<in> set (task_input_response_inbox (ttl_tasks tdb)). ib_task_id q \<notin> set (map task_id rows)"
  shows "schema_ok (ttl_tasks tdb')" "event_schema_ok (ttl_events tdb')"
proof -
  let ?T = "set (map task_id rows)"
  from assms(1) obtain dl L where
    d: "ttl_tasks tdb' = (remove_tasks ?T (ttl_tasks tdb))\<lparr>provider_ops_delivery := dl, runtime_lease := L\<rparr>" and
    e: "ttl_events tdb' = (ttl_events tdb)\<lparr>task_store := (remove_tasks ?T (ttl_tasks tdb))\<lparr>provider_ops_delivery := dl, runtime_lease := L\<rparr>,
      tombstones := entomb at (resource_binding (ttl_tasks tdb)) rows (tombstones (ttl_events tdb))\<rparr>"
    by (auto simp: purged_state_def Let_def)
  show "schema_ok (ttl_tasks tdb')"
    by (rule schema_ok_filtered [OF assms(2), of _ "\<lambda>r. task_id r \<notin> ?T" "\<lambda>c. cmd_task_id c \<notin> ?T" "\<lambda>x. ob_task_id x \<notin> ?T"
          "\<lambda>q. input_request_row.ir_task_id q \<notin> ?T" "\<lambda>_. True"]) (use assms(5) in \<open>simp_all add: d remove_tasks_def\<close>)
  have "tombstones_ok (entomb at bs rows tb)" if "tombstones_ok tb" for bs tb
    using assms(4) that
  proof (induction rows arbitrary: tb)
    case (Cons r rows)
    then have "tombstones_ok (upsert_tombstone (tombstone_of at bs r) tb)" using upsert_tombstone_ok by simp
    from Cons.IH [OF _ this] Cons.prems show ?case by (simp add: entomb_def)
  qed (simp add: entomb_def)
  from event_schema_with [OF assms(3) this [OF event_schema_tombstones [OF assms(3)]]]
  show "event_schema_ok (ttl_events tdb')" unfolding e .
qed

definition ready_row :: "ttl_context \<Rightarrow> db \<Rightarrow> task_row \<Rightarrow> bool" where
  "ready_row cx d row = (find_task (task_id row) d = Some row \<and> task_row_ok row \<and> can_entomb (now (tx_env cx)) row)"

text \<open>One round of the loop: blocked by a live lease, failing on a stored response, or purging the task.\<close>

lemma purge_one_cases:
  assumes "schema_ok (ttl_tasks tdb)" "event_schema_ok (ttl_events tdb)" "ready_row cx (ttl_tasks tdb) row"
  obtains (blocked) tdb' where "\<not> lease_free cx (ttl_tasks tdb) (task_id row)"
      "purge_one cx ms row ((p, b), tdb) = Inr ((p, b + 1), tdb')" "purged_state (now (tx_env cx)) [] tdb tdb'"
      "\<forall>t. lease_free cx (ttl_tasks tdb') t = lease_free cx (ttl_tasks tdb) t"
  | (failed) q e where "lease_free cx (ttl_tasks tdb) (task_id row)" "q \<in> set (task_input_response_inbox (ttl_tasks tdb))"
      "ib_task_id q = task_id row" "purge_one cx ms row ((p, b), tdb) = Inl e"
  | (purged) tdb' where "lease_free cx (ttl_tasks tdb) (task_id row)"
      "\<forall>q \<in> set (task_input_response_inbox (ttl_tasks tdb)). ib_task_id q \<noteq> task_id row"
      "purge_one cx ms row ((p, b), tdb) = Inr ((p + 1, b), tdb')" "purged_state (now (tx_env cx)) [row] tdb tdb'"
      "\<forall>t. t \<noteq> task_id row \<longrightarrow> lease_free cx (ttl_tasks tdb') t = lease_free cx (ttl_tasks tdb) t"
proof -
  let ?d = "ttl_tasks tdb" and ?t = "task_id row" and ?at = "now (tx_env cx)"
  let ?k = "recovery_lease_key ?t" and ?owner = "tx_ownerId cx (task_id row)"
  have row: "find_task ?t ?d = Some row" "can_entomb ?at row" using assms(3) by (auto simp: ready_row_def)
  obtain L where L: "claim_lease (tx_env cx) ?k ?owner ms ?d = (lease_free cx ?d ?t, if lease_free cx ?d ?t then ?d\<lparr>runtime_lease := L\<rparr> else ?d)"
      "\<forall>k. k \<noteq> ?k \<longrightarrow> first_row (\<lambda>l. ls_key l = k) L = find_lease k ?d"
    by (rule claim_effect)
  let ?tdb0 = "tdb\<lparr>ttl_events := (ttl_events tdb)\<lparr>task_store := ?d\<lparr>runtime_lease := L\<rparr>\<rparr>\<rparr>"
  have ok0: "schema_ok (ttl_tasks ?tdb0)" "event_schema_ok (ttl_events ?tdb0)"
    using assms(1) event_schema_with [OF assms(2) event_schema_tombstones [OF assms(2)]]
    by (simp_all add: schema_ok_def schema_checks_def)
  show thesis
  proof (cases "lease_free cx ?d ?t")
    case False
    obtain dl where "ttl_event ?at ''blocked'' (purge_identity cx ''ttl-blocked'' row) row (JStr ''RECOVERY_LEASE_HELD'') ?d
        = Inr (?d\<lparr>provider_ops_delivery := dl\<rparr>)"
      by (rule ttl_event_effect) (use row in auto)
    then have "purge_one cx ms row ((p, b), tdb) = Inr ((p, b + 1),
        tdb\<lparr>ttl_events := (ttl_events tdb)\<lparr>task_store := ?d\<lparr>provider_ops_delivery := dl, runtime_lease := runtime_lease ?d\<rparr>\<rparr>\<rparr>)"
      using False by (simp add: purge_one_def Let_def L(1) on_tasks_def)
    from blocked [OF False this purged_state_nothing] show thesis by (simp add: lease_free_def find_lease_def)
  next
    case True
    note free = this
    show thesis
    proof (cases "\<exists>q \<in> set (task_input_response_inbox ?d). ib_task_id q = ?t")
      case True
      then obtain q where q: "q \<in> set (task_input_response_inbox ?d)" "ib_task_id q = ?t" by blast
      with purge_work_refused [OF ok0(1), of q row cx] obtain e where "purge_work cx row ?tdb0 = Inl e" by auto
      then have "purge_one cx ms row ((p, b), tdb) = Inl (aborted e)" using free by (simp add: purge_one_def Let_def L(1))
      then show thesis using failed free q by blast
    next
      case False
      have "find_task ?t (ttl_tasks ?tdb0) = Some row" using row(1) by (simp add: find_task_def)
      moreover have "\<forall>q \<in> set (task_input_response_inbox (ttl_tasks ?tdb0)). ib_task_id q \<noteq> ?t" using False by simp
      ultimately obtain tdb1 where w: "purge_work cx row ?tdb0 = Inr tdb1" "purged_state ?at [row] ?tdb0 tdb1"
          "runtime_lease (ttl_tasks tdb1) = runtime_lease (ttl_tasks ?tdb0)"
        using purge_work_ok [OF ok0 _ row(2)] by blast
      let ?tdb2 = "tdb1\<lparr>ttl_events := (ttl_events tdb1)\<lparr>task_store := release_lease ?k ?owner (ttl_tasks tdb1)\<rparr>\<rparr>"
      have one: "purge_one cx ms row ((p, b), tdb) = Inr ((p + 1, b), ?tdb2)"
        using free w(1) by (simp add: purge_one_def Let_def L(1) on_tasks_def)
      have "purged_state ?at [] tdb ?tdb0" "purged_state ?at [] tdb1 ?tdb2"
        using purged_state_nothing [where at = ?at and tdb = tdb and dl = "provider_ops_delivery ?d" and L = L]
          purged_state_nothing [where at = ?at and tdb = tdb1 and dl = "provider_ops_delivery (ttl_tasks tdb1)"
            and L = "runtime_lease (release_lease ?k ?owner (ttl_tasks tdb1))"]
        by (simp_all add: release_lease_def)
      then have "purged_state ?at [row] tdb ?tdb2"
        using purged_state_trans [OF purged_state_trans [OF _ w(2)]] by fastforce
      moreover have "lease_free cx (ttl_tasks ?tdb2) t = lease_free cx ?d t" if "t \<noteq> ?t" for t
      proof -
        have "recovery_lease_key t \<noteq> ?k" using that by (simp add: recovery_lease_key_def)
        then have "find_lease (recovery_lease_key t) (ttl_tasks ?tdb2) = find_lease (recovery_lease_key t) ?d"
          using L(2) w(3) by (simp add: release_frame) (simp add: find_lease_def)
        then show ?thesis by (simp add: lease_free_def)
      qed
      ultimately show thesis using purged [OF free _ one] False by blast
    qed
  qed
qed

text \<open>The whole loop.\<close>

definition free_rows :: "ttl_context \<Rightarrow> db \<Rightarrow> task_row list \<Rightarrow> task_row list" where
  "free_rows cx d rows = filter (\<lambda>r. lease_free cx d (task_id r)) rows"

definition responses_of :: "task_row list \<Rightarrow> db \<Rightarrow> bool" where
  "responses_of rows d = (\<exists>q \<in> set (task_input_response_inbox d). ib_task_id q \<in> set (map task_id rows))"

lemma purged_tables:
  assumes "purged_state at rows tdb tdb'"
  shows "provider_task (ttl_tasks tdb') = filter (\<lambda>r. task_id r \<notin> set (map task_id rows)) (provider_task (ttl_tasks tdb))"
    "task_input_response_inbox (ttl_tasks tdb') = task_input_response_inbox (ttl_tasks tdb)"
  using assms by (auto simp: purged_state_def Let_def remove_tasks_def)

lemma purged_find_task:
  assumes "purged_state at rows tdb tdb'" "t \<notin> set (map task_id rows)"
  shows "find_task t (ttl_tasks tdb') = find_task t (ttl_tasks tdb)"
  unfolding find_task_def purged_tables(1) [OF assms(1)] by (rule first_row_filter) (use assms(2) in auto)

lemma distinct_keys_ConsD:
  assumes "distinct (map f (x # xs))" "y \<in> set xs"
  shows "f y \<noteq> f x"
proof
  assume "f y = f x"
  moreover have "f y \<in> set (map f xs)" unfolding set_map using assms(2) by (rule imageI)
  ultimately show False using assms(1) by simp
qed

lemma purge_loop:
  assumes "distinct (map task_id rows)" "schema_ok (ttl_tasks tdb)" "event_schema_ok (ttl_events tdb)"
    "\<forall>r \<in> set rows. ready_row cx (ttl_tasks tdb) r"
  shows "if responses_of (free_rows cx (ttl_tasks tdb) rows) (ttl_tasks tdb)
    then \<exists>e. fold_err (purge_one cx ms) rows ((p, b), tdb) = Inl e
    else \<exists>tdb'. fold_err (purge_one cx ms) rows ((p, b), tdb) =
        Inr ((p + length (free_rows cx (ttl_tasks tdb) rows), b + (length rows - length (free_rows cx (ttl_tasks tdb) rows))), tdb') \<and>
      purged_state (now (tx_env cx)) (free_rows cx (ttl_tasks tdb) rows) tdb tdb'"
  using assms
proof (induction rows arbitrary: tdb p b)
  case Nil
  then show ?case by (auto simp: free_rows_def responses_of_def intro: purged_state_refl)
next
  case (Cons row rows)
  let ?at = "now (tx_env cx)" and ?d = "ttl_tasks tdb"
  have row: "ready_row cx ?d row" using Cons.prems(4) by simp
  have le: "length (free_rows cx d rows) \<le> length rows" for d by (simp add: free_rows_def)
  from purge_one_cases [OF Cons.prems(2,3) row, of ms p b] show ?case
  proof cases
    case (1 tdb')
    note blocked = this
    have d': "schema_ok (ttl_tasks tdb')" "event_schema_ok (ttl_events tdb')"
      using purged_schema [OF blocked(3) Cons.prems(2,3)] by simp_all
    have "\<forall>r \<in> set rows. ready_row cx (ttl_tasks tdb') r"
      using Cons.prems(4) purged_find_task [OF blocked(3)] by (simp add: ready_row_def)
    from Cons.IH [OF _ d' this, of p "b + 1"] Cons.prems(1)
    have IH: "if responses_of (free_rows cx (ttl_tasks tdb') rows) (ttl_tasks tdb')
      then \<exists>e. fold_err (purge_one cx ms) rows ((p, b + 1), tdb') = Inl e
      else \<exists>tdb2. fold_err (purge_one cx ms) rows ((p, b + 1), tdb') =
          Inr ((p + length (free_rows cx (ttl_tasks tdb') rows), b + 1 + (length rows - length (free_rows cx (ttl_tasks tdb') rows))), tdb2) \<and>
        purged_state ?at (free_rows cx (ttl_tasks tdb') rows) tdb' tdb2" by simp
    have eq: "free_rows cx (ttl_tasks tdb') rows = free_rows cx ?d (row # rows)"
      using blocked(1,4) by (simp add: free_rows_def)
    have "responses_of xs (ttl_tasks tdb') = responses_of xs ?d" for xs
      using purged_tables(2) [OF blocked(3)] by (simp add: responses_of_def)
    with IH le [of "ttl_tasks tdb'"] show ?thesis
      using purged_state_trans [OF blocked(3)] by (auto simp: blocked(2) eq Suc_diff_le split: if_splits)
  next
    case (2 q e)
    note failed = this
    then have "responses_of (free_rows cx ?d (row # rows)) ?d" by (auto simp: responses_of_def free_rows_def)
    with failed(4) show ?thesis by simp
  next
    case (3 tdb')
    note purged = this
    have ok: "task_row_ok row" "can_entomb ?at row" using row by (simp_all add: ready_row_def)
    have d': "schema_ok (ttl_tasks tdb')" "event_schema_ok (ttl_events tdb')"
      using purged_schema [OF purged(4) Cons.prems(2,3)] ok purged(2) by simp_all
    note other = distinct_keys_ConsD [OF Cons.prems(1)]
    have "\<forall>r \<in> set rows. ready_row cx (ttl_tasks tdb') r"
      using Cons.prems(4) purged_find_task [OF purged(4)] other by (simp add: ready_row_def)
    from Cons.IH [OF _ d' this, of "p + 1" b] Cons.prems(1)
    have IH: "if responses_of (free_rows cx (ttl_tasks tdb') rows) (ttl_tasks tdb')
      then \<exists>e. fold_err (purge_one cx ms) rows ((p + 1, b), tdb') = Inl e
      else \<exists>tdb2. fold_err (purge_one cx ms) rows ((p + 1, b), tdb') =
          Inr ((p + 1 + length (free_rows cx (ttl_tasks tdb') rows), b + (length rows - length (free_rows cx (ttl_tasks tdb') rows))), tdb2) \<and>
        purged_state ?at (free_rows cx (ttl_tasks tdb') rows) tdb' tdb2" by simp
    have eq: "free_rows cx ?d (row # rows) = row # free_rows cx (ttl_tasks tdb') rows"
      using purged(1,5) other by (simp add: free_rows_def cong: filter_cong)
    have "responses_of (row # xs) ?d = responses_of xs (ttl_tasks tdb')" for xs
      using purged_tables(2) [OF purged(4)] purged(2) by (auto simp: responses_of_def)
    with IH show ?thesis
      using purged_state_trans [OF purged(4)] by (auto simp: purged(3) eq split: if_splits)
  qed
qed

section \<open>The tick\<close>

lemma still_needed_frame [simp]:
  "still_related at p t (e\<lparr>task_store := d\<rparr>) = still_related at p t e" "still_projected at t (e\<lparr>task_store := d\<rparr>) = still_projected at t e"
  "still_related at p t (e\<lparr>tombstones := tb\<rparr>) = still_related at p t e" "still_projected at t (e\<lparr>tombstones := tb\<rparr>) = still_projected at t e"
  by (simp_all add: still_related_def still_projected_def)

definition kept_tombstones :: "instant \<Rightarrow> event_db \<Rightarrow> tombstone_row list \<Rightarrow> tombstone_row list" where
  "kept_tombstones at e tb = filter (\<lambda>t. at < tb_retain_until t \<or> still_related at (tb_provider_id t) (tb_task_id t) e \<or>
     still_projected at (tb_task_id t) e) tb"

lemma finish_ok:
  assumes "schema_ok (ttl_tasks tdb)" "event_schema_ok (ttl_events tdb)"
  obtains bs where "bind_err (on_events (delete_bindings at) tdb) (\<lambda>tdb. on_events (delete_tombstones at) tdb) =
      Inr (tdb\<lparr>ttl_events := (ttl_events tdb)\<lparr>task_store := (ttl_tasks tdb)\<lparr>resource_binding := bs\<rparr>,
        tombstones := kept_tombstones at (ttl_events tdb) (tombstones (ttl_events tdb))\<rparr>\<rparr>)"
    "schema_ok ((ttl_tasks tdb)\<lparr>resource_binding := bs\<rparr>)"
    "event_schema_ok ((ttl_events tdb)\<lparr>task_store := (ttl_tasks tdb)\<lparr>resource_binding := bs\<rparr>,
        tombstones := kept_tombstones at (ttl_events tdb) (tombstones (ttl_events tdb))\<rparr>)"
proof -
  let ?e = "ttl_events tdb" and ?d = "ttl_tasks tdb"
  let ?bs = "filter (\<lambda>b. \<not> (rb_retain_until b \<le> at \<and> \<not> still_related at (rb_provider_id b) (rb_task_id b) ?e \<and>
      \<not> still_projected at (rb_task_id b) ?e)) (resource_binding ?d)"
  let ?e1 = "?e\<lparr>task_store := ?d\<lparr>resource_binding := ?bs\<rparr>\<rparr>"
  have d: "schema_ok (?d\<lparr>resource_binding := ?bs\<rparr>)"
    using assms(1) by (simp add: schema_ok_def schema_checks_def list_all_filter distinct_map_filter)
  have "tombstones_ok (kept_tombstones at ?e (tombstones ?e))"
    using event_schema_tombstones [OF assms(2)] by (simp add: tombstones_ok_def kept_tombstones_def list_all_filter distinct_map_filter)
  from event_schema_with [OF assms(2) this]
  have e: "event_schema_ok (?e\<lparr>task_store := ?d\<lparr>resource_binding := ?bs\<rparr>, tombstones := kept_tombstones at ?e (tombstones ?e)\<rparr>)" .
  have keep: "filter (\<lambda>t. \<not> (tb_retain_until t \<le> at \<and> \<not> still_related at (tb_provider_id t) (tb_task_id t) ?e1 \<and>
      \<not> still_projected at (tb_task_id t) ?e1)) tb = kept_tombstones at ?e tb" for tb
    unfolding kept_tombstones_def by (rule filter_cong) auto
  have "on_events (delete_bindings at) tdb = Inr (tdb\<lparr>ttl_events := ?e1\<rparr>)"
    unfolding on_events_def delete_bindings_def checked_ok [OF d] by simp
  moreover have "delete_tombstones at ?e1 = Inr (?e1\<lparr>tombstones := kept_tombstones at ?e (tombstones ?e)\<rparr>)"
    unfolding delete_tombstones_def keep using event_checked_ok [OF e] by simp
  ultimately show thesis by (intro that [OF _ d e]) (simp add: on_events_def)
qed

definition cleaner_ready :: "ttl_context \<Rightarrow> TtlCleanerOptions \<Rightarrow> ttl_db \<Rightarrow> bool" where
  "cleaner_ready cx opts tdb =
     (1 \<le> to_purgeGraceMs opts \<and> schema_ok (ttl_tasks tdb) \<and> event_schema_ok (ttl_events tdb) \<and>
      (\<forall>r \<in> set (purge_due cx (nat (to_batchSize opts)) (ttl_tasks tdb)). can_entomb (now (tx_env cx)) r))"

text \<open>The tasks a tick purges: due and with a free recovery lease.\<close>

definition purged_rows :: "ttl_context \<Rightarrow> TtlCleanerOptions \<Rightarrow> db \<Rightarrow> task_row list" where
  "purged_rows cx opts d = free_rows cx d (purge_due cx (nat (to_batchSize opts)) d)"

definition retained_rows :: "ttl_context \<Rightarrow> TtlCleanerOptions \<Rightarrow> db \<Rightarrow> task_row list" where
  "retained_rows cx opts d =
     (let n = nat (to_batchSize opts); at = now (tx_env cx) in
      update_rows (\<lambda>r. task_id r \<in> set (map task_id (expire_due cx n d))) (expire_handle at (to_purgeGraceMs opts))
        (update_rows (\<lambda>r. task_id r \<in> set (map task_id (renew_due cx n d))) (renew_handle at) (provider_task d)))"

lemma expire_due_renewed:
  assumes "schema_ok d"
  shows "expire_due cx n (update_tasks (map task_id (renew_due cx m d)) (renew_handle at) d) = expire_due cx n d"
proof -
  let ?R = "map task_id (renew_due cx m d)"
  let ?P = "\<lambda>r. isTerminalState (internal_state r) \<and> expired_at r = None \<and> handle_expires_at r \<noteq> None \<and>
      sql_le (handle_expires_at r) (now (tx_env cx)) \<and> \<not> tx_locked cx scan_expire (task_id r)"
  have R: "\<not> isTerminalState (internal_state r)" if "r \<in> set (provider_task d)" "task_id r \<in> set ?R" for r
    using unique_due [OF schema_okD(1) [OF assms] that(1)] that(2) unfolding renew_due_def by blast
  have "filter ?P (update_rows (\<lambda>r. task_id r \<in> set ?R) (renew_handle at) (provider_task d)) = filter ?P (provider_task d)"
  proof (rule filter_update_eq)
    fix r assume "r \<in> set (provider_task d)"
    from R [OF this] show "if task_id r \<in> set ?R then \<not> ?P (renew_handle at r) \<and> \<not> ?P r else ?P r = ?P r"
      by (simp add: renew_handle_def)
  qed
  then show ?thesis by (simp only: expire_due_def update_tasks_def) simp
qed

lemma tick_cases:
  assumes "cleaner_ready cx opts tdb"
  defines "at \<equiv> now (tx_env cx)" and "d \<equiv> ttl_tasks tdb" and "rows \<equiv> purge_due cx (nat (to_batchSize opts)) (ttl_tasks tdb)"
    and "gone \<equiv> purged_rows cx opts (ttl_tasks tdb)"
  obtains (failed) e where "responses_of gone d" "ttl_tick cx opts tdb = (Inl e, tdb)"
  | (done1) res tdb' es dl L bs where "\<not> responses_of gone d" "ttl_tick cx opts tdb = (Inr res, tdb')"
      "tr_purged res = length gone" "tr_blocked res = length rows - length gone"
      "ttl_tasks tdb' = (remove_tasks (set (map task_id gone)) (d\<lparr>provider_task := retained_rows cx opts d\<rparr>))
         \<lparr>outbox_event := outbox_event d @ es, provider_ops_delivery := dl, runtime_lease := L, resource_binding := bs\<rparr>"
      "ttl_events tdb' = (ttl_events tdb)\<lparr>task_store := ttl_tasks tdb',
         tombstones := kept_tombstones at (ttl_events tdb) (entomb at (resource_binding d) gone (tombstones (ttl_events tdb)))\<rparr>"
      "ttl_idempotency tdb' = filter (\<lambda>r. \<forall>t \<in> set (map task_id gone). idem_row.ir_task_id r \<noteq> Some t) (ttl_idempotency tdb)"
      "schema_ok (ttl_tasks tdb')" "event_schema_ok (ttl_events tdb')"
proof -
  let ?n = "nat (to_batchSize opts)" and ?g = "to_purgeGraceMs opts"
  have rdy: "1 \<le> ?g" "schema_ok d" "event_schema_ok (ttl_events tdb)" "\<forall>r \<in> set rows. can_entomb at r"
    using assms(1) by (simp_all add: cleaner_ready_def d_def rows_def at_def)
  obtain d1 renewed expired d' where prep: "renew_handles cx ?n d = Inr (renewed, d1)" "expire_handles cx ?n ?g d1 = Inr (expired, d')"
      "prepared cx ?n ?g d d'"
    by (rule prepare_ok [OF rdy(2), of ?g cx ?n]) (use rdy(1) in simp_all)
  let ?d1 = "update_tasks (map task_id (renew_due cx ?n d)) (renew_handle at) d"
  from prep(3) obtain es dl0 where
    d': "d' = (expired_rows cx ?n ?g ?d1)\<lparr>outbox_event := outbox_event d @ es, provider_ops_delivery := dl0\<rparr>" and ok': "schema_ok d'"
    unfolding prepared_def Let_def at_def [symmetric] by blast
  have d'2: "d' = d\<lparr>provider_task := retained_rows cx opts d, outbox_event := outbox_event d @ es, provider_ops_delivery := dl0\<rparr>"
    unfolding d' expire_due_renewed [OF rdy(2)] by (simp add: update_tasks_def retained_rows_def Let_def at_def)
  have due: "purge_due cx ?n d' = rows" unfolding rows_def d_def [symmetric] by (rule prepared_purge_due [OF prep(3) rdy(1,2)])
  let ?tdb1 = "tdb\<lparr>ttl_events := (ttl_events tdb)\<lparr>task_store := d'\<rparr>\<rparr>"
  have ok1: "schema_ok (ttl_tasks ?tdb1)" "event_schema_ok (ttl_events ?tdb1)"
    using ok' event_schema_with [OF rdy(3) event_schema_tombstones [OF rdy(3)]] by simp_all
  have keys: "distinct (map task_id (provider_task d'))" by (rule schema_okD(1) [OF ok'])
  have "distinct (map task_id (purge_due cx ?n d'))"
    unfolding purge_due_def by (rule distinct_order_limit [OF distinct_map_filter [OF keys]])
  then have distinct_rows: "distinct (map task_id rows)" unfolding due .
  have "ready_row cx (ttl_tasks ?tdb1) r" if "r \<in> set rows" for r
  proof -
    have "r \<in> set (purge_due cx ?n d')" using that by (simp only: due)
    from due_rows [OF this [unfolded purge_due_def]] have r: "r \<in> set (provider_task d')" by blast
    then have "task_row_ok r" using schema_okD(2) [OF ok'] by (simp add: list_all_iff)
    with first_row_unique [OF keys r] rdy(4) that show ?thesis by (simp add: ready_row_def find_task_def at_def)
  qed
  then have ready: "\<forall>r \<in> set rows. ready_row cx (ttl_tasks ?tdb1) r" by blast
  have free: "free_rows cx (ttl_tasks ?tdb1) rows = gone"
    unfolding gone_def purged_rows_def rows_def [symmetric] free_rows_def lease_free_def find_lease_def by (simp add: d'2 d_def)
  have resp: "responses_of gone (ttl_tasks ?tdb1) = responses_of gone d" by (simp add: responses_of_def d'2)
  have start: "ttl_transaction cx opts tdb =
      bind_err (fold_err (purge_one cx (to_recoveryLeaseMs opts)) rows ((0, 0), ?tdb1)) (\<lambda>((purged, blocked), tdb).
      bind_err (on_events (delete_bindings at) tdb) (\<lambda>tdb.
      bind_err (on_events (delete_tombstones at) tdb) (\<lambda>tdb.
      Inr (\<lparr>tr_renewed = renewed, tr_expired = expired, tr_purged = purged, tr_blocked = blocked\<rparr>, tdb))))"
    using prep(1,2) due by (simp add: ttl_transaction_def Let_def d_def at_def)
  note loop = purge_loop [OF distinct_rows ok1 ready, of "to_recoveryLeaseMs opts" 0 0, unfolded free resp]
  show thesis
  proof (cases "responses_of gone d")
    case True
    then obtain e where "ttl_transaction cx opts tdb = Inl e" using loop start by auto
    then show thesis using failed True by (simp add: ttl_tick_def)
  next
    case False
    then obtain tdb2 where l: "fold_err (purge_one cx (to_recoveryLeaseMs opts)) rows ((0, 0), ?tdb1) =
        Inr ((length gone, length rows - length gone), tdb2)" "purged_state at gone ?tdb1 tdb2"
      using loop by (auto simp: at_def)
    have "\<forall>r \<in> set gone. task_row_ok r \<and> can_entomb at r"
      using ready unfolding free [symmetric] by (auto simp: free_rows_def ready_row_def at_def)
    moreover have "\<forall>q \<in> set (task_input_response_inbox (ttl_tasks ?tdb1)). ib_task_id q \<notin> set (map task_id gone)"
      using False resp by (auto simp: responses_of_def)
    ultimately have ok2: "schema_ok (ttl_tasks tdb2)" "event_schema_ok (ttl_events tdb2)"
      using purged_schema [OF l(2) ok1] by blast+
    from l(2) obtain dl L where t2: "tdb2 = ?tdb1\<lparr>ttl_events := (ttl_events ?tdb1)\<lparr>task_store :=
        (remove_tasks (set (map task_id gone)) d')\<lparr>provider_ops_delivery := dl, runtime_lease := L\<rparr>,
        tombstones := entomb at (resource_binding d') gone (tombstones (ttl_events tdb))\<rparr>,
        ttl_idempotency := filter (\<lambda>r. \<forall>t \<in> set (map task_id gone). idem_row.ir_task_id r \<noteq> Some t) (ttl_idempotency tdb)\<rparr>"
      by (auto simp: purged_state_def Let_def)
    have frame: "kept_tombstones at (ttl_events tdb2) tb = kept_tombstones at (ttl_events tdb) tb" for tb
      by (simp add: t2 kept_tombstones_def)
    obtain bs where fin: "bind_err (on_events (delete_bindings at) tdb2) (\<lambda>tdb. on_events (delete_tombstones at) tdb) =
        Inr (tdb2\<lparr>ttl_events := (ttl_events tdb2)\<lparr>task_store := (ttl_tasks tdb2)\<lparr>resource_binding := bs\<rparr>,
          tombstones := kept_tombstones at (ttl_events tdb2) (tombstones (ttl_events tdb2))\<rparr>\<rparr>)"
      "schema_ok ((ttl_tasks tdb2)\<lparr>resource_binding := bs\<rparr>)"
      "event_schema_ok ((ttl_events tdb2)\<lparr>task_store := (ttl_tasks tdb2)\<lparr>resource_binding := bs\<rparr>,
          tombstones := kept_tombstones at (ttl_events tdb2) (tombstones (ttl_events tdb2))\<rparr>)"
      by (rule finish_ok [OF ok2, of at])
    let ?tdb' = "tdb2\<lparr>ttl_events := (ttl_events tdb2)\<lparr>task_store := (ttl_tasks tdb2)\<lparr>resource_binding := bs\<rparr>,
          tombstones := kept_tombstones at (ttl_events tdb2) (tombstones (ttl_events tdb2))\<rparr>\<rparr>"
    have "ttl_tick cx opts tdb = (Inr \<lparr>tr_renewed = renewed, tr_expired = expired, tr_purged = length gone,
        tr_blocked = length rows - length gone\<rparr>, ?tdb')"
      using fin(1) by (simp add: ttl_tick_def start l(1) bind_err_assoc [symmetric])
    then show thesis
    proof (rule done1 [OF False, where es = es and dl = dl and L = L and bs = bs])
      show "ttl_tasks ?tdb' = (remove_tasks (set (map task_id gone)) (d\<lparr>provider_task := retained_rows cx opts d\<rparr>))
         \<lparr>outbox_event := outbox_event d @ es, provider_ops_delivery := dl, runtime_lease := L, resource_binding := bs\<rparr>"
        by (simp add: t2 d'2 remove_tasks_def)
    qed (use fin(2,3) in \<open>simp_all add: frame\<close>, simp_all add: t2 d'2 d_def)
  qed
qed

text \<open>C30.  A tick purges exactly the tasks that are due (final, expired, past their grace period, with no unpublished event, open command or
  unsettled admission) and whose recovery lease is free; it renews the handles of running tasks, expires those of final ones, and leaves
  every other column of every other task as it was, and it counts what it purged and what a lease blocked.  It fails, and then
  changes nothing at all, exactly if one of the tasks to purge has a stored input response: the foreign key of the response inbox refuses
  the deletion of the request it answers.\<close>

theorem ttl_tick_outcome:
  assumes "cleaner_ready cx opts tdb"
  defines "d \<equiv> ttl_tasks tdb" and "gone \<equiv> purged_rows cx opts (ttl_tasks tdb)"
  shows "if \<exists>q \<in> set (task_input_response_inbox d). ib_task_id q \<in> set (map task_id gone)
    then \<exists>e. ttl_tick cx opts tdb = (Inl e, tdb)
    else \<exists>res tdb'. ttl_tick cx opts tdb = (Inr res, tdb') \<and> tr_purged res = length gone \<and>
      tr_blocked res = length (purge_due cx (nat (to_batchSize opts)) d) - length gone \<and>
      (\<exists>es dl L bs. ttl_tasks tdb' = (remove_tasks (set (map task_id gone)) (d\<lparr>provider_task := retained_rows cx opts d\<rparr>))
         \<lparr>outbox_event := outbox_event d @ es, provider_ops_delivery := dl, runtime_lease := L, resource_binding := bs\<rparr>)"
  using assms(1)
proof (cases rule: tick_cases)
  case (failed e)
  then show ?thesis by (auto simp: responses_of_def d_def gone_def)
next
  case (done1 res tdb' es dl L bs)
  have "\<not> (\<exists>q \<in> set (task_input_response_inbox d). ib_task_id q \<in> set (map task_id gone))"
    using done1(1) by (simp add: responses_of_def d_def gone_def)
  with done1(2-5) show ?thesis unfolding d_def gone_def by (simp only: if_False) blast
qed

section \<open>What a tick keeps\<close>

definition row_core :: "task_row \<Rightarrow> AdmissionIntentInput \<times> InternalTaskState \<times> McpTaskStatus \<times> json_object option \<times> json_object option \<times> nat \<times> nat" where
  "row_core r = (spec r, internal_state r, mcp_status r, result r, error r, observation_revision r, next_command_sequence r)"

lemma retained_core: "map row_core (retained_rows cx opts d) = map row_core (provider_task d)"
  by (simp add: retained_rows_def Let_def row_core_def [abs_def] map_update_rows renew_handle_def expire_handle_def)

lemma removed_inv:
  assumes "db_inv d" "schema_ok d'" "provider_task d' = filter (\<lambda>r. task_id r \<notin> T) rows" "map row_core rows = map row_core (provider_task d)"
    "task_observation d' = filter (\<lambda>x. ob_task_id x \<notin> T) (task_observation d)" "task_command d' = filter (\<lambda>c. cmd_task_id c \<notin> T) (task_command d)"
  shows "db_inv d'"
proof -
  have rev: "revisions t (filter (\<lambda>x. ob_task_id x \<notin> T) obs) = revisions t obs" if "t \<notin> T" for t obs
    using that by (induction obs) (auto simp: revisions_def)
  have core: "row_core ` set rows = row_core ` set (provider_task d)" using arg_cong [OF assms(4), of set] by simp
  have orig: "\<exists>r0 \<in> set (provider_task d). row_core r0 = row_core r" if "r \<in> set (provider_task d')" for r
  proof -
    have "r \<in> set rows" using that assms(3) by simp
    then have "row_core r \<in> row_core ` set (provider_task d)" unfolding core [symmetric] by (rule imageI)
    then obtain r0 where "row_core r = row_core r0" "r0 \<in> set (provider_task d)" by (rule imageE)
    then show ?thesis by (intro bexI [of _ r0]) simp_all
  qed
  have forth: "\<exists>r \<in> set (provider_task d'). task_id r = task_id r0 \<and> next_command_sequence r = next_command_sequence r0" if "r0 \<in> set (provider_task d)" "task_id r0 \<notin> T" for r0
  proof -
    have "row_core r0 \<in> row_core ` set rows" unfolding core using that(1) by (rule imageI)
    then obtain r where "row_core r0 = row_core r" "r \<in> set rows" by (rule imageE)
    with that(2) show ?thesis unfolding assms(3) by (intro bexI [of _ r]) (auto simp: row_core_def)
  qed
  have "row_ok r" if "r \<in> set (provider_task d')" for r
  proof -
    note found1 = orig [OF that]
    obtain r0 where "row_ok r0" "row_core r0 = row_core r" using found1 assms(1) by (auto simp: db_inv_def tasks_inv_def)
    then show ?thesis by (simp add: row_ok_def row_core_def)
  qed
  moreover have "revisions (task_id r) (task_observation d') = [1..<Suc (observation_revision r)]" if "r \<in> set (provider_task d')" for r
  proof -
    have "task_id r \<notin> T" using that assms(3) by simp
    with orig [OF that] assms(1) show ?thesis unfolding assms(5) rev [OF \<open>task_id r \<notin> T\<close>]
      by (auto simp: db_inv_def observations_inv_def row_core_def)
  qed
  moreover have "\<exists>r \<in> set (provider_task d'). task_id r = ob_task_id x" if "x \<in> set (task_observation d')" for x
  proof -
    have x: "x \<in> set (task_observation d)" "ob_task_id x \<notin> T" using that assms(5) by auto
    then obtain r0 where "r0 \<in> set (provider_task d)" "task_id r0 = ob_task_id x" "ob_task_id x \<notin> T"
      using assms(1) by (auto simp: db_inv_def observations_inv_def)
    with forth [of r0] show ?thesis by metis
  qed
  moreover have "saved_ok c \<and> (\<exists>r \<in> set (provider_task d'). task_id r = cmd_task_id c \<and> cmd_sequence c \<le> next_command_sequence r)"
    if "c \<in> set (task_command d')" for c
  proof -
    have c: "c \<in> set (task_command d)" "cmd_task_id c \<notin> T" using that assms(6) by auto
    then obtain r0 where "r0 \<in> set (provider_task d)" "task_id r0 = cmd_task_id c" "cmd_sequence c \<le> next_command_sequence r0" "saved_ok c"
      using assms(1) by (auto simp: db_inv_def commands_inv_def)
    with forth [of r0] c show ?thesis by metis
  qed
  ultimately show ?thesis using assms(2) by (simp add: db_inv_def tasks_inv_def observations_inv_def commands_inv_def)
qed

lemma tick_stores:
  assumes "cleaner_ready cx opts tdb" "db_inv (ttl_tasks tdb)"
  shows "db_inv (ttl_tasks (snd (ttl_tick cx opts tdb)))"
    "event_step\<^sup>*\<^sup>* (ttl_events tdb) (ttl_events (snd (ttl_tick cx opts tdb)))"
proof -
  have "db_inv (ttl_tasks (snd (ttl_tick cx opts tdb))) \<and>
      event_step\<^sup>*\<^sup>* (ttl_events tdb) (ttl_events (snd (ttl_tick cx opts tdb)))"
    using assms(1)
  proof (cases rule: tick_cases)
    case (failed e)
    with assms(2) show ?thesis by simp
  next
    case (done1 res tdb' es dl L bs)
    let ?T = "set (map task_id (purged_rows cx opts (ttl_tasks tdb)))"
    have "db_inv (ttl_tasks tdb')"
      by (rule removed_inv [OF assms(2) done1(8) _ retained_core [of cx opts], of ?T]) (simp_all add: done1(5) remove_tasks_def)
    moreover have "event_step (ttl_events tdb) (ttl_events tdb')"
      by (subst done1(6), rule step_tasks, subst done1(6) [symmetric], rule done1(9))
    ultimately show ?thesis unfolding done1(2) by auto
  qed
  then show "db_inv (ttl_tasks (snd (ttl_tick cx opts tdb)))"
    "event_step\<^sup>*\<^sup>* (ttl_events tdb) (ttl_events (snd (ttl_tick cx opts tdb)))" by auto
qed

text \<open>What a tick does to the idempotency records are steps of that table: the purge of the records of each task it purges.\<close>

lemma purge_steps:
  assumes "\<forall>r \<in> set tbl. \<forall>t \<in> set ts. idem_row.ir_task_id r = Some t \<longrightarrow> ir_id r \<notin> K"
  shows "(idem_step K)\<^sup>*\<^sup>* tbl (filter (\<lambda>r. \<forall>t \<in> set ts. idem_row.ir_task_id r \<noteq> Some t) tbl)"
  using assms
proof (induction ts arbitrary: tbl)
  case (Cons t ts)
  have "idem_step K tbl (purge_records t tbl)" by (rule purge_step) (use Cons.prems in auto)
  moreover have "(idem_step K)\<^sup>*\<^sup>* (purge_records t tbl) (filter (\<lambda>r. \<forall>t \<in> set ts. idem_row.ir_task_id r \<noteq> Some t) (purge_records t tbl))"
    by (rule Cons.IH) (use Cons.prems in \<open>auto simp: purge_records_def\<close>)
  moreover have "filter (\<lambda>r. \<forall>t \<in> set ts. idem_row.ir_task_id r \<noteq> Some t) (purge_records t tbl) =
      filter (\<lambda>r. \<forall>t \<in> set (t # ts). idem_row.ir_task_id r \<noteq> Some t) tbl"
    unfolding purge_records_def filter_filter by (rule filter_cong) auto
  ultimately show ?case by (simp only: converse_rtranclp_into_rtranclp)
qed simp

lemma tick_records:
  assumes "cleaner_ready cx opts tdb"
  shows "(idem_step {})\<^sup>*\<^sup>* (ttl_idempotency tdb) (ttl_idempotency (snd (ttl_tick cx opts tdb)))"
  using assms
proof (cases rule: tick_cases)
  case (done1 res tdb' es dl L bs)
  then show ?thesis using purge_steps [of "ttl_idempotency tdb" "map task_id (purged_rows cx opts (ttl_tasks tdb))" "{}"] by simp
qed simp

text \<open>A tick of the cleaner keeps what the repositories rely on: the invariant of the task store holds after it, and what it does to the
  event store and to the idempotency records are steps of these stores, so that everything shown of reachable event stores and records goes on
  to hold with the cleaner running.\<close>

theorem ttl_tick_keeps_stores:
  assumes "cleaner_ready cx opts tdb" "db_inv (ttl_tasks tdb)"
  shows "db_inv (ttl_tasks (snd (ttl_tick cx opts tdb))) \<and>
    event_step\<^sup>*\<^sup>* (ttl_events tdb) (ttl_events (snd (ttl_tick cx opts tdb))) \<and>
    (idem_step {})\<^sup>*\<^sup>* (ttl_idempotency tdb) (ttl_idempotency (snd (ttl_tick cx opts tdb)))"
  using tick_stores [OF assms] tick_records [OF assms(1)] by blast

section \<open>Authority over related tasks\<close>

lemma entomb_fresh:
  assumes "distinct (map task_id rows)" "\<forall>r \<in> set rows. (in_providerId (spec r), task_id r) \<notin> set (map tombstone_key tb)"
  shows "entomb at bs rows tb = tb @ map (tombstone_of at bs) rows"
  using assms
proof (induction rows arbitrary: tb)
  case (Cons r rows)
  have key: "tombstone_key (tombstone_of at bs r) = (in_providerId (spec r), task_id r)" for r
    by (simp add: tombstone_of_def tombstone_for_def)
  have "entomb at bs rows (tb @ [tombstone_of at bs r]) = (tb @ [tombstone_of at bs r]) @ map (tombstone_of at bs) rows"
  proof (rule Cons.IH)
    show "\<forall>s \<in> set rows. (in_providerId (spec s), task_id s) \<notin> set (map tombstone_key (tb @ [tombstone_of at bs r]))"
      using Cons.prems(2) distinct_keys_ConsD [OF Cons.prems(1)] unfolding map_append list.map(2) key by simp
  qed (use Cons.prems(1) in simp)
  moreover have "upsert_tombstone (tombstone_of at bs r) tb = tb @ [tombstone_of at bs r]"
    using Cons.prems(2) by (simp add: upsert_tombstone_def key)
  ultimately show ?case by (simp add: entomb_def)
qed (simp add: entomb_def)

definition task_authority :: "task_row \<Rightarrow> BusinessEventAuthorizationSnapshot" where
  "task_authority r = \<lparr>bz_authorizationScopeHash = au_hash (in_authorization (spec r)),
     bz_executionMode = au_executionMode (in_authorization (spec r)), bz_simulationId = au_simulationId (in_authorization (spec r))\<rparr>"

definition tombstone_authority :: "tombstone_row \<Rightarrow> BusinessEventAuthorizationSnapshot" where
  "tombstone_authority t = \<lparr>bz_authorizationScopeHash = tb_authorization_hash t, bz_executionMode = tb_execution_mode t,
     bz_simulationId = tb_simulation_id t\<rparr>"

lemma in_authorities:
  "(t, au) \<in> set (authorities p e) \<longleftrightarrow>
    (\<exists>r \<in> set (provider_task (task_store e)). in_providerId (spec r) = p \<and> task_id r = t \<and> task_authority r = au) \<or>
    (\<exists>b \<in> set (tombstones e). tombstone_key b = (p, t) \<and> tombstone_authority b = au)"
  by (auto simp: authorities_def task_authority_def tombstone_authority_def)

text \<open>A task of the store has no tombstone yet.\<close>

definition no_early_tombstones :: "ttl_db \<Rightarrow> bool" where
  "no_early_tombstones tdb = (\<forall>b \<in> set (tombstones (ttl_events tdb)). \<forall>r \<in> set (provider_task (ttl_tasks tdb)).
     tombstone_key b \<noteq> (in_providerId (spec r), task_id r))"

lemma retained_spec: "(\<exists>r \<in> set (retained_rows cx opts d). P (spec r)) = (\<exists>r \<in> set (provider_task d). P (spec r))"
proof -
  have "map spec (retained_rows cx opts d) = map spec (provider_task d)"
    by (simp add: retained_rows_def Let_def map_update_rows renew_handle_def expire_handle_def)
  from arg_cong [OF this, of set] have "spec ` set (retained_rows cx opts d) = spec ` set (provider_task d)" by (simp only: set_map)
  then have "(\<exists>x \<in> spec ` set (retained_rows cx opts d). P x) = (\<exists>x \<in> spec ` set (provider_task d). P x)" by simp
  then show ?thesis by (simp only: bex_simps)
qed

lemma authorities_kept:
  assumes "cleaner_ready cx opts tdb" "no_early_tombstones tdb" "ttl_tick cx opts tdb = (Inr res, tdb')"
    "still_related (now (tx_env cx)) p t (ttl_events tdb)"
  shows "(t, au) \<in> set (authorities p (ttl_events tdb')) \<longleftrightarrow> (t, au) \<in> set (authorities p (ttl_events tdb))"
  using assms(1)
proof (cases rule: tick_cases)
  case (failed e)
  with assms(3) show ?thesis by simp
next
  case (done1 res1 tdb1 es dl L bs)
  let ?d = "ttl_tasks tdb" and ?at = "now (tx_env cx)"
  let ?gone = "purged_rows cx opts ?d"
  have eq: "tdb1 = tdb'" using done1(2) assms(3) by simp
  have mem: "r \<in> set (provider_task ?d)" if "r \<in> set ?gone" for r
    using that due_rows unfolding purged_rows_def free_rows_def purge_due_def by fastforce
  have "distinct (map task_id (provider_task ?d))" using assms(1) schema_okD(1) by (simp add: cleaner_ready_def)
  note keys = this
  then have dist: "distinct (map task_id ?gone)"
    unfolding purged_rows_def free_rows_def purge_due_def by (intro distinct_map_filter distinct_order_limit)
  have "entomb ?at (resource_binding ?d) ?gone (tombstones (ttl_events tdb)) =
      tombstones (ttl_events tdb) @ map (tombstone_of ?at (resource_binding ?d)) ?gone"
    using assms(2) mem by (intro entomb_fresh dist) (fastforce simp: no_early_tombstones_def)
  then have tombs: "tombstones (ttl_events tdb1) = kept_tombstones ?at (ttl_events tdb)
      (tombstones (ttl_events tdb) @ map (tombstone_of ?at (resource_binding ?d)) ?gone)"
    using arg_cong [OF done1(6), of tombstones] by simp
  have kept: "b \<in> set (kept_tombstones ?at (ttl_events tdb) tb) \<longleftrightarrow> b \<in> set tb" if "tombstone_key b = (p, t)" for b tb
    using that assms(4) by (auto simp: kept_tombstones_def)
  have rows: "provider_task (ttl_tasks tdb1) = filter (\<lambda>r. task_id r \<notin> set (map task_id ?gone)) (retained_rows cx opts ?d)"
    by (simp add: done1(5) remove_tasks_def)
  let ?own = "\<lambda>x. in_providerId x = p \<and> in_taskId x = t \<and> \<lparr>bz_authorizationScopeHash = au_hash (in_authorization x),
     bz_executionMode = au_executionMode (in_authorization x), bz_simulationId = au_simulationId (in_authorization x)\<rparr> = au"
  have of_gone: "tombstone_key (tombstone_of ?at (resource_binding ?d) r) = (p, t) \<and>
      tombstone_authority (tombstone_of ?at (resource_binding ?d) r) = au \<longleftrightarrow> ?own (spec r)" for r
    by (auto simp: tombstone_of_def tombstone_for_def tombstone_authority_def)
  have "(t, au) \<in> set (authorities p (ttl_events tdb1)) \<longleftrightarrow>
      (t \<notin> set (map task_id ?gone) \<and> (\<exists>r \<in> set (provider_task ?d). ?own (spec r))) \<or>
      (\<exists>b \<in> set (tombstones (ttl_events tdb)). tombstone_key b = (p, t) \<and> tombstone_authority b = au) \<or>
      (\<exists>r \<in> set ?gone. ?own (spec r))"
  proof -
    have "(\<exists>r \<in> set (provider_task (ttl_tasks tdb1)). in_providerId (spec r) = p \<and> task_id r = t \<and> task_authority r = au) \<longleftrightarrow>
        t \<notin> set (map task_id ?gone) \<and> (\<exists>r \<in> set (provider_task ?d). ?own (spec r))"
      unfolding rows retained_spec [of cx opts ?d ?own, symmetric] by (auto simp: task_authority_def)
    moreover have "(\<exists>b \<in> set (tombstones (ttl_events tdb1)). tombstone_key b = (p, t) \<and> tombstone_authority b = au) \<longleftrightarrow>
        (\<exists>b \<in> set (tombstones (ttl_events tdb)). tombstone_key b = (p, t) \<and> tombstone_authority b = au) \<or> (\<exists>r \<in> set ?gone. ?own (spec r))"
    proof -
      have "(\<exists>b \<in> set (tombstones (ttl_events tdb1)). tombstone_key b = (p, t) \<and> tombstone_authority b = au) \<longleftrightarrow>
          (\<exists>b \<in> set (tombstones (ttl_events tdb) @ map (tombstone_of ?at (resource_binding ?d)) ?gone).
             tombstone_key b = (p, t) \<and> tombstone_authority b = au)"
        unfolding tombs using kept by blast
      then show ?thesis unfolding of_gone [symmetric] set_append set_map by blast
    qed
    ultimately show ?thesis unfolding in_authorities by blast
  qed
  also have "\<dots> \<longleftrightarrow> (t, au) \<in> set (authorities p (ttl_events tdb))"
  proof -
    have "\<exists>r \<in> set ?gone. ?own (spec r)" if "t \<in> set (map task_id ?gone)" "r \<in> set (provider_task ?d)" "?own (spec r)" for r
    proof -
      from that(1) obtain g where g: "g \<in> set ?gone" "task_id g = t" by auto
      then have "g = r" using unique_key_rows [OF keys mem [OF g(1)] that(2)] that(3) by simp
      with g that(3) show ?thesis by blast
    qed
    then show ?thesis unfolding in_authorities task_authority_def using mem by blast
  qed
  finally show ?thesis unfolding eq .
qed

lemma tick_event_tables:
  assumes "cleaner_ready cx opts tdb" "ttl_tick cx opts tdb = (Inr res, tdb')"
  shows "business_events (ttl_events tdb') = business_events (ttl_events tdb)" "relations (ttl_events tdb') = relations (ttl_events tdb)"
proof -
  from assms(1) have "\<exists>d tb. ttl_events tdb' = (ttl_events tdb)\<lparr>task_store := d, tombstones := tb\<rparr>"
  proof (cases rule: tick_cases)
    case (done1 res1 tdb1)
    have "tdb1 = tdb'" using done1(2) assms(2) by simp
    then show ?thesis using done1(6) by blast
  qed (use assms(2) in simp)
  then show "business_events (ttl_events tdb') = business_events (ttl_events tdb)" "relations (ttl_events tdb') = relations (ttl_events tdb)"
    by auto
qed

text \<open>The cleaner never takes away what a caller may still ask for about a resource: as long as a resource event has not expired when the
  cleaner runs, every caller gets the same projection of it after the tick as before, although tasks related to it may have been purged;
  their tombstones answer for them.\<close>

theorem ttl_tick_keeps_projections:
  assumes "cleaner_ready cx opts tdb" "no_early_tombstones tdb" "ttl_tick cx opts tdb = (Inr res, tdb')"
    "find_event p st i (ttl_events tdb) = Some e" "be_scope e = Some scope_resource" "now (tx_env cx) < be_expires_at e"
  shows "authorizedEventProjection env p st i au (ttl_events tdb') = authorizedEventProjection env p st i au (ttl_events tdb)"
proof -
  note tables = tick_event_tables [OF assms(1,3)]
  have e: "e \<in> set (business_events (ttl_events tdb))" "event_key e = (p, st, i)" using find_event_SomeD [OF assms(4)] by auto
  have found': "find_event p st i (ttl_events tdb') = Some e" using assms(4) by (simp add: find_event_def tables)
  have cand: "candidate_tasks e (ttl_events tdb') = candidate_tasks e (ttl_events tdb)"
    by (simp add: candidate_tasks_def related_tasks_def tables split: option.split)
  have related: "still_related (now (tx_env cx)) p t (ttl_events tdb)" if "t \<in> set (candidate_tasks e (ttl_events tdb))" for t
  proof -
    from that assms(5) obtain r where "r \<in> set (relations (ttl_events tdb))" "relation_event r = event_key e" "rl_task_id r = t"
      by (auto simp: candidate_tasks_def related_tasks_def)
    with e assms(6) show ?thesis unfolding still_related_def list_ex_iff by (intro bexI [of _ r] conjI bexI [of _ e]) auto
  qed
  note same = authorities_kept [OF assms(1,2,3) related]
  have vis: "filter (visible_to p au (ttl_events tdb')) (candidate_tasks e (ttl_events tdb)) =
      filter (visible_to p au (ttl_events tdb)) (candidate_tasks e (ttl_events tdb))"
    by (rule filter_cong) (simp_all add: visible_to_def same)
  have fsts: "x \<in> set (map fst A) \<longleftrightarrow> (\<exists>y. (x, y) \<in> set A)" for x :: string and A :: "(string \<times> BusinessEventAuthorizationSnapshot) list"
    by force
  have "set (candidate_tasks e (ttl_events tdb)) \<inter> set (map fst (authorities p (ttl_events tdb'))) =
      set (candidate_tasks e (ttl_events tdb)) \<inter> set (map fst (authorities p (ttl_events tdb)))"
    using same unfolding set_eq_iff Int_iff fsts by blast
  with assms(4) found' cand vis show ?thesis by (simp add: authorizedEventProjection_def Let_def)
qed

end
