(* ===== verification/Event_Example.thy ===== *)
theory Event_Example
  imports Event_Theorems
begin

text \<open>
  A run of the business event store: a provider with one durable source takes in a fact about a resource, publishes it, projects it for the
  caller whose task was bound to the resource, and rotates to a new stream.  The theorems are applied to its states.
\<close>

section \<open>The run\<close>

definition fx_hash :: string where
  "fx_hash = ''sha256:0000000000000000000000000000000000000000000000000000000000000000''"

definition fx_env :: event_env where
  "fx_env = \<lparr>clk = 1000, now = 1000, sha256 = (\<lambda>s. replicate 64 CHR ''0''), legacy_date = (\<lambda>s. None), collate = (\<lambda>s. s),
     sha1 = (\<lambda>n s. replicate 20 0), unicode_nfc = (\<lambda>s. s), sha256_base64url = (\<lambda>s. replicate 43 CHR ''e''),
     timestamptz = (\<lambda>s. Some 900), db_collate = (\<lambda>s. s), providerOpsRecorder = None\<rparr>"

definition fx_source :: BusinessEventSourceDefinition where
  "fx_source = \<lparr>sd_sourceId = ''s'', sd_sourceStreamId = ''u'', sd_deliverySemantics = durable_at_least_once\<rparr>"

definition fx_item :: BusinessEventSourceFact where
  "fx_item = \<lparr>sf_sourceEventId = ''x'', sf_sourceSequence = ''1'', sf_sourceStreamId = ''u'', sf_scope = scope_resource,
     sf_occurredAt = ''2024-01-01T00:00:00Z'', sf_eventType = ''t'', sf_description = ''d'', sf_externalExecutionId = None,
     sf_resourceRef = Some ''r'', sf_severityHint = None, sf_reasonCode = None, sf_rawPayload = None\<rparr>"

definition fx_values :: intake_values where
  "fx_values = \<lparr>iv_sequence = 1, iv_occurredAt = ''2024-01-01T00:00:00Z'', iv_sourceHash = fx_hash, iv_rawHash = fx_hash\<rparr>"

definition fx_au :: BusinessEventAuthorizationSnapshot where
  "fx_au = \<lparr>bz_authorizationScopeHash = replicate 64 CHR ''a'', bz_executionMode = live, bz_simulationId = None\<rparr>"

definition fx_db0 :: event_db where
  "fx_db0 = empty_event_db\<lparr>
     task_store := empty_db\<lparr>resource_binding :=
       [\<lparr>rb_provider_id = ''p'', rb_task_id = ''k'', rb_resource_ref = ''r'', rb_bound_at = 100, rb_terminal_at = None, rb_retain_until = 200\<rparr>]\<rparr>,
     tombstones := [\<lparr>tb_provider_id = ''p'', tb_task_id = ''k'', tb_authorization_hash = replicate 64 CHR ''a'', tb_execution_mode = live,
       tb_simulation_id = None, tb_resource_ref = Some ''r'', tb_terminal_at = 950, tb_retain_until = 5000\<rparr>]\<rparr>"

definition fx_gen :: "generation_status \<Rightarrow> int \<Rightarrow> generation_row" where
  "fx_gen status n = (new_generation fx_env ''p'' ''g'' status all_durable 1000)\<lparr>gn_current_sequence := n\<rparr>"

definition fx_db1 :: event_db where
  "fx_db1 = fx_db0\<lparr>generations := [fx_gen G_current 0],
     runtime_state := [\<lparr>rt_provider_id = ''p'', rt_current_stream_id = ''g'', rt_generation_version = 1\<rparr>],
     generation_sources := [new_generation_source ''p'' ''g'' fx_source],
     source_states := [new_source_state ''p'' fx_source]\<rparr>"

definition fx_state :: "int \<Rightarrow> int \<Rightarrow> int \<Rightarrow> string \<Rightarrow> source_row" where
  "fx_state token persisted finalized owner = (new_source_state ''p'' fx_source)\<lparr>ss_lease_owner := Some owner, ss_lease_until := Some 1500,
     ss_fencing_token := token, ss_last_persisted := persisted, ss_last_finalized := finalized\<rparr>"

definition fx_lease :: BusinessEventLease where
  "fx_lease = mapLease (fx_state 1 0 0 ''o'')"

definition fx_db2 :: event_db where
  "fx_db2 = fx_db1\<lparr>source_states := [fx_state 1 0 0 ''o'']\<rparr>"

definition fx_row :: event_inbox_row where
  "fx_row = (fact_inbox_row fx_env fx_lease fx_item fx_values 900 None 1000 1000)\<lparr>bx_inbox_id := 1\<rparr>"

definition fx_db3 :: event_db where
  "fx_db3 = fx_db2\<lparr>event_inbox := [fx_row], next_inbox_id := 2,
     source_states := [(fx_state 1 1 0 ''o'')\<lparr>ss_last_seen_at := Some 1000\<rparr>]\<rparr>"

definition fx_ready :: event_inbox_row where
  "fx_ready = mark_ready fx_env [(''candidateRelatedTaskIds'', JArr [JStr ''k'']), (''candidateRelatedTaskCount'', JNum 1)] fx_row"

definition fx_db4 :: event_db where
  "fx_db4 = fx_db3\<lparr>event_inbox := [fx_ready]\<rparr>"

definition fx_event :: event_row where
  "fx_event = \<lparr>be_provider_id = ''p'', be_stream_id = ''g'', be_sequence = 1, be_event_id = replicate 43 CHR ''e'', be_source_id = ''s'',
     be_source_stream_id = ''u'', be_source_event_id = ''x'', be_source_sequence = 1, be_canonical_hash = Some fx_hash,
     be_stored_hash = fx_hash, be_event_type = ''t'', be_occurred_at = 900, be_scope = Some scope_resource, be_description = ''d'',
     be_task_id = None, be_resource_ref = Some ''r'', be_candidate_count = 1, be_severity_hint = None, be_reason_code = None,
     be_raw_payload = JObj [], be_created_at = 1000, be_expires_at = 3000\<rparr>"

definition fx_db5 :: event_db where
  "fx_db5 = fx_db4\<lparr>business_events := [fx_event],
     relations := [\<lparr>rl_provider_id = ''p'', rl_stream_id = ''g'', rl_event_id = replicate 43 CHR ''e'', rl_task_id = ''k'', rl_ordinal = 0\<rparr>],
     generations := [fx_gen G_current 1],
     event_inbox := [fx_ready\<lparr>bx_status := X_published, bx_finalized_at := Some 1000\<rparr>],
     source_states := [(fx_state 1 1 1 ''o'')\<lparr>ss_last_seen_at := Some 1000\<rparr>],
     task_store := (task_store fx_db4)\<lparr>resource_binding := map (\<lambda>b. b\<lparr>rb_retain_until := 3000\<rparr>) (resource_binding (task_store fx_db4))\<rparr>\<rparr>"

definition fx_identity :: ProjectionIdentity where
  "fx_identity = \<lparr>pr_providerId = ''p'', pr_streamId = ''g'', pr_eventId = replicate 43 CHR ''e'', pr_authorization = fx_au,
     pr_candidateRelationHash = fx_hash, pr_projectionRelationHash = fx_hash\<rparr>"

definition fx_token :: string where
  "fx_token = replicate 43 CHR ''z''"

definition fx_db6 :: event_db where
  "fx_db6 = fx_db5\<lparr>projections := [new_projection fx_env (replicate 64 CHR ''0'') fx_identity 100],
     projection_items := [\<lparr>pt_token_hash = replicate 64 CHR ''0'', pt_task_id = ''k'', pt_ordinal = 0\<rparr>]\<rparr>"

definition fx_rotation :: rotation_input where
  "fx_rotation = \<lparr>ri_newStreamId = ''h'', ri_continuityId = ''c'', ri_providerId = ''p'', ri_reasonCode = ''SOURCE_LOST'',
     ri_affectedSourceIds = [], ri_reasonIdentity = ''i'', ri_retentionMs = 1000, ri_replacementRoster = None\<rparr>"

lemmas fx_states = fx_db0_def fx_db1_def fx_db2_def fx_db3_def fx_db4_def fx_db5_def fx_db6_def

lemma fx_printed: "toISOString 1704067200000 = ''2024-01-01T00:00:00.000Z''"
proof -
  have civil: "civil_date 19723 = (2024, 1, 1)" by code_simp
  have digits: "show_nat 2024 = ''2024''" "show_nat 0 = ''0''" "show_nat (Suc 0) = ''1''" by code_simp+
  show ?thesis by (simp add: toISOString_def civil digits Let_def show_year_def numeral_2_eq_2 del: show_nat.simps)
qed

lemma fx_occurred: "normalizeRfc3339Nano ''2024-01-01T00:00:00Z'' = Inr ''2024-01-01T00:00:00Z''"
proof -
  have fields: "field 0 4 ''2024-01-01T00:00:00Z'' = 2024" "field 5 2 ''2024-01-01T00:00:00Z'' = 1"
    "field 8 2 ''2024-01-01T00:00:00Z'' = 1" "field 11 2 ''2024-01-01T00:00:00Z'' = 0"
    "field 14 2 ''2024-01-01T00:00:00Z'' = 0" "field 17 2 ''2024-01-01T00:00:00Z'' = 0"
    by (simp_all add: field_def read_nat_def read_digit_def)
  have "nano_format ''2024-01-01T00:00:00Z''"
    by (simp add: nano_format_def is_zone_def is_digit_def matches_template_def)
  moreover have "Date_UTC 2024 0 1 0 0 0 = 1704067200000" by (simp add: Date_UTC_def day_number_def Let_def)
  ultimately show ?thesis
    by (simp add: normalizeRfc3339Nano_def fx_printed fields Let_def valid_date_def strip_zeros_def del: show_nat.simps)
qed

lemma fx_input: "intake_input fx_env fx_lease fx_item = Inr fx_values"
proof -
  have "parseBusinessEventSequence (sf_sourceSequence fx_item) False = Inr 1" by code_simp
  moreover have "source_hash fx_env fx_lease fx_item ''2024-01-01T00:00:00Z'' = Inr fx_hash" by code_simp
  moreover have "event_hash fx_env (fact_json fx_item) = Inr fx_hash" by code_simp
  ultimately show ?thesis by (simp add: intake_input_def fx_values_def) (simp add: fx_item_def fx_occurred)
qed

lemma fx_initialize: "initializeProvider fx_env ''g'' ''p'' [fx_source] 1000 fx_db0 = (Inr (mapGeneration (fx_gen G_current 0)), fx_db1)"
  by code_simp

lemma fx_acquire: "acquireSourceLease fx_env ''p'' ''s'' ''u'' ''o'' 500 fx_db1 = (Inr (Some fx_lease), fx_db2)"
  by code_simp

lemma fx_intake:
  "intakeSourceFact fx_env fx_lease fx_item 1000 1000 fx_db2 =
     (Inr \<lparr>ik_disposition = intake_received, ik_sourceCanonicalHash = fx_hash\<rparr>, fx_db3)"
proof -
  have "transaction fx_db2 (intake_transaction fx_env fx_lease fx_item fx_values 1000 1000 fx_db2) =
      (Inr \<lparr>ik_disposition = intake_received, ik_sourceCanonicalHash = fx_hash\<rparr>, fx_db3)" by code_simp
  then show ?thesis by (simp add: intakeSourceFact_def fx_input)
qed

lemma fx_prepare: "prepareNextSourceEvent fx_env ''p'' ''s'' fx_db3 = (Inr prepare_ready, fx_db4)"
  by code_simp

lemma fx_finalize: "finalizeNextSourceEvent fx_env ''p'' ''s'' 2000 fx_db4 = (Inr (Some (mapStoredEvent fx_event)), fx_db5)"
  by code_simp

lemma fx_project: "createRelationProjection fx_env fx_token fx_identity [''k''] 100 fx_db5 = (Inr fx_token, fx_db6)"
  by code_simp

lemma fx_rotate:
  "fst (rotateStream fx_env fx_rotation fx_db6) =
     Inr \<lparr>ro_previousStreamId = ''g'', ro_newStreamId = ''h'', ro_reasonCode = ''SOURCE_LOST'', ro_affectedSourceIds = [''s''],
       ro_lastReplayableSequence = 1, ro_lastContinuousSequence = Some 1, ro_gapDetectedAt = 1000\<rparr>"
  by code_simp

lemma fx_start: "event_step empty_event_db fx_db0"
proof -
  have "event_schema_ok fx_db0" by code_simp
  then show ?thesis unfolding fx_db0_def by (rule step_tasks)
qed

lemma fx_steps:
  "event_step fx_db0 fx_db1" "event_step fx_db1 fx_db2" "event_step fx_db2 fx_db3" "event_step fx_db3 fx_db4" "event_step fx_db4 fx_db5"
  "event_step fx_db5 fx_db6"
  using step_initialize [of fx_db0 fx_env "''g''" "''p''" "[fx_source]" 1000]
    step_acquire [of fx_db1 fx_env "''p''" "''s''" "''u''" "''o''" 500]
    step_intake [of fx_db2 fx_env fx_lease fx_item 1000 1000] step_prepare [of fx_db3 fx_env "''p''" "''s''"]
    step_finalize [of fx_db4 fx_env "''p''" "''s''" 2000] step_project [of fx_db5 fx_env fx_token fx_identity "[''k'']" 100]
  by (simp_all add: fx_initialize fx_acquire fx_intake fx_prepare fx_finalize fx_project)

lemma fx_reachable:
  "event_reachable fx_db1" "event_reachable fx_db2" "event_reachable fx_db3" "event_reachable fx_db4" "event_reachable fx_db5"
  "event_reachable fx_db6"
  using fx_start fx_steps by (meson rtranclp.rtrancl_into_rtrancl rtranclp.rtrancl_refl)+

section \<open>Witnesses\<close>

theorem event_streams_gapless_witness:
  "event_reachable fx_db6 \<and> find_generation ''p'' ''g'' fx_db6 = Some (fx_gen G_current 1) \<and>
   map be_sequence (stream_events fx_db6 (''p'', ''g'')) = [1]"
proof -
  have g: "find_generation ''p'' ''g'' fx_db6 = Some (fx_gen G_current 1)" by code_simp
  have "[1..gn_current_sequence (fx_gen G_current 1)] = [1]" by (simp add: fx_gen_def)
  with event_streams_gapless [OF fx_reachable(6) g] g fx_reachable(6) show ?thesis by simp
qed

theorem one_current_stream_witness:
  "event_reachable fx_db6 \<and> find_runtime ''p'' fx_db6 \<noteq> None \<and>
   (\<exists>g. filter (\<lambda>g. gn_provider_id g = ''p'' \<and> gn_status g = G_current) (generations fx_db6) = [g] \<and> gn_stream_id g = ''g'' \<and>
     currentGeneration ''p'' fx_db6 = Some (mapGeneration g))"
proof -
  have r: "find_runtime ''p'' fx_db6 = Some \<lparr>rt_provider_id = ''p'', rt_current_stream_id = ''g'', rt_generation_version = 1\<rparr>" by code_simp
  from one_current_stream [OF fx_reachable(6) r] r fx_reachable(6) show ?thesis by simp
qed

theorem replay_is_contiguous_witness:
  "event_reachable fx_db6 \<and> find_generation ''p'' ''g'' fx_db6 = Some (fx_gen G_current 1) \<and>
   (\<exists>events. replayEvents ''p'' ''g'' 0 5 10 fx_db6 = Inr events \<and> map fe_sequence events = [1])"
proof -
  have g: "find_generation ''p'' ''g'' fx_db6 = Some (fx_gen G_current 1)" by code_simp
  have "take (nat 10) [max 1 (0 + 1)..min (gn_current_sequence (fx_gen G_current 1)) 5] = [1]" by (simp add: fx_gen_def)
  with replay_is_contiguous [OF fx_reachable(6) g, of 10 0 5] g fx_reachable(6) show ?thesis by auto
qed

theorem stale_lease_fenced_witness:
  "event_reachable fx_db1 \<and> acquireSourceLease fx_env ''p'' ''s'' ''u'' ''o'' 500 fx_db1 = (Inr (Some fx_lease), fx_db2) \<and>
   le_fencingToken (mapLease (fx_state 0 0 0 ''old'')) < le_fencingToken fx_lease \<and>
   renewSourceLease fx_env (mapLease (fx_state 0 0 0 ''old'')) 500 fx_db3 = (Inl (Error ''BUSINESS_EVENT_STALE_FENCE''), fx_db3)"
proof -
  have later: "event_step\<^sup>*\<^sup>* fx_db2 fx_db3" using fx_steps(3) by (rule r_into_rtranclp)
  have l: "le_providerId (mapLease (fx_state 0 0 0 ''old'')) = ''p''" "le_sourceId (mapLease (fx_state 0 0 0 ''old'')) = ''s''"
    "le_fencingToken (mapLease (fx_state 0 0 0 ''old'')) < le_fencingToken fx_lease" by code_simp+
  from stale_lease_fenced [OF fx_reachable(1) fx_acquire later l] fx_reachable(1) fx_acquire l show ?thesis by simp
qed

theorem fact_taken_in_once_witness:
  "event_reachable fx_db2 \<and> lockAndValidateLease fx_env fx_lease fx_db4 \<noteq> Inl (Error ''BUSINESS_EVENT_STALE_FENCE'') \<and>
   intakeSourceFact fx_env fx_lease fx_item 7 8 fx_db4 =
     (Inr \<lparr>ik_disposition = intake_duplicate, ik_sourceCanonicalHash = fx_hash\<rparr>, fx_db4)"
proof -
  have later: "event_step\<^sup>*\<^sup>* fx_db3 fx_db4" using fx_steps(4) by (rule r_into_rtranclp)
  have lock: "lockAndValidateLease fx_env fx_lease fx_db4 = Inr ((fx_state 1 1 0 ''o'')\<lparr>ss_last_seen_at := Some 1000\<rparr>)" by code_simp
  from fact_taken_in_once [OF fx_reachable(2) fx_intake _ later refl refl refl refl refl lock, of 7 8] lock fx_reachable(2)
  show ?thesis by simp
qed

theorem published_in_source_order_witness:
  "event_reachable fx_db4 \<and> finalizeNextSourceEvent fx_env ''p'' ''s'' 2000 fx_db4 = (Inr (Some (mapStoredEvent fx_event)), fx_db5) \<and>
   (\<exists>row \<in> set (event_inbox fx_db4). bx_status row = X_ready \<and> bx_sequence row = Some 1)"
proof -
  have "fe_sourceSequence (mapStoredEvent fx_event) = 1" by code_simp
  with published_in_source_order [OF fx_reachable(4) fx_finalize] fx_reachable(4) fx_finalize show ?thesis by auto
qed

theorem rotation_happens_once_witness:
  "event_reachable fx_db6 \<and> fst (rotateStream fx_env fx_rotation fx_db6) =
     fst (rotateStream fx_env fx_rotation (snd (rotateStream fx_env fx_rotation fx_db6))) \<and>
   snd (rotateStream fx_env fx_rotation (snd (rotateStream fx_env fx_rotation fx_db6))) = snd (rotateStream fx_env fx_rotation fx_db6)"
proof -
  obtain res where run: "rotateStream fx_env fx_rotation fx_db6 = (Inr res, snd (rotateStream fx_env fx_rotation fx_db6))"
    using fx_rotate by (metis prod.collapse)
  from rotation_happens_once [OF fx_reachable(6) run rtranclp.rtrancl_refl refl refl, of fx_env] run fx_reachable(6)
  show ?thesis by (metis fst_conv snd_conv)
qed

theorem projection_shows_own_tasks_witness:
  "event_reachable fx_db5 \<and> (\<exists>view. authorizedEventProjection fx_env ''p'' ''g'' (replicate 43 CHR ''e'') fx_au fx_db5 = Inr (Some view) \<and>
     ap_relatedTaskIds view \<noteq> [] \<and> sorted (ap_relatedTaskIds view))"
proof -
  let ?view = "\<lparr>ap_event = mapStoredEvent fx_event, ap_relatedTaskIds = [''k''], ap_candidateRelationHash = fx_hash,
    ap_projectionRelationHash = fx_hash\<rparr>"
  have v: "authorizedEventProjection fx_env ''p'' ''g'' (replicate 43 CHR ''e'') fx_au fx_db5 = Inr (Some ?view)" by code_simp
  from projection_shows_own_tasks [OF fx_reachable(5) v] v fx_reachable(5) show ?thesis by auto
qed

theorem relation_pages_are_complete_witness:
  "event_reachable fx_db6 \<and> (\<exists>page. relationProjectionPage fx_env fx_token (''p'', ''g'', replicate 43 CHR ''e'') fx_au None 10 fx_db6 = Inr page \<and>
     pp_total page = length (projected_tasks (sha256 fx_env fx_token) fx_db6))"
proof -
  let ?page = "\<lparr>pp_items = [''k''], pp_total = 1, pp_nextAfterTaskId = None\<rparr>"
  have v: "relationProjectionPage fx_env fx_token (''p'', ''g'', replicate 43 CHR ''e'') fx_au None 10 fx_db6 = Inr ?page" by code_simp
  from relation_pages_are_complete [OF fx_reachable(6) v] v fx_reachable(6) show ?thesis by auto
qed

end
