(* ===== verification/Ttl_Example.thy ===== *)
theory Ttl_Example
  imports Ttl_Theorems Event_Example Store_Admission
begin

text \<open>
  Ticks of the TTL cleaner: a cancelled task whose grace period is over, and to which a resource event still relates, is purged; the same task with a
  stored input response makes the tick fail.  The theorems about the cleaner are applied to these states.
\<close>

definition kx_input :: AdmissionIntentInput where
  "kx_input = \<lparr>in_taskId = ''k'', in_providerId = ''p'', in_operationName = ''op'', in_operationSnapshotId = ''s1'',
     in_authorization = \<lparr>au_hash = replicate 64 CHR ''a'', au_executionMode = live, au_simulationId = None, au_correlationId = None,
       au_traceId = None, au_rootTraceparent = None, au_rootTracestate = None\<rparr>,
     in_arguments = [], in_argumentHash = ''a'', in_acceptedAt = 100, in_notBefore = 100, in_latestStartAt = 200, in_deadlineAt = None,
     in_ttlMs = Some 100, in_timing = \<lparr>tm_start = immediate 100, tm_maxElapsedMs = None\<rparr>, in_reservationRef = None\<rparr>"

definition kx_env :: runtime_env where
  "kx_env = \<lparr>clk = 1000, now = 1000, sha256 = (\<lambda>s. s), legacy_date = (\<lambda>_. None), collate = (\<lambda>s. s)\<rparr>"

definition kx_row :: task_row where
  "kx_row = (default_row kx_env kx_input)\<lparr>internal_state := TERMINAL_CANCELLED, mcp_status := cancelled, handle_expires_at := Some 600,
     terminal_at := Some 500, expired_at := Some 700, purge_after := Some 800\<rparr>"

definition kx_store :: db where
  "kx_store = empty_db\<lparr>provider_task := [kx_row],
     task_observation := [\<lparr>ob_task_id = ''k'', ob_revision = 1, ob_type = ''task.cancelled'', ob_reason_code = None, ob_occurred_at = 500,
       ob_message = None, ob_substate = None, ob_progress = None, ob_from_adapter = False, ob_adapter_revision = None, ob_payload = []\<rparr>],
     resource_binding := resource_binding (task_store fx_db5)\<rparr>"

definition kx_db :: ttl_db where
  "kx_db = \<lparr>ttl_events = fx_db5\<lparr>task_store := kx_store, tombstones := []\<rparr>, ttl_idempotency = []\<rparr>"

definition kx_answered :: ttl_db where
  "kx_answered = kx_db\<lparr>ttl_events := (ttl_events kx_db)\<lparr>task_store := kx_store\<lparr>
     task_input_request := [\<lparr>input_request_row.ir_task_id = ''k'', ir_key = ''q'', ir_description = ''d'', ir_schema = JObj [], ir_required = True,
       ir_status = ANSWERED, ir_request_json = JObj [], ir_answer_hash = None, ir_answer = None, ir_response_hash = None,
       ir_response_json = None, ir_answered_at = None\<rparr>],
     task_input_response_inbox := [\<lparr>ib_task_id = ''k'', ib_key = ''q'', ib_response_hash = ''h'', ib_response_json = JObj [],
       ib_state = IB_ACKNOWLEDGED, ib_command_sequence = Some 1, ib_accepted_at = 300, ib_last_error_code = None\<rparr>]\<rparr>\<rparr>\<rparr>"

definition kx_cx :: ttl_context where
  "kx_cx = \<lparr>tx_env = kx_env, tx_locked = (\<lambda>_ _. False), tx_published = (\<lambda>_. True), tx_ownerId = (\<lambda>_. ''o'')\<rparr>"

definition kx_opts :: TtlCleanerOptions where
  "kx_opts = \<lparr>to_batchSize = 128, to_purgeGraceMs = 86400000, to_recoveryLeaseMs = 30000\<rparr>"

lemma kx_due: "map task_id (purged_rows kx_cx kx_opts (ttl_tasks kx_db)) = [''k'']"
  "map task_id (purged_rows kx_cx kx_opts (ttl_tasks kx_answered)) = [''k'']"
  by code_simp+

lemma kx_ready: "cleaner_ready kx_cx kx_opts kx_db" "cleaner_ready kx_cx kx_opts kx_answered" "no_early_tombstones kx_db"
  by code_simp+

lemma kx_inv: "db_inv (ttl_tasks kx_db)"
  by code_simp

lemma kx_tick: obtains res tdb' where "ttl_tick kx_cx kx_opts kx_db = (Inr res, tdb')"
  using kx_ready(1)
proof (cases rule: tick_cases)
  case (failed e)
  moreover have "task_input_response_inbox (ttl_tasks kx_db) = []" by code_simp
  ultimately show thesis by (simp add: responses_of_def)
qed (rule that)

text \<open>The purge succeeds; with a stored response, the tick fails and changes nothing.\<close>

theorem ttl_tick_outcome_witness:
  "(\<exists>res tdb'. ttl_tick kx_cx kx_opts kx_db = (Inr res, tdb') \<and> tr_purged res = 1 \<and> provider_task (ttl_tasks tdb') = []) \<and>
   (\<exists>e. ttl_tick kx_cx kx_opts kx_answered = (Inl e, kx_answered))"
proof
  have inbox: "task_input_response_inbox (ttl_tasks kx_db) = []" by code_simp
  have "map task_id (retained_rows kx_cx kx_opts (ttl_tasks kx_db)) = [''k'']" by code_simp
  then have none: "filter (\<lambda>r. task_id r \<notin> set (map task_id (purged_rows kx_cx kx_opts (ttl_tasks kx_db))))
      (retained_rows kx_cx kx_opts (ttl_tasks kx_db)) = []"
    unfolding kx_due by (auto simp: filter_empty_conv map_eq_Cons_conv)
  have "length (purged_rows kx_cx kx_opts (ttl_tasks kx_db)) = 1" using arg_cong [OF kx_due(1), of length] by simp
  with ttl_tick_outcome [OF kx_ready(1)] inbox none
  show "\<exists>res tdb'. ttl_tick kx_cx kx_opts kx_db = (Inr res, tdb') \<and> tr_purged res = 1 \<and> provider_task (ttl_tasks tdb') = []"
    by (auto simp: remove_tasks_def)
  have "\<exists>q \<in> set (task_input_response_inbox (ttl_tasks kx_answered)). ib_task_id q \<in> set [''k'']" by code_simp
  then have "\<exists>q \<in> set (task_input_response_inbox (ttl_tasks kx_answered)).
      ib_task_id q \<in> set (map task_id (purged_rows kx_cx kx_opts (ttl_tasks kx_answered)))" unfolding kx_due .
  with ttl_tick_outcome [OF kx_ready(2)] show "\<exists>e. ttl_tick kx_cx kx_opts kx_answered = (Inl e, kx_answered)" by meson
qed

theorem ttl_tick_keeps_stores_witness:
  "cleaner_ready kx_cx kx_opts kx_db \<and> db_inv (ttl_tasks (snd (ttl_tick kx_cx kx_opts kx_db)))"
  using ttl_tick_keeps_stores [OF kx_ready(1) kx_inv] kx_ready(1) by simp

theorem ttl_tick_keeps_projections_witness:
  "\<exists>res tdb' view. ttl_tick kx_cx kx_opts kx_db = (Inr res, tdb') \<and> ap_relatedTaskIds view = [''k''] \<and>
     authorizedEventProjection fx_env ''p'' ''g'' (replicate 43 CHR ''e'') fx_au (ttl_events tdb') = Inr (Some view)"
proof -
  obtain res tdb' where run: "ttl_tick kx_cx kx_opts kx_db = (Inr res, tdb')" by (rule kx_tick)
  have e: "find_event ''p'' ''g'' (replicate 43 CHR ''e'') (ttl_events kx_db) = Some fx_event" by code_simp
  have f: "be_scope fx_event = Some scope_resource" "now (tx_env kx_cx) < be_expires_at fx_event" by code_simp+
  let ?view = "\<lparr>ap_event = mapStoredEvent fx_event, ap_relatedTaskIds = [''k''], ap_candidateRelationHash = fx_hash,
    ap_projectionRelationHash = fx_hash\<rparr>"
  have "authorizedEventProjection fx_env ''p'' ''g'' (replicate 43 CHR ''e'') fx_au (ttl_events kx_db) = Inr (Some ?view)" by code_simp
  with ttl_tick_keeps_projections [OF kx_ready(1,3) run e f] run show ?thesis
    by (intro exI [of _ res] exI [of _ tdb'] exI [of _ ?view]) simp
qed

end
