(* ===== verification/Service.thy ===== *)
theory Service
  imports Ttl_Theorems Store_Theorems
begin

text \<open>
  The stores of the service with everything that writes them: the operations of the task repository, those of the event
  repository, the idempotency records and the retention cleaner, in any interleaving.  What the repository keeps is shown to
  hold with the cleaner running, and a final task to be left alone until the cleaner purges it.
\<close>

section \<open>The stores as a state machine\<close>

abbreviation with_tasks :: "db \<Rightarrow> ttl_db \<Rightarrow> ttl_db" where
  "with_tasks d tdb \<equiv> tdb\<lparr>ttl_events := (ttl_events tdb)\<lparr>task_store := d\<rparr>\<rparr>"

text \<open>Of the task store, the operations on events change only the retention of resource bindings.\<close>

definition only_bindings :: "db \<Rightarrow> db \<Rightarrow> bool" where
  "only_bindings d d' = (schema_ok d' \<and> (\<exists>bs. d' = d\<lparr>resource_binding := bs\<rparr>))"

inductive service_step :: "ttl_db \<Rightarrow> ttl_db \<Rightarrow> bool" where
  repository: "repo_step (ttl_tasks tdb) d \<Longrightarrow> service_step tdb (with_tasks d tdb)"
| event_repository: "event_step (ttl_events tdb) e \<Longrightarrow> only_bindings (ttl_tasks tdb) (task_store e) \<Longrightarrow>
    service_step tdb (tdb\<lparr>ttl_events := e\<rparr>)"
| records: "idem_step {} (ttl_idempotency tdb) tbl \<Longrightarrow> service_step tdb (tdb\<lparr>ttl_idempotency := tbl\<rparr>)"
| cleaner: "cleaner_ready cx opts tdb \<Longrightarrow> ttl_tick cx opts tdb = (r, tdb') \<Longrightarrow> service_step tdb tdb'"

inductive_cases service_stepE: "service_step tdb tdb'"

definition initial_service :: "ttl_db \<Rightarrow> bool" where
  "initial_service tdb = (initial_store (ttl_tasks tdb) \<and> ttl_idempotency tdb = [])"

definition reachable_service :: "ttl_db \<Rightarrow> bool" where
  "reachable_service tdb = (\<exists>s. initial_service s \<and> service_step\<^sup>*\<^sup>* s tdb)"

lemma repository_steps: "repo_step\<^sup>*\<^sup>* d d' \<Longrightarrow> service_step\<^sup>*\<^sup>* (with_tasks d tdb) (with_tasks d' tdb)"
proof (induction rule: rtranclp_induct)
  case (step d1 d2)
  have "service_step (with_tasks d1 tdb) (with_tasks d2 (with_tasks d1 tdb))" by (rule repository) (use step(2) in simp)
  with step.IH show ?case by simp
qed simp

section \<open>The invariant\<close>

lemma unique_key_filter: "distinct (map f xs) \<Longrightarrow> x \<in> set xs \<Longrightarrow> filter (\<lambda>y. f y = f x) xs = [x]"
  by (induction xs) (auto simp: filter_empty_conv image_iff)

lemma bindings_inv: "only_bindings d d' \<Longrightarrow> db_inv d \<Longrightarrow> db_inv d'"
  by (auto simp: only_bindings_def db_inv_def)

lemma service_step_inv: "service_step tdb tdb' \<Longrightarrow> db_inv (ttl_tasks tdb) \<Longrightarrow> db_inv (ttl_tasks tdb')"
proof (induction rule: service_step.induct)
  case (repository tdb d)
  then show ?case using repo_step_safe by (simp add: safe_rel_def)
next
  case (cleaner cx opts tdb r tdb')
  then show ?case using tick_stores(1) [OF cleaner(1)] by simp
qed (simp_all add: bindings_inv)

interpretation service: step_invariant initial_service service_step "\<lambda>tdb. db_inv (ttl_tasks tdb)"
  by unfold_locales (auto simp: initial_service_def initial_store_inv service_step_inv)

lemma reachable_service_inv: "reachable_service tdb \<Longrightarrow> db_inv (ttl_tasks tdb)"
  by (auto simp: reachable_service_def intro: service.reachable_inv)

text \<open>C14. Whatever the repositories and the retention cleaner do, in any interleaving, the records of a task agree with each other: it has
  exactly one row, with a result exactly when its status is completed and an error exactly when it is failed; its observations carry
  the revisions 1, 2, up to its observation revision in the order they were written; and every command and every observation belongs to a task that
  is there, whose command counter has reached the command's number.\<close>

theorem service_records_agree:
  assumes "reachable_service tdb"
  defines "d \<equiv> ttl_tasks tdb"
  shows "(\<forall>r \<in> set (provider_task d). filter (\<lambda>x. task_id x = task_id r) (provider_task d) = [r] \<and>
      (result r \<noteq> None) = (mcp_status r = completed) \<and> (error r \<noteq> None) = (mcp_status r = failed) \<and>
      map ob_revision (filter (\<lambda>x. ob_task_id x = task_id r) (task_observation d)) = [1..<Suc (observation_revision r)]) \<and>
    (\<forall>x \<in> set (task_observation d). find_task (ob_task_id x) d \<noteq> None) \<and>
    (\<forall>c \<in> set (task_command d). \<exists>r. find_task (cmd_task_id c) d = Some r \<and> cmd_sequence c \<le> next_command_sequence r)"
proof (intro conjI ballI)
  have inv: "db_inv d" unfolding d_def by (rule reachable_service_inv [OF assms(1)])
  note found = find_task_mem [OF inv]
  have keys: "distinct (map task_id (provider_task d))" using inv by (auto simp: db_inv_def intro: schema_okD)
  fix r assume r: "r \<in> set (provider_task d)"
  show "filter (\<lambda>x. task_id x = task_id r) (provider_task d) = [r]" by (rule unique_key_filter [OF keys r])
  show "(result r \<noteq> None) = (mcp_status r = completed)" "(error r \<noteq> None) = (mcp_status r = failed)"
    using db_inv_row_ok [OF inv r] by (simp_all add: row_ok_def)
  show "map ob_revision (filter (\<lambda>x. ob_task_id x = task_id r) (task_observation d)) = [1..<Suc (observation_revision r)]"
    using inv r by (simp add: db_inv_def observations_inv_def revisions_def)
next
  have inv: "db_inv d" unfolding d_def by (rule reachable_service_inv [OF assms(1)])
  note found = find_task_mem [OF inv]
  fix x assume "x \<in> set (task_observation d)"
  with inv obtain r where "r \<in> set (provider_task d)" "task_id r = ob_task_id x" by (auto simp: db_inv_def observations_inv_def)
  with found [of r] show "find_task (ob_task_id x) d \<noteq> None" by simp
next
  have inv: "db_inv d" unfolding d_def by (rule reachable_service_inv [OF assms(1)])
  note found = find_task_mem [OF inv]
  fix c assume "c \<in> set (task_command d)"
  with inv obtain r where "r \<in> set (provider_task d)" "task_id r = cmd_task_id c" "cmd_sequence c \<le> next_command_sequence r"
    by (auto simp: db_inv_def commands_inv_def)
  with found [of r] show "\<exists>r. find_task (cmd_task_id c) d = Some r \<and> cmd_sequence c \<le> next_command_sequence r" by auto
qed

section \<open>Final tasks\<close>

text \<open>A tick of the cleaner that purges the task: due, with a free lease, and therefore final, expired and settled.\<close>

definition purged_by_tick :: "string \<Rightarrow> ttl_db \<Rightarrow> ttl_db \<Rightarrow> bool" where
  "purged_by_tick t tdb tdb' =
     (\<exists>cx opts res r. cleaner_ready cx opts tdb \<and> ttl_tick cx opts tdb = (Inr res, tdb') \<and> r \<in> set (purged_rows cx opts (ttl_tasks tdb)) \<and>
        task_id r = t \<and> purgeable cx (ttl_tasks tdb) r)"

lemma retained_evolves:
  assumes "r \<in> set (provider_task d)"
  shows "\<exists>r' \<in> set (retained_rows cx opts d). row_evolves r r'"
proof -
  have soft: "row_evolves r (renew_handle at r)" "row_evolves r (expire_handle at grace r)" for r at grace
    by (simp_all add: row_evolves_def renew_handle_def expire_handle_def)
  have one: "\<exists>r' \<in> set (update_rows P f rows). row_evolves r r'" if "r \<in> set rows" "\<And>r. row_evolves r (f r)" for P f r rows
    using that row_evolves_refl [of r] unfolding set_update_rows by (cases "P r") blast+
  let ?at = "now (tx_env cx)"
  let ?renewed = "update_rows (\<lambda>r. task_id r \<in> set (map task_id (renew_due cx (nat (to_batchSize opts)) d))) (renew_handle ?at) (provider_task d)"
  from one [where f = "renew_handle ?at", OF assms soft(1)] obtain r1 where r1: "r1 \<in> set ?renewed" "row_evolves r r1" by blast
  from one [where f = "expire_handle ?at (to_purgeGraceMs opts)", OF r1(1) soft(2)] r1(2) show ?thesis
    unfolding retained_rows_def Let_def by (blast intro: row_evolves_trans)
qed

lemma tick_row:
  assumes "cleaner_ready cx opts tdb" "ttl_tick cx opts tdb = (res, tdb')" "r \<in> set (provider_task (ttl_tasks tdb))"
  shows "(\<exists>r' \<in> set (provider_task (ttl_tasks tdb')). row_evolves r r') \<or> purged_by_tick (task_id r) tdb tdb'"
  using assms(1)
proof (cases rule: tick_cases)
  case (failed e)
  with assms(2,3) show ?thesis by (auto intro: row_evolves_refl)
next
  case (done1 res1 tdb1 es dl L bs)
  have eq: "tdb1 = tdb'" "res = Inr res1" using done1(2) assms(2) by auto
  show ?thesis
  proof (cases "task_id r \<in> set (map task_id (purged_rows cx opts (ttl_tasks tdb)))")
    case True
    then obtain g where g: "g \<in> set (purged_rows cx opts (ttl_tasks tdb))" "task_id g = task_id r" by auto
    then have "purgeable cx (ttl_tasks tdb) g"
      using due_rows unfolding purged_rows_def free_rows_def purge_due_def by fastforce
    with g assms(1) done1(2) eq show ?thesis unfolding purged_by_tick_def by blast
  next
    case False
    from retained_evolves [OF assms(3)] obtain r' where "r' \<in> set (retained_rows cx opts (ttl_tasks tdb))" "row_evolves r r'" by blast
    with False have "r' \<in> set (provider_task (ttl_tasks tdb'))"
      unfolding eq(1) [symmetric] by (simp add: done1(5) remove_tasks_def row_evolves_def)
    with \<open>row_evolves r r'\<close> show ?thesis by blast
  qed
qed

lemma service_step_row:
  assumes "service_step tdb tdb'" "db_inv (ttl_tasks tdb)" "r \<in> set (provider_task (ttl_tasks tdb))"
  shows "(\<exists>r' \<in> set (provider_task (ttl_tasks tdb')). row_evolves r r') \<or> purged_by_tick (task_id r) tdb tdb'"
  using assms
proof (induction rule: service_step.induct)
  case (repository tdb d)
  then show ?case using repo_step_safe [OF repository(1)] by (auto simp: safe_rel_def evolves_def)
next
  case (cleaner cx opts tdb res tdb')
  then show ?case using tick_row by blast
qed (auto simp: only_bindings_def intro: row_evolves_refl)

lemma service_row:
  assumes "service_step\<^sup>*\<^sup>* tdb tdb'" "db_inv (ttl_tasks tdb)" "r \<in> set (provider_task (ttl_tasks tdb))"
  shows "(\<exists>r' \<in> set (provider_task (ttl_tasks tdb')). row_evolves r r') \<or>
    (\<exists>s s'. service_step\<^sup>*\<^sup>* tdb s \<and> purged_by_tick (task_id r) s s' \<and> service_step\<^sup>*\<^sup>* s' tdb' \<and>
       (\<exists>r' \<in> set (provider_task (ttl_tasks s)). row_evolves r r'))"
  using assms(1)
proof (induction rule: rtranclp_induct)
  case base
  then show ?case using assms(3) by (blast intro: row_evolves_refl)
next
  case (step a b)
  from step.IH show ?case
  proof (elim disjE bexE exE conjE)
    fix r1 assume r1: "r1 \<in> set (provider_task (ttl_tasks a))" "row_evolves r r1"
    then have id: "task_id r1 = task_id r" by (simp add: row_evolves_def)
    from service_step_row [OF step(2) service.steps_inv [OF step(1) assms(2)] r1(1)] show ?case
    proof (elim disjE bexE)
      fix r2 assume "r2 \<in> set (provider_task (ttl_tasks b))" "row_evolves r1 r2"
      with r1(2) show ?case by (blast intro: row_evolves_trans)
    next
      assume "purged_by_tick (task_id r1) a b"
      with step(1) r1 show ?case unfolding id by blast
    qed
  next
    fix s s' r1 assume "service_step\<^sup>*\<^sup>* tdb s" "purged_by_tick (task_id r) s s'" "service_step\<^sup>*\<^sup>* s' a"
      "r1 \<in> set (provider_task (ttl_tasks s))" "row_evolves r r1"
    with step(2) show ?case by (meson rtranclp.rtrancl_into_rtrancl)
  qed
qed

text \<open>What is final about a task.\<close>

definition same_outcome :: "task_row \<Rightarrow> task_row \<Rightarrow> bool" where
  "same_outcome r r' =
     (spec r' = spec r \<and> internal_state r' = internal_state r \<and> mcp_status r' = mcp_status r \<and> result r' = result r \<and> error r' = error r \<and>
      observation_revision r' = observation_revision r)"

lemma final_row:
  assumes "db_inv d" "r' \<in> set (provider_task d)" "row_evolves r r'" "isTerminalState (internal_state r)"
  shows "filter (\<lambda>x. task_id x = task_id r) (provider_task d) = [r']" "find_task (task_id r) d = Some r'" "same_outcome r r'"
proof -
  have id: "task_id r' = task_id r" using assms(3) by (simp add: row_evolves_def)
  have "distinct (map task_id (provider_task d))" using assms(1) by (auto simp: db_inv_def intro: schema_okD)
  from unique_key_filter [OF this assms(2)] show "filter (\<lambda>x. task_id x = task_id r) (provider_task d) = [r']" by (simp add: id)
  show "find_task (task_id r) d = Some r'" using find_task_mem [OF assms(1,2)] by (simp add: id)
  show "same_outcome r r'" using assms(3,4) by (simp add: row_evolves_def same_outcome_def)
qed

lemma purged_task:
  assumes "purged_by_tick t s s'" "find_task t (ttl_tasks s) = Some r" "db_inv (ttl_tasks s)"
  shows "\<exists>cx opts res. ttl_tick cx opts s = (Inr res, s') \<and> purgeable cx (ttl_tasks s) r \<and> find_task t (ttl_tasks s') = None"
proof -
  from assms(1) obtain cx opts res g where g: "cleaner_ready cx opts s" "ttl_tick cx opts s = (Inr res, s')"
      "g \<in> set (purged_rows cx opts (ttl_tasks s))" "task_id g = t" "purgeable cx (ttl_tasks s) g"
    unfolding purged_by_tick_def by blast
  have "g \<in> set (provider_task (ttl_tasks s))" using g(3) due_rows unfolding purged_rows_def free_rows_def purge_due_def by fastforce
  then have "g = r" using find_task_mem [OF assms(3)] g(4) assms(2) by fastforce
  moreover from g(1) have "find_task t (ttl_tasks s') = None"
  proof (cases rule: tick_cases)
    case (done1 res1 tdb1 es dl L bs)
    have "tdb1 = s'" using done1(2) g(2) by simp
    then show ?thesis using done1(5) g(3,4) by (auto simp: find_task_def first_row_None_iff remove_tasks_def)
  qed (use g(2) in simp)
  ultimately show ?thesis using g(2,5) by blast
qed

text \<open>C2. Terminal is final: once a task is terminal, whatever the repositories do afterwards, in every later state of the stores it has
  exactly one row, with the same state, status, result, error and number of observations, unless a tick of the retention cleaner
  has purged it in between; the tick that did so found it, still in that state, expired, past its grace period and with no unpublished
  event, open command or unsettled admission.\<close>

theorem terminal_is_final:
  assumes "reachable_service tdb" "service_step\<^sup>*\<^sup>* tdb tdb'" "find_task t (ttl_tasks tdb) = Some r" "isTerminalState (internal_state r)"
  shows "(\<exists>r'. filter (\<lambda>x. task_id x = t) (provider_task (ttl_tasks tdb')) = [r'] \<and> same_outcome r r') \<or>
    (\<exists>cx opts res s s' r'. service_step\<^sup>*\<^sup>* tdb s \<and> ttl_tick cx opts s = (Inr res, s') \<and> service_step\<^sup>*\<^sup>* s' tdb' \<and>
       find_task t (ttl_tasks s) = Some r' \<and> same_outcome r r' \<and> purgeable cx (ttl_tasks s) r' \<and> find_task t (ttl_tasks s') = None)"
proof -
  note inv = reachable_service_inv [OF assms(1)]
  have r: "r \<in> set (provider_task (ttl_tasks tdb))" "task_id r = t" using find_task_SomeD [OF assms(3)] by auto
  from service_row [OF assms(2) inv r(1)] show ?thesis
  proof (elim disjE bexE exE conjE)
    fix r' assume "r' \<in> set (provider_task (ttl_tasks tdb'))" "row_evolves r r'"
    from final_row(1,3) [OF service.steps_inv [OF assms(2) inv] this assms(4)] show ?thesis unfolding r(2) by blast
  next
    fix s s' r' assume s: "service_step\<^sup>*\<^sup>* tdb s" "purged_by_tick (task_id r) s s'" "service_step\<^sup>*\<^sup>* s' tdb'"
      "r' \<in> set (provider_task (ttl_tasks s))" "row_evolves r r'"
    note final = final_row(2,3) [OF service.steps_inv [OF s(1) inv] s(4,5) assms(4)]
    from purged_task [OF s(2) final(1) service.steps_inv [OF s(1) inv]] s(1,3) final show ?thesis unfolding r(2) by blast
  qed
qed

end
