(* ===== verification/Service_Example.thy ===== *)
theory Service_Example
  imports Service Ttl_Example Store_Example
begin

text \<open>
  The stores of the service in a concrete run: a task that missed its start window, and the cleaner at work.
\<close>

definition mx_db :: "db \<Rightarrow> ttl_db" where
  "mx_db d = \<lparr>ttl_events = fx_db5\<lparr>task_store := d\<rparr>, ttl_idempotency = []\<rparr>"

lemma mx_steps: "repo_step\<^sup>*\<^sup>* d d' \<Longrightarrow> service_step\<^sup>*\<^sup>* (mx_db d) (mx_db d')"
  using repository_steps [of d d' "mx_db d"] by (simp add: mx_db_def)

lemma mx_tasks [simp]: "ttl_tasks (mx_db d) = d"
  by (simp add: mx_db_def)

lemma mx_reachable:
  assumes "reachable_store d"
  shows "reachable_service (mx_db d)"
proof -
  from assms obtain s where "initial_store s" "repo_step\<^sup>*\<^sup>* s d" unfolding reachable_store_def by blast
  moreover have "ttl_idempotency (mx_db s) = []" by (simp add: mx_db_def)
  ultimately show ?thesis unfolding reachable_service_def initial_service_def using mx_steps [of s d] mx_tasks by metis
qed

theorem terminal_witness:
  "\<exists>r. reachable_service (mx_db ex_missed) \<and> find_task ''t1'' (ttl_tasks (mx_db ex_missed)) = Some r \<and> isTerminalState (internal_state r) \<and>
     ((\<exists>r'. filter (\<lambda>x. task_id x = ''t1'') (provider_task (ttl_tasks (mx_db (release_lease ''k'' ''o'' ex_missed)))) = [r'] \<and>
         internal_state r' = TERMINAL_COMPLETED) \<or>
      (\<exists>cx opts res s s'. service_step\<^sup>*\<^sup>* (mx_db ex_missed) s \<and> ttl_tick cx opts s = (Inr res, s') \<and> find_task ''t1'' (ttl_tasks s') = None))"
proof (rule ex_missed_run)
  fix r assume st: "internal_state r = TERMINAL_COMPLETED" and f: "find_task ''t1'' ex_missed = Some r"
  have step: "service_step\<^sup>*\<^sup>* (mx_db ex_missed) (mx_db (release_lease ''k'' ''o'' ex_missed))"
    by (rule mx_steps, rule r_into_rtranclp, rule repo_step.give_lease, rule refl)
  note reach = mx_reachable [OF ex_missed_reachable_store]
  have f1: "find_task ''t1'' (ttl_tasks (mx_db ex_missed)) = Some r" using f by simp
  from st have final: "isTerminalState (internal_state r)" by (simp add: isTerminalState_iff)
  from terminal_is_final [OF reach step f1 final]
  have "(\<exists>r'. filter (\<lambda>x. task_id x = ''t1'') (provider_task (ttl_tasks (mx_db (release_lease ''k'' ''o'' ex_missed)))) = [r'] \<and>
         internal_state r' = TERMINAL_COMPLETED) \<or>
      (\<exists>cx opts res s s'. service_step\<^sup>*\<^sup>* (mx_db ex_missed) s \<and> ttl_tick cx opts s = (Inr res, s') \<and> find_task ''t1'' (ttl_tasks s') = None)"
    unfolding same_outcome_def st by blast
  with reach f1 final show ?thesis by blast
qed

theorem service_records_agree_witness:
  "reachable_service (mx_db ex_scheduled) \<and> ex_row \<in> set (provider_task (ttl_tasks (mx_db ex_scheduled))) \<and> result ex_row = None \<and>
   map ob_revision (filter (\<lambda>x. ob_task_id x = ''t1'') (task_observation (ttl_tasks (mx_db ex_scheduled)))) = [1]"
proof -
  have mem: "ex_row \<in> set (provider_task (ttl_tasks (mx_db ex_scheduled)))" by (simp add: ex_scheduled_task)
  have row: "mcp_status ex_row = working" "task_id ex_row = ''t1''" "observation_revision ex_row = 1"
    by (simp_all add: ex_row_def scheduled_row_def default_row_def ex_input_def)
  note reach = mx_reachable [OF ex_scheduled_reachable]
  from service_records_agree [OF reach] mem have "(result ex_row \<noteq> None) = (mcp_status ex_row = completed)"
    "map ob_revision (filter (\<lambda>x. ob_task_id x = task_id ex_row) (task_observation (ttl_tasks (mx_db ex_scheduled)))) =
      [1..<Suc (observation_revision ex_row)]" by blast+
  with reach mem row show ?thesis by simp
qed

end
