(* ===== verification/Protocol.thy ===== *)
theory Protocol
  imports Engine_Call Dispatcher
begin

text \<open>
  The frozen tasks protocol of \<^verbatim>\<open>packages/mcp-protocol/src/sep2663\<close>: validation of requests and of their HTTP headers, the parsers of tool
  calls, task references, input responses, observation pages and availability checks, the mapping of errors to the wire, and the
  dispatcher that composes them with the task engine.  Parsers throw protocol errors or the runtime's own errors; the dispatcher turns
  both into error responses.

  A request body is a JSON value (numbers are integers).  Response writing, the two streaming methods (\<open>Notifications\<close>, \<open>Event_Feed\<close>) and the
  resolution of authorization are outside this theory.
\<close>

section \<open>Errors (\<^verbatim>\<open>errors.ts\<close>, \<^verbatim>\<open>error-mapper.ts\<close>)\<close>

record FrozenProtocolError =
  fp_code :: int
  fp_message :: string
  fp_httpStatus :: nat
  fp_data :: "json_object option"

datatype thrown = Frozen FrozenProtocolError | Thrown err

definition HeaderMismatch :: int where "HeaderMismatch = -32001"
definition MissingRequiredClientCapability :: int where "MissingRequiredClientCapability = -32003"
definition UnsupportedProtocolVersion :: int where "UnsupportedProtocolVersion = -32004"
definition InvalidParams :: int where "InvalidParams = -32602"
definition MethodNotFound :: int where "MethodNotFound = -32601"
definition InternalError :: int where "InternalError = -32603"

definition frozen_error :: "int \<Rightarrow> string \<Rightarrow> nat \<Rightarrow> json_object option \<Rightarrow> FrozenProtocolError" where
  "frozen_error code message status data = \<lparr>fp_code = code, fp_message = message, fp_httpStatus = status, fp_data = data\<rparr>"

definition frozenErrorResponse :: "json \<Rightarrow> FrozenProtocolError \<Rightarrow> json_object" where
  "frozenErrorResponse id1 e =
    [(''jsonrpc'', JStr ''2.0''), (''id'', id1),
     (''error'', JObj ([(''code'', JNum (fp_code e)), (''message'', JStr (fp_message e))] @
       (case fp_data e of None \<Rightarrow> [] | Some d \<Rightarrow> [(''data'', JObj d)])))]"

definition invalidParams :: "thrown + 'a" where
  "invalidParams = Inl (Frozen (frozen_error InvalidParams ''Invalid Params'' 400 None))"

definition methodNotFound :: "thrown + 'a" where
  "methodNotFound = Inl (Frozen (frozen_error MethodNotFound ''Method not found'' 404 None))"

definition runtime_error :: "err + 'a \<Rightarrow> thrown + 'a" where
  "runtime_error m = (case m of Inl e \<Rightarrow> Inl (Thrown e) | Inr v \<Rightarrow> Inr v)"

definition invalid_request :: "string \<Rightarrow> string option \<Rightarrow> thrown + 'a" where
  "invalid_request code message = Inl (Thrown (InvalidParamsError code message))"

text \<open>The kind, the reason code and the safe message of a runtime error.\<close>

fun runtime_view :: "err \<Rightarrow> (RuntimeErrorKind \<times> string \<times> string) option" where
  "runtime_view (RuntimeError k c m) = Some (k, c, m)"
| "runtime_view (CommandInProgressError c) =
     Some (command_in_progress, ''COMMAND_IN_PROGRESS'', ''Command is already in progress: '' @ cip_blockingCommandType c @ ''.'')"
| "runtime_view _ = None"

definition requestErrorKinds :: "RuntimeErrorKind set" where
  "requestErrorKinds = {invalid_params, task_not_found, task_expired, capability_not_supported, command_in_progress}"

definition mapFrozenRuntimeError :: "thrown \<Rightarrow> FrozenProtocolError" where
  "mapFrozenRuntimeError t =
     (case t of
        Frozen e \<Rightarrow> e
      | Thrown e \<Rightarrow>
          (case runtime_view e of
             None \<Rightarrow> frozen_error InternalError ''Internal error'' 500 None
           | Some (kind, code, message) \<Rightarrow>
               if kind \<in> requestErrorKinds then frozen_error InvalidParams message 400 (Some [(''reasonCode'', JStr code)])
               else if kind = adapter_transient then
                 frozen_error InternalError message 500 (Some [(''reasonCode'', JStr ''ADAPTER_TRANSIENT_UNAVAILABLE''), (''retryable'', JBool True)])
               else if kind = adapter_contract \<or> kind = technical_execution then
                 frozen_error InternalError message 500 (Some [(''reasonCode'', JStr code)])
               else frozen_error InternalError ''Internal error'' 500 (Some [(''reasonCode'', JStr ''BUSINESS_ERROR_CHANNEL_VIOLATION'')])))"

section \<open>Requests (\<^verbatim>\<open>request-validator.ts\<close>)\<close>

definition FROZEN_PROTOCOL_VERSION :: string where
  "FROZEN_PROTOCOL_VERSION = ''2026-07-28''"

definition TASKS_EXTENSION :: string where
  "TASKS_EXTENSION = ''io.modelcontextprotocol/tasks''"

record FrozenRequestMeta =
  fm_protocolVersion :: string
  fm_clientInfo :: "string \<times> string"
  fm_clientCapabilities :: json_object
  fm_raw :: json_object

record FrozenJsonRpcRequest =
  fj_id :: json
  fj_method :: string
  fj_params :: json_object
  fj_meta :: FrozenRequestMeta

definition as_object :: "json option \<Rightarrow> json_object option" where
  "as_object v = (case v of Some (JObj o1) \<Rightarrow> Some o1 | _ \<Rightarrow> None)"

definition frozen_object :: "json option \<Rightarrow> thrown + json_object" where
  "frozen_object v = (case as_object v of None \<Rightarrow> invalidParams | Some o1 \<Rightarrow> Inr o1)"

definition unsupported_version :: "thrown + 'a" where
  "unsupported_version = Inl (Frozen (frozen_error UnsupportedProtocolVersion ''Unsupported protocol version'' 400
     (Some [(''supportedVersions'', JArr [JStr FROZEN_PROTOCOL_VERSION])])))"

definition validateFrozenRequest :: "json \<Rightarrow> thrown + FrozenJsonRpcRequest" where
  "validateFrozenRequest body =
     bind_err (frozen_object (Some body)) (\<lambda>envelope.
     if obj_get envelope ''jsonrpc'' \<noteq> Some (JStr ''2.0'') then invalidParams
     else case obj_get envelope ''id'' of
       Some id1 \<Rightarrow>
         if \<not> (case id1 of JStr _ \<Rightarrow> True | JNum _ \<Rightarrow> True | _ \<Rightarrow> False) then invalidParams
         else (case obj_get envelope ''method'' of
           Some (JStr m) \<Rightarrow>
             if m = [] then invalidParams
             else
               bind_err (frozen_object (obj_get envelope ''params'')) (\<lambda>params.
               bind_err (frozen_object (obj_get params ''_meta'')) (\<lambda>rawMeta.
               case obj_get rawMeta ''io.modelcontextprotocol/protocolVersion'' of
                 Some (JStr protocolVersion) \<Rightarrow>
                   if protocolVersion \<noteq> FROZEN_PROTOCOL_VERSION then unsupported_version
                   else
                     bind_err (frozen_object (obj_get rawMeta ''io.modelcontextprotocol/clientInfo'')) (\<lambda>clientInfo.
                     case (obj_get clientInfo ''name'', obj_get clientInfo ''version'') of
                       (Some (JStr name), Some (JStr v)) \<Rightarrow>
                         bind_err (frozen_object (obj_get rawMeta ''io.modelcontextprotocol/clientCapabilities'')) (\<lambda>capabilities.
                         Inr \<lparr>fj_id = id1, fj_method = m, fj_params = params,
                           fj_meta = \<lparr>fm_protocolVersion = protocolVersion, fm_clientInfo = (name, v), fm_clientCapabilities = capabilities,
                             fm_raw = rawMeta\<rparr>\<rparr>)
                     | _ \<Rightarrow> invalidParams)
               | _ \<Rightarrow> invalidParams))
         | _ \<Rightarrow> invalidParams)
     | None \<Rightarrow> invalidParams)"

definition missing_capability :: "json \<Rightarrow> string \<Rightarrow> thrown + 'a" where
  "missing_capability value1 extension = Inl (Frozen (frozen_error MissingRequiredClientCapability ''Missing required client capability'' 400
     (Some [(''requiredCapabilities'', JObj [(''extensions'', JObj [(extension, value1)])])])))"

definition requireTasksCapability :: "FrozenJsonRpcRequest \<Rightarrow> thrown + unit" where
  "requireTasksCapability request =
     (case as_object (obj_get (fm_clientCapabilities (fj_meta request)) ''extensions'') of
        None \<Rightarrow> missing_capability (JObj []) TASKS_EXTENSION
      | Some extensions \<Rightarrow>
          if as_object (obj_get extensions TASKS_EXTENSION) = None then missing_capability (JObj []) TASKS_EXTENSION else Inr ())"

text \<open>\<^verbatim>\<open>requestId\<close> of \<^verbatim>\<open>handler.ts\<close>: the identifier an error response carries.\<close>

definition requestId :: "json \<Rightarrow> json" where
  "requestId body =
     (case body of
        JObj o1 \<Rightarrow> (case obj_get o1 ''id'' of Some (JStr s) \<Rightarrow> JStr s | Some (JNum n) \<Rightarrow> JNum n | _ \<Rightarrow> JNull)
      | _ \<Rightarrow> JNull)"

section \<open>Headers (\<^verbatim>\<open>headers.ts\<close>)\<close>

datatype header_value = header_text string | header_array "string list"

type_synonym http_headers = "(string \<times> header_value) list"

definition namedMethods :: "string set" where
  "namedMethods = {''tools/call'', ''tasks/get'', ''tasks/update'', ''tasks/cancel'', ''io.sdar/businessEvents/relatedTasks/list''}"

definition headerMismatch :: "thrown + 'a" where
  "headerMismatch = Inl (Frozen (frozen_error HeaderMismatch ''Header mismatch'' 400 None))"

definition printable :: "char \<Rightarrow> bool" where
  "printable c = (32 \<le> (of_char c :: nat) \<and> (of_char c :: nat) \<le> 126)"

definition header :: "http_headers \<Rightarrow> string \<Rightarrow> thrown + string option" where
  "header headers name =
     (case map_of headers name of
        None \<Rightarrow> Inr None
      | Some (header_array _) \<Rightarrow> headerMismatch
      | Some (header_text v) \<Rightarrow> if v = [] \<or> \<not> list_all printable v then headerMismatch else Inr (Some v))"

definition requiredHeader :: "http_headers \<Rightarrow> string \<Rightarrow> thrown + string" where
  "requiredHeader headers name =
     bind_err (header headers name) (\<lambda>v. case v of None \<Rightarrow> headerMismatch | Some s \<Rightarrow> Inr s)"

definition trim_spaces :: "string \<Rightarrow> string" where
  "trim_spaces s = List.rev (dropWhile (\<lambda>c. c = CHR '' '') (List.rev (dropWhile (\<lambda>c. c = CHR '' '') s)))"

definition before_semicolon :: "string \<Rightarrow> string" where
  "before_semicolon s = takeWhile (\<lambda>c. c \<noteq> CHR '';'') s"

definition acceptedTypes :: "string \<Rightarrow> string list" where
  "acceptedTypes accept = map (\<lambda>v. toLowerCase (before_semicolon (trim_spaces v))) (split_char CHR '','' accept)"

definition expected_name :: "FrozenJsonRpcRequest \<Rightarrow> json option" where
  "expected_name request =
     (if fj_method request = ''tools/call'' then obj_get (fj_params request) ''name''
      else if fj_method request = ''io.sdar/businessEvents/relatedTasks/list'' then obj_get (fj_params request) ''eventId''
      else obj_get (fj_params request) ''taskId'')"

definition validateFrozenHeaders :: "http_headers \<Rightarrow> FrozenJsonRpcRequest \<Rightarrow> thrown + unit" where
  "validateFrozenHeaders headers request =
     bind_err (requiredHeader headers ''accept'') (\<lambda>accept.
     if ''application/json'' \<notin> set (acceptedTypes accept) \<or> ''text/event-stream'' \<notin> set (acceptedTypes accept) then headerMismatch
     else
       bind_err (requiredHeader headers ''content-type'') (\<lambda>contentType.
       if toLowerCase (trim_spaces (before_semicolon contentType)) \<noteq> ''application/json'' then headerMismatch
       else
         bind_err (requiredHeader headers ''mcp-protocol-version'') (\<lambda>protocolVersion.
         if protocolVersion \<noteq> fm_protocolVersion (fj_meta request) then headerMismatch
         else if protocolVersion \<noteq> FROZEN_PROTOCOL_VERSION then unsupported_version
         else
           bind_err (requiredHeader headers ''mcp-method'') (\<lambda>m.
           if m \<noteq> fj_method request then headerMismatch
           else
             bind_err (header headers ''mcp-name'') (\<lambda>name.
             if fj_method request \<in> namedMethods then
               (case expected_name request of
                  Some (JStr expected) \<Rightarrow> if name = Some expected then Inr () else headerMismatch
                | _ \<Rightarrow> headerMismatch)
             else if fj_method request \<in> {''subscriptions/listen'', ''io.sdar/businessEvents/listen''} \<and> name \<noteq> None then headerMismatch
             else Inr ())))))"

section \<open>Task requests (\<^verbatim>\<open>tasks.ts\<close>)\<close>

definition assertOnlyKeys :: "string \<Rightarrow> json_object \<Rightarrow> string list \<Rightarrow> thrown + unit" where
  "assertOnlyKeys code o1 allowed = (if list_ex (\<lambda>(k, _). k \<notin> set allowed) o1 then invalid_request code None else Inr ())"

definition parseTaskId :: "json_object \<Rightarrow> thrown + string" where
  "parseTaskId params =
     (case obj_get params ''taskId'' of
        Some (JStr t) \<Rightarrow> if length t < 1 then invalid_request ''TASK_ID_INVALID'' None else Inr t
      | _ \<Rightarrow> invalid_request ''TASK_ID_INVALID'' None)"

definition parseTaskReference :: "json_object \<Rightarrow> thrown + string" where
  "parseTaskReference params =
     bind_err (assertOnlyKeys ''UNKNOWN_TASK_FIELD'' params [''taskId'', ''_meta'']) (\<lambda>_. parseTaskId params)"

text \<open>A response keeps its action and, when it has one, its content; \<^verbatim>\<open>String\<close> is applied to the action before it is compared.\<close>

definition parse_response :: "string \<times> json \<Rightarrow> thrown + (string \<times> json)" where
  "parse_response = (\<lambda>(key, v).
     if length key < 1 \<or> length key > 128 then invalid_request ''INPUT_RESPONSE_KEY_INVALID'' None
     else case v of
       JObj response \<Rightarrow>
         bind_err (assertOnlyKeys ''UNKNOWN_TASK_FIELD'' response [''action'', ''content'']) (\<lambda>_.
         case obj_get response ''action'' of
           None \<Rightarrow> invalid_request ''INPUT_RESPONSE_ACTION_INVALID'' None
         | Some a \<Rightarrow>
             if js_String a \<notin> {''accept'', ''decline'', ''cancel''} then invalid_request ''INPUT_RESPONSE_ACTION_INVALID'' None
             else Inr (key, JObj ((''action'', a) # (case obj_get response ''content'' of None \<Rightarrow> [] | Some c \<Rightarrow> [(''content'', c)]))))
     | _ \<Rightarrow> invalid_request ''INPUT_RESPONSE_INVALID'' None)"

fun parse_all :: "('a \<Rightarrow> 'e + 'b) \<Rightarrow> 'a list \<Rightarrow> 'e + 'b list" where
  "parse_all f [] = Inr []"
| "parse_all f (x # xs) = bind_err (f x) (\<lambda>y. bind_err (parse_all f xs) (\<lambda>ys. Inr (y # ys)))"

definition parseTaskInputResponses :: "json_object \<Rightarrow> thrown + (string \<times> json) list" where
  "parseTaskInputResponses params =
     bind_err (assertOnlyKeys ''UNKNOWN_TASK_FIELD'' params [''taskId'', ''inputResponses'', ''_meta'']) (\<lambda>_.
     case obj_get params ''inputResponses'' of
       Some (JObj responses) \<Rightarrow> parse_all parse_response responses
     | _ \<Rightarrow> invalid_request ''INPUT_RESPONSES_INVALID'' None)"

definition MAX_SAFE_INTEGER :: int where
  "MAX_SAFE_INTEGER = 9007199254740991"

definition safe_integer :: "int \<Rightarrow> bool" where
  "safe_integer n = (- MAX_SAFE_INTEGER \<le> n \<and> n \<le> MAX_SAFE_INTEGER)"

text \<open>\<^verbatim>\<open>/^[1-9][0-9]*$/\<close>; a number beyond the safe integers is refused, so that rounding does not matter.\<close>

definition positive_decimal :: "string \<Rightarrow> bool" where
  "positive_decimal s = (s \<noteq> [] \<and> list_all is_digit s \<and> hd s \<noteq> CHR ''0'')"

definition parse_cursor :: "json option \<Rightarrow> thrown + int option" where
  "parse_cursor v =
     (case v of
        None \<Rightarrow> Inr None
      | Some (JStr s) \<Rightarrow>
          if \<not> positive_decimal s \<or> \<not> safe_integer (int (read_nat s)) then invalid_request ''OBSERVATION_CURSOR_INVALID'' None
          else Inr (Some (int (read_nat s)))
      | Some _ \<Rightarrow> invalid_request ''OBSERVATION_CURSOR_INVALID'' None)"

text \<open>\<^verbatim>\<open>params.limit ?? 100\<close>.\<close>

definition parse_limit :: "json option \<Rightarrow> thrown + int" where
  "parse_limit v =
     (let l = (case v of None \<Rightarrow> JNum 100 | Some JNull \<Rightarrow> JNum 100 | Some x \<Rightarrow> x) in
      case l of
        JNum n \<Rightarrow> if \<not> safe_integer n \<or> n < 1 \<or> n > 100 then invalid_request ''OBSERVATION_PAGE_SIZE_INVALID'' None else Inr n
      | _ \<Rightarrow> invalid_request ''OBSERVATION_PAGE_SIZE_INVALID'' None)"

definition parseTaskObservations :: "json_object \<Rightarrow> thrown + (string \<times> int option \<times> int)" where
  "parseTaskObservations params =
     bind_err (assertOnlyKeys ''UNKNOWN_TASK_FIELD'' params [''taskId'', ''cursor'', ''limit'', ''_meta'']) (\<lambda>_.
     bind_err (parseTaskId params) (\<lambda>taskId.
     bind_err (parse_cursor (obj_get params ''cursor'')) (\<lambda>cursor.
     bind_err (parse_limit (obj_get params ''limit'')) (\<lambda>limit.
     Inr (taskId, cursor, limit)))))"

section \<open>Tool calls (\<^verbatim>\<open>tools-call.ts\<close>)\<close>

record FrozenToolCall =
  ft_name :: string
  ft_arguments :: json_object
  ft_idempotencyKey :: "string option"
  ft_timing :: "TaskExecutionTiming option"
  ft_reservationRef :: "string option"

text \<open>The walk over a value that counts nodes and checks count and depth on the way; \<open>node\<close> is the check.\<close>

fun walk_json :: "(nat \<Rightarrow> nat \<Rightarrow> 'e + nat) \<Rightarrow> json \<Rightarrow> nat \<Rightarrow> nat \<Rightarrow> 'e + nat"
  and walk_items :: "(nat \<Rightarrow> nat \<Rightarrow> 'e + nat) \<Rightarrow> json list \<Rightarrow> nat \<Rightarrow> nat \<Rightarrow> 'e + nat"
  and walk_fields :: "(nat \<Rightarrow> nat \<Rightarrow> 'e + nat) \<Rightarrow> json_object \<Rightarrow> nat \<Rightarrow> nat \<Rightarrow> 'e + nat" where
  "walk_json node (JArr xs) depth nodes = bind_err (node depth nodes) (walk_items node xs (Suc depth))"
| "walk_json node (JObj kvs) depth nodes = bind_err (node depth nodes) (walk_fields node kvs (Suc depth))"
| "walk_json node JNull depth nodes = node depth nodes"
| "walk_json node (JBool b) depth nodes = node depth nodes"
| "walk_json node (JNum n) depth nodes = node depth nodes"
| "walk_json node (JStr s) depth nodes = node depth nodes"
| "walk_items node [] depth nodes = Inr nodes"
| "walk_items node (x # xs) depth nodes = bind_err (walk_json node x depth nodes) (walk_items node xs depth)"
| "walk_fields node [] depth nodes = Inr nodes"
| "walk_fields node ((k, x) # kvs) depth nodes = bind_err (walk_json node x depth nodes) (walk_fields node kvs depth)"

definition argument_node :: "nat \<Rightarrow> nat \<Rightarrow> thrown + nat" where
  "argument_node depth nodes =
     (if nodes + 1 > 10000 then invalid_request ''TOOL_ARGUMENTS_TOO_COMPLEX'' None
      else if depth > 32 then invalid_request ''TOOL_ARGUMENTS_TOO_DEEP'' None
      else Inr (nodes + 1))"

definition assertJsonLimits :: "json \<Rightarrow> thrown + unit" where
  "assertJsonLimits v =
     (if byteLength (json_stringify v) > 1048576 then invalid_request ''TOOL_ARGUMENTS_TOO_LARGE'' None
      else bind_err (walk_json argument_node v 0 0) (\<lambda>_. Inr ()))"

definition invalidTiming :: "thrown + 'a" where
  "invalidTiming = invalid_request ''INVALID_TASK_TIMING'' (Some ''Invalid Task timing parameters.'')"

definition bounded_number :: "json option \<Rightarrow> int \<Rightarrow> int \<Rightarrow> int option" where
  "bounded_number v lo hi =
     (case v of Some (JNum n) \<Rightarrow> if safe_integer n \<and> lo \<le> n \<and> n \<le> hi then Some n else None | _ \<Rightarrow> None)"

definition parse_start :: "(string \<Rightarrow> instant option) \<Rightarrow> json_object \<Rightarrow> thrown + TimingStart" where
  "parse_start dates start =
     (case bounded_number (obj_get start ''startToleranceMs'') 0 86400000 of
        None \<Rightarrow> invalidTiming
      | Some tolerance \<Rightarrow>
          if obj_get start ''mode'' = Some (JStr ''immediate'') then
            bind_err (assertOnlyKeys ''UNKNOWN_TOOL_CALL_FIELD'' start [''mode'', ''startToleranceMs'']) (\<lambda>_. Inr (immediate tolerance))
          else if obj_get start ''mode'' = Some (JStr ''scheduled'') then
            bind_err (assertOnlyKeys ''UNKNOWN_TOOL_CALL_FIELD'' start [''mode'', ''scheduledAt'', ''startToleranceMs'']) (\<lambda>_.
            case obj_get start ''scheduledAt'' of
              Some (JStr s) \<Rightarrow> if isZonedRfc3339 dates s then Inr (scheduled s tolerance) else invalidTiming
            | _ \<Rightarrow> invalidTiming)
          else invalidTiming)"

definition parse_elapsed :: "json option \<Rightarrow> thrown + int option" where
  "parse_elapsed v =
     (case v of
        Some JNull \<Rightarrow> Inr None
      | _ \<Rightarrow> (case bounded_number v 1 31536000000 of Some n \<Rightarrow> Inr (Some n) | None \<Rightarrow> invalidTiming))"

definition parse_tool_timing :: "(string \<Rightarrow> instant option) \<Rightarrow> json \<Rightarrow> thrown + TaskExecutionTiming" where
  "parse_tool_timing dates v =
     (case v of
        JObj timing \<Rightarrow>
          bind_err (assertOnlyKeys ''UNKNOWN_TOOL_CALL_FIELD'' timing [''start'', ''maxElapsedMs'']) (\<lambda>_.
          case obj_get timing ''start'' of
            Some (JObj start) \<Rightarrow>
              bind_err (parse_start dates start) (\<lambda>start.
              bind_err (parse_elapsed (obj_get timing ''maxElapsedMs'')) (\<lambda>maxElapsedMs.
              Inr \<lparr>tm_start = start, tm_maxElapsedMs = maxElapsedMs\<rparr>))
          | _ \<Rightarrow> invalidTiming)
      | _ \<Rightarrow> invalidTiming)"

definition optionalBoundedString :: "json option \<Rightarrow> nat \<Rightarrow> string \<Rightarrow> thrown + string option" where
  "optionalBoundedString v max1 code =
     (case v of
        None \<Rightarrow> Inr None
      | Some (JStr s) \<Rightarrow> if length s < 1 \<or> length s > max1 then invalid_request code None else Inr (Some s)
      | Some _ \<Rightarrow> invalid_request code None)"

definition parse_profile ::
  "(string \<Rightarrow> instant option) \<Rightarrow> json \<Rightarrow> thrown + (TaskExecutionTiming option \<times> string option \<times> string option)" where
  "parse_profile dates v =
     (case v of
        JObj profile \<Rightarrow>
          bind_err (assertOnlyKeys ''UNKNOWN_TOOL_CALL_FIELD'' profile [''profileVersion'', ''timing'', ''reservationRef'', ''idempotencyKey'']) (\<lambda>_.
          if obj_get profile ''profileVersion'' \<noteq> Some (JStr ''1.0'') then invalid_request ''INVALID_TASK_PROFILE_VERSION'' None
          else
            bind_err (case obj_get profile ''timing'' of None \<Rightarrow> Inr None
              | Some t \<Rightarrow> bind_err (parse_tool_timing dates t) (\<lambda>x. Inr (Some x))) (\<lambda>timing.
            bind_err (optionalBoundedString (obj_get profile ''reservationRef'') 256 ''INVALID_RESERVATION_REF'') (\<lambda>reservationRef.
            bind_err (optionalBoundedString (obj_get profile ''idempotencyKey'') 256 ''INVALID_IDEMPOTENCY_KEY'') (\<lambda>idempotencyKey.
            Inr (timing, reservationRef, idempotencyKey)))))
      | _ \<Rightarrow> invalid_request ''INVALID_TASK_PROFILE'' None)"

definition parseFrozenToolCall :: "(string \<Rightarrow> instant option) \<Rightarrow> FrozenJsonRpcRequest \<Rightarrow> thrown + FrozenToolCall" where
  "parseFrozenToolCall dates request =
     (let params = fj_params request in
      bind_err (assertOnlyKeys ''UNKNOWN_TOOL_CALL_FIELD'' params [''name'', ''arguments'', ''_meta'']) (\<lambda>_.
      case obj_get params ''name'' of
        Some (JStr name) \<Rightarrow>
          if length name < 1 then invalid_request ''UNKNOWN_TOOL'' (Some ''Unknown tool.'')
          else (case (case obj_get params ''arguments'' of None \<Rightarrow> JObj [] | Some v \<Rightarrow> v) of
            JObj arguments \<Rightarrow>
              bind_err (assertJsonLimits (JObj arguments)) (\<lambda>_.
              case obj_get (fm_raw (fj_meta request)) ''io.sdar/taskExecution'' of
                None \<Rightarrow> Inr \<lparr>ft_name = name, ft_arguments = arguments, ft_idempotencyKey = None, ft_timing = None, ft_reservationRef = None\<rparr>
              | Some profile \<Rightarrow>
                  bind_err (parse_profile dates profile) (\<lambda>(timing, reservationRef, idempotencyKey).
                  Inr \<lparr>ft_name = name, ft_arguments = arguments, ft_idempotencyKey = idempotencyKey, ft_timing = timing,
                    ft_reservationRef = reservationRef\<rparr>))
          | _ \<Rightarrow> invalid_request ''INVALID_TOOL_ARGUMENTS'' None)
      | _ \<Rightarrow> invalid_request ''UNKNOWN_TOOL'' (Some ''Unknown tool.'')))"

end
