(* ===== verification/Protocol_Dispatch.thy ===== *)
theory Protocol_Dispatch
  imports Protocol
begin

text \<open>
  Availability requests (\<^verbatim>\<open>availability.ts\<close>), discovery (\<^verbatim>\<open>discovery.ts\<close>) and the dispatcher of the frozen protocol (\<^verbatim>\<open>handler.ts\<close> of
  \<^verbatim>\<open>packages/mcp-protocol/src/sep2663\<close>) over the task engine.  The dispatcher's state is that of a call: the idempotency records and the world of the engine;
  \<open>None\<close> is a call whose waiting loop has not returned within the given turns.
\<close>

section \<open>Availability requests\<close>

definition exactKeys :: "json_object \<Rightarrow> string list \<Rightarrow> bool \<Rightarrow> thrown + unit" where
  "exactKeys v allowed optionalAllowed =
     (if list_ex (\<lambda>(k, _). k \<notin> set allowed) v then invalidParams
      else if \<not> optionalAllowed \<and> list_ex (\<lambda>k. obj_get v k = None) allowed then invalidParams
      else Inr ())"

definition boundedInteger :: "json \<Rightarrow> int \<Rightarrow> int \<Rightarrow> thrown + int" where
  "boundedInteger v lo hi = (case bounded_number (Some v) lo hi of None \<Rightarrow> invalidParams | Some n \<Rightarrow> Inr n)"

definition availability_node :: "nat \<Rightarrow> nat \<Rightarrow> thrown + nat" where
  "availability_node depth nodes = (if nodes + 1 > 10000 \<or> depth > 32 then invalidParams else Inr (nodes + 1))"

definition availability_limits :: "json \<Rightarrow> thrown + unit" where
  "availability_limits v =
     (if byteLength (json_stringify v) > 1048576 then invalidParams
      else bind_err (walk_json availability_node v 0 0) (\<lambda>_. Inr ()))"

definition parse_pointer :: "json \<Rightarrow> thrown + string" where
  "parse_pointer v =
     (case v of JStr p \<Rightarrow> if length p > 512 \<or> \<not> pointer_format p then invalidParams else Inr p | _ \<Rightarrow> invalidParams)"

definition parse_arguments :: "json_object \<Rightarrow> thrown + AvailabilityArguments" where
  "parse_arguments a =
     (if obj_get a ''state'' = Some (JStr ''complete'') then
        bind_err (exactKeys a [''state'', ''value''] False) (\<lambda>_.
        bind_err (frozen_object (obj_get a ''value'')) (\<lambda>complete.
        bind_err (availability_limits (JObj complete)) (\<lambda>_.
        Inr (complete_arguments complete))))
      else if obj_get a ''state'' = Some (JStr ''partial'') then
        bind_err (exactKeys a [''state'', ''knownValue'', ''unresolvedPaths''] False) (\<lambda>_.
        bind_err (frozen_object (obj_get a ''knownValue'')) (\<lambda>knownValue.
        bind_err (availability_limits (JObj knownValue)) (\<lambda>_.
        case obj_get a ''unresolvedPaths'' of
          Some (JArr paths) \<Rightarrow>
            if length paths < 1 \<or> length paths > 128 then invalidParams
            else
              bind_err (parse_all parse_pointer paths) (\<lambda>unresolvedPaths.
              if \<not> distinct unresolvedPaths then invalidParams else Inr (partial_arguments knownValue unresolvedPaths))
        | _ \<Rightarrow> invalidParams)))
      else invalidParams)"

definition optional_tolerance :: "json_object \<Rightarrow> thrown + int option" where
  "optional_tolerance start =
     (case obj_get start ''startToleranceMs'' of
        None \<Rightarrow> Inr None
      | Some v \<Rightarrow> bind_err (boundedInteger v 0 86400000) (\<lambda>n. Inr (Some n)))"

definition parse_availability_start :: "(string \<Rightarrow> instant option) \<Rightarrow> json_object \<Rightarrow> thrown + AvailabilityTimingStart" where
  "parse_availability_start dates start =
     (if obj_get start ''mode'' = Some (JStr ''immediate'') then
        bind_err (exactKeys start [''mode'', ''startToleranceMs''] True) (\<lambda>_.
        bind_err (optional_tolerance start) (\<lambda>tolerance.
        Inr \<lparr>ts_mode = ''immediate'', ts_scheduledAt = None, ts_startToleranceMs = tolerance\<rparr>))
      else if obj_get start ''mode'' = Some (JStr ''scheduled'') then
        bind_err (exactKeys start [''mode'', ''scheduledAt'', ''startToleranceMs''] True) (\<lambda>_.
        case obj_get start ''scheduledAt'' of
          Some (JStr s) \<Rightarrow>
            if \<not> isZonedRfc3339 dates s then invalidParams
            else
              bind_err (optional_tolerance start) (\<lambda>tolerance.
              Inr \<lparr>ts_mode = ''scheduled'', ts_scheduledAt = Some s, ts_startToleranceMs = tolerance\<rparr>)
        | _ \<Rightarrow> invalidParams)
      else invalidParams)"

text \<open>An elapsed time of \<^verbatim>\<open>null\<close> and a missing one are the same to the engine.\<close>

definition parse_availability_timing :: "(string \<Rightarrow> instant option) \<Rightarrow> json \<Rightarrow> thrown + AvailabilityTiming" where
  "parse_availability_timing dates v =
     bind_err (frozen_object (Some v)) (\<lambda>timing.
     bind_err (exactKeys timing [''start'', ''maxElapsedMs''] True) (\<lambda>_.
     bind_err (case obj_get timing ''start'' of
         None \<Rightarrow> Inr None
       | Some s \<Rightarrow> bind_err (frozen_object (Some s)) (\<lambda>start. bind_err (parse_availability_start dates start) (\<lambda>x. Inr (Some x)))) (\<lambda>start.
     bind_err (case obj_get timing ''maxElapsedMs'' of
         None \<Rightarrow> Inr None
       | Some JNull \<Rightarrow> Inr None
       | Some m \<Rightarrow> bind_err (boundedInteger m 1 31536000000) (\<lambda>n. Inr (Some n))) (\<lambda>maxElapsedMs.
     Inr \<lparr>at_start = start, at_maxElapsedMs = maxElapsedMs\<rparr>))))"

definition parse_check :: "(string \<Rightarrow> instant option) \<Rightarrow> string list \<Rightarrow> json \<Rightarrow> thrown + AvailabilityCheck" where
  "parse_check dates ids v =
     bind_err (frozen_object (Some v)) (\<lambda>check.
     case obj_get check ''requestId'' of
       Some (JStr rid) \<Rightarrow>
         if \<not> request_id_format rid \<or> rid \<in> set ids then invalidParams
         else (case obj_get check ''operationName'' of
           Some (JStr operationName) \<Rightarrow>
             if \<not> name_format ''_./-'' 63 operationName then invalidParams
             else
               bind_err (frozen_object (obj_get check ''arguments'')) (\<lambda>a.
               bind_err (parse_arguments a) (\<lambda>arguments.
               bind_err (exactKeys check [''requestId'', ''operationName'', ''arguments'', ''timing''] True) (\<lambda>_.
               bind_err (case obj_get check ''timing'' of
                   None \<Rightarrow> Inr None
                 | Some t \<Rightarrow> bind_err (parse_availability_timing dates t) (\<lambda>x. Inr (Some x))) (\<lambda>timing.
               Inr \<lparr>ac_requestId = rid, ac_operationName = operationName, ac_arguments = arguments, ac_timing = timing\<rparr>))))
         | _ \<Rightarrow> invalidParams)
     | _ \<Rightarrow> invalidParams)"

fun parse_checks :: "(string \<Rightarrow> instant option) \<Rightarrow> string list \<Rightarrow> json list \<Rightarrow> thrown + AvailabilityCheck list" where
  "parse_checks dates ids [] = Inr []"
| "parse_checks dates ids (v # vs) =
     bind_err (parse_check dates ids v) (\<lambda>c.
     bind_err (parse_checks dates (ac_requestId c # ids) vs) (\<lambda>cs. Inr (c # cs)))"

definition parseFrozenAvailability :: "(string \<Rightarrow> instant option) \<Rightarrow> FrozenJsonRpcRequest \<Rightarrow> thrown + AvailabilityCheck list" where
  "parseFrozenAvailability dates request =
     (if fj_method request \<noteq> ''io.sdar/taskExecution/checkAvailability'' then invalidParams
      else
        bind_err (exactKeys (fj_params request) [''profileVersion'', ''checks'', ''_meta''] True) (\<lambda>_.
        if obj_get (fj_params request) ''profileVersion'' \<noteq> Some (JStr ''1.0'') then invalidParams
        else case obj_get (fj_params request) ''checks'' of
          Some (JArr checks) \<Rightarrow>
            if length checks < 1 \<or> length checks > 64 then invalidParams else parse_checks dates [] checks
        | _ \<Rightarrow> invalidParams))"

section \<open>Results\<close>

definition opt_field :: "string \<Rightarrow> ('a \<Rightarrow> json) \<Rightarrow> 'a option \<Rightarrow> json_object" where
  "opt_field k f v = (case v of None \<Rightarrow> [] | Some x \<Rightarrow> [(k, f x)])"

definition availability_json :: "AvailabilityResultValue \<Rightarrow> json" where
  "availability_json r = JObj
    ([(''requestId'', JStr (av_requestId r)), (''operationName'', JStr (av_operationName r)), (''availability'', JStr (av_availability r))] @
     opt_field ''riskLevel'' JStr (av_riskLevel r) @ opt_field ''reasonCode'' JStr (av_reasonCode r) @
     opt_field ''description'' JStr (av_description r) @ opt_field ''validUntil'' JStr (av_validUntil r) @
     opt_field ''earliestStartTime'' JStr (av_earliestStartTime r) @
     opt_field ''nextAvailableWindows'' (\<lambda>ws. JArr (map (\<lambda>w. JObj [(''startTime'', JStr (aw_startTime w)), (''endTime'', JStr (aw_endTime w))]) ws))
       (av_nextAvailableWindows r) @
     opt_field ''estimatedDelayMs'' JNum (av_estimatedDelayMs r) @ [(''reservationMode'', JStr (av_reservationMode r))] @
     opt_field ''reservationRef'' JStr (av_reservationRef r) @ opt_field ''possibleEffects'' (\<lambda>es. JArr (map JStr es)) (av_possibleEffects r))"

definition tool_json :: "mcp_tool \<Rightarrow> json" where
  "tool_json t = JObj [(''name'', JStr (tl_name t)), (''description'', JStr (tl_description t)), (''inputSchema'', JObj (tl_inputSchema t)),
     (''outputSchema'', JObj (tl_outputSchema t)), (''_meta'', JObj (tl_meta t))]"

definition frozenDiscoveryResult :: "string \<Rightarrow> json_object option \<Rightarrow> json_object" where
  "frozenDiscoveryResult serverVersion businessEvents =
    [(''resultType'', JStr ''complete''), (''supportedVersions'', JArr [JStr FROZEN_PROTOCOL_VERSION]),
     (''capabilities'', JObj [(''tools'', JObj []), (''extensions'', JObj
       ([(''io.modelcontextprotocol/tasks'', JObj []),
         (''io.sdar/taskExecution'', JObj [(''profileVersion'', JStr ''1.0''), (''taskNotifications'', JBool True)])] @
        opt_field ''io.sdar/businessEvents'' JObj businessEvents))]),
     (''_meta'', JObj [(''io.modelcontextprotocol/serverInfo'', JObj
       [(''name'', JStr ''sdar-mcp-tasks-provider-runtime''), (''version'', JStr serverVersion)])]),
     (''instructions'', JStr ''This server provides SDAR task-capable tools.''), (''ttlMs'', JNum 3600000), (''cacheScope'', JStr ''public'')]"

section \<open>The dispatcher\<close>

record FrozenDispatchResult =
  fd_httpStatus :: nat
  fd_body :: json_object

record 'w protocol_handler =
  ph_manifest :: ValidatedManifest
  ph_serverVersion :: string
  ph_engine :: "engine option"
  ph_gateway :: "'w engine_gateway"
  ph_discovery :: "json_object option"
  ph_relations :: "(FrozenJsonRpcRequest \<Rightarrow> AuthorizationContext \<Rightarrow> 'w world \<Rightarrow> (thrown + json_object) \<times> 'w world) option"

type_synonym 'w call_state = "idem_table \<times> 'w world"

definition success :: "json \<Rightarrow> json_object \<Rightarrow> FrozenDispatchResult" where
  "success id1 res = \<lparr>fd_httpStatus = 200, fd_body = [(''jsonrpc'', JStr ''2.0''), (''id'', id1), (''result'', JObj res)]\<rparr>"

definition failure :: "json \<Rightarrow> FrozenProtocolError \<Rightarrow> FrozenDispatchResult" where
  "failure id1 e = \<lparr>fd_httpStatus = fp_httpStatus e, fd_body = frozenErrorResponse id1 e\<rparr>"

definition dispatch_method :: "'w protocol_handler \<Rightarrow> FrozenJsonRpcRequest \<Rightarrow> thrown + json_object" where
  "dispatch_method h request =
     (if fj_method request = ''server/discover'' then Inr (frozenDiscoveryResult (ph_serverVersion h) (ph_discovery h))
      else if fj_method request = ''tools/list'' then
        Inr [(''tools'', JArr (map (\<lambda>op. tool_json (vo_tool op)) (vm_operations (ph_manifest h))))]
      else methodNotFound)"

definition frozen_dispatch :: "'w protocol_handler \<Rightarrow> json \<Rightarrow> http_headers \<Rightarrow> FrozenDispatchResult" where
  "frozen_dispatch h body headers =
     (case bind_err (validateFrozenRequest body) (\<lambda>request.
        bind_err (validateFrozenHeaders headers request) (\<lambda>_.
        bind_err (dispatch_method h request) (\<lambda>res. Inr (success (fj_id request) res)))) of
        Inr r \<Rightarrow> r
      | Inl (Frozen e) \<Rightarrow> failure (requestId body) e
      | Inl (Thrown _) \<Rightarrow> failure (requestId body) (frozen_error InternalError ''Internal error'' 500 None))"

text \<open>Engine programs within a call.\<close>

definition run_engine :: "('w, 'a) program \<Rightarrow> 'w call_state \<Rightarrow> ((thrown + 'a) \<times> 'w call_state) option" where
  "run_engine p s = (case p (snd s) of (r, w) \<Rightarrow> Some (runtime_error r, (fst s, w)))"

definition after_parse :: "thrown + 'a \<Rightarrow> ('a \<Rightarrow> 's \<Rightarrow> ((thrown + 'b) \<times> 's) option) \<Rightarrow> 's \<Rightarrow> ((thrown + 'b) \<times> 's) option" where
  "after_parse m f s = (case m of Inl e \<Rightarrow> Some (Inl e, s) | Inr v \<Rightarrow> f v s)"

definition then_return :: "('s \<Rightarrow> ((thrown + 'a) \<times> 's) option) \<Rightarrow> ('a \<Rightarrow> 'b) \<Rightarrow> 's \<Rightarrow> ((thrown + 'b) \<times> 's) option" where
  "then_return p f s = map_option (\<lambda>(r, s). (case r of Inl e \<Rightarrow> Inl e | Inr v \<Rightarrow> Inr (f v), s)) (p s)"

definition tools_call ::
  "worker_ctx \<Rightarrow> (string \<Rightarrow> instant option) \<Rightarrow> 'w protocol_handler \<Rightarrow> engine \<Rightarrow> idem_run option \<Rightarrow> string \<Rightarrow> FrozenJsonRpcRequest
   \<Rightarrow> AuthorizationContext \<Rightarrow> 'w call_state \<Rightarrow> ((thrown + json_object) \<times> 'w call_state) option" where
  "tools_call ctx dates h en idempotency uuid request a =
     after_parse (bind_err (parseFrozenToolCall dates request) (\<lambda>c.
       case first_row (\<lambda>op. vo_name op = ft_name c) (vm_operations (ph_manifest h)) of
         None \<Rightarrow> Inl (Frozen (frozen_error InvalidParams ''Unknown tool'' 400 None))
       | Some operation \<Rightarrow>
           bind_err (if od_execution (vo_operation operation) \<noteq> SYNCHRONOUS then requireTasksCapability request else Inr ()) (\<lambda>_.
           bind_err (runtime_error (vo_validateArguments operation (JObj (ft_arguments c)))) (\<lambda>_.
           Inr (operation, c)))))
     (\<lambda>(operation, c) s.
        map_option (\<lambda>(r, s). (runtime_error r, s))
          (callFrozenOperation ctx en (ph_gateway h) idempotency uuid
            \<lparr>cq_operation = operation, cq_arguments = ft_arguments c, cq_authorization = a, cq_ttlMs = None,
             cq_idempotencyKey = ft_idempotencyKey c, cq_timing = ft_timing c, cq_reservationRef = ft_reservationRef c\<rparr> s))"

definition task_method ::
  "worker_ctx \<Rightarrow> FrozenJsonRpcRequest \<Rightarrow> AuthorizationContext \<Rightarrow> 'w call_state \<Rightarrow> ((thrown + json_object) \<times> 'w call_state) option" where
  "task_method ctx request a =
     (let params = fj_params request; done1 = (\<lambda>_. [(''resultType'', JStr ''complete'')]) in
      after_parse (requireTasksCapability request) (\<lambda>_.
      if fj_method request = ''tasks/get'' then
        after_parse (parseTaskReference params) (\<lambda>taskId. run_engine (getFrozenTask ctx taskId a get))
      else if fj_method request = ''tasks/update'' then
        after_parse (bind_err (parseTaskId params) (\<lambda>taskId. bind_err (parseTaskInputResponses params) (\<lambda>rs. Inr (taskId, rs))))
          (\<lambda>(taskId, rs). then_return (run_engine (updateTaskInputResponses ctx taskId rs a)) done1)
      else if fj_method request = ''tasks/cancel'' then
        after_parse (parseTaskReference params) (\<lambda>taskId. then_return (run_engine (cancelTaskCooperatively ctx taskId a)) done1)
      else if fj_method request = ''io.sdar/taskExecution/tasks/observations'' then
        after_parse (parseTaskObservations params) (\<lambda>(taskId, cursor, limit).
          then_return (run_engine (getTaskObservations ctx taskId a cursor limit))
            (\<lambda>page. obj_spread [(''resultType'', JStr ''complete'')] page))
      else (\<lambda>s. Some (methodNotFound, s))))"

definition async_method ::
  "worker_ctx \<Rightarrow> (string \<Rightarrow> instant option) \<Rightarrow> 'w protocol_handler \<Rightarrow> idem_run option \<Rightarrow> string \<Rightarrow> FrozenJsonRpcRequest
   \<Rightarrow> AuthorizationContext \<Rightarrow> 'w call_state \<Rightarrow> ((thrown + json_object) \<times> 'w call_state) option" where
  "async_method ctx dates h idempotency uuid request a s =
     (if fj_method request = ''io.sdar/businessEvents/relatedTasks/list'' then
        (case ph_relations h of
           None \<Rightarrow> Some (methodNotFound, s)
         | Some list1 \<Rightarrow> (case list1 request a (snd s) of (r, w) \<Rightarrow> Some (r, (fst s, w))))
      else case ph_engine h of
        None \<Rightarrow> Some (methodNotFound, s)
      | Some en \<Rightarrow>
          if fj_method request = ''io.sdar/taskExecution/checkAvailability'' then
            after_parse (parseFrozenAvailability dates request) (\<lambda>checks.
              then_return (run_engine (checkAvailability ctx en (ph_gateway h) checks a))
                (\<lambda>results. [(''resultType'', JStr ''complete''), (''profileVersion'', JStr ''1.0''), (''results'', JArr (map availability_json results))])) s
          else if fj_method request = ''tools/call'' then tools_call ctx dates h en idempotency uuid request a s
          else task_method ctx request a s)"

definition dispatchAsync ::
  "worker_ctx \<Rightarrow> (string \<Rightarrow> instant option) \<Rightarrow> 'w protocol_handler \<Rightarrow> idem_run option \<Rightarrow> string \<Rightarrow> json \<Rightarrow> http_headers
   \<Rightarrow> AuthorizationContext \<Rightarrow> 'w call_state \<Rightarrow> (FrozenDispatchResult \<times> 'w call_state) option" where
  "dispatchAsync ctx dates h idempotency uuid body headers a s =
     (case bind_err (validateFrozenRequest body) (\<lambda>request. bind_err (validateFrozenHeaders headers request) (\<lambda>_. Inr request)) of
        Inl e \<Rightarrow> Some (failure (requestId body) (mapFrozenRuntimeError e), s)
      | Inr request \<Rightarrow>
          if fj_method request \<in> {''server/discover'', ''tools/list''} then Some (frozen_dispatch h body headers, s)
          else
            map_option (\<lambda>(r, s). (case r of
                Inr res \<Rightarrow> success (fj_id request) res
              | Inl e \<Rightarrow> failure (requestId body) (mapFrozenRuntimeError e), s))
              (async_method ctx dates h idempotency uuid request a s))"

section \<open>Routing (\<^verbatim>\<open>protocol-router.ts\<close>)\<close>

definition route :: "bool \<Rightarrow> 'h \<Rightarrow> 'h option \<Rightarrow> string \<Rightarrow> 'h option" where
  "route legacyEnabled frozen1 legacy1 path =
     (if path = ''/mcp'' then Some frozen1
      else if path = ''/mcp/legacy'' \<and> legacyEnabled then legacy1
      else None)"

end
