(* ===== verification/Protocol_Theorems.thy ===== *)
theory Protocol_Theorems
  imports Protocol_Dispatch Engine_Theorems
begin

text \<open>
  What the frozen protocol promises: requests that pass the parsers are within their limits, every answer of the dispatcher is a well-formed
  response, and a caller learns nothing about tasks of others.
\<close>

section \<open>Limits of a JSON value\<close>

text \<open>A walk whose node check refuses beyond \<open>N\<close> nodes and depth \<open>D\<close> measures the value.\<close>

locale json_walk =
  fixes node :: "nat \<Rightarrow> nat \<Rightarrow> 'e + nat" and N D :: nat
  assumes node_iff: "node d n = Inr m \<longleftrightarrow> n < N \<and> d \<le> D \<and> m = Suc n"
begin

lemma walk_same:
  "nd = node \<Longrightarrow>
     walk_json nd j d n = Inr m \<longleftrightarrow> d + json_depth j \<le> D \<and> n + json_nodes j \<le> N \<and> m = n + json_nodes j"
  "nd = node \<Longrightarrow> n \<le> N \<Longrightarrow> walk_items nd xs d n = Inr m \<longleftrightarrow>
     (\<forall>x \<in> set xs. d + json_depth x \<le> D) \<and> n + sum_list (map json_nodes xs) \<le> N \<and> m = n + sum_list (map json_nodes xs)"
  "nd = node \<Longrightarrow> n \<le> N \<Longrightarrow> walk_fields nd kvs d n = Inr m \<longleftrightarrow>
     (\<forall>kv \<in> set kvs. d + json_depth (snd kv) \<le> D) \<and> n + sum_list (map (\<lambda>kv. json_nodes (snd kv)) kvs) \<le> N \<and>
     m = n + sum_list (map (\<lambda>kv. json_nodes (snd kv)) kvs)"
proof (induction nd j d n and nd xs d n and nd kvs d n arbitrary: m and m and m rule: walk_json_walk_items_walk_fields.induct)
  case (1 nd xs depth nodes)
  then show ?case by (auto simp: bind_err_Inr_iff node_iff depth_within)
next
  case (2 nd kvs depth nodes)
  then show ?case by (simp add: bind_err_Inr_iff node_iff depth_JObj o_def del: json_depth.simps) (fastforce split del: if_split)
next
  case (8 nd x xs depth nodes)
  then show ?case by (auto simp: bind_err_Inr_iff)
next
  case (10 nd k x kvs depth nodes)
  then show ?case by (auto simp: bind_err_Inr_iff)
qed (auto simp: node_iff)

lemma walk_accepts: "(\<exists>m. walk_json node j 0 0 = Inr m) \<longleftrightarrow> json_depth j \<le> D \<and> json_nodes j \<le> N"
  by (simp add: walk_same)

end

interpretation arg: json_walk argument_node 10000 32
  by unfold_locales (auto simp: argument_node_def invalid_request_def)

interpretation avl: json_walk availability_node 10000 32
  by unfold_locales (auto simp: availability_node_def invalidParams_def)

lemma assertJsonLimits_iff:
  "assertJsonLimits j = Inr u \<longleftrightarrow> byteLength (json_stringify j) \<le> 1048576 \<and> json_depth j \<le> 32 \<and> json_nodes j \<le> 10000"
  using arg.walk_accepts [of j] by (auto simp: assertJsonLimits_def bind_err_Inr_iff invalid_request_def)

lemma availability_limits_iff:
  "availability_limits j = Inr u \<longleftrightarrow> byteLength (json_stringify j) \<le> 1048576 \<and> json_depth j \<le> 32 \<and> json_nodes j \<le> 10000"
  using avl.walk_accepts [of j] by (auto simp: availability_limits_def bind_err_Inr_iff invalidParams_def)

lemmas refusals = invalid_request_def invalidParams_def invalidTiming_def

lemma bounded_number_Some: "bounded_number v lo hi = Some n \<Longrightarrow> v = Some (JNum n) \<and> lo \<le> n \<and> n \<le> hi"
  by (auto simp: bounded_number_def split: option.splits json.splits if_splits)

definition start_in_bounds :: "(string \<Rightarrow> instant option) \<Rightarrow> TimingStart \<Rightarrow> bool" where
  "start_in_bounds dates start =
     (case start of
        immediate tolerance \<Rightarrow> 0 \<le> tolerance \<and> tolerance \<le> 86400000
      | scheduled at tolerance \<Rightarrow> isZonedRfc3339 dates at \<and> 0 \<le> tolerance \<and> tolerance \<le> 86400000)"

lemma parse_start_bounds: "parse_start dates start = Inr t \<Longrightarrow> start_in_bounds dates t"
  by (auto simp: parse_start_def start_in_bounds_def bind_err_Inr_iff refusals
      dest!: bounded_number_Some split: option.splits if_splits json.splits)

definition timing_in_bounds :: "(string \<Rightarrow> instant option) \<Rightarrow> TaskExecutionTiming \<Rightarrow> bool" where
  "timing_in_bounds dates t =
     (start_in_bounds dates (tm_start t) \<and> (\<forall>n \<in> set_option (tm_maxElapsedMs t). 1 \<le> n \<and> n \<le> 31536000000))"

lemma parse_elapsed_bounds: "parse_elapsed v = Inr m \<Longrightarrow> \<forall>n \<in> set_option m. 1 \<le> n \<and> n \<le> 31536000000"
  by (auto simp: parse_elapsed_def refusals dest!: bounded_number_Some split: option.splits json.splits)

lemma parse_tool_timing_bounds: "parse_tool_timing dates v = Inr t \<Longrightarrow> timing_in_bounds dates t"
  by (auto simp: parse_tool_timing_def timing_in_bounds_def bind_err_Inr_iff refusals
      dest!: parse_elapsed_bounds parse_start_bounds split: option.splits json.splits)

lemma optionalBoundedString_bounds: "optionalBoundedString v n code = Inr s \<Longrightarrow> \<forall>k \<in> set_option s. 1 \<le> length k \<and> length k \<le> n"
  by (auto simp: optionalBoundedString_def refusals Suc_le_eq split: option.splits if_splits json.splits)

lemma parse_profile_bounds:
  assumes "parse_profile dates v = Inr (timing, ref, key)"
  shows "(\<forall>t \<in> set_option timing. timing_in_bounds dates t) \<and> (\<forall>k \<in> set_option ref. 1 \<le> length k \<and> length k \<le> 256) \<and>
    (\<forall>k \<in> set_option key. 1 \<le> length k \<and> length k \<le> 256)"
proof -
  obtain profile where parts:
    "(case obj_get profile ''timing'' of None \<Rightarrow> Inr None | Some t \<Rightarrow> bind_err (parse_tool_timing dates t) (\<lambda>x. Inr (Some x))) = Inr timing"
    "optionalBoundedString (obj_get profile ''reservationRef'') 256 ''INVALID_RESERVATION_REF'' = Inr ref"
    "optionalBoundedString (obj_get profile ''idempotencyKey'') 256 ''INVALID_IDEMPOTENCY_KEY'' = Inr key"
    using assms by (auto simp: parse_profile_def bind_err_Inr_iff refusals split: json.splits if_splits)
  have "\<forall>t \<in> set_option timing. timing_in_bounds dates t"
    using parts(1) by (auto simp: bind_err_Inr_iff dest: parse_tool_timing_bounds split: option.splits)
  then show ?thesis using optionalBoundedString_bounds [OF parts(2)] optionalBoundedString_bounds [OF parts(3)] by blast
qed

text \<open>A tool call that is parsed is within the documented limits: a name, arguments of at most a megabyte, ten thousand nodes and
  thirty-two levels, a start tolerance of at most a day, an elapsed time of at most a year, and keys of at most 256 characters.\<close>

theorem parsed_call_within_limits:
  assumes "parseFrozenToolCall dates request = Inr c"
  shows "ft_name c \<noteq> [] \<and>
    byteLength (json_stringify (JObj (ft_arguments c))) \<le> 1048576 \<and> json_depth (JObj (ft_arguments c)) \<le> 32 \<and>
    json_nodes (JObj (ft_arguments c)) \<le> 10000 \<and>
    (\<forall>t \<in> set_option (ft_timing c). timing_in_bounds dates t) \<and>
    (\<forall>k \<in> set_option (ft_reservationRef c) \<union> set_option (ft_idempotencyKey c). 1 \<le> length k \<and> length k \<le> 256)"
proof -
  obtain name arguments timing ref key where c:
    "c = \<lparr>ft_name = name, ft_arguments = arguments, ft_idempotencyKey = key, ft_timing = timing, ft_reservationRef = ref\<rparr>"
    "name \<noteq> []" "assertJsonLimits (JObj arguments) = Inr ()"
    "timing = None \<and> ref = None \<and> key = None \<or> (\<exists>v. parse_profile dates v = Inr (timing, ref, key))"
    using assms by (auto simp: parseFrozenToolCall_def Let_def bind_err_Inr_iff refusals split: option.splits json.splits if_splits) blast+
  then show ?thesis using parse_profile_bounds by (fastforce simp: assertJsonLimits_iff simp del: json_depth.simps json_nodes.simps)
qed

section \<open>Responses\<close>

definition known_codes :: "int set" where
  "known_codes =
     {HeaderMismatch, MissingRequiredClientCapability, UnsupportedProtocolVersion, InvalidParams, MethodNotFound, InternalError}"

definition error_statuses :: "nat set" where
  "error_statuses = {400, 403, 404, 409, 410, 500}"

definition known_error :: "FrozenProtocolError \<Rightarrow> bool" where
  "known_error e = (fp_code e \<in> known_codes \<and> fp_httpStatus e \<in> error_statuses)"

text \<open>A JSON-RPC response to the request of a body.\<close>

definition response_to :: "json \<Rightarrow> FrozenDispatchResult \<Rightarrow> bool" where
  "response_to body r =
     (obj_get (fd_body r) ''jsonrpc'' = Some (JStr ''2.0'') \<and> obj_get (fd_body r) ''id'' = Some (requestId body) \<and>
      (if fd_httpStatus r = 200 then map fst (fd_body r) = [''jsonrpc'', ''id'', ''result'']
       else fd_httpStatus r \<in> error_statuses \<and> map fst (fd_body r) = [''jsonrpc'', ''id'', ''error''] \<and>
         (case obj_get (fd_body r) ''error'' of
            Some (JObj e) \<Rightarrow> (\<exists>c \<in> known_codes. obj_get e ''code'' = Some (JNum c)) \<and> (\<exists>m. obj_get e ''message'' = Some (JStr m))
          | _ \<Rightarrow> False)))"

lemma success_response: "id1 = requestId body \<Longrightarrow> response_to body (success id1 res)"
  by (simp add: response_to_def success_def obj_get_def)

lemma failure_response: "known_error e \<Longrightarrow> response_to body (failure (requestId body) e)"
  by (auto simp: response_to_def failure_def known_error_def error_statuses_def frozenErrorResponse_def obj_get_def)

lemma validated_id: "validateFrozenRequest body = Inr request \<Longrightarrow> fj_id request = requestId body"
  by (auto simp: validateFrozenRequest_def requestId_def frozen_object_def as_object_def bind_err_Inr_iff refusals unsupported_version_def
      split: option.splits json.splits if_splits)

text \<open>What is thrown maps to a known error.\<close>

definition fails_known :: "thrown + 'a \<Rightarrow> bool" where
  "fails_known m = (\<forall>e. m = Inl (Frozen e) \<longrightarrow> known_error e)"

named_theorems known_rules

lemma mapped_known: "(\<And>e. t = Frozen e \<Longrightarrow> known_error e) \<Longrightarrow> known_error (mapFrozenRuntimeError t)"
  by (cases t) (auto simp: mapFrozenRuntimeError_def frozen_error_def known_error_def known_codes_def error_statuses_def split: option.splits)

lemma fk_Inr [known_rules]: "fails_known (Inr v1)"
  and fk_Thrown [known_rules]: "fails_known (Inl (Thrown e))"
  and fk_invalidParams [known_rules]: "fails_known invalidParams"
  and fk_methodNotFound [known_rules]: "fails_known methodNotFound"
  and fk_headerMismatch [known_rules]: "fails_known headerMismatch"
  and fk_unsupported [known_rules]: "fails_known unsupported_version"
  and fk_capability [known_rules]: "fails_known (missing_capability j x)"
  and fk_unknown_tool [known_rules]: "fails_known (Inl (Frozen (frozen_error InvalidParams m 400 d)))"
  and fk_request [known_rules]: "fails_known (invalid_request code message)"
  and fk_timing [known_rules]: "fails_known invalidTiming"
  and fk_runtime [known_rules]: "fails_known (runtime_error r)"
  by (auto simp: fails_known_def refusals methodNotFound_def headerMismatch_def unsupported_version_def missing_capability_def frozen_error_def
      known_error_def known_codes_def error_statuses_def runtime_error_def split: sum.splits)

lemma fk_bind [known_rules]: "fails_known m \<Longrightarrow> (\<And>v. fails_known (f v)) \<Longrightarrow> fails_known (bind_err m f)"
  by (cases m) (auto simp: fails_known_def)

lemma fk_if [known_rules]: "(b \<Longrightarrow> fails_known m) \<Longrightarrow> (\<not> b \<Longrightarrow> fails_known n) \<Longrightarrow> fails_known (if b then m else n)"
  and fk_option [known_rules]: "fails_known n \<Longrightarrow> (\<And>v. fails_known (f v)) \<Longrightarrow> fails_known (case x of None \<Rightarrow> n | Some v \<Rightarrow> f v)"
  and fk_prod [known_rules]: "(\<And>u v. fails_known (g u v)) \<Longrightarrow> fails_known (case p of (u, v) \<Rightarrow> g u v)"
  and fk_json [known_rules]:
    "fails_known n0 \<Longrightarrow> (\<And>v. fails_known (f1 v)) \<Longrightarrow> (\<And>v. fails_known (f2 v)) \<Longrightarrow> (\<And>v. fails_known (f3 v)) \<Longrightarrow> (\<And>v. fails_known (f4 v)) \<Longrightarrow>
       (\<And>v. fails_known (f5 v)) \<Longrightarrow> fails_known (case_json n0 f1 f2 f3 f4 f5 j)"
  by (auto split: option.splits prod.splits json.splits)

lemma fk_parse_all [known_rules]: "(\<And>x. fails_known (f x)) \<Longrightarrow> fails_known (parse_all f xs)"
  by (induction xs) (auto intro!: known_rules)

lemma fk_parsers [known_rules]:
  "fails_known (frozen_object v)" "fails_known (assertOnlyKeys code o1 ks)" "fails_known (exactKeys o1 ks b)" "fails_known (boundedInteger j lo hi)"
  unfolding frozen_object_def assertOnlyKeys_def exactKeys_def boundedInteger_def by (intro known_rules)+

lemma fk_validate [known_rules]: "fails_known (validateFrozenRequest body)"
  unfolding validateFrozenRequest_def by (intro known_rules)

lemma fk_header [known_rules]: "fails_known (header hs n)"
  by (auto simp: header_def intro!: known_rules split: option.splits header_value.splits)

lemma fk_headers [known_rules]: "fails_known (requiredHeader hs n)" "fails_known (validateFrozenHeaders hs request)"
  unfolding requiredHeader_def validateFrozenHeaders_def by (intro known_rules)+

lemma fk_requireTasks [known_rules]: "fails_known (requireTasksCapability request)"
  unfolding requireTasksCapability_def by (intro known_rules)

lemma fk_task_parsers [known_rules]:
  "fails_known (parseTaskId ps)" "fails_known (parseTaskReference ps)" "fails_known (parse_response kv)" "fails_known (parseTaskInputResponses ps)"
  "fails_known (parse_cursor c)" "fails_known (parse_limit l)" "fails_known (parseTaskObservations ps)"
  unfolding parseTaskId_def parseTaskReference_def parse_response_def parseTaskInputResponses_def parse_cursor_def parse_limit_def
    parseTaskObservations_def Let_def by (intro known_rules)+

lemma fk_walks:
  "(\<And>d n. fails_known (nd d n)) \<Longrightarrow> fails_known (walk_json nd j d n)"
  "(\<And>d n. fails_known (nd d n)) \<Longrightarrow> fails_known (walk_items nd xs d n)"
  "(\<And>d n. fails_known (nd d n)) \<Longrightarrow> fails_known (walk_fields nd kvs d n)"
  by (induction nd j d n and nd xs d n and nd kvs d n rule: walk_json_walk_items_walk_fields.induct) (auto intro!: known_rules)

lemma fk_walk [known_rules]: "fails_known (walk_json argument_node j d n)" "fails_known (walk_json availability_node j d n)"
  by (rule fk_walks(1), auto simp: argument_node_def availability_node_def intro!: known_rules)+

lemma fk_call_parsers [known_rules]:
  "fails_known (assertJsonLimits j)" "fails_known (parse_start dates st)" "fails_known (parse_elapsed c)" "fails_known (parse_tool_timing dates j)"
  "fails_known (optionalBoundedString c m code)" "fails_known (parse_profile dates j)" "fails_known (parseFrozenToolCall dates request)"
  unfolding assertJsonLimits_def parse_start_def parse_elapsed_def parse_tool_timing_def optionalBoundedString_def parse_profile_def
    parseFrozenToolCall_def Let_def by (intro known_rules)+

lemma fk_availability_parsers [known_rules]:
  "fails_known (availability_limits j)" "fails_known (parse_pointer j)" "fails_known (parse_arguments ps)" "fails_known (optional_tolerance ps)"
  "fails_known (parse_availability_start dates ps)" "fails_known (parse_availability_timing dates j)" "fails_known (parse_check dates ids j)"
  unfolding availability_limits_def parse_pointer_def parse_arguments_def optional_tolerance_def parse_availability_start_def
    parse_availability_timing_def parse_check_def by (intro known_rules)+

lemma fk_parse_checks [known_rules]: "fails_known (parse_checks dates ids js)"
  by (induction js arbitrary: ids) (auto intro!: known_rules)

lemma fk_availability [known_rules]: "fails_known (parseFrozenAvailability dates request)"
  unfolding parseFrozenAvailability_def by (intro known_rules)

text \<open>Programs of the dispatcher that fail with known errors only.\<close>

definition runs_known :: "('s \<Rightarrow> ((thrown + 'a) \<times> 's) option) \<Rightarrow> bool" where
  "runs_known p = (\<forall>s r s'. p s = Some (r, s') \<longrightarrow> fails_known r)"

lemma rk_return [known_rules]: "fails_known r \<Longrightarrow> runs_known (\<lambda>s. Some (r, s))"
  by (simp add: runs_known_def)

lemma rk_engine [known_rules]: "runs_known (run_engine p)"
  by (auto simp: runs_known_def run_engine_def intro!: known_rules split: prod.splits)

lemma rk_parse [known_rules]: "fails_known m \<Longrightarrow> (\<And>v. runs_known (f v)) \<Longrightarrow> runs_known (after_parse m f)"
  by (cases m) (auto simp: runs_known_def after_parse_def fails_known_def)

lemma runs_knownD: "runs_known p \<Longrightarrow> p s = Some (r, s') \<Longrightarrow> fails_known r"
  unfolding runs_known_def by blast

lemma rk_then [known_rules]:
  assumes "runs_known p"
  shows "runs_known (then_return p f)"
  unfolding runs_known_def
proof (intro allI impI)
  fix s r s'
  assume "then_return p f s = Some (r, s')"
  then obtain r0 where r0: "p s = Some (r0, s')" "r = (case r0 of Inl e \<Rightarrow> Inl e | Inr v \<Rightarrow> Inr (f v))" by (auto simp: then_return_def)
  then show "fails_known r" using runs_knownD [OF assms r0(1)] by (cases r0) (auto simp: fails_known_def)
qed

lemma rk_if [known_rules]: "runs_known p \<Longrightarrow> runs_known q \<Longrightarrow> runs_known (if b then p else q)"
  and rk_cond [known_rules]: "runs_known p \<Longrightarrow> runs_known q \<Longrightarrow> runs_known (\<lambda>s. if b then p s else q s)"
  and rk_maybe [known_rules]: "runs_known p \<Longrightarrow> (\<And>v. runs_known (k v)) \<Longrightarrow> runs_known (\<lambda>s. case z of None \<Rightarrow> p s | Some v \<Rightarrow> k v s)"
  and rk_prod [known_rules]: "(\<And>u v. runs_known (g u v)) \<Longrightarrow> runs_known (case x of (u, v) \<Rightarrow> g u v)"
  by (cases b; cases z; auto split: prod.splits)+

lemma rk_task_method: "runs_known (task_method ctx request a)"
  unfolding task_method_def Let_def by (intro known_rules)

lemma rk_tools_call: "runs_known (tools_call ctx dates h en idempotency uuid request a)"
proof -
  have run: "runs_known (\<lambda>s. map_option (\<lambda>(r, s). (runtime_error r, s)) (p s))" for p :: "'a call_state \<Rightarrow> ((err + json_object) \<times> 'a call_state) option"
    by (auto simp: runs_known_def intro!: known_rules)
  show ?thesis unfolding tools_call_def by (intro known_rules run)
qed

definition relations_known :: "'w protocol_handler \<Rightarrow> bool" where
  "relations_known h = (\<forall>f request a w. ph_relations h = Some f \<longrightarrow> fails_known (fst (f request a w)))"

lemma rk_async_method:
  assumes "relations_known h"
  shows "runs_known (async_method ctx dates h idempotency uuid request a)"
proof -
  have relations: "runs_known (\<lambda>s. case f request a (snd s) of (r, w) \<Rightarrow> Some (r, (fst s, w)))" if "ph_relations h = Some f" for f
    unfolding runs_known_def
  proof (intro allI impI)
    fix s r s'
    assume "(case f request a (snd s) of (r, w) \<Rightarrow> Some (r, (fst s, w))) = Some (r, s')"
    then have "r = fst (f request a (snd s))" by (simp split: prod.splits)
    then show "fails_known r" using assms that by (simp add: relations_known_def)
  qed
  have listed: "runs_known (\<lambda>s. case ph_relations h of None \<Rightarrow> Some (methodNotFound, s)
      | Some f \<Rightarrow> (case f request a (snd s) of (r, w) \<Rightarrow> Some (r, (fst s, w))))"
    using relations by (cases "ph_relations h") (auto intro: known_rules)
  show ?thesis unfolding async_method_def [abs_def] by (intro known_rules listed rk_tools_call rk_task_method)
qed

lemma fk_dispatch_method [known_rules]: "fails_known (dispatch_method h request)"
  unfolding dispatch_method_def by (intro known_rules)

lemma frozen_dispatch_response: "response_to body (frozen_dispatch h body headers)"
proof -
  let ?m = "bind_err (validateFrozenRequest body) (\<lambda>request. bind_err (validateFrozenHeaders headers request) (\<lambda>_.
    bind_err (dispatch_method h request) (\<lambda>res. Inr (success (fj_id request) res))))"
  have known: "fails_known ?m" by (intro known_rules)
  show ?thesis
  proof (cases ?m)
    case (Inl e)
    then show ?thesis using known
      by (cases e) (auto simp: frozen_dispatch_def fails_known_def known_error_def known_codes_def error_statuses_def frozen_error_def intro!: failure_response)
  next
    case (Inr r)
    then show ?thesis
      by (auto simp: frozen_dispatch_def bind_err_Inr_iff dest: validated_id intro!: success_response)
  qed
qed

text \<open>C34. Every answer of the dispatcher is a well-formed JSON-RPC response to its request: it carries the request's identifier and either a
  result, with status 200, or an error with one of the six codes of the protocol and a client or server error status; that holds for every body, headers
  and state, whatever the engine throws, as long as the relation list throws no foreign protocol error.\<close>

theorem dispatch_response_shape:
  assumes "relations_known h" and "dispatchAsync ctx dates h idempotency uuid body headers a s = Some (r, s')"
  shows "response_to body r"
proof (cases "bind_err (validateFrozenRequest body) (\<lambda>request. bind_err (validateFrozenHeaders headers request) (\<lambda>_. Inr request))")
  case (Inl e)
  have "fails_known (bind_err (validateFrozenRequest body) (\<lambda>request. bind_err (validateFrozenHeaders headers request) (\<lambda>_. Inr request)))"
    by (intro known_rules)
  then have "known_error (mapFrozenRuntimeError e)" using Inl by (auto simp: fails_known_def intro: mapped_known)
  then show ?thesis using assms(2) Inl failure_response by (auto simp: dispatchAsync_def)
next
  case (Inr request)
  have id1: "fj_id request = requestId body" using Inr validated_id by (auto simp: bind_err_Inr_iff)
  have known: "async_method ctx dates h idempotency uuid request a s = Some (Inl e, t) \<Longrightarrow> known_error (mapFrozenRuntimeError e)" for e t
    using runs_knownD [OF rk_async_method [OF assms(1)]] unfolding fails_known_def by (intro mapped_known) blast
  show ?thesis
  proof (cases "fj_method request \<in> {''server/discover'', ''tools/list''}")
    case True
    then show ?thesis using assms(2) Inr frozen_dispatch_response by (auto simp: dispatchAsync_def)
  next
    case False
    then obtain r0 where r0: "async_method ctx dates h idempotency uuid request a s = Some (r0, s')"
      and r: "r = (case r0 of Inr res \<Rightarrow> success (fj_id request) res | Inl e \<Rightarrow> failure (requestId body) (mapFrozenRuntimeError e))"
      using assms(2) Inr by (auto simp: dispatchAsync_def)
    show ?thesis
      using r0 r known success_response [OF id1] by (cases r0) (auto intro: failure_response)
  qed
qed

section \<open>Tasks of others\<close>

text \<open>A request about a single task.\<close>

definition names_task :: "json \<Rightarrow> string \<Rightarrow> bool" where
  "names_task body t =
     (case validateFrozenRequest body of
        Inl _ \<Rightarrow> False
      | Inr request \<Rightarrow>
          fj_method request \<in> {''tasks/get'', ''tasks/update'', ''tasks/cancel'', ''io.sdar/taskExecution/tasks/observations''} \<and>
          obj_get (fj_params request) ''taskId'' = Some (JStr t))"

text \<open>A program that, in the states of a set, ends with the same error and a settled world.\<close>

definition fails_alike :: "worker_ctx \<Rightarrow> 'w call_state set \<Rightarrow> ('w call_state \<Rightarrow> ((thrown + 'a) \<times> 'w call_state) option) \<Rightarrow> bool" where
  "fails_alike ctx S p = (\<exists>e. \<forall>s \<in> S. \<exists>s'. p s = Some (Inl e, s') \<and> s' \<in> {s, (fst s, settle_others ctx (snd s))})"

named_theorems alike_rules

lemma alike_parse [alike_rules]: "(\<And>v. m = Inr v \<Longrightarrow> fails_alike ctx S (f v)) \<Longrightarrow> fails_alike ctx S (after_parse m f)"
  by (cases m) (auto simp: fails_alike_def after_parse_def)

lemma alike_missing [alike_rules]: "fails_alike ctx S (\<lambda>s. Some (methodNotFound, s))"
  unfolding fails_alike_def methodNotFound_def by blast

lemma alike_then [alike_rules]:
  assumes "fails_alike ctx S p"
  shows "fails_alike ctx S (then_return p f)"
proof -
  obtain e where e: "\<And>s. s \<in> S \<Longrightarrow> \<exists>s'. p s = Some (Inl e, s') \<and> s' \<in> {s, (fst s, settle_others ctx (snd s))}"
    using assms unfolding fails_alike_def by blast
  have "\<exists>s'. then_return p f s = Some (Inl e, s') \<and> s' \<in> {s, (fst s, settle_others ctx (snd s))}" if "s \<in> S" for s
    using e [OF that] by (fastforce simp: then_return_def)
  then show ?thesis unfolding fails_alike_def by blast
qed

lemma alike_engine:
  assumes "\<And>s. s \<in> S \<Longrightarrow> no_access (w_db (settle_others ctx (snd s))) t a"
  shows "fails_alike ctx S (run_engine (andThen (read_err ctx (\<lambda>env. getAuthorized env t a)) k))"
  unfolding fails_alike_def by (rule exI [of _ "Thrown TaskNotFoundOrUnauthorizedError"]) (simp add: run_engine_def denied assms runtime_error_def)

lemma parsed_task:
  "parseTaskId ps = Inr t \<Longrightarrow> obj_get ps ''taskId'' = Some (JStr t)" "parseTaskReference ps = Inr t \<Longrightarrow> obj_get ps ''taskId'' = Some (JStr t)"
  "parseTaskObservations ps = Inr (t, c, l) \<Longrightarrow> obj_get ps ''taskId'' = Some (JStr t)"
  by (auto simp: parseTaskId_def parseTaskReference_def parseTaskObservations_def bind_err_Inr_iff refusals split: option.splits json.splits if_splits)

lemma alike_task_method:
  assumes "\<And>s. s \<in> S \<Longrightarrow> no_access (w_db (settle_others ctx (snd s))) t a" "obj_get (fj_params request) ''taskId'' = Some (JStr t)"
  shows "fails_alike ctx S (task_method ctx request a)"
proof -
  note denied = alike_engine [OF assms(1)]
  have task: "fails_alike ctx S (run_engine (getFrozenTask ctx t a p))" "fails_alike ctx S (run_engine (updateTaskInputResponses ctx t rs a))"
    "fails_alike ctx S (run_engine (cancelTaskCooperatively ctx t a))" "fails_alike ctx S (run_engine (getTaskObservations ctx t a c l))" for p rs c l
    unfolding getFrozenTask_def updateTaskInputResponses_def cancelTaskCooperatively_def getTaskObservations_def by (rule denied, assumption)+
  show ?thesis unfolding task_method_def Let_def
    by (auto intro!: alike_rules task dest!: parsed_task simp: assms(2) bind_err_Inr_iff)
qed

text \<open>C15. A caller learns nothing about the tasks of others: a request about a task the caller may not see is answered with one and the same
  error in every state of the store, in particular where the task does not exist, and it changes nothing.\<close>

theorem task_requests_reveal_nothing:
  assumes "names_task body t" and "no_access (w_db (settle_others ctx (snd s1))) t a" "no_access (w_db (settle_others ctx (snd s2))) t a"
  shows "\<exists>r s1' s2'. dispatchAsync ctx dates h idempotency uuid body headers a s1 = Some (r, s1') \<and>
    dispatchAsync ctx dates h idempotency uuid body headers a s2 = Some (r, s2') \<and> obj_get (fd_body r) ''result'' = None \<and>
    s1' \<in> {s1, (fst s1, settle_others ctx (snd s1))} \<and> s2' \<in> {s2, (fst s2, settle_others ctx (snd s2))}"
proof (cases "bind_err (validateFrozenRequest body) (\<lambda>request. bind_err (validateFrozenHeaders headers request) (\<lambda>_. Inr request))")
  case (Inl e)
  then show ?thesis by (auto simp: dispatchAsync_def failure_def frozenErrorResponse_def obj_get_def)
next
  case (Inr request)
  then have request: "fj_method request \<in> {''tasks/get'', ''tasks/update'', ''tasks/cancel'', ''io.sdar/taskExecution/tasks/observations''}"
    "obj_get (fj_params request) ''taskId'' = Some (JStr t)" using assms(1) by (auto simp: names_task_def bind_err_Inr_iff)
  then have "async_method ctx dates h idempotency uuid request a = (\<lambda>s. Some (methodNotFound, s)) \<or>
      async_method ctx dates h idempotency uuid request a = task_method ctx request a"
    by (cases "ph_engine h") (auto simp: async_method_def [abs_def])
  then have "fails_alike ctx {s1, s2} (async_method ctx dates h idempotency uuid request a)"
    using alike_task_method [where S = "{s1, s2}", OF _ request(2)] alike_missing assms(2,3) by (elim disjE) auto
  then obtain e s1' s2' where "async_method ctx dates h idempotency uuid request a s1 = Some (Inl e, s1')" "s1' \<in> {s1, (fst s1, settle_others ctx (snd s1))}"
    "async_method ctx dates h idempotency uuid request a s2 = Some (Inl e, s2')" "s2' \<in> {s2, (fst s2, settle_others ctx (snd s2))}"
    unfolding fails_alike_def by (meson insertI1 insertI2)
  moreover have "fj_method request \<notin> {''server/discover'', ''tools/list''}" using request(1) by auto
  ultimately show ?thesis using Inr by (auto simp: dispatchAsync_def failure_def frozenErrorResponse_def obj_get_def)
qed

end
