(* ===== verification/Protocol_Example.thy ===== *)
theory Protocol_Example
  imports Protocol_Theorems Engine_Example
begin

text \<open>Concrete requests of the frozen protocol: a tool call that is parsed, and requests about a task by its owner and by another caller.\<close>

definition px_meta :: json_object where
  "px_meta = [(''io.modelcontextprotocol/protocolVersion'', JStr ''2026-07-28''),
     (''io.modelcontextprotocol/clientInfo'', JObj [(''name'', JStr ''c''), (''version'', JStr ''1'')]),
     (''io.modelcontextprotocol/clientCapabilities'', JObj [(''extensions'', JObj [(''io.modelcontextprotocol/tasks'', JObj [])])]),
     (''io.sdar/taskExecution'', JObj [(''profileVersion'', JStr ''1.0''), (''idempotencyKey'', JStr ''k''),
       (''timing'', JObj [(''start'', JObj [(''mode'', JStr ''immediate''), (''startToleranceMs'', JNum 1000)]), (''maxElapsedMs'', JNull)])])]"

definition px_body :: "string \<Rightarrow> json_object \<Rightarrow> json" where
  "px_body m params = JObj [(''jsonrpc'', JStr ''2.0''), (''id'', JNum 7), (''method'', JStr m), (''params'', JObj ((''_meta'', JObj px_meta) # params))]"

definition px_request :: "string \<Rightarrow> json_object \<Rightarrow> FrozenJsonRpcRequest" where
  "px_request m params = \<lparr>fj_id = JNum 7, fj_method = m, fj_params = (''_meta'', JObj px_meta) # params,
     fj_meta = \<lparr>fm_protocolVersion = ''2026-07-28'', fm_clientInfo = (''c'', ''1''),
       fm_clientCapabilities = [(''extensions'', JObj [(''io.modelcontextprotocol/tasks'', JObj [])])], fm_raw = px_meta\<rparr>\<rparr>"

lemma px_valid: "m \<noteq> [] \<Longrightarrow> validateFrozenRequest (px_body m params) = Inr (px_request m params)"
  by (simp add: validateFrozenRequest_def px_body_def px_request_def px_meta_def frozen_object_def as_object_def obj_get_def FROZEN_PROTOCOL_VERSION_def)

definition px_headers :: "string \<Rightarrow> string \<Rightarrow> http_headers" where
  "px_headers m name = [(''accept'', header_text ''application/json, text/event-stream''), (''content-type'', header_text ''application/json''),
     (''mcp-protocol-version'', header_text ''2026-07-28''), (''mcp-method'', header_text m), (''mcp-name'', header_text name)]"

definition px_call :: FrozenToolCall where
  "px_call = \<lparr>ft_name = ''heat'', ft_arguments = [(''target'', JNum 20)], ft_idempotencyKey = Some ''k'',
     ft_timing = Some \<lparr>tm_start = immediate 1000, tm_maxElapsedMs = None\<rparr>, ft_reservationRef = None\<rparr>"

lemma px_call_parsed: "parseFrozenToolCall dates (px_request ''tools/call'' [(''name'', JStr ''heat''), (''arguments'', JObj [(''target'', JNum 20)])]) = Inr px_call"
proof -
  have "byteLength (json_stringify (JObj [(''target'', JNum 20)])) \<le> 32" by code_simp
  then have "assertJsonLimits (JObj [(''target'', JNum 20)]) = Inr ()" unfolding assertJsonLimits_iff by simp
  then show ?thesis
    by (simp add: parseFrozenToolCall_def px_request_def px_meta_def px_call_def assertOnlyKeys_def obj_get_def Let_def parse_profile_def
        parse_tool_timing_def parse_start_def bounded_number_def safe_integer_def MAX_SAFE_INTEGER_def parse_elapsed_def optionalBoundedString_def)
qed

theorem parsed_call_within_limits_witness:
  "ft_name px_call \<noteq> [] \<and> json_depth (JObj (ft_arguments px_call)) \<le> 32 \<and>
   timing_in_bounds (\<lambda>_. None) \<lparr>tm_start = immediate 1000, tm_maxElapsedMs = None\<rparr>"
proof -
  have "set_option (ft_timing px_call) = {\<lparr>tm_start = immediate 1000, tm_maxElapsedMs = None\<rparr>}" by (simp add: px_call_def)
  with parsed_call_within_limits [OF px_call_parsed [of "\<lambda>_. None"]] show ?thesis by blast
qed

definition px_gateway :: "nat engine_gateway" where
  "px_gateway = \<lparr>sg_startOperation = \<lambda>_ n. (Inr nx_response, n + 1), sg_reconcileExecution = \<lambda>_ n. (Inl (ServiceError 14 ''UNAVAILABLE''), n + 1),
     eg_getExecution = \<lambda>_ _ _ n. (Inl (ServiceError 14 ''UNAVAILABLE''), n), eg_checkAvailability = \<lambda>_ _ n. (Inl (ServiceError 14 ''UNAVAILABLE''), n)\<rparr>"

definition px_handler :: "nat protocol_handler" where
  "px_handler = \<lparr>ph_manifest = reg_validated, ph_serverVersion = ''1'', ph_engine = Some nx_engine, ph_gateway = px_gateway, ph_discovery = None,
     ph_relations = None\<rparr>"

lemma px_headers_ok: "validateFrozenHeaders (px_headers ''tasks/get'' ''t1'') (px_request ''tasks/get'' [(''taskId'', JStr ''t1'')]) = Inr ()"
  by code_simp

abbreviation px_get :: "AuthorizationContext \<Rightarrow> db \<Rightarrow> (FrozenDispatchResult \<times> nat call_state) option" where
  "px_get a db \<equiv> dispatchAsync sx_ctx (\<lambda>_. None) px_handler None ''u'' (px_body ''tasks/get'' [(''taskId'', JStr ''t1'')]) (px_headers ''tasks/get'' ''t1'') a
     ([], nx_world db)"

theorem task_requests_reveal_nothing_witness:
  "\<exists>r s1' s2'. px_get (ex_auth\<lparr>au_hash := ''other''\<rparr>) ex_scheduled = Some (r, s1') \<and> px_get (ex_auth\<lparr>au_hash := ''other''\<rparr>) ex_initial = Some (r, s2')"
proof -
  have task: "names_task (px_body ''tasks/get'' [(''taskId'', JStr ''t1'')]) ''t1''"
    unfolding names_task_def px_valid [OF list.distinct(2)] by (simp add: px_request_def px_meta_def obj_get_def)
  have no: "no_access (w_db (settle_others sx_ctx (snd ([], nx_world ex_scheduled)))) ''t1'' (ex_auth\<lparr>au_hash := ''other''\<rparr>)"
    "no_access (w_db (settle_others sx_ctx (snd ([], nx_world ex_initial)))) ''t1'' (ex_auth\<lparr>au_hash := ''other''\<rparr>)"
    by (simp_all add: no_access_def ex_scheduled_task authorized_def row_eval ex_initial_def empty_db_def)
  show ?thesis using task_requests_reveal_nothing [OF task no] by blast
qed

lemma px_relations: "relations_known px_handler"
  by (simp add: relations_known_def px_handler_def)

theorem dispatch_response_shape_witness:
  "\<exists>r s'. px_get ex_auth ex_scheduled = Some (r, s') \<and> response_to (px_body ''tasks/get'' [(''taskId'', JStr ''t1'')]) r"
proof -
  have "\<exists>r s'. px_get ex_auth ex_scheduled = Some (r, s')"
    unfolding dispatchAsync_def px_valid [OF list.distinct(2)]
    by (simp add: px_headers_ok, simp add: px_request_def px_handler_def async_method_def task_method_def Let_def after_parse_def run_engine_def
        split: sum.splits prod.splits)
  then show ?thesis using dispatch_response_shape [OF px_relations] by blast
qed

end
