(* ===== verification/Notifications.thy ===== *)
theory Notifications
  imports Protocol_Dispatch
begin

text \<open>
  Task notification streams (\<^verbatim>\<open>packages/mcp-protocol/src/sep2663/notifications.ts\<close>): the bounded writer of one stream, and the manager that admits
  subscriptions, polls the task engine for the subscribed tasks and delivers what has changed.

  A subscription object lives in a heap by its internal identifier, as the poll keeps references to objects the manager has already released.
  Between the awaits of the source an operation is one function here; the relation \<open>notification_step\<close> of \<open>Notification_Theorems\<close> interleaves them.
  Whether the connection takes more after the \<open>n\<close>th write is the parameter \<open>writable\<close>.  Counters and gauges other than those of the queue are left
  out: they are written only.
\<close>

section \<open>The writer\<close>

record WriterOptions =
  wo_maxMessages :: nat
  wo_maxBytes :: nat

text \<open>The queue and the flags of the writer, the sum of the deltas it has reported, and what has reached the response.\<close>

record TaskNotificationWriter =
  tw_queue :: "(string \<times> nat) list"
  tw_queueBytes :: int
  tw_waitingForDrain :: bool
  tw_closed :: bool
  tw_reportedMessages :: int
  tw_reportedBytes :: int
  tw_sent :: "string list"
  tw_headersSent :: bool
  tw_ended :: bool

definition new_writer :: TaskNotificationWriter where
  "new_writer = \<lparr>tw_queue = [], tw_queueBytes = 0, tw_waitingForDrain = False, tw_closed = False, tw_reportedMessages = 0, tw_reportedBytes = 0,
     tw_sent = [], tw_headersSent = False, tw_ended = False\<rparr>"

definition frame_of :: "json_object \<Rightarrow> string" where
  "frame_of message = ''event: message'' @ [CHR 0x0A] @ ''data: '' @ json_stringify (JObj message) @ [CHR 0x0A, CHR 0x0A]"

definition queue_delta :: "int \<Rightarrow> int \<Rightarrow> TaskNotificationWriter \<Rightarrow> TaskNotificationWriter" where
  "queue_delta messages bytes w = w\<lparr>tw_reportedMessages := tw_reportedMessages w + messages, tw_reportedBytes := tw_reportedBytes w + bytes\<rparr>"

definition send_first :: "string \<times> nat \<Rightarrow> (string \<times> nat) list \<Rightarrow> TaskNotificationWriter \<Rightarrow> TaskNotificationWriter" where
  "send_first next1 rest w =
     (queue_delta (-1) (- int (snd next1)) (w\<lparr>tw_queue := rest, tw_queueBytes := tw_queueBytes w - int (snd next1)\<rparr>))
       \<lparr>tw_sent := tw_sent w @ [fst next1], tw_headersSent := True\<rparr>"

lemma send_first_queue [simp]: "tw_queue (send_first x rest w) = rest"
  by (simp add: send_first_def queue_delta_def)

function flush_loop :: "(nat \<Rightarrow> bool) \<Rightarrow> TaskNotificationWriter \<Rightarrow> TaskNotificationWriter" where
  "flush_loop writable w =
     (case tw_queue w of
        [] \<Rightarrow> w
      | next1 # rest \<Rightarrow>
          (let w' = send_first next1 rest w in
           if writable (length (tw_sent w')) then flush_loop writable w' else w'\<lparr>tw_waitingForDrain := True\<rparr>))"
  by pat_completeness auto
termination by (relation "measure (\<lambda>(_, w). length (tw_queue w))") auto

declare flush_loop.simps [simp del]

definition flush :: "(nat \<Rightarrow> bool) \<Rightarrow> TaskNotificationWriter \<Rightarrow> TaskNotificationWriter" where
  "flush writable w = (if tw_closed w \<or> tw_waitingForDrain w then w else flush_loop writable w)"

definition dispose :: "TaskNotificationWriter \<Rightarrow> TaskNotificationWriter" where
  "dispose w =
     (if tw_closed w then w
      else if tw_queue w = [] then w\<lparr>tw_closed := True\<rparr>
      else (queue_delta (- int (length (tw_queue w))) (- tw_queueBytes w) (w\<lparr>tw_closed := True\<rparr>))\<lparr>tw_queue := [], tw_queueBytes := 0\<rparr>)"

definition close_writer :: "TaskNotificationWriter \<Rightarrow> TaskNotificationWriter" where
  "close_writer w = (if tw_closed w then w else (dispose w)\<lparr>tw_ended := True, tw_headersSent := True\<rparr>)"

definition enqueue :: "WriterOptions \<Rightarrow> (nat \<Rightarrow> bool) \<Rightarrow> json_object \<Rightarrow> TaskNotificationWriter \<Rightarrow> bool \<times> TaskNotificationWriter" where
  "enqueue options writable message w =
     (let frame = frame_of message; bytes = byteLength frame in
      if tw_closed w then (False, w)
      else if length (tw_queue w) + 1 > wo_maxMessages options then (False, close_writer w)
      else if tw_queueBytes w + int bytes > int (wo_maxBytes options) then (False, close_writer w)
      else (True, flush writable (queue_delta 1 (int bytes)
        (w\<lparr>tw_queue := tw_queue w @ [(frame, bytes)], tw_queueBytes := tw_queueBytes w + int bytes\<rparr>))))"

text \<open>The listener of \<^verbatim>\<open>drain\<close>, installed while the writer waits for it.\<close>

definition drained :: "(nat \<Rightarrow> bool) \<Rightarrow> TaskNotificationWriter \<Rightarrow> TaskNotificationWriter" where
  "drained writable w = (if tw_waitingForDrain w then flush writable (w\<lparr>tw_waitingForDrain := False\<rparr>) else w)"

text \<open>Messages enqueued one after the other, up to the first that is refused.\<close>

fun enqueue_all :: "('m \<Rightarrow> 'w \<Rightarrow> bool \<times> 'w) \<Rightarrow> 'm list \<Rightarrow> 'w \<Rightarrow> bool \<times> 'w" where
  "enqueue_all put [] w = (True, w)"
| "enqueue_all put (m # ms) w = (case put m w of (True, w') \<Rightarrow> enqueue_all put ms w' | (False, w') \<Rightarrow> (False, w'))"

section \<open>Requests and messages\<close>

text \<open>\<^verbatim>\<open>[...new Set(taskIds)].sort()\<close>: by code units.\<close>

definition parseTaskIds :: "json_object \<Rightarrow> thrown + string list" where
  "parseTaskIds params =
     (if list_ex (\<lambda>(k, _). k \<noteq> ''notifications'' \<and> k \<noteq> ''_meta'') params then invalidParams
      else case obj_get params ''notifications'' of
        Some (JObj record1) \<Rightarrow>
          if list_ex (\<lambda>(k, _). k \<noteq> ''taskIds'') record1 then invalidParams
          else (case obj_get record1 ''taskIds'' of
            Some (JArr taskIds) \<Rightarrow>
              if length taskIds > 256 then invalidParams
              else bind_err (parse_all (\<lambda>v. case v of JStr s \<Rightarrow> if s = [] then invalidParams else Inr s | _ \<Rightarrow> invalidParams) taskIds) (\<lambda>ids.
                Inr (sort (remdups ids)))
          | _ \<Rightarrow> invalidParams)
      | _ \<Rightarrow> invalidParams)"

definition acknowledged :: "json \<Rightarrow> string list \<Rightarrow> json_object" where
  "acknowledged subscriptionId taskIds =
    [(''jsonrpc'', JStr ''2.0''), (''method'', JStr ''notifications/subscriptions/acknowledged''),
     (''params'', JObj [(''_meta'', JObj [(''io.modelcontextprotocol/subscriptionId'', subscriptionId)]),
       (''notifications'', JObj [(''taskIds'', JArr (map JStr taskIds))])])]"

definition taskNotification :: "json \<Rightarrow> json_object \<Rightarrow> json_object" where
  "taskNotification subscriptionId snapshot =
    (let meta = (case obj_get snapshot ''_meta'' of Some (JObj m) \<Rightarrow> m | _ \<Rightarrow> []) in
     [(''jsonrpc'', JStr ''2.0''), (''method'', JStr ''notifications/tasks''),
      (''params'', JObj (obj_set ''_meta'' (JObj (obj_set ''io.modelcontextprotocol/subscriptionId'' subscriptionId meta)) snapshot))])"

definition runtimeRevision :: "json_object \<Rightarrow> err + string" where
  "runtimeRevision snapshot =
     (case as_object (obj_get snapshot ''_meta'') of
        None \<Rightarrow> Inl (Error ''TASK_NOTIFICATION_REVISION_INVALID'')
      | Some meta \<Rightarrow> (case as_object (obj_get meta ''io.sdar/taskExecution'') of
          None \<Rightarrow> Inl (Error ''TASK_NOTIFICATION_REVISION_INVALID'')
        | Some e \<Rightarrow> (case obj_get e ''runtimeRevision'' of
            Some (JStr r) \<Rightarrow> if revision_format r then Inr r else Inl (Error ''TASK_NOTIFICATION_REVISION_INVALID'')
          | _ \<Rightarrow> Inl (Error ''TASK_NOTIFICATION_REVISION_INVALID''))))"

record NotificationState =
  ns_revision :: string
  ns_signature :: string
  ns_terminal :: bool

definition notificationState :: "json_object \<Rightarrow> string \<Rightarrow> NotificationState" where
  "notificationState snapshot revision =
    \<lparr>ns_revision = revision, ns_signature = json_stringify (JObj snapshot),
     ns_terminal = (case obj_get snapshot ''status'' of None \<Rightarrow> False | Some s \<Rightarrow> js_String s \<in> {''completed'', ''failed'', ''cancelled''})\<rparr>"

section \<open>Subscriptions\<close>

record SubscriptionIdentity =
  si_internalId :: string
  si_transportScopeId :: string
  si_wireRequestId :: json
  si_typedWireRequestKey :: string
  si_authorizationScope :: string

definition typedWireRequestKey :: "json \<Rightarrow> string" where
  "typedWireRequestKey r =
     (case r of JStr s \<Rightarrow> ''string:'' @ s | JNum n \<Rightarrow> ''number:'' @ show_int n | _ \<Rightarrow> ''object:'' @ js_String r)"

definition authorizationScope :: "AuthorizationContext \<Rightarrow> string" where
  "authorizationScope a =
     au_hash a @ '':'' @ show_mode (au_executionMode a) @ '':'' @ (case au_simulationId a of None \<Rightarrow> [] | Some s \<Rightarrow> s)"

definition transportWireIndexKey :: "string \<Rightarrow> string \<Rightarrow> string" where
  "transportWireIndexKey scope key = scope @ [CHR 0x00] @ key"

definition subscriptionIdentity :: "string \<Rightarrow> json \<Rightarrow> string \<Rightarrow> AuthorizationContext \<Rightarrow> SubscriptionIdentity" where
  "subscriptionIdentity uuid wireRequestId transportScopeId a =
    \<lparr>si_internalId = uuid, si_transportScopeId = transportScopeId, si_wireRequestId = wireRequestId,
     si_typedWireRequestKey = typedWireRequestKey wireRequestId, si_authorizationScope = authorizationScope a\<rparr>"

abbreviation identity_key :: "SubscriptionIdentity \<Rightarrow> string" where
  "identity_key i \<equiv> transportWireIndexKey (si_transportScopeId i) (si_typedWireRequestKey i)"

text \<open>Where the call of \<^verbatim>\<open>listen\<close> stands: before its snapshots are there, waiting for the connection to close, or left.\<close>

datatype listen_phase = loading | streaming | left

record subscription =
  sb_identity :: SubscriptionIdentity
  sb_authorization :: AuthorizationContext
  sb_writer :: TaskNotificationWriter
  sb_revisions :: "string \<rightharpoonup> NotificationState"
  sb_acceptedTaskIds :: "string list"
  sb_phase :: listen_phase

record manager_options =
  mo_maxSubscriptions :: nat
  mo_maxSubscriptionsPerAuth :: nat
  mo_maxTaskBindings :: nat
  mo_writer :: WriterOptions
  mo_batchSize :: nat

definition default_options :: manager_options where
  "default_options = \<lparr>mo_maxSubscriptions = 256, mo_maxSubscriptionsPerAuth = 32, mo_maxTaskBindings = 4096,
     mo_writer = \<lparr>wo_maxMessages = 64, wo_maxBytes = 1048576\<rparr>, mo_batchSize = 256\<rparr>"

text \<open>The heap, the keys of the two maps of the source in their order, the timer, the groups a running poll still has to serve, and the counters.\<close>

record manager =
  nm_heap :: "string \<rightharpoonup> subscription"
  nm_subscriptions :: "string list"
  nm_index :: "string \<rightharpoonup> string list"
  nm_timer :: bool
  nm_poll :: "string list list option"
  nm_taskBindings :: int
  nm_queueMessages :: int
  nm_queueBytes :: int

definition new_manager :: manager where
  "new_manager = \<lparr>nm_heap = (\<lambda>_. None), nm_subscriptions = [], nm_index = (\<lambda>_. None), nm_timer = False, nm_poll = None, nm_taskBindings = 0,
     nm_queueMessages = 0, nm_queueBytes = 0\<rparr>"

definition sub_of :: "manager \<Rightarrow> string \<Rightarrow> subscription" where
  "sub_of m i = the (nm_heap m i)"

abbreviation scope_of :: "manager \<Rightarrow> string \<Rightarrow> string" where
  "scope_of m i \<equiv> si_authorizationScope (sb_identity (sub_of m i))"

text \<open>An update of a subscription object; the deltas its writer reports move the counters of the manager.\<close>

definition put_sub :: "string \<Rightarrow> subscription \<Rightarrow> manager \<Rightarrow> manager" where
  "put_sub i sb m = m\<lparr>nm_heap := (nm_heap m)(i \<mapsto> sb),
     nm_queueMessages := nm_queueMessages m + tw_reportedMessages (sb_writer sb) - tw_reportedMessages (sb_writer (sub_of m i)),
     nm_queueBytes := nm_queueBytes m + tw_reportedBytes (sb_writer sb) - tw_reportedBytes (sb_writer (sub_of m i))\<rparr>"

definition with_writer :: "string \<Rightarrow> (TaskNotificationWriter \<Rightarrow> TaskNotificationWriter) \<Rightarrow> manager \<Rightarrow> manager" where
  "with_writer i f m = put_sub i ((sub_of m i)\<lparr>sb_writer := f (sb_writer (sub_of m i))\<rparr>) m"

definition capacity_error :: FrozenProtocolError where
  "capacity_error = frozen_error InternalError ''Task notification capacity exceeded'' 503
     (Some [(''reasonCode'', JStr ''TASK_NOTIFICATION_CAPACITY_EXCEEDED''), (''retryable'', JBool True)])"

definition assertCapacity :: "manager_options \<Rightarrow> string \<Rightarrow> nat \<Rightarrow> manager \<Rightarrow> thrown + unit" where
  "assertCapacity options scope requestedBindings m =
     (let perAuthorization = length (filter (\<lambda>i. scope_of m i = scope) (nm_subscriptions m)) in
      if length (nm_subscriptions m) \<ge> mo_maxSubscriptions options \<or> perAuthorization \<ge> mo_maxSubscriptionsPerAuth options \<or>
         nm_taskBindings m + int requestedBindings > int (mo_maxTaskBindings options)
      then Inl (Frozen capacity_error) else Inr ())"

section \<open>Snapshots\<close>

fun assoc_set :: "'k \<Rightarrow> 'v \<Rightarrow> ('k \<times> 'v) list \<Rightarrow> ('k \<times> 'v) list" where
  "assoc_set k v [] = [(k, v)]"
| "assoc_set k v ((k', v') # kvs) = (if k' = k then (k, v) # kvs else (k', v') # assoc_set k v kvs)"

definition assoc_sets :: "('k \<times> 'v) list \<Rightarrow> ('k \<times> 'v) list \<Rightarrow> ('k \<times> 'v) list" where
  "assoc_sets new kvs = foldl (\<lambda>m (k, v). assoc_set k v m) kvs new"

text \<open>Batches of a positive size, as the configuration has it.\<close>

function chunks :: "nat \<Rightarrow> 'a list \<Rightarrow> 'a list list" where
  "chunks k xs = (if xs = [] \<or> k = 0 then [] else take k xs # chunks k (drop k xs))"
  by pat_completeness auto
termination by (relation "measure (\<lambda>(_, xs). length xs)") auto

declare chunks.simps [simp del]

definition authorizedSnapshot :: "worker_ctx \<Rightarrow> string \<Rightarrow> AuthorizationContext \<Rightarrow> ('w, json_object option) program" where
  "authorizedSnapshot ctx taskId a =
     catching (andThen (getFrozenTask ctx taskId a notification) (\<lambda>v. ret (Some v))) (\<lambda>e.
       case runtime_view e of
         Some (kind, _, _) \<Rightarrow> if kind = task_not_found \<or> kind = task_expired then ret None else throw e
       | None \<Rightarrow> throw e)"

fun load_singly :: "worker_ctx \<Rightarrow> AuthorizationContext \<Rightarrow> string list \<Rightarrow> (string \<times> json_object) list \<Rightarrow> ('w, (string \<times> json_object) list) program" where
  "load_singly ctx a [] snapshots = ret snapshots"
| "load_singly ctx a (t # ts) snapshots =
     andThen (authorizedSnapshot ctx t a) (\<lambda>v.
     load_singly ctx a ts (case v of None \<Rightarrow> snapshots | Some snapshot \<Rightarrow> assoc_set t snapshot snapshots))"

text \<open>\<open>bulk\<close>: whether the engine offers \<^verbatim>\<open>getFrozenTasks\<close>.\<close>

fun load_batches ::
  "worker_ctx \<Rightarrow> bool \<Rightarrow> AuthorizationContext \<Rightarrow> string list list \<Rightarrow> (string \<times> json_object) list \<Rightarrow> ('w, (string \<times> json_object) list) program" where
  "load_batches ctx bulk a [] snapshots = ret snapshots"
| "load_batches ctx bulk a (batch # batches) snapshots =
     andThen (if bulk then andThen (getFrozenTasks ctx batch a) (\<lambda>loaded. ret (assoc_sets loaded snapshots))
              else load_singly ctx a batch snapshots)
       (load_batches ctx bulk a batches)"

definition authorizedSnapshots ::
  "worker_ctx \<Rightarrow> bool \<Rightarrow> manager_options \<Rightarrow> string list \<Rightarrow> AuthorizationContext \<Rightarrow> ('w, (string \<times> json_object) list) program" where
  "authorizedSnapshots ctx bulk options taskIds a = load_batches ctx bulk a (chunks (mo_batchSize options) taskIds) []"

section \<open>Listening\<close>

text \<open>\<^verbatim>\<open>listen\<close> up to its first await.\<close>

definition listen_begin ::
  "manager_options \<Rightarrow> string \<Rightarrow> FrozenJsonRpcRequest \<Rightarrow> AuthorizationContext \<Rightarrow> string \<Rightarrow> manager \<Rightarrow> thrown + manager" where
  "listen_begin options uuid request a transportScopeId m =
     bind_err (parseTaskIds (fj_params request)) (\<lambda>requestedTaskIds.
     let identity = subscriptionIdentity uuid (fj_id request) transportScopeId a; scope = si_authorizationScope identity;
         key = identity_key identity; existing = (case nm_index m key of None \<Rightarrow> [] | Some is \<Rightarrow> is) in
     bind_err (assertCapacity options scope (length requestedTaskIds) m) (\<lambda>_.
     if list_ex (\<lambda>i. i \<in> set (nm_subscriptions m) \<and> scope_of m i = scope) existing then invalidParams
     else Inr (m\<lparr>nm_heap := (nm_heap m)(uuid \<mapsto> \<lparr>sb_identity = identity, sb_authorization = a, sb_writer = new_writer, sb_revisions = (\<lambda>_. None),
              sb_acceptedTaskIds = requestedTaskIds, sb_phase = loading\<rparr>),
            nm_subscriptions := nm_subscriptions m @ [uuid], nm_taskBindings := nm_taskBindings m + int (length requestedTaskIds),
            nm_index := (nm_index m)(key \<mapsto> existing @ [uuid])\<rparr>)))"

definition release :: "string \<Rightarrow> manager \<Rightarrow> manager" where
  "release i m =
     (if i \<notin> set (nm_subscriptions m) then m
      else
        let sb = sub_of m i; key = identity_key (sb_identity sb);
            indexed = (case nm_index m key of None \<Rightarrow> None | Some is \<Rightarrow> (case removeAll i is of [] \<Rightarrow> None | is' \<Rightarrow> Some is'));
            rest = removeAll i (nm_subscriptions m)
        in (put_sub i (sb\<lparr>sb_writer := dispose (sb_writer sb), sb_phase := left\<rparr>) m)
             \<lparr>nm_subscriptions := rest, nm_taskBindings := nm_taskBindings m - int (length (sb_acceptedTaskIds sb)),
              nm_index := (nm_index m)(key := indexed), nm_timer := (nm_timer m \<and> rest \<noteq> [])\<rparr>)"

fun initial_loop ::
  "WriterOptions \<Rightarrow> (nat \<Rightarrow> bool) \<Rightarrow> (string \<times> json_object) list \<Rightarrow> string list \<Rightarrow> subscription \<Rightarrow> bool \<times> subscription" where
  "initial_loop options writable current [] sb = (True, sb)"
| "initial_loop options writable current (t # ts) sb =
     (case map_of current t of
        None \<Rightarrow> initial_loop options writable current ts sb
      | Some snapshot \<Rightarrow>
          (case runtimeRevision snapshot of
             Inl _ \<Rightarrow> (False, sb)
           | Inr revision \<Rightarrow>
               (case enqueue options writable (taskNotification (si_wireRequestId (sb_identity sb)) snapshot) (sb_writer sb) of
                  (ok, w) \<Rightarrow>
                    let sb' = sb\<lparr>sb_revisions := (sb_revisions sb)(t \<mapsto> notificationState snapshot revision), sb_writer := w\<rparr> in
                    if ok then initial_loop options writable current ts sb' else (False, sb'))))"

text \<open>The headers, the acknowledgement and the first snapshots; headers that are already sent cannot be set, so that \<^verbatim>\<open>listen\<close> throws.\<close>

definition first_frames :: "WriterOptions \<Rightarrow> (nat \<Rightarrow> bool) \<Rightarrow> (string \<times> json_object) list \<Rightarrow> subscription \<Rightarrow> bool \<times> subscription" where
  "first_frames options writable current sb =
     (if tw_headersSent (sb_writer sb) then (False, sb)
      else case enqueue options writable (acknowledged (si_wireRequestId (sb_identity sb)) (sb_acceptedTaskIds sb))
          ((sb_writer sb)\<lparr>tw_headersSent := True\<rparr>) of
        (False, w) \<Rightarrow> (False, sb\<lparr>sb_writer := w\<rparr>)
      | (True, w) \<Rightarrow>
          (case initial_loop options writable current (sb_acceptedTaskIds sb) (sb\<lparr>sb_writer := w\<rparr>) of
             (ok, sb') \<Rightarrow>
               if ok \<and> sb_acceptedTaskIds sb = [] then (False, sb'\<lparr>sb_writer := close_writer (sb_writer sb')\<rparr>) else (ok, sb')))"

definition listen_loaded ::
  "manager_options \<Rightarrow> (nat \<Rightarrow> bool) \<Rightarrow> string \<Rightarrow> err + (string \<times> json_object) list \<Rightarrow> manager \<Rightarrow> manager" where
  "listen_loaded options writable i loaded m =
     (case loaded of
        Inl _ \<Rightarrow> release i m
      | Inr current \<Rightarrow>
          let sb = sub_of m i; accepted = sort (map fst current) in
          (case first_frames (mo_writer options) writable current (sb\<lparr>sb_acceptedTaskIds := accepted\<rparr>) of
             (ok, sb') \<Rightarrow>
               let m' = (put_sub i (if ok then sb'\<lparr>sb_phase := streaming\<rparr> else sb') m)
                 \<lparr>nm_taskBindings := nm_taskBindings m + int (length accepted) - int (length (sb_acceptedTaskIds sb)), nm_timer := (nm_timer m \<or> ok)\<rparr>
               in if ok then m' else release i m'))"

section \<open>Polling\<close>

definition deliverChangedSnapshot ::
  "WriterOptions \<Rightarrow> (nat \<Rightarrow> bool) \<Rightarrow> string \<Rightarrow> json_object \<Rightarrow> subscription \<Rightarrow> err + subscription" where
  "deliverChangedSnapshot options writable taskId snapshot sb =
     bind_err (runtimeRevision snapshot) (\<lambda>revision.
     let previous = sb_revisions sb taskId; next1 = notificationState snapshot revision;
         deliver = Inr (sb\<lparr>sb_revisions := (sb_revisions sb)(taskId \<mapsto> next1),
           sb_writer := snd (enqueue options writable (taskNotification (si_wireRequestId (sb_identity sb)) snapshot) (sb_writer sb))\<rparr>) in
     case previous of
       None \<Rightarrow> deliver
     | Some p \<Rightarrow>
         if read_nat revision < read_nat (ns_revision p) then Inl (Error ''TASK_NOTIFICATION_REVISION_REGRESSION'')
         else if ns_revision p = revision then
           (if ns_signature p \<noteq> ns_signature next1 then Inl (Error ''TASK_NOTIFICATION_REVISION_CONFLICT'') else Inr sb)
         else if ns_terminal p \<and> \<not> ns_terminal next1 then Inl (Error ''TASK_NOTIFICATION_TERMINAL_REGRESSION'')
         else deliver)"

text \<open>The loops of \<^verbatim>\<open>#pollAll\<close> over one group; what was delivered before an error stays.\<close>

fun deliver_tasks ::
  "WriterOptions \<Rightarrow> (nat \<Rightarrow> bool) \<Rightarrow> (string \<times> json_object) list \<Rightarrow> string list \<Rightarrow> subscription \<Rightarrow> bool \<times> subscription" where
  "deliver_tasks options writable snapshots [] sb = (True, sb)"
| "deliver_tasks options writable snapshots (t # ts) sb =
     (case map_of snapshots t of
        None \<Rightarrow> deliver_tasks options writable snapshots ts sb
      | Some snapshot \<Rightarrow> (case deliverChangedSnapshot options writable t snapshot sb of
          Inl _ \<Rightarrow> (False, sb)
        | Inr sb' \<Rightarrow> deliver_tasks options writable snapshots ts sb'))"

fun poll_group :: "manager_options \<Rightarrow> (string \<Rightarrow> nat \<Rightarrow> bool) \<Rightarrow> (string \<times> json_object) list \<Rightarrow> string list \<Rightarrow> manager \<Rightarrow> bool \<times> manager" where
  "poll_group options writable snapshots [] m = (True, m)"
| "poll_group options writable snapshots (i # is) m =
     (case deliver_tasks (mo_writer options) (writable i) snapshots (sb_acceptedTaskIds (sub_of m i)) (sub_of m i) of
        (ok, sb) \<Rightarrow> if ok then poll_group options writable snapshots is (put_sub i sb m) else (False, put_sub i sb m))"

text \<open>The groups of a poll: the subscriptions by authorization scope, scopes and members in the order of the map.\<close>

definition poll_groups :: "manager \<Rightarrow> string list list" where
  "poll_groups m = map (\<lambda>scope. filter (\<lambda>i. scope_of m i = scope) (nm_subscriptions m))
     (List.rev (remdups (List.rev (map (scope_of m) (nm_subscriptions m)))))"

definition group_tasks :: "manager \<Rightarrow> string list \<Rightarrow> string list" where
  "group_tasks m is = sort (remdups (concat (map (\<lambda>i. sb_acceptedTaskIds (sub_of m i)) is)))"

definition close_all :: "manager \<Rightarrow> manager" where
  "close_all m = foldl (\<lambda>m i. with_writer i close_writer m) m (nm_subscriptions m)"

definition poll_tick :: "manager \<Rightarrow> manager" where
  "poll_tick m = (if nm_timer m \<and> nm_poll m = None then m\<lparr>nm_poll := Some (poll_groups m)\<rparr> else m)"

text \<open>The poll after the snapshots of its next group are loaded, or have failed to load.\<close>

definition poll_next ::
  "manager_options \<Rightarrow> (string \<Rightarrow> nat \<Rightarrow> bool) \<Rightarrow> err + (string \<times> json_object) list \<Rightarrow> manager \<Rightarrow> manager" where
  "poll_next options writable loaded m =
     (case nm_poll m of
        None \<Rightarrow> m
      | Some [] \<Rightarrow> m\<lparr>nm_poll := None\<rparr>
      | Some (members # groups) \<Rightarrow>
          (case loaded of
             Inl _ \<Rightarrow> (close_all m)\<lparr>nm_poll := None\<rparr>
           | Inr snapshots \<Rightarrow>
               (case poll_group options writable snapshots members m of
                  (True, m') \<Rightarrow> m'\<lparr>nm_poll := Some groups\<rparr>
                | (False, m') \<Rightarrow> (close_all m')\<lparr>nm_poll := None\<rparr>)))"

section \<open>Closing and cancelling\<close>

text \<open>The listeners of the response and of the cancellation exist once \<^verbatim>\<open>listen\<close> waits; an event before that finds nobody.\<close>

definition connection_closed :: "string \<Rightarrow> manager \<Rightarrow> manager" where
  "connection_closed i m = (if sb_phase (sub_of m i) = streaming then release i m else m)"

definition abort_subscription :: "string \<Rightarrow> manager \<Rightarrow> manager" where
  "abort_subscription i m = (if sb_phase (sub_of m i) = streaming then release i (with_writer i close_writer m) else m)"

definition cancel_subscription :: "json \<Rightarrow> string \<Rightarrow> AuthorizationContext option \<Rightarrow> manager \<Rightarrow> bool \<times> manager" where
  "cancel_subscription rid transportScopeId authorization m =
     (let ids = (case nm_index m (transportWireIndexKey transportScopeId (typedWireRequestKey rid)) of None \<Rightarrow> [] | Some is \<Rightarrow> is);
          candidates = filter (\<lambda>i. i \<in> set (nm_subscriptions m) \<and>
            (case authorization of None \<Rightarrow> True | Some a \<Rightarrow> scope_of m i = authorizationScope a)) ids
      in case candidates of [i] \<Rightarrow> (True, abort_subscription i m) | _ \<Rightarrow> (False, m))"

definition handleCancelledNotification :: "json \<Rightarrow> string \<Rightarrow> AuthorizationContext option \<Rightarrow> manager \<Rightarrow> thrown + bool \<times> manager" where
  "handleCancelledNotification v transportScopeId authorization m =
     bind_err (frozen_object (Some v)) (\<lambda>n.
     if obj_get n ''jsonrpc'' \<noteq> Some (JStr ''2.0'') \<or> obj_get n ''method'' \<noteq> Some (JStr ''notifications/cancelled'') then invalidParams
     else
       bind_err (frozen_object (obj_get n ''params'')) (\<lambda>record1.
       if length record1 \<noteq> 1 then invalidParams
       else case obj_get record1 ''requestId'' of
         Some (JStr s) \<Rightarrow> Inr (cancel_subscription (JStr s) transportScopeId authorization m)
       | Some (JNum k) \<Rightarrow> Inr (cancel_subscription (JNum k) transportScopeId authorization m)
       | _ \<Rightarrow> invalidParams))"

definition writer_drained :: "(string \<Rightarrow> nat \<Rightarrow> bool) \<Rightarrow> string \<Rightarrow> manager \<Rightarrow> manager" where
  "writer_drained writable i m = with_writer i (drained (writable i)) m"

end
