(* ===== verification/Notification_Writer.thy ===== *)
theory Notification_Writer
  imports Notifications
begin

text \<open>
  The writer of a stream as a bounded first-in first-out log: what it accepts is sent in order, nothing is sent that was not accepted, and its queue
  and the counts it reports stay within the limits.  The locale \<open>fifo_writer\<close> is what the streams rely on.
\<close>

section \<open>The invariant of the writer\<close>

definition queue_ok :: "WriterOptions \<Rightarrow> TaskNotificationWriter \<Rightarrow> bool" where
  "queue_ok options w \<longleftrightarrow>
     tw_queueBytes w = int (sum_list (map snd (tw_queue w))) \<and>
     length (tw_queue w) \<le> wo_maxMessages options \<and> sum_list (map snd (tw_queue w)) \<le> wo_maxBytes options \<and>
     tw_reportedMessages w = int (length (tw_queue w)) \<and> tw_reportedBytes w = tw_queueBytes w \<and>
     (tw_closed w \<longrightarrow> tw_queue w = []) \<and> (tw_ended w \<longrightarrow> tw_closed w) \<and>
     (tw_sent w \<noteq> [] \<or> tw_ended w \<longrightarrow> tw_headersSent w) \<and> (tw_waitingForDrain w \<longrightarrow> tw_sent w \<noteq> [])"

text \<open>Between its operations the writer holds frames only while it waits for the connection.\<close>

definition writer_ok :: "WriterOptions \<Rightarrow> TaskNotificationWriter \<Rightarrow> bool" where
  "writer_ok options w \<longleftrightarrow> queue_ok options w \<and> (tw_queue w = [] \<or> tw_waitingForDrain w)"

definition writer_log :: "TaskNotificationWriter \<Rightarrow> string list" where
  "writer_log w = tw_sent w @ map fst (tw_queue w)"

lemma new_writer_ok: "writer_ok options new_writer"
  by (simp add: writer_ok_def queue_ok_def new_writer_def)

lemma send_first_ok:
  assumes "queue_ok options w" "tw_queue w = x # rest" "\<not> tw_closed w"
  shows "queue_ok options (send_first x rest w)" "writer_log (send_first x rest w) = writer_log w" "\<not> tw_closed (send_first x rest w)"
    "tw_sent (send_first x rest w) = tw_sent w @ [fst x]"
  using assms by (auto simp: queue_ok_def send_first_def queue_delta_def writer_log_def)

lemma flush_loop_ok:
  "queue_ok options w \<Longrightarrow> \<not> tw_closed w \<Longrightarrow>
     writer_ok options (flush_loop writable w) \<and> writer_log (flush_loop writable w) = writer_log w \<and> \<not> tw_closed (flush_loop writable w) \<and>
     prefix (tw_sent w) (tw_sent (flush_loop writable w)) \<and> (tw_headersSent w \<longrightarrow> tw_headersSent (flush_loop writable w))"
proof (induction writable w rule: flush_loop.induct)
  case (1 writable w)
  show ?case
  proof (cases "tw_queue w")
    case Nil
    then show ?thesis using "1.prems" by (subst (1 2 3 4 5) flush_loop.simps) (simp add: writer_ok_def)
  next
    case (Cons x rest)
    let ?w = "send_first x rest w"
    note sent = send_first_ok [OF "1.prems"(1) Cons "1.prems"(2)]
    show ?thesis
    proof (cases "writable (length (tw_sent ?w))")
      case True
      then have step: "flush_loop writable w = flush_loop writable ?w" using Cons by (subst flush_loop.simps) (simp add: Let_def)
      have "tw_headersSent ?w" by (simp add: send_first_def)
      then show ?thesis using "1.IH" [OF Cons refl True sent(1,3)] sent unfolding step by (auto dest: append_prefixD)
    next
      case False
      then have "flush_loop writable w = ?w\<lparr>tw_waitingForDrain := True\<rparr>" using Cons by (subst flush_loop.simps) (simp add: Let_def)
      then show ?thesis using sent by (auto simp: writer_ok_def queue_ok_def writer_log_def send_first_def)
    qed
  qed
qed

text \<open>What an operation may do to a writer.\<close>

definition writer_keeps :: "WriterOptions \<Rightarrow> TaskNotificationWriter \<Rightarrow> TaskNotificationWriter \<Rightarrow> bool" where
  "writer_keeps options w w' \<longleftrightarrow>
     writer_ok options w' \<and> prefix (tw_sent w) (tw_sent w') \<and> (tw_headersSent w \<longrightarrow> tw_headersSent w') \<and>
     (tw_closed w \<longrightarrow> tw_closed w' \<and> tw_sent w' = tw_sent w) \<and>
     (if tw_closed w' then prefix (tw_sent w') (writer_log w) else writer_log w' = writer_log w)"

lemma flush_keeps: "queue_ok options w \<Longrightarrow> (tw_closed w \<Longrightarrow> writer_ok options w) \<Longrightarrow> writer_keeps options w (flush writable w)"
  using flush_loop_ok [of options w writable]
  by (auto simp: flush_def writer_keeps_def writer_ok_def queue_ok_def writer_log_def)

lemma drained_keeps:
  assumes "writer_ok options w"
  shows "writer_keeps options w (drained writable w)"
proof (cases "tw_waitingForDrain w")
  case False
  then show ?thesis using assms by (auto simp: drained_def writer_keeps_def writer_ok_def queue_ok_def writer_log_def)
next
  case True
  let ?w = "w\<lparr>tw_waitingForDrain := False\<rparr>"
  have "queue_ok options ?w" "tw_closed ?w \<Longrightarrow> writer_ok options ?w" using assms by (auto simp: writer_ok_def queue_ok_def)
  then have "writer_keeps options ?w (flush writable ?w)" by (rule flush_keeps)
  moreover have "writer_log ?w = writer_log w" by (simp add: writer_log_def)
  ultimately show ?thesis using True by (auto simp: drained_def writer_keeps_def split: if_splits)
qed

lemma dispose_keeps: "writer_ok options w \<Longrightarrow> writer_keeps options w (dispose w) \<and> tw_closed (dispose w)"
  by (auto simp: dispose_def writer_keeps_def writer_ok_def queue_ok_def queue_delta_def writer_log_def)

lemma close_keeps: "writer_ok options w \<Longrightarrow> writer_keeps options w (close_writer w) \<and> tw_closed (close_writer w)"
  by (auto simp: close_writer_def dispose_def writer_keeps_def writer_ok_def queue_ok_def queue_delta_def writer_log_def)

lemma enqueue_refused:
  assumes "writer_ok options w" "enqueue options writable message w = (False, w')"
  shows "writer_keeps options w w'" "tw_closed w'" "tw_closed w \<or> tw_ended w'"
  using assms close_keeps [OF assms(1)]
  by (auto simp: enqueue_def Let_def close_writer_def writer_keeps_def writer_log_def queue_ok_def writer_ok_def split: if_splits)

lemma enqueue_accepted:
  assumes "writer_ok options w" "enqueue options writable message w = (True, w')"
  shows "writer_ok options w'" "\<not> tw_closed w" "\<not> tw_closed w'" "writer_log w' = writer_log w @ [frame_of message]"
    "prefix (tw_sent w) (tw_sent w')" "tw_headersSent w'"
proof -
  let ?b = "byteLength (frame_of message)"
  let ?w = "queue_delta 1 (int ?b) (w\<lparr>tw_queue := tw_queue w @ [(frame_of message, ?b)], tw_queueBytes := tw_queueBytes w + int ?b\<rparr>)"
  have w: "\<not> tw_closed w" "w' = flush writable ?w" "length (tw_queue w) + 1 \<le> wo_maxMessages options"
    "tw_queueBytes w + int ?b \<le> int (wo_maxBytes options)"
    using assms(2) by (auto simp: enqueue_def Let_def split: if_splits)
  have q: "queue_ok options ?w" "writer_log ?w = writer_log w @ [frame_of message]" "\<not> tw_closed ?w" "tw_sent ?w = tw_sent w"
    using assms(1) w(1,3,4) by (auto simp: writer_ok_def queue_ok_def queue_delta_def writer_log_def)
  have keeps: "writer_keeps options ?w w'" unfolding w(2) using q(1,3) by (intro flush_keeps) auto
  have still: "\<not> tw_closed (flush writable ?w)" using q(1,3) flush_loop_ok [of options ?w writable] by (simp add: flush_def)
  then show "\<not> tw_closed w'" unfolding w(2) .
  then show "writer_ok options w'" "writer_log w' = writer_log w @ [frame_of message]" "prefix (tw_sent w) (tw_sent w')"
    using keeps q by (auto simp: writer_keeps_def)
  show "\<not> tw_closed w" by (rule w(1))
  have "writer_log w' \<noteq> []" using \<open>writer_log w' = writer_log w @ [frame_of message]\<close> by simp
  then show "tw_headersSent w'" using \<open>writer_ok options w'\<close> by (auto simp: writer_ok_def queue_ok_def writer_log_def)
qed

section \<open>The interface of a stream\<close>

text \<open>A client enqueues messages; \<open>log\<close> is what was accepted, in order, \<open>live\<close> whether the writer still takes messages, \<open>ok\<close> its invariant.\<close>

locale fifo_writer =
  fixes put :: "'m \<Rightarrow> 'w \<Rightarrow> bool \<times> 'w" and log :: "'w \<Rightarrow> 'f list" and live ok :: "'w \<Rightarrow> bool" and frame :: "'m \<Rightarrow> 'f"
  assumes put_accepted: "ok w \<Longrightarrow> put m w = (True, w') \<Longrightarrow> ok w' \<and> live w' \<and> log w' = log w @ [frame m]"
    and put_refused: "ok w \<Longrightarrow> put m w = (False, w') \<Longrightarrow> ok w' \<and> \<not> live w' \<and> prefix (log w') (log w)"
begin

lemma put_all:
  "ok w \<Longrightarrow> live w \<Longrightarrow> enqueue_all put ms w = (b, w') \<Longrightarrow>
     ok w' \<and> (if b then live w' \<and> log w' = log w @ map frame ms else \<not> live w' \<and> prefix (log w') (log w @ map frame ms))"
proof (induction ms arbitrary: w)
  case Nil
  then show ?case by simp
next
  case (Cons m ms)
  show ?case
  proof (cases "put m w")
    case (Pair c w1)
    show ?thesis
    proof (cases c)
      case True
      then have "ok w1" "live w1" "log w1 = log w @ [frame m]" "enqueue_all put ms w1 = (b, w')"
        using put_accepted [of w m w1] Cons.prems Pair by simp_all
      then show ?thesis using Cons.IH [of w1] by (cases b) simp_all
    next
      case False
      then have "ok w'" "\<not> live w'" "prefix (log w') (log w)" "\<not> b"
        using put_refused [of w m w1] Cons.prems Pair by simp_all
      then show ?thesis by (simp add: prefix_prefix)
    qed
  qed
qed

end

interpretation nw: fifo_writer "enqueue options writable" writer_log "\<lambda>w. \<not> tw_closed w" "writer_ok options" frame_of
proof
  show "writer_ok options w' \<and> \<not> tw_closed w' \<and> writer_log w' = writer_log w @ [frame_of m]"
    if "writer_ok options w" "enqueue options writable m w = (True, w')" for w m w'
    using enqueue_accepted [OF that] by blast
  show "writer_ok options w' \<and> \<not> \<not> tw_closed w' \<and> prefix (writer_log w') (writer_log w)"
    if "writer_ok options w" "enqueue options writable m w = (False, w')" for w m w'
    using enqueue_refused [OF that] by (auto simp: writer_keeps_def writer_log_def writer_ok_def queue_ok_def split: if_splits)
qed

section \<open>Runs of a writer\<close>

datatype writer_op = op_enqueue json_object | op_drain | op_close | op_dispose

fun writer_step :: "WriterOptions \<Rightarrow> (nat \<Rightarrow> bool) \<Rightarrow> writer_op \<Rightarrow> TaskNotificationWriter \<Rightarrow> bool \<times> TaskNotificationWriter" where
  "writer_step options writable (op_enqueue m) w = enqueue options writable m w"
| "writer_step options writable op_drain w = (False, drained writable w)"
| "writer_step options writable op_close w = (False, close_writer w)"
| "writer_step options writable op_dispose w = (False, dispose w)"

text \<open>The frames of the messages that were accepted, in the order of the calls, and the writer at the end.\<close>

fun writer_run :: "WriterOptions \<Rightarrow> (nat \<Rightarrow> bool) \<Rightarrow> writer_op list \<Rightarrow> TaskNotificationWriter \<Rightarrow> string list \<times> TaskNotificationWriter" where
  "writer_run options writable [] w = ([], w)"
| "writer_run options writable (x # xs) w =
     (case writer_step options writable x w of (ok, w1) \<Rightarrow>
        (case writer_run options writable xs w1 of (fs, w2) \<Rightarrow>
           ((case x of op_enqueue m \<Rightarrow> (if ok then [frame_of m] else []) | _ \<Rightarrow> []) @ fs, w2)))"

lemma writer_step_keeps:
  assumes "writer_ok options w" "writer_step options writable x w = (ok, w')" "\<not> (ok \<and> (\<exists>m. x = op_enqueue m))"
  shows "writer_keeps options w w'"
  using assms(2,3) drained_keeps [OF assms(1)] close_keeps [OF assms(1)] dispose_keeps [OF assms(1)] enqueue_refused(1) [OF assms(1)]
  by (cases x) auto

lemma writer_run_closed:
  "tw_closed w \<Longrightarrow> writer_run options writable xs w = (fs, w') \<Longrightarrow> tw_closed w' \<and> tw_sent w' = tw_sent w \<and> fs = []"
proof (induction xs arbitrary: w fs)
  case (Cons x xs)
  obtain ok w1 where step: "writer_step options writable x w = (ok, w1)" by fastforce
  then have "tw_closed w1" "tw_sent w1 = tw_sent w" "(case x of op_enqueue m \<Rightarrow> (if ok then [frame_of m] else []) | _ \<Rightarrow> []) = []"
    using Cons.prems(1) by (cases x; auto simp: enqueue_def Let_def drained_def flush_def close_writer_def dispose_def split: if_splits)+
  then show ?case using Cons.IH [of w1] Cons.prems(2) step by (auto split: prod.splits)
qed simp

lemma writer_run_log:
  "writer_ok options w \<Longrightarrow> writer_run options writable xs w = (fs, w') \<Longrightarrow>
     writer_ok options w' \<and> prefix (tw_sent w) (tw_sent w') \<and> (if tw_closed w' then prefix (tw_sent w') (writer_log w @ fs) else writer_log w' = writer_log w @ fs)"
proof (induction xs arbitrary: w fs)
  case Nil
  then show ?case by (auto simp: writer_log_def)
next
  case (Cons x xs)
  obtain ok w1 fs1 where step: "writer_step options writable x w = (ok, w1)" and run: "writer_run options writable xs w1 = (fs1, w')"
    and fs: "fs = (case x of op_enqueue m \<Rightarrow> (if ok then [frame_of m] else []) | _ \<Rightarrow> []) @ fs1"
    using Cons.prems(2) by (auto split: prod.splits)
  show ?case
  proof (cases "ok \<and> (\<exists>m. x = op_enqueue m)")
    case True
    then obtain m where "x = op_enqueue m" "enqueue options writable m w = (True, w1)" using step by auto
    then show ?thesis using enqueue_accepted [OF Cons.prems(1), of writable m w1] Cons.IH [of w1 fs1] run fs True
      by (auto intro: prefix_order.trans)
  next
    case False
    note keeps = writer_step_keeps [OF Cons.prems(1) step False]
    then have "writer_ok options w1" by (simp add: writer_keeps_def)
    moreover have "fs = fs1" using False fs by (auto split: writer_op.splits)
    moreover have "tw_closed w1 \<Longrightarrow> tw_closed w' \<and> tw_sent w' = tw_sent w1"
      using writer_run_closed run by blast
    ultimately show ?thesis using Cons.IH [of w1 fs1] run keeps
      by (auto simp: writer_keeps_def intro: prefix_order.trans prefix_prefix split: if_splits)
  qed
qed

text \<open>C25. The writer of a stream is a bounded first-in first-out log, whatever the connection does and in whatever order it is used: what has
  been sent is an initial part of what was accepted, in the order of acceptance; while the stream is open nothing accepted is lost (it is sent or queued), and once the
  connection is ready nothing is left in the queue; the queue never exceeds the message and byte limits, and the counts the writer has reported are the queue's.\<close>

theorem writer_is_bounded_fifo:
  "case writer_run options writable xs new_writer of
     (accepted, w) \<Rightarrow>
       (if tw_closed w then prefix (tw_sent w) accepted \<and> tw_queue w = [] else accepted = tw_sent w @ map fst (tw_queue w)) \<and>
       (tw_queue w = [] \<or> tw_waitingForDrain w) \<and>
       length (tw_queue w) \<le> wo_maxMessages options \<and> sum_list (map snd (tw_queue w)) \<le> wo_maxBytes options \<and>
       tw_reportedMessages w = int (length (tw_queue w)) \<and> tw_reportedBytes w = int (sum_list (map snd (tw_queue w)))"
proof -
  obtain accepted w where run: "writer_run options writable xs new_writer = (accepted, w)" by fastforce
  have "writer_log new_writer = []" by (simp add: writer_log_def new_writer_def)
  with writer_run_log [OF new_writer_ok run] show ?thesis
    by (auto simp: run writer_ok_def queue_ok_def writer_log_def)
qed

end
