(* ===== verification/Notification_Streams.thy ===== *)
theory Notification_Streams
  imports Notification_Writer
begin

text \<open>
  What one subscription has written: an acknowledgement and then notifications whose revisions, task by task, only grow and whose terminal
  snapshots are final; every operation on a subscription keeps that.
\<close>

section \<open>The text of a value determines it\<close>

lemma stringify_start: "json_stringify j \<noteq> [] \<and> \<not> delimited (json_stringify j)"
proof (cases j)
  case (JNum n)
  then show ?thesis using canonicalize_start [of "JNum n"] by simp
qed (auto simp: delimited_def json_quote_def)

lemma kind_stringify: "kind_of_char (hd (json_stringify j @ r)) = json_kind j"
proof (cases j)
  case (JNum n)
  then show ?thesis using kind_canonicalize [of "JNum n" r] by simp
qed (auto simp: json_quote_def kind_of_char_def)

lemma stringify_JObj: "json_stringify (JObj kvs) = ''{'' @ join_comma (map (\<lambda>(k, v). json_quote k @ '':'' @ json_stringify v) kvs) @ ''}''"
  by (simp add: comp_def case_prod_unfold)

lemma stringify_self_delimiting:
  assumes "json_stringify a @ r = json_stringify b @ s" "delimited r" "delimited s"
  shows "a = b \<and> r = s"
  using assms
proof (induction a arbitrary: b r s)
  case JNull
  then have "json_kind b = json_kind JNull" by (metis kind_stringify)
  with JNull show ?case by (cases b) (auto split: if_splits)
next
  case (JBool x)
  then have "json_kind b = json_kind (JBool x)" by (metis kind_stringify)
  with JBool show ?case by (cases b) (auto split: if_splits)
next
  case (JNum x)
  then have "json_kind b = json_kind (JNum x)" by (metis kind_stringify)
  then obtain y where "b = JNum y" by (cases b) (auto split: if_splits)
  with JNum show ?case using show_int_inject [of x r y s] by simp
next
  case (JStr x)
  then have "json_kind b = json_kind (JStr x)" by (metis kind_stringify)
  then obtain y where "b = JStr y" by (cases b) (auto split: if_splits)
  with JStr show ?case using json_quote_inject [of x r y s] by simp
next
  case (JArr xs)
  then have "json_kind b = json_kind (JArr xs)" by (metis kind_stringify)
  then obtain ys where b: "b = JArr ys" by (cases b) (auto split: if_splits)
  with JArr.prems have "join_comma (map json_stringify xs) @ CHR '']'' # r = join_comma (map json_stringify ys) @ CHR '']'' # s" by simp
  from join_comma_inject [where g = id, OF _ stringify_start _ this] JArr.IH show ?case using b by simp
next
  case (JObj kvs)
  then have "json_kind b = json_kind (JObj kvs)" by (metis kind_stringify)
  then obtain lws where b: "b = JObj lws" by (cases b) (auto split: if_splits)
  let ?f = "\<lambda>(k, v). json_quote k @ '':'' @ json_stringify v"
  from JObj.prems b have eq: "join_comma (map ?f kvs) @ CHR ''}'' # r = join_comma (map ?f lws) @ CHR ''}'' # s"
    by (simp add: stringify_JObj del: json_stringify.simps)
  have code: "id x = id y \<and> p = q" if "x \<in> set kvs" "?f x @ p = ?f y @ q" "delimited p" "delimited q" for x y p q
  proof -
    obtain k v k' v' where xy: "x = (k, v)" "y = (k', v')" by (cases x, cases y)
    from that(2) have "k = k' \<and> json_stringify v @ p = json_stringify v' @ q"
      using json_entry_inject [of k "json_stringify v" p k' "json_stringify v'" q] by (simp add: xy)
    then show ?thesis using JObj.IH [of "(k, v)" v] that(1,3,4) by (auto simp: xy)
  qed
  have "?f x \<noteq> [] \<and> \<not> delimited (?f x)" for x by (cases x) (simp add: json_quote_def delimited_def)
  from join_comma_inject [where f = ?f and g = id, OF code this _ eq] show ?case using b by simp
qed

lemma stringify_inject: "json_stringify a = json_stringify b \<Longrightarrow> a = b"
  using stringify_self_delimiting [of a "[]" b "[]"] by (simp add: delimited_def)

section \<open>Histories\<close>

lemma revision_inject:
  assumes "revision_format a" "revision_format b" "read_nat a = read_nat b"
  shows "a = b"
proof -
  have pos: "0 < read_nat s \<and> show_nat (read_nat s) = s" if "revision_format s" "s \<noteq> ''0''" for s
    using that read_nat_zero [of s] show_read_nat [of s] by (auto simp: revision_format_def)
  have zero: "read_nat ''0'' = 0" by (simp add: read_nat_def read_digit_def)
  show ?thesis using assms pos zero by (metis less_not_refl)
qed

lemma runtimeRevision_format: "runtimeRevision snapshot = Inr r \<Longrightarrow> revision_format r"
  by (auto simp: runtimeRevision_def split: option.splits json.splits if_splits)

definition snapshot_state :: "json_object \<Rightarrow> NotificationState" where
  "snapshot_state snapshot = (case runtimeRevision snapshot of Inr r \<Rightarrow> notificationState snapshot r | Inl _ \<Rightarrow> notificationState snapshot [])"

definition later :: "NotificationState \<Rightarrow> NotificationState \<Rightarrow> bool" where
  "later x y \<longleftrightarrow> read_nat (ns_revision x) < read_nat (ns_revision y) \<and> (ns_terminal x \<longrightarrow> ns_terminal y)"

text \<open>The task a snapshot says it is of, and snapshots that are kept under their own task.\<close>

definition snapshot_task :: "json_object \<Rightarrow> string option" where
  "snapshot_task s = (case obj_get s ''taskId'' of Some (JStr t) \<Rightarrow> Some t | _ \<Rightarrow> None)"

definition own_snapshots :: "(string \<times> json_object) list \<Rightarrow> bool" where
  "own_snapshots ss \<longleftrightarrow> (\<forall>(t, s) \<in> set ss. snapshot_task s = Some t)"

lemma own_snapshots_snoc: "own_snapshots (ss @ [(t, s)]) \<longleftrightarrow> own_snapshots ss \<and> snapshot_task s = Some t"
  by (auto simp: own_snapshots_def)

lemma own_snapshot: "own_snapshots ss \<Longrightarrow> map_of ss t = Some s \<Longrightarrow> snapshot_task s = Some t"
  by (auto simp: own_snapshots_def dest: map_of_SomeD)

text \<open>The states of a task among the snapshots that were written, and what the subscription remembers of them.\<close>

definition states_of :: "string \<Rightarrow> (string \<times> json_object) list \<Rightarrow> NotificationState list" where
  "states_of t ss = map (\<lambda>x. snapshot_state (snd x)) (filter (\<lambda>x. fst x = t) ss)"

definition in_revision_order :: "(string \<times> json_object) list \<Rightarrow> bool" where
  "in_revision_order ss \<longleftrightarrow> (\<forall>t. sorted_wrt later (states_of t ss))"

definition remembers :: "(string \<rightharpoonup> NotificationState) \<Rightarrow> (string \<times> json_object) list \<Rightarrow> bool" where
  "remembers revs ss \<longleftrightarrow> (\<forall>t. revs t = (if states_of t ss = [] then None else Some (last (states_of t ss)))) \<and>
     (\<forall>t st. revs t = Some st \<longrightarrow> revision_format (ns_revision st))"

lemma states_of_snoc: "states_of t (ss @ [(t', s)]) = states_of t ss @ (if t' = t then [snapshot_state s] else [])"
  by (simp add: states_of_def)

lemma later_trans: "later x y \<Longrightarrow> later y z \<Longrightarrow> later x z"
  by (auto simp: later_def)

lemma sorted_later_snoc:
  assumes "sorted_wrt later xs" "xs \<noteq> [] \<Longrightarrow> later (last xs) y"
  shows "sorted_wrt later (xs @ [y])"
proof (cases xs rule: rev_cases)
  case (snoc ys x)
  then have "later x y" "\<forall>z \<in> set ys. later z x" using assms by (auto simp: sorted_wrt_append)
  then show ?thesis using assms(1) snoc by (auto simp: sorted_wrt_append intro: later_trans)
qed simp

lemma history_snoc:
  assumes "in_revision_order ss" "remembers revs ss" "runtimeRevision s = Inr r"
    and "\<And>p. revs t = Some p \<Longrightarrow> later p (notificationState s r)"
  shows "in_revision_order (ss @ [(t, s)])" "remembers (revs(t \<mapsto> notificationState s r)) (ss @ [(t, s)])"
proof -
  have st: "snapshot_state s = notificationState s r" by (simp add: snapshot_state_def assms(3))
  have "sorted_wrt later (states_of u (ss @ [(t, s)]))" for u
  proof (cases "u = t")
    case True
    have "sorted_wrt later (states_of t ss @ [notificationState s r])"
    proof (rule sorted_later_snoc)
      show "sorted_wrt later (states_of t ss)" using assms(1) by (simp add: in_revision_order_def)
      show "later (last (states_of t ss)) (notificationState s r)" if "states_of t ss \<noteq> []"
        using assms(2,4) that by (simp add: remembers_def)
    qed
    then show ?thesis using True by (simp add: states_of_snoc st)
  next
    case False
    then show ?thesis using assms(1) by (simp add: states_of_snoc in_revision_order_def)
  qed
  then show "in_revision_order (ss @ [(t, s)])" by (simp add: in_revision_order_def)
  show "remembers (revs(t \<mapsto> notificationState s r)) (ss @ [(t, s)])"
    using assms(2) runtimeRevision_format [OF assms(3)] unfolding remembers_def
    by (auto simp: states_of_snoc st notificationState_def split: if_splits)
qed

section \<open>What a subscription has written\<close>

definition notification_frames :: "json \<Rightarrow> (string \<times> json_object) list \<Rightarrow> string list" where
  "notification_frames wid ss = map (\<lambda>x. frame_of (taskNotification wid (snd x))) ss"

definition ack_frame :: "subscription \<Rightarrow> string" where
  "ack_frame sb = frame_of (acknowledged (si_wireRequestId (sb_identity sb)) (sb_acceptedTaskIds sb))"

text \<open>\<open>begun\<close>: the frames before the notifications, none or the acknowledgement.\<close>

definition wrote :: "subscription \<Rightarrow> string list \<Rightarrow> (string \<times> json_object) list \<Rightarrow> bool" where
  "wrote sb begun ss \<longleftrightarrow>
     (let all = begun @ notification_frames (si_wireRequestId (sb_identity sb)) ss; w = sb_writer sb in
      prefix (writer_log w) all \<and> (\<not> tw_closed w \<longrightarrow> writer_log w = all)) \<and>
     in_revision_order ss \<and> remembers (sb_revisions sb) ss \<and> own_snapshots ss"

definition begins :: "subscription \<Rightarrow> string list \<Rightarrow> bool" where
  "begins sb begun \<longleftrightarrow>
     (begun = [] \<or> (\<exists>ids. begun = [frame_of (acknowledged (si_wireRequestId (sb_identity sb)) ids)])) \<and>
     (sb_phase sb = streaming \<longrightarrow> begun = [ack_frame sb])"

text \<open>Before the snapshots are loaded, nothing was sent or the headers are gone.\<close>

definition unstarted :: "subscription \<Rightarrow> bool" where
  "unstarted sb \<longleftrightarrow> (sb_phase sb = loading \<and> \<not> tw_headersSent (sb_writer sb) \<longrightarrow> sb_revisions sb = (\<lambda>_. None) \<and> \<not> tw_closed (sb_writer sb))"

definition sub_ok :: "WriterOptions \<Rightarrow> subscription \<Rightarrow> bool" where
  "sub_ok options sb \<longleftrightarrow> writer_ok options (sb_writer sb) \<and> (\<exists>begun ss. wrote sb begun ss \<and> begins sb begun) \<and> unstarted sb"

lemma begins_update [simp]: "begins (sb\<lparr>sb_writer := w\<rparr>) = begins sb" "begins (sb\<lparr>sb_revisions := revs\<rparr>) = begins sb"
  by (simp_all add: begins_def [abs_def] ack_frame_def)

lemma log_of_unsent: "writer_ok options w \<Longrightarrow> \<not> tw_headersSent w \<Longrightarrow> writer_log w = []"
  by (auto simp: writer_ok_def queue_ok_def writer_log_def)

lemma wrote_keeps:
  assumes "wrote sb begun ss" "writer_ok options (sb_writer sb)" "writer_keeps options (sb_writer sb) w'"
  shows "wrote (sb\<lparr>sb_writer := w'\<rparr>) begun ss"
proof -
  have "tw_closed w' \<Longrightarrow> writer_log w' = tw_sent w'" using assms(3) by (simp add: writer_keeps_def writer_ok_def queue_ok_def writer_log_def)
  then have "prefix (writer_log w') (writer_log (sb_writer sb)) \<and> (\<not> tw_closed w' \<longrightarrow> \<not> tw_closed (sb_writer sb) \<and> writer_log w' = writer_log (sb_writer sb))"
    using assms(3) by (auto simp: writer_keeps_def split: if_splits)
  then show ?thesis using assms(1) by (auto simp: wrote_def Let_def intro: prefix_order.trans)
qed

lemma sub_ok_keeps:
  assumes "sub_ok options sb" "writer_keeps options (sb_writer sb) w'" "unstarted (sb\<lparr>sb_writer := w'\<rparr>)"
  shows "sub_ok options (sb\<lparr>sb_writer := w'\<rparr>)"
proof -
  obtain begun ss where b: "wrote sb begun ss" "begins sb begun" "writer_ok options (sb_writer sb)" using assms(1) by (auto simp: sub_ok_def)
  then have "wrote (sb\<lparr>sb_writer := w'\<rparr>) begun ss" "begins (sb\<lparr>sb_writer := w'\<rparr>) begun" using wrote_keeps assms(2) by auto
  then show ?thesis using assms(2,3) by (auto simp: sub_ok_def writer_keeps_def)
qed

text \<open>A notification that is enqueued and remembered.\<close>

lemma wrote_notification:
  assumes "wrote sb begun ss" "writer_ok options (sb_writer sb)" "runtimeRevision s = Inr r"
    and "\<And>p. sb_revisions sb t = Some p \<Longrightarrow> later p (notificationState s r)"
    and "enqueue options writable (taskNotification (si_wireRequestId (sb_identity sb)) s) (sb_writer sb) = (ok, w')"
    and "snapshot_task s = Some t"
  shows "wrote (sb\<lparr>sb_revisions := (sb_revisions sb)(t \<mapsto> notificationState s r), sb_writer := w'\<rparr>) begun (ss @ [(t, s)])"
    "writer_ok options w'" "tw_headersSent w' \<or> tw_closed (sb_writer sb)" "\<not> ok \<longrightarrow> tw_closed w'"
proof -
  let ?f = "frame_of (taskNotification (si_wireRequestId (sb_identity sb)) s)"
  have h: "in_revision_order (ss @ [(t, s)])" "remembers ((sb_revisions sb)(t \<mapsto> notificationState s r)) (ss @ [(t, s)])"
    using history_snoc [of ss "sb_revisions sb" s r t] assms by (auto simp: wrote_def)
  have nf: "notification_frames wid (ss @ [(t, s)]) = notification_frames wid ss @ [frame_of (taskNotification wid s)]" for wid
    by (simp add: notification_frames_def)
  show "writer_ok options w'" "tw_headersSent w' \<or> tw_closed (sb_writer sb)" "\<not> ok \<longrightarrow> tw_closed w'"
    using enqueue_accepted [OF assms(2)] enqueue_refused [OF assms(2)] assms(5)
    by (cases ok; auto simp: writer_keeps_def writer_ok_def queue_ok_def)+
  let ?all = "begun @ notification_frames (si_wireRequestId (sb_identity sb)) ss"
  have put: "prefix (writer_log w') (writer_log (sb_writer sb) @ [?f])" "\<not> tw_closed w' \<Longrightarrow> \<not> tw_closed (sb_writer sb) \<and> writer_log w' = writer_log (sb_writer sb) @ [?f]"
    using nw.put_accepted [OF assms(2)] nw.put_refused [OF assms(2)] enqueue_accepted(2) [OF assms(2)] assms(5) by (cases ok; auto simp: prefix_prefix)+
  have old: "prefix (writer_log (sb_writer sb)) ?all" "\<not> tw_closed (sb_writer sb) \<Longrightarrow> writer_log (sb_writer sb) = ?all"
    using assms(1) by (auto simp: wrote_def Let_def)
  have "prefix (writer_log w') (?all @ [?f])"
  proof (cases "tw_closed (sb_writer sb)")
    case True
    then have "w' = sb_writer sb" using assms(5) by (auto simp: enqueue_def Let_def)
    then show ?thesis using prefix_prefix [OF old(1)] by blast
  next
    case False
    then show ?thesis using put(1) old(2) by metis
  qed
  moreover have "\<not> tw_closed w' \<Longrightarrow> writer_log w' = ?all @ [?f]" using put(2) old(2) by metis
  ultimately show "wrote (sb\<lparr>sb_revisions := (sb_revisions sb)(t \<mapsto> notificationState s r), sb_writer := w'\<rparr>) begun (ss @ [(t, s)])"
    using h nf assms(1,6) by (simp add: wrote_def Let_def own_snapshots_snoc)
qed

text \<open>What the operations on a subscription leave alone.\<close>

definition same_sub :: "subscription \<Rightarrow> subscription \<Rightarrow> bool" where
  "same_sub sb sb' \<longleftrightarrow>
     sb_identity sb' = sb_identity sb \<and> sb_authorization sb' = sb_authorization sb \<and> sb_acceptedTaskIds sb' = sb_acceptedTaskIds sb \<and>
     sb_phase sb' = sb_phase sb \<and> (tw_closed (sb_writer sb) \<longrightarrow> tw_closed (sb_writer sb'))"

lemma same_refl [simp]: "same_sub sb sb"
  by (simp add: same_sub_def)

lemma same_trans: "same_sub a b \<Longrightarrow> same_sub b c \<Longrightarrow> same_sub a c"
  by (auto simp: same_sub_def)

lemma enqueue_closed: "tw_closed w \<Longrightarrow> enqueue options writable m w = (False, w)"
  by (simp add: enqueue_def Let_def)

lemma notified_ok:
  assumes "sub_ok options sb" "runtimeRevision s = Inr r" "\<And>p. sb_revisions sb t = Some p \<Longrightarrow> later p (notificationState s r)"
    and "enqueue options writable (taskNotification (si_wireRequestId (sb_identity sb)) s) (sb_writer sb) = (ok, w')"
    and "sb' = sb\<lparr>sb_revisions := (sb_revisions sb)(t \<mapsto> notificationState s r), sb_writer := w'\<rparr>" "snapshot_task s = Some t"
  shows "sub_ok options sb' \<and> same_sub sb sb'"
proof -
  obtain begun ss where b: "wrote sb begun ss" "begins sb begun" "writer_ok options (sb_writer sb)" "unstarted sb" using assms(1) by (auto simp: sub_ok_def)
  note w = wrote_notification [OF b(1,3) assms(2,3,4,6)]
  have kept: "tw_closed (sb_writer sb) \<Longrightarrow> w' = sb_writer sb" using assms(4) by (simp add: enqueue_closed)
  have "unstarted sb'" using b(4) w(3) kept by (auto simp: unstarted_def assms(5))
  moreover have "begins sb' begun" using b(2) by (simp add: assms(5) begins_def ack_frame_def)
  ultimately show ?thesis using w(1,2) kept by (auto simp: sub_ok_def same_sub_def assms(5))
qed

lemma deliver_ok:
  assumes "sub_ok options sb" "deliverChangedSnapshot options writable t s sb = Inr sb'" "snapshot_task s = Some t"
  shows "sub_ok options sb' \<and> same_sub sb sb'"
proof -
  obtain r where r: "runtimeRevision s = Inr r" using assms(2) by (auto simp: deliverChangedSnapshot_def bind_err_Inr_iff)
  obtain ok w' where w: "enqueue options writable (taskNotification (si_wireRequestId (sb_identity sb)) s) (sb_writer sb) = (ok, w')" by fastforce
  let ?sb = "sb\<lparr>sb_revisions := (sb_revisions sb)(t \<mapsto> notificationState s r), sb_writer := w'\<rparr>"
  have "remembers (sb_revisions sb) ss \<Longrightarrow> sb_revisions sb t = Some p \<Longrightarrow> revision_format (ns_revision p)" for ss p by (auto simp: remembers_def)
  then have fmt: "sb_revisions sb t = Some p \<Longrightarrow> revision_format (ns_revision p)" for p using assms(1) by (auto simp: sub_ok_def wrote_def)
  have newer: "later p (notificationState s r)"
    if "sb_revisions sb t = Some p" "\<not> read_nat r < read_nat (ns_revision p)" "ns_revision p \<noteq> r" "\<not> (ns_terminal p \<and> \<not> ns_terminal (notificationState s r))" for p
    using that revision_inject [OF fmt [OF that(1)] runtimeRevision_format [OF r]] by (fastforce simp: later_def notificationState_def)
  consider "sb' = sb" | "sb' = ?sb" "\<And>p. sb_revisions sb t = Some p \<Longrightarrow> later p (notificationState s r)"
    using assms(2) r w newer by (auto simp: deliverChangedSnapshot_def Let_def split: option.splits if_splits)
  then show ?thesis using assms(1,3) notified_ok [OF assms(1) r _ w] by cases auto
qed

lemma deliver_tasks_ok:
  "sub_ok options sb \<Longrightarrow> own_snapshots snapshots \<Longrightarrow> deliver_tasks options writable snapshots ts sb = (ok, sb') \<Longrightarrow> sub_ok options sb' \<and> same_sub sb sb'"
proof (induction ts arbitrary: sb)
  case (Cons t ts)
  show ?case
  proof (cases "map_of snapshots t")
    case None
    then show ?thesis using Cons by simp
  next
    case (Some s)
    show ?thesis
    proof (cases "deliverChangedSnapshot options writable t s sb")
      case (Inl e)
      then show ?thesis using Cons.prems Some by simp
    next
      case (Inr sb1)
      then show ?thesis using Cons.IH [of sb1] Cons.prems Some deliver_ok [OF Cons.prems(1) Inr own_snapshot [OF Cons.prems(2) Some]] by (auto intro: same_trans)
    qed
  qed
qed simp

lemma initial_loop_ok:
  "wrote sb begun ss \<Longrightarrow> writer_ok options (sb_writer sb) \<Longrightarrow> distinct ts \<Longrightarrow> (\<And>t. t \<in> set ts \<Longrightarrow> sb_revisions sb t = None) \<Longrightarrow>
     \<not> tw_closed (sb_writer sb) \<Longrightarrow> initial_loop options writable current ts sb = (ok, sb') \<Longrightarrow> own_snapshots current \<Longrightarrow>
     (\<exists>ss'. wrote sb' begun ss') \<and> writer_ok options (sb_writer sb') \<and> same_sub sb sb' \<and> (ok \<longrightarrow> \<not> tw_closed (sb_writer sb'))"
proof (induction ts arbitrary: sb ss)
  case (Cons t ts)
  show ?case
  proof (cases "map_of current t")
    case None
    then show ?thesis using Cons by simp
  next
    case (Some s)
    show ?thesis
    proof (cases "runtimeRevision s")
      case (Inl e)
      then show ?thesis using Cons.prems Some by auto
    next
      case (Inr r)
      obtain b w' where w: "enqueue options writable (taskNotification (si_wireRequestId (sb_identity sb)) s) (sb_writer sb) = (b, w')" by fastforce
      let ?sb = "sb\<lparr>sb_revisions := (sb_revisions sb)(t \<mapsto> notificationState s r), sb_writer := w'\<rparr>"
      have "\<And>p. sb_revisions sb t = Some p \<Longrightarrow> later p (notificationState s r)" using Cons.prems(4) by simp
      note one = wrote_notification [OF Cons.prems(1,2) Inr this w own_snapshot [OF Cons.prems(7) Some]]
      have same: "same_sub sb ?sb" using Cons.prems(5) by (simp add: same_sub_def)
      show ?thesis
      proof (cases b)
        case True
        then have "\<not> tw_closed w'" using enqueue_accepted(3) [OF Cons.prems(2)] w by simp
        moreover have "initial_loop options writable current ts ?sb = (ok, sb')" using Cons.prems(6) Some Inr w True by (simp add: Let_def)
        moreover have "sb_revisions ?sb u = None" if "u \<in> set ts" for u using Cons.prems(3,4) that by auto
        ultimately have "(\<exists>ss'. wrote sb' begun ss') \<and> writer_ok options (sb_writer sb') \<and> same_sub ?sb sb' \<and> (ok \<longrightarrow> \<not> tw_closed (sb_writer sb'))"
          using Cons.IH [of ?sb "ss @ [(t, s)]"] Cons.prems(3,7) one(1,2) by simp
        then show ?thesis using same same_trans by blast
      next
        case False
        then show ?thesis using Cons.prems(6) Some Inr w one(1,2) same by (auto simp: Let_def)
      qed
    qed
  qed
qed auto

lemma acked_wrote:
  assumes "wrote sb [] []" "writer_ok options (sb_writer sb)" "\<not> tw_closed (sb_writer sb)"
    and "enqueue options writable (acknowledged (si_wireRequestId (sb_identity sb)) (sb_acceptedTaskIds sb)) ((sb_writer sb)\<lparr>tw_headersSent := True\<rparr>) = (ok, w')"
  shows "wrote (sb\<lparr>sb_writer := w'\<rparr>) [ack_frame sb] []" "writer_ok options w'" "ok \<longleftrightarrow> \<not> tw_closed w'"
proof -
  let ?w = "(sb_writer sb)\<lparr>tw_headersSent := True\<rparr>"
  have w: "writer_ok options ?w" "writer_log ?w = []" using assms(1-3) by (auto simp: writer_ok_def queue_ok_def wrote_def notification_frames_def writer_log_def)
  show "writer_ok options w'" "ok \<longleftrightarrow> \<not> tw_closed w'" "wrote (sb\<lparr>sb_writer := w'\<rparr>) [ack_frame sb] []"
    using nw.put_accepted [OF w(1)] nw.put_refused [OF w(1)] assms w(2)
    by (cases ok; auto simp: wrote_def notification_frames_def ack_frame_def own_snapshots_def)+
qed

text \<open>The beginning of a stream: a subscription whose headers were not sent yet ends up acknowledged, or closed.\<close>

lemma first_frames_ok:
  assumes "sub_ok options sb" "sb_phase sb = loading" "distinct (sb_acceptedTaskIds sb)" "first_frames options writable current sb = (ok, sb')"
    "own_snapshots current"
  shows "sub_ok options (sb'\<lparr>sb_phase := if ok then streaming else left\<rparr>) \<and> same_sub sb sb' \<and> (ok \<longrightarrow> \<not> tw_closed (sb_writer sb') \<and> sb_acceptedTaskIds sb \<noteq> [])"
proof -
  obtain begun ss where b: "wrote sb begun ss" "begins sb begun" "writer_ok options (sb_writer sb)" "unstarted sb" using assms(1) by (auto simp: sub_ok_def)
  have fin: "sub_ok options (x\<lparr>sb_phase := if ok then streaming else left\<rparr>)"
    if "wrote x c ss'" "writer_ok options (sb_writer x)" "c = [ack_frame x] \<or> c = begun \<and> \<not> ok" "sb_identity x = sb_identity sb" for x c ss'
    using that b(2) unfolding sub_ok_def unstarted_def
    by (auto simp: wrote_def begins_def ack_frame_def)
  show ?thesis
  proof (cases "tw_headersSent (sb_writer sb)")
    case True
    then show ?thesis using assms(4) fin [OF b(1,3)] by (simp add: first_frames_def)
  next
    case False
    have fresh: "sb_revisions sb = (\<lambda>_. None)" "\<not> tw_closed (sb_writer sb)" "wrote sb [] []"
      using b(4) False assms(2) log_of_unsent [OF b(3) False]
      by (auto simp: unstarted_def wrote_def notification_frames_def in_revision_order_def remembers_def states_of_def own_snapshots_def)
    obtain a w where w: "enqueue options writable (acknowledged (si_wireRequestId (sb_identity sb)) (sb_acceptedTaskIds sb)) ((sb_writer sb)\<lparr>tw_headersSent := True\<rparr>) = (a, w)"
      by fastforce
    note ack = acked_wrote [OF fresh(3) b(3) fresh(2) w]
    let ?sb = "sb\<lparr>sb_writer := w\<rparr>"
    have same: "same_sub sb ?sb" "ack_frame ?sb = ack_frame sb" using fresh(2) by (simp_all add: same_sub_def ack_frame_def)
    show ?thesis
    proof (cases a)
      case False
      then have "\<not> ok" "sb' = ?sb" using assms(4) w \<open>\<not> tw_headersSent (sb_writer sb)\<close> by (auto simp: first_frames_def)
      then show ?thesis using fin [OF ack(1)] ack(2) same by simp
    next
      case True
      obtain c sb1 where init: "initial_loop options writable current (sb_acceptedTaskIds sb) ?sb = (c, sb1)" by fastforce
      have "(\<exists>ss'. wrote sb1 [ack_frame sb] ss') \<and> writer_ok options (sb_writer sb1) \<and> same_sub ?sb sb1 \<and> (c \<longrightarrow> \<not> tw_closed (sb_writer sb1))"
        using initial_loop_ok [OF ack(1) _ assms(3) _ _ init assms(5)] ack(2,3) True fresh(1) by simp
      then obtain ss1 where i: "wrote sb1 [ack_frame sb] ss1" "writer_ok options (sb_writer sb1)" "same_sub ?sb sb1" "c \<longrightarrow> \<not> tw_closed (sb_writer sb1)"
        by blast
      have eq: "ack_frame sb1 = ack_frame sb" "sb_identity sb1 = sb_identity sb" using i(3) by (auto simp: same_sub_def ack_frame_def)
      have res: "(ok, sb') = (if c \<and> sb_acceptedTaskIds sb = [] then (False, sb1\<lparr>sb_writer := close_writer (sb_writer sb1)\<rparr>) else (c, sb1))"
        using assms(4) w init True \<open>\<not> tw_headersSent (sb_writer sb)\<close> by (simp add: first_frames_def)
      show ?thesis
      proof (cases "c \<and> sb_acceptedTaskIds sb = []")
        case True
        let ?c = "sb1\<lparr>sb_writer := close_writer (sb_writer sb1)\<rparr>"
        have k: "writer_keeps options (sb_writer sb1) (close_writer (sb_writer sb1))" using close_keeps [OF i(2)] by blast
        have "wrote ?c [ack_frame sb] ss1" by (rule wrote_keeps [OF i(1,2) k])
        moreover have "ack_frame ?c = ack_frame sb" using eq by (simp add: ack_frame_def)
        moreover have "same_sub sb ?c" using i(3) same(1) k by (auto simp: same_sub_def writer_keeps_def)
        ultimately show ?thesis using res True fin [of ?c "[ack_frame sb]" ss1] k eq by (auto simp: writer_keeps_def)
      next
        case False
        then show ?thesis using res fin [OF i(1,2)] eq i(4) same_trans [OF same(1) i(3)] by auto
      qed
    qed
  qed
qed

lemma enqueue_headers:
  "writer_ok options w \<Longrightarrow> enqueue options writable message w = (ok, w') \<Longrightarrow> tw_headersSent w \<Longrightarrow> tw_headersSent w' \<and> writer_ok options w'"
  using enqueue_accepted [of options w writable message w'] enqueue_refused(1) [of options w writable message w'] by (cases ok) (auto simp: writer_keeps_def)

lemma initial_loop_headers:
  "writer_ok options (sb_writer sb) \<Longrightarrow> tw_headersSent (sb_writer sb) \<Longrightarrow> initial_loop options writable current ts sb = (ok, sb') \<Longrightarrow>
     tw_headersSent (sb_writer sb')"
proof (induction ts arbitrary: sb)
  case (Cons t ts)
  show ?case
  proof (cases "map_of current t")
    case None
    then show ?thesis using Cons by simp
  next
    case (Some s)
    obtain b w' where w: "enqueue options writable (taskNotification (si_wireRequestId (sb_identity sb)) s) (sb_writer sb) = (b, w')" by fastforce
    note h = enqueue_headers [OF Cons.prems(1) w Cons.prems(2)]
    show ?thesis
    proof (cases "runtimeRevision s")
      case (Inr r)
      then show ?thesis using Cons.IH [of "sb\<lparr>sb_revisions := (sb_revisions sb)(t \<mapsto> notificationState s r), sb_writer := w'\<rparr>"] Cons.prems(3) Some w h
        by (auto simp: Let_def split: if_splits)
    qed (use Cons.prems Some in simp)
  qed
qed simp

lemma first_frames_headers:
  assumes "sub_ok options sb" "first_frames options writable current sb = (ok, sb')"
  shows "tw_headersSent (sb_writer sb')"
proof (cases "tw_headersSent (sb_writer sb)")
  case True
  then show ?thesis using assms(2) by (simp add: first_frames_def)
next
  case False
  let ?w = "(sb_writer sb)\<lparr>tw_headersSent := True\<rparr>"
  have w: "writer_ok options ?w" using assms(1) by (auto simp: sub_ok_def writer_ok_def queue_ok_def)
  obtain a w' where ack: "enqueue options writable (acknowledged (si_wireRequestId (sb_identity sb)) (sb_acceptedTaskIds sb)) ?w = (a, w')" by fastforce
  have h: "tw_headersSent w' \<and> writer_ok options w'" using enqueue_headers [OF w ack] by simp
  obtain c sb1 where init: "initial_loop options writable current (sb_acceptedTaskIds sb) (sb\<lparr>sb_writer := w'\<rparr>) = (c, sb1)" by fastforce
  have "tw_headersSent (sb_writer sb1)" using initial_loop_headers [OF _ _ init] h by simp
  then show ?thesis using assms(2) False ack h init by (cases a) (auto simp: first_frames_def close_writer_def split: if_splits)
qed

end
