(* ===== verification/Notification_Theorems.thy ===== *)
theory Notification_Theorems
  imports Notification_Streams Ttl_Theorems
begin

text \<open>
  The notification manager under every interleaving of its operations: subscriptions that begin, load and end, polls, drains, closed connections
  and cancellations.
\<close>

section \<open>Steps\<close>

text \<open>What loading may answer: snapshots of distinct tasks, no more than were asked for, each under the identifier it carries.  The engine's
  loading is shown to be of this kind below (\<open>authorizedSnapshots_loads\<close>).\<close>

definition loads_for :: "string list \<Rightarrow> err + (string \<times> json_object) list \<Rightarrow> bool" where
  "loads_for ids loaded \<longleftrightarrow> (\<forall>current. loaded = Inr current \<longrightarrow> distinct (map fst current) \<and> length current \<le> length ids \<and> own_snapshots current)"

inductive notification_step :: "manager_options \<Rightarrow> (string \<Rightarrow> nat \<Rightarrow> bool) \<Rightarrow> manager \<Rightarrow> manager \<Rightarrow> bool"
  for options :: manager_options and writable :: "string \<Rightarrow> nat \<Rightarrow> bool" where
  begins_listening: "nm_heap m uuid = None \<Longrightarrow> listen_begin options uuid request a transport m = Inr m' \<Longrightarrow> notification_step options writable m m'"
| loads: "nm_heap m i \<noteq> None \<Longrightarrow> sb_phase (sub_of m i) = loading \<Longrightarrow> loads_for (sb_acceptedTaskIds (sub_of m i)) loaded \<Longrightarrow>
    notification_step options writable m (listen_loaded options (writable i) i loaded m)"
| ticks: "notification_step options writable m (poll_tick m)"
| polls: "loads_for ids loaded \<Longrightarrow> notification_step options writable m (poll_next options writable loaded m)"
| drains: "nm_heap m i \<noteq> None \<Longrightarrow> notification_step options writable m (writer_drained writable i m)"
| disconnects: "nm_heap m i \<noteq> None \<Longrightarrow> notification_step options writable m (connection_closed i m)"
| cancels: "notification_step options writable m (snd (cancel_subscription rid transport a m))"

abbreviation notification_reachable :: "manager_options \<Rightarrow> (string \<Rightarrow> nat \<Rightarrow> bool) \<Rightarrow> manager \<Rightarrow> bool" where
  "notification_reachable options writable m \<equiv> (notification_step options writable)\<^sup>*\<^sup>* new_manager m"

section \<open>The invariant of the manager\<close>

abbreviation indexed :: "manager \<Rightarrow> string \<Rightarrow> string list" where
  "indexed m k \<equiv> (case nm_index m k of None \<Rightarrow> [] | Some is \<Rightarrow> is)"

abbreviation key_of :: "manager \<Rightarrow> string \<Rightarrow> string" where
  "key_of m i \<equiv> identity_key (sb_identity (sub_of m i))"

definition objects_ok :: "manager_options \<Rightarrow> manager \<Rightarrow> bool" where
  "objects_ok options m \<longleftrightarrow>
     (\<forall>i sb. nm_heap m i = Some sb \<longrightarrow> sub_ok (mo_writer options) sb \<and> (sb_phase sb = left \<longleftrightarrow> i \<notin> set (nm_subscriptions m)) \<and>
        (sb_phase sb = left \<longrightarrow> tw_closed (sb_writer sb))) \<and>
     distinct (nm_subscriptions m) \<and> (\<forall>i \<in> set (nm_subscriptions m). nm_heap m i \<noteq> None) \<and>
     (\<forall>gs g i. nm_poll m = Some gs \<longrightarrow> g \<in> set gs \<longrightarrow> i \<in> set g \<longrightarrow> nm_heap m i \<noteq> None)"

definition capacity_ok :: "manager_options \<Rightarrow> manager \<Rightarrow> bool" where
  "capacity_ok options m \<longleftrightarrow>
     card (set (nm_subscriptions m)) \<le> mo_maxSubscriptions options \<and>
     (\<forall>scope. card {i \<in> set (nm_subscriptions m). scope_of m i = scope} \<le> mo_maxSubscriptionsPerAuth options) \<and>
     nm_taskBindings m = (\<Sum>i\<in>set (nm_subscriptions m). int (length (sb_acceptedTaskIds (sub_of m i)))) \<and>
     nm_taskBindings m \<le> int (mo_maxTaskBindings options)"

definition gauges_ok :: "manager \<Rightarrow> bool" where
  "gauges_ok m \<longleftrightarrow>
     nm_queueMessages m = (\<Sum>i\<in>set (nm_subscriptions m). tw_reportedMessages (sb_writer (sub_of m i))) \<and>
     nm_queueBytes m = (\<Sum>i\<in>set (nm_subscriptions m). tw_reportedBytes (sb_writer (sub_of m i)))"

definition index_ok :: "manager \<Rightarrow> bool" where
  "index_ok m \<longleftrightarrow>
     (\<forall>k. set (indexed m k) = {i \<in> set (nm_subscriptions m). key_of m i = k} \<and> nm_index m k \<noteq> Some []) \<and>
     (\<forall>i \<in> set (nm_subscriptions m). \<forall>j \<in> set (nm_subscriptions m). key_of m i = key_of m j \<longrightarrow> scope_of m i = scope_of m j \<longrightarrow> i = j)"

definition manager_ok :: "manager_options \<Rightarrow> manager \<Rightarrow> bool" where
  "manager_ok options m \<longleftrightarrow> objects_ok options m \<and> capacity_ok options m \<and> gauges_ok m \<and> index_ok m \<and> (nm_timer m \<longrightarrow> nm_subscriptions m \<noteq> [])"

lemma new_manager_ok: "manager_ok options new_manager"
  by (simp add: manager_ok_def objects_ok_def capacity_ok_def gauges_ok_def index_ok_def new_manager_def)

lemma closed_reports_nothing: "sub_ok options sb \<Longrightarrow> tw_closed (sb_writer sb) \<Longrightarrow> tw_reportedMessages (sb_writer sb) = 0 \<and> tw_reportedBytes (sb_writer sb) = 0"
  by (auto simp: sub_ok_def writer_ok_def queue_ok_def)

lemma sub_of_put [simp]: "sub_of (put_sub i sb m) j = (if j = i then sb else sub_of m j)"
  by (simp add: sub_of_def put_sub_def)

lemma put_sub_fields [simp]:
  "nm_subscriptions (put_sub i sb m) = nm_subscriptions m" "nm_index (put_sub i sb m) = nm_index m" "nm_timer (put_sub i sb m) = nm_timer m"
  "nm_poll (put_sub i sb m) = nm_poll m" "nm_taskBindings (put_sub i sb m) = nm_taskBindings m" "nm_heap (put_sub i sb m) = (nm_heap m)(i \<mapsto> sb)"
  by (simp_all add: put_sub_def)

lemma put_sub_counters:
  "nm_queueMessages (put_sub i sb m) = nm_queueMessages m + tw_reportedMessages (sb_writer sb) - tw_reportedMessages (sb_writer (sub_of m i))"
  "nm_queueBytes (put_sub i sb m) = nm_queueBytes m + tw_reportedBytes (sb_writer sb) - tw_reportedBytes (sb_writer (sub_of m i))"
  by (simp_all add: put_sub_def)

lemma sub_of_bindings [simp]:
  "sub_of (m\<lparr>nm_taskBindings := b\<rparr>) = sub_of m" "sub_of (m\<lparr>nm_timer := t\<rparr>) = sub_of m" "sub_of (m\<lparr>nm_poll := p\<rparr>) = sub_of m"
  "sub_of (m\<lparr>nm_subscriptions := s\<rparr>) = sub_of m" "sub_of (m\<lparr>nm_index := x\<rparr>) = sub_of m"
  by (simp_all add: sub_of_def fun_eq_iff)

lemma sum_change:
  fixes f g :: "'a \<Rightarrow> int"
  assumes "finite S" "\<And>j. j \<in> S \<Longrightarrow> j \<noteq> i \<Longrightarrow> g j = f j"
  shows "(\<Sum>j\<in>S. g j) = (\<Sum>j\<in>S. f j) + (if i \<in> S then g i - f i else 0)"
proof (cases "i \<in> S")
  case True
  then have "(\<Sum>j\<in>S. g j) = g i + (\<Sum>j\<in>S - {i}. g j)" "(\<Sum>j\<in>S. f j) = f i + (\<Sum>j\<in>S - {i}. f j)" using assms(1) by (simp_all add: sum.remove)
  moreover have "(\<Sum>j\<in>S - {i}. g j) = (\<Sum>j\<in>S - {i}. f j)" using assms(2) by (intro sum.cong) auto
  ultimately show ?thesis using True by simp
next
  case False
  then show ?thesis using assms(2) by (auto intro!: sum.cong)
qed

lemma sum_put:
  fixes f :: "subscription \<Rightarrow> int"
  shows "(\<Sum>j\<in>set (nm_subscriptions m). f (if j = i then sb' else sub_of m j)) =
    (\<Sum>j\<in>set (nm_subscriptions m). f (sub_of m j)) + (if i \<in> set (nm_subscriptions m) then f sb' - f (sub_of m i) else 0)"
  using sum_change [of "set (nm_subscriptions m)" i "\<lambda>j. f (if j = i then sb' else sub_of m j)" "\<lambda>j. f (sub_of m j)"] by simp

text \<open>An object that is replaced by another of the same identity.\<close>

lemma put_sub_ok:
  assumes m: "manager_ok options m" "nm_heap m i = Some sb" and "sub_ok (mo_writer options) sb'"
    and same: "sb_identity sb' = sb_identity sb" "sb_phase sb' = left \<longleftrightarrow> sb_phase sb = left" "tw_closed (sb_writer sb) \<longrightarrow> tw_closed (sb_writer sb')"
    and accepted: "sb_phase sb = left \<longrightarrow> length (sb_acceptedTaskIds sb') = length (sb_acceptedTaskIds sb)"
      "length (sb_acceptedTaskIds sb') \<le> length (sb_acceptedTaskIds sb)"
  shows "manager_ok options ((put_sub i sb' m)\<lparr>nm_taskBindings := nm_taskBindings m + int (length (sb_acceptedTaskIds sb')) - int (length (sb_acceptedTaskIds sb))\<rparr>)"
    (is "manager_ok options ?m")
proof -
  let ?S = "set (nm_subscriptions m)"
  have sb: "sub_of m i = sb" by (simp add: sub_of_def m(2))
  have obj: "objects_ok options m" and cap: "capacity_ok options m" and gau: "gauges_ok m" and idx: "index_ok m" and tim: "nm_timer m \<longrightarrow> nm_subscriptions m \<noteq> []"
    using m(1) by (auto simp: manager_ok_def)
  have inS: "i \<in> ?S \<longleftrightarrow> sb_phase sb \<noteq> left" "sub_ok (mo_writer options) sb" "sb_phase sb = left \<longrightarrow> tw_closed (sb_writer sb)"
    using obj m(2) by (auto simp: objects_ok_def)
  have ident: "sb_identity (sub_of ?m j) = sb_identity (sub_of m j)" for j using same(1) sb by simp
  have zero: "i \<notin> ?S \<Longrightarrow> tw_reportedMessages (sb_writer sb') = 0 \<and> tw_reportedBytes (sb_writer sb') = 0 \<and>
      tw_reportedMessages (sb_writer sb) = 0 \<and> tw_reportedBytes (sb_writer sb) = 0"
    using inS assms(3) same(3) closed_reports_nothing by blast
  have "objects_ok options ?m" using obj assms(3) same inS unfolding objects_ok_def by auto
  moreover have "capacity_ok options ?m"
    using cap accepted inS(1) ident sum_put [of "\<lambda>x. int (length (sb_acceptedTaskIds x))"] by (auto simp: capacity_ok_def sb)
  moreover have "gauges_ok ?m"
    using gau zero sum_put [of "\<lambda>x. tw_reportedMessages (sb_writer x)"] sum_put [of "\<lambda>x. tw_reportedBytes (sb_writer x)"]
    by (auto simp: gauges_ok_def put_sub_counters sb)
  moreover have "index_ok ?m" using idx ident unfolding index_ok_def by simp
  ultimately show ?thesis using tim by (simp add: manager_ok_def)
qed

lemma put_same_ok:
  assumes "manager_ok options m" "nm_heap m i = Some sb" "sub_ok (mo_writer options) sb'" "same_sub sb sb'"
  shows "manager_ok options (put_sub i sb' m)"
proof -
  have "(put_sub i sb' m)\<lparr>nm_taskBindings := nm_taskBindings m + int (length (sb_acceptedTaskIds sb')) - int (length (sb_acceptedTaskIds sb))\<rparr> = put_sub i sb' m"
    using assms(4) by (simp add: same_sub_def put_sub_def)
  then show ?thesis using put_sub_ok [OF assms(1,2,3)] assms(4) by (simp add: same_sub_def)
qed

lemma object_ok: "manager_ok options m \<Longrightarrow> nm_heap m i = Some sb \<Longrightarrow> sub_ok (mo_writer options) sb"
  by (simp add: manager_ok_def objects_ok_def)

lemma heap_sub: "nm_heap m i \<noteq> None \<Longrightarrow> nm_heap m i = Some (sub_of m i)"
  by (auto simp: sub_of_def)

lemma poll_field_ok:
  assumes "manager_ok options m" "\<And>gs g i. p = Some gs \<Longrightarrow> g \<in> set gs \<Longrightarrow> i \<in> set g \<Longrightarrow> nm_heap m i \<noteq> None"
  shows "manager_ok options (m\<lparr>nm_poll := p\<rparr>)"
  using assms unfolding manager_ok_def objects_ok_def capacity_ok_def gauges_ok_def index_ok_def by simp

section \<open>The operations keep the invariant\<close>

lemma drained_ok:
  assumes "manager_ok options m" "nm_heap m i \<noteq> None"
  shows "manager_ok options (writer_drained writable i m)"
proof -
  let ?sb = "sub_of m i"
  have ok: "sub_ok (mo_writer options) ?sb" using object_ok [OF assms(1) heap_sub [OF assms(2)]] .
  then have w: "writer_keeps (mo_writer options) (sb_writer ?sb) (drained (writable i) (sb_writer ?sb))" by (intro drained_keeps) (simp add: sub_ok_def)
  have "\<not> tw_headersSent (sb_writer ?sb) \<Longrightarrow> drained (writable i) (sb_writer ?sb) = sb_writer ?sb"
    using ok by (auto simp: sub_ok_def writer_ok_def queue_ok_def drained_def)
  then have "unstarted (?sb\<lparr>sb_writer := drained (writable i) (sb_writer ?sb)\<rparr>)"
    using ok w by (cases "tw_headersSent (sb_writer ?sb)") (auto simp: sub_ok_def unstarted_def writer_keeps_def)
  then show ?thesis unfolding writer_drained_def with_writer_def
    using put_same_ok [OF assms(1) heap_sub [OF assms(2)] sub_ok_keeps [OF ok w]] w by (simp add: same_sub_def writer_keeps_def)
qed

lemma closed_ok:
  assumes "manager_ok options m" "nm_heap m i \<noteq> None"
  shows "manager_ok options (with_writer i close_writer m)"
proof -
  let ?sb = "sub_of m i"
  have ok: "sub_ok (mo_writer options) ?sb" using object_ok [OF assms(1) heap_sub [OF assms(2)]] .
  then have w: "writer_keeps (mo_writer options) (sb_writer ?sb) (close_writer (sb_writer ?sb))" using close_keeps by (simp add: sub_ok_def)
  have "unstarted (?sb\<lparr>sb_writer := close_writer (sb_writer ?sb)\<rparr>)" using ok by (auto simp: sub_ok_def unstarted_def close_writer_def)
  then show ?thesis unfolding with_writer_def
    using put_same_ok [OF assms(1) heap_sub [OF assms(2)] sub_ok_keeps [OF ok w]] w by (simp add: same_sub_def writer_keeps_def)
qed

lemma with_writer_fields [simp]:
  "nm_subscriptions (with_writer i f m) = nm_subscriptions m" "nm_poll (with_writer i f m) = nm_poll m"
  "nm_heap (with_writer i f m) j \<noteq> None \<longleftrightarrow> j = i \<or> nm_heap m j \<noteq> None"
  by (simp_all add: with_writer_def)

lemma close_each_ok:
  "manager_ok options m \<Longrightarrow> (\<And>i. i \<in> set is \<Longrightarrow> nm_heap m i \<noteq> None) \<Longrightarrow>
     manager_ok options (foldl (\<lambda>m i. with_writer i close_writer m) m is)"
proof (induction "is" arbitrary: m)
  case (Cons i "is")
  have "nm_heap (with_writer i close_writer m) j \<noteq> None" if "j \<in> set is" for j using Cons.prems(2) that unfolding with_writer_fields by simp
  then show ?case using Cons.IH closed_ok [OF Cons.prems(1)] Cons.prems(2) by simp
qed simp

lemma close_all_ok: "manager_ok options m \<Longrightarrow> manager_ok options (close_all m)"
  unfolding close_all_def by (rule close_each_ok) (auto simp: manager_ok_def objects_ok_def)

lemma poll_group_ok:
  "manager_ok options m \<Longrightarrow> (\<And>i. i \<in> set is \<Longrightarrow> nm_heap m i \<noteq> None) \<Longrightarrow> poll_group options writable snapshots is m = (ok, m') \<Longrightarrow> own_snapshots snapshots \<Longrightarrow>
     manager_ok options m' \<and> nm_poll m' = nm_poll m \<and> (\<forall>j. nm_heap m j \<noteq> None \<longrightarrow> nm_heap m' j \<noteq> None)"
proof (induction "is" arbitrary: m)
  case (Cons i "is")
  obtain b sb where run: "deliver_tasks (mo_writer options) (writable i) snapshots (sb_acceptedTaskIds (sub_of m i)) (sub_of m i) = (b, sb)" by fastforce
  have i: "nm_heap m i = Some (sub_of m i)" using Cons.prems(2) heap_sub by simp
  have "sub_ok (mo_writer options) sb \<and> same_sub (sub_of m i) sb" by (rule deliver_tasks_ok [OF object_ok [OF Cons.prems(1) i] Cons.prems(4) run])
  then have one: "manager_ok options (put_sub i sb m)" using put_same_ok [OF Cons.prems(1) i] by blast
  show ?case
  proof (cases b)
    case True
    then have "poll_group options writable snapshots is (put_sub i sb m) = (ok, m')" using Cons.prems(3) run by simp
    then have "manager_ok options m' \<and> nm_poll m' = nm_poll (put_sub i sb m) \<and> (\<forall>j. nm_heap (put_sub i sb m) j \<noteq> None \<longrightarrow> nm_heap m' j \<noteq> None)"
      using Cons.IH [OF one] Cons.prems(2,4) by simp
    then show ?thesis by simp
  next
    case False
    then show ?thesis using Cons.prems(3) run one by auto
  qed
qed simp

lemma poll_next_ok:
  assumes "manager_ok options m" "loads_for ids loaded"
  shows "manager_ok options (poll_next options writable loaded m)"
proof (cases "nm_poll m")
  case None
  then show ?thesis using assms by (simp add: poll_next_def)
next
  case (Some gs)
  have heap: "g \<in> set gs \<Longrightarrow> i \<in> set g \<Longrightarrow> nm_heap m i \<noteq> None" for g i using assms(1) Some by (auto simp: manager_ok_def objects_ok_def)
  have stopped: "manager_ok options ((close_all x)\<lparr>nm_poll := None\<rparr>)" if "manager_ok options x" for x
    by (rule poll_field_ok [OF close_all_ok [OF that]]) simp
  show ?thesis
  proof (cases gs)
    case Nil
    then show ?thesis using assms Some poll_field_ok [of options m None] by (simp add: poll_next_def)
  next
    case (Cons g groups)
    show ?thesis
    proof (cases loaded)
      case (Inl e)
      then show ?thesis using Some Cons stopped [OF assms(1)] by (simp add: poll_next_def)
    next
      case (Inr snapshots)
      obtain b m' where run: "poll_group options writable snapshots g m = (b, m')" by fastforce
      have m': "manager_ok options m' \<and> nm_poll m' = nm_poll m \<and> (\<forall>j. nm_heap m j \<noteq> None \<longrightarrow> nm_heap m' j \<noteq> None)"
        using heap Cons assms(2) Inr by (intro poll_group_ok [OF assms(1) _ run]) (auto simp: loads_for_def)
      have "nm_heap m' i \<noteq> None" if "ga \<in> set groups" "i \<in> set ga" for ga i using m' heap [of ga i] Cons that by simp
      then have "manager_ok options (m'\<lparr>nm_poll := Some groups\<rparr>)" using m' by (intro poll_field_ok) auto
      then show ?thesis using Some Cons Inr run stopped m' by (cases b) (simp_all add: poll_next_def)
    qed
  qed
qed

lemma poll_tick_ok:
  assumes "manager_ok options m"
  shows "manager_ok options (poll_tick m)"
proof -
  have "nm_heap m i \<noteq> None" if "g \<in> set (poll_groups m)" "i \<in> set g" for g i
    using assms that by (auto simp: poll_groups_def manager_ok_def objects_ok_def)
  then have "manager_ok options (m\<lparr>nm_poll := Some (poll_groups m)\<rparr>)" using assms by (intro poll_field_ok) auto
  then show ?thesis using assms by (simp add: poll_tick_def)
qed

lemma release_ok:
  assumes m: "manager_ok options m"
  shows "manager_ok options (release i m)"
proof (cases "i \<in> set (nm_subscriptions m)")
  case False
  then show ?thesis using m by (simp add: release_def)
next
  case True
  let ?S = "set (nm_subscriptions m)" and ?m = "release i m"
  define sb where "sb = sub_of m i"
  define sb' where "sb' = sb\<lparr>sb_writer := dispose (sb_writer sb), sb_phase := left\<rparr>"
  have obj: "objects_ok options m" and cap: "capacity_ok options m" and gau: "gauges_ok m" and idx: "index_ok m"
    using m by (auto simp: manager_ok_def)
  have heap: "nm_heap m i = Some sb" using obj True heap_sub by (simp add: objects_ok_def sb_def)
  have ok: "sub_ok (mo_writer options) sb" by (rule object_ok [OF m heap])
  have keeps: "writer_keeps (mo_writer options) (sb_writer sb) (dispose (sb_writer sb))" "tw_closed (dispose (sb_writer sb))"
    using dispose_keeps ok by (auto simp: sub_ok_def)
  obtain begun ss where b: "wrote sb begun ss" "begins sb begun" "writer_ok (mo_writer options) (sb_writer sb)" using ok by (auto simp: sub_ok_def)
  have ok': "sub_ok (mo_writer options) sb'" "tw_closed (sb_writer sb')"
    using wrote_keeps [OF b(1,3) keeps(1)] b(2) keeps by (auto simp: sub_ok_def sb'_def unstarted_def begins_def wrote_def writer_keeps_def)
  have zero: "tw_reportedMessages (sb_writer sb') = 0" "tw_reportedBytes (sb_writer sb') = 0" using closed_reports_nothing [OF ok'] by auto
  have fields: "nm_subscriptions ?m = removeAll i (nm_subscriptions m)" "nm_heap ?m = (nm_heap m)(i \<mapsto> sb')" "nm_poll ?m = nm_poll m"
    "nm_taskBindings ?m = nm_taskBindings m - int (length (sb_acceptedTaskIds sb))"
    "nm_queueMessages ?m = nm_queueMessages m - tw_reportedMessages (sb_writer sb)" "nm_queueBytes ?m = nm_queueBytes m - tw_reportedBytes (sb_writer sb)"
    "nm_timer ?m = (nm_timer m \<and> removeAll i (nm_subscriptions m) \<noteq> [])"
    "nm_index ?m = (nm_index m)(key_of m i := case nm_index m (key_of m i) of None \<Rightarrow> None | Some is \<Rightarrow> (case removeAll i is of [] \<Rightarrow> None | is' \<Rightarrow> Some is'))"
    using True zero by (simp_all add: release_def Let_def put_sub_counters sb_def [symmetric] sb'_def [symmetric])
  have sub: "sub_of ?m j = (if j = i then sb' else sub_of m j)" for j by (simp add: sub_of_def fields)
  have ident: "sb_identity (sub_of ?m j) = sb_identity (sub_of m j)" for j by (simp add: sub sb'_def sb_def)
  have minus: "(\<Sum>j\<in>?S - {i}. f (sub_of ?m j)) = (\<Sum>j\<in>?S. f (sub_of m j)) - f sb" for f :: "subscription \<Rightarrow> int"
  proof -
    have "(\<Sum>j\<in>?S. f (sub_of m j)) = f sb + (\<Sum>j\<in>?S - {i}. f (sub_of m j))" using True by (simp add: sum.remove sb_def)
    moreover have "(\<Sum>j\<in>?S - {i}. f (sub_of ?m j)) = (\<Sum>j\<in>?S - {i}. f (sub_of m j))" by (intro sum.cong) (auto simp: sub)
    ultimately show ?thesis by simp
  qed
  have "objects_ok options ?m" using obj ok' unfolding objects_ok_def fields by (auto simp: sb'_def distinct_removeAll)
  moreover have "capacity_ok options ?m"
  proof -
    have "card {j \<in> ?S - {i}. scope_of m j = scope} \<le> card {j \<in> ?S. scope_of m j = scope}" for scope by (intro card_mono) auto
    then have "card {j \<in> ?S - {i}. scope_of m j = scope} \<le> mo_maxSubscriptionsPerAuth options" for scope
      using cap order_trans unfolding capacity_ok_def by blast
    moreover have "card (?S - {i}) \<le> mo_maxSubscriptions options" using cap card_Diff1_le [of ?S i] order_trans unfolding capacity_ok_def by blast
    ultimately show ?thesis using cap minus [of "\<lambda>x. int (length (sb_acceptedTaskIds x))"] unfolding capacity_ok_def
      by (simp add: fields ident)
  qed
  moreover have "gauges_ok ?m"
    using gau minus [of "\<lambda>x. tw_reportedMessages (sb_writer x)"] minus [of "\<lambda>x. tw_reportedBytes (sb_writer x)"] by (simp add: gauges_ok_def fields)
  moreover have "index_ok ?m"
  proof -
    have "set (indexed ?m k) = set (indexed m k) - {i} \<and> nm_index ?m k \<noteq> Some []" for k
    proof (cases "k = key_of m i")
      case True
      show ?thesis
      proof (cases "nm_index m k")
        case (Some a)
        then show ?thesis using True set_removeAll [of i a] by (cases "removeAll i a") (simp_all add: fields)
      qed (simp add: fields True)
    next
      case False
      then have "i \<notin> set (indexed m k)" using idx by (simp add: index_ok_def)
      then show ?thesis using False idx by (simp add: fields index_ok_def)
    qed
    then show ?thesis using idx by (auto simp: index_ok_def ident fields)
  qed
  ultimately show ?thesis by (simp add: manager_ok_def fields(1,7))
qed

lemma listen_begin_ok:
  assumes m: "manager_ok options m" "nm_heap m u = None" and run: "listen_begin options u request a transport m = Inr m'"
  shows "manager_ok options m'"
proof -
  let ?S = "set (nm_subscriptions m)"
  define identity where "identity = subscriptionIdentity u (fj_id request) transport a"
  define key where "key = identity_key identity"
  define scope where "scope = si_authorizationScope identity"
  obtain ids where ids: "parseTaskIds (fj_params request) = Inr ids" "assertCapacity options scope (length ids) m = Inr ()"
    "\<not> list_ex (\<lambda>i. i \<in> ?S \<and> scope_of m i = scope) (indexed m key)"
    and m': "m' = m\<lparr>nm_heap := (nm_heap m)(u \<mapsto> \<lparr>sb_identity = identity, sb_authorization = a, sb_writer = new_writer, sb_revisions = (\<lambda>_. None),
        sb_acceptedTaskIds = ids, sb_phase = loading\<rparr>),
      nm_subscriptions := nm_subscriptions m @ [u], nm_taskBindings := nm_taskBindings m + int (length ids), nm_index := (nm_index m)(key \<mapsto> indexed m key @ [u])\<rparr>"
    using run unfolding listen_begin_def Let_def identity_def [symmetric] scope_def [symmetric] key_def [symmetric]
    by (auto simp: bind_err_Inr_iff invalidParams_def split: if_splits)
  define sb where "sb = \<lparr>sb_identity = identity, sb_authorization = a, sb_writer = new_writer, sb_revisions = (\<lambda>_. None),
        sb_acceptedTaskIds = ids, sb_phase = loading\<rparr>"
  have obj: "objects_ok options m" and cap: "capacity_ok options m" and gau: "gauges_ok m" and idx: "index_ok m" using m(1) by (auto simp: manager_ok_def)
  have new: "u \<notin> ?S" using obj m(2) by (auto simp: objects_ok_def)
  have sub: "sub_of m' j = (if j = u then sb else sub_of m j)" for j by (simp add: m' sub_of_def sb_def)
  have ok: "sub_ok (mo_writer options) sb"
    by (auto simp: sub_ok_def sb_def new_writer_ok unstarted_def begins_def wrote_def notification_frames_def in_revision_order_def remembers_def states_of_def own_snapshots_def
        intro!: exI [of _ "[]"]) (simp_all add: new_writer_def writer_log_def)
  have old: "(\<Sum>j\<in>?S. f (sub_of m' j)) = (\<Sum>j\<in>?S. f (sub_of m j))" for f :: "subscription \<Rightarrow> int"
    using new by (intro sum.cong) (auto simp: sub)
  have "objects_ok options m'" using obj ok new unfolding objects_ok_def by (auto simp: m' sb_def)
  moreover have "capacity_ok options m'"
  proof -
    have room: "length (nm_subscriptions m) < mo_maxSubscriptions options" "length (filter (\<lambda>i. scope_of m i = scope) (nm_subscriptions m)) < mo_maxSubscriptionsPerAuth options"
      "nm_taskBindings m + int (length ids) \<le> int (mo_maxTaskBindings options)"
      using ids(2) by (auto simp: assertCapacity_def Let_def split: if_splits)
    have "distinct (nm_subscriptions m)" using obj by (simp add: objects_ok_def)
    then have len: "card ?S = length (nm_subscriptions m)"
      "card {i \<in> ?S. scope_of m i = scope} = length (filter (\<lambda>i. scope_of m i = scope) (nm_subscriptions m))"
      by (simp add: distinct_card) (metis \<open>distinct (nm_subscriptions m)\<close> distinct_card distinct_filter set_filter)
    have per: "{i \<in> insert u ?S. scope_of m' i = c} = (if c = scope then insert u {i \<in> ?S. scope_of m i = c} else {i \<in> ?S. scope_of m i = c})" for c
      using new by (auto simp: sub sb_def scope_def)
    have S': "set (nm_subscriptions m') = insert u ?S" "nm_taskBindings m' = nm_taskBindings m + int (length ids)" by (simp_all add: m')
    have c1: "card (insert u ?S) \<le> mo_maxSubscriptions options" using room(1) len(1) new by simp
    have c2: "card {i \<in> insert u ?S. scope_of m' i = c} \<le> mo_maxSubscriptionsPerAuth options" for c
    proof (cases "c = scope")
      case True
      have "card (insert u {i \<in> ?S. scope_of m i = scope}) \<le> Suc (card {i \<in> ?S. scope_of m i = scope})" by (simp add: card_insert_if)
      then show ?thesis unfolding per using True room(2) len(2) by simp
    next
      case False
      then show ?thesis unfolding per using cap by (simp add: capacity_ok_def)
    qed
    have c3: "(\<Sum>j\<in>insert u ?S. int (length (sb_acceptedTaskIds (sub_of m' j)))) = nm_taskBindings m + int (length ids)"
      using cap new old [of "\<lambda>x. int (length (sb_acceptedTaskIds x))"] by (simp add: capacity_ok_def sub [of u] sb_def)
    show ?thesis unfolding capacity_ok_def S' using c1 c2 c3 room(3) by simp
  qed
  moreover have "gauges_ok m'"
  proof -
    have S': "set (nm_subscriptions m') = insert u ?S" "nm_queueMessages m' = nm_queueMessages m" "nm_queueBytes m' = nm_queueBytes m" by (simp_all add: m')
    show ?thesis unfolding gauges_ok_def S'
      using gau new old [of "\<lambda>x. tw_reportedMessages (sb_writer x)"] old [of "\<lambda>x. tw_reportedBytes (sb_writer x)"]
      by (simp add: gauges_ok_def sub [of u] sb_def new_writer_def)
  qed
  moreover have "index_ok m'"
  proof -
    have fields: "nm_subscriptions m' = nm_subscriptions m @ [u]" "nm_index m' = (nm_index m)(key \<mapsto> indexed m key @ [u])" by (simp_all add: m')
    have keys: "key_of m' j = (if j = u then key else key_of m j)" "scope_of m' j = (if j = u then scope else scope_of m j)" for j
      by (simp_all add: sub sb_def key_def scope_def)
    have "set (indexed m k) = {i \<in> ?S. key_of m i = k} \<and> nm_index m k \<noteq> Some []" for k using idx by (simp add: index_ok_def)
    then have "set (indexed m' k) = {i \<in> set (nm_subscriptions m'). key_of m' i = k} \<and> nm_index m' k \<noteq> Some []" for k
      using new by (auto simp: fields keys)
    moreover have "False" if "i \<in> ?S" "key_of m i = key" "scope_of m i = scope" for i
    proof -
      have "i \<in> set (indexed m key)" using idx that unfolding index_ok_def by blast
      then show False using ids(3) that unfolding list_ex_iff by blast
    qed
    ultimately show ?thesis using idx new unfolding index_ok_def by (auto simp: fields(1) keys)
  qed
  ultimately show ?thesis by (simp add: manager_ok_def m')
qed

lemma listen_loaded_ok:
  assumes m: "manager_ok options m" "nm_heap m i \<noteq> None" "sb_phase (sub_of m i) = loading" "loads_for (sb_acceptedTaskIds (sub_of m i)) loaded"
  shows "manager_ok options (listen_loaded options writable i loaded m)"
proof (cases loaded)
  case (Inl e)
  then show ?thesis using release_ok [OF m(1)] by (simp add: listen_loaded_def)
next
  case (Inr current)
  let ?sb = "(sub_of m i)\<lparr>sb_acceptedTaskIds := sort (map fst current)\<rparr>"
  have ids: "distinct (map fst current)" "length current \<le> length (sb_acceptedTaskIds (sub_of m i))" "own_snapshots current" using m(4) Inr by (auto simp: loads_for_def)
  note heap = heap_sub [OF m(2)]
  have ok: "sub_ok (mo_writer options) ?sb"
    using object_ok [OF m(1) heap] m(3) by (auto simp: sub_ok_def unstarted_def begins_def wrote_def)
  obtain b sb' where run: "first_frames (mo_writer options) writable current ?sb = (b, sb')" by fastforce
  have ff: "sub_ok (mo_writer options) (sb'\<lparr>sb_phase := if b then streaming else left\<rparr>)" "same_sub ?sb sb'"
    using first_frames_ok [OF ok _ _ run ids(3)] m(3) ids(1) by simp_all
  have headers: "tw_headersSent (sb_writer sb')" by (rule first_frames_headers [OF ok run])
  define sb'' where "sb'' = (if b then sb'\<lparr>sb_phase := streaming\<rparr> else sb')"
  have ok'': "sub_ok (mo_writer options) sb''"
    using ff headers m(3) by (cases b) (auto simp: sb''_def sub_ok_def wrote_def begins_def unstarted_def same_sub_def)
  have "manager_ok options ((put_sub i sb'' m)\<lparr>nm_taskBindings := nm_taskBindings m + int (length (sb_acceptedTaskIds sb'')) - int (length (sb_acceptedTaskIds (sub_of m i)))\<rparr>)"
    using ff(2) m(3) ids(2) by (intro put_sub_ok [OF m(1) heap ok'']) (auto simp: sb''_def same_sub_def)
  moreover have "length (sb_acceptedTaskIds sb'') = length (sort (map fst current))" using ff(2) by (auto simp: sb''_def same_sub_def)
  moreover have "nm_subscriptions m \<noteq> []" using m(1,3) heap by (auto simp: manager_ok_def objects_ok_def)
  ultimately have "manager_ok options ((put_sub i sb'' m)\<lparr>nm_taskBindings := nm_taskBindings m + int (length (sort (map fst current))) -
      int (length (sb_acceptedTaskIds (sub_of m i))), nm_timer := (nm_timer m \<or> b)\<rparr>)"
    unfolding manager_ok_def objects_ok_def capacity_ok_def gauges_ok_def index_ok_def by simp
  then show ?thesis using release_ok Inr run unfolding listen_loaded_def Let_def by (simp add: sb''_def split: if_splits)
qed

lemma cancel_ok:
  assumes "manager_ok options m"
  shows "manager_ok options (snd (cancel_subscription rid transport a m))"
proof -
  have abort: "manager_ok options (abort_subscription i m)" if "i \<in> set (nm_subscriptions m)" for i
  proof -
    have "nm_heap m i \<noteq> None" using assms that by (auto simp: manager_ok_def objects_ok_def)
    then show ?thesis using release_ok [OF closed_ok [OF assms]] assms by (simp add: abort_subscription_def)
  qed
  consider "snd (cancel_subscription rid transport a m) = m"
    | i where "i \<in> set (nm_subscriptions m)" "snd (cancel_subscription rid transport a m) = abort_subscription i m"
  proof (cases "filter (\<lambda>i. i \<in> set (nm_subscriptions m) \<and> (case a of None \<Rightarrow> True | Some a \<Rightarrow> scope_of m i = authorizationScope a))
      (indexed m (transportWireIndexKey transport (typedWireRequestKey rid)))")
    case Nil
    then show ?thesis using that(1) by (simp add: cancel_subscription_def Let_def)
  next
    case (Cons i more)
    have "i \<in> set (i # more)" by simp
    then have "i \<in> set (nm_subscriptions m)" unfolding Cons [symmetric] by simp
    then show ?thesis using that Cons by (cases more) (simp_all add: cancel_subscription_def Let_def)
  qed
  then show ?thesis using assms abort by cases auto
qed

lemma notification_step_ok: "notification_step options writable m m' \<Longrightarrow> manager_ok options m \<Longrightarrow> manager_ok options m'"
  by (induction rule: notification_step.induct)
    (auto intro: listen_begin_ok listen_loaded_ok poll_tick_ok poll_next_ok drained_ok release_ok cancel_ok simp: connection_closed_def)

lemma notification_reachable_ok: "notification_reachable options writable m \<Longrightarrow> manager_ok options m"
  by (induction rule: rtranclp_induct) (auto intro: new_manager_ok notification_step_ok)

section \<open>Loading\<close>

lemma assoc_set_keys: "set (map fst (assoc_set k v kvs)) = insert k (set (map fst kvs))"
  by (induction k v kvs rule: assoc_set.induct) auto

lemma assoc_set_distinct: "distinct (map fst kvs) \<Longrightarrow> distinct (map fst (assoc_set k v kvs))"
proof (induction k v kvs rule: assoc_set.induct)
  case (2 k v k' v' kvs)
  then show ?case using assoc_set_keys [of k v kvs] by (metis assoc_set.simps(2) distinct.simps(2) fst_conv insertE list.simps(9))
qed simp

lemma assoc_sets_keys:
  "set (map fst (assoc_sets new kvs)) = set (map fst new) \<union> set (map fst kvs) \<and> (distinct (map fst kvs) \<longrightarrow> distinct (map fst (assoc_sets new kvs)))"
  unfolding assoc_sets_def
proof (induction new arbitrary: kvs)
  case (Cons kv new)
  then show ?case using assoc_set_keys [of "fst kv" "snd kv" kvs] assoc_set_distinct [of kvs "fst kv" "snd kv"] by (simp add: case_prod_beta)
qed simp

lemma set_chunks: "set (concat (chunks k xs)) \<subseteq> set xs"
proof (induction k xs rule: chunks.induct)
  case (1 k xs)
  show ?case
  proof (cases "xs = [] \<or> k = 0")
    case False
    then show ?thesis using "1.IH" [OF False] set_take_subset [of k xs] set_drop_subset [of k xs] by (subst chunks.simps) auto
  qed (simp add: chunks.simps)
qed

text \<open>What the engine returns under an identifier is a snapshot of that task.\<close>

lemma detailed_task:
  assumes "mapTaskToDetailedTask r qs projection = Inr s"
  shows "snapshot_task s = Some (task_id r)"
proof -
  have "\<exists>xs. s = detailed_base r projection @ xs"
    using assms by (cases "mcp_status r"; auto simp: mapTaskToDetailedTask_def Let_def split: if_splits option.splits)
  then obtain xs where "s = detailed_base r projection @ xs" by blast
  then have "obj_get s ''taskId'' = Some (JStr (task_id r))" by (cases projection) (simp_all add: detailed_base_def obj_get_def)
  then show ?thesis by (simp add: snapshot_task_def)
qed

lemma own_snapshots_set: "own_snapshots kvs \<Longrightarrow> snapshot_task v = Some k \<Longrightarrow> own_snapshots (assoc_set k v kvs)"
  by (induction k v kvs rule: assoc_set.induct) (auto simp: own_snapshots_def split: if_splits)

lemma own_snapshots_sets: "own_snapshots new \<Longrightarrow> own_snapshots kvs \<Longrightarrow> own_snapshots (assoc_sets new kvs)"
  unfolding assoc_sets_def
proof (induction new arbitrary: kvs)
  case (Cons kv new)
  have "own_snapshots (assoc_set (fst kv) (snd kv) kvs)"
    using Cons.prems by (intro own_snapshots_set) (auto simp: own_snapshots_def)
  then show ?case using Cons by (auto simp: own_snapshots_def case_prod_beta)
qed simp

text \<open>Loaded snapshots have distinct keys, among the keys a batch may answer with.\<close>

definition keys_within :: "string set \<Rightarrow> (string \<times> json_object) list \<Rightarrow> bool" where
  "keys_within K snapshots \<longleftrightarrow> distinct (map fst snapshots) \<and> set (map fst snapshots) \<subseteq> K \<and> own_snapshots snapshots"

lemma keys_within_set: "keys_within K snapshots \<Longrightarrow> k \<in> K \<Longrightarrow> snapshot_task v = Some k \<Longrightarrow> keys_within K (assoc_set k v snapshots)"
  using assoc_set_keys [of k v snapshots] assoc_set_distinct [of snapshots k v] own_snapshots_set [of snapshots v k] by (simp add: keys_within_def)

lemma keys_within_sets: "keys_within K snapshots \<Longrightarrow> set (map fst new) \<subseteq> K \<Longrightarrow> own_snapshots new \<Longrightarrow> keys_within K (assoc_sets new snapshots)"
  using assoc_sets_keys [of new snapshots] own_snapshots_sets [of new snapshots] by (auto simp: keys_within_def)

lemma andThen_Inr: "andThen p f s = (Inr v, s') \<Longrightarrow> \<exists>u s1. p s = (Inr u, s1) \<and> f u s1 = (Inr v, s')"
  by (auto simp: andThen_def split: prod.splits sum.splits)

lemma read_err_Inr: "read_err ctx f s = (Inr v, s') \<Longrightarrow> \<exists>env db. f env db = Inr v"
  by (auto simp: read_err_def call_def Let_def bind_err_Inr_iff split: sum.splits prod.splits)

lemma frozen_task:
  assumes "getFrozenTask ctx t a projection s = (Inr v, s')"
  shows "snapshot_task v = Some t"
proof -
  from andThen_Inr [OF assms [unfolded getFrozenTask_def]] obtain task s1 where
    t: "read_err ctx (\<lambda>env. getAuthorized env t a) s = (Inr task, s1)" and
    more: "andThen (read_store ctx (\<lambda>_. listInputRequests t)) (\<lambda>requests. lift_err (mapTaskToDetailedTask task requests projection)) s1 = (Inr v, s')"
    by blast
  have "task_id task = t" using read_err_Inr [OF t] getAuthorized_row by blast
  moreover from andThen_Inr [OF more] have "\<exists>requests. mapTaskToDetailedTask task requests projection = Inr v" by (auto simp: lift_err_def)
  ultimately show ?thesis using detailed_task by blast
qed

lemma authorized_snapshot:
  assumes "authorizedSnapshot ctx t a s = (Inr (Some v), s')"
  shows "snapshot_task v = Some t"
  using assms frozen_task [of ctx t a notification]
  by (auto simp: authorizedSnapshot_def catching_def andThen_def ret_def throw_def split: prod.splits sum.splits option.splits if_splits)

lemma load_singly_keys:
  "load_singly ctx a ts snapshots s = (Inr res, s') \<Longrightarrow> set ts \<subseteq> K \<Longrightarrow> keys_within K snapshots \<Longrightarrow> keys_within K res"
proof (induction ts arbitrary: snapshots s)
  case (Cons t ts)
  from andThen_Inr [OF Cons.prems(1) [unfolded load_singly.simps]] obtain v s1 where one: "authorizedSnapshot ctx t a s = (Inr v, s1)"
    and rest: "load_singly ctx a ts (case v of None \<Rightarrow> snapshots | Some x \<Rightarrow> assoc_set t x snapshots) s1 = (Inr res, s')" by blast
  have "keys_within K (case v of None \<Rightarrow> snapshots | Some x \<Rightarrow> assoc_set t x snapshots)"
    using Cons.prems(2,3) one authorized_snapshot [of ctx t a s _ s1] by (cases v) (auto intro: keys_within_set)
  then show ?case using Cons.IH [OF rest] Cons.prems(2) by simp
qed (simp add: ret_def)

lemma map_err_keys: "map_err (\<lambda>x. bind_err (g x) (\<lambda>v. Inr (f x, v))) xs = Inr ys \<Longrightarrow> map fst ys = map f xs"
  by (induction xs arbitrary: ys) (auto simp: bind_err_Inr_iff)

lemma map_err_values: "map_err (\<lambda>x. bind_err (g x) (\<lambda>v. Inr (f x, v))) xs = Inr ys \<Longrightarrow> y \<in> set ys \<Longrightarrow> \<exists>x. f x = fst y \<and> g x = Inr (snd y)"
proof (induction xs arbitrary: ys)
  case (Cons x xs)
  then obtain v zs where "ys = (f x, v) # zs" "g x = Inr v" "map_err (\<lambda>x. bind_err (g x) (\<lambda>v. Inr (f x, v))) xs = Inr zs"
    by (auto simp: bind_err_Inr_iff)
  then show ?case using Cons.IH [of zs] Cons.prems(2) by (cases "y = (f x, v)") auto
qed simp

lemma frozen_tasks_keys:
  assumes "getFrozenTasks ctx ids a s = (Inr res, s')"
  shows "set (map fst res) \<subseteq> toLowerCase ` set ids" "own_snapshots res"
proof -
  from andThen_Inr [OF assms [unfolded getFrozenTasks_def]] obtain tasks s1 where
    t: "read_err ctx (\<lambda>env. getAuthorizedTasksByIds env ids a) s = (Inr tasks, s1)" and
    more: "andThen (read_err ctx (\<lambda>_. listInputRequestsByTaskIds (map (\<lambda>r. task_id r) tasks))) (\<lambda>inputRequests.
      lift_err (map_err (\<lambda>task. let requests = (case map_of inputRequests (task_id task) of None \<Rightarrow> [] | Some rs \<Rightarrow> rs)
        in bind_err (mapTaskToDetailedTask task requests notification) (\<lambda>v. Inr (task_id task, v))) tasks)) s1 = (Inr res, s')" by blast
  from read_err_Inr [OF t] obtain env db where "getAuthorizedTasksByIds env ids a db = Inr tasks" by blast
  then have "task_id ` set tasks \<subseteq> toLowerCase ` set ids" by (auto simp: getAuthorizedTasksByIds_def bind_err_Inr_iff split: if_splits)
  moreover from andThen_Inr [OF more] obtain rs where
    run: "map_err (\<lambda>task. bind_err (mapTaskToDetailedTask task (case map_of rs (task_id task) of None \<Rightarrow> [] | Some q \<Rightarrow> q) notification)
      (\<lambda>v. Inr (task_id task, v))) tasks = Inr res" by (auto simp: lift_err_def Let_def)
  ultimately show "set (map fst res) \<subseteq> toLowerCase ` set ids" using map_err_keys [OF run] by simp
  show "own_snapshots res" unfolding own_snapshots_def using map_err_values [OF run] detailed_task by fastforce
qed

lemma load_batches_keys:
  "load_batches ctx bulk a batches snapshots s = (Inr res, s') \<Longrightarrow> (if bulk then toLowerCase ` set (concat batches) else set (concat batches)) \<subseteq> K \<Longrightarrow>
     keys_within K snapshots \<Longrightarrow> keys_within K res"
proof (induction batches arbitrary: snapshots s)
  case (Cons batch batches)
  from andThen_Inr [OF Cons.prems(1) [unfolded load_batches.simps]] obtain snaps s1 where
    one: "(if bulk then andThen (getFrozenTasks ctx batch a) (\<lambda>loaded. ret (assoc_sets loaded snapshots)) else load_singly ctx a batch snapshots) s = (Inr snaps, s1)"
    and rest: "load_batches ctx bulk a batches snaps s1 = (Inr res, s')" by blast
  have "keys_within K snaps"
  proof (cases bulk)
    case True
    with one have "andThen (getFrozenTasks ctx batch a) (\<lambda>loaded. ret (assoc_sets loaded snapshots)) s = (Inr snaps, s1)" by simp
    from andThen_Inr [OF this] obtain loaded s2 where l: "getFrozenTasks ctx batch a s = (Inr loaded, s2)" "snaps = assoc_sets loaded snapshots"
      by (auto simp: ret_def)
    have "set (map fst loaded) \<subseteq> K" using frozen_tasks_keys(1) [OF l(1)] Cons.prems(2) True by auto
    then show ?thesis using keys_within_sets [OF Cons.prems(3)] frozen_tasks_keys(2) [OF l(1)] l(2) by blast
  next
    case False
    then show ?thesis using load_singly_keys [of ctx a batch snapshots s snaps s1 K] one Cons.prems(2,3) by simp
  qed
  then show ?case using Cons.IH [OF rest] Cons.prems(2) by (auto split: if_splits)
qed (simp add: ret_def)

lemma authorizedSnapshots_loads: "loads_for ids (fst (authorizedSnapshots ctx bulk options ids a s))"
  unfolding loads_for_def
proof (intro allI impI)
  fix current
  assume "fst (authorizedSnapshots ctx bulk options ids a s) = Inr current"
  then obtain s' where run: "load_batches ctx bulk a (chunks (mo_batchSize options) ids) [] s = (Inr current, s')"
    unfolding authorizedSnapshots_def by (metis prod.collapse)
  let ?f = "if bulk then toLowerCase else id"
  have "keys_within (?f ` set ids) current"
    using set_chunks [of "mo_batchSize options" ids] by (intro load_batches_keys [OF run]) (auto simp: keys_within_def own_snapshots_def)
  then have d: "distinct (map fst current)" "set (map fst current) \<subseteq> ?f ` set ids" "own_snapshots current" by (auto simp: keys_within_def)
  have "length current = card (set (map fst current))" using distinct_card [OF d(1)] by simp
  also have "\<dots> \<le> card (?f ` set ids)" by (intro card_mono d(2)) simp
  also have "\<dots> \<le> card (set ids)" by (intro card_image_le) simp
  also have "\<dots> \<le> length ids" by (rule card_length)
  finally show "distinct (map fst current) \<and> length current \<le> length ids \<and> own_snapshots current" using d(1,3) by blast
qed

section \<open>What the manager promises\<close>

text \<open>C23. Under every interleaving of listening, loading, polling, draining, disconnecting and cancelling, the manager stays within its limits: of
  subscriptions, of subscriptions per authorization scope, of task bindings (whose counter is exact), and of queued messages and bytes per stream; the
  gauges of queued messages and of queued bytes are the sums over the streams; and a wire request identifier of a connection names at most one subscription of a scope.\<close>

theorem notification_capacity:
  assumes "notification_reachable options writable m"
  shows "card (set (nm_subscriptions m)) \<le> mo_maxSubscriptions options \<and>
    (\<forall>scope. card {i \<in> set (nm_subscriptions m). scope_of m i = scope} \<le> mo_maxSubscriptionsPerAuth options) \<and>
    nm_taskBindings m = (\<Sum>i\<in>set (nm_subscriptions m). int (length (sb_acceptedTaskIds (sub_of m i)))) \<and> nm_taskBindings m \<le> int (mo_maxTaskBindings options) \<and>
    nm_queueMessages m = (\<Sum>i\<in>set (nm_subscriptions m). int (length (tw_queue (sb_writer (sub_of m i))))) \<and>
    nm_queueBytes m = (\<Sum>i\<in>set (nm_subscriptions m). int (sum_list (map snd (tw_queue (sb_writer (sub_of m i)))))) \<and>
    (\<forall>i \<in> set (nm_subscriptions m). length (tw_queue (sb_writer (sub_of m i))) \<le> wo_maxMessages (mo_writer options) \<and>
       sum_list (map snd (tw_queue (sb_writer (sub_of m i)))) \<le> wo_maxBytes (mo_writer options)) \<and>
    (\<forall>i \<in> set (nm_subscriptions m). \<forall>j \<in> set (nm_subscriptions m). key_of m i = key_of m j \<longrightarrow> scope_of m i = scope_of m j \<longrightarrow> i = j)"
proof -
  note ok = notification_reachable_ok [OF assms]
  have w: "queue_ok (mo_writer options) (sb_writer (sub_of m i))" if "i \<in> set (nm_subscriptions m)" for i
  proof -
    have "nm_heap m i \<noteq> None" using ok that by (auto simp: manager_ok_def objects_ok_def)
    then show ?thesis using object_ok [OF ok heap_sub] by (simp add: sub_ok_def writer_ok_def)
  qed
  from w have "(\<Sum>i\<in>set (nm_subscriptions m). tw_reportedMessages (sb_writer (sub_of m i))) =
      (\<Sum>i\<in>set (nm_subscriptions m). int (length (tw_queue (sb_writer (sub_of m i)))))" by (intro sum.cong) (auto simp: queue_ok_def)
  moreover have "(\<Sum>i\<in>set (nm_subscriptions m). tw_reportedBytes (sb_writer (sub_of m i))) =
      (\<Sum>i\<in>set (nm_subscriptions m). int (sum_list (map snd (tw_queue (sb_writer (sub_of m i))))))"
    using w by (intro sum.cong) (auto simp: queue_ok_def)
  ultimately show ?thesis using ok w by (auto simp: manager_ok_def capacity_ok_def gauges_ok_def index_ok_def queue_ok_def)
qed

text \<open>A frame determines what its snapshot says of the task, its revision and its end.\<close>

abbreviation note_frame :: "json \<Rightarrow> json_object \<Rightarrow> string" where
  "note_frame wid s \<equiv> frame_of (taskNotification wid s)"

lemma frame_inject: "frame_of a = frame_of b \<Longrightarrow> a = b"
  using stringify_inject [of "JObj a" "JObj b"] by (simp add: frame_of_def)

definition notified_meta :: "json \<Rightarrow> json_object \<Rightarrow> json_object" where
  "notified_meta wid s = obj_set ''io.modelcontextprotocol/subscriptionId'' wid (case obj_get s ''_meta'' of Some (JObj m) \<Rightarrow> m | _ \<Rightarrow> [])"

lemma notified_execution:
  "obj_get (notified_meta wid s) ''io.sdar/taskExecution'' =
     (case as_object (obj_get s ''_meta'') of None \<Rightarrow> None | Some m \<Rightarrow> obj_get m ''io.sdar/taskExecution'')"
proof -
  have "(''io.modelcontextprotocol/subscriptionId'' = ''io.sdar/taskExecution'') = False" by simp
  then have get: "obj_get (notified_meta wid s) ''io.sdar/taskExecution'' =
      obj_get (case obj_get s ''_meta'' of Some (JObj m) \<Rightarrow> m | _ \<Rightarrow> []) ''io.sdar/taskExecution''"
    unfolding notified_meta_def obj_get_set by (simp only: if_False)
  show ?thesis
  proof (cases "as_object (obj_get s ''_meta'')")
    case None
    then have "(case obj_get s ''_meta'' of Some (JObj m) \<Rightarrow> m | _ \<Rightarrow> []) = []" by (auto simp: as_object_def split: option.splits json.splits)
    then show ?thesis unfolding get None by (simp add: obj_get_def)
  next
    case (Some m)
    then have "(case obj_get s ''_meta'' of Some (JObj m) \<Rightarrow> m | _ \<Rightarrow> []) = m" by (auto simp: as_object_def split: option.splits json.splits)
    then show ?thesis unfolding get Some by simp
  qed
qed

lemma revision_of_meta:
  "runtimeRevision s = (case as_object (obj_get (notified_meta wid s) ''io.sdar/taskExecution'') of
     None \<Rightarrow> Inl (Error ''TASK_NOTIFICATION_REVISION_INVALID'')
   | Some e \<Rightarrow> (case obj_get e ''runtimeRevision'' of
       Some (JStr r) \<Rightarrow> if revision_format r then Inr r else Inl (Error ''TASK_NOTIFICATION_REVISION_INVALID'')
     | _ \<Rightarrow> Inl (Error ''TASK_NOTIFICATION_REVISION_INVALID'')))"
proof -
  have none: "as_object None = None" by (simp add: as_object_def)
  show ?thesis unfolding runtimeRevision_def notified_execution by (cases "as_object (obj_get s ''_meta'')") (simp_all add: none)
qed

lemma note_inject:
  assumes "note_frame wid s = note_frame wid s'"
  shows "snapshot_task s = snapshot_task s'" "later (snapshot_state s) x = later (snapshot_state s') x" "later x (snapshot_state s) = later x (snapshot_state s')"
proof -
  have eq: "obj_set ''_meta'' (JObj (notified_meta wid s)) s = obj_set ''_meta'' (JObj (notified_meta wid s')) s'"
    using frame_inject [OF assms] by (simp add: taskNotification_def Let_def notified_meta_def)
  have f: "(if k = ''_meta'' then Some (JObj (notified_meta wid s)) else obj_get s k) =
      (if k = ''_meta'' then Some (JObj (notified_meta wid s')) else obj_get s' k)" for k
    using arg_cong [OF eq, of "\<lambda>kvs. obj_get kvs k"] by (simp add: obj_get_set eq_commute)
  have fields: "obj_get s ''taskId'' = obj_get s' ''taskId''" "obj_get s ''status'' = obj_get s' ''status''" "notified_meta wid s = notified_meta wid s'"
    using f [of "''taskId''"] f [of "''status''"] f [of "''_meta''"] by simp_all
  have "runtimeRevision s = runtimeRevision s'" by (simp only: revision_of_meta [of _ wid] fields(3))
  then have st: "ns_revision (snapshot_state s) = ns_revision (snapshot_state s')" "ns_terminal (snapshot_state s) = ns_terminal (snapshot_state s')"
    using fields(2) by (auto simp: snapshot_state_def notificationState_def split: sum.splits)
  show "snapshot_task s = snapshot_task s'" using fields(1) by (simp add: snapshot_task_def)
  show "later (snapshot_state s) x = later (snapshot_state s') x" "later x (snapshot_state s) = later x (snapshot_state s')" using st by (simp_all add: later_def)
qed

lemma ack_no_note: "frame_of (acknowledged wid ids) \<noteq> note_frame wid' s"
  using frame_inject [of "acknowledged wid ids" "taskNotification wid' s"] by (auto simp: acknowledged_def taskNotification_def Let_def)

lemma sorted_wrt_among: "sorted_wrt P (map f (filter Q xs)) = sorted_wrt (\<lambda>x y. Q x \<longrightarrow> Q y \<longrightarrow> P (f x) (f y)) xs"
  by (induction xs) auto

lemma ordered_at:
  assumes "in_revision_order ss" "own_snapshots ss" "i < j" "j < length ss" "snapshot_task (snd (ss ! i)) = Some t" "snapshot_task (snd (ss ! j)) = Some t"
  shows "later (snapshot_state (snd (ss ! i))) (snapshot_state (snd (ss ! j)))"
proof -
  have "ss ! i \<in> set ss" "ss ! j \<in> set ss" using assms(3,4) by simp_all
  then have own: "fst (ss ! i) = t" "fst (ss ! j) = t" using assms(2,5,6) unfolding own_snapshots_def by (auto simp: case_prod_beta)
  have "sorted_wrt later (states_of t ss)" using assms(1) by (simp add: in_revision_order_def)
  then show ?thesis unfolding states_of_def sorted_wrt_among using sorted_wrt_nth_less [OF _ assms(3,4)] own by blast
qed

lemma notes_in_order:
  assumes "prefix sent (begun @ notification_frames wid ss)" "in_revision_order ss" "own_snapshots ss"
    and "\<And>f s. f \<in> set begun \<Longrightarrow> f \<noteq> note_frame wid s"
    and "i < j" "j < length sent" "sent ! i = note_frame wid s" "sent ! j = note_frame wid s'" "snapshot_task s = Some t" "snapshot_task s' = Some t"
  shows "later (snapshot_state s) (snapshot_state s')"
proof -
  let ?all = "begun @ notification_frames wid ss"
  have at: "length begun \<le> k \<and> k - length begun < length ss \<and> sent ! k = note_frame wid (snd (ss ! (k - length begun)))"
    if "k < length sent" "sent ! k = note_frame wid u" for k u
  proof -
    obtain more where more: "?all = sent @ more" using assms(1) by (auto simp: prefix_def)
    have k: "k < length ?all" "sent ! k = ?all ! k" using that(1) unfolding more by (simp_all add: nth_append)
    have "\<not> k < length begun" using assms(4) [of "begun ! k" u] that(2) k(2) by (auto simp: nth_append)
    then show ?thesis using k by (auto simp: nth_append notification_frames_def)
  qed
  note p = at [OF less_trans [OF assms(5,6)] assms(7)] at [OF assms(6,8)]
  let ?s = "snd (ss ! (i - length begun))" and ?s' = "snd (ss ! (j - length begun))"
  have eq: "note_frame wid s = note_frame wid ?s" "note_frame wid s' = note_frame wid ?s'" using p assms(7,8) by simp_all
  have "later (snapshot_state ?s) (snapshot_state ?s')"
    using p assms(5,9,10) note_inject(1) [OF eq(1)] note_inject(1) [OF eq(2)] by (intro ordered_at [OF assms(2,3), where t = t]) auto
  then show ?thesis using note_inject(2) [OF eq(1)] note_inject(3) [OF eq(2)] by simp
qed

text \<open>C22. What a client receives on a notification stream is in order: of any two notifications on it whose snapshots are of the same task, the
  later one has a strictly higher revision, and nothing that is not terminal follows a terminal snapshot.  Once the stream is open its first frame is the
  acknowledgement of the accepted tasks, and every other frame is the notification of a snapshot of some task.\<close>

theorem notifications_in_revision_order:
  assumes "notification_reachable options writable m" "nm_heap m i = Some sb"
  defines "sent \<equiv> tw_sent (sb_writer sb)" and "wid \<equiv> si_wireRequestId (sb_identity sb)"
  shows "(\<forall>a b s s' t. a < b \<and> b < length sent \<and> sent ! a = frame_of (taskNotification wid s) \<and> sent ! b = frame_of (taskNotification wid s') \<and>
      snapshot_task s = Some t \<and> snapshot_task s' = Some t \<longrightarrow>
        read_nat (ns_revision (snapshot_state s)) < read_nat (ns_revision (snapshot_state s')) \<and>
        (ns_terminal (snapshot_state s) \<longrightarrow> ns_terminal (snapshot_state s'))) \<and>
    (sb_phase sb = streaming \<longrightarrow> (\<forall>f \<in> set (take 1 sent). f = ack_frame sb) \<and>
      (\<forall>f \<in> set (drop 1 sent). \<exists>s t. f = frame_of (taskNotification wid s) \<and> snapshot_task s = Some t))"
proof -
  have "sub_ok (mo_writer options) sb" by (rule object_ok [OF notification_reachable_ok [OF assms(1)] assms(2)])
  then obtain begun ss where b: "wrote sb begun ss" "begins sb begun" by (auto simp: sub_ok_def)
  have "prefix sent (writer_log (sb_writer sb))" by (simp add: sent_def writer_log_def)
  then have all: "prefix sent (begun @ notification_frames wid ss)"
    using b(1) prefix_order.trans unfolding wrote_def Let_def wid_def by blast
  have order: "in_revision_order ss" "own_snapshots ss" using b(1) by (simp_all add: wrote_def)
  have begun: "f \<noteq> note_frame wid s" if "f \<in> set begun" for f s using that b(2) ack_no_note [symmetric] by (auto simp: begins_def ack_frame_def)
  have "(\<forall>f \<in> set (take 1 sent). f = ack_frame sb) \<and> (\<forall>f \<in> set (drop 1 sent). \<exists>s t. f = note_frame wid s \<and> snapshot_task s = Some t)"
    if "sb_phase sb = streaming"
  proof (cases sent)
    case (Cons x xs)
    have "begun = [ack_frame sb]" using b(2) that by (simp add: begins_def)
    then have "x = ack_frame sb" "set xs \<subseteq> set (notification_frames wid ss)" using all Cons by (auto simp: prefix_def)
    then show ?thesis using Cons order(2) unfolding own_snapshots_def notification_frames_def by fastforce
  qed simp
  then show ?thesis using notes_in_order [OF all order begun] unfolding later_def by blast
qed

end
