(* ===== verification/Notification_Renewal.thy ===== *)
theory Notification_Renewal
  imports Notification_Theorems
begin

text \<open>
  The notification streams beside the TTL cleaner: a renewal of a handle changes what a task shows on the wire without a new runtime revision, which
  the streams take for a conflict.
\<close>

section \<open>Snapshots of a renewed task\<close>

lemma detailed_fields:
  assumes "mapTaskToDetailedTask r qs notification = Inr s"
  shows "obj_get s ''ttlMs'' = Some (json_int_opt (wireTtlMs r))" "runtimeRevision s = Inr (show_nat (runtime_revision r))"
proof -
  have base: "obj_get (detailed_base r notification @ xs) ''ttlMs'' = Some (json_int_opt (wireTtlMs r))"
    "obj_get (detailed_base r notification @ xs) ''_meta'' = Some (JObj [(''io.sdar/taskExecution'', execution_profile r)])" for xs
    by (auto simp: detailed_base_def obj_get_def optional_field_def split: option.splits)
  have "\<exists>xs. s = detailed_base r notification @ xs" "revision_format (show_nat (runtime_revision r))"
    using assms by (cases "mcp_status r"; auto simp: mapTaskToDetailedTask_def Let_def split: if_splits option.splits)+
  moreover have "obj_get e ''runtimeRevision'' = Some (JStr (show_nat (runtime_revision r)))" if "execution_profile r = JObj e" for e
    using that by (auto simp: execution_profile_def obj_get_def)
  moreover obtain e where "execution_profile r = JObj e" by (simp add: execution_profile_def)
  ultimately show "obj_get s ''ttlMs'' = Some (json_int_opt (wireTtlMs r))" "runtimeRevision s = Inr (show_nat (runtime_revision r))"
    using base by (auto simp: runtimeRevision_def as_object_def obj_get_def)
qed

section \<open>A poll that meets a renewed task\<close>

text \<open>The subscription has seen a state of the task with the same revision and another signature.\<close>

definition conflicts :: "string \<Rightarrow> json_object \<Rightarrow> subscription \<Rightarrow> bool" where
  "conflicts t s sb \<longleftrightarrow>
     (\<exists>p r. sb_revisions sb t = Some p \<and> runtimeRevision s = Inr r \<and> ns_revision p = r \<and> ns_signature p \<noteq> json_stringify (JObj s))"

lemma deliver_conflict: "conflicts t s sb \<Longrightarrow> deliverChangedSnapshot options writable t s sb = Inl (Error ''TASK_NOTIFICATION_REVISION_CONFLICT'')"
  by (auto simp: conflicts_def deliverChangedSnapshot_def notificationState_def Let_def)

lemma deliver_other: "deliverChangedSnapshot options writable u s' sb = Inr sb' \<Longrightarrow> u \<noteq> t \<Longrightarrow> sb_revisions sb' t = sb_revisions sb t"
  by (auto simp: deliverChangedSnapshot_def bind_err_Inr_iff Let_def split: option.splits if_splits)

lemma deliver_tasks_conflict:
  "t \<in> set ts \<Longrightarrow> distinct ts \<Longrightarrow> map_of snapshots t = Some s \<Longrightarrow> conflicts t s sb \<Longrightarrow> \<not> fst (deliver_tasks options writable snapshots ts sb)"
proof (induction ts arbitrary: sb)
  case (Cons u ts)
  show ?case
  proof (cases "u = t")
    case True
    then show ?thesis using Cons.prems(3) deliver_conflict [OF Cons.prems(4)] by simp
  next
    case False
    then have t: "t \<in> set ts" "distinct ts" using Cons.prems by auto
    have "conflicts t s sb'" if "deliverChangedSnapshot options writable u s' sb = Inr sb'" for s' sb'
      using deliver_other [OF that False] Cons.prems(4) by (simp add: conflicts_def)
    then show ?thesis using Cons.IH [OF t Cons.prems(3)] Cons.prems(4) by (auto split: option.splits sum.splits)
  qed
qed simp

lemma poll_group_conflict:
  "i \<in> set is \<Longrightarrow> distinct is \<Longrightarrow> t \<in> set (sb_acceptedTaskIds (sub_of m i)) \<Longrightarrow> distinct (sb_acceptedTaskIds (sub_of m i)) \<Longrightarrow>
     map_of snapshots t = Some s \<Longrightarrow> conflicts t s (sub_of m i) \<Longrightarrow> \<not> fst (poll_group options writable snapshots is m)"
proof (induction "is" arbitrary: m)
  case (Cons j "is")
  obtain b sb where run: "deliver_tasks (mo_writer options) (writable j) snapshots (sb_acceptedTaskIds (sub_of m j)) (sub_of m j) = (b, sb)" by fastforce
  show ?case
  proof (cases "j = i")
    case True
    then have "\<not> b" using deliver_tasks_conflict [OF Cons.prems(3-6), of "mo_writer options" "writable i"] run by simp
    then show ?thesis using run by simp
  next
    case False
    then show ?thesis using Cons.IH [of "put_sub j sb m"] Cons.prems run by (cases b) simp_all
  qed
qed simp

lemma foldl_close: "i \<in> set is \<or> tw_closed (sb_writer (sub_of m i)) \<Longrightarrow> tw_closed (sb_writer (sub_of (foldl (\<lambda>m i. with_writer i close_writer m) m is) i))"
proof (induction "is" arbitrary: m)
  case (Cons j "is")
  have "tw_closed (close_writer w)" for w by (simp add: close_writer_def dispose_def queue_delta_def)
  then show ?case using Cons by (auto simp: with_writer_def)
qed simp

lemma poll_group_subscriptions: "nm_subscriptions (snd (poll_group options writable snapshots is m)) = nm_subscriptions m"
  by (induction "is" arbitrary: m) (auto split: prod.splits)

text \<open>C24. A renewal of a task's handle by the TTL cleaner ends every notification stream of the replica: the renewal moves the time the task shows as its TTL but
  not its revision, so that the next poll of a stream that has seen the task throws a revision conflict, upon which all writers are closed, those of other
  callers and tasks included.\<close>

theorem renewal_ends_all_streams:
  assumes "mapTaskToDetailedTask r qs notification = Inr s" "mapTaskToDetailedTask (renew_handle at r) qs notification = Inr s'"
    and "handle_expires_at (renew_handle at r) \<noteq> handle_expires_at r"
    and "sb_revisions (sub_of m i) t = Some (notificationState s (show_nat (runtime_revision r)))"
    and "nm_poll m = Some (members # groups)" "i \<in> set members" "distinct members"
    and "t \<in> set (sb_acceptedTaskIds (sub_of m i))" "distinct (sb_acceptedTaskIds (sub_of m i))" "map_of snapshots t = Some s'"
    and "j \<in> set (nm_subscriptions m)"
  shows "tw_closed (sb_writer (sub_of (poll_next options writable (Inr snapshots) m) j))"
proof -
  have "runtime_revision (renew_handle at r) = runtime_revision r" by (simp add: renew_handle_def)
  then have rev: "runtimeRevision s' = Inr (show_nat (runtime_revision r))" using detailed_fields(2) [OF assms(2)] by simp
  have "created_at (renew_handle at r) = created_at r" by (simp add: renew_handle_def)
  then have "wireTtlMs (renew_handle at r) \<noteq> wireTtlMs r" using assms(3)
    by (cases "handle_expires_at r"; cases "handle_expires_at (renew_handle at r)") (auto simp: wireTtlMs_def)
  then have "s \<noteq> s'" using detailed_fields(1) [OF assms(1)] detailed_fields(1) [OF assms(2)] by (auto simp: json_int_opt_def split: option.splits)
  then have "json_stringify (JObj s) \<noteq> json_stringify (JObj s')" using stringify_inject by blast
  then have "conflicts t s' (sub_of m i)" using assms(4) rev by (simp add: conflicts_def notificationState_def)
  then have "\<not> fst (poll_group options writable snapshots members m)" using poll_group_conflict assms by blast
  then obtain m' where run: "poll_group options writable snapshots members m = (False, m')" by (metis prod.collapse)
  then have "nm_subscriptions m' = nm_subscriptions m" using poll_group_subscriptions [of options writable snapshots members m] by simp
  then show ?thesis using assms(5,11) run by (simp add: poll_next_def close_all_def foldl_close)
qed

end
