(* ===== verification/Notification_Example.thy ===== *)
theory Notification_Example
  imports Notification_Renewal Protocol_Example
begin

text \<open>A client that listens to a task, the snapshots it receives, and a poll after the task's handle was renewed.\<close>

definition nt_request :: FrozenJsonRpcRequest where
  "nt_request = px_request ''subscriptions/listen'' [(''notifications'', JObj [(''taskIds'', JArr [JStr ''t1''])])]"

definition nt_options :: manager_options where
  "nt_options = \<lparr>mo_maxSubscriptions = 2, mo_maxSubscriptionsPerAuth = 1, mo_maxTaskBindings = 2, mo_writer = \<lparr>wo_maxMessages = 2, wo_maxBytes = 400\<rparr>, mo_batchSize = 2\<rparr>"

definition nt_identity :: SubscriptionIdentity where
  "nt_identity = subscriptionIdentity ''u'' (JNum 7) ''c'' ex_auth"

definition nt_loading :: subscription where
  "nt_loading = \<lparr>sb_identity = nt_identity, sb_authorization = ex_auth, sb_writer = new_writer, sb_revisions = (\<lambda>_. None), sb_acceptedTaskIds = [''t1''],
     sb_phase = loading\<rparr>"

definition nt_begun :: manager where
  "nt_begun = new_manager\<lparr>nm_heap := [''u'' \<mapsto> nt_loading], nm_subscriptions := [''u''], nm_taskBindings := 1, nm_index := [identity_key nt_identity \<mapsto> [''u'']]\<rparr>"

lemma nt_begin: "listen_begin nt_options ''u'' nt_request ex_auth ''c'' new_manager = Inr nt_begun"
proof -
  have ids: "parseTaskIds (fj_params nt_request) = Inr [''t1'']"
    by (simp add: parseTaskIds_def nt_request_def px_request_def obj_get_def)
  have "fj_id nt_request = JNum 7" by (simp add: nt_request_def px_request_def)
  then show ?thesis
    by (simp add: listen_begin_def ids Let_def nt_identity_def [symmetric] assertCapacity_def new_manager_def nt_options_def nt_begun_def nt_loading_def)
qed

lemma nt_reachable: "notification_reachable nt_options (\<lambda>_ _. True) nt_begun"
  using notification_step.begins_listening [OF _ nt_begin] by (auto simp: new_manager_def)

definition nt_snapshot :: "nat \<Rightarrow> json_object" where
  "nt_snapshot n = [(''taskId'', JStr ''t1''), (''status'', JStr ''working''),
     (''_meta'', JObj [(''io.sdar/taskExecution'', JObj [(''runtimeRevision'', JStr (show_nat n))])])]"

definition nt_streaming :: manager where
  "nt_streaming = listen_loaded nt_options (\<lambda>_. True) ''u'' (Inr [(''t1'', nt_snapshot 1)]) nt_begun"

lemma nt_streaming_reachable: "notification_reachable nt_options (\<lambda>_ _. True) nt_streaming"
proof -
  have "notification_step nt_options (\<lambda>_ _. True) nt_begun nt_streaming"
    unfolding nt_streaming_def
    by (rule notification_step.loads [where writable = "\<lambda>_ _. True" and i = "''u''"])
      (auto simp: nt_begun_def sub_of_def nt_loading_def loads_for_def own_snapshots_def snapshot_task_def nt_snapshot_def obj_get_def)
  then show ?thesis using nt_reachable by (rule rtranclp.rtrancl_into_rtrancl [rotated])
qed

theorem notification_capacity_witness: "nm_taskBindings nt_begun \<le> 2 \<and> card (set (nm_subscriptions nt_begun)) \<le> 2 \<and> nm_queueBytes nt_begun = 0"
proof -
  have "nm_subscriptions nt_begun = [''u'']" "tw_queue (sb_writer (sub_of nt_begun ''u'')) = []"
    by (simp_all add: nt_begun_def sub_of_def nt_loading_def new_writer_def)
  then show ?thesis using notification_capacity [OF nt_reachable] by (simp add: nt_options_def)
qed

lemma nt_open: "sb_phase (sub_of nt_streaming ''u'') = streaming" "nm_heap nt_streaming ''u'' \<noteq> None"
  by code_simp+

text \<open>The stream after a poll that found the next revision: the acknowledgement and two notifications of the task.\<close>

definition nt_polled :: manager where
  "nt_polled = poll_next nt_options (\<lambda>_ _. True) (Inr [(''t1'', nt_snapshot 2)]) (poll_tick nt_streaming)"

lemma nt_polled_reachable: "notification_reachable nt_options (\<lambda>_ _. True) nt_polled"
proof -
  have "loads_for [''t1''] (Inr [(''t1'', nt_snapshot 2)])"
    by (simp add: loads_for_def own_snapshots_def snapshot_task_def nt_snapshot_def obj_get_def)
  from notification_step.ticks [of nt_options "\<lambda>_ _. True" nt_streaming] notification_step.polls [OF this, of nt_options "\<lambda>_ _. True" "poll_tick nt_streaming"]
  show ?thesis unfolding nt_polled_def using nt_streaming_reachable by (meson rtranclp.rtrancl_into_rtrancl)
qed

lemma nt_sent: "length (tw_sent (sb_writer (sub_of nt_polled ''u''))) = 3" "nm_heap nt_polled ''u'' \<noteq> None"
  "tw_sent (sb_writer (sub_of nt_polled ''u'')) ! 1 = frame_of (taskNotification (JNum 7) (nt_snapshot 1))"
  "tw_sent (sb_writer (sub_of nt_polled ''u'')) ! 2 = frame_of (taskNotification (JNum 7) (nt_snapshot 2))"
  "si_wireRequestId (sb_identity (sub_of nt_polled ''u'')) = JNum 7"
  by code_simp+

theorem notifications_in_revision_order_witness:
  "tw_sent (sb_writer (sub_of nt_polled ''u'')) ! 1 = frame_of (taskNotification (JNum 7) (nt_snapshot 1)) \<and>
   tw_sent (sb_writer (sub_of nt_polled ''u'')) ! 2 = frame_of (taskNotification (JNum 7) (nt_snapshot 2)) \<and>
   read_nat (ns_revision (snapshot_state (nt_snapshot 1))) < read_nat (ns_revision (snapshot_state (nt_snapshot 2)))"
proof -
  have "nm_heap nt_polled ''u'' = Some (sub_of nt_polled ''u'')" using nt_sent(2) by (rule heap_sub)
  note order = notifications_in_revision_order [OF nt_polled_reachable this, unfolded nt_sent(5)]
  have "snapshot_task (nt_snapshot n) = Some ''t1''" for n by (simp add: snapshot_task_def nt_snapshot_def obj_get_def)
  moreover have "(1::nat) < 2" "2 < length (tw_sent (sb_writer (sub_of nt_polled ''u'')))" using nt_sent(1) by simp_all
  ultimately show ?thesis using order nt_sent(3,4) by blast
qed

text \<open>A poll of that stream after the cleaner has renewed the handle of the task.\<close>

definition nt_row :: task_row where
  "nt_row = ex_row\<lparr>handle_expires_at := Some 5000, spec := (spec ex_row)\<lparr>in_ttlMs := Some 4000\<rparr>\<rparr>"

lemma nt_shown: "\<exists>s. mapTaskToDetailedTask nt_row [] notification = Inr s" "\<exists>s. mapTaskToDetailedTask (renew_handle 6000 nt_row) [] notification = Inr s"
proof -
  have "wire_limits nt_row" "row_ok nt_row" "0 < runtime_revision nt_row" "mcp_status nt_row \<noteq> input_required"
    "wire_limits (renew_handle 6000 nt_row)" "row_ok (renew_handle 6000 nt_row)" "0 < runtime_revision (renew_handle 6000 nt_row)"
    "mcp_status (renew_handle 6000 nt_row) \<noteq> input_required"
    by (simp_all add: nt_row_def row_eval wire_limits_def row_ok_def state_status_ok_def renew_handle_def)
  then show "\<exists>s. mapTaskToDetailedTask nt_row [] notification = Inr s" "\<exists>s. mapTaskToDetailedTask (renew_handle 6000 nt_row) [] notification = Inr s"
    using mapTask_total by blast+
qed

theorem renewal_ends_all_streams_witness:
  "\<exists>sb s'. tw_closed (sb_writer (sub_of (poll_next nt_options (\<lambda>_ _. True) (Inr [(''t1'', s')])
     (nt_begun\<lparr>nm_heap := [''u'' \<mapsto> sb], nm_poll := Some [[''u'']]\<rparr>)) ''u''))"
proof -
  obtain s s' where s: "mapTaskToDetailedTask nt_row [] notification = Inr s" "mapTaskToDetailedTask (renew_handle 6000 nt_row) [] notification = Inr s'"
    using nt_shown by blast
  let ?sb = "nt_loading\<lparr>sb_revisions := [''t1'' \<mapsto> notificationState s (show_nat (runtime_revision nt_row))], sb_phase := streaming\<rparr>"
  let ?m = "nt_begun\<lparr>nm_heap := [''u'' \<mapsto> ?sb], nm_poll := Some [[''u'']]\<rparr>"
  have "tw_closed (sb_writer (sub_of (poll_next nt_options (\<lambda>_ _. True) (Inr [(''t1'', s')]) ?m) ''u''))"
    by (rule renewal_ends_all_streams [OF s, where i = "''u''" and t = "''t1''" and members = "[''u'']" and groups = "[]"])
      (simp_all add: nt_row_def renew_handle_def sub_of_def nt_begun_def nt_loading_def)
  then show ?thesis by blast
qed

end
