(* ===== verification/Event_Feed.thy ===== *)
theory Event_Feed
  imports Event_Streams Notifications
begin

text \<open>
  The business event feed (\<^verbatim>\<open>packages/mcp-protocol/src/business-events.ts\<close>): discovery, the relation list, and the event stream with its
  acknowledgement, replay, live polling and continuity notice.

  A stream runs in a context: the store and the environment as its reads find them (\<open>fc_view\<close>, \<open>fc_env\<close>: the \<open>n\<close>th await sees the \<open>n\<close>th, whatever the other
  replicas have done meanwhile), the turn at which the listeners of the response hear that it is closed, if they do, what the connection takes and when it
  drains.  Sequences are integers, as in the event
  store; metrics and traces are left out (\<^verbatim>\<open>traceBusinessEvent\<close> returns what its operation returns).
\<close>

section \<open>Requests and errors\<close>

definition BUSINESS_EVENTS_EXTENSION :: string where
  "BUSINESS_EVENTS_EXTENSION = ''io.sdar/businessEvents''"

definition requireBusinessEventsCapability :: "FrozenJsonRpcRequest \<Rightarrow> thrown + unit" where
  "requireBusinessEventsCapability request =
     (let refused = missing_capability (JObj [(''profileVersion'', JStr ''1.0'')]) BUSINESS_EVENTS_EXTENSION in
      case as_object (obj_get (fm_clientCapabilities (fj_meta request)) ''extensions'') of
        None \<Rightarrow> refused
      | Some extensions \<Rightarrow> (case as_object (obj_get extensions BUSINESS_EVENTS_EXTENSION) of
          None \<Rightarrow> refused
        | Some capability \<Rightarrow> if obj_get capability ''profileVersion'' \<noteq> Some (JStr ''1.0'') then refused else Inr ()))"

definition businessEventError :: "string \<Rightarrow> nat \<Rightarrow> json_object \<Rightarrow> FrozenProtocolError" where
  "businessEventError reasonCode status extra = frozen_error InvalidParams ''Business Event request failed'' status
     (Some ([(''reasonCode'', JStr reasonCode), (''retryable'', JBool False),
       (''recoveryAction'', JStr ''Reconnect using the current stream discovery metadata.'')] @ extra))"

definition relationError :: "string \<Rightarrow> nat \<Rightarrow> FrozenProtocolError" where
  "relationError reasonCode status = frozen_error InvalidParams ''Business Event relation failed'' status
     (Some [(''reasonCode'', JStr reasonCode), (''retryable'', JBool False),
       (''recoveryAction'', JStr ''Create a fresh authorized relation projection.'')])"

definition mapRelationError :: "err \<Rightarrow> FrozenProtocolError" where
  "mapRelationError e =
     (case map_of [(''BUSINESS_EVENT_RELATION_CURSOR_EXPIRED'', 410), (''BUSINESS_EVENT_AUTHORIZATION_MISMATCH'', 403),
        (''BUSINESS_EVENT_STREAM_RESET'', 409), (''BUSINESS_EVENT_RELATION_PROJECTION_STALE'', 409),
        (''BUSINESS_EVENT_RETENTION_AUTHORITY_INVALID'', 409), (''BUSINESS_EVENT_RELATION_CURSOR_INVALID'', 400)] (err_message e) of
        Some status \<Rightarrow> relationError (err_message e) status
      | None \<Rightarrow> relationError ''BUSINESS_EVENT_NOT_FOUND'' 404)"

datatype listen_selection = from_cursor string int | from_latest | from_earliest

text \<open>\<^verbatim>\<open>/^(0|[1-9][0-9]{0,18})$/\<close>.\<close>

definition sequence_text :: "string \<Rightarrow> bool" where
  "sequence_text s = (s = ''0'' \<or> (positive_decimal s \<and> length s \<le> 19))"

definition parse_event_cursor :: "json_object \<Rightarrow> thrown + listen_selection" where
  "parse_event_cursor v =
     (if length v \<noteq> 2 then invalidParams
      else case (obj_get v ''streamId'', obj_get v ''afterSequence'') of
        (Some (JStr streamId), Some (JStr afterSequence)) \<Rightarrow>
          if uuid_format streamId \<and> sequence_text afterSequence then Inr (from_cursor streamId (int (read_nat afterSequence))) else invalidParams
      | _ \<Rightarrow> invalidParams)"

definition parseListenSelection :: "json_object \<Rightarrow> thrown + listen_selection" where
  "parseListenSelection params =
     (case (obj_get params ''cursor'', obj_get params ''startPosition'') of
        (Some cursor, None) \<Rightarrow> bind_err (frozen_object (Some cursor)) parse_event_cursor
      | (None, Some position) \<Rightarrow>
          if position = JStr ''latest'' then Inr from_latest
          else if position = JStr ''earliest_available'' then Inr from_earliest
          else invalidParams
      | _ \<Rightarrow> invalidParams)"

definition last_sequence :: "BusinessEventGeneration \<Rightarrow> int" where
  "last_sequence g = (if bg_status g = G_replayable_closed then bg_lastReplayableSequence g else bg_currentSequence g)"

definition acceptedAfterSequence :: "listen_selection \<Rightarrow> BusinessEventGeneration \<Rightarrow> int" where
  "acceptedAfterSequence selection g =
     (case selection of
        from_cursor _ afterSequence \<Rightarrow> afterSequence
      | from_latest \<Rightarrow> last_sequence g
      | from_earliest \<Rightarrow> bg_earliestAvailableSequence g - 1)"

definition validateCursor :: "int \<Rightarrow> BusinessEventGeneration \<Rightarrow> string \<Rightarrow> thrown + unit" where
  "validateCursor after g currentStreamId =
     (if after > last_sequence g then Inl (Frozen (businessEventError ''BUSINESS_EVENT_CURSOR_AHEAD'' 400 [(''currentStreamId'', JStr currentStreamId)]))
      else if after + 1 < bg_earliestAvailableSequence g
      then Inl (Frozen (businessEventError ''BUSINESS_EVENT_CURSOR_EXPIRED'' 409 [(''currentStreamId'', JStr currentStreamId)]))
      else Inr ())"

section \<open>Relations\<close>

record relation_request =
  rq_streamId :: string
  rq_eventId :: string
  rq_projectionToken :: "string option"
  rq_afterTaskId :: "string option"
  rq_limit :: int

definition parse_page_token :: "json option \<Rightarrow> json option \<Rightarrow> thrown + (string \<times> string) option" where
  "parse_page_token token after =
     (case (token, after) of
        (None, None) \<Rightarrow> Inr None
      | (Some (JStr t), Some (JStr a)) \<Rightarrow>
          if list_all base64url_char t \<and> 22 \<le> length t \<and> length t \<le> 256 \<and> uuid_format a then Inr (Some (t, a)) else invalidParams
      | _ \<Rightarrow> invalidParams)"

definition parseRelationRequest :: "json_object \<Rightarrow> thrown + relation_request" where
  "parseRelationRequest params =
     (case (obj_get params ''streamId'', obj_get params ''eventId'', obj_get params ''limit'') of
        (Some (JStr streamId), Some (JStr eventId), Some (JNum limit)) \<Rightarrow>
          if uuid_format streamId \<and> list_all base64url_char eventId \<and> length eventId = 43 \<and> 1 \<le> limit \<and> limit \<le> 256 then
            bind_err (parse_page_token (obj_get params ''projectionToken'') (obj_get params ''afterTaskId'')) (\<lambda>p.
            Inr \<lparr>rq_streamId = streamId, rq_eventId = eventId, rq_projectionToken = map_option fst p, rq_afterTaskId = map_option snd p, rq_limit = limit\<rparr>)
          else invalidParams
      | _ \<Rightarrow> invalidParams)"

definition authorization_identity :: "AuthorizationContext \<Rightarrow> BusinessEventAuthorizationSnapshot" where
  "authorization_identity a =
     \<lparr>bz_authorizationScopeHash = au_hash a, bz_executionMode = au_executionMode a, bz_simulationId = au_simulationId a\<rparr>"

text \<open>The calls of the list: \<open>others\<close> is what the other replicas commit before each, \<open>token\<close> the token that is drawn.\<close>

record relation_ctx =
  rx_providerId :: string
  rx_projectionTtlMs :: int
  rx_env :: "nat \<Rightarrow> event_env"
  rx_others :: "nat \<Rightarrow> event_db \<Rightarrow> event_db"
  rx_token :: string

definition fresh_projection ::
  "relation_ctx \<Rightarrow> relation_request \<Rightarrow> BusinessEventAuthorizationSnapshot \<Rightarrow> event_db \<Rightarrow> (thrown + string) \<times> event_db" where
  "fresh_projection cx rq au db =
     (let db1 = rx_others cx 1 db in
      case authorizedEventProjection (rx_env cx 1) (rx_providerId cx) (rq_streamId rq) (rq_eventId rq) au db1 of
        Inl e \<Rightarrow> (Inl (Frozen (mapRelationError e)), db1)
      | Inr None \<Rightarrow> (Inl (Frozen (relationError ''BUSINESS_EVENT_NOT_FOUND'' 404)), db1)
      | Inr (Some projection) \<Rightarrow>
          if fe_scope (ap_event projection) \<noteq> Some scope_resource then (Inl (Frozen (relationError ''BUSINESS_EVENT_NOT_FOUND'' 404)), db1)
          else
            (case createRelationProjection (rx_env cx 2) (rx_token cx)
                \<lparr>pr_providerId = rx_providerId cx, pr_streamId = rq_streamId rq, pr_eventId = rq_eventId rq, pr_authorization = au,
                 pr_candidateRelationHash = ap_candidateRelationHash projection, pr_projectionRelationHash = ap_projectionRelationHash projection\<rparr>
                (ap_relatedTaskIds projection) (rx_projectionTtlMs cx) (rx_others cx 2 db1) of
               (Inl e, db2) \<Rightarrow> (Inl (Frozen (mapRelationError e)), db2)
             | (Inr token, db2) \<Rightarrow> (Inr token, db2)))"

definition relation_page_json :: "relation_request \<Rightarrow> string \<Rightarrow> ProjectionPage \<Rightarrow> json_object" where
  "relation_page_json rq token page =
     [(''resultType'', JStr ''complete''), (''streamId'', JStr (rq_streamId rq)), (''eventId'', JStr (rq_eventId rq)), (''projectionToken'', JStr token),
      (''items'', JArr (map JStr (pp_items page))), (''total'', JNum (int (pp_total page)))] @
     opt_field ''nextAfterTaskId'' JStr (pp_nextAfterTaskId page)"

definition relation_list :: "relation_ctx \<Rightarrow> FrozenJsonRpcRequest \<Rightarrow> AuthorizationContext \<Rightarrow> event_db \<Rightarrow> (thrown + json_object) \<times> event_db" where
  "relation_list cx request a db =
     (case bind_err (requireBusinessEventsCapability request) (\<lambda>_. parseRelationRequest (fj_params request)) of
        Inl e \<Rightarrow> (Inl e, db)
      | Inr rq \<Rightarrow>
          (let db0 = rx_others cx 0 db; au = authorization_identity a; reset = (Inl (Frozen (relationError ''BUSINESS_EVENT_STREAM_RESET'' 409)), db0) in
           case event_generation (rx_providerId cx) (rq_streamId rq) db0 of
             None \<Rightarrow> reset
           | Some g \<Rightarrow>
               if bg_status g = G_retired then reset
               else
                 (case (case rq_projectionToken rq of Some t \<Rightarrow> (Inr t, db0) | None \<Rightarrow> fresh_projection cx rq au db0) of
                    (Inl e, db1) \<Rightarrow> (Inl e, db1)
                  | (Inr token, db1) \<Rightarrow>
                      let db2 = rx_others cx 3 db1 in
                      (case relationProjectionPage (rx_env cx 3) token (rx_providerId cx, rq_streamId rq, rq_eventId rq) au (rq_afterTaskId rq) (rq_limit rq) db2 of
                         Inl e \<Rightarrow> (Inl (Frozen (mapRelationError e)), db2)
                       | Inr page \<Rightarrow> (Inr (relation_page_json rq token page), db2)))))"

section \<open>Discovery\<close>

definition event_discovery :: "event_env \<Rightarrow> string \<Rightarrow> int \<Rightarrow> event_db \<Rightarrow> err + json_object" where
  "event_discovery env providerId retentionMs db =
     (case currentGeneration providerId db of
        None \<Rightarrow> Inl (Error ''BUSINESS_EVENT_NOT_READY'')
      | Some g \<Rightarrow>
          let roster = sourceRoster env providerId (bg_streamId g) db in
          if roster = [] then Inl (Error ''BUSINESS_EVENT_NOT_READY'')
          else Inr [(''profileVersion'', JStr ''1.0''), (''delivery'', JStr ''post_sse''), (''scopes'', JArr [JStr ''task'', JStr ''resource'']),
            (''resumeMode'', JStr ''stream_sequence''), (''maxRelatedTaskIds'', JNum 256), (''retentionMs'', JNum retentionMs),
            (''authorizationModel'', JStr ''subscription_snapshot_projection''), (''relationOverflow'', JStr ''paged_query''),
            (''streamCancellation'', JStr ''connection_close''), (''continuityClass'', JStr (show_continuity (bg_continuityClass g))),
            (''sources'', JArr (map (\<lambda>s. JObj [(''sourceId'', JStr (sd_sourceId s)), (''deliverySemantics'', JStr (show_semantics (sd_deliverySemantics s)))]) roster))])"

section \<open>Messages\<close>

definition subscriptionMeta :: "json \<Rightarrow> json" where
  "subscriptionMeta subscriptionId = JObj [(''io.modelcontextprotocol/subscriptionId'', subscriptionId),
     (BUSINESS_EVENTS_EXTENSION, JObj [(''profileVersion'', JStr ''1.0'')])]"

abbreviation seq_json :: "int \<Rightarrow> json" where
  "seq_json n \<equiv> JStr (show_int n)"

definition event_ack :: "json \<Rightarrow> BusinessEventGeneration \<Rightarrow> int \<Rightarrow> BusinessEventSourceDefinition list \<Rightarrow> json_object" where
  "event_ack subscriptionId g afterSequence roster =
     [(''jsonrpc'', JStr ''2.0''), (''method'', JStr ''notifications/io.sdar/businessEvents/acknowledged''),
      (''params'', JObj [(''profileVersion'', JStr ''1.0''), (''streamId'', JStr (bg_streamId g)), (''generationStatus'', JStr (show_generation_status (bg_status g))),
        (''acceptedAfterSequence'', seq_json afterSequence), (''earliestAvailableSequence'', seq_json (bg_earliestAvailableSequence g)),
        (''currentSequence'', seq_json (last_sequence g)),
        (''sourceContinuity'', JObj ([(''continuityClass'', JStr (show_continuity (bg_continuityClass g))),
          (''status'', JStr (if bg_continuityClass g = all_durable then ''continuous'' else ''best_effort''))] @
          (if bg_continuityClass g = all_durable then [(''continuousSinceSequence'', seq_json (bg_earliestAvailableSequence g))] else []) @
          [(''degradedSourceIds'', JArr (map (\<lambda>s. JStr (sd_sourceId s)) (filter (\<lambda>s. sd_deliverySemantics s = best_effort_live) roster)))])),
        (''_meta'', subscriptionMeta subscriptionId)])]"

definition eventNotification :: "json \<Rightarrow> AuthorizedBusinessEventProjection \<Rightarrow> json_object" where
  "eventNotification subscriptionId projection =
     (let event = ap_event projection; related = ap_relatedTaskIds projection in
      [(''jsonrpc'', JStr ''2.0''), (''method'', JStr ''notifications/io.sdar/businessEvents''),
       (''params'', JObj ([(''streamId'', JStr (fe_streamId event)), (''eventId'', JStr (fe_eventId event)), (''sequence'', seq_json (fe_sequence event)),
         (''sourceId'', JStr (fe_sourceId event)), (''eventType'', JStr (fe_eventType event)), (''occurredAt'', JStr (toISOString (fe_occurredAt event))),
         (''scope'', case fe_scope event of None \<Rightarrow> JNull | Some s \<Rightarrow> JStr (show_scope s)), (''description'', JStr (fe_description event))] @
         opt_field ''severityHint'' JStr (fe_severityHint event) @ opt_field ''reasonCode'' JStr (fe_reasonCode event) @
         (if fe_rawPayload event = JNull then [] else [(''rawPayload'', fe_rawPayload event)]) @
         (if fe_scope event = Some scope_task then [(''taskId'', case fe_taskId event of None \<Rightarrow> JNull | Some t \<Rightarrow> JStr t)]
          else [(''resourceRef'', case fe_resourceRef event of None \<Rightarrow> JNull | Some r \<Rightarrow> JStr r), (''relatedTaskIds'', JArr (map JStr (take 256 related))),
            (''relatedTaskCount'', JNum (int (length related))), (''relationTruncated'', JBool (length related > 256))]) @
         [(''_meta'', subscriptionMeta subscriptionId)]))])"

definition continuity_message :: "json \<Rightarrow> RotationResult \<Rightarrow> json_object" where
  "continuity_message subscriptionId c =
     [(''jsonrpc'', JStr ''2.0''), (''method'', JStr ''notifications/io.sdar/businessEvents/continuity''),
      (''params'', JObj ([(''profileVersion'', JStr ''1.0''), (''previousStreamId'', JStr (ro_previousStreamId c)), (''newStreamId'', JStr (ro_newStreamId c)),
        (''reasonCode'', JStr (ro_reasonCode c)), (''affectedSourceIds'', JArr (map JStr (ro_affectedSourceIds c))),
        (''gapDetectedAt'', JStr (toISOString (ro_gapDetectedAt c))), (''lastReplayableSequence'', seq_json (ro_lastReplayableSequence c))] @
        opt_field ''lastContinuousSequence'' seq_json (ro_lastContinuousSequence c) @ [(''_meta'', subscriptionMeta subscriptionId)]))]"

section \<open>Streams\<close>

record feed_ctx =
  fc_providerId :: string
  fc_view :: "nat \<Rightarrow> event_db"
  fc_env :: "nat \<Rightarrow> event_env"
  fc_date :: "nat \<Rightarrow> instant"
  fc_closedAt :: "nat option"
  fc_writable :: "nat \<Rightarrow> bool"
  fc_drains :: "nat \<Rightarrow> bool"
  fc_writer :: WriterOptions
  fc_replayBatchSize :: int
  fc_maxStreamDurationMs :: int
  fc_authorization :: AuthorizationContext
  fc_subscriptionId :: json

record feed_state =
  fs_turn :: nat
  fs_writer :: TaskNotificationWriter
  fs_lastScanned :: int
  fs_lastDelivered :: int

definition stream_closed :: "feed_ctx \<Rightarrow> nat \<Rightarrow> bool" where
  "stream_closed cx n = (case fc_closedAt cx of None \<Rightarrow> False | Some k \<Rightarrow> k \<le> n)"

text \<open>After an await, in which the connection may have drained; the listener of a closed one has disposed of the writer.\<close>

definition awaited :: "feed_ctx \<Rightarrow> feed_state \<Rightarrow> feed_state" where
  "awaited cx st =
     (let n = Suc (fs_turn st); w = (if fc_drains cx n then drained (fc_writable cx) (fs_writer st) else fs_writer st) in
      st\<lparr>fs_turn := n, fs_writer := (if stream_closed cx n then dispose w else w)\<rparr>)"

datatype feed_end = returned | refused | threw err

definition event_projection :: "feed_ctx \<Rightarrow> nat \<Rightarrow> string \<Rightarrow> string \<Rightarrow> err + AuthorizedBusinessEventProjection option" where
  "event_projection cx n streamId eventId =
     authorizedEventProjection (fc_env cx n) (fc_providerId cx) streamId eventId (authorization_identity (fc_authorization cx)) (fc_view cx n)"

definition send_message :: "feed_ctx \<Rightarrow> json_object \<Rightarrow> feed_state \<Rightarrow> bool \<times> feed_state" where
  "send_message cx message st =
     (case enqueue (fc_writer cx) (fc_writable cx) message (fs_writer st) of (ok, w) \<Rightarrow> (ok, st\<lparr>fs_writer := w\<rparr>))"

fun deliver_events :: "feed_ctx \<Rightarrow> string \<Rightarrow> FinalizedBusinessEvent list \<Rightarrow> feed_state \<Rightarrow> feed_end \<times> feed_state" where
  "deliver_events cx streamId [] st = (returned, st)"
| "deliver_events cx streamId (event # events) st =
     (let st1 = awaited cx (st\<lparr>fs_lastScanned := fe_sequence event\<rparr>) in
      case event_projection cx (fs_turn st) streamId (fe_eventId event) of
        Inl e \<Rightarrow> (threw e, st1)
      | Inr None \<Rightarrow> deliver_events cx streamId events st1
      | Inr (Some projection) \<Rightarrow>
          (case send_message cx (eventNotification (fc_subscriptionId cx) projection) st1 of
             (True, st2) \<Rightarrow> deliver_events cx streamId events (st2\<lparr>fs_lastDelivered := fe_sequence event\<rparr>)
           | (False, st2) \<Rightarrow> (refused, st2)))"

lemma send_message_scanned: "send_message cx m st = (ok, st') \<Longrightarrow> fs_lastScanned st' = fs_lastScanned st"
  by (auto simp: send_message_def split: prod.splits)

lemma deliver_Cons_returned:
  assumes "deliver_events cx streamId (event # events) st = (returned, st')"
  obtains st2 where "deliver_events cx streamId events st2 = (returned, st')" "fs_lastScanned st2 = fe_sequence event"
proof -
  let ?st = "awaited cx (st\<lparr>fs_lastScanned := fe_sequence event\<rparr>)"
  have start: "fs_lastScanned ?st = fe_sequence event" by (simp add: awaited_def Let_def)
  show thesis
  proof (cases "event_projection cx (fs_turn st) streamId (fe_eventId event)")
    case (Inr v)
    show thesis
    proof (cases v)
      case None
      then show thesis using that [of ?st] assms start Inr by (simp add: Let_def)
    next
      case (Some projection)
      obtain ok st2 where send: "send_message cx (eventNotification (fc_subscriptionId cx) projection) ?st = (ok, st2)" by fastforce
      then show thesis using that [of "st2\<lparr>fs_lastDelivered := fe_sequence event\<rparr>"] send_message_scanned [OF send] assms start Inr Some
        by (cases ok) (simp_all add: Let_def)
    qed
  qed (use assms in \<open>simp add: Let_def\<close>)
qed

lemma deliver_events_scanned:
  "deliver_events cx streamId events st = (returned, st') \<Longrightarrow> events \<noteq> [] \<Longrightarrow> fs_lastScanned st' = fe_sequence (last events)"
proof (induction events arbitrary: st)
  case (Cons event events)
  from deliver_Cons_returned [OF Cons.prems(1)] obtain st2 where
    rest: "deliver_events cx streamId events st2 = (returned, st')" "fs_lastScanned st2 = fe_sequence event" .
  show ?case
  proof (cases "events = []")
    case True
    then show ?thesis using rest by simp
  next
    case False
    then show ?thesis using Cons.IH [OF rest(1)] by simp
  qed
qed simp

definition replay_batch :: "feed_ctx \<Rightarrow> nat \<Rightarrow> string \<Rightarrow> int \<Rightarrow> int \<Rightarrow> err + FinalizedBusinessEvent list" where
  "replay_batch cx n streamId after through = replayEvents (fc_providerId cx) streamId after through (fc_replayBatchSize cx) (fc_view cx n)"

lemma replay_batch_within: "replay_batch cx n streamId after through = Inr events \<Longrightarrow> e \<in> set events \<Longrightarrow> after < fe_sequence e \<and> fe_sequence e \<le> through"
  using set_order_limit by (fastforce simp: replay_batch_def replayEvents_def replay_rows_def mapStoredEvent_def split: if_splits)

lemma replay_progress:
  assumes "replay_batch cx n streamId (fs_lastScanned st) through = Inr events" "events \<noteq> []" "deliver_events cx streamId events st1 = (returned, st2)"
  shows "fs_lastScanned st < fs_lastScanned st2"
  using replay_batch_within [OF assms(1)] deliver_events_scanned [OF assms(3,2)] assms(2) by simp

function replay_loop :: "feed_ctx \<Rightarrow> string \<Rightarrow> int \<Rightarrow> feed_state \<Rightarrow> feed_end \<times> feed_state" where
  "replay_loop cx streamId through st =
     (if \<not> (fs_lastScanned st < through \<and> \<not> stream_closed cx (fs_turn st)) then (returned, st)
      else
        let st1 = awaited cx st in
        case event_generation (fc_providerId cx) streamId (fc_view cx (fs_turn st)) of
          None \<Rightarrow> (returned, st1)
        | Some g \<Rightarrow>
            if bg_status g = G_retired then (returned, st1)
            else
              (case replay_batch cx (fs_turn st1) streamId (fs_lastScanned st) through of
                 Inl e \<Rightarrow> (threw e, awaited cx st1)
               | Inr events \<Rightarrow>
                   if events = [] then (returned, awaited cx st1)
                   else
                     (case deliver_events cx streamId events (awaited cx st1) of
                        (returned, st2) \<Rightarrow> replay_loop cx streamId through st2
                      | r \<Rightarrow> r)))"
  by pat_completeness auto
termination
proof (relation "measure (\<lambda>(_, _, through, st). nat (through - fs_lastScanned st))", goal_cases)
  case (2 cx streamId through st st1 g events r st2)
  then have "fs_lastScanned st < fs_lastScanned st2" by (metis replay_progress)
  then show ?case using 2(1) by simp
qed simp

declare replay_loop.simps [simp del]

definition send_continuity :: "feed_ctx \<Rightarrow> string \<Rightarrow> feed_state \<Rightarrow> feed_state" where
  "send_continuity cx streamId st =
     (case continuityForPreviousStream (fc_providerId cx) streamId (fc_view cx (fs_turn st)) of
        None \<Rightarrow> awaited cx st
      | Some c \<Rightarrow> snd (send_message cx (continuity_message (fc_subscriptionId cx) c) (awaited cx st)))"

definition close_stream :: "feed_state \<Rightarrow> feed_state" where
  "close_stream st = st\<lparr>fs_writer := close_writer (fs_writer st)\<rparr>"

text \<open>The live loop, as many polls as the fuel allows; \<open>None\<close> is a stream that still runs.\<close>

fun live_loop :: "nat \<Rightarrow> feed_ctx \<Rightarrow> string \<Rightarrow> instant \<Rightarrow> feed_state \<Rightarrow> (feed_end \<times> feed_state) option" where
  "live_loop 0 cx streamId startedAt st = None"
| "live_loop (Suc fuel) cx streamId startedAt st =
     (if stream_closed cx (fs_turn st) then Some (returned, st)
      else if \<not> (fc_date cx (fs_turn st) - startedAt < fc_maxStreamDurationMs cx) then Some (returned, close_stream st)
      else
        let st1 = awaited cx st in
        if stream_closed cx (fs_turn st1) then Some (returned, st1)
        else
          let observed = event_generation (fc_providerId cx) streamId (fc_view cx (fs_turn st1)); st2 = awaited cx st1 in
          case observed of
            None \<Rightarrow> Some (returned, close_stream (send_continuity cx streamId st2))
          | Some g \<Rightarrow>
              if bg_status g \<noteq> G_current then Some (returned, close_stream (send_continuity cx streamId st2))
              else
                (case replay_loop cx streamId (bg_currentSequence g) st2 of
                   (threw e, st3) \<Rightarrow> Some (threw e, st3)
                 | (_, st3) \<Rightarrow> live_loop fuel cx streamId startedAt st3))"

text \<open>The generation a listener is attached to and where it begins; the reads are those of turns 0 and 1.\<close>

definition choose_generation :: "feed_ctx \<Rightarrow> FrozenJsonRpcRequest \<Rightarrow> thrown + (BusinessEventGeneration \<times> int)" where
  "choose_generation cx request =
     bind_err (parseListenSelection (fj_params request)) (\<lambda>selection.
     case currentGeneration (fc_providerId cx) (fc_view cx 0) of
       None \<Rightarrow> Inl (Frozen (businessEventError ''BUSINESS_EVENT_STREAM_RESET'' 409 []))
     | Some current \<Rightarrow>
         let reset = Inl (Frozen (businessEventError ''BUSINESS_EVENT_STREAM_RESET'' 409 [(''currentStreamId'', JStr (bg_streamId current))])) in
         case (case selection of from_cursor streamId _ \<Rightarrow> event_generation (fc_providerId cx) streamId (fc_view cx 1) | _ \<Rightarrow> Some current) of
           None \<Rightarrow> reset
         | Some g \<Rightarrow>
             if bg_status g = G_retired then reset
             else
               let after = acceptedAfterSequence selection g in
               bind_err (validateCursor after g (bg_streamId current)) (\<lambda>_. Inr (g, after)))"

definition started_stream :: "int \<Rightarrow> feed_state" where
  "started_stream after = \<lparr>fs_turn = 2, fs_writer = new_writer\<lparr>tw_headersSent := True\<rparr>, fs_lastScanned = after, fs_lastDelivered = after\<rparr>"

definition run_stream :: "nat \<Rightarrow> feed_ctx \<Rightarrow> BusinessEventGeneration \<Rightarrow> int \<Rightarrow> (feed_end \<times> feed_state) option" where
  "run_stream fuel cx g after =
     (let st = started_stream after; streamId = bg_streamId g;
          roster = sourceRoster (fc_env cx (fs_turn st)) (fc_providerId cx) streamId (fc_view cx (fs_turn st)) in
      case send_message cx (event_ack (fc_subscriptionId cx) g after roster) (awaited cx st) of
        (False, st1) \<Rightarrow> Some (refused, st1)
      | (True, st1) \<Rightarrow>
          (case replay_loop cx streamId (last_sequence g) st1 of
             (threw e, st2) \<Rightarrow> Some (threw e, st2)
           | (_, st2) \<Rightarrow>
               if stream_closed cx (fs_turn st2) then Some (returned, st2)
               else if bg_status g = G_replayable_closed then Some (returned, close_stream (send_continuity cx streamId st2))
               else live_loop fuel cx streamId (fc_date cx (fs_turn st2)) st2))"

text \<open>\<^verbatim>\<open>listen\<close> once it is admitted; at the end the writer is disposed of.\<close>

definition event_listen :: "nat \<Rightarrow> feed_ctx \<Rightarrow> FrozenJsonRpcRequest \<Rightarrow> thrown + (feed_end \<times> feed_state) option" where
  "event_listen fuel cx request =
     bind_err (choose_generation cx request) (\<lambda>(g, after).
     Inr (map_option (\<lambda>(r, st). (r, st\<lparr>fs_writer := dispose (fs_writer st)\<rparr>)) (run_stream fuel cx g after)))"

section \<open>Admission\<close>

record feed_limits =
  fl_maxSubscriptions :: nat
  fl_maxSubscriptionsPerAuth :: nat

record feed_counters =
  fk_active :: int
  fk_byAuth :: "string \<rightharpoonup> int"

definition authorization_key :: "AuthorizationContext \<Rightarrow> string" where
  "authorization_key a =
     au_hash a @ [CHR 0x00] @ show_mode (au_executionMode a) @ [CHR 0x00] @ (case au_simulationId a of None \<Rightarrow> [] | Some s \<Rightarrow> s)"

definition admit_listener :: "feed_limits \<Rightarrow> string \<Rightarrow> feed_counters \<Rightarrow> thrown + feed_counters" where
  "admit_listener limits key c =
     (let activeForAuthorization = (case fk_byAuth c key of None \<Rightarrow> 0 | Some n \<Rightarrow> n) in
      if fk_active c \<ge> int (fl_maxSubscriptions limits) \<or> activeForAuthorization \<ge> int (fl_maxSubscriptionsPerAuth limits)
      then Inl (Frozen (businessEventError ''BUSINESS_EVENT_SUBSCRIPTION_CAPACITY_EXCEEDED'' 429 []))
      else Inr \<lparr>fk_active = fk_active c + 1, fk_byAuth = (fk_byAuth c)(key \<mapsto> activeForAuthorization + 1)\<rparr>)"

text \<open>\<^verbatim>\<open>listen\<close> up to its \<^verbatim>\<open>try\<close> block.\<close>

definition begin_listen :: "feed_limits \<Rightarrow> FrozenJsonRpcRequest \<Rightarrow> AuthorizationContext \<Rightarrow> feed_counters \<Rightarrow> thrown + feed_counters" where
  "begin_listen limits request a c =
     bind_err (requireBusinessEventsCapability request) (\<lambda>_. admit_listener limits (authorization_key a) c)"

definition leave_listener :: "string \<Rightarrow> feed_counters \<Rightarrow> feed_counters" where
  "leave_listener key c =
     (let remaining = (case fk_byAuth c key of None \<Rightarrow> 1 | Some n \<Rightarrow> n) - 1 in
      \<lparr>fk_active = fk_active c - 1, fk_byAuth = (fk_byAuth c)(key := (if remaining = 0 then None else Some remaining))\<rparr>)"

end
