(* ===== verification/Event_Feed_Theorems.thy ===== *)
theory Event_Feed_Theorems
  imports Event_Theorems Event_Feed Notification_Writer Protocol_Theorems
begin

text \<open>
  What a business event stream delivers, whatever the other replicas commit between its reads: every event after the cursor is looked at exactly once and
  in the order of the stream, those the caller may see are sent, and the counters of listeners are exact.
\<close>

section \<open>What is written\<close>

definition written :: "TaskNotificationWriter \<Rightarrow> TaskNotificationWriter \<Rightarrow> string list \<Rightarrow> bool" where
  "written w w' fs \<longleftrightarrow>
     (if tw_closed w' then prefix (writer_log w') (writer_log w @ fs) else \<not> tw_closed w \<and> writer_log w' = writer_log w @ fs) \<and>
     (tw_closed w \<longrightarrow> tw_closed w' \<and> writer_log w' = writer_log w)"

lemma written_refl: "written w w []"
  by (simp add: written_def)

lemma written_trans:
  assumes "written w1 w2 fs" "written w2 w3 gs"
  shows "written w1 w3 (fs @ gs)"
proof (cases "tw_closed w2")
  case True
  then have "tw_closed w3" "writer_log w3 = writer_log w2" "prefix (writer_log w2) (writer_log w1 @ fs)"
    using assms by (auto simp: written_def)
  moreover have "prefix (writer_log w2) ((writer_log w1 @ fs) @ gs)" using calculation(3) by (rule prefix_prefix)
  ultimately show ?thesis using assms(1) by (simp add: written_def)
next
  case False
  then show ?thesis using assms by (auto simp: written_def split: if_splits)
qed

lemma keeps_written: "writer_ok options w \<Longrightarrow> writer_keeps options w w' \<Longrightarrow> written w w' []"
  by (auto simp: written_def writer_keeps_def writer_log_def writer_ok_def queue_ok_def split: if_splits)

lemma enqueue_written:
  assumes "writer_ok options w" "enqueue options writable m w = (ok, w')"
  shows "written w w' [frame_of m]" "writer_ok options w'" "\<not> ok \<longrightarrow> tw_closed w'"
proof -
  show "writer_ok options w'" "\<not> ok \<longrightarrow> tw_closed w'" using nw.put_accepted [OF assms(1)] nw.put_refused [OF assms(1)] assms(2) by (cases ok; simp)+
  have "tw_closed w \<Longrightarrow> w' = w" using assms(2) by (auto simp: enqueue_def Let_def)
  then show "written w w' [frame_of m]"
    using nw.put_accepted [OF assms(1)] nw.put_refused [OF assms(1)] enqueue_accepted(2) [OF assms(1)] assms(2)
    by (cases ok) (auto simp: written_def prefix_prefix)
qed

abbreviation feed_ok :: "feed_ctx \<Rightarrow> feed_state \<Rightarrow> bool" where
  "feed_ok cx st \<equiv> writer_ok (fc_writer cx) (fs_writer st)"

abbreviation wrote_frames :: "feed_state \<Rightarrow> feed_state \<Rightarrow> string list \<Rightarrow> bool" where
  "wrote_frames st st' fs \<equiv> written (fs_writer st) (fs_writer st') fs"

lemma awaited_fields [simp]: "fs_lastScanned (awaited cx st) = fs_lastScanned st" "fs_turn (awaited cx st) = Suc (fs_turn st)"
  by (simp_all add: awaited_def Let_def)

lemma awaited_ok:
  assumes "feed_ok cx st"
  shows "feed_ok cx (awaited cx st) \<and> wrote_frames st (awaited cx st) []"
proof -
  let ?w = "if fc_drains cx (Suc (fs_turn st)) then drained (fc_writable cx) (fs_writer st) else fs_writer st"
  have "writer_keeps (fc_writer cx) (fs_writer st) (drained (fc_writable cx) (fs_writer st))" by (rule drained_keeps [OF assms])
  then have w: "writer_ok (fc_writer cx) ?w" "written (fs_writer st) ?w []"
    using assms keeps_written [OF assms] by (auto simp: writer_keeps_def written_refl)
  have d: "writer_keeps (fc_writer cx) ?w (dispose ?w)" using dispose_keeps [OF w(1)] by (rule conjunct1)
  then have "written (fs_writer st) (dispose ?w) ([] @ [])" using written_trans [OF w(2)] keeps_written [OF w(1)] by blast
  then show ?thesis using w d by (auto simp: awaited_def Let_def writer_keeps_def)
qed

lemma send_ok:
  assumes "feed_ok cx st" "send_message cx m st = (ok, st')"
  shows "feed_ok cx st' \<and> wrote_frames st st' [frame_of m] \<and> fs_lastScanned st' = fs_lastScanned st \<and> fs_turn st' = fs_turn st"
proof -
  obtain w' where w: "enqueue (fc_writer cx) (fc_writable cx) m (fs_writer st) = (ok, w')" "st' = st\<lparr>fs_writer := w'\<rparr>"
    using assms(2) by (auto simp: send_message_def split: prod.splits)
  show ?thesis using enqueue_written [OF assms(1) w(1)] w(2) by simp
qed

text \<open>What the reads of a stream find: the store moves on by its own steps between them.\<close>

definition feed_views :: "feed_ctx \<Rightarrow> bool" where
  "feed_views cx \<longleftrightarrow> event_reachable (fc_view cx 0) \<and> (\<forall>n. event_step\<^sup>*\<^sup>* (fc_view cx n) (fc_view cx (Suc n)))"

lemma feed_views_steps: "feed_views cx \<Longrightarrow> n \<le> m \<Longrightarrow> event_step\<^sup>*\<^sup>* (fc_view cx n) (fc_view cx m)"
  by (induction m) (auto simp: feed_views_def le_Suc_eq intro: rtranclp_trans)

lemma feed_views_reachable: "feed_views cx \<Longrightarrow> event_reachable (fc_view cx n)"
  using feed_views_steps [of cx 0 n] rtranclp_trans [of event_step empty_event_db "fc_view cx 0" "fc_view cx n"] by (simp add: feed_views_def)

text \<open>The events of a stream as a read finds them.\<close>

definition events_at :: "feed_ctx \<Rightarrow> string \<Rightarrow> nat \<Rightarrow> FinalizedBusinessEvent list" where
  "events_at cx streamId n = map mapStoredEvent (stream_events (fc_view cx n) (fc_providerId cx, streamId))"

lemma stream_events_later:
  assumes "feed_views cx" "n \<le> m"
  shows "set (stream_events (fc_view cx n) k) \<subseteq> set (stream_events (fc_view cx m) k)"
proof -
  have "advances (fc_view cx n) (fc_view cx m)"
    by (rule event_steps_advance(1) [OF feed_views_steps [OF assms] reachable_event_inv [OF feed_views_reachable [OF assms(1)]]])
  then obtain ws where "business_events (fc_view cx m) = business_events (fc_view cx n) @ ws" by (auto simp: advances_def grows_eq)
  then show ?thesis by (auto simp: stream_events_def)
qed

lemma events_at_later: "feed_views cx \<Longrightarrow> n \<le> m \<Longrightarrow> set (events_at cx streamId n) \<subseteq> set (events_at cx streamId m)"
  using stream_events_later unfolding events_at_def set_map by (metis image_mono)

text \<open>A projection is of the event that was asked for.\<close>

lemma projection_of_event:
  assumes "feed_views cx" "event \<in> set (events_at cx streamId n)" "event_projection cx n streamId (fe_eventId event) = Inr (Some pr)"
  shows "ap_event pr = event"
proof -
  obtain e where e: "e \<in> set (business_events (fc_view cx n))" "event_stream e = (fc_providerId cx, streamId)" "event = mapStoredEvent e"
    using assms(2) by (auto simp: events_at_def stream_events_def)
  obtain f where f: "find_event (fc_providerId cx) streamId (fe_eventId event) (fc_view cx n) = Some f" "ap_event pr = mapStoredEvent f"
    using assms(3) by (auto simp: event_projection_def authorizedEventProjection_def bind_err_def Let_def split: option.splits if_splits sum.splits)
  have f2: "f \<in> set (business_events (fc_view cx n))" "be_provider_id f = fc_providerId cx" "be_event_id f = be_event_id e"
    using first_row_SomeD [OF f(1) [unfolded find_event_def]] e(3) by (auto simp: mapStoredEvent_def)
  have "distinct (map (\<lambda>e. (be_provider_id e, be_event_id e)) (business_events (fc_view cx n)))"
    by (rule schema_event_keys [OF event_invD(1) [OF reachable_event_inv [OF feed_views_reachable [OF assms(1)]]]])
  then have "inj_on (\<lambda>e. (be_provider_id e, be_event_id e)) (set (business_events (fc_view cx n)))" by (simp add: distinct_map)
  from inj_onD [OF this _ f2(1) e(1)] have "f = e" using e(2) f2(2,3) by simp
  then show ?thesis using f(2) e(3) by simp
qed

section \<open>What is looked at\<close>

type_synonym looked = "FinalizedBusinessEvent \<times> AuthorizedBusinessEventProjection option"

text \<open>An event that the stream holds, with the caller's projection of this event as a read between two turns found it.\<close>

definition saw :: "feed_ctx \<Rightarrow> string \<Rightarrow> nat \<Rightarrow> nat \<Rightarrow> looked \<Rightarrow> bool" where
  "saw cx streamId lo hi x \<longleftrightarrow> (\<exists>n. lo \<le> n \<and> n < hi \<and> fst x \<in> set (events_at cx streamId n) \<and>
     event_projection cx n streamId (fe_eventId (fst x)) = Inr (snd x) \<and> pred_option (\<lambda>pr. ap_event pr = fst x) (snd x))"

lemma saw_between: "saw cx streamId lo hi x \<Longrightarrow> lo' \<le> lo \<Longrightarrow> hi \<le> hi' \<Longrightarrow> saw cx streamId lo' hi' x"
  unfolding saw_def by (meson le_trans less_le_trans)

lemma all_saw_between: "list_all (saw cx streamId lo hi) xs \<Longrightarrow> lo' \<le> lo \<Longrightarrow> hi \<le> hi' \<Longrightarrow> list_all (saw cx streamId lo' hi') xs"
  using saw_between by (metis (no_types, lifting) list.pred_mono_strong)

definition shown_frames :: "feed_ctx \<Rightarrow> looked list \<Rightarrow> string list" where
  "shown_frames cx trace = map (\<lambda>pr. frame_of (eventNotification (fc_subscriptionId cx) pr)) (List.map_filter snd trace)"

lemma shown_frames_simps [simp]:
  "shown_frames cx [] = []" "shown_frames cx ((e, None) # trace) = shown_frames cx trace"
  "shown_frames cx ((e, Some pr) # trace) = frame_of (eventNotification (fc_subscriptionId cx) pr) # shown_frames cx trace"
  "shown_frames cx (xs @ ys) = shown_frames cx xs @ shown_frames cx ys"
  by (simp_all add: shown_frames_def map_filter_simps) (simp add: map_filter_def)

lemma deliver_events_trace:
  assumes "feed_views cx"
  shows "deliver_events cx streamId events st = (r, st') \<Longrightarrow> feed_ok cx st \<Longrightarrow> set events \<subseteq> set (events_at cx streamId (fs_turn st)) \<Longrightarrow>
     feed_ok cx st' \<and> fs_turn st \<le> fs_turn st' \<and>
     (\<exists>trace. prefix (map fst trace) events \<and> list_all (saw cx streamId (fs_turn st) (fs_turn st')) trace \<and> wrote_frames st st' (shown_frames cx trace) \<and>
        (r = returned \<longrightarrow> map fst trace = events) \<and>
        (r = refused \<longrightarrow> trace \<noteq> [] \<and> fs_lastScanned st' = fe_sequence (fst (last trace))))"
proof (induction events arbitrary: st)
  case Nil
  then show ?case by (auto intro!: exI [of _ "[]"] simp: written_refl)
next
  case (Cons event events)
  let ?st = "awaited cx (st\<lparr>fs_lastScanned := fe_sequence event\<rparr>)"
  have "feed_ok cx (st\<lparr>fs_lastScanned := fe_sequence event\<rparr>)" using Cons.prems(2) by simp
  from awaited_ok [OF this] have aw: "feed_ok cx ?st" "wrote_frames st ?st []" by simp_all
  show ?case
  proof (cases "event_projection cx (fs_turn st) streamId (fe_eventId event)")
    case (Inl e)
    then have "r = threw e" "st' = ?st" using Cons.prems(1) by (simp_all add: Let_def)
    then show ?thesis using aw by (auto intro!: exI [of _ "[]"])
  next
    case (Inr v)
    have held: "event \<in> set (events_at cx streamId (fs_turn st))" using Cons.prems(3) by simp
    have see: "saw cx streamId (fs_turn st) (Suc (fs_turn st)) (event, v)"
      using Inr held projection_of_event [OF assms held] by (cases v) (auto simp: saw_def intro!: exI [of _ "fs_turn st"])
    have more: ?thesis if rest: "deliver_events cx streamId events st2 = (r, st')" "feed_ok cx st2" "wrote_frames st st2 (shown_frames cx [(event, v)])"
      "Suc (fs_turn st) \<le> fs_turn st2" for st2
    proof -
      have "set events \<subseteq> set (events_at cx streamId (fs_turn st2))" using events_at_later [OF assms, of "fs_turn st" "fs_turn st2"] rest(4) Cons.prems(3) by auto
      from Cons.IH [OF rest(1,2) this] obtain trace where t: "feed_ok cx st'" "fs_turn st2 \<le> fs_turn st'" "prefix (map fst trace) events"
        "list_all (saw cx streamId (fs_turn st2) (fs_turn st')) trace" "wrote_frames st2 st' (shown_frames cx trace)" "r = returned \<longrightarrow> map fst trace = events"
        "r = refused \<longrightarrow> trace \<noteq> [] \<and> fs_lastScanned st' = fe_sequence (fst (last trace))" by blast
      have "wrote_frames st st' (shown_frames cx ((event, v) # trace))"
        using written_trans [OF rest(3) t(5)] by (cases v) simp_all
      moreover have "list_all (saw cx streamId (fs_turn st) (fs_turn st')) ((event, v) # trace)"
        using all_saw_between [OF t(4)] saw_between [OF see] rest(4) t(2) by simp
      ultimately show ?thesis using t rest(4) by (intro conjI exI [of _ "(event, v) # trace"]) auto
    qed
    show ?thesis
    proof (cases v)
      case None
      then show ?thesis using more [of ?st] Cons.prems(1) Inr aw by (simp add: Let_def)
    next
      case (Some pr)
      obtain ok st2 where send: "send_message cx (eventNotification (fc_subscriptionId cx) pr) ?st = (ok, st2)" by fastforce
      note s = send_ok [OF aw(1) send]
      have w: "wrote_frames st st2 (shown_frames cx [(event, v)])" using written_trans [OF aw(2)] s Some by simp
      show ?thesis
      proof (cases ok)
        case True
        then show ?thesis using more [of "st2\<lparr>fs_lastDelivered := fe_sequence event\<rparr>"] Cons.prems(1) Inr Some send s w by (simp add: Let_def)
      next
        case False
        then have "r = refused" "st' = st2" using Cons.prems(1) Inr Some send by (simp_all add: Let_def)
        then show ?thesis using s w see by (intro conjI exI [of _ "[(event, v)]"]) auto
      qed
    qed
  qed
qed

section \<open>Replay\<close>

text \<open>No operation of the store retires a generation.\<close>

definition never_retired :: "event_db \<Rightarrow> bool" where
  "never_retired db = (\<forall>g \<in> set (generations db). gn_status g \<noteq> G_retired)"

lemma never_retired_rotate:
  assumes "rotateStream env i db = (r, db')" "never_retired db"
  shows "never_retired db'"
proof (cases "db' = db")
  case False
  from rotate_effect [OF assms(1) this] show ?thesis
  proof cases
    case (1 current previous roster affected lc a)
    have prev: "previous \<in> set (generations db)" "generation_key previous = (ri_providerId i, rt_current_stream_id current)"
      using find_generation_SomeD [OF 1(3)] by auto
    have "(ri_providerId i, ri_newStreamId i) \<notin> set (map generation_key (generations db))"
      using switch_streams_effect(3) [OF 1(7)] by (simp add: new_generation_def)
    from rotated_generations [OF prev this] show ?thesis
      using assms(2) by (auto simp: never_retired_def 1(9) set_update_rows close_generation_def)
  qed
qed (use assms(2) in simp)

lemma never_retired_step:
  assumes "event_step db db'" "never_retired db"
  shows "never_retired db'"
  using assms(1)
proof (cases rule: event_step_cases)
  case 1
  then show ?thesis using assms(2) by (simp add: same_streams_def streams_of_def never_retired_def)
next
  case (2 env st p sources ret)
  show ?thesis
  proof (cases "db' = db")
    case False
    then have changed: "snd (initializeProvider env st p sources ret db) \<noteq> db" using 2 by simp
    show ?thesis using assms(2) by (rule_tac initialize_effect [OF changed]) (auto simp: never_retired_def new_generation_def 2)
  qed (use assms(2) in simp)
next
  case (3 env p s ret)
  obtain r where run: "finalizeNextSourceEvent env p s ret db = (r, db')" using 3 by (metis prod.collapse)
  show ?thesis
  proof (cases "db' = db")
    case False
    then have "db' \<noteq> db \<or> r = Inr (Some undefined)" by simp
    from finalize_effect [OF run this] show ?thesis
      by cases (use assms(2) in \<open>auto simp: never_retired_def set_update_rows\<close>)
  qed (use assms(2) in simp)
next
  case (4 env i)
  then show ?thesis using never_retired_rotate [of env i db "fst (rotateStream env i db)" db'] assms(2) by simp
qed

interpretation nr: step_invariant "\<lambda>db. db = empty_event_db" event_step never_retired
  by unfold_locales (simp add: never_retired_def empty_event_db_def, rule never_retired_step)

definition reaches :: "feed_ctx \<Rightarrow> string \<Rightarrow> int \<Rightarrow> nat \<Rightarrow> bool" where
  "reaches cx streamId through n \<longleftrightarrow> (\<exists>g. find_generation (fc_providerId cx) streamId (fc_view cx n) = Some g \<and> through \<le> gn_current_sequence g)"

lemma reaches_later:
  assumes "feed_views cx" "reaches cx streamId through n" "n \<le> m"
  shows "reaches cx streamId through m"
proof -
  obtain g where g: "find_generation (fc_providerId cx) streamId (fc_view cx n) = Some g" "through \<le> gn_current_sequence g"
    using assms(2) by (auto simp: reaches_def)
  note inv = reachable_event_inv [OF feed_views_reachable [OF assms(1)]]
  have "grows generation_keep (\<lambda>_. True) (generations (fc_view cx n)) (generations (fc_view cx m))"
    using event_steps_advance(1) [OF feed_views_steps [OF assms(1,3)] inv] by (simp add: advances_def)
  from gens.grows_row [OF this] find_generation_SomeD [OF g(1)]
  obtain h where h: "h \<in> set (generations (fc_view cx m))" "generation_keep g h" by blast
  then have "find_generation (fc_providerId cx) streamId (fc_view cx m) = Some h"
    using find_generation_member [OF event_invD(1) [OF inv] h(1)] find_generation_SomeD [OF g(1)] by (simp add: generation_keep_def)
  then show ?thesis using g(2) h(2) by (auto simp: reaches_def generation_keep_def)
qed

lemma prefix_upto: "prefix xs [a + 1..b] \<Longrightarrow> xs = [a + 1..a + int (length xs)]"
proof -
  assume "prefix xs [a + 1..b]"
  then have xs: "xs = take (length xs) [a + 1..b]" "length xs \<le> length [a + 1..b]" by (auto simp: prefix_def dest: arg_cong [of _ _ length])
  show ?thesis
  proof (rule nth_equalityI)
    show "length xs = length [a + 1..a + int (length xs)]" by simp
    fix i assume i: "i < length xs"
    then have "xs ! i = [a + 1..b] ! i" by (subst xs(1)) simp
    also have "\<dots> = a + 1 + int i" using i xs(2) by (intro nth_upto) simp
    also have "\<dots> = [a + 1..a + int (length xs)] ! i" using i by (subst nth_upto) simp_all
    finally show "xs ! i = [a + 1..a + int (length xs)] ! i" .
  qed
qed

lemma batch_contiguous:
  assumes "feed_views cx" "reaches cx streamId through n" "0 \<le> a" "a < through" "1 \<le> fc_replayBatchSize cx"
  obtains events where "replay_batch cx n streamId a through = Inr events" "events \<noteq> []" "prefix (map fe_sequence events) [a + 1..through]"
    "set events \<subseteq> set (events_at cx streamId n)"
proof -
  obtain g where g: "find_generation (fc_providerId cx) streamId (fc_view cx n) = Some g" "through \<le> gn_current_sequence g" using assms(2) by (auto simp: reaches_def)
  let ?rows = "replay_rows (fc_providerId cx) streamId a through (nat (fc_replayBatchSize cx)) (fc_view cx n)"
  have mem: "g \<in> set (generations (fc_view cx n))" "generation_key g = (fc_providerId cx, streamId)" using find_generation_SomeD [OF g(1)] by auto
  have "event_reachable (fc_view cx n)" by (rule feed_views_reachable [OF assms(1)])
  then have "gapless (fc_view cx n)" by (intro event_invD(2) reachable_event_inv)
  then have "map be_sequence (stream_events (fc_view cx n) (generation_key g)) = [1..gn_current_sequence g]" using mem(1) unfolding gapless_def by blast
  then have "map be_sequence (stream_events (fc_view cx n) (fc_providerId cx, streamId)) = [1..gn_current_sequence g]" unfolding mem(2) .
  from gapless_replay [OF this] have "map be_sequence ?rows = take (nat (fc_replayBatchSize cx)) [max 1 (a + 1)..min (gn_current_sequence g) through]" .
  then have rows: "map be_sequence ?rows = take (nat (fc_replayBatchSize cx)) [a + 1..through]" using assms(3) g(2) by (simp add: max_def min_absorb2)
  have "take (nat (fc_replayBatchSize cx)) [a + 1..through] \<noteq> []" using assms(4,5) by simp
  then have "?rows \<noteq> []" using rows by force
  moreover have "map fe_sequence (map mapStoredEvent ?rows) = map be_sequence ?rows" by (simp add: mapStoredEvent_def)
  moreover have "set ?rows \<subseteq> set (stream_events (fc_view cx n) (fc_providerId cx, streamId))"
    using set_order_limit by (fastforce simp: replay_rows_def stream_events_def)
  then have "set (map mapStoredEvent ?rows) \<subseteq> set (events_at cx streamId n)" unfolding events_at_def by auto
  ultimately show thesis using that [of "map mapStoredEvent ?rows"] assms(5) rows by (simp add: replay_batch_def replayEvents_def take_is_prefix)
qed

definition in_sequence :: "int \<Rightarrow> looked list \<Rightarrow> bool" where
  "in_sequence a trace \<longleftrightarrow> map (\<lambda>x. fe_sequence (fst x)) trace = [a + 1..a + int (length trace)]"

lemma in_sequence_append:
  assumes "in_sequence a xs" "in_sequence (a + int (length xs)) ys"
  shows "in_sequence a (xs @ ys)"
proof -
  let ?k = "a + int (length xs)" and ?m = "a + int (length (xs @ ys))"
  have "[a + 1..?m] = [a + 1..?k] @ [?k + 1..?m]"
  proof (cases xs)
    case (Cons x xs')
    then show ?thesis by (intro upto_split2) simp_all
  qed simp
  then show ?thesis using assms by (simp add: in_sequence_def add.assoc)
qed

lemma in_sequence_last:
  assumes "in_sequence a trace" "trace \<noteq> []"
  shows "fe_sequence (fst (last trace)) = a + int (length trace)"
proof -
  let ?n = "length trace - 1"
  have n: "int ?n = int (length trace) - 1" using assms(2) by (cases trace) simp_all
  have "fe_sequence (fst (last trace)) = [a + 1..a + int (length trace)] ! ?n"
    using assms by (simp add: in_sequence_def last_conv_nth flip: nth_map [where f = "\<lambda>x. fe_sequence (fst x)"])
  also have "\<dots> = a + 1 + int ?n" using n by (intro nth_upto) simp
  finally show ?thesis using n by simp
qed

lemma sequence_of_batch:
  assumes "prefix (map fst trace) events" "prefix (map fe_sequence events) [a + 1..b]"
  shows "in_sequence a trace"
proof -
  have "prefix (map fe_sequence (map fst trace)) (map fe_sequence events)" using assms(1) by (rule map_mono_prefix)
  from prefix_upto [OF prefix_order.trans [OF this assms(2)]] show ?thesis by (simp add: in_sequence_def comp_def)
qed

lemma reached_generation:
  assumes "feed_views cx" "reaches cx streamId through n"
  obtains g where "event_generation (fc_providerId cx) streamId (fc_view cx n) = Some g" "bg_status g \<noteq> G_retired"
proof -
  obtain g where g: "find_generation (fc_providerId cx) streamId (fc_view cx n) = Some g" using assms(2) by (auto simp: reaches_def)
  have "never_retired (fc_view cx n)" using nr.reachable_inv [OF refl feed_views_reachable [OF assms(1)]] .
  then show thesis using that [of "mapGeneration g"] g find_generation_SomeD [OF g] by (simp add: event_generation_def mapGeneration_def never_retired_def)
qed

text \<open>A stretch of a stream: what was looked at since a state, what was written for it, and where the scan stands.\<close>

definition stretch :: "feed_ctx \<Rightarrow> string \<Rightarrow> feed_state \<Rightarrow> feed_state \<Rightarrow> looked list \<Rightarrow> bool" where
  "stretch cx streamId st st' trace \<longleftrightarrow>
     feed_ok cx st' \<and> fs_turn st \<le> fs_turn st' \<and> list_all (saw cx streamId (fs_turn st) (fs_turn st')) trace \<and> in_sequence (fs_lastScanned st) trace \<and>
     wrote_frames st st' (shown_frames cx trace)"

lemma stretch_append:
  assumes "stretch cx streamId st1 st2 xs" "fs_lastScanned st2 = fs_lastScanned st1 + int (length xs)" "stretch cx streamId st2 st3 ys"
  shows "stretch cx streamId st1 st3 (xs @ ys)"
  using assms all_saw_between [of cx streamId "fs_turn st1" "fs_turn st2" xs "fs_turn st1" "fs_turn st3"]
    all_saw_between [of cx streamId "fs_turn st2" "fs_turn st3" ys "fs_turn st1" "fs_turn st3"]
    in_sequence_append [of "fs_lastScanned st1" xs ys] written_trans [of "fs_writer st1" "fs_writer st2" "shown_frames cx xs" "fs_writer st3"]
  by (auto simp: stretch_def)

lemma stretch_awaited: "feed_ok cx st \<Longrightarrow> stretch cx streamId st (awaited cx st) []"
  using awaited_ok [of cx st] by (simp add: stretch_def in_sequence_def)

lemma stretch_refl: "feed_ok cx st \<Longrightarrow> stretch cx streamId st st []"
  by (simp add: stretch_def in_sequence_def written_refl)

lemma deliver_stretch:
  assumes "feed_views cx" "set events \<subseteq> set (events_at cx streamId (fs_turn st))" and "deliver_events cx streamId events st = (r, st')" "feed_ok cx st" "prefix (map fe_sequence events) [fs_lastScanned st + 1..through]" "events \<noteq> []"
  obtains trace where "stretch cx streamId st st' trace"
    "(\<forall>e. r \<noteq> threw e) \<Longrightarrow> fs_lastScanned st' = fs_lastScanned st + int (length trace)" "int (length trace) \<le> through - fs_lastScanned st"
proof -
  from deliver_events_trace [OF assms(1,3,4,2)] obtain trace where t: "feed_ok cx st'" "fs_turn st \<le> fs_turn st'" "prefix (map fst trace) events"
    "list_all (saw cx streamId (fs_turn st) (fs_turn st')) trace" "wrote_frames st st' (shown_frames cx trace)" "r = returned \<longrightarrow> map fst trace = events"
    "r = refused \<longrightarrow> trace \<noteq> [] \<and> fs_lastScanned st' = fe_sequence (fst (last trace))" by blast
  note sq = sequence_of_batch [OF t(3) assms(5)]
  show thesis
  proof (rule that [of trace])
    show "stretch cx streamId st st' trace" using t sq by (simp add: stretch_def)
    have "length trace \<le> length events" "length events \<le> nat (through - fs_lastScanned st)" "0 < length events"
      using prefix_length_le [OF t(3)] prefix_length_le [OF assms(5)] assms(6) by simp_all
    then show "int (length trace) \<le> through - fs_lastScanned st" by linarith
    assume "\<forall>e. r \<noteq> threw e"
    then consider "r = returned" | "r = refused" by (cases r) auto
    then show "fs_lastScanned st' = fs_lastScanned st + int (length trace)"
    proof cases
      case 1
      then have "map fst trace = events" using t(6) by simp
      moreover have "trace \<noteq> []" using calculation assms(6) by auto
      ultimately show ?thesis using deliver_events_scanned [of cx streamId events st st'] assms(3,6) 1 in_sequence_last [OF sq] by (auto simp: last_map)
    next
      case 2
      then show ?thesis using t(7) in_sequence_last [OF sq] by simp
    qed
  qed
qed

lemma replay_loop_stretch:
  assumes "feed_views cx" "1 \<le> fc_replayBatchSize cx"
  shows "replay_loop cx streamId through st = (r, st') \<Longrightarrow> reaches cx streamId through (fs_turn st) \<Longrightarrow> feed_ok cx st \<Longrightarrow> 0 \<le> fs_lastScanned st \<Longrightarrow>
    \<exists>trace. stretch cx streamId st st' trace \<and> int (length trace) \<le> max 0 (through - fs_lastScanned st) \<and> ((\<forall>e. r \<noteq> threw e) \<longrightarrow> fs_lastScanned st' = fs_lastScanned st + int (length trace)) \<and>
      (r = returned \<longrightarrow> \<not> stream_closed cx (fs_turn st') \<longrightarrow> through \<le> fs_lastScanned st')"
  using assms
proof (induction cx streamId through st rule: replay_loop.induct)
  case (1 cx streamId through st)
  let ?st1 = "awaited cx st" and ?st2 = "awaited cx (awaited cx st)"
  show ?case
  proof (cases "fs_lastScanned st < through \<and> \<not> stream_closed cx (fs_turn st)")
    case False
    then have "r = returned" "st' = st" using 1(2) by (simp_all add: replay_loop.simps [of _ _ _ st])
    then show ?thesis using False stretch_refl [OF 1(4)] by (intro exI [of _ "[]"]) auto
  next
    case True
    from reached_generation [OF 1(6,3)] obtain g where g: "event_generation (fc_providerId cx) streamId (fc_view cx (fs_turn st)) = Some g" "bg_status g \<noteq> G_retired" .
    have "reaches cx streamId through (fs_turn ?st1)" by (rule reaches_later [OF 1(6,3)]) simp
    from batch_contiguous [OF 1(6) this 1(5) _ 1(7)] True
    obtain events where b: "replay_batch cx (fs_turn ?st1) streamId (fs_lastScanned st) through = Inr events" "events \<noteq> []"
      "prefix (map fe_sequence events) [fs_lastScanned st + 1..through]" "set events \<subseteq> set (events_at cx streamId (fs_turn ?st1))" by blast
    have held: "set events \<subseteq> set (events_at cx streamId (fs_turn ?st2))" using events_at_later [OF 1(6), of "fs_turn ?st1" "fs_turn ?st2" streamId] b(4) by auto
    have s2: "stretch cx streamId st ?st2 []" "feed_ok cx ?st2"
      using stretch_append [OF stretch_awaited [OF 1(4)] _ stretch_awaited] awaited_ok [OF 1(4)] awaited_ok by fastforce+
    obtain q st3 where d: "deliver_events cx streamId events ?st2 = (q, st3)" by fastforce
    from deliver_stretch [OF 1(6) held d s2(2)] b obtain xs where x: "stretch cx streamId ?st2 st3 xs"
      "(\<forall>e. q \<noteq> threw e) \<Longrightarrow> fs_lastScanned st3 = fs_lastScanned st + int (length xs)" "int (length xs) \<le> through - fs_lastScanned st" by auto
    have sx: "stretch cx streamId st st3 xs" using stretch_append [OF s2(1) _ x(1)] by simp
    show ?thesis
    proof (cases "q = returned")
      case False
      then have "r = q" "st' = st3" using 1(2) True g b(1,2) d by (cases q; simp add: replay_loop.simps [of _ _ _ st] Let_def)+
      then show ?thesis using sx x(2,3) False by (intro exI [of _ xs]) auto
    next
      case q: True
      then have rest: "replay_loop cx streamId through st3 = (r, st')" using 1(2) True g b(1,2) d by (simp add: replay_loop.simps [of _ _ _ st] Let_def)
      have scan: "fs_lastScanned st3 = fs_lastScanned st + int (length xs)" using x(2) q by simp
      have later: "reaches cx streamId through (fs_turn st3)" using sx by (intro reaches_later [OF 1(6,3)]) (simp add: stretch_def)
      have ok: "feed_ok cx st3" using sx by (simp add: stretch_def)
      have "\<exists>trace. stretch cx streamId st3 st' trace \<and> int (length trace) \<le> max 0 (through - fs_lastScanned st3) \<and> ((\<forall>e. r \<noteq> threw e) \<longrightarrow> fs_lastScanned st' = fs_lastScanned st3 + int (length trace)) \<and>
        (r = returned \<longrightarrow> \<not> stream_closed cx (fs_turn st') \<longrightarrow> through \<le> fs_lastScanned st')"
        using 1(1) [OF _ refl g(1) g(2) b(1) b(2) _ refl] True d q rest later ok scan 1(5,6,7) by fastforce
      then obtain ys where y: "stretch cx streamId st3 st' ys" "int (length ys) \<le> max 0 (through - fs_lastScanned st3)" "(\<forall>e. r \<noteq> threw e) \<longrightarrow> fs_lastScanned st' = fs_lastScanned st3 + int (length ys)"
        "r = returned \<longrightarrow> \<not> stream_closed cx (fs_turn st') \<longrightarrow> through \<le> fs_lastScanned st'" by blast
      show ?thesis using stretch_append [OF sx scan y(1)] y(2,3,4) scan x(3) by (intro exI [of _ "xs @ ys"]) auto
    qed
  qed
qed

text \<open>The events of a stream with the sequences after one and up to another, in the order of the stream.\<close>

definition events_between :: "feed_ctx \<Rightarrow> string \<Rightarrow> int \<Rightarrow> int \<Rightarrow> nat \<Rightarrow> FinalizedBusinessEvent list" where
  "events_between cx streamId a b n = filter (\<lambda>e. a < fe_sequence e \<and> fe_sequence e \<le> b) (events_at cx streamId n)"

lemma stored_sequences:
  assumes "feed_views cx" "e \<in> set (events_at cx streamId n)"
  obtains c where "map fe_sequence (events_at cx streamId n) = [1..c]" "fe_sequence e \<le> c"
proof -
  note inv = reachable_event_inv [OF feed_views_reachable [OF assms(1)], of n]
  obtain row where "row \<in> set (business_events (fc_view cx n))" "event_stream row = (fc_providerId cx, streamId)"
    using assms(2) by (auto simp: events_at_def stream_events_def)
  then obtain g where g: "g \<in> set (generations (fc_view cx n))" "generation_key g = (fc_providerId cx, streamId)"
    using schema_event_fkey [OF event_invD(1) [OF inv]] by fastforce
  have "map be_sequence (stream_events (fc_view cx n) (generation_key g)) = [1..gn_current_sequence g]"
    using event_invD(2) [OF inv] g(1) unfolding gapless_def by blast
  then have seqs: "map fe_sequence (events_at cx streamId n) = [1..gn_current_sequence g]"
    unfolding g(2) by (simp add: events_at_def comp_def mapStoredEvent_def)
  have "fe_sequence e \<in> set (map fe_sequence (events_at cx streamId n))" using assms(2) by simp
  then show thesis using that [OF seqs] unfolding seqs by simp
qed

text \<open>Events of the stream that are numbered one after the other are the events of the stream that have these numbers.\<close>

lemma trace_is_stream:
  assumes "feed_views cx" "list_all (saw cx streamId lo hi) trace" "in_sequence a trace" "0 \<le> a"
  shows "map fst trace = events_between cx streamId a (a + int (length trace)) hi"
proof (cases "trace = []")
  case False
  let ?b = "a + int (length trace)"
  have held: "set (map fst trace) \<subseteq> set (events_at cx streamId hi)"
    using assms(2) events_at_later [OF assms(1)] unfolding list_all_iff saw_def by (fastforce dest: less_imp_le)
  then have "fst (last trace) \<in> set (events_at cx streamId hi)" using False by auto
  from stored_sequences [OF assms(1) this] in_sequence_last [OF assms(3) False]
  obtain c where c: "map fe_sequence (events_at cx streamId hi) = [1..c]" "?b \<le> c" by auto
  have "map fe_sequence (events_between cx streamId a ?b hi) = filter (\<lambda>n. a < n \<and> n \<le> ?b) [1..c]"
    unfolding events_between_def c(1) [symmetric] by (simp add: filter_map comp_def)
  also have "\<dots> = [a + 1..?b]" using assms(4) c(2) by (simp add: filter_upto max_def min_absorb2)
  also have "\<dots> = map fe_sequence (map fst trace)" using assms(3) by (simp add: in_sequence_def comp_def)
  finally have same: "map fe_sequence (map fst trace) = map fe_sequence (events_between cx streamId a ?b hi)" ..
  have "distinct (map fe_sequence (events_at cx streamId hi))" unfolding c(1) by simp
  then have "inj_on fe_sequence (set (events_at cx streamId hi))" by (simp add: distinct_map)
  then have "inj_on fe_sequence (set (map fst trace) \<union> set (events_between cx streamId a ?b hi))"
    by (rule inj_on_subset) (use held in \<open>auto simp: events_between_def\<close>)
  then show ?thesis using same inj_on_map_eq_map by blast
qed (simp add: events_between_def filter_empty_conv)

text \<open>C18.  A replay that returns while the connection is open has looked at exactly the stored events of its stream after the one it started from up
  to the one asked for (their sequences have no gap), in the order of the stream, each once, whatever was committed between its reads; it asked for the caller's
  projection of each of them during the replay, and has handed to the connection exactly one message for each of them of which the caller
  may see one, carrying this event, and nothing else.\<close>

theorem replay_misses_nothing:
  assumes "feed_views cx" "1 \<le> fc_replayBatchSize cx" "event_generation (fc_providerId cx) streamId (fc_view cx (fs_turn st)) = Some g"
    and "through \<le> bg_currentSequence g" "writer_ok (fc_writer cx) (fs_writer st)" "0 \<le> fs_lastScanned st"
    and "replay_loop cx streamId through st = (returned, st')" "\<not> stream_closed cx (fs_turn st')" "\<not> tw_closed (fs_writer st')"
  shows "\<exists>trace. map fst trace = events_between cx streamId (fs_lastScanned st) through (fs_turn st') \<and>
    map (\<lambda>x. fe_sequence (fst x)) trace = [fs_lastScanned st + 1..through] \<and> list_all (saw cx streamId (fs_turn st) (fs_turn st')) trace \<and>
    writer_log (fs_writer st') = writer_log (fs_writer st) @ shown_frames cx trace"
proof -
  have "reaches cx streamId through (fs_turn st)" using assms(3,4) by (auto simp: reaches_def event_generation_def mapGeneration_def)
  from replay_loop_stretch [OF assms(1,2,7) this assms(5,6)]
  obtain trace where t: "stretch cx streamId st st' trace" "int (length trace) \<le> max 0 (through - fs_lastScanned st)"
    "through \<le> fs_lastScanned st + int (length trace)" using assms(8) by auto
  let ?b = "fs_lastScanned st + int (length trace)"
  have x: "list_all (saw cx streamId (fs_turn st) (fs_turn st')) trace" "in_sequence (fs_lastScanned st) trace" using t(1) by (simp_all add: stretch_def)
  have "[fs_lastScanned st + 1..?b] = [fs_lastScanned st + 1..through] \<and>
    events_between cx streamId (fs_lastScanned st) ?b (fs_turn st') = events_between cx streamId (fs_lastScanned st) through (fs_turn st')"
  proof (cases "fs_lastScanned st \<le> through")
    case True
    then have "?b = through" using t(2,3) by simp
    then show ?thesis by simp
  qed (use t(2) in \<open>auto simp: events_between_def filter_empty_conv\<close>)
  then show ?thesis using x trace_is_stream [OF assms(1) x assms(6)] t(1) assms(9)
    by (intro exI [of _ trace]) (auto simp: stretch_def in_sequence_def written_def)
qed

section \<open>The whole stream\<close>

text \<open>The notice that the stream has been left: what the record of the rotation says, as one of the reads found it.\<close>

definition left_notice :: "feed_ctx \<Rightarrow> string \<Rightarrow> string list \<Rightarrow> bool" where
  "left_notice cx streamId tail \<longleftrightarrow> tail = [] \<or>
     (\<exists>n c. continuityForPreviousStream (fc_providerId cx) streamId (fc_view cx n) = Some c \<and> tail = [frame_of (continuity_message (fc_subscriptionId cx) c)])"

lemma left_notice_none [simp]: "left_notice cx streamId []"
  by (simp add: left_notice_def)

text \<open>A stretch that may end with this notice.\<close>

definition ended :: "feed_ctx \<Rightarrow> string \<Rightarrow> feed_state \<Rightarrow> feed_state \<Rightarrow> bool" where
  "ended cx streamId st st' \<longleftrightarrow>
     feed_ok cx st' \<and> fs_turn st \<le> fs_turn st' \<and> (\<exists>trace tail. list_all (saw cx streamId (fs_turn st) (fs_turn st')) trace \<and> in_sequence (fs_lastScanned st) trace \<and>
       left_notice cx streamId tail \<and> wrote_frames st st' (shown_frames cx trace @ tail))"

lemma stretch_ended: "stretch cx streamId st st' trace \<Longrightarrow> ended cx streamId st st'"
  unfolding ended_def stretch_def by (metis append_Nil2 left_notice_none)

lemma ended_after:
  assumes "stretch cx streamId st1 st2 xs" "fs_lastScanned st2 = fs_lastScanned st1 + int (length xs)" "ended cx streamId st2 st3"
  shows "ended cx streamId st1 st3"
proof -
  obtain ys tail where y: "feed_ok cx st3" "fs_turn st2 \<le> fs_turn st3" "list_all (saw cx streamId (fs_turn st2) (fs_turn st3)) ys"
    "in_sequence (fs_lastScanned st2) ys" "left_notice cx streamId tail" "wrote_frames st2 st3 (shown_frames cx ys @ tail)"
    using assms(3) unfolding ended_def by blast
  have x: "fs_turn st1 \<le> fs_turn st2" "list_all (saw cx streamId (fs_turn st1) (fs_turn st2)) xs" using assms(1) by (simp_all add: stretch_def)
  have "wrote_frames st1 st3 (shown_frames cx (xs @ ys) @ tail)" using written_trans [OF _ y(6)] assms(1) by (simp add: stretch_def)
  moreover have "in_sequence (fs_lastScanned st1) (xs @ ys)" using in_sequence_append y(4) assms(1,2) by (simp add: stretch_def)
  moreover have "list_all (saw cx streamId (fs_turn st1) (fs_turn st3)) (xs @ ys)"
    using all_saw_between [OF x(2) order.refl y(2)] all_saw_between [OF y(3) x(1) order.refl] by simp
  moreover have "fs_turn st1 \<le> fs_turn st3" using x(1) y(2) by simp
  ultimately show ?thesis using y(1,5) unfolding ended_def by blast
qed

lemma close_stream_ok:
  assumes "feed_ok cx st"
  shows "feed_ok cx (close_stream st)" "wrote_frames st (close_stream st) []"
  using close_keeps [OF assms] keeps_written [OF assms] by (auto simp: close_stream_def writer_keeps_def)

lemma send_continuity_ok:
  assumes "feed_ok cx st"
  obtains tail where "feed_ok cx (send_continuity cx streamId st)" "wrote_frames st (send_continuity cx streamId st) tail" "left_notice cx streamId tail"
    "fs_turn st \<le> fs_turn (send_continuity cx streamId st)"
proof (cases "continuityForPreviousStream (fc_providerId cx) streamId (fc_view cx (fs_turn st))")
  case None
  then show thesis using that [of "[]"] awaited_ok [OF assms] by (simp add: send_continuity_def)
next
  case (Some c)
  note aw = awaited_ok [OF assms]
  obtain ok st2 where send: "send_message cx (continuity_message (fc_subscriptionId cx) c) (awaited cx st) = (ok, st2)" by fastforce
  have "feed_ok cx st2" "wrote_frames st st2 ([] @ [frame_of (continuity_message (fc_subscriptionId cx) c)])" "fs_turn st2 = Suc (fs_turn st)"
    using send_ok [OF _ send] aw written_trans by (blast, blast, simp)
  then show thesis using that [of "[frame_of (continuity_message (fc_subscriptionId cx) c)]"] Some send by (auto simp: send_continuity_def left_notice_def)
qed

lemma close_with_notice:
  assumes "feed_ok cx st"
  shows "ended cx streamId st (close_stream (send_continuity cx streamId st))"
proof -
  obtain tail where t: "feed_ok cx (send_continuity cx streamId st)" "wrote_frames st (send_continuity cx streamId st) tail" "left_notice cx streamId tail"
    "fs_turn st \<le> fs_turn (send_continuity cx streamId st)" using send_continuity_ok [OF assms] .
  note c = close_stream_ok [OF t(1)]
  have "wrote_frames st (close_stream (send_continuity cx streamId st)) (shown_frames cx [] @ tail)" using written_trans [OF t(2) c(2)] by simp
  moreover have "list_all (saw cx streamId a b) []" "in_sequence (fs_lastScanned st) []" for a b by (simp_all add: in_sequence_def)
  moreover have "fs_turn st \<le> fs_turn (close_stream (send_continuity cx streamId st))" using t(4) by (simp add: close_stream_def)
  ultimately show ?thesis using c(1) t(3) unfolding ended_def by blast
qed

lemma live_loop_ended:
  assumes "feed_views cx" "1 \<le> fc_replayBatchSize cx"
  shows "live_loop fuel cx streamId startedAt st = Some (r, st') \<Longrightarrow> feed_ok cx st \<Longrightarrow> 0 \<le> fs_lastScanned st \<Longrightarrow> ended cx streamId st st'"
proof (induction fuel arbitrary: st)
  case (Suc fuel)
  let ?st1 = "awaited cx st" and ?st2 = "awaited cx (awaited cx st)"
  note refl_st = stretch_refl [OF Suc.prems(2)] and aw = awaited_ok [OF Suc.prems(2)]
  have s1: "stretch cx streamId st ?st1 []" by (rule stretch_awaited [OF Suc.prems(2)])
  have s2: "stretch cx streamId st ?st2 []" using stretch_append [OF s1 _ stretch_awaited] aw by fastforce
  have ok2: "feed_ok cx ?st2" using s2 by (simp add: stretch_def)
  have closing: "ended cx streamId st (close_stream (send_continuity cx streamId ?st2))"
    using ended_after [OF s2 _ close_with_notice [OF ok2]] by simp
  consider "stream_closed cx (fs_turn st)" "st' = st"
    | "st' = close_stream st"
    | "st' = ?st1"
    | "st' = close_stream (send_continuity cx streamId ?st2)"
    | g q st3 where "event_generation (fc_providerId cx) streamId (fc_view cx (fs_turn ?st1)) = Some g"
      "replay_loop cx streamId (bg_currentSequence g) ?st2 = (q, st3)"
      "(\<exists>e. q = threw e) \<and> st' = st3 \<or> (\<forall>e. q \<noteq> threw e) \<and> live_loop fuel cx streamId startedAt st3 = Some (r, st')"
    using Suc.prems(1) by (auto simp: Let_def split: if_splits option.splits prod.splits feed_end.splits)
  then show ?case
  proof cases
    case 2
    have "stretch cx streamId st (close_stream st) []"
      using close_stream_ok [OF Suc.prems(2)] by (simp add: stretch_def in_sequence_def) (simp add: close_stream_def)
    then show ?thesis using 2 stretch_ended by simp
  next
    case (5 g q st3)
    have "reaches cx streamId (bg_currentSequence g) (fs_turn ?st1)" using 5(1) by (auto simp: reaches_def event_generation_def mapGeneration_def)
    from reaches_later [OF assms(1) this, of "fs_turn ?st2"] have "reaches cx streamId (bg_currentSequence g) (fs_turn ?st2)" by simp
    from replay_loop_stretch [OF assms 5(2) this ok2] Suc.prems(3)
    obtain trace where t: "stretch cx streamId ?st2 st3 trace" "(\<forall>e. q \<noteq> threw e) \<longrightarrow> fs_lastScanned st3 = fs_lastScanned st + int (length trace)" by auto
    have s3: "stretch cx streamId st st3 trace" using stretch_append [OF s2 _ t(1)] by simp
    then have ok3: "feed_ok cx st3" by (simp add: stretch_def)
    from 5(3) show ?thesis
    proof
      assume go: "(\<forall>e. q \<noteq> threw e) \<and> live_loop fuel cx streamId startedAt st3 = Some (r, st')"
      then have scan: "fs_lastScanned st3 = fs_lastScanned st + int (length trace)" using t(2) by simp
      have "ended cx streamId st3 st'" using Suc.IH [OF _ ok3] go scan Suc.prems(3) by simp
      then show ?thesis by (rule ended_after [OF s3 scan])
    qed (use stretch_ended [OF s3] in simp)
  qed (use stretch_ended [OF refl_st] stretch_ended [OF s1] closing in simp_all)
qed simp

text \<open>Where a listener begins: at a generation of the store, not before its start.\<close>

lemma generation_bounds:
  assumes "event_inv db" "find_generation p streamId db = Some row"
  shows "0 \<le> last_sequence (mapGeneration row)" "last_sequence (mapGeneration row) \<le> gn_current_sequence row"
    "0 \<le> bg_earliestAvailableSequence (mapGeneration row) - 1" "bg_streamId (mapGeneration row) = streamId"
  using event_invD(1) [OF assms(1)] find_generation_SomeD [OF assms(2)]
  by (auto dest!: schema_generations simp: generation_row_ok_def last_sequence_def mapGeneration_def)

lemma chosen_generation:
  assumes "feed_views cx" "choose_generation cx request = Inr (g, after)"
  shows "0 \<le> after" "reaches cx (bg_streamId g) (last_sequence g) 2"
proof -
  obtain selection n streamId row where c: "after = acceptedAfterSequence selection g" "g = mapGeneration row" "n \<le> 1"
    "find_generation (fc_providerId cx) streamId (fc_view cx n) = Some row"
    "selection = from_latest \<or> selection = from_earliest \<or> (\<exists>s k. selection = from_cursor s (int k))"
  proof -
    obtain selection current where sel: "parseListenSelection (fj_params request) = Inr selection"
      "currentGeneration (fc_providerId cx) (fc_view cx 0) = Some current"
      "(case selection of from_cursor streamId _ \<Rightarrow> event_generation (fc_providerId cx) streamId (fc_view cx 1) | _ \<Rightarrow> Some current) = Some g"
      "after = acceptedAfterSequence selection g"
      using assms(2) by (auto simp: choose_generation_def bind_err_def Let_def split: sum.splits option.splits if_splits)
    have nonneg: "selection = from_latest \<or> selection = from_earliest \<or> (\<exists>s k. selection = from_cursor s (int k))"
      using sel(1) by (auto simp: parseListenSelection_def parse_event_cursor_def bind_err_def invalidParams_def split: option.splits sum.splits if_splits json.splits)
    obtain row s where cur: "current = mapGeneration row" "find_generation (fc_providerId cx) s (fc_view cx 0) = Some row"
      using sel(2) by (auto simp: currentGeneration_def current_generation_row_def split: option.splits)
    show thesis
    proof (cases selection)
      case (from_cursor s k)
      then have "event_generation (fc_providerId cx) s (fc_view cx 1) = Some g" using sel(3) by simp
      then obtain row1 where "g = mapGeneration row1" "find_generation (fc_providerId cx) s (fc_view cx 1) = Some row1"
        by (auto simp: event_generation_def)
      then show thesis using that [OF sel(4) _ _ _ nonneg, of row1 1 s] by simp
    next
      case from_latest
      then have "g = mapGeneration row" using sel(3) cur(1) by simp
      then show thesis using that [OF sel(4) _ _ cur(2) nonneg] by simp
    next
      case from_earliest
      then have "g = mapGeneration row" using sel(3) cur(1) by simp
      then show thesis using that [OF sel(4) _ _ cur(2) nonneg] by simp
    qed
  qed
  note inv = reachable_event_inv [OF feed_views_reachable [OF assms(1)]]
  note b = generation_bounds [OF inv c(4)]
  show "0 \<le> after" using b(1,3) c(1,2,5) by (auto simp: acceptedAfterSequence_def)
  have "reaches cx streamId (last_sequence g) n" using b(2) c(2,4) by (auto simp: reaches_def)
  then show "reaches cx (bg_streamId g) (last_sequence g) 2" using reaches_later [OF assms(1), of streamId _ n 2] b(4) c(2,3) by simp
qed

lemma run_stream_ended:
  assumes "feed_views cx" "1 \<le> fc_replayBatchSize cx" "choose_generation cx request = Inr (g, after)" "run_stream fuel cx g after = Some (r, st')"
  obtains roster st1 where "feed_ok cx st1" "fs_lastScanned st1 = after"
    "wrote_frames (started_stream after) st1 [frame_of (event_ack (fc_subscriptionId cx) g after roster)]" "ended cx (bg_streamId g) st1 st'"
    "roster = sourceRoster (fc_env cx 2) (fc_providerId cx) (bg_streamId g) (fc_view cx 2)" "fs_turn st1 = 3"
proof -
  let ?st = "started_stream after" and ?id = "bg_streamId g"
  let ?roster = "sourceRoster (fc_env cx (fs_turn ?st)) (fc_providerId cx) ?id (fc_view cx (fs_turn ?st))"
  note start = chosen_generation [OF assms(1,3)]
  have ok: "feed_ok cx ?st" by (simp add: started_stream_def new_writer_def writer_ok_def queue_ok_def)
  note aw = awaited_ok [OF ok]
  obtain sent st1 where send: "send_message cx (event_ack (fc_subscriptionId cx) g after ?roster) (awaited cx ?st) = (sent, st1)" by fastforce
  note sent1 = send_ok [OF conjunct1 [OF aw] send]
  have s1: "feed_ok cx st1" "fs_lastScanned st1 = after" "fs_turn st1 = 3" using sent1 by (simp_all add: started_stream_def)
  have w1: "wrote_frames ?st st1 ([] @ [frame_of (event_ack (fc_subscriptionId cx) g after ?roster)])"
    using written_trans [OF conjunct2 [OF aw]] sent1 by blast
  have "reaches cx ?id (last_sequence g) (fs_turn st1)" using reaches_later [OF assms(1) start(2)] s1(3) by simp
  note loop = replay_loop_stretch [OF assms(1,2) _ this s1(1)]
  have "ended cx ?id st1 st'"
  proof (cases sent)
    case False
    then have "st' = st1" using assms(4) send by (simp add: run_stream_def Let_def)
    then show ?thesis using stretch_ended [OF stretch_refl [OF s1(1)]] by simp
  next
    case True
    obtain q st2 where q: "replay_loop cx ?id (last_sequence g) st1 = (q, st2)" by fastforce
    from loop [OF q] obtain trace where t: "stretch cx ?id st1 st2 trace" "(\<forall>e. q \<noteq> threw e) \<longrightarrow> fs_lastScanned st2 = fs_lastScanned st1 + int (length trace)"
      using start(1) s1(2) by auto
    have ok2: "feed_ok cx st2" using t(1) by (simp add: stretch_def)
    consider "st' = st2" | "\<forall>e. q \<noteq> threw e" "st' = close_stream (send_continuity cx ?id st2)"
      | "\<forall>e. q \<noteq> threw e" "live_loop fuel cx ?id (fc_date cx (fs_turn st2)) st2 = Some (r, st')"
      using assms(4) send True q by (cases q) (auto simp: run_stream_def Let_def split: if_splits)
    then show ?thesis
    proof cases
      case 1
      then show ?thesis using stretch_ended [OF t(1)] by simp
    next
      case 2
      then show ?thesis using ended_after [OF t(1) _ close_with_notice [OF ok2]] t(2) by simp
    next
      case 3
      then show ?thesis using ended_after [OF t(1) _ live_loop_ended [OF assms(1,2) 3(2) ok2]] t(2) start(1) s1(2) by simp
    qed
  qed
  then show thesis using that [of st1 ?roster] s1 w1 by (simp add: started_stream_def)
qed

text \<open>C17.  Everything a listener is sent is, in this order, the acknowledgement with the position that was accepted and the sources of the stream; the
  messages of the stored events of the stream that come right after that position, all of them looked at, in the order of the stream, each once and without a gap
  across all polls, and left out only where the caller had no projection of that event when it was looked at; and at most one notice that the
  stream has been left, with what the record of the rotation says.  A message carries the event it is sent for.  A stream that ends early is cut
  off, never reordered.\<close>

theorem listener_gets_stream_in_order:
  assumes "feed_views cx" "1 \<le> fc_replayBatchSize cx" "choose_generation cx request = Inr (g, after)"
    and "event_listen fuel cx request = Inr (Some (r, st'))"
  shows "\<exists>roster trace tail. roster = sourceRoster (fc_env cx 2) (fc_providerId cx) (bg_streamId g) (fc_view cx 2) \<and>
    map fst trace = events_between cx (bg_streamId g) after (after + int (length trace)) (fs_turn st') \<and>
    map (\<lambda>x. fe_sequence (fst x)) trace = [after + 1..after + int (length trace)] \<and>
    list_all (saw cx (bg_streamId g) 2 (fs_turn st')) trace \<and> left_notice cx (bg_streamId g) tail \<and>
    prefix (tw_sent (fs_writer st')) (frame_of (event_ack (fc_subscriptionId cx) g after roster) # shown_frames cx trace @ tail)"
proof -
  obtain st2 where run: "run_stream fuel cx g after = Some (r, st2)" "st' = st2\<lparr>fs_writer := dispose (fs_writer st2)\<rparr>"
    using assms(3,4) by (auto simp: event_listen_def)
  from run_stream_ended [OF assms(1-3) run(1)] obtain roster st1 where s: "feed_ok cx st1" "fs_lastScanned st1 = after"
    "wrote_frames (started_stream after) st1 [frame_of (event_ack (fc_subscriptionId cx) g after roster)]" "ended cx (bg_streamId g) st1 st2"
    "roster = sourceRoster (fc_env cx 2) (fc_providerId cx) (bg_streamId g) (fc_view cx 2)" "fs_turn st1 = 3" .
  then obtain trace tail where t: "feed_ok cx st2" "list_all (saw cx (bg_streamId g) 3 (fs_turn st2)) trace" "in_sequence after trace"
    "left_notice cx (bg_streamId g) tail" "wrote_frames st1 st2 (shown_frames cx trace @ tail)"
    unfolding ended_def by auto
  have turn: "fs_turn st' = fs_turn st2" using run(2) by simp
  note d = dispose_keeps [OF t(1)]
  have "wrote_frames st2 st' []" using keeps_written [OF t(1)] d run(2) by simp
  from written_trans [OF written_trans [OF s(3) t(5)] this]
  have "prefix (writer_log (fs_writer st')) (writer_log (fs_writer (started_stream after)) @
      (frame_of (event_ack (fc_subscriptionId cx) g after roster) # shown_frames cx trace @ tail))"
    using d run(2) by (simp add: written_def)
  moreover have "writer_log (fs_writer (started_stream after)) = []" by (simp add: started_stream_def new_writer_def writer_log_def)
  moreover have "prefix (tw_sent (fs_writer st')) (writer_log (fs_writer st'))" by (simp add: writer_log_def)
  ultimately have "prefix (tw_sent (fs_writer st')) (frame_of (event_ack (fc_subscriptionId cx) g after roster) # shown_frames cx trace @ tail)"
    using prefix_order.trans by simp
  moreover have "list_all (saw cx (bg_streamId g) 2 (fs_turn st')) trace" using all_saw_between [OF t(2)] turn by simp
  moreover note trace_is_stream [OF assms(1) t(2,3) chosen_generation(1) [OF assms(1,3)]]
  ultimately show ?thesis using t(3,4) s(5) turn unfolding in_sequence_def by auto
qed

section \<open>Relations\<close>

lemma fk_relationError [known_rules]: "status \<in> error_statuses \<Longrightarrow> fails_known (Inl (Frozen (relationError code status)))"
  by (simp add: fails_known_def relationError_def frozen_error_def known_error_def known_codes_def)

lemma fk_mapRelationError [known_rules]: "fails_known (Inl (Frozen (mapRelationError e)))"
proof -
  have "mapRelationError e = relationError ''BUSINESS_EVENT_NOT_FOUND'' 404 \<or> (\<exists>status \<in> {400, 403, 409, 410}. mapRelationError e = relationError (err_message e) status)"
    by (auto simp: mapRelationError_def split: option.splits if_splits)
  then show ?thesis by (auto simp: error_statuses_def intro!: fk_relationError)
qed

lemma fk_relation_request [known_rules]: "fails_known (requireBusinessEventsCapability request)" "fails_known (parseRelationRequest ps)"
  unfolding requireBusinessEventsCapability_def parseRelationRequest_def parse_page_token_def Let_def case_prod_beta by (intro known_rules)+

lemma fk_fresh_projection: "fails_known (fst (fresh_projection cx rq au db))"
  by (auto simp: fresh_projection_def Let_def error_statuses_def split: sum.splits option.splits prod.splits intro!: known_rules)

text \<open>The relation list meets what the dispatcher relies on: it throws no protocol error but those of the profile.\<close>

lemma relation_list_known: "fails_known (fst (relation_list cx request a db))"
proof (cases "bind_err (requireBusinessEventsCapability request) (\<lambda>_. parseRelationRequest (fj_params request))")
  case (Inl e)
  have "fails_known (bind_err (requireBusinessEventsCapability request) (\<lambda>_. parseRelationRequest (fj_params request)))" by (intro known_rules)
  then show ?thesis using Inl by (simp add: relation_list_def fails_known_def)
next
  case (Inr rq)
  let ?db = "rx_others cx 0 db" and ?au = "authorization_identity a"
  let ?token = "case rq_projectionToken rq of Some t \<Rightarrow> (Inr t, ?db) | None \<Rightarrow> fresh_projection cx rq ?au ?db"
  let ?page = "\<lambda>token db1. relationProjectionPage (rx_env cx 3) token (rx_providerId cx, rq_streamId rq, rq_eventId rq) ?au (rq_afterTaskId rq) (rq_limit rq) (rx_others cx 3 db1)"
  have reset: "fails_known (Inl (Frozen (relationError ''BUSINESS_EVENT_STREAM_RESET'' 409)) :: thrown + json_object)" by (intro known_rules) (simp add: error_statuses_def)
  have token: "fails_known (fst ?token)" using fk_fresh_projection by (auto split: option.splits intro: known_rules)
  obtain v db1 where v: "?token = (v, db1)" by fastforce
  show ?thesis
  proof (cases v)
    case (Inl e)
    then have "fails_known (Inl e :: thrown + json_object)" using token v by (simp add: fails_known_def)
    then show ?thesis using Inr v Inl reset unfolding relation_list_def by (simp add: Let_def split: option.splits)
  next
    case (Inr t)
    have "fails_known (Inl (Frozen (mapRelationError e)) :: thrown + json_object)" "fails_known (Inr y :: thrown + json_object)" for e y
      by (rule known_rules)+
    then show ?thesis using \<open>_ = Inr rq\<close> v Inr reset unfolding relation_list_def
      by (cases "?page t db1") (simp_all add: Let_def split: option.splits)
  qed
qed

section \<open>Listeners\<close>

text \<open>The counters stand for the multiset of the authorizations that listen.\<close>

definition counts_listeners :: "string multiset \<Rightarrow> feed_counters \<Rightarrow> bool" where
  "counts_listeners M c \<longleftrightarrow> fk_active c = int (size M) \<and> (\<forall>k. fk_byAuth c k = (if k \<in># M then Some (int (count M k)) else None))"

lemma counted_for: "counts_listeners M c \<Longrightarrow> (case fk_byAuth c key of None \<Rightarrow> 0 | Some n \<Rightarrow> n) = int (count M key)"
  by (auto simp: counts_listeners_def not_in_iff)

lemma leave_counts:
  assumes "counts_listeners M c" "key \<in># M"
  shows "counts_listeners (M - {#key#}) (leave_listener key c)"
proof -
  obtain N where N: "M = add_mset key N" using multi_member_split [OF assms(2)] by blast
  have "fk_byAuth c key = Some (int (count N key) + 1)" using assms(1) N by (simp add: counts_listeners_def)
  then show ?thesis using assms(1) N by (auto simp: counts_listeners_def leave_listener_def Let_def not_in_iff)
qed

text \<open>C19. The counters of the feed are those of the multiset of its listeners: a listener is admitted exactly when both limits leave room for it, it is
  then counted once, in all and for its authorization, and when it leaves it is taken out once; an authorization without listeners leaves no entry.\<close>

theorem listener_counters_exact:
  assumes "counts_listeners M c"
  shows "(case admit_listener limits key c of
      Inl e \<Rightarrow> fl_maxSubscriptions limits \<le> size M \<or> fl_maxSubscriptionsPerAuth limits \<le> count M key
    | Inr c' \<Rightarrow> size M < fl_maxSubscriptions limits \<and> count M key < fl_maxSubscriptionsPerAuth limits \<and> counts_listeners (add_mset key M) c') \<and>
    (key \<in># M \<longrightarrow> counts_listeners (M - {#key#}) (leave_listener key c))"
proof -
  have "fk_active c = int (size M)" using assms by (simp add: counts_listeners_def)
  moreover have "counts_listeners (add_mset key M) \<lparr>fk_active = int (size M) + 1, fk_byAuth = (fk_byAuth c)(key \<mapsto> int (count M key) + 1)\<rparr>"
    using assms by (auto simp: counts_listeners_def)
  ultimately show ?thesis using counted_for [OF assms] leave_counts [OF assms]
    by (auto simp: admit_listener_def Let_def)
qed

end
