(* ===== verification/Event_Feed_Example.thy ===== *)
theory Event_Feed_Example
  imports Event_Feed_Theorems Event_Example
begin

text \<open>A listener of the stream of \<open>Event_Example\<close> that starts at its beginning, is sent the one event it may see and is then closed.\<close>

definition ly_authorization :: AuthorizationContext where
  "ly_authorization = \<lparr>au_hash = replicate 64 CHR ''a'', au_executionMode = live, au_simulationId = None, au_correlationId = None, au_traceId = None,
     au_rootTraceparent = None, au_rootTracestate = None\<rparr>"

definition ly_projection :: AuthorizedBusinessEventProjection where
  "ly_projection = \<lparr>ap_event = mapStoredEvent fx_event, ap_relatedTaskIds = [''k''], ap_candidateRelationHash = fx_hash, ap_projectionRelationHash = fx_hash\<rparr>"

definition ly_generation :: BusinessEventGeneration where
  "ly_generation = mapGeneration (fx_gen G_current 1)"

definition ly_event_message :: json_object where
  "ly_event_message = eventNotification (JNum 7) ly_projection"

definition ly_ack_message :: json_object where
  "ly_ack_message = event_ack (JNum 7) ly_generation 0 [fx_source]"

text \<open>The writer has room for the longer of the two messages.\<close>

definition ly_writer :: WriterOptions where
  "ly_writer = \<lparr>wo_maxMessages = 1, wo_maxBytes = max (byteLength (frame_of ly_event_message)) (byteLength (frame_of ly_ack_message))\<rparr>"

definition ly_ctx :: feed_ctx where
  "ly_ctx = \<lparr>fc_providerId = ''p'', fc_view = \<lambda>_. fx_db5, fc_env = \<lambda>_. fx_env, fc_date = \<lambda>_. 0, fc_closedAt = None, fc_writable = \<lambda>_. True, fc_drains = \<lambda>_. False,
     fc_writer = ly_writer, fc_replayBatchSize = 10, fc_maxStreamDurationMs = 0, fc_authorization = ly_authorization, fc_subscriptionId = JNum 7\<rparr>"

lemma ly_views: "feed_views ly_ctx" "1 \<le> fc_replayBatchSize ly_ctx"
  using fx_reachable(5) by (simp_all add: feed_views_def ly_ctx_def)

lemma ly_fields [simp]:
  "fc_providerId ly_ctx = ''p''" "fc_view ly_ctx n = fx_db5" "fc_subscriptionId ly_ctx = JNum 7" "stream_closed ly_ctx n = False" "fc_drains ly_ctx n = False"
  by (simp_all add: ly_ctx_def stream_closed_def)

lemma ly_reads:
  "event_generation ''p'' ''g'' fx_db5 = Some ly_generation" "bg_status ly_generation = G_current" "bg_currentSequence ly_generation = 1"
  "event_projection ly_ctx n ''g'' (replicate 43 CHR ''e'') = Inr (Some ly_projection)"
  "replay_batch ly_ctx n ''g'' 0 1 = Inr [mapStoredEvent fx_event]"
  by (simp_all add: event_projection_def replay_batch_def) (simp_all add: ly_ctx_def, code_simp+)

text \<open>A message that fits is sent at once.\<close>

lemma ly_send:
  assumes "byteLength (frame_of m) \<le> wo_maxBytes ly_writer" "fs_writer st = new_writer\<lparr>tw_headersSent := True, tw_sent := sent\<rparr>"
  shows "send_message ly_ctx m st = (True, st\<lparr>fs_writer := new_writer\<lparr>tw_headersSent := True, tw_sent := sent @ [frame_of m]\<rparr>\<rparr>)"
  using assms by (simp add: send_message_def enqueue_def Let_def ly_ctx_def)
    (auto simp: ly_writer_def new_writer_def flush_def flush_loop.simps send_first_def queue_delta_def)

definition ly_state :: "nat \<Rightarrow> string list \<Rightarrow> int \<Rightarrow> feed_state" where
  "ly_state n sent scanned =
     \<lparr>fs_turn = n, fs_writer = new_writer\<lparr>tw_headersSent := True, tw_sent := sent\<rparr>, fs_lastScanned = scanned, fs_lastDelivered = scanned\<rparr>"

lemma ly_awaited: "awaited ly_ctx (ly_state n sent scanned) = ly_state (Suc n) sent scanned"
  by (simp add: awaited_def Let_def ly_state_def)

lemma ly_fits: "byteLength (frame_of ly_event_message) \<le> wo_maxBytes ly_writer" "byteLength (frame_of ly_ack_message) \<le> wo_maxBytes ly_writer"
  by (simp_all add: ly_writer_def)

lemma ly_replay:
  "replay_loop ly_ctx ''g'' 1 (ly_state n sent 0) = (returned, ly_state (n + 3) (sent @ [frame_of ly_event_message]) 1)"
proof -
  have e: "fe_sequence (mapStoredEvent fx_event) = 1" "fe_eventId (mapStoredEvent fx_event) = replicate 43 CHR ''e''" by code_simp+
  have m: "eventNotification (JNum 7) ly_projection = ly_event_message" by (simp add: ly_event_message_def)
  have "deliver_events ly_ctx ''g'' [mapStoredEvent fx_event] (ly_state (Suc (Suc n)) sent 0) =
      (returned, ly_state (n + 3) (sent @ [frame_of ly_event_message]) 1)"
    using ly_send [OF ly_fits(1), of _ sent] by (simp add: e ly_reads m Let_def awaited_def numeral_3_eq_3) (simp add: ly_state_def e)
  moreover have "replay_loop ly_ctx ''g'' 1 (ly_state m1 s1 1) = (returned, ly_state m1 s1 1)" for m1 s1
    by (simp add: replay_loop.simps ly_state_def)
  moreover have "fs_lastScanned (ly_state n sent 0) = 0" "fs_lastScanned (ly_state (Suc n) sent 0) = 0" by (simp_all add: ly_state_def)
  ultimately show ?thesis
    by (simp add: replay_loop.simps [of _ _ _ "ly_state n sent 0"] Let_def ly_awaited ly_reads del: deliver_events.simps)
qed

lemma ly_events: "events_between ly_ctx ''g'' 0 1 n = [mapStoredEvent fx_event]"
  unfolding events_between_def events_at_def ly_fields by code_simp

theorem replay_misses_nothing_witness:
  "replay_loop ly_ctx ''g'' 1 (ly_state 0 [] 0) = (returned, ly_state 3 [frame_of ly_event_message] 1) \<and>
   (\<exists>trace. map fst trace = [mapStoredEvent fx_event] \<and> list_all (saw ly_ctx ''g'' 0 3) trace \<and>
      shown_frames ly_ctx trace = [frame_of ly_event_message])"
proof -
  have ok: "writer_ok (fc_writer ly_ctx) (fs_writer (ly_state 0 [] 0))" by (simp add: ly_state_def new_writer_def writer_ok_def queue_ok_def)
  have run: "replay_loop ly_ctx ''g'' 1 (ly_state 0 [] 0) = (returned, ly_state 3 [frame_of ly_event_message] 1)" using ly_replay [of 0 "[]"] by simp
  have g: "event_generation (fc_providerId ly_ctx) ''g'' (fc_view ly_ctx (fs_turn (ly_state 0 [] 0))) = Some ly_generation" by (simp add: ly_reads)
  have le: "1 \<le> bg_currentSequence ly_generation" "0 \<le> fs_lastScanned (ly_state 0 [] 0)" by (simp_all add: ly_reads ly_state_def)
  have op: "\<not> stream_closed ly_ctx (fs_turn (ly_state 3 [frame_of ly_event_message] 1))" "\<not> tw_closed (fs_writer (ly_state 3 [frame_of ly_event_message] 1))"
    by (simp_all add: ly_state_def new_writer_def)
  have log: "writer_log (fs_writer (ly_state n sent k)) = sent" "fs_lastScanned (ly_state n sent k) = k" "fs_turn (ly_state n sent k) = n" for n sent k
    by (simp_all add: ly_state_def new_writer_def writer_log_def)
  obtain trace where t: "map fst trace = [mapStoredEvent fx_event] \<and> map (\<lambda>x. fe_sequence (fst x)) trace = [0 + 1..1] \<and>
    list_all (saw ly_ctx ''g'' 0 3) trace \<and> [frame_of ly_event_message] = [] @ shown_frames ly_ctx trace"
    using replay_misses_nothing [OF ly_views g le(1) ok le(2) run op] unfolding log ly_events ..
  show ?thesis using run t by (intro conjI exI [of _ trace]) simp_all
qed

definition ly_request :: FrozenJsonRpcRequest where
  "ly_request = \<lparr>fj_id = JNum 7, fj_method = ''io.sdar/businessEvents/listen'', fj_params = [(''startPosition'', JStr ''earliest_available'')],
     fj_meta = \<lparr>fm_protocolVersion = ''2026-07-28'', fm_clientInfo = (''c'', ''1''), fm_clientCapabilities = [], fm_raw = []\<rparr>\<rparr>"

lemma ly_chosen: "choose_generation ly_ctx ly_request = Inr (ly_generation, 0)"
proof -
  have "currentGeneration ''p'' fx_db5 = Some ly_generation" by code_simp
  moreover have "acceptedAfterSequence from_earliest ly_generation = 0" "validateCursor 0 ly_generation (bg_streamId ly_generation) = Inr ()" by code_simp+
  moreover have "parseListenSelection (fj_params ly_request) = Inr from_earliest" by code_simp
  ultimately show ?thesis by (simp add: choose_generation_def ly_reads Let_def)
qed

lemma ly_listen: "\<exists>st'. event_listen 1 ly_ctx ly_request = Inr (Some (returned, st')) \<and>
    tw_sent (fs_writer st') = [frame_of ly_ack_message, frame_of ly_event_message]"
proof -
  have start: "started_stream 0 = ly_state 2 [] 0" by (simp add: started_stream_def ly_state_def new_writer_def)
  have roster: "sourceRoster (fc_env ly_ctx 2) ''p'' (bg_streamId ly_generation) fx_db5 = [fx_source]" by (simp add: ly_ctx_def) code_simp
  have id1: "bg_streamId ly_generation = ''g''" "last_sequence ly_generation = 1" by code_simp+
  have ack: "send_message ly_ctx ly_ack_message (ly_state 3 [] 0) = (True, ly_state 3 [frame_of ly_ack_message] 0)"
    using ly_send [OF ly_fits(2), of "ly_state 3 [] 0" "[]"] by (simp add: ly_state_def)
  have live: "live_loop 1 ly_ctx ''g'' t st = Some (returned, close_stream st)" if "t = 0" for t st
    using that by (simp add: ly_ctx_def stream_closed_def)
  have d: "fc_date ly_ctx n = 0" for n by (simp add: ly_ctx_def)
  have turn: "fs_turn (ly_state n sent k) = n" for n sent k by (simp add: ly_state_def)
  have "run_stream 1 ly_ctx ly_generation 0 = Some (returned, close_stream (ly_state 6 [frame_of ly_ack_message, frame_of ly_event_message] 1))"
    using ly_replay [of 3 "[frame_of ly_ack_message]"] ack [unfolded ly_ack_message_def] roster ly_awaited [of 2 "[]" 0]
    by (simp add: run_stream_def Let_def start ly_reads turn id1 live [OF d] ly_ack_message_def del: live_loop.simps One_nat_def)
  then show ?thesis by (simp add: event_listen_def ly_chosen close_stream_def close_writer_def dispose_def ly_state_def new_writer_def)
qed

theorem listener_gets_stream_in_order_witness:
  "\<exists>st' roster trace tail. event_listen 1 ly_ctx ly_request = Inr (Some (returned, st')) \<and>
    tw_sent (fs_writer st') = [frame_of ly_ack_message, frame_of ly_event_message] \<and>
    roster = sourceRoster (fc_env ly_ctx 2) ''p'' (bg_streamId ly_generation) fx_db5 \<and>
    map fst trace = events_between ly_ctx (bg_streamId ly_generation) 0 (int (length trace)) (fs_turn st') \<and>
    list_all (saw ly_ctx (bg_streamId ly_generation) 2 (fs_turn st')) trace \<and> left_notice ly_ctx (bg_streamId ly_generation) tail \<and>
    prefix (tw_sent (fs_writer st')) (frame_of (event_ack (JNum 7) ly_generation 0 roster) # shown_frames ly_ctx trace @ tail)"
proof -
  obtain st' where run: "event_listen 1 ly_ctx ly_request = Inr (Some (returned, st'))"
    "tw_sent (fs_writer st') = [frame_of ly_ack_message, frame_of ly_event_message]" using ly_listen by blast
  from listener_gets_stream_in_order [OF ly_views ly_chosen run(1)] run show ?thesis unfolding ly_fields(1-3) add_0 by blast
qed

theorem listener_counters_exact_witness:
  "counts_listeners {#''x''#} \<lparr>fk_active = 1, fk_byAuth = [''x'' \<mapsto> 1]\<rparr> \<and>
   counts_listeners {#} (leave_listener ''x'' \<lparr>fk_active = 1, fk_byAuth = [''x'' \<mapsto> 1]\<rparr>)"
proof -
  have c: "counts_listeners {#''x''#} \<lparr>fk_active = 1, fk_byAuth = [''x'' \<mapsto> 1]\<rparr>" by (simp add: counts_listeners_def)
  from listener_counters_exact [OF c, of "\<lparr>fl_maxSubscriptions = 2, fl_maxSubscriptionsPerAuth = 1\<rparr>" "''x''"] c show ?thesis by simp
qed

end
