(* ===== verification/Source_Client.thy ===== *)
theory Source_Client
  imports Event_Theorems
begin

text \<open>
  The worker of a business event source (\<^verbatim>\<open>apps/runtime/src/business-events/source-client.ts\<close>) and the rotation service (\<^verbatim>\<open>rotation-service.ts\<close>):
  a run acquires the lease of the source, opens the adapter's stream after the last persisted event, and takes in, prepares and publishes
  what it delivers.

  A run is a program over the event store and a counter of its calls; before each call the other replicas have done what \<open>sc_others\<close> says.  The adapter's
  stream is an argument: for a request, the events it delivers and how it ends.  An error of the stream that overtakes the handling of its last event
  is that of the stream without this event, whose handling is then among what the others do.  Metrics and traces are left out.
\<close>

section \<open>Events of the adapter\<close>

record Timestamp =
  ts_seconds :: "int option"
  ts_nanos :: "int option"

record AdapterBusinessEvent =
  ae_sourceEventId :: string
  ae_sourceSequence :: string
  ae_sourceStreamId :: string
  ae_scope :: event_scope
  ae_occurredAt :: Timestamp
  ae_eventType :: string
  ae_description :: string
  ae_externalExecutionId :: "string option"
  ae_resourceRef :: "string option"
  ae_severityHint :: "severity option"
  ae_reasonCode :: string
  ae_rawPayload :: "proto_struct option"

text \<open>A time beyond the range of dates makes \<^verbatim>\<open>toISOString\<close> throw; the seconds are those of an \<^verbatim>\<open>int64\<close>.\<close>

definition timestampToRfc3339Nano :: "Timestamp \<Rightarrow> err + string" where
  "timestampToRfc3339Nano t =
     (let seconds = (case ts_seconds t of None \<Rightarrow> 0 | Some s \<Rightarrow> s); nanos = (case ts_nanos t of None \<Rightarrow> 0 | Some n \<Rightarrow> n);
          fraction = (if nanos = 0 then '''' else ''.'' @ strip_zeros (pad_left 9 (show_int nanos))) in
      if \<not> valid_date (seconds * 1000) then Inl (RangeError ''Invalid time value'')
      else Inr (take 19 (toISOString (seconds * 1000)) @ fraction @ ''Z''))"

definition non_empty :: "string option \<Rightarrow> string option" where
  "non_empty v = (if v = Some '''' then None else v)"

definition normalizeAdapterEvent :: "AdapterBusinessEvent \<Rightarrow> err + BusinessEventSourceFact" where
  "normalizeAdapterEvent e =
     bind_err (timestampToRfc3339Nano (ae_occurredAt e)) (\<lambda>occurredAt.
     Inr \<lparr>sf_sourceEventId = ae_sourceEventId e, sf_sourceSequence = ae_sourceSequence e, sf_sourceStreamId = ae_sourceStreamId e, sf_scope = ae_scope e,
       sf_occurredAt = occurredAt, sf_eventType = ae_eventType e, sf_description = ae_description e,
       sf_externalExecutionId = non_empty (ae_externalExecutionId e), sf_resourceRef = non_empty (ae_resourceRef e), sf_severityHint = ae_severityHint e,
       sf_reasonCode = non_empty (Some (ae_reasonCode e)), sf_rawPayload = Some (JObj (protoStructToJson (ae_rawPayload e)))\<rparr>)"

section \<open>Runs\<close>

record source_options =
  so_providerId :: string
  so_sourceId :: string
  so_sourceStreamId :: string
  so_deliverySemantics :: BusinessEventDeliverySemantics
  so_replicaId :: string
  so_leaseMs :: int
  so_inboxRetentionMs :: int
  so_eventRetentionMs :: int
  so_mappingDeadlineMs :: int
  so_generationRetentionMs :: int

text \<open>The end of a stream: its end, an error with its status and the reason of its metadata, or nothing more.\<close>

datatype stream_end = stream_ended | stream_error nat "string option" | stream_silent

record stream_request =
  sr_sourceId :: string
  sr_sourceStreamId :: string
  sr_afterSourceSequence :: "int option"

record source_ctx =
  sc_options :: source_options
  sc_env :: "nat \<Rightarrow> event_env"
  sc_others :: "nat \<Rightarrow> event_db \<Rightarrow> event_db"
  sc_uuid :: "nat \<Rightarrow> string \<times> string"
  sc_stream :: "stream_request \<Rightarrow> AdapterBusinessEvent list \<times> stream_end"

type_synonym source_state = "nat \<times> event_db"
type_synonym 'a source_program = "source_state \<Rightarrow> (err + 'a) \<times> source_state"

definition source_call :: "source_ctx \<Rightarrow> (nat \<Rightarrow> event_env \<Rightarrow> event_db \<Rightarrow> (err + 'a) \<times> event_db) \<Rightarrow> 'a source_program" where
  "source_call cx f s = (case f (fst s) (sc_env cx (fst s)) (sc_others cx (fst s) (snd s)) of (r, db) \<Rightarrow> (r, (Suc (fst s), db)))"

definition source_then :: "'a source_program \<Rightarrow> ('a \<Rightarrow> 'b source_program) \<Rightarrow> 'b source_program" where
  "source_then p f s = (case p s of (Inl e, s') \<Rightarrow> (Inl e, s') | (Inr v, s') \<Rightarrow> f v s')"

definition source_return :: "'a \<Rightarrow> 'a source_program" where
  "source_return v s = (Inr v, s)"

definition rotate_source :: "source_ctx \<Rightarrow> string \<Rightarrow> string \<Rightarrow> unit source_program" where
  "rotate_source cx reason identity =
     (let o1 = sc_options cx in
      source_then (source_call cx (\<lambda>n env. rotateStream env
        \<lparr>ri_newStreamId = fst (sc_uuid cx n), ri_continuityId = snd (sc_uuid cx n), ri_providerId = so_providerId o1, ri_reasonCode = reason,
         ri_affectedSourceIds = [so_sourceId o1], ri_reasonIdentity = so_sourceStreamId o1 @ '':'' @ identity,
         ri_retentionMs = so_generationRetentionMs o1, ri_replacementRoster = None\<rparr>)) (\<lambda>_. source_return ()))"

definition prepare_and_publish :: "source_ctx \<Rightarrow> string \<Rightarrow> unit source_program" where
  "prepare_and_publish cx sourceSequence =
     (let o1 = sc_options cx in
      source_then (source_call cx (\<lambda>_ env. prepareNextSourceEvent env (so_providerId o1) (so_sourceId o1))) (\<lambda>prepared.
      if prepared = prepare_ready then
        source_then (source_call cx (\<lambda>_ env. finalizeNextSourceEvent env (so_providerId o1) (so_sourceId o1) (so_eventRetentionMs o1))) (\<lambda>_. source_return ())
      else if prepared = prepare_terminal \<and> so_deliverySemantics o1 = durable_at_least_once
      then rotate_source cx ''SOURCE_MAPPING_FAILED'' (''mapping:'' @ sourceSequence)
      else source_return ()))"

definition take_in :: "source_ctx \<Rightarrow> BusinessEventLease \<Rightarrow> BusinessEventSourceFact \<Rightarrow> unit source_program" where
  "take_in cx lease item =
     (let o1 = sc_options cx in
      source_then (source_call cx (\<lambda>_ env. intakeSourceFact env lease item (so_inboxRetentionMs o1) (so_mappingDeadlineMs o1))) (\<lambda>intake.
      if ik_disposition intake = intake_duplicate then source_return ()
      else if ik_disposition intake = intake_rejected \<and> so_deliverySemantics o1 = durable_at_least_once
      then rotate_source cx ''SOURCE_POISON_EVENT'' (''poison:'' @ sf_sourceSequence item)
      else prepare_and_publish cx (sf_sourceSequence item)))"

definition handleEvent :: "source_ctx \<Rightarrow> BusinessEventLease \<Rightarrow> AdapterBusinessEvent \<Rightarrow> unit source_program" where
  "handleEvent cx lease event s =
     (case normalizeAdapterEvent event of Inl e \<Rightarrow> (Inl e, s) | Inr item \<Rightarrow> take_in cx lease item s)"

fun consume_events :: "source_ctx \<Rightarrow> BusinessEventLease \<Rightarrow> AdapterBusinessEvent list \<Rightarrow> unit source_program" where
  "consume_events cx lease [] = source_return ()"
| "consume_events cx lease (e # es) = source_then (handleEvent cx lease e) (\<lambda>_. consume_events cx lease es)"

datatype run_outcome = run_not_owner | run_completed | run_rotated | run_degraded

definition CONTINUITY_REASONS :: "string list" where
  "CONTINUITY_REASONS = [''SOURCE_CURSOR_EXPIRED'', ''SOURCE_STREAM_RESET'', ''SOURCE_CURSOR_AHEAD'', ''SOURCE_DATA_LOSS'']"

definition source_failed :: "source_ctx \<Rightarrow> BusinessEventLease \<Rightarrow> string option \<Rightarrow> run_outcome source_program" where
  "source_failed cx lease metadata =
     (let reason = (case metadata of None \<Rightarrow> ''SOURCE_TEMPORARILY_UNAVAILABLE'' | Some r \<Rightarrow> r) in
      if so_deliverySemantics (sc_options cx) = durable_at_least_once \<and> reason \<in> set CONTINUITY_REASONS
      then source_then (rotate_source cx reason (reason @ '':'' @ show_int (le_lastPersistedSourceSequence lease))) (\<lambda>_. source_return run_rotated)
      else source_then (source_call cx (\<lambda>_ _. markSourceUnavailable lease reason)) (\<lambda>_. source_return run_degraded))"

definition stream_request_for :: "source_options \<Rightarrow> BusinessEventLease \<Rightarrow> stream_request" where
  "stream_request_for o1 lease =
     \<lparr>sr_sourceId = so_sourceId o1, sr_sourceStreamId = so_sourceStreamId o1,
      sr_afterSourceSequence = (if so_deliverySemantics o1 = durable_at_least_once \<and> le_lastPersistedSourceSequence lease \<noteq> 0
        then Some (le_lastPersistedSourceSequence lease) else None)\<rparr>"

text \<open>\<open>None\<close>: the run never settles, because the stream neither ends nor fails, or fails as cancelled (status 1).\<close>

definition run_with_lease :: "source_ctx \<Rightarrow> BusinessEventLease \<Rightarrow> source_state \<Rightarrow> ((err + run_outcome) \<times> source_state) option" where
  "run_with_lease cx lease s =
     (case sc_stream cx (stream_request_for (sc_options cx) lease) of
        (events, ending) \<Rightarrow>
          (case consume_events cx lease events s of
             (Inl e, s') \<Rightarrow> Some (Inl e, s')
           | (Inr _, s') \<Rightarrow>
               (case ending of
                  stream_ended \<Rightarrow> Some (Inr run_completed, s')
                | stream_error code metadata \<Rightarrow> if code = 1 then None else Some (source_failed cx lease metadata s')
                | stream_silent \<Rightarrow> None)))"

definition runOnce :: "source_ctx \<Rightarrow> source_state \<Rightarrow> ((err + run_outcome) \<times> source_state) option" where
  "runOnce cx s =
     (let o1 = sc_options cx in
      case source_call cx (\<lambda>_ env. acquireSourceLease env (so_providerId o1) (so_sourceId o1) (so_sourceStreamId o1) (so_replicaId o1) (so_leaseMs o1)) s of
        (Inl e, s') \<Rightarrow> Some (Inl e, s')
      | (Inr None, s') \<Rightarrow> Some (Inr run_not_owner, s')
      | (Inr (Some lease), s') \<Rightarrow> run_with_lease cx lease s')"

section \<open>Rotation by an operator\<close>

record rotation_request =
  rr_providerId :: string
  rr_reasonCode :: string
  rr_requestId :: string
  rr_affectedSourceIds :: "string list option"
  rr_replacementRoster :: "BusinessEventSourceDefinition list option"

definition reason_format :: "string \<Rightarrow> bool" where
  "reason_format s =
     (case s of [] \<Rightarrow> False
      | c # cs \<Rightarrow> c \<in> set ''ABCDEFGHIJKLMNOPQRSTUVWXYZ'' \<and> list_all (\<lambda>x. x \<in> set ''ABCDEFGHIJKLMNOPQRSTUVWXYZ0123456789_'') cs \<and> length cs \<le> 127)"

definition rotation_service :: "event_env \<Rightarrow> string \<times> string \<Rightarrow> int \<Rightarrow> rotation_request \<Rightarrow> event_db \<Rightarrow> (err + RotationResult) \<times> event_db" where
  "rotation_service env uuids retentionMs q db =
     (if \<not> name_format ''._-'' 127 (rr_providerId q) then (Inl (Error ''INVALID_PROVIDER_ID''), db)
      else if \<not> reason_format (rr_reasonCode q) then (Inl (Error ''INVALID_ROTATION_REASON''), db)
      else if length (rr_requestId q) < 1 \<or> length (rr_requestId q) > 256 then (Inl (Error ''INVALID_ROTATION_REQUEST_ID''), db)
      else rotateStream env
        \<lparr>ri_newStreamId = fst uuids, ri_continuityId = snd uuids, ri_providerId = rr_providerId q, ri_reasonCode = rr_reasonCode q,
         ri_affectedSourceIds = (case rr_affectedSourceIds q of None \<Rightarrow> [] | Some is \<Rightarrow> is), ri_reasonIdentity = ''operator:'' @ rr_requestId q,
         ri_retentionMs = retentionMs, ri_replacementRoster = rr_replacementRoster q\<rparr> db)"

end
