(* ===== verification/Source_Theorems.thy ===== *)
theory Source_Theorems
  imports Source_Client
begin

text \<open>
  What a run of a source's worker guarantees: it moves the store by the repository's steps only, a run that completes has taken in every event of the stream
  for good, and a rejected event of a source without durable delivery stops its publication.
\<close>

section \<open>Steps of a run\<close>

definition others_step :: "source_ctx \<Rightarrow> bool" where
  "others_step cx \<longleftrightarrow> (\<forall>n db. event_step\<^sup>*\<^sup>* db (sc_others cx n db))"

definition moves :: "source_ctx \<Rightarrow> 'a source_program \<Rightarrow> bool" where
  "moves cx p \<longleftrightarrow> (\<forall>s r s'. p s = (r, s') \<longrightarrow> event_step\<^sup>*\<^sup>* (snd s) (snd s'))"

lemma movesD: "moves cx p \<Longrightarrow> p s = (r, s') \<Longrightarrow> event_step\<^sup>*\<^sup>* (snd s) (snd s')"
  unfolding moves_def by blast

named_theorems moves_rules

lemma moves_return [moves_rules]: "moves cx (source_return v)"
  by (simp add: moves_def source_return_def)

lemma moves_then [moves_rules]:
  assumes "moves cx p" "\<And>v. moves cx (f v)"
  shows "moves cx (source_then p f)"
  unfolding moves_def
proof (intro allI impI)
  fix s r s'
  assume run: "source_then p f s = (r, s')"
  obtain q s1 where p: "p s = (q, s1)" by (rule prod.exhaust)
  then have first: "event_step\<^sup>*\<^sup>* (snd s) (snd s1)" by (rule movesD [OF assms(1)])
  show "event_step\<^sup>*\<^sup>* (snd s) (snd s')"
  proof (cases q)
    case (Inr v)
    then have "event_step\<^sup>*\<^sup>* (snd s1) (snd s')" using run p by (intro movesD [OF assms(2) [of v]]) (simp add: source_then_def)
    then show ?thesis using first by (rule rtranclp_trans [rotated])
  qed (use run p first in \<open>auto simp: source_then_def\<close>)
qed

lemma moves_if [moves_rules]: "moves cx p \<Longrightarrow> moves cx q \<Longrightarrow> moves cx (if b then p else q)"
  by simp

lemma moves_call:
  assumes "others_step cx" "\<And>n env db. event_step db (snd (f n env db))"
  shows "moves cx (source_call cx f)"
  unfolding moves_def
proof (intro allI impI)
  fix s r s'
  assume "source_call cx f s = (r, s')"
  then have "snd s' = snd (f (fst s) (sc_env cx (fst s)) (sc_others cx (fst s) (snd s)))" by (auto simp: source_call_def split: prod.splits)
  moreover have "event_step\<^sup>*\<^sup>* (snd s) (sc_others cx (fst s) (snd s))" using assms(1) by (simp add: others_step_def)
  ultimately show "event_step\<^sup>*\<^sup>* (snd s) (snd s')" using assms(2) by (auto intro: rtranclp.rtrancl_into_rtrancl)
qed

abbreviation acquire_lease :: "source_ctx \<Rightarrow> BusinessEventLease option source_program" where
  "acquire_lease cx \<equiv> source_call cx (\<lambda>_ env. acquireSourceLease env (so_providerId (sc_options cx)) (so_sourceId (sc_options cx))
     (so_sourceStreamId (sc_options cx)) (so_replicaId (sc_options cx)) (so_leaseMs (sc_options cx)))"

lemma moves_acquire: "others_step cx \<Longrightarrow> moves cx (acquire_lease cx)"
  by (intro moves_call step_acquire)

lemma moves_intake: "others_step cx \<Longrightarrow> moves cx (source_call cx (\<lambda>_ env. intakeSourceFact env lease item a b))"
  by (intro moves_call step_intake)

lemma moves_rotate [moves_rules]: "others_step cx \<Longrightarrow> moves cx (rotate_source cx reason identity)"
  unfolding rotate_source_def Let_def by (intro moves_rules moves_call step_rotate)

lemma moves_publish [moves_rules]: "others_step cx \<Longrightarrow> moves cx (prepare_and_publish cx sourceSequence)"
  unfolding prepare_and_publish_def Let_def by (intro moves_rules moves_call step_prepare step_finalize)

lemma moves_take_in [moves_rules]: "others_step cx \<Longrightarrow> moves cx (take_in cx lease item)"
  unfolding take_in_def Let_def by (intro moves_rules moves_call step_intake)

lemma moves_handle [moves_rules]: "others_step cx \<Longrightarrow> moves cx (handleEvent cx lease event)"
  using moves_take_in [of cx lease] by (auto simp: moves_def handleEvent_def split: sum.splits)

lemma moves_consume [moves_rules]: "others_step cx \<Longrightarrow> moves cx (consume_events cx lease events)"
  by (induction events) (auto intro!: moves_rules)

lemma moves_failed [moves_rules]: "others_step cx \<Longrightarrow> moves cx (source_failed cx lease metadata)"
  unfolding source_failed_def Let_def by (intro moves_rules moves_call step_unavailable)

lemma run_with_lease_moves:
  assumes "others_step cx" "run_with_lease cx lease s = Some (r, s')"
  shows "event_step\<^sup>*\<^sup>* (snd s) (snd s')"
proof -
  obtain events ending where stream: "sc_stream cx (stream_request_for (sc_options cx) lease) = (events, ending)" by fastforce
  obtain q s1 where c: "consume_events cx lease events s = (q, s1)" by (rule prod.exhaust)
  have first: "event_step\<^sup>*\<^sup>* (snd s) (snd s1)" by (rule movesD [OF moves_consume [OF assms(1)] c])
  have "s' = s1 \<or> (\<exists>metadata. source_failed cx lease metadata s1 = (r, s'))"
    using assms(2) stream c by (auto simp: run_with_lease_def split: sum.splits stream_end.splits if_splits)
  then show ?thesis using first movesD [OF moves_failed [OF assms(1)]] by (meson rtranclp_trans)
qed

lemma runOnce_cases:
  assumes "runOnce cx s = Some (r, s')"
  obtains lease s1 where "acquire_lease cx s = (Inr (Some lease), s1)"
    "run_with_lease cx lease s1 = Some (r, s')"
  | q where "acquire_lease cx s = (q, s')" "r \<noteq> Inr run_completed"
  using assms unfolding runOnce_def Let_def by (auto split: prod.splits sum.splits option.splits)

lemma runOnce_moves:
  assumes "others_step cx" "runOnce cx s = Some (r, s')"
  shows "event_step\<^sup>*\<^sup>* (snd s) (snd s')"
  using assms(2)
proof (cases rule: runOnce_cases)
  case (1 lease s1)
  have "event_step\<^sup>*\<^sup>* (snd s) (snd s1)"
    by (rule movesD [OF moves_acquire [OF assms(1)] 1(1)])
  then show ?thesis using run_with_lease_moves [OF assms(1) 1(2)] by (rule rtranclp_trans)
next
  case (2 q)
  then show ?thesis using movesD [OF moves_acquire [OF assms(1)]] by blast
qed

section \<open>What is taken in\<close>

lemma duplicate_is_held:
  assumes "intake_input env lease item = Inr v" "intakeSourceFact env lease item retain deadline db = (Inr res, db')"
    "ik_disposition res = intake_duplicate"
  obtains x where "x \<in> set (event_inbox db')" "holds_fact lease item v x"
proof -
  let ?rows = "filter (same_identity lease item (iv_sequence v)) (event_inbox db)"
  from assms have "db' = db" "list_ex (exact_duplicate item v) ?rows"
    by (auto simp: intakeSourceFact_def intake_transaction_def transaction_def Let_def bind_err_def refuse_fact_def accept_fact_def
        split: sum.splits if_splits prod.splits option.splits)
  then obtain x where "x \<in> set (event_inbox db')" "same_identity lease item (iv_sequence v) x" "exact_duplicate item v x" by (auto simp: list_ex_iff)
  then show thesis using that by (auto simp: holds_fact_def same_identity_def inbox_of_def)
qed

text \<open>A fact is held by a store when a row of the inbox has it, under the values some clock gave it.\<close>

definition taken_in :: "BusinessEventLease \<Rightarrow> AdapterBusinessEvent \<Rightarrow> event_db \<Rightarrow> bool" where
  "taken_in lease event db \<longleftrightarrow>
     (\<exists>item env v x. normalizeAdapterEvent event = Inr item \<and> intake_input env lease item = Inr v \<and> x \<in> set (event_inbox db) \<and> holds_fact lease item v x)"

lemma taken_in_later:
  assumes "event_inv db" "event_step\<^sup>*\<^sup>* db db'" "taken_in lease event db"
  shows "taken_in lease event db'"
proof -
  obtain item env v x where x: "normalizeAdapterEvent event = Inr item" "intake_input env lease item = Inr v" "x \<in> set (event_inbox db)" "holds_fact lease item v x"
    using assms(3) by (auto simp: taken_in_def)
  have "grows inbox_keep payload_ok (event_inbox db) (event_inbox db')"
    using event_steps_advance(1) [OF assms(2,1)] by (simp add: advances_def source_side_def)
  from inbox.grows_row [OF this x(3)] obtain y where y: "y \<in> set (event_inbox db')" "inbox_keep x y" by blast
  then have "holds_fact lease item v y" using x(4) by (simp add: holds_fact_def exact_duplicate_def inbox_keep_def inbox_identity_def)
  then show ?thesis using x(1,2) y(1) by (auto simp: taken_in_def)
qed

lemma source_then_Inr:
  assumes "source_then p f s = (Inr v, s')"
  obtains w s1 where "p s = (Inr w, s1)" "f w s1 = (Inr v, s')"
  using assms by (auto simp: source_then_def split: prod.splits sum.splits)

lemma handled_is_taken_in:
  assumes "others_step cx" "event_inv (snd s)" "handleEvent cx lease event s = (Inr (), s')"
  shows "taken_in lease event (snd s')"
proof -
  obtain item where item: "normalizeAdapterEvent event = Inr item" "take_in cx lease item s = (Inr (), s')"
    using assms(3) by (auto simp: handleEvent_def split: sum.splits)
  let ?o = "sc_options cx"
  let ?call = "source_call cx (\<lambda>_ env. intakeSourceFact env lease item (so_inboxRetentionMs ?o) (so_mappingDeadlineMs ?o))"
  let ?rest = "\<lambda>intake. if ik_disposition intake = intake_duplicate then source_return ()
      else if ik_disposition intake = intake_rejected \<and> so_deliverySemantics ?o = durable_at_least_once
      then rotate_source cx ''SOURCE_POISON_EVENT'' (''poison:'' @ sf_sourceSequence item) else prepare_and_publish cx (sf_sourceSequence item)"
  obtain res s1 where call: "?call s = (Inr res, s1)" and rest: "?rest res s1 = (Inr (), s')"
    using item(2) unfolding take_in_def Let_def by (rule source_then_Inr)
  obtain env db where intake: "intakeSourceFact env lease item (so_inboxRetentionMs ?o) (so_mappingDeadlineMs ?o) db = (Inr res, snd s1)"
    using call by (auto simp: source_call_def split: prod.splits)
  obtain v where v: "intake_input env lease item = Inr v" using intake by (auto simp: intakeSourceFact_def split: sum.splits)
  have "\<exists>x \<in> set (event_inbox (snd s1)). holds_fact lease item v x"
  proof (cases "ik_disposition res = intake_duplicate")
    case True
    then show ?thesis using duplicate_is_held [OF v intake] by blast
  next
    case False
    then show ?thesis using received_is_held [OF v intake] by blast
  qed
  then have held: "taken_in lease event (snd s1)" using item(1) v by (auto simp: taken_in_def)
  have "event_step\<^sup>*\<^sup>* (snd s) (snd s1)" by (rule movesD [OF moves_intake [OF assms(1)] call])
  from event_steps_advance(2) [OF this assms(2)] have inv: "event_inv (snd s1)" .
  have "moves cx (?rest res)" using assms(1) by (intro moves_rules)
  from movesD [OF this rest] have "event_step\<^sup>*\<^sup>* (snd s1) (snd s')" .
  from taken_in_later [OF inv this held] show ?thesis .
qed

lemma consumed_are_taken_in:
  "consume_events cx lease events s = (Inr (), s') \<Longrightarrow> others_step cx \<Longrightarrow> event_inv (snd s) \<Longrightarrow> e \<in> set events \<Longrightarrow> taken_in lease e (snd s')"
proof (induction events arbitrary: s)
  case (Cons a events)
  obtain s1 where h: "handleEvent cx lease a s = (Inr (), s1)" and rest: "consume_events cx lease events s1 = (Inr (), s')"
    using Cons.prems(1) by (auto elim: source_then_Inr)
  have "event_step\<^sup>*\<^sup>* (snd s) (snd s1)" by (rule movesD [OF moves_handle [OF Cons.prems(2)] h])
  from event_steps_advance(2) [OF this Cons.prems(3)] have inv: "event_inv (snd s1)" .
  have later: "event_step\<^sup>*\<^sup>* (snd s1) (snd s')" by (rule movesD [OF moves_consume [OF Cons.prems(2)] rest])
  show ?case
  proof (cases "e = a")
    case True
    then show ?thesis using taken_in_later [OF inv later handled_is_taken_in [OF Cons.prems(2,3) h]] by simp
  next
    case False
    then show ?thesis using Cons.IH [OF rest Cons.prems(2) inv] Cons.prems(4) by simp
  qed
qed simp

text \<open>C20.  A run of a source's worker, whatever the other replicas do meanwhile, moves the event store by the repository's own steps only; and a run that
  completes has taken in every event the adapter's stream delivered for its lease: each is in the inbox under the identity it came with, and stays there
  in every later state of the store.\<close>

theorem completed_run_took_all_in:
  assumes "others_step cx" "event_reachable (snd s)" "runOnce cx s = Some (r, s')"
  shows "event_step\<^sup>*\<^sup>* (snd s) (snd s') \<and>
    (r = Inr run_completed \<longrightarrow> (\<exists>lease s1. acquire_lease cx s = (Inr (Some lease), s1) \<and>
      (\<forall>e db. e \<in> set (fst (sc_stream cx (stream_request_for (sc_options cx) lease))) \<longrightarrow> event_step\<^sup>*\<^sup>* (snd s') db \<longrightarrow> taken_in lease e db)))"
proof (intro conjI impI)
  show steps: "event_step\<^sup>*\<^sup>* (snd s) (snd s')" by (rule runOnce_moves [OF assms(1,3)])
  have inv: "event_inv (snd s)" by (rule reachable_event_inv [OF assms(2)])
  note inv' = event_steps_advance(2) [OF steps inv]
  assume completed: "r = Inr run_completed"
  obtain lease s1 where a: "acquire_lease cx s = (Inr (Some lease), s1)" "run_with_lease cx lease s1 = Some (r, s')"
    using assms(3) completed by (elim runOnce_cases) auto
  have inv1: "event_inv (snd s1)" by (rule event_steps_advance(2) [OF movesD [OF moves_acquire [OF assms(1)] a(1)] inv])
  obtain events ending where stream: "sc_stream cx (stream_request_for (sc_options cx) lease) = (events, ending)" by fastforce
  have "consume_events cx lease events s1 = (Inr (), s')"
    using a(2) stream completed
    by (auto simp: run_with_lease_def source_failed_def Let_def source_then_def source_return_def split: prod.splits sum.splits stream_end.splits if_splits)
  then have "taken_in lease e db" if "e \<in> set events" "event_step\<^sup>*\<^sup>* (snd s') db" for e db
    using taken_in_later [OF inv' that(2) consumed_are_taken_in [OF _ assms(1) inv1 that(1)]] by blast
  then show "\<exists>lease s1. acquire_lease cx s = (Inr (Some lease), s1) \<and>
      (\<forall>e db. e \<in> set (fst (sc_stream cx (stream_request_for (sc_options cx) lease))) \<longrightarrow> event_step\<^sup>*\<^sup>* (snd s') db \<longrightarrow> taken_in lease e db)"
    using a(1) stream by auto
qed

section \<open>What stops a source\<close>

text \<open>A rejected row that comes before everything of its source that is not settled.\<close>

definition blocked_by :: "string \<Rightarrow> string \<Rightarrow> event_inbox_row \<Rightarrow> event_db \<Rightarrow> bool" where
  "blocked_by p sid row db \<longleftrightarrow> event_schema_ok db \<and>
     (\<exists>src. find_source p sid db = Some src \<and> row \<in> set (event_inbox db) \<and> inbox_of p sid (ss_source_stream_id src) row \<and> bx_status row = X_rejected \<and>
       (\<forall>n. bx_sequence row = Some n \<longrightarrow> n \<le> ss_last_persisted src) \<and>
       (\<forall>x \<in> set (event_inbox db). inbox_of p sid (ss_source_stream_id src) x \<longrightarrow> outstanding x \<longrightarrow> inbox_order row \<le> inbox_order x))"

lemma first_sorted:
  fixes key :: "'r \<Rightarrow> 'k::linorder"
  assumes "row \<in> set rows" "\<And>x. x \<in> set rows \<Longrightarrow> key row \<le> key x" "\<And>x. x \<in> set rows \<Longrightarrow> key x = key row \<Longrightarrow> x = row"
  shows "\<exists>ys. sort_key key rows = row # ys"
proof (cases "sort_key key rows")
  case Nil
  have "set (sort_key key rows) = set rows" by simp
  then show ?thesis using Nil assms(1) by (metis empty_iff list.set(1))
next
  case (Cons y ys)
  have set1: "set (y # ys) = set rows" using Cons set_sort [of key rows] by metis
  have "sorted (map key (y # ys))" using Cons sorted_sort_key [of key rows] by metis
  then have "key y \<le> key row" using set1 assms(1) by auto
  then have "y = row" using assms(2,3) set1 by (metis antisym list.set_intros(1))
  then show ?thesis using Cons by simp
qed

lemma blocked_next:
  assumes "blocked_by p sid row db" "find_source p sid db = Some src"
  shows "next_inbox p sid (ss_source_stream_id src) db = Some row"
proof -
  let ?rows = "filter (\<lambda>x. inbox_of p sid (ss_source_stream_id src) x \<and> outstanding x) (event_inbox db)"
  have ids: "distinct (map bx_inbox_id (event_inbox db))" using assms(1) by (simp add: blocked_by_def schema_inbox_ids)
  have "\<exists>ys. sort_key inbox_order ?rows = row # ys"
  proof (rule first_sorted)
    show row: "row \<in> set ?rows" using assms by (auto simp: blocked_by_def outstanding_def)
    show "inbox_order row \<le> inbox_order x" if "x \<in> set ?rows" for x using assms that by (auto simp: blocked_by_def)
    show "x = row" if "x \<in> set ?rows" "inbox_order x = inbox_order row" for x
      using unique_key_rows [OF ids, of x row] that row by (simp add: inbox_order_def)
  qed
  then show ?thesis by (auto simp: next_inbox_def)
qed

lemma blocked_prepare: "blocked_by p sid row db \<Longrightarrow> prepareNextSourceEvent env p sid db = (Inr prepare_terminal, db)"
proof -
  assume b: "blocked_by p sid row db"
  then obtain src where src: "find_source p sid db = Some src" "bx_status row = X_rejected" by (auto simp: blocked_by_def)
  show ?thesis using blocked_next [OF b src(1)] src by (simp add: prepareNextSourceEvent_def transaction_def)
qed

lemma blocked_finalize: "blocked_by p sid row db \<Longrightarrow> snd (finalizeNextSourceEvent env p sid ret db) = db"
proof -
  assume b: "blocked_by p sid row db"
  then obtain src where src: "find_source p sid db = Some src" "bx_status row = X_rejected" by (auto simp: blocked_by_def)
  show ?thesis using blocked_next [OF b src(1)] src
    by (simp add: finalizeNextSourceEvent_def transaction_def Let_def split: option.splits)
qed

text \<open>The row still stops the source when rows with later sequences are added and the source's stream is kept.\<close>

lemma blocked_kept:
  assumes "blocked_by p sid row db" "event_schema_ok db'" "event_inbox db' = event_inbox db @ ws" "find_source p sid db = Some src" "find_source p sid db' = Some src'"
    "ss_source_stream_id src' = ss_source_stream_id src" "ss_last_persisted src \<le> ss_last_persisted src'"
    "\<And>w. w \<in> set ws \<Longrightarrow> \<exists>n. bx_sequence w = Some n \<and> ss_last_persisted src < n"
  shows "blocked_by p sid row db'"
proof -
  have "inbox_order row \<le> inbox_order w" if w: "w \<in> set ws" for w
  proof -
    obtain n where n: "bx_sequence w = Some n" "ss_last_persisted src < n" using assms(8) [OF w] by blast
    have "bx_sequence row < bx_sequence w"
      using assms(1,4) n by (cases "bx_sequence row") (auto simp: blocked_by_def)
    then show ?thesis by (simp add: inbox_order_def)
  qed
  moreover have row: "row \<in> set (event_inbox db)" "inbox_of p sid (ss_source_stream_id src) row" "bx_status row = X_rejected"
    "\<And>n. bx_sequence row = Some n \<Longrightarrow> n \<le> ss_last_persisted src"
    "\<And>x. x \<in> set (event_inbox db) \<Longrightarrow> inbox_of p sid (ss_source_stream_id src) x \<Longrightarrow> outstanding x \<Longrightarrow> inbox_order row \<le> inbox_order x"
    using assms(1,4) by (auto simp: blocked_by_def)
  ultimately have "inbox_order row \<le> inbox_order x"
    if "x \<in> set (event_inbox db')" "inbox_of p sid (ss_source_stream_id src) x" "outstanding x" for x
    using that assms(3) by auto
  moreover have "n \<le> ss_last_persisted src'" if "bx_sequence row = Some n" for n using row(4) [OF that] assms(7) by simp
  ultimately show ?thesis using assms(2,3,5,6) row(1-3) unfolding blocked_by_def by (intro conjI exI [of _ src']) auto
qed

lemma find_source_update:
  assumes "find_source p sid db = Some src" "source_states db' = update_rows P f (source_states db)" "\<And>x. source_key (f x) = source_key x"
  shows "find_source p sid db' = Some (if P src then f src else src)"
  using assms first_row_update_rows [of P "\<lambda>s. ss_provider_id s = p \<and> ss_source_id s = sid" f "source_states db"]
  by (simp add: find_source_def)

lemma blocked_source_update:
  assumes "blocked_by p sid row db" "event_schema_ok db'" "event_inbox db' = event_inbox db" "source_states db' = update_rows P f (source_states db)"
    "\<And>x. source_key (f x) = source_key x \<and> ss_source_stream_id (f x) = ss_source_stream_id x \<and> ss_last_persisted (f x) = ss_last_persisted x"
  shows "blocked_by p sid row db'"
proof -
  obtain src where src: "find_source p sid db = Some src" using assms(1) by (auto simp: blocked_by_def)
  have "find_source p sid db' = Some (if P src then f src else src)" using find_source_update [OF src assms(4)] assms(5) by blast
  then show ?thesis using blocked_kept [OF assms(1,2) _ src] assms(3,5) by (auto split: if_splits)
qed

lemma blocked_acquire:
  assumes "blocked_by p sid row db" "acquireSourceLease env p1 s1 st owner ms db = (r, db')"
  shows "blocked_by p sid row db' \<and> business_events db' = business_events db"
proof (cases "db' = db")
  case False
  then obtain input db1 where
    upd: "event_checked (update_sources (is_source p1 s1 st) (take_lease env owner ms) db) = Inr db1"
    and rest: "db' = db1 \<or> capture env input db1 = Inr db'"
    using assms(2) by (auto simp: acquireSourceLease_def transaction_def Let_def bind_err_def split: option.splits if_splits sum.splits)
  have "source_states db' = update_rows (is_source p1 s1 st) (take_lease env owner ms) (source_states db)" "event_inbox db' = event_inbox db"
    "business_events db' = business_events db"
    using upd rest by (auto simp: event_checked_Inr_iff update_sources_def dest!: capture_Inr)
  moreover have "event_schema_ok db'" using acquire_same [of db env p1 s1 st owner ms] assms by (simp add: same_streams_def blocked_by_def)
  ultimately show ?thesis using blocked_source_update [OF assms(1)] by (simp add: take_lease_def)
qed (use assms in simp)

lemma refuse_fact_effect:
  assumes "refuse_fact env lease item v reason message db = Inr (r, db')"
  obtains a where "db' = (update_sources (held_by lease) (\<lambda>s. s\<lparr>ss_status := S_blocked_identity_conflict, ss_last_error := Some reason\<rparr>) db)\<lparr>audit_deliveries := a\<rparr>"
  using assms by (auto simp: refuse_fact_def blockSource_def captureIngestAudit_def bind_err_Inr_iff event_checked_Inr_iff dest!: capture_Inr)

lemma accept_fact_effect:
  assumes "accept_fact env lease item v retain deadline db = Inr (r, db')"
  obtains x k where "bx_sequence x = Some (iv_sequence v)" "event_inbox db' = event_inbox db @ [x]"
    "source_states db' = update_rows (held_now env lease) (persisted_source env (iv_sequence v) k) (source_states db)"
proof -
  let ?k = "validateSourceFact item \<noteq> None"
  obtain occurred db1 db2 where
    1: "insert_inbox (fact_inbox_row env lease item v occurred (validateSourceFact item) retain deadline) db = Inr db1"
    and 2: "event_checked (update_sources (held_now env lease) (persisted_source env (iv_sequence v) ?k) db1) = Inr db2"
    and 3: "event_inbox db' = event_inbox db2" "source_states db' = source_states db2"
    using assms by (auto simp: accept_fact_def Let_def bind_err_Inr_iff captureIngestAudit_def split: option.splits dest!: capture_Inr)
  let ?x = "(fact_inbox_row env lease item v occurred (validateSourceFact item) retain deadline)\<lparr>bx_inbox_id := next_inbox_id db\<rparr>"
  have "event_inbox db' = event_inbox db @ [?x]"
    "source_states db' = update_rows (held_now env lease) (persisted_source env (iv_sequence v) ?k) (source_states db)"
    using 1 2 3 by (simp_all add: insert_inbox_def event_checked_Inr_iff update_sources_def split: if_splits)
  then show thesis using that [of ?x ?k] by (simp add: fact_inbox_row_def)
qed

lemma blocked_accept:
  assumes "blocked_by p sid row db" "event_schema_ok db'" "lockAndValidateLease env lease db = Inr src" "le_providerId lease = p" "le_sourceId lease = sid"
    "ss_last_persisted src < iv_sequence v" "accept_fact env lease item v retain deadline db = Inr (r, db')"
  shows "blocked_by p sid row db'"
proof -
  obtain x k where x: "bx_sequence x = Some (iv_sequence v)" "event_inbox db' = event_inbox db @ [x]"
    "source_states db' = update_rows (held_now env lease) (persisted_source env (iv_sequence v) k) (source_states db)"
    using accept_fact_effect [OF assms(7)] .
  have src: "find_source p sid db = Some src" using assms(3-5) by (auto simp: lockAndValidateLease_def split: option.splits if_splits)
  let ?src = "if held_now env lease src then persisted_source env (iv_sequence v) k src else src"
  have "find_source p sid db' = Some ?src" by (rule find_source_update [OF src x(3)]) (simp add: persisted_source_def)
  moreover have "ss_source_stream_id ?src = ss_source_stream_id src" "ss_last_persisted src \<le> ss_last_persisted ?src"
    using assms(6) by (simp_all add: persisted_source_def)
  ultimately show ?thesis using blocked_kept [OF assms(1,2) x(2) src] x(1) assms(6) by simp
qed

lemma blocked_refuse:
  assumes "blocked_by p sid row db" "event_schema_ok db'" "refuse_fact env lease item v reason message db = Inr (r, db')"
  shows "blocked_by p sid row db'"
proof -
  obtain a where "db' = (update_sources (held_by lease) (\<lambda>s. s\<lparr>ss_status := S_blocked_identity_conflict, ss_last_error := Some reason\<rparr>) db)\<lparr>audit_deliveries := a\<rparr>"
    using refuse_fact_effect [OF assms(3)] .
  then show ?thesis using blocked_source_update [OF assms(1,2)] by (simp add: update_sources_def)
qed

lemma blocked_intake:
  assumes "blocked_by p sid row db" "le_providerId lease = p" "le_sourceId lease = sid" "intakeSourceFact env lease item retain deadline db = (r, db')"
  shows "blocked_by p sid row db' \<and> business_events db' = business_events db"
proof -
  note same = intake_same [of db env lease item retain deadline, unfolded assms(4) snd_conv]
  have ok: "event_schema_ok db'" "business_events db' = business_events db"
    using same assms(1) by (simp_all add: same_streams_def streams_of_def blocked_by_def)
  have "blocked_by p sid row db'"
  proof (cases "db' = db")
    case False
    then obtain v src where t: "lockAndValidateLease env lease db = Inr src"
      "(\<exists>reason message. refuse_fact env lease item v reason message db = Inr (r, db')) \<or>
        ss_last_persisted src < iv_sequence v \<and> accept_fact env lease item v retain deadline db = Inr (r, db')"
      using assms(4)
      by (auto simp: intakeSourceFact_def intake_transaction_def transaction_def Let_def bind_err_def not_le split: sum.splits if_splits prod.splits)
    then show ?thesis using blocked_refuse [OF assms(1) ok(1)] blocked_accept [OF assms(1) ok(1) t(1) assms(2,3)] by blast
  qed (use assms(1) in simp)
  then show ?thesis using ok(2) by simp
qed

lemma blocked_unavailable:
  assumes "blocked_by p sid row db" "markSourceUnavailable lease reason db = (r, db')"
  shows "blocked_by p sid row db' \<and> business_events db' = business_events db"
proof -
  have "event_schema_ok db'" using unavailable_same [of db lease reason] assms by (simp add: same_streams_def blocked_by_def)
  then show ?thesis using blocked_source_update [OF assms(1)] assms(2) by (auto simp: markSourceUnavailable_def update_sources_def)
qed

text \<open>What other replicas and services do beside the worker of a source: work for the same source, whatever they take in and however often they try to
  publish, or anything that leaves the state of the source, its inbox rows and its published events alone.\<close>

definition source_events :: "string \<Rightarrow> string \<Rightarrow> event_db \<Rightarrow> event_row list" where
  "source_events p sid db = filter (\<lambda>e. be_provider_id e = p \<and> be_source_id e = sid) (business_events db)"

definition source_inbox :: "string \<Rightarrow> string \<Rightarrow> event_db \<Rightarrow> event_inbox_row list" where
  "source_inbox p sid db = filter (\<lambda>x. bx_provider_id x = p \<and> bx_source_id x = sid) (event_inbox db)"

inductive beside_step :: "string \<Rightarrow> string \<Rightarrow> event_db \<Rightarrow> event_db \<Rightarrow> bool" for p sid where
  beside_acquire: "beside_step p sid db (snd (acquireSourceLease env p1 s1 st owner ms db))"
| beside_intake: "le_providerId lease = p \<Longrightarrow> le_sourceId lease = sid \<Longrightarrow> beside_step p sid db (snd (intakeSourceFact env lease item retain deadline db))"
| beside_prepare: "beside_step p sid db (snd (prepareNextSourceEvent env p sid db))"
| beside_finalize: "beside_step p sid db (snd (finalizeNextSourceEvent env p sid ret db))"
| beside_unavailable: "beside_step p sid db (snd (markSourceUnavailable lease code db))"
| beside_apart: "event_step db db' \<Longrightarrow> event_schema_ok db' \<Longrightarrow> find_source p sid db' = find_source p sid db \<Longrightarrow>
    source_inbox p sid db' = source_inbox p sid db \<Longrightarrow> source_events p sid db' = source_events p sid db \<Longrightarrow> beside_step p sid db db'"

lemma beside_step_event: "beside_step p sid db db' \<Longrightarrow> event_step db db'"
  by (induction rule: beside_step.induct) (auto intro: event_step.intros)

abbreviation still_blocked :: "string \<Rightarrow> string \<Rightarrow> event_inbox_row \<Rightarrow> event_db \<Rightarrow> event_db \<Rightarrow> bool" where
  "still_blocked p sid row db db' \<equiv> blocked_by p sid row db' \<and> source_events p sid db' = source_events p sid db"

lemma blocked_apart:
  assumes "blocked_by p sid row db" "event_schema_ok db'" "find_source p sid db' = find_source p sid db" "source_inbox p sid db' = source_inbox p sid db"
  shows "blocked_by p sid row db'"
proof -
  have same: "x \<in> set (event_inbox db') \<longleftrightarrow> x \<in> set (event_inbox db)" if "inbox_of p sid st x" for x st
    using arg_cong [OF assms(4), of "\<lambda>xs. x \<in> set xs"] that by (auto simp: source_inbox_def inbox_of_def)
  obtain src where src: "find_source p sid db = Some src" "row \<in> set (event_inbox db)" "inbox_of p sid (ss_source_stream_id src) row"
    "bx_status row = X_rejected" "\<forall>n. bx_sequence row = Some n \<longrightarrow> n \<le> ss_last_persisted src"
    "\<forall>x \<in> set (event_inbox db). inbox_of p sid (ss_source_stream_id src) x \<longrightarrow> outstanding x \<longrightarrow> inbox_order row \<le> inbox_order x"
    using assms(1) unfolding blocked_by_def by blast
  show ?thesis unfolding blocked_by_def using assms(2,3) src same by (intro conjI exI [of _ src]) auto
qed

lemma beside_blocked:
  assumes "beside_step p sid db db'" "blocked_by p sid row db"
  shows "still_blocked p sid row db db'"
  using assms
proof (induction rule: beside_step.induct)
  case (beside_acquire db env p1 s1 st owner ms)
  then show ?case using blocked_acquire [of p sid row db env p1 s1 st owner ms] by (simp add: source_events_def prod_eq_iff)
next
  case (beside_intake lease db env item retain deadline)
  then show ?case using blocked_intake [of p sid row db lease env item retain deadline] by (simp add: source_events_def prod_eq_iff)
next
  case (beside_prepare db env)
  then show ?case by (simp add: blocked_prepare)
next
  case (beside_finalize db env ret)
  then show ?case by (simp add: blocked_finalize)
next
  case (beside_unavailable db lease code)
  then show ?case using blocked_unavailable [of p sid row db lease code] by (simp add: source_events_def prod_eq_iff)
next
  case (beside_apart db db')
  then show ?case by (simp add: blocked_apart)
qed

lemma beside_steps_blocked:
  assumes "(beside_step p sid)\<^sup>*\<^sup>* db db'" "blocked_by p sid row db"
  shows "still_blocked p sid row db db'"
  using assms by (induction rule: rtranclp_induct) (auto dest: beside_blocked)

text \<open>The worker of a source without durable delivery, beside others.\<close>

definition works_beside :: "source_ctx \<Rightarrow> string \<Rightarrow> string \<Rightarrow> bool" where
  "works_beside cx p sid \<longleftrightarrow> (\<forall>n db. (beside_step p sid)\<^sup>*\<^sup>* db (sc_others cx n db)) \<and> so_providerId (sc_options cx) = p \<and>
     so_sourceId (sc_options cx) = sid \<and> so_deliverySemantics (sc_options cx) = best_effort_live"

lemma works_besideD:
  assumes "works_beside cx p sid"
  shows "(beside_step p sid)\<^sup>*\<^sup>* db (sc_others cx n db)" "so_providerId (sc_options cx) = p" "so_sourceId (sc_options cx) = sid"
    "so_deliverySemantics (sc_options cx) = best_effort_live" "others_step cx"
proof -
  have "(beside_step p sid)\<^sup>*\<^sup>* \<le> event_step\<^sup>*\<^sup>*" by (rule rtranclp_mono) (auto dest: beside_step_event)
  then show "others_step cx" using assms by (auto simp: works_beside_def others_step_def)
qed (use assms in \<open>simp_all add: works_beside_def\<close>)

text \<open>A program that leaves such a row and the published events of its source as they are.\<close>

definition idle :: "string \<Rightarrow> string \<Rightarrow> event_inbox_row \<Rightarrow> 'a source_program \<Rightarrow> bool" where
  "idle p sid row f \<longleftrightarrow> (\<forall>s r s'. blocked_by p sid row (snd s) \<longrightarrow> f s = (r, s') \<longrightarrow> still_blocked p sid row (snd s) (snd s'))"

named_theorems idle_rules

lemma idleD: "idle p sid row f \<Longrightarrow> blocked_by p sid row (snd s) \<Longrightarrow> f s = (r, s') \<Longrightarrow> still_blocked p sid row (snd s) (snd s')"
  unfolding idle_def by blast

lemma idle_return [idle_rules]: "idle p sid row (source_return v)"
  by (simp add: idle_def source_return_def)

lemma idle_then [idle_rules]:
  assumes "idle p sid row f" "\<And>v. idle p sid row (g v)"
  shows "idle p sid row (source_then f g)"
  unfolding idle_def
proof (intro allI impI)
  fix s r s'
  assume b: "blocked_by p sid row (snd s)" and run: "source_then f g s = (r, s')"
  obtain q s1 where f: "f s = (q, s1)" by (rule prod.exhaust)
  note first = idleD [OF assms(1) b f]
  show "still_blocked p sid row (snd s) (snd s')"
  proof (cases q)
    case (Inl e)
    then show ?thesis using run f first by (simp add: source_then_def)
  next
    case (Inr v)
    then have "g v s1 = (r, s')" using run f by (simp add: source_then_def)
    then show ?thesis using idleD [OF assms(2) conjunct1 [OF first]] first by metis
  qed
qed

lemma idle_if [idle_rules]: "idle p sid row f \<Longrightarrow> idle p sid row g \<Longrightarrow> idle p sid row (if b then f else g)"
  by simp

lemma idle_call:
  assumes "works_beside cx p sid"
    "\<And>n env db r db'. blocked_by p sid row db \<Longrightarrow> f n env db = (r, db') \<Longrightarrow> blocked_by p sid row db' \<and> business_events db' = business_events db"
  shows "idle p sid row (source_call cx f)"
  unfolding idle_def
proof (intro allI impI)
  fix s r s'
  assume b: "blocked_by p sid row (snd s)" and run: "source_call cx f s = (r, s')"
  let ?db = "sc_others cx (fst s) (snd s)"
  note others = beside_steps_blocked [OF works_besideD(1) [OF assms(1)] b, of "fst s"]
  have "f (fst s) (sc_env cx (fst s)) ?db = (r, snd s')" using run by (auto simp: source_call_def split: prod.splits)
  from assms(2) [OF conjunct1 [OF others] this] show "still_blocked p sid row (snd s) (snd s')" using others by (simp add: source_events_def)
qed

lemma idle_publish [idle_rules]:
  assumes "works_beside cx p sid"
  shows "idle p sid row (prepare_and_publish cx sourceSequence)"
proof -
  note w = works_besideD [OF assms]
  have "idle p sid row (source_call cx (\<lambda>_ env. prepareNextSourceEvent env p sid))"
    by (rule idle_call [OF assms]) (auto simp: blocked_prepare)
  moreover have "idle p sid row (source_call cx (\<lambda>_ env. finalizeNextSourceEvent env p sid (so_eventRetentionMs (sc_options cx))))"
    by (rule idle_call [OF assms]) (metis blocked_finalize snd_conv)
  ultimately show ?thesis unfolding prepare_and_publish_def Let_def w(2-4) by (auto intro!: idle_then idle_return)
qed

lemma idle_take_in:
  assumes "works_beside cx p sid" "le_providerId lease = p" "le_sourceId lease = sid"
  shows "idle p sid row (take_in cx lease item)"
  using works_besideD(4) [OF assms(1)] unfolding take_in_def Let_def
  by (auto intro!: idle_then idle_call [OF assms(1)] blocked_intake [OF _ assms(2,3)] idle_return idle_publish [OF assms(1)])

lemma idle_consume:
  assumes "works_beside cx p sid" "le_providerId lease = p" "le_sourceId lease = sid"
  shows "idle p sid row (consume_events cx lease events)"
proof (induction events)
  case (Cons e events)
  have "idle p sid row (handleEvent cx lease e)"
    using idle_take_in [OF assms] unfolding idle_def handleEvent_def by (auto split: sum.splits)
  then show ?case using Cons by (auto intro: idle_then)
qed (simp add: idle_return)

lemma idle_failed:
  assumes "works_beside cx p sid"
  shows "idle p sid row (source_failed cx lease metadata)"
  using works_besideD(4) [OF assms] unfolding source_failed_def Let_def
  by (auto intro!: idle_then idle_call [OF assms] blocked_unavailable idle_return)

text \<open>What a worker does with its lease, up to any event of its stream.\<close>

lemma idle_with_lease:
  assumes "works_beside cx p sid" "event_reachable (snd s)" "blocked_by p sid row (snd s)" "acquire_lease cx s = (Inr (Some lease), s1)"
    and "consume_events cx lease events s1 = (q, s2)"
  shows "still_blocked p sid row (snd s) (snd s2)"
proof -
  note w = works_besideD [OF assms(1)]
  have acquire: "idle p sid row (acquire_lease cx)" by (intro idle_call [OF assms(1)] blocked_acquire)
  note first = idleD [OF acquire assms(3,4)]
  have inv: "event_inv (sc_others cx (fst s) (snd s))"
    using event_steps_advance(2) [OF _ reachable_event_inv [OF assms(2)]] w(5) by (simp add: others_step_def)
  have "acquireSourceLease (sc_env cx (fst s)) p sid (so_sourceStreamId (sc_options cx)) (so_replicaId (sc_options cx)) (so_leaseMs (sc_options cx))
      (sc_others cx (fst s) (snd s)) = (Inr (Some lease), snd s1)"
    using assms(4) w(2,3) by (auto simp: source_call_def split: prod.splits)
  then have id1: "le_providerId lease = p" "le_sourceId lease = sid" by (rule acquired_token [OF inv], blast)+
  from idleD [OF idle_consume [OF assms(1) id1] conjunct1 [OF first] assms(5)] show ?thesis using first by simp
qed

text \<open>C21.  A rejected event stops a source whose delivery is not durable: while a rejected row comes first among the unsettled rows of the source,
  its worker publishes nothing of the source, neither in a run that has settled, whatever the adapter delivered and however the stream ended, nor after any number
  of events of a stream that is still open, and the row still comes first afterwards.  This holds beside any number of other replicas that work for the
  same source and beside everything that leaves the rows of this source alone; what gets the source going again is an operation on its rows from outside, the
  rotation of the stream by an operator.\<close>

theorem rejected_event_stops_source:
  assumes "works_beside cx p sid" "event_reachable (snd s)" "blocked_by p sid row (snd s)"
  shows "(\<forall>r s'. runOnce cx s = Some (r, s') \<longrightarrow>
      blocked_by p sid row (snd s') \<and> source_events p sid (snd s') = source_events p sid (snd s)) \<and>
    (\<forall>lease s1 events r s'. acquire_lease cx s = (Inr (Some lease), s1) \<longrightarrow> consume_events cx lease events s1 = (r, s') \<longrightarrow>
      blocked_by p sid row (snd s') \<and> source_events p sid (snd s') = source_events p sid (snd s))"
proof (intro conjI [where P = "\<forall>r s'. _ r s'"] allI impI)
  fix lease s1 events r s'
  assume "acquire_lease cx s = (Inr (Some lease), s1)" "consume_events cx lease events s1 = (r, s')"
  then show "still_blocked p sid row (snd s) (snd s')" by (rule idle_with_lease [OF assms])
next
  fix r s'
  assume "runOnce cx s = Some (r, s')"
  then show "still_blocked p sid row (snd s) (snd s')"
  proof (cases rule: runOnce_cases)
    case (2 q)
    have "idle p sid row (acquire_lease cx)" by (intro idle_call [OF assms(1)] blocked_acquire)
    from idleD [OF this assms(3) 2(1)] show ?thesis .
  next
    case (1 lease s1)
    obtain events ending where stream: "sc_stream cx (stream_request_for (sc_options cx) lease) = (events, ending)" by fastforce
    obtain q s2 where c: "consume_events cx lease events s1 = (q, s2)" by (rule prod.exhaust)
    note until = idle_with_lease [OF assms 1(1) c]
    have "s' = s2 \<or> (\<exists>metadata. source_failed cx lease metadata s2 = (r, s'))"
      using 1(2) stream c by (auto simp: run_with_lease_def split: sum.splits stream_end.splits if_splits)
    then show ?thesis using until idleD [OF idle_failed [OF assms(1)] conjunct1 [OF until]] by metis
  qed
qed

end
