(* ===== verification/Source_Example.thy ===== *)
theory Source_Example
  imports Source_Theorems Event_Example
begin

text \<open>A run of a durable source's worker that takes in and publishes one event, and a source without durable delivery that a rejected event has stopped.\<close>

section \<open>A run that completes\<close>

definition gx_event :: AdapterBusinessEvent where
  "gx_event = \<lparr>ae_sourceEventId = ''x'', ae_sourceSequence = ''1'', ae_sourceStreamId = ''u'', ae_scope = scope_resource,
     ae_occurredAt = \<lparr>ts_seconds = Some 1704067200, ts_nanos = None\<rparr>, ae_eventType = ''t'', ae_description = ''d'', ae_externalExecutionId = Some '''',
     ae_resourceRef = Some ''r'', ae_severityHint = None, ae_reasonCode = '''', ae_rawPayload = None\<rparr>"

definition gx_item :: BusinessEventSourceFact where
  "gx_item = fx_item\<lparr>sf_rawPayload := Some (JObj [])\<rparr>"

lemma gx_normalized: "normalizeAdapterEvent gx_event = Inr gx_item"
  by (simp add: normalizeAdapterEvent_def timestampToRfc3339Nano_def gx_event_def gx_item_def fx_item_def valid_date_def fx_printed non_empty_def
      protoStructToJson_def)

lemma gx_input: "intake_input fx_env fx_lease gx_item = Inr fx_values"
proof -
  have "parseBusinessEventSequence (sf_sourceSequence gx_item) False = Inr 1" by code_simp
  moreover have "source_hash fx_env fx_lease gx_item ''2024-01-01T00:00:00Z'' = Inr fx_hash" by code_simp
  moreover have "event_hash fx_env (fact_json gx_item) = Inr fx_hash" by code_simp
  ultimately show ?thesis by (simp add: intake_input_def fx_values_def) (simp add: gx_item_def fx_item_def fx_occurred)
qed

definition gx_db3 :: event_db where
  "gx_db3 = snd (transaction fx_db2 (intake_transaction fx_env fx_lease gx_item fx_values 1000 1000 fx_db2))"

definition gx_db4 :: event_db where
  "gx_db4 = snd (prepareNextSourceEvent fx_env ''p'' ''s'' gx_db3)"

definition gx_db5 :: event_db where
  "gx_db5 = snd (finalizeNextSourceEvent fx_env ''p'' ''s'' 2000 gx_db4)"

definition gx_options :: source_options where
  "gx_options = \<lparr>so_providerId = ''p'', so_sourceId = ''s'', so_sourceStreamId = ''u'', so_deliverySemantics = durable_at_least_once, so_replicaId = ''o'',
     so_leaseMs = 500, so_inboxRetentionMs = 1000, so_eventRetentionMs = 2000, so_mappingDeadlineMs = 1000, so_generationRetentionMs = 1000\<rparr>"

definition gx_ctx :: source_ctx where
  "gx_ctx = \<lparr>sc_options = gx_options, sc_env = \<lambda>_. fx_env, sc_others = \<lambda>_ db. db, sc_uuid = \<lambda>_. (''h'', ''c''), sc_stream = \<lambda>_. ([gx_event], stream_ended)\<rparr>"

lemma gx_intake:
  "intakeSourceFact fx_env fx_lease gx_item 1000 1000 fx_db2 = (Inr \<lparr>ik_disposition = intake_received, ik_sourceCanonicalHash = fx_hash\<rparr>, gx_db3)"
proof -
  have "fst (transaction fx_db2 (intake_transaction fx_env fx_lease gx_item fx_values 1000 1000 fx_db2)) =
      Inr \<lparr>ik_disposition = intake_received, ik_sourceCanonicalHash = fx_hash\<rparr>" by code_simp
  then show ?thesis by (simp add: intakeSourceFact_def gx_input gx_db3_def prod_eq_iff)
qed

lemma gx_prepare: "prepareNextSourceEvent fx_env ''p'' ''s'' gx_db3 = (Inr prepare_ready, gx_db4)"
proof -
  have "fst (prepareNextSourceEvent fx_env ''p'' ''s'' gx_db3) = Inr prepare_ready" by code_simp
  then show ?thesis by (simp add: gx_db4_def prod_eq_iff)
qed

lemma gx_finalize: "\<exists>v. finalizeNextSourceEvent fx_env ''p'' ''s'' 2000 gx_db4 = (Inr v, gx_db5)"
proof -
  have "(case fst (finalizeNextSourceEvent fx_env ''p'' ''s'' 2000 gx_db4) of Inl _ \<Rightarrow> False | Inr v \<Rightarrow> v \<noteq> None)" by code_simp
  then show ?thesis by (auto simp: gx_db5_def prod_eq_iff split: sum.splits)
qed

lemma gx_run: "runOnce gx_ctx (0, fx_db1) = Some (Inr run_completed, (4, gx_db5))"
proof -
  obtain v where v: "finalizeNextSourceEvent fx_env ''p'' ''s'' 2000 gx_db4 = (Inr v, gx_db5)" using gx_finalize by blast
  show ?thesis
    by (simp add: runOnce_def run_with_lease_def source_call_def gx_ctx_def gx_options_def fx_acquire handleEvent_def gx_normalized take_in_def
        source_then_def source_return_def gx_intake prepare_and_publish_def gx_prepare v)
qed

theorem completed_run_took_all_in_witness:
  "runOnce gx_ctx (0, fx_db1) = Some (Inr run_completed, (4, gx_db5)) \<and> event_step\<^sup>*\<^sup>* fx_db1 gx_db5 \<and> (\<exists>lease. taken_in lease gx_event gx_db5)"
proof -
  have others: "others_step gx_ctx" by (simp add: others_step_def gx_ctx_def)
  have stream: "fst (sc_stream gx_ctx q) = [gx_event]" for q by (simp add: gx_ctx_def)
  show ?thesis using completed_run_took_all_in [OF others _ gx_run] fx_reachable(1) gx_run unfolding stream by auto
qed

section \<open>A source that is stopped\<close>

definition hx_source :: BusinessEventSourceDefinition where
  "hx_source = \<lparr>sd_sourceId = ''s'', sd_sourceStreamId = ''u'', sd_deliverySemantics = best_effort_live\<rparr>"

definition hx_item :: BusinessEventSourceFact where
  "hx_item = fx_item\<lparr>sf_eventType := ''''\<rparr>"

definition hx_db1 :: event_db where
  "hx_db1 = snd (initializeProvider fx_env ''g'' ''p'' [hx_source] 1000 empty_event_db)"

definition hx_db2 :: event_db where
  "hx_db2 = snd (acquireSourceLease fx_env ''p'' ''s'' ''u'' ''o'' 500 hx_db1)"

lemma hx_input: "intake_input fx_env fx_lease hx_item = Inr fx_values"
proof -
  have "parseBusinessEventSequence (sf_sourceSequence hx_item) False = Inr 1" by code_simp
  moreover have "source_hash fx_env fx_lease hx_item ''2024-01-01T00:00:00Z'' = Inr fx_hash" by code_simp
  moreover have "event_hash fx_env (fact_json hx_item) = Inr fx_hash" by code_simp
  ultimately show ?thesis by (simp add: intake_input_def fx_values_def) (simp add: hx_item_def fx_item_def fx_occurred)
qed

definition hx_db3 :: event_db where
  "hx_db3 = snd (transaction hx_db2 (intake_transaction fx_env fx_lease hx_item fx_values 1000 1000 hx_db2))"

definition hx_row :: event_inbox_row where
  "hx_row = hd (event_inbox hx_db3)"

lemma hx_reachable: "event_reachable hx_db3"
proof -
  have "event_step empty_event_db hx_db1" "event_step hx_db1 hx_db2" unfolding hx_db1_def hx_db2_def by (rule step_initialize step_acquire)+
  moreover have "event_step hx_db2 hx_db3"
    using step_intake [of hx_db2 fx_env fx_lease hx_item 1000 1000] by (simp add: intakeSourceFact_def hx_input hx_db3_def)
  ultimately show ?thesis by (meson rtranclp.rtrancl_into_rtrancl rtranclp.rtrancl_refl)
qed

lemma hx_blocked: "blocked_by ''p'' ''s'' hx_row hx_db3"
proof -
  have inbox1: "event_inbox hx_db3 = [hx_row]" by code_simp
  have row: "bx_status hx_row = X_rejected" "bx_sequence hx_row = Some 1" "inbox_of ''p'' ''s'' ''u'' hx_row" by code_simp+
  have "map_option (\<lambda>r. (ss_source_stream_id r, ss_last_persisted r)) (find_source ''p'' ''s'' hx_db3) = Some (''u'', 1)" by code_simp
  then obtain src where "find_source ''p'' ''s'' hx_db3 = Some src" "ss_source_stream_id src = ''u''" "ss_last_persisted src = 1" by auto
  moreover have "event_schema_ok hx_db3" using event_invD(1) [OF reachable_event_inv [OF hx_reachable]] .
  ultimately show ?thesis using inbox1 row by (simp add: blocked_by_def)
qed

text \<open>Another replica tries to publish before every call.\<close>

definition hx_ctx :: source_ctx where
  "hx_ctx = gx_ctx\<lparr>sc_options := gx_options\<lparr>so_deliverySemantics := best_effort_live\<rparr>,
     sc_others := \<lambda>n db. snd (prepareNextSourceEvent fx_env ''p'' ''s'' db),
     sc_stream := \<lambda>_. ([gx_event\<lparr>ae_sourceEventId := ''y'', ae_sourceSequence := ''2''\<rparr>], stream_ended)\<rparr>"

lemma hx_beside: "works_beside hx_ctx ''p'' ''s''"
  by (auto simp: works_beside_def hx_ctx_def gx_ctx_def gx_options_def intro: beside_prepare)

theorem rejected_event_stops_source_witness:
  "blocked_by ''p'' ''s'' hx_row hx_db3 \<and>
   (\<exists>r s'. runOnce hx_ctx (0, hx_db3) = Some (r, s') \<and> source_events ''p'' ''s'' (snd s') = source_events ''p'' ''s'' hx_db3 \<and>
      blocked_by ''p'' ''s'' hx_row (snd s'))"
proof -
  obtain r s' where run: "runOnce hx_ctx (0, hx_db3) = Some (r, s')"
    by (fastforce simp: runOnce_def run_with_lease_def hx_ctx_def Let_def split: prod.splits sum.splits option.splits)
  have "event_reachable (snd (0::nat, hx_db3))" "blocked_by ''p'' ''s'' hx_row (snd (0::nat, hx_db3))" using hx_reachable hx_blocked by simp_all
  from conjunct1 [OF rejected_event_stops_source [OF hx_beside this]] run
  have "blocked_by ''p'' ''s'' hx_row (snd s') \<and> source_events ''p'' ''s'' (snd s') = source_events ''p'' ''s'' hx_db3" by (metis snd_conv)
  then show ?thesis using run hx_blocked by blast
qed

end
