(* ===== verification/Security.thy ===== *)
theory Security
  imports Protocol
begin

text \<open>
  Who calls (\<^verbatim>\<open>packages/mcp-protocol/src/security.ts\<close>): the identity of a request from trusted headers or a signed token, its execution mode, and the
  hash under which all data of a caller are kept.

  HMAC, SHA-256, the JSON parser of a decoded segment, the clock and the drawn correlation identifier are arguments; base64url is modelled.
\<close>

record security_env =
  se_sha256 :: "string \<Rightarrow> string"
  se_hmac :: "string \<Rightarrow> string \<Rightarrow> nat list"
  se_json :: "nat list \<Rightarrow> json option"
  se_now :: int
  se_uuid :: string

record jwt_options =
  jo_secret :: string
  jo_issuer :: "string option"
  jo_audience :: "string option"

datatype AuthenticationOptions = auth_development | auth_trusted_headers | auth_jwt jwt_options

record identity =
  id_subject :: string
  id_tenant :: string

text \<open>\<^verbatim>\<open>header\<close>: the first of several values.\<close>

definition request_header :: "http_headers \<Rightarrow> string \<Rightarrow> string option" where
  "request_header headers name =
     (case map_of headers name of
        None \<Rightarrow> None
      | Some (header_text v) \<Rightarrow> Some v
      | Some (header_array vs) \<Rightarrow> (case vs of [] \<Rightarrow> None | v # _ \<Rightarrow> Some v))"

section \<open>base64url\<close>

definition b64_chars :: string where
  "b64_chars = ''ABCDEFGHIJKLMNOPQRSTUVWXYZabcdefghijklmnopqrstuvwxyz0123456789-_''"

definition b64_char :: "nat \<Rightarrow> char" where
  "b64_char n = b64_chars ! n"

definition b64_value :: "char \<Rightarrow> nat" where
  "b64_value c = (case map_of (zip b64_chars [0..<64]) c of None \<Rightarrow> 0 | Some n \<Rightarrow> n)"

fun base64url_encode :: "nat list \<Rightarrow> string" where
  "base64url_encode [] = []"
| "base64url_encode [x] = [b64_char (x div 4), b64_char (x mod 4 * 16)]"
| "base64url_encode [x, y] = [b64_char (x div 4), b64_char (x mod 4 * 16 + y div 16), b64_char (y mod 16 * 4)]"
| "base64url_encode (x # y # z # bytes) =
     b64_char (x div 4) # b64_char (x mod 4 * 16 + y div 16) # b64_char (y mod 16 * 4 + z div 64) # b64_char (z mod 64) # base64url_encode bytes"

fun base64url_decode :: "string \<Rightarrow> nat list" where
  "base64url_decode (a # b # c # d # s) =
     (b64_value a * 4 + b64_value b div 16) # (b64_value b mod 16 * 16 + b64_value c div 4) # (b64_value c mod 4 * 64 + b64_value d) # base64url_decode s"
| "base64url_decode [a, b, c] = [b64_value a * 4 + b64_value b div 16, b64_value b mod 16 * 16 + b64_value c div 4]"
| "base64url_decode [a, b] = [b64_value a * 4 + b64_value b div 16]"
| "base64url_decode _ = []"

definition decodeCanonicalBase64Url :: "string \<Rightarrow> err + nat list" where
  "decodeCanonicalBase64Url segment =
     (if segment = [] \<or> \<not> list_all (\<lambda>c. c \<in> set b64_chars) segment then Inl (Error ''INVALID_BEARER_TOKEN'')
      else if base64url_encode (base64url_decode segment) \<noteq> segment then Inl (Error ''INVALID_BEARER_TOKEN'')
      else Inr (base64url_decode segment))"

section \<open>Tokens\<close>

definition parseSegment :: "security_env \<Rightarrow> string \<Rightarrow> err + json_object" where
  "parseSegment env segment =
     (case decodeCanonicalBase64Url segment of
        Inl _ \<Rightarrow> Inl (Error ''INVALID_BEARER_TOKEN'')
      | Inr bytes \<Rightarrow> (case se_json env bytes of Some (JObj o1) \<Rightarrow> Inr o1 | _ \<Rightarrow> Inl (Error ''INVALID_BEARER_TOKEN'')))"

definition matchesAudience :: "json option \<Rightarrow> string \<Rightarrow> bool" where
  "matchesAudience claim expected = (claim = Some (JStr expected) \<or> (case claim of Some (JArr xs) \<Rightarrow> JStr expected \<in> set xs | _ \<Rightarrow> False))"

definition claim_name :: "json option \<Rightarrow> string option" where
  "claim_name v = (case v of Some (JStr s) \<Rightarrow> if 1 \<le> length s \<and> length s \<le> 256 then Some s else None | _ \<Rightarrow> None)"

definition check_claims :: "security_env \<Rightarrow> jwt_options \<Rightarrow> json_object \<Rightarrow> err + identity" where
  "check_claims env options claims =
     (let now1 = se_now env div 1000 in
      if (case obj_get claims ''exp'' of Some (JNum e) \<Rightarrow> e \<le> now1 | _ \<Rightarrow> True) then Inl (Error ''JWT_EXPIRED'')
      else if (case obj_get claims ''nbf'' of Some (JNum n) \<Rightarrow> n > now1 | _ \<Rightarrow> False) then Inl (Error ''JWT_NOT_ACTIVE'')
      else if (case jo_issuer options of None \<Rightarrow> False | Some i \<Rightarrow> obj_get claims ''iss'' \<noteq> Some (JStr i)) then Inl (Error ''INVALID_JWT_ISSUER'')
      else if (case jo_audience options of None \<Rightarrow> False | Some a \<Rightarrow> \<not> matchesAudience (obj_get claims ''aud'') a) then Inl (Error ''INVALID_JWT_AUDIENCE'')
      else case claim_name (obj_get claims ''sub'') of
        None \<Rightarrow> Inl (Error ''INVALID_JWT_SUBJECT'')
      | Some subject \<Rightarrow> (case claim_name (obj_get claims ''tenant'') of
          None \<Rightarrow> Inl (Error ''INVALID_JWT_TENANT'')
        | Some tenant \<Rightarrow> Inr \<lparr>id_subject = subject, id_tenant = tenant\<rparr>))"

definition check_token :: "security_env \<Rightarrow> jwt_options \<Rightarrow> string \<Rightarrow> err + identity" where
  "check_token env options token =
     (case split_on (CHR ''.'') token of
        [encodedHeader, encodedPayload, encodedSignature] \<Rightarrow>
          bind_err (parseSegment env encodedHeader) (\<lambda>tokenHeader.
          if obj_get tokenHeader ''alg'' \<noteq> Some (JStr ''HS256'') \<or> obj_get tokenHeader ''typ'' \<noteq> Some (JStr ''JWT'') then Inl (Error ''UNSUPPORTED_JWT_ALGORITHM'')
          else
            bind_err (decodeCanonicalBase64Url encodedSignature) (\<lambda>signature.
            if signature \<noteq> se_hmac env (jo_secret options) (encodedHeader @ ''.'' @ encodedPayload) then Inl (Error ''INVALID_BEARER_TOKEN'')
            else bind_err (parseSegment env encodedPayload) (check_claims env options)))
      | _ \<Rightarrow> Inl (Error ''INVALID_BEARER_TOKEN''))"

definition jwtIdentity :: "security_env \<Rightarrow> jwt_options \<Rightarrow> http_headers \<Rightarrow> err + identity" where
  "jwtIdentity env options headers =
     (case request_header headers ''authorization'' of
        None \<Rightarrow> Inl (Error ''AUTHENTICATION_REQUIRED'')
      | Some authorization \<Rightarrow>
          if take 7 authorization \<noteq> ''Bearer '' then Inl (Error ''AUTHENTICATION_REQUIRED'') else check_token env options (drop 7 authorization))"

definition trustedIdentity :: "http_headers \<Rightarrow> bool \<Rightarrow> err + identity" where
  "trustedIdentity headers allowDevelopmentAnonymous =
     (case (request_header headers ''x-sdar-subject'', request_header headers ''x-sdar-tenant'') of
        (Some subject, Some tenant) \<Rightarrow> Inr \<lparr>id_subject = subject, id_tenant = tenant\<rparr>
      | (subject, tenant) \<Rightarrow>
          if \<not> allowDevelopmentAnonymous then Inl (Error ''AUTHENTICATION_REQUIRED'')
          else Inr \<lparr>id_subject = (case subject of None \<Rightarrow> ''development-anonymous'' | Some s \<Rightarrow> s), id_tenant = (case tenant of None \<Rightarrow> ''default'' | Some t \<Rightarrow> t)\<rparr>)"

section \<open>The context of a request\<close>

definition parse_mode :: "string \<Rightarrow> ExecutionMode option" where
  "parse_mode s = map_of [(''live'', live), (''simulation'', simulation), (''historical-replay'', historical_replay)] s"

definition correlation_format :: "string \<Rightarrow> bool" where
  "correlation_format s = (list_all (\<lambda>c. is_letter c \<or> is_digit c \<or> c \<in> set ''._:-'') s \<and> 1 \<le> length s \<and> length s \<le> 128)"

definition correlationId :: "security_env \<Rightarrow> http_headers \<Rightarrow> err + string" where
  "correlationId env headers =
     (case request_header headers ''x-correlation-id'' of
        None \<Rightarrow> Inr (se_uuid env)
      | Some supplied \<Rightarrow> if correlation_format supplied then Inr supplied else Inl (Error ''INVALID_CORRELATION_ID''))"

definition identity_hash :: "security_env \<Rightarrow> identity \<Rightarrow> string" where
  "identity_hash env i = se_sha256 env (id_tenant i @ [CHR 0x00] @ id_subject i)"

definition resolveAuthorization :: "security_env \<Rightarrow> AuthenticationOptions \<Rightarrow> http_headers \<Rightarrow> err + AuthorizationContext" where
  "resolveAuthorization env options headers =
     bind_err (case options of
         auth_jwt j \<Rightarrow> jwtIdentity env j headers
       | auth_development \<Rightarrow> trustedIdentity headers True
       | auth_trusted_headers \<Rightarrow> trustedIdentity headers False) (\<lambda>identity.
     case parse_mode (case request_header headers ''x-sdar-execution-mode'' of None \<Rightarrow> ''live'' | Some m \<Rightarrow> m) of
       None \<Rightarrow> Inl (Error ''INVALID_EXECUTION_MODE'')
     | Some mode \<Rightarrow>
         let simulationId = request_header headers ''x-sdar-simulation-id'' in
         if (mode = live) \<noteq> (simulationId = None) then Inl (Error ''INVALID_SIMULATION_CONTEXT'')
         else
           bind_err (correlationId env headers) (\<lambda>correlation.
           Inr \<lparr>au_hash = identity_hash env identity, au_executionMode = mode, au_simulationId = simulationId, au_correlationId = Some correlation,
             au_traceId = None, au_rootTraceparent = None, au_rootTracestate = None\<rparr>))"

section \<open>base64url is a bijection on canonical texts\<close>

lemma b64_value_char: "n < 64 \<Longrightarrow> b64_value (b64_char n) = n"
proof -
  have "list_all (\<lambda>n. b64_value (b64_char n) = n) [0..<64]" by code_simp
  then show "n < 64 \<Longrightarrow> b64_value (b64_char n) = n" by (simp add: list_all_iff)
qed

lemma digit: "b < m \<Longrightarrow> (a * m + b) div m = a" "b < m \<Longrightarrow> (a * m + b) mod m = b" for a b m :: nat
  by simp_all

lemma b64_decode_4:
  assumes "x < 256" "y < 256" "z < 256"
  shows "base64url_decode (b64_char (x div 4) # b64_char (x mod 4 * 16 + y div 16) # b64_char (y mod 16 * 4 + z div 64) # b64_char (z mod 64) # s) =
    x # y # z # base64url_decode s"
proof -
  have v: "b64_value (b64_char (x div 4)) = x div 4" "b64_value (b64_char (x mod 4 * 16 + y div 16)) = x mod 4 * 16 + y div 16"
    "b64_value (b64_char (y mod 16 * 4 + z div 64)) = y mod 16 * 4 + z div 64" "b64_value (b64_char (z mod 64)) = z mod 64"
    using assms by (intro b64_value_char; linarith)+
  have "y div 16 < 16" "z div 64 < 4" using assms by simp_all
  then show ?thesis by (simp only: base64url_decode.simps v digit div_mult_mod_eq)
qed

lemma b64_decode_3:
  assumes "x < 256" "y < 256"
  shows "base64url_decode [b64_char (x div 4), b64_char (x mod 4 * 16 + y div 16), b64_char (y mod 16 * 4)] = [x, y]"
proof -
  have v: "b64_value (b64_char (x div 4)) = x div 4" "b64_value (b64_char (x mod 4 * 16 + y div 16)) = x mod 4 * 16 + y div 16"
    "b64_value (b64_char (y mod 16 * 4)) = y mod 16 * 4"
    using assms by (intro b64_value_char; linarith)+
  have "y div 16 < 16" "y mod 16 * 4 div 4 = y mod 16" using assms by simp_all
  then show ?thesis by (simp only: base64url_decode.simps v digit div_mult_mod_eq)
qed

lemma b64_decode_2:
  assumes "x < 256"
  shows "base64url_decode [b64_char (x div 4), b64_char (x mod 4 * 16)] = [x]"
proof -
  have v: "b64_value (b64_char (x div 4)) = x div 4" "b64_value (b64_char (x mod 4 * 16)) = x mod 4 * 16"
    using assms by (intro b64_value_char; linarith)+
  have "x mod 4 * 16 div 16 = x mod 4" by simp
  then show ?thesis by (simp only: base64url_decode.simps v div_mult_mod_eq)
qed

text \<open>Decoding inverts encoding on byte strings, and a text that passes the check is the encoding of the bytes it stands for.\<close>

lemma base64url_roundtrip: "list_all (\<lambda>x. x < 256) bytes \<Longrightarrow> base64url_decode (base64url_encode bytes) = bytes"
  by (induction bytes rule: base64url_encode.induct) (simp_all add: b64_decode_4 b64_decode_3 b64_decode_2 del: base64url_decode.simps(1-3))

lemma base64url_canonical: "decodeCanonicalBase64Url s = Inr bytes \<Longrightarrow> s = base64url_encode bytes"
  by (auto simp: decodeCanonicalBase64Url_def split: if_splits)

section \<open>Accepted callers\<close>

lemma split_on_joined: "split_on c s \<noteq> [] \<and> hd (split_on c s) @ concat (map ((#) c) (tl (split_on c s))) = s"
  by (induction s) (auto split: list.splits)

lemma split_on_three: "split_on c s = [x, y, z] \<Longrightarrow> s = x @ [c] @ y @ [c] @ z"
  using split_on_joined [of c s] by simp

definition claims_accepted :: "security_env \<Rightarrow> jwt_options \<Rightarrow> json_object \<Rightarrow> identity \<Rightarrow> bool" where
  "claims_accepted env options claims i \<longleftrightarrow>
     (\<exists>e. obj_get claims ''exp'' = Some (JNum e) \<and> se_now env div 1000 < e) \<and>
     (\<forall>n. obj_get claims ''nbf'' = Some (JNum n) \<longrightarrow> n \<le> se_now env div 1000) \<and>
     (\<forall>iss. jo_issuer options = Some iss \<longrightarrow> obj_get claims ''iss'' = Some (JStr iss)) \<and>
     (\<forall>a. jo_audience options = Some a \<longrightarrow> matchesAudience (obj_get claims ''aud'') a) \<and>
     obj_get claims ''sub'' = Some (JStr (id_subject i)) \<and> obj_get claims ''tenant'' = Some (JStr (id_tenant i)) \<and>
     length (id_subject i) \<in> {1..256} \<and> length (id_tenant i) \<in> {1..256}"

lemma claim_name_Some: "claim_name v = Some s \<longleftrightarrow> v = Some (JStr s) \<and> length s \<in> {1..256}"
  by (auto simp: claim_name_def split: option.splits json.splits)

lemma check_claims_Inr: "check_claims env options claims = Inr i \<Longrightarrow> claims_accepted env options claims i"
  unfolding check_claims_def claims_accepted_def Let_def
  by (auto simp: claim_name_Some split: option.splits json.splits if_splits)

lemma parseSegment_Inr: "parseSegment env segment = Inr o1 \<Longrightarrow> se_json env (base64url_decode segment) = Some (JObj o1)"
  by (auto simp: parseSegment_def decodeCanonicalBase64Url_def split: sum.splits option.splits json.splits if_splits)

lemma check_token_Inr:
  assumes "check_token env options token = Inr i"
  obtains h p header1 claims where "token = h @ ''.'' @ p @ ''.'' @ base64url_encode (se_hmac env (jo_secret options) (h @ ''.'' @ p))"
    "se_json env (base64url_decode h) = Some (JObj header1)" "obj_get header1 ''alg'' = Some (JStr ''HS256'')"
    "se_json env (base64url_decode p) = Some (JObj claims)" "claims_accepted env options claims i"
proof -
  obtain h p sg where split1: "split_on (CHR ''.'') token = [h, p, sg]"
    using assms by (auto simp: check_token_def split: list.splits)
  then obtain header1 claims where t: "parseSegment env h = Inr header1" "obj_get header1 ''alg'' = Some (JStr ''HS256'')"
    "decodeCanonicalBase64Url sg = Inr (se_hmac env (jo_secret options) (h @ ''.'' @ p))" "parseSegment env p = Inr claims"
    "check_claims env options claims = Inr i"
    using assms by (auto simp: check_token_def bind_err_Inr_iff split: if_splits)
  have "token = h @ ''.'' @ p @ ''.'' @ base64url_encode (se_hmac env (jo_secret options) (h @ ''.'' @ p))"
    using split_on_three [OF split1] base64url_canonical [OF t(3)] by simp
  then show thesis using that t parseSegment_Inr check_claims_Inr by blast
qed

text \<open>C16.  With token authentication a request is accepted only when it carries a bearer token whose third part is the canonical text of the HMAC of its first
  two under the configured secret, whose header names that algorithm, and whose claims have not expired, are active and fit the configured issuer and
  audience; the caller is then known under the hash of exactly the tenant and subject claimed there, and runs live exactly without a simulation.\<close>

theorem accepted_caller_is_signed:
  assumes "resolveAuthorization env (auth_jwt options) headers = Inr a"
  shows "\<exists>h p header1 claims i.
    request_header headers ''authorization'' = Some (''Bearer '' @ h @ ''.'' @ p @ ''.'' @ base64url_encode (se_hmac env (jo_secret options) (h @ ''.'' @ p))) \<and>
    se_json env (base64url_decode h) = Some (JObj header1) \<and> obj_get header1 ''alg'' = Some (JStr ''HS256'') \<and>
    se_json env (base64url_decode p) = Some (JObj claims) \<and> claims_accepted env options claims i \<and>
    au_hash a = identity_hash env i \<and> (au_executionMode a = live \<longleftrightarrow> au_simulationId a = None)"
proof -
  obtain i where i: "jwtIdentity env options headers = Inr i" "au_hash a = identity_hash env i" "au_executionMode a = live \<longleftrightarrow> au_simulationId a = None"
    using assms by (auto simp: resolveAuthorization_def bind_err_Inr_iff Let_def split: option.splits if_splits)
  obtain v where v: "request_header headers ''authorization'' = Some v" "take 7 v = ''Bearer ''" "check_token env options (drop 7 v) = Inr i"
    using i(1) by (auto simp: jwtIdentity_def split: option.splits if_splits)
  have "v = ''Bearer '' @ drop 7 v" using append_take_drop_id [of 7 v] v(2) by simp
  with check_token_Inr [OF v(3)] v(1) i(2,3) show ?thesis by metis
qed

section \<open>Callers are kept apart\<close>

lemma first_nul:
  assumes "CHR 0x00 \<notin> set t" "CHR 0x00 \<notin> set t'" "t @ [CHR 0x00] @ s = t' @ [CHR 0x00] @ s'"
  shows "t = t' \<and> s = s'"
  using assms
proof (induction t arbitrary: t')
  case Nil
  then show ?case by (cases t') auto
next
  case (Cons c t)
  then show ?case by (cases t') auto
qed

text \<open>Two callers share a hash only by a collision of the hash function, as long as no tenant contains the separator; with a separator in
  a tenant two callers do share it.\<close>

lemma callers_kept_apart:
  assumes "CHR 0x00 \<notin> set (id_tenant i)" "CHR 0x00 \<notin> set (id_tenant j)"
    and "se_sha256 env (id_tenant i @ [CHR 0x00] @ id_subject i) = se_sha256 env (id_tenant j @ [CHR 0x00] @ id_subject j) \<Longrightarrow>
      id_tenant i @ [CHR 0x00] @ id_subject i = id_tenant j @ [CHR 0x00] @ id_subject j"
  shows "identity_hash env i = identity_hash env j \<longleftrightarrow> i = (j :: identity)"
proof
  assume "identity_hash env i = identity_hash env j"
  then have "id_tenant i @ [CHR 0x00] @ id_subject i = id_tenant j @ [CHR 0x00] @ id_subject j" using assms(3) by (simp add: identity_hash_def)
  from first_nul [OF assms(1,2) this] show "i = j" by simp
qed simp

lemma callers_share_hash:
  "identity_hash env \<lparr>id_subject = s, id_tenant = t @ [CHR 0x00] @ u\<rparr> = identity_hash env \<lparr>id_subject = u @ [CHR 0x00] @ s, id_tenant = t\<rparr>"
  by (simp add: identity_hash_def)

section \<open>A token\<close>

definition jx_claims :: json_object where
  "jx_claims = [(''alg'', JStr ''HS256''), (''typ'', JStr ''JWT''), (''exp'', JNum 10), (''sub'', JStr ''s''), (''tenant'', JStr ''t'')]"

definition jx_env :: security_env where
  "jx_env = \<lparr>se_sha256 = (\<lambda>s. s), se_hmac = (\<lambda>_ _. [1, 2, 3]), se_json = (\<lambda>_. Some (JObj jx_claims)), se_now = 5000, se_uuid = ''u''\<rparr>"

definition jx_options :: jwt_options where
  "jx_options = \<lparr>jo_secret = ''k'', jo_issuer = None, jo_audience = None\<rparr>"

definition jx_context :: AuthorizationContext where
  "jx_context = \<lparr>au_hash = ''t'' @ [CHR 0x00] @ ''s'', au_executionMode = live, au_simulationId = None, au_correlationId = Some ''u'', au_traceId = None,
     au_rootTraceparent = None, au_rootTracestate = None\<rparr>"

theorem accepted_caller_is_signed_witness:
  "resolveAuthorization jx_env (auth_jwt jx_options) [(''authorization'', header_text ''Bearer AAAA.AAAA.AQID'')] = Inr jx_context \<and>
   (\<exists>h p claims i. ''Bearer AAAA.AAAA.AQID'' = ''Bearer '' @ h @ ''.'' @ p @ ''.'' @ base64url_encode [1, 2, 3] \<and>
     claims_accepted jx_env jx_options claims i \<and> au_hash jx_context = identity_hash jx_env i)"
proof -
  have run: "resolveAuthorization jx_env (auth_jwt jx_options) [(''authorization'', header_text ''Bearer AAAA.AAAA.AQID'')] = Inr jx_context" by code_simp
  have carried: "request_header [(''authorization'', header_text ''Bearer AAAA.AAAA.AQID'')] ''authorization'' = Some ''Bearer AAAA.AAAA.AQID''"
    by (simp add: request_header_def)
  have mac: "se_hmac jx_env k t = [1, 2, 3]" for k t by (simp add: jx_env_def)
  obtain h p claims i where "''Bearer AAAA.AAAA.AQID'' = ''Bearer '' @ h @ ''.'' @ p @ ''.'' @ base64url_encode [1, 2, 3]"
    "claims_accepted jx_env jx_options claims i" "au_hash jx_context = identity_hash jx_env i"
    using accepted_caller_is_signed [OF run, unfolded carried mac option.inject] by blast
  then show ?thesis using run by blast
qed

end
