(* ===== verification/Spec2Isabelle.thy ===== *)
theory Spec2Isabelle
  imports Domain_Theorems Outbox Delivery Engine_Example Ttl_Example Service_Example Protocol_Example Notification_Example Event_Feed_Example Source_Example Security
begin

text \<open>
  \<^bold>\<open>Verification of the SDAR MCP Tasks provider runtime\<close>

  The runtime (\<^verbatim>\<open>src/packages\<close>, \<^verbatim>\<open>src/apps\<close>) runs long operations of a provider as tasks of the Model Context Protocol.  A client calls a tool; the
  engine admits the call, starts the operation at the provider's adapter over gRPC, and from then on the task lives in a PostgreSQL store that several
  replicas share.  Workers deliver commands (cancel, pause, resume, input) to the adapter, start scheduled tasks in their window, watch
  executions whose start is unconfirmed, reconcile tasks after failures and publish the events that transitions leave in an outbox.

  \<^bold>\<open>How the code is modelled\<close>

  \<^item> Rows and messages are records, enumerations datatypes, with the source's names; errors are values of \<open>err\<close> and fallible code
    returns \<open>err + 'a\<close>.  JSON values are the datatype \<open>json\<close>, whose numbers are integers; objects are association lists in insertion order.
  \<^item> The database is the record \<open>db\<close> of its tables.  A repository method is a function of the store: one transaction, which commits its
    new store or throws and leaves the old one.  The constraints of the migrations (keys, unique indexes, checks) are checked by \<open>checked\<close>, so that a
    violating statement is an error as in PostgreSQL.  Rows locked by other transactions (\<^verbatim>\<open>SKIP LOCKED\<close>) are given by a predicate.
  \<^item> Clocks, SHA-256, the legacy date parser, the collation of \<^verbatim>\<open>localeCompare\<close>, the JSON schema compiler, PostgreSQL's \<^verbatim>\<open>hashtext\<close>, drawn
    UUIDs and the adapter's gateway are arguments; nothing is assumed of them but what a theorem states.
  \<^item> Workers and handlers are programs over a world: the store, a counter of the calls made, and the rest, which stands for the adapter.  Before each
    repository call the other replicas may have done anything they can do (\<open>wc_others\<close>); the gateway may answer anything and change the rest.
  \<^item> Loops are recursion over the rows they visit, or over the distance to a sequence that was read before (\<open>replay_loop\<close>).  The loop that waits for
    others in the idempotency repository runs over a list of turns and returns \<open>None\<close> when they run out; a turn after the waiting time is always
    enough (\<open>execute_returns\<close>).  The live loop of an event stream runs until the client leaves or the maximal duration is over; it has fuel, one unit per
    poll, and what is shown of it holds for every amount of fuel with which it ends.

  \<^bold>\<open>Theories\<close>

  \<^descr>[\<open>Prelude\<close>] tables as lists, error values, decimal and date printing, and the interfaces as locales: invariants of a step relation
    (\<open>step_invariant\<close>, \<open>write_once\<close>, \<open>step_progress\<close>), effects of fallible operations (\<open>effect\<close>) and capped back-off (\<open>backoff\<close>).
  \<^descr>[\<open>Json\<close>] JSON values, objects and their canonical text (\<^verbatim>\<open>canonicalize\<close> of \<^verbatim>\<open>engine.ts\<close>), which identifies a value.
  \<^descr>[\<open>Domain\<close>, \<open>Domain_Theorems\<close>] \<^verbatim>\<open>packages/domain\<close>: states, adapter snapshots and the transitions they give, timing, availability, errors.
  \<^descr>[\<open>Adapter\<close>, \<open>Adapter_Events\<close>] \<^verbatim>\<open>packages/adapter-protocol\<close>: messages, identity checks, the protobuf structure, the identity of business events.
  \<^descr>[\<open>Registry\<close>, \<open>Result_Contract\<close>] \<^verbatim>\<open>packages/operation-registry\<close>, \<^verbatim>\<open>operation-snapshots.ts\<close>, \<^verbatim>\<open>result-contract.ts\<close>: manifests, their snapshots, the checks on results.
  \<^descr>[\<open>Store\<close>] the tables with their constraints, \<^verbatim>\<open>transitionTask\<close> and its observation and event (\<^verbatim>\<open>packages/persistence-postgres/src/tasks.ts\<close>); \<open>Store_Inv\<close> has the
    invariant of the store and its progress order.
  \<^descr>[\<open>Store_Admission\<close>, \<open>Store_Schedule\<close>, \<open>Store_Commands\<close>, \<open>Store_Control\<close>, \<open>Store_Input\<close>, \<open>Store_Recovery\<close>] the other methods of
    \<^verbatim>\<open>TaskRepository\<close>, in the order of the file, each with the lemma that it respects the invariant.
  \<^descr>[\<open>Store_Steps\<close>, \<open>Store_Theorems\<close>, \<open>Control_Theorems\<close>, \<open>Store_Example\<close>] all methods as one step relation, what holds of reachable stores, what
    cancellation, claims and snapshots guarantee, and a concrete run.
  \<^descr>[\<open>Idempotency\<close>, \<open>Outbox\<close>, \<open>Delivery\<close>] \<^verbatim>\<open>idempotency.ts\<close>; the outbox, its publisher and cleaner; the delivery of provider operations.
  \<^descr>[\<open>Worker\<close>, \<open>Worker_Lemmas\<close>] programs, leases with heartbeat, and the locale \<open>world_order\<close>, which lifts a property of the basic calls to
    every program composed of them; it is interpreted for runs of the store (\<open>runs\<close>) and for programs that leave the adapter alone (\<open>silent\<close>).
  \<^descr>[\<open>Dispatcher\<close>, \<open>Dispatcher_Theorems\<close>, \<open>Dispatcher_Example\<close>] \<^verbatim>\<open>command-dispatcher.ts\<close> and \<^verbatim>\<open>lease-heartbeat.ts\<close>.
  \<^descr>[\<open>Scheduler\<close>, \<open>Scheduler_Theorems\<close>, \<open>Scheduler_Example\<close>] \<^verbatim>\<open>scheduler.ts\<close> and \<^verbatim>\<open>bound-execution-watchdog.ts\<close>.
  \<^descr>[\<open>Task_View\<close>, \<open>Engine\<close>, \<open>Engine_Theorems\<close>, \<open>Engine_Call\<close>, \<open>Recovery\<close>, \<open>Engine_Example\<close>] \<^verbatim>\<open>detailed-task.ts\<close>, \<^verbatim>\<open>engine.ts\<close> and \<^verbatim>\<open>recovery.ts\<close>.
  \<^descr>[\<open>Event_Audit\<close>] the audit envelopes of business events (\<^verbatim>\<open>packages/observability\<close>: \<^verbatim>\<open>hash.ts\<close>, \<^verbatim>\<open>event-envelope.ts\<close>, the sanitizer) and their recorder.
  \<^descr>[\<open>Event_Store\<close>, \<open>Event_Sources\<close>, \<open>Event_Intake\<close>, \<open>Event_Streams\<close>] the tables of migration 023 and the methods of \<^verbatim>\<open>BusinessEventRepository\<close>
    (\<^verbatim>\<open>packages/persistence-postgres/src/business-events.ts\<close>): generations and leases; intake, mapping and publication of facts; rotation, replay, projections.
  \<^descr>[\<open>Event_Inv\<close>, \<open>Event_Steps\<close>, \<open>Event_Theorems\<close>, \<open>Event_Example\<close>] the effects of these methods, their step relation with its invariant and progress
    order, what holds of reachable event stores, and a concrete run.
  \<^descr>[\<open>Source_Client\<close>, \<open>Source_Theorems\<close>, \<open>Source_Example\<close>] \<^verbatim>\<open>apps/runtime/src/business-events\<close>: the worker that runs a source's stream, and the rotation service.
  \<^descr>[\<open>Ttl_Cleaner\<close>, \<open>Ttl_Theorems\<close>, \<open>Ttl_Example\<close>] \<^verbatim>\<open>ttl-cleaner.ts\<close>: the tick over the task store, the event store and the idempotency records.
  \<^descr>[\<open>Service\<close>, \<open>Service_Example\<close>] the tables of the service as one state: the steps of the task repository, of the event repository, of the idempotency
    records and of the cleaner that deletes from all three (\<open>service_step\<close>), and what holds across them.
  \<^descr>[\<open>Protocol\<close>, \<open>Protocol_Dispatch\<close>, \<open>Protocol_Theorems\<close>, \<open>Protocol_Example\<close>] \<^verbatim>\<open>packages/mcp-protocol/src/sep2663\<close>: requests, headers and the parsing of each method;
    the dispatch over the engine and the mapping of errors; the choice between the protocols (\<^verbatim>\<open>protocol-router.ts\<close>).
  \<^descr>[\<open>Security\<close>] \<^verbatim>\<open>security.ts\<close>: trusted headers, signed tokens with their base64url parts, and the hash a caller is known under.
  \<^descr>[\<open>Notifications\<close>, \<open>Notification_Writer\<close>, \<open>Notification_Streams\<close>, \<open>Notification_Theorems\<close>, \<open>Notification_Renewal\<close>, \<open>Notification_Example\<close>] \<^verbatim>\<open>notifications.ts\<close>: the
    bounded writer (locale \<open>fifo_writer\<close>) and the manager of task subscriptions, whose asynchronous methods are cut at their awaits into the steps
    of the relation \<open>notification_step\<close>.
  \<^descr>[\<open>Event_Feed\<close>, \<open>Event_Feed_Theorems\<close>, \<open>Event_Feed_Example\<close>] \<^verbatim>\<open>packages/mcp-protocol/src/business-events.ts\<close>: discovery, relation lists and event streams over the
    event store, whose reads each find a later state of it.

  \<^bold>\<open>What is shown\<close>

  \<^item> The store: the exact outcome of a transition; in every reachable store status, state, result and error agree, observations are numbered
    without gap, and the tables agree; a task that has ended keeps its one row, with its state, result and error, until the cleaner purges it; no other
    operation takes away a task, an observation or an admission.
  \<^item> Commands: a claimed command is nobody else's while the lease lasts and a lost lease fences its holder out; a cancelled task always ends
    with a stop that is delivered or with its task ended; an adapter snapshot cannot undo a stop; a command is recorded as acknowledged only by a delivery to
    the adapter in the run that records it, for the task as this run read it; a stop that cannot be confirmed fails its task.
  \<^item> Starts: none outside its window; one confirmed too late is stopped; the admission of a task is committed before the adapter is first called for it, and kept.
  \<^item> Calls: a repeated call under its idempotency key gets the first outcome without reaching the adapter for as long as its record is not purged; the
    records refine one register per key that is written once and cleared only by a purge; other callers learn nothing about a task.
  \<^item> Workers and handlers: whatever the adapter answers and the other replicas do, they move the store only by the repository's steps, and a
    recovery scan always completes.
  \<^item> Outbox and delivery: no event is lost or skipped, publication drains the outbox, the retry schedule is bounded and ends.
  \<^item> Business events: every stream is numbered without gap and a provider has one current stream; a fact is taken in once and published in its
    source's order; a lost lease is fenced out for good; a rotation happens once and leaves a closed, replayable stream; replay is
    contiguous; a projection shows exactly the caller's own tasks, page by page.  A run of a source's worker that completes has taken in every event of
    the stream; a rejected event of a source without durable delivery stops its publication, beside any number of replicas that work for the source.
  \<^item> Retention: a tick of the cleaner purges exactly the settled, expired tasks with a free lease (and fails exactly on a stored response), keeps the
    invariants of both stores, and never changes what a caller sees of an unexpired resource event.
  \<^item> Protocol: every answer is a well-formed response with a known code and status; a parsed call is within the documented limits; a request
    about a task of somebody else is answered as if the task did not exist; a caller is accepted by token only with a valid signature and valid claims.
  \<^item> Streams: the writer is a bounded first-in-first-out queue; subscriptions stay within all three capacities with exact gauges, and each
    gets the snapshots of a task with strictly growing revisions; a renewed time to live closes every subscription.  An event listener is sent the acknowledgement, then the stored events right after
    its cursor in the order of the stream, none skipped or repeated across polls and batches, filtered by its authorization only.
  \<^item> Data: results obey the contract and cannot forge a verdict; snapshots, manifests, structures and sequences survive their round trips; timing
    anchors, identities and availability answers are checked completely.

  \<^bold>\<open>Bounds\<close>

  The widths that matter are kept as the code writes them: safe integers (2^53 - 1), dates (8.64e15 ms), the page and batch limits, the caps of the
  back-off delays and the signed 64-bit range of event sequences.  Revisions and counters are unbounded naturals; the database's \<^verbatim>\<open>bigint\<close> would be
  exhausted only after 2^63 transitions of one task.

  \<^bold>\<open>Not modelled\<close>

  The gRPC gateway, HTTP server, configuration and process start-up are input and output; generated protobuf code and migrations carry no logic of
  their own beyond the constraints that \<open>Store\<close> and \<open>Event_Store\<close> state.  Metrics, traces and telemetry exporters never influence a task.  Of
  \<^verbatim>\<open>packages/mcp-protocol\<close> the older protocol (\<^verbatim>\<open>handler.ts\<close>) and the writing of responses are left out.  The conformance runner, the example adapters and the Home Assistant provider are separate programs.
\<close>

end
